(* ===== verification/Prelude.thy ===== *)
theory Prelude
  imports Main "HOL-Library.Word"
begin

text \<open>
  What every component of the development shares: Python exceptions as values of a sum type,
  the sequencing of fallible steps, floor and ceiling division, ordered dictionaries
  (\<^verbatim>\<open>dict\<close> and \<^verbatim>\<open>OrderedDict\<close>) as association lists with distinct keys, and the
  named collections of facts the component theories add to.
\<close>

unbundle bit_operations_syntax

named_theorems result_simps "rules that sequence and invert fallible steps"
named_theorems dict_simps "rules of ordered dictionaries"

section \<open>Exceptions\<close>

text \<open>
  A Python exception that a modelled routine raises. The message is kept, because callers
  of the program branch on it or show it.
\<close>

datatype py_error =
    ValueError string
  | TypeError string
  | KeyError string
  | IndexError string
  | OverflowError string
  | RuntimeError string
  | ZeroDivisionError string
  | OSError string
  | AttributeError string

text \<open>
  \<open>bindr m f\<close> runs \<open>f\<close> on the result of \<open>m\<close> and passes an error of \<open>m\<close> on, as an
  uncaught exception does. \<open>ensure c e\<close> is the guard \<^verbatim>\<open>if not c: raise e\<close>.
\<close>

fun bindr :: "'e + 'a \<Rightarrow> ('a \<Rightarrow> 'e + 'b) \<Rightarrow> 'e + 'b" where
  "bindr (Inl e) f = Inl e"
| "bindr (Inr x) f = f x"

definition ensure :: "bool \<Rightarrow> 'e \<Rightarrow> 'e + unit" where
  "ensure c e = (if c then Inr () else Inl e)"

lemma bindr_eq_Inr [result_simps]:
  "bindr m f = Inr y \<longleftrightarrow> (\<exists>x. m = Inr x \<and> f x = Inr y)"
  by (cases m) auto

lemma bindr_eq_Inl [result_simps]:
  "bindr m f = Inl e \<longleftrightarrow> m = Inl e \<or> (\<exists>x. m = Inr x \<and> f x = Inl e)"
  by (cases m) auto

lemma bindr_InrE:
  assumes "bindr m f = Inr y"
  obtains x where "m = Inr x" and "f x = Inr y"
  using assms by (cases m) auto

lemma ensure_eq_Inr [result_simps]: "ensure c e = Inr u \<longleftrightarrow> c"
  by (simp add: ensure_def)

lemma ensure_eq_Inl [result_simps]: "ensure c e = Inl e' \<longleftrightarrow> \<not> c \<and> e' = e"
  by (auto simp: ensure_def)

lemma ensure_True [simp]: "ensure True e = Inr ()"
  by (simp add: ensure_def)

lemma ensure_False [simp]: "ensure False e = Inl e"
  by (simp add: ensure_def)

text \<open>\<open>map_res f xs\<close> maps a fallible routine over a list and stops at the first error.\<close>

fun map_res :: "('a \<Rightarrow> 'e + 'b) \<Rightarrow> 'a list \<Rightarrow> 'e + 'b list" where
  "map_res f [] = Inr []"
| "map_res f (x # xs) = bindr (f x) (\<lambda>y. bindr (map_res f xs) (\<lambda>ys. Inr (y # ys)))"

lemma map_res_eq_Inr:
  "map_res f xs = Inr ys \<longleftrightarrow> list_all2 (\<lambda>x y. f x = Inr y) xs ys"
proof (induction xs arbitrary: ys)
  case Nil
  then show ?case by auto
next
  case (Cons x xs)
  then show ?case by (auto simp: result_simps list_all2_Cons1)
qed

lemma map_res_member: "map_res f xs = Inr ys \<Longrightarrow> y \<in> set ys \<Longrightarrow> \<exists>x \<in> set xs. f x = Inr y"
  by (induction xs arbitrary: ys) (auto simp: result_simps)

lemma map_res_all_Inr: "(\<And>x. x \<in> set xs \<Longrightarrow> f x = Inr (g x)) \<Longrightarrow> map_res f xs = Inr (map g xs)"
  by (induction xs) auto

text \<open>
  Routines that also change a state: the state an exception leaves behind is kept, as the
  program's objects keep it. \<open>bind_st\<close> sequences them, \<open>ret_st\<close> ends without an exception.
\<close>

definition ret_st :: "'s \<Rightarrow> 'a \<Rightarrow> 's \<times> ('e + 'a)" where
  "ret_st s x = (s, Inr x)"

definition raise_st :: "'s \<Rightarrow> 'e \<Rightarrow> 's \<times> ('e + 'a)" where
  "raise_st s e = (s, Inl e)"

definition bind_st :: "'s \<times> ('e + 'a) \<Rightarrow> ('s \<Rightarrow> 'a \<Rightarrow> 's \<times> ('e + 'b)) \<Rightarrow> 's \<times> ('e + 'b)" where
  "bind_st m f = (case snd m of Inl e \<Rightarrow> (fst m, Inl e) | Inr x \<Rightarrow> f (fst m) x)"

lemma bind_st_simps [simp]:
  "bind_st (s, Inl e) f = (s, Inl e)"
  "bind_st (s, Inr x) f = f s x"
  "bind_st (ret_st s x) f = f s x"
  "bind_st (raise_st s e) f = (s, Inl e)"
  by (simp_all add: bind_st_def ret_st_def raise_st_def)

lemma bind_st_eq_Inr [result_simps]:
  "bind_st m f = (s', Inr y) \<longleftrightarrow> (\<exists>s x. m = (s, Inr x) \<and> f s x = (s', Inr y))"
  by (cases m; cases "snd m") (auto simp: bind_st_def)

lemma ret_st_eq_Inr [result_simps]: "ret_st s x = (s', Inr y) \<longleftrightarrow> s' = s \<and> y = x"
  by (auto simp: ret_st_def)

lemma raise_st_eq_Inr [result_simps]: "raise_st s e = (s', Inr y) \<longleftrightarrow> False"
  by (simp add: raise_st_def)

lemma bind_st_invariant:
  assumes "P (fst m)" and "\<And>s x. m = (s, Inr x) \<Longrightarrow> P s \<Longrightarrow> P (fst (f s x))"
  shows "P (fst (bind_st m f))"
  using assms by (cases m; cases "snd m") (auto simp: bind_st_def)

section \<open>Division\<close>

text \<open>
  Python's \<^verbatim>\<open>//\<close> rounds towards minus infinity, as \<open>div\<close> on \<open>int\<close> does. The ceiling idiom
  \<^verbatim>\<open>(n + d - 1) // d\<close> and the floor are characterised by the multiples of \<open>d\<close> around \<open>n\<close>.
\<close>

lemma floor_div_le: "0 < (d::int) \<Longrightarrow> n div d * d \<le> n"
  by (metis minus_mod_eq_div_mult pos_mod_sign diff_le_self diff_ge_0_iff_ge le_add_same_cancel1 add_diff_cancel_right' diff_add_cancel)

lemma floor_div_less: "0 < (d::int) \<Longrightarrow> n < (n div d + 1) * d"
  by (metis add.commute div_mult_mod_eq distrib_right mult_1 add_less_cancel_left pos_mod_bound mult.commute)

lemma le_floor_div_iff: "0 < (d::int) \<Longrightarrow> k \<le> n div d \<longleftrightarrow> k * d \<le> n"
proof
  assume d: "0 < d" and "k \<le> n div d"
  then have "k * d \<le> n div d * d" by (simp add: mult_right_mono)
  also have "\<dots> \<le> n" using d by (rule floor_div_le)
  finally show "k * d \<le> n" .
next
  assume d: "0 < d" and le: "k * d \<le> n"
  then show "k \<le> n div d" using zdiv_mono1 [OF le d] by simp
qed

lemma floor_div_less_iff: "0 < (d::int) \<Longrightarrow> n div d < k \<longleftrightarrow> n < k * d"
  using le_floor_div_iff [of d k n] by linarith

lemma ceil_div_le_iff: "0 < (d::int) \<Longrightarrow> (n + d - 1) div d \<le> k \<longleftrightarrow> n \<le> k * d"
  using floor_div_less_iff [of d "n + d - 1" "k + 1"] by (auto simp: algebra_simps)

lemma less_ceil_div_iff: "0 < (d::int) \<Longrightarrow> k < (n + d - 1) div d \<longleftrightarrow> k * d < n"
  using ceil_div_le_iff [of d n k] by linarith

lemma floor_div_le_ceil_div: "0 < (d::int) \<Longrightarrow> n div d \<le> (n + d - 1) div d"
  by (rule zdiv_mono1) auto

lemma ceil_div_le_floor_div: "0 < (d::int) \<Longrightarrow> (n + d - 1) div d \<le> n div d + 1"
  by (subst ceil_div_le_iff) (auto intro: less_imp_le floor_div_less)

text \<open>Masking with \<^verbatim>\<open>2**n - 1\<close> is the residue, for negative integers too.\<close>

lemma and_low_bits: "(x::int) AND (2 ^ n - 1) = x mod 2 ^ n"
  by (simp add: take_bit_eq_mask [symmetric] mask_eq_exp_minus_1 [symmetric] take_bit_eq_mod)

section \<open>Ordered dictionaries\<close>

text \<open>
  Python's \<^verbatim>\<open>dict\<close> and \<^verbatim>\<open>OrderedDict\<close> iterate in insertion order. They are association lists:
  assigning an existing key keeps its place, a new key goes to the end.
\<close>

type_synonym ('k, 'v) odict = "('k \<times> 'v) list"

fun od_set :: "'k \<Rightarrow> 'v \<Rightarrow> ('k, 'v) odict \<Rightarrow> ('k, 'v) odict" where
  "od_set k v [] = [(k, v)]"
| "od_set k v ((k', v') # d) = (if k' = k then (k, v) # d else (k', v') # od_set k v d)"

definition od_del :: "'k \<Rightarrow> ('k, 'v) odict \<Rightarrow> ('k, 'v) odict" where
  "od_del k d = filter (\<lambda>e. fst e \<noteq> k) d"

definition od_keys :: "('k, 'v) odict \<Rightarrow> 'k list" where
  "od_keys d = map fst d"

text \<open>\<^verbatim>\<open>move_to_end(k)\<close> for a key that is present, and \<^verbatim>\<open>popitem(last=False)\<close>.\<close>

definition od_move_to_end :: "'k \<Rightarrow> ('k, 'v) odict \<Rightarrow> ('k, 'v) odict" where
  "od_move_to_end k d = od_del k d @ filter (\<lambda>e. fst e = k) d"

text \<open>\<^verbatim>\<open>while len(d) > n: d.popitem(last=False)\<close>.\<close>

definition od_trim :: "nat \<Rightarrow> ('k, 'v) odict \<Rightarrow> ('k, 'v) odict" where
  "od_trim n d = drop (length d - n) d"

definition od_ok :: "('k, 'v) odict \<Rightarrow> bool" where
  "od_ok d \<longleftrightarrow> distinct (od_keys d)"

lemma map_of_od_set [dict_simps]: "map_of (od_set k v d) = (map_of d)(k \<mapsto> v)"
  by (induction d) (auto simp: fun_eq_iff)

lemma map_of_od_del [dict_simps]: "map_of (od_del k d) = (map_of d)(k := None)"
  by (induction d) (auto simp: od_del_def fun_eq_iff)

lemma set_od_keys [dict_simps]: "set (od_keys d) = dom (map_of d)"
  by (auto simp: od_keys_def dom_map_of_conv_image_fst)

lemma od_keys_set: "od_keys (od_set k v d) = (if k \<in> set (od_keys d) then od_keys d else od_keys d @ [k])"
  by (induction d) (fastforce simp: od_keys_def)+

lemma od_keys_del: "od_keys (od_del k d) = filter (\<lambda>x. x \<noteq> k) (od_keys d)"
  by (simp add: od_keys_def od_del_def filter_map o_def)

lemma od_ok_Nil [simp]: "od_ok []"
  by (simp add: od_ok_def od_keys_def)

lemma od_ok_set [simp]: "od_ok d \<Longrightarrow> od_ok (od_set k v d)"
  by (simp add: od_ok_def od_keys_set)

lemma od_ok_del [simp]: "od_ok d \<Longrightarrow> od_ok (od_del k d)"
  by (simp add: od_ok_def od_keys_del)

lemma od_ok_trim [simp]: "od_ok d \<Longrightarrow> od_ok (od_trim n d)"
  by (simp add: od_ok_def od_keys_def od_trim_def drop_map [symmetric])

lemma length_od_trim [simp]: "length (od_trim n d) = min n (length d)"
  by (simp add: od_trim_def)

lemma length_od_del: "length (od_del k d) \<le> length d"
  by (simp add: od_del_def)

lemma length_od_set: "length (od_set k v d) \<le> Suc (length d)"
  by (induction d) auto

lemma od_trim_small [simp]: "length d \<le> n \<Longrightarrow> od_trim n d = d"
  by (simp add: od_trim_def)

lemma filter_fst_eq_map_of:
  "od_ok d \<Longrightarrow> filter (\<lambda>e. fst e = k) d = (case map_of d k of None \<Rightarrow> [] | Some v \<Rightarrow> [(k, v)])"
proof (induction d)
  case Nil
  then show ?case by simp
next
  case (Cons e d)
  obtain k' v' where e: "e = (k', v')" by (cases e)
  from Cons.prems have "od_ok d" and "k' \<notin> set (od_keys d)"
    by (auto simp: od_ok_def od_keys_def e)
  with Cons.IH show ?case
    by (auto simp: e dict_simps dom_def split: option.splits)
qed

lemma od_ok_move [simp]: "od_ok d \<Longrightarrow> od_ok (od_move_to_end k d)"
  by (auto simp: od_move_to_end_def filter_fst_eq_map_of od_ok_def od_keys_def od_del_def
      distinct_map_filter split: option.splits)

lemma map_of_od_move [dict_simps]: "od_ok d \<Longrightarrow> map_of (od_move_to_end k d) = map_of d"
  by (auto simp: od_move_to_end_def filter_fst_eq_map_of map_add_def dict_simps fun_eq_iff
      split: option.splits)

lemma length_od_move [simp]: "length (od_move_to_end k d) = length d"
  using sum_length_filter_compl [of "\<lambda>e. fst e \<noteq> k" d]
  by (simp add: od_move_to_end_def od_del_def)

lemma map_of_od_trim_mono: "od_ok d \<Longrightarrow> map_of (od_trim n d) k = Some v \<Longrightarrow> map_of d k = Some v"
  unfolding od_trim_def od_ok_def od_keys_def
  by (meson in_set_dropD map_of_SomeD map_of_eq_Some_iff)

end
