(* ===== verification/Lp_Math.thy ===== *)
theory Lp_Math
  imports Complex_Main Prelude
begin

text \<open>
  Integer concentrated-liquidity arithmetic: \<^verbatim>\<open>src/rhpools/lp_math.py\<close>. Python integers do not
  overflow, so they are \<open>int\<close>; the uint256 wrap-around of fee growth is the mask the code
  applies. The main results are that \<open>sqrt_ratio_at_tick\<close> is strictly increasing on the whole
  tick domain, with the protocol's end points, and that the binary search of
  \<open>tick_at_sqrt_price_x96\<close> is its inverse.
\<close>

section \<open>Definitions\<close>

definition Q96 :: int where "Q96 = push_bit 96 1"
definition MIN_TICK :: int where "MIN_TICK = - 887272"
definition MAX_TICK :: int where "MAX_TICK = 887272"
definition MIN_SQRT_RATIO :: int where "MIN_SQRT_RATIO = 4295128739"
definition MAX_SQRT_RATIO :: int where
  "MAX_SQRT_RATIO = 1461446703485210103287273052203988822378723970342"
definition MAX_UINT256 :: int where "MAX_UINT256 = push_bit 256 1 - 1"

definition TICK_MULTIPLIERS :: "int list" where
  "TICK_MULTIPLIERS = [
    0xfffcb933bd6fad37aa2d162d1a594001,
    0xfff97272373d413259a46990580e213a,
    0xfff2e50f5f656932ef12357cf3c7fdcc,
    0xffe5caca7e10e4e61c3624eaa0941cd0,
    0xffcb9843d60f6159c9db58835c926644,
    0xff973b41fa98c081472e6896dfb254c0,
    0xff2ea16466c96a3843ec78b326b52861,
    0xfe5dee046a99a2a811c461f1969c3053,
    0xfcbe86c7900a88aedcffc83b479aa3a4,
    0xf987a7253ac413176f2b074cf7815e54,
    0xf3392b0822b70005940c7a398e4b70f3,
    0xe7159475a2c29b7443b29c7fa6e889d9,
    0xd097f3bdfd2022b8845ad8f792aa5825,
    0xa9f746462d870fdf8a65dc1f90e061e5,
    0x70d869a156d2a1b890bb3df62baf32f7,
    0x31be135f97d08fd981231505542fcfa6,
    0x9aa508b5b7a84e1c677de54f3e99bc9,
    0x5d6af8dedb81196699c329225ee604,
    0x2216e584f5fa1ea926041bedfe98,
    0x48a170391f7dc42444e8fa2]"

text \<open>
  \<^verbatim>\<open>wire_int\<close> takes a JSON value. Only the kinds it distinguishes are kept; \<open>isdecimal\<close> is
  restricted to ASCII digits.
\<close>

datatype wire = WBool bool | WInt int | WStr string | WOther

definition is_digit :: "char \<Rightarrow> bool" where
  "is_digit c \<longleftrightarrow> 48 \<le> (of_char c :: nat) \<and> (of_char c :: nat) \<le> 57"

definition digit_value :: "char \<Rightarrow> int" where
  "digit_value c = int (of_char c) - 48"

definition parse_decimal :: "string \<Rightarrow> int" where
  "parse_decimal s = fold (\<lambda>c n. 10 * n + digit_value c) s 0"

fun wire_int :: "wire \<Rightarrow> py_error + int" where
  "wire_int (WBool b) = Inl (ValueError ''boolean is not a contract integer'')"
| "wire_int (WInt n) = Inr n"
| "wire_int (WStr s) =
     (if s = [] \<or> \<not> list_all is_digit s then Inl (ValueError ''invalid contract integer'')
      else Inr (parse_decimal s))"
| "wire_int WOther = Inl (ValueError ''invalid contract integer'')"

text \<open>The loop over \<^verbatim>\<open>enumerate(_TICK_MULTIPLIERS)\<close>.\<close>

fun tick_ratio_loop :: "(nat \<times> int) list \<Rightarrow> int \<Rightarrow> int \<Rightarrow> int" where
  "tick_ratio_loop [] absolute ratio = ratio"
| "tick_ratio_loop ((b, multiplier) # rest) absolute ratio =
     tick_ratio_loop rest absolute
       (if absolute AND push_bit b 1 \<noteq> 0 then drop_bit 128 (ratio * multiplier) else ratio)"

definition sqrt_ratio_at_tick :: "int \<Rightarrow> py_error + int" where
  "sqrt_ratio_at_tick tick =
     (let absolute = \<bar>tick\<bar> in
      if absolute > MAX_TICK then Inl (ValueError ''tick outside V3 domain'')
      else
        let ratio = tick_ratio_loop (enumerate 0 TICK_MULTIPLIERS) absolute (push_bit 128 1);
            ratio = (if tick > 0 then MAX_UINT256 div ratio else ratio);
            remainder_mask = push_bit 32 1 - 1
        in Inr (drop_bit 32 ratio + (if ratio AND remainder_mask \<noteq> 0 then 1 else 0)))"

text \<open>The search loop; an error of \<open>sqrt_ratio_at_tick\<close> would propagate.\<close>

function tick_search :: "int \<Rightarrow> int \<Rightarrow> int \<Rightarrow> py_error + int" where
  "tick_search sqrt_price low high =
     (if low \<le> high then
        (let middle = (low + high) div 2 in
         bindr (sqrt_ratio_at_tick middle) (\<lambda>r.
           if r \<le> sqrt_price then tick_search sqrt_price (middle + 1) high
           else tick_search sqrt_price low (middle - 1)))
      else Inr high)"
  by pat_completeness auto
termination
  by (relation "measure (\<lambda>(v, low, high). nat (high + 1 - low))") auto

declare tick_search.simps [simp del]

definition tick_at_sqrt_price_x96 :: "wire \<Rightarrow> py_error + int" where
  "tick_at_sqrt_price_x96 v =
     bindr (wire_int v) (\<lambda>sqrt_price.
       if \<not> (MIN_SQRT_RATIO < sqrt_price \<and> sqrt_price < MAX_SQRT_RATIO)
       then Inl (ValueError ''sqrt_price_x96 is outside the protocol range'')
       else tick_search sqrt_price MIN_TICK MAX_TICK)"

definition ceil_div :: "int \<Rightarrow> int \<Rightarrow> int" where
  "ceil_div numerator denominator = (numerator + denominator - 1) div denominator"

text \<open>
  The amount formulas divide by the ratios; on the ratios of a pool these are positive. A zero
  divisor, on which Python raises, is outside the domain of every lemma below.
\<close>

definition amount0_delta :: "int \<Rightarrow> int \<Rightarrow> int \<Rightarrow> bool \<Rightarrow> int" where
  "amount0_delta sqrt_a_x96 sqrt_b_x96 liquidity round_up =
     (let (a, b) = (if sqrt_a_x96 > sqrt_b_x96 then (sqrt_b_x96, sqrt_a_x96)
                    else (sqrt_a_x96, sqrt_b_x96));
          numerator1 = push_bit 96 liquidity;
          numerator2 = b - a
      in if round_up then ceil_div (ceil_div (numerator1 * numerator2) b) a
         else numerator1 * numerator2 div b div a)"

definition amount1_delta :: "int \<Rightarrow> int \<Rightarrow> int \<Rightarrow> bool \<Rightarrow> int" where
  "amount1_delta sqrt_a_x96 sqrt_b_x96 liquidity round_up =
     (let (a, b) = (if sqrt_a_x96 > sqrt_b_x96 then (sqrt_b_x96, sqrt_a_x96)
                    else (sqrt_a_x96, sqrt_b_x96));
          numerator = liquidity * (b - a)
      in if round_up then ceil_div numerator Q96 else numerator div Q96)"

definition principal_raw :: "wire \<Rightarrow> wire \<Rightarrow> int \<Rightarrow> int \<Rightarrow> py_error + int \<times> int" where
  "principal_raw liquidity sqrt_price lo hi =
     bindr (wire_int liquidity) (\<lambda>liquidity.
     bindr (wire_int sqrt_price) (\<lambda>sqrt_p.
     bindr (sqrt_ratio_at_tick lo) (\<lambda>lower.
     bindr (sqrt_ratio_at_tick hi) (\<lambda>upper.
       if sqrt_p \<le> lower then
         Inr (push_bit 96 liquidity * (upper - lower) div upper div lower, 0)
       else if sqrt_p \<ge> upper then
         Inr (0, liquidity * (upper - lower) div Q96)
       else
         Inr (push_bit 96 liquidity * (upper - sqrt_p) div upper div sqrt_p,
              liquidity * (sqrt_p - lower) div Q96)))))"

definition fee_growth_amount :: "int \<Rightarrow> int \<Rightarrow> int \<Rightarrow> int" where
  "fee_growth_amount liquidity current previous =
     liquidity * ((current - previous) AND MAX_UINT256) div push_bit 128 1"

definition fee_claim ::
  "int \<Rightarrow> int \<Rightarrow> int \<Rightarrow> int \<Rightarrow> int \<Rightarrow> int \<Rightarrow> int \<Rightarrow> int \<Rightarrow> int \<Rightarrow> int \<Rightarrow> int \<Rightarrow>
   int \<Rightarrow> int \<Rightarrow> int \<Rightarrow> int \<times> int \<times> int \<times> int" where
  "fee_claim liquidity fee_growth0_last fee_growth1_last owed0 owed1 global0 global1
     lower_outside0 lower_outside1 upper_outside0 upper_outside1 tick lower upper =
   (let below0 = (if tick \<ge> lower then lower_outside0 else (global0 - lower_outside0) AND MAX_UINT256);
        below1 = (if tick \<ge> lower then lower_outside1 else (global1 - lower_outside1) AND MAX_UINT256);
        above0 = (if tick < upper then upper_outside0 else (global0 - upper_outside0) AND MAX_UINT256);
        above1 = (if tick < upper then upper_outside1 else (global1 - upper_outside1) AND MAX_UINT256);
        inside0 = (global0 - below0 - above0) AND MAX_UINT256;
        inside1 = (global1 - below1 - above1) AND MAX_UINT256;
        lazy0 = fee_growth_amount liquidity inside0 fee_growth0_last;
        lazy1 = fee_growth_amount liquidity inside1 fee_growth1_last
    in (owed0 + lazy0, owed1 + lazy1, lazy0, lazy1))"

section \<open>The ratio loop\<close>

text \<open>
  The loop tests bit \<open>b\<close> of the fixed \<open>absolute\<close>. Halving \<open>absolute\<close> at every step and testing
  its parity is the same computation and suits induction.
\<close>

fun ratio_steps :: "int list \<Rightarrow> int \<Rightarrow> int \<Rightarrow> int" where
  "ratio_steps [] a r = r"
| "ratio_steps (m # ms) a r = ratio_steps ms (a div 2) (if odd a then r * m div 2 ^ 128 else r)"

lemma tick_ratio_loop_eq:
  "tick_ratio_loop (enumerate n ms) x r = ratio_steps ms (drop_bit n x) r"
proof (induction ms arbitrary: n r)
  case Nil
  then show ?case by simp
next
  case (Cons m ms)
  have "drop_bit n x div 2 = drop_bit (Suc n) x"
    by (simp add: drop_bit_Suc drop_bit_half)
  with Cons.IH show ?case
    by (simp add: and_exp_eq_0_iff_not_bit bit_iff_odd_drop_bit drop_bit_eq_div [of 128])
qed


text \<open>
  \<open>ideal ms a\<close> is the product the loop approximates, with the multipliers read as fractions of
  \<open>2^128\<close>. Every step of the loop rounds down once, and later steps do not amplify the error.
\<close>

fun ideal :: "int list \<Rightarrow> int \<Rightarrow> real" where
  "ideal [] a = 1"
| "ideal (m # ms) a = (if odd a then of_int m / 2 ^ 128 else 1) * ideal ms (a div 2)"

abbreviation unit_multipliers :: "int list \<Rightarrow> bool" where
  "unit_multipliers ms \<equiv> list_all (\<lambda>m. 0 < m \<and> m \<le> 2 ^ 128) ms"

lemma ideal_bounds: "unit_multipliers ms \<Longrightarrow> 0 < ideal ms a \<and> ideal ms a \<le> 1"
proof (induction ms arbitrary: a)
  case Nil
  then show ?case by simp
next
  case (Cons m ms)
  let ?f = "if odd a then of_int m / 2 ^ 128 else (1::real)"
  have f: "0 < ?f" "?f \<le> 1" using Cons.prems by simp_all
  have p: "0 < ideal ms (a div 2)" "ideal ms (a div 2) \<le> 1"
    using Cons.IH [of "a div 2"] Cons.prems by simp_all
  have "0 < ?f * ideal ms (a div 2)" by (rule mult_pos_pos [OF f(1) p(1)])
  moreover have "?f * ideal ms (a div 2) \<le> 1"
    by (rule mult_le_one [OF f(2) less_imp_le [OF p(1)] p(2)])
  ultimately show ?case by simp
qed

lemma real_div_bounds:
  fixes n d :: int
  shows "of_int n / of_int d - 1 < (of_int (n div d) :: real)" "of_int (n div d) \<le> (of_int n / of_int d :: real)"
proof -
  have eq: "\<lfloor>of_int n / (of_int d :: real)\<rfloor> = n div d" by (rule floor_divide_of_int_eq)
  show "of_int n / of_int d - 1 < (of_int (n div d) :: real)"
    "of_int (n div d) \<le> (of_int n / of_int d :: real)"
    unfolding eq [symmetric] by linarith+
qed

lemma ratio_steps_upper:
  "unit_multipliers ms \<Longrightarrow> 0 \<le> r \<Longrightarrow> real_of_int (ratio_steps ms a r) \<le> of_int r * ideal ms a"
proof (induction ms arbitrary: a r)
  case Nil
  then show ?case by simp
next
  case (Cons m ms)
  let ?r = "if odd a then r * m div 2 ^ 128 else r"
  have r0: "0 \<le> ?r" using Cons.prems by (auto simp: pos_imp_zdiv_nonneg_iff)
  have le: "real_of_int ?r \<le> of_int r * (if odd a then of_int m / 2 ^ 128 else 1)"
    using real_div_bounds(2) [of "r * m" "2 ^ 128"] by simp
  have "real_of_int (ratio_steps ms (a div 2) ?r) \<le> of_int ?r * ideal ms (a div 2)"
    using Cons.prems r0 by (intro Cons.IH) auto
  also have "\<dots> \<le> of_int r * (if odd a then of_int m / 2 ^ 128 else 1) * ideal ms (a div 2)"
    using le Cons.prems ideal_bounds [of ms "a div 2"] by (intro mult_right_mono) auto
  finally show ?case by (simp add: mult.assoc)
qed

lemma ratio_steps_lower:
  "unit_multipliers ms \<Longrightarrow> 0 \<le> r \<Longrightarrow>
   of_int r * ideal ms a - real (length ms) \<le> real_of_int (ratio_steps ms a r)"
proof (induction ms arbitrary: a r)
  case Nil
  then show ?case by simp
next
  case (Cons m ms)
  let ?r = "if odd a then r * m div 2 ^ 128 else r"
  let ?f = "if odd a then of_int m / 2 ^ 128 else (1::real)"
  let ?p = "ideal ms (a div 2)"
  have r0: "0 \<le> ?r" using Cons.prems by (auto simp: pos_imp_zdiv_nonneg_iff)
  have p: "0 \<le> ?p" "?p \<le> 1" using Cons.prems ideal_bounds [of ms "a div 2"] by auto
  have ge: "of_int r * ?f - 1 \<le> real_of_int ?r"
    using real_div_bounds(1) [of "r * m" "2 ^ 128"] by simp
  have "of_int r * (?f * ?p) - 1 \<le> of_int r * (?f * ?p) - ?p"
    using p by simp
  also have "\<dots> = (of_int r * ?f - 1) * ?p" by (simp add: algebra_simps)
  also have "\<dots> \<le> of_int ?r * ?p" using ge p by (intro mult_right_mono) auto
  finally have step: "of_int r * (?f * ?p) - 1 \<le> of_int ?r * ?p" .
  have ih: "of_int ?r * ?p - real (length ms) \<le> real_of_int (ratio_steps ms (a div 2) ?r)"
    using Cons.prems r0 by (intro Cons.IH) auto
  show ?case using step ih by simp
qed

section \<open>Consecutive ticks\<close>

text \<open>
  Going from \<open>a\<close> to \<open>a + 1\<close> clears a run of low one bits and sets the next bit, so the product
  changes by one multiplier over the product of the lower ones. \<open>carry_ok\<close> checks, with a
  rounded-down running product, that each of these quotients is at most \<open>1 - 4/100000\<close>.
\<close>

fun carry_ok :: "int \<Rightarrow> int list \<Rightarrow> bool" where
  "carry_ok c [] = True"
| "carry_ok c (m # ms) = (m * 100000 \<le> 99996 * c \<and> carry_ok (c * m div 2 ^ 128) ms)"

lemma ideal_step:
  "carry_ok c ms \<Longrightarrow> unit_multipliers ms \<Longrightarrow> 0 \<le> b \<Longrightarrow> b + 1 < 2 ^ length ms \<Longrightarrow>
   of_int c / 2 ^ 128 \<le> q \<Longrightarrow>
   ideal ms (b + 1) \<le> 99996 / 100000 * q * ideal ms b"
proof (induction ms arbitrary: b c q)
  case Nil
  then show ?case by simp
next
  case (Cons m ms)
  have m: "0 < m" "m * 100000 \<le> 99996 * c" and um: "unit_multipliers ms"
    and ck: "carry_ok (c * m div 2 ^ 128) ms"
    using Cons.prems by auto
  show ?case
  proof (cases "even b")
    case True
    have "(b + 1) div 2 = b div 2" using True by presburger
    moreover have "real_of_int m / 2 ^ 128 \<le> 99996 / 100000 * q"
    proof -
      have "real_of_int (m * 100000) \<le> of_int (99996 * c)" using m by (simp only: of_int_le_iff)
      then have "real_of_int m / 2 ^ 128 \<le> 99996 / 100000 * (of_int c / 2 ^ 128)" by simp
      also have "\<dots> \<le> 99996 / 100000 * q" using Cons.prems by simp
      finally show ?thesis .
    qed
    ultimately show ?thesis
      using True ideal_bounds [OF um, of "b div 2"] by (auto intro!: mult_right_mono)
  next
    case False
    let ?q = "q * (of_int m / 2 ^ 128)"
    have half: "(b + 1) div 2 = b div 2 + 1" "even (b + 1)" and b: "b = 2 * (b div 2) + 1"
      using False by presburger+
    have small: "0 \<le> b div 2" "b div 2 + 1 < 2 ^ length ms"
      using Cons.prems b by auto
    have "of_int (c * m div 2 ^ 128) / 2 ^ 128 \<le> (of_int (c * m) / 2 ^ 128 / 2 ^ 128 :: real)"
      using real_div_bounds(2) [of "c * m" "2 ^ 128"] by (intro divide_right_mono) auto
    also have "\<dots> = of_int c / 2 ^ 128 * (of_int m / 2 ^ 128)" by simp
    also have "\<dots> \<le> ?q" using Cons.prems m by (intro mult_right_mono) auto
    finally have "of_int (c * m div 2 ^ 128) / 2 ^ 128 \<le> ?q" .
    then have "ideal ms (b div 2 + 1) \<le> 99996 / 100000 * ?q * ideal ms (b div 2)"
      using Cons.IH [OF ck um small] by blast
    then show ?thesis using half False by simp
  qed
qed

lemma tick_multipliers_unit: "unit_multipliers TICK_MULTIPLIERS"
  by (simp add: TICK_MULTIPLIERS_def)

lemma tick_multipliers_carry: "carry_ok (2 ^ 128) TICK_MULTIPLIERS"
  by (simp add: TICK_MULTIPLIERS_def)

lemma length_tick_multipliers: "length TICK_MULTIPLIERS = 20"
  by (simp add: TICK_MULTIPLIERS_def)


section \<open>The ratio decreases by more than one output unit per tick\<close>

definition tick_ratio :: "int \<Rightarrow> int" where
  "tick_ratio a = ratio_steps TICK_MULTIPLIERS a (2 ^ 128)"

lemma tick_ratio_MAX: "tick_ratio 887272 = 18447437462383981825"
  by (simp add: tick_ratio_def TICK_MULTIPLIERS_def)

lemma tick_ratio_real:
  "of_int (tick_ratio a) \<le> 2 ^ 128 * ideal TICK_MULTIPLIERS a"
  "2 ^ 128 * ideal TICK_MULTIPLIERS a - 20 \<le> of_int (tick_ratio a)"
  using ratio_steps_upper [OF tick_multipliers_unit, of "2 ^ 128" a]
    ratio_steps_lower [OF tick_multipliers_unit, of "2 ^ 128" a]
  by (simp_all add: tick_ratio_def length_tick_multipliers)

lemma tick_ratio_le: "tick_ratio a \<le> 2 ^ 128"
proof -
  have "real_of_int (tick_ratio a) \<le> 2 ^ 128 * 1"
    using tick_ratio_real(1) [of a] ideal_bounds [OF tick_multipliers_unit, of a] by simp
  then show ?thesis by simp
qed

lemma ideal_tick_step:
  assumes "0 \<le> a" and "a < 887272"
  shows "ideal TICK_MULTIPLIERS (a + 1) \<le> 99996 / 100000 * ideal TICK_MULTIPLIERS a"
  using ideal_step [OF tick_multipliers_carry tick_multipliers_unit, of a 1] assms
  by (simp add: length_tick_multipliers)

lemma ideal_tick_lower:
  assumes "0 \<le> a" and "a \<le> 887272"
  shows "18447437462383981825 \<le> 2 ^ 128 * ideal TICK_MULTIPLIERS a"
  using assms(2,1)
proof (induction a rule: int_le_induct)
  case base
  then show ?case using tick_ratio_real(1) [of 887272] by (simp add: tick_ratio_MAX)
next
  case (step a)
  have "ideal TICK_MULTIPLIERS a \<le> 99996 / 100000 * ideal TICK_MULTIPLIERS (a - 1)"
    using ideal_tick_step [of "a - 1"] step by simp
  then have "ideal TICK_MULTIPLIERS a \<le> ideal TICK_MULTIPLIERS (a - 1)"
    using ideal_bounds [OF tick_multipliers_unit, of "a - 1"] by linarith
  moreover have "18447437462383981825 \<le> 2 ^ 128 * ideal TICK_MULTIPLIERS a"
    using step by simp
  ultimately show ?case by simp
qed

lemma tick_ratio_gap:
  assumes "0 \<le> a" and "a < 887272"
  shows "tick_ratio (a + 1) + 2 ^ 34 \<le> tick_ratio a"
proof -
  have "real_of_int (tick_ratio (a + 1) + 2 ^ 34) \<le> of_int (tick_ratio a)"
    using tick_ratio_real(1) [of "a + 1"] tick_ratio_real(2) [of a]
      ideal_tick_step [OF assms] ideal_tick_lower [of a] assms
    by simp
  then show ?thesis by (simp only: of_int_le_iff)
qed

lemma tick_ratio_ge:
  assumes "0 \<le> a" and "a \<le> 887272"
  shows "18447437462383981825 \<le> tick_ratio a"
  using assms(2,1)
proof (induction a rule: int_le_induct)
  case base
  then show ?case by (simp add: tick_ratio_MAX)
next
  case (step a)
  then show ?case using tick_ratio_gap [of "a - 1"] by simp
qed

text \<open>The rounding of the result, and the reciprocal taken for positive ticks.\<close>

definition round32 :: "int \<Rightarrow> int" where
  "round32 q = q div 2 ^ 32 + (if q mod 2 ^ 32 \<noteq> 0 then 1 else 0)"

lemma carry_mono:
  fixes a b a' b' :: int
  assumes "0 \<le> b" "b < 4294967296" "0 \<le> b'" "b' < 4294967296"
    and "4294967296 * a + b + 4294967296 \<le> 4294967296 * a' + b'"
  shows "a + (if b \<noteq> 0 then 1 else 0) < a' + (if b' \<noteq> 0 then 1 else 0)"
  using assms by (cases "b = 0"; cases "b' = 0"; simp)

lemma round32_mono: "q + 2 ^ 32 \<le> q' \<Longrightarrow> round32 q < round32 q'"
  using carry_mono [of "q mod 4294967296" "q' mod 4294967296" "q div 4294967296" "q' div 4294967296"]
  by (simp add: round32_def)

lemma max_uint256: "MAX_UINT256 = 2 ^ 256 - 1"
  by (simp add: MAX_UINT256_def)

lemma reciprocal_gap:
  assumes gap: "r' + 2 ^ 34 \<le> r" and pos: "0 < r'" and le: "r \<le> 2 ^ 128"
  shows "MAX_UINT256 div r + 2 ^ 32 \<le> MAX_UINT256 div r'"
proof -
  let ?k = "MAX_UINT256 div r"
  have r: "0 < r" using gap pos by simp
  have k: "2 ^ 128 - 1 \<le> ?k"
  proof (subst le_floor_div_iff [OF r])
    have "(2 ^ 128 - 1) * r \<le> (2 ^ 128 - 1) * 2 ^ 128" using le by simp
    also have "\<dots> \<le> MAX_UINT256" by (simp add: max_uint256)
    finally show "(2 ^ 128 - 1) * r \<le> MAX_UINT256" .
  qed
  have "(?k + 2 ^ 32) * r' \<le> (?k + 2 ^ 32) * (r - 2 ^ 34)"
    using gap k by (intro mult_left_mono) auto
  also have "\<dots> \<le> ?k * r"
    using k le by (simp add: algebra_simps)
  also have "\<dots> \<le> MAX_UINT256" by (rule floor_div_le [OF r])
  finally show ?thesis by (simp only: le_floor_div_iff [OF pos])
qed

definition tick_price :: "int \<Rightarrow> int" where
  "tick_price t = round32 (if t > 0 then MAX_UINT256 div tick_ratio t else tick_ratio (- t))"

lemma sqrt_ratio_at_tick_eq:
  "sqrt_ratio_at_tick t =
     (if MIN_TICK \<le> t \<and> t \<le> MAX_TICK then Inr (tick_price t)
      else Inl (ValueError ''tick outside V3 domain''))"
proof -
  have mask: "x AND 4294967295 = x mod 4294967296" for x :: int
    using and_low_bits [of x 32] by simp
  show ?thesis
    by (auto simp: sqrt_ratio_at_tick_def tick_ratio_loop_eq tick_price_def tick_ratio_def
        round32_def drop_bit_eq_div mask MIN_TICK_def MAX_TICK_def Let_def)
qed

lemma tick_price_step:
  assumes "MIN_TICK \<le> t" and "t < MAX_TICK"
  shows "tick_price t < tick_price (t + 1)"
proof -
  consider "t < 0" | "t = 0" | "0 < t" by linarith
  then show ?thesis
  proof cases
    case 1
    then show ?thesis
      using tick_ratio_gap [of "- t - 1"] assms
      by (auto simp: tick_price_def MIN_TICK_def intro!: round32_mono)
  next
    case 2
    have "2 ^ 128 + 2 ^ 32 \<le> MAX_UINT256 div tick_ratio 1"
    proof (subst le_floor_div_iff)
      show "0 < tick_ratio 1" using tick_ratio_ge [of 1] by simp
      have "(2 ^ 128 + 2 ^ 32) * tick_ratio 1 \<le> (2 ^ 128 + 2 ^ 32) * (2 ^ 128 - 2 ^ 34)"
        using tick_ratio_gap [of 0] tick_ratio_le [of 0] by (intro mult_left_mono) auto
      then show "(2 ^ 128 + 2 ^ 32) * tick_ratio 1 \<le> MAX_UINT256"
        by (simp add: max_uint256)
    qed
    then show ?thesis
      using 2 tick_ratio_le [of 0] by (auto simp: tick_price_def intro!: round32_mono)
  next
    case 3
    have "MAX_UINT256 div tick_ratio t + 2 ^ 32 \<le> MAX_UINT256 div tick_ratio (t + 1)"
      using 3 assms tick_ratio_gap [of t] tick_ratio_ge [of "t + 1"] tick_ratio_le [of t]
      by (intro reciprocal_gap) (auto simp: MAX_TICK_def)
    then show ?thesis using 3 by (auto simp: tick_price_def intro!: round32_mono)
  qed
qed


section \<open>Increasing curves and the binary search\<close>

text \<open>The interface the search needs of the ratio function: it increases at every tick.\<close>

locale price_curve =
  fixes price :: "int \<Rightarrow> int" and lo hi :: int
  assumes price_step: "lo \<le> t \<Longrightarrow> t < hi \<Longrightarrow> price t < price (t + 1)"
begin

lemma price_less: "s < t \<Longrightarrow> lo \<le> s \<Longrightarrow> t \<le> hi \<Longrightarrow> price s < price t"
proof (induction t rule: int_gr_induct)
  case base
  then show ?case using price_step [of s] by simp
next
  case (step t)
  then show ?case using price_step [of t] by simp
qed

lemma price_le_iff:
  "lo \<le> s \<Longrightarrow> s \<le> hi \<Longrightarrow> lo \<le> t \<Longrightarrow> t \<le> hi \<Longrightarrow> price s \<le> price t \<longleftrightarrow> s \<le> t"
  using price_less [of s t] price_less [of t s] by (cases s t rule: linorder_cases) auto

lemma bracket_unique:
  assumes "lo \<le> s" "s < hi" "price s \<le> v" "v < price (s + 1)"
    and "lo \<le> t" "t < hi" "price t \<le> v" "v < price (t + 1)"
  shows "s = t"
proof (rule ccontr)
  assume "s \<noteq> t"
  then consider "s + 1 \<le> t" | "t + 1 \<le> s" by linarith
  then show False
  proof cases
    case 1
    then have "price (s + 1) \<le> price t" using assms by (subst price_le_iff) auto
    then show False using assms by linarith
  next
    case 2
    then have "price (t + 1) \<le> price s" using assms by (subst price_le_iff) auto
    then show False using assms by linarith
  qed
qed

end

interpretation v3: price_curve tick_price MIN_TICK MAX_TICK
  by unfold_locales (rule tick_price_step)

lemma tick_price_MIN: "tick_price MIN_TICK = MIN_SQRT_RATIO"
  by (simp add: tick_price_def MIN_TICK_def tick_ratio_MAX round32_def MIN_SQRT_RATIO_def)

lemma tick_price_MAX: "tick_price MAX_TICK = MAX_SQRT_RATIO"
  by (simp add: tick_price_def MAX_TICK_def tick_ratio_MAX round32_def MAX_SQRT_RATIO_def
      MAX_UINT256_def)

lemma tick_price_pos: "MIN_TICK \<le> t \<Longrightarrow> t \<le> MAX_TICK \<Longrightarrow> 0 < tick_price t"
  using v3.price_le_iff [of MIN_TICK t] tick_price_MIN
  by (simp add: MIN_TICK_def MAX_TICK_def MIN_SQRT_RATIO_def)

lemma tick_search_brackets:
  "MIN_TICK \<le> low \<Longrightarrow> high \<le> MAX_TICK \<Longrightarrow> low \<le> high + 1 \<Longrightarrow>
   (low = MIN_TICK \<or> tick_price (low - 1) \<le> v) \<Longrightarrow>
   (high = MAX_TICK \<or> v < tick_price (high + 1)) \<Longrightarrow>
   \<exists>r. tick_search v low high = Inr r \<and> low - 1 \<le> r \<and> r \<le> high \<and>
       (r = MIN_TICK - 1 \<or> tick_price r \<le> v) \<and> (r = MAX_TICK \<or> v < tick_price (r + 1))"
proof (induction v low high rule: tick_search.induct)
  case (1 v low high)
  show ?case
  proof (cases "low \<le> high")
    case False
    then have "tick_search v low high = Inr high" by (subst tick_search.simps) simp
    moreover have "low = high + 1" using False "1.prems" by simp
    ultimately show ?thesis using "1.prems" by auto
  next
    case True
    let ?m = "(low + high) div 2"
    have m: "low \<le> ?m" "?m \<le> high" using True by auto
    then have eq: "sqrt_ratio_at_tick ?m = Inr (tick_price ?m)"
      using "1.prems" by (simp add: sqrt_ratio_at_tick_eq)
    show ?thesis
    proof (cases "tick_price ?m \<le> v")
      case True
      have "tick_search v low high = tick_search v (?m + 1) high"
        using m eq True by (subst tick_search.simps) (simp add: Let_def)
      then show ?thesis
        using "1.IH"(1) [OF \<open>low \<le> high\<close> refl] m True "1.prems" by fastforce
    next
      case False
      have "tick_search v low high = tick_search v low (?m - 1)"
        using m eq False by (subst tick_search.simps) (simp add: Let_def)
      then show ?thesis
        using "1.IH"(2) [OF \<open>low \<le> high\<close> refl] m False "1.prems" by fastforce
    qed
  qed
qed

lemma tick_at_in_range:
  assumes "wire_int w = Inr v" "MIN_SQRT_RATIO < v" "v < MAX_SQRT_RATIO"
  shows "\<exists>t. tick_at_sqrt_price_x96 w = Inr t \<and> MIN_TICK \<le> t \<and> t < MAX_TICK \<and>
    tick_price t \<le> v \<and> v < tick_price (t + 1)"
proof -
  obtain r where r: "tick_search v MIN_TICK MAX_TICK = Inr r" "MIN_TICK - 1 \<le> r" "r \<le> MAX_TICK"
    "r = MIN_TICK - 1 \<or> tick_price r \<le> v" "r = MAX_TICK \<or> v < tick_price (r + 1)"
    using tick_search_brackets [of MIN_TICK MAX_TICK v] by (auto simp: MIN_TICK_def MAX_TICK_def)
  have "r \<noteq> MIN_TICK - 1" "r \<noteq> MAX_TICK"
    using r(4,5) assms(2,3) tick_price_MIN tick_price_MAX
    by (auto simp: MIN_TICK_def MAX_TICK_def)
  then show ?thesis using r assms by (auto simp: tick_at_sqrt_price_x96_def)
qed


section \<open>Amounts and fees\<close>

lemma Q96_eq: "Q96 = 2 ^ 96"
  by (simp add: Q96_def)

lemma ceil_div_le: "0 < d \<Longrightarrow> ceil_div n d \<le> k \<longleftrightarrow> n \<le> k * d"
  unfolding ceil_div_def by (rule ceil_div_le_iff)

lemma less_ceil_div: "0 < d \<Longrightarrow> k < ceil_div n d \<longleftrightarrow> k * d < n"
  unfolding ceil_div_def by (rule less_ceil_div_iff)

lemma ceil_div_mult_ge: "0 < d \<Longrightarrow> n \<le> ceil_div n d * d"
  using ceil_div_le [of d n "ceil_div n d"] by simp

lemma ceil_div_ceil_div:
  assumes a: "0 < a" and b: "0 < b"
  shows "ceil_div (ceil_div n b) a = ceil_div n (a * b)"
proof (rule order_antisym)
  show "ceil_div (ceil_div n b) a \<le> ceil_div n (a * b)"
    using ceil_div_mult_ge [of "a * b" n] a b by (simp add: ceil_div_le mult.assoc)
  have "n \<le> ceil_div n b * b" using b by (rule ceil_div_mult_ge)
  also have "\<dots> \<le> ceil_div (ceil_div n b) a * a * b"
    using a b by (intro mult_right_mono ceil_div_mult_ge) auto
  finally show "ceil_div n (a * b) \<le> ceil_div (ceil_div n b) a"
    using a b by (simp add: ceil_div_le mult.assoc)
qed

lemma floor_ceil_div_bounds:
  assumes "0 < (d::int)"
  shows "n div d * d \<le> n" "n \<le> ceil_div n d * d" "ceil_div n d \<le> n div d + 1"
    "n div d \<le> ceil_div n d"
  using assms floor_div_le [of d n] ceil_div_le [of d n "ceil_div n d"]
    floor_div_le_ceil_div [of d n] ceil_div_le_floor_div [of d n]
  by (simp_all add: ceil_div_def)

text \<open>Both roundings of \<open>amount0_delta\<close> are one division by the product of the two ratios.\<close>

lemma amount0_delta_down:
  "0 < a \<Longrightarrow> a \<le> b \<Longrightarrow> amount0_delta a b l False = l * 2 ^ 96 * (b - a) div (a * b)"
  by (simp add: amount0_delta_def push_bit_eq_mult zdiv_zmult2_eq [symmetric] mult.commute)

lemma amount0_delta_up:
  "0 < a \<Longrightarrow> a \<le> b \<Longrightarrow> amount0_delta a b l True = ceil_div (l * 2 ^ 96 * (b - a)) (a * b)"
  by (simp add: amount0_delta_def push_bit_eq_mult ceil_div_ceil_div)

lemma amount1_delta_down: "a \<le> b \<Longrightarrow> amount1_delta a b l False = l * (b - a) div 2 ^ 96"
  by (simp add: amount1_delta_def Q96_eq)

lemma amount1_delta_up: "a \<le> b \<Longrightarrow> amount1_delta a b l True = ceil_div (l * (b - a)) (2 ^ 96)"
  by (simp add: amount1_delta_def Q96_eq)

lemmas amount_delta_eqs = amount0_delta_down amount0_delta_up amount1_delta_down amount1_delta_up

lemma amount_delta_sym:
  "amount0_delta a b l up = amount0_delta b a l up" "amount1_delta a b l up = amount1_delta b a l up"
  by (auto simp: amount0_delta_def amount1_delta_def)

text \<open>Masking works modulo \<open>2^256\<close>, so it can be pushed to the outside of any difference.\<close>

lemma and_max_uint256: "x AND MAX_UINT256 = x mod 2 ^ 256"
  unfolding max_uint256 by (rule and_low_bits)

lemma fee_growth_amount_eq:
  "fee_growth_amount l c p = l * ((c - p) mod 2 ^ 256) div 2 ^ 128"
  by (simp add: fee_growth_amount_def and_max_uint256)

text \<open>
  The growth inside a range over unbounded integers: what the wrapped computation stands for.
\<close>

definition growth_inside :: "int \<Rightarrow> int \<Rightarrow> int \<Rightarrow> int \<Rightarrow> int \<Rightarrow> int \<Rightarrow> int" where
  "growth_inside g lower_out upper_out tick lower upper =
     g - (if tick \<ge> lower then lower_out else g - lower_out)
       - (if tick < upper then upper_out else g - upper_out)"

lemma wrapped_inside:
  "((g mod W) - (if tick \<ge> lower then lo mod W else ((g mod W) - (lo mod W)) mod W)
      - (if tick < upper then up mod W else ((g mod W) - (up mod W)) mod W)) mod W =
   growth_inside g lo up tick lower upper mod (W::int)"
proof -
  have diff3: "(x mod W - y mod W - z mod W) mod W = (x - y - z) mod W" for x y z
    by (metis mod_diff_eq mod_diff_left_eq)
  have below: "(if c then x mod W else ((g mod W) - (x mod W)) mod W) =
      (if c then x else g - x) mod W" for c x
    by (simp add: mod_diff_eq)
  show ?thesis by (simp only: below diff3 growth_inside_def)
qed

lemma fee_growth_amount_wrapped:
  assumes "0 \<le> i - l" "i - l < 2 ^ 256"
  shows "fee_growth_amount q (i mod 2 ^ 256) (l mod 2 ^ 256) = q * (i - l) div 2 ^ 128"
  using assms by (simp add: fee_growth_amount_eq mod_simps)


section \<open>Properties\<close>

text \<open>
  C1. \<open>sqrt_ratio_at_tick\<close> is strictly increasing: of two ticks of the protocol domain the
  greater one has the greater square-root ratio, and both calls return.
\<close>

theorem sqrt_ratio_strictly_increasing:
  assumes "MIN_TICK \<le> s" and "s < t" and "t \<le> MAX_TICK"
  shows "\<exists>p q. sqrt_ratio_at_tick s = Inr p \<and> sqrt_ratio_at_tick t = Inr q \<and> 0 < p \<and> p < q"
  using assms v3.price_less [of s t] tick_price_pos [of s] by (simp add: sqrt_ratio_at_tick_eq)

theorem sqrt_ratio_strictly_increasing_witness:
  "\<exists>p q. sqrt_ratio_at_tick (- 1) = Inr p \<and> sqrt_ratio_at_tick 1 = Inr q \<and> 0 < p \<and> p < q"
  by (rule sqrt_ratio_strictly_increasing) (simp_all add: MIN_TICK_def MAX_TICK_def)

text \<open>
  \<open>sqrt_ratio_at_tick\<close> returns exactly on \<open>MIN_TICK .. MAX_TICK\<close>, raises outside, and takes
  the protocol's extreme ratios at the two ends.
\<close>

theorem sqrt_ratio_domain:
  "sqrt_ratio_at_tick MIN_TICK = Inr MIN_SQRT_RATIO \<and>
   sqrt_ratio_at_tick MAX_TICK = Inr MAX_SQRT_RATIO \<and>
   (sqrt_ratio_at_tick t = Inl (ValueError ''tick outside V3 domain'') \<longleftrightarrow>
    t < MIN_TICK \<or> MAX_TICK < t)"
  using tick_price_MIN tick_price_MAX
  by (auto simp: sqrt_ratio_at_tick_eq MIN_TICK_def MAX_TICK_def)

text \<open>
  C2. \<open>tick_at_sqrt_price_x96\<close> returns for every price strictly inside the protocol range, and
  the tick it returns is the greatest one whose ratio is not above the price.
\<close>

theorem tick_at_sqrt_price_greatest:
  assumes "wire_int w = Inr v" and "MIN_SQRT_RATIO < v" and "v < MAX_SQRT_RATIO"
  shows "\<exists>t p. tick_at_sqrt_price_x96 w = Inr t \<and> sqrt_ratio_at_tick t = Inr p \<and> p \<le> v \<and>
    (\<forall>u q. sqrt_ratio_at_tick u = Inr q \<and> q \<le> v \<longrightarrow> u \<le> t)"
proof -
  obtain t where t: "tick_at_sqrt_price_x96 w = Inr t" "MIN_TICK \<le> t" "t < MAX_TICK"
      "tick_price t \<le> v" "v < tick_price (t + 1)"
    using tick_at_in_range [OF assms] by blast
  have "u \<le> t" if "sqrt_ratio_at_tick u = Inr q" "q \<le> v" for u q
  proof (rule ccontr)
    assume "\<not> u \<le> t"
    then have "tick_price (t + 1) \<le> tick_price u"
      using that t by (subst v3.price_le_iff) (auto simp: sqrt_ratio_at_tick_eq split: if_splits)
    with that t show False by (auto simp: sqrt_ratio_at_tick_eq split: if_splits)
  qed
  with t show ?thesis by (auto simp: sqrt_ratio_at_tick_eq)
qed

theorem tick_at_sqrt_price_greatest_witness:
  "\<exists>t p. tick_at_sqrt_price_x96 (WInt (2 ^ 96)) = Inr t \<and> sqrt_ratio_at_tick t = Inr p \<and>
    p \<le> 2 ^ 96 \<and> (\<forall>u q. sqrt_ratio_at_tick u = Inr q \<and> q \<le> 2 ^ 96 \<longrightarrow> u \<le> t)"
  by (rule tick_at_sqrt_price_greatest) (simp_all add: MIN_SQRT_RATIO_def MAX_SQRT_RATIO_def)

text \<open>
  Round trip: the tick of the ratio of a tick is that tick, for every tick strictly inside
  the domain.
\<close>

theorem tick_ratio_roundtrip:
  assumes "MIN_TICK < t" and "t < MAX_TICK" and "sqrt_ratio_at_tick t = Inr p"
  shows "tick_at_sqrt_price_x96 (WInt p) = Inr t"
proof -
  have p: "p = tick_price t" using assms by (simp add: sqrt_ratio_at_tick_eq)
  have range: "MIN_SQRT_RATIO < p" "p < MAX_SQRT_RATIO"
    using assms v3.price_less [of MIN_TICK t] v3.price_less [of t MAX_TICK]
    by (simp_all add: p tick_price_MIN tick_price_MAX)
  obtain u where u: "tick_at_sqrt_price_x96 (WInt p) = Inr u" "MIN_TICK \<le> u" "u < MAX_TICK"
      "tick_price u \<le> p" "p < tick_price (u + 1)"
    using tick_at_in_range [of "WInt p" p] range by auto
  have "u = t"
    by (rule v3.bracket_unique [of u p t]) (use u assms p tick_price_step [of t] in auto)
  with u show ?thesis by simp
qed

theorem tick_ratio_roundtrip_witness:
  "tick_at_sqrt_price_x96 (WInt (2 ^ 96)) = Inr 0"
proof (rule tick_ratio_roundtrip)
  show "sqrt_ratio_at_tick 0 = Inr (2 ^ 96)"
    by (simp add: sqrt_ratio_at_tick_def TICK_MULTIPLIERS_def MAX_TICK_def)
qed (simp_all add: MIN_TICK_def MAX_TICK_def)

text \<open>
  Rounding of \<open>amount0_delta\<close>: the rounded-down amount never exceeds the exact quotient
  \<open>L * 2^96 * (b - a) / (a * b)\<close>, the rounded-up one is never below it, and they differ by at
  most one unit, although the code divides twice.
\<close>

theorem amount0_delta_rounding:
  assumes "0 < a" and "a \<le> b"
  shows "amount0_delta a b l False * (a * b) \<le> l * 2 ^ 96 * (b - a) \<and>
    l * 2 ^ 96 * (b - a) \<le> amount0_delta a b l True * (a * b) \<and>
    amount0_delta a b l False \<le> amount0_delta a b l True \<and>
    amount0_delta a b l True \<le> amount0_delta a b l False + 1"
proof -
  have "0 < a * b" using assms by simp
  from floor_ceil_div_bounds [OF this, of "l * 2 ^ 96 * (b - a)"] show ?thesis
    using assms by (simp only: amount_delta_eqs)
qed

theorem amount0_delta_rounding_witness:
  "amount0_delta 7 9 5 False * (7 * 9) \<le> 5 * 2 ^ 96 * (9 - 7) \<and>
    5 * 2 ^ 96 * (9 - 7) \<le> amount0_delta 7 9 5 True * (7 * 9) \<and>
    amount0_delta 7 9 5 False \<le> amount0_delta 7 9 5 True \<and>
    amount0_delta 7 9 5 True \<le> amount0_delta 7 9 5 False + 1"
  by (rule amount0_delta_rounding) simp_all

text \<open>
  \<open>fee_claim\<close> on the wrapped uint256 accumulators pays what unbounded accumulators would: if
  the true growth inside the range since the last collection is between 0 and \<open>2^256\<close>, the lazy
  fees are the liquidity times that growth, whatever the accumulators wrapped to.
\<close>

theorem fee_claim_unbounded:
  fixes W g0 g1 lo0 lo1 up0 up1 last0 last1 :: int
  assumes "W = 2 ^ 256"
    and "i0 = growth_inside g0 lo0 up0 tick lower upper"
    and "i1 = growth_inside g1 lo1 up1 tick lower upper"
    and "0 \<le> i0 - last0" and "i0 - last0 < W" and "0 \<le> i1 - last1" and "i1 - last1 < W"
  shows "fee_claim q (last0 mod W) (last1 mod W) owed0 owed1 (g0 mod W) (g1 mod W)
      (lo0 mod W) (lo1 mod W) (up0 mod W) (up1 mod W) tick lower upper =
    (owed0 + q * (i0 - last0) div 2 ^ 128, owed1 + q * (i1 - last1) div 2 ^ 128,
     q * (i0 - last0) div 2 ^ 128, q * (i1 - last1) div 2 ^ 128)"
proof -
  have W: "x AND MAX_UINT256 = x mod W" for x by (simp add: and_max_uint256 assms(1))
  have lazy: "fee_growth_amount q (i0 mod W) (last0 mod W) = q * (i0 - last0) div 2 ^ 128"
      "fee_growth_amount q (i1 mod W) (last1 mod W) = q * (i1 - last1) div 2 ^ 128"
    unfolding assms(1) by (rule fee_growth_amount_wrapped; use assms in simp)+
  show ?thesis
    using lazy unfolding fee_claim_def W Let_def assms(2,3)
      wrapped_inside [where g = g0 and lo = lo0 and up = up0]
      wrapped_inside [where g = g1 and lo = lo1 and up = up1]
    by simp
qed

theorem fee_claim_unbounded_witness:
  "fee_claim (2 ^ 128) (5 mod 2 ^ 256) (0 mod 2 ^ 256) 1 2 (20 mod 2 ^ 256) (9 mod 2 ^ 256)
     (4 mod 2 ^ 256) (2 mod 2 ^ 256) (3 mod 2 ^ 256) (1 mod 2 ^ 256) 0 (- 10) 10 =
   (1 + 2 ^ 128 * (13 - 5) div 2 ^ 128, 2 + 2 ^ 128 * (6 - 0) div 2 ^ 128,
    2 ^ 128 * (13 - 5) div 2 ^ 128, 2 ^ 128 * (6 - 0) div 2 ^ 128)"
  by (rule fee_claim_unbounded) (simp_all add: growth_inside_def)

end
