(* ===== verification/Byte_Codec.thy ===== *)
theory Byte_Codec
  imports Prelude
begin

text \<open>
  Bytes and hexadecimal text as Python's \<^verbatim>\<open>bytes\<close> has them: \<^verbatim>\<open>hex()\<close>, \<^verbatim>\<open>bytes.fromhex\<close>,
  \<^verbatim>\<open>int.to_bytes(n, "big")\<close>, \<^verbatim>\<open>int.from_bytes(..., "big")\<close> and \<^verbatim>\<open>int(s, 16)\<close>, with the laws that
  reading undoes writing. An address is its text, as everywhere in the program.
\<close>

type_synonym bytes = "8 word list"
type_synonym address = string

section \<open>Hexadecimal text\<close>

definition hex_char :: "nat \<Rightarrow> char" where
  "hex_char n = char_of (if n < 10 then 48 + n else 87 + n)"

definition hex_value :: "char \<Rightarrow> nat option" where
  "hex_value c =
     (let n = of_char c :: nat in
      if 48 \<le> n \<and> n \<le> 57 then Some (n - 48)
      else if 97 \<le> n \<and> n \<le> 102 then Some (n - 87)
      else if 65 \<le> n \<and> n \<le> 70 then Some (n - 55)
      else None)"

definition is_space :: "char \<Rightarrow> bool" where
  "is_space c \<longleftrightarrow> (let n = of_char c :: nat in n = 32 \<or> (9 \<le> n \<and> n \<le> 13))"

fun hex_of_bytes :: "bytes \<Rightarrow> string" where
  "hex_of_bytes [] = []"
| "hex_of_bytes (b # bs) =
     hex_char (unat b div 16) # hex_char (unat b mod 16) # hex_of_bytes bs"

text \<open>\<^verbatim>\<open>bytes.fromhex\<close> takes digits of either case and skips white space between bytes.\<close>

fun bytes_fromhex :: "string \<Rightarrow> py_error + bytes" where
  "bytes_fromhex [] = Inr []"
| "bytes_fromhex [c] = (if is_space c then Inr [] else Inl (ValueError ''non-hexadecimal number found''))"
| "bytes_fromhex (c # d # s) =
     (if is_space c then bytes_fromhex (d # s)
      else case (hex_value c, hex_value d) of
        (Some x, Some y) \<Rightarrow> bindr (bytes_fromhex s) (\<lambda>bs. Inr (of_nat (16 * x + y) # bs))
      | _ \<Rightarrow> Inl (ValueError ''non-hexadecimal number found''))"

text \<open>\<^verbatim>\<open>int(s, 16)\<close> on the digits after an optional \<^verbatim>\<open>0x\<close>; signs and underscores do not occur.\<close>

fun hex_digits_value :: "nat \<Rightarrow> string \<Rightarrow> nat option" where
  "hex_digits_value acc [] = Some acc"
| "hex_digits_value acc (c # s) =
     (case hex_value c of None \<Rightarrow> None | Some v \<Rightarrow> hex_digits_value (16 * acc + v) s)"

definition strip_0x :: "string \<Rightarrow> string" where
  "strip_0x s = (if take 2 s = ''0x'' \<or> take 2 s = ''0X'' then drop 2 s else s)"

definition int_base16 :: "string \<Rightarrow> py_error + int" where
  "int_base16 s =
     (if strip_0x s = [] then Inl (ValueError ''invalid literal for int() with base 16'')
      else case hex_digits_value 0 (strip_0x s) of
        None \<Rightarrow> Inl (ValueError ''invalid literal for int() with base 16'')
      | Some n \<Rightarrow> Inr (int n))"

text \<open>\<^verbatim>\<open>str(n)\<close>, and \<^verbatim>\<open>s.strip()\<close>.\<close>

fun nat_text :: "nat \<Rightarrow> string" where
  "nat_text n = (if n < 10 then [char_of (48 + n)] else nat_text (n div 10) @ [char_of (48 + n mod 10)])"

declare nat_text.simps [simp del]

definition int_text :: "int \<Rightarrow> string" where
  "int_text n = (if n < 0 then CHR ''-'' # nat_text (nat (- n)) else nat_text (nat n))"

definition strip :: "string \<Rightarrow> string" where
  "strip s = rev (dropWhile is_space (rev (dropWhile is_space s)))"

section \<open>Big-endian integers\<close>

fun be_bytes :: "nat \<Rightarrow> int \<Rightarrow> bytes" where
  "be_bytes 0 n = []"
| "be_bytes (Suc k) n = be_bytes k (n div 256) @ [of_int n]"

definition to_bytes_big :: "nat \<Rightarrow> int \<Rightarrow> py_error + bytes" where
  "to_bytes_big k n =
     (if n < 0 then Inl (OverflowError ''can't convert negative int to unsigned'')
      else if n \<ge> 256 ^ k then Inl (OverflowError ''int too big to convert'')
      else Inr (be_bytes k n))"

definition from_bytes_big :: "bytes \<Rightarrow> int" where
  "from_bytes_big bs = foldl (\<lambda>n b. n * 256 + uint b) 0 bs"

section \<open>Reading undoes writing\<close>

lemma of_char_hex_char: "n < 16 \<Longrightarrow> of_char (hex_char n) = (if n < 10 then 48 + n else 87 + n)"
  by (simp add: hex_char_def)

lemma hex_value_hex_char [simp]: "n < 16 \<Longrightarrow> hex_value (hex_char n) = Some n"
  by (auto simp: hex_value_def of_char_hex_char Let_def)

lemma is_space_hex_char [simp]: "n < 16 \<Longrightarrow> \<not> is_space (hex_char n)"
  by (auto simp: is_space_def of_char_hex_char Let_def)

lemma unat_byte_lt: "unat (b :: 8 word) < 256"
  using unsigned_less [of b, where 'a = nat] by simp

lemma nibbles [simp]: "unat (b :: 8 word) div 16 < 16" "unat (b :: 8 word) mod 16 < 16"
  using unat_byte_lt [of b] by auto

lemma of_nat_nibbles [simp]: "of_nat (16 * (unat b div 16) + unat b mod 16) = (b :: 8 word)"
  by simp

lemma bytes_fromhex_hex [simp]: "bytes_fromhex (hex_of_bytes bs) = Inr bs"
  by (induction bs) (simp_all del: of_nat_add of_nat_mult)

lemma length_hex_of_bytes [simp]: "length (hex_of_bytes bs) = 2 * length bs"
  by (induction bs) auto

lemma hex_of_bytes_append [simp]: "hex_of_bytes (as @ bs) = hex_of_bytes as @ hex_of_bytes bs"
  by (induction as) auto

lemma length_be_bytes [simp]: "length (be_bytes k n) = k"
  by (induction k arbitrary: n) auto

lemma from_bytes_big_snoc: "from_bytes_big (bs @ [b]) = from_bytes_big bs * 256 + uint b"
  by (simp add: from_bytes_big_def)

lemma uint_of_int_byte: "uint (of_int n :: 8 word) = n mod 256"
  by (simp add: uint_word_of_int)

lemma from_be_bytes: "0 \<le> n \<Longrightarrow> n < 256 ^ k \<Longrightarrow> from_bytes_big (be_bytes k n) = n"
proof (induction k arbitrary: n)
  case 0
  then show ?case by (simp add: from_bytes_big_def)
next
  case (Suc k)
  have "n div 256 < 256 ^ k" using Suc.prems by (simp add: floor_div_less_iff)
  then have "from_bytes_big (be_bytes k (n div 256)) = n div 256"
    using Suc by (simp add: pos_imp_zdiv_nonneg_iff)
  then show ?case by (simp add: from_bytes_big_snoc uint_of_int_byte)
qed

lemma to_bytes_big_Inr: "to_bytes_big k n = Inr bs \<longleftrightarrow> 0 \<le> n \<and> n < 256 ^ k \<and> bs = be_bytes k n"
  by (auto simp: to_bytes_big_def)

lemma to_bytes_big_length: "to_bytes_big k n = Inr bs \<Longrightarrow> length bs = k"
  by (auto simp: to_bytes_big_Inr)

lemma to_bytes_big_roundtrip: "to_bytes_big k n = Inr bs \<Longrightarrow> from_bytes_big bs = n"
  by (auto simp: to_bytes_big_Inr from_be_bytes)

text \<open>Canonical text: what \<^verbatim>\<open>"0x" + b.hex()\<close> gives.\<close>

definition hex0x :: "bytes \<Rightarrow> string" where
  "hex0x bs = ''0x'' @ hex_of_bytes bs"

definition is_address :: "address \<Rightarrow> bool" where
  "is_address a \<longleftrightarrow>
     take 2 a = ''0x'' \<and> length a = 42 \<and>
     list_all (\<lambda>c. let n = of_char c :: nat in (48 \<le> n \<and> n \<le> 57) \<or> (97 \<le> n \<and> n \<le> 102)) (drop 2 a)"

lemma drop_hex0x [simp]: "drop 2 (hex0x bs) = hex_of_bytes bs"
  by (simp add: hex0x_def)

lemma lower_hex_char:
  assumes "(48 \<le> (of_char c :: nat) \<and> (of_char c :: nat) \<le> 57) \<or> (97 \<le> (of_char c :: nat) \<and> (of_char c :: nat) \<le> 102)"
  shows "\<exists>n < 16. c = hex_char n"
proof -
  let ?n = "of_char c :: nat"
  have c: "c = char_of ?n" by simp
  show ?thesis
  proof (cases "?n \<le> 57")
    case True
    then have "?n - 48 < 10" "48 + (?n - 48) = ?n" using assms by auto
    then have "c = hex_char (?n - 48)" by (simp only: hex_char_def if_True c [symmetric])
    then show ?thesis using True assms by (intro exI [of _ "?n - 48"]) auto
  next
    case False
    then have "\<not> ?n - 87 < 10" "87 + (?n - 87) = ?n" using assms by auto
    then have "c = hex_char (?n - 87)" by (simp only: hex_char_def if_False c [symmetric])
    then show ?thesis using False assms by (intro exI [of _ "?n - 87"]) auto
  qed
qed

lemma hex_text_bytes:
  assumes "even (length s)"
    and "list_all (\<lambda>c. let n = of_char c :: nat in (48 \<le> n \<and> n \<le> 57) \<or> (97 \<le> n \<and> n \<le> 102)) s"
  shows "\<exists>bs. s = hex_of_bytes bs \<and> length s = 2 * length bs"
  using assms
proof (induction s rule: induct_list012)
  case (3 c d s)
  then obtain bs where bs: "s = hex_of_bytes bs" "length s = 2 * length bs" by auto
  obtain m n where mn: "m < 16" "n < 16" "c = hex_char m" "d = hex_char n"
    using 3(4) lower_hex_char [of c] lower_hex_char [of d] by (auto simp: Let_def)
  have u: "unat (of_nat (16 * m + n) :: 8 word) = 16 * m + n"
    using mn unsigned_of_nat [of "16 * m + n", where 'b = 8, where 'a = nat]
    by (simp add: take_bit_nat_eq_self del: of_nat_add of_nat_mult)
  have "c # d # s = hex_of_bytes (of_nat (16 * m + n) # bs)"
    using mn bs by (simp only: hex_of_bytes.simps u) simp
  then show ?case using bs by (intro exI [of _ "of_nat (16 * m + n) # bs"]) simp
qed auto

lemma is_address_bytes: "is_address a \<Longrightarrow> \<exists>bs. a = hex0x bs \<and> length bs = 20"
proof -
  assume a: "is_address a"
  then have "even (length (drop 2 a))" by (simp add: is_address_def)
  then obtain bs where bs: "drop 2 a = hex_of_bytes bs" "length (drop 2 a) = 2 * length bs"
    using hex_text_bytes [of "drop 2 a"] a by (auto simp: is_address_def)
  have "a = hex0x bs"
    using a bs(1) append_take_drop_id [of 2 a] by (simp add: is_address_def hex0x_def)
  moreover have "length bs = 20" using bs(2) a by (simp add: is_address_def)
  ultimately show ?thesis by blast
qed

end
