(* ===== verification/Json_Text.thy ===== *)
theory Json_Text
  imports Lp_Math Byte_Codec "HOL-Library.Char_ord" "HOL-Library.List_Lexorder"
begin

text \<open>
  Text and documents as the modules share them: \<^verbatim>\<open>str.lower\<close>, \<^verbatim>\<open>int(text)\<close> and
  \<^verbatim>\<open>str(n)\<close> with the law that reading undoes writing, and JSON values.
\<close>

section \<open>Text and integers\<close>

text \<open>\<^verbatim>\<open>str.lower\<close> on ASCII text and \<^verbatim>\<open>int(text)\<close> without digit separators. Text is ordered by
  its characters, as Python orders it.\<close>

definition lower_char :: "char \<Rightarrow> char" where
  "lower_char c = (let n = of_char c :: nat in if 65 \<le> n \<and> n \<le> 90 then char_of (n + 32) else c)"

definition lower :: "string \<Rightarrow> string" where
  "lower s = map lower_char s"

text \<open>\<^verbatim>\<open>sep.join(parts)\<close>.\<close>

fun join_text :: "string \<Rightarrow> string list \<Rightarrow> string" where
  "join_text sep [] = []"
| "join_text sep [s] = s"
| "join_text sep (s # ss) = s @ sep @ join_text sep ss"

definition int_of_text :: "string \<Rightarrow> py_error + int" where
  "int_of_text s =
    (let t = strip s;
         negative = (take 1 t = ''-'');
         digits = (if take 1 t = ''-'' \<or> take 1 t = ''+'' then drop 1 t else t)
     in if digits = [] \<or> \<not> list_all is_digit digits
        then Inl (ValueError ''invalid literal for int() with base 10'')
        else Inr (if negative then - parse_decimal digits else parse_decimal digits))"

text \<open>\<^verbatim>\<open>hex(n)\<close>, and \<^verbatim>\<open>text.rjust(n, c)\<close>.\<close>

fun nat_hex :: "nat \<Rightarrow> string" where
  "nat_hex n = (if n < 16 then [hex_char n] else nat_hex (n div 16) @ [hex_char (n mod 16)])"

declare nat_hex.simps [simp del]

definition hex_text :: "int \<Rightarrow> string" where
  "hex_text n = (if n < 0 then ''-0x'' @ nat_hex (nat (- n)) else ''0x'' @ nat_hex (nat n))"

definition rjust :: "nat \<Rightarrow> char \<Rightarrow> string \<Rightarrow> string" where
  "rjust n c s = replicate (n - length s) c @ s"

section \<open>JSON documents and decimal text\<close>

datatype json =
    JNull
  | JBool bool
  | JInt int
  | JStr string
  | JArr "json list"
  | JObj "(string \<times> json) list"

text \<open>\<^verbatim>\<open>rpc.call\<close>: a method and its parameters to a reply or an exception.\<close>

type_synonym node = "string \<Rightarrow> json list \<Rightarrow> py_error + json"

lemma digit_text: "n < 10 \<Longrightarrow> of_char (char_of (48 + n) :: char) = (48 + n :: nat)"
  by simp

lemma parse_decimal_snoc: "parse_decimal (s @ [c]) = 10 * parse_decimal s + digit_value c"
  by (simp add: parse_decimal_def)

lemma nat_text_digits: "list_all is_digit (nat_text n) \<and> nat_text n \<noteq> []"
proof (induction n rule: nat_text.induct)
  case (1 n)
  have d: "is_digit (char_of (48 + k))" if "k < 10" for k :: nat
    using that by (simp only: is_digit_def digit_text) simp
  have "n mod 10 < 10" by simp
  with 1 d show ?case
    by (subst (1 2) nat_text.simps) simp
qed

lemma parse_nat_text [simp]: "parse_decimal (nat_text n) = int n"
proof (induction n rule: nat_text.induct)
  case (1 n)
  show ?case
  proof (cases "n < 10")
    case True
    then show ?thesis
      by (subst nat_text.simps) (simp add: parse_decimal_def digit_value_def)
  next
    case False
    with 1 have IH: "parse_decimal (nat_text (n div 10)) = int (n div 10)" by simp
    have "digit_value (char_of (48 + n mod 10)) = int (n mod 10)"
      by (simp add: digit_value_def digit_text)
    moreover have "10 * int (n div 10) + int (n mod 10) = int n" by presburger
    ultimately show ?thesis
      using False IH by (subst nat_text.simps) (simp add: parse_decimal_snoc)
  qed
qed

lemma digit_not_space: "is_digit c \<Longrightarrow> \<not> is_space c"
  by (auto simp: is_digit_def is_space_def Let_def)

lemma dropWhile_none: "\<forall>c \<in> set s. \<not> P c \<Longrightarrow> dropWhile P s = s"
  by (cases s) auto

lemma strip_no_space: "\<forall>c \<in> set s. \<not> is_space c \<Longrightarrow> strip s = s"
  by (simp add: strip_def dropWhile_none)

lemma strip_digits: "list_all is_digit s \<Longrightarrow> strip s = s"
  by (rule strip_no_space) (auto simp: list_all_iff dest: digit_not_space)

lemma nat_text_head: "take 1 (nat_text n) \<noteq> ''-'' \<and> take 1 (nat_text n) \<noteq> ''+''"
  using nat_text_digits [of n] by (cases "nat_text n") (auto simp: is_digit_def)

lemma int_of_nat_text: "int_of_text (nat_text n) = Inr (int n)"
  using nat_text_digits [of n] nat_text_head [of n]
  by (simp add: int_of_text_def strip_digits Let_def)

lemma int_of_text_int_text [simp]: "int_of_text (int_text n) = Inr n"
proof (cases "n < 0")
  case False
  then show ?thesis by (simp add: int_text_def int_of_nat_text)
next
  case True
  let ?d = "nat_text (nat (- n))"
  have d: "list_all is_digit ?d" "?d \<noteq> []" using nat_text_digits by auto
  have sp: "\<forall>c \<in> set (CHR ''-'' # ?d). \<not> is_space c"
    using d(1) digit_not_space by (auto simp: list_all_iff) (simp add: is_space_def)
  then have "strip (CHR ''-'' # ?d) = CHR ''-'' # ?d" by (rule strip_no_space)
  with True d show ?thesis
    by (simp add: int_of_text_def int_text_def Let_def)
qed

lemma int_text_inject [simp]: "int_text m = int_text n \<longleftrightarrow> m = n"
  by (metis int_of_text_int_text sum.inject(2))

end
