(* ===== verification/Registry.thy ===== *)
theory Registry
  imports Byte_Codec
begin

text \<open>
  The public chain registry: \<^verbatim>\<open>src/rhpools/lp_chain.py\<close> and the address constants and
  factory tables of \<^verbatim>\<open>src/rhpools/tx_chain.py\<close>. Addresses are lower-case text, as the program
  compares them.
\<close>

section \<open>Addresses\<close>

definition CHAIN_ID :: int where "CHAIN_ID = 4663"

definition NATIVE :: address where "NATIVE = ''0x0000000000000000000000000000000000000000''"
definition WETH :: address where "WETH = ''0x0bd7d308f8e1639fab988df18a8011f41eacad73''"
definition USDG :: address where "USDG = ''0x5fc5360d0400a0fd4f2af552add042d716f1d168''"
definition WETH_USDG_POOL :: address where "WETH_USDG_POOL = ''0x52e65b17fb6e5ba00ed806f37afcd2daa50271ca''"
definition POOL_MANAGER :: address where "POOL_MANAGER = ''0x8366a39cc670b4001a1121b8f6a443a643e40951''"
definition STATE_VIEW :: address where "STATE_VIEW = ''0xf3334192d15450cdd385c8b70e03f9a6bd9e673b''"
definition SLIPSTREAM_FACTORY :: address where "SLIPSTREAM_FACTORY = ''0x1ac9db4a2608ba45d6127b1737949b51bb54b7f3''"
definition UNISWAP_V3_FACTORY :: address where "UNISWAP_V3_FACTORY = ''0x1f7d7550b1b028f7571e69a784071f0205fd2efa''"
definition PANCAKE_V3_FACTORY :: address where "PANCAKE_V3_FACTORY = ''0x0bfbcf9fa4f9c56b0f40a671ad40e0805a091865''"
definition EXTENDED_V3_FACTORY :: address where "EXTENDED_V3_FACTORY = ''0xece6ecd61177336ea6fb9b17937ac439d85ee20b''"
definition UR :: address where "UR = ''0x8876789976decbfcbbbe364623c63652db8c0904''"
definition PERMIT2 :: address where "PERMIT2 = ''0x000000000022d473030f116ddee9f6b43ac78ba3''"
definition UR_V2_FACTORY :: address where "UR_V2_FACTORY = ''0x8bceaa40b9acdfaedf85adf4ff01f5ad6517937f''"
definition UR_V3_FACTORY :: address where "UR_V3_FACTORY = ''0x1f7d7550b1b028f7571e69a784071f0205fd2efa''"
definition POSM :: address where "POSM = ''0x58daec3116aae6d93017baaea7749052e8a04fa7''"
definition PONS_HOOK :: address where "PONS_HOOK = ''0xe5e702641ea86f4ae6cc3cdaed2b886f976be044''"
definition NFPM_UNISWAP :: address where "NFPM_UNISWAP = ''0x73991a25c818bf1f1128deaab1492d45638de0d3''"
definition NFPM_PANCAKE :: address where "NFPM_PANCAKE = ''0x46a15b0b27311cedf172ab29e4f4766fbe7f4364''"
definition NFPM_GIGA :: address where "NFPM_GIGA = ''0xa79f5775b0b49e51202c48ddf03f380faa96f641''"
definition GIGA_SWAP_ROUTER :: address where "GIGA_SWAP_ROUTER = ''0x56b2e2ee0487223663b458cf3492bccbe04536f2''"
definition PANCAKE_SMART_ROUTER :: address where "PANCAKE_SMART_ROUTER = ''0x13f4ea83d0bd40e75c8222255bc855a974568dd4''"
definition GIGA_V3_FACTORY :: address where "GIGA_V3_FACTORY = ''0xece6ecd61177336ea6fb9b17937ac439d85ee20b''"
definition SLIPSTREAM_SWAP_ROUTER :: address where "SLIPSTREAM_SWAP_ROUTER = ''0xc062b870e813fca720f1e002c234369ab3ab9415''"
definition MSG_SENDER :: address where "MSG_SENDER = ''0x0000000000000000000000000000000000000001''"
definition ADDRESS_THIS :: address where "ADDRESS_THIS = ''0x0000000000000000000000000000000000000002''"

lemmas registry_defs =
  NATIVE_def WETH_def USDG_def WETH_USDG_POOL_def POOL_MANAGER_def STATE_VIEW_def
  SLIPSTREAM_FACTORY_def UNISWAP_V3_FACTORY_def PANCAKE_V3_FACTORY_def EXTENDED_V3_FACTORY_def
  UR_def PERMIT2_def UR_V2_FACTORY_def UR_V3_FACTORY_def POSM_def PONS_HOOK_def NFPM_UNISWAP_def
  NFPM_PANCAKE_def NFPM_GIGA_def GIGA_SWAP_ROUTER_def PANCAKE_SMART_ROUTER_def
  GIGA_V3_FACTORY_def SLIPSTREAM_SWAP_ROUTER_def MSG_SENDER_def ADDRESS_THIS_def

section \<open>Factory sets and tables\<close>

definition V2_FACTORIES :: "address list" where
  "V2_FACTORIES = [''0x8bceaa40b9acdfaedf85adf4ff01f5ad6517937f'',
    ''0xdaa80fe4ee10de529d98ea4bde15bcaf7f7324b3'',
    ''0x0d1ebb179cdbca88d74c923c4255cb2b17474afd'']"

definition V3_FACTORIES :: "address list" where
  "V3_FACTORIES = [UNISWAP_V3_FACTORY, PANCAKE_V3_FACTORY, EXTENDED_V3_FACTORY]"

definition CONCENTRATED_FACTORIES :: "address list" where
  "CONCENTRATED_FACTORIES = SLIPSTREAM_FACTORY # V3_FACTORIES"

definition CREATION_EMITTERS :: "address list" where
  "CREATION_EMITTERS = [POOL_MANAGER, SLIPSTREAM_FACTORY] @ V2_FACTORIES @ V3_FACTORIES"

definition V3_ROUTER_BY_FACTORY :: "(address, address) odict" where
  "V3_ROUTER_BY_FACTORY =
    [(PANCAKE_V3_FACTORY, PANCAKE_SMART_ROUTER),
     (GIGA_V3_FACTORY, GIGA_SWAP_ROUTER),
     (SLIPSTREAM_FACTORY, SLIPSTREAM_SWAP_ROUTER)]"

definition DEX_BY_FACTORY :: "(address, string) odict" where
  "DEX_BY_FACTORY =
    [(UR_V2_FACTORY, ''uniswap''), (UR_V3_FACTORY, ''uniswap''), (PANCAKE_V3_FACTORY, ''pancake''),
     (GIGA_V3_FACTORY, ''giga''), (SLIPSTREAM_FACTORY, ''up'')]"

definition NFPM_BY_FACTORY :: "(address, address) odict" where
  "NFPM_BY_FACTORY =
    [(UR_V3_FACTORY, NFPM_UNISWAP), (PANCAKE_V3_FACTORY, NFPM_PANCAKE), (GIGA_V3_FACTORY, NFPM_GIGA)]"

definition CONTRACT_BALANCE :: int where "CONTRACT_BALANCE = push_bit 255 1"
definition OPEN_DELTA :: int where "OPEN_DELTA = 0"
definition MAX_UINT128 :: int where "MAX_UINT128 = push_bit 128 1 - 1"
definition MAX_UINT160 :: int where "MAX_UINT160 = push_bit 160 1 - 1"

section \<open>Distinct addresses\<close>

lemma routers_distinct [simp]:
  "UR \<noteq> PANCAKE_SMART_ROUTER" "UR \<noteq> GIGA_SWAP_ROUTER" "UR \<noteq> SLIPSTREAM_SWAP_ROUTER"
  "PANCAKE_SMART_ROUTER \<noteq> UR" "GIGA_SWAP_ROUTER \<noteq> UR" "SLIPSTREAM_SWAP_ROUTER \<noteq> UR"
  "PANCAKE_SMART_ROUTER \<noteq> GIGA_SWAP_ROUTER" "PANCAKE_SMART_ROUTER \<noteq> SLIPSTREAM_SWAP_ROUTER"
  "GIGA_SWAP_ROUTER \<noteq> PANCAKE_SMART_ROUTER" "SLIPSTREAM_SWAP_ROUTER \<noteq> PANCAKE_SMART_ROUTER"
  "GIGA_SWAP_ROUTER \<noteq> SLIPSTREAM_SWAP_ROUTER" "SLIPSTREAM_SWAP_ROUTER \<noteq> GIGA_SWAP_ROUTER"
  by (simp_all add: UR_def PANCAKE_SMART_ROUTER_def GIGA_SWAP_ROUTER_def SLIPSTREAM_SWAP_ROUTER_def)

lemma currencies_distinct [simp]:
  "NATIVE \<noteq> WETH" "WETH \<noteq> NATIVE" "NATIVE \<noteq> USDG" "USDG \<noteq> NATIVE" "WETH \<noteq> USDG" "USDG \<noteq> WETH"
  by (simp_all add: NATIVE_def WETH_def USDG_def)

lemma recipients_distinct [simp]: "MSG_SENDER \<noteq> ADDRESS_THIS" "ADDRESS_THIS \<noteq> MSG_SENDER"
  by (simp_all add: MSG_SENDER_def ADDRESS_THIS_def)

lemma managers_distinct [simp]:
  "NFPM_UNISWAP \<noteq> POSM" "NFPM_PANCAKE \<noteq> POSM" "NFPM_GIGA \<noteq> POSM"
  "POSM \<noteq> NFPM_UNISWAP" "POSM \<noteq> NFPM_PANCAKE" "POSM \<noteq> NFPM_GIGA"
  by (simp_all add: NFPM_UNISWAP_def NFPM_PANCAKE_def NFPM_GIGA_def POSM_def)

lemma factories_distinct [simp]:
  "UR_V3_FACTORY \<noteq> PANCAKE_V3_FACTORY" "UR_V3_FACTORY \<noteq> GIGA_V3_FACTORY"
  "UR_V3_FACTORY \<noteq> SLIPSTREAM_FACTORY" "UR_V2_FACTORY \<noteq> PANCAKE_V3_FACTORY"
  "UR_V2_FACTORY \<noteq> GIGA_V3_FACTORY" "UR_V2_FACTORY \<noteq> SLIPSTREAM_FACTORY"
  "PANCAKE_V3_FACTORY \<noteq> GIGA_V3_FACTORY" "PANCAKE_V3_FACTORY \<noteq> SLIPSTREAM_FACTORY"
  "GIGA_V3_FACTORY \<noteq> SLIPSTREAM_FACTORY" "GIGA_V3_FACTORY \<noteq> PANCAKE_V3_FACTORY"
  "SLIPSTREAM_FACTORY \<noteq> PANCAKE_V3_FACTORY" "SLIPSTREAM_FACTORY \<noteq> GIGA_V3_FACTORY"
  by (simp_all add: UR_V3_FACTORY_def UR_V2_FACTORY_def PANCAKE_V3_FACTORY_def GIGA_V3_FACTORY_def
      SLIPSTREAM_FACTORY_def)

lemma registry_addresses [simp]:
  "is_address NATIVE" "is_address WETH" "is_address USDG" "is_address MSG_SENDER"
  "is_address ADDRESS_THIS" "is_address POSM" "is_address UR"
  by (simp_all add: is_address_def registry_defs Let_def)

end
