(* ===== verification/Tx_Chain.thy ===== *)
theory Tx_Chain
  imports Registry "HOL-Library.Countable"
begin

text \<open>
  Calldata: \<^verbatim>\<open>src/rhpools/tx_chain.py\<close>. UniversalRouter commands, V4 actions, position-manager
  actions and NFPM calls are datatypes with the class names of the source; encoding and decoding
  go through \<^verbatim>\<open>eth_abi\<close> and \<^verbatim>\<open>keccak\<close>, which are third-party packages and therefore a
  parameter \<open>eth_lib\<close> of every definition that calls them. The results are the round trips
  of the codecs and the classification of revert data.
\<close>

section \<open>The eth_abi and keccak packages as a parameter\<close>

datatype abi_value =
    AInt int
  | AAddr address
  | ABool bool
  | AText string
  | ABytes bytes
  | ATuple "abi_value list"
  | AArray "abi_value list"

instance abi_value :: countable
  by countable_datatype

record eth_lib =
  keccak :: "bytes \<Rightarrow> bytes"
  abi_encode :: "string list \<Rightarrow> abi_value list \<Rightarrow> py_error + bytes"
  abi_decode :: "string list \<Rightarrow> bytes \<Rightarrow> py_error + abi_value list"

definition text_bytes :: "string \<Rightarrow> bytes" where
  "text_bytes s = map (\<lambda>c. of_nat (of_char c)) s"

definition selector :: "eth_lib \<Rightarrow> string \<Rightarrow> bytes" where
  "selector lib signature = take 4 (keccak lib (text_bytes signature))"

definition topic :: "eth_lib \<Rightarrow> string \<Rightarrow> string" where
  "topic lib signature = hex0x (keccak lib (text_bytes signature))"

abbreviation bad_shape :: "py_error + 'a" where
  "bad_shape \<equiv> Inl (TypeError ''unexpected decoded value'')"

text \<open>
  Decoded values are used at the Python type their ABI type has; \<open>as_int\<close> and its kin read
  them so.
\<close>

fun as_int :: "abi_value \<Rightarrow> py_error + int" where
  "as_int (AInt n) = Inr n"
| "as_int v = bad_shape"

fun as_addr :: "abi_value \<Rightarrow> py_error + address" where
  "as_addr (AAddr a) = Inr a"
| "as_addr v = bad_shape"

fun as_bool :: "abi_value \<Rightarrow> py_error + bool" where
  "as_bool (ABool b) = Inr b"
| "as_bool v = bad_shape"

fun as_text :: "abi_value \<Rightarrow> py_error + string" where
  "as_text (AText s) = Inr s"
| "as_text v = bad_shape"

fun as_bytes :: "abi_value \<Rightarrow> py_error + bytes" where
  "as_bytes (ABytes b) = Inr b"
| "as_bytes v = bad_shape"

fun as_tuple :: "abi_value \<Rightarrow> py_error + abi_value list" where
  "as_tuple (ATuple vs) = Inr vs"
| "as_tuple v = bad_shape"

fun as_array :: "abi_value \<Rightarrow> py_error + abi_value list" where
  "as_array (AArray vs) = Inr vs"
| "as_array v = bad_shape"

section \<open>Type signatures\<close>

definition PERMIT_DETAILS_TYPE :: string where
  "PERMIT_DETAILS_TYPE = ''(address,uint160,uint48,uint48)''"
definition PERMIT_SINGLE_TYPE :: string where
  "PERMIT_SINGLE_TYPE = ''('' @ PERMIT_DETAILS_TYPE @ '',address,uint256)''"
definition PERMIT_BATCH_TYPE :: string where
  "PERMIT_BATCH_TYPE = ''('' @ PERMIT_DETAILS_TYPE @ ''[],address,uint256)''"
definition POOL_KEY_TYPE :: string where
  "POOL_KEY_TYPE = ''(address,address,uint24,int24,address)''"
definition V4_SINGLE_TYPE :: string where
  "V4_SINGLE_TYPE = ''('' @ POOL_KEY_TYPE @ '',bool,uint128,uint128,uint256,bytes)''"
definition NFPM_MINT_TYPE :: string where
  "NFPM_MINT_TYPE = ''(address,address,uint24,int24,int24,uint256,uint256,uint256,uint256,address,uint256)''"
definition NFPM_INCREASE_TYPE :: string where
  "NFPM_INCREASE_TYPE = ''(uint256,uint256,uint256,uint256,uint256,uint256)''"
definition NFPM_DECREASE_TYPE :: string where
  "NFPM_DECREASE_TYPE = ''(uint256,uint128,uint256,uint256,uint256)''"
definition NFPM_COLLECT_TYPE :: string where
  "NFPM_COLLECT_TYPE = ''(uint256,address,uint128,uint128)''"
definition POSM_MINT_TYPES :: "string list" where
  "POSM_MINT_TYPES = [POOL_KEY_TYPE, ''int24'', ''int24'', ''uint256'', ''uint128'', ''uint128'',
     ''address'', ''bytes'']"
definition POSM_INCREASE_TYPES :: "string list" where
  "POSM_INCREASE_TYPES = [''uint256'', ''uint256'', ''uint128'', ''uint128'', ''bytes'']"
definition POSM_DECREASE_TYPES :: "string list" where
  "POSM_DECREASE_TYPES = [''uint256'', ''uint256'', ''uint128'', ''uint128'', ''bytes'']"
definition SWAP_BYTES_TYPES :: "string list" where
  "SWAP_BYTES_TYPES = [''address'', ''uint256'', ''uint256'', ''bytes'', ''bool'', ''uint256[]'']"
definition SWAP_ARRAY_TYPES :: "string list" where
  "SWAP_ARRAY_TYPES = [''address'', ''uint256'', ''uint256'', ''address[]'', ''bool'', ''uint256[]'']"

definition SEL_EXECUTE :: "eth_lib \<Rightarrow> bytes" where
  "SEL_EXECUTE lib = selector lib ''execute(bytes,bytes[],uint256)''"
definition SEL_MODIFY_LIQUIDITIES :: "eth_lib \<Rightarrow> bytes" where
  "SEL_MODIFY_LIQUIDITIES lib = selector lib ''modifyLiquidities(bytes,uint256)''"
definition SEL_MULTICALL :: "eth_lib \<Rightarrow> bytes" where
  "SEL_MULTICALL lib = selector lib ''multicall(bytes[])''"
definition SEL_NFPM_MINT :: "eth_lib \<Rightarrow> bytes" where
  "SEL_NFPM_MINT lib = selector lib ''mint((address,address,uint24,int24,int24,uint256,uint256,uint256,uint256,address,uint256))''"
definition SEL_NFPM_INCREASE :: "eth_lib \<Rightarrow> bytes" where
  "SEL_NFPM_INCREASE lib = selector lib ''increaseLiquidity((uint256,uint256,uint256,uint256,uint256,uint256))''"
definition SEL_NFPM_DECREASE :: "eth_lib \<Rightarrow> bytes" where
  "SEL_NFPM_DECREASE lib = selector lib ''decreaseLiquidity((uint256,uint128,uint256,uint256,uint256))''"
definition SEL_NFPM_COLLECT :: "eth_lib \<Rightarrow> bytes" where
  "SEL_NFPM_COLLECT lib = selector lib ''collect((uint256,address,uint128,uint128))''"

section \<open>Pool keys and permits\<close>

record pool_key =
  key_currency0 :: address
  key_currency1 :: address
  key_fee :: int
  key_tick_spacing :: int
  key_hooks :: address

definition key_tuple :: "pool_key \<Rightarrow> abi_value" where
  "key_tuple k = ATuple [AAddr (key_currency0 k), AAddr (key_currency1 k), AInt (key_fee k),
     AInt (key_tick_spacing k), AAddr (key_hooks k)]"

definition key_id :: "eth_lib \<Rightarrow> pool_key \<Rightarrow> py_error + string" where
  "key_id lib k = bindr (abi_encode lib [POOL_KEY_TYPE] [key_tuple k]) (\<lambda>b. Inr (hex0x (keccak lib b)))"

definition key_of_tuple :: "abi_value \<Rightarrow> py_error + pool_key" where
  "key_of_tuple v =
     bindr (as_tuple v) (\<lambda>vs. case vs of
       [c0, c1, fee, spacing, hooks] \<Rightarrow>
         bindr (as_addr c0) (\<lambda>c0. bindr (as_addr c1) (\<lambda>c1. bindr (as_int fee) (\<lambda>fee.
         bindr (as_int spacing) (\<lambda>spacing. bindr (as_addr hooks) (\<lambda>hooks.
           Inr \<lparr>key_currency0 = c0, key_currency1 = c1, key_fee = fee, key_tick_spacing = spacing,
                key_hooks = hooks\<rparr>)))))
     | _ \<Rightarrow> bad_shape)"

record permit_details =
  pd_token :: address
  pd_amount :: int
  pd_expiration :: int
  pd_nonce :: int

definition details_tuple :: "permit_details \<Rightarrow> abi_value" where
  "details_tuple d = ATuple [AAddr (pd_token d), AInt (pd_amount d), AInt (pd_expiration d), AInt (pd_nonce d)]"

record permit_single =
  ps_details :: permit_details
  ps_spender :: address
  ps_sig_deadline :: int

definition permit_single_tuple :: "permit_single \<Rightarrow> abi_value" where
  "permit_single_tuple p = ATuple [details_tuple (ps_details p), AAddr (ps_spender p), AInt (ps_sig_deadline p)]"

record permit_batch =
  pb_details :: "permit_details list"
  pb_spender :: address
  pb_sig_deadline :: int

definition permit_batch_tuple :: "permit_batch \<Rightarrow> abi_value" where
  "permit_batch_tuple p =
     ATuple [AArray (map details_tuple (pb_details p)), AAddr (pb_spender p), AInt (pb_sig_deadline p)]"

definition details_of_tuple :: "abi_value \<Rightarrow> py_error + permit_details" where
  "details_of_tuple v =
     bindr (as_tuple v) (\<lambda>vs. case vs of
       [t, a, e, n] \<Rightarrow>
         bindr (as_addr t) (\<lambda>t. bindr (as_int a) (\<lambda>a. bindr (as_int e) (\<lambda>e. bindr (as_int n) (\<lambda>n.
           Inr \<lparr>pd_token = t, pd_amount = a, pd_expiration = e, pd_nonce = n\<rparr>))))
     | _ \<Rightarrow> bad_shape)"

definition permit_single_of_tuple :: "abi_value \<Rightarrow> py_error + permit_single" where
  "permit_single_of_tuple v =
     bindr (as_tuple v) (\<lambda>vs. case vs of
       [d, s, deadline] \<Rightarrow>
         bindr (details_of_tuple d) (\<lambda>d. bindr (as_addr s) (\<lambda>s. bindr (as_int deadline) (\<lambda>deadline.
           Inr \<lparr>ps_details = d, ps_spender = s, ps_sig_deadline = deadline\<rparr>)))
     | _ \<Rightarrow> bad_shape)"

section \<open>V3 paths\<close>

text \<open>The loop of \<^verbatim>\<open>v3_path\<close>; the strict \<^verbatim>\<open>zip\<close> raises when the lengths differ.\<close>

fun v3_path_tail :: "bytes \<Rightarrow> int list \<Rightarrow> address list \<Rightarrow> py_error + bytes" where
  "v3_path_tail out [] [] = Inr out"
| "v3_path_tail out (fee # fees) (token # tokens) =
     bindr (to_bytes_big 3 fee) (\<lambda>f.
     bindr (bytes_fromhex (drop 2 token)) (\<lambda>t.
       v3_path_tail (out @ f @ t) fees tokens))"
| "v3_path_tail out fees tokens = Inl (ValueError ''zip() arguments have different lengths'')"

fun v3_path :: "address list \<Rightarrow> int list \<Rightarrow> py_error + bytes" where
  "v3_path [] fees = Inl (IndexError ''tuple index out of range'')"
| "v3_path (t0 # tokens) fees =
     bindr (bytes_fromhex (drop 2 t0)) (\<lambda>out. v3_path_tail out fees tokens)"

text \<open>\<^verbatim>\<open>decode_v3_path\<close>: slices never raise, so a short tail gives short parts.\<close>

function decode_v3_rest :: "bytes \<Rightarrow> address list \<times> int list" where
  "decode_v3_rest rest =
     (if rest = [] then ([], [])
      else (let (tokens, fees) = decode_v3_rest (drop 23 rest) in
        (hex0x (take 20 (drop 3 rest)) # tokens, from_bytes_big (take 3 rest) # fees)))"
  by pat_completeness auto
termination
  by (relation "measure length") auto

declare decode_v3_rest.simps [simp del]

definition decode_v3_path :: "bytes \<Rightarrow> address list \<times> int list" where
  "decode_v3_path path =
     (let (tokens, fees) = decode_v3_rest (drop 20 path) in (hex0x (take 20 path) # tokens, fees))"


section \<open>UniversalRouter commands\<close>

datatype v4_param =
    V4Settle address int bool
  | V4SettleAll address int
  | V4Take address address int
  | V4SwapExactInSingle pool_key bool int int

datatype ur_command =
    WrapEth address int
  | UnwrapWeth address int
  | PayPortion address address int
  | Sweep address address int
  | Permit2TransferFrom address address int
  | Permit2Permit permit_single bytes
  | V3Swap address int int bytes bool
  | V2Swap address int int "address list" bool
  | V4Swap "v4_param list"

fun v4_action :: "v4_param \<Rightarrow> 8 word" where
  "v4_action (V4Settle c a p) = 0x0B"
| "v4_action (V4SettleAll c a) = 0x0C"
| "v4_action (V4Take c r a) = 0x0E"
| "v4_action (V4SwapExactInSingle k z a m) = 0x06"

fun v4_encode :: "eth_lib \<Rightarrow> v4_param \<Rightarrow> py_error + bytes" where
  "v4_encode lib (V4Settle currency amount payer) =
     abi_encode lib [''address'', ''uint256'', ''bool''] [AAddr currency, AInt amount, ABool payer]"
| "v4_encode lib (V4SettleAll currency max_amount) =
     abi_encode lib [''address'', ''uint256''] [AAddr currency, AInt max_amount]"
| "v4_encode lib (V4Take currency recipient amount) =
     abi_encode lib [''address'', ''address'', ''uint256''] [AAddr currency, AAddr recipient, AInt amount]"
| "v4_encode lib (V4SwapExactInSingle key zero_for_one amount_in min_out) =
     abi_encode lib [V4_SINGLE_TYPE]
       [ATuple [key_tuple key, ABool zero_for_one, AInt amount_in, AInt min_out, AInt 0, ABytes []]]"

definition v4_decode :: "eth_lib \<Rightarrow> 8 word \<Rightarrow> bytes \<Rightarrow> py_error + v4_param" where
  "v4_decode lib action data =
    (if action = 0x0B then
       bindr (abi_decode lib [''address'', ''uint256'', ''bool''] data) (\<lambda>vs. case vs of
         [c, a, p] \<Rightarrow> bindr (as_addr c) (\<lambda>c. bindr (as_int a) (\<lambda>a. bindr (as_bool p) (\<lambda>p.
           Inr (V4Settle c a p))))
       | _ \<Rightarrow> bad_shape)
     else if action = 0x0C then
       bindr (abi_decode lib [''address'', ''uint256''] data) (\<lambda>vs. case vs of
         [c, a] \<Rightarrow> bindr (as_addr c) (\<lambda>c. bindr (as_int a) (\<lambda>a. Inr (V4SettleAll c a)))
       | _ \<Rightarrow> bad_shape)
     else if action = 0x0E then
       bindr (abi_decode lib [''address'', ''address'', ''uint256''] data) (\<lambda>vs. case vs of
         [c, r, a] \<Rightarrow> bindr (as_addr c) (\<lambda>c. bindr (as_addr r) (\<lambda>r. bindr (as_int a) (\<lambda>a.
           Inr (V4Take c r a))))
       | _ \<Rightarrow> bad_shape)
     else if action = 0x06 then
       bindr (abi_decode lib [V4_SINGLE_TYPE] data) (\<lambda>vs. case vs of
         [v] \<Rightarrow> bindr (as_tuple v) (\<lambda>ws. case ws of
           [k, z, a, m, _, _] \<Rightarrow>
             bindr (key_of_tuple k) (\<lambda>k. bindr (as_bool z) (\<lambda>z. bindr (as_int a) (\<lambda>a. bindr (as_int m) (\<lambda>m.
               Inr (V4SwapExactInSingle k z a m)))))
         | _ \<Rightarrow> bad_shape)
       | _ \<Rightarrow> bad_shape)
     else Inl (KeyError ''V4 action''))"

text \<open>
  \<^verbatim>\<open>zip(codes, parts, strict=True)\<close> under a decoder: pairs are decoded in order and a length
  mismatch raises after them.
\<close>

fun decode_parts :: "(8 word \<Rightarrow> bytes \<Rightarrow> py_error + 'a) \<Rightarrow> bytes \<Rightarrow> abi_value list \<Rightarrow> py_error + 'a list" where
  "decode_parts dec [] [] = Inr []"
| "decode_parts dec (code # codes) (part # parts) =
     bindr (as_bytes part) (\<lambda>data. bindr (dec code data) (\<lambda>x.
       bindr (decode_parts dec codes parts) (\<lambda>xs. Inr (x # xs))))"
| "decode_parts dec codes parts = Inl (ValueError ''zip() arguments have different lengths'')"

fun ur_cmd :: "ur_command \<Rightarrow> 8 word" where
  "ur_cmd (V3Swap r a m p u) = 0x00"
| "ur_cmd (Permit2TransferFrom t r a) = 0x02"
| "ur_cmd (Sweep t r m) = 0x04"
| "ur_cmd (PayPortion t r b) = 0x06"
| "ur_cmd (V2Swap r a m p u) = 0x08"
| "ur_cmd (Permit2Permit p s) = 0x0A"
| "ur_cmd (WrapEth r a) = 0x0B"
| "ur_cmd (UnwrapWeth r m) = 0x0C"
| "ur_cmd (V4Swap ps) = 0x10"

fun ur_encode :: "eth_lib \<Rightarrow> ur_command \<Rightarrow> py_error + bytes" where
  "ur_encode lib (WrapEth recipient amount) =
     abi_encode lib [''address'', ''uint256''] [AAddr recipient, AInt amount]"
| "ur_encode lib (UnwrapWeth recipient amount_min) =
     abi_encode lib [''address'', ''uint256''] [AAddr recipient, AInt amount_min]"
| "ur_encode lib (PayPortion token recipient bips) =
     abi_encode lib [''address'', ''address'', ''uint256''] [AAddr token, AAddr recipient, AInt bips]"
| "ur_encode lib (Sweep token recipient amount_min) =
     abi_encode lib [''address'', ''address'', ''uint256''] [AAddr token, AAddr recipient, AInt amount_min]"
| "ur_encode lib (Permit2TransferFrom token recipient amount) =
     abi_encode lib [''address'', ''address'', ''uint160''] [AAddr token, AAddr recipient, AInt amount]"
| "ur_encode lib (Permit2Permit permit signature) =
     abi_encode lib [PERMIT_SINGLE_TYPE, ''bytes''] [permit_single_tuple permit, ABytes signature]"
| "ur_encode lib (V3Swap recipient amount_in min_out path payer) =
     abi_encode lib SWAP_BYTES_TYPES
       [AAddr recipient, AInt amount_in, AInt min_out, ABytes path, ABool payer, AArray []]"
| "ur_encode lib (V2Swap recipient amount_in min_out path payer) =
     abi_encode lib SWAP_ARRAY_TYPES
       [AAddr recipient, AInt amount_in, AInt min_out, AArray (map AAddr path), ABool payer, AArray []]"
| "ur_encode lib (V4Swap params) =
     bindr (map_res (v4_encode lib) params) (\<lambda>encoded.
       abi_encode lib [''bytes'', ''bytes[]''] [ABytes (map v4_action params), AArray (map ABytes encoded)])"

definition ur_execute :: "eth_lib \<Rightarrow> ur_command list \<Rightarrow> int \<Rightarrow> py_error + bytes" where
  "ur_execute lib commands deadline =
     bindr (map_res (ur_encode lib) commands) (\<lambda>inputs.
     bindr (abi_encode lib [''bytes'', ''bytes[]'', ''uint256'']
             [ABytes (map ur_cmd commands), AArray (map ABytes inputs), AInt deadline]) (\<lambda>body.
       Inr (SEL_EXECUTE lib @ body)))"

text \<open>The table \<^verbatim>\<open>_UR_COMMANDS\<close> and the \<^verbatim>\<open>decode\<close> class methods it dispatches to.\<close>

definition ur_decode :: "eth_lib \<Rightarrow> 8 word \<Rightarrow> bytes \<Rightarrow> py_error + ur_command" where
  "ur_decode lib cmd data =
    (if cmd = 0x00 then
       bindr (abi_decode lib SWAP_BYTES_TYPES data) (\<lambda>vs. case vs of
         [r, a, m, path, u, _] \<Rightarrow>
           bindr (as_addr r) (\<lambda>r. bindr (as_int a) (\<lambda>a. bindr (as_int m) (\<lambda>m.
           bindr (as_bytes path) (\<lambda>path. bindr (as_bool u) (\<lambda>u. Inr (V3Swap r a m path u))))))
       | _ \<Rightarrow> bad_shape)
     else if cmd = 0x02 then
       bindr (abi_decode lib [''address'', ''address'', ''uint160''] data) (\<lambda>vs. case vs of
         [t, r, a] \<Rightarrow> bindr (as_addr t) (\<lambda>t. bindr (as_addr r) (\<lambda>r. bindr (as_int a) (\<lambda>a.
           Inr (Permit2TransferFrom t r a))))
       | _ \<Rightarrow> bad_shape)
     else if cmd = 0x04 then
       bindr (abi_decode lib [''address'', ''address'', ''uint256''] data) (\<lambda>vs. case vs of
         [t, r, a] \<Rightarrow> bindr (as_addr t) (\<lambda>t. bindr (as_addr r) (\<lambda>r. bindr (as_int a) (\<lambda>a.
           Inr (Sweep t r a))))
       | _ \<Rightarrow> bad_shape)
     else if cmd = 0x06 then
       bindr (abi_decode lib [''address'', ''address'', ''uint256''] data) (\<lambda>vs. case vs of
         [t, r, a] \<Rightarrow> bindr (as_addr t) (\<lambda>t. bindr (as_addr r) (\<lambda>r. bindr (as_int a) (\<lambda>a.
           Inr (PayPortion t r a))))
       | _ \<Rightarrow> bad_shape)
     else if cmd = 0x08 then
       bindr (abi_decode lib SWAP_ARRAY_TYPES data) (\<lambda>vs. case vs of
         [r, a, m, path, u, _] \<Rightarrow>
           bindr (as_addr r) (\<lambda>r. bindr (as_int a) (\<lambda>a. bindr (as_int m) (\<lambda>m.
           bindr (as_array path) (\<lambda>ws. bindr (map_res as_addr ws) (\<lambda>path.
           bindr (as_bool u) (\<lambda>u. Inr (V2Swap r a m path u)))))))
       | _ \<Rightarrow> bad_shape)
     else if cmd = 0x0A then
       bindr (abi_decode lib [PERMIT_SINGLE_TYPE, ''bytes''] data) (\<lambda>vs. case vs of
         [p, sig] \<Rightarrow> bindr (permit_single_of_tuple p) (\<lambda>p. bindr (as_bytes sig) (\<lambda>sig.
           Inr (Permit2Permit p sig)))
       | _ \<Rightarrow> bad_shape)
     else if cmd = 0x0B then
       bindr (abi_decode lib [''address'', ''uint256''] data) (\<lambda>vs. case vs of
         [r, a] \<Rightarrow> bindr (as_addr r) (\<lambda>r. bindr (as_int a) (\<lambda>a. Inr (WrapEth r a)))
       | _ \<Rightarrow> bad_shape)
     else if cmd = 0x0C then
       bindr (abi_decode lib [''address'', ''uint256''] data) (\<lambda>vs. case vs of
         [r, a] \<Rightarrow> bindr (as_addr r) (\<lambda>r. bindr (as_int a) (\<lambda>a. Inr (UnwrapWeth r a)))
       | _ \<Rightarrow> bad_shape)
     else if cmd = 0x10 then
       bindr (abi_decode lib [''bytes'', ''bytes[]''] data) (\<lambda>vs. case vs of
         [actions, params] \<Rightarrow>
           bindr (as_bytes actions) (\<lambda>actions. bindr (as_array params) (\<lambda>params.
           bindr (decode_parts (v4_decode lib) actions params) (\<lambda>ps. Inr (V4Swap ps))))
       | _ \<Rightarrow> bad_shape)
     else Inl (KeyError ''UniversalRouter command''))"

definition decode_ur_execute :: "eth_lib \<Rightarrow> bytes \<Rightarrow> py_error + ur_command list \<times> int" where
  "decode_ur_execute lib data =
    (if take 4 data \<noteq> SEL_EXECUTE lib then Inl (ValueError ''not a UniversalRouter execute call'')
     else bindr (abi_decode lib [''bytes'', ''bytes[]'', ''uint256''] (drop 4 data)) (\<lambda>vs. case vs of
       [cmds, inputs, deadline] \<Rightarrow>
         bindr (as_bytes cmds) (\<lambda>cmds. bindr (as_array inputs) (\<lambda>inputs. bindr (as_int deadline) (\<lambda>deadline.
         bindr (decode_parts (ur_decode lib) cmds inputs) (\<lambda>commands. Inr (commands, deadline)))))
     | _ \<Rightarrow> bad_shape))"

section \<open>Position manager actions\<close>

datatype posm_param =
    PosmMint pool_key int int int int int address
  | PosmIncrease int int int int
  | PosmDecrease int int int int
  | PosmSettlePair address address
  | PosmTakePair address address address
  | PosmSweep address address

fun posm_action :: "posm_param \<Rightarrow> 8 word" where
  "posm_action (PosmIncrease t l a b) = 0x00"
| "posm_action (PosmDecrease t l a b) = 0x01"
| "posm_action (PosmMint k lo up l a b r) = 0x02"
| "posm_action (PosmSettlePair c d) = 0x0D"
| "posm_action (PosmTakePair c d r) = 0x11"
| "posm_action (PosmSweep c r) = 0x14"

fun posm_encode :: "eth_lib \<Rightarrow> posm_param \<Rightarrow> py_error + bytes" where
  "posm_encode lib (PosmMint key lower upper liquidity max0 max1 recipient) =
     abi_encode lib POSM_MINT_TYPES
       [key_tuple key, AInt lower, AInt upper, AInt liquidity, AInt max0, AInt max1, AAddr recipient, ABytes []]"
| "posm_encode lib (PosmIncrease token_id liquidity max0 max1) =
     abi_encode lib POSM_INCREASE_TYPES [AInt token_id, AInt liquidity, AInt max0, AInt max1, ABytes []]"
| "posm_encode lib (PosmDecrease token_id liquidity min0 min1) =
     abi_encode lib POSM_DECREASE_TYPES [AInt token_id, AInt liquidity, AInt min0, AInt min1, ABytes []]"
| "posm_encode lib (PosmSettlePair c0 c1) = abi_encode lib [''address'', ''address''] [AAddr c0, AAddr c1]"
| "posm_encode lib (PosmTakePair c0 c1 recipient) =
     abi_encode lib [''address'', ''address'', ''address''] [AAddr c0, AAddr c1, AAddr recipient]"
| "posm_encode lib (PosmSweep c recipient) = abi_encode lib [''address'', ''address''] [AAddr c, AAddr recipient]"

definition posm_decode :: "eth_lib \<Rightarrow> 8 word \<Rightarrow> bytes \<Rightarrow> py_error + posm_param" where
  "posm_decode lib action data =
    (if action = 0x02 then
       bindr (abi_decode lib POSM_MINT_TYPES data) (\<lambda>vs. case vs of
         [k, lo, up, l, a, b, r, _] \<Rightarrow>
           bindr (key_of_tuple k) (\<lambda>k. bindr (as_int lo) (\<lambda>lo. bindr (as_int up) (\<lambda>up. bindr (as_int l) (\<lambda>l.
           bindr (as_int a) (\<lambda>a. bindr (as_int b) (\<lambda>b. bindr (as_addr r) (\<lambda>r.
             Inr (PosmMint k lo up l a b r))))))))
       | _ \<Rightarrow> bad_shape)
     else if action = 0x00 then
       bindr (abi_decode lib POSM_INCREASE_TYPES data) (\<lambda>vs. case vs of
         [t, l, a, b, _] \<Rightarrow> bindr (as_int t) (\<lambda>t. bindr (as_int l) (\<lambda>l. bindr (as_int a) (\<lambda>a. bindr (as_int b) (\<lambda>b.
           Inr (PosmIncrease t l a b)))))
       | _ \<Rightarrow> bad_shape)
     else if action = 0x01 then
       bindr (abi_decode lib POSM_DECREASE_TYPES data) (\<lambda>vs. case vs of
         [t, l, a, b, _] \<Rightarrow> bindr (as_int t) (\<lambda>t. bindr (as_int l) (\<lambda>l. bindr (as_int a) (\<lambda>a. bindr (as_int b) (\<lambda>b.
           Inr (PosmDecrease t l a b)))))
       | _ \<Rightarrow> bad_shape)
     else if action = 0x0D then
       bindr (abi_decode lib [''address'', ''address''] data) (\<lambda>vs. case vs of
         [c, d] \<Rightarrow> bindr (as_addr c) (\<lambda>c. bindr (as_addr d) (\<lambda>d. Inr (PosmSettlePair c d)))
       | _ \<Rightarrow> bad_shape)
     else if action = 0x11 then
       bindr (abi_decode lib [''address'', ''address'', ''address''] data) (\<lambda>vs. case vs of
         [c, d, r] \<Rightarrow> bindr (as_addr c) (\<lambda>c. bindr (as_addr d) (\<lambda>d. bindr (as_addr r) (\<lambda>r.
           Inr (PosmTakePair c d r))))
       | _ \<Rightarrow> bad_shape)
     else if action = 0x14 then
       bindr (abi_decode lib [''address'', ''address''] data) (\<lambda>vs. case vs of
         [c, d] \<Rightarrow> bindr (as_addr c) (\<lambda>c. bindr (as_addr d) (\<lambda>d. Inr (PosmSweep c d)))
       | _ \<Rightarrow> bad_shape)
     else Inl (KeyError ''PositionManager action''))"

definition posm_modify_liquidities :: "eth_lib \<Rightarrow> posm_param list \<Rightarrow> int \<Rightarrow> py_error + bytes" where
  "posm_modify_liquidities lib params deadline =
     bindr (map_res (posm_encode lib) params) (\<lambda>encoded.
     bindr (abi_encode lib [''bytes'', ''bytes[]''] [ABytes (map posm_action params), AArray (map ABytes encoded)]) (\<lambda>unlock.
     bindr (abi_encode lib [''bytes'', ''uint256''] [ABytes unlock, AInt deadline]) (\<lambda>body.
       Inr (SEL_MODIFY_LIQUIDITIES lib @ body))))"

definition decode_posm_modify_liquidities :: "eth_lib \<Rightarrow> bytes \<Rightarrow> py_error + posm_param list \<times> int" where
  "decode_posm_modify_liquidities lib data =
    (if take 4 data \<noteq> SEL_MODIFY_LIQUIDITIES lib then
       Inl (ValueError ''not a PositionManager modifyLiquidities call'')
     else bindr (abi_decode lib [''bytes'', ''uint256''] (drop 4 data)) (\<lambda>vs. case vs of
       [unlock, deadline] \<Rightarrow>
         bindr (as_bytes unlock) (\<lambda>unlock. bindr (as_int deadline) (\<lambda>deadline.
         bindr (abi_decode lib [''bytes'', ''bytes[]''] unlock) (\<lambda>ws. case ws of
           [actions, params] \<Rightarrow>
             bindr (as_bytes actions) (\<lambda>actions. bindr (as_array params) (\<lambda>params.
             bindr (decode_parts (posm_decode lib) actions params) (\<lambda>ps. Inr (ps, deadline))))
         | _ \<Rightarrow> bad_shape)))
     | _ \<Rightarrow> bad_shape))"

definition multicall :: "eth_lib \<Rightarrow> bytes list \<Rightarrow> py_error + bytes" where
  "multicall lib calls =
     bindr (abi_encode lib [''bytes[]''] [AArray (map ABytes calls)]) (\<lambda>body. Inr (SEL_MULTICALL lib @ body))"

definition decode_multicall :: "eth_lib \<Rightarrow> bytes \<Rightarrow> py_error + bytes list" where
  "decode_multicall lib data =
    (if take 4 data \<noteq> SEL_MULTICALL lib then Inl (ValueError ''not a multicall'')
     else bindr (abi_decode lib [''bytes[]''] (drop 4 data)) (\<lambda>vs. case vs of
       [calls] \<Rightarrow> bindr (as_array calls) (map_res as_bytes)
     | _ \<Rightarrow> bad_shape))"

section \<open>NFPM calls\<close>

datatype nfpm_call =
    NfpmMint address address int int int int int int int address int
  | NfpmIncrease int int int int int int
  | NfpmDecrease int int int int int
  | NfpmCollect int address int int

fun nfpm_encode :: "eth_lib \<Rightarrow> nfpm_call \<Rightarrow> py_error + bytes" where
  "nfpm_encode lib (NfpmMint token0 token1 fee lower upper d0 d1 m0 m1 recipient deadline) =
     bindr (abi_encode lib [NFPM_MINT_TYPE]
       [ATuple [AAddr token0, AAddr token1, AInt fee, AInt lower, AInt upper, AInt d0, AInt d1, AInt m0,
                AInt m1, AAddr recipient, AInt deadline]]) (\<lambda>b. Inr (SEL_NFPM_MINT lib @ b))"
| "nfpm_encode lib (NfpmIncrease token_id d0 d1 m0 m1 deadline) =
     bindr (abi_encode lib [NFPM_INCREASE_TYPE]
       [ATuple [AInt token_id, AInt d0, AInt d1, AInt m0, AInt m1, AInt deadline]]) (\<lambda>b.
       Inr (SEL_NFPM_INCREASE lib @ b))"
| "nfpm_encode lib (NfpmDecrease token_id liquidity m0 m1 deadline) =
     bindr (abi_encode lib [NFPM_DECREASE_TYPE]
       [ATuple [AInt token_id, AInt liquidity, AInt m0, AInt m1, AInt deadline]]) (\<lambda>b.
       Inr (SEL_NFPM_DECREASE lib @ b))"
| "nfpm_encode lib (NfpmCollect token_id recipient x0 x1) =
     bindr (abi_encode lib [NFPM_COLLECT_TYPE]
       [ATuple [AInt token_id, AAddr recipient, AInt x0, AInt x1]]) (\<lambda>b. Inr (SEL_NFPM_COLLECT lib @ b))"

definition nfpm_decode_mint :: "eth_lib \<Rightarrow> bytes \<Rightarrow> py_error + nfpm_call" where
  "nfpm_decode_mint lib data =
     bindr (abi_decode lib [NFPM_MINT_TYPE] (drop 4 data)) (\<lambda>vs. case vs of
       [v] \<Rightarrow> bindr (as_tuple v) (\<lambda>ws. case ws of
         [t0, t1, f, lo, up, d0, d1, m0, m1, r, dl] \<Rightarrow>
           bindr (as_addr t0) (\<lambda>t0. bindr (as_addr t1) (\<lambda>t1. bindr (as_int f) (\<lambda>f. bindr (as_int lo) (\<lambda>lo.
           bindr (as_int up) (\<lambda>up. bindr (as_int d0) (\<lambda>d0. bindr (as_int d1) (\<lambda>d1. bindr (as_int m0) (\<lambda>m0.
           bindr (as_int m1) (\<lambda>m1. bindr (as_addr r) (\<lambda>r. bindr (as_int dl) (\<lambda>dl.
             Inr (NfpmMint t0 t1 f lo up d0 d1 m0 m1 r dl))))))))))))
       | _ \<Rightarrow> bad_shape)
     | _ \<Rightarrow> bad_shape)"

definition nfpm_decode_increase :: "eth_lib \<Rightarrow> bytes \<Rightarrow> py_error + nfpm_call" where
  "nfpm_decode_increase lib data =
     bindr (abi_decode lib [NFPM_INCREASE_TYPE] (drop 4 data)) (\<lambda>vs. case vs of
       [v] \<Rightarrow> bindr (as_tuple v) (\<lambda>ws. case ws of
         [t, d0, d1, m0, m1, dl] \<Rightarrow>
           bindr (as_int t) (\<lambda>t. bindr (as_int d0) (\<lambda>d0. bindr (as_int d1) (\<lambda>d1. bindr (as_int m0) (\<lambda>m0.
           bindr (as_int m1) (\<lambda>m1. bindr (as_int dl) (\<lambda>dl. Inr (NfpmIncrease t d0 d1 m0 m1 dl)))))))
       | _ \<Rightarrow> bad_shape)
     | _ \<Rightarrow> bad_shape)"

definition nfpm_decode_decrease :: "eth_lib \<Rightarrow> bytes \<Rightarrow> py_error + nfpm_call" where
  "nfpm_decode_decrease lib data =
     bindr (abi_decode lib [NFPM_DECREASE_TYPE] (drop 4 data)) (\<lambda>vs. case vs of
       [v] \<Rightarrow> bindr (as_tuple v) (\<lambda>ws. case ws of
         [t, l, m0, m1, dl] \<Rightarrow>
           bindr (as_int t) (\<lambda>t. bindr (as_int l) (\<lambda>l. bindr (as_int m0) (\<lambda>m0. bindr (as_int m1) (\<lambda>m1.
           bindr (as_int dl) (\<lambda>dl. Inr (NfpmDecrease t l m0 m1 dl))))))
       | _ \<Rightarrow> bad_shape)
     | _ \<Rightarrow> bad_shape)"

definition nfpm_decode_collect :: "eth_lib \<Rightarrow> bytes \<Rightarrow> py_error + nfpm_call" where
  "nfpm_decode_collect lib data =
     bindr (abi_decode lib [NFPM_COLLECT_TYPE] (drop 4 data)) (\<lambda>vs. case vs of
       [v] \<Rightarrow> bindr (as_tuple v) (\<lambda>ws. case ws of
         [t, r, x0, x1] \<Rightarrow>
           bindr (as_int t) (\<lambda>t. bindr (as_addr r) (\<lambda>r. bindr (as_int x0) (\<lambda>x0. bindr (as_int x1) (\<lambda>x1.
             Inr (NfpmCollect t r x0 x1)))))
       | _ \<Rightarrow> bad_shape)
     | _ \<Rightarrow> bad_shape)"

text \<open>The table \<^verbatim>\<open>_NFPM_CALLS\<close>: of equal keys in a dict display the last one counts.\<close>

definition decode_nfpm_call :: "eth_lib \<Rightarrow> bytes \<Rightarrow> py_error + nfpm_call" where
  "decode_nfpm_call lib data =
    (let sel = take 4 data in
     if sel = SEL_NFPM_COLLECT lib then nfpm_decode_collect lib data
     else if sel = SEL_NFPM_DECREASE lib then nfpm_decode_decrease lib data
     else if sel = SEL_NFPM_INCREASE lib then nfpm_decode_increase lib data
     else if sel = SEL_NFPM_MINT lib then nfpm_decode_mint lib data
     else Inl (ValueError ''unknown NFPM call''))"

section \<open>ERC-20 and Permit2 calls\<close>

definition erc20_approve :: "eth_lib \<Rightarrow> address \<Rightarrow> int \<Rightarrow> py_error + bytes" where
  "erc20_approve lib spender amount =
     bindr (abi_encode lib [''address'', ''uint256''] [AAddr spender, AInt amount]) (\<lambda>b.
       Inr (selector lib ''approve(address,uint256)'' @ b))"

definition permit2_approve :: "eth_lib \<Rightarrow> address \<Rightarrow> address \<Rightarrow> int \<Rightarrow> int \<Rightarrow> py_error + bytes" where
  "permit2_approve lib token spender amount expiration =
     bindr (abi_encode lib [''address'', ''address'', ''uint160'', ''uint48'']
              [AAddr token, AAddr spender, AInt amount, AInt expiration]) (\<lambda>b.
       Inr (selector lib ''approve(address,address,uint160,uint48)'' @ b))"

section \<open>Hook flags\<close>

definition HOOK_FLAG_NAMES :: "string list" where
  "HOOK_FLAG_NAMES =
    [''AFTER_REMOVE_LIQUIDITY_RETURNS_DELTA'', ''AFTER_ADD_LIQUIDITY_RETURNS_DELTA'',
     ''AFTER_SWAP_RETURNS_DELTA'', ''BEFORE_SWAP_RETURNS_DELTA'', ''AFTER_DONATE'', ''BEFORE_DONATE'',
     ''AFTER_SWAP'', ''BEFORE_SWAP'', ''AFTER_REMOVE_LIQUIDITY'', ''BEFORE_REMOVE_LIQUIDITY'',
     ''AFTER_ADD_LIQUIDITY'', ''BEFORE_ADD_LIQUIDITY'', ''AFTER_INITIALIZE'', ''BEFORE_INITIALIZE'']"

definition hook_flags :: "address \<Rightarrow> py_error + string set" where
  "hook_flags hook =
     bindr (int_base16 hook) (\<lambda>n.
       let bits = n AND 0x3FFF in
       Inr (set (map snd (filter (\<lambda>(i, name). drop_bit i bits AND 1 \<noteq> 0) (enumerate 0 HOOK_FLAG_NAMES)))))"

section \<open>Revert data\<close>

record revert_kind =
  rk_kind :: string
  rk_selector :: string
  rk_detail :: string

definition revert_of :: "string \<Rightarrow> string \<Rightarrow> string \<Rightarrow> revert_kind" where
  "revert_of kind sel detail = \<lparr>rk_kind = kind, rk_selector = sel, rk_detail = detail\<rparr>"

definition KNOWN_SELECTORS :: "eth_lib \<Rightarrow> (bytes \<times> string) list" where
  "KNOWN_SELECTORS lib =
    [(selector lib ''TransactionDeadlinePassed()'', ''expired''),
     (selector lib ''DeadlinePassed(uint256)'', ''expired''),
     (selector lib ''SignatureExpired(uint256)'', ''expired''),
     (selector lib ''AllowanceExpired(uint256)'', ''expired''),
     (selector lib ''V3TooLittleReceived()'', ''slippage''),
     (selector lib ''V2TooLittleReceived()'', ''slippage''),
     (selector lib ''V4TooLittleReceived(uint256,uint256)'', ''slippage''),
     (selector lib ''InsufficientETH()'', ''slippage''),
     (selector lib ''InsufficientToken()'', ''slippage''),
     (selector lib ''MinimumAmountInsufficient(uint128,uint128)'', ''slippage''),
     (selector lib ''MaximumAmountExceeded(uint128,uint128)'', ''slippage''),
     ([0x47, 0x13, 0xc1, 0x8b], ''slippage''),
     (selector lib ''InvalidSignature()'', ''bad_signature''),
     (selector lib ''InvalidSigner()'', ''bad_signature''),
     (selector lib ''InvalidContractSignature()'', ''bad_signature''),
     (selector lib ''InvalidSignatureLength()'', ''bad_signature''),
     (selector lib ''InvalidNonce()'', ''bad_signature''),
     (selector lib ''InsufficientAllowance(uint256)'', ''approve_pending''),
     (selector lib ''NotApproved(address)'', ''approve_pending''),
     (selector lib ''SliceOutOfBounds()'', ''encoding''),
     ([0x38, 0x3e, 0xf6, 0x1c], ''encoding'')]"

definition STRING_REASONS :: "(string \<times> string) list" where
  "STRING_REASONS =
    [(''Price slippage check'', ''slippage''),
     (''Transaction too old'', ''expired''),
     (''Too little received'', ''slippage''),
     (''STF'', ''insufficient_balance''),
     (''TRANSFER_FROM_FAILED'', ''insufficient_balance''),
     (''ERC20: transfer amount exceeds balance'', ''insufficient_balance''),
     (''ERC20: transfer amount exceeds allowance'', ''approve_pending''),
     (''ERC20: insufficient allowance'', ''approve_pending'')]"

definition decode_reason :: "eth_lib \<Rightarrow> bytes \<Rightarrow> py_error + string" where
  "decode_reason lib body =
     bindr (abi_decode lib [''string''] body) (\<lambda>vs. case vs of [v] \<Rightarrow> as_text v | _ \<Rightarrow> bad_shape)"

definition decode_execution_failed :: "eth_lib \<Rightarrow> bytes \<Rightarrow> py_error + int \<times> bytes" where
  "decode_execution_failed lib body =
     bindr (abi_decode lib [''uint256'', ''bytes''] body) (\<lambda>vs. case vs of
       [i, b] \<Rightarrow> bindr (as_int i) (\<lambda>i. bindr (as_bytes b) (\<lambda>b. Inr (i, b)))
     | _ \<Rightarrow> bad_shape)"

definition decode_wrapped_error :: "eth_lib \<Rightarrow> bytes \<Rightarrow> py_error + address \<times> bytes \<times> bytes" where
  "decode_wrapped_error lib body =
     bindr (abi_decode lib [''address'', ''bytes4'', ''bytes'', ''bytes''] body) (\<lambda>vs. case vs of
       [t, h, r, _] \<Rightarrow>
         bindr (as_addr t) (\<lambda>t. bindr (as_bytes h) (\<lambda>h. bindr (as_bytes r) (\<lambda>r. Inr (t, h, r))))
     | _ \<Rightarrow> bad_shape)"

text \<open>
  \<open>decode_revert\<close> recurses into the revert data an \<^verbatim>\<open>ExecutionFailed\<close> wraps; \<open>fuel\<close> is the
  recursion depth the interpreter still allows, and running out raises as Python does. A failed
  \<^verbatim>\<open>decode\<close> is caught where the source catches it.
\<close>

fun decode_revert :: "eth_lib \<Rightarrow> nat \<Rightarrow> bytes \<Rightarrow> py_error + revert_kind" where
  "decode_revert lib 0 data = Inl (RuntimeError ''maximum recursion depth exceeded'')"
| "decode_revert lib (Suc fuel) data =
    (if data = [] then Inr (revert_of ''unknown'' ''0x'' [])
     else
       let sel = take 4 data; hexsel = hex0x sel in
       if sel = selector lib ''Error(string)'' then
         (let reason = (case decode_reason lib (drop 4 data) of Inl _ \<Rightarrow> [] | Inr r \<Rightarrow> r)
          in Inr (revert_of (case map_of STRING_REASONS reason of None \<Rightarrow> ''unknown'' | Some k \<Rightarrow> k)
                hexsel reason))
       else if sel = selector lib ''ExecutionFailed(uint256,bytes)'' then
         (case decode_execution_failed lib (drop 4 data) of
            Inl _ \<Rightarrow> Inr (revert_of ''unknown'' hexsel [])
          | Inr (index, inner) \<Rightarrow>
              bindr (decode_revert lib fuel inner) (\<lambda>inner_kind.
                Inr (revert_of (rk_kind inner_kind) (rk_selector inner_kind)
                  (strip (''command '' @ int_text index @ '': '' @ rk_detail inner_kind)))))
       else if sel = selector lib ''WrappedError(address,bytes4,bytes,bytes)'' then
         (case decode_wrapped_error lib (drop 4 data) of
            Inl _ \<Rightarrow> Inr (revert_of ''hook_reverted'' hexsel [])
          | Inr (target, hook_sel, reason) \<Rightarrow>
              Inr (revert_of ''hook_reverted'' hexsel
                (target @ '' '' @ hex_of_bytes hook_sel @ '' '' @ hex_of_bytes reason)))
       else (case map_of (rev (KNOWN_SELECTORS lib)) sel of
            None \<Rightarrow> Inr (revert_of ''unknown'' hexsel [])
          | Some kind \<Rightarrow> Inr (revert_of kind hexsel [])))"

section \<open>What the code relies on of eth_abi and keccak\<close>

text \<open>
  The type lists this module encodes and decodes. For them \<^verbatim>\<open>eth_abi\<close> documents that decoding
  returns the encoded values, with addresses as lower-case text; and keccak-256 returns 32 bytes.
\<close>

definition CODEC_TYPES :: "string list list" where
  "CODEC_TYPES =
    [[''address'', ''uint256''], [''address'', ''address'', ''uint256''], [''address'', ''address'', ''uint160''],
     [PERMIT_SINGLE_TYPE, ''bytes''], SWAP_BYTES_TYPES, SWAP_ARRAY_TYPES,
     [''address'', ''uint256'', ''bool''], [V4_SINGLE_TYPE], [''bytes'', ''bytes[]''],
     [''bytes'', ''bytes[]'', ''uint256''], POSM_MINT_TYPES, POSM_INCREASE_TYPES, POSM_DECREASE_TYPES,
     [''address'', ''address''], [''address'', ''address'', ''address''], [''bytes'', ''uint256''],
     [''bytes[]''], [NFPM_MINT_TYPE], [NFPM_INCREASE_TYPE], [NFPM_DECREASE_TYPE], [NFPM_COLLECT_TYPE],
     [''uint256'', ''bytes[]'']]"

fun canonical :: "abi_value \<Rightarrow> bool" where
  "canonical (AAddr a) = is_address a"
| "canonical (ATuple vs) = list_all canonical vs"
| "canonical (AArray vs) = list_all canonical vs"
| "canonical v = True"

definition codec_roundtrips :: "eth_lib \<Rightarrow> bool" where
  "codec_roundtrips lib \<longleftrightarrow>
    (\<forall>ts vs bs. ts \<in> set CODEC_TYPES \<longrightarrow> list_all canonical vs \<longrightarrow>
       abi_encode lib ts vs = Inr bs \<longrightarrow> abi_decode lib ts bs = Inr vs)"

definition keccak_32 :: "eth_lib \<Rightarrow> bool" where
  "keccak_32 lib \<longleftrightarrow> (\<forall>x. length (keccak lib x) = 32)"

text \<open>A concrete library with these properties, so that the hypotheses are not empty.\<close>

definition counting_lib :: eth_lib where
  "counting_lib = \<lparr>keccak = (\<lambda>x. take 32 (x @ replicate 32 0)),
     abi_encode = (\<lambda>ts vs. Inr (replicate (to_nat vs) 0)),
     abi_decode = (\<lambda>ts bs. Inr (from_nat (length bs)))\<rparr>"

lemma counting_lib_codec [simp]: "codec_roundtrips counting_lib"
  by (auto simp: codec_roundtrips_def counting_lib_def)

lemma counting_lib_keccak [simp]: "keccak_32 counting_lib"
  by (auto simp: keccak_32_def counting_lib_def min_def)

lemma counting_lib_encode [simp]: "abi_encode counting_lib ts vs = Inr (replicate (to_nat vs) 0)"
  by (simp add: counting_lib_def)

lemma codec_dec:
  "abi_encode lib ts vs = Inr bs \<Longrightarrow> codec_roundtrips lib \<Longrightarrow> ts \<in> set CODEC_TYPES \<Longrightarrow>
   list_all canonical vs \<Longrightarrow> abi_decode lib ts bs = Inr vs"
  by (auto simp: codec_roundtrips_def)

lemma codec_types [simp]:
  "[''address'', ''uint256''] \<in> set CODEC_TYPES"
  "[''address'', ''address'', ''uint256''] \<in> set CODEC_TYPES"
  "[''address'', ''address'', ''uint160''] \<in> set CODEC_TYPES"
  "[PERMIT_SINGLE_TYPE, ''bytes''] \<in> set CODEC_TYPES"
  "SWAP_BYTES_TYPES \<in> set CODEC_TYPES" "SWAP_ARRAY_TYPES \<in> set CODEC_TYPES"
  "[''address'', ''uint256'', ''bool''] \<in> set CODEC_TYPES" "[V4_SINGLE_TYPE] \<in> set CODEC_TYPES"
  "[''bytes'', ''bytes[]''] \<in> set CODEC_TYPES" "[''bytes'', ''bytes[]'', ''uint256''] \<in> set CODEC_TYPES"
  "POSM_MINT_TYPES \<in> set CODEC_TYPES" "POSM_INCREASE_TYPES \<in> set CODEC_TYPES"
  "POSM_DECREASE_TYPES \<in> set CODEC_TYPES" "[''address'', ''address''] \<in> set CODEC_TYPES"
  "[''address'', ''address'', ''address''] \<in> set CODEC_TYPES" "[''bytes'', ''uint256''] \<in> set CODEC_TYPES"
  "[''bytes[]''] \<in> set CODEC_TYPES" "[NFPM_MINT_TYPE] \<in> set CODEC_TYPES"
  "[NFPM_INCREASE_TYPE] \<in> set CODEC_TYPES" "[NFPM_DECREASE_TYPE] \<in> set CODEC_TYPES"
  "[NFPM_COLLECT_TYPE] \<in> set CODEC_TYPES" "[''uint256'', ''bytes[]''] \<in> set CODEC_TYPES"
  by (simp_all only: CODEC_TYPES_def list.set insert_iff simp_thms)

lemma length_selector: "keccak_32 lib \<Longrightarrow> length (selector lib s) = 4"
  by (simp add: selector_def keccak_32_def)

lemma selector_prefix:
  "keccak_32 lib \<Longrightarrow> take 4 (selector lib s @ b) = selector lib s"
  "keccak_32 lib \<Longrightarrow> drop 4 (selector lib s @ b) = b"
  by (simp_all add: length_selector)

section \<open>Round trips of the parts\<close>

definition key_canonical :: "pool_key \<Rightarrow> bool" where
  "key_canonical k \<longleftrightarrow> is_address (key_currency0 k) \<and> is_address (key_currency1 k) \<and> is_address (key_hooks k)"

definition permit_canonical :: "permit_single \<Rightarrow> bool" where
  "permit_canonical p \<longleftrightarrow> is_address (pd_token (ps_details p)) \<and> is_address (ps_spender p)"

fun v4_canonical :: "v4_param \<Rightarrow> bool" where
  "v4_canonical (V4Settle c a p) = is_address c"
| "v4_canonical (V4SettleAll c a) = is_address c"
| "v4_canonical (V4Take c r a) = (is_address c \<and> is_address r)"
| "v4_canonical (V4SwapExactInSingle k z a m) = key_canonical k"

fun ur_canonical :: "ur_command \<Rightarrow> bool" where
  "ur_canonical (WrapEth r a) = is_address r"
| "ur_canonical (UnwrapWeth r a) = is_address r"
| "ur_canonical (PayPortion t r b) = (is_address t \<and> is_address r)"
| "ur_canonical (Sweep t r m) = (is_address t \<and> is_address r)"
| "ur_canonical (Permit2TransferFrom t r a) = (is_address t \<and> is_address r)"
| "ur_canonical (Permit2Permit p s) = permit_canonical p"
| "ur_canonical (V3Swap r a m p u) = is_address r"
| "ur_canonical (V2Swap r a m p u) = (is_address r \<and> list_all is_address p)"
| "ur_canonical (V4Swap ps) = list_all v4_canonical ps"

fun posm_canonical :: "posm_param \<Rightarrow> bool" where
  "posm_canonical (PosmMint k lo up l a b r) = (key_canonical k \<and> is_address r)"
| "posm_canonical (PosmSettlePair c d) = (is_address c \<and> is_address d)"
| "posm_canonical (PosmTakePair c d r) = (is_address c \<and> is_address d \<and> is_address r)"
| "posm_canonical (PosmSweep c r) = (is_address c \<and> is_address r)"
| "posm_canonical p = True"

lemma key_of_key_tuple [simp]: "key_of_tuple (key_tuple k) = Inr k"
  by (simp add: key_of_tuple_def key_tuple_def)

lemma canonical_key_tuple [simp]: "canonical (key_tuple k) = key_canonical k"
  by (simp add: key_tuple_def key_canonical_def)

lemma permit_of_permit_tuple [simp]: "permit_single_of_tuple (permit_single_tuple p) = Inr p"
  by (simp add: permit_single_of_tuple_def permit_single_tuple_def details_of_tuple_def details_tuple_def)

lemma canonical_permit_tuple [simp]: "canonical (permit_single_tuple p) = permit_canonical p"
  by (simp add: permit_single_tuple_def details_tuple_def permit_canonical_def)

lemma map_res_as_addr [simp]: "map_res as_addr (map AAddr xs) = Inr xs"
  by (induction xs) auto

lemma map_res_as_bytes [simp]: "map_res as_bytes (map ABytes xs) = Inr xs"
  by (induction xs) auto

lemma canonical_AAddrs [simp]: "list_all canonical (map AAddr xs) = list_all is_address xs"
  by (induction xs) auto

lemma canonical_ABytes [simp]: "list_all canonical (map ABytes xs)"
  by (induction xs) auto

lemma v4_roundtrip:
  assumes "codec_roundtrips lib" "v4_encode lib p = Inr bs" "v4_canonical p"
  shows "v4_decode lib (v4_action p) bs = Inr p"
  using assms by (cases p) (auto simp: v4_decode_def dest: codec_dec)

lemma decode_parts_all:
  "list_all2 (\<lambda>x b. dec (code x) b = Inr x) xs bs \<Longrightarrow>
   decode_parts dec (map code xs) (map ABytes bs) = Inr xs"
  by (induction xs bs rule: list_all2_induct) auto

lemma decode_parts_encoded:
  assumes "map_res enc xs = Inr bs"
    and "\<And>x b. x \<in> set xs \<Longrightarrow> enc x = Inr b \<Longrightarrow> dec (code x) b = Inr x"
  shows "decode_parts dec (map code xs) (map ABytes bs) = Inr xs"
proof (rule decode_parts_all)
  from assms(1) have "list_all2 (\<lambda>x b. enc x = Inr b) xs bs" by (simp add: map_res_eq_Inr)
  then show "list_all2 (\<lambda>x b. dec (code x) b = Inr x) xs bs"
    by (rule list.rel_mono_strong) (auto intro: assms(2))
qed

lemma ur_roundtrip:
  assumes lib: "codec_roundtrips lib" and enc: "ur_encode lib c = Inr bs" and can: "ur_canonical c"
  shows "ur_decode lib (ur_cmd c) bs = Inr c"
proof (cases c)
  case (V4Swap ps)
  with enc obtain parts where parts: "map_res (v4_encode lib) ps = Inr parts"
    and all: "abi_encode lib [''bytes'', ''bytes[]''] [ABytes (map v4_action ps), AArray (map ABytes parts)] = Inr bs"
    by (auto simp: result_simps)
  have "decode_parts (v4_decode lib) (map v4_action ps) (map ABytes parts) = Inr ps"
    using parts by (rule decode_parts_encoded)
      (use lib can V4Swap v4_roundtrip in \<open>auto simp: list_all_iff\<close>)
  with codec_dec [OF all lib] show ?thesis by (simp add: V4Swap ur_decode_def)
qed (use assms in \<open>auto simp: ur_decode_def dest: codec_dec\<close>)

lemma posm_roundtrip:
  assumes "codec_roundtrips lib" "posm_encode lib p = Inr bs" "posm_canonical p"
  shows "posm_decode lib (posm_action p) bs = Inr p"
  using assms by (cases p) (auto simp: posm_decode_def dest: codec_dec)

fun nfpm_canonical :: "nfpm_call \<Rightarrow> bool" where
  "nfpm_canonical (NfpmMint t0 t1 f lo up d0 d1 m0 m1 r dl) = (is_address t0 \<and> is_address t1 \<and> is_address r)"
| "nfpm_canonical (NfpmCollect t r x0 x1) = is_address r"
| "nfpm_canonical c = True"

definition nfpm_selectors_distinct :: "eth_lib \<Rightarrow> bool" where
  "nfpm_selectors_distinct lib \<longleftrightarrow>
     distinct [SEL_NFPM_MINT lib, SEL_NFPM_INCREASE lib, SEL_NFPM_DECREASE lib, SEL_NFPM_COLLECT lib]"

lemmas nfpm_selector_defs =
  SEL_NFPM_MINT_def SEL_NFPM_INCREASE_def SEL_NFPM_DECREASE_def SEL_NFPM_COLLECT_def

lemmas nfpm_decode_defs =
  nfpm_decode_mint_def nfpm_decode_increase_def nfpm_decode_decrease_def nfpm_decode_collect_def

lemma nfpm_roundtrip:
  assumes lib: "codec_roundtrips lib" "keccak_32 lib" and sel: "nfpm_selectors_distinct lib"
    and enc: "nfpm_encode lib c = Inr bs" and can: "nfpm_canonical c"
  shows "decode_nfpm_call lib bs = Inr c"
proof -
  have neq: "SEL_NFPM_MINT lib \<noteq> SEL_NFPM_INCREASE lib" "SEL_NFPM_MINT lib \<noteq> SEL_NFPM_DECREASE lib"
    "SEL_NFPM_MINT lib \<noteq> SEL_NFPM_COLLECT lib" "SEL_NFPM_INCREASE lib \<noteq> SEL_NFPM_DECREASE lib"
    "SEL_NFPM_INCREASE lib \<noteq> SEL_NFPM_COLLECT lib" "SEL_NFPM_DECREASE lib \<noteq> SEL_NFPM_COLLECT lib"
    using sel by (auto simp: nfpm_selectors_distinct_def)
  have len: "length (SEL_NFPM_MINT lib) = 4" "length (SEL_NFPM_INCREASE lib) = 4"
    "length (SEL_NFPM_DECREASE lib) = 4" "length (SEL_NFPM_COLLECT lib) = 4"
    using lib(2) by (simp_all add: nfpm_selector_defs length_selector)
  show ?thesis
    using lib(1) enc can neq len
    by (cases c) (auto simp: decode_nfpm_call_def nfpm_decode_defs result_simps dest!: codec_dec)
qed

section \<open>Round trip of V3 paths\<close>

lemma length_v3_path_tail:
  "v3_path_tail out fees tokens = Inr p \<Longrightarrow> length fees = length tokens"
  by (induction out fees tokens rule: v3_path_tail.induct) (auto simp: result_simps)

lemma v3_path_tail_decode:
  "v3_path_tail out fees tokens = Inr p \<Longrightarrow> list_all is_address tokens \<Longrightarrow>
   \<exists>rest. p = out @ rest \<and> decode_v3_rest rest = (tokens, fees)"
proof (induction out fees tokens rule: v3_path_tail.induct)
  case (1 out)
  then show ?case by (simp add: decode_v3_rest.simps)
next
  case (2 out fee fees token tokens)
  obtain bs where bs: "token = hex0x bs" "length bs = 20"
    using "2.prems" is_address_bytes [of token] by auto
  obtain f where f: "to_bytes_big 3 fee = Inr f"
    and tail: "v3_path_tail (out @ f @ bs) fees tokens = Inr p"
    using "2.prems" bs by (auto simp: result_simps)
  obtain rest where rest: "p = (out @ f @ bs) @ rest" "decode_v3_rest rest = (tokens, fees)"
    using "2.IH" [OF tail] "2.prems" by auto
  have len: "length f = 3" "from_bytes_big f = fee"
    using f by (auto simp: to_bytes_big_length dest: to_bytes_big_roundtrip)
  have "decode_v3_rest (f @ bs @ rest) = (token # tokens, fee # fees)"
    using len bs rest by (subst decode_v3_rest.simps) (auto simp: Let_def)
  then show ?case using rest by (intro exI [of _ "f @ bs @ rest"]) simp
qed auto

lemma v3_path_decode:
  assumes "v3_path tokens fees = Inr p" "list_all is_address tokens"
  shows "decode_v3_path p = (tokens, fees)"
proof (cases tokens)
  case Nil
  then show ?thesis using assms by simp
next
  case (Cons t ts)
  obtain bs where bs: "t = hex0x bs" "length bs = 20"
    using assms Cons is_address_bytes [of t] by auto
  then have "v3_path_tail bs fees ts = Inr p" using assms Cons by simp
  then obtain rest where "p = bs @ rest" "decode_v3_rest rest = (ts, fees)"
    using v3_path_tail_decode assms Cons by fastforce
  then show ?thesis using bs Cons by (simp add: decode_v3_path_def)
qed

section \<open>Classification of revert data\<close>

definition REVERT_CODES :: "string list" where
  "REVERT_CODES = [''unknown'', ''expired'', ''slippage'', ''bad_signature'', ''approve_pending'', ''encoding'',
     ''insufficient_balance'', ''hook_reverted'']"

text \<open>
  What \<^verbatim>\<open>eth_abi\<close> guarantees of a decoded \<^verbatim>\<open>bytes\<close> value: it lies inside the data.
\<close>

definition inner_bytes_shorter :: "eth_lib \<Rightarrow> bool" where
  "inner_bytes_shorter lib \<longleftrightarrow>
    (\<forall>data v b. abi_decode lib [''uint256'', ''bytes''] data = Inr [v, ABytes b] \<longrightarrow> length b \<le> length data)"

lemma as_bytes_Inr: "as_bytes v = Inr b \<longleftrightarrow> v = ABytes b"
  by (cases v) auto

lemma known_selector_code:
  "map_of (rev (KNOWN_SELECTORS lib)) sel = Some kind \<Longrightarrow> kind \<in> set REVERT_CODES"
  by (drule map_of_SomeD) (auto simp: KNOWN_SELECTORS_def REVERT_CODES_def)

lemma string_reason_code: "map_of STRING_REASONS reason = Some kind \<Longrightarrow> kind \<in> set REVERT_CODES"
  by (drule map_of_SomeD) (auto simp: STRING_REASONS_def REVERT_CODES_def)

lemma fixed_codes [simp]: "''unknown'' \<in> set REVERT_CODES" "''hook_reverted'' \<in> set REVERT_CODES"
  by (simp_all add: REVERT_CODES_def)

lemma rk_kind_of [simp]: "rk_kind (revert_of k s d) = k"
  by (simp add: revert_of_def)

lemma decode_execution_failed_Inr:
  assumes "decode_execution_failed lib body = Inr (i, b)"
  shows "\<exists>v. abi_decode lib [''uint256'', ''bytes''] body = Inr [v, ABytes b]"
proof -
  obtain vs where vs: "abi_decode lib [''uint256'', ''bytes''] body = Inr vs"
    and parts: "(case vs of [i, b] \<Rightarrow> bindr (as_int i) (\<lambda>i. bindr (as_bytes b) (\<lambda>b. Inr (i, b)))
      | _ \<Rightarrow> bad_shape) = Inr (i, b)"
    using assms unfolding decode_execution_failed_def bindr_eq_Inr by blast
  from parts have "\<exists>v. vs = [v, ABytes b]"
    by (auto simp: bindr_eq_Inr as_bytes_Inr split: list.splits)
  with vs show ?thesis by blast
qed

lemma inner_data_shorter:
  assumes "inner_bytes_shorter lib" "data \<noteq> []"
    and "decode_execution_failed lib (drop 4 data) = Inr (index, inner)"
  shows "length inner < length data"
proof -
  have "length inner \<le> length (drop 4 data)"
    using assms(1) decode_execution_failed_Inr [OF assms(3)] unfolding inner_bytes_shorter_def by blast
  then show ?thesis using assms(2) by (cases data) auto
qed

lemma decode_revert_returns:
  assumes lib: "inner_bytes_shorter lib"
  shows "length data < fuel \<Longrightarrow> \<exists>k. decode_revert lib fuel data = Inr k \<and> rk_kind k \<in> set REVERT_CODES"
proof (induction fuel arbitrary: data)
  case 0
  then show ?case by simp
next
  case (Suc fuel)
  show ?case
  proof (cases "data = []")
    case True
    then show ?thesis by simp
  next
    case False
    have inner: "\<exists>k. decode_revert lib fuel b = Inr k \<and> rk_kind k \<in> set REVERT_CODES"
      if "decode_execution_failed lib (drop 4 data) = Inr (i, b)" for i b
      using Suc.IH [of b] inner_data_shorter [OF lib False that] Suc.prems by simp
    show ?thesis
    proof (cases "decode_execution_failed lib (drop 4 data)")
      case (Inl e)
      then show ?thesis
        using False known_selector_code string_reason_code
        by (auto simp: Let_def split: sum.splits option.splits)
    next
      case (Inr r)
      obtain i b where r: "r = (i, b)" by (cases r)
      obtain k where "decode_revert lib fuel b = Inr k" "rk_kind k \<in> set REVERT_CODES"
        using inner [of i b] Inr r by blast
      then show ?thesis
        using False Inr r known_selector_code string_reason_code
        by (auto simp: Let_def split: sum.splits option.splits)
    qed
  qed
qed

section \<open>Properties\<close>

text \<open>
  C3. Round trip of UniversalRouter calldata: whenever encoding a list of commands with lower-case
  addresses returns, \<open>decode_ur_execute\<close> returns exactly these commands and the deadline.
\<close>

theorem ur_execute_roundtrip:
  assumes "codec_roundtrips lib" and "keccak_32 lib"
    and "list_all ur_canonical commands" and "ur_execute lib commands deadline = Inr data"
  shows "decode_ur_execute lib data = Inr (commands, deadline)"
proof -
  obtain inputs body where inputs: "map_res (ur_encode lib) commands = Inr inputs"
    and body: "abi_encode lib [''bytes'', ''bytes[]'', ''uint256'']
       [ABytes (map ur_cmd commands), AArray (map ABytes inputs), AInt deadline] = Inr body"
    and data: "data = SEL_EXECUTE lib @ body"
    using assms(4) by (auto simp: ur_execute_def result_simps)
  have "decode_parts (ur_decode lib) (map ur_cmd commands) (map ABytes inputs) = Inr commands"
    using inputs by (rule decode_parts_encoded) (use assms ur_roundtrip in \<open>auto simp: list_all_iff\<close>)
  with codec_dec [OF body assms(1)] show ?thesis
    using assms(2) by (simp add: data decode_ur_execute_def SEL_EXECUTE_def length_selector)
qed

theorem ur_execute_roundtrip_witness:
  "decode_ur_execute counting_lib (SEL_EXECUTE counting_lib @
      replicate (to_nat [ABytes [0x0C], AArray [ABytes (replicate (to_nat [AAddr MSG_SENDER, AInt 5]) 0)], AInt 9]) 0) =
    Inr ([UnwrapWeth MSG_SENDER 5], 9)"
  by (rule ur_execute_roundtrip) (simp_all add: ur_execute_def)

text \<open>
  Round trip of position-manager calldata: \<open>decode_posm_modify_liquidities\<close> returns the
  actions and the deadline that were encoded.
\<close>

theorem posm_roundtrips:
  assumes "codec_roundtrips lib" and "keccak_32 lib"
    and "list_all posm_canonical params" and "posm_modify_liquidities lib params deadline = Inr data"
  shows "decode_posm_modify_liquidities lib data = Inr (params, deadline)"
proof -
  obtain parts unlock body where parts: "map_res (posm_encode lib) params = Inr parts"
    and unlock: "abi_encode lib [''bytes'', ''bytes[]''] [ABytes (map posm_action params), AArray (map ABytes parts)] = Inr unlock"
    and body: "abi_encode lib [''bytes'', ''uint256''] [ABytes unlock, AInt deadline] = Inr body"
    and data: "data = SEL_MODIFY_LIQUIDITIES lib @ body"
    using assms(4) by (auto simp: posm_modify_liquidities_def result_simps)
  have "decode_parts (posm_decode lib) (map posm_action params) (map ABytes parts) = Inr params"
    using parts by (rule decode_parts_encoded) (use assms posm_roundtrip in \<open>auto simp: list_all_iff\<close>)
  with codec_dec [OF body assms(1)] codec_dec [OF unlock assms(1)] show ?thesis
    using assms(2)
    by (simp add: data decode_posm_modify_liquidities_def SEL_MODIFY_LIQUIDITIES_def length_selector)
qed

theorem posm_roundtrips_witness:
  "decode_posm_modify_liquidities counting_lib (SEL_MODIFY_LIQUIDITIES counting_lib @
      replicate (to_nat [ABytes (replicate (to_nat [ABytes [0x0D],
        AArray [ABytes (replicate (to_nat [AAddr NATIVE, AAddr USDG]) 0)]]) 0), AInt 9]) 0) =
    Inr ([PosmSettlePair NATIVE USDG], 9)"
  by (rule posm_roundtrips) (simp_all add: posm_modify_liquidities_def)

text \<open>
  Round trip of V3 paths: a path that \<open>v3_path\<close> accepts, of lower-case addresses and fees,
  decodes to these addresses and fees; in particular every accepted fee fits three bytes.
\<close>

theorem v3_path_roundtrip:
  assumes "v3_path tokens fees = Inr p" and "list_all is_address tokens"
  shows "decode_v3_path p = (tokens, fees) \<and> length fees + 1 = length tokens"
  using v3_path_decode [OF assms] assms
  by (cases tokens) (auto simp: result_simps dest: length_v3_path_tail)

theorem v3_path_roundtrip_witness:
  "decode_v3_path (replicate 20 0 @ [0, 1, 244] @ replicate 20 0) = ([NATIVE, NATIVE], [500]) \<and>
   length [500 :: int] + 1 = length [NATIVE, NATIVE]"
proof (rule v3_path_roundtrip)
  show "v3_path [NATIVE, NATIVE] [500] = Inr (replicate 20 0 @ [0, 1, 244] @ replicate 20 0)"
    by code_simp
qed simp

text \<open>
  C4. \<open>decode_revert\<close> returns on every revert payload within a recursion depth above its length,
  and its classification is always one of the eight codes the program handles.
\<close>

theorem decode_revert_total:
  assumes "inner_bytes_shorter lib" and "length data < fuel"
  shows "\<exists>k. decode_revert lib fuel data = Inr k \<and> rk_kind k \<in> set REVERT_CODES"
  using assms by (rule decode_revert_returns)

definition echo_lib :: eth_lib where
  "echo_lib = \<lparr>keccak = (\<lambda>x. take 32 (x @ replicate 32 0)), abi_encode = (\<lambda>ts vs. Inr []),
     abi_decode = (\<lambda>ts bs. if ts = [''uint256'', ''bytes''] then Inr [AInt 0, ABytes bs]
       else Inl (ValueError ''insufficient data''))\<rparr>"

theorem decode_revert_total_witness:
  "\<exists>k. decode_revert echo_lib 10 (text_bytes ''ExecInva'') = Inr k \<and> rk_kind k \<in> set REVERT_CODES"
  by (rule decode_revert_total) (auto simp: inner_bytes_shorter_def echo_lib_def text_bytes_def)

end
