(* ===== verification/Tx_Routes.thy ===== *)
theory Tx_Routes
  imports Json_Text Tx_Chain "HOL-Library.Product_Lexorder"
begin

text \<open>
  \<^verbatim>\<open>src/rhpools/tx_routes.py\<close>: pools, hops and routes, the reading of the \<^verbatim>\<open>pools\<close> table, hook
  policies and their cache, and the ranking of candidate routes. A row of the market database
  is a record with the columns the statements select; the result of \<^verbatim>\<open>rpc.call\<close> is an argument.
  The lemmas show which routes \<open>candidates\<close> can return.
\<close>

section \<open>Exceptions of the trading modules\<close>

datatype tx_exn =
    TxError string string
  | TxRefusal string string
  | UnknownHook string
  | IncompletePool string
  | Py py_error

fun lift_py :: "py_error + 'a \<Rightarrow> tx_exn + 'a" where
  "lift_py (Inl e) = Inl (Py e)"
| "lift_py (Inr x) = Inr x"

lemma lift_py_eq_Inr [result_simps]: "lift_py r = Inr x \<longleftrightarrow> r = Inr x"
  by (cases r) auto

lemma lift_py_eq_Inl [result_simps]: "lift_py r = Inl e \<longleftrightarrow> (\<exists>p. r = Inl p \<and> e = Py p)"
  by (cases r) auto

section \<open>Values of the rows\<close>

text \<open>\<^verbatim>\<open>int(value)\<close> of a JSON value.\<close>

fun int_of_wire :: "wire \<Rightarrow> py_error + int" where
  "int_of_wire (WBool b) = Inr (if b then 1 else 0)"
| "int_of_wire (WInt n) = Inr n"
| "int_of_wire (WStr s) = int_of_text s"
| "int_of_wire WOther = Inl (TypeError ''int() argument'')"

fun wire_truthy :: "wire \<Rightarrow> bool" where
  "wire_truthy (WBool b) = b"
| "wire_truthy (WInt n) = (n \<noteq> 0)"
| "wire_truthy (WStr s) = (s \<noteq> [])"
| "wire_truthy WOther = True"

text \<open>\<^verbatim>\<open>math.isqrt\<close>: the floor of the square root.\<close>

fun isqrt :: "nat \<Rightarrow> nat" where
  "isqrt n =
    (if n = 0 then 0
     else let r = 2 * isqrt (n div 4) in if (r + 1) * (r + 1) \<le> n then r + 1 else r)"

declare isqrt.simps [simp del]

lemma isqrt_bounds: "isqrt n * isqrt n \<le> n \<and> n < (isqrt n + 1) * (isqrt n + 1)"
proof (induction n rule: isqrt.induct)
  case (1 n)
  show ?case
  proof (cases "n = 0")
    case True
    then show ?thesis by (simp add: isqrt.simps)
  next
    case False
    let ?s = "isqrt (n div 4)"
    let ?m = "n div 4"
    from 1 False have IH: "?s * ?s \<le> ?m" "?m < (?s + 1) * (?s + 1)" by auto
    have n: "4 * ?m \<le> n" "n < 4 * (?m + 1)" by auto
    have lo: "(2 * ?s) * (2 * ?s) \<le> n"
      using IH(1) n(1) by simp
    have "?m + 1 \<le> (?s + 1) * (?s + 1)" using IH(2) by simp
    then have "4 * (?m + 1) \<le> (2 * ?s + 2) * (2 * ?s + 2)" by simp
    with n(2) have hi: "n < (2 * ?s + 2) * (2 * ?s + 2)" by linarith
    show ?thesis
      using False lo hi by (subst (1 2 3 4) isqrt.simps) (simp add: Let_def)
  qed
qed

section \<open>Pools, hops and routes\<close>

definition MAX_CANDIDATES :: nat where "MAX_CANDIDATES = 6"
definition QUOTE_CURRENCIES :: "address list" where "QUOTE_CURRENCIES = [NATIVE, WETH, USDG]"
definition MAX_POOL_FEE_PPM :: int where "MAX_POOL_FEE_PPM = 100000"
definition DYNAMIC_FEE_FLAG :: int where "DYNAMIC_FEE_FLAG = 0x800000"

datatype venue = V2 | V3 | V4
datatype side = Buy | Sell

record pool =
  p_venue :: venue
  p_id :: string
  p_address :: address
  p_token0 :: address
  p_token1 :: address
  p_fee_ppm :: int
  p_tick_spacing :: int
  p_hook :: address
  p_factory :: address

definition pool_key_of :: "pool \<Rightarrow> py_error + pool_key" where
  "pool_key_of p =
    (if p_venue p \<noteq> V4 then Inl (ValueError ''only V4 pools have a PoolKey'')
     else Inr \<lparr>key_currency0 = p_token0 p, key_currency1 = p_token1 p, key_fee = p_fee_ppm p,
               key_tick_spacing = p_tick_spacing p, key_hooks = p_hook p\<rparr>)"

definition other :: "pool \<Rightarrow> address \<Rightarrow> py_error + address" where
  "other p currency =
    (if currency = p_token0 p then Inr (p_token1 p)
     else if currency = p_token1 p then Inr (p_token0 p)
     else Inl (ValueError ''currency is not in the pool''))"

definition swappable :: "pool \<Rightarrow> bool" where
  "swappable p =
    (let static_fee = (if p_venue p = V4 \<and> p_fee_ppm p AND DYNAMIC_FEE_FLAG \<noteq> 0 then 0 else p_fee_ppm p) in
     if \<not> (p_venue p = V4 \<and> p_hook p = PONS_HOOK) \<and> (static_fee > MAX_POOL_FEE_PPM \<or> static_fee < 0) then False
     else case p_venue p of
       V2 \<Rightarrow> p_factory p = UR_V2_FACTORY
     | V3 \<Rightarrow> p_factory p \<in> set [UR_V3_FACTORY, GIGA_V3_FACTORY, PANCAKE_V3_FACTORY, SLIPSTREAM_FACTORY]
     | V4 \<Rightarrow> p_hook p \<in> set [NATIVE, PONS_HOOK])"

record hook_policy =
  hook_fee_bps :: int
  creator_tax_bps :: int

definition is_pons :: "hook_policy \<Rightarrow> bool" where
  "is_pons h \<longleftrightarrow> hook_fee_bps h > 0 \<or> creator_tax_bps h > 0"

definition NO_HOOK :: hook_policy where
  "NO_HOOK = \<lparr>hook_fee_bps = 0, creator_tax_bps = 0\<rparr>"

record hop =
  hop_pool :: pool
  hop_in :: address
  hop_out :: address

definition same_asset :: "address \<Rightarrow> address \<Rightarrow> bool" where
  "same_asset a b \<longleftrightarrow> a = b \<or> {a, b} = {NATIVE, WETH}"

text \<open>
  A \<open>route\<close> is its tuple of hops. \<open>make_route\<close> is the constructor with its
  \<^verbatim>\<open>__post_init__\<close>: the length, the two currencies of every hop, the joints.
\<close>

type_synonym route = "hop list"

fun hops_match :: "hop list \<Rightarrow> py_error + unit" where
  "hops_match [] = Inr ()"
| "hops_match (h # hs) =
     bindr (other (hop_pool h) (hop_in h)) (\<lambda>c.
       if c \<noteq> hop_out h then Inl (ValueError ''hop currencies do not match its pool'') else hops_match hs)"

fun contiguous :: "hop list \<Rightarrow> bool" where
  "contiguous (a # b # hs) \<longleftrightarrow> same_asset (hop_out a) (hop_in b) \<and> contiguous (b # hs)"
| "contiguous hs \<longleftrightarrow> True"

definition make_route :: "hop list \<Rightarrow> py_error + route" where
  "make_route hops =
    (if \<not> (1 \<le> length hops \<and> length hops \<le> 2) then Inl (ValueError ''a route has one or two hops'')
     else bindr (hops_match hops) (\<lambda>_.
       if \<not> contiguous hops then Inl (ValueError ''route hops are not contiguous'') else Inr hops))"

definition route_in :: "route \<Rightarrow> address" where "route_in r = hop_in (hd r)"
definition route_out :: "route \<Rightarrow> address" where "route_out r = hop_out (last r)"

fun venue_value :: "venue \<Rightarrow> string" where
  "venue_value V2 = ''v2''"
| "venue_value V3 = ''v3''"
| "venue_value V4 = ''v4''"

definition venue_of_text :: "string \<Rightarrow> py_error + venue" where
  "venue_of_text s =
    (if s = ''v2'' then Inr V2 else if s = ''v3'' then Inr V3 else if s = ''v4'' then Inr V4
     else Inl (ValueError ''not a valid Venue''))"

definition describe :: "route \<Rightarrow> string" where
  "describe r =
     join_text '' > ''
       (route_in r # concat (map (\<lambda>h.
          [venue_value (p_venue (hop_pool h)) @ '':'' @ take 10 (p_id (hop_pool h)), hop_out h]) r))"

section \<open>Rows of the market database\<close>

record pool_row =
  row_id :: string
  row_protocol :: string
  row_address :: "string option"
  row_token0 :: string
  row_token1 :: string
  row_fee_ppm :: "int option"
  row_tick_spacing :: "int option"
  row_hook :: "string option"
  row_factory :: "string option"
  row_metadata :: "(string \<times> wire option) list option"
  row_liquidity :: "string option"
  row_reserve0 :: "string option"
  row_reserve1 :: "string option"

definition TICK_SPACING_CANDIDATES :: "int list" where
  "TICK_SPACING_CANDIDATES = [1, 10, 50, 60, 100, 200]"
definition V2_FEE_PPM :: int where "V2_FEE_PPM = 3000"

definition or_text :: "string option \<Rightarrow> string \<Rightarrow> string" where
  "or_text v d = (case v of None \<Rightarrow> d | Some s \<Rightarrow> if s = [] then d else s)"

text \<open>The generator of \<^verbatim>\<open>next((spacing for ...), None)\<close>.\<close>

fun find_spacing :: "eth_lib \<Rightarrow> pool_key \<Rightarrow> string \<Rightarrow> int list \<Rightarrow> py_error + int option" where
  "find_spacing lib key pid [] = Inr None"
| "find_spacing lib key pid (spacing # rest) =
     bindr (key_id lib (key\<lparr>key_tick_spacing := spacing\<rparr>)) (\<lambda>k.
       if k = pid then Inr (Some spacing) else find_spacing lib key pid rest)"

text \<open>
  \<^verbatim>\<open>metadata.get("configured_fee")\<close>, or the column when it is missing. The metadata column
  holds the JSON object it parses to.
\<close>

definition configured_fee :: "pool_row \<Rightarrow> wire option" where
  "configured_fee row =
    (case row_metadata row of
       None \<Rightarrow> map_option WInt (row_fee_ppm row)
     | Some metadata \<Rightarrow>
         (case map_of metadata ''configured_fee'' of
            Some (Some v) \<Rightarrow> Some v
          | _ \<Rightarrow> map_option WInt (row_fee_ppm row)))"

text \<open>
  The first half of \<^verbatim>\<open>_pool_from_row\<close>: the fee and tick spacing of a V4 row, \<open>None\<close> when the
  row is skipped, an exception under \<^verbatim>\<open>strict\<close>.
\<close>

definition v4_terms :: "eth_lib \<Rightarrow> bool \<Rightarrow> pool_row \<Rightarrow> tx_exn + (wire \<times> int) option" where
  "v4_terms lib strict row =
    (case configured_fee row of
       None \<Rightarrow> if strict then Inl (IncompletePool ''configured_fee'') else Inr None
     | Some fee \<Rightarrow>
         bindr (case row_tick_spacing row of
             Some spacing \<Rightarrow> Inr (Some spacing)
           | None \<Rightarrow> bindr (lift_py (int_of_wire fee)) (\<lambda>f.
               lift_py (find_spacing lib
                 \<lparr>key_currency0 = lower (row_token0 row), key_currency1 = lower (row_token1 row),
                  key_fee = f, key_tick_spacing = 0, key_hooks = lower (or_text (row_hook row) NATIVE)\<rparr>
                 (lower (row_id row)) TICK_SPACING_CANDIDATES))) (\<lambda>spacing.
           case spacing of
             None \<Rightarrow> if strict then Inl (IncompletePool ''tick_spacing'') else Inr None
           | Some spacing \<Rightarrow> Inr (Some (fee, spacing))))"

definition pool_of_terms :: "eth_lib \<Rightarrow> bool \<Rightarrow> pool_row \<Rightarrow> wire \<Rightarrow> int \<Rightarrow> tx_exn + pool option" where
  "pool_of_terms lib strict row fee spacing =
     bindr (lift_py (venue_of_text (row_protocol row))) (\<lambda>venue.
     bindr (if row_protocol row = ''v2'' then Inr V2_FEE_PPM
            else if wire_truthy fee then lift_py (int_of_wire fee) else Inr 0) (\<lambda>fee_ppm.
       let p = \<lparr>p_venue = venue, p_id = lower (row_id row), p_address = lower (or_text (row_address row) []),
                p_token0 = lower (row_token0 row), p_token1 = lower (row_token1 row),
                p_fee_ppm = fee_ppm, p_tick_spacing = spacing,
                p_hook = lower (or_text (row_hook row) NATIVE),
                p_factory = lower (or_text (row_factory row) [])\<rparr> in
       if venue = V4 then
         bindr (lift_py (bindr (pool_key_of p) (key_id lib))) (\<lambda>k.
           if k \<noteq> p_id p then (if strict then Inl (IncompletePool ''PoolKey identity'') else Inr None)
           else Inr (Some p))
       else Inr (Some p)))"

definition pool_from_row :: "eth_lib \<Rightarrow> bool \<Rightarrow> pool_row \<Rightarrow> tx_exn + pool option" where
  "pool_from_row lib strict row =
    (if row_protocol row = ''v4'' then
       bindr (v4_terms lib strict row) (\<lambda>terms. case terms of
         None \<Rightarrow> Inr None
       | Some (fee, spacing) \<Rightarrow> pool_of_terms lib strict row fee spacing)
     else pool_of_terms lib strict row (WInt (case row_fee_ppm row of None \<Rightarrow> 0 | Some f \<Rightarrow> f))
            (case row_tick_spacing row of None \<Rightarrow> 0 | Some s \<Rightarrow> s))"

definition v4_pool :: "eth_lib \<Rightarrow> pool_key \<Rightarrow> py_error + pool" where
  "v4_pool lib key =
     bindr (key_id lib key) (\<lambda>k.
       Inr \<lparr>p_venue = V4, p_id = k, p_address = POOL_MANAGER, p_token0 = key_currency0 key,
            p_token1 = key_currency1 key, p_fee_ppm = key_fee key,
            p_tick_spacing = key_tick_spacing key, p_hook = key_hooks key, p_factory = POOL_MANAGER\<rparr>)"

definition static_bridge :: "venue \<Rightarrow> address \<Rightarrow> int \<Rightarrow> int \<Rightarrow> address \<Rightarrow> pool" where
  "static_bridge v a fee spacing factory =
     \<lparr>p_venue = v, p_id = a, p_address = a, p_token0 = WETH, p_token1 = USDG, p_fee_ppm = fee,
      p_tick_spacing = spacing, p_hook = NATIVE, p_factory = factory\<rparr>"

definition DEFAULT_BRIDGES :: "eth_lib \<Rightarrow> py_error + pool list" where
  "DEFAULT_BRIDGES lib =
     bindr (v4_pool lib \<lparr>key_currency0 = NATIVE, key_currency1 = USDG, key_fee = 500,
                         key_tick_spacing = 10, key_hooks = NATIVE\<rparr>) (\<lambda>native.
       Inr [static_bridge V3 ''0x52e65b17fb6e5ba00ed806f37afcd2daa50271ca'' 100 1 UR_V3_FACTORY,
            static_bridge V3 ''0xb2a6ad51b3ea3cdc8d3508cca147a43471382e53'' 100 1 GIGA_V3_FACTORY,
            static_bridge V3 ''0x88a8e96e7785d378825e8b5d7fc0e6f62487061e'' 500 10 PANCAKE_V3_FACTORY,
            static_bridge V3 ''0x16679e2ac1a798865ecf1c1639e67693ddb1c220'' 89 10 SLIPSTREAM_FACTORY,
            static_bridge V2 ''0x8803c117ccae7b5146297876c2a25df135141c4d'' V2_FEE_PPM 0 UR_V2_FACTORY,
            native])"

section \<open>The route book\<close>

text \<open>
  \<^verbatim>\<open>RouteBook\<close> keeps its bridges and a cache of hook policies. The database is the list of rows
  of \<^verbatim>\<open>pools\<close>; \<open>rpc to data\<close> is the answer of \<^verbatim>\<open>eth_call\<close> at the latest block.
\<close>

record route_book =
  book_bridges :: "pool list"
  book_hooks :: "(string, hook_policy) odict"

type_synonym rpc_call = "address \<Rightarrow> bytes \<Rightarrow> tx_exn + string"

definition book_pool :: "eth_lib \<Rightarrow> pool_row list \<Rightarrow> string \<Rightarrow> tx_exn + pool option" where
  "book_pool lib rows pool_id =
    (case filter (\<lambda>r. row_id r = lower pool_id) rows of
       [] \<Rightarrow> Inr None
     | row # _ \<Rightarrow> pool_from_row lib True row)"

text \<open>Rows of \<^verbatim>\<open>lp_accounting_positions\<close>: owner, pool and token id.\<close>

definition position_candidates :: "(address \<times> string \<times> string option) list \<Rightarrow> address \<Rightarrow> string \<Rightarrow> nat \<Rightarrow> int list" where
  "position_candidates positions wallet pool_id limit =
    (let rows = take limit (filter (\<lambda>(owner, pool, token_id).
                  owner = lower wallet \<and> pool = lower pool_id \<and> token_id \<noteq> None) positions);
         texts = filter (\<lambda>t. t \<noteq> [] \<and> list_all is_digit t) (map (\<lambda>(owner, pool, token_id). the token_id) rows)
     in sort (remdups (map parse_decimal texts)))"

text \<open>The local function \<^verbatim>\<open>accepts\<close> and the two loops of \<^verbatim>\<open>pool_for\<close>.\<close>

definition accepts :: "int option \<Rightarrow> address option \<Rightarrow> int option \<Rightarrow> pool \<Rightarrow> bool" where
  "accepts fee_ppm factory tick_spacing p \<longleftrightarrow>
     (case fee_ppm of None \<Rightarrow> True | Some f \<Rightarrow> p_fee_ppm p = f) \<and>
     (case tick_spacing of None \<Rightarrow> True | Some t \<Rightarrow> p_tick_spacing p = t) \<and>
     (case factory of Some f \<Rightarrow> p_factory p = f | None \<Rightarrow> swappable p)"

fun first_accepted :: "eth_lib \<Rightarrow> (pool \<Rightarrow> bool) \<Rightarrow> pool_row list \<Rightarrow> tx_exn + pool option" where
  "first_accepted lib ok [] = Inr None"
| "first_accepted lib ok (row # rows) =
     bindr (pool_from_row lib False row) (\<lambda>p. case p of
       None \<Rightarrow> first_accepted lib ok rows
     | Some p \<Rightarrow> if ok p then Inr (Some p) else first_accepted lib ok rows)"

definition pool_for ::
  "eth_lib \<Rightarrow> pool_row list \<Rightarrow> route_book \<Rightarrow> venue \<Rightarrow> address \<Rightarrow> address \<Rightarrow>
   int option \<Rightarrow> address option \<Rightarrow> int option \<Rightarrow> tx_exn + pool option" where
  "pool_for lib rows book v token_a token_b fee_ppm factory tick_spacing =
    (let a = lower token_a; b = lower token_b;
         token0 = (if a \<le> b then a else b); token1 = (if a \<le> b then b else a);
         ok = accepts fee_ppm factory tick_spacing
     in case filter (\<lambda>p. p_venue p = v \<and> p_token0 p = token0 \<and> p_token1 p = token1 \<and> ok p) (book_bridges book) of
          p # _ \<Rightarrow> Inr (Some p)
        | [] \<Rightarrow> first_accepted lib ok
            (filter (\<lambda>r. row_protocol r = venue_value v \<and> row_token0 r = token0 \<and> row_token1 r = token1) rows))"

text \<open>The words of an \<^verbatim>\<open>eth_call\<close> answer, 64 digits each.\<close>

fun hex_words :: "string \<Rightarrow> py_error + int list" where
  "hex_words [] = Inr []"
| "hex_words (c # s) =
     bindr (int_base16 (take 64 (c # s))) (\<lambda>w.
     bindr (hex_words (drop 63 s)) (\<lambda>ws. Inr (w # ws)))"

definition SEL_PONS_LAUNCHES :: bytes where "SEL_PONS_LAUNCHES = [0xad, 0x09, 0x12, 0x30]"

definition pons_launches :: "string \<Rightarrow> py_error + bytes" where
  "pons_launches pool_id =
     bindr (bytes_fromhex (drop 2 pool_id)) (\<lambda>b. Inr (SEL_PONS_LAUNCHES @ b))"

definition hook_policy_of ::
  "rpc_call \<Rightarrow> route_book \<Rightarrow> pool \<Rightarrow> route_book \<times> (tx_exn + hook_policy)" where
  "hook_policy_of rpc book p =
    (if p_venue p \<noteq> V4 \<or> p_hook p \<noteq> PONS_HOOK then ret_st book NO_HOOK
     else case map_of (book_hooks book) (p_id p) of
       Some cached \<Rightarrow> ret_st book cached
     | None \<Rightarrow>
         (case bindr (lift_py (pons_launches (p_id p))) (\<lambda>data.
               bindr (rpc PONS_HOOK data) (\<lambda>raw. lift_py (hex_words (drop 2 raw)))) of
            Inl e \<Rightarrow> raise_st book e
          | Inr words \<Rightarrow>
              if length words < 11 \<or> words ! 0 = 0 then raise_st book (UnknownHook (p_id p))
              else (let policy = \<lparr>hook_fee_bps = words ! 10, creator_tax_bps = words ! 7\<rparr> in
                ret_st (book\<lparr>book_hooks := od_set (p_id p) policy (book_hooks book)\<rparr>) policy)))"

text \<open>
  \<^verbatim>\<open>quote_pools\<close>: the rows that pair the token with a quote currency, deepest first, V3 before
  the others, the Uniswap factory before the others, then by id.
\<close>

definition row_depth :: "pool_row \<Rightarrow> py_error + int" where
  "row_depth row =
    (case (row_reserve0 row, row_reserve1 row) of
       (Some r0, Some r1) \<Rightarrow>
         if row_protocol row = ''v2'' \<and> r0 \<noteq> [] \<and> r1 \<noteq> [] then
           bindr (int_of_text r0) (\<lambda>a. bindr (int_of_text r1) (\<lambda>b.
             if a * b < 0 then Inl (ValueError ''isqrt() argument must be nonnegative'')
             else Inr (int (isqrt (nat (a * b))))))
         else int_of_text (or_text (row_liquidity row) ''0'')
     | _ \<Rightarrow> int_of_text (or_text (row_liquidity row) ''0''))"

definition row_rank :: "int \<Rightarrow> pool_row \<Rightarrow> int \<times> bool \<times> bool \<times> string" where
  "row_rank depth row =
     (- depth, row_protocol row \<noteq> ''v3'', row_factory row \<noteq> Some UR_V3_FACTORY, row_id row)"

definition quotes_token :: "address \<Rightarrow> pool_row \<Rightarrow> bool" where
  "quotes_token token row \<longleftrightarrow>
     row_token0 row = token \<and> row_token1 row \<in> set QUOTE_CURRENCIES \<or>
     row_token1 row = token \<and> row_token0 row \<in> set QUOTE_CURRENCIES"

definition quote_pools :: "eth_lib \<Rightarrow> pool_row list \<Rightarrow> address \<Rightarrow> tx_exn + pool list" where
  "quote_pools lib rows token =
    (let found = filter (quotes_token token) rows in
     bindr (lift_py (map_res row_depth found)) (\<lambda>depths.
       let sorted_rows = map snd (sort_key (\<lambda>(d, r). row_rank d r) (zip depths found)) in
       bindr (map_res (pool_from_row lib False) sorted_rows) (\<lambda>ps.
         Inr (concat (map (\<lambda>p. case p of None \<Rightarrow> [] | Some p \<Rightarrow> [p]) ps)))))"

text \<open>
  The inner loop of \<^verbatim>\<open>candidates\<close> over the bridges. The two ends of a bridge are a set in the
  code; they are taken here in the order of the pair, which matters only for a bridge between
  the native coin and its wrapping.
\<close>

definition PROTOCOL_FACTORIES :: "address list" where
  "PROTOCOL_FACTORIES = [GIGA_V3_FACTORY, PANCAKE_V3_FACTORY, SLIPSTREAM_FACTORY]"

fun next_such :: "('a \<Rightarrow> bool) \<Rightarrow> 'a list \<Rightarrow> 'a option" where
  "next_such P [] = None"
| "next_such P (x # xs) = (if P x then Some x else next_such P xs)"

definition bridge_routes ::
  "side \<Rightarrow> address \<Rightarrow> pool \<Rightarrow> address \<Rightarrow> hop \<Rightarrow> pool \<Rightarrow> tx_exn + route list" where
  "bridge_routes sd quote_currency p oth token_hop bridge =
    (let ends = [p_token0 bridge, p_token1 bridge] in
     case (next_such (\<lambda>c. same_asset c oth) ends, next_such (\<lambda>c. same_asset c quote_currency) ends) of
       (Some near, Some far) \<Rightarrow>
         if near = far then Inr []
         else if p_factory p \<in> set PROTOCOL_FACTORIES \<and> (p_venue bridge \<noteq> V3 \<or> p_factory bridge \<noteq> p_factory p) then Inr []
         else if p_factory bridge \<in> set PROTOCOL_FACTORIES \<and> p_factory p \<noteq> p_factory bridge then Inr []
         else
           (let bridge_hop = (if sd = Buy then \<lparr>hop_pool = bridge, hop_in = far, hop_out = near\<rparr>
                              else \<lparr>hop_pool = bridge, hop_in = near, hop_out = far\<rparr>);
                hops = (if sd = Buy then [bridge_hop, token_hop] else [token_hop, bridge_hop])
            in bindr (lift_py (make_route hops)) (\<lambda>r. Inr [r]))
     | _ \<Rightarrow> Inr [])"

definition token_hop :: "side \<Rightarrow> pool \<Rightarrow> address \<Rightarrow> address \<Rightarrow> hop" where
  "token_hop sd p token oth =
    (if sd = Buy then \<lparr>hop_pool = p, hop_in = oth, hop_out = token\<rparr>
     else \<lparr>hop_pool = p, hop_in = token, hop_out = oth\<rparr>)"

definition pool_routes ::
  "pool list \<Rightarrow> address \<Rightarrow> address \<Rightarrow> side \<Rightarrow> pool \<Rightarrow> address \<Rightarrow> tx_exn + route list" where
  "pool_routes bridges token quote_currency sd p oth =
    (let th = token_hop sd p token oth in
     if same_asset oth quote_currency then bindr (lift_py (make_route [th])) (\<lambda>r. Inr [r])
     else if oth \<notin> set QUOTE_CURRENCIES then Inr []
     else bindr (map_res (bridge_routes sd quote_currency p oth th) bridges) (\<lambda>rs. Inr (concat rs)))"

fun rank_pools ::
  "rpc_call \<Rightarrow> address \<Rightarrow> address \<Rightarrow> side \<Rightarrow> route_book \<Rightarrow> pool list \<Rightarrow>
   route_book \<times> (tx_exn + route list)" where
  "rank_pools rpc token quote_currency sd book [] = ret_st book []"
| "rank_pools rpc token quote_currency sd book (p # ps) =
    (if \<not> swappable p then rank_pools rpc token quote_currency sd book ps
     else case other p token of
       Inl e \<Rightarrow> raise_st book (Py e)
     | Inr oth \<Rightarrow>
         (let (book', hooked) = (if p_hook p = PONS_HOOK then hook_policy_of rpc book p
                                 else ret_st book NO_HOOK)
          in case hooked of
               Inl (UnknownHook _) \<Rightarrow> rank_pools rpc token quote_currency sd book' ps
             | Inl e \<Rightarrow> raise_st book' e
             | Inr _ \<Rightarrow>
                 (case pool_routes (book_bridges book') token quote_currency sd p oth of
                    Inl e \<Rightarrow> raise_st book' e
                  | Inr rs \<Rightarrow> bind_st (rank_pools rpc token quote_currency sd book' ps)
                                (\<lambda>book'' more. ret_st book'' (rs @ more)))))"

text \<open>
  The venue of the hop that trades the token (\<^verbatim>\<open>next\<close> over a generator; it cannot be empty for
  a ranked route), the first route of every venue, then the remaining routes.
\<close>

definition token_venue :: "address \<Rightarrow> route \<Rightarrow> venue option" where
  "token_venue token r =
     map_option (\<lambda>h. p_venue (hop_pool h))
       (next_such (\<lambda>h. token = p_token0 (hop_pool h) \<or> token = p_token1 (hop_pool h)) r)"

fun first_of_venues :: "address \<Rightarrow> venue option list \<Rightarrow> route list \<Rightarrow> route list" where
  "first_of_venues token seen [] = []"
| "first_of_venues token seen (r # rs) =
    (if token_venue token r \<in> set seen then first_of_venues token seen rs
     else r # first_of_venues token (token_venue token r # seen) rs)"

fun append_missing :: "route list \<Rightarrow> route list \<Rightarrow> route list" where
  "append_missing chosen [] = chosen"
| "append_missing chosen (r # rs) =
    (if r \<in> set chosen then append_missing chosen rs else append_missing (chosen @ [r]) rs)"

definition choose_routes :: "address \<Rightarrow> route list \<Rightarrow> route list" where
  "choose_routes token ranked = take MAX_CANDIDATES (append_missing (first_of_venues token [] ranked) ranked)"

definition candidates ::
  "eth_lib \<Rightarrow> pool_row list \<Rightarrow> rpc_call \<Rightarrow> route_book \<Rightarrow> address \<Rightarrow> address \<Rightarrow> side \<Rightarrow>
   route_book \<times> (tx_exn + route list)" where
  "candidates lib rows rpc book token quote_currency sd =
    (let token = lower token in
     if quote_currency \<notin> set QUOTE_CURRENCIES \<or> same_asset token quote_currency then ret_st book []
     else case quote_pools lib rows token of
       Inl e \<Rightarrow> raise_st book e
     | Inr ps \<Rightarrow> bind_st (rank_pools rpc token quote_currency sd book ps)
                   (\<lambda>book' ranked. ret_st book' (choose_routes token ranked)))"

section \<open>What a candidate route is\<close>

definition serves :: "side \<Rightarrow> address \<Rightarrow> address \<Rightarrow> route \<Rightarrow> bool" where
  "serves sd token quote_currency r \<longleftrightarrow>
    (if sd = Buy then same_asset (route_in r) quote_currency \<and> route_out r = token
     else route_in r = token \<and> same_asset (route_out r) quote_currency)"

text \<open>Every hop of a route with a hop in a protocol's own factory is in that factory.\<close>

definition unmixed :: "route \<Rightarrow> bool" where
  "unmixed r \<longleftrightarrow> (\<forall>h \<in> set r. p_factory (hop_pool h) \<in> set PROTOCOL_FACTORIES \<longrightarrow>
     (\<forall>h' \<in> set r. p_factory (hop_pool h') = p_factory (hop_pool h)))"

definition good_route :: "side \<Rightarrow> address \<Rightarrow> address \<Rightarrow> route \<Rightarrow> bool" where
  "good_route sd token quote_currency r \<longleftrightarrow>
     make_route r = Inr r \<and> serves sd token quote_currency r \<and> unmixed r \<and>
     (\<exists>h \<in> set r. swappable (hop_pool h) \<and> other (hop_pool h) token \<noteq> Inl (ValueError ''currency is not in the pool''))"

lemma next_such_Some: "next_such P xs = Some x \<Longrightarrow> x \<in> set xs \<and> P x"
  by (induction xs) (auto split: if_splits)

lemma make_route_Inr: "make_route hops = Inr r \<Longrightarrow> r = hops"
  by (auto simp: make_route_def result_simps split: if_splits)

lemma merge_ifs:
  "(if a then x else if b then x else if c then x else y) = (if a \<or> b \<or> c then x else y)"
  by simp

lemma bridge_routes_good:
  assumes "bridge_routes sd q p oth (token_hop sd p token oth) bridge = Inr rs"
    and "swappable p" and "other p token = Inr oth" and "r \<in> set rs"
  shows "good_route sd token q r"
proof -
  obtain near where n: "next_such (\<lambda>c. same_asset c oth) [p_token0 bridge, p_token1 bridge] = Some near"
    using assms(1,4) unfolding bridge_routes_def Let_def by fastforce
  obtain far where f: "next_such (\<lambda>c. same_asset c q) [p_token0 bridge, p_token1 bridge] = Some far"
    using assms(1,4) n unfolding bridge_routes_def Let_def by fastforce
  from n have near: "same_asset near oth" by (blast dest: next_such_Some)
  from f have far: "same_asset far q" by (blast dest: next_such_Some)
  define hops where "hops = (if sd = Buy
        then [\<lparr>hop_pool = bridge, hop_in = far, hop_out = near\<rparr>, token_hop sd p token oth]
        else [token_hop sd p token oth, \<lparr>hop_pool = bridge, hop_in = near, hop_out = far\<rparr>])"
  let ?t1 = "p_factory p \<in> set PROTOCOL_FACTORIES \<and> (p_venue bridge \<noteq> V3 \<or> p_factory bridge \<noteq> p_factory p)"
  let ?t2 = "p_factory bridge \<in> set PROTOCOL_FACTORIES \<and> p_factory p \<noteq> p_factory bridge"
  have eq: "bridge_routes sd q p oth (token_hop sd p token oth) bridge =
      (if near = far \<or> ?t1 \<or> ?t2 then Inr [] else bindr (lift_py (make_route hops)) (\<lambda>r. Inr [r]))"
    unfolding bridge_routes_def Let_def n f option.case prod.case hops_def
    by (cases "sd = Buy") (simp_all only: merge_ifs if_True if_False simp_thms)
  have guards: "\<not> (near = far \<or> ?t1 \<or> ?t2)"
  proof
    assume "near = far \<or> ?t1 \<or> ?t2"
    then have "rs = []" using assms(1) eq by simp
    with assms(4) show False by simp
  qed
  then have mk: "make_route hops = Inr r"
    using assms(1,4) unfolding eq if_not_P [OF guards] by (auto simp: bindr_eq_Inr lift_py_eq_Inr)
  from guards have f1: "p_factory p \<in> set PROTOCOL_FACTORIES \<Longrightarrow> p_factory bridge = p_factory p" and
    f2: "p_factory bridge \<in> set PROTOCOL_FACTORIES \<Longrightarrow> p_factory p = p_factory bridge" by blast+
  have r: "r = hops" using mk by (rule make_route_Inr)
  have pools: "hop_pool ` set r = {p, bridge}"
    by (auto simp: r hops_def token_hop_def)
  have "unmixed r \<longleftrightarrow> (\<forall>x \<in> hop_pool ` set r. p_factory x \<in> set PROTOCOL_FACTORIES \<longrightarrow>
      (\<forall>y \<in> hop_pool ` set r. p_factory y = p_factory x))"
    by (simp add: unmixed_def)
  then have "unmixed r"
    unfolding pools using f1 f2 by (metis insert_iff singletonD)
  moreover have "serves sd token q r"
    using far by (auto simp: serves_def r hops_def route_in_def route_out_def token_hop_def)
  moreover have "\<exists>h \<in> set r. hop_pool h = p"
    by (auto simp: r hops_def token_hop_def)
  ultimately show ?thesis
    using mk assms(2,3) r unfolding good_route_def by auto
qed

lemma pool_routes_good:
  assumes "pool_routes bridges token q sd p oth = Inr rs"
    and "swappable p" and "other p token = Inr oth" and "r \<in> set rs"
  shows "good_route sd token q r"
proof (cases "same_asset oth q")
  case True
  then have mk: "make_route [token_hop sd p token oth] = Inr r"
    using assms(1,4) by (auto simp: pool_routes_def result_simps Let_def)
  then have r: "r = [token_hop sd p token oth]" by (rule make_route_Inr)
  show ?thesis
    using mk True assms(2,3)
    by (auto simp: good_route_def r serves_def route_in_def route_out_def unmixed_def token_hop_def)
next
  case False
  show ?thesis
  proof (cases "oth \<in> set QUOTE_CURRENCIES")
    case True
    with False assms(1) obtain rss where
      map: "map_res (bridge_routes sd q p oth (token_hop sd p token oth)) bridges = Inr rss" and
      rs: "rs = concat rss"
      by (auto simp: pool_routes_def result_simps Let_def)
    from assms(4) rs obtain rs' where "rs' \<in> set rss" "r \<in> set rs'" by auto
    moreover from this map obtain b where
      "bridge_routes sd q p oth (token_hop sd p token oth) b = Inr rs'"
      by (auto simp: map_res_eq_Inr list_all2_conv_all_nth in_set_conv_nth)
    ultimately show ?thesis using assms(2,3) by (auto intro: bridge_routes_good)
  next
    case False
    with \<open>\<not> same_asset oth q\<close> assms(1,4) show ?thesis by (auto simp: pool_routes_def Let_def)
  qed
qed

lemma rank_pools_good:
  "rank_pools rpc token q sd book ps = (book', Inr rs) \<Longrightarrow> r \<in> set rs \<Longrightarrow> good_route sd token q r"
proof (induction ps arbitrary: book book' rs)
  case Nil
  then show ?case by (simp add: result_simps)
next
  case (Cons p ps)
  show ?case
  proof (cases "swappable p")
    case False
    with Cons show ?thesis by simp
  next
    case sw: True
    with Cons.prems(1) obtain oth where oth: "other p token = Inr oth"
      by (cases "other p token") (auto simp: raise_st_def)
    obtain b1 hooked where step: "(if p_hook p = PONS_HOOK then hook_policy_of rpc book p
        else ret_st book NO_HOOK) = (b1, hooked)" by fastforce
    show ?thesis
    proof (cases hooked)
      case (Inl e)
      with Cons.prems(1) sw oth step Cons.IH [of b1 book' rs] Cons.prems(2) show ?thesis
        by (cases e) (auto simp: raise_st_def)
    next
      case (Inr h)
      with Cons.prems(1) sw oth step obtain rs1 more where
        here: "pool_routes (book_bridges b1) token q sd p oth = Inr rs1" and
        rest: "rank_pools rpc token q sd b1 ps = (book', Inr more)" and
        rs: "rs = rs1 @ more"
        by (auto simp: result_simps split: sum.splits)
      from Cons.prems(2) rs show ?thesis
        using pool_routes_good [OF here sw oth] Cons.IH [OF rest] by auto
    qed
  qed
qed

lemma append_missing_props:
  "distinct chosen \<Longrightarrow>
     distinct (append_missing chosen rs) \<and> set (append_missing chosen rs) = set chosen \<union> set rs \<and>
     take (length chosen) (append_missing chosen rs) = chosen"
proof (induction rs arbitrary: chosen)
  case Nil
  then show ?case by simp
next
  case (Cons r rs)
  show ?case
  proof (cases "r \<in> set chosen")
    case True
    with Cons show ?thesis by auto
  next
    case False
    with Cons.prems have "distinct (chosen @ [r])" by simp
    from Cons.IH [OF this] False show ?thesis
      by (auto simp: take_Suc_conv_app_nth dest: arg_cong [where f = "take (length chosen)"])
  qed
qed

lemma first_of_venues_props:
  "set (first_of_venues token seen rs) \<subseteq> set rs \<and>
   distinct (map (token_venue token) (first_of_venues token seen rs)) \<and>
   token_venue token ` set (first_of_venues token seen rs) = token_venue token ` set rs - set seen"
  by (induction rs arbitrary: seen) auto

lemma token_venues: "token_venue token r \<in> {None, Some V2, Some V3, Some V4}"
proof (cases "token_venue token r")
  case (Some v)
  then show ?thesis by (cases v) auto
qed simp

lemma length_first_of_venues: "length (first_of_venues token [] rs) \<le> 4"
proof -
  let ?vs = "map (token_venue token) (first_of_venues token [] rs)"
  have "set ?vs \<subseteq> {None, Some V2, Some V3, Some V4}"
  proof
    fix v assume "v \<in> set ?vs"
    then obtain r where "v = token_venue token r" by auto
    then show "v \<in> {None, Some V2, Some V3, Some V4}" by (simp only: token_venues)
  qed
  then have "card (set ?vs) \<le> card {None, Some V2, Some V3, Some V4}" by (intro card_mono) auto
  then have "card (set ?vs) \<le> 4" by (simp add: card_insert_if)
  moreover have "length ?vs = card (set ?vs)"
    using first_of_venues_props [of token "[]" rs] by (metis distinct_card)
  ultimately show ?thesis by simp
qed

lemma distinct_of_map: "distinct (map f xs) \<Longrightarrow> distinct xs"
  by (simp add: distinct_map)

lemma distinct_first_of_venues: "distinct (first_of_venues token seen rs)"
  using first_of_venues_props distinct_of_map by blast

lemma set_choose_routes: "set (choose_routes token ranked) \<subseteq> set ranked"
proof -
  let ?F = "first_of_venues token [] ranked"
  have "set (append_missing ?F ranked) = set ?F \<union> set ranked"
    by (rule append_missing_props [OF distinct_first_of_venues, THEN conjunct2, THEN conjunct1])
  also have "set ?F \<subseteq> set ranked"
    by (rule first_of_venues_props [THEN conjunct1])
  then have "set ?F \<union> set ranked = set ranked" by (rule Un_absorb1)
  finally show ?thesis
    unfolding choose_routes_def using set_take_subset [of MAX_CANDIDATES] by metis
qed

section \<open>Properties\<close>

lemma candidates_good:
  assumes "candidates lib rows rpc book token quote_currency sd = (book', Inr rs)"
  shows "length rs \<le> 6 \<and> distinct rs \<and> (\<forall>r \<in> set rs. good_route sd (lower token) quote_currency r)"
proof (cases "quote_currency \<notin> set QUOTE_CURRENCIES \<or> same_asset (lower token) quote_currency")
  case True
  then have "candidates lib rows rpc book token quote_currency sd = ret_st book []"
    unfolding candidates_def Let_def by (rule if_P)
  with assms have "rs = []" by (simp add: ret_st_def)
  then show ?thesis by simp
next
  case False
  with assms obtain ps where "quote_pools lib rows (lower token) = Inr ps" and
    step: "bind_st (rank_pools rpc (lower token) quote_currency sd book ps)
      (\<lambda>book' ranked. ret_st book' (choose_routes (lower token) ranked)) = (book', Inr rs)"
    unfolding candidates_def Let_def if_not_P [OF False]
    by (cases "quote_pools lib rows (lower token)") (simp_all add: raise_st_def)
  from step obtain ranked where
    ranked: "rank_pools rpc (lower token) quote_currency sd book ps = (book', Inr ranked)" and
    rs: "rs = choose_routes (lower token) ranked"
    by (auto simp only: bind_st_eq_Inr ret_st_eq_Inr)
  have "distinct rs"
    unfolding rs choose_routes_def
    using append_missing_props [OF distinct_first_of_venues] by (blast intro: distinct_take)
  moreover have "length rs \<le> 6" by (simp add: rs choose_routes_def MAX_CANDIDATES_def)
  moreover have "\<forall>r \<in> set rs. good_route sd (lower token) quote_currency r"
    unfolding rs using set_choose_routes rank_pools_good [OF ranked] by blast
  ultimately show ?thesis by blast
qed

text \<open>
  C5. Every route that \<open>candidates\<close> returns passes the constructor's checks, starts at the
  currency the side pays and ends at the one it receives (the native coin and its wrapping
  count as one asset), contains a swappable pool of the token, and never mixes a hop of a
  protocol's own router with a foreign one. There are at most six of them, without
  repetition.
\<close>

theorem candidates_sound:
  assumes "candidates lib rows rpc book token quote_currency sd = (book', Inr rs)"
  shows "length rs \<le> 6 \<and> distinct rs \<and> (\<forall>r \<in> set rs. good_route sd (lower token) quote_currency r)"
  using assms by (rule candidates_good)

definition sample_row :: pool_row where
  "sample_row = \<lparr>row_id = ''0xaa'', row_protocol = ''v3'', row_address = Some ''0xaa'',
     row_token0 = WETH, row_token1 = ''0xff'', row_fee_ppm = Some 500, row_tick_spacing = Some 10,
     row_hook = None, row_factory = Some UR_V3_FACTORY, row_metadata = None,
     row_liquidity = Some ''77'', row_reserve0 = None, row_reserve1 = None\<rparr>"

definition sample_pool :: pool where
  "sample_pool = \<lparr>p_venue = V3, p_id = ''0xaa'', p_address = ''0xaa'', p_token0 = WETH,
     p_token1 = ''0xff'', p_fee_ppm = 500, p_tick_spacing = 10, p_hook = NATIVE, p_factory = UR_V3_FACTORY\<rparr>"

definition sample_route :: route where
  "sample_route = [\<lparr>hop_pool = sample_pool, hop_in = WETH, hop_out = ''0xff''\<rparr>]"

definition empty_book :: route_book where
  "empty_book = \<lparr>book_bridges = [], book_hooks = []\<rparr>"

lemma pool_of_sample_row: "pool_from_row lib strict sample_row = Inr (Some sample_pool)"
  by (simp add: pool_from_row_def pool_of_terms_def sample_row_def sample_pool_def lower_def
      lower_char_def WETH_def NATIVE_def UR_V3_FACTORY_def or_text_def venue_of_text_def Let_def)

lemma quote_pools_sample: "quote_pools lib [sample_row] ''0xff'' = Inr [sample_pool]"
proof -
  have "row_depth sample_row = Inr 77"
    by (simp add: row_depth_def sample_row_def or_text_def int_of_text_def strip_def is_space_def
        is_digit_def parse_decimal_def digit_value_def Let_def)
  moreover have "quotes_token ''0xff'' sample_row"
    by (simp add: quotes_token_def sample_row_def QUOTE_CURRENCIES_def)
  ultimately show ?thesis
    by (simp add: quote_pools_def pool_of_sample_row Let_def)
qed

lemma sample_route_ranked:
  "rank_pools rpc ''0xff'' WETH Buy empty_book [sample_pool] = (empty_book, Inr [sample_route])"
proof -
  have "swappable sample_pool"
    by (simp add: swappable_def sample_pool_def MAX_POOL_FEE_PPM_def)
  moreover have "other sample_pool ''0xff'' = Inr WETH"
    by (simp add: other_def sample_pool_def WETH_def)
  moreover have "p_hook sample_pool \<noteq> PONS_HOOK"
    by (simp add: sample_pool_def NATIVE_def PONS_HOOK_def)
  moreover have "pool_routes [] ''0xff'' WETH Buy sample_pool WETH = Inr [sample_route]"
    by (simp add: pool_routes_def token_hop_def make_route_def sample_route_def other_def sample_pool_def
        same_asset_def)
  ultimately show ?thesis
    by (simp add: empty_book_def ret_st_def)
qed

lemma candidates_sample:
  "candidates lib [sample_row] rpc empty_book ''0xFF'' WETH Buy = (empty_book, Inr [sample_route])"
proof -
  have "lower ''0xFF'' = ''0xff''" by code_simp
  moreover have "\<not> same_asset ''0xff'' WETH" "WETH \<in> set QUOTE_CURRENCIES"
    by (auto simp: same_asset_def WETH_def NATIVE_def QUOTE_CURRENCIES_def doubleton_eq_iff)
  moreover have "choose_routes ''0xff'' [sample_route] = [sample_route]"
    by (simp add: choose_routes_def MAX_CANDIDATES_def)
  ultimately show ?thesis
    by (simp add: candidates_def quote_pools_sample sample_route_ranked Let_def ret_st_def del: rank_pools.simps)
qed

theorem candidates_sound_witness:
  "length [sample_route] \<le> 6 \<and> distinct [sample_route] \<and>
    good_route Buy (lower ''0xFF'') WETH sample_route"
  using candidates_sound [OF candidates_sample] by simp

text \<open>
  The choice among ranked routes keeps one route of every venue that has any: the venues
  of the chosen routes are those of the ranked ones, the best-ranked route stays first, and
  the cut at six only drops further routes.
\<close>

theorem choose_routes_venues:
  "token_venue token ` set (choose_routes token ranked) = token_venue token ` set ranked \<and>
    take 1 (choose_routes token ranked) = take 1 ranked \<and>
    length (choose_routes token ranked) = min 6 (card (set ranked))"
proof (intro conjI)
  let ?first = "first_of_venues token [] ranked"
  let ?all = "append_missing ?first ranked"
  have first: "set ?first \<subseteq> set ranked" "distinct ?first"
    "token_venue token ` set ?first = token_venue token ` set ranked"
    using first_of_venues_props [of token "[]" ranked] distinct_first_of_venues by auto
  then have all: "distinct ?all" "set ?all = set ranked" "take (length ?first) ?all = ?first"
    using append_missing_props [of ?first ranked] by auto
  have "length ?first \<le> 4" by (rule length_first_of_venues)
  then have "set ?first \<subseteq> set (take 6 ?all)"
    using set_take_subset_set_take [of "length ?first" 6 ?all] all(3) by simp
  then show "token_venue token ` set (choose_routes token ranked) = token_venue token ` set ranked"
    unfolding choose_routes_def MAX_CANDIDATES_def
    using all(2) first(3) set_take_subset [of 6 ?all] by blast
  show "length (choose_routes token ranked) = min 6 (card (set ranked))"
    using all(1,2) by (simp add: choose_routes_def MAX_CANDIDATES_def distinct_card [symmetric] min.commute)
  show "take 1 (choose_routes token ranked) = take 1 ranked"
  proof (cases ranked)
    case Nil
    then show ?thesis by (simp add: choose_routes_def)
  next
    case (Cons r rs)
    then obtain tl where "?first = r # tl" by simp
    with all(3) obtain tl' where "?all = r # tl'" by (cases ?all) auto
    then show ?thesis by (simp add: Cons choose_routes_def MAX_CANDIDATES_def)
  qed
qed

text \<open>
  A hook policy, once read from the chain, is what every later call on the same pool
  returns, whatever the node answers then; and reading it leaves the policies of the other
  pools as they were.
\<close>

theorem hook_policy_stable:
  assumes "hook_policy_of rpc book p = (book', Inr policy)"
  shows "hook_policy_of rpc' book' p = (book', Inr policy) \<and>
    (\<forall>pid. pid \<noteq> p_id p \<longrightarrow> map_of (book_hooks book') pid = map_of (book_hooks book) pid) \<and>
    book_bridges book' = book_bridges book"
proof (cases "p_venue p \<noteq> V4 \<or> p_hook p \<noteq> PONS_HOOK")
  case True
  with assms show ?thesis by (simp add: hook_policy_of_def ret_st_def)
next
  case False
  show ?thesis
  proof (cases "map_of (book_hooks book) (p_id p)")
    case (Some h)
    with False assms show ?thesis by (simp add: hook_policy_of_def ret_st_def)
  next
    case None
    with False assms have "book' = book\<lparr>book_hooks := od_set (p_id p) policy (book_hooks book)\<rparr>"
      by (auto simp: hook_policy_of_def ret_st_def raise_st_def Let_def split: sum.splits if_splits)
    with False show ?thesis by (auto simp: hook_policy_of_def ret_st_def dict_simps)
  qed
qed

definition pons_pool :: pool where
  "pons_pool = sample_pool\<lparr>p_venue := V4, p_hook := PONS_HOOK\<rparr>"

definition pons_answer :: string where
  "pons_answer = ''0x'' @ concat (replicate 11 (replicate 63 CHR ''0'' @ ''7''))"

lemma pons_words: "hex_words (drop 2 pons_answer) = Inr (replicate 11 7)"
  by code_simp

lemma pons_pool_read:
  "hook_policy_of (\<lambda>to data. Inr pons_answer) empty_book pons_pool =
    (empty_book\<lparr>book_hooks := [(''0xaa'', \<lparr>hook_fee_bps = 7, creator_tax_bps = 7\<rparr>)]\<rparr>,
     Inr \<lparr>hook_fee_bps = 7, creator_tax_bps = 7\<rparr>)"
proof -
  have "\<exists>b. pons_launches ''0xaa'' = Inr b"
    by (simp add: pons_launches_def hex_value_def is_space_def)
  then obtain b where "pons_launches ''0xaa'' = Inr b" ..
  moreover have "p_id pons_pool = ''0xaa''" "p_venue pons_pool = V4" "p_hook pons_pool = PONS_HOOK"
    by (simp_all add: pons_pool_def sample_pool_def)
  ultimately show ?thesis
    by (simp add: hook_policy_of_def empty_book_def pons_words ret_st_def Let_def)
qed

theorem hook_policy_stable_witness:
  "let book' = empty_book\<lparr>book_hooks := [(''0xaa'', \<lparr>hook_fee_bps = 7, creator_tax_bps = 7\<rparr>)]\<rparr>;
       policy = \<lparr>hook_fee_bps = 7, creator_tax_bps = 7\<rparr>
   in hook_policy_of (\<lambda>to data. Inl (Py (RuntimeError ''down''))) book' pons_pool = (book', Inr policy)"
  using hook_policy_stable [OF pons_pool_read] by (simp add: Let_def)

end
