(* ===== verification/Tx_Calls.thy ===== *)
theory Tx_Calls
  imports Tx_Routes
begin

text \<open>
  The rest of \<^verbatim>\<open>src/rhpools/tx_chain.py\<close>: the calls to the protocols' own swap routers, the
  read-only calls, the log topics and the EIP-712 documents a wallet signs. Integers appear
  in them as decimal text where the code writes \<^verbatim>\<open>str(n)\<close>. The property is that a signed
  document determines its permit.
\<close>

section \<open>Router calls\<close>

definition SEL_V3_EXACT_INPUT_SINGLE :: "eth_lib \<Rightarrow> bytes" where
  "SEL_V3_EXACT_INPUT_SINGLE lib = selector lib ''exactInputSingle((address,address,uint24,address,uint256,uint256,uint256,uint160))''"
definition SEL_V3_EXACT_INPUT :: "eth_lib \<Rightarrow> bytes" where
  "SEL_V3_EXACT_INPUT lib = selector lib ''exactInput((bytes,address,uint256,uint256,uint256))''"
definition SEL_PANCAKE_EXACT_INPUT_SINGLE :: "eth_lib \<Rightarrow> bytes" where
  "SEL_PANCAKE_EXACT_INPUT_SINGLE lib = selector lib ''exactInputSingle((address,address,uint24,address,uint256,uint256,uint160))''"
definition SEL_PANCAKE_EXACT_INPUT :: "eth_lib \<Rightarrow> bytes" where
  "SEL_PANCAKE_EXACT_INPUT lib = selector lib ''exactInput((bytes,address,uint256,uint256))''"
definition SEL_SLIPSTREAM_EXACT_INPUT_SINGLE :: "eth_lib \<Rightarrow> bytes" where
  "SEL_SLIPSTREAM_EXACT_INPUT_SINGLE lib = selector lib ''exactInputSingle((address,address,int24,address,uint256,uint256,uint256,uint160))''"
definition SEL_ROUTER_MULTICALL_DEADLINE :: "eth_lib \<Rightarrow> bytes" where
  "SEL_ROUTER_MULTICALL_DEADLINE lib = selector lib ''multicall(uint256,bytes[])''"
definition SEL_SWEEP_WITH_FEE :: "eth_lib \<Rightarrow> bytes" where
  "SEL_SWEEP_WITH_FEE lib = selector lib ''sweepTokenWithFee(address,uint256,address,uint256,address)''"
definition SEL_UNWRAP_WITH_FEE :: "eth_lib \<Rightarrow> bytes" where
  "SEL_UNWRAP_WITH_FEE lib = selector lib ''unwrapWETH9WithFee(uint256,address,uint256,address)''"
definition SEL_POSM_PERMIT_BATCH :: "eth_lib \<Rightarrow> bytes" where
  "SEL_POSM_PERMIT_BATCH lib = selector lib ''permitBatch(address,((address,uint160,uint48,uint48)[],address,uint256),bytes)''"

text \<open>\<open>call_with\<close> is \<^verbatim>\<open>SELECTOR + encode(types, values)\<close>; \<open>item\<close> is a tuple's subscript.\<close>

definition call_with :: "eth_lib \<Rightarrow> bytes \<Rightarrow> string list \<Rightarrow> abi_value list \<Rightarrow> py_error + bytes" where
  "call_with lib sel types vals = bindr (abi_encode lib types vals) (\<lambda>b. Inr (sel @ b))"

definition item :: "'a list \<Rightarrow> nat \<Rightarrow> py_error + 'a" where
  "item xs i = (if i < length xs then Inr (xs ! i) else Inl (IndexError ''tuple index out of range''))"

definition v3_router_swap ::
  "eth_lib \<Rightarrow> address list \<Rightarrow> int list \<Rightarrow> int \<Rightarrow> int \<Rightarrow> address \<Rightarrow> bool \<Rightarrow> bool \<Rightarrow> py_error + bytes" where
  "v3_router_swap lib tokens fees amount deadline recipient pancake slipstream =
    (if length fees = 1 then
       bindr (item tokens 0) (\<lambda>t0. bindr (item tokens 1) (\<lambda>t1.
         if pancake then
           call_with lib (SEL_PANCAKE_EXACT_INPUT_SINGLE lib)
             [''address'', ''address'', ''uint24'', ''address'', ''uint256'', ''uint256'', ''uint160'']
             [AAddr t0, AAddr t1, AInt (fees ! 0), AAddr recipient, AInt amount, AInt 0, AInt 0]
         else if slipstream then
           call_with lib (SEL_SLIPSTREAM_EXACT_INPUT_SINGLE lib)
             [''address'', ''address'', ''int24'', ''address'', ''uint256'', ''uint256'', ''uint256'', ''uint160'']
             [AAddr t0, AAddr t1, AInt (fees ! 0), AAddr recipient, AInt deadline, AInt amount, AInt 0, AInt 0]
         else
           call_with lib (SEL_V3_EXACT_INPUT_SINGLE lib)
             [''address'', ''address'', ''uint24'', ''address'', ''uint256'', ''uint256'', ''uint256'', ''uint160'']
             [AAddr t0, AAddr t1, AInt (fees ! 0), AAddr recipient, AInt deadline, AInt amount, AInt 0, AInt 0]))
     else bindr (v3_path tokens fees) (\<lambda>path.
       if pancake then
         call_with lib (SEL_PANCAKE_EXACT_INPUT lib) [''(bytes,address,uint256,uint256)'']
           [ATuple [ABytes path, AAddr recipient, AInt amount, AInt 0]]
       else
         call_with lib (SEL_V3_EXACT_INPUT lib) [''(bytes,address,uint256,uint256,uint256)'']
           [ATuple [ABytes path, AAddr recipient, AInt deadline, AInt amount, AInt 0]]))"

definition v3_router_fee :: "eth_lib \<Rightarrow> address \<Rightarrow> int \<Rightarrow> address \<Rightarrow> int \<Rightarrow> address \<Rightarrow> py_error + bytes" where
  "v3_router_fee lib token minimum wallet bps recipient =
    (if token = NATIVE then
       call_with lib (SEL_UNWRAP_WITH_FEE lib) [''uint256'', ''address'', ''uint256'', ''address'']
         [AInt minimum, AAddr wallet, AInt bps, AAddr recipient]
     else
       call_with lib (SEL_SWEEP_WITH_FEE lib) [''address'', ''uint256'', ''address'', ''uint256'', ''address'']
         [AAddr token, AInt minimum, AAddr wallet, AInt bps, AAddr recipient])"

definition posm_permit_batch :: "eth_lib \<Rightarrow> address \<Rightarrow> permit_batch \<Rightarrow> bytes \<Rightarrow> py_error + bytes" where
  "posm_permit_batch lib owner permit signature =
     call_with lib (SEL_POSM_PERMIT_BATCH lib) [''address'', PERMIT_BATCH_TYPE, ''bytes'']
       [AAddr owner, permit_batch_tuple permit, ABytes signature]"

section \<open>Read-only calls\<close>

definition erc20_allowance :: "eth_lib \<Rightarrow> address \<Rightarrow> address \<Rightarrow> py_error + bytes" where
  "erc20_allowance lib owner spender =
     call_with lib (selector lib ''allowance(address,address)'') [''address'', ''address''] [AAddr owner, AAddr spender]"

definition erc20_balance_of :: "eth_lib \<Rightarrow> address \<Rightarrow> py_error + bytes" where
  "erc20_balance_of lib owner =
     call_with lib (selector lib ''balanceOf(address)'') [''address''] [AAddr owner]"

definition permit2_allowance :: "eth_lib \<Rightarrow> address \<Rightarrow> address \<Rightarrow> address \<Rightarrow> py_error + bytes" where
  "permit2_allowance lib owner token spender =
     call_with lib (selector lib ''allowance(address,address,address)'') [''address'', ''address'', ''address'']
       [AAddr owner, AAddr token, AAddr spender]"

definition state_view_slot0 :: "eth_lib \<Rightarrow> string \<Rightarrow> py_error + bytes" where
  "state_view_slot0 lib pool_id =
     bindr (bytes_fromhex (drop 2 pool_id)) (\<lambda>b. Inr (selector lib ''getSlot0(bytes32)'' @ b))"

definition posm_pool_and_position :: "eth_lib \<Rightarrow> int \<Rightarrow> py_error + bytes" where
  "posm_pool_and_position lib token_id =
     call_with lib (selector lib ''getPoolAndPositionInfo(uint256)'') [''uint256''] [AInt token_id]"

definition posm_position_liquidity :: "eth_lib \<Rightarrow> int \<Rightarrow> py_error + bytes" where
  "posm_position_liquidity lib token_id =
     call_with lib (selector lib ''getPositionLiquidity(uint256)'') [''uint256''] [AInt token_id]"

definition nfpm_positions :: "eth_lib \<Rightarrow> int \<Rightarrow> py_error + bytes" where
  "nfpm_positions lib token_id =
     call_with lib (selector lib ''positions(uint256)'') [''uint256''] [AInt token_id]"

definition pool_manager_initialize :: "eth_lib \<Rightarrow> pool_key \<Rightarrow> int \<Rightarrow> py_error + bytes" where
  "pool_manager_initialize lib key sqrt_price_x96 =
     call_with lib (selector lib ''initialize((address,address,uint24,int24,address),uint160)'')
       [POOL_KEY_TYPE, ''uint160''] [key_tuple key, AInt sqrt_price_x96]"

section \<open>Log topics\<close>

definition TOPIC_TRANSFER :: "eth_lib \<Rightarrow> string" where
  "TOPIC_TRANSFER lib = topic lib ''Transfer(address,address,uint256)''"
definition TOPIC_V4_SWAP :: "eth_lib \<Rightarrow> string" where
  "TOPIC_V4_SWAP lib = topic lib ''Swap(bytes32,address,int128,int128,uint160,uint128,int24,uint24)''"
definition TOPIC_V3_SWAP :: "eth_lib \<Rightarrow> string" where
  "TOPIC_V3_SWAP lib = topic lib ''Swap(address,address,int256,int256,uint160,uint128,int24)''"
definition TOPIC_PANCAKE_SWAP :: "eth_lib \<Rightarrow> string" where
  "TOPIC_PANCAKE_SWAP lib = topic lib ''Swap(address,address,int256,int256,uint160,uint128,int24,uint128,uint128)''"
definition TOPIC_V2_SWAP :: "eth_lib \<Rightarrow> string" where
  "TOPIC_V2_SWAP lib = topic lib ''Swap(address,uint256,uint256,uint256,uint256,address)''"
definition TOPIC_V4_MODIFY_LIQUIDITY :: "eth_lib \<Rightarrow> string" where
  "TOPIC_V4_MODIFY_LIQUIDITY lib = topic lib ''ModifyLiquidity(bytes32,address,int24,int24,int256,bytes32)''"
definition TOPIC_NFPM_INCREASE :: "eth_lib \<Rightarrow> string" where
  "TOPIC_NFPM_INCREASE lib = topic lib ''IncreaseLiquidity(uint256,uint128,uint256,uint256)''"
definition TOPIC_NFPM_DECREASE :: "eth_lib \<Rightarrow> string" where
  "TOPIC_NFPM_DECREASE lib = topic lib ''DecreaseLiquidity(uint256,uint128,uint256,uint256)''"
definition TOPIC_NFPM_COLLECT :: "eth_lib \<Rightarrow> string" where
  "TOPIC_NFPM_COLLECT lib = topic lib ''Collect(uint256,address,uint256,uint256)''"

section \<open>Documents to sign\<close>

definition typed_field :: "string \<Rightarrow> string \<Rightarrow> json" where
  "typed_field name type = JObj [(''name'', JStr name), (''type'', JStr type)]"

definition PERMIT_TYPES :: "(string \<times> json) list" where
  "PERMIT_TYPES =
    [(''EIP712Domain'', JArr [typed_field ''name'' ''string'', typed_field ''chainId'' ''uint256'',
        typed_field ''verifyingContract'' ''address'']),
     (''PermitDetails'', JArr [typed_field ''token'' ''address'', typed_field ''amount'' ''uint160'',
        typed_field ''expiration'' ''uint48'', typed_field ''nonce'' ''uint48''])]"

definition PERMIT_DOMAIN :: json where
  "PERMIT_DOMAIN = JObj [(''name'', JStr ''Permit2''), (''chainId'', JInt CHAIN_ID), (''verifyingContract'', JStr PERMIT2)]"

definition details_json :: "permit_details \<Rightarrow> json" where
  "details_json d =
     JObj [(''token'', JStr (pd_token d)), (''amount'', JStr (int_text (pd_amount d))),
           (''expiration'', JStr (int_text (pd_expiration d))), (''nonce'', JStr (int_text (pd_nonce d)))]"

definition permit_single_typed_data :: "permit_single \<Rightarrow> json" where
  "permit_single_typed_data permit =
     JObj [(''types'', JObj (PERMIT_TYPES @ [(''PermitSingle'',
              JArr [typed_field ''details'' ''PermitDetails'', typed_field ''spender'' ''address'',
                    typed_field ''sigDeadline'' ''uint256''])])),
           (''primaryType'', JStr ''PermitSingle''),
           (''domain'', PERMIT_DOMAIN),
           (''message'', JObj [(''details'', details_json (ps_details permit)),
              (''spender'', JStr (ps_spender permit)),
              (''sigDeadline'', JStr (int_text (ps_sig_deadline permit)))])]"

definition permit_batch_typed_data :: "permit_batch \<Rightarrow> json" where
  "permit_batch_typed_data permit =
     JObj [(''types'', JObj (PERMIT_TYPES @ [(''PermitBatch'',
              JArr [typed_field ''details'' ''PermitDetails[]'', typed_field ''spender'' ''address'',
                    typed_field ''sigDeadline'' ''uint256''])])),
           (''primaryType'', JStr ''PermitBatch''),
           (''domain'', PERMIT_DOMAIN),
           (''message'', JObj [(''details'', JArr (map details_json (pb_details permit))),
              (''spender'', JStr (pb_spender permit)),
              (''sigDeadline'', JStr (int_text (pb_sig_deadline permit)))])]"

lemma details_json_inject: "details_json d = details_json e \<Longrightarrow> d = e"
  by (cases d; cases e) (simp add: details_json_def)

section \<open>Property\<close>

text \<open>
  What a wallet signs determines the permit: two permits with the same EIP-712 document are
  equal in every field, a single permit never shares its document with a batch, and the domain
  is Permit2 on this chain.
\<close>

theorem typed_data_determines_permit:
  "(permit_single_typed_data p = permit_single_typed_data q \<longleftrightarrow> p = q) \<and>
   (permit_batch_typed_data b = permit_batch_typed_data c \<longleftrightarrow> b = c) \<and>
   permit_single_typed_data p \<noteq> permit_batch_typed_data b"
proof (intro conjI)
  show "permit_single_typed_data p = permit_single_typed_data q \<longleftrightarrow> p = q"
    by (cases p; cases q) (auto simp: permit_single_typed_data_def dest: details_json_inject)
  have inj: "inj details_json" using details_json_inject by (auto intro: injI)
  show "permit_batch_typed_data b = permit_batch_typed_data c \<longleftrightarrow> b = c"
    by (cases b; cases c) (auto simp: permit_batch_typed_data_def dest: map_injective [OF _ inj])
  show "permit_single_typed_data p \<noteq> permit_batch_typed_data b"
    by (simp add: permit_single_typed_data_def permit_batch_typed_data_def)
qed

end
