(* ===== verification/Tx_Plan.thy ===== *)
theory Tx_Plan
  imports Tx_Calls
begin

text \<open>
  \<^verbatim>\<open>src/rhpools/tx_plan.py\<close>: intents, plans and their calldata, the reading of simulated logs
  into a ledger, the reconciliation of a plan's amounts against it, the swap planner and the
  liquidity planner. An exception is a \<open>tx_exn\<close>; a plan's typed body is a sum of the four
  classes the code has.
\<close>

section \<open>Intents and plans\<close>

datatype fee_leg = FeeInput | FeeOutput
datatype lp_op = Mint | Increase | Decrease | Collect

record tx_policy =
  fee_bps :: int
  fee_recipient :: address
  max_impact_bps :: int
  quote_ttl_s :: int

record swap_intent =
  si_wallet :: address
  si_side :: side
  si_token :: address
  si_quote_currency :: address
  si_amount_in :: int
  si_slippage_bps :: int

definition intent_in :: "swap_intent \<Rightarrow> address" where
  "intent_in i = (if si_side i = Buy then si_quote_currency i else si_token i)"

definition intent_out :: "swap_intent \<Rightarrow> address" where
  "intent_out i = (if si_side i = Buy then si_token i else si_quote_currency i)"

definition intent_fee_leg :: "swap_intent \<Rightarrow> fee_leg" where
  "intent_fee_leg i = (if si_side i = Buy then FeeInput else FeeOutput)"

record lp_intent =
  li_wallet :: address
  li_op :: lp_op
  li_pool_id :: string
  li_slippage_bps :: int
  li_tick_lower :: int
  li_tick_upper :: int
  li_amount0 :: int
  li_amount1 :: int
  li_liquidity :: int
  li_token_id :: "int option"

record approval_need =
  an_token :: address
  an_spender :: address
  an_approve_amount :: int
  an_required :: int

record tx_call =
  call_to :: address
  call_data :: bytes
  call_value :: int

record fee_amt =
  fee_currency :: address
  fee_amount :: int

record swap_shape =
  ss_wallet :: address
  ss_route :: route
  ss_currency_in :: address
  ss_currency_out :: address
  ss_amount_in :: int
  ss_fee_leg :: fee_leg
  ss_fee_currency :: address
  ss_fee_recipient :: address
  ss_fee_bps :: int

record split_leg =
  sl_route :: route
  sl_amount_in :: int
  sl_amount_out :: int

text \<open>A \<^verbatim>\<open>Split\<close> is its tuple of legs; \<open>make_split\<close> is its \<^verbatim>\<open>__post_init__\<close>.\<close>

type_synonym split = "split_leg list"

definition make_split :: "split_leg list \<Rightarrow> py_error + split" where
  "make_split legs =
    (if \<not> (1 \<le> length legs \<and> length legs \<le> 3) \<or> (\<exists>l \<in> set legs. sl_amount_in l \<le> 0)
     then Inl (ValueError ''split needs one to three positive legs'') else Inr legs)"

record lp_shape =
  ls_wallet :: address
  ls_op :: lp_op
  ls_pool :: pool
  ls_manager :: address
  ls_token_id :: "int option"
  ls_tick_lower :: int
  ls_tick_upper :: int
  ls_liquidity :: int

datatype plan_body =
    SwapBody "ur_command list" nat swap_shape "split option"
  | RouterBody swap_shape int
  | NfpmBody nfpm_call "nfpm_call option" lp_shape
  | PosmBody "posm_param list" lp_shape

datatype permit = SinglePermit permit_single | BatchPermit permit_batch

record plan =
  pl_to :: address
  pl_value :: int
  pl_deadline :: int
  pl_body :: plan_body
  pl_approvals :: "approval_need list"
  pl_permit :: "permit option"
  pl_staging :: "tx_call list"
  pl_signature :: "bytes option"

definition signed_commands :: "plan \<Rightarrow> ur_command list \<Rightarrow> ur_command list" where
  "signed_commands p commands =
    (case (pl_signature p, pl_permit p) of
       (Some sig, Some (SinglePermit permit)) \<Rightarrow> Permit2Permit permit sig # commands
     | _ \<Rightarrow> commands)"

definition router_calldata :: "eth_lib \<Rightarrow> plan \<Rightarrow> swap_shape \<Rightarrow> int \<Rightarrow> py_error + bytes" where
  "router_calldata lib p shape gross_min_out =
    (let hops = ss_route shape;
         tokens = hop_in (hd hops) # map hop_out hops;
         slipstream = (pl_to p = SLIPSTREAM_SWAP_ROUTER);
         fees = map (\<lambda>h. if slipstream then p_tick_spacing (hop_pool h) else p_fee_ppm (hop_pool h)) hops;
         pancake = (pl_to p = PANCAKE_SMART_ROUTER)
     in bindr (v3_router_swap lib tokens fees (ss_amount_in shape) (pl_deadline p) (pl_to p) pancake slipstream) (\<lambda>swap.
        bindr (v3_router_fee lib (ss_currency_out shape) gross_min_out (ss_wallet shape) (ss_fee_bps shape)
                 (ss_fee_recipient shape)) (\<lambda>fee.
          if pancake then
            call_with lib (SEL_ROUTER_MULTICALL_DEADLINE lib) [''uint256'', ''bytes[]'']
              [AInt (pl_deadline p), AArray [ABytes swap, ABytes fee]]
          else multicall lib [swap, fee])))"

definition calldata :: "eth_lib \<Rightarrow> plan \<Rightarrow> py_error + bytes" where
  "calldata lib p =
    (case pl_body p of
       SwapBody commands min_out_index shape split \<Rightarrow> ur_execute lib (signed_commands p commands) (pl_deadline p)
     | NfpmBody call collect shape \<Rightarrow>
         (case collect of
            Some c \<Rightarrow> bindr (nfpm_encode lib call) (\<lambda>a. bindr (nfpm_encode lib c) (\<lambda>b. multicall lib [a, b]))
          | None \<Rightarrow> nfpm_encode lib call)
     | RouterBody shape gross_min_out \<Rightarrow> router_calldata lib p shape gross_min_out
     | PosmBody params shape \<Rightarrow>
         bindr (posm_modify_liquidities lib params (pl_deadline p)) (\<lambda>modify.
           case (pl_signature p, pl_permit p) of
             (Some sig, Some (BatchPermit permit)) \<Rightarrow>
               bindr (posm_permit_batch lib (ls_wallet shape) permit sig) (\<lambda>b. multicall lib [b, modify])
           | _ \<Rightarrow> Inr modify))"

definition permit_typed_data :: "plan \<Rightarrow> json option" where
  "permit_typed_data p =
    (case pl_permit p of
       Some (SinglePermit s) \<Rightarrow> Some (permit_single_typed_data s)
     | Some (BatchPermit b) \<Rightarrow> Some (permit_batch_typed_data b)
     | None \<Rightarrow> None)"

record amounts =
  am_amount_in :: int
  am_pool_out :: int
  am_hook_fee :: "fee_amt option"
  am_creator_tax :: "fee_amt option"
  am_rhpools_fee :: fee_amt
  am_net_out :: int
  am_min_out :: int
  am_impact_bps :: "int option"

record lp_amounts =
  la_liquidity :: int
  la_amount0 :: int
  la_amount1 :: int
  la_fees0 :: "int option"
  la_fees1 :: "int option"
  la_token_id :: "int option"
  la_bound0 :: int
  la_bound1 :: int

subsection \<open>JSON forms\<close>

text \<open>The \<^verbatim>\<open>to_json\<close> methods: token amounts are decimal text, ticks and rates are numbers.\<close>

definition text_json :: "int \<Rightarrow> json" where "text_json n = JStr (int_text n)"

definition opt_json :: "('a \<Rightarrow> json) \<Rightarrow> 'a option \<Rightarrow> json" where
  "opt_json f v = (case v of None \<Rightarrow> JNull | Some x \<Rightarrow> f x)"

fun side_value :: "side \<Rightarrow> string" where
  "side_value Buy = ''buy''"
| "side_value Sell = ''sell''"

fun op_value :: "lp_op \<Rightarrow> string" where
  "op_value Mint = ''mint''"
| "op_value Increase = ''increase''"
| "op_value Decrease = ''decrease''"
| "op_value Collect = ''collect''"

definition swap_intent_json :: "swap_intent \<Rightarrow> json" where
  "swap_intent_json i =
     JObj [(''kind'', JStr ''swap''), (''wallet'', JStr (si_wallet i)), (''side'', JStr (side_value (si_side i))),
           (''token'', JStr (si_token i)), (''quote_currency'', JStr (si_quote_currency i)),
           (''amount_in'', text_json (si_amount_in i)), (''slippage_bps'', JInt (si_slippage_bps i))]"

definition lp_intent_json :: "lp_intent \<Rightarrow> json" where
  "lp_intent_json i =
     JObj [(''kind'', JStr ''lp''), (''wallet'', JStr (li_wallet i)), (''op'', JStr (op_value (li_op i))),
           (''pool_id'', JStr (li_pool_id i)), (''slippage_bps'', JInt (li_slippage_bps i)),
           (''tick_lower'', JInt (li_tick_lower i)), (''tick_upper'', JInt (li_tick_upper i)),
           (''amount0'', text_json (li_amount0 i)), (''amount1'', text_json (li_amount1 i)),
           (''liquidity'', text_json (li_liquidity i)), (''token_id'', opt_json JInt (li_token_id i))]"

definition fee_json :: "fee_amt \<Rightarrow> json" where
  "fee_json f = JObj [(''currency'', JStr (fee_currency f)), (''amount'', text_json (fee_amount f))]"

definition amounts_json :: "amounts \<Rightarrow> json" where
  "amounts_json a =
     JObj [(''amount_in'', text_json (am_amount_in a)), (''pool_out'', text_json (am_pool_out a)),
           (''hook_fee'', opt_json fee_json (am_hook_fee a)), (''creator_tax'', opt_json fee_json (am_creator_tax a)),
           (''rhpools_fee'', fee_json (am_rhpools_fee a)), (''net_out'', text_json (am_net_out a)),
           (''min_out'', text_json (am_min_out a)), (''impact_bps'', opt_json JInt (am_impact_bps a))]"

definition lp_amounts_json :: "lp_amounts \<Rightarrow> json" where
  "lp_amounts_json a =
     JObj [(''liquidity'', text_json (la_liquidity a)), (''amount0'', text_json (la_amount0 a)),
           (''amount1'', text_json (la_amount1 a)), (''fees0'', opt_json text_json (la_fees0 a)),
           (''fees1'', opt_json text_json (la_fees1 a)), (''token_id'', opt_json JInt (la_token_id a)),
           (''bound0'', text_json (la_bound0 a)), (''bound1'', text_json (la_bound1 a))]"

section \<open>The ledger of a simulated transaction\<close>

text \<open>
  A log has an address, topics and data, as text. \<open>ledger_step\<close> is the body of the loop of
  \<^verbatim>\<open>Ledger.__init__\<close>.
\<close>

record rpc_log =
  log_address :: string
  log_topics :: "string list"
  log_data :: string

record swap_log =
  sw_pool_key :: string
  sw_amount0 :: int
  sw_amount1 :: int
  sw_venue :: venue

record ledger =
  transfers :: "(address \<times> address \<times> address \<times> int) list"
  swaps :: "swap_log list"
  nft_mints :: "(address \<times> address \<times> int) list"
  nfpm_events :: "(address \<times> string \<times> int \<times> int \<times> int \<times> int) list"
  liquidity_deltas :: "(string \<times> int) list"
  native_traced :: bool
  native_flows :: "(address, int) odict"

definition signed :: "int \<Rightarrow> nat \<Rightarrow> int" where
  "signed value bits = (if value \<ge> push_bit (bits - 1) 1 then value - push_bit bits 1 else value)"

definition topic_address :: "string \<Rightarrow> address" where
  "topic_address word = ''0x'' @ lower (drop (length word - 40) word)"

definition words_of :: "string \<Rightarrow> py_error + int list" where
  "words_of data = hex_words (if take 2 data = ''0x'' then drop 2 data else data)"

definition NATIVE_TRACE :: address where "NATIVE_TRACE = ''0xeeeeeeeeeeeeeeeeeeeeeeeeeeeeeeeeeeeeeeee''"

definition add_swap :: "string \<Rightarrow> int \<Rightarrow> int \<Rightarrow> venue \<Rightarrow> ledger \<Rightarrow> ledger" where
  "add_swap key a0 a1 v l =
     l\<lparr>swaps := swaps l @ [\<lparr>sw_pool_key = key, sw_amount0 = a0, sw_amount1 = a1, sw_venue = v\<rparr>]\<rparr>"

definition ledger_step :: "eth_lib \<Rightarrow> ledger \<Rightarrow> rpc_log \<Rightarrow> py_error + ledger" where
  "ledger_step lib l entry =
    (let address = lower (log_address entry); topics = map lower (log_topics entry); data = log_data entry in
     case topics of
       [] \<Rightarrow> Inr l
     | sig # rest \<Rightarrow>
         if sig = TOPIC_TRANSFER lib \<and> length topics = 3 then
           bindr (if length data > 2 then bindr (words_of data) (\<lambda>w. item w 0) else Inr 0) (\<lambda>amount.
             Inr (l\<lparr>transfers := transfers l @
               [(if address = NATIVE_TRACE then NATIVE else address,
                 topic_address (topics ! 1), topic_address (topics ! 2), amount)]\<rparr>))
         else if sig = TOPIC_TRANSFER lib \<and> length topics = 4 \<and> topic_address (topics ! 1) = NATIVE then
           bindr (int_base16 (topics ! 3)) (\<lambda>t.
             Inr (l\<lparr>nft_mints := nft_mints l @ [(address, topic_address (topics ! 2), t)]\<rparr>))
         else if sig = TOPIC_V4_SWAP lib \<and> address = POOL_MANAGER then
           bindr (words_of data) (\<lambda>w. bindr (item topics 1) (\<lambda>k. bindr (item w 0) (\<lambda>w0. bindr (item w 1) (\<lambda>w1.
             Inr (add_swap k (signed w0 256) (signed w1 256) V4 l)))))
         else if sig = TOPIC_V3_SWAP lib \<or> sig = TOPIC_PANCAKE_SWAP lib then
           bindr (words_of data) (\<lambda>w. bindr (item w 0) (\<lambda>w0. bindr (item w 1) (\<lambda>w1.
             Inr (add_swap address (signed w0 256) (signed w1 256) V3 l))))
         else if sig = TOPIC_V2_SWAP lib then
           bindr (words_of data) (\<lambda>w. bindr (item w 2) (\<lambda>w2. bindr (item w 0) (\<lambda>w0.
           bindr (item w 3) (\<lambda>w3. bindr (item w 1) (\<lambda>w1.
             Inr (add_swap address (w2 - w0) (w3 - w1) V2 l))))))
         else if sig = TOPIC_NFPM_INCREASE lib \<or> sig = TOPIC_NFPM_DECREASE lib then
           bindr (words_of data) (\<lambda>w. bindr (item topics 1) (\<lambda>t. bindr (int_base16 t) (\<lambda>token.
           bindr (item w 0) (\<lambda>w0. bindr (item w 1) (\<lambda>w1. bindr (item w 2) (\<lambda>w2.
             Inr (l\<lparr>nfpm_events := nfpm_events l @ [(address, sig, token, w0, w1, w2)]\<rparr>)))))))
         else if sig = TOPIC_NFPM_COLLECT lib then
           bindr (words_of data) (\<lambda>w. bindr (item topics 1) (\<lambda>t. bindr (int_base16 t) (\<lambda>token.
           bindr (item w 1) (\<lambda>w1. bindr (item w 2) (\<lambda>w2.
             Inr (l\<lparr>nfpm_events := nfpm_events l @ [(address, sig, token, 0, w1, w2)]\<rparr>))))))
         else if sig = TOPIC_V4_MODIFY_LIQUIDITY lib \<and> address = POOL_MANAGER then
           bindr (words_of data) (\<lambda>w. bindr (item topics 1) (\<lambda>k. bindr (item w 2) (\<lambda>w2.
             Inr (l\<lparr>liquidity_deltas := liquidity_deltas l @ [(k, signed w2 256)]\<rparr>))))
         else Inr l)"

fun ledger_loop :: "eth_lib \<Rightarrow> ledger \<Rightarrow> rpc_log list \<Rightarrow> py_error + ledger" where
  "ledger_loop lib l [] = Inr l"
| "ledger_loop lib l (entry # logs) = bindr (ledger_step lib l entry) (\<lambda>l'. ledger_loop lib l' logs)"

definition make_ledger :: "eth_lib \<Rightarrow> rpc_log list \<Rightarrow> bool \<Rightarrow> (address \<times> int) list \<Rightarrow> py_error + ledger" where
  "make_ledger lib logs traced flows =
     ledger_loop lib
       \<lparr>transfers = [], swaps = [], nft_mints = [], nfpm_events = [], liquidity_deltas = [],
        native_traced = traced, native_flows = fold (\<lambda>(k, v). od_set (lower k) v) flows []\<rparr> logs"

definition observable :: "ledger \<Rightarrow> address \<Rightarrow> bool" where
  "observable l currency \<longleftrightarrow> currency \<noteq> NATIVE \<or> native_traced l"

definition received :: "ledger \<Rightarrow> address \<Rightarrow> address \<Rightarrow> int" where
  "received l currency who =
     sum_list (map (\<lambda>(c, f, t, a). if c = currency \<and> t = lower who \<and> f \<noteq> lower who then a else 0) (transfers l))"

definition sent :: "ledger \<Rightarrow> address \<Rightarrow> address \<Rightarrow> int" where
  "sent l currency who =
     sum_list (map (\<lambda>(c, f, t, a). if c = currency \<and> f = lower who \<and> t \<noteq> lower who then a else 0) (transfers l))"

definition flow :: "ledger \<Rightarrow> address \<Rightarrow> address \<Rightarrow> tx_exn + int" where
  "flow l currency who =
    (if currency = NATIVE \<and> \<not> native_traced l then
       (case map_of (native_flows l) (lower who) of
          Some v \<Rightarrow> Inr v
        | None \<Rightarrow> Inl (TxError ''unobservable'' (''no native flow for '' @ who)))
     else Inr (received l currency who - sent l currency who))"

definition hop_key :: "hop \<Rightarrow> string" where
  "hop_key h = (if p_venue (hop_pool h) = V4 then p_id (hop_pool h) else p_address (hop_pool h))"

definition hop_io :: "ledger \<Rightarrow> hop \<Rightarrow> nat option \<Rightarrow> tx_exn + int \<times> int" where
  "hop_io l h occurrence =
    (let matches = filter (\<lambda>s. sw_pool_key s = hop_key h) (swaps l);
         k = (case occurrence of None \<Rightarrow> 0 | Some n \<Rightarrow> n) in
     if occurrence = None \<and> length matches \<noteq> 1 then Inl (TxError ''unmodeled_fee''
       (''expected one Swap log for '' @ take 10 (hop_key h) @ '', saw '' @ int_text (int (length matches))))
     else if k \<ge> length matches then Inl (TxError ''unmodeled_fee''
       (''expected Swap log '' @ int_text (int k + 1) @ '' for '' @ take 10 (hop_key h) @ '', saw '' @ int_text (int (length matches))))
     else
       (let swap = matches ! k;
            zero_in = (hop_in h = p_token0 (hop_pool h));
            a_in = (if zero_in then sw_amount0 swap else sw_amount1 swap);
            a_out = (if zero_in then sw_amount1 swap else sw_amount0 swap)
        in if sw_venue swap = V3 then Inr (a_in, - a_out) else Inr (- a_in, a_out)))"

section \<open>Reconciling amounts\<close>

definition floor_bps :: "int \<Rightarrow> int \<Rightarrow> int" where
  "floor_bps amount bps = amount * bps div 10000"

definition mismatch :: "string \<Rightarrow> int \<Rightarrow> string \<Rightarrow> int \<Rightarrow> tx_exn" where
  "mismatch a got b want = TxError ''unmodeled_fee'' (a @ int_text got @ b @ int_text want)"

text \<open>The loop of \<^verbatim>\<open>swap_amounts\<close>: carried amount, the two hook deductions, the last pool output.\<close>

type_synonym hop_state = "int \<times> fee_amt option \<times> fee_amt option \<times> int"

fun swap_hops ::
  "ledger \<Rightarrow> (pool \<Rightarrow> tx_exn + hook_policy) \<Rightarrow> hop list \<Rightarrow> hop_state \<Rightarrow> tx_exn + hop_state" where
  "swap_hops l hooks [] st = Inr st"
| "swap_hops l hooks (h # hs) (carry, hook, tax, pool_out) =
     bindr (hop_io l h None) (\<lambda>(i, out).
       if i \<noteq> carry then Inl (mismatch ''hop input '' i '' != carried '' carry)
       else bindr (hooks (hop_pool h)) (\<lambda>policy.
         if is_pons policy then
           (let hf = floor_bps out (hook_fee_bps policy); ct = floor_bps out (creator_tax_bps policy) in
            swap_hops l hooks hs
              (out - (hf + ct), Some \<lparr>fee_currency = hop_out h, fee_amount = hf\<rparr>,
               Some \<lparr>fee_currency = hop_out h, fee_amount = ct\<rparr>, out))
         else swap_hops l hooks hs (out, hook, tax, out)))"

definition fee_in_of :: "swap_shape \<Rightarrow> int" where
  "fee_in_of s = (if ss_fee_leg s = FeeInput then floor_bps (ss_amount_in s) (ss_fee_bps s) else 0)"

definition check_flow :: "ledger \<Rightarrow> swap_shape \<Rightarrow> int \<Rightarrow> tx_exn + unit" where
  "check_flow l s net_out =
    (if observable l (ss_currency_out s) then
       bindr (flow l (ss_currency_out s) (ss_wallet s)) (\<lambda>got.
         ensure (got = net_out) (mismatch ''wallet received '' got '', expected '' net_out))
     else Inr ())"

definition swap_amounts ::
  "swap_shape \<Rightarrow> ledger \<Rightarrow> (pool \<Rightarrow> tx_exn + hook_policy) \<Rightarrow> tx_exn + amounts" where
  "swap_amounts s l hooks =
     bindr (swap_hops l hooks (ss_route s) (ss_amount_in s - fee_in_of s, None, None, 0))
       (\<lambda>(carry, hook_fee, creator_tax, pool_out).
       let fee = (if ss_fee_leg s = FeeOutput then floor_bps carry (ss_fee_bps s) else fee_in_of s);
           net_out = (if ss_fee_leg s = FeeOutput then carry - fee else carry);
           got = received l (ss_fee_currency s) (ss_fee_recipient s);
           spent = sent l (ss_currency_in s) (ss_wallet s)
       in
       bindr (ensure (\<not> observable l (ss_fee_currency s) \<or> got = fee)
                (mismatch ''fee recipient received '' got '', expected '' fee)) (\<lambda>_.
       bindr (check_flow l s net_out) (\<lambda>_.
       bindr (ensure (ss_currency_in s = NATIVE \<or> spent = ss_amount_in s)
                (mismatch ''wallet spent '' spent '', expected '' (ss_amount_in s))) (\<lambda>_.
         Inr \<lparr>am_amount_in = ss_amount_in s, am_pool_out = pool_out, am_hook_fee = hook_fee,
              am_creator_tax = creator_tax,
              am_rhpools_fee = \<lparr>fee_currency = ss_fee_currency s, fee_amount = fee\<rparr>,
              am_net_out = net_out, am_min_out = 0, am_impact_bps = None\<rparr>))))"

text \<open>
  \<open>split_amounts\<close>. The counts in \<open>seen\<close> are the swaps of a pool already attributed to earlier
  hops. \<open>split_hops\<close> is the loop over the hops of a leg, \<open>split_legs\<close> the loop over the legs.
\<close>

record split_state =
  st_seen :: "(string, nat) odict"
  st_pool_out :: int
  st_hook_total :: int
  st_creator_total :: int
  st_hook_currency :: "address option"

definition seen_count :: "string \<Rightarrow> (string, nat) odict \<Rightarrow> nat" where
  "seen_count k seen = (case map_of seen k of None \<Rightarrow> 0 | Some n \<Rightarrow> n)"

fun split_hops ::
  "ledger \<Rightarrow> (pool \<Rightarrow> tx_exn + hook_policy) \<Rightarrow> hop list \<Rightarrow> int \<Rightarrow> int \<Rightarrow> split_state \<Rightarrow>
   tx_exn + int \<times> int \<times> split_state" where
  "split_hops l hooks [] carry out st = Inr (carry, out, st)"
| "split_hops l hooks (h # hs) carry out0 st =
     bindr (hop_io l h (Some (seen_count (hop_key h) (st_seen st)))) (\<lambda>(i, out).
       let st1 = st\<lparr>st_seen := od_set (hop_key h) (seen_count (hop_key h) (st_seen st) + 1) (st_seen st)\<rparr> in
       if i \<noteq> carry then Inl (mismatch ''hop input '' i '' != carried '' carry)
       else bindr (hooks (hop_pool h)) (\<lambda>policy.
         if is_pons policy then
           (let hf = floor_bps out (hook_fee_bps policy); ct = floor_bps out (creator_tax_bps policy) in
            split_hops l hooks hs (out - (hf + ct)) out
              (st1\<lparr>st_hook_total := st_hook_total st + hf, st_creator_total := st_creator_total st + ct,
                   st_hook_currency := Some (hop_out h)\<rparr>))
         else split_hops l hooks hs out out st1))"

definition leg_share :: "bool \<Rightarrow> bool \<Rightarrow> int \<Rightarrow> int \<Rightarrow> int \<Rightarrow> split_leg \<Rightarrow> py_error + int" where
  "leg_share net_shares is_last net_input amount_in allocated leg =
    (if net_shares then Inr (sl_amount_in leg)
     else if is_last then Inr (net_input - allocated)
     else if amount_in = 0 then Inl (ZeroDivisionError ''integer division or modulo by zero'')
     else Inr (sl_amount_in leg * net_input div amount_in))"

fun split_legs ::
  "ledger \<Rightarrow> (pool \<Rightarrow> tx_exn + hook_policy) \<Rightarrow> bool \<Rightarrow> int \<Rightarrow> int \<Rightarrow> int \<Rightarrow> split_leg list \<Rightarrow> split_state \<Rightarrow>
   tx_exn + split_leg list \<times> split_state" where
  "split_legs l hooks net_shares net_input amount_in allocated [] st = Inr ([], st)"
| "split_legs l hooks net_shares net_input amount_in allocated (leg # legs) st =
     bindr (lift_py (leg_share net_shares (legs = []) net_input amount_in allocated leg)) (\<lambda>share.
     bindr (split_hops l hooks (sl_route leg) share 0 st) (\<lambda>(carry, out, st1).
     bindr (split_legs l hooks net_shares net_input amount_in (allocated + share) legs
              (st1\<lparr>st_pool_out := st_pool_out st1 + out\<rparr>)) (\<lambda>(outs, st2).
       Inr (leg\<lparr>sl_amount_out := carry\<rparr> # outs, st2))))"

text \<open>The pro-rata distribution of the net output over the legs; the last leg takes the rest.\<close>

fun distribute :: "int \<Rightarrow> int \<Rightarrow> int \<Rightarrow> split_leg list \<Rightarrow> split_leg list" where
  "distribute net_out gross_out distributed [] = []"
| "distribute net_out gross_out distributed (leg # legs) =
    (let net_leg = (if legs = [] then net_out - distributed else sl_amount_out leg * net_out div gross_out) in
     leg\<lparr>sl_amount_out := net_leg\<rparr> # distribute net_out gross_out (distributed + net_leg) legs)"

text \<open>The part of \<open>split_amounts\<close> after its loops: totals, distribution and the checks.\<close>

definition split_result ::
  "swap_shape \<Rightarrow> ledger \<Rightarrow> split_leg list \<Rightarrow> split_state \<Rightarrow> tx_exn + amounts \<times> split" where
  "split_result s l outs st =
    (let gross_out = sum_list (map sl_amount_out outs);
         fee = (if ss_fee_leg s = FeeInput then fee_in_of s else floor_bps gross_out (ss_fee_bps s));
         net_out = gross_out - (if ss_fee_leg s = FeeOutput then fee else 0);
         outs' = (if ss_fee_leg s = FeeOutput \<and> gross_out \<noteq> 0 then distribute net_out gross_out 0 outs else outs)
     in
     bindr (ensure (\<not> (observable l (ss_fee_currency s) \<and> received l (ss_fee_currency s) (ss_fee_recipient s) \<noteq> fee))
              (TxError ''unmodeled_fee'' ''split fee transfer differs from stated fee'')) (\<lambda>_.
     bindr (if observable l (ss_currency_out s) then
              bindr (flow l (ss_currency_out s) (ss_wallet s)) (\<lambda>got.
                ensure (got = net_out) (TxError ''unmodeled_fee'' ''split wallet output differs from stated output''))
            else Inr ()) (\<lambda>_.
     bindr (ensure (\<not> (ss_currency_in s \<noteq> NATIVE \<and> sent l (ss_currency_in s) (ss_wallet s) \<noteq> ss_amount_in s))
              (TxError ''unmodeled_fee'' ''split wallet input differs from stated input'')) (\<lambda>_.
     bindr (lift_py (make_split outs')) (\<lambda>split'.
       Inr (\<lparr>am_amount_in = ss_amount_in s, am_pool_out = st_pool_out st,
             am_hook_fee = map_option (\<lambda>c. \<lparr>fee_currency = c, fee_amount = st_hook_total st\<rparr>) (st_hook_currency st),
             am_creator_tax = map_option (\<lambda>c. \<lparr>fee_currency = c, fee_amount = st_creator_total st\<rparr>) (st_hook_currency st),
             am_rhpools_fee = \<lparr>fee_currency = ss_fee_currency s, fee_amount = fee\<rparr>,
             am_net_out = net_out, am_min_out = 0, am_impact_bps = None\<rparr>, split'))))))"

definition split_amounts ::
  "swap_shape \<Rightarrow> split \<Rightarrow> ledger \<Rightarrow> (pool \<Rightarrow> tx_exn + hook_policy) \<Rightarrow> bool \<Rightarrow> tx_exn + amounts \<times> split" where
  "split_amounts s split l hooks net_shares =
    (let net_input = ss_amount_in s - fee_in_of s in
     bindr (ensure (\<not> (net_shares \<and> sum_list (map sl_amount_in split) \<noteq> net_input))
              (TxError ''unmodeled_fee'' ''split inputs do not cover the order'')) (\<lambda>_.
     bindr (split_legs l hooks net_shares net_input (ss_amount_in s) 0 split
              \<lparr>st_seen = [], st_pool_out = 0, st_hook_total = 0, st_creator_total = 0, st_hook_currency = None\<rparr>)
       (\<lambda>(outs, st). split_result s l outs st)))"

definition min_out_for :: "int \<Rightarrow> int \<Rightarrow> int" where
  "min_out_for net_out slippage_bps = net_out * (10000 - slippage_bps) div 10000"

definition impact_bps_of :: "amounts \<Rightarrow> amounts \<Rightarrow> int option" where
  "impact_bps_of full small =
    (if am_net_out small = 0 \<or> am_amount_in full = 0 then None
     else (let ratio = 10000 * am_net_out full * am_amount_in small div (am_amount_in full * am_net_out small)
           in Some (max 0 (10000 - ratio))))"

section \<open>The swap planner\<close>

fun with_min_out :: "ur_command \<Rightarrow> int \<Rightarrow> tx_exn + ur_command" where
  "with_min_out (V3Swap r a m p u) v = Inr (V3Swap r a v p u)"
| "with_min_out (V2Swap r a m p u) v = Inr (V2Swap r a v p u)"
| "with_min_out (Sweep t r m) v = Inr (Sweep t r v)"
| "with_min_out (UnwrapWeth r m) v = Inr (UnwrapWeth r v)"
| "with_min_out (V4Swap ps) v =
     Inr (V4Swap (map (\<lambda>p. case p of V4SwapExactInSingle k z a m \<Rightarrow> V4SwapExactInSingle k z a v | _ \<Rightarrow> p) ps))"
| "with_min_out c v = Inl (TxError ''internal'' ''command carries no min_out'')"

definition hop_command :: "hop \<Rightarrow> address \<Rightarrow> int \<Rightarrow> py_error + ur_command" where
  "hop_command h recipient min_out =
    (let p = hop_pool h in
     case p_venue p of
       V3 \<Rightarrow> bindr (v3_path [hop_in h, hop_out h] [p_fee_ppm p]) (\<lambda>path.
               Inr (V3Swap recipient CONTRACT_BALANCE min_out path False))
     | V2 \<Rightarrow> Inr (V2Swap recipient CONTRACT_BALANCE min_out [hop_in h, hop_out h] False)
     | V4 \<Rightarrow> bindr (pool_key_of p) (\<lambda>key.
               Inr (V4Swap [V4Settle (hop_in h) CONTRACT_BALANCE False,
                            V4SwapExactInSingle key (hop_in h = p_token0 p) OPEN_DELTA min_out,
                            V4Take (hop_out h) recipient OPEN_DELTA])))"

definition rewrap :: "address \<Rightarrow> ur_command" where
  "rewrap held = (if held = NATIVE then WrapEth ADDRESS_THIS CONTRACT_BALANCE else UnwrapWeth ADDRESS_THIS 0)"

text \<open>The loop over the hops in \<^verbatim>\<open>plan\<close>: commands so far, currency held, the slot of the minimum.\<close>

fun plan_hops ::
  "fee_leg \<Rightarrow> address \<Rightarrow> hop list \<Rightarrow> ur_command list \<times> address \<times> nat option \<Rightarrow>
   py_error + ur_command list \<times> address \<times> nat option" where
  "plan_hops leg out [] st = Inr st"
| "plan_hops leg out (h # hs) (commands, held, slot) =
    (let commands1 = (if hop_in h \<noteq> held then commands @ [rewrap held] else commands);
         direct = (hs = [] \<and> leg = FeeInput \<and> hop_out h = out)
     in bindr (hop_command h (if direct then MSG_SENDER else ADDRESS_THIS) 0) (\<lambda>c.
          plan_hops leg out hs
            (commands1 @ [c], hop_out h, if direct then Some (length commands1) else slot)))"

definition router_for :: "route \<Rightarrow> address option" where
  "router_for r =
    (let factory = p_factory (hop_pool (hd r)) in
     case map_of V3_ROUTER_BY_FACTORY factory of
       Some router \<Rightarrow>
         if \<forall>h \<in> set r. p_venue (hop_pool h) = V3 \<and> p_factory (hop_pool h) = factory then Some router else None
     | None \<Rightarrow> None)"

definition approve_calls :: "eth_lib \<Rightarrow> approval_need list \<Rightarrow> py_error + tx_call list" where
  "approve_calls lib approvals =
     map_res (\<lambda>a. bindr (erc20_approve lib (an_spender a) (an_approve_amount a)) (\<lambda>d.
       Inr \<lparr>call_to = an_token a, call_data = d, call_value = 0\<rparr>)) approvals"

definition router_plan :: "eth_lib \<Rightarrow> swap_intent \<Rightarrow> route \<Rightarrow> tx_policy \<Rightarrow> int \<Rightarrow> address \<Rightarrow> py_error + plan" where
  "router_plan lib i r policy deadline router =
    (let shape = \<lparr>ss_wallet = si_wallet i, ss_route = r, ss_currency_in = intent_in i,
                  ss_currency_out = intent_out i, ss_amount_in = si_amount_in i, ss_fee_leg = FeeOutput,
                  ss_fee_currency = intent_out i, ss_fee_recipient = fee_recipient policy,
                  ss_fee_bps = fee_bps policy\<rparr>;
         approvals = (if intent_in i = NATIVE then []
                      else [\<lparr>an_token = intent_in i, an_spender = router, an_approve_amount = si_amount_in i,
                             an_required = si_amount_in i\<rparr>])
     in bindr (approve_calls lib approvals) (\<lambda>staging.
          Inr \<lparr>pl_to = router, pl_value = (if intent_in i = NATIVE then si_amount_in i else 0),
               pl_deadline = deadline, pl_body = RouterBody shape 0, pl_approvals = approvals,
               pl_permit = None, pl_staging = staging, pl_signature = None\<rparr>))"

text \<open>The approvals and calls that let the router pull a token through Permit2.\<close>

definition permit2_staging :: "eth_lib \<Rightarrow> address \<Rightarrow> address \<Rightarrow> int \<Rightarrow> int \<Rightarrow> py_error + tx_call list" where
  "permit2_staging lib token spender amount deadline =
     bindr (erc20_approve lib PERMIT2 MAX_UINT256) (\<lambda>a.
     bindr (permit2_approve lib token spender amount deadline) (\<lambda>b.
       Inr [\<lparr>call_to = token, call_data = a, call_value = 0\<rparr>,
            \<lparr>call_to = PERMIT2, call_data = b, call_value = 0\<rparr>]))"

definition fee_commands :: "fee_leg \<Rightarrow> fee_leg \<Rightarrow> address \<Rightarrow> tx_policy \<Rightarrow> ur_command list" where
  "fee_commands point leg held policy =
     (if leg = point then [PayPortion held (fee_recipient policy) (fee_bps policy)] else [])"

definition universal_plan ::
  "eth_lib \<Rightarrow> swap_intent \<Rightarrow> route \<Rightarrow> tx_policy \<Rightarrow> int \<Rightarrow> int \<Rightarrow> tx_exn + plan" where
  "universal_plan lib i r policy deadline permit_nonce =
    (let currency_in = intent_in i; currency_out = intent_out i; leg = intent_fee_leg i;
         native = (currency_in = NATIVE);
         pull = (if native then [] else [Permit2TransferFrom currency_in ADDRESS_THIS (si_amount_in i)]);
         permit = (if native then None
           else Some (SinglePermit \<lparr>ps_details = \<lparr>pd_token = currency_in, pd_amount = si_amount_in i,
                 pd_expiration = deadline, pd_nonce = permit_nonce\<rparr>, ps_spender = UR, ps_sig_deadline = deadline\<rparr>));
         approvals = (if native then []
           else [\<lparr>an_token = currency_in, an_spender = PERMIT2, an_approve_amount = MAX_UINT256,
                  an_required = si_amount_in i\<rparr>])
     in
     bindr (lift_py (if native then Inr [] else permit2_staging lib currency_in UR (si_amount_in i) deadline)) (\<lambda>staging.
     bindr (lift_py (plan_hops leg currency_out r (pull @ fee_commands FeeInput leg currency_in policy, currency_in, None)))
       (\<lambda>(commands, held, slot).
       let wrap = (leg = FeeOutput \<and> currency_out = WETH \<and> held = NATIVE);
           commands1 = (if wrap then commands @ [WrapEth ADDRESS_THIS CONTRACT_BALANCE] else commands);
           held1 = (if wrap then WETH else held);
           commands2 = (if leg = FeeOutput then
               commands1 @ [PayPortion held1 (fee_recipient policy) (fee_bps policy),
                            if currency_out = NATIVE \<and> held1 = WETH then UnwrapWeth MSG_SENDER 0
                            else Sweep held1 MSG_SENDER 0]
             else commands1);
           slot' = (if leg = FeeOutput then Some (length commands2 - 1) else slot)
       in case slot' of
            None \<Rightarrow> Inl (TxError ''internal'' ''plan has no min_out slot'')
          | Some k \<Rightarrow>
              Inr \<lparr>pl_to = UR, pl_value = (if native then si_amount_in i else 0), pl_deadline = deadline,
                   pl_body = SwapBody commands2 k
                     \<lparr>ss_wallet = si_wallet i, ss_route = r, ss_currency_in = currency_in,
                      ss_currency_out = currency_out, ss_amount_in = si_amount_in i, ss_fee_leg = leg,
                      ss_fee_currency = (if leg = FeeOutput then held1 else currency_in),
                      ss_fee_recipient = fee_recipient policy, ss_fee_bps = fee_bps policy\<rparr> None,
                   pl_approvals = approvals, pl_permit = permit, pl_staging = staging, pl_signature = None\<rparr>)))"

definition plan_swap ::
  "eth_lib \<Rightarrow> swap_intent \<Rightarrow> route \<Rightarrow> tx_policy \<Rightarrow> int \<Rightarrow> int \<Rightarrow> tx_exn + plan" where
  "plan_swap lib i r policy deadline permit_nonce =
    (if \<not> same_asset (route_in r) (intent_in i) \<or> \<not> same_asset (route_out r) (intent_out i)
     then Inl (TxError ''internal'' ''route does not serve the intent'')
     else case router_for r of
       Some router \<Rightarrow> lift_py (router_plan lib i r policy deadline router)
     | None \<Rightarrow> universal_plan lib i r policy deadline permit_nonce)"

text \<open>
  \<open>plan_split\<close>. \<open>split_leg_hops\<close> is the loop over the hops of one leg; the first hop of a leg
  spends the leg's share, the others the whole balance.
\<close>

definition with_share :: "int \<Rightarrow> ur_command \<Rightarrow> ur_command" where
  "with_share share c =
    (case c of
       V3Swap r a m p u \<Rightarrow> V3Swap r share m p u
     | V2Swap r a m p u \<Rightarrow> V2Swap r share m p u
     | V4Swap ps \<Rightarrow> V4Swap (map (\<lambda>p. case p of
           V4Settle cur a u \<Rightarrow> V4Settle cur share u
         | V4SwapExactInSingle k z a m \<Rightarrow> V4SwapExactInSingle k z share m
         | _ \<Rightarrow> p) ps)
     | _ \<Rightarrow> c)"

fun split_leg_hops :: "int \<Rightarrow> bool \<Rightarrow> hop list \<Rightarrow> address \<Rightarrow> py_error + ur_command list \<times> address" where
  "split_leg_hops share first [] held = Inr ([], held)"
| "split_leg_hops share first (h # hs) held =
    (let pre = (if hop_in h \<noteq> held
                then [if held = NATIVE then WrapEth ADDRESS_THIS (if first then share else CONTRACT_BALANCE)
                      else UnwrapWeth ADDRESS_THIS 0]
                else [])
     in bindr (hop_command h ADDRESS_THIS 0) (\<lambda>c.
        bindr (split_leg_hops share False hs (hop_out h)) (\<lambda>(rest, held').
          Inr (pre @ (if first then with_share share c else c) # rest, held'))))"

definition split_tail :: "address \<Rightarrow> address \<Rightarrow> ur_command list" where
  "split_tail held currency_out =
    (if held = NATIVE \<and> currency_out = NATIVE then [WrapEth ADDRESS_THIS CONTRACT_BALANCE]
     else if held \<noteq> currency_out then [rewrap held]
     else [])"

fun split_commands ::
  "swap_intent \<Rightarrow> int \<Rightarrow> int \<Rightarrow> split_leg list \<Rightarrow> tx_exn + ur_command list" where
  "split_commands i net_input allocated [] = Inr []"
| "split_commands i net_input allocated (leg # legs) =
    (let r = sl_route leg in
     if \<not> same_asset (route_in r) (intent_in i) \<or> \<not> same_asset (route_out r) (intent_out i)
     then Inl (TxError ''internal'' ''split route does not serve the intent'')
     else bindr (lift_py (leg_share False (legs = []) net_input (si_amount_in i) allocated leg)) (\<lambda>share.
          bindr (lift_py (split_leg_hops share True r (intent_in i))) (\<lambda>(cs, held).
          bindr (split_commands i net_input (allocated + share) legs) (\<lambda>rest.
            Inr (cs @ split_tail held (intent_out i) @ rest)))))"

definition plan_split ::
  "eth_lib \<Rightarrow> swap_intent \<Rightarrow> split \<Rightarrow> tx_policy \<Rightarrow> int \<Rightarrow> int \<Rightarrow> tx_exn + plan" where
  "plan_split lib i split policy deadline permit_nonce =
    (if length split = 1 then plan_swap lib i (sl_route (hd split)) policy deadline permit_nonce
     else if sum_list (map sl_amount_in split) \<noteq> si_amount_in i
     then Inl (TxError ''internal'' ''split does not cover the order'')
     else bindr (plan_swap lib i (sl_route (hd split)) policy deadline permit_nonce) (\<lambda>base.
       case pl_body base of
         SwapBody commands0 slot0 shape0 split0 \<Rightarrow>
           if pl_to base \<noteq> UR
           then Inl (TxError ''internal'' ''split route cannot execute in UniversalRouter'')
           else
           (let pull = (if intent_in i \<noteq> NATIVE then [Permit2TransferFrom (intent_in i) ADDRESS_THIS (si_amount_in i)] else []);
                leg = intent_fee_leg i;
                net_input = si_amount_in i - (if leg = FeeInput then floor_bps (si_amount_in i) (fee_bps policy) else 0)
            in bindr (split_commands i net_input 0 split) (\<lambda>body.
              let output = (if intent_out i = NATIVE then WETH else intent_out i);
                  commands = pull @ fee_commands FeeInput leg (intent_in i) policy @ body @
                    fee_commands FeeOutput leg output policy @
                    [if intent_out i = NATIVE then UnwrapWeth MSG_SENDER 0 else Sweep output MSG_SENDER 0];
                  shape = (if leg = FeeOutput then shape0\<lparr>ss_fee_currency := output\<rparr> else shape0)
              in Inr (base\<lparr>pl_body := SwapBody commands (length commands - 1) shape (Some split)\<rparr>)))
       | _ \<Rightarrow> Inl (TxError ''internal'' ''split route cannot execute in UniversalRouter'')))"

text \<open>
  \<open>finalize\<close>. \<open>bound_legs\<close> is its loop over the legs: \<open>count\<close> hops seen, \<open>assigned\<close> of the
  minimum handed out, the last leg takes the rest.
\<close>

definition gross_min_for :: "int \<Rightarrow> int \<Rightarrow> tx_exn + int" where
  "gross_min_for min_out bps =
    (if min_out > 0 \<and> bps \<ge> 10000 then Inl (TxError ''internal'' ''invalid fee'')
     else if bps = 10000 then Inl (Py (ZeroDivisionError ''integer division or modulo by zero''))
     else Inr ((min_out * 10000 + (10000 - bps) - 1) div (10000 - bps)))"

fun is_swap :: "ur_command \<Rightarrow> bool" where
  "is_swap (V2Swap r a m p u) = True"
| "is_swap (V3Swap r a m p u) = True"
| "is_swap (V4Swap ps) = True"
| "is_swap c = False"

definition swap_indices :: "ur_command list \<Rightarrow> nat list" where
  "swap_indices commands = filter (\<lambda>i. is_swap (commands ! i)) [0..<length commands]"

definition set_min_out :: "ur_command list \<Rightarrow> nat \<Rightarrow> int \<Rightarrow> tx_exn + ur_command list" where
  "set_min_out commands i v =
     bindr (lift_py (item commands i)) (\<lambda>c. bindr (with_min_out c v) (\<lambda>c'. Inr (commands[i := c'])))"

definition leg_bound :: "int \<Rightarrow> int \<Rightarrow> int \<Rightarrow> bool \<Rightarrow> split_leg \<Rightarrow> int" where
  "leg_bound min_out order_total assigned is_last leg =
     (if is_last then min_out - assigned else min_out * sl_amount_out leg div order_total)"

fun bound_legs ::
  "int \<Rightarrow> int \<Rightarrow> nat list \<Rightarrow> nat \<Rightarrow> int \<Rightarrow> split_leg list \<Rightarrow> ur_command list \<Rightarrow> tx_exn + ur_command list" where
  "bound_legs min_out order_total idx count assigned [] commands = Inr commands"
| "bound_legs min_out order_total idx count assigned (leg # legs) commands =
    (let count' = count + length (sl_route leg);
         bound = leg_bound min_out order_total assigned (legs = []) leg
     in bindr (lift_py (item idx (count' - 1))) (\<lambda>i.
        bindr (set_min_out commands i bound) (\<lambda>commands'.
          bound_legs min_out order_total idx count' (assigned + bound) legs commands')))"

definition finalize_swap :: "plan \<Rightarrow> int \<Rightarrow> bytes option \<Rightarrow> tx_exn + plan" where
  "finalize_swap p min_out sig =
    (case pl_body p of
       RouterBody shape gross \<Rightarrow>
         bindr (gross_min_for min_out (ss_fee_bps shape)) (\<lambda>g. Inr (p\<lparr>pl_body := RouterBody shape g\<rparr>))
     | SwapBody commands slot shape split \<Rightarrow>
         if pl_permit p \<noteq> None \<and> sig = None
         then Inl (TxError ''permit_required'' ''the quote needs a Permit2 signature'')
         else
           bindr (set_min_out commands slot min_out) (\<lambda>commands1.
           bindr (case split of
               Some legs \<Rightarrow>
                 (let order_total = sum_list (map sl_amount_out legs) in
                  if length legs > 1 \<and> order_total \<noteq> 0
                  then bound_legs min_out order_total (swap_indices commands1) 0 0 legs commands1
                  else Inr commands1)
             | None \<Rightarrow> Inr commands1) (\<lambda>commands2.
             Inr (p\<lparr>pl_body := SwapBody commands2 slot shape split, pl_signature := sig\<rparr>)))
     | _ \<Rightarrow> Inl (TxError ''internal'' ''not a swap plan''))"

end
