(* ===== verification/Tx_Swap.thy ===== *)
theory Tx_Swap
  imports Tx_Plan
begin

text \<open>
  What the swap half of \<^verbatim>\<open>tx_plan.py\<close> guarantees: amounts that reconcile with the ledger, shares
  that add up, plans that keep custody of the funds, a minimum on the one command that pays the
  wallet, and minimums of the legs of a split that add up to the order's.
\<close>

section \<open>Reconciliation\<close>

definition deductions :: "hook_policy \<Rightarrow> int \<Rightarrow> int" where
  "deductions policy out =
     (if is_pons policy then floor_bps out (hook_fee_bps policy) + floor_bps out (creator_tax_bps policy) else 0)"

text \<open>
  What the ledger and the hooks say of every hop of a route: its input, its output and the policy of
  its hook. A hop passes on its output less the deductions; \<open>passed\<close> starts with what goes into the
  route, so it has one entry more than the route.
\<close>

type_synonym hop_read = "hop \<times> int \<times> int \<times> hook_policy"

definition hop_reads :: "ledger \<Rightarrow> (pool \<Rightarrow> tx_exn + hook_policy) \<Rightarrow> route \<Rightarrow> hop_read list \<Rightarrow> bool" where
  "hop_reads l hooks r reads \<longleftrightarrow>
     map fst reads = r \<and>
     (\<forall>(h, i, out, policy) \<in> set reads. hop_io l h None = Inr (i, out) \<and> hooks (hop_pool h) = Inr policy)"

definition reads_in :: "hop_read list \<Rightarrow> int list" where
  "reads_in reads = map (\<lambda>(h, i, out, policy). i) reads"

definition reads_out :: "hop_read list \<Rightarrow> int list" where
  "reads_out reads = map (\<lambda>(h, i, out, policy). out) reads"

definition passed :: "int \<Rightarrow> hop_read list \<Rightarrow> int list" where
  "passed input reads = input # map (\<lambda>(h, i, out, policy). out - deductions policy out) reads"

text \<open>The deductions of one kind, one for every hop with a hook of the fee-taking family.\<close>

definition hook_takes :: "(hook_policy \<Rightarrow> int) \<Rightarrow> hop_read list \<Rightarrow> fee_amt option list" where
  "hook_takes rate reads =
     map (\<lambda>(h, i, out, policy). Some \<lparr>fee_currency = hop_out h, fee_amount = floor_bps out (rate policy)\<rparr>)
       (filter (\<lambda>(h, i, out, policy). is_pons policy) reads)"

lemmas reads_defs = reads_in_def reads_out_def passed_def hook_takes_def

lemma swap_hops_reads:
  "swap_hops l hooks hs (carry, hook, tax, out) = Inr (carry', hook', tax', out') \<Longrightarrow>
   \<exists>reads. hop_reads l hooks hs reads \<and> reads_in reads = butlast (passed carry reads) \<and>
     carry' = last (passed carry reads) \<and> out' = last (out # reads_out reads) \<and>
     hook' = last (hook # hook_takes hook_fee_bps reads) \<and> tax' = last (tax # hook_takes creator_tax_bps reads)"
proof (induction hs arbitrary: carry hook tax out)
  case Nil
  then show ?case by (intro exI [of _ "[]"]) (simp add: hop_reads_def reads_defs)
next
  case (Cons h hs)
  from Cons.prems obtain i o1 where io: "hop_io l h None = Inr (i, o1)"
    by (auto simp: bindr_eq_Inr)
  with Cons.prems have i: "i = carry" by (auto split: if_splits)
  from Cons.prems io i obtain policy where p: "hooks (hop_pool h) = Inr policy"
    by (auto simp: bindr_eq_Inr)
  define hook2 where "hook2 = (if is_pons policy
    then Some \<lparr>fee_currency = hop_out h, fee_amount = floor_bps o1 (hook_fee_bps policy)\<rparr> else hook)"
  define tax2 where "tax2 = (if is_pons policy
    then Some \<lparr>fee_currency = hop_out h, fee_amount = floor_bps o1 (creator_tax_bps policy)\<rparr> else tax)"
  have "swap_hops l hooks hs (o1 - deductions policy o1, hook2, tax2, o1) = Inr (carry', hook', tax', out')"
    using Cons.prems io i p by (cases "is_pons policy") (simp_all add: deductions_def hook2_def tax2_def Let_def)
  from Cons.IH [OF this] obtain reads where
    r: "hop_reads l hooks hs reads" "reads_in reads = butlast (passed (o1 - deductions policy o1) reads)"
      "carry' = last (passed (o1 - deductions policy o1) reads)" "out' = last (o1 # reads_out reads)"
      "hook' = last (hook2 # hook_takes hook_fee_bps reads)" "tax' = last (tax2 # hook_takes creator_tax_bps reads)"
    by blast
  show ?case
    using r io i p
    by (intro exI [of _ "(h, i, o1, policy) # reads"]) (simp add: hop_reads_def reads_defs hook2_def tax2_def)
qed

definition fee_out_of :: "swap_shape \<Rightarrow> amounts \<Rightarrow> int" where
  "fee_out_of s a = (if ss_fee_leg s = FeeOutput then fee_amount (am_rhpools_fee a) else 0)"

text \<open>
  C6. When \<open>swap_amounts\<close> accepts a ledger, every amount it states is accounted for by the swaps of the
  route's hops: what the order puts in, less an input fee, is the input of the first hop; every hop
  takes exactly what the hop before left after hook fee and tax; what the last one left is the net
  output plus the output fee. The output of the pool is that of the last hop, the hook fee and the
  creator tax are those of the last hop with such a hook, the fee is the policy's rate of the input
  or of what the route left. The fee recipient received exactly the fee and the wallet exactly the
  net output, wherever the logs can show it, and of a token the wallet spent exactly the order's
  input; what a native order spends is the value of its call, which this function does not read.
\<close>

theorem swap_amounts_reconciled:
  assumes "swap_amounts s l hooks = Inr a"
  shows "\<exists>reads. hop_reads l hooks (ss_route s) reads \<and>
    reads_in reads = butlast (passed (ss_amount_in s - fee_in_of s) reads) \<and>
    am_net_out a + fee_out_of s a = last (passed (ss_amount_in s - fee_in_of s) reads) \<and>
    am_pool_out a = last (0 # reads_out reads) \<and>
    am_hook_fee a = last (None # hook_takes hook_fee_bps reads) \<and>
    am_creator_tax a = last (None # hook_takes creator_tax_bps reads) \<and>
    am_rhpools_fee a = \<lparr>fee_currency = ss_fee_currency s,
      fee_amount = floor_bps (if ss_fee_leg s = FeeInput then ss_amount_in s
        else last (passed (ss_amount_in s - fee_in_of s) reads)) (ss_fee_bps s)\<rparr> \<and>
    am_amount_in a = ss_amount_in s \<and>
    (observable l (ss_fee_currency s) \<longrightarrow>
       received l (ss_fee_currency s) (ss_fee_recipient s) = fee_amount (am_rhpools_fee a)) \<and>
    (observable l (ss_currency_out s) \<longrightarrow> flow l (ss_currency_out s) (ss_wallet s) = Inr (am_net_out a)) \<and>
    (ss_currency_in s \<noteq> NATIVE \<longrightarrow> sent l (ss_currency_in s) (ss_wallet s) = ss_amount_in s)"
proof -
  obtain carry hook tax out where hops:
    "swap_hops l hooks (ss_route s) (ss_amount_in s - fee_in_of s, None, None, 0) = Inr (carry, hook, tax, out)"
    using assms by (cases "swap_hops l hooks (ss_route s) (ss_amount_in s - fee_in_of s, None, None, 0)")
      (auto simp: swap_amounts_def)
  obtain reads where r: "hop_reads l hooks (ss_route s) reads"
      "reads_in reads = butlast (passed (ss_amount_in s - fee_in_of s) reads)"
      "carry = last (passed (ss_amount_in s - fee_in_of s) reads)" "out = last (0 # reads_out reads)"
      "hook = last (None # hook_takes hook_fee_bps reads)" "tax = last (None # hook_takes creator_tax_bps reads)"
    using swap_hops_reads [OF hops] by blast
  define fee where "fee = (if ss_fee_leg s = FeeOutput then floor_bps carry (ss_fee_bps s) else fee_in_of s)"
  define net where "net = (if ss_fee_leg s = FeeOutput then carry - fee else carry)"
  from assms hops have
    ok: "\<not> observable l (ss_fee_currency s) \<or> received l (ss_fee_currency s) (ss_fee_recipient s) = fee"
      "check_flow l s net = Inr ()"
      "ss_currency_in s = NATIVE \<or> sent l (ss_currency_in s) (ss_wallet s) = ss_amount_in s" and
    a: "a = \<lparr>am_amount_in = ss_amount_in s, am_pool_out = out, am_hook_fee = hook, am_creator_tax = tax,
          am_rhpools_fee = \<lparr>fee_currency = ss_fee_currency s, fee_amount = fee\<rparr>, am_net_out = net, am_min_out = 0,
          am_impact_bps = None\<rparr>"
    by (auto simp: swap_amounts_def Let_def bindr_eq_Inr ensure_eq_Inr fee_def net_def)
  from ok(2) have "observable l (ss_currency_out s) \<longrightarrow> flow l (ss_currency_out s) (ss_wallet s) = Inr net"
    by (auto simp: check_flow_def bindr_eq_Inr ensure_eq_Inr split: if_splits)
  moreover have "am_net_out a + fee_out_of s a = carry" by (simp add: net_def fee_out_of_def a)
  moreover have "fee = floor_bps (if ss_fee_leg s = FeeInput then ss_amount_in s else carry) (ss_fee_bps s)"
    by (cases "ss_fee_leg s") (simp_all add: fee_def fee_in_of_def)
  moreover have "observable l (ss_fee_currency s) \<longrightarrow> received l (ss_fee_currency s) (ss_fee_recipient s) = fee"
    "ss_currency_in s \<noteq> NATIVE \<longrightarrow> sent l (ss_currency_in s) (ss_wallet s) = ss_amount_in s"
    using ok(1,3) by blast+
  ultimately show ?thesis
    using r by (intro exI [of _ reads]) (simp add: a del: last.simps)
qed

definition sample_v2 :: pool where
  "sample_v2 = \<lparr>p_venue = V2, p_id = ''0xbb'', p_address = ''0xbb'', p_token0 = WETH,
     p_token1 = ''0xff'', p_fee_ppm = 3000, p_tick_spacing = 0, p_hook = NATIVE, p_factory = UR_V2_FACTORY\<rparr>"

definition sample_leg :: "int \<Rightarrow> int \<Rightarrow> split_leg" where
  "sample_leg a b = \<lparr>sl_route = [\<lparr>hop_pool = sample_v2, hop_in = WETH, hop_out = ''0xff''\<rparr>],
     sl_amount_in = a, sl_amount_out = b\<rparr>"

definition sample_shape :: swap_shape where
  "sample_shape = \<lparr>ss_wallet = ''0xcc'', ss_route = sl_route (sample_leg 600 70), ss_currency_in = NATIVE,
     ss_currency_out = ''0xff'', ss_amount_in = 1000, ss_fee_leg = FeeInput, ss_fee_currency = NATIVE,
     ss_fee_recipient = ''0xdd'', ss_fee_bps = 100\<rparr>"

lemma token_not_native [simp]: "''0xff'' \<noteq> NATIVE" "NATIVE \<noteq> ''0xff''" "''0xff'' \<noteq> WETH"
  by (simp_all add: NATIVE_def WETH_def)

definition sample_swap_ledger :: "int list \<Rightarrow> int list \<Rightarrow> ledger" where
  "sample_swap_ledger ins outs =
     \<lparr>transfers = [(NATIVE, UR, ''0xdd'', 10), (''0xff'', UR, ''0xcc'', sum_list outs)],
      swaps = map (\<lambda>(i, out). \<lparr>sw_pool_key = ''0xbb'', sw_amount0 = - i, sw_amount1 = out, sw_venue = V2\<rparr>) (zip ins outs),
      nft_mints = [], nfpm_events = [], liquidity_deltas = [], native_traced = True, native_flows = []\<rparr>"

lemma sample_lower [simp]: "lower ''0xcc'' = ''0xcc''" "lower ''0xdd'' = ''0xdd''"
  by code_simp+

lemma sample_UR [simp]: "UR \<noteq> ''0xcc''" "UR \<noteq> ''0xdd''"
  by (simp_all add: UR_def)

definition sample_amounts :: amounts where
  "sample_amounts = \<lparr>am_amount_in = 1000, am_pool_out = 120, am_hook_fee = None, am_creator_tax = None,
     am_rhpools_fee = \<lparr>fee_currency = NATIVE, fee_amount = 10\<rparr>, am_net_out = 120, am_min_out = 0,
     am_impact_bps = None\<rparr>"

lemma sample_reconciled:
  "swap_amounts sample_shape (sample_swap_ledger [990] [120]) (\<lambda>_. Inr NO_HOOK) = Inr sample_amounts"
  by (simp add: swap_amounts_def sample_shape_def sample_swap_ledger_def sample_leg_def sample_v2_def fee_in_of_def
      floor_bps_def hop_io_def hop_key_def Let_def is_pons_def NO_HOOK_def check_flow_def flow_def received_def
      sent_def observable_def sample_amounts_def)

theorem swap_amounts_reconciled_witness:
  "\<exists>reads. hop_reads (sample_swap_ledger [990] [120]) (\<lambda>_. Inr NO_HOOK) (ss_route sample_shape) reads \<and>
    reads_in reads = butlast (passed 990 reads) \<and> last (passed 990 reads) = 120"
proof -
  have "ss_amount_in sample_shape - fee_in_of sample_shape = 990" "am_net_out sample_amounts + fee_out_of sample_shape sample_amounts = 120"
    by (simp_all add: sample_shape_def fee_in_of_def floor_bps_def fee_out_of_def sample_amounts_def)
  then show ?thesis using swap_amounts_reconciled [OF sample_reconciled] by metis
qed

section \<open>Shares of a split\<close>

lemma sum_distribute:
  "legs \<noteq> [] \<Longrightarrow> d + sum_list (map sl_amount_out (distribute net_out gross_out d legs)) = net_out"
proof (induction legs arbitrary: d)
  case Nil
  then show ?case by simp
next
  case (Cons leg legs)
  then show ?case
    by (cases "legs = []") (auto simp: Let_def add.assoc [symmetric])
qed

lemma distribute_keeps:
  "map sl_route (distribute net_out gross_out d legs) = map sl_route legs \<and>
   map sl_amount_in (distribute net_out gross_out d legs) = map sl_amount_in legs"
  by (induction legs arbitrary: d) (auto simp: Let_def)

lemma split_legs_keeps:
  "split_legs l hooks ns ni ai al legs st = Inr (outs, st') \<Longrightarrow>
   map sl_route outs = map sl_route legs \<and> map sl_amount_in outs = map sl_amount_in legs"
proof (induction legs arbitrary: al st outs)
  case Nil
  then show ?case by simp
next
  case (Cons leg legs)
  then show ?case by (fastforce simp: bindr_eq_Inr)
qed

lemma make_split_Inr: "make_split legs = Inr legs' \<Longrightarrow> legs' = legs \<and> legs \<noteq> []"
  by (auto simp: make_split_def split: if_splits)

text \<open>
  The legs that \<open>split_amounts\<close> returns are the legs of the split, with outputs that add up
  to exactly the net output it states; with the fee they add up to the gross output, and the
  wallet's flow is the net output.
\<close>

theorem split_amounts_exact:
  assumes "split_amounts s split l hooks net_shares = Inr (a, split')"
  shows "sum_list (map sl_amount_out split') = am_net_out a \<and>
    map sl_route split' = map sl_route split \<and> map sl_amount_in split' = map sl_amount_in split \<and>
    (observable l (ss_currency_out s) \<longrightarrow> flow l (ss_currency_out s) (ss_wallet s) = Inr (am_net_out a)) \<and>
    (observable l (ss_fee_currency s) \<longrightarrow>
       received l (ss_fee_currency s) (ss_fee_recipient s) = fee_amount (am_rhpools_fee a)) \<and>
    (net_shares \<longrightarrow> sum_list (map sl_amount_in split) = ss_amount_in s - fee_in_of s)"
proof -
  let ?st0 = "\<lparr>st_seen = [], st_pool_out = 0, st_hook_total = 0, st_creator_total = 0, st_hook_currency = None\<rparr>"
  from assms obtain u where
    N: "ensure (\<not> (net_shares \<and> sum_list (map sl_amount_in split) \<noteq> ss_amount_in s - fee_in_of s))
      (TxError ''unmodeled_fee'' ''split inputs do not cover the order'') = Inr u" and
    LR: "bindr (split_legs l hooks net_shares (ss_amount_in s - fee_in_of s) (ss_amount_in s) 0 split ?st0)
      (\<lambda>(outs, st). split_result s l outs st) = Inr (a, split')"
    unfolding split_amounts_def Let_def by (rule bindr_InrE)
  from LR obtain r where
    L: "split_legs l hooks net_shares (ss_amount_in s - fee_in_of s) (ss_amount_in s) 0 split ?st0 = Inr r" and
    R: "(case r of (outs, st) \<Rightarrow> split_result s l outs st) = Inr (a, split')"
    by (rule bindr_InrE)
  obtain outs st where r: "r = (outs, st)" by (cases r)
  from L r have legs:
    "split_legs l hooks net_shares (ss_amount_in s - fee_in_of s) (ss_amount_in s) 0 split ?st0 = Inr (outs, st)"
    by simp
  from R r have result: "split_result s l outs st = Inr (a, split')" by simp
  from N have ns: "net_shares \<longrightarrow> sum_list (map sl_amount_in split) = ss_amount_in s - fee_in_of s"
    by (auto simp: ensure_eq_Inr)
  define gross where "gross = sum_list (map sl_amount_out outs)"
  define fee where "fee = (if ss_fee_leg s = FeeInput then fee_in_of s else floor_bps gross (ss_fee_bps s))"
  define net where "net = gross - (if ss_fee_leg s = FeeOutput then fee else 0)"
  define outs' where "outs' = (if ss_fee_leg s = FeeOutput \<and> gross \<noteq> 0 then distribute net gross 0 outs else outs)"
  note defs = gross_def [symmetric] fee_def [symmetric] net_def [symmetric] outs'_def [symmetric]
  have f: "\<not> (observable l (ss_fee_currency s) \<and> received l (ss_fee_currency s) (ss_fee_recipient s) \<noteq> fee)" and
    w: "(if observable l (ss_currency_out s) then
          bindr (flow l (ss_currency_out s) (ss_wallet s)) (\<lambda>got.
            ensure (got = net) (TxError ''unmodeled_fee'' ''split wallet output differs from stated output''))
        else Inr ()) = Inr ()" and
    mk: "make_split outs' = Inr split'" and
    a: "am_net_out a = net" "fee_amount (am_rhpools_fee a) = fee"
    using result unfolding split_result_def Let_def defs
    unfolding bindr_eq_Inr ensure_eq_Inr lift_py_eq_Inr by auto
  from mk have s': "split' = outs'" "outs' \<noteq> []" by (auto dest: make_split_Inr)
  then have ne: "outs \<noteq> []" by (cases outs) (auto simp: outs'_def split: if_splits)
  have keep: "map sl_route outs = map sl_route split" "map sl_amount_in outs = map sl_amount_in split"
    using split_legs_keeps [OF legs] by auto
  have "sum_list (map sl_amount_out outs') = net"
  proof (cases "ss_fee_leg s = FeeOutput \<and> gross \<noteq> 0")
    case True
    then show ?thesis using sum_distribute [OF ne, of 0 net gross] by (simp add: outs'_def)
  next
    case False
    then have "net = gross"
      by (cases "ss_fee_leg s") (auto simp: net_def fee_def floor_bps_def)
    with False show ?thesis by (auto simp: outs'_def gross_def)
  qed
  moreover have "map sl_route outs' = map sl_route split" "map sl_amount_in outs' = map sl_amount_in split"
    using keep distribute_keeps by (auto simp: outs'_def)
  moreover from w have "observable l (ss_currency_out s) \<longrightarrow> flow l (ss_currency_out s) (ss_wallet s) = Inr net"
    by (auto simp: bindr_eq_Inr ensure_eq_Inr split: if_splits)
  ultimately show ?thesis using s' f ns a by simp
qed

definition sample_split :: split where
  "sample_split = [sample_leg 600 70, sample_leg 400 50]"

lemma sample_split_reconciled:
  "split_amounts sample_shape sample_split (sample_swap_ledger [594, 396] [70, 50]) (\<lambda>_. Inr NO_HOOK) False
    = Inr (sample_amounts, sample_split)"
  by (simp add: split_amounts_def split_result_def sample_shape_def sample_swap_ledger_def sample_leg_def sample_v2_def
      fee_in_of_def floor_bps_def hop_io_def hop_key_def Let_def is_pons_def NO_HOOK_def flow_def received_def
      sent_def observable_def sample_amounts_def sample_split_def leg_share_def seen_count_def make_split_def)

theorem split_amounts_exact_witness:
  "sum_list (map sl_amount_out sample_split) = am_net_out sample_amounts"
  using split_amounts_exact [OF sample_split_reconciled] by simp

section \<open>Custody\<close>

text \<open>
  The recipients a command names; what it has Permit2 pull from the wallet (token, recipient and
  amount); whether it makes the wallet the payer of a swap or settlement; the fee commands.
\<close>

fun pays :: "ur_command \<Rightarrow> address list" where
  "pays (WrapEth r a) = [r]"
| "pays (UnwrapWeth r m) = [r]"
| "pays (PayPortion t r b) = [r]"
| "pays (Sweep t r m) = [r]"
| "pays (Permit2TransferFrom t r a) = [r]"
| "pays (Permit2Permit p s) = []"
| "pays (V3Swap r a m p u) = [r]"
| "pays (V2Swap r a m p u) = [r]"
| "pays (V4Swap ps) = concat (map (\<lambda>p. case p of V4Take c r a \<Rightarrow> [r] | _ \<Rightarrow> []) ps)"

fun pulled :: "ur_command \<Rightarrow> (address \<times> address \<times> int) list" where
  "pulled (Permit2TransferFrom t r a) = [(t, r, a)]"
| "pulled c = []"

fun draws :: "ur_command \<Rightarrow> bool" where
  "draws (V3Swap r a m p payer_is_user) = payer_is_user"
| "draws (V2Swap r a m p payer_is_user) = payer_is_user"
| "draws (V4Swap ps) = list_ex (\<lambda>p. case p of V4Settle c a payer_is_user \<Rightarrow> payer_is_user | _ \<Rightarrow> False) ps"
| "draws c = False"

fun is_portion :: "ur_command \<Rightarrow> bool" where
  "is_portion (PayPortion t r b) = True"
| "is_portion c = False"

fun command_min :: "ur_command \<Rightarrow> int option" where
  "command_min (V3Swap r a m p u) = Some m"
| "command_min (V2Swap r a m p u) = Some m"
| "command_min (Sweep t r m) = Some m"
| "command_min (UnwrapWeth r m) = Some m"
| "command_min (V4Swap [V4Settle c a u, V4SwapExactInSingle k z b m, V4Take c' r a']) = Some m"
| "command_min c = None"

text \<open>
  A command that moves funds inside the router only: no fee, nothing pulled or drawn from the wallet,
  all to \<open>ADDRESS_THIS\<close>; a swap among them has a minimum.
\<close>

definition bounded :: "ur_command \<Rightarrow> bool" where
  "bounded c \<longleftrightarrow> is_swap c \<longrightarrow> command_min c \<noteq> None"

definition internal :: "ur_command \<Rightarrow> bool" where
  "internal c \<longleftrightarrow> set (pays c) \<subseteq> {ADDRESS_THIS} \<and> pulled c = [] \<and> \<not> draws c \<and> \<not> is_portion c \<and> bounded c"

lemma hop_command_Inr:
  assumes "hop_command h r m = Inr c"
  shows "is_swap c \<and> pays c = [r] \<and> pulled c = [] \<and> \<not> draws c \<and> \<not> is_portion c \<and> command_min c = Some m"
  using assms by (cases "p_venue (hop_pool h)") (auto simp: hop_command_def Let_def bindr_eq_Inr)

lemma rewrap_internal [simp]: "internal (rewrap held)" "\<not> is_swap (rewrap held)"
  by (simp_all add: rewrap_def internal_def bounded_def)

lemma wrap_internal [simp]: "internal (WrapEth ADDRESS_THIS a)" "internal (UnwrapWeth ADDRESS_THIS m)"
  by (simp_all add: internal_def bounded_def)

lemma hop_command_internal: "hop_command h ADDRESS_THIS m = Inr c \<Longrightarrow> internal c"
  by (drule hop_command_Inr) (simp add: internal_def bounded_def)

text \<open>
  The hops of a plan append internal commands; when the last hop delivers the output itself, it
  is the last command and its slot is the one returned.
\<close>

definition ends_paying :: "ur_command list \<Rightarrow> bool" where
  "ends_paying new \<longleftrightarrow> new \<noteq> [] \<and> list_all internal (butlast new) \<and> pays (last new) = [MSG_SENDER] \<and>
     pulled (last new) = [] \<and> \<not> draws (last new) \<and> \<not> is_portion (last new) \<and> command_min (last new) \<noteq> None"

lemma plan_hops_shape:
  "plan_hops leg out hs (c0, held, None) = Inr (c1, held1, slot) \<Longrightarrow>
   \<exists>new. c1 = c0 @ new \<and>
     (case slot of None \<Rightarrow> list_all internal new
      | Some k \<Rightarrow> leg = FeeInput \<and> k = length c0 + length new - 1 \<and> ends_paying new)"
proof (induction hs arbitrary: c0 held)
  case Nil
  then show ?case by simp
next
  case (Cons h hs)
  define pre where "pre = (if hop_in h \<noteq> held then [rewrap held] else [])"
  have pre: "list_all internal pre" by (simp add: pre_def)
  have cc: "(if hop_in h \<noteq> held then c0 @ [rewrap held] else c0) = c0 @ pre"
    by (simp add: pre_def)
  define direct where "direct \<longleftrightarrow> hs = [] \<and> leg = FeeInput \<and> hop_out h = out"
  from Cons.prems obtain c where
    c: "hop_command h (if direct then MSG_SENDER else ADDRESS_THIS) 0 = Inr c" and
    rest: "plan_hops leg out hs (c0 @ pre @ [c], hop_out h,
      if direct then Some (length (c0 @ pre)) else None) = Inr (c1, held1, slot)"
    by (auto simp: Let_def bindr_eq_Inr cc direct_def)
  show ?case
  proof (cases direct)
    case True
    with rest have "c1 = c0 @ pre @ [c]" "slot = Some (length (c0 @ pre))" by (auto simp: direct_def)
    moreover have "ends_paying (pre @ [c])"
      using hop_command_Inr [OF c] True pre by (simp add: ends_paying_def butlast_append)
    ultimately show ?thesis
      using True by (intro exI [of _ "pre @ [c]"]) (simp add: direct_def)
  next
    case False
    then have "internal c" using c by (auto dest: hop_command_internal)
    moreover from Cons.IH [of "c0 @ pre @ [c]" "hop_out h"] rest False obtain new where
      new: "c1 = (c0 @ pre @ [c]) @ new"
        "case slot of None \<Rightarrow> list_all internal new
         | Some k \<Rightarrow> leg = FeeInput \<and> k = length (c0 @ pre @ [c]) + length new - 1 \<and> ends_paying new"
      by auto
    ultimately show ?thesis
      using pre by (intro exI [of _ "pre @ [c] @ new"])
        (auto simp: ends_paying_def butlast_append split: option.splits)
  qed
qed

text \<open>
  What a plan promises about its commands: \<open>pull\<close> is all they have Permit2 pull from the wallet, and
  none of them makes the wallet pay otherwise; exactly one command pays the policy's fee, and the
  wallet is paid by the last command only, the one that holds the minimum.
\<close>

definition custodial :: "tx_policy \<Rightarrow> (address \<times> address \<times> int) list \<Rightarrow> ur_command list \<Rightarrow> nat \<Rightarrow> bool" where
  "custodial policy pull commands slot \<longleftrightarrow>
     commands \<noteq> [] \<and> slot = length commands - 1 \<and>
     pays (last commands) = [MSG_SENDER] \<and> command_min (last commands) \<noteq> None \<and>
     concat (map pulled commands) = pull \<and> list_all (\<lambda>c. \<not> draws c) commands \<and>
     length (filter is_portion commands) = 1 \<and> list_all bounded commands \<and>
     (\<forall>c \<in> set (butlast commands). if is_portion c
        then pays c = [fee_recipient policy] \<and> (\<exists>t. c = PayPortion t (fee_recipient policy) (fee_bps policy))
        else set (pays c) \<subseteq> {ADDRESS_THIS})"

lemma internal_pulled: "list_all internal cs \<Longrightarrow> concat (map pulled cs) = []"
  by (induction cs) (auto simp: internal_def)

lemma internal_draws: "list_all internal cs \<Longrightarrow> list_all (\<lambda>c. \<not> draws c) cs"
  by (auto simp: list_all_iff internal_def)

lemma internal_portions: "list_all internal cs \<Longrightarrow> filter is_portion cs = []"
  by (induction cs) (auto simp: internal_def)

definition is_fee_of :: "tx_policy \<Rightarrow> ur_command \<Rightarrow> bool" where
  "is_fee_of policy c \<longleftrightarrow> (\<exists>t. c = PayPortion t (fee_recipient policy) (fee_bps policy))"

text \<open>One fee command between internal ones, after the pull and before a paying last command.\<close>

lemma custodialI:
  assumes pull: "pull = [] \<or> pull = [Permit2TransferFrom t ADDRESS_THIS a]"
    and mid: "list_all internal A" "list_all internal B" and fee: "is_fee_of policy f"
    and pays: "pays z = [MSG_SENDER]" "pulled z = []" "\<not> draws z" "\<not> is_portion z" "command_min z \<noteq> None"
  shows "custodial policy (if pull = [] then [] else [(t, ADDRESS_THIS, a)]) (pull @ A @ f # B @ [z]) (length pull + length A + length B + 1)"
proof -
  let ?cs = "pull @ A @ f # B @ [z]"
  have bl: "butlast ?cs = pull @ A @ f # B" by (simp add: butlast_append)
  have l: "last ?cs = z" by simp
  from fee obtain t' where f: "f = PayPortion t' (fee_recipient policy) (fee_bps policy)"
    by (auto simp: is_fee_of_def)
  have "\<forall>c \<in> set (pull @ A @ f # B). if is_portion c
        then pays c = [fee_recipient policy] \<and> (\<exists>t. c = PayPortion t (fee_recipient policy) (fee_bps policy))
        else set (pays c) \<subseteq> {ADDRESS_THIS}"
    using pull mid f by (auto simp: list_all_iff internal_def)
  moreover have "concat (map pulled ?cs) = (if pull = [] then [] else [(t, ADDRESS_THIS, a)])"
    using pull internal_pulled [OF mid(1)] internal_pulled [OF mid(2)] pays(2) by (auto simp: f)
  moreover have "list_all (\<lambda>c. \<not> draws c) ?cs"
    using pull internal_draws [OF mid(1)] internal_draws [OF mid(2)] pays(3) by (auto simp: f)
  moreover have "length (filter is_portion ?cs) = 1"
    using pull mid pays(4) by (auto simp: internal_portions f)
  moreover have "list_all bounded ?cs"
    using pull mid pays(5) by (auto simp: list_all_iff internal_def f bounded_def)
  ultimately show ?thesis
    unfolding custodial_def bl l using pays by simp
qed

definition pull_commands :: "swap_intent \<Rightarrow> ur_command list" where
  "pull_commands i =
     (if intent_in i = NATIVE then [] else [Permit2TransferFrom (intent_in i) ADDRESS_THIS (si_amount_in i)])"

lemma pull_commands_cases:
  "pull_commands i = [] \<or> pull_commands i = [Permit2TransferFrom (intent_in i) ADDRESS_THIS (si_amount_in i)]"
  by (simp add: pull_commands_def)

lemma pull_commands_Nil [simp]: "pull_commands i = [] \<longleftrightarrow> intent_in i = NATIVE"
  by (simp add: pull_commands_def)

lemma portion_is_fee [simp]: "is_fee_of policy (PayPortion t (fee_recipient policy) (fee_bps policy))"
  by (simp add: is_fee_of_def)

lemma fee_commands_simps [simp]:
  "fee_commands point point held policy = [PayPortion held (fee_recipient policy) (fee_bps policy)]"
  "fee_commands FeeInput FeeOutput held policy = []" "fee_commands FeeOutput FeeInput held policy = []"
  by (simp_all add: fee_commands_def)

text \<open>All that is pulled for an order: its input, once, into the router.\<close>

definition order_pull :: "swap_intent \<Rightarrow> (address \<times> address \<times> int) list" where
  "order_pull i = (if intent_in i = NATIVE then [] else [(intent_in i, ADDRESS_THIS, si_amount_in i)])"

definition good_swap_plan :: "tx_policy \<Rightarrow> swap_intent \<Rightarrow> split option \<Rightarrow> plan \<Rightarrow> bool" where
  "good_swap_plan policy i split p \<longleftrightarrow>
    (\<exists>commands slot shape. pl_body p = SwapBody commands slot shape split \<and> pl_to p = UR \<and>
       pl_value p = (if intent_in i = NATIVE then si_amount_in i else 0) \<and>
       custodial policy (order_pull i) commands slot)"

lemma universal_plan_good:
  assumes "universal_plan lib i r policy deadline nonce = Inr p"
  shows "good_swap_plan policy i None p"
proof -
  let ?leg = "intent_fee_leg i"
  let ?pre = "pull_commands i @ fee_commands FeeInput ?leg (intent_in i) policy"
  have pull: "(if intent_in i = NATIVE then [] else [Permit2TransferFrom (intent_in i) ADDRESS_THIS (si_amount_in i)])
    = pull_commands i" by (simp add: pull_commands_def)
  from assms obtain st where step: "bindr (lift_py (plan_hops ?leg (intent_out i) r (?pre, intent_in i, None)))
      (\<lambda>(commands, held, slot).
       let wrap = (?leg = FeeOutput \<and> intent_out i = WETH \<and> held = NATIVE);
           commands1 = (if wrap then commands @ [WrapEth ADDRESS_THIS CONTRACT_BALANCE] else commands);
           held1 = (if wrap then WETH else held);
           commands2 = (if ?leg = FeeOutput then
               commands1 @ [PayPortion held1 (fee_recipient policy) (fee_bps policy),
                            if intent_out i = NATIVE \<and> held1 = WETH then UnwrapWeth MSG_SENDER 0
                            else Sweep held1 MSG_SENDER 0]
             else commands1);
           slot' = (if ?leg = FeeOutput then Some (length commands2 - 1) else slot)
       in case slot' of
            None \<Rightarrow> Inl (TxError ''internal'' ''plan has no min_out slot'')
          | Some k \<Rightarrow>
              Inr \<lparr>pl_to = UR, pl_value = (if intent_in i = NATIVE then si_amount_in i else 0), pl_deadline = deadline,
                   pl_body = SwapBody commands2 k
                     \<lparr>ss_wallet = si_wallet i, ss_route = r, ss_currency_in = intent_in i,
                      ss_currency_out = intent_out i, ss_amount_in = si_amount_in i, ss_fee_leg = ?leg,
                      ss_fee_currency = (if ?leg = FeeOutput then held1 else intent_in i),
                      ss_fee_recipient = fee_recipient policy, ss_fee_bps = fee_bps policy\<rparr> None,
                   pl_approvals = (if intent_in i = NATIVE then []
                     else [\<lparr>an_token = intent_in i, an_spender = PERMIT2, an_approve_amount = MAX_UINT256,
                            an_required = si_amount_in i\<rparr>]),
                   pl_permit = (if intent_in i = NATIVE then None
                     else Some (SinglePermit \<lparr>ps_details = \<lparr>pd_token = intent_in i, pd_amount = si_amount_in i,
                       pd_expiration = deadline, pd_nonce = nonce\<rparr>, ps_spender = UR, ps_sig_deadline = deadline\<rparr>)),
                   pl_staging = st, pl_signature = None\<rparr>) = Inr p"
    unfolding universal_plan_def Let_def pull by (rule bindr_InrE)
  from step obtain res where
    "lift_py (plan_hops ?leg (intent_out i) r (?pre, intent_in i, None)) = Inr res" by (rule bindr_InrE)
  then obtain commands held slot where
    hops: "plan_hops ?leg (intent_out i) r (?pre, intent_in i, None) = Inr (commands, held, slot)"
    by (cases res) (auto simp: lift_py_eq_Inr)
  obtain new where new: "commands = ?pre @ new"
    "case slot of None \<Rightarrow> list_all internal new
     | Some k \<Rightarrow> ?leg = FeeInput \<and> k = length ?pre + length new - 1 \<and> ends_paying new"
    using plan_hops_shape [OF hops] by auto
  show ?thesis
  proof (cases "?leg")
    case FeeInput
    with step hops obtain k where k: "slot = Some k"
      by (cases slot) (auto simp: Let_def)
    with new have ep: "ends_paying new" and kk: "k = length ?pre + length new - 1" by auto
    obtain B z where Bz: "new = B @ [z]" using ep by (cases new rule: rev_cases) (auto simp: ends_paying_def)
    have "custodial policy (if pull_commands i = [] then [] else [(intent_in i, ADDRESS_THIS, si_amount_in i)])
        (pull_commands i @ [] @ PayPortion (intent_in i) (fee_recipient policy) (fee_bps policy) # B @ [z])
        (length (pull_commands i) + length ([] :: ur_command list) + length B + 1)"
      using pull_commands_cases ep by (intro custodialI) (auto simp: Bz ends_paying_def)
    then show ?thesis
      using step hops k kk FeeInput unfolding good_swap_plan_def order_pull_def
      by (auto simp: Let_def new(1) Bz)
  next
    case FeeOutput
    with new have int: "list_all internal new" by (auto split: option.splits)
    define wrap where "wrap \<longleftrightarrow> intent_out i = WETH \<and> held = NATIVE"
    define A where "A = new @ (if wrap then [WrapEth ADDRESS_THIS CONTRACT_BALANCE] else [])"
    define held1 where "held1 = (if wrap then WETH else held)"
    define z where "z = (if intent_out i = NATIVE \<and> held1 = WETH then UnwrapWeth MSG_SENDER 0 else Sweep held1 MSG_SENDER 0)"
    have "custodial policy (if pull_commands i = [] then [] else [(intent_in i, ADDRESS_THIS, si_amount_in i)])
        (pull_commands i @ A @ PayPortion held1 (fee_recipient policy) (fee_bps policy) # [] @ [z])
        (length (pull_commands i) + length A + length ([] :: ur_command list) + 1)"
      using pull_commands_cases int by (intro custodialI) (auto simp: A_def z_def)
    moreover have "(\<exists>sh. pl_body p = SwapBody
        (pull_commands i @ A @ PayPortion held1 (fee_recipient policy) (fee_bps policy) # [] @ [z])
        (length (pull_commands i) + length A + length ([] :: ur_command list) + 1) sh None) \<and> pl_to p = UR \<and>
        pl_value p = (if intent_in i = NATIVE then si_amount_in i else 0)"
      using step hops FeeOutput new(1)
      by (auto simp: Let_def A_def held1_def z_def wrap_def)
    ultimately show ?thesis
      unfolding good_swap_plan_def pull_commands_Nil order_pull_def by blast
  qed
qed

text \<open>A leg of a split is internal throughout and swaps once per hop.\<close>

definition swaps_of :: "ur_command list \<Rightarrow> nat" where
  "swaps_of cs = length (filter is_swap cs)"

lemma swaps_of_simps [simp]:
  "swaps_of [] = 0" "swaps_of (c # cs) = (if is_swap c then 1 else 0) + swaps_of cs"
  "swaps_of (as @ bs) = swaps_of as + swaps_of bs"
  by (simp_all add: swaps_of_def)

lemma with_share_swap:
  assumes "hop_command h r m = Inr c"
  shows "is_swap (with_share s c) \<and> pays (with_share s c) = [r] \<and> pulled (with_share s c) = [] \<and>
    \<not> draws (with_share s c) \<and> \<not> is_portion (with_share s c) \<and> command_min (with_share s c) = Some m"
  using assms by (cases "p_venue (hop_pool h)") (auto simp: hop_command_def Let_def bindr_eq_Inr with_share_def)

lemma split_leg_hops_shape:
  "split_leg_hops share first hs held = Inr (cs, held') \<Longrightarrow>
   list_all internal cs \<and> swaps_of cs = length hs"
proof (induction hs arbitrary: first held cs)
  case Nil
  then show ?case by simp
next
  case (Cons h hs)
  from Cons.prems obtain c rest where
    c: "hop_command h ADDRESS_THIS 0 = Inr c" and
    rest: "split_leg_hops share False hs (hop_out h) = Inr (rest, held')" and
    cs: "cs = (if hop_in h \<noteq> held
                then [if held = NATIVE then WrapEth ADDRESS_THIS (if first then share else CONTRACT_BALANCE)
                      else UnwrapWeth ADDRESS_THIS 0]
                else []) @ (if first then with_share share c else c) # rest"
    by (auto simp: Let_def bindr_eq_Inr)
  have "internal (if first then with_share share c else c)" "is_swap (if first then with_share share c else c)"
    using hop_command_Inr [OF c] with_share_swap [OF c, of share] by (auto simp: internal_def bounded_def)
  with Cons.IH [OF rest] cs show ?case by auto
qed

lemma split_tail_internal: "list_all internal (split_tail held out) \<and> swaps_of (split_tail held out) = 0"
  by (simp add: split_tail_def)

definition hops_of :: "split_leg list \<Rightarrow> nat" where
  "hops_of legs = sum_list (map (\<lambda>l. length (sl_route l)) legs)"

lemma split_commands_shape:
  "split_commands i net al legs = Inr cs \<Longrightarrow> list_all internal cs \<and> swaps_of cs = hops_of legs"
proof (induction legs arbitrary: al cs)
  case Nil
  then show ?case by (simp add: hops_of_def)
next
  case (Cons leg legs)
  then obtain share cs1 held rest where
    "split_leg_hops share True (sl_route leg) (intent_in i) = Inr (cs1, held)"
    "split_commands i net (al + share) legs = Inr rest"
    "cs = cs1 @ split_tail held (intent_out i) @ rest"
    by (auto simp: Let_def bindr_eq_Inr lift_py_eq_Inr split: if_splits)
  then show ?case
    using Cons.IH [of "al + share" rest] split_leg_hops_shape split_tail_internal
    by (fastforce simp: hops_of_def)
qed

lemma plan_swap_universal:
  "plan_swap lib i r policy deadline nonce = Inr p \<Longrightarrow> pl_body p = SwapBody c k sh sp \<Longrightarrow>
   universal_plan lib i r policy deadline nonce = Inr p"
  by (auto simp: plan_swap_def router_plan_def Let_def lift_py_eq_Inr bindr_eq_Inr split: if_splits option.splits)

text \<open>The commands of a plan over several legs.\<close>

lemma plan_split_parts:
  assumes "plan_split lib i split policy deadline nonce = Inr p" and "length split \<noteq> 1"
  obtains body base shape where
    "split_commands i (si_amount_in i - (if intent_fee_leg i = FeeInput then floor_bps (si_amount_in i) (fee_bps policy) else 0))
       0 split = Inr body"
    and "good_swap_plan policy i None base"
    and "sum_list (map sl_amount_in split) = si_amount_in i"
    and "let paid_in = (if intent_out i = NATIVE then WETH else intent_out i);
           commands = pull_commands i @ fee_commands FeeInput (intent_fee_leg i) (intent_in i) policy @ body @
             fee_commands FeeOutput (intent_fee_leg i) paid_in policy @
             [if intent_out i = NATIVE then UnwrapWeth MSG_SENDER 0 else Sweep paid_in MSG_SENDER 0]
         in p = base\<lparr>pl_body := SwapBody commands (length commands - 1) shape (Some split)\<rparr>"
proof -
  have pull: "(if intent_in i \<noteq> NATIVE then [Permit2TransferFrom (intent_in i) ADDRESS_THIS (si_amount_in i)] else [])
    = pull_commands i" by (simp add: pull_commands_def)
  from assms have sum: "sum_list (map sl_amount_in split) = si_amount_in i"
    by (auto simp: plan_split_def split: if_splits)
  from assms sum obtain base where
    base: "plan_swap lib i (sl_route (hd split)) policy deadline nonce = Inr base"
    by (cases "plan_swap lib i (sl_route (hd split)) policy deadline nonce") (auto simp: plan_split_def)
  obtain c k sh sp where b: "pl_body base = SwapBody c k sh sp"
    using assms sum base by (cases "pl_body base") (auto simp: plan_split_def)
  have good: "good_swap_plan policy i None base"
    using plan_swap_universal [OF base b] by (rule universal_plan_good)
  then have to: "pl_to base = UR" by (auto simp: good_swap_plan_def)
  show ?thesis
  proof (cases "split_commands i (si_amount_in i - (if intent_fee_leg i = FeeInput then floor_bps (si_amount_in i) (fee_bps policy) else 0)) 0 split")
    case (Inl e)
    with assms sum base b to show ?thesis by (simp add: plan_split_def Let_def)
  next
    case (Inr body)
    show ?thesis
      by (rule that [of body base "if intent_fee_leg i = FeeOutput
          then sh\<lparr>ss_fee_currency := (if intent_out i = NATIVE then WETH else intent_out i)\<rparr> else sh",
          OF Inr good sum])
        (use assms sum base b to Inr in \<open>simp add: plan_split_def Let_def pull\<close>)
  qed
qed

lemma plan_split_good:
  assumes "plan_split lib i split policy deadline nonce = Inr p" and "length split \<noteq> 1"
  shows "good_swap_plan policy i (Some split) p"
proof -
  from assms obtain body base shape where
    body: "split_commands i (si_amount_in i - (if intent_fee_leg i = FeeInput then floor_bps (si_amount_in i) (fee_bps policy) else 0))
       0 split = Inr body"
    and base: "good_swap_plan policy i None base"
    and p: "let paid_in = (if intent_out i = NATIVE then WETH else intent_out i);
           commands = pull_commands i @ fee_commands FeeInput (intent_fee_leg i) (intent_in i) policy @ body @
             fee_commands FeeOutput (intent_fee_leg i) paid_in policy @
             [if intent_out i = NATIVE then UnwrapWeth MSG_SENDER 0 else Sweep paid_in MSG_SENDER 0]
         in p = base\<lparr>pl_body := SwapBody commands (length commands - 1) shape (Some split)\<rparr>"
    by (rule plan_split_parts)
  have int: "list_all internal body" using split_commands_shape [OF body] by simp
  define paid_in where "paid_in = (if intent_out i = NATIVE then WETH else intent_out i)"
  define z where "z = (if intent_out i = NATIVE then UnwrapWeth MSG_SENDER 0 else Sweep paid_in MSG_SENDER 0)"
  have z: "pays z = [MSG_SENDER]" "pulled z = []" "\<not> draws z" "\<not> is_portion z" "command_min z \<noteq> None"
    by (auto simp: z_def)
  show ?thesis
  proof (cases "intent_fee_leg i")
    case FeeInput
    have "custodial policy (if pull_commands i = [] then [] else [(intent_in i, ADDRESS_THIS, si_amount_in i)])
        (pull_commands i @ [] @ PayPortion (intent_in i) (fee_recipient policy) (fee_bps policy) # body @ [z])
        (length (pull_commands i) + length ([] :: ur_command list) + length body + 1)"
      using pull_commands_cases int z by (intro custodialI) auto
    with p base FeeInput show ?thesis
      by (auto simp: good_swap_plan_def order_pull_def Let_def paid_in_def [symmetric] z_def [symmetric])
  next
    case FeeOutput
    have "custodial policy (if pull_commands i = [] then [] else [(intent_in i, ADDRESS_THIS, si_amount_in i)])
        (pull_commands i @ body @ PayPortion paid_in (fee_recipient policy) (fee_bps policy) # [] @ [z])
        (length (pull_commands i) + length body + length ([] :: ur_command list) + 1)"
      using pull_commands_cases int z by (intro custodialI) auto
    with p base FeeOutput show ?thesis
      by (auto simp: good_swap_plan_def order_pull_def Let_def paid_in_def [symmetric] z_def [symmetric])
  qed
qed

lemma swap_plan_custody_aux:
  assumes "plan_split lib i split policy deadline nonce = Inr p"
    and "pl_body p = SwapBody commands slot shape recorded"
  shows "custodial policy (order_pull i) commands slot \<and>
    (pl_value p = (if intent_in i = NATIVE then si_amount_in i else 0)) \<and> pl_to p = UR"
proof -
  have "\<exists>sp. good_swap_plan policy i sp p"
  proof (cases "length split = 1")
    case True
    with assms(1) have "plan_swap lib i (sl_route (hd split)) policy deadline nonce = Inr p"
      by (simp add: plan_split_def)
    then show ?thesis using plan_swap_universal universal_plan_good assms(2) by blast
  next
    case False
    then show ?thesis using plan_split_good assms(1) by blast
  qed
  with assms(2) show ?thesis by (auto simp: good_swap_plan_def)
qed

text \<open>
  C7. A swap plan for the Universal Router keeps custody of the funds, whole order or split: a native
  input is sent along and nothing is pulled; of a token, Permit2 pulls the order's input once and
  completely into the router, and no swap or settlement makes the wallet pay again. Exactly one
  command pays a fee and it is the policy's recipient and rate, all other commands keep the funds in
  the router, and the wallet is paid by the last command only, the one with the minimum slot.
\<close>

theorem swap_plan_custody:
  assumes "plan_split lib i split policy deadline nonce = Inr p"
    and "pl_body p = SwapBody commands slot shape recorded"
  shows "custodial policy (order_pull i) commands slot \<and>
    (pl_value p = (if intent_in i = NATIVE then si_amount_in i else 0)) \<and> pl_to p = UR"
  using assms by (rule swap_plan_custody_aux)

definition sample_intent :: swap_intent where
  "sample_intent = \<lparr>si_wallet = ''0xcc'', si_side = Buy, si_token = ''0xff'', si_quote_currency = NATIVE,
     si_amount_in = 1000, si_slippage_bps = 50\<rparr>"

definition sample_policy :: tx_policy where
  "sample_policy = \<lparr>fee_bps = 100, fee_recipient = ''0xdd'', max_impact_bps = 1500, quote_ttl_s = 60\<rparr>"

definition sample_commands :: "ur_command list" where
  "sample_commands =
    [PayPortion NATIVE ''0xdd'' 100,
     WrapEth ADDRESS_THIS 594, V2Swap ADDRESS_THIS 594 0 [WETH, ''0xff''] False,
     WrapEth ADDRESS_THIS 396, V2Swap ADDRESS_THIS 396 0 [WETH, ''0xff''] False,
     Sweep ''0xff'' MSG_SENDER 0]"

definition sample_plan :: plan where
  "sample_plan = \<lparr>pl_to = UR, pl_value = 1000, pl_deadline = 77,
     pl_body = SwapBody sample_commands 5 sample_shape (Some sample_split),
     pl_approvals = [], pl_permit = None, pl_staging = [], pl_signature = None\<rparr>"

lemma sample_same_asset [simp]: "same_asset WETH NATIVE" "same_asset a a"
  by (auto simp: same_asset_def)

lemma sample_plan_split:
  "plan_split lib sample_intent sample_split sample_policy 77 5 = Inr sample_plan"
proof -
  have not_router: "router_for (sl_route (sample_leg 600 70)) = None"
    by (simp add: router_for_def sample_leg_def sample_v2_def V3_ROUTER_BY_FACTORY_def)
  note defs = sample_intent_def intent_in_def intent_out_def intent_fee_leg_def
  have "\<exists>base c k sh. plan_swap lib sample_intent (sl_route (sample_leg 600 70)) sample_policy 77 5 = Inr base \<and>
      base = \<lparr>pl_to = UR, pl_value = 1000, pl_deadline = 77, pl_body = SwapBody c k sample_shape None,
        pl_approvals = [], pl_permit = None, pl_staging = [], pl_signature = None\<rparr>"
    using not_router
    by (simp add: plan_swap_def universal_plan_def defs sample_leg_def route_in_def route_out_def
        sample_shape_def sample_policy_def hop_command_def sample_v2_def fee_commands_def Let_def)
  then show ?thesis
    by (auto simp: plan_split_def sample_split_def defs sample_plan_def sample_commands_def sample_policy_def
        sample_leg_def route_in_def route_out_def leg_share_def floor_bps_def hop_command_def sample_v2_def
        split_tail_def with_share_def Let_def)
qed

theorem swap_plan_custody_witness:
  "custodial sample_policy (order_pull sample_intent) sample_commands 5 \<and>
    (pl_value sample_plan = (if intent_in sample_intent = NATIVE then si_amount_in sample_intent else 0)) \<and>
    pl_to sample_plan = UR"
  by (rule swap_plan_custody [OF sample_plan_split, of sample_commands 5 sample_shape "Some sample_split"])
    (simp add: sample_plan_def)

section \<open>Minimums\<close>

text \<open>\<open>unbound\<close> forgets a command's minimum; finalising changes nothing else.\<close>

definition unbound :: "ur_command \<Rightarrow> ur_command" where
  "unbound c = (case with_min_out c 0 of Inr c' \<Rightarrow> c' | Inl _ \<Rightarrow> c)"

lemma with_min_out_Inr:
  assumes "with_min_out c v = Inr c'"
  shows "unbound c' = unbound c \<and> is_swap c' = is_swap c \<and>
    (command_min c \<noteq> None \<longrightarrow> command_min c' = Some v)"
proof (cases c)
  case (V4Swap ps)
  with assms have c': "c' = V4Swap (map (\<lambda>p. case p of V4SwapExactInSingle k z a m \<Rightarrow> V4SwapExactInSingle k z a v | _ \<Rightarrow> p) ps)"
    by simp
  have "map (\<lambda>p. case p of V4SwapExactInSingle k z a m \<Rightarrow> V4SwapExactInSingle k z a 0 | _ \<Rightarrow> p)
      (map (\<lambda>p. case p of V4SwapExactInSingle k z a m \<Rightarrow> V4SwapExactInSingle k z a v | _ \<Rightarrow> p) ps) =
     map (\<lambda>p. case p of V4SwapExactInSingle k z a m \<Rightarrow> V4SwapExactInSingle k z a 0 | _ \<Rightarrow> p) ps"
    by (auto split: v4_param.splits)
  moreover have "command_min c \<noteq> None \<longrightarrow> command_min c' = Some v"
    unfolding V4Swap c' by (cases "V4Swap ps" rule: command_min.cases) auto
  ultimately show ?thesis
    using V4Swap c' by (simp add: unbound_def)
qed (use assms in \<open>auto simp: unbound_def\<close>)

lemma with_min_out_defined: "command_min c \<noteq> None \<Longrightarrow> \<exists>c'. with_min_out c v = Inr c'"
  by (cases c) auto

lemma is_swap_unbound: "is_swap (unbound c) = is_swap c"
  by (cases c) (auto simp: unbound_def)

lemma command_min_unbound: "(command_min (unbound c) = None) = (command_min c = None)"
  by (cases c rule: command_min.cases) (auto simp: unbound_def split: v4_param.splits list.splits)

lemma set_min_out_Inr:
  assumes "set_min_out cs i v = Inr cs'"
  shows "i < length cs \<and> length cs' = length cs \<and> map unbound cs' = map unbound cs \<and>
    (\<forall>j. j \<noteq> i \<longrightarrow> cs' ! j = cs ! j) \<and>
    (command_min (cs ! i) \<noteq> None \<longrightarrow> command_min (cs' ! i) = Some v)"
proof -
  from assms obtain c' where i: "i < length cs" and c': "with_min_out (cs ! i) v = Inr c'" and
    cs': "cs' = cs[i := c']"
    by (auto simp: set_min_out_def item_def bindr_eq_Inr lift_py_eq_Inr split: if_splits)
  have "map unbound cs' = map unbound cs"
    using with_min_out_Inr [OF c'] i unfolding cs' by (simp add: map_update list_update_same_conv)
  then show ?thesis using i cs' with_min_out_Inr [OF c'] by simp
qed

lemma bounded_unbound: "map unbound cs' = map unbound cs \<Longrightarrow> list_all bounded cs' = list_all bounded cs"
proof -
  have b: "bounded c \<longleftrightarrow> bounded (unbound c)" for c
    by (simp add: bounded_def is_swap_unbound command_min_unbound)
  have "list_all bounded cs \<longleftrightarrow> list_all bounded (map unbound cs)" for cs
    by (induction cs) (auto simp: b [symmetric])
  then show "map unbound cs' = map unbound cs \<Longrightarrow> ?thesis" by metis
qed

lemma swap_indices_unbound: "map unbound cs' = map unbound cs \<Longrightarrow> swap_indices cs' = swap_indices cs"
proof -
  assume eq: "map unbound cs' = map unbound cs"
  then have len: "length cs' = length cs" by (metis length_map)
  have "is_swap (cs' ! i) = is_swap (cs ! i)" if "i < length cs" for i
    using eq that len by (metis is_swap_unbound nth_map)
  then show ?thesis
    unfolding swap_indices_def len by (auto intro: filter_cong)
qed

lemma length_swap_indices: "length (swap_indices cs) = swaps_of cs"
  unfolding swap_indices_def swaps_of_def
  by (metis filter_map length_map map_nth o_def [symmetric])

text \<open>The position of each leg's last swap among the swaps, and the minimum each leg gets.\<close>

fun leg_ends :: "nat \<Rightarrow> split_leg list \<Rightarrow> nat list" where
  "leg_ends count [] = []"
| "leg_ends count (leg # legs) =
     (count + length (sl_route leg) - 1) # leg_ends (count + length (sl_route leg)) legs"

fun leg_bounds :: "int \<Rightarrow> int \<Rightarrow> int \<Rightarrow> split_leg list \<Rightarrow> int list" where
  "leg_bounds m t assigned [] = []"
| "leg_bounds m t assigned (leg # legs) =
    (let b = leg_bound m t assigned (legs = []) leg in b # leg_bounds m t (assigned + b) legs)"

lemma sum_leg_bounds: "legs \<noteq> [] \<Longrightarrow> assigned + sum_list (leg_bounds m t assigned legs) = m"
proof (induction legs arbitrary: assigned)
  case Nil
  then show ?case by simp
next
  case (Cons leg legs)
  then show ?case
    by (cases "legs = []") (auto simp: Let_def leg_bound_def add.assoc [symmetric])
qed

lemma leg_ends_ge: "\<forall>l \<in> set legs. sl_route l \<noteq> [] \<Longrightarrow> e \<in> set (leg_ends count legs) \<Longrightarrow> count \<le> e"
proof (induction legs arbitrary: count)
  case Nil
  then show ?case by simp
next
  case (Cons leg legs)
  then have "1 \<le> length (sl_route leg)" by (simp add: Suc_leI)
  with Cons show ?case by fastforce
qed

lemma leg_ends_less: "\<forall>l \<in> set legs. sl_route l \<noteq> [] \<Longrightarrow> e \<in> set (leg_ends count legs) \<Longrightarrow> e < count + hops_of legs"
proof (induction legs arbitrary: count)
  case Nil
  then show ?case by simp
next
  case (Cons leg legs)
  then have "1 \<le> length (sl_route leg)" by (simp add: Suc_leI)
  with Cons show ?case by (fastforce simp: hops_of_def)
qed

lemma bound_legs_Inr:
  assumes "bound_legs m t idx count assigned legs cs = Inr cs'"
    and "distinct idx" and "\<forall>l \<in> set legs. sl_route l \<noteq> []"
    and "\<forall>i \<in> set idx. i < length cs \<and> command_min (cs ! i) \<noteq> None"
  shows "length cs' = length cs \<and> map unbound cs' = map unbound cs \<and>
    (\<forall>e \<in> set (leg_ends count legs). e < length idx) \<and>
    (\<forall>j. (\<forall>e \<in> set (leg_ends count legs). j \<noteq> idx ! e) \<longrightarrow> cs' ! j = cs ! j) \<and>
    map (\<lambda>e. command_min (cs' ! (idx ! e))) (leg_ends count legs) = map Some (leg_bounds m t assigned legs)"
  using assms
proof (induction legs arbitrary: count assigned cs)
  case Nil
  then show ?case by simp
next
  case (Cons leg legs)
  define b where "b = leg_bound m t assigned (legs = []) leg"
  define e where "e = count + length (sl_route leg) - 1"
  from Cons.prems obtain cs1 where
    e: "e < length idx" and step: "set_min_out cs (idx ! e) b = Inr cs1" and
    rest: "bound_legs m t idx (count + length (sl_route leg)) (assigned + b) legs cs1 = Inr cs'"
    by (auto simp: Let_def bindr_eq_Inr lift_py_eq_Inr item_def b_def e_def split: if_splits)
  note s1 = set_min_out_Inr [OF step]
  have ne: "sl_route leg \<noteq> []" using Cons.prems by simp
  have later: "e < e'" if "e' \<in> set (leg_ends (count + length (sl_route leg)) legs)" for e'
    using leg_ends_ge [of legs e' "count + length (sl_route leg)"] that Cons.prems ne
    by (cases "sl_route leg") (auto simp: e_def)
  have inv: "\<forall>i \<in> set idx. i < length cs1 \<and> command_min (cs1 ! i) \<noteq> None"
    using Cons.prems(4) s1 by (metis option.distinct(1))
  note IH = Cons.IH [OF rest Cons.prems(2) _ inv]
  have keep: "cs' ! (idx ! e) = cs1 ! (idx ! e)"
  proof -
    have "\<forall>e' \<in> set (leg_ends (count + length (sl_route leg)) legs). idx ! e \<noteq> idx ! e'"
      using later e IH Cons.prems by (simp add: nth_eq_iff_index_eq) (metis less_irrefl)
    then show ?thesis using IH Cons.prems by simp
  qed
  have "command_min (cs' ! (idx ! e)) = Some b"
    using keep s1 Cons.prems(4) e by (metis nth_mem)
  moreover have "leg_ends count (leg # legs) = e # leg_ends (count + length (sl_route leg)) legs"
    by (simp add: e_def)
  moreover have "leg_bounds m t assigned (leg # legs) = b # leg_bounds m t (assigned + b) legs"
    by (simp add: b_def Let_def)
  ultimately show ?case
    using IH s1 e Cons.prems(3) by (auto simp del: leg_ends.simps leg_bounds.simps)
qed

lemma bound_legs_defined:
  assumes "\<forall>l \<in> set legs. sl_route l \<noteq> []" and "count + hops_of legs \<le> length idx"
    and "\<forall>i \<in> set idx. i < length cs \<and> command_min (cs ! i) \<noteq> None"
  shows "\<exists>cs'. bound_legs m t idx count assigned legs cs = Inr cs'"
  using assms
proof (induction legs arbitrary: count assigned cs)
  case Nil
  then show ?case by simp
next
  case (Cons leg legs)
  define b where "b = leg_bound m t assigned (legs = []) leg"
  define e where "e = count + length (sl_route leg) - 1"
  have "sl_route leg \<noteq> []" using Cons.prems by simp
  then have e: "e < length idx"
    using Cons.prems(2) by (cases "sl_route leg") (auto simp: e_def hops_of_def)
  then have i: "idx ! e < length cs" "command_min (cs ! (idx ! e)) \<noteq> None"
    using Cons.prems(3) nth_mem by blast+
  then obtain c' where "with_min_out (cs ! (idx ! e)) b = Inr c'" using with_min_out_defined by blast
  with i obtain cs1 where step: "set_min_out cs (idx ! e) b = Inr cs1"
    by (auto simp: set_min_out_def item_def)
  have "\<forall>i \<in> set idx. i < length cs1 \<and> command_min (cs1 ! i) \<noteq> None"
    using Cons.prems(3) set_min_out_Inr [OF step] by (metis option.distinct(1))
  then have "\<exists>cs'. bound_legs m t idx (count + length (sl_route leg)) (assigned + b) legs cs1 = Inr cs'"
    using Cons.prems by (intro Cons.IH) (auto simp: hops_of_def)
  with step e show ?case
    unfolding e_def b_def by (auto simp: Let_def item_def)
qed

lemma swap_indices_bounded:
  "list_all bounded cs \<Longrightarrow> \<forall>i \<in> set (swap_indices cs). i < length cs \<and> command_min (cs ! i) \<noteq> None"
  by (auto simp: swap_indices_def list_all_length bounded_def)

lemma distinct_swap_indices: "distinct (swap_indices cs)"
  by (simp add: swap_indices_def)

lemma plan_split_swaps:
  assumes "plan_split lib i split policy deadline nonce = Inr p" and "length split \<noteq> 1"
    and "pl_body p = SwapBody commands slot shape recorded"
  shows "\<not> is_swap (last commands) \<and> swaps_of commands = hops_of split \<and> recorded = Some split"
proof -
  from assms(1,2) obtain body base sh where
    body: "split_commands i (si_amount_in i - (if intent_fee_leg i = FeeInput then floor_bps (si_amount_in i) (fee_bps policy) else 0))
       0 split = Inr body"
    and p: "let paid_in = (if intent_out i = NATIVE then WETH else intent_out i);
           commands = pull_commands i @ fee_commands FeeInput (intent_fee_leg i) (intent_in i) policy @ body @
             fee_commands FeeOutput (intent_fee_leg i) paid_in policy @
             [if intent_out i = NATIVE then UnwrapWeth MSG_SENDER 0 else Sweep paid_in MSG_SENDER 0]
         in p = base\<lparr>pl_body := SwapBody commands (length commands - 1) sh (Some split)\<rparr>"
    by (rule plan_split_parts)
  have "swaps_of (pull_commands i) = 0" "\<And>pt held. swaps_of (fee_commands pt (intent_fee_leg i) held policy) = 0"
    by (simp_all add: pull_commands_def fee_commands_def)
  with p assms(3) split_commands_shape [OF body] show ?thesis
    by (auto simp: Let_def split: if_splits)
qed

lemma plan_split_single:
  "plan_split lib i split policy deadline nonce = Inr p \<Longrightarrow> length split = 1 \<Longrightarrow>
   pl_body p = SwapBody commands slot shape recorded \<Longrightarrow> good_swap_plan policy i None p"
  by (auto simp: plan_split_def intro: plan_swap_universal universal_plan_good)

lemma plan_split_custodial:
  assumes "plan_split lib i split policy deadline nonce = Inr p"
    and "pl_body p = SwapBody commands slot shape recorded"
  shows "\<exists>pull. custodial policy pull commands slot"
    and "recorded = (if length split = 1 then None else Some split)"
proof -
  have "good_swap_plan policy i (if length split = 1 then None else Some split) p"
    using plan_split_single [OF assms(1) _ assms(2)] plan_split_good [OF assms(1)] by simp
  then show "\<exists>pull. custodial policy pull commands slot"
    and "recorded = (if length split = 1 then None else Some split)"
    using assms(2) by (auto simp: good_swap_plan_def)
qed

text \<open>
  C8. Finalising a swap plan writes the order's minimum into the one command that pays the
  wallet; for a split, the last swap of every leg gets its share of the minimum, and the shares add
  up to exactly the order's minimum. Nothing else changes: of the plan only the commands and the
  signature, every other command stays as it is, and a command that gets a minimum changes in
  nothing but the minimum.
\<close>

theorem finalize_minimums:
  assumes "plan_split lib i split policy deadline nonce = Inr p"
    and "pl_body p = SwapBody commands slot shape recorded"
    and "finalize_swap p m sig = Inr p'"
    and "\<forall>l \<in> set split. sl_route l \<noteq> []"
  shows "\<exists>commands'. p' = p\<lparr>pl_body := SwapBody commands' slot shape recorded, pl_signature := sig\<rparr> \<and>
    map unbound commands' = map unbound commands \<and> command_min (last commands') = Some m \<and>
    (\<forall>k < length commands. k \<noteq> length commands - 1 \<and>
       \<not> (length split > 1 \<and> sum_list (map sl_amount_out split) \<noteq> 0 \<and>
          (\<exists>e \<in> set (leg_ends 0 split). k = swap_indices commands ! e))
       \<longrightarrow> commands' ! k = commands ! k) \<and>
    (length split > 1 \<and> sum_list (map sl_amount_out split) \<noteq> 0 \<longrightarrow>
      (let mins = leg_bounds m (sum_list (map sl_amount_out split)) 0 split in
       map (\<lambda>e. command_min (commands' ! (swap_indices commands ! e))) (leg_ends 0 split) = map Some mins \<and>
       sum_list mins = m))"
proof -
  let ?t = "sum_list (map sl_amount_out split)"
  from plan_split_custodial [OF assms(1,2)] obtain pull where
    cust: "custodial policy pull commands slot" and rec: "recorded = (if length split = 1 then None else Some split)"
    by auto
  from cust have slot: "slot = length commands - 1" "commands \<noteq> []" "command_min (last commands) \<noteq> None"
    and bd: "list_all bounded commands" by (auto simp: custodial_def)
  from assms(2,3) obtain cs1 where
    step: "set_min_out commands slot m = Inr cs1" and
    rest: "bindr (case recorded of
               Some legs \<Rightarrow>
                 (let order_total = sum_list (map sl_amount_out legs) in
                  if length legs > 1 \<and> order_total \<noteq> 0
                  then bound_legs m order_total (swap_indices cs1) 0 0 legs cs1
                  else Inr cs1)
             | None \<Rightarrow> Inr cs1) (\<lambda>commands2.
             Inr (p\<lparr>pl_body := SwapBody commands2 slot shape recorded, pl_signature := sig\<rparr>)) = Inr p'"
    by (auto simp: finalize_swap_def elim!: bindr_InrE split: if_splits)
  note s1 = set_min_out_Inr [OF step]
  have eq1: "map unbound cs1 = map unbound commands" using s1 by blast
  have last1: "command_min (last cs1) = Some m"
    using s1 slot by (metis last_conv_nth length_0_conv)
  show ?thesis
  proof (cases "length split > 1 \<and> ?t \<noteq> 0")
    case False
    with rest rec have "p' = p\<lparr>pl_body := SwapBody cs1 slot shape recorded, pl_signature := sig\<rparr>"
      by (auto split: if_splits)
    moreover have "\<forall>k < length commands. k \<noteq> length commands - 1 \<longrightarrow> cs1 ! k = commands ! k"
      using s1 slot(1) by blast
    ultimately show ?thesis using False s1 last1 by (intro exI [of _ cs1]) auto
  next
    case True
    have recs: "recorded = Some split" using rec True by simp
    from rest have "bindr (bound_legs m ?t (swap_indices cs1) 0 0 split cs1) (\<lambda>commands2.
        Inr (p\<lparr>pl_body := SwapBody commands2 slot shape recorded, pl_signature := sig\<rparr>)) = Inr p'"
      unfolding recs option.case Let_def if_P [OF True] .
    then obtain cs2 where
      "bound_legs m ?t (swap_indices cs1) 0 0 split cs1 = Inr cs2" and
      "Inr (p\<lparr>pl_body := SwapBody cs2 slot shape recorded, pl_signature := sig\<rparr>) = (Inr p' :: tx_exn + plan)"
      by (rule bindr_InrE)
    note b = this(1) and e = this(2)
    from e have p': "p' = p\<lparr>pl_body := SwapBody cs2 slot shape recorded, pl_signature := sig\<rparr>" by auto
    have idx: "swap_indices cs1 = swap_indices commands" using eq1 by (rule swap_indices_unbound)
    have inv: "\<forall>i \<in> set (swap_indices cs1). i < length cs1 \<and> command_min (cs1 ! i) \<noteq> None"
      using swap_indices_bounded bounded_unbound [OF eq1] bd by blast
    note r = bound_legs_Inr [OF b distinct_swap_indices assms(4) inv]
    have "\<not> is_swap (last commands)" using plan_split_swaps [OF assms(1) _ assms(2)] True by simp
    then have "slot \<notin> set (swap_indices cs1)"
      unfolding idx using slot by (simp add: swap_indices_def last_conv_nth)
    then have "\<forall>e \<in> set (leg_ends 0 split). slot \<noteq> swap_indices cs1 ! e"
      using r by (metis nth_mem)
    then have "cs2 ! slot = cs1 ! slot" using r by blast
    then have "command_min (last cs2) = Some m"
      using last1 slot r s1 by (metis last_conv_nth length_0_conv)
    moreover
    have "cs2 ! k = commands ! k"
      if "k \<noteq> length commands - 1" "\<not> (\<exists>e \<in> set (leg_ends 0 split). k = swap_indices commands ! e)" for k
      using r s1 that slot(1) unfolding idx by metis
    then have keep: "\<forall>k < length commands. k \<noteq> length commands - 1 \<and>
        \<not> (length split > 1 \<and> ?t \<noteq> 0 \<and> (\<exists>e \<in> set (leg_ends 0 split). k = swap_indices commands ! e))
        \<longrightarrow> cs2 ! k = commands ! k"
      using True by blast
    moreover have "map unbound cs2 = map unbound commands" using r eq1 by simp
    moreover have "map (\<lambda>e. command_min (cs2 ! (swap_indices commands ! e))) (leg_ends 0 split) = map Some (leg_bounds m ?t 0 split)"
      using r unfolding idx by blast
    moreover have "split \<noteq> []" using True by auto
    then have "sum_list (leg_bounds m ?t 0 split) = m" using sum_leg_bounds [of split 0 m ?t] by simp
    ultimately show ?thesis unfolding p' Let_def by blast
  qed
qed

definition sample_final :: plan where
  "sample_final = sample_plan\<lparr>pl_body := SwapBody
    [PayPortion NATIVE ''0xdd'' 100,
     WrapEth ADDRESS_THIS 594, V2Swap ADDRESS_THIS 594 66 [WETH, ''0xff''] False,
     WrapEth ADDRESS_THIS 396, V2Swap ADDRESS_THIS 396 48 [WETH, ''0xff''] False,
     Sweep ''0xff'' MSG_SENDER 114] 5 sample_shape (Some sample_split)\<rparr>"

lemma sample_finalized: "finalize_swap sample_plan 114 None = Inr sample_final"
proof -
  have "swap_indices [PayPortion NATIVE ''0xdd'' 100,
     WrapEth ADDRESS_THIS 594, V2Swap ADDRESS_THIS 594 0 [WETH, ''0xff''] False,
     WrapEth ADDRESS_THIS 396, V2Swap ADDRESS_THIS 396 0 [WETH, ''0xff''] False,
     Sweep ''0xff'' MSG_SENDER 114] = [2, 4]"
    by (simp add: swap_indices_def upt_rec numeral_eq_Suc)
  then show ?thesis
    by (simp add: finalize_swap_def sample_plan_def sample_final_def sample_commands_def set_min_out_def
        item_def sample_split_def sample_leg_def Let_def leg_bound_def numeral_eq_Suc)
qed

theorem finalize_minimums_witness:
  "\<exists>commands'. sample_final = sample_plan\<lparr>pl_body := SwapBody commands' 5 sample_shape (Some sample_split), pl_signature := None\<rparr> \<and>
    command_min (last commands') = Some 114 \<and> commands' ! 1 = sample_commands ! 1 \<and>
    map (\<lambda>e. command_min (commands' ! (swap_indices sample_commands ! e))) (leg_ends 0 sample_split) =
      map Some (leg_bounds 114 (sum_list (map sl_amount_out sample_split)) 0 sample_split)"
proof -
  have "swap_indices sample_commands = [2, 4]"
    by (simp add: swap_indices_def sample_commands_def upt_rec numeral_eq_Suc)
  then have "length sample_split > 1" "sum_list (map sl_amount_out sample_split) \<noteq> 0" "length sample_commands = 6"
    "\<not> (\<exists>e \<in> set (leg_ends 0 sample_split). 1 = swap_indices sample_commands ! e)" "\<forall>l \<in> set sample_split. sl_route l \<noteq> []"
    by (auto simp: sample_split_def sample_leg_def sample_commands_def)
  with finalize_minimums [OF sample_plan_split _ sample_finalized, of sample_commands 5 sample_shape "Some sample_split"]
  show ?thesis by (auto simp: sample_plan_def Let_def)
qed

text \<open>
  Finalising cannot fail on a plan the planner made: with a fee below 100% and the signature
  it asks for, every plan, of a whole order or a split, gets its minimum.
\<close>

theorem finalize_defined:
  assumes "plan_split lib i split policy deadline nonce = Inr p"
    and "fee_bps policy < 10000" and "pl_permit p = None \<or> sig \<noteq> None"
    and "\<forall>l \<in> set split. sl_route l \<noteq> []"
  shows "\<exists>p'. finalize_swap p m sig = Inr p'"
proof (cases "\<exists>commands slot shape recorded. pl_body p = SwapBody commands slot shape recorded")
  case False
  have single: "length split = 1"
  proof (rule ccontr)
    assume "length split \<noteq> 1"
    from plan_split_good [OF assms(1) this] False show False by (auto simp: good_swap_plan_def)
  qed
  with assms(1) have plan: "plan_swap lib i (sl_route (hd split)) policy deadline nonce = Inr p"
    by (simp add: plan_split_def)
  have "\<exists>router. router_plan lib i (sl_route (hd split)) policy deadline router = Inr p"
  proof (cases "router_for (sl_route (hd split))")
    case None
    then have "universal_plan lib i (sl_route (hd split)) policy deadline nonce = Inr p"
      using plan by (auto simp: plan_swap_def split: if_splits)
    then have "good_swap_plan policy i None p" by (rule universal_plan_good)
    then show ?thesis using False by (auto simp: good_swap_plan_def)
  next
    case (Some r)
    then show ?thesis using plan by (auto simp: plan_swap_def lift_py_eq_Inr split: if_splits)
  qed
  then obtain router where "router_plan lib i (sl_route (hd split)) policy deadline router = Inr p" by blast
  then obtain sh where "pl_body p = RouterBody sh 0" "ss_fee_bps sh = fee_bps policy"
    unfolding router_plan_def Let_def by (elim bindr_InrE) auto
  with assms(2) show ?thesis by (simp add: finalize_swap_def gross_min_for_def)
next
  case True
  then obtain commands slot shape recorded where body: "pl_body p = SwapBody commands slot shape recorded" by blast
  from plan_split_custodial [OF assms(1) body] obtain pull where
    cust: "custodial policy pull commands slot" and rec: "recorded = (if length split = 1 then None else Some split)"
    by auto
  from cust have slot: "slot < length commands" "command_min (commands ! slot) \<noteq> None"
    and bd: "list_all bounded commands" by (auto simp: custodial_def last_conv_nth)
  obtain c' where "with_min_out (commands ! slot) m = Inr c'" using with_min_out_defined [OF slot(2)] by blast
  with slot(1) obtain cs1 where step: "set_min_out commands slot m = Inr cs1"
    by (simp add: set_min_out_def item_def)
  have eq1: "map unbound cs1 = map unbound commands" using set_min_out_Inr [OF step] by blast
  have inv: "\<forall>i \<in> set (swap_indices cs1). i < length cs1 \<and> command_min (cs1 ! i) \<noteq> None"
    using swap_indices_bounded bounded_unbound [OF eq1] bd by blast
  have "\<exists>cs2. bound_legs m t (swap_indices cs1) 0 0 split cs1 = Inr cs2" if "length split \<noteq> 1" for t
  proof (rule bound_legs_defined [OF assms(4) _ inv])
    have "swap_indices cs1 = swap_indices commands" using eq1 by (rule swap_indices_unbound)
    then show "0 + hops_of split \<le> length (swap_indices cs1)"
      using plan_split_swaps [OF assms(1) that body] by (simp add: length_swap_indices)
  qed
  then have "\<exists>cs2. (case recorded of
               Some legs \<Rightarrow>
                 (let order_total = sum_list (map sl_amount_out legs) in
                  if length legs > 1 \<and> order_total \<noteq> 0
                  then bound_legs m order_total (swap_indices cs1) 0 0 legs cs1
                  else Inr cs1)
             | None \<Rightarrow> Inr cs1) = Inr cs2"
    using rec by (auto simp: Let_def)
  with step body assms(3) show ?thesis
    by (auto simp: finalize_swap_def)
qed

theorem finalize_defined_witness: "\<exists>p'. finalize_swap sample_plan 114 None = Inr p'"
  by (rule finalize_defined [OF sample_plan_split])
    (simp_all add: sample_plan_def sample_policy_def sample_split_def sample_leg_def)

text \<open>
  The gross minimum that a protocol's own router enforces before it takes its fee protects
  the net minimum: every output it lets through leaves the wallet at least the order's minimum
  after the fee, and no output it stops would have left the wallet more than that.
\<close>

theorem router_minimum_covers:
  assumes "gross_min_for m bps = Inr g" and "0 \<le> bps" and "bps < 10000"
  shows "(g \<le> x \<longrightarrow> m \<le> x - floor_bps x bps) \<and> (x < g \<longrightarrow> x - floor_bps x bps \<le> m)"
proof -
  let ?d = "10000 - bps"
  have d: "0 < ?d" using assms(3) by simp
  from assms have g: "g = (m * 10000 + ?d - 1) div ?d"
    by (auto simp: gross_min_for_def split: if_splits)
  have le: "g \<le> k \<longleftrightarrow> m * 10000 \<le> k * ?d" for k
    unfolding g using ceil_div_le_iff [OF d, of "m * 10000" k] by simp
  have fl: "k \<le> floor_bps x bps \<longleftrightarrow> k * 10000 \<le> x * bps" for k
    by (simp add: floor_bps_def le_floor_div_iff)
  have "m \<le> x - floor_bps x bps" if "g \<le> x"
  proof -
    have "\<not> x - m + 1 \<le> floor_bps x bps"
      using that unfolding le fl by (simp add: algebra_simps)
    then show ?thesis by linarith
  qed
  moreover have "x - floor_bps x bps \<le> m" if "x < g"
  proof -
    have "x - m \<le> floor_bps x bps"
      using that le [of x] unfolding fl by (simp add: algebra_simps)
    then show ?thesis by linarith
  qed
  ultimately show ?thesis by blast
qed

theorem router_minimum_covers_witness:
  "(10101 \<le> (10101 :: int) \<longrightarrow> 10000 \<le> 10101 - floor_bps 10101 100) \<and>
   (10101 < (10102 :: int) \<longrightarrow> 10101 - floor_bps 10101 100 \<le> 10000)"
  using router_minimum_covers [of 10000 100 10102 10101] router_minimum_covers [of 9999 100 10100 10101]
  by (simp add: gross_min_for_def floor_bps_def)

section \<open>Candidate routes can be planned\<close>

lemma plan_hops_direct:
  "plan_hops FeeInput out hs (cs, held, slot) = Inr (cs', held', slot') \<Longrightarrow> hs \<noteq> [] \<Longrightarrow>
   hop_out (last hs) = out \<Longrightarrow> slot' \<noteq> None"
proof (induction hs arbitrary: cs held slot)
  case Nil
  then show ?case by simp
next
  case (Cons h hs)
  show ?case
  proof (cases "hs = []")
    case True
    with Cons.prems show ?thesis by (auto simp: Let_def bindr_eq_Inr)
  next
    case False
    with Cons.prems(1) obtain st where "plan_hops FeeInput out hs st = Inr (cs', held', slot')"
      by (auto simp: Let_def bindr_eq_Inr)
    then show ?thesis using Cons.IH False Cons.prems(3) by (cases st) auto
  qed
qed

lemma universal_plan_errors:
  assumes "universal_plan lib i r policy deadline nonce = Inl e" and "r \<noteq> []"
    and "intent_fee_leg i = FeeInput \<Longrightarrow> hop_out (last r) = intent_out i"
  shows "\<exists>pe. e = Py pe"
proof -
  let ?pre = "(if intent_in i = NATIVE then [] else [Permit2TransferFrom (intent_in i) ADDRESS_THIS (si_amount_in i)])
    @ fee_commands FeeInput (intent_fee_leg i) (intent_in i) policy"
  let ?staging = "if intent_in i = NATIVE then Inr [] else permit2_staging lib (intent_in i) UR (si_amount_in i) deadline"
  let ?hops = "plan_hops (intent_fee_leg i) (intent_out i) r (?pre, intent_in i, None)"
  show ?thesis
  proof (cases "lift_py ?staging")
    case (Inl e')
    with assms(1) have "e' = e" unfolding universal_plan_def Let_def by simp
    with Inl show ?thesis by (auto simp: lift_py_eq_Inl)
  next
    case st: (Inr st)
    show ?thesis
    proof (cases ?hops)
      case (Inl e')
      with assms(1) st have "e = Py e'" unfolding universal_plan_def Let_def by simp
      then show ?thesis by blast
    next
      case (Inr res)
      obtain cs held slot where res: "res = (cs, held, slot)" by (cases res)
      have "slot \<noteq> None" if f: "intent_fee_leg i = FeeInput"
        using plan_hops_direct [OF _ assms(2) assms(3) [OF f]] Inr res f by metis
      with assms(1) st Inr res have False
        unfolding universal_plan_def Let_def by (cases "intent_fee_leg i"; cases slot) auto
      then show ?thesis ..
    qed
  qed
qed

text \<open>
  Every candidate route can be planned: for an intent on the token and quote currency the
  candidates were asked for, the planner never reports an internal error; the only exceptions
  left are those of the encoders.
\<close>

theorem candidate_routes_plannable:
  assumes "candidates lib rows rpc book token (si_quote_currency i) (si_side i) = (book', Inr rs)"
    and "r \<in> set rs" and "si_token i = lower token"
  shows "case plan_swap lib i r policy deadline nonce of Inl e \<Rightarrow> \<exists>pe. e = Py pe | Inr p \<Rightarrow> True"
proof (cases "plan_swap lib i r policy deadline nonce")
  case (Inl e)
  from candidates_good [OF assms(1)] assms(2) have
    good: "good_route (si_side i) (lower token) (si_quote_currency i) r" by blast
  then have sv: "serves (si_side i) (lower token) (si_quote_currency i) r" and
    mk: "make_route r = Inr r" by (auto simp: good_route_def)
  from mk have ne: "r \<noteq> []" by (auto simp: make_route_def)
  have ends: "same_asset (route_in r) (intent_in i)" "same_asset (route_out r) (intent_out i)"
    using sv assms(3) by (cases "si_side i"; simp add: serves_def intent_in_def intent_out_def)+
  have direct: "intent_fee_leg i = FeeInput \<Longrightarrow> hop_out (last r) = intent_out i"
    using sv assms(3) by (auto simp: serves_def intent_fee_leg_def intent_out_def route_out_def split: if_splits)
  have "\<exists>pe. e = Py pe"
  proof (cases "router_for r")
    case None
    with Inl ends have "universal_plan lib i r policy deadline nonce = Inl e" by (simp add: plan_swap_def)
    then show ?thesis using ne direct by (rule universal_plan_errors)
  next
    case (Some router)
    with Inl ends show ?thesis by (auto simp: plan_swap_def lift_py_eq_Inl)
  qed
  with Inl show ?thesis by simp
qed simp

theorem candidate_routes_plannable_witness:
  "case plan_swap counting_lib (sample_intent\<lparr>si_quote_currency := WETH\<rparr>) sample_route sample_policy 77 5
   of Inl e \<Rightarrow> \<exists>pe. e = Py pe | Inr p \<Rightarrow> True"
proof (rule candidate_routes_plannable)
  show "candidates counting_lib [sample_row] (\<lambda>to data. Inr []) empty_book ''0xFF'' (si_quote_currency (sample_intent\<lparr>si_quote_currency := WETH\<rparr>))
      (si_side (sample_intent\<lparr>si_quote_currency := WETH\<rparr>)) = (empty_book, Inr [sample_route])"
    by (simp add: sample_intent_def candidates_sample)
  show "sample_route \<in> set [sample_route]" by simp
  show "si_token (sample_intent\<lparr>si_quote_currency := WETH\<rparr>) = lower ''0xFF''"
  proof -
    have "lower ''0xFF'' = ''0xff''" by code_simp
    then show ?thesis by (simp add: sample_intent_def)
  qed
qed

end
