(* ===== verification/Tx_Lp.thy ===== *)
theory Tx_Lp
  imports Tx_Plan
begin

text \<open>
  The liquidity half of \<^verbatim>\<open>src/rhpools/tx_plan.py\<close>: liquidity for amounts and back, the
  \<^verbatim>\<open>LpPlanner\<close> for the V3 position managers and the V4 one, its bounds and the reading of the
  executed amounts.
\<close>

section \<open>Liquidity and amounts\<close>

definition py_div :: "int \<Rightarrow> int \<Rightarrow> py_error + int" where
  "py_div a b = (if b = 0 then Inl (ZeroDivisionError ''integer division or modulo by zero'') else Inr (a div b))"

definition liq0 :: "int \<Rightarrow> int \<Rightarrow> int \<Rightarrow> py_error + int" where
  "liq0 amount0 lo hi = py_div (amount0 * (lo * hi div Q96)) (hi - lo)"

definition liq1 :: "int \<Rightarrow> int \<Rightarrow> int \<Rightarrow> py_error + int" where
  "liq1 amount1 lo hi = py_div (amount1 * Q96) (hi - lo)"

definition liquidity_for_amounts :: "int \<Rightarrow> int \<Rightarrow> int \<Rightarrow> int \<Rightarrow> int \<Rightarrow> py_error + int" where
  "liquidity_for_amounts sqrt_p sqrt_a0 sqrt_b0 amount0 amount1 =
    (let sqrt_a = (if sqrt_a0 > sqrt_b0 then sqrt_b0 else sqrt_a0);
         sqrt_b = (if sqrt_a0 > sqrt_b0 then sqrt_a0 else sqrt_b0) in
     if sqrt_p \<le> sqrt_a then liq0 amount0 sqrt_a sqrt_b
     else if sqrt_p < sqrt_b then
       bindr (liq0 amount0 sqrt_p sqrt_b) (\<lambda>l0. bindr (liq1 amount1 sqrt_a sqrt_p) (\<lambda>l1. Inr (min l0 l1)))
     else liq1 amount1 sqrt_a sqrt_b)"

definition principal_for_liquidity :: "int \<Rightarrow> int \<Rightarrow> int \<Rightarrow> int \<Rightarrow> bool \<Rightarrow> py_error + int \<times> int" where
  "principal_for_liquidity sqrt_p lo hi liquidity round_up =
     bindr (sqrt_ratio_at_tick lo) (\<lambda>sqrt_a.
     bindr (sqrt_ratio_at_tick hi) (\<lambda>sqrt_b.
       if sqrt_p \<le> sqrt_a then Inr (amount0_delta sqrt_a sqrt_b liquidity round_up, 0)
       else if sqrt_p < sqrt_b then
         Inr (amount0_delta sqrt_p sqrt_b liquidity round_up, amount1_delta sqrt_a sqrt_p liquidity round_up)
       else Inr (0, amount1_delta sqrt_a sqrt_b liquidity round_up)))"

section \<open>Planning\<close>

record position_state =
  pos_tick_lower :: int
  pos_tick_upper :: int
  pos_liquidity :: int

definition manager_for :: "pool \<Rightarrow> address option" where
  "manager_for p =
    (if p_venue p = V4 then Some POSM
     else if p_venue p = V3 then map_of NFPM_BY_FACTORY (p_factory p) else None)"

definition adding_op :: "lp_op \<Rightarrow> bool" where
  "adding_op op \<longleftrightarrow> op = Mint \<or> op = Increase"

definition missing_position :: tx_exn where
  "missing_position = Py (RuntimeError ''AssertionError'')"

text \<open>\<^verbatim>\<open>_nfpm\<close>: a call to one of the V3 position managers.\<close>

definition plan_nfpm ::
  "eth_lib \<Rightarrow> lp_intent \<Rightarrow> pool \<Rightarrow> int \<Rightarrow> lp_shape \<Rightarrow> address \<Rightarrow> position_state option \<Rightarrow> tx_exn + plan" where
  "plan_nfpm lib i p deadline shape manager position =
    (let wallet = li_wallet i; token_id = the (li_token_id i) in
     bindr (case li_op i of
         Mint \<Rightarrow> Inr (NfpmMint (p_token0 p) (p_token1 p) (p_fee_ppm p) (ls_tick_lower shape) (ls_tick_upper shape)
                  (li_amount0 i) (li_amount1 i) 0 0 wallet deadline, None)
       | Increase \<Rightarrow> Inr (NfpmIncrease token_id (li_amount0 i) (li_amount1 i) 0 0 deadline, None)
       | Decrease \<Rightarrow>
           (case position of
              None \<Rightarrow> Inl missing_position
            | Some pos \<Rightarrow>
                if \<not> (0 < li_liquidity i \<and> li_liquidity i \<le> pos_liquidity pos)
                then Inl (TxError ''invalid_intent'' ''liquidity must be within the position'')
                else Inr (NfpmDecrease token_id (li_liquidity i) 0 0 deadline,
                          Some (NfpmCollect token_id wallet MAX_UINT128 MAX_UINT128)))
       | Collect \<Rightarrow> Inr (NfpmCollect token_id wallet MAX_UINT128 MAX_UINT128, None)) (\<lambda>(call, collect).
     let approvals = (if adding_op (li_op i) then
           map (\<lambda>(token, amount). \<lparr>an_token = token, an_spender = manager, an_approve_amount = amount, an_required = amount\<rparr>)
             (filter (\<lambda>(token, amount). amount > 0) [(p_token0 p, li_amount0 i), (p_token1 p, li_amount1 i)])
           else [])
     in bindr (lift_py (approve_calls lib approvals)) (\<lambda>staging.
          Inr \<lparr>pl_to = manager, pl_value = 0, pl_deadline = deadline, pl_body = NfpmBody call collect shape,
               pl_approvals = approvals, pl_permit = None, pl_staging = staging, pl_signature = None\<rparr>)))"

text \<open>The permit details of a V4 deposit: the tokens that are not native and have an amount.\<close>

definition deposit_details ::
  "lp_intent \<Rightarrow> pool \<Rightarrow> int \<Rightarrow> (address, int) odict \<Rightarrow> tx_exn + permit_details list" where
  "deposit_details i p deadline permit_nonces =
     map_res (\<lambda>(token, amount). case map_of permit_nonces token of
         None \<Rightarrow> Inl (Py (KeyError token))
       | Some nonce \<Rightarrow> Inr \<lparr>pd_token = token, pd_amount = amount, pd_expiration = deadline, pd_nonce = nonce\<rparr>)
       (filter (\<lambda>(token, amount). token \<noteq> NATIVE \<and> amount > 0)
         [(p_token0 p, li_amount0 i), (p_token1 p, li_amount1 i)])"

definition deposit_params :: "lp_intent \<Rightarrow> pool \<Rightarrow> pool_key \<Rightarrow> lp_shape \<Rightarrow> int \<Rightarrow> posm_param list" where
  "deposit_params i p key shape liquidity =
     (if li_op i = Mint
      then [PosmMint key (ls_tick_lower shape) (ls_tick_upper shape) liquidity MAX_UINT128 MAX_UINT128 (li_wallet i)]
      else [PosmIncrease (the (li_token_id i)) liquidity MAX_UINT128 MAX_UINT128])
     @ [PosmSettlePair (p_token0 p) (p_token1 p)]
     @ (if p_token0 p = NATIVE then [PosmSweep NATIVE (li_wallet i)] else [])"

definition posm_deposit ::
  "eth_lib \<Rightarrow> lp_intent \<Rightarrow> pool \<Rightarrow> pool_key \<Rightarrow> int \<Rightarrow> lp_shape \<Rightarrow> int \<Rightarrow> (address, int) odict \<Rightarrow> tx_exn + plan" where
  "posm_deposit lib i p key deadline shape sqrt_price_x96 permit_nonces =
     bindr (lift_py (sqrt_ratio_at_tick (ls_tick_lower shape))) (\<lambda>sqrt_a.
     bindr (lift_py (sqrt_ratio_at_tick (ls_tick_upper shape))) (\<lambda>sqrt_b.
     bindr (lift_py (liquidity_for_amounts sqrt_price_x96 sqrt_a sqrt_b (li_amount0 i) (li_amount1 i))) (\<lambda>liquidity.
       if liquidity \<le> 0 then Inl (TxError ''invalid_intent'' ''amounts yield zero liquidity at the current price'')
       else bindr (deposit_details i p deadline permit_nonces) (\<lambda>details.
         bindr (lift_py (map_res (\<lambda>d. permit2_staging lib (pd_token d) POSM (pd_amount d) deadline) details)) (\<lambda>staging.
           Inr \<lparr>pl_to = POSM, pl_value = (if p_token0 p = NATIVE then li_amount0 i else 0), pl_deadline = deadline,
                pl_body = PosmBody (deposit_params i p key shape liquidity) (shape\<lparr>ls_liquidity := liquidity\<rparr>),
                pl_approvals = map (\<lambda>d. \<lparr>an_token = pd_token d, an_spender = PERMIT2,
                    an_approve_amount = MAX_UINT256, an_required = pd_amount d\<rparr>) details,
                pl_permit = (if details = [] then None
                  else Some (BatchPermit \<lparr>pb_details = details, pb_spender = POSM, pb_sig_deadline = deadline\<rparr>)),
                pl_staging = concat staging, pl_signature = None\<rparr>)))))"

definition plan_posm ::
  "eth_lib \<Rightarrow> lp_intent \<Rightarrow> pool \<Rightarrow> int \<Rightarrow> lp_shape \<Rightarrow> int \<Rightarrow> position_state option \<Rightarrow> (address, int) odict \<Rightarrow>
   tx_exn + plan" where
  "plan_posm lib i p deadline shape sqrt_price_x96 position permit_nonces =
     bindr (lift_py (pool_key_of p)) (\<lambda>key.
       if adding_op (li_op i) then posm_deposit lib i p key deadline shape sqrt_price_x96 permit_nonces
       else (case position of
           None \<Rightarrow> Inl missing_position
         | Some pos \<Rightarrow>
             let liquidity = (if li_op i = Decrease then li_liquidity i else 0) in
             if li_op i = Decrease \<and> \<not> (0 < liquidity \<and> liquidity \<le> pos_liquidity pos)
             then Inl (TxError ''invalid_intent'' ''liquidity must be within the position'')
             else Inr \<lparr>pl_to = POSM, pl_value = 0, pl_deadline = deadline,
               pl_body = PosmBody [PosmDecrease (the (li_token_id i)) liquidity 0 0,
                   PosmTakePair (p_token0 p) (p_token1 p) (li_wallet i)] (shape\<lparr>ls_liquidity := liquidity\<rparr>),
               pl_approvals = [], pl_permit = None, pl_staging = [], pl_signature = None\<rparr>))"

text \<open>The ticks of the range: the position's own, or the intent's, checked against the pool.\<close>

definition plan_ticks :: "lp_intent \<Rightarrow> pool \<Rightarrow> position_state option \<Rightarrow> tx_exn + int \<times> int" where
  "plan_ticks i p position =
    (if li_op i \<noteq> Mint then
       (case (li_token_id i, position) of
          (Some t, Some pos) \<Rightarrow> Inr (pos_tick_lower pos, pos_tick_upper pos)
        | _ \<Rightarrow> Inl (TxError ''invalid_intent'' (op_value (li_op i) @ '' needs token_id'')))
     else
       (let lower = li_tick_lower i; upper = li_tick_upper i; spacing = p_tick_spacing p in
        if \<not> lower < upper \<or> spacing \<le> 0 \<or> lower mod spacing \<noteq> 0 \<or> upper mod spacing \<noteq> 0
        then Inl (TxError ''invalid_intent'' ''ticks must be ordered multiples of the pool tick spacing'')
        else Inr (lower, upper)))"

definition plan_lp ::
  "eth_lib \<Rightarrow> lp_intent \<Rightarrow> pool \<Rightarrow> int \<Rightarrow> int \<Rightarrow> position_state option \<Rightarrow> (address, int) odict \<Rightarrow> tx_exn + plan" where
  "plan_lp lib i p deadline sqrt_price_x96 position permit_nonces =
    (case manager_for p of
       None \<Rightarrow> Inl (TxRefusal ''unsupported_pool'' ''no position manager for this pool'')
     | Some manager \<Rightarrow>
         bindr (plan_ticks i p position) (\<lambda>(lower, upper).
           let shape = \<lparr>ls_wallet = li_wallet i, ls_op = li_op i, ls_pool = p, ls_manager = manager,
                 ls_token_id = li_token_id i, ls_tick_lower = lower, ls_tick_upper = upper,
                 ls_liquidity = li_liquidity i\<rparr>
           in if manager = POSM then plan_posm lib i p deadline shape sqrt_price_x96 position permit_nonces
              else plan_nfpm lib i p deadline shape manager position))"

fun bound_call :: "int \<Rightarrow> int \<Rightarrow> nfpm_call \<Rightarrow> nfpm_call" where
  "bound_call b0 b1 (NfpmMint t0 t1 f lo hi d0 d1 m0 m1 r dl) = NfpmMint t0 t1 f lo hi d0 d1 b0 b1 r dl"
| "bound_call b0 b1 (NfpmIncrease t d0 d1 m0 m1 dl) = NfpmIncrease t d0 d1 b0 b1 dl"
| "bound_call b0 b1 (NfpmDecrease t l m0 m1 dl) = NfpmDecrease t l b0 b1 dl"
| "bound_call b0 b1 (NfpmCollect t r x0 x1) = NfpmCollect t r x0 x1"

fun bound_param :: "int \<Rightarrow> int \<Rightarrow> posm_param \<Rightarrow> posm_param" where
  "bound_param b0 b1 (PosmMint k lo hi l m0 m1 r) = PosmMint k lo hi l b0 b1 r"
| "bound_param b0 b1 (PosmIncrease t l m0 m1) = PosmIncrease t l b0 b1"
| "bound_param b0 b1 (PosmDecrease t l m0 m1) = PosmDecrease t l b0 b1"
| "bound_param b0 b1 p = p"

definition finalize_lp :: "plan \<Rightarrow> int \<times> int \<Rightarrow> bytes option \<Rightarrow> tx_exn + plan" where
  "finalize_lp p bounds sig =
    (let b0 = fst bounds; b1 = snd bounds in
     case pl_body p of
       NfpmBody call collect shape \<Rightarrow> Inr (p\<lparr>pl_body := NfpmBody (bound_call b0 b1 call) collect shape\<rparr>)
     | PosmBody params shape \<Rightarrow>
         if pl_permit p \<noteq> None \<and> sig = None
         then Inl (TxError ''permit_required'' ''the quote needs a Permit2 batch signature'')
         else Inr (p\<lparr>pl_body := PosmBody (map (bound_param b0 b1) params) shape, pl_signature := sig\<rparr>)
     | _ \<Rightarrow> Inl (TxError ''internal'' ''not an lp plan''))"

section \<open>Executed amounts\<close>

definition bound_up :: "int \<Rightarrow> int \<Rightarrow> int" where
  "bound_up amount slippage_bps = - ((- amount) * (10000 + slippage_bps) div 10000)"

definition minted_token :: "lp_shape \<Rightarrow> ledger \<Rightarrow> tx_exn + int option" where
  "minted_token shape l =
    (if ls_op shape = Mint then
       (let minted = map (\<lambda>(m, w, t). t) (filter (\<lambda>(m, w, t). m = ls_manager shape \<and> w = lower (ls_wallet shape)) (nft_mints l)) in
        case minted of
          [t] \<Rightarrow> Inr (Some t)
        | _ \<Rightarrow> Inl (TxError ''unmodeled_fee'' (''expected one minted position, saw '' @ int_text (int (length minted)))))
     else Inr (ls_token_id shape))"

type_synonym executed = "int \<times> int \<times> int \<times> int option \<times> int option"

definition posm_executed :: "lp_shape \<Rightarrow> ledger \<Rightarrow> int option \<Rightarrow> tx_exn + executed" where
  "posm_executed shape l sqrt_price_x96 =
    (let p = ls_pool shape; adding = adding_op (ls_op shape);
         deltas = map snd (filter (\<lambda>(pid, d). pid = p_id p) (liquidity_deltas l)) in
     if length deltas \<noteq> 1
     then Inl (TxError ''unmodeled_fee'' (''expected one ModifyLiquidity log, saw '' @ int_text (int (length deltas))))
     else
       (let liquidity = \<bar>hd deltas\<bar> in
        bindr (flow l (p_token0 p) (ls_wallet shape)) (\<lambda>flow0.
        bindr (flow l (p_token1 p) (ls_wallet shape)) (\<lambda>flow1.
        let amount0 = (if adding then - flow0 else flow0); amount1 = (if adding then - flow1 else flow1) in
        case sqrt_price_x96 of
          Some sqrt_p \<Rightarrow>
            if adding then Inr (liquidity, amount0, amount1, None, None)
            else bindr (lift_py (principal_for_liquidity sqrt_p (ls_tick_lower shape) (ls_tick_upper shape) liquidity False))
              (\<lambda>(p0, p1). Inr (liquidity, amount0, amount1, Some (amount0 - p0), Some (amount1 - p1)))
        | None \<Rightarrow> Inr (liquidity, amount0, amount1, None, None)))))"

definition nfpm_executed :: "eth_lib \<Rightarrow> lp_shape \<Rightarrow> int option \<Rightarrow> ledger \<Rightarrow> tx_exn + executed" where
  "nfpm_executed lib shape token_id l =
    (let events = filter (\<lambda>(m, sig, t, a). m = ls_manager shape \<and> Some t = token_id) (nfpm_events l);
         of_kind = (\<lambda>k. filter (\<lambda>(m, sig, t, a). sig = k) events) in
     if adding_op (ls_op shape) then
       (case of_kind (TOPIC_NFPM_INCREASE lib) of
          [(m, sig, t, liquidity, amount0, amount1)] \<Rightarrow> Inr (liquidity, amount0, amount1, None, None)
        | inc \<Rightarrow> Inl (TxError ''unmodeled_fee'' (''expected one IncreaseLiquidity log, saw '' @ int_text (int (length inc)))))
     else
       (let dec = of_kind (TOPIC_NFPM_DECREASE lib); col = of_kind (TOPIC_NFPM_COLLECT lib) in
        if length col \<noteq> 1 \<or> length dec > 1
        then Inl (TxError ''unmodeled_fee'' (''expected one Collect log, saw '' @ int_text (int (length col))))
        else
          (let (liquidity, p0, p1) = (case dec of [] \<Rightarrow> (0, 0, 0) | (m, sig, t, a) # _ \<Rightarrow> a);
               (c, amount0, amount1) = (case hd col of (m, sig, t, a) \<Rightarrow> a)
           in Inr (liquidity, amount0, amount1, Some (amount0 - p0), Some (amount1 - p1)))))"

definition opt0 :: "int option \<Rightarrow> int" where
  "opt0 v = (case v of None \<Rightarrow> 0 | Some n \<Rightarrow> n)"

definition lp_bounds :: "lp_shape \<Rightarrow> int \<Rightarrow> executed \<Rightarrow> int \<times> int" where
  "lp_bounds shape slippage_bps ex =
    (let (liquidity, amount0, amount1, fees0, fees1) = ex in
     if adding_op (ls_op shape) \<and> ls_manager shape = POSM
     then (bound_up amount0 slippage_bps, bound_up amount1 slippage_bps)
     else if adding_op (ls_op shape)
     then (min_out_for amount0 slippage_bps, min_out_for amount1 slippage_bps)
     else if ls_op shape = Collect then (0, 0)
     else (min_out_for (amount0 - opt0 fees0) slippage_bps, min_out_for (amount1 - opt0 fees1) slippage_bps))"

definition lp_amounts_of ::
  "eth_lib \<Rightarrow> lp_shape \<Rightarrow> ledger \<Rightarrow> int \<Rightarrow> int option \<Rightarrow> tx_exn + lp_amounts" where
  "lp_amounts_of lib shape l slippage_bps sqrt_price_x96 =
     bindr (minted_token shape l) (\<lambda>token_id.
     bindr (if ls_manager shape = POSM then posm_executed shape l sqrt_price_x96
            else nfpm_executed lib shape token_id l) (\<lambda>(liquidity, amount0, amount1, fees0, fees1).
       if amount0 < 0 \<or> amount1 < 0 then Inl (TxError ''unmodeled_fee'' ''negative liquidity flow'')
       else (let (b0, b1) = lp_bounds shape slippage_bps (liquidity, amount0, amount1, fees0, fees1) in
         Inr \<lparr>la_liquidity = liquidity, la_amount0 = amount0, la_amount1 = amount1, la_fees0 = fees0,
              la_fees1 = fees1, la_token_id = token_id, la_bound0 = b0, la_bound1 = b1\<rparr>)))"

section \<open>Liquidity never needs more than was offered\<close>

lemma liq0_fits:
  assumes "liq0 x lo hi = Inr l0" and "l \<le> l0" and "0 < lo" and "lo < hi" and "0 \<le> x"
  shows "amount0_delta lo hi l True \<le> x"
proof -
  have l0: "l0 = x * (lo * hi div 2 ^ 96) div (hi - lo)"
    using assms by (simp add: liq0_def py_div_def Q96_eq)
  have "l * (hi - lo) \<le> l0 * (hi - lo)" using assms by (simp add: mult_right_mono)
  also have "\<dots> \<le> x * (lo * hi div 2 ^ 96)" unfolding l0 using assms(4) by (intro floor_div_le) simp
  finally have "l * (hi - lo) * 2 ^ 96 \<le> x * (lo * hi div 2 ^ 96) * 2 ^ 96" by (rule mult_right_mono) simp
  also have "\<dots> = x * (lo * hi div 2 ^ 96 * 2 ^ 96)" by (simp only: mult.assoc)
  also have "\<dots> \<le> x * (lo * hi)" using assms(5) by (intro mult_left_mono floor_div_le) simp_all
  finally have "l * 2 ^ 96 * (hi - lo) \<le> x * (lo * hi)" by (simp only: mult.commute mult.left_commute)
  then show ?thesis
    using assms by (simp only: amount0_delta_up less_imp_le) (simp add: ceil_div_le)
qed

lemma liq1_fits:
  assumes "liq1 y lo hi = Inr l1" and "l \<le> l1" and "lo < hi"
  shows "amount1_delta lo hi l True \<le> y"
proof -
  have l1: "l1 = y * 2 ^ 96 div (hi - lo)"
    using assms by (simp add: liq1_def py_div_def Q96_eq)
  have "l * (hi - lo) \<le> l1 * (hi - lo)" using assms by (simp add: mult_right_mono)
  also have "\<dots> \<le> y * 2 ^ 96" unfolding l1 using assms(3) by (intro floor_div_le) simp
  finally show ?thesis
    using assms by (simp only: amount1_delta_up less_imp_le) (simp add: ceil_div_le)
qed

lemma sqrt_ratio_Inr: "sqrt_ratio_at_tick t = Inr a \<Longrightarrow> a = tick_price t \<and> MIN_TICK \<le> t \<and> t \<le> MAX_TICK"
  by (auto simp: sqrt_ratio_at_tick_eq split: if_splits)

lemma sqrt_ratios_ordered:
  assumes "sqrt_ratio_at_tick lo = Inr a" and "sqrt_ratio_at_tick hi = Inr b" and "lo < hi"
  shows "0 < a \<and> a < b"
  using sqrt_ratio_Inr [OF assms(1)] sqrt_ratio_Inr [OF assms(2)] assms(3)
  by (auto intro: tick_price_pos v3.price_less)

lemma liquidity_within_offer_aux:
  assumes "sqrt_ratio_at_tick lo = Inr a" and "sqrt_ratio_at_tick hi = Inr b" and "lo < hi"
    and "liquidity_for_amounts sqrt_p a b amount0 amount1 = Inr l" and "0 \<le> amount0" and "0 \<le> amount1"
  shows "\<exists>need0 need1. principal_for_liquidity sqrt_p lo hi l True = Inr (need0, need1) \<and>
    need0 \<le> amount0 \<and> need1 \<le> amount1"
proof -
  have ab: "0 < a" "a < b" using sqrt_ratios_ordered [OF assms(1-3)] by auto
  consider "sqrt_p \<le> a" | "a < sqrt_p" "sqrt_p < b" | "b \<le> sqrt_p" by linarith
  then show ?thesis
  proof cases
    case 1
    with assms(4) ab have "liq0 amount0 a b = Inr l" by (simp add: liquidity_for_amounts_def Let_def)
    with 1 ab assms show ?thesis
      using liq0_fits [of amount0 a b l l] by (simp add: principal_for_liquidity_def)
  next
    case 2
    with assms(4) ab obtain l0 l1 where
      "liq0 amount0 sqrt_p b = Inr l0" "liq1 amount1 a sqrt_p = Inr l1" "l = min l0 l1"
      by (auto simp: liquidity_for_amounts_def Let_def bindr_eq_Inr)
    with 2 ab assms show ?thesis
      using liq0_fits [of amount0 sqrt_p b l0 l] liq1_fits [of amount1 a sqrt_p l1 l]
      by (simp add: principal_for_liquidity_def)
  next
    case 3
    with assms(4) ab have "liq1 amount1 a b = Inr l" by (simp add: liquidity_for_amounts_def Let_def)
    with 3 ab assms show ?thesis
      using liq1_fits [of amount1 a b l l] by (simp add: principal_for_liquidity_def)
  qed
qed

text \<open>
  C9. The liquidity computed for two offered amounts never costs more than was offered: the
  amounts the pool takes for it, rounded up against the depositor, stay within both offers,
  below, inside and above the range.
\<close>

theorem liquidity_within_offer:
  assumes "sqrt_ratio_at_tick lo = Inr a" and "sqrt_ratio_at_tick hi = Inr b" and "lo < hi"
    and "liquidity_for_amounts sqrt_p a b amount0 amount1 = Inr l" and "0 \<le> amount0" and "0 \<le> amount1"
  shows "\<exists>need0 need1. principal_for_liquidity sqrt_p lo hi l True = Inr (need0, need1) \<and>
    need0 \<le> amount0 \<and> need1 \<le> amount1"
  using assms by (rule liquidity_within_offer_aux)

lemma tick_price_0: "tick_price 0 = 2 ^ 96"
  by code_simp

lemma sqrt_ratio_0: "sqrt_ratio_at_tick 0 = Inr (2 ^ 96)"
  by (simp add: sqrt_ratio_at_tick_eq tick_price_0 MIN_TICK_def MAX_TICK_def)

lemma sqrt_ratio_10:
  "sqrt_ratio_at_tick (- 10) = Inr 79188560314459151373725315960"
  "sqrt_ratio_at_tick 10 = Inr 79267784519130042428790663799"
  by code_simp+

theorem liquidity_within_offer_witness:
  "\<exists>need0 need1. principal_for_liquidity (2 ^ 96) (- 10) 10 2000600 True = Inr (need0, need1) \<and>
    need0 \<le> 1000 \<and> need1 \<le> 1000"
  by (rule liquidity_within_offer [OF sqrt_ratio_10]) (simp_all, code_simp)

text \<open>
  The principal that the accounting reads out of a position and the one the planner uses for
  fees are the same numbers: rounded-down principal of the planner is \<open>principal_raw\<close> of the
  accounting, at every price and for every ordered range of the tick domain.
\<close>

theorem principal_agrees:
  assumes "lo < hi" and "0 < sqrt_p"
  shows "principal_raw (WInt l) (WInt sqrt_p) lo hi = principal_for_liquidity sqrt_p lo hi l False"
proof (cases "sqrt_ratio_at_tick lo")
  case (Inl e)
  then show ?thesis by (simp add: principal_raw_def principal_for_liquidity_def)
next
  case a: (Inr a)
  show ?thesis
  proof (cases "sqrt_ratio_at_tick hi")
    case (Inl e)
    with a show ?thesis by (simp add: principal_raw_def principal_for_liquidity_def)
  next
    case b: (Inr b)
    have ab: "0 < a" "a < b" using sqrt_ratios_ordered [OF a b assms(1)] by auto
    consider "sqrt_p \<le> a" | "a < sqrt_p" "sqrt_p < b" | "a < sqrt_p" "b \<le> sqrt_p" by linarith
    then show ?thesis
      using a b ab assms(2)
      by cases (simp_all add: principal_raw_def principal_for_liquidity_def amount0_delta_def amount1_delta_def Let_def)
  qed
qed

theorem principal_agrees_witness:
  "principal_raw (WInt 5) (WInt (2 ^ 96)) (- 10) 10 = principal_for_liquidity (2 ^ 96) (- 10) 10 5 False"
  by (rule principal_agrees) simp_all

section \<open>What a liquidity plan does\<close>

fun param_recipients :: "posm_param \<Rightarrow> address list" where
  "param_recipients (PosmMint k lo hi l m0 m1 r) = [r]"
| "param_recipients (PosmTakePair c0 c1 r) = [r]"
| "param_recipients (PosmSweep c r) = [r]"
| "param_recipients p = []"

fun call_recipients :: "nfpm_call \<Rightarrow> address list" where
  "call_recipients (NfpmMint t0 t1 f lo hi d0 d1 m0 m1 r dl) = [r]"
| "call_recipients (NfpmCollect t r x0 x1) = [r]"
| "call_recipients c = []"

text \<open>What a plan takes out of which position, and the positions it names.\<close>

fun param_removals :: "posm_param \<Rightarrow> (int \<times> int) list" where
  "param_removals (PosmDecrease t l m0 m1) = [(t, l)]"
| "param_removals p = []"

fun call_removals :: "nfpm_call \<Rightarrow> (int \<times> int) list" where
  "call_removals (NfpmDecrease t l m0 m1 dl) = [(t, l)]"
| "call_removals c = []"

definition plan_removals :: "plan \<Rightarrow> (int \<times> int) list" where
  "plan_removals p =
    (case pl_body p of
       PosmBody params shape \<Rightarrow> concat (map param_removals params)
     | NfpmBody call collect shape \<Rightarrow>
         call_removals call @ (case collect of None \<Rightarrow> [] | Some c \<Rightarrow> call_removals c)
     | _ \<Rightarrow> [])"

fun param_tokens :: "posm_param \<Rightarrow> int set" where
  "param_tokens (PosmIncrease t l m0 m1) = {t}"
| "param_tokens (PosmDecrease t l m0 m1) = {t}"
| "param_tokens p = {}"

fun call_tokens :: "nfpm_call \<Rightarrow> int set" where
  "call_tokens (NfpmIncrease t d0 d1 m0 m1 dl) = {t}"
| "call_tokens (NfpmDecrease t l m0 m1 dl) = {t}"
| "call_tokens (NfpmCollect t r x0 x1) = {t}"
| "call_tokens c = {}"

definition plan_tokens :: "plan \<Rightarrow> int set" where
  "plan_tokens p =
    (case pl_body p of
       PosmBody params shape \<Rightarrow> \<Union> (set (map param_tokens params))
     | NfpmBody call collect shape \<Rightarrow> call_tokens call \<union> (case collect of None \<Rightarrow> {} | Some c \<Rightarrow> call_tokens c)
     | _ \<Rightarrow> {})"

text \<open>Liquidity leaves a position only in a decrease, and then it is what was asked of that position.\<close>

definition removes_asked :: "lp_intent \<Rightarrow> position_state option \<Rightarrow> plan \<Rightarrow> bool" where
  "removes_asked i position pl \<longleftrightarrow>
     plan_tokens pl \<subseteq> set_option (li_token_id i) \<and>
     (if li_op i = Decrease
      then (\<exists>t pos. li_token_id i = Some t \<and> position = Some pos \<and> 0 < li_liquidity i \<and>
              li_liquidity i \<le> pos_liquidity pos \<and> plan_removals pl = [(t, li_liquidity i)])
      else \<forall>(t, l) \<in> set (plan_removals pl). l = 0)"

definition plan_recipients :: "plan \<Rightarrow> address set" where
  "plan_recipients p =
    (case pl_body p of
       PosmBody params shape \<Rightarrow> set (concat (map param_recipients params))
     | NfpmBody call collect shape \<Rightarrow>
         set (call_recipients call) \<union> (case collect of None \<Rightarrow> {} | Some c \<Rightarrow> set (call_recipients c))
     | _ \<Rightarrow> {})"

lemmas plan_effects = plan_recipients_def plan_removals_def plan_tokens_def removes_asked_def

lemma plan_nfpm_Inr:
  assumes "plan_nfpm lib i p deadline shape manager position = Inr pl"
    and "li_op i \<noteq> Mint \<longrightarrow> li_token_id i \<noteq> None"
  shows "plan_recipients pl \<subseteq> {li_wallet i} \<and> pl_value pl = 0 \<and> pl_to pl = manager \<and> pl_permit pl = None \<and>
    (\<forall>a \<in> set (pl_approvals pl). an_spender a = manager \<and> an_approve_amount a = an_required a \<and>
       (an_token a, an_required a) \<in> {(p_token0 p, li_amount0 i), (p_token1 p, li_amount1 i)}) \<and>
    removes_asked i position pl"
proof (cases "li_op i")
  case Mint
  with assms show ?thesis
    by (auto simp: plan_nfpm_def Let_def bindr_eq_Inr adding_op_def plan_effects
        split: if_splits)
next
  case Increase
  with assms show ?thesis
    by (auto simp: plan_nfpm_def Let_def bindr_eq_Inr adding_op_def plan_effects
        split: if_splits)
next
  case Decrease
  with assms show ?thesis
    by (auto simp: plan_nfpm_def Let_def bindr_eq_Inr adding_op_def plan_effects
        split: option.splits if_splits)
next
  case Collect
  with assms show ?thesis
    by (auto simp: plan_nfpm_def Let_def bindr_eq_Inr adding_op_def plan_effects
        split: if_splits)
qed

lemma deposit_details_Inr:
  assumes "deposit_details i p deadline nonces = Inr ds" and "d \<in> set ds"
  shows "(pd_token d, pd_amount d) \<in> {(p_token0 p, li_amount0 i), (p_token1 p, li_amount1 i)}"
proof -
  let ?f = "\<lambda>(token, amount). case map_of nonces token of
         None \<Rightarrow> Inl (Py (KeyError token))
       | Some nonce \<Rightarrow> Inr \<lparr>pd_token = token, pd_amount = amount, pd_expiration = deadline, pd_nonce = nonce\<rparr>"
  let ?xs = "filter (\<lambda>(token, amount). token \<noteq> NATIVE \<and> amount > 0) [(p_token0 p, li_amount0 i), (p_token1 p, li_amount1 i)]"
  from map_res_member [OF assms(1) [unfolded deposit_details_def] assms(2)]
  obtain x where x: "x \<in> set ?xs" "?f x = Inr d" by (elim bexE)
  from x(2) have "(pd_token d, pd_amount d) = x" by (cases x) (auto split: option.splits)
  with x(1) show ?thesis by (auto split: if_splits)
qed

lemma posm_deposit_Inr:
  assumes "posm_deposit lib i p key deadline shape sqrt_p nonces = Inr pl"
  obtains a b l details where
    "sqrt_ratio_at_tick (ls_tick_lower shape) = Inr a" "sqrt_ratio_at_tick (ls_tick_upper shape) = Inr b"
    "liquidity_for_amounts sqrt_p a b (li_amount0 i) (li_amount1 i) = Inr l" "0 < l"
    "deposit_details i p deadline nonces = Inr details"
    "pl_body pl = PosmBody (deposit_params i p key shape l) (shape\<lparr>ls_liquidity := l\<rparr>)"
    "pl_to pl = POSM" "pl_value pl = (if p_token0 p = NATIVE then li_amount0 i else 0)"
    "pl_permit pl = (if details = [] then None
       else Some (BatchPermit \<lparr>pb_details = details, pb_spender = POSM, pb_sig_deadline = deadline\<rparr>))"
    "pl_approvals pl = map (\<lambda>d. \<lparr>an_token = pd_token d, an_spender = PERMIT2,
       an_approve_amount = MAX_UINT256, an_required = pd_amount d\<rparr>) details"
proof -
  from assms obtain a b l where
    abl: "sqrt_ratio_at_tick (ls_tick_lower shape) = Inr a" "sqrt_ratio_at_tick (ls_tick_upper shape) = Inr b"
      "liquidity_for_amounts sqrt_p a b (li_amount0 i) (li_amount1 i) = Inr l"
    unfolding posm_deposit_def by (elim bindr_InrE) (simp add: lift_py_eq_Inr)
  with assms have l: "0 < l"
    by (cases "0 < l") (simp_all add: posm_deposit_def)
  with assms abl have rest: "bindr (deposit_details i p deadline nonces) (\<lambda>details.
         bindr (lift_py (map_res (\<lambda>d. permit2_staging lib (pd_token d) POSM (pd_amount d) deadline) details)) (\<lambda>staging.
           Inr \<lparr>pl_to = POSM, pl_value = (if p_token0 p = NATIVE then li_amount0 i else 0), pl_deadline = deadline,
                pl_body = PosmBody (deposit_params i p key shape l) (shape\<lparr>ls_liquidity := l\<rparr>),
                pl_approvals = map (\<lambda>d. \<lparr>an_token = pd_token d, an_spender = PERMIT2,
                    an_approve_amount = MAX_UINT256, an_required = pd_amount d\<rparr>) details,
                pl_permit = (if details = [] then None
                  else Some (BatchPermit \<lparr>pb_details = details, pb_spender = POSM, pb_sig_deadline = deadline\<rparr>)),
                pl_staging = concat staging, pl_signature = None\<rparr>)) = Inr pl"
    by (simp add: posm_deposit_def)
  from rest obtain details where d: "deposit_details i p deadline nonces = Inr details" and
    "bindr (lift_py (map_res (\<lambda>d. permit2_staging lib (pd_token d) POSM (pd_amount d) deadline) details)) (\<lambda>staging.
           Inr \<lparr>pl_to = POSM, pl_value = (if p_token0 p = NATIVE then li_amount0 i else 0), pl_deadline = deadline,
                pl_body = PosmBody (deposit_params i p key shape l) (shape\<lparr>ls_liquidity := l\<rparr>),
                pl_approvals = map (\<lambda>d. \<lparr>an_token = pd_token d, an_spender = PERMIT2,
                    an_approve_amount = MAX_UINT256, an_required = pd_amount d\<rparr>) details,
                pl_permit = (if details = [] then None
                  else Some (BatchPermit \<lparr>pb_details = details, pb_spender = POSM, pb_sig_deadline = deadline\<rparr>)),
                pl_staging = concat staging, pl_signature = None\<rparr>) = Inr pl"
    by (rule bindr_InrE)
  from this(2) show ?thesis
    by (rule bindr_InrE) (rule that [OF abl l d], auto)
qed

lemma plan_posm_Inr:
  assumes "plan_posm lib i p deadline shape sqrt_p position nonces = Inr pl"
    and token: "li_op i \<noteq> Mint \<longrightarrow> li_token_id i \<noteq> None"
  shows "plan_recipients pl \<subseteq> {li_wallet i} \<and> pl_to pl = POSM \<and>
    pl_value pl = (if adding_op (li_op i) \<and> p_token0 p = NATIVE then li_amount0 i else 0) \<and>
    (\<forall>a \<in> set (pl_approvals pl). an_spender a = PERMIT2 \<and>
       (an_token a, an_required a) \<in> {(p_token0 p, li_amount0 i), (p_token1 p, li_amount1 i)}) \<and>
    removes_asked i position pl"
proof (cases "adding_op (li_op i)")
  case True
  with assms obtain key where "posm_deposit lib i p key deadline shape sqrt_p nonces = Inr pl"
    by (auto simp: plan_posm_def bindr_eq_Inr)
  then obtain a b l details where d: "deposit_details i p deadline nonces = Inr details"
    and pl: "pl_body pl = PosmBody (deposit_params i p key shape l) (shape\<lparr>ls_liquidity := l\<rparr>)"
    "pl_to pl = POSM" "pl_value pl = (if p_token0 p = NATIVE then li_amount0 i else 0)"
    "pl_approvals pl = map (\<lambda>d. \<lparr>an_token = pd_token d, an_spender = PERMIT2,
       an_approve_amount = MAX_UINT256, an_required = pd_amount d\<rparr>) details"
    by (rule posm_deposit_Inr)
  have "plan_recipients pl \<subseteq> {li_wallet i} \<and> removes_asked i position pl"
    using pl(1) True token by (auto simp: plan_effects deposit_params_def adding_op_def split: if_splits)
  moreover have "an_spender a = PERMIT2 \<and>
      (an_token a, an_required a) \<in> {(p_token0 p, li_amount0 i), (p_token1 p, li_amount1 i)}"
    if "a \<in> set (pl_approvals pl)" for a
  proof -
    from that obtain e where e: "e \<in> set details" "a = \<lparr>an_token = pd_token e, an_spender = PERMIT2,
        an_approve_amount = MAX_UINT256, an_required = pd_amount e\<rparr>"
      unfolding pl(4) by auto
    show ?thesis using deposit_details_Inr [OF d e(1)] e(2) by simp
  qed
  ultimately show ?thesis using pl(2,3) True by simp
next
  case False
  with assms show ?thesis
    by (cases "li_op i") (auto simp: plan_posm_def bindr_eq_Inr Let_def plan_effects adding_op_def
        split: option.splits if_splits)
qed

text \<open>
  C10. A liquidity plan pays no one but the wallet, sends native coin only as the first token of a
  deposit and then exactly the offered amount, asks approvals for the offered amounts only, to
  the position manager or to Permit2, and acts on no position but the one the intent names. It
  removes liquidity only when asked to decrease, once, from that position, exactly the amount asked,
  which is positive and within the position's.
\<close>

theorem lp_plan_custody:
  assumes "plan_lp lib i p deadline sqrt_p position nonces = Inr pl"
  shows "plan_recipients pl \<subseteq> {li_wallet i} \<and> manager_for p = Some (pl_to pl) \<and>
    pl_value pl = (if adding_op (li_op i) \<and> pl_to pl = POSM \<and> p_token0 p = NATIVE then li_amount0 i else 0) \<and>
    (\<forall>a \<in> set (pl_approvals pl). an_spender a = (if pl_to pl = POSM then PERMIT2 else pl_to pl) \<and>
       (an_token a, an_required a) \<in> {(p_token0 p, li_amount0 i), (p_token1 p, li_amount1 i)}) \<and>
    removes_asked i position pl"
proof -
  from assms obtain manager where m: "manager_for p = Some manager"
    by (cases "manager_for p") (auto simp: plan_lp_def)
  with assms obtain lo hi where
    "(let shape = \<lparr>ls_wallet = li_wallet i, ls_op = li_op i, ls_pool = p, ls_manager = manager,
                 ls_token_id = li_token_id i, ls_tick_lower = lo, ls_tick_upper = hi,
                 ls_liquidity = li_liquidity i\<rparr>
           in if manager = POSM then plan_posm lib i p deadline shape sqrt_p position nonces
              else plan_nfpm lib i p deadline shape manager position) = Inr pl"
    by (auto simp: plan_lp_def bindr_eq_Inr)
  moreover have token: "li_op i \<noteq> Mint \<longrightarrow> li_token_id i \<noteq> None"
    using assms m by (auto simp: plan_lp_def bindr_eq_Inr plan_ticks_def split: option.splits)
  ultimately obtain shape where
    "if manager = POSM then plan_posm lib i p deadline shape sqrt_p position nonces = Inr pl
     else plan_nfpm lib i p deadline shape manager position = Inr pl"
    unfolding Let_def by (auto split: if_splits)
  then consider "manager = POSM" "plan_posm lib i p deadline shape sqrt_p position nonces = Inr pl"
    | "manager \<noteq> POSM" "plan_nfpm lib i p deadline shape manager position = Inr pl"
    by (auto split: if_splits)
  then show ?thesis
  proof cases
    case 1
    show ?thesis using plan_posm_Inr [OF 1(2) token] m 1(1) by simp
  next
    case 2
    show ?thesis using plan_nfpm_Inr [OF 2(2) token] m 2(1) by simp
  qed
qed

lemma sample_lp_plan:
  assumes "li_op i = Decrease" and "p_venue p = V4" and "li_token_id i = Some t" and "position = Some pos"
    and "0 < li_liquidity i" and "li_liquidity i \<le> pos_liquidity pos"
  shows "plan_lp lib i p deadline sqrt_p position nonces =
    Inr \<lparr>pl_to = POSM, pl_value = 0, pl_deadline = deadline,
      pl_body = PosmBody [PosmDecrease t (li_liquidity i) 0 0, PosmTakePair (p_token0 p) (p_token1 p) (li_wallet i)]
        \<lparr>ls_wallet = li_wallet i, ls_op = Decrease, ls_pool = p, ls_manager = POSM, ls_token_id = Some t,
         ls_tick_lower = pos_tick_lower pos, ls_tick_upper = pos_tick_upper pos, ls_liquidity = li_liquidity i\<rparr>,
      pl_approvals = [], pl_permit = None, pl_staging = [], pl_signature = None\<rparr>"
  using assms by (simp add: plan_lp_def manager_for_def plan_ticks_def plan_posm_def pool_key_of_def adding_op_def Let_def)

definition sample_lp_intent :: lp_intent where
  "sample_lp_intent = \<lparr>li_wallet = ''0xcc'', li_op = Decrease, li_pool_id = ''0xbb'', li_slippage_bps = 50,
     li_tick_lower = 0, li_tick_upper = 0, li_amount0 = 0, li_amount1 = 0, li_liquidity = 7, li_token_id = Some 9\<rparr>"

definition sample_removal :: plan where
  "sample_removal = \<lparr>pl_to = POSM, pl_value = 0, pl_deadline = 77,
      pl_body = PosmBody [PosmDecrease 9 7 0 0, PosmTakePair WETH ''0xff'' ''0xcc'']
        \<lparr>ls_wallet = ''0xcc'', ls_op = Decrease, ls_pool = pons_pool, ls_manager = POSM, ls_token_id = Some 9,
         ls_tick_lower = - 10, ls_tick_upper = 10, ls_liquidity = 7\<rparr>,
      pl_approvals = [], pl_permit = None, pl_staging = [], pl_signature = None\<rparr>"

lemma sample_removal_planned:
  "plan_lp counting_lib sample_lp_intent pons_pool 77 (2 ^ 96)
     (Some \<lparr>pos_tick_lower = - 10, pos_tick_upper = 10, pos_liquidity = 8\<rparr>) [] = Inr sample_removal"
  by (simp add: sample_lp_plan sample_lp_intent_def pons_pool_def sample_removal_def sample_pool_def)

theorem lp_plan_custody_witness:
  "plan_recipients sample_removal \<subseteq> {''0xcc''} \<and> manager_for pons_pool = Some (pl_to sample_removal) \<and>
   plan_removals sample_removal = [(9, 7)]"
  using lp_plan_custody [OF sample_removal_planned]
  by (simp add: sample_lp_intent_def removes_asked_def)

text \<open>
  A V4 deposit can always be paid from what the wallet offered: the plan's position has
  positive liquidity, the pool's price for it, rounded up, is within both offers, and the permit
  lets the position manager pull the offered amounts and no more.
\<close>

theorem deposit_within_offer:
  assumes "plan_lp lib i p deadline sqrt_p position nonces = Inr pl"
    and "adding_op (li_op i)" and "p_venue p = V4" and "0 \<le> li_amount0 i" and "0 \<le> li_amount1 i"
    and "\<forall>pos. position = Some pos \<longrightarrow> pos_tick_lower pos < pos_tick_upper pos"
  shows "\<exists>params shape need0 need1. pl_body pl = PosmBody params shape \<and> 0 < ls_liquidity shape \<and>
    principal_for_liquidity sqrt_p (ls_tick_lower shape) (ls_tick_upper shape) (ls_liquidity shape) True = Inr (need0, need1) \<and>
    need0 \<le> li_amount0 i \<and> need1 \<le> li_amount1 i \<and>
    (\<forall>b \<in> set_option (pl_permit pl). \<exists>batch. b = BatchPermit batch \<and> pb_spender batch = POSM \<and>
      (\<forall>d \<in> set (pb_details batch).
        (pd_token d, pd_amount d) \<in> {(p_token0 p, li_amount0 i), (p_token1 p, li_amount1 i)}))"
proof -
  from assms(3) have m: "manager_for p = Some POSM" by (simp add: manager_for_def)
  from assms(1) have "bindr (plan_ticks i p position) (\<lambda>(lo, hi).
       let shape = \<lparr>ls_wallet = li_wallet i, ls_op = li_op i, ls_pool = p, ls_manager = POSM,
                 ls_token_id = li_token_id i, ls_tick_lower = lo, ls_tick_upper = hi,
                 ls_liquidity = li_liquidity i\<rparr>
       in if POSM = POSM then plan_posm lib i p deadline shape sqrt_p position nonces
          else plan_nfpm lib i p deadline shape POSM position) = Inr pl"
    unfolding plan_lp_def m option.case .
  then obtain ticks where t: "plan_ticks i p position = Inr ticks" and
    step: "(case ticks of (lo, hi) \<Rightarrow>
       let shape = \<lparr>ls_wallet = li_wallet i, ls_op = li_op i, ls_pool = p, ls_manager = POSM,
                 ls_token_id = li_token_id i, ls_tick_lower = lo, ls_tick_upper = hi,
                 ls_liquidity = li_liquidity i\<rparr>
       in if POSM = POSM then plan_posm lib i p deadline shape sqrt_p position nonces
          else plan_nfpm lib i p deadline shape POSM position) = Inr pl"
    by (rule bindr_InrE)
  obtain lo hi where lh: "ticks = (lo, hi)" by (cases ticks)
  have ord: "lo < hi"
    using t lh assms(6) by (auto simp: plan_ticks_def Let_def split: if_splits option.splits)
  define shape where "shape = \<lparr>ls_wallet = li_wallet i, ls_op = li_op i, ls_pool = p, ls_manager = POSM,
                 ls_token_id = li_token_id i, ls_tick_lower = lo, ls_tick_upper = hi,
                 ls_liquidity = li_liquidity i\<rparr>"
  have ticks: "ls_tick_lower shape = lo" "ls_tick_upper shape = hi" by (simp_all add: shape_def)
  from step lh have "plan_posm lib i p deadline shape sqrt_p position nonces = Inr pl"
    by (simp add: Let_def shape_def)
  with assms(2) obtain key where "posm_deposit lib i p key deadline shape sqrt_p nonces = Inr pl"
    by (auto simp: plan_posm_def bindr_eq_Inr)
  then obtain a b l details where
    r: "sqrt_ratio_at_tick lo = Inr a" "sqrt_ratio_at_tick hi = Inr b"
      "liquidity_for_amounts sqrt_p a b (li_amount0 i) (li_amount1 i) = Inr l" "0 < l"
    and d: "deposit_details i p deadline nonces = Inr details"
    and pl: "pl_body pl = PosmBody (deposit_params i p key shape l) (shape\<lparr>ls_liquidity := l\<rparr>)"
      "pl_permit pl = (if details = [] then None
         else Some (BatchPermit \<lparr>pb_details = details, pb_spender = POSM, pb_sig_deadline = deadline\<rparr>))"
    unfolding ticks [symmetric] by (rule posm_deposit_Inr)
  from liquidity_within_offer_aux [OF r(1,2) ord r(3) assms(4,5)] obtain need0 need1 where
    need: "principal_for_liquidity sqrt_p lo hi l True = Inr (need0, need1)" "need0 \<le> li_amount0 i" "need1 \<le> li_amount1 i"
    by blast
  have permit: "\<forall>b \<in> set_option (pl_permit pl). \<exists>batch. b = BatchPermit batch \<and> pb_spender batch = POSM \<and>
      (\<forall>d \<in> set (pb_details batch).
        (pd_token d, pd_amount d) \<in> {(p_token0 p, li_amount0 i), (p_token1 p, li_amount1 i)})"
    using deposit_details_Inr [OF d] unfolding pl(2) by simp
  show ?thesis
    using pl(1) r(4) need permit ticks by auto
qed

definition native_pool :: pool where
  "native_pool = sample_pool\<lparr>p_venue := V4, p_token0 := NATIVE, p_hook := NATIVE\<rparr>"

definition deposit_intent :: lp_intent where
  "deposit_intent = sample_lp_intent\<lparr>li_op := Increase, li_amount0 := 1000, li_amount1 := 0\<rparr>"

definition narrow_position :: position_state where
  "narrow_position = \<lparr>pos_tick_lower = - 10, pos_tick_upper = 10, pos_liquidity = 0\<rparr>"

lemma deposit_planned:
  "\<exists>pl. plan_lp counting_lib deposit_intent native_pool 77 (2 ^ 95) (Some narrow_position) [] = Inr pl"
proof -
  have "liquidity_for_amounts (2 ^ 95) 79188560314459151373725315960 79267784519130042428790663799 1000 0 = Inr 1000049"
    by code_simp
  moreover have "deposit_details deposit_intent native_pool 77 [] = Inr []"
    by (simp add: deposit_details_def deposit_intent_def native_pool_def)
  moreover have fields: "li_op deposit_intent = Increase" "li_token_id deposit_intent = Some 9"
    "li_amount0 deposit_intent = 1000" "li_amount1 deposit_intent = 0" "p_venue native_pool = V4"
    "manager_for native_pool = Some POSM"
    by (simp_all add: deposit_intent_def sample_lp_intent_def native_pool_def manager_for_def)
  ultimately have "\<exists>pl. posm_deposit counting_lib deposit_intent native_pool key 77 shape (2 ^ 95) [] = Inr pl"
    if "ls_tick_lower shape = - 10" "ls_tick_upper shape = 10" for key shape
    using that by (simp add: posm_deposit_def sqrt_ratio_10)
  moreover have "plan_ticks deposit_intent native_pool (Some narrow_position) = Inr (- 10, 10)"
    by (simp add: plan_ticks_def fields narrow_position_def)
  moreover have "pool_key_of native_pool = Inr
      \<lparr>key_currency0 = p_token0 native_pool, key_currency1 = p_token1 native_pool, key_fee = p_fee_ppm native_pool,
       key_tick_spacing = p_tick_spacing native_pool, key_hooks = p_hook native_pool\<rparr>"
    by (simp add: pool_key_of_def fields)
  ultimately show ?thesis
    by (simp add: plan_lp_def fields plan_posm_def adding_op_def Let_def)
qed

theorem deposit_within_offer_witness:
  "\<exists>(pl :: plan) params shape need0 need1. pl_body pl = PosmBody params shape \<and> 0 < ls_liquidity shape \<and>
    principal_for_liquidity (2 ^ 95) (ls_tick_lower shape) (ls_tick_upper shape) (ls_liquidity shape) True = Inr (need0, need1) \<and>
    need0 \<le> li_amount0 deposit_intent \<and> need1 \<le> li_amount1 deposit_intent \<and>
    (\<forall>b \<in> set_option (pl_permit pl). \<exists>batch. b = BatchPermit batch \<and> pb_spender batch = POSM \<and>
      (\<forall>d \<in> set (pb_details batch). (pd_token d, pd_amount d) \<in>
        {(p_token0 native_pool, li_amount0 deposit_intent), (p_token1 native_pool, li_amount1 deposit_intent)}))"
proof -
  obtain pl where pl: "plan_lp counting_lib deposit_intent native_pool 77 (2 ^ 95) (Some narrow_position) [] = Inr pl"
    using deposit_planned by blast
  show ?thesis
    by (rule exI [of _ pl], rule deposit_within_offer [OF pl])
      (simp_all add: deposit_intent_def sample_lp_intent_def adding_op_def native_pool_def narrow_position_def)
qed

text \<open>
  The bounds that protect a liquidity change: a V4 deposit may cost at most the simulated
  amount plus the slippage, rounded up by less than one unit; a V3 deposit and a withdrawal
  accept at least the simulated principal less the slippage, rounded down; a fee collection has
  no bound. Simulated amounts are never negative.
\<close>

theorem lp_amounts_bounded:
  assumes "lp_amounts_of lib shape l slippage sqrt_p = Inr a"
  shows "0 \<le> la_amount0 a \<and> 0 \<le> la_amount1 a \<and>
    (adding_op (ls_op shape) \<and> ls_manager shape = POSM \<longrightarrow>
       (\<forall>k. la_bound0 a \<le> k \<longleftrightarrow> la_amount0 a * (10000 + slippage) \<le> k * 10000) \<and>
       (\<forall>k. la_bound1 a \<le> k \<longleftrightarrow> la_amount1 a * (10000 + slippage) \<le> k * 10000)) \<and>
    (adding_op (ls_op shape) \<and> ls_manager shape \<noteq> POSM \<longrightarrow>
       (\<forall>k. k \<le> la_bound0 a \<longleftrightarrow> k * 10000 \<le> la_amount0 a * (10000 - slippage)) \<and>
       (\<forall>k. k \<le> la_bound1 a \<longleftrightarrow> k * 10000 \<le> la_amount1 a * (10000 - slippage))) \<and>
    (ls_op shape = Decrease \<longrightarrow>
       (\<forall>k. k \<le> la_bound0 a \<longleftrightarrow> k * 10000 \<le> (la_amount0 a - opt0 (la_fees0 a)) * (10000 - slippage)) \<and>
       (\<forall>k. k \<le> la_bound1 a \<longleftrightarrow> k * 10000 \<le> (la_amount1 a - opt0 (la_fees1 a)) * (10000 - slippage))) \<and>
    (ls_op shape = Collect \<longrightarrow> la_bound0 a = 0 \<and> la_bound1 a = 0)"
proof -
  from assms obtain tk ex where
    step: "(case ex of (liquidity, amount0, amount1, fees0, fees1) \<Rightarrow>
       if amount0 < 0 \<or> amount1 < 0 then Inl (TxError ''unmodeled_fee'' ''negative liquidity flow'')
       else (let (b0, b1) = lp_bounds shape slippage (liquidity, amount0, amount1, fees0, fees1) in
         Inr \<lparr>la_liquidity = liquidity, la_amount0 = amount0, la_amount1 = amount1, la_fees0 = fees0,
              la_fees1 = fees1, la_token_id = tk, la_bound0 = b0, la_bound1 = b1\<rparr>)) = Inr a"
    unfolding lp_amounts_of_def by (elim bindr_InrE) blast
  obtain q x y f g where ex: "ex = (q, x, y, f, g)" by (cases ex)
  from step have fields: "0 \<le> x" "0 \<le> y" "la_amount0 a = x" "la_amount1 a = y" "la_fees0 a = f" "la_fees1 a = g"
    "(la_bound0 a, la_bound1 a) = lp_bounds shape slippage (q, x, y, f, g)"
    by (auto simp: ex split: if_splits prod.splits)
  have up: "bound_up n slippage \<le> k \<longleftrightarrow> n * (10000 + slippage) \<le> k * 10000" for n k
  proof -
    have "bound_up n slippage \<le> k \<longleftrightarrow> - k \<le> - n * (10000 + slippage) div 10000"
      by (auto simp: bound_up_def)
    then show ?thesis by (simp add: le_floor_div_iff algebra_simps)
  qed
  have down: "k \<le> min_out_for n slippage \<longleftrightarrow> k * 10000 \<le> n * (10000 - slippage)" for n k
    by (simp add: min_out_for_def le_floor_div_iff)
  show ?thesis
    using fields by (cases "ls_op shape"; cases "ls_manager shape = POSM")
      (simp_all add: lp_bounds_def adding_op_def up down)
qed

definition sample_lp_shape :: lp_shape where
  "sample_lp_shape = \<lparr>ls_wallet = ''0xcc'', ls_op = Increase, ls_pool = pons_pool, ls_manager = POSM,
     ls_token_id = Some 9, ls_tick_lower = - 10, ls_tick_upper = 10, ls_liquidity = 55\<rparr>"

definition sample_ledger :: ledger where
  "sample_ledger = \<lparr>transfers = [(WETH, ''0xcc'', POOL_MANAGER, 333)], swaps = [], nft_mints = [], nfpm_events = [],
     liquidity_deltas = [(''0xaa'', 55)], native_traced = True, native_flows = []\<rparr>"

definition sample_lp_amounts :: lp_amounts where
  "sample_lp_amounts = \<lparr>la_liquidity = 55, la_amount0 = 333, la_amount1 = 0, la_fees0 = None, la_fees1 = None,
     la_token_id = Some 9, la_bound0 = 335, la_bound1 = 0\<rparr>"

lemma sample_lp_executed:
  "lp_amounts_of counting_lib sample_lp_shape sample_ledger 50 None = Inr sample_lp_amounts"
proof -
  have "lower ''0xcc'' = ''0xcc''" by code_simp
  moreover have "POOL_MANAGER \<noteq> ''0xcc''" "WETH \<noteq> ''0xff''" "WETH \<noteq> NATIVE" "''0xff'' \<noteq> NATIVE"
    by (simp_all add: POOL_MANAGER_def WETH_def NATIVE_def)
  ultimately show ?thesis
    by (simp add: lp_amounts_of_def minted_token_def posm_executed_def flow_def received_def sent_def
        sample_lp_shape_def sample_ledger_def pons_pool_def sample_pool_def adding_op_def lp_bounds_def
        bound_up_def sample_lp_amounts_def Let_def)
qed

theorem lp_amounts_bounded_witness:
  "0 \<le> la_amount0 sample_lp_amounts \<and> (\<forall>k. la_bound0 sample_lp_amounts \<le> k \<longleftrightarrow> 333 * (10000 + 50) \<le> k * 10000)"
  using lp_amounts_bounded [OF sample_lp_executed]
  by (simp add: sample_lp_shape_def adding_op_def sample_lp_amounts_def)

fun param_bounds :: "posm_param \<Rightarrow> (int \<times> int) list" where
  "param_bounds (PosmMint k lo hi l m0 m1 r) = [(m0, m1)]"
| "param_bounds (PosmIncrease t l m0 m1) = [(m0, m1)]"
| "param_bounds (PosmDecrease t l m0 m1) = [(m0, m1)]"
| "param_bounds p = []"

fun call_bounds :: "nfpm_call \<Rightarrow> (int \<times> int) list" where
  "call_bounds (NfpmMint t0 t1 f lo hi d0 d1 m0 m1 r dl) = [(m0, m1)]"
| "call_bounds (NfpmIncrease t d0 d1 m0 m1 dl) = [(m0, m1)]"
| "call_bounds (NfpmDecrease t l m0 m1 dl) = [(m0, m1)]"
| "call_bounds (NfpmCollect t r x0 x1) = []"

definition plan_bounds :: "plan \<Rightarrow> (int \<times> int) list" where
  "plan_bounds p =
    (case pl_body p of
       PosmBody params shape \<Rightarrow> concat (map param_bounds params)
     | NfpmBody call collect shape \<Rightarrow> call_bounds call
     | _ \<Rightarrow> [])"

lemma bound_param_facts:
  "param_recipients (bound_param b0 b1 q) = param_recipients q"
  "param_removals (bound_param b0 b1 q) = param_removals q"
  "param_bounds (bound_param b0 b1 q) = map (\<lambda>_. (b0, b1)) (param_bounds q)"
  by (cases q; simp)+

lemma bound_call_facts:
  "call_recipients (bound_call b0 b1 c) = call_recipients c"
  "call_removals (bound_call b0 b1 c) = call_removals c"
  "call_bounds (bound_call b0 b1 c) = map (\<lambda>_. (b0, b1)) (call_bounds c)"
  by (cases c; simp)+

text \<open>
  Finalising a liquidity plan writes the two bounds into every call or action that takes
  them and changes nothing else a wallet cares about: not the target, the value, the recipients,
  the liquidity removed, the permit or the approvals. It fails only for a missing signature or a
  plan that is not a liquidity plan.
\<close>

theorem finalize_lp_bounds:
  "case finalize_lp p (b0, b1) sig of
     Inr p' \<Rightarrow> plan_bounds p' = map (\<lambda>_. (b0, b1)) (plan_bounds p) \<and> pl_to p' = pl_to p \<and>
       pl_value p' = pl_value p \<and> pl_deadline p' = pl_deadline p \<and> plan_recipients p' = plan_recipients p \<and>
       plan_removals p' = plan_removals p \<and> pl_permit p' = pl_permit p \<and> pl_approvals p' = pl_approvals p
   | Inl e \<Rightarrow> (e = TxError ''permit_required'' ''the quote needs a Permit2 batch signature'' \<and>
         pl_permit p \<noteq> None \<and> sig = None) \<or>
       (e = TxError ''internal'' ''not an lp plan'' \<and> plan_bounds p = [])"
proof (cases "pl_body p")
  case (NfpmBody call collect shape)
  then show ?thesis
    by (simp add: finalize_lp_def plan_bounds_def plan_recipients_def plan_removals_def bound_call_facts)
next
  case (PosmBody params shape)
  then show ?thesis
    by (auto simp: finalize_lp_def plan_bounds_def plan_recipients_def plan_removals_def bound_param_facts
        map_concat o_def)
qed (simp_all add: finalize_lp_def plan_bounds_def)

end
