(* ===== verification/Tx_Split.thy ===== *)
theory Tx_Split
  imports Tx_Swap
begin

text \<open>
  \<^verbatim>\<open>allocate_split\<close> of \<^verbatim>\<open>src/rhpools/tx_core.py\<close>: the order is cut into ten shares, and each share
  goes to the route whose sampled output grows most. A curve is the table of a route's outputs at
  0 to 10 shares, as a function; a point that could not be sampled is \<open>None\<close>.
\<close>

definition SPLIT_STEPS :: nat where "SPLIT_STEPS = 10"

type_synonym curve = "nat \<Rightarrow> int option"

text \<open>What one more share adds, where both points are known.\<close>

definition gain :: "curve \<Rightarrow> nat \<Rightarrow> int option" where
  "gain curve count =
    (case (curve count, curve (count + 1)) of
       (Some a, Some b) \<Rightarrow> if count < SPLIT_STEPS then Some (b - a) else None
     | _ \<Rightarrow> None)"

definition used_routes :: "nat list \<Rightarrow> nat" where
  "used_routes counts = length (filter (\<lambda>c. c > 0) counts)"

definition split_options :: "curve list \<Rightarrow> nat list \<Rightarrow> (int \<times> nat) list" where
  "split_options curves counts =
     concat (map (\<lambda>i.
       case gain (curves ! i) (counts ! i) of
         Some g \<Rightarrow> if counts ! i > 0 \<or> used_routes counts < 3 then [(g, i)] else []
       | None \<Rightarrow> []) [0..<length curves])"

text \<open>\<^verbatim>\<open>max(options)[1]\<close>: the largest gain, and of equal gains the last route.\<close>

fun best_option :: "(int \<times> nat) list \<Rightarrow> (int \<times> nat) option" where
  "best_option [] = None"
| "best_option ((g, i) # os) =
    (case best_option os of
       None \<Rightarrow> Some (g, i)
     | Some (h, j) \<Rightarrow> if h < g \<or> (h = g \<and> j < i) then Some (g, i) else Some (h, j))"

fun allocate_steps :: "nat \<Rightarrow> curve list \<Rightarrow> nat list \<Rightarrow> tx_exn + nat list" where
  "allocate_steps 0 curves counts = Inr counts"
| "allocate_steps (Suc n) curves counts =
    (case best_option (split_options curves counts) of
       None \<Rightarrow> Inl (TxError ''no_route'' ''no executable split allocation'')
     | Some (g, i) \<Rightarrow> allocate_steps n curves (counts[i := counts ! i + 1]))"

definition share_legs :: "route list \<Rightarrow> curve list \<Rightarrow> nat list \<Rightarrow> int \<Rightarrow> split_leg list" where
  "share_legs routes curves counts amount =
     map (\<lambda>(r, curve, count). \<lparr>sl_route = r, sl_amount_in = amount * int count div int SPLIT_STEPS,
         sl_amount_out = (case curve count of None \<Rightarrow> 0 | Some v \<Rightarrow> v)\<rparr>)
       (filter (\<lambda>(r, curve, count). count > 0) (zip routes (zip curves counts)))"

definition with_remainder :: "split_leg list \<Rightarrow> int \<Rightarrow> split_leg list" where
  "with_remainder legs amount =
     butlast legs @ [last legs\<lparr>sl_amount_in := sl_amount_in (last legs) + (amount - sum_list (map sl_amount_in legs))\<rparr>]"

definition allocate_split :: "route list \<Rightarrow> curve list \<Rightarrow> int \<Rightarrow> tx_exn + split" where
  "allocate_split routes curves amount =
     bindr (allocate_steps SPLIT_STEPS curves (replicate (length routes) 0)) (\<lambda>counts.
       lift_py (make_split (with_remainder (share_legs routes curves counts amount) amount)))"

section \<open>Every share is placed once\<close>

lemma best_option_member: "best_option os = Some o1 \<Longrightarrow> o1 \<in> set os"
  by (induction os arbitrary: o1 rule: best_option.induct) (auto split: option.splits if_splits)

lemma best_option_None: "best_option os = None \<longleftrightarrow> os = []"
  by (induction os rule: best_option.induct) (auto split: option.splits if_splits)

lemma best_option_greatest: "best_option os = Some (g, i) \<Longrightarrow> (h, j) \<in> set os \<Longrightarrow> h \<le> g"
proof (induction os arbitrary: g i rule: best_option.induct)
  case (2 g1 i1 os)
  show ?case
  proof (cases "best_option os")
    case None
    with 2 show ?thesis by (auto simp: best_option_None)
  next
    case (Some o1)
    obtain a b where o1: "o1 = (a, b)" by (cases o1)
    have "(h, j) = (g1, i1) \<or> h \<le> a" using 2(1) [OF Some [unfolded o1]] 2(3) by auto
    with 2(2) Some o1 show ?thesis by (auto split: if_splits)
  qed
qed simp

lemma split_options_iff:
  "(g, i) \<in> set (split_options curves counts) \<longleftrightarrow>
    i < length curves \<and> gain (curves ! i) (counts ! i) = Some g \<and> (counts ! i > 0 \<or> used_routes counts < 3)"
  by (auto simp: split_options_def split: option.splits if_splits)

lemma used_routes_update:
  assumes "i < length counts" and "counts ! i > 0 \<or> used_routes counts < 3" and "used_routes counts \<le> 3"
  shows "used_routes (counts[i := counts ! i + 1]) \<le> 3"
proof -
  have "length (filter (\<lambda>c. c > 0) (xs[i := xs ! i + 1])) = length (filter (\<lambda>c. c > 0) xs) + (if xs ! i > 0 then 0 else 1)"
    if "i < length xs" for xs :: "nat list" and i
    using that
  proof (induction xs arbitrary: i)
    case (Cons x xs)
    then show ?case
    proof (cases i)
      case (Suc k)
      with Cons have "length (filter (\<lambda>c. c > 0) (xs[k := xs ! k + 1])) = length (filter (\<lambda>c. c > 0) xs) + (if xs ! k > 0 then 0 else 1)"
        by simp
      with Suc show ?thesis by (cases "xs ! k > 0") simp_all
    qed simp
  qed simp
  from this [OF assms(1)] assms(2,3) show ?thesis by (auto simp: used_routes_def split: if_splits)
qed

lemma sum_list_bump: "i < length (xs :: nat list) \<Longrightarrow> sum_list (xs[i := xs ! i + 1]) = sum_list xs + 1"
  by (simp add: sum_list_update)

lemma allocate_steps_counts:
  assumes "allocate_steps n curves counts = Inr counts'" and "length counts = length curves" and "used_routes counts \<le> 3"
  shows "length counts' = length curves \<and> sum_list counts' = sum_list counts + n \<and> used_routes counts' \<le> 3"
  using assms
proof (induction n arbitrary: counts)
  case (Suc n)
  from Suc.prems(1) obtain g i where b: "best_option (split_options curves counts) = Some (g, i)"
    and rec: "allocate_steps n curves (counts[i := counts ! i + 1]) = Inr counts'"
    by (auto split: option.splits)
  have i: "i < length curves" "counts ! i > 0 \<or> used_routes counts < 3"
    using best_option_member [OF b] by (simp_all add: split_options_iff)
  show ?case
    using Suc.IH [OF rec] Suc.prems(2,3) i used_routes_update [of i counts] sum_list_bump [of i counts] by simp
qed simp

section \<open>The legs add up to the order\<close>

lemma with_remainder_sum: "legs \<noteq> [] \<Longrightarrow> sum_list (map sl_amount_in (with_remainder legs amount)) = amount"
proof -
  assume "legs \<noteq> []"
  then obtain front l where "legs = front @ [l]" by (cases legs rule: rev_cases) auto
  then show ?thesis by (simp add: with_remainder_def)
qed

lemma with_remainder_outs: "legs \<noteq> [] \<Longrightarrow> map sl_amount_out (with_remainder legs amount) = map sl_amount_out legs"
proof -
  assume "legs \<noteq> []"
  then obtain front l where "legs = front @ [l]" by (cases legs rule: rev_cases) auto
  then show ?thesis by (simp add: with_remainder_def)
qed

lemma with_remainder_routes: "legs \<noteq> [] \<Longrightarrow> map sl_route (with_remainder legs amount) = map sl_route legs"
proof -
  assume "legs \<noteq> []"
  then obtain front l where "legs = front @ [l]" by (cases legs rule: rev_cases) auto
  then show ?thesis by (simp add: with_remainder_def)
qed

lemma length_share_legs:
  assumes "length routes = length counts" and "length curves = length counts"
  shows "length (share_legs routes curves counts amount) = used_routes counts"
  using assms unfolding share_legs_def used_routes_def length_map
proof (induction counts arbitrary: routes curves)
  case (Cons c counts)
  then show ?case by (cases routes; cases curves) auto
qed simp

text \<open>The legs, read off the counts: one for every route that was given a share, in order.\<close>

definition placed_routes :: "nat list \<Rightarrow> nat list" where
  "placed_routes counts = filter (\<lambda>i. 0 < counts ! i) [0..<length counts]"

lemma share_legs_placed:
  assumes "length routes = length counts" and "length curves = length counts"
  shows "share_legs routes curves counts amount =
    map (\<lambda>i. \<lparr>sl_route = routes ! i, sl_amount_in = amount * int (counts ! i) div int SPLIT_STEPS,
        sl_amount_out = (case (curves ! i) (counts ! i) of None \<Rightarrow> 0 | Some v \<Rightarrow> v)\<rparr>) (placed_routes counts)"
proof -
  have "zip routes (zip curves counts) = map (\<lambda>i. (routes ! i, curves ! i, counts ! i)) [0..<length counts]"
    using assms by (intro nth_equalityI) auto
  then show ?thesis by (simp add: share_legs_def placed_routes_def filter_map o_def)
qed

lemma with_remainder_shape:
  assumes len: "length routes = length counts" "length curves = length counts"
    and known: "\<And>i. i < length counts \<Longrightarrow> (curves ! i) (counts ! i) \<noteq> None"
    and ne: "share_legs routes curves counts amount \<noteq> []"
  defines "split \<equiv> with_remainder (share_legs routes curves counts amount) amount"
  shows "map sl_route split = map (nth routes) (placed_routes counts)"
    and "map (\<lambda>leg. Some (sl_amount_out leg)) split = map (\<lambda>i. (curves ! i) (counts ! i)) (placed_routes counts)"
    and "map sl_amount_in (butlast split) =
      map (\<lambda>i. amount * int (counts ! i) div int SPLIT_STEPS) (butlast (placed_routes counts))"
proof -
  show "map sl_route split = map (nth routes) (placed_routes counts)"
    using with_remainder_routes [OF ne] by (simp add: split_def share_legs_placed [OF len] o_def)
  have "map (\<lambda>leg. Some (sl_amount_out leg)) split = map Some (map sl_amount_out (share_legs routes curves counts amount))"
    using arg_cong [OF with_remainder_outs [OF ne], of "map Some"] by (simp add: split_def o_def)
  also have "\<dots> = map (\<lambda>i. (curves ! i) (counts ! i)) (placed_routes counts)"
  proof -
    have "Some (case (curves ! i) (counts ! i) of None \<Rightarrow> 0 | Some v \<Rightarrow> v) = (curves ! i) (counts ! i)"
      if "i \<in> set (placed_routes counts)" for i using known [of i] that by (auto simp: placed_routes_def)
    then show ?thesis by (simp add: share_legs_placed [OF len])
  qed
  finally show "map (\<lambda>leg. Some (sl_amount_out leg)) split = map (\<lambda>i. (curves ! i) (counts ! i)) (placed_routes counts)" .
  show "map sl_amount_in (butlast split) =
      map (\<lambda>i. amount * int (counts ! i) div int SPLIT_STEPS) (butlast (placed_routes counts))"
    unfolding split_def with_remainder_def share_legs_placed [OF len] by (simp add: map_butlast flip: map_butlast)
qed

lemma share_legs_route: "l \<in> set (share_legs routes curves counts amount) \<Longrightarrow> sl_route l \<in> set routes"
  by (auto simp: share_legs_def dest: set_zip_leftD)

lemma share_legs_distinct: "distinct routes \<Longrightarrow> distinct (map sl_route (share_legs routes curves counts amount))"
proof (induction routes arbitrary: curves counts)
  case (Cons r rs)
  have "r \<notin> set (map sl_route (share_legs rs cs ns amount))" for cs ns
    using Cons.prems share_legs_route by fastforce
  with Cons show ?case
    by (cases curves; cases counts) (auto simp: share_legs_def)
qed (simp add: share_legs_def)

lemma share_legs_sums:
  assumes "length routes = length counts" and "length curves = length counts"
  shows "sum_list (map sl_amount_in (share_legs routes curves counts amount)) = (\<Sum>c \<leftarrow> counts. amount * int c div int SPLIT_STEPS)"
    and "(\<And>i. i < length curves \<Longrightarrow> (curves ! i) 0 = Some 0) \<Longrightarrow>
      sum_list (map sl_amount_out (share_legs routes curves counts amount)) =
      (\<Sum>i < length curves. case (curves ! i) (counts ! i) of None \<Rightarrow> 0 | Some v \<Rightarrow> v)"
proof -
  show "sum_list (map sl_amount_in (share_legs routes curves counts amount)) = (\<Sum>c \<leftarrow> counts. amount * int c div int SPLIT_STEPS)"
    using assms
  proof (induction counts arbitrary: routes curves)
    case (Cons c counts)
    then show ?case by (cases routes; cases curves) (auto simp: share_legs_def)
  qed (simp add: share_legs_def)
  show "(\<And>i. i < length curves \<Longrightarrow> (curves ! i) 0 = Some 0) \<Longrightarrow>
      sum_list (map sl_amount_out (share_legs routes curves counts amount)) =
      (\<Sum>i < length curves. case (curves ! i) (counts ! i) of None \<Rightarrow> 0 | Some v \<Rightarrow> v)"
    using assms
  proof (induction counts arbitrary: routes curves)
    case (Cons c counts)
    obtain r rs f fs where e: "routes = r # rs" "curves = f # fs" using Cons.prems(2,3) by (cases routes; cases curves) auto
    have "f 0 = Some 0" using Cons.prems(1) [of 0] e by simp
    moreover have "sum_list (map sl_amount_out (share_legs rs fs counts amount)) =
        (\<Sum>i < length fs. case (fs ! i) (counts ! i) of None \<Rightarrow> 0 | Some v \<Rightarrow> v)"
    proof (rule Cons.IH)
      show "(fs ! i) 0 = Some 0" if "i < length fs" for i using Cons.prems(1) [of "Suc i"] that e by simp
    qed (use Cons.prems(2,3) e in simp_all)
    ultimately show ?case
      by (cases c) (auto simp: e share_legs_def sum.lessThan_Suc_shift simp del: sum.lessThan_Suc)
  qed (simp add: share_legs_def)
qed

lemma shares_below:
  "0 \<le> amount \<Longrightarrow> (\<Sum>c \<leftarrow> counts. amount * int c div int SPLIT_STEPS) * int SPLIT_STEPS \<le> amount * int (sum_list counts)"
proof (induction counts)
  case (Cons c counts)
  have "amount * int c div int SPLIT_STEPS * int SPLIT_STEPS \<le> amount * int c"
    by (rule floor_div_le) (simp add: SPLIT_STEPS_def)
  with Cons show ?case by (simp add: distrib_right distrib_left)
qed simp

text \<open>The legs of ten shares are a split: one to three, positive, adding up to the order.\<close>

lemma share_legs_split:
  assumes len: "length routes = length counts" "length curves = length counts" and total: "sum_list counts = SPLIT_STEPS"
    and used: "used_routes counts \<le> 3" and amount: "int SPLIT_STEPS \<le> amount"
  shows "make_split (with_remainder (share_legs routes curves counts amount) amount) =
      Inr (with_remainder (share_legs routes curves counts amount) amount)
    \<and> share_legs routes curves counts amount \<noteq> []"
proof -
  let ?legs = "share_legs routes curves counts amount"
  have "used_routes counts \<noteq> 0"
  proof
    assume "used_routes counts = 0"
    then have "\<forall>c \<in> set counts. c = 0" by (simp add: used_routes_def filter_empty_conv)
    then have "sum_list counts = 0" by simp
    with total show False by (simp add: SPLIT_STEPS_def)
  qed
  then have ne: "?legs \<noteq> []" using length_share_legs [OF len, of amount] by auto
  have pos: "0 < sl_amount_in l" if "l \<in> set ?legs" for l
  proof -
    from that obtain c where c: "0 < c" "sl_amount_in l = amount * int c div int SPLIT_STEPS" by (auto simp: share_legs_def)
    have "int SPLIT_STEPS * 1 \<le> amount * int c" using c(1) amount by (intro mult_mono) auto
    then have "1 \<le> amount * int c div int SPLIT_STEPS" by (subst le_floor_div_iff) (simp_all add: SPLIT_STEPS_def)
    with c(2) show ?thesis by simp
  qed
  have "sum_list (map sl_amount_in ?legs) \<le> amount"
    using shares_below [of amount counts] share_legs_sums(1) [OF len, of amount] amount
    by (simp add: total SPLIT_STEPS_def)
  then have rest: "0 < sl_amount_in l" if "l \<in> set (with_remainder ?legs amount)" for l
    using that pos [OF last_in_set [OF ne]] pos by (auto simp: with_remainder_def dest: in_set_butlastD)
  moreover have "length (with_remainder ?legs amount) = used_routes counts"
    using ne length_share_legs [OF len, of amount] \<open>used_routes counts \<noteq> 0\<close> by (simp add: with_remainder_def)
  ultimately show ?thesis
    using ne used \<open>used_routes counts \<noteq> 0\<close> by (force simp: make_split_def)
qed


lemma sum_list_nth_le: "j < length (xs :: nat list) \<Longrightarrow> xs ! j \<le> sum_list xs"
  by (rule elem_le_sum_list)

definition known_curve :: "curve \<Rightarrow> bool" where
  "known_curve curve \<longleftrightarrow> curve 0 = Some 0 \<and> (\<forall>k \<in> {0..SPLIT_STEPS}. curve k \<noteq> None)"

lemma known_gain: "known_curve curve \<Longrightarrow> k < SPLIT_STEPS \<Longrightarrow> gain curve k = Some (the (curve (k + 1)) - the (curve k))"
proof -
  assume k: "known_curve curve" "k < SPLIT_STEPS"
  then have "curve k \<noteq> None" "curve (k + 1) \<noteq> None" by (simp_all add: known_curve_def)
  with k(2) show ?thesis by (auto simp: gain_def)
qed

text \<open>While some share is left, some route that is already used, or a first one, can take it.\<close>

lemma option_available:
  assumes "length counts = length curves" "curves \<noteq> []" "sum_list counts < SPLIT_STEPS"
    and known: "\<And>f. f \<in> set curves \<Longrightarrow> known_curve f"
  shows "split_options curves counts \<noteq> []"
proof -
  have ok: "gain (curves ! i) (counts ! i) \<noteq> None" if "i < length curves" for i
    using known_gain [OF known [of "curves ! i"], of "counts ! i"] that sum_list_nth_le [of i counts] assms(1,3) by simp
  obtain i where i: "i < length curves" "counts ! i > 0 \<or> used_routes counts < 3"
  proof (cases "used_routes counts = 0")
    case True
    with assms(2) that [of 0] show ?thesis by simp
  next
    case False
    then obtain c where "c \<in> set counts" "c > 0" by (auto simp: used_routes_def filter_empty_conv)
    then obtain i where "i < length counts" "counts ! i > 0" by (metis in_set_conv_nth)
    with that [of i] assms(1) show ?thesis by simp
  qed
  from ok [OF i(1)] obtain g where "gain (curves ! i) (counts ! i) = Some g" by auto
  with i have "(g, i) \<in> set (split_options curves counts)" by (simp add: split_options_iff)
  then show ?thesis by auto
qed

lemma allocate_steps_defined:
  assumes "\<And>f. f \<in> set curves \<Longrightarrow> known_curve f" and "curves \<noteq> []"
  shows "length counts = length curves \<Longrightarrow> sum_list counts + n \<le> SPLIT_STEPS \<Longrightarrow>
    \<exists>counts'. allocate_steps n curves counts = Inr counts'"
proof (induction n arbitrary: counts)
  case (Suc n)
  have "split_options curves counts \<noteq> []" using option_available assms Suc.prems by simp
  then obtain g i where b: "best_option (split_options curves counts) = Some (g, i)"
    using best_option_None by fastforce
  have "i < length curves" using best_option_member [OF b] by (simp add: split_options_iff)
  then show ?case using Suc.IH [of "counts[i := counts ! i + 1]"] Suc.prems sum_list_bump [of i counts] b by simp
qed simp

lemma start_counts [simp]: "used_routes (replicate n 0) = 0" "sum_list (replicate n (0 :: nat)) = 0"
  by (simp_all add: used_routes_def sum_list_replicate)

lemma allocate_split_shape:
  assumes "length curves = length routes" "routes \<noteq> []" "\<And>f. f \<in> set curves \<Longrightarrow> known_curve f" "int SPLIT_STEPS \<le> amount"
  obtains counts where "allocate_steps SPLIT_STEPS curves (replicate (length routes) 0) = Inr counts"
    "length counts = length routes" "sum_list counts = SPLIT_STEPS" "used_routes counts \<le> 3"
    "share_legs routes curves counts amount \<noteq> []"
    "make_split (with_remainder (share_legs routes curves counts amount) amount) =
       Inr (with_remainder (share_legs routes curves counts amount) amount)"
    "allocate_split routes curves amount = Inr (with_remainder (share_legs routes curves counts amount) amount)"
proof -
  have "curves \<noteq> []" using assms(1,2) by auto
  with allocate_steps_defined [OF assms(3), of curves "replicate (length routes) 0" SPLIT_STEPS] assms(1)
  obtain counts where c: "allocate_steps SPLIT_STEPS curves (replicate (length routes) 0) = Inr counts" by auto
  from allocate_steps_counts [OF c] assms(1)
  have n: "length counts = length routes" "sum_list counts = SPLIT_STEPS" "used_routes counts \<le> 3" by simp_all
  have s: "make_split (with_remainder (share_legs routes curves counts amount) amount) =
       Inr (with_remainder (share_legs routes curves counts amount) amount) \<and> share_legs routes curves counts amount \<noteq> []"
    by (rule share_legs_split) (use n assms(1,4) in simp_all)
  show ?thesis by (rule that [OF c n]) (use s c in \<open>simp_all add: allocate_split_def\<close>)
qed


section \<open>The allocation is a best one\<close>

text \<open>The output of a curve at a number of shares, and the next share's gain, as integers.\<close>

definition out_at :: "curve \<Rightarrow> nat \<Rightarrow> int" where
  "out_at curve k = the (curve k)"

definition step_gain :: "curve \<Rightarrow> nat \<Rightarrow> int" where
  "step_gain curve k = out_at curve (k + 1) - out_at curve k"

text \<open>Later shares never gain more than earlier ones: the price moves against the order.\<close>

definition concave_curve :: "curve \<Rightarrow> bool" where
  "concave_curve curve \<longleftrightarrow> known_curve curve \<and>
     (\<forall>k \<in> {0..<SPLIT_STEPS - 1}. step_gain curve (k + 1) \<le> step_gain curve k)"

lemma concave_later:
  assumes "concave_curve curve" and "j \<le> k" and "k < SPLIT_STEPS"
  shows "step_gain curve k \<le> step_gain curve j"
  using assms(2,3)
proof (induction k rule: dec_induct)
  case (step n)
  have "step_gain curve (n + 1) \<le> step_gain curve n"
    using assms(1) step.prems by (simp add: concave_curve_def SPLIT_STEPS_def)
  with step show ?case by simp
qed simp

lemma climb_above:
  assumes "\<And>k. a \<le> k \<Longrightarrow> k < b \<Longrightarrow> m \<le> step_gain curve k" and "a \<le> b"
  shows "m * int (b - a) \<le> out_at curve b - out_at curve a"
  using assms(2,1)
proof (induction b rule: dec_induct)
  case (step n)
  have "m \<le> step_gain curve n" "m * int (n - a) \<le> out_at curve n - out_at curve a" using step by simp_all
  moreover have "m * int (Suc n - a) = m * int (n - a) + m" using step.hyps by (simp add: Suc_diff_le distrib_left)
  ultimately show ?case by (simp add: step_gain_def)
qed simp

lemma climb_below:
  assumes "\<And>k. a \<le> k \<Longrightarrow> k < b \<Longrightarrow> step_gain curve k \<le> m" and "a \<le> b"
  shows "out_at curve b - out_at curve a \<le> m * int (b - a)"
  using assms(2,1)
proof (induction b rule: dec_induct)
  case (step n)
  have "step_gain curve n \<le> m" "out_at curve n - out_at curve a \<le> m * int (n - a)" using step by simp_all
  moreover have "m * int (Suc n - a) = m * int (n - a) + m" using step.hyps by (simp add: Suc_diff_le distrib_left)
  ultimately show ?case by (simp add: step_gain_def)
qed simp

text \<open>
  What the greedy choice keeps: the last share of every used route gained at least what any route
  would gain next.
\<close>

definition greedy_inv :: "curve list \<Rightarrow> nat list \<Rightarrow> bool" where
  "greedy_inv curves counts \<longleftrightarrow> (\<forall>i < length curves. \<forall>j < length curves.
     0 < counts ! i \<longrightarrow> counts ! i \<le> SPLIT_STEPS \<longrightarrow> counts ! j < SPLIT_STEPS \<longrightarrow>
     step_gain (curves ! j) (counts ! j) \<le> step_gain (curves ! i) (counts ! i - 1))"

lemma known_step_gain: "known_curve curve \<Longrightarrow> k < SPLIT_STEPS \<Longrightarrow> gain curve k = Some (step_gain curve k)"
  by (simp add: known_gain step_gain_def out_at_def)


lemma greedy_option:
  assumes "length counts = length curves" "length curves \<le> 3" "\<And>f. f \<in> set curves \<Longrightarrow> concave_curve f"
    and "j < length curves" "counts ! j < SPLIT_STEPS"
  shows "(step_gain (curves ! j) (counts ! j), j) \<in> set (split_options curves counts)"
proof -
  have "gain (curves ! j) (counts ! j) = Some (step_gain (curves ! j) (counts ! j))"
    by (rule known_step_gain) (use assms(3) [of "curves ! j"] assms(4,5) in \<open>simp_all add: concave_curve_def\<close>)
  moreover have "counts ! j > 0 \<or> used_routes counts < 3"
  proof (rule disjCI)
    assume "\<not> used_routes counts < 3"
    then have "\<not> length (filter (\<lambda>c. c > 0) counts) < length counts" using assms(1,2) by (simp add: used_routes_def)
    then show "counts ! j > 0" using length_filter_less [of "counts ! j" counts "\<lambda>c. c > 0"] assms(1,4) by fastforce
  qed
  ultimately show ?thesis using assms(4) by (simp add: split_options_iff)
qed

lemma greedy_inv_step:
  assumes inv: "greedy_inv curves counts" and len: "length counts = length curves" "length curves \<le> 3"
    and conc: "\<And>f. f \<in> set curves \<Longrightarrow> concave_curve f"
    and best: "best_option (split_options curves counts) = Some (g, i)"
  shows "greedy_inv curves (counts[i := counts ! i + 1])"
proof -
  have i: "i < length curves" and gi: "gain (curves ! i) (counts ! i) = Some g"
    using best_option_member [OF best] by (simp_all add: split_options_iff)
  have below: "counts ! i < SPLIT_STEPS" using gi by (auto simp: gain_def split: option.splits if_splits)
  have g: "g = step_gain (curves ! i) (counts ! i)"
    using gi known_step_gain [OF _ below, of "curves ! i"] conc [of "curves ! i"] i by (simp add: concave_curve_def)
  have top: "step_gain (curves ! j) (counts ! j) \<le> g" if "j < length curves" "counts ! j < SPLIT_STEPS" for j
    using best_option_greatest [OF best greedy_option [OF len conc that]] by simp
  have fall: "step_gain (curves ! i) (counts ! i + 1) \<le> g" if "counts ! i + 1 < SPLIT_STEPS"
    using concave_later [OF conc [of "curves ! i"], of "counts ! i" "counts ! i + 1"] i that g by simp
  have new: "step_gain (curves ! j) (counts[i := counts ! i + 1] ! j) \<le> g"
    if "j < length curves" "counts[i := counts ! i + 1] ! j < SPLIT_STEPS" for j
    using top [of j] fall that i len(1) by (cases "j = i") simp_all
  have old: "g \<le> step_gain (curves ! k) (counts ! k - 1)"
    if "k < length curves" "0 < counts ! k" "counts ! k \<le> SPLIT_STEPS" for k
    using inv that i below g unfolding greedy_inv_def by blast
  show ?thesis unfolding greedy_inv_def
  proof (intro allI impI)
    fix k j
    assume a: "k < length curves" "j < length curves" "0 < counts[i := counts ! i + 1] ! k"
      "counts[i := counts ! i + 1] ! k \<le> SPLIT_STEPS" "counts[i := counts ! i + 1] ! j < SPLIT_STEPS"
    have "g \<le> step_gain (curves ! k) (counts[i := counts ! i + 1] ! k - 1)"
      using old [of k] a(1,3,4) g i len(1) by (cases "k = i") simp_all
    with new [OF a(2,5)] show "step_gain (curves ! j) (counts[i := counts ! i + 1] ! j)
        \<le> step_gain (curves ! k) (counts[i := counts ! i + 1] ! k - 1)" by simp
  qed
qed

lemma allocate_steps_greedy:
  assumes "\<And>f. f \<in> set curves \<Longrightarrow> concave_curve f" and "length curves \<le> 3"
  shows "allocate_steps n curves counts = Inr counts' \<Longrightarrow> length counts = length curves \<Longrightarrow>
    greedy_inv curves counts \<Longrightarrow> greedy_inv curves counts'"
proof (induction n arbitrary: counts)
  case (Suc n)
  from Suc.prems(1) obtain g i where b: "best_option (split_options curves counts) = Some (g, i)"
    and rec: "allocate_steps n curves (counts[i := counts ! i + 1]) = Inr counts'"
    by (auto split: option.splits)
  show ?case
    by (rule Suc.IH [OF rec]) (use Suc.prems(2) greedy_inv_step [OF Suc.prems(3,2) assms(2,1) b] in simp_all)
qed simp

text \<open>A concave curve lies below the line through a point whose slope separates the gains around it.\<close>

lemma chord_bound:
  assumes conc: "concave_curve curve" and c: "c \<le> SPLIT_STEPS" and d: "d \<le> SPLIT_STEPS"
    and high: "c < SPLIT_STEPS \<Longrightarrow> step_gain curve c \<le> m" and low: "0 < c \<Longrightarrow> m \<le> step_gain curve (c - 1)"
  shows "out_at curve d - out_at curve c \<le> m * (int d - int c)"
proof (cases "c \<le> d")
  case True
  have "out_at curve d - out_at curve c \<le> m * int (d - c)"
    by (rule climb_below [OF _ True]) (use concave_later [OF conc, of c] high d in force)
  with True show ?thesis by (simp add: of_nat_diff)
next
  case False
  have "m * int (c - d) \<le> out_at curve c - out_at curve d"
  proof (rule climb_above)
    fix k assume k: "d \<le> k" "k < c"
    have "step_gain curve (c - 1) \<le> step_gain curve k"
      by (rule concave_later [OF conc]) (use k c in linarith)+
    with low k show "m \<le> step_gain curve k" by simp
  qed (use False in simp)
  with False show ?thesis by (simp add: of_nat_diff right_diff_distrib)
qed

text \<open>Counts with that property reach at least the output of any other counts of the same sum.\<close>

lemma greedy_beats:
  assumes inv: "greedy_inv curves counts" and conc: "\<And>f. f \<in> set curves \<Longrightarrow> concave_curve f"
    and len: "length counts = length curves" "length shares = length curves"
    and sums: "sum_list counts = SPLIT_STEPS" "sum_list shares = SPLIT_STEPS"
  shows "(\<Sum>i < length curves. out_at (curves ! i) (shares ! i)) \<le> (\<Sum>i < length curves. out_at (curves ! i) (counts ! i))"
proof -
  let ?I = "{i. i < length curves \<and> 0 < counts ! i}"
  define m where "m = Min ((\<lambda>i. step_gain (curves ! i) (counts ! i - 1)) ` ?I)"
  have "?I \<noteq> {}"
  proof
    assume "?I = {}"
    then have "\<forall>c \<in> set counts. c = 0" using len(1) by (auto simp: in_set_conv_nth)
    then have "sum_list counts = 0" by simp
    then show False using sums(1) by (simp add: SPLIT_STEPS_def)
  qed
  moreover have fin: "finite ?I" by simp
  ultimately obtain i0 where i0: "i0 \<in> ?I" "m = step_gain (curves ! i0) (counts ! i0 - 1)"
    unfolding m_def by (metis (no_types, lifting) Min_in finite_imageI image_iff image_is_empty)
  have low: "m \<le> step_gain (curves ! i) (counts ! i - 1)" if "i \<in> ?I" for i
    unfolding m_def by (rule Min_le) (use that fin in auto)
  have c10: "counts ! i \<le> SPLIT_STEPS" "shares ! i \<le> SPLIT_STEPS" if "i < length curves" for i
    using sum_list_nth_le [of i counts] sum_list_nth_le [of i shares] that len sums by simp_all
  have high: "step_gain (curves ! i) (counts ! i) \<le> m" if "i < length curves" "counts ! i < SPLIT_STEPS" for i
    using inv that i0 c10(1) [of i0] unfolding greedy_inv_def by blast
  have each: "out_at (curves ! i) (shares ! i) - out_at (curves ! i) (counts ! i) \<le> m * (int (shares ! i) - int (counts ! i))"
    if i: "i < length curves" for i
    by (rule chord_bound [OF conc [OF nth_mem [OF i]] c10 [OF i]]) (use high [OF i] low [of i] i in simp_all)
  have nat_sum: "(\<Sum>i < length curves. int (xs ! i)) = int (sum_list xs)" if "length xs = length curves" for xs :: "nat list"
    using that by (simp add: sum_list_sum_nth atLeast0LessThan)
  have "(\<Sum>i < length curves. out_at (curves ! i) (shares ! i) - out_at (curves ! i) (counts ! i))
      \<le> (\<Sum>i < length curves. m * (int (shares ! i) - int (counts ! i)))"
    by (rule sum_mono) (use each in simp)
  also have "\<dots> = m * ((\<Sum>i < length curves. int (shares ! i)) - (\<Sum>i < length curves. int (counts ! i)))"
    by (simp add: sum_subtractf flip: sum_distrib_left)
  also have "\<dots> = 0" using nat_sum [OF len(1)] nat_sum [OF len(2)] sums by simp
  finally show ?thesis by (simp add: sum_subtractf)
qed


section \<open>The properties\<close>

text \<open>
  C20. An allocated split is the order: over routes whose outputs are known at every share, ten
  shares are always placed, \<open>counts ! i\<close> of them on route \<open>i\<close>. The split has one leg for every route
  that was given a share, in the offered order, with the sampled output of its number of shares and,
  but for the last leg, exactly that many tenths of the amount as its input, rounded down; the last
  leg takes the rest, so the inputs add up to the amount to the last unit. There are one to three
  legs over different routes, and each has a positive input.
\<close>

theorem split_allocation_exact:
  assumes "length curves = length routes" and "routes \<noteq> []" and "distinct routes"
    and "\<And>f. f \<in> set curves \<Longrightarrow> known_curve f" and "int SPLIT_STEPS \<le> amount"
  shows "\<exists>split counts. allocate_split routes curves amount = Inr split
    \<and> length counts = length routes \<and> sum_list counts = SPLIT_STEPS
    \<and> map sl_route split = map (nth routes) (placed_routes counts)
    \<and> map (\<lambda>leg. Some (sl_amount_out leg)) split = map (\<lambda>i. (curves ! i) (counts ! i)) (placed_routes counts)
    \<and> map sl_amount_in (butlast split) =
        map (\<lambda>i. amount * int (counts ! i) div int SPLIT_STEPS) (butlast (placed_routes counts))
    \<and> sum_list (map sl_amount_in split) = amount
    \<and> 1 \<le> length split \<and> length split \<le> 3
    \<and> (\<forall>leg \<in> set split. 0 < sl_amount_in leg)
    \<and> distinct (map sl_route split) \<and> set (map sl_route split) \<subseteq> set routes"
proof -
  obtain counts where c: "length counts = length routes" "sum_list counts = SPLIT_STEPS" "used_routes counts \<le> 3"
    and ne: "share_legs routes curves counts amount \<noteq> []"
    and mk: "make_split (with_remainder (share_legs routes curves counts amount) amount) =
       Inr (with_remainder (share_legs routes curves counts amount) amount)"
    and r: "allocate_split routes curves amount = Inr (with_remainder (share_legs routes curves counts amount) amount)"
    using allocate_split_shape [OF assms(1,2,4,5)] by blast
  let ?split = "with_remainder (share_legs routes curves counts amount) amount"
  have "1 \<le> length ?split \<and> length ?split \<le> 3 \<and> (\<forall>leg \<in> set ?split. 0 < sl_amount_in leg)"
    using mk by (force simp: make_split_def split: if_splits)
  moreover have "(curves ! i) (counts ! i) \<noteq> None" if "i < length counts" for i
    using assms(4) [of "curves ! i"] that sum_list_nth_le [of i counts] c assms(1) by (auto simp: known_curve_def)
  note with_remainder_shape [OF c(1) [symmetric] _ this ne]
  moreover have "set (map sl_route ?split) \<subseteq> set routes"
    using share_legs_route unfolding with_remainder_routes [OF ne] by fastforce
  moreover have "distinct (map sl_route ?split)"
    unfolding with_remainder_routes [OF ne] by (rule share_legs_distinct [OF assms(3)])
  ultimately show ?thesis
    unfolding r using with_remainder_sum [OF ne] c(1,2) assms(1) by (intro exI [of _ ?split] exI [of _ counts]) simp
qed

text \<open>
  C21. Where every extra share of a route adds no more than the one before it, at most three routes
  are offered and the curves start at nothing, the greedy allocation is a best one: no other way of
  spreading the ten shares over the routes has a larger sampled output.
\<close>

theorem split_allocation_optimal:
  assumes "length curves = length routes" and "routes \<noteq> []" and "length routes \<le> 3"
    and "\<And>f. f \<in> set curves \<Longrightarrow> concave_curve f" and "int SPLIT_STEPS \<le> amount"
    and "length shares = length routes" and "sum_list shares = SPLIT_STEPS"
  shows "\<exists>split. allocate_split routes curves amount = Inr split
    \<and> (\<Sum>i < length routes. out_at (curves ! i) (shares ! i)) \<le> sum_list (map sl_amount_out split)"
proof -
  have known: "known_curve f" if "f \<in> set curves" for f using assms(4) [OF that] by (simp add: concave_curve_def)
  obtain counts where s: "allocate_steps SPLIT_STEPS curves (replicate (length routes) 0) = Inr counts"
    and c: "length counts = length routes" "sum_list counts = SPLIT_STEPS"
    and ne: "share_legs routes curves counts amount \<noteq> []"
    and r: "allocate_split routes curves amount = Inr (with_remainder (share_legs routes curves counts amount) amount)"
    using allocate_split_shape [OF assms(1,2) known assms(5)] by blast
  have "greedy_inv curves (replicate (length routes) 0)" by (simp add: greedy_inv_def assms(1))
  then have inv: "greedy_inv curves counts"
    using allocate_steps_greedy [OF assms(4) _ s] assms(1,3) by simp
  have outs: "sum_list (map sl_amount_out (with_remainder (share_legs routes curves counts amount) amount)) =
      (\<Sum>i < length curves. case (curves ! i) (counts ! i) of None \<Rightarrow> 0 | Some v \<Rightarrow> v)"
    unfolding with_remainder_outs [OF ne]
    by (rule share_legs_sums(2)) (use c assms(1) known nth_mem in \<open>force simp: known_curve_def\<close>)+
  also have "\<dots> = (\<Sum>i < length curves. out_at (curves ! i) (counts ! i))"
  proof (rule sum.cong [OF refl])
    fix i assume i: "i \<in> {..<length curves}"
    have "(curves ! i) (counts ! i) \<noteq> None"
      using known [of "curves ! i"] i sum_list_nth_le [of i counts] c assms(1) by (auto simp: known_curve_def)
    then show "(case (curves ! i) (counts ! i) of None \<Rightarrow> 0 | Some v \<Rightarrow> v) = out_at (curves ! i) (counts ! i)"
      by (auto simp: out_at_def)
  qed
  finally show ?thesis
    using greedy_beats [OF inv assms(4), of shares] c assms(1,6,7) r by simp
qed


section \<open>At a concrete order\<close>

definition sample_routes :: "route list" where
  "sample_routes = [sample_route, sample_route @ sample_route]"

definition sample_curves :: "curve list" where
  "sample_curves = [\<lambda>k. Some (30 * int k), \<lambda>k. Some (int k * (50 - 2 * int k))]"

lemma sample_concave: "f \<in> set sample_curves \<Longrightarrow> concave_curve f"
  by (auto simp: sample_curves_def concave_curve_def known_curve_def step_gain_def out_at_def algebra_simps)

lemma split_allocation_exact_witness:
  "\<exists>split counts. allocate_split sample_routes sample_curves 1003 = Inr split
    \<and> length counts = 2 \<and> sum_list counts = 10 \<and> map sl_route split = map (nth sample_routes) (placed_routes counts)
    \<and> map sl_amount_in (butlast split) = map (\<lambda>i. 1003 * int (counts ! i) div 10) (butlast (placed_routes counts))
    \<and> sum_list (map sl_amount_in split) = 1003"
proof -
  have known: "known_curve f" if "f \<in> set sample_curves" for f using sample_concave [OF that] by (simp add: concave_curve_def)
  have a: "length sample_curves = length sample_routes" "sample_routes \<noteq> []" "distinct sample_routes" "int SPLIT_STEPS \<le> 1003"
    and two: "length sample_routes = 2" and ten: "SPLIT_STEPS = 10"
    by (simp_all add: sample_routes_def sample_curves_def sample_route_def SPLIT_STEPS_def)
  obtain split counts where "allocate_split sample_routes sample_curves 1003 = Inr split"
    "length counts = 2" "sum_list counts = 10" "map sl_route split = map (nth sample_routes) (placed_routes counts)"
    "map sl_amount_in (butlast split) = map (\<lambda>i. 1003 * int (counts ! i) div int 10) (butlast (placed_routes counts))"
    "sum_list (map sl_amount_in split) = 1003"
    using split_allocation_exact [OF a(1-3) known a(4)] unfolding two ten by blast
  then show ?thesis by (intro exI [of _ split] exI [of _ counts]) simp
qed

lemma split_allocation_optimal_witness:
  "\<exists>split. allocate_split sample_routes sample_curves 1003 = Inr split \<and> 350 \<le> sum_list (map sl_amount_out split)"
  using split_allocation_optimal [of sample_curves sample_routes 1003 "[5, 5]"] sample_concave
  by (auto simp: sample_routes_def sample_curves_def SPLIT_STEPS_def out_at_def)

end
