(* ===== verification/Tx_Node.thy ===== *)
theory Tx_Node
  imports Tx_Split Tx_Lp
begin

text \<open>
  What \<^verbatim>\<open>src/rhpools/tx_core.py\<close> asks the node: replies read word by word, the block header,
  balances and allowances with the search for the storage slot behind them, the simulation of a
  transaction (\<^verbatim>\<open>Simulator.run\<close>), and the check of the pinned code hashes
  (\<^verbatim>\<open>src/rhpools/tx_allowlist.py\<close>). \<^verbatim>\<open>rpc.call\<close> is an argument of type \<open>node\<close>.
\<close>

section \<open>Replies\<close>

text \<open>\<^verbatim>\<open>value[key]\<close> and \<^verbatim>\<open>value.get(key, default)\<close> of a JSON value, \<^verbatim>\<open>value[0]\<close> of a list.\<close>

fun json_key :: "string \<Rightarrow> json \<Rightarrow> py_error + json" where
  "json_key key (JObj kvs) = (case map_of kvs key of None \<Rightarrow> Inl (KeyError key) | Some v \<Rightarrow> Inr v)"
| "json_key key v = Inl (TypeError ''not subscriptable by a name'')"

fun json_get :: "string \<Rightarrow> json \<Rightarrow> json \<Rightarrow> py_error + json" where
  "json_get key d (JObj kvs) = Inr (case map_of kvs key of None \<Rightarrow> d | Some v \<Rightarrow> v)"
| "json_get key d v = Inl (AttributeError ''no attribute get'')"

fun json_first :: "json \<Rightarrow> py_error + json" where
  "json_first (JArr []) = Inl (IndexError ''list index out of range'')"
| "json_first (JArr (v # vs)) = Inr v"
| "json_first (JObj kvs) = Inl (KeyError ''0'')"
| "json_first v = Inl (TypeError ''not subscriptable'')"

fun json_list :: "json \<Rightarrow> py_error + json list" where
  "json_list (JArr vs) = Inr vs"
| "json_list v = Inl (TypeError ''not a list'')"

fun json_text :: "json \<Rightarrow> py_error + string" where
  "json_text (JStr s) = Inr s"
| "json_text v = Inl (TypeError ''not text'')"

fun json_int16 :: "json \<Rightarrow> py_error + int" where
  "json_int16 (JStr s) = int_base16 s"
| "json_int16 v = Inl (TypeError ''int() can't convert non-string with explicit base'')"

text \<open>\<^verbatim>\<open>str(exc)\<close>, and \<^verbatim>\<open>" ".join(text.split())\<close>.\<close>

fun py_text :: "py_error \<Rightarrow> string" where
  "py_text (KeyError m) = [CHR 0x27] @ m @ [CHR 0x27]"
| "py_text (ValueError m) = m" | "py_text (TypeError m) = m" | "py_text (IndexError m) = m"
| "py_text (OverflowError m) = m" | "py_text (RuntimeError m) = m" | "py_text (ZeroDivisionError m) = m"
| "py_text (OSError m) = m" | "py_text (AttributeError m) = m"

fun squeeze :: "string \<Rightarrow> string" where
  "squeeze [] = []"
| "squeeze [c] = [c]"
| "squeeze (c # d # s) = (if is_space c \<and> is_space d then squeeze (d # s) else (if is_space c then CHR '' '' else c) # squeeze (d # s))"

definition one_line :: "string \<Rightarrow> string" where
  "one_line s = squeeze (strip s)"

fun contains :: "string \<Rightarrow> string \<Rightarrow> bool" where
  "contains part [] = (part = [])"
| "contains part (c # s) = (take (length part) (c # s) = part \<or> contains part s)"

definition hex_word :: "nat \<Rightarrow> string \<Rightarrow> bool" where
  "hex_word n s \<longleftrightarrow> length s = n \<and> list_all (\<lambda>c. is_digit c \<or> c \<in> set ''abcdef'') s"

text \<open>\<^verbatim>\<open>_ADDRESS_RE\<close>, \<^verbatim>\<open>_HASH_RE\<close> and the guards built on them.\<close>

definition hex_id :: "nat \<Rightarrow> string \<Rightarrow> bool" where
  "hex_id n s \<longleftrightarrow> take 2 s = ''0x'' \<and> hex_word n (drop 2 s)"

definition need_address :: "string \<Rightarrow> string \<Rightarrow> tx_exn + address" where
  "need_address value name =
    (if hex_id 40 (lower value) then Inr (lower value)
     else Inl (TxError ''invalid_intent'' (name @ '' must be a 20-byte hex address'')))"

definition hex_int :: "json \<Rightarrow> string \<Rightarrow> tx_exn + int" where
  "hex_int value name =
    (case value of
       JStr s \<Rightarrow> if take 2 s = ''0x'' then lift_py (int_base16 s) else Inl (TxError ''rpc'' (''malformed '' @ name))
     | _ \<Rightarrow> Inl (TxError ''rpc'' (''malformed '' @ name)))"

definition word_at :: "json \<Rightarrow> nat \<Rightarrow> tx_exn + int" where
  "word_at value index =
    (case value of
       JStr s \<Rightarrow> if length s < 2 + 64 * (index + 1) then Inl (TxError ''rpc'' ''short eth_call result'')
                 else lift_py (int_base16 (take 64 (drop (2 + 64 * index) s)))
     | _ \<Rightarrow> Inl (TxError ''rpc'' ''short eth_call result''))"

definition signed24 :: "int \<Rightarrow> int" where
  "signed24 value = (let v = value AND 0xFFFFFF in if v \<ge> push_bit 23 1 then v - push_bit 24 1 else v)"

text \<open>\<^verbatim>\<open>f"{n:040x}"\<close> behind \<^verbatim>\<open>0x\<close>.\<close>

definition address_of_word :: "int \<Rightarrow> address" where
  "address_of_word n = ''0x'' @ rjust 40 CHR ''0'' (nat_hex (nat n))"

section \<open>Reading the chain\<close>

definition eth_call :: "node \<Rightarrow> address \<Rightarrow> bytes \<Rightarrow> string \<Rightarrow> tx_exn + json" where
  "eth_call node to data block =
     lift_py (node ''eth_call'' [JObj [(''to'', JStr to), (''data'', JStr (hex0x data))], JStr block])"

record block_ref =
  bk_number :: int
  bk_hash :: string

definition read_header :: "node \<Rightarrow> string \<Rightarrow> tx_exn + block_ref" where
  "read_header node block =
     bindr (lift_py (node ''eth_getBlockByNumber'' [JStr block, JBool False])) (\<lambda>header.
       case header of
         JObj kvs \<Rightarrow>
           bindr (hex_int (case map_of kvs ''number'' of None \<Rightarrow> JNull | Some v \<Rightarrow> v) ''block number'') (\<lambda>number.
           case map_of kvs ''hash'' of
             Some (JStr h) \<Rightarrow>
               if hex_id 64 (lower h) then Inr \<lparr>bk_number = number, bk_hash = lower h\<rparr>
               else Inl (TxError ''rpc'' ''malformed block hash'')
           | _ \<Rightarrow> Inl (TxError ''rpc'' ''malformed block hash''))
       | _ \<Rightarrow> Inl (TxError ''rpc'' ''no block header''))"

definition read_balance :: "eth_lib \<Rightarrow> node \<Rightarrow> address \<Rightarrow> address \<Rightarrow> string \<Rightarrow> tx_exn + int" where
  "read_balance lib node currency wallet tag =
    (if currency = NATIVE then bindr (lift_py (node ''eth_getBalance'' [JStr wallet, JStr tag])) (\<lambda>v. hex_int v ''balance'')
     else bindr (lift_py (erc20_balance_of lib wallet)) (\<lambda>data.
          bindr (eth_call node currency data tag) (\<lambda>v. word_at v 0)))"

definition read_allowance :: "eth_lib \<Rightarrow> node \<Rightarrow> address \<Rightarrow> address \<Rightarrow> address \<Rightarrow> string \<Rightarrow> tx_exn + int" where
  "read_allowance lib node token owner spender tag =
     bindr (lift_py (erc20_allowance lib owner spender)) (\<lambda>data.
     bindr (eth_call node token data tag) (\<lambda>v. word_at v 0))"

definition read_permit_nonce :: "eth_lib \<Rightarrow> node \<Rightarrow> address \<Rightarrow> address \<Rightarrow> address \<Rightarrow> string \<Rightarrow> tx_exn + int" where
  "read_permit_nonce lib node wallet token spender tag =
     bindr (lift_py (permit2_allowance lib wallet token spender)) (\<lambda>data.
     bindr (eth_call node PERMIT2 data tag) (\<lambda>v. word_at v 2))"

subsection \<open>The storage slot of a balance\<close>

text \<open>
  A token whose balance mapping is in one of the first 64 slots answers a marker written there
  by a state override. The slot, or that there is none, is remembered for the token.
\<close>

definition BALANCE_SLOT_SEARCH :: nat where "BALANCE_SLOT_SEARCH = 64"
definition MARKER :: int where "MARKER = push_bit 128 1 + 7"
definition PROBE :: address where "PROBE = ''0x'' @ concat (replicate 20 ''de'')"

definition mapping_key :: "eth_lib \<Rightarrow> address \<Rightarrow> int \<Rightarrow> py_error + string" where
  "mapping_key lib holder slot =
     bindr (bytes_fromhex (rjust 64 CHR ''0'' (drop 2 holder))) (\<lambda>a.
     bindr (to_bytes_big 32 slot) (\<lambda>b. Inr (hex0x (keccak lib (a @ b)))))"

definition storage_diff :: "address \<Rightarrow> string \<Rightarrow> int \<Rightarrow> py_error + json" where
  "storage_diff token key value =
     bindr (to_bytes_big 32 value) (\<lambda>b.
       Inr (JObj [(token, JObj [(''stateDiff'', JObj [(key, JStr (hex0x b))])])]))"

definition probe_call :: "node \<Rightarrow> address \<Rightarrow> bytes \<Rightarrow> string \<Rightarrow> json \<Rightarrow> py_error + json" where
  "probe_call node token data tag diff =
     node ''eth_call'' [JObj [(''to'', JStr token), (''data'', JStr (hex0x data))], JStr tag, diff]"

fun search_balance_slot :: "eth_lib \<Rightarrow> node \<Rightarrow> address \<Rightarrow> string \<Rightarrow> nat \<Rightarrow> nat \<Rightarrow> tx_exn + nat option" where
  "search_balance_slot lib node token tag slot 0 = Inr None"
| "search_balance_slot lib node token tag slot (Suc n) =
     bindr (lift_py (bindr (mapping_key lib PROBE (int slot)) (\<lambda>key.
            bindr (erc20_balance_of lib PROBE) (\<lambda>data.
            bindr (storage_diff token key MARKER) (probe_call node token data tag))))) (\<lambda>v.
     bindr (word_at v 0) (\<lambda>w.
       if w = MARKER then Inr (Some slot) else search_balance_slot lib node token tag (slot + 1) n))"

type_synonym slots = "(address, nat option) odict"

definition balance_slot :: "eth_lib \<Rightarrow> node \<Rightarrow> address \<Rightarrow> string \<Rightarrow> slots \<Rightarrow> slots \<times> (tx_exn + nat option)" where
  "balance_slot lib node token tag known =
    (case map_of known token of
       Some slot \<Rightarrow> ret_st known slot
     | None \<Rightarrow>
         (case search_balance_slot lib node token tag 0 BALANCE_SLOT_SEARCH of
            Inl e \<Rightarrow> raise_st known e
          | Inr found \<Rightarrow> ret_st (od_set token found known) found))"

definition funded_state :: "eth_lib \<Rightarrow> node \<Rightarrow> address \<Rightarrow> address \<Rightarrow> int \<Rightarrow> string \<Rightarrow> slots \<Rightarrow> slots \<times> (tx_exn + json option)" where
  "funded_state lib node currency wallet amount tag known =
    (if currency = NATIVE then ret_st known (Some (JObj [(wallet, JObj [(''balance'', JStr (hex_text amount))])]))
     else bind_st (balance_slot lib node currency tag known) (\<lambda>known' slot.
       case slot of
         None \<Rightarrow> ret_st known' None
       | Some k \<Rightarrow>
           (case lift_py (bindr (mapping_key lib wallet (int k)) (\<lambda>key. storage_diff currency key amount)) of
              Inl e \<Rightarrow> raise_st known' e
            | Inr diff \<Rightarrow> ret_st known' (Some diff))))"

definition allowance_key :: "eth_lib \<Rightarrow> address \<Rightarrow> address \<Rightarrow> nat \<Rightarrow> py_error + string" where
  "allowance_key lib owner spender slot =
     bindr (mapping_key lib owner (int slot)) (\<lambda>k.
     bindr (bytes_fromhex (drop 2 k)) (\<lambda>b. mapping_key lib spender (from_bytes_big b)))"

text \<open>Here a failed call ends the search instead of failing the request.\<close>

fun search_allowance_slot :: "eth_lib \<Rightarrow> node \<Rightarrow> address \<Rightarrow> address \<Rightarrow> address \<Rightarrow> nat \<Rightarrow> nat \<Rightarrow> tx_exn + nat option" where
  "search_allowance_slot lib node token owner spender slot 0 = Inr None"
| "search_allowance_slot lib node token owner spender slot (Suc n) =
     bindr (lift_py (bindr (allowance_key lib owner spender slot) (\<lambda>key.
            bindr (erc20_allowance lib owner spender) (\<lambda>data. Inr (key, data))))) (\<lambda>(key, data).
       case bindr (storage_diff token key MARKER) (probe_call node token data ''latest'') of
         Inl e \<Rightarrow> Inr None
       | Inr v \<Rightarrow> bindr (word_at v 0) (\<lambda>w.
           if w = MARKER then Inr (Some slot) else search_allowance_slot lib node token owner spender (slot + 1) n))"

definition allowance_override :: "eth_lib \<Rightarrow> node \<Rightarrow> address \<Rightarrow> address \<Rightarrow> address \<Rightarrow> int \<Rightarrow> slots \<Rightarrow> slots \<times> (tx_exn + json option)" where
  "allowance_override lib node token owner spender amount known =
     bind_st (case map_of known token of
         Some slot \<Rightarrow> ret_st known slot
       | None \<Rightarrow>
           (case search_allowance_slot lib node token owner spender 0 BALANCE_SLOT_SEARCH of
              Inl e \<Rightarrow> raise_st known e
            | Inr slot \<Rightarrow> ret_st (od_set token slot known) slot)) (\<lambda>known' slot.
       case slot of
         None \<Rightarrow> ret_st known' None
       | Some k \<Rightarrow>
           (case lift_py (bindr (allowance_key lib owner spender k) (\<lambda>key. storage_diff token key amount)) of
              Inl e \<Rightarrow> raise_st known' e
            | Inr diff \<Rightarrow> ret_st known' (Some diff)))"

section \<open>Simulation\<close>

record sim_result =
  sr_ok :: bool
  sr_logs :: "rpc_log list"
  sr_gas_used :: int
  sr_revert :: "revert_kind option"
  sr_staging_gas :: "int list"

definition call_json :: "address \<Rightarrow> tx_call \<Rightarrow> json" where
  "call_json wallet c =
     JObj [(''from'', JStr wallet), (''to'', JStr (call_to c)), (''data'', JStr (hex0x (call_data c))),
           (''value'', JStr (hex_text (call_value c)))]"

definition simulate_params :: "address \<Rightarrow> tx_call list \<Rightarrow> tx_call \<Rightarrow> string \<Rightarrow> json option \<Rightarrow> json list" where
  "simulate_params wallet staging call block overrides =
     [JObj [(''blockStateCalls'', JArr [JObj ((''calls'', JArr (map (call_json wallet) (staging @ [call])))
              # (case overrides of Some v \<Rightarrow> [(''stateOverrides'', v)] | None \<Rightarrow> []))]),
            (''traceTransfers'', JBool True), (''validation'', JBool False)], JStr block]"

text \<open>
  A log as \<^verbatim>\<open>Ledger\<close> reads it. The fields of a log are text, as the node's protocol says;
  other values are not read.
\<close>

definition log_of_json :: "json \<Rightarrow> py_error + rpc_log" where
  "log_of_json v =
     bindr (bindr (json_key ''address'' v) json_text) (\<lambda>address.
     bindr (bindr (bindr (json_get ''topics'' (JArr []) v) json_list) (map_res json_text)) (\<lambda>topics.
     bindr (bindr (json_get ''data'' (JStr ''0x'') v) json_text) (\<lambda>data.
       Inr \<lparr>log_address = address, log_topics = topics, log_data = data\<rparr>)))"

definition hex_payload :: "json \<Rightarrow> string option" where
  "hex_payload v = (case v of JStr s \<Rightarrow> if take 2 s = ''0x'' then Some (drop 2 s) else None | _ \<Rightarrow> None)"

definition revert_bytes :: "json \<Rightarrow> py_error + bytes" where
  "revert_bytes out =
     bindr (json_get ''error'' JNull out) (\<lambda>err.
     let data = (case err of JObj kvs \<Rightarrow> (case map_of kvs ''data'' of None \<Rightarrow> JNull | Some v \<Rightarrow> v) | _ \<Rightarrow> JNull) in
     bindr (if hex_payload data = None then json_get ''returnData'' (JStr ''0x'') out else Inr data) (\<lambda>v.
       case hex_payload v of Some s \<Rightarrow> bytes_fromhex s | None \<Rightarrow> Inr []))"

fun check_staging :: "nat \<Rightarrow> json list \<Rightarrow> tx_exn + unit" where
  "check_staging index [] = Inr ()"
| "check_staging index (out # outs) =
     bindr (lift_py (json_get ''status'' JNull out)) (\<lambda>status.
       if status \<noteq> JStr ''0x1'' then
         bindr (lift_py (revert_bytes out)) (\<lambda>b.
           Inl (TxError ''staging_failed''
             (''staging call '' @ int_text (int index) @ '' reverted: '' @ take 80 (hex_of_bytes b))))
       else check_staging (index + 1) outs)"

definition gas_of :: "json \<Rightarrow> py_error + int" where
  "gas_of out = bindr (json_get ''gasUsed'' (JStr ''0x0'') out) json_int16"

definition read_outcome :: "eth_lib \<Rightarrow> json list \<Rightarrow> tx_exn + sim_result" where
  "read_outcome lib outs =
     bindr (check_staging 0 (butlast outs)) (\<lambda>_.
     if outs = [] then Inl (Py (IndexError ''list index out of range''))
     else let out = last outs in
       bindr (lift_py (gas_of out)) (\<lambda>gas.
       bindr (lift_py (map_res gas_of (butlast outs))) (\<lambda>stages.
       bindr (lift_py (json_get ''status'' JNull out)) (\<lambda>status.
         if status = JStr ''0x1'' then
           bindr (lift_py (bindr (bindr (json_get ''logs'' (JArr []) out) json_list) (map_res log_of_json))) (\<lambda>logs.
             Inr \<lparr>sr_ok = True, sr_logs = logs, sr_gas_used = gas, sr_revert = None, sr_staging_gas = stages\<rparr>)
         else
           bindr (lift_py (bindr (revert_bytes out) (\<lambda>b. decode_revert lib (length b + 1) b))) (\<lambda>kind.
             Inr \<lparr>sr_ok = False, sr_logs = [], sr_gas_used = gas, sr_revert = Some kind, sr_staging_gas = stages\<rparr>)))))"

definition run_sim :: "eth_lib \<Rightarrow> node \<Rightarrow> address \<Rightarrow> tx_call list \<Rightarrow> tx_call \<Rightarrow> string \<Rightarrow> json option \<Rightarrow> tx_exn + sim_result" where
  "run_sim lib node wallet staging call block overrides =
    (case node ''eth_simulateV1'' (simulate_params wallet staging call block overrides) of
       Inl e \<Rightarrow>
         (let text = one_line (py_text e) in
          if contains ''insufficient funds'' (lower text) then Inl (TxRefusal ''insufficient_balance'' (take 200 text))
          else Inl (TxError ''rpc'' (take 200 text)))
     | Inr result \<Rightarrow>
         bindr (lift_py (bindr (bindr (json_first result) (json_key ''calls'')) json_list)) (read_outcome lib))"

section \<open>Pinned code\<close>

definition CODE_HASHES :: "(address \<times> string) list" where
  "CODE_HASHES =
    [(UR, ''0x2ce6aaaf9f4151f5e1cbf774668772f17f532ae11b15e9284fd0a072a8b0fbde''),
     (GIGA_SWAP_ROUTER, ''0x479d6479d1ea39688da8c999c2aeae920e16a5581c810202efdbf3036ba856aa''),
     (PANCAKE_SMART_ROUTER, ''0x7b7d21a7f218720a2439e4b5383f1cdcbfff6c4dde354731626dd618d9df8ad8''),
     (SLIPSTREAM_SWAP_ROUTER, ''0x11ea7d3599ef56eda32c0ce7ca26e9aae71bec13bfcbd3ad0e83826c1a2defe4''),
     (PERMIT2, ''0x5208783f52488f7d3493e5e38311ab707c1d75457fe472a19b0b4d57d66a7fca''),
     (POSM, ''0xc873e135dc9aaec88489cfbad146b4cb49d6a32e0d80326377784b7ba17670b2''),
     (POOL_MANAGER, ''0xbd3881180b547f5fe817545743cfb4343e96b1bc6640dcd70c106b0066e95626''),
     (NFPM_UNISWAP, ''0x0a493d1af3d0f25fed8efa205244ebee14114267a08647fc38c515c7cd6ead4f''),
     (NFPM_PANCAKE, ''0x1f78ea9b8894f894de8ed49ad312e37c1c15a4fbe5783bd41fb4a2e586d45f7f''),
     (NFPM_GIGA, ''0x204c48c03559d3c265b26b7fec5859f0f95293052a1a1f461b944989fa234a2b''),
     (PONS_HOOK, ''0xc21b1e6c1b45403e81a581f22ed6d9c747997af1cfdac1b1dc9f4b1d346a10db'')]"

record code_mismatch =
  mi_address :: address
  mi_expected :: string
  mi_actual :: string

definition code_hash :: "eth_lib \<Rightarrow> json \<Rightarrow> py_error + string" where
  "code_hash lib code =
    (case hex_payload code of
       None \<Rightarrow> Inl (RuntimeError ''RPC returned malformed code'')
     | Some s \<Rightarrow> bindr (bytes_fromhex s) (\<lambda>b. Inr (hex0x (keccak lib b))))"

definition verify_codes :: "eth_lib \<Rightarrow> node \<Rightarrow> (address \<times> string) list \<Rightarrow> py_error + code_mismatch list" where
  "verify_codes lib node pins =
     bindr (map_res (\<lambda>(address, expected).
         bindr (node ''eth_getCode'' [JStr address, JStr ''latest'']) (\<lambda>code.
         bindr (code_hash lib code) (\<lambda>actual.
           Inr \<lparr>mi_address = address, mi_expected = expected, mi_actual = actual\<rparr>))) pins) (\<lambda>found.
       Inr (filter (\<lambda>m. mi_actual m \<noteq> mi_expected m) found))"

end
