(* ===== verification/Tx_Quote.thy ===== *)
theory Tx_Quote
  imports Tx_Node Registry
begin

text \<open>
  \<^verbatim>\<open>src/rhpools/tx_core.py\<close>: the quote of a swap. The state of \<^verbatim>\<open>TxCore\<close> is a record that is
  passed through and returned also when an exception ends a request. A request reads one view of
  the node and of the pools table; the threads that simulate routes only read, so their results are
  a list in the order of the tasks. The identifier of a quote (a hash of fresh random bytes) and
  the clock readings are arguments.
\<close>

section \<open>Quotes\<close>

record unsigned_tx =
  ut_from :: address
  ut_to :: address
  ut_data :: bytes
  ut_value :: int
  ut_gas :: "int option"

definition make_tx :: "address \<Rightarrow> address \<Rightarrow> bytes \<Rightarrow> int \<Rightarrow> int option \<Rightarrow> unsigned_tx" where
  "make_tx wallet to data v gas = \<lparr>ut_from = wallet, ut_to = to, ut_data = data, ut_value = v, ut_gas = gas\<rparr>"

definition tx_json :: "unsigned_tx \<Rightarrow> json" where
  "tx_json t =
     JObj ([(''from'', JStr (ut_from t)), (''to'', JStr (ut_to t)), (''data'', JStr (hex0x (ut_data t))),
            (''value'', JStr (hex_text (ut_value t))), (''chainId'', JStr (hex_text CHAIN_ID))]
           @ (case ut_gas t of None \<Rightarrow> [] | Some g \<Rightarrow> [(''gas'', JStr (hex_text g))]))"

record quote_step =
  qt_kind :: string
  qt_tx :: "unsigned_tx option"
  qt_typed_data :: "json option"

definition step_json :: "quote_step \<Rightarrow> json" where
  "step_json s =
     JObj ([(''kind'', JStr (qt_kind s))]
           @ (case qt_tx s of None \<Rightarrow> [] | Some t \<Rightarrow> [(''tx'', tx_json t)])
           @ (case qt_typed_data s of None \<Rightarrow> [] | Some d \<Rightarrow> [(''typed_data'', d)]))"

definition block_json :: "block_ref \<Rightarrow> json" where
  "block_json b = JObj [(''number'', JInt (bk_number b)), (''hash'', JStr (bk_hash b))]"

record quote_base =
  q_id :: string
  q_wallet :: address
  q_plan :: plan
  q_block :: block_ref
  q_expires_at :: int
  q_deadline :: int
  q_steps :: "quote_step list"
  q_warnings :: "string list"
  q_gas :: int

record swap_quote = quote_base +
  sq_intent :: swap_intent
  sq_route :: route
  sq_amounts :: amounts
  sq_split :: split
  sq_hop_policies :: "(int \<times> int) list"
  sq_leg_policies :: "(int \<times> int) list list"
  sq_have :: "int option"

record lp_quote = quote_base +
  lq_intent :: lp_intent
  lq_pool :: pool
  lq_amounts :: lp_amounts

datatype quote = SwapQuote swap_quote | LpQuote lp_quote

definition base_of :: "quote \<Rightarrow> quote_base" where
  "base_of q = (case q of SwapQuote s \<Rightarrow> quote_base.truncate s | LpQuote l \<Rightarrow> quote_base.truncate l)"

lemma base_of_simps [simp]:
  "q_id (base_of (SwapQuote s)) = q_id s" "q_id (base_of (LpQuote l)) = q_id l"
  "q_wallet (base_of (SwapQuote s)) = q_wallet s" "q_wallet (base_of (LpQuote l)) = q_wallet l"
  "q_plan (base_of (SwapQuote s)) = q_plan s" "q_plan (base_of (LpQuote l)) = q_plan l"
  "q_block (base_of (SwapQuote s)) = q_block s" "q_block (base_of (LpQuote l)) = q_block l"
  "q_expires_at (base_of (SwapQuote s)) = q_expires_at s" "q_expires_at (base_of (LpQuote l)) = q_expires_at l"
  by (simp_all add: base_of_def quote_base.truncate_def)

definition step_of :: "string \<Rightarrow> quote_base \<Rightarrow> py_error + quote_step" where
  "step_of kind q = (case filter (\<lambda>s. qt_kind s = kind) (q_steps q) of [] \<Rightarrow> Inl (KeyError kind) | s # _ \<Rightarrow> Inr s)"

definition base_json :: "quote_base \<Rightarrow> (string \<times> json) list" where
  "base_json q =
     [(''quote_id'', JStr (q_id q)), (''wallet'', JStr (q_wallet q)), (''block'', block_json (q_block q)),
      (''expires_at'', JInt (q_expires_at q)), (''deadline'', JInt (q_deadline q)),
      (''steps'', JArr (map step_json (q_steps q))), (''warnings'', JArr (map JStr (q_warnings q))),
      (''gas'', JInt (q_gas q))]"

definition hops_json :: "route \<Rightarrow> (int \<times> int) list \<Rightarrow> json" where
  "hops_json r policies =
     JArr (map (\<lambda>(h, hook_bps, creator_bps).
       let p = hop_pool h in
       JObj [(''venue'', JStr (venue_value (p_venue p))),
             (''dex'', JStr (case map_of DEX_BY_FACTORY (p_factory p) of Some d \<Rightarrow> d | None \<Rightarrow> ''uniswap'')),
             (''pool_id'', JStr (p_id p)), (''fee_ppm'', JInt (p_fee_ppm p)),
             (''currency_in'', JStr (hop_in h)), (''currency_out'', JStr (hop_out h)),
             (''hook_fee_bps'', JInt hook_bps), (''creator_tax_bps'', JInt creator_bps)]) (zip r policies))"

text \<open>\<^verbatim>\<open>plan.shape\<close> of a swap plan.\<close>

definition swap_shape_of :: "plan \<Rightarrow> tx_exn + swap_shape" where
  "swap_shape_of p =
    (case pl_body p of
       SwapBody commands slot shape split \<Rightarrow> Inr shape
     | RouterBody shape gross \<Rightarrow> Inr shape
     | _ \<Rightarrow> Inl (Py (AttributeError ''not a swap plan'')))"

definition swap_quote_json :: "swap_quote \<Rightarrow> tx_exn + json" where
  "swap_quote_json q =
     bindr (swap_shape_of (q_plan q)) (\<lambda>shape.
       Inr (JObj (base_json (quote_base.truncate q) @
         [(''kind'', JStr ''swap''), (''fee_bps'', JInt (ss_fee_bps shape)),
          (''intent'', swap_intent_json (sq_intent q)), (''route'', JStr (describe (sq_route q))),
          (''hops'', hops_json (sq_route q) (sq_hop_policies q)),
          (''legs'', JArr (map (\<lambda>(leg, policies).
             JObj [(''route'', JStr (describe (sl_route leg))), (''hops'', hops_json (sl_route leg) policies),
                   (''amount_in'', text_json (sl_amount_in leg)), (''amount_out'', text_json (sl_amount_out leg))])
             (zip (sq_split q) (sq_leg_policies q)))),
          (''amounts'', amounts_json (sq_amounts q)),
          (''shortfall'', opt_json (\<lambda>have. JObj [(''currency'', JStr (intent_in (sq_intent q))),
             (''have'', text_json have), (''need'', text_json (si_amount_in (sq_intent q)))]) (sq_have q))])))"

definition lp_quote_json :: "lp_quote \<Rightarrow> json" where
  "lp_quote_json q =
     JObj (base_json (quote_base.truncate q) @
       [(''kind'', JStr ''lp''), (''fee_bps'', JInt 0), (''intent'', lp_intent_json (lq_intent q)),
        (''pool_id'', JStr (p_id (lq_pool q))), (''manager'', JStr (pl_to (q_plan q))),
        (''amounts'', lp_amounts_json (lq_amounts q))])"

section \<open>The state of the core\<close>

record core_env =
  ce_lib :: eth_lib
  ce_node :: node
  ce_rows :: "pool_row list"
  ce_positions :: "(address \<times> string \<times> string option) list"
  ce_policy :: tx_policy
  ce_ttl_s :: int
  ce_max_quotes :: int

type_synonym quotes = "(string, quote) odict"

record core_state =
  cs_book :: route_book
  cs_quotes :: quotes
  cs_balance_slots :: slots
  cs_allowance_slots :: slots
  cs_token_meta :: "(address, int \<times> string) odict"
  cs_mismatches :: "code_mismatch list"

definition MAX_QUOTES_PER_WALLET :: int where "MAX_QUOTES_PER_WALLET = 8"
definition DEADLINE_GRACE_S :: int where "DEADLINE_GRACE_S = 60"

text \<open>A step of a request that cannot change the state.\<close>

definition pure_st :: "'e + 'a \<Rightarrow> 's \<Rightarrow> 's \<times> ('e + 'a)" where
  "pure_st r s = (s, r)"

lemma pure_st_simps [simp]:
  "fst (pure_st r s) = s" "pure_st r s = (s', x) \<longleftrightarrow> s' = s \<and> x = r"
  by (auto simp: pure_st_def)

definition require_enabled :: "core_state \<Rightarrow> tx_exn + unit" where
  "require_enabled st =
     ensure (cs_mismatches st = []) (TxRefusal ''allowlist_mismatch''
       (''target code changed: '' @ join_text '', '' (map mi_address (cs_mismatches st))))"

text \<open>
  \<^verbatim>\<open>_store\<close>: expired quotes go, then the wallet's oldest one when it has as many as it may, then
  the new one is kept.
\<close>

definition store_quote :: "core_env \<Rightarrow> int \<Rightarrow> quote \<Rightarrow> core_state \<Rightarrow> core_state \<times> (tx_exn + unit)" where
  "store_quote env now q st =
    (let live = filter (\<lambda>(k, q1). now < q_expires_at (base_of q1)) (cs_quotes st);
         owned = map fst (filter (\<lambda>(k, q1). q_wallet (base_of q1) = q_wallet (base_of q)) live);
         put = (\<lambda>qs. ret_st (st\<lparr>cs_quotes := od_set (q_id (base_of q)) q qs\<rparr>) ())
     in if int (length owned) \<ge> min (ce_max_quotes env) MAX_QUOTES_PER_WALLET then
          (case owned of
             [] \<Rightarrow> raise_st (st\<lparr>cs_quotes := live\<rparr>) (Py (IndexError ''list index out of range''))
           | k # _ \<Rightarrow> put (od_del k live))
        else put live)"

text \<open>\<^verbatim>\<open>_steps\<close>: the approvals the wallet still has to give, its permit signature, the order.\<close>

definition approval_short :: "plan \<Rightarrow> approval_need \<Rightarrow> int \<Rightarrow> bool" where
  "approval_short p need allowance \<longleftrightarrow>
     allowance < an_required need \<or> (pl_to p = an_spender need \<and> allowance \<noteq> an_approve_amount need)"

fun approve_steps :: "core_env \<Rightarrow> address \<Rightarrow> plan \<Rightarrow> string \<Rightarrow> approval_need list \<Rightarrow> tx_exn + quote_step list" where
  "approve_steps env wallet p tag [] = Inr []"
| "approve_steps env wallet p tag (need # needs) =
     bindr (read_allowance (ce_lib env) (ce_node env) (an_token need) wallet (an_spender need) tag) (\<lambda>allowance.
     bindr (if approval_short p need allowance
            then bindr (lift_py (erc20_approve (ce_lib env) (an_spender need) (an_approve_amount need))) (\<lambda>data.
              Inr [\<lparr>qt_kind = ''approve'', qt_tx = Some (make_tx wallet (an_token need) data 0 None), qt_typed_data = None\<rparr>])
            else Inr []) (\<lambda>here.
     bindr (approve_steps env wallet p tag needs) (\<lambda>rest. Inr (here @ rest))))"

definition plan_steps :: "core_env \<Rightarrow> address \<Rightarrow> plan \<Rightarrow> string \<Rightarrow> tx_exn + quote_step list" where
  "plan_steps env wallet p tag =
     bindr (approve_steps env wallet p tag (pl_approvals p)) (\<lambda>approvals.
       Inr (approvals
         @ (case permit_typed_data p of None \<Rightarrow> []
            | Some typed \<Rightarrow> [\<lparr>qt_kind = ''permit'', qt_tx = None, qt_typed_data = Some typed\<rparr>])
         @ [\<lparr>qt_kind = ''send'', qt_tx = None, qt_typed_data = None\<rparr>]))"


section \<open>Errors a request handles\<close>

definition is_tx_error :: "tx_exn \<Rightarrow> bool" where
  "is_tx_error e = (case e of TxError c d \<Rightarrow> True | TxRefusal c d \<Rightarrow> True | _ \<Rightarrow> False)"

definition exn_code :: "tx_exn \<Rightarrow> string" where
  "exn_code e = (case e of TxError c d \<Rightarrow> c | TxRefusal c d \<Rightarrow> c | _ \<Rightarrow> [])"

definition exn_text :: "tx_exn \<Rightarrow> string" where
  "exn_text e =
    (case e of
       TxError c d \<Rightarrow> if d \<noteq> [] then c @ '': '' @ d else c
     | TxRefusal c d \<Rightarrow> if d \<noteq> [] then c @ '': '' @ d else c
     | _ \<Rightarrow> [])"

text \<open>\<^verbatim>\<open>except (TxError, RuntimeError, ValueError)\<close>: \<^verbatim>\<open>UnknownHook\<close> is a \<^verbatim>\<open>RuntimeError\<close>, the others
  of the modules are \<^verbatim>\<open>ValueError\<close>s.\<close>

definition request_error :: "tx_exn \<Rightarrow> bool" where
  "request_error e =
    (case e of Py p \<Rightarrow> (case p of ValueError m \<Rightarrow> True | RuntimeError m \<Rightarrow> True | _ \<Rightarrow> False) | _ \<Rightarrow> True)"

definition recover :: "(tx_exn \<Rightarrow> bool) \<Rightarrow> 'a \<Rightarrow> tx_exn + 'a \<Rightarrow> tx_exn + 'a" where
  "recover handled d r = (case r of Inr x \<Rightarrow> Inr x | Inl e \<Rightarrow> if handled e then Inr d else Inl e)"

lemma recover_eq_Inr: "recover handled d r = Inr x \<longleftrightarrow> r = Inr x \<or> (\<exists>e. r = Inl e \<and> handled e \<and> x = d)"
  by (auto simp: recover_def split: sum.splits)

section \<open>Simulated orders\<close>

text \<open>The node as the hook registry asks it, and the policies the registry answers.\<close>

definition book_call :: "node \<Rightarrow> rpc_call" where
  "book_call node to data = bindr (eth_call node to data ''latest'') (\<lambda>v. lift_py (json_text v))"

definition hook_lookup :: "core_env \<Rightarrow> route_book \<Rightarrow> pool \<Rightarrow> tx_exn + hook_policy" where
  "hook_lookup env book p = snd (hook_policy_of (book_call (ce_node env)) book p)"

definition plan_call :: "core_env \<Rightarrow> plan \<Rightarrow> tx_exn + tx_call" where
  "plan_call env p =
     bindr (lift_py (calldata (ce_lib env) p)) (\<lambda>data. Inr \<lparr>call_to = pl_to p, call_data = data, call_value = pl_value p\<rparr>)"

definition sim_ledger :: "core_env \<Rightarrow> sim_result \<Rightarrow> tx_exn + ledger" where
  "sim_ledger env sim = lift_py (make_ledger (ce_lib env) (sr_logs sim) True [])"

text \<open>The code and text of a failed simulation; a failed one has decoded revert data.\<close>

definition revert_exn :: "(string \<Rightarrow> string \<Rightarrow> tx_exn) \<Rightarrow> sim_result \<Rightarrow> tx_exn" where
  "revert_exn mk sim =
    (case sr_revert sim of
       None \<Rightarrow> Py (RuntimeError ''AssertionError'')
     | Some r \<Rightarrow> mk (rk_kind r) (strip (rk_selector r @ '' '' @ rk_detail r)))"

text \<open>What is fixed while the candidates of a quote are compared.\<close>

record round =
  rd_deadline :: int
  rd_nonce :: int
  rd_tag :: string
  rd_policy :: tx_policy
  rd_funded :: "json option"
  rd_book :: route_book

type_synonym outcome = "plan \<times> sim_result \<times> amounts option \<times> tx_exn option"

definition simulate_swap :: "core_env \<Rightarrow> round \<Rightarrow> swap_intent \<Rightarrow> route \<Rightarrow> tx_exn + outcome" where
  "simulate_swap env rd intent r =
     bindr (plan_swap (ce_lib env) intent r (rd_policy rd) (rd_deadline rd) (rd_nonce rd)) (\<lambda>p.
     bindr (plan_call env p) (\<lambda>call.
     bindr (run_sim (ce_lib env) (ce_node env) (si_wallet intent) (pl_staging p) call (rd_tag rd) (rd_funded rd)) (\<lambda>sim.
       if \<not> sr_ok sim then Inr (p, sim, None, Some (revert_exn TxError sim))
       else case bindr (swap_shape_of p) (\<lambda>shape. bindr (sim_ledger env sim) (\<lambda>l.
                   swap_amounts shape l (hook_lookup env (rd_book rd)))) of
         Inr a \<Rightarrow> Inr (p, sim, Some a, None)
       | Inl e \<Rightarrow> if is_tx_error e then Inr (p, sim, None, Some e) else Inl e)))"

type_synonym split_outcome = "plan \<times> sim_result \<times> amounts \<times> split"

definition measure_split :: "core_env \<Rightarrow> round \<Rightarrow> plan \<Rightarrow> split \<Rightarrow> sim_result \<Rightarrow> tx_exn + (amounts \<times> split) option" where
  "measure_split env rd p split sim =
     recover is_tx_error None
       (bindr (swap_shape_of p) (\<lambda>shape. bindr (sim_ledger env sim) (\<lambda>l.
        bindr (split_amounts shape split l (hook_lookup env (rd_book rd)) False) (\<lambda>r. Inr (Some r)))))"

text \<open>\<^verbatim>\<open>enforce_min\<close>: the split is simulated again with its minimum set, and must give the same output.\<close>

definition enforce_split ::
  "core_env \<Rightarrow> round \<Rightarrow> swap_intent \<Rightarrow> plan \<Rightarrow> split \<Rightarrow> amounts \<Rightarrow> split \<Rightarrow> tx_exn + split_outcome option" where
  "enforce_split env rd intent p split a measured =
    (let bounded = (case pl_body p of
            SwapBody commands slot shape split0 \<Rightarrow> p\<lparr>pl_permit := None, pl_body := SwapBody commands slot shape (Some measured)\<rparr>
          | _ \<Rightarrow> p\<lparr>pl_permit := None\<rparr>) in
     bindr (finalize_swap bounded (min_out_for (am_net_out a) (si_slippage_bps intent)) None) (\<lambda>exact_plan.
     bindr (lift_py (calldata (ce_lib env) exact_plan)) (\<lambda>data.
     bindr (run_sim (ce_lib env) (ce_node env) (si_wallet intent) (pl_staging p)
              \<lparr>call_to = pl_to p, call_data = data, call_value = pl_value p\<rparr> (rd_tag rd) (rd_funded rd)) (\<lambda>exact.
       if \<not> sr_ok exact then Inr None
       else bindr (measure_split env rd p split exact) (\<lambda>m. case m of
           None \<Rightarrow> Inr None
         | Some (verified, verified_split) \<Rightarrow>
             if am_net_out verified \<noteq> am_net_out a then Inr None
             else Inr (Some (p, exact, verified, verified_split)))))))"

definition simulate_split ::
  "core_env \<Rightarrow> round \<Rightarrow> swap_intent \<Rightarrow> split \<Rightarrow> bool \<Rightarrow> tx_exn + split_outcome option" where
  "simulate_split env rd intent split enforce_min =
     bindr (plan_split (ce_lib env) intent split (rd_policy rd) (rd_deadline rd) (rd_nonce rd)) (\<lambda>p.
     bindr (plan_call env p) (\<lambda>call.
     bindr (run_sim (ce_lib env) (ce_node env) (si_wallet intent) (pl_staging p) call (rd_tag rd) (rd_funded rd)) (\<lambda>sim.
       if \<not> sr_ok sim then Inr None
       else bindr (measure_split env rd p split sim) (\<lambda>m. case m of
           None \<Rightarrow> Inr None
         | Some (a, measured) \<Rightarrow>
             if enforce_min then enforce_split env rd intent p split a measured
             else Inr (Some (p, sim, a, measured))))))"

section \<open>The search for the best execution\<close>

definition MAX_SWAP_AMOUNT :: int where "MAX_SWAP_AMOUNT = push_bit 160 1"

definition validate_swap :: "core_env \<Rightarrow> swap_intent \<Rightarrow> tx_exn + swap_intent" where
  "validate_swap env i =
     bindr (need_address (si_wallet i) ''wallet'') (\<lambda>wallet.
     bindr (need_address (si_token i) ''token'') (\<lambda>token.
     bindr (need_address (si_quote_currency i) ''quote_currency'') (\<lambda>quote_currency.
     bindr (ensure (wallet \<noteq> fee_recipient (ce_policy env))
              (TxRefusal ''fee_wallet'' ''the fee recipient cannot pay itself a fee'')) (\<lambda>_.
     bindr (ensure (quote_currency \<in> set QUOTE_CURRENCIES)
              (TxError ''invalid_intent'' ''quote_currency must be ETH, WETH or USDG'')) (\<lambda>_.
     bindr (ensure (\<not> same_asset token quote_currency)
              (TxError ''invalid_intent'' ''token and pay-with currency are the same asset'')) (\<lambda>_.
     bindr (ensure (0 < si_amount_in i \<and> si_amount_in i < MAX_SWAP_AMOUNT)
              (TxError ''invalid_intent'' ''amount_in must be a positive integer below 2**160'')) (\<lambda>_.
     bindr (ensure (0 \<le> si_slippage_bps i \<and> si_slippage_bps i \<le> 5000)
              (TxError ''invalid_intent'' ''slippage_bps must be within 0..5000'')) (\<lambda>_.
       Inr (i\<lparr>si_wallet := wallet, si_token := token, si_quote_currency := quote_currency\<rparr>)))))))))"

text \<open>
  The outcomes of the candidates in order: the best one so far (a later one must be strictly
  better), the failures, and the routes the Universal Router executes.
\<close>

record tally =
  ty_best :: "(plan \<times> sim_result \<times> amounts \<times> route) option"
  ty_failures :: "(route \<times> tx_exn) list"
  ty_ur :: "(route \<times> amounts) list"

fun tally_step :: "route \<times> outcome \<Rightarrow> tally \<Rightarrow> tally" where
  "tally_step (r, (p, sim, None, failure)) t =
     t\<lparr>ty_failures := ty_failures t @ [(r, case failure of None \<Rightarrow> Py (RuntimeError ''AssertionError'') | Some e \<Rightarrow> e)]\<rparr>"
| "tally_step (r, (p, sim, Some a, failure)) t =
    (let better = (case ty_best t of None \<Rightarrow> True | Some (p0, sim0, a0, r0) \<Rightarrow> am_net_out a > am_net_out a0) in
     t\<lparr>ty_best := (if better then Some (p, sim, a, r) else ty_best t),
       ty_ur := (if pl_to p = UR then ty_ur t @ [(r, a)] else ty_ur t)\<rparr>)"

definition tally_all :: "(route \<times> outcome) list \<Rightarrow> tally" where
  "tally_all outcomes = fold tally_step outcomes \<lparr>ty_best = None, ty_failures = [], ty_ur = []\<rparr>"

definition SPLIT_ROUTES :: nat where "SPLIT_ROUTES = 3"

text \<open>The three best routes of the router, and the curves sampled between nothing and the order.\<close>

definition select_routes :: "(route \<times> amounts) list \<Rightarrow> (route \<times> amounts) list" where
  "select_routes ur = take SPLIT_ROUTES (sort_key (\<lambda>(r, a). - am_net_out a) ur)"

definition sample_share :: "core_env \<Rightarrow> round \<Rightarrow> swap_intent \<Rightarrow> route \<Rightarrow> nat \<Rightarrow> tx_exn + int option" where
  "sample_share env rd intent r k =
     recover is_tx_error None
       (bindr (simulate_swap env rd (intent\<lparr>si_amount_in := si_amount_in intent * int k div int SPLIT_STEPS\<rparr>) r)
          (\<lambda>(p, sim, got, failure). Inr (map_option am_net_out got)))"

definition sample_curve :: "core_env \<Rightarrow> round \<Rightarrow> swap_intent \<Rightarrow> route \<times> amounts \<Rightarrow> tx_exn + curve" where
  "sample_curve env rd intent ra =
     bindr (map_res (sample_share env rd intent (fst ra)) [1..<SPLIT_STEPS]) (\<lambda>outs.
       Inr (\<lambda>k. if k = 0 then Some 0 else if k < SPLIT_STEPS then outs ! (k - 1) else Some (am_net_out (snd ra))))"

definition propose_split :: "core_env \<Rightarrow> round \<Rightarrow> swap_intent \<Rightarrow> (route \<times> amounts) list \<Rightarrow> tx_exn + split_outcome option" where
  "propose_split env rd intent ur =
    (if length ur \<le> 1 \<or> si_amount_in intent < int SPLIT_STEPS then Inr None
     else let chosen = select_routes ur in
       bindr (map_res (sample_curve env rd intent) chosen) (\<lambda>curves.
         recover is_tx_error None
           (bindr (allocate_split (map fst chosen) curves (si_amount_in intent)) (\<lambda>proposed.
              if length proposed > 1 then simulate_split env rd intent proposed True else Inr None))))"

definition search_failure :: "(route \<times> tx_exn) list \<Rightarrow> tx_exn" where
  "search_failure failures =
    (let codes = remdups (map (\<lambda>(r, e). exn_code e) failures);
         code = (case codes of [c] \<Rightarrow> if c = ''insufficient_balance'' \<or> c = ''unmodeled_fee'' then c else ''no_route''
                 | _ \<Rightarrow> ''no_route'')
     in TxRefusal code (take 400 (join_text ''; '' (map (\<lambda>(r, e). describe r @ '': '' @ exn_text e) failures))))"

text \<open>
  The split replaces the whole order only when it returns more than the gas of its extra hops costs,
  in the output currency where that can be priced, and a thousandth of the output otherwise.
\<close>

definition is_ether :: "address \<Rightarrow> bool" where
  "is_ether c \<longleftrightarrow> c = NATIVE \<or> c = WETH"

definition split_gas_cost :: "core_env \<Rightarrow> swap_intent \<Rightarrow> int \<Rightarrow> sim_result \<Rightarrow> sim_result \<Rightarrow> amounts \<Rightarrow> tx_exn + int option" where
  "split_gas_cost env intent improvement split_sim sim a =
    (if improvement > 0 \<and> (is_ether (intent_out intent) \<or> is_ether (intent_in intent)) then
       recover request_error None
         (bindr (lift_py (ce_node env ''eth_gasPrice'' [])) (\<lambda>v. bindr (hex_int v ''gas price'') (\<lambda>gas_price.
            let gas_wei = max 0 (sr_gas_used split_sim - sr_gas_used sim) * gas_price in
            if is_ether (intent_out intent) then Inr (Some gas_wei)
            else bindr (lift_py (py_div (gas_wei * am_net_out a) (si_amount_in intent))) (\<lambda>c. Inr (Some c)))))
     else Inr None)"

definition split_threshold :: "int option \<Rightarrow> amounts \<Rightarrow> int" where
  "split_threshold gas_cost a = (case gas_cost of Some c \<Rightarrow> c | None \<Rightarrow> am_net_out a div 1000)"

record execution =
  ex_plan :: plan
  ex_sim :: sim_result
  ex_amounts :: amounts
  ex_route :: route
  ex_split :: split

definition with_split :: "plan \<Rightarrow> split \<Rightarrow> plan" where
  "with_split p split =
    (case pl_body p of
       SwapBody commands slot shape split0 \<Rightarrow> p\<lparr>pl_body := SwapBody commands slot shape (Some split)\<rparr>
     | _ \<Rightarrow> p)"

definition choose_execution ::
  "core_env \<Rightarrow> swap_intent \<Rightarrow> plan \<times> sim_result \<times> amounts \<times> route \<Rightarrow> split_outcome option \<Rightarrow> tx_exn + execution" where
  "choose_execution env intent best choice =
    (case best of (p, sim, a, r) \<Rightarrow>
     let single = \<lparr>ex_plan = p, ex_sim = sim, ex_amounts = a, ex_route = r,
                   ex_split = [\<lparr>sl_route = r, sl_amount_in = si_amount_in intent, sl_amount_out = am_net_out a\<rparr>]\<rparr> in
     case choice of
       None \<Rightarrow> Inr single
     | Some (split_plan, split_sim, sa, measured) \<Rightarrow>
         let improvement = am_net_out sa - am_net_out a in
         bindr (split_gas_cost env intent improvement split_sim sim a) (\<lambda>cost.
           if improvement > split_threshold cost a then
             Inr \<lparr>ex_plan = with_split split_plan measured, ex_sim = split_sim, ex_amounts = sa,
                  ex_route = sl_route (hd measured), ex_split = measured\<rparr>
           else Inr single))"

definition find_execution :: "core_env \<Rightarrow> round \<Rightarrow> swap_intent \<Rightarrow> bool \<Rightarrow> route list \<Rightarrow> tx_exn + execution" where
  "find_execution env rd intent probe_only routes =
     bindr (map_res (\<lambda>r. bindr (simulate_swap env rd intent r) (\<lambda>o1. Inr (r, o1))) routes) (\<lambda>outcomes.
     let t = tally_all outcomes in
     bindr (if probe_only \<or> ty_best t = None then Inr None else propose_split env rd intent (ty_ur t)) (\<lambda>choice.
       case ty_best t of
         None \<Rightarrow> Inl (search_failure (ty_failures t))
       | Some best \<Rightarrow> choose_execution env intent best choice))"


text \<open>
  \<open>open_search\<close> is the first half of \<^verbatim>\<open>_quote_swap\<close>: the guards, the block everything is read at,
  the candidates, the wallet's funds (or a state override that lends them) and the permit nonce.
\<close>

record search =
  se_intent :: swap_intent
  se_block :: block_ref
  se_routes :: "route list"
  se_have :: int
  se_expires_at :: int
  se_round :: round

definition no_route_detail :: "core_env \<Rightarrow> address \<Rightarrow> tx_exn + string" where
  "no_route_detail env token =
     bindr (quote_pools (ce_lib env) (ce_rows env) token) (\<lambda>ps.
     let factories = sort (remdups (map p_factory (filter (\<lambda>p. \<not> swappable p) ps))) in
     Inr (if factories \<noteq> [] then ''unsupported pool factories: '' @ join_text '', '' factories
          else ''no compatible route with a deployed router''))"

definition lend_funds :: "core_env \<Rightarrow> swap_intent \<Rightarrow> route list \<Rightarrow> int \<Rightarrow> string \<Rightarrow> core_state \<Rightarrow> core_state \<times> (tx_exn + json option)" where
  "lend_funds env i routes have tag st =
    (if have \<ge> si_amount_in i then ret_st st None
     else if intent_in i \<noteq> NATIVE \<and> \<not> (\<exists>r \<in> set routes. \<exists>h \<in> set r. intent_in i = p_token0 (hop_pool h) \<or> intent_in i = p_token1 (hop_pool h))
     then raise_st st (TxRefusal ''no_route'' ''input currency has no routable pool'')
     else
       (let (known, r) = funded_state (ce_lib env) (ce_node env) (intent_in i) (si_wallet i) (si_amount_in i) tag (cs_balance_slots st);
            st' = st\<lparr>cs_balance_slots := known\<rparr>
        in case r of
             Inl e \<Rightarrow> raise_st st' e
           | Inr None \<Rightarrow> raise_st st' (TxRefusal ''insufficient_balance'' ''wallet holds less than amount_in'')
           | Inr (Some diff) \<Rightarrow> ret_st st' (Some diff)))"

definition find_candidates :: "core_env \<Rightarrow> swap_intent \<Rightarrow> core_state \<Rightarrow> core_state \<times> (tx_exn + route list)" where
  "find_candidates env i st =
    (let (book, r) = candidates (ce_lib env) (ce_rows env) (book_call (ce_node env)) (cs_book st) (si_token i) (si_quote_currency i) (si_side i);
         st' = st\<lparr>cs_book := book\<rparr>
     in case r of
          Inl e \<Rightarrow> raise_st st' e
        | Inr [] \<Rightarrow> raise_st st' (case no_route_detail env (si_token i) of Inl e \<Rightarrow> e | Inr d \<Rightarrow> TxRefusal ''no_route'' d)
        | Inr routes \<Rightarrow> ret_st st' routes)"

definition open_search :: "core_env \<Rightarrow> int \<Rightarrow> tx_policy \<Rightarrow> swap_intent \<Rightarrow> core_state \<Rightarrow> core_state \<times> (tx_exn + search)" where
  "open_search env now policy intent st =
     bind_st (pure_st (validate_swap env intent) st) (\<lambda>st i.
     bind_st (pure_st (read_header (ce_node env) ''latest'') st) (\<lambda>st block.
     let tag = hex_text (bk_number block) in
     bind_st (find_candidates env i st) (\<lambda>st routes.
     bind_st (pure_st (read_balance (ce_lib env) (ce_node env) (intent_in i) (si_wallet i) tag) st) (\<lambda>st have.
     bind_st (lend_funds env i routes have tag st) (\<lambda>st funded.
     let expires_at = now + ce_ttl_s env in
     bind_st (pure_st (if intent_in i = NATIVE then Inr 0
                       else read_permit_nonce (ce_lib env) (ce_node env) (si_wallet i) (intent_in i) UR tag) st) (\<lambda>st nonce.
       ret_st st \<lparr>se_intent = i, se_block = block, se_routes = routes, se_have = have, se_expires_at = expires_at,
                  se_round = \<lparr>rd_deadline = expires_at + DEADLINE_GRACE_S, rd_nonce = nonce, rd_tag = tag,
                              rd_policy = policy, rd_funded = funded, rd_book = cs_book st\<rparr>\<rparr>))))))"

definition search_swap ::
  "core_env \<Rightarrow> int \<Rightarrow> tx_policy \<Rightarrow> bool \<Rightarrow> swap_intent \<Rightarrow> core_state \<Rightarrow> core_state \<times> (tx_exn + search \<times> execution)" where
  "search_swap env now policy probe_only intent st =
     bind_st (open_search env now policy intent st) (\<lambda>st se.
     bind_st (pure_st (find_execution env (se_round se) (se_intent se) probe_only (se_routes se)) st) (\<lambda>st ex.
       ret_st st (se, ex)))"

section \<open>Price checks\<close>

definition IMPACT_DIVISOR :: int where "IMPACT_DIVISOR = 100"
definition OFF_MARKET_BPS :: int where "OFF_MARKET_BPS = 300"
definition HIGH_POOL_FEE_PPM :: int where "HIGH_POOL_FEE_PPM = 10000"

definition small_order :: "swap_intent \<Rightarrow> swap_intent" where
  "small_order i = i\<lparr>si_amount_in := max 1 (si_amount_in i div IMPACT_DIVISOR)\<rparr>"

text \<open>The small order split in the proportions of the legs; a leg that gets nothing gives up.\<close>

definition small_split :: "int \<Rightarrow> int \<Rightarrow> split \<Rightarrow> split" where
  "small_split small amount legs =
    (let shares = map (\<lambda>l. small * sl_amount_in l div amount) legs;
         shares' = butlast shares @ [last shares + (small - sum_list shares)]
     in map (\<lambda>(l, s). \<lparr>sl_route = sl_route l, sl_amount_in = s, sl_amount_out = 0\<rparr>) (zip legs shares'))"

definition small_amounts :: "core_env \<Rightarrow> round \<Rightarrow> swap_intent \<Rightarrow> execution \<Rightarrow> tx_exn + amounts option" where
  "small_amounts env rd i ex =
    (if length (ex_split ex) = 1 then
       bindr (simulate_swap env rd (small_order i) (ex_route ex)) (\<lambda>(p, sim, a, failure). Inr a)
     else let legs = small_split (si_amount_in (small_order i)) (si_amount_in i) (ex_split ex) in
       if \<exists>l \<in> set legs. sl_amount_in l = 0 then Inr None
       else bindr (lift_py (make_split legs)) (\<lambda>split.
            bindr (simulate_split env rd (small_order i) split False) (\<lambda>r.
              Inr (map_option (\<lambda>(p, sim, a, m). a) r))))"

text \<open>The refusal of a price far below the first candidate's, the deepest pool's.\<close>

definition off_market :: "amounts \<Rightarrow> amounts \<Rightarrow> bool" where
  "off_market small reference \<longleftrightarrow> am_net_out small * 10000 < am_net_out reference * (10000 - OFF_MARKET_BPS)"

definition check_market :: "core_env \<Rightarrow> round \<Rightarrow> swap_intent \<Rightarrow> route list \<Rightarrow> execution \<Rightarrow> amounts option \<Rightarrow> tx_exn + unit" where
  "check_market env rd i routes ex small =
    (if hd routes \<noteq> ex_route ex \<or> length (ex_split ex) > 1 then
       bindr (recover is_tx_error None
                (bindr (simulate_swap env rd (small_order i) (hd routes)) (\<lambda>(p, sim, a, failure). Inr a))) (\<lambda>reference.
         case (reference, small) of
           (Some r, Some s) \<Rightarrow> ensure (\<not> off_market s r)
             (TxRefusal ''off_market'' ''execution price is more than 300 bps worse than the deepest pool'')
         | _ \<Rightarrow> Inr ())
     else Inr ())"

definition impact_of :: "execution \<Rightarrow> amounts option \<Rightarrow> int option" where
  "impact_of ex small = (case small of None \<Rightarrow> None | Some s \<Rightarrow> impact_bps_of (ex_amounts ex) s)"

definition check_impact :: "tx_policy \<Rightarrow> int option \<Rightarrow> tx_exn + string list" where
  "check_impact policy impact =
    (case impact of
       None \<Rightarrow> Inr [''impact_unavailable'']
     | Some i \<Rightarrow> if i > max_impact_bps policy
                 then Inl (TxRefusal ''impact_over_limit'' (''impact '' @ int_text i @ '' bps exceeds '' @ int_text (max_impact_bps policy)))
                 else Inr [])"

definition high_fee :: "split \<Rightarrow> bool" where
  "high_fee split \<longleftrightarrow> (\<exists>l \<in> set split. \<exists>h \<in> set (sl_route l).
     p_hook (hop_pool h) \<noteq> PONS_HOOK \<and> p_fee_ppm (hop_pool h) AND DYNAMIC_FEE_FLAG = 0 \<and> p_fee_ppm (hop_pool h) > HIGH_POOL_FEE_PPM)"

section \<open>Selling back\<close>

text \<open>
  A buy is only quoted when half of what it buys can be sold: the sale is searched like any other
  order. Not holding the tokens yet leaves the check open, which the quote warns of.
\<close>

definition require_sellable ::
  "core_env \<Rightarrow> int \<Rightarrow> tx_policy \<Rightarrow> swap_intent \<Rightarrow> int \<Rightarrow> core_state \<Rightarrow> core_state \<times> (tx_exn + string list)" where
  "require_sellable env now policy i bought st =
    (let (st', r) = search_swap env now policy True
           (i\<lparr>si_side := Sell, si_amount_in := max 1 (bought div 2), si_slippage_bps := 5000\<rparr>) st
     in case r of
          Inr found \<Rightarrow> ret_st st' []
        | Inl (TxRefusal c d) \<Rightarrow>
            if c = ''unmodeled_fee'' \<or> c = ''no_route''
            then raise_st st' (TxRefusal ''unsellable'' (take 300 (''selling it back fails: '' @ d)))
            else ret_st st' (if c = ''insufficient_balance'' then [''sell_unverified''] else [])
        | Inl (TxError c d) \<Rightarrow> ret_st st' [''sell_unverified'']
        | Inl e \<Rightarrow> raise_st st' e)"

section \<open>The quote of a swap\<close>

definition route_policies :: "core_env \<Rightarrow> route_book \<Rightarrow> route \<Rightarrow> tx_exn + (int \<times> int) list" where
  "route_policies env book r =
     map_res (\<lambda>h. bindr (hook_lookup env book (hop_pool h)) (\<lambda>p. Inr (hook_fee_bps p, creator_tax_bps p))) r"

definition assess :: "core_env \<Rightarrow> tx_policy \<Rightarrow> search \<Rightarrow> execution \<Rightarrow> tx_exn + amounts \<times> string list" where
  "assess env policy se ex =
    (let i = se_intent se; rd = se_round se in
     bindr (small_amounts env rd i ex) (\<lambda>small.
     bindr (check_market env rd i (se_routes se) ex small) (\<lambda>_.
     bindr (check_impact policy (impact_of ex small)) (\<lambda>unavailable.
       Inr ((ex_amounts ex)\<lparr>am_min_out := min_out_for (am_net_out (ex_amounts ex)) (si_slippage_bps i), am_impact_bps := impact_of ex small\<rparr>,
            unavailable @ (if am_hook_fee (ex_amounts ex) \<noteq> None then [''pons_fees''] else [])
            @ (if high_fee (ex_split ex) then [''high_pool_fee''] else []))))))"

definition build_quote ::
  "core_env \<Rightarrow> string \<Rightarrow> search \<Rightarrow> execution \<Rightarrow> amounts \<Rightarrow> string list \<Rightarrow> route_book \<Rightarrow> tx_exn + swap_quote" where
  "build_quote env qid se ex a warnings book =
    (let i = se_intent se in
     bindr (plan_steps env (si_wallet i) (ex_plan ex) (rd_tag (se_round se))) (\<lambda>steps.
     bindr (map_res (\<lambda>l. route_policies env book (sl_route l)) (ex_split ex)) (\<lambda>legs.
     bindr (route_policies env book (ex_route ex)) (\<lambda>hops.
       Inr \<lparr>q_id = qid, q_wallet = si_wallet i, q_plan = ex_plan ex, q_block = se_block se,
            q_expires_at = se_expires_at se, q_deadline = rd_deadline (se_round se), q_steps = steps,
            q_warnings = warnings, q_gas = sr_gas_used (ex_sim ex), sq_intent = i, sq_route = ex_route ex,
            sq_amounts = a, sq_split = ex_split ex, sq_hop_policies = hops, sq_leg_policies = legs,
            sq_have = (if rd_funded (se_round se) = None then None else Some (se_have se))\<rparr>))))"

definition quote_swap ::
  "core_env \<Rightarrow> int \<Rightarrow> int \<Rightarrow> string \<Rightarrow> tx_policy \<Rightarrow> swap_intent \<Rightarrow> core_state \<Rightarrow> core_state \<times> (tx_exn + swap_quote)" where
  "quote_swap env now later qid policy intent st =
     bind_st (search_swap env now policy False intent st) (\<lambda>st (se, ex).
     bind_st (pure_st (assess env policy se ex) st) (\<lambda>st (a, warnings).
     bind_st (if si_side (se_intent se) = Buy then require_sellable env now policy (se_intent se) (am_net_out a) st
              else ret_st st []) (\<lambda>st sellable.
     bind_st (pure_st (build_quote env qid se ex a (warnings @ sellable) (cs_book st)) st) (\<lambda>st q.
     bind_st (store_quote env later (SwapQuote q) st) (\<lambda>st _. ret_st st q)))))"

end
