(* ===== verification/Tx_Core.thy ===== *)
theory Tx_Core
  imports Tx_Quote
begin

text \<open>
  \<^verbatim>\<open>src/rhpools/tx_core.py\<close>: the quote of a liquidity change, the view of a pool, and
  \<^verbatim>\<open>prepare\<close>, which turns a stored quote and the wallet's signature into the transaction to sign.
\<close>

section \<open>Positions\<close>

definition call_word :: "core_env \<Rightarrow> address \<Rightarrow> py_error + bytes \<Rightarrow> string \<Rightarrow> nat \<Rightarrow> tx_exn + int" where
  "call_word env to data tag index =
     bindr (lift_py data) (\<lambda>d. bindr (eth_call (ce_node env) to d tag) (\<lambda>v. word_at v index))"

definition owner_call :: "eth_lib \<Rightarrow> int \<Rightarrow> py_error + bytes" where
  "owner_call lib token_id =
     bindr (to_bytes_big 32 token_id) (\<lambda>b. Inr (selector lib ''ownerOf(uint256)'' @ b))"

definition read_position :: "core_env \<Rightarrow> pool \<Rightarrow> address \<Rightarrow> int \<Rightarrow> address \<Rightarrow> string \<Rightarrow> tx_exn + position_state" where
  "read_position env p manager token_id wallet tag =
    (let lib = ce_lib env in
     bindr (call_word env manager (owner_call lib token_id) tag 0) (\<lambda>owner.
     if address_of_word owner \<noteq> wallet then Inl (TxError ''not_owner'' ''token_id is not owned by wallet'')
     else if manager = POSM then
       bindr (bindr (lift_py (posm_pool_and_position lib token_id)) (\<lambda>d. eth_call (ce_node env) POSM d tag)) (\<lambda>raw.
       bindr (map_res (word_at raw) [0, 1, 2, 3, 4]) (\<lambda>w.
       let key = \<lparr>key_currency0 = address_of_word (w ! 0), key_currency1 = address_of_word (w ! 1), key_fee = w ! 2,
                  key_tick_spacing = signed24 (w ! 3), key_hooks = address_of_word (w ! 4)\<rparr> in
       bindr (lift_py (key_id lib key)) (\<lambda>id1.
       if id1 \<noteq> p_id p then Inl (TxError ''invalid_intent'' ''token_id belongs to a different pool'')
       else
         bindr (word_at raw 5) (\<lambda>info.
         bindr (call_word env POSM (posm_position_liquidity lib token_id) tag 0) (\<lambda>liquidity.
           Inr \<lparr>pos_tick_lower = signed24 (drop_bit 8 info), pos_tick_upper = signed24 (drop_bit 32 info),
                pos_liquidity = liquidity\<rparr>)))))
     else
       bindr (bindr (lift_py (nfpm_positions lib token_id)) (\<lambda>d. eth_call (ce_node env) manager d tag)) (\<lambda>raw.
       bindr (map_res (word_at raw) [2, 3, 4]) (\<lambda>w.
       if (address_of_word (w ! 0), address_of_word (w ! 1), w ! 2) \<noteq> (p_token0 p, p_token1 p, p_fee_ppm p)
       then Inl (TxError ''invalid_intent'' ''token_id belongs to a different pool'')
       else
         bindr (map_res (word_at raw) [5, 6, 7]) (\<lambda>v.
           Inr \<lparr>pos_tick_lower = signed24 (v ! 0), pos_tick_upper = signed24 (v ! 1), pos_liquidity = v ! 2\<rparr>)))))"

definition slot0_call :: "core_env \<Rightarrow> pool \<Rightarrow> string \<Rightarrow> tx_exn + json" where
  "slot0_call env p tag =
    (if p_venue p = V4 then bindr (lift_py (state_view_slot0 (ce_lib env) (p_id p))) (\<lambda>d. eth_call (ce_node env) STATE_VIEW d tag)
     else eth_call (ce_node env) (p_address p) (selector (ce_lib env) ''slot0()'') tag)"

definition read_sqrt_price :: "core_env \<Rightarrow> pool \<Rightarrow> string \<Rightarrow> tx_exn + int" where
  "read_sqrt_price env p tag = bindr (slot0_call env p tag) (\<lambda>v. word_at v 0)"

section \<open>The quote of a liquidity change\<close>

definition validate_lp :: "lp_intent \<Rightarrow> tx_exn + lp_intent" where
  "validate_lp i =
     bindr (need_address (li_wallet i) ''wallet'') (\<lambda>wallet.
     bindr (ensure (0 \<le> li_slippage_bps i \<and> li_slippage_bps i \<le> 5000)
              (TxError ''invalid_intent'' ''slippage_bps must be within 0..5000'')) (\<lambda>_.
     bindr (map_res (\<lambda>(name, v).
              ensure (0 \<le> v \<and> v < MAX_SWAP_AMOUNT)
                (TxError ''invalid_intent'' (name @ '' must be a non-negative integer below 2**160'')))
              [(''amount0'', li_amount0 i), (''amount1'', li_amount1 i), (''liquidity'', li_liquidity i)]) (\<lambda>_.
     bindr (ensure (case li_token_id i of None \<Rightarrow> True | Some t \<Rightarrow> 0 \<le> t)
              (TxError ''invalid_intent'' ''token_id must be a non-negative integer'')) (\<lambda>_.
     bindr (ensure (\<not> (adding_op (li_op i) \<and> li_amount0 i = 0 \<and> li_amount1 i = 0))
              (TxError ''invalid_intent'' ''adds need amount0 or amount1'')) (\<lambda>_.
       Inr (i\<lparr>li_wallet := wallet, li_pool_id := lower (li_pool_id i)\<rparr>))))))"

text \<open>The pool of an identifier with its position manager.\<close>

definition managed_pool :: "core_env \<Rightarrow> string \<Rightarrow> tx_exn + pool \<times> address" where
  "managed_pool env pool_id =
    (case book_pool (ce_lib env) (ce_rows env) pool_id of
       Inl (IncompletePool name) \<Rightarrow> Inl (TxRefusal ''incomplete_pool'' (''V4 pool has no verified '' @ name))
     | Inl e \<Rightarrow> Inl e
     | Inr None \<Rightarrow> Inl (TxRefusal ''unknown_pool'' ''pool_id is not in the market index'')
     | Inr (Some p) \<Rightarrow>
         (case manager_for p of
            None \<Rightarrow> Inl (TxRefusal ''unsupported_pool'' ''no position manager for this pool'')
          | Some manager \<Rightarrow> Inr (p, manager)))"

definition check_addable :: "lp_op \<Rightarrow> pool \<Rightarrow> tx_exn + unit" where
  "check_addable op p =
     bindr (ensure (\<not> (adding_op op \<and> p_hook p = PONS_HOOK))
              (TxRefusal ''pons_add'' ''adds to Pons pools are refused: the hook keeps every swap fee'')) (\<lambda>_.
       ensure (\<not> (adding_op op \<and> p_venue p = V4 \<and> p_hook p \<noteq> NATIVE))
         (TxRefusal ''untrusted_hook'' ''adding liquidity to this V4 hook is not supported''))"

definition owned_position :: "core_env \<Rightarrow> lp_intent \<Rightarrow> pool \<Rightarrow> address \<Rightarrow> string \<Rightarrow> tx_exn + position_state option" where
  "owned_position env i p manager tag =
    (if li_op i = Mint then Inr None
     else case li_token_id i of
       None \<Rightarrow> Inl (TxError ''invalid_intent'' (op_value (li_op i) @ '' needs token_id''))
     | Some t \<Rightarrow> bindr (read_position env p manager t (li_wallet i) tag) (\<lambda>s. Inr (Some s)))"

definition check_offer :: "core_env \<Rightarrow> lp_intent \<Rightarrow> string \<Rightarrow> address \<times> int \<Rightarrow> tx_exn + unit" where
  "check_offer env i tag offer =
    (case offer of (currency, amount) \<Rightarrow>
     if amount = 0 then Inr ()
     else bindr (read_balance (ce_lib env) (ce_node env) currency (li_wallet i) tag) (\<lambda>have.
       ensure (amount \<le> have) (TxRefusal ''insufficient_balance'' (''wallet holds less than the requested '' @ currency))))"

definition permit_nonces :: "core_env \<Rightarrow> lp_intent \<Rightarrow> pool \<Rightarrow> address \<Rightarrow> string \<Rightarrow> tx_exn + (address, int) odict" where
  "permit_nonces env i p manager tag =
    (if manager = POSM \<and> adding_op (li_op i) then
       bindr (map_res (\<lambda>t. bindr (read_permit_nonce (ce_lib env) (ce_node env) (li_wallet i) t POSM tag) (\<lambda>n. Inr (t, n)))
                (filter (\<lambda>t. t \<noteq> NATIVE) [p_token0 p, p_token1 p])) (\<lambda>ns.
         Inr (fold (\<lambda>(t, n). od_set t n) ns []))
     else Inr [])"

text \<open>\<^verbatim>\<open>plan.shape\<close> of a liquidity plan.\<close>

definition lp_shape_of :: "plan \<Rightarrow> tx_exn + lp_shape" where
  "lp_shape_of p =
    (case pl_body p of
       NfpmBody call collect shape \<Rightarrow> Inr shape
     | PosmBody params shape \<Rightarrow> Inr shape
     | _ \<Rightarrow> Inl (Py (AttributeError ''not a liquidity plan'')))"

definition lp_refusal :: "bool \<Rightarrow> revert_kind \<Rightarrow> tx_exn" where
  "lp_refusal adding r =
    (if adding \<and> rk_kind r = ''hook_reverted'' then TxRefusal ''hook_blocked_add'' (rk_detail r)
     else TxRefusal ''not_executable'' (strip (rk_kind r @ '' '' @ rk_selector r @ '' '' @ rk_detail r)))"

definition simulate_lp :: "core_env \<Rightarrow> lp_intent \<Rightarrow> plan \<Rightarrow> string \<Rightarrow> int \<Rightarrow> tx_exn + sim_result \<times> lp_amounts" where
  "simulate_lp env i pl tag sqrt_price =
     bindr (plan_call env pl) (\<lambda>call.
     bindr (run_sim (ce_lib env) (ce_node env) (li_wallet i) (pl_staging pl) call tag None) (\<lambda>sim.
       if \<not> sr_ok sim then
         Inl (case sr_revert sim of None \<Rightarrow> Py (RuntimeError ''AssertionError'')
              | Some r \<Rightarrow> lp_refusal (adding_op (li_op i)) r)
       else bindr (lp_shape_of pl) (\<lambda>shape. bindr (sim_ledger env sim) (\<lambda>l.
         bindr (lp_amounts_of (ce_lib env) shape l (li_slippage_bps i) (Some sqrt_price)) (\<lambda>a. Inr (sim, a))))))"

definition build_lp_quote :: "core_env \<Rightarrow> int \<Rightarrow> string \<Rightarrow> lp_intent \<Rightarrow> tx_exn + lp_quote" where
  "build_lp_quote env now qid intent =
     bindr (validate_lp intent) (\<lambda>i.
     bindr (managed_pool env (li_pool_id i)) (\<lambda>(p, manager).
     bindr (check_addable (li_op i) p) (\<lambda>_.
     bindr (read_header (ce_node env) ''latest'') (\<lambda>block.
     let tag = hex_text (bk_number block); expires_at = now + ce_ttl_s env; deadline = expires_at + DEADLINE_GRACE_S in
     bindr (owned_position env i p manager tag) (\<lambda>position.
     bindr (if adding_op (li_op i)
            then bindr (map_res (check_offer env i tag) [(p_token0 p, li_amount0 i), (p_token1 p, li_amount1 i)]) (\<lambda>_. Inr ())
            else Inr ()) (\<lambda>_.
     bindr (permit_nonces env i p manager tag) (\<lambda>nonces.
     bindr (read_sqrt_price env p tag) (\<lambda>sqrt_price.
     bindr (plan_lp (ce_lib env) i p deadline sqrt_price position nonces) (\<lambda>pl.
     bindr (simulate_lp env i pl tag sqrt_price) (\<lambda>(sim, a).
     bindr (plan_steps env (li_wallet i) pl tag) (\<lambda>steps.
       Inr \<lparr>q_id = qid, q_wallet = li_wallet i, q_plan = pl, q_block = block, q_expires_at = expires_at,
            q_deadline = deadline, q_steps = steps, q_warnings = [], q_gas = sr_gas_used sim,
            lq_intent = i, lq_pool = p, lq_amounts = a\<rparr>)))))))))))"

definition quote_lp :: "core_env \<Rightarrow> int \<Rightarrow> int \<Rightarrow> string \<Rightarrow> lp_intent \<Rightarrow> core_state \<Rightarrow> core_state \<times> (tx_exn + lp_quote)" where
  "quote_lp env now later qid intent st =
     bind_st (pure_st (build_lp_quote env now qid intent) st) (\<lambda>st q.
     bind_st (store_quote env later (LpQuote q) st) (\<lambda>st _. ret_st st q))"

text \<open>\<^verbatim>\<open>quote\<close>: an order with the policy of the caller, or the core's own.\<close>

datatype intent = SwapOrder swap_intent | LpOrder lp_intent

definition quote_request ::
  "core_env \<Rightarrow> int \<Rightarrow> int \<Rightarrow> string \<Rightarrow> tx_policy option \<Rightarrow> intent \<Rightarrow> core_state \<Rightarrow> core_state \<times> (tx_exn + quote)" where
  "quote_request env now later qid policy intent st =
     bind_st (pure_st (require_enabled st) st) (\<lambda>st _.
       case intent of
         SwapOrder i \<Rightarrow> bind_st (quote_swap env now later qid (case policy of None \<Rightarrow> ce_policy env | Some p \<Rightarrow> p) i st)
                          (\<lambda>st q. ret_st st (SwapQuote q))
       | LpOrder i \<Rightarrow> bind_st (quote_lp env now later qid i st) (\<lambda>st q. ret_st st (LpQuote q)))"


section \<open>Preparing a quote\<close>

record prepared =
  pr_transaction :: unsigned_tx
  pr_gas_used :: int
  pr_expires_at :: int
  pr_calls :: "unsigned_tx list"

definition prepared_json :: "prepared \<Rightarrow> json" where
  "prepared_json p =
     JObj ([(''transaction'', tx_json (pr_transaction p)),
            (''simulation'', JObj [(''gas_used'', JInt (pr_gas_used p))]), (''expires_at'', JInt (pr_expires_at p))]
           @ (if pr_calls p = [] then [] else [(''calls'', JArr (map tx_json (pr_calls p)))]))"

definition GAS_HEADROOM_PCT :: int where "GAS_HEADROOM_PCT = 130"
definition ESTIMATE_HEADROOM_PCT :: int where "ESTIMATE_HEADROOM_PCT = 125"

definition kind_of :: "string \<Rightarrow> core_state \<Rightarrow> string option" where
  "kind_of quote_id st =
    (case map_of (cs_quotes st) quote_id of
       None \<Rightarrow> None | Some (LpQuote q) \<Rightarrow> Some ''lp'' | Some (SwapQuote q) \<Rightarrow> Some ''swap'')"

text \<open>The stored quote of the request: it is known, has not expired and is the wallet's.\<close>

definition find_quote :: "int \<Rightarrow> string \<Rightarrow> address \<Rightarrow> core_state \<Rightarrow> core_state \<times> (tx_exn + quote)" where
  "find_quote now quote_id wallet st =
    (case map_of (cs_quotes st) quote_id of
       None \<Rightarrow> raise_st st (TxError ''unknown_quote'' ''quote is unknown; re-quote'')
     | Some q \<Rightarrow>
         if now \<ge> q_expires_at (base_of q)
         then raise_st (st\<lparr>cs_quotes := od_del quote_id (cs_quotes st)\<rparr>) (TxError ''expired'' ''quote expired; re-quote'')
         else if wallet \<noteq> q_wallet (base_of q)
         then raise_st st (TxError ''wallet_mismatch'' ''connected wallet is not the quoted wallet'')
         else ret_st st q)"

text \<open>The pinned code is read again; a mismatch disables the core from here on.\<close>

definition recheck_codes :: "core_env \<Rightarrow> core_state \<Rightarrow> core_state \<times> (tx_exn + unit)" where
  "recheck_codes env st =
    (case verify_codes (ce_lib env) (ce_node env) CODE_HASHES of
       Inl e \<Rightarrow> raise_st st (Py e)
     | Inr found \<Rightarrow> pure_st (require_enabled (st\<lparr>cs_mismatches := found\<rparr>)) (st\<lparr>cs_mismatches := found\<rparr>))"

definition check_block :: "core_env \<Rightarrow> quote \<Rightarrow> tx_exn + unit" where
  "check_block env q =
     bindr (read_header (ce_node env) (hex_text (bk_number (q_block (base_of q))))) (\<lambda>b.
       ensure (bk_hash b = bk_hash (q_block (base_of q))) (TxError ''reorg'' ''quoted block was reorganized; re-quote''))"

definition check_funds :: "core_env \<Rightarrow> address \<Rightarrow> quote \<Rightarrow> tx_exn + unit" where
  "check_funds env wallet q =
    (case q of
       SwapQuote s \<Rightarrow>
         bindr (read_balance (ce_lib env) (ce_node env) (intent_in (sq_intent s)) wallet ''latest'') (\<lambda>have.
           ensure (si_amount_in (sq_intent s) \<le> have)
             (TxRefusal ''insufficient_balance'' ''wallet holds less than amount_in; fund it and re-quote''))
     | LpQuote l \<Rightarrow> Inr ())"

text \<open>A batched wallet sends the approval and the order of an external router together.\<close>

definition batch_approval :: "bool \<Rightarrow> quote \<Rightarrow> bool" where
  "batch_approval batched q \<longleftrightarrow>
    (case q of SwapQuote s \<Rightarrow> batched \<and> pl_to (q_plan s) \<noteq> UR \<and> pl_approvals (q_plan s) \<noteq> [] | LpQuote l \<Rightarrow> False)"

definition check_approval :: "core_env \<Rightarrow> address \<Rightarrow> plan \<Rightarrow> approval_need \<Rightarrow> tx_exn + unit" where
  "check_approval env wallet p need =
     bindr (read_allowance (ce_lib env) (ce_node env) (an_token need) wallet (an_spender need) ''latest'') (\<lambda>allowance.
       ensure (\<not> approval_short p need allowance)
         (TxError ''approve_pending'' (''approve '' @ an_token need @ '' for '' @ an_spender need @ '' first'')))"

text \<open>The plan with the minimum the quote promised and the wallet's signature.\<close>

definition final_plan :: "quote \<Rightarrow> bytes option \<Rightarrow> tx_exn + plan" where
  "final_plan q sig =
    (case q of
       SwapQuote s \<Rightarrow> finalize_swap (q_plan s) (am_min_out (sq_amounts s)) sig
     | LpQuote l \<Rightarrow> finalize_lp (q_plan l) (la_bound0 (lq_amounts l), la_bound1 (lq_amounts l)) sig)"

definition refused :: "sim_result \<Rightarrow> tx_exn" where
  "refused sim = revert_exn (\<lambda>kind d. TxError (if kind \<noteq> ''unknown'' then kind else ''no_longer_executable'') d) sim"

text \<open>
  The gas estimate of the order. Behind an approval that is not on chain yet it is asked with the
  allowance overridden, and may fail; otherwise a failure says the order no longer executes.
\<close>

definition estimate_gas :: "core_env \<Rightarrow> bool \<Rightarrow> json \<Rightarrow> json option \<Rightarrow> tx_exn + int" where
  "estimate_gas env batch request override =
    (case bindr (lift_py (ce_node env ''eth_estimateGas''
                  ([request, JStr ''latest''] @ (case override of None \<Rightarrow> [] | Some v \<Rightarrow> [v])))) (\<lambda>v. hex_int v ''gas estimate'') of
       Inr g \<Rightarrow> Inr g
     | Inl (Py e) \<Rightarrow> if batch then Inr 0 else Inl (TxError ''no_longer_executable'' (take 200 (one_line (py_text e))))
     | Inl e \<Rightarrow> Inl e)"

definition gas_limit :: "int \<Rightarrow> int \<Rightarrow> int" where
  "gas_limit used estimate = max (used * GAS_HEADROOM_PCT div 100) (estimate * ESTIMATE_HEADROOM_PCT div 100)"

definition gas_override :: "core_env \<Rightarrow> bool \<Rightarrow> address \<Rightarrow> plan \<Rightarrow> core_state \<Rightarrow> core_state \<times> (tx_exn + json option)" where
  "gas_override env batch wallet p st =
    (if \<not> batch then ret_st st None
     else case pl_approvals p of
       [] \<Rightarrow> raise_st st (Py (IndexError ''tuple index out of range''))
     | need # _ \<Rightarrow>
         (let (known, r) = allowance_override (ce_lib env) (ce_node env) (an_token need) wallet (an_spender need)
                             (an_approve_amount need) (cs_allowance_slots st)
          in (st\<lparr>cs_allowance_slots := known\<rparr>, r)))"

definition approve_transaction :: "core_env \<Rightarrow> address \<Rightarrow> plan \<Rightarrow> sim_result \<Rightarrow> tx_exn + unsigned_tx" where
  "approve_transaction env wallet p sim =
     bindr (lift_py (item (pl_staging p) 0)) (\<lambda>approve.
     let estimate = (case bindr (lift_py (ce_node env ''eth_estimateGas'' [call_json wallet approve, JStr ''latest'']))
                                (\<lambda>v. hex_int v ''approve gas estimate'') of Inr g \<Rightarrow> g | Inl e \<Rightarrow> 0) in
     bindr (lift_py (item (sr_staging_gas sim) 0)) (\<lambda>used.
       Inr (make_tx wallet (call_to approve) (call_data approve) (call_value approve) (Some (gas_limit used estimate)))))"

definition assemble ::
  "core_env \<Rightarrow> bool \<Rightarrow> address \<Rightarrow> quote \<Rightarrow> plan \<Rightarrow> tx_call \<Rightarrow> sim_result \<Rightarrow> json option \<Rightarrow> tx_exn + prepared" where
  "assemble env batch wallet q p call sim override =
     bindr (estimate_gas env batch (call_json wallet call) override) (\<lambda>estimate.
     let transaction = make_tx wallet (call_to call) (call_data call) (call_value call)
           (Some (gas_limit (sr_gas_used sim) estimate)) in
     bindr (if batch then bindr (approve_transaction env wallet p sim) (\<lambda>a. Inr [a, transaction]) else Inr []) (\<lambda>calls.
       Inr \<lparr>pr_transaction = transaction, pr_gas_used = sr_gas_used sim,
            pr_expires_at = q_expires_at (base_of q), pr_calls = calls\<rparr>))"

definition prepare_plan ::
  "core_env \<Rightarrow> bool \<Rightarrow> address \<Rightarrow> bytes option \<Rightarrow> quote \<Rightarrow> tx_exn + plan \<times> tx_call \<times> sim_result" where
  "prepare_plan env batch wallet sig q =
     bindr (check_block env q) (\<lambda>_.
     bindr (check_funds env wallet q) (\<lambda>_.
     bindr (if batch then Inr [] else map_res (check_approval env wallet (q_plan (base_of q))) (pl_approvals (q_plan (base_of q)))) (\<lambda>_.
     bindr (final_plan q sig) (\<lambda>p.
     bindr (plan_call env p) (\<lambda>call.
     bindr (run_sim (ce_lib env) (ce_node env) wallet (if batch then pl_staging p else []) call ''latest'' None) (\<lambda>sim.
       if sr_ok sim then Inr (p, call, sim) else Inl (refused sim)))))))"

definition prepare ::
  "core_env \<Rightarrow> int \<Rightarrow> string \<Rightarrow> address \<Rightarrow> bytes option \<Rightarrow> bool \<Rightarrow> core_state \<Rightarrow> core_state \<times> (tx_exn + prepared)" where
  "prepare env now quote_id wallet sig batched st =
     bind_st (pure_st (ensure (hex_word 64 quote_id) (TxError ''unknown_quote'' ''quote_id is malformed'')) st) (\<lambda>st _.
     bind_st (pure_st (need_address wallet ''wallet'') st) (\<lambda>st wallet.
     bind_st (find_quote now quote_id wallet st) (\<lambda>st q.
     bind_st (recheck_codes env st) (\<lambda>st _.
     let batch = batch_approval batched q in
     bind_st (pure_st (prepare_plan env batch wallet sig q) st) (\<lambda>st (p, call, sim).
     bind_st (gas_override env batch wallet p st) (\<lambda>st override.
       pure_st (assemble env batch wallet q p call sim override) st))))))"

definition close_core :: "core_state \<Rightarrow> core_state" where
  "close_core st = st\<lparr>cs_quotes := []\<rparr>"

end
