(* ===== verification/Tx_Best.thy ===== *)
theory Tx_Best
  imports Tx_Core
begin

text \<open>
  What a swap quote promises: no simulated candidate pays the wallet more, the minimum and the
  impact limit are the ones asked for, and a split is only quoted when it was simulated again with
  its minimum set.
\<close>

section \<open>Inverting a request\<close>

lemma snd_pure_st [simp]: "snd (pure_st r s) = r"
  by (simp add: pure_st_def)

lemma map_res_Inr:
  "map_res f xs = Inr ys \<longleftrightarrow> list_all2 (\<lambda>x y. f x = Inr y) xs ys"
proof (induction xs arbitrary: ys)
  case (Cons x xs)
  then show ?case by (cases ys) (auto simp: bindr_eq_Inr)
qed auto

lemma map_res_image: "map_res f xs = Inr ys \<Longrightarrow> x \<in> set xs \<Longrightarrow> \<exists>y \<in> set ys. f x = Inr y"
  unfolding map_res_Inr by (auto simp: list_all2_conv_all_nth in_set_conv_nth)

section \<open>The best outcome\<close>

definition tally_inv :: "(route \<times> outcome) list \<Rightarrow> tally \<Rightarrow> bool" where
  "tally_inv seen t \<longleftrightarrow>
     (\<forall>p sim a r. ty_best t = Some (p, sim, a, r) \<longrightarrow> (\<exists>f. (r, (p, sim, Some a, f)) \<in> set seen)) \<and>
     (\<forall>r p sim a f. (r, (p, sim, Some a, f)) \<in> set seen \<longrightarrow>
        (\<exists>p0 sim0 a0 r0. ty_best t = Some (p0, sim0, a0, r0) \<and> am_net_out a \<le> am_net_out a0)) \<and>
     (\<forall>r a. (r, a) \<in> set (ty_ur t) \<longrightarrow> (\<exists>p sim f. (r, (p, sim, Some a, f)) \<in> set seen \<and> pl_to p = UR))"

lemma tally_inv_step:
  assumes "tally_inv seen t"
  shows "tally_inv (seen @ [ro]) (tally_step ro t)"
proof -
  obtain r p sim got f where ro: "ro = (r, (p, sim, got, f))" by (metis prod.exhaust)
  show ?thesis
  proof (cases got)
    case None
    with assms show ?thesis unfolding ro tally_inv_def by simp
  next
    case (Some a)
    show ?thesis
    proof (cases "ty_best t")
      case None
      with assms show ?thesis unfolding ro Some tally_inv_def by auto
    next
      case b: (Some best)
      obtain p0 sim0 a0 r0 where best: "best = (p0, sim0, a0, r0)" by (metis prod.exhaust)
      have prev: "am_net_out a' \<le> am_net_out a0" if "(r', (p', sim', Some a', f')) \<in> set seen" for r' p' sim' a' f'
        using assms that b best unfolding tally_inv_def by fastforce
      define top where "top = (if am_net_out a0 < am_net_out a then (p, sim, a, r) else (p0, sim0, a0, r0))"
      obtain p1 sim1 a1 r1 where top1: "top = (p1, sim1, a1, r1)" by (metis prod.exhaust)
      have top: "ty_best (tally_step ro t) = Some (p1, sim1, a1, r1)"
        using b best top1 unfolding ro Some top_def by (simp split: if_splits)
      have a1: "am_net_out a \<le> am_net_out a1" "am_net_out a0 \<le> am_net_out a1"
        using top1 unfolding top_def by (auto split: if_splits)
      have "\<exists>f0. (r0, (p0, sim0, Some a0, f0)) \<in> set seen"
        using assms b best unfolding tally_inv_def by blast
      then have from_seen: "\<exists>f. (r1, (p1, sim1, Some a1, f)) \<in> set (seen @ [ro])"
        using top1 unfolding top_def ro Some by (auto split: if_splits)
      have below: "am_net_out a' \<le> am_net_out a1" if "(r', (p', sim', Some a', f')) \<in> set (seen @ [ro])" for r' p' sim' a' f'
        using that prev [of r' p' sim' a' f'] a1 unfolding ro Some by auto
      have ur: "\<exists>p sim f. (r', (p, sim, Some a', f)) \<in> set (seen @ [ro]) \<and> pl_to p = UR"
        if "(r', a') \<in> set (ty_ur (tally_step ro t))" for r' a'
      proof (cases "(r', a') \<in> set (ty_ur t)")
        case True
        with assms have "\<exists>p sim f. (r', (p, sim, Some a', f)) \<in> set seen \<and> pl_to p = UR"
          unfolding tally_inv_def by blast
        then show ?thesis by auto
      next
        case False
        with that show ?thesis unfolding ro Some by (auto split: if_splits)
      qed
      show ?thesis unfolding tally_inv_def top using from_seen below ur by blast
    qed
  qed
qed

lemma tally_all_inv: "tally_inv outcomes (tally_all outcomes)"
proof (induction outcomes rule: rev_induct)
  case Nil
  then show ?case by (simp add: tally_all_def tally_inv_def)
next
  case (snoc ro outcomes)
  then show ?case using tally_inv_step by (simp add: tally_all_def)
qed

text \<open>What the choice between the whole order and a split cannot make worse.\<close>

lemma int_base16_nonneg: "int_base16 s = Inr n \<Longrightarrow> 0 \<le> n"
  by (auto simp: int_base16_def split: option.splits if_splits)

lemma hex_int_nonneg: "hex_int v name = Inr n \<Longrightarrow> 0 \<le> n"
  by (auto simp: hex_int_def lift_py_eq_Inr int_base16_nonneg split: json.splits if_splits)

lemma split_gas_cost_improves:
  assumes "split_gas_cost env i improvement split_sim sim a = Inr (Some c)"
  shows "0 < improvement"
  using assms by (auto simp: split_gas_cost_def split: if_splits)

lemma choose_execution_no_worse:
  assumes "choose_execution env i (p, sim, a, r) choice = Inr ex" and "0 \<le> am_net_out a"
  shows "am_net_out a \<le> am_net_out (ex_amounts ex)"
proof (cases choice)
  case None
  with assms show ?thesis by (auto simp: choose_execution_def Let_def)
next
  case (Some c)
  obtain sp ss sa m where c: "c = (sp, ss, sa, m)" by (metis prod.exhaust)
  from assms(1) obtain cost where
    cost: "split_gas_cost env i (am_net_out sa - am_net_out a) ss sim a = Inr cost" and
    ex: "ex_amounts ex = (if am_net_out sa - am_net_out a > split_threshold cost a then sa else a)"
    unfolding Some c choose_execution_def Let_def by (auto simp: bindr_eq_Inr split: if_splits)
  show ?thesis
  proof (cases cost)
    case None
    have "0 \<le> am_net_out a div 1000" using assms(2) by (simp add: pos_imp_zdiv_nonneg_iff)
    with None ex show ?thesis by (auto simp: split_threshold_def split: if_splits)
  next
    case c1: (Some k)
    with split_gas_cost_improves cost ex show ?thesis by (fastforce split: if_splits)
  qed
qed

lemma find_execution_parts:
  assumes "find_execution env rd i probe_only routes = Inr ex"
  shows "\<exists>outcomes best choice.
    map_res (\<lambda>r. bindr (simulate_swap env rd i r) (\<lambda>o1. Inr (r, o1))) routes = Inr outcomes \<and>
    ty_best (tally_all outcomes) = Some best \<and>
    (choice = None \<or> propose_split env rd i (ty_ur (tally_all outcomes)) = Inr choice) \<and>
    choose_execution env i best choice = Inr ex"
proof -
  obtain outcomes where o1: "map_res (\<lambda>r. bindr (simulate_swap env rd i r) (\<lambda>o1. Inr (r, o1))) routes = Inr outcomes"
    and rest: "(let t = tally_all outcomes in
     bindr (if probe_only \<or> ty_best t = None then Inr None else propose_split env rd i (ty_ur t)) (\<lambda>choice.
       case ty_best t of
         None \<Rightarrow> Inl (search_failure (ty_failures t))
       | Some best \<Rightarrow> choose_execution env i best choice)) = Inr ex"
    using assms unfolding find_execution_def by (rule bindr_InrE)
  from rest [unfolded Let_def] obtain choice where
    ch: "(if probe_only \<or> ty_best (tally_all outcomes) = None then Inr None else propose_split env rd i (ty_ur (tally_all outcomes))) = Inr choice"
    and fin: "(case ty_best (tally_all outcomes) of
         None \<Rightarrow> Inl (search_failure (ty_failures (tally_all outcomes)))
       | Some best \<Rightarrow> choose_execution env i best choice) = Inr ex"
    by (rule bindr_InrE)
  from fin obtain best where best: "ty_best (tally_all outcomes) = Some best" and "choose_execution env i best choice = Inr ex"
    by (cases "ty_best (tally_all outcomes)") simp_all
  moreover have "choice = None \<or> propose_split env rd i (ty_ur (tally_all outcomes)) = Inr choice"
    using ch best by (cases probe_only) auto
  ultimately show ?thesis using o1 best by blast
qed

lemma find_execution_best:
  assumes "find_execution env rd i probe_only routes = Inr ex" and "r \<in> set routes"
  shows "\<exists>p sim got failure. simulate_swap env rd i r = Inr (p, sim, got, failure) \<and>
    (\<forall>a. got = Some a \<and> 0 \<le> am_net_out a \<longrightarrow> am_net_out a \<le> am_net_out (ex_amounts ex))"
proof -
  obtain outcomes best choice where
    outs: "map_res (\<lambda>r. bindr (simulate_swap env rd i r) (\<lambda>o1. Inr (r, o1))) routes = Inr outcomes" and
    best: "ty_best (tally_all outcomes) = Some best" and
    ch: "choose_execution env i best choice = Inr ex"
    using find_execution_parts [OF assms(1)] by blast
  obtain p0 sim0 a0 r0 where b: "best = (p0, sim0, a0, r0)" by (metis prod.exhaust)
  obtain ro where ro: "ro \<in> set outcomes"
    "bindr (simulate_swap env rd i r) (\<lambda>o1. Inr (r, o1)) = (Inr ro :: tx_exn + route \<times> outcome)"
    using map_res_image [OF outs assms(2)] by blast
  then obtain o1 where o1: "simulate_swap env rd i r = Inr o1" "ro = (r, o1)"
    by (cases "simulate_swap env rd i r") auto
  obtain p sim got failure where o1': "o1 = (p, sim, got, failure)" by (metis prod.exhaust)
  note s = o1(1) [unfolded o1'] and ro' = o1(2) [unfolded o1']
  have "am_net_out a \<le> am_net_out (ex_amounts ex)" if a: "got = Some a" "0 \<le> am_net_out a" for a
  proof -
    have "am_net_out a \<le> am_net_out a0"
      using tally_all_inv [of outcomes] ro(1) best unfolding tally_inv_def ro' a(1) b by fastforce
    with a(2) choose_execution_no_worse [OF ch [unfolded b]] show ?thesis by simp
  qed
  with s show ?thesis by blast
qed


section \<open>Splits are enforced\<close>

text \<open>
  The split is executed once more with the minimum on it, and gives the same output: \<open>sim\<close> is that
  second simulation.
\<close>

definition enforced :: "core_env \<Rightarrow> round \<Rightarrow> swap_intent \<Rightarrow> plan \<Rightarrow> sim_result \<Rightarrow> amounts \<Rightarrow> bool" where
  "enforced env rd i p sim a \<longleftrightarrow>
     (\<exists>measured exact_plan data.
        finalize_swap (with_split (p\<lparr>pl_permit := None\<rparr>) measured)
          (min_out_for (am_net_out a) (si_slippage_bps i)) None = Inr exact_plan \<and>
        calldata (ce_lib env) exact_plan = Inr data \<and>
        run_sim (ce_lib env) (ce_node env) (si_wallet i) (pl_staging p)
          \<lparr>call_to = pl_to p, call_data = data, call_value = pl_value p\<rparr> (rd_tag rd) (rd_funded rd) = Inr sim \<and>
        sr_ok sim)"

lemma with_split_permit:
  "(case pl_body p of
      SwapBody commands slot shape split0 \<Rightarrow> p\<lparr>pl_permit := None, pl_body := SwapBody commands slot shape (Some m)\<rparr>
    | _ \<Rightarrow> p\<lparr>pl_permit := None\<rparr>) = with_split (p\<lparr>pl_permit := None\<rparr>) m"
  by (cases "pl_body p") (simp_all add: with_split_def)

lemma enforce_split_Inr:
  assumes "enforce_split env rd i p split a measured = Inr (Some (p', sim, a', m'))"
  shows "p' = p \<and> enforced env rd i p sim a' \<and> am_net_out a' = am_net_out a"
proof -
  obtain exact_plan where f: "finalize_swap (with_split (p\<lparr>pl_permit := None\<rparr>) measured)
      (min_out_for (am_net_out a) (si_slippage_bps i)) None = Inr exact_plan"
    and r1: "bindr (lift_py (calldata (ce_lib env) exact_plan)) (\<lambda>data.
     bindr (run_sim (ce_lib env) (ce_node env) (si_wallet i) (pl_staging p)
              \<lparr>call_to = pl_to p, call_data = data, call_value = pl_value p\<rparr> (rd_tag rd) (rd_funded rd)) (\<lambda>exact.
       if \<not> sr_ok exact then Inr None
       else bindr (measure_split env rd p split exact) (\<lambda>m. case m of
           None \<Rightarrow> Inr None
         | Some (verified, verified_split) \<Rightarrow>
             if am_net_out verified \<noteq> am_net_out a then Inr None
             else Inr (Some (p, exact, verified, verified_split))))) = Inr (Some (p', sim, a', m'))"
    using assms unfolding enforce_split_def with_split_permit Let_def by (rule bindr_InrE)
  from r1 obtain data where d: "calldata (ce_lib env) exact_plan = Inr data"
    and r2: "bindr (run_sim (ce_lib env) (ce_node env) (si_wallet i) (pl_staging p)
              \<lparr>call_to = pl_to p, call_data = data, call_value = pl_value p\<rparr> (rd_tag rd) (rd_funded rd)) (\<lambda>exact.
       if \<not> sr_ok exact then Inr None
       else bindr (measure_split env rd p split exact) (\<lambda>m. case m of
           None \<Rightarrow> Inr None
         | Some (verified, verified_split) \<Rightarrow>
             if am_net_out verified \<noteq> am_net_out a then Inr None
             else Inr (Some (p, exact, verified, verified_split)))) = Inr (Some (p', sim, a', m'))"
    by (elim bindr_InrE) (simp add: lift_py_eq_Inr)
  from r2 obtain exact where e: "run_sim (ce_lib env) (ce_node env) (si_wallet i) (pl_staging p)
              \<lparr>call_to = pl_to p, call_data = data, call_value = pl_value p\<rparr> (rd_tag rd) (rd_funded rd) = Inr exact"
    and ok: "sr_ok exact"
    and r3: "bindr (measure_split env rd p split exact) (\<lambda>m. case m of
           None \<Rightarrow> Inr None
         | Some (verified, verified_split) \<Rightarrow>
             if am_net_out verified \<noteq> am_net_out a then Inr None
             else Inr (Some (p, exact, verified, verified_split))) = Inr (Some (p', sim, a', m'))"
    by (elim bindr_InrE) (simp split: if_splits)
  from r3 have "p' = p \<and> sim = exact \<and> am_net_out a' = am_net_out a"
    by (elim bindr_InrE) (simp split: option.splits prod.splits if_splits)
  with f d e ok show ?thesis unfolding enforced_def by metis
qed

lemma simulate_split_enforced:
  assumes "simulate_split env rd i split True = Inr (Some (p, sim, a, m))"
  shows "plan_split (ce_lib env) i split (rd_policy rd) (rd_deadline rd) (rd_nonce rd) = Inr p \<and> enforced env rd i p sim a"
proof -
  obtain p0 where p0: "plan_split (ce_lib env) i split (rd_policy rd) (rd_deadline rd) (rd_nonce rd) = Inr p0"
    and r1: "bindr (plan_call env p0) (\<lambda>call.
     bindr (run_sim (ce_lib env) (ce_node env) (si_wallet i) (pl_staging p0) call (rd_tag rd) (rd_funded rd)) (\<lambda>sim.
       if \<not> sr_ok sim then Inr None
       else bindr (measure_split env rd p0 split sim) (\<lambda>m. case m of
           None \<Rightarrow> Inr None
         | Some (a, measured) \<Rightarrow>
             if True then enforce_split env rd i p0 split a measured
             else Inr (Some (p0, sim, a, measured))))) = Inr (Some (p, sim, a, m))"
    using assms unfolding simulate_split_def by (rule bindr_InrE)
  from r1 obtain a0 m0 where "enforce_split env rd i p0 split a0 m0 = Inr (Some (p, sim, a, m))"
    by (elim bindr_InrE) (simp split: option.splits prod.splits if_splits add: bindr_eq_Inr, blast)
  with p0 enforce_split_Inr show ?thesis by blast
qed

lemma propose_split_enforced:
  assumes "propose_split env rd i ur = Inr (Some (p, sim, a, m))"
  shows "\<exists>split. 1 < length split \<and> plan_split (ce_lib env) i split (rd_policy rd) (rd_deadline rd) (rd_nonce rd) = Inr p
    \<and> enforced env rd i p sim a"
proof -
  have "\<not> (length ur \<le> 1 \<or> si_amount_in i < int SPLIT_STEPS)" using assms by (auto simp: propose_split_def)
  with assms obtain curves where
    "recover is_tx_error None (bindr (allocate_split (map fst (select_routes ur)) curves (si_amount_in i)) (\<lambda>proposed.
       if length proposed > 1 then simulate_split env rd i proposed True else Inr None)) = Inr (Some (p, sim, a, m))"
    unfolding propose_split_def Let_def by (auto elim: bindr_InrE)
  then have "bindr (allocate_split (map fst (select_routes ur)) curves (si_amount_in i)) (\<lambda>proposed.
       if length proposed > 1 then simulate_split env rd i proposed True else Inr None) = Inr (Some (p, sim, a, m))"
    by (simp add: recover_eq_Inr)
  then obtain proposed where "1 < length proposed" "simulate_split env rd i proposed True = Inr (Some (p, sim, a, m))"
    by (elim bindr_InrE) (simp split: if_splits)
  with simulate_split_enforced show ?thesis by blast
qed

text \<open>What a search can end with: the whole order over one candidate, or an enforced split.\<close>

lemma find_execution_cases:
  assumes "find_execution env rd i probe_only routes = Inr ex"
  obtains (single) r failure where "r \<in> set routes"
      "simulate_swap env rd i r = Inr (ex_plan ex, ex_sim ex, Some (ex_amounts ex), failure)"
      "ex_split ex = [\<lparr>sl_route = r, sl_amount_in = si_amount_in i, sl_amount_out = am_net_out (ex_amounts ex)\<rparr>]" "ex_route ex = r"
    | (split) p split where "1 < length split"
      "plan_split (ce_lib env) i split (rd_policy rd) (rd_deadline rd) (rd_nonce rd) = Inr p"
      "ex_plan ex = with_split p (ex_split ex)" "enforced env rd i p (ex_sim ex) (ex_amounts ex)"
proof -
  obtain outcomes best choice where
    outs: "map_res (\<lambda>r. bindr (simulate_swap env rd i r) (\<lambda>o1. Inr (r, o1))) routes = Inr outcomes" and
    best: "ty_best (tally_all outcomes) = Some best" and
    choice: "choice = None \<or> propose_split env rd i (ty_ur (tally_all outcomes)) = Inr choice" and
    ch: "choose_execution env i best choice = Inr ex"
    using find_execution_parts [OF assms] by blast
  obtain p0 sim0 a0 r0 where b: "best = (p0, sim0, a0, r0)" by (metis prod.exhaust)
  obtain f where m: "(r0, (p0, sim0, Some a0, f)) \<in> set outcomes"
    using tally_all_inv [of outcomes] best unfolding b tally_inv_def by blast
  then obtain k where k: "k < length outcomes" "outcomes ! k = (r0, (p0, sim0, Some a0, f))"
    by (metis in_set_conv_nth)
  then have rk: "k < length routes" "bindr (simulate_swap env rd i (routes ! k)) (\<lambda>o1. Inr (routes ! k, o1)) = (Inr (outcomes ! k) :: tx_exn + route \<times> outcome)"
    using outs unfolding map_res_Inr by (simp_all add: list_all2_conv_all_nth)
  from rk(2) k(2) have "routes ! k = r0 \<and> simulate_swap env rd i r0 = Inr (p0, sim0, Some a0, f)"
    by (cases "simulate_swap env rd i (routes ! k)") auto
  with rk(1) have r0: "r0 \<in> set routes" "simulate_swap env rd i r0 = Inr (p0, sim0, Some a0, f)" by auto
  show ?thesis
  proof (cases "ex_split ex = [\<lparr>sl_route = r0, sl_amount_in = si_amount_in i, sl_amount_out = am_net_out a0\<rparr>] \<and>
      ex_plan ex = p0 \<and> ex_sim ex = sim0 \<and> ex_amounts ex = a0 \<and> ex_route ex = r0")
    case True
    with r0 show ?thesis by (intro single [of r0 f]) simp_all
  next
    case False
    then obtain sp ss sa ms where c: "choice = Some (sp, ss, sa, ms)"
      using ch unfolding b choose_execution_def Let_def
      by (cases choice) (simp_all, auto)
    have "ex_plan ex = with_split sp ms \<and> ex_sim ex = ss \<and> ex_amounts ex = sa \<and> ex_split ex = ms"
      using ch False unfolding b c choose_execution_def Let_def prod.case option.case
      by (elim bindr_InrE) (auto split: if_splits)
    with choice c propose_split_enforced [of env rd i _ sp ss sa ms] show ?thesis by (metis option.distinct(1) split)
  qed
qed


section \<open>The quote\<close>

lemma bind_pure_stE:
  assumes "bind_st (pure_st r st) f = (s', Inr y)"
  obtains x where "r = Inr x" and "f st x = (s', Inr y)"
  using assms by (auto simp: bind_st_eq_Inr)

lemma bind_stE:
  assumes "bind_st m f = (s', Inr y)"
  obtains s x where "m = (s, Inr x)" and "f s x = (s', Inr y)"
  using assms by (auto simp: bind_st_eq_Inr)

lemma quote_swap_parts:
  assumes "quote_swap env now later qid policy intent st = (st', Inr q)"
  obtains st1 se ex a warnings sellable book st3 where
    "open_search env now policy intent st = (st1, Inr se)"
    "find_execution env (se_round se) (se_intent se) False (se_routes se) = Inr ex"
    "assess env policy se ex = Inr (a, warnings)"
    "build_quote env qid se ex a (warnings @ sellable) book = Inr q"
    "store_quote env later (SwapQuote q) st3 = (st', Inr ())"
    "(if si_side (se_intent se) = Buy then require_sellable env now policy (se_intent se) (am_net_out a) st1
      else ret_st st1 []) = (st3, Inr sellable)"
proof -
  obtain s1 se ex where search: "search_swap env now policy False intent st = (s1, Inr (se, ex))"
    and r1: "bind_st (pure_st (assess env policy se ex) s1) (\<lambda>st (a, warnings).
     bind_st (if si_side (se_intent se) = Buy then require_sellable env now policy (se_intent se) (am_net_out a) st
              else ret_st st []) (\<lambda>st sellable.
     bind_st (pure_st (build_quote env qid se ex a (warnings @ sellable) (cs_book st)) st) (\<lambda>st q.
     bind_st (store_quote env later (SwapQuote q) st) (\<lambda>st _. ret_st st q)))) = (st', Inr q)"
    using assms unfolding quote_swap_def by (elim bind_stE) auto
  from search obtain st1 where o: "open_search env now policy intent st = (st1, Inr se)"
    and f: "find_execution env (se_round se) (se_intent se) False (se_routes se) = Inr ex" and s1: "s1 = st1"
    unfolding search_swap_def by (elim bind_stE) (auto simp: bind_st_eq_Inr ret_st_eq_Inr)
  from r1 obtain aw where as0: "assess env policy se ex = Inr aw"
    and r2a: "(\<lambda>st (a, warnings).
     bind_st (if si_side (se_intent se) = Buy then require_sellable env now policy (se_intent se) (am_net_out a) st
              else ret_st st []) (\<lambda>st sellable.
     bind_st (pure_st (build_quote env qid se ex a (warnings @ sellable) (cs_book st)) st) (\<lambda>st q.
     bind_st (store_quote env later (SwapQuote q) st) (\<lambda>st _. ret_st st q)))) s1 aw = (st', Inr q)"
    by (rule bind_pure_stE)
  obtain a warnings where aw: "aw = (a, warnings)" by (cases aw)
  note as = as0 [unfolded aw]
  from r2a have r2: "bind_st (if si_side (se_intent se) = Buy then require_sellable env now policy (se_intent se) (am_net_out a) s1
              else ret_st s1 []) (\<lambda>st sellable.
     bind_st (pure_st (build_quote env qid se ex a (warnings @ sellable) (cs_book st)) st) (\<lambda>st q.
     bind_st (store_quote env later (SwapQuote q) st) (\<lambda>st _. ret_st st q))) = (st', Inr q)"
    by (simp add: aw)
  from r2 obtain s2 sellable where sell: "(if si_side (se_intent se) = Buy then require_sellable env now policy (se_intent se) (am_net_out a) s1
              else ret_st s1 []) = (s2, Inr sellable)"
    and r3: "bind_st (pure_st (build_quote env qid se ex a (warnings @ sellable) (cs_book s2)) s2) (\<lambda>st q.
     bind_st (store_quote env later (SwapQuote q) st) (\<lambda>st _. ret_st st q)) = (st', Inr q)"
    by (rule bind_stE)
  from r3 obtain q0 where b: "build_quote env qid se ex a (warnings @ sellable) (cs_book s2) = Inr q0"
    and r4: "bind_st (store_quote env later (SwapQuote q0) s2) (\<lambda>st _. ret_st st q0) = (st', Inr q)"
    by (rule bind_pure_stE)
  from r4 have "q0 = q" "store_quote env later (SwapQuote q) s2 = (st', Inr ())"
    by (auto simp: bind_st_eq_Inr ret_st_eq_Inr)
  then show ?thesis
    using that [OF o f as _ _ _, of sellable "cs_book s2" s2] b sell s1 by blast
qed

lemma assess_Inr:
  assumes "assess env policy se ex = Inr (a, warnings)"
  shows "am_net_out a = am_net_out (ex_amounts ex) \<and>
    am_min_out a = min_out_for (am_net_out (ex_amounts ex)) (si_slippage_bps (se_intent se)) \<and>
    (case am_impact_bps a of None \<Rightarrow> ''impact_unavailable'' \<in> set warnings | Some b \<Rightarrow> b \<le> max_impact_bps policy)"
proof -
  obtain small unavailable where "check_impact policy (impact_of ex small) = Inr unavailable"
    and e: "a = (ex_amounts ex)\<lparr>am_min_out := min_out_for (am_net_out (ex_amounts ex)) (si_slippage_bps (se_intent se)),
        am_impact_bps := impact_of ex small\<rparr>"
      "set unavailable \<subseteq> set warnings"
    using assms unfolding assess_def Let_def by (elim bindr_InrE) auto
  then show ?thesis by (auto simp: check_impact_def split: option.splits if_splits)
qed

lemma build_quote_Inr:
  assumes "build_quote env qid se ex a warnings book = Inr q"
  shows "q_id q = qid \<and> q_wallet q = si_wallet (se_intent se) \<and> q_plan q = ex_plan ex \<and> q_block q = se_block se \<and>
    q_expires_at q = se_expires_at se \<and> q_deadline q = rd_deadline (se_round se) \<and> q_warnings q = warnings \<and>
    q_gas q = sr_gas_used (ex_sim ex) \<and> sq_intent q = se_intent se \<and> sq_route q = ex_route ex \<and>
    sq_amounts q = a \<and> sq_split q = ex_split ex"
  using assms unfolding build_quote_def Let_def by (elim bindr_InrE) auto

lemma open_search_Inr:
  assumes "open_search env now policy intent st = (st1, Inr se)"
  shows "validate_swap env intent = Inr (se_intent se) \<and> rd_policy (se_round se) = policy \<and>
    se_expires_at se = now + ce_ttl_s env \<and> rd_deadline (se_round se) = se_expires_at se + DEADLINE_GRACE_S \<and>
    rd_tag (se_round se) = hex_text (bk_number (se_block se)) \<and> rd_book (se_round se) = cs_book st1"
  using assms unfolding open_search_def Let_def by (elim bind_pure_stE bind_stE) (auto simp: ret_st_eq_Inr)

lemma validate_swap_Inr:
  assumes "validate_swap env intent = Inr i"
  shows "si_amount_in i = si_amount_in intent \<and> si_slippage_bps i = si_slippage_bps intent \<and> si_side i = si_side intent \<and>
    si_wallet i = lower (si_wallet intent) \<and> 0 < si_amount_in i \<and> 0 \<le> si_slippage_bps i \<and> si_slippage_bps i \<le> 5000 \<and>
    si_wallet i \<noteq> fee_recipient (ce_policy env)"
  using assms unfolding validate_swap_def
  by (elim bindr_InrE) (auto simp: ensure_eq_Inr need_address_def split: if_splits)

text \<open>The parts of a quote, whether or not it could be stored.\<close>

lemma quote_parts_executed:
  assumes o: "open_search env now policy intent st = (st1, Inr se)"
    and f: "find_execution env (se_round se) (se_intent se) False (se_routes se) = Inr ex"
    and a: "assess env policy se ex = Inr (a, warnings)"
    and b: "build_quote env qid se ex a warnings0 book = Inr q"
  shows "\<exists>rd i split p sim. validate_swap env intent = Inr i \<and> rd_policy rd = policy \<and>
    rd_deadline rd = now + ce_ttl_s env + DEADLINE_GRACE_S \<and>
    plan_split (ce_lib env) i split policy (rd_deadline rd) (rd_nonce rd) = Inr p \<and> sq_intent q = i \<and>
    (if length split = 1
     then q_plan q = p \<and> map sl_route split = [sq_route q] \<and> (\<exists>a failure. simulate_swap env rd i (sq_route q) = Inr (p, sim, Some a, failure) \<and>
            am_net_out a = am_net_out (sq_amounts q))
     else q_plan q = with_split p (sq_split q) \<and> (\<exists>a. enforced env rd i p sim a \<and> am_net_out a = am_net_out (sq_amounts q)))"
proof -
  note q = build_quote_Inr [OF b] and am = assess_Inr [OF a] and se = open_search_Inr [OF o]
  have rd: "validate_swap env intent = Inr (se_intent se)" "rd_policy (se_round se) = policy"
    "rd_deadline (se_round se) = now + ce_ttl_s env + DEADLINE_GRACE_S" using se by auto
  from f show ?thesis
  proof (cases rule: find_execution_cases)
    case (single r failure)
    have "plan_swap (ce_lib env) (se_intent se) r policy (rd_deadline (se_round se)) (rd_nonce (se_round se)) = Inr (ex_plan ex)"
      using single(2) rd(2) unfolding simulate_swap_def
      by (elim bindr_InrE) (auto split: if_splits sum.splits)
    then have "plan_split (ce_lib env) (se_intent se) [\<lparr>sl_route = r, sl_amount_in = 1, sl_amount_out = 0\<rparr>] policy
        (rd_deadline (se_round se)) (rd_nonce (se_round se)) = Inr (ex_plan ex)" by (simp add: plan_split_def)
    moreover have "length [\<lparr>sl_route = r, sl_amount_in = 1 :: int, sl_amount_out = 0 :: int\<rparr>] = 1 \<and>
      map sl_route [\<lparr>sl_route = r, sl_amount_in = 1, sl_amount_out = 0\<rparr>] = [sq_route q]" using q single by simp
    ultimately show ?thesis using rd q am single by metis
  next
    case (split p split)
    then have "length split \<noteq> 1" by simp
    with rd q am split show ?thesis by metis
  qed
qed

text \<open>
  C22. A quoted swap is the best execution found: every candidate route was simulated at the quoted
  block, none of them pays the wallet more than the quote does, the minimum is that output less the
  slippage the order allows, and the price impact is within the policy's limit or the quote says
  that it could not be measured.
\<close>

theorem swap_quote_best:
  assumes "quote_swap env now later qid policy intent st = (st', Inr q)"
  shows "\<exists>st1 se. open_search env now policy intent st = (st1, Inr se) \<and> sq_intent q = se_intent se
    \<and> (\<forall>r \<in> set (se_routes se). \<exists>p sim got failure.
         simulate_swap env (se_round se) (se_intent se) r = Inr (p, sim, got, failure) \<and>
         (\<forall>a. got = Some a \<and> 0 \<le> am_net_out a \<longrightarrow> am_net_out a \<le> am_net_out (sq_amounts q)))
    \<and> am_min_out (sq_amounts q) = am_net_out (sq_amounts q) * (10000 - si_slippage_bps intent) div 10000
    \<and> (case am_impact_bps (sq_amounts q) of
         None \<Rightarrow> ''impact_unavailable'' \<in> set (q_warnings q) | Some b \<Rightarrow> b \<le> max_impact_bps policy)"
proof -
  obtain st1 se ex a warnings sellable book st3 where
    o: "open_search env now policy intent st = (st1, Inr se)"
    and f: "find_execution env (se_round se) (se_intent se) False (se_routes se) = Inr ex"
    and a: "assess env policy se ex = Inr (a, warnings)"
    and b: "build_quote env qid se ex a (warnings @ sellable) book = Inr q"
    using quote_swap_parts [OF assms] by metis
  note q = build_quote_Inr [OF b] and am = assess_Inr [OF a]
  have "si_slippage_bps (se_intent se) = si_slippage_bps intent"
    using open_search_Inr [OF o] validate_swap_Inr by blast
  then have "am_min_out (sq_amounts q) = am_net_out (sq_amounts q) * (10000 - si_slippage_bps intent) div 10000"
    using q am by (simp add: min_out_for_def)
  moreover have "case am_impact_bps (sq_amounts q) of
         None \<Rightarrow> ''impact_unavailable'' \<in> set (q_warnings q) | Some b \<Rightarrow> b \<le> max_impact_bps policy"
    using q am by (auto split: option.splits)
  moreover have "\<exists>p sim got failure. simulate_swap env (se_round se) (se_intent se) r = Inr (p, sim, got, failure) \<and>
         (\<forall>a. got = Some a \<and> 0 \<le> am_net_out a \<longrightarrow> am_net_out a \<le> am_net_out (sq_amounts q))"
    if "r \<in> set (se_routes se)" for r
    using find_execution_best [OF f that] q am by metis
  ultimately show ?thesis using o q by blast
qed

text \<open>
  What is quoted has been executed: the quoted plan is the plan of the validated order, for one
  candidate route or for a split; the whole order's amounts are those of a successful simulation,
  and a split was simulated a second time with its minimum enforced.
\<close>

theorem swap_quote_executed:
  assumes "quote_swap env now later qid policy intent st = (st', Inr q)"
  shows "\<exists>rd i split p sim. validate_swap env intent = Inr i \<and> rd_policy rd = policy \<and>
    rd_deadline rd = now + ce_ttl_s env + DEADLINE_GRACE_S \<and>
    plan_split (ce_lib env) i split policy (rd_deadline rd) (rd_nonce rd) = Inr p \<and> sq_intent q = i \<and>
    (if length split = 1
     then q_plan q = p \<and> map sl_route split = [sq_route q] \<and> (\<exists>a failure. simulate_swap env rd i (sq_route q) = Inr (p, sim, Some a, failure) \<and>
            am_net_out a = am_net_out (sq_amounts q))
     else q_plan q = with_split p (sq_split q) \<and> (\<exists>a. enforced env rd i p sim a \<and> am_net_out a = am_net_out (sq_amounts q)))"
proof -
  obtain st1 se ex a warnings sellable book st3 where
    "open_search env now policy intent st = (st1, Inr se)"
    "find_execution env (se_round se) (se_intent se) False (se_routes se) = Inr ex"
    "assess env policy se ex = Inr (a, warnings)"
    "build_quote env qid se ex a (warnings @ sellable) book = Inr q"
    using quote_swap_parts [OF assms] by metis
  then show ?thesis by (rule quote_parts_executed)
qed

end
