(* ===== verification/Tx_Sample.thy ===== *)
theory Tx_Sample
  imports Tx_Best
begin

text \<open>
  One order from the candidates to the signed transaction, on a concrete node: a wallet sells 1000
  units of a token for WETH in one V2 pool. The hypotheses of the theorems on quotes hold here.
\<close>

section \<open>The library and the node\<close>

definition pin_lib :: eth_lib where
  "pin_lib = \<lparr>keccak = (\<lambda>b. if length b = 32 then b else []), abi_encode = (\<lambda>types vals. Inr []),
     abi_decode = (\<lambda>types data. Inl (ValueError []))\<rparr>"

lemma pin_lib_simps [simp]:
  "keccak pin_lib b = (if length b = 32 then b else [])" "abi_encode pin_lib types vals = Inr []"
  by (simp_all add: pin_lib_def)

definition seller :: address where "seller = ''0x'' @ replicate 40 CHR ''c''"
definition sell_token :: address where "sell_token = ''0x'' @ replicate 40 CHR ''f''"

definition sell_word :: string where "sell_word = replicate 61 CHR ''0'' @ ''3e8''"

definition transfer_log :: "address \<Rightarrow> string \<Rightarrow> string \<Rightarrow> string \<Rightarrow> json" where
  "transfer_log token giver taker amount =
     JObj [(''address'', JStr token), (''topics'', JArr [JStr ''0x'', JStr giver, JStr taker]),
           (''data'', JStr (''0x'' @ amount))]"

definition sell_logs :: "json list" where
  "sell_logs =
    [transfer_log sell_token (drop 2 seller) ''bb'' ''3e8'',
     JObj [(''address'', JStr ''0xbb''), (''topics'', JArr [JStr ''0x'']),
           (''data'', JStr (''0x'' @ replicate 61 CHR ''f'' @ ''e0c'' @ sell_word))],
     transfer_log WETH ''aa'' ''dd'' ''5'',
     transfer_log WETH ''aa'' (drop 2 seller) ''1ef'']"

definition sell_node :: node where
  "sell_node method params =
    (if method = ''eth_simulateV1'' then
       Inr (JArr [JObj [(''calls'', JArr [JObj [(''status'', JStr ''0x1''), (''gasUsed'', JStr ''0xc8''), (''logs'', JArr sell_logs)]])]])
     else if method = ''eth_call'' then Inr (JStr (''0x'' @ sell_word @ sell_word @ sell_word))
     else if method = ''eth_getBlockByNumber'' then
       Inr (JObj [(''number'', JStr ''0x7b''), (''hash'', JStr (''0x'' @ replicate 64 CHR ''a''))])
     else if method = ''eth_estimateGas'' then Inr (JStr ''0x64'')
     else if method = ''eth_getCode'' then
       (case params of
          JStr a # _ \<Rightarrow> (case map_of CODE_HASHES a of Some h \<Rightarrow> Inr (JStr h) | None \<Rightarrow> Inl (RuntimeError []))
        | _ \<Rightarrow> Inl (RuntimeError []))
     else Inl (RuntimeError []))"

definition sell_row :: pool_row where
  "sell_row = \<lparr>row_id = ''0xbb'', row_protocol = ''v2'', row_address = Some ''0xbb'',
     row_token0 = WETH, row_token1 = sell_token, row_fee_ppm = None, row_tick_spacing = None,
     row_hook = None, row_factory = Some UR_V2_FACTORY, row_metadata = None,
     row_liquidity = Some ''77'', row_reserve0 = None, row_reserve1 = None\<rparr>"

definition sell_pool :: pool where
  "sell_pool = \<lparr>p_venue = V2, p_id = ''0xbb'', p_address = ''0xbb'', p_token0 = WETH,
     p_token1 = sell_token, p_fee_ppm = V2_FEE_PPM, p_tick_spacing = 0, p_hook = NATIVE, p_factory = UR_V2_FACTORY\<rparr>"

definition sell_route :: route where
  "sell_route = [\<lparr>hop_pool = sell_pool, hop_in = sell_token, hop_out = WETH\<rparr>]"

definition sell_env :: core_env where
  "sell_env = \<lparr>ce_lib = pin_lib, ce_node = sell_node, ce_rows = [sell_row], ce_positions = [],
     ce_policy = sample_policy, ce_ttl_s = 60, ce_max_quotes = 512\<rparr>"

definition sell_intent :: swap_intent where
  "sell_intent = \<lparr>si_wallet = seller, si_side = Sell, si_token = sell_token, si_quote_currency = WETH,
     si_amount_in = 1000, si_slippage_bps = 50\<rparr>"

definition sell_start :: core_state where
  "sell_start = \<lparr>cs_book = empty_book, cs_quotes = [], cs_balance_slots = [], cs_allowance_slots = [],
     cs_token_meta = [], cs_mismatches = []\<rparr>"

section \<open>Candidates\<close>

lemma sell_texts [simp]:
  "lower seller = seller" "lower sell_token = sell_token" "lower WETH = WETH"
  "sell_token \<noteq> NATIVE" "sell_token \<noteq> WETH" "WETH \<noteq> sell_token" "seller \<noteq> ''0xdd''" "WETH \<noteq> NATIVE"
  by (code_simp)+

lemma sell_ids [simp]: "hex_id 40 seller" "hex_id 40 sell_token" "hex_id 40 WETH"
  by code_simp+

lemma sell_not_same [simp]: "\<not> same_asset sell_token WETH"
  by (auto simp: same_asset_def doubleton_eq_iff)

lemma sell_pool_of_row: "pool_from_row lib strict sell_row = Inr (Some sell_pool)"
proof -
  have "lower ''0xbb'' = ''0xbb''" "lower NATIVE = NATIVE" "lower UR_V2_FACTORY = UR_V2_FACTORY" by code_simp+
  then show ?thesis
    by (simp add: pool_from_row_def pool_of_terms_def sell_row_def sell_pool_def or_text_def venue_of_text_def Let_def)
qed

lemma sell_quote_pools: "quote_pools lib [sell_row] sell_token = Inr [sell_pool]"
proof -
  have "row_depth sell_row = Inr 77"
    by (simp add: row_depth_def sell_row_def or_text_def int_of_text_def strip_def is_space_def
        is_digit_def parse_decimal_def digit_value_def Let_def)
  moreover have "quotes_token sell_token sell_row"
    by (simp add: quotes_token_def sell_row_def QUOTE_CURRENCIES_def)
  ultimately show ?thesis
    by (simp add: quote_pools_def sell_pool_of_row Let_def)
qed

lemma sell_ranked: "rank_pools rpc sell_token WETH Sell empty_book [sell_pool] = (empty_book, Inr [sell_route])"
proof -
  have "swappable sell_pool"
    by (simp add: swappable_def sell_pool_def MAX_POOL_FEE_PPM_def V2_FEE_PPM_def)
  moreover have "other sell_pool sell_token = Inr WETH"
    by (simp add: other_def sell_pool_def)
  moreover have "p_hook sell_pool \<noteq> PONS_HOOK"
    by (simp add: sell_pool_def NATIVE_def PONS_HOOK_def)
  moreover have "pool_routes [] sell_token WETH Sell sell_pool WETH = Inr [sell_route]"
    by (simp add: pool_routes_def token_hop_def make_route_def sell_route_def other_def sell_pool_def same_asset_def)
  ultimately show ?thesis
    by (simp add: empty_book_def ret_st_def)
qed

lemma sell_candidates: "candidates lib [sell_row] rpc empty_book sell_token WETH Sell = (empty_book, Inr [sell_route])"
proof -
  have "choose_routes sell_token [sell_route] = [sell_route]"
    by (simp add: choose_routes_def MAX_CANDIDATES_def)
  moreover have "WETH \<in> set QUOTE_CURRENCIES" by (simp add: QUOTE_CURRENCIES_def)
  ultimately show ?thesis
    by (simp add: candidates_def sell_quote_pools sell_ranked Let_def ret_st_def del: rank_pools.simps)
qed


section \<open>The simulated order\<close>

lemma hex_digits_zeros: "hex_digits_value 0 (replicate n CHR ''0'' @ s) = hex_digits_value 0 s"
  by (induction n) (simp_all add: hex_value_def)

lemma hex_digits_ones: "hex_digits_value (16 ^ k - 1) (replicate n CHR ''f'' @ s) = hex_digits_value (16 ^ (k + n) - 1) s"
proof (induction n arbitrary: k)
  case (Suc n)
  have "16 * (16 ^ k - 1) + 15 = (16 ^ Suc k - 1 :: nat)"
    using one_le_power [of "16 :: nat" k] unfolding power_Suc by linarith
  then show ?case using Suc [of "Suc k"] by (simp add: hex_value_def)
qed simp

lemma hex_words_unfold:
  "s \<noteq> [] \<Longrightarrow> hex_words s = bindr (int_base16 (take 64 s)) (\<lambda>w. bindr (hex_words (drop 64 s)) (\<lambda>ws. Inr (w # ws)))"
  by (cases s) simp_all

lemma int_base16_plain:
  "take 2 s \<noteq> ''0x'' \<Longrightarrow> take 2 s \<noteq> ''0X'' \<Longrightarrow> s \<noteq> [] \<Longrightarrow> hex_digits_value 0 s = Some n \<Longrightarrow> int_base16 s = Inr (int n)"
  by (simp add: int_base16_def strip_0x_def)

lemma sell_word_value: "int_base16 sell_word = Inr 1000"
proof -
  have "hex_digits_value 0 sell_word = Some 1000"
    unfolding sell_word_def hex_digits_zeros by (simp add: hex_value_def)
  then show ?thesis using int_base16_plain [of sell_word 1000] by (simp add: sell_word_def numeral_2_eq_2)
qed

lemma length_sell_word [simp]: "length sell_word = 64"
  by (simp add: sell_word_def)

lemma sell_word_at: "k < 3 \<Longrightarrow> word_at (JStr (''0x'' @ sell_word @ sell_word @ sell_word)) k = Inr 1000"
proof -
  assume "k < 3"
  then consider "k = 0" | "k = 1" | "k = 2" by linarith
  then show ?thesis
    by cases (simp_all add: word_at_def lift_py_eq_Inr sell_word_value)
qed

lemma sell_eth_call: "eth_call sell_node a b c = Inr (JStr (''0x'' @ sell_word @ sell_word @ sell_word))"
  by (simp add: eth_call_def sell_node_def)

lemma sell_reads [simp]:
  "read_balance pin_lib sell_node sell_token w t = Inr 1000"
  "read_allowance pin_lib sell_node a b c d = Inr 1000"
  "read_permit_nonce pin_lib sell_node a b c d = Inr 1000"
  using sell_word_at [of 0] sell_word_at [of 2]
  by (simp_all add: read_balance_def read_allowance_def read_permit_nonce_def sell_eth_call
      erc20_balance_of_def erc20_allowance_def permit2_allowance_def call_with_def)

definition sell_commands :: "int \<Rightarrow> int \<Rightarrow> ur_command list" where
  "sell_commands amount minimum =
    [Permit2TransferFrom sell_token ADDRESS_THIS amount,
     V2Swap ADDRESS_THIS CONTRACT_BALANCE 0 [sell_token, WETH] False,
     PayPortion WETH ''0xdd'' 100, Sweep WETH MSG_SENDER minimum]"

definition sell_shape :: "int \<Rightarrow> swap_shape" where
  "sell_shape amount = \<lparr>ss_wallet = seller, ss_route = sell_route, ss_currency_in = sell_token, ss_currency_out = WETH,
     ss_amount_in = amount, ss_fee_leg = FeeOutput, ss_fee_currency = WETH, ss_fee_recipient = ''0xdd'', ss_fee_bps = 100\<rparr>"

definition sell_permit :: "int \<Rightarrow> permit" where
  "sell_permit amount = SinglePermit \<lparr>ps_details = \<lparr>pd_token = sell_token, pd_amount = amount, pd_expiration = 1120,
     pd_nonce = 1000\<rparr>, ps_spender = UR, ps_sig_deadline = 1120\<rparr>"

definition sell_plan :: "int \<Rightarrow> int \<Rightarrow> plan" where
  "sell_plan amount minimum = \<lparr>pl_to = UR, pl_value = 0, pl_deadline = 1120,
     pl_body = SwapBody (sell_commands amount minimum) 3 (sell_shape amount) None,
     pl_approvals = [\<lparr>an_token = sell_token, an_spender = PERMIT2, an_approve_amount = MAX_UINT256, an_required = amount\<rparr>],
     pl_permit = Some (sell_permit amount),
     pl_staging = [\<lparr>call_to = sell_token, call_data = [], call_value = 0\<rparr>, \<lparr>call_to = PERMIT2, call_data = [], call_value = 0\<rparr>],
     pl_signature = None\<rparr>"

lemma pin_selector [simp]: "length s \<noteq> 32 \<Longrightarrow> selector pin_lib s = []"
  by (simp add: selector_def text_bytes_def)

lemma pin_topic [simp]: "length s \<noteq> 32 \<Longrightarrow> topic pin_lib s = ''0x''"
  by (simp add: topic_def text_bytes_def hex0x_def)

lemma sell_planned:
  "plan_swap pin_lib (sell_intent\<lparr>si_amount_in := amount\<rparr>) sell_route sample_policy 1120 1000 = Inr (sell_plan amount 0)"
proof -
  have "router_for sell_route = None"
    by (simp add: router_for_def sell_route_def sell_pool_def V3_ROUTER_BY_FACTORY_def UR_V2_FACTORY_def GIGA_V3_FACTORY_def PANCAKE_V3_FACTORY_def SLIPSTREAM_FACTORY_def)
  moreover have "same_asset (route_in sell_route) sell_token" "same_asset (route_out sell_route) WETH"
    by (simp_all add: sell_route_def same_asset_def route_in_def route_out_def)
  moreover have "plan_hops FeeOutput WETH sell_route ([Permit2TransferFrom sell_token ADDRESS_THIS amount], sell_token, None)
      = Inr ([Permit2TransferFrom sell_token ADDRESS_THIS amount,
              V2Swap ADDRESS_THIS CONTRACT_BALANCE 0 [sell_token, WETH] False], WETH, None)"
    by (simp add: sell_route_def sell_pool_def hop_command_def)
  ultimately show ?thesis
    by (simp add: plan_swap_def sell_intent_def intent_in_def intent_out_def intent_fee_leg_def universal_plan_def Let_def
        permit2_staging_def erc20_approve_def permit2_approve_def fee_commands_def sample_policy_def sell_plan_def
        sell_commands_def sell_shape_def sell_permit_def)
qed

lemma sell_calldata:
  "pl_body p = SwapBody (sell_commands amount minimum) slot shape split \<Longrightarrow> calldata pin_lib p = Inr []"
proof -
  assume p: "pl_body p = SwapBody (sell_commands amount minimum) slot shape split"
  have "map_res (ur_encode pin_lib) (signed_commands p (sell_commands amount minimum)) =
      Inr (map (\<lambda>_. []) (signed_commands p (sell_commands amount minimum)))"
    by (auto simp: signed_commands_def sell_commands_def split: option.splits permit.splits)
  with p show ?thesis by (simp add: calldata_def ur_execute_def SEL_EXECUTE_def)
qed

definition sell_ledger :: ledger where
  "sell_ledger = \<lparr>transfers = [(sell_token, seller, ''0xbb'', 1000), (WETH, ''0xaa'', ''0xdd'', 5), (WETH, ''0xaa'', seller, 495)],
     swaps = [\<lparr>sw_pool_key = ''0xbb'', sw_amount0 = - 500, sw_amount1 = 1000, sw_venue = V3\<rparr>],
     nft_mints = [], nfpm_events = [], liquidity_deltas = [], native_traced = True, native_flows = []\<rparr>"

definition sell_rpc_logs :: "rpc_log list" where
  "sell_rpc_logs =
    [\<lparr>log_address = sell_token, log_topics = [''0x'', drop 2 seller, ''bb''], log_data = ''0x3e8''\<rparr>,
     \<lparr>log_address = ''0xbb'', log_topics = [''0x''],
      log_data = ''0x'' @ replicate 61 CHR ''f'' @ ''e0c'' @ sell_word\<rparr>,
     \<lparr>log_address = WETH, log_topics = [''0x'', ''aa'', ''dd''], log_data = ''0x5''\<rparr>,
     \<lparr>log_address = WETH, log_topics = [''0x'', ''aa'', drop 2 seller], log_data = ''0x1ef''\<rparr>]"

lemma sell_logs_read: "map_res log_of_json sell_logs = Inr sell_rpc_logs"
  by (simp add: sell_logs_def transfer_log_def sell_rpc_logs_def log_of_json_def)

lemma sell_short_words:
  "words_of ''0x3e8'' = Inr [1000]" "words_of ''0x5'' = Inr [5]" "words_of ''0x1ef'' = Inr [495]"
  by (simp_all add: words_of_def int_base16_def strip_0x_def hex_value_def)

lemma sell_swap_words: "words_of (''0x'' @ replicate 61 CHR ''f'' @ ''e0c'' @ sell_word) = Inr [2 ^ 256 - 500, 1000]"
proof -
  let ?neg = "replicate 61 CHR ''f'' @ ''e0c''"
  have two: "replicate 2 CHR ''f'' = ''ff''" by (simp add: numeral_2_eq_2)
  have "hex_digits_value 0 ?neg = Some (2 ^ 256 - 500)"
    using hex_digits_ones [of 0 61 "''e0c''"] by (simp add: hex_value_def)
  then have "int_base16 ?neg = Inr (2 ^ 256 - 500)"
    using int_base16_plain [of ?neg "2 ^ 256 - 500"] two by simp
  moreover have "words_of (''0x'' @ replicate 61 CHR ''f'' @ ''e0c'' @ sell_word) = hex_words (?neg @ sell_word)"
    by (simp add: words_of_def)
  moreover have "?neg @ sell_word \<noteq> []" "take 64 (?neg @ sell_word) = ?neg" "drop 64 (?neg @ sell_word) = sell_word" by simp_all
  moreover have "hex_words sell_word = Inr [1000]"
    using hex_words_unfold [of sell_word] sell_word_value by (simp add: sell_word_def)
  ultimately show ?thesis using hex_words_unfold [of "?neg @ sell_word"] by simp
qed


lemma seller_topic: "topic_address (drop 2 seller) = seller" "topic_address ''bb'' = ''0xbb''"
  "topic_address ''dd'' = ''0xdd''" "topic_address ''aa'' = ''0xaa''"
  by (code_simp)+

lemma sell_ledger_read: "make_ledger pin_lib sell_rpc_logs True [] = Inr sell_ledger"
proof -
  have low: "lower ''0x'' = ''0x''" "lower ''0xbb'' = ''0xbb''" "lower (drop 2 seller) = drop 2 seller" "lower ''bb'' = ''bb''"
    "lower ''dd'' = ''dd''" "lower ''aa'' = ''aa''" by code_simp+
  have addr: "sell_token \<noteq> NATIVE_TRACE" "WETH \<noteq> NATIVE_TRACE" by code_simp+
  have pm: "''0xbb'' \<noteq> POOL_MANAGER" by (simp add: POOL_MANAGER_def)
  have topics: "TOPIC_TRANSFER pin_lib = ''0x''" "TOPIC_V4_SWAP pin_lib = ''0x''" "TOPIC_V3_SWAP pin_lib = ''0x''"
    by (simp_all add: TOPIC_TRANSFER_def TOPIC_V4_SWAP_def TOPIC_V3_SWAP_def)
  have "ledger_step pin_lib l \<lparr>log_address = t, log_topics = [''0x'', a, b], log_data = d\<rparr> =
      Inr (l\<lparr>transfers := transfers l @ [(t, topic_address a, topic_address b, n)]\<rparr>)"
    if "t = sell_token \<or> t = WETH" "lower a = a" "lower b = b" "words_of d = Inr [n]" "2 < length d" for l t a b d n
    using that addr by (auto simp: ledger_step_def low topics item_def)
  moreover have "ledger_step pin_lib l \<lparr>log_address = ''0xbb'', log_topics = [''0x''],
      log_data = ''0x'' @ replicate 61 CHR ''f'' @ ''e0c'' @ sell_word\<rparr> = Inr (add_swap ''0xbb'' (- 500) 1000 V3 l)" for l
    using sell_swap_words pm by (simp add: ledger_step_def low topics item_def signed_def push_bit_eq_mult)
  ultimately show ?thesis
    by (simp add: make_ledger_def sell_rpc_logs_def sell_short_words low seller_topic sell_ledger_def add_swap_def)
qed

definition sell_amounts :: amounts where
  "sell_amounts = \<lparr>am_amount_in = 1000, am_pool_out = 500, am_hook_fee = None, am_creator_tax = None,
     am_rhpools_fee = \<lparr>fee_currency = WETH, fee_amount = 5\<rparr>, am_net_out = 495, am_min_out = 0, am_impact_bps = None\<rparr>"

lemma sell_hooks: "hook_lookup sell_env empty_book sell_pool = Inr NO_HOOK"
  by (simp add: hook_lookup_def hook_policy_of_def sell_pool_def ret_st_def)

lemma sell_reconciled: "swap_amounts (sell_shape 1000) sell_ledger (hook_lookup sell_env empty_book) = Inr sell_amounts"
proof -
  have "seller \<noteq> ''0xbb''" "seller \<noteq> ''0xaa''" "''0xdd'' \<noteq> seller" by code_simp+
  then have "received sell_ledger WETH ''0xdd'' = 5" "received sell_ledger WETH seller = 495"
      "sent sell_ledger WETH seller = 0" "sent sell_ledger sell_token seller = 1000"
    by (auto simp: received_def sent_def sell_ledger_def)
  moreover have "hop_io sell_ledger \<lparr>hop_pool = sell_pool, hop_in = sell_token, hop_out = WETH\<rparr> None = Inr (1000, 500)"
    by (simp add: hop_io_def hop_key_def sell_pool_def sell_ledger_def)
  ultimately show ?thesis
    by (simp add: swap_amounts_def sell_shape_def sell_route_def sell_hooks fee_in_of_def floor_bps_def
        is_pons_def NO_HOOK_def check_flow_def flow_def observable_def sell_amounts_def Let_def)
qed

lemma sell_small_fails:
  "\<exists>e. swap_amounts (sell_shape 10) sell_ledger (hook_lookup sell_env empty_book) = Inl e \<and> is_tx_error e"
proof -
  have "hop_io sell_ledger \<lparr>hop_pool = sell_pool, hop_in = sell_token, hop_out = WETH\<rparr> None = Inr (1000, 500)"
    by (simp add: hop_io_def hop_key_def sell_pool_def sell_ledger_def)
  then show ?thesis
    by (simp add: swap_amounts_def sell_shape_def sell_route_def fee_in_of_def mismatch_def is_tx_error_def)
qed


definition sell_sim :: sim_result where
  "sell_sim = \<lparr>sr_ok = True, sr_logs = sell_rpc_logs, sr_gas_used = 200, sr_revert = None, sr_staging_gas = []\<rparr>"

lemma sell_run: "run_sim pin_lib sell_node wallet staging call tag overrides = Inr sell_sim"
proof -
  have "int_base16 ''0xc8'' = Inr 200" by (simp add: int_base16_def strip_0x_def hex_value_def)
  then show ?thesis
    by (simp add: run_sim_def sell_node_def read_outcome_def gas_of_def sell_logs_read sell_sim_def Let_def)
qed

definition sell_round :: round where
  "sell_round = \<lparr>rd_deadline = 1120, rd_nonce = 1000, rd_tag = ''0x7b'', rd_policy = sample_policy,
     rd_funded = None, rd_book = empty_book\<rparr>"

lemma sell_simulated:
  "simulate_swap sell_env sell_round sell_intent sell_route = Inr (sell_plan 1000 0, sell_sim, Some sell_amounts, None)"
  "\<exists>e. simulate_swap sell_env sell_round (small_order sell_intent) sell_route = Inr (sell_plan 10 0, sell_sim, None, Some e)"
proof -
  have same: "sell_intent\<lparr>si_amount_in := 1000\<rparr> = sell_intent" by (simp add: sell_intent_def)
  have small: "small_order sell_intent = sell_intent\<lparr>si_amount_in := 10\<rparr>"
    by (simp add: small_order_def sell_intent_def IMPACT_DIVISOR_def)
  have call: "plan_call sell_env (sell_plan n 0) = Inr \<lparr>call_to = UR, call_data = [], call_value = 0\<rparr>" for n
    using sell_calldata [of "sell_plan n 0" n 0 3 "sell_shape n" None]
    by (simp add: plan_call_def sell_env_def sell_plan_def)
  have shape: "swap_shape_of (sell_plan n 0) = Inr (sell_shape n)" for n
    by (simp add: swap_shape_of_def sell_plan_def)
  have ledger: "sim_ledger sell_env sell_sim = Inr sell_ledger"
    by (simp add: sim_ledger_def sell_env_def sell_sim_def sell_ledger_read)
  have env: "ce_lib sell_env = pin_lib" "ce_node sell_env = sell_node" by (simp_all add: sell_env_def)
  have rd: "rd_policy sell_round = sample_policy" "rd_deadline sell_round = 1120" "rd_nonce sell_round = 1000"
    "rd_book sell_round = empty_book" by (simp_all add: sell_round_def)
  have ok: "sr_ok sell_sim" by (simp add: sell_sim_def)
  show "simulate_swap sell_env sell_round sell_intent sell_route = Inr (sell_plan 1000 0, sell_sim, Some sell_amounts, None)"
    using sell_planned [of 1000] unfolding same
    by (simp add: simulate_swap_def env rd call sell_run ok shape ledger sell_reconciled)
  obtain e where "swap_amounts (sell_shape 10) sell_ledger (hook_lookup sell_env empty_book) = Inl e" "is_tx_error e"
    using sell_small_fails by blast
  then show "\<exists>e. simulate_swap sell_env sell_round (small_order sell_intent) sell_route = Inr (sell_plan 10 0, sell_sim, None, Some e)"
    unfolding small by (simp add: simulate_swap_def env rd sell_planned call sell_run ok shape ledger)
qed

section \<open>The quote\<close>

definition sell_block :: block_ref where
  "sell_block = \<lparr>bk_number = 123, bk_hash = ''0x'' @ replicate 64 CHR ''a''\<rparr>"

definition sell_search :: search where
  "sell_search = \<lparr>se_intent = sell_intent, se_block = sell_block, se_routes = [sell_route], se_have = 1000,
     se_expires_at = 1060, se_round = sell_round\<rparr>"

lemma sell_header: "read_header sell_node block = Inr sell_block"
proof -
  have "int_base16 ''0x7b'' = Inr 123" by (simp add: int_base16_def strip_0x_def hex_value_def)
  moreover have "lower (''0x'' @ replicate 64 CHR ''a'') = ''0x'' @ replicate 64 CHR ''a''"
    "hex_id 64 (''0x'' @ replicate 64 CHR ''a'')" by code_simp+
  ultimately show ?thesis by (simp add: read_header_def sell_node_def hex_int_def sell_block_def)
qed

lemma sell_opened:
  assumes "cs_book st = empty_book"
  shows "open_search sell_env 1000 sample_policy sell_intent st = (st, Inr sell_search)"
proof -
  have "validate_swap sell_env sell_intent = Inr sell_intent"
    by (simp add: validate_swap_def sell_intent_def need_address_def sell_env_def sample_policy_def ensure_def
        QUOTE_CURRENCIES_def MAX_SWAP_AMOUNT_def push_bit_eq_mult)
  moreover have "st\<lparr>cs_book := empty_book\<rparr> = st" using assms by (cases st) simp
  then have "find_candidates sell_env sell_intent st = (st, Inr [sell_route])"
    by (simp add: find_candidates_def sell_env_def sell_intent_def assms sell_candidates ret_st_def)
  moreover have "hex_text 123 = ''0x7b''" by code_simp
  moreover have "intent_in sell_intent = sell_token" by (simp add: intent_in_def sell_intent_def)
  moreover have "lend_funds sell_env sell_intent [sell_route] 1000 tag st = (st, Inr None)" for tag
    by (simp add: lend_funds_def sell_intent_def ret_st_def)
  ultimately show ?thesis
    by (simp add: open_search_def pure_st_def sell_env_def sell_header sell_block_def Let_def ret_st_def sell_search_def
        sell_round_def DEADLINE_GRACE_S_def assms)
qed

definition sell_execution :: execution where
  "sell_execution = \<lparr>ex_plan = sell_plan 1000 0, ex_sim = sell_sim, ex_amounts = sell_amounts, ex_route = sell_route,
     ex_split = [\<lparr>sl_route = sell_route, sl_amount_in = 1000, sl_amount_out = 495\<rparr>]\<rparr>"

lemma sell_executed: "find_execution sell_env sell_round sell_intent False [sell_route] = Inr sell_execution"
proof -
  have "tally_all [(sell_route, sell_plan 1000 0, sell_sim, Some sell_amounts, None)] =
      \<lparr>ty_best = Some (sell_plan 1000 0, sell_sim, sell_amounts, sell_route), ty_failures = [], ty_ur = [(sell_route, sell_amounts)]\<rparr>"
    by (simp add: tally_all_def sell_plan_def)
  then show ?thesis
    by (simp add: find_execution_def sell_simulated propose_split_def choose_execution_def sell_execution_def
        sell_intent_def [THEN arg_cong [where f = si_amount_in]] sell_amounts_def [THEN arg_cong [where f = am_net_out]])
qed

definition sell_quoted :: amounts where
  "sell_quoted = sell_amounts\<lparr>am_min_out := 492\<rparr>"

lemma sell_assessed: "assess sell_env sample_policy sell_search sell_execution = Inr (sell_quoted, [''impact_unavailable''])"
proof -
  obtain e where "simulate_swap sell_env sell_round (small_order sell_intent) sell_route = Inr (sell_plan 10 0, sell_sim, None, Some e)"
    using sell_simulated(2) by blast
  then have "small_amounts sell_env sell_round sell_intent sell_execution = Inr None"
    by (simp add: small_amounts_def sell_execution_def)
  moreover have "check_market sell_env sell_round sell_intent [sell_route] sell_execution small = Inr ()" for small
    by (simp add: check_market_def sell_execution_def)
  moreover have "\<not> high_fee (ex_split sell_execution)"
    by (simp add: high_fee_def sell_execution_def sell_route_def sell_pool_def V2_FEE_PPM_def HIGH_POOL_FEE_PPM_def)
  ultimately show ?thesis
    by (simp add: assess_def sell_search_def impact_of_def check_impact_def sell_quoted_def min_out_for_def
        sell_execution_def sell_amounts_def sell_intent_def Let_def)
qed


definition sell_id :: string where "sell_id = replicate 64 CHR ''7''"

definition sell_quote :: swap_quote where
  "sell_quote = \<lparr>q_id = sell_id, q_wallet = seller, q_plan = sell_plan 1000 0, q_block = sell_block, q_expires_at = 1060,
     q_deadline = 1120,
     q_steps = [\<lparr>qt_kind = ''permit'', qt_tx = None, qt_typed_data = permit_typed_data (sell_plan 1000 0)\<rparr>,
                \<lparr>qt_kind = ''send'', qt_tx = None, qt_typed_data = None\<rparr>],
     q_warnings = [''impact_unavailable''], q_gas = 200, sq_intent = sell_intent, sq_route = sell_route,
     sq_amounts = sell_quoted, sq_split = [\<lparr>sl_route = sell_route, sl_amount_in = 1000, sl_amount_out = 495\<rparr>],
     sq_hop_policies = [(0, 0)], sq_leg_policies = [[(0, 0)]], sq_have = None\<rparr>"

lemma sell_built: "build_quote sell_env sell_id sell_search sell_execution sell_quoted [''impact_unavailable''] empty_book = Inr sell_quote"
proof -
  have "PERMIT2 \<noteq> UR" by (simp add: PERMIT2_def UR_def)
  then have "plan_steps sell_env seller (sell_plan 1000 0) tag = Inr (q_steps sell_quote)" for tag
    by (simp add: plan_steps_def sell_env_def sell_plan_def approval_short_def permit_typed_data_def sell_quote_def sell_permit_def)
  moreover have "route_policies sell_env empty_book sell_route = Inr [(0, 0)]"
    by (simp add: route_policies_def sell_route_def sell_hooks NO_HOOK_def)
  ultimately show ?thesis
    by (simp add: build_quote_def sell_search_def sell_execution_def sell_round_def sell_intent_def sell_sim_def
        sell_quote_def Let_def)
qed

lemma sell_quoted_in:
  assumes "cs_book st = empty_book"
  shows "quote_swap sell_env 1000 1001 sell_id sample_policy sell_intent st =
    (fst (store_quote sell_env 1001 (SwapQuote sell_quote) st),
     case snd (store_quote sell_env 1001 (SwapQuote sell_quote) st) of Inl e \<Rightarrow> Inl e | Inr u \<Rightarrow> Inr sell_quote)"
proof -
  have "search_swap sell_env 1000 sample_policy False sell_intent st = (st, Inr (sell_search, sell_execution))"
    using sell_executed by (simp add: search_swap_def sell_opened [OF assms] sell_search_def pure_st_def ret_st_def)
  moreover have "si_side (se_intent sell_search) \<noteq> Buy" by (simp add: sell_search_def sell_intent_def)
  ultimately show ?thesis
    using sell_assessed sell_built assms
    by (simp add: quote_swap_def pure_st_def ret_st_def bind_st_def split: sum.split)
qed

definition sell_stored :: core_state where
  "sell_stored = sell_start\<lparr>cs_quotes := [(sell_id, SwapQuote sell_quote)]\<rparr>"

lemma sell_store: "store_quote sell_env 1001 (SwapQuote sell_quote) sell_start = (sell_stored, Inr ())"
  by (simp add: store_quote_def sell_env_def sell_start_def MAX_QUOTES_PER_WALLET_def sell_stored_def ret_st_def sell_quote_def)

lemma sell_quoted_at: "quote_swap sell_env 1000 1001 sell_id sample_policy sell_intent sell_start = (sell_stored, Inr sell_quote)"
  using sell_quoted_in [of sell_start] by (simp add: sell_store) (simp add: sell_start_def)

theorem swap_quote_best_witness:
  "\<exists>st1 se. open_search sell_env 1000 sample_policy sell_intent sell_start = (st1, Inr se) \<and>
     am_min_out (sq_amounts sell_quote) = am_net_out (sq_amounts sell_quote) * (10000 - si_slippage_bps sell_intent) div 10000"
  using swap_quote_best [OF sell_quoted_at] by blast

theorem swap_quote_executed_witness:
  "\<exists>(rd :: round) i split p. validate_swap sell_env sell_intent = Inr i \<and>
    plan_split (ce_lib sell_env) i split sample_policy (rd_deadline rd) (rd_nonce rd) = Inr p \<and> sq_intent sell_quote = i"
  using swap_quote_executed [OF sell_quoted_at] by blast


section \<open>The transaction\<close>

lemma pin_code_hash:
  assumes "hex_id 64 h"
  shows "code_hash pin_lib (JStr h) = Inr h"
proof -
  let ?s = "drop 2 h"
  have h: "h = ''0x'' @ ?s" using assms append_take_drop_id [of 2 h] by (simp add: hex_id_def)
  have w: "length ?s = 64" "list_all (\<lambda>c. is_digit c \<or> c \<in> set ''abcdef'') ?s" using assms by (simp_all add: hex_id_def hex_word_def)
  have "list_all (\<lambda>c. let n = of_char c :: nat in (48 \<le> n \<and> n \<le> 57) \<or> (97 \<le> n \<and> n \<le> 102)) ?s"
    using w(2) unfolding list_all_iff by (auto simp: is_digit_def Let_def)
  moreover have "even (length ?s)" unfolding w(1) by simp
  ultimately obtain bs where bs: "?s = hex_of_bytes bs" "length ?s = 2 * length bs"
    using hex_text_bytes [of ?s] by blast
  have "hex_payload (JStr h) = Some ?s" using assms by (simp add: hex_payload_def hex_id_def)
  then have "code_hash pin_lib (JStr h) = Inr (hex0x bs)" using bs w(1) by (simp add: code_hash_def)
  with bs(1) h show ?thesis by (simp add: hex0x_def)
qed

lemma sell_codes: "verify_codes pin_lib sell_node CODE_HASHES = Inr []"
proof -
  have "distinct (map fst CODE_HASHES)" "\<forall>(a, h) \<in> set CODE_HASHES. hex_id 64 h" by code_simp+
  then have "bindr (sell_node ''eth_getCode'' [JStr a, JStr ''latest'']) (code_hash pin_lib) = Inr h"
    if "(a, h) \<in> set CODE_HASHES" for a h
    using that pin_code_hash [of h] by (auto simp: sell_node_def)
  then have one: "bindr (sell_node ''eth_getCode'' [JStr a, JStr ''latest'']) (\<lambda>code. bindr (code_hash pin_lib code) (\<lambda>actual.
      Inr \<lparr>mi_address = a, mi_expected = h, mi_actual = actual\<rparr>)) = Inr \<lparr>mi_address = a, mi_expected = h, mi_actual = h\<rparr>"
    if "(a, h) \<in> set CODE_HASHES" for a h
    using that by (fastforce elim: bindr_InrE)
  have "map_res (\<lambda>(a, h). bindr (sell_node ''eth_getCode'' [JStr a, JStr ''latest'']) (\<lambda>code. bindr (code_hash pin_lib code) (\<lambda>actual.
      Inr \<lparr>mi_address = a, mi_expected = h, mi_actual = actual\<rparr>))) pins
    = Inr (map (\<lambda>(a, h). \<lparr>mi_address = a, mi_expected = h, mi_actual = h\<rparr>) pins)" if "set pins \<subseteq> set CODE_HASHES" for pins
    using that by (induction pins) (auto simp: one)
  then show ?thesis by (auto simp: verify_codes_def filter_empty_conv)
qed

definition sell_prepared :: prepared where
  "sell_prepared = \<lparr>pr_transaction = make_tx seller UR [] 0 (Some 260), pr_gas_used = 200, pr_expires_at = 1060, pr_calls = []\<rparr>"

lemma sell_finalized:
  "finalize_swap (sell_plan 1000 0) 492 (Some sig) = Inr (sell_plan 1000 492\<lparr>pl_signature := Some sig\<rparr>)"
  by (simp add: finalize_swap_def sell_plan_def sell_commands_def set_min_out_def item_def)

lemma sell_prepared_at: "prepare sell_env 1010 sell_id seller (Some sig) False sell_stored = (sell_stored, Inr sell_prepared)"
proof -
  let ?q = "SwapQuote sell_quote"
  let ?p = "sell_plan 1000 492\<lparr>pl_signature := Some sig\<rparr>"
  let ?call = "\<lparr>call_to = UR, call_data = [], call_value = 0\<rparr>"
  have env: "ce_lib sell_env = pin_lib" "ce_node sell_env = sell_node" by (simp_all add: sell_env_def)
  have id: "hex_word 64 sell_id" by code_simp
  have w: "need_address seller ''wallet'' = Inr seller" by (simp add: need_address_def)
  have find: "find_quote 1010 sell_id seller sell_stored = (sell_stored, Inr ?q)"
    by (simp add: find_quote_def sell_stored_def ret_st_def) (simp add: sell_quote_def)
  have codes: "recheck_codes sell_env sell_stored = (sell_stored, Inr ())"
    by (simp add: recheck_codes_def env sell_codes require_enabled_def ensure_def sell_stored_def sell_start_def pure_st_def)
  have batch: "\<not> batch_approval False ?q" by (simp add: batch_approval_def)
  have upr: "PERMIT2 \<noteq> UR" by (simp add: PERMIT2_def UR_def)
  have plan: "q_plan sell_quote = sell_plan 1000 0" "q_block sell_quote = sell_block" "sq_intent sell_quote = sell_intent"
    "am_min_out (sq_amounts sell_quote) = 492" by (simp_all add: sell_quote_def sell_quoted_def)
  have "check_block sell_env ?q = Inr ()"
    by (simp add: check_block_def env sell_header plan ensure_def)
  moreover have "check_funds sell_env seller ?q = Inr ()"
    by (simp add: check_funds_def env plan intent_in_def sell_intent_def ensure_def)
  moreover have "map_res (check_approval sell_env seller (sell_plan 1000 0)) (pl_approvals (sell_plan 1000 0)) = Inr [()]"
    using upr by (simp add: check_approval_def env approval_short_def sell_plan_def ensure_def)
  moreover have "final_plan ?q (Some sig) = Inr ?p"
    by (simp add: final_plan_def plan sell_finalized)
  moreover have "plan_call sell_env ?p = Inr ?call"
    using sell_calldata [of ?p 1000 492 3 "sell_shape 1000" None] by (simp add: plan_call_def env sell_plan_def)
  moreover have "sr_ok sell_sim" by (simp add: sell_sim_def)
  ultimately have pp: "prepare_plan sell_env False seller (Some sig) ?q = Inr (?p, ?call, sell_sim)"
    by (simp add: prepare_plan_def plan env sell_run)
  have "int_base16 ''0x64'' = Inr 100" by (simp add: int_base16_def strip_0x_def hex_value_def)
  then have "estimate_gas sell_env False r None = Inr 100" for r
    by (simp add: estimate_gas_def env sell_node_def hex_int_def)
  then have "assemble sell_env False seller ?q ?p ?call sell_sim None = Inr sell_prepared"
    by (simp add: assemble_def gas_limit_def sell_sim_def GAS_HEADROOM_PCT_def ESTIMATE_HEADROOM_PCT_def sell_prepared_def Let_def)
      (simp add: sell_quote_def)
  with pp batch codes find w id show ?thesis
    by (simp add: prepare_def pure_st_def ensure_def gas_override_def ret_st_def Let_def)
qed

end
