(* ===== verification/Tx_Session.thy ===== *)
theory Tx_Session
  imports Tx_Sample
begin

text \<open>
  The core over a sequence of requests: the store of quotes stays within its bound for every wallet
  and keeps the wallets apart, every stored quote is the plan of its order, and what \<^verbatim>\<open>prepare\<close>
  hands out is that plan with the promised minimum, checked against the chain again.
\<close>

section \<open>The store\<close>

definition quote_wallet :: "quote \<Rightarrow> address" where
  "quote_wallet q = q_wallet (base_of q)"

definition held :: "address \<Rightarrow> quotes \<Rightarrow> nat" where
  "held w qs = length (filter (\<lambda>(k, q). quote_wallet q = w) qs)"

definition live_quotes :: "int \<Rightarrow> quotes \<Rightarrow> quotes" where
  "live_quotes now qs = filter (\<lambda>(k, q). now < q_expires_at (base_of q)) qs"

definition quote_limit :: "int \<Rightarrow> int" where
  "quote_limit n = min n MAX_QUOTES_PER_WALLET"

lemma store_quote_cases:
  obtains (room) "int (held (quote_wallet q) (live_quotes now (cs_quotes st))) < quote_limit (ce_max_quotes env)"
      "store_quote env now q st = (st\<lparr>cs_quotes := od_set (q_id (base_of q)) q (live_quotes now (cs_quotes st))\<rparr>, Inr ())"
    | (evict) k q1 where "(k, q1) \<in> set (live_quotes now (cs_quotes st))" "quote_wallet q1 = quote_wallet q"
      "store_quote env now q st =
         (st\<lparr>cs_quotes := od_set (q_id (base_of q)) q (od_del k (live_quotes now (cs_quotes st)))\<rparr>, Inr ())"
    | (none) "quote_limit (ce_max_quotes env) \<le> 0"
      "\<exists>e. store_quote env now q st = (st\<lparr>cs_quotes := live_quotes now (cs_quotes st)\<rparr>, Inl e)"
proof -
  let ?live = "live_quotes now (cs_quotes st)"
  let ?owned = "map fst (filter (\<lambda>(k, q1). q_wallet (base_of q1) = q_wallet (base_of q)) ?live)"
  have h: "length ?owned = held (quote_wallet q) ?live" by (simp add: held_def quote_wallet_def)
  have s: "store_quote env now q st =
      (if int (length ?owned) \<ge> quote_limit (ce_max_quotes env) then
         (case ?owned of
            [] \<Rightarrow> raise_st (st\<lparr>cs_quotes := ?live\<rparr>) (Py (IndexError ''list index out of range''))
          | k # _ \<Rightarrow> ret_st (st\<lparr>cs_quotes := od_set (q_id (base_of q)) q (od_del k ?live)\<rparr>) ())
       else ret_st (st\<lparr>cs_quotes := od_set (q_id (base_of q)) q ?live\<rparr>) ())"
    unfolding store_quote_def quote_limit_def live_quotes_def Let_def by (rule refl)
  show ?thesis
  proof (cases "int (length ?owned) \<ge> quote_limit (ce_max_quotes env)")
    case False
    then show ?thesis using s h by (intro room) (simp_all add: ret_st_def)
  next
    case True
    show ?thesis
    proof (cases ?owned)
      case Nil
      with True s show ?thesis by (intro none) (simp_all add: raise_st_def)
    next
      case (Cons k ks)
      then have "k \<in> set ?owned" by (metis list.set_intros(1))
      then obtain q1 where "(k, q1) \<in> set ?live" "q_wallet (base_of q1) = q_wallet (base_of q)" by auto
      with True s Cons show ?thesis by (intro evict [of k q1]) (simp_all add: ret_st_def quote_wallet_def)
    qed
  qed
qed

definition store_ok :: "int \<Rightarrow> quotes \<Rightarrow> bool" where
  "store_ok n qs \<longleftrightarrow> od_ok qs \<and> (\<forall>w. int (held w qs) \<le> max 0 (quote_limit n))"

lemma od_ok_filter [simp]: "od_ok d \<Longrightarrow> od_ok (filter P d)"
  by (simp add: od_ok_def od_keys_def distinct_map_filter)

lemma held_set: "held w (od_set k q d) \<le> held w d + (if quote_wallet q = w then 1 else 0)"
  by (induction d) (auto simp: held_def)

lemma held_filter: "held w (filter P d) \<le> held w d"
  by (induction d) (auto simp: held_def)

lemma held_del:
  assumes "(k, q) \<in> set d" and "quote_wallet q = w"
  shows "held w (od_del k d) + 1 \<le> held w d"
  using assms(1)
proof (induction d)
  case (Cons e d)
  obtain k1 q1 where e: "e = (k1, q1)" by (cases e)
  have le: "held w (od_del k d) \<le> held w d" by (simp add: od_del_def held_filter)
  show ?case
  proof (cases "(k, q) = e")
    case True
    with assms(2) le show ?thesis by (auto simp: held_def od_del_def)
  next
    case False
    with Cons e show ?thesis by (auto simp: held_def od_del_def)
  qed
qed simp

lemma store_quote_ok:
  assumes "store_ok (ce_max_quotes env) (cs_quotes st)"
  shows "store_ok (ce_max_quotes env) (cs_quotes (fst (store_quote env now q st)))"
proof -
  let ?live = "live_quotes now (cs_quotes st)"
  have ok: "od_ok ?live" using assms by (simp add: store_ok_def live_quotes_def)
  have live: "int (held w ?live) \<le> max 0 (quote_limit (ce_max_quotes env))" for w
    using assms held_filter [of w _ "cs_quotes st"] unfolding store_ok_def live_quotes_def
    by (meson of_nat_mono order_trans)
  show ?thesis
  proof (cases rule: store_quote_cases [of q now st env])
    case room
    have "int (held w (od_set (q_id (base_of q)) q ?live)) \<le> max 0 (quote_limit (ce_max_quotes env))" for w
      using room(1) live [of w] held_set [of w "q_id (base_of q)" q ?live] by (cases "quote_wallet q = w") auto
    with room ok show ?thesis by (simp add: store_ok_def)
  next
    case (evict k q1)
    have "int (held w (od_set (q_id (base_of q)) q (od_del k ?live))) \<le> max 0 (quote_limit (ce_max_quotes env))" for w
    proof (cases "quote_wallet q = w")
      case True
      with held_del [OF evict(1,2)] held_set [of w "q_id (base_of q)" q "od_del k ?live"] live [of w]
      show ?thesis by auto
    next
      case False
      have "held w (od_del k ?live) \<le> held w ?live" by (simp add: od_del_def held_filter)
      with False held_set [of w "q_id (base_of q)" q "od_del k ?live"] live [of w] show ?thesis by auto
    qed
    with evict ok show ?thesis by (simp add: store_ok_def)
  next
    case none
    with ok live show ?thesis by (auto simp: store_ok_def)
  qed
qed

section \<open>What a request does to the store\<close>

abbreviation same_quotes :: "core_state \<Rightarrow> core_state \<Rightarrow> bool" where
  "same_quotes st s \<equiv> cs_quotes s = cs_quotes st"

lemma same_quotes_bind:
  "same_quotes st (fst m) \<Longrightarrow> (\<And>s x. m = (s, Inr x) \<Longrightarrow> same_quotes st s \<Longrightarrow> same_quotes st (fst (f s x))) \<Longrightarrow>
   same_quotes st (fst (bind_st m f))"
  by (rule bind_st_invariant)

lemma find_candidates_quotes: "same_quotes st (fst (find_candidates env i st))"
  by (auto simp: find_candidates_def ret_st_def raise_st_def Let_def split: prod.splits sum.splits list.splits)

lemma lend_funds_quotes: "same_quotes st (fst (lend_funds env i routes have tag st))"
  by (auto simp: lend_funds_def ret_st_def raise_st_def Let_def split: prod.splits sum.splits option.splits)

lemma open_search_quotes: "same_quotes st (fst (open_search env now policy intent st))"
  unfolding open_search_def Let_def
  by (intro same_quotes_bind) (simp_all add: find_candidates_quotes lend_funds_quotes ret_st_def)

lemma search_swap_quotes: "same_quotes st (fst (search_swap env now policy probe intent st))"
  unfolding search_swap_def by (intro same_quotes_bind) (simp_all add: open_search_quotes ret_st_def)

lemma require_sellable_quotes: "same_quotes st (fst (require_sellable env now policy i bought st))"
  using search_swap_quotes [of env now policy True "i\<lparr>si_side := Sell, si_amount_in := max 1 (bought div 2), si_slippage_bps := 5000\<rparr>" st]
  by (auto simp: require_sellable_def ret_st_def raise_st_def Let_def split: prod.splits sum.splits tx_exn.splits)


section \<open>What is stored\<close>

text \<open>
  A stored swap quote holds the plan of its order, under a policy of the service, with the minimum
  of its output; a stored liquidity quote holds the plan of its change.
\<close>

definition sound_swap :: "eth_lib \<Rightarrow> tx_policy set \<Rightarrow> swap_quote \<Rightarrow> bool" where
  "sound_swap lib pols s \<longleftrightarrow>
     (\<exists>policy \<in> pols. \<exists>split p deadline nonce.
        plan_split lib (sq_intent s) split policy deadline nonce = Inr p \<and>
        q_plan s = (if length split = 1 then p else with_split p (sq_split s))) \<and>
     am_min_out (sq_amounts s) = am_net_out (sq_amounts s) * (10000 - si_slippage_bps (sq_intent s)) div 10000 \<and>
     q_wallet s = si_wallet (sq_intent s)"

definition sound_lp :: "eth_lib \<Rightarrow> lp_quote \<Rightarrow> bool" where
  "sound_lp lib l \<longleftrightarrow>
     (\<exists>deadline sqrt_price position nonces.
        plan_lp lib (lq_intent l) (lq_pool l) deadline sqrt_price position nonces = Inr (q_plan l)) \<and>
     q_wallet l = li_wallet (lq_intent l)"

definition sound_quote :: "eth_lib \<Rightarrow> tx_policy set \<Rightarrow> quote \<Rightarrow> bool" where
  "sound_quote lib pols q = (case q of SwapQuote s \<Rightarrow> sound_swap lib pols s | LpQuote l \<Rightarrow> sound_lp lib l)"

lemma built_swap_sound:
  assumes o: "open_search env now policy intent st = (st1, Inr se)"
    and f: "find_execution env (se_round se) (se_intent se) False (se_routes se) = Inr ex"
    and a: "assess env policy se ex = Inr (a, warnings)"
    and b: "build_quote env qid se ex a warnings0 book = Inr q"
    and policy: "policy \<in> pols"
  shows "sound_swap (ce_lib env) pols q"
proof -
  obtain rd i split p where e: "sq_intent q = i"
      "plan_split (ce_lib env) i split policy (rd_deadline (rd :: round)) (rd_nonce rd) = Inr p"
      "q_plan q = (if length split = 1 then p else with_split p (sq_split q))"
    using quote_parts_executed [OF o f a b] by metis
  moreover have "am_min_out (sq_amounts q) = am_net_out (sq_amounts q) * (10000 - si_slippage_bps (sq_intent q)) div 10000"
    "q_wallet q = si_wallet (sq_intent q)"
    using assess_Inr [OF a] build_quote_Inr [OF b] by (simp_all add: min_out_for_def)
  ultimately show ?thesis using policy unfolding sound_swap_def by metis
qed

lemma quote_swap_store:
  assumes "policy \<in> pols"
  shows "same_quotes st (fst (quote_swap env now later qid policy intent st)) \<or>
    (\<exists>st3 q. same_quotes st st3 \<and> sound_swap (ce_lib env) pols q \<and> q_id q = qid \<and>
       same_quotes (fst (store_quote env later (SwapQuote q) st3)) (fst (quote_swap env now later qid policy intent st)))"
proof -
  obtain s1 r1 where m1: "search_swap env now policy False intent st = (s1, r1)" by (metis surj_pair)
  have q1: "same_quotes st s1" using search_swap_quotes [of env now policy False intent st] m1 by simp
  show ?thesis
  proof (cases r1)
    case (Inl e)
    with m1 q1 show ?thesis by (simp add: quote_swap_def)
  next
    case (Inr se_ex)
    obtain se ex where se: "se_ex = (se, ex)" by (cases se_ex)
    obtain st1 where o: "open_search env now policy intent st = (st1, Inr se)"
      and f: "find_execution env (se_round se) (se_intent se) False (se_routes se) = Inr ex"
      using m1 unfolding Inr se search_swap_def by (elim bind_stE) (auto simp: bind_st_eq_Inr ret_st_eq_Inr)
    show ?thesis
    proof (cases "assess env policy se ex")
      case (Inl e)
      with m1 q1 Inr se show ?thesis by (simp add: quote_swap_def pure_st_def)
    next
      case as: (Inr aw)
      obtain a warnings where aw: "aw = (a, warnings)" by (cases aw)
      obtain s2 r2 where m2: "(if si_side (se_intent se) = Buy then require_sellable env now policy (se_intent se) (am_net_out a) s1
              else ret_st s1 []) = (s2, r2)" by (metis surj_pair)
      have q2: "same_quotes st s2"
        using q1 m2 require_sellable_quotes [of env now policy "se_intent se" "am_net_out a" s1]
        by (auto simp: ret_st_def split: if_splits)
      show ?thesis
      proof (cases r2)
        case (Inl e)
        with m1 Inr se as aw m2 q2 show ?thesis by (simp add: quote_swap_def pure_st_def)
      next
        case r2: (Inr sellable)
        show ?thesis
        proof (cases "build_quote env qid se ex a (warnings @ sellable) (cs_book s2)")
          case (Inl e)
          with m1 Inr se as aw m2 q2 r2 show ?thesis by (simp add: quote_swap_def pure_st_def)
        next
          case b: (Inr q)
          have "same_quotes (fst (store_quote env later (SwapQuote q) s2)) (fst (quote_swap env now later qid policy intent st))"
            using m1 Inr se as aw m2 r2 b
            by (cases "store_quote env later (SwapQuote q) s2"; cases "snd (store_quote env later (SwapQuote q) s2)")
              (simp_all add: quote_swap_def pure_st_def ret_st_def)
          with q2 b build_quote_Inr [OF b] built_swap_sound [OF o f as [unfolded aw] b assms] show ?thesis by blast
        qed
      qed
    qed
  qed
qed

lemma built_lp_sound:
  assumes "build_lp_quote env now qid intent = Inr q"
  shows "sound_lp (ce_lib env) q \<and> q_id q = qid"
  using assms unfolding build_lp_quote_def Let_def sound_lp_def
  by (elim bindr_InrE) (clarsimp simp: bindr_eq_Inr split: prod.splits, blast)

lemma quote_lp_store:
  "same_quotes st (fst (quote_lp env now later qid intent st)) \<or>
    (\<exists>st3 q. same_quotes st st3 \<and> sound_lp (ce_lib env) q \<and> q_id q = qid \<and>
       same_quotes (fst (store_quote env later (LpQuote q) st3)) (fst (quote_lp env now later qid intent st)))"
proof (cases "build_lp_quote env now qid intent")
  case (Inl e)
  then show ?thesis by (simp add: quote_lp_def pure_st_def)
next
  case (Inr q)
  have "same_quotes (fst (store_quote env later (LpQuote q) st)) (fst (quote_lp env now later qid intent st))"
    using Inr by (cases "store_quote env later (LpQuote q) st"; cases "snd (store_quote env later (LpQuote q) st)")
      (simp_all add: quote_lp_def pure_st_def ret_st_def)
  with built_lp_sound [OF Inr] show ?thesis by blast
qed

lemma quote_request_store:
  assumes "(case policy of None \<Rightarrow> ce_policy env | Some p \<Rightarrow> p) \<in> pols"
  shows "same_quotes st (fst (quote_request env now later qid policy intent st)) \<or>
    (\<exists>st3 q. same_quotes st st3 \<and> sound_quote (ce_lib env) pols q \<and> q_id (base_of q) = qid \<and>
       same_quotes (fst (store_quote env later q st3)) (fst (quote_request env now later qid policy intent st)))"
proof (cases "require_enabled st")
  case (Inl e)
  then show ?thesis by (simp add: quote_request_def pure_st_def)
next
  case (Inr u)
  show ?thesis
  proof (cases intent)
    case (SwapOrder i)
    let ?p = "case policy of None \<Rightarrow> ce_policy env | Some p \<Rightarrow> p"
    have "fst (quote_request env now later qid policy intent st) = fst (quote_swap env now later qid ?p i st)"
      using Inr SwapOrder
      by (cases "quote_swap env now later qid ?p i st"; cases "snd (quote_swap env now later qid ?p i st)")
        (simp_all add: quote_request_def pure_st_def ret_st_def)
    with quote_swap_store [OF assms, where st = st and env = env and now = now and later = later and qid = qid and intent = i] show ?thesis
      unfolding sound_quote_def by (metis base_of_simps(1) quote.simps(5))
  next
    case (LpOrder i)
    have "fst (quote_request env now later qid policy intent st) = fst (quote_lp env now later qid i st)"
      using Inr LpOrder
      by (cases "quote_lp env now later qid i st"; cases "snd (quote_lp env now later qid i st)")
        (simp_all add: quote_request_def pure_st_def ret_st_def)
    with quote_lp_store [where st = st and env = env and now = now and later = later and qid = qid and intent = i] show ?thesis
      unfolding sound_quote_def by (metis base_of_simps(2) quote.simps(6))
  qed
qed

text \<open>\<^verbatim>\<open>prepare\<close> only ever removes the quote it was asked for, when that has expired.\<close>

lemma prepare_store:
  "same_quotes st (fst (prepare env now quote_id wallet sig batched st)) \<or>
   cs_quotes (fst (prepare env now quote_id wallet sig batched st)) = od_del quote_id (cs_quotes st)"
proof -
  define P where "P s \<longleftrightarrow> same_quotes st s \<or> cs_quotes s = od_del quote_id (cs_quotes st)" for s
  have start: "P st" by (simp add: P_def)
  have find: "P (fst (find_quote now quote_id w st))" for w
    by (auto simp: P_def find_quote_def raise_st_def ret_st_def split: option.splits)
  have recheck: "P s \<Longrightarrow> P (fst (recheck_codes env s))" for s
    by (auto simp: P_def recheck_codes_def raise_st_def split: sum.splits)
  have override: "P s \<Longrightarrow> P (fst (gas_override env batch w p s))" for s batch w p
    by (auto simp: P_def gas_override_def raise_st_def ret_st_def Let_def split: list.splits prod.splits)
  have last_part: "P s \<Longrightarrow> P (fst (bind_st (gas_override env batch w p s) (\<lambda>st o1. pure_st (f o1) st)))" for s batch w p f
    by (rule bind_st_invariant [where P = P]) (simp_all add: override)
  have "P (fst (prepare env now quote_id wallet sig batched st))"
    unfolding prepare_def Let_def
    by (intro bind_st_invariant [where P = P]) (auto simp: start find recheck last_part split: prod.split)
  then show ?thesis by (simp add: P_def)
qed


section \<open>Sequences of requests\<close>

text \<open>
  One request to the core. The node, the pools table and the clock may differ from request to
  request; the library and the configured limit stay, and a quote is made under a policy of the
  service.
\<close>

inductive core_step :: "eth_lib \<Rightarrow> int \<Rightarrow> tx_policy set \<Rightarrow> core_state \<Rightarrow> core_state \<Rightarrow> bool"
  for lib n pols where
  quoted: "ce_lib env = lib \<Longrightarrow> ce_max_quotes env = n \<Longrightarrow>
    (case policy of None \<Rightarrow> ce_policy env | Some p \<Rightarrow> p) \<in> pols \<Longrightarrow>
    core_step lib n pols st (fst (quote_request env now later qid policy intent st))"
| prepared: "ce_lib env = lib \<Longrightarrow> ce_max_quotes env = n \<Longrightarrow>
    core_step lib n pols st (fst (prepare env now quote_id wallet sig batched st))"
| closed: "core_step lib n pols st (close_core st)"

inductive_cases core_stepE: "core_step lib n pols st st'"

definition core_inv :: "eth_lib \<Rightarrow> int \<Rightarrow> tx_policy set \<Rightarrow> core_state \<Rightarrow> bool" where
  "core_inv lib n pols st \<longleftrightarrow> store_ok n (cs_quotes st) \<and> (\<forall>(k, q) \<in> set (cs_quotes st). sound_quote lib pols q)"

lemma set_od_set: "set (od_set k v d) \<subseteq> insert (k, v) (set d)"
  by (induction d) (auto split: if_splits)

lemma store_quote_from:
  "set (cs_quotes (fst (store_quote env now q st))) \<subseteq> insert (q_id (base_of q), q) (set (cs_quotes st))"
proof -
  have live: "set (live_quotes now (cs_quotes st)) \<subseteq> set (cs_quotes st)" by (auto simp: live_quotes_def)
  show ?thesis
  proof (cases rule: store_quote_cases [of q now st env])
    case room
    with live set_od_set show ?thesis by fastforce
  next
    case (evict k q1)
    have "set (od_del k (live_quotes now (cs_quotes st))) \<subseteq> set (cs_quotes st)" using live by (auto simp: od_del_def)
    with evict set_od_set show ?thesis by fastforce
  next
    case none
    with live show ?thesis by auto
  qed
qed

lemma core_inv_mono:
  assumes "core_inv lib n pols st" and "store_ok n (cs_quotes s)"
    and "set (cs_quotes s) \<subseteq> insert (k, q) (set (cs_quotes st))" and "sound_quote lib pols q"
  shows "core_inv lib n pols s"
  using assms unfolding core_inv_def by blast

lemma core_inv_step: "core_step lib n pols st st' \<Longrightarrow> core_inv lib n pols st \<Longrightarrow> core_inv lib n pols st'"
proof (erule core_stepE)
  fix env policy now later qid intent
  assume e: "ce_lib env = lib" "ce_max_quotes env = n" "(case policy of None \<Rightarrow> ce_policy env | Some p \<Rightarrow> p) \<in> pols"
    and st': "st' = fst (quote_request env now later qid policy intent st)" and inv: "core_inv lib n pols st"
  from quote_request_store [OF e(3), where st = st and now = now and later = later and qid = qid and intent = intent] show "core_inv lib n pols st'"
  proof
    assume "same_quotes st (fst (quote_request env now later qid policy intent st))"
    with inv st' show ?thesis by (simp add: core_inv_def)
  next
    assume "\<exists>st3 q. same_quotes st st3 \<and> sound_quote (ce_lib env) pols q \<and> q_id (base_of q) = qid \<and>
       same_quotes (fst (store_quote env later q st3)) (fst (quote_request env now later qid policy intent st))"
    then obtain st3 q where s: "same_quotes st st3" "sound_quote lib pols q"
      "same_quotes (fst (store_quote env later q st3)) st'" using e st' by blast
    have "store_ok n (cs_quotes st')"
      using store_quote_ok [of env st3 later q] inv s e by (simp add: core_inv_def)
    moreover have "set (cs_quotes st') \<subseteq> insert (q_id (base_of q), q) (set (cs_quotes st))"
      using store_quote_from [of env later q st3] s by simp
    ultimately show ?thesis using core_inv_mono [OF inv] s(2) by blast
  qed
next
  fix env now quote_id wallet sig batched
  assume "st' = fst (prepare env now quote_id wallet sig batched st)" and inv: "core_inv lib n pols st"
  with prepare_store [where st = st and env = env and now = now and quote_id = quote_id and wallet = wallet and sig = sig and batched = batched]
  have "cs_quotes st' = cs_quotes st \<or> cs_quotes st' = od_del quote_id (cs_quotes st)" by simp
  moreover have "store_ok n (od_del quote_id (cs_quotes st))"
    using inv held_filter [of _ _ "cs_quotes st"] unfolding core_inv_def store_ok_def od_del_def
    by (auto intro: order_trans [OF of_nat_mono])
  ultimately show "core_inv lib n pols st'" using inv by (auto simp: core_inv_def od_del_def)
next
  assume "st' = close_core st"
  then show "core_inv lib n pols st'" by (simp add: core_inv_def close_core_def store_ok_def held_def)
qed

lemma core_reachable_inv:
  assumes "(core_step lib n pols)\<^sup>*\<^sup>* start st" and "cs_quotes start = []"
  shows "core_inv lib n pols st"
  using assms(1)
proof (induction rule: rtranclp_induct)
  case base
  then show ?case by (simp add: core_inv_def assms(2) store_ok_def held_def)
next
  case (step y z)
  then show ?case using core_inv_step by blast
qed

text \<open>
  Whatever is asked of the core, in whatever order, a wallet never has more than eight quotes
  in the store (fewer where the configuration says so), and no identifier stands for two of them.
\<close>

theorem quotes_bounded:
  assumes "(core_step lib n pols)\<^sup>*\<^sup>* start st" and "cs_quotes start = []"
  shows "distinct (map fst (cs_quotes st)) \<and> int (held w (cs_quotes st)) \<le> max 0 (min n 8)"
  using core_reachable_inv [OF assms]
  by (simp add: core_inv_def store_ok_def od_ok_def od_keys_def quote_limit_def MAX_QUOTES_PER_WALLET_def)

lemma quote_request_stored:
  assumes "quote_request env now later qid policy intent st = (st', Inr q)"
  shows "\<exists>st3. same_quotes st st3 \<and> q_id (base_of q) = qid \<and> store_quote env later q st3 = (st', Inr ())"
proof (cases intent)
  case (SwapOrder i)
  let ?p = "case policy of None \<Rightarrow> ce_policy env | Some p \<Rightarrow> p"
  obtain s where s: "quote_swap env now later qid ?p i st = (st', Inr s)" "q = SwapQuote s"
    using assms unfolding SwapOrder quote_request_def
    by (elim bind_pure_stE) (auto simp: bind_st_eq_Inr ret_st_eq_Inr)
  obtain st1 se ex a warnings sellable book st3 where
    o: "open_search env now ?p i st = (st1, Inr se)"
    and b: "build_quote env qid se ex a (warnings @ sellable) book = Inr s"
    and q: "store_quote env later (SwapQuote s) st3 = (st', Inr ())"
    and r: "(if si_side (se_intent se) = Buy then require_sellable env now ?p (se_intent se) (am_net_out a) st1
      else ret_st st1 []) = (st3, Inr sellable)"
    using quote_swap_parts [OF s(1)] by metis
  have "same_quotes st st1" using open_search_quotes [of env now ?p i st] o by simp
  moreover have "same_quotes st1 st3"
    using r require_sellable_quotes [of env now ?p "se_intent se" "am_net_out a" st1]
    by (auto simp: ret_st_eq_Inr split: if_splits)
  ultimately show ?thesis using q s(2) build_quote_Inr [OF b] by (intro exI [of _ st3]) simp
next
  case (LpOrder i)
  obtain l where l: "quote_lp env now later qid i st = (st', Inr l)" "q = LpQuote l"
    using assms unfolding LpOrder quote_request_def
    by (elim bind_pure_stE) (auto simp: bind_st_eq_Inr ret_st_eq_Inr)
  then obtain l1 where "build_lp_quote env now qid i = Inr l1"
    "bind_st (store_quote env later (LpQuote l1) st) (\<lambda>st _. ret_st st l1) = (st', Inr l)"
    unfolding quote_lp_def by (elim bind_pure_stE)
  then have "build_lp_quote env now qid i = Inr l" "store_quote env later (LpQuote l) st = (st', Inr ())"
    by (auto simp: bind_st_eq_Inr ret_st_eq_Inr)
  with built_lp_sound l(2) show ?thesis by (intro exI [of _ st]) simp
qed

text \<open>
  C25. The wallets do not disturb each other: a new quote of one wallet takes away only expired
  quotes and quotes of that wallet, and it is in the store afterwards.
\<close>

theorem quote_isolation:
  assumes "quote_request env now later qid policy intent st = (st', Inr q)"
    and "distinct (map fst (cs_quotes st))" and "(k, q1) \<in> set (cs_quotes st)"
    and "later < q_expires_at (base_of q1)" and "quote_wallet q1 \<noteq> quote_wallet q" and "k \<noteq> qid"
  shows "map_of (cs_quotes st') k = Some q1 \<and> map_of (cs_quotes st') qid = Some q"
proof -
  obtain st3 where s: "cs_quotes st3 = cs_quotes st" "q_id (base_of q) = qid" "store_quote env later q st3 = (st', Inr ())"
    using quote_request_stored [OF assms(1)] by blast
  let ?live = "live_quotes later (cs_quotes st)"
  have live: "od_ok ?live" "map_of ?live k = Some q1"
    using assms(2,3,4) by (simp_all add: od_ok_def od_keys_def live_quotes_def distinct_map_filter)
  have other: "k1 \<noteq> k" if "(k1, q2) \<in> set ?live" "quote_wallet q2 = quote_wallet q" for k1 q2
    using eq_key_imp_eq_value [OF live(1) [unfolded od_ok_def od_keys_def], of k1 q1 q2] map_of_SomeD [OF live(2)] that assms(5)
    by auto
  show ?thesis
  proof (cases rule: store_quote_cases [of q later st3 env])
    case room
    with s live(2) assms(6) show ?thesis by (auto simp: map_of_od_set)
  next
    case (evict k1 q2)
    with s other [of k1 q2] live(2) assms(6) show ?thesis by (auto simp: map_of_od_set map_of_od_del)
  next
    case none
    with s show ?thesis by auto
  qed
qed


section \<open>Preparing\<close>

lemma prepare_parts:
  assumes "prepare env now quote_id wallet sig batched st = (st', Inr pr)"
  obtains q p call sim override where
    "map_of (cs_quotes st) quote_id = Some q" "now < q_expires_at (base_of q)"
    "need_address wallet ''wallet'' = Inr (quote_wallet q)"
    "verify_codes (ce_lib env) (ce_node env) CODE_HASHES = Inr []"
    "prepare_plan env (batch_approval batched q) (quote_wallet q) sig q = Inr (p, call, sim)"
    "assemble env (batch_approval batched q) (quote_wallet q) q p call sim override = Inr pr"
proof -
  obtain w where w: "need_address wallet ''wallet'' = Inr w"
    and r1: "bind_st (find_quote now quote_id w st) (\<lambda>st q.
     bind_st (recheck_codes env st) (\<lambda>st _.
     let batch = batch_approval batched q in
     bind_st (pure_st (prepare_plan env batch w sig q) st) (\<lambda>st (p, call, sim).
     bind_st (gas_override env batch w p st) (\<lambda>st override.
       pure_st (assemble env batch w q p call sim override) st)))) = (st', Inr pr)"
    using assms unfolding prepare_def by (elim bind_pure_stE)
  from r1 obtain s1 q where f: "find_quote now quote_id w st = (s1, Inr q)"
    and r2: "bind_st (recheck_codes env s1) (\<lambda>st _.
     let batch = batch_approval batched q in
     bind_st (pure_st (prepare_plan env batch w sig q) st) (\<lambda>st (p, call, sim).
     bind_st (gas_override env batch w p st) (\<lambda>st override.
       pure_st (assemble env batch w q p call sim override) st))) = (st', Inr pr)"
    by (rule bind_stE)
  have q: "map_of (cs_quotes st) quote_id = Some q" "now < q_expires_at (base_of q)" "w = quote_wallet q"
    using f by (auto simp: find_quote_def raise_st_def ret_st_def quote_wallet_def split: option.splits if_splits)
  let ?b = "batch_approval batched q"
  from r2 obtain s2 u where c: "recheck_codes env s1 = (s2, Inr u)"
    and r3: "(let batch = ?b in bind_st (pure_st (prepare_plan env batch w sig q) s2) (\<lambda>st (p, call, sim).
     bind_st (gas_override env batch w p st) (\<lambda>st override.
       pure_st (assemble env batch w q p call sim override) st))) = (st', Inr pr)"
    by (rule bind_stE)
  have codes: "verify_codes (ce_lib env) (ce_node env) CODE_HASHES = Inr []"
    using c by (auto simp: recheck_codes_def raise_st_def require_enabled_def ensure_def split: sum.splits if_splits)
  from r3 [unfolded Let_def] obtain t where pp: "prepare_plan env ?b w sig q = Inr t"
    and r4: "(case t of (p, call, sim) \<Rightarrow> bind_st (gas_override env ?b w p s2) (\<lambda>st override.
       pure_st (assemble env ?b w q p call sim override) st)) = (st', Inr pr)"
    by (rule bind_pure_stE)
  obtain p call sim where t: "t = (p, call, sim)" by (metis prod.exhaust)
  from r4 obtain s3 override where "assemble env ?b w q p call sim override = Inr pr"
    unfolding t prod.case by (elim bind_stE) auto
  with q w codes pp t show ?thesis using that by blast
qed

lemma prepare_plan_parts:
  assumes "prepare_plan env batch wallet sig q = Inr (p, call, sim)"
  shows "(\<exists>b. read_header (ce_node env) (hex_text (bk_number (q_block (base_of q)))) = Inr b \<and> bk_hash b = bk_hash (q_block (base_of q))) \<and>
    check_funds env wallet q = Inr () \<and>
    (batch \<or> (\<forall>need \<in> set (pl_approvals (q_plan (base_of q))). check_approval env wallet (q_plan (base_of q)) need = Inr ())) \<and>
    final_plan q sig = Inr p \<and>
    (\<exists>data. calldata (ce_lib env) p = Inr data \<and> call = \<lparr>call_to = pl_to p, call_data = data, call_value = pl_value p\<rparr>) \<and>
    run_sim (ce_lib env) (ce_node env) wallet (if batch then pl_staging p else []) call ''latest'' None = Inr sim \<and> sr_ok sim"
proof -
  obtain us where a: "check_block env q = Inr ()" "check_funds env wallet q = Inr ()"
    "(if batch then Inr [] else map_res (check_approval env wallet (q_plan (base_of q))) (pl_approvals (q_plan (base_of q)))) = Inr us"
    and f: "final_plan q sig = Inr p" and c: "plan_call env p = Inr call"
    and r: "run_sim (ce_lib env) (ce_node env) wallet (if batch then pl_staging p else []) call ''latest'' None = Inr sim" "sr_ok sim"
    using assms unfolding prepare_plan_def by (elim bindr_InrE) (auto split: if_splits)
  have "check_approval env wallet (q_plan (base_of q)) need = Inr ()"
    if "\<not> batch" "need \<in> set (pl_approvals (q_plan (base_of q)))" for need
    using a(3) that map_res_image by fastforce
  moreover have "\<exists>b. read_header (ce_node env) (hex_text (bk_number (q_block (base_of q)))) = Inr b \<and> bk_hash b = bk_hash (q_block (base_of q))"
    using a(1) unfolding check_block_def by (elim bindr_InrE) (auto simp: ensure_eq_Inr)
  moreover have "\<exists>data. calldata (ce_lib env) p = Inr data \<and> call = \<lparr>call_to = pl_to p, call_data = data, call_value = pl_value p\<rparr>"
    using c unfolding plan_call_def by (elim bindr_InrE) (auto simp: lift_py_eq_Inr)
  ultimately show ?thesis using a(2) f r by blast
qed

lemma assemble_Inr:
  assumes "assemble env batch wallet q p call sim override = Inr pr"
  shows "pr_gas_used pr = sr_gas_used sim \<and> pr_expires_at pr = q_expires_at (base_of q) \<and>
    ut_from (pr_transaction pr) = wallet \<and> ut_to (pr_transaction pr) = call_to call \<and>
    ut_data (pr_transaction pr) = call_data call \<and> ut_value (pr_transaction pr) = call_value call \<and>
    (\<exists>g. ut_gas (pr_transaction pr) = Some g \<and> sr_gas_used sim * 130 div 100 \<le> g)"
  using assms unfolding assemble_def Let_def
  by (elim bindr_InrE) (auto simp: make_tx_def gas_limit_def GAS_HEADROOM_PCT_def)

lemma prepare_checked_aux:
  assumes "prepare env now quote_id wallet sig batched st = (st', Inr pr)"
  shows "\<exists>q p call sim. map_of (cs_quotes st) quote_id = Some q \<and> now < q_expires_at (base_of q) \<and>
    lower wallet = quote_wallet q \<and> verify_codes (ce_lib env) (ce_node env) CODE_HASHES = Inr [] \<and>
    (\<exists>b. read_header (ce_node env) (hex_text (bk_number (q_block (base_of q)))) = Inr b \<and> bk_hash b = bk_hash (q_block (base_of q))) \<and>
    check_funds env (quote_wallet q) q = Inr () \<and>
    (batch_approval batched q \<or> (\<forall>need \<in> set (pl_approvals (q_plan (base_of q))).
       check_approval env (quote_wallet q) (q_plan (base_of q)) need = Inr ())) \<and>
    final_plan q sig = Inr p \<and> calldata (ce_lib env) p = Inr (call_data call) \<and> call_to call = pl_to p \<and> call_value call = pl_value p \<and>
    run_sim (ce_lib env) (ce_node env) (quote_wallet q) (if batch_approval batched q then pl_staging p else []) call ''latest'' None = Inr sim \<and>
    sr_ok sim \<and> ut_from (pr_transaction pr) = quote_wallet q \<and> ut_to (pr_transaction pr) = call_to call \<and>
    ut_data (pr_transaction pr) = call_data call \<and> ut_value (pr_transaction pr) = call_value call \<and>
    (\<exists>g. ut_gas (pr_transaction pr) = Some g \<and> sr_gas_used sim * 130 div 100 \<le> g) \<and> pr_expires_at pr = q_expires_at (base_of q)"
proof -
  obtain q p call sim override where
    q: "map_of (cs_quotes st) quote_id = Some q" "now < q_expires_at (base_of q)"
    "need_address wallet ''wallet'' = Inr (quote_wallet q)"
    "verify_codes (ce_lib env) (ce_node env) CODE_HASHES = Inr []"
    and pp: "prepare_plan env (batch_approval batched q) (quote_wallet q) sig q = Inr (p, call, sim)"
    and as: "assemble env (batch_approval batched q) (quote_wallet q) q p call sim override = Inr pr"
    using assms by (rule prepare_parts)
  have "lower wallet = quote_wallet q" using q(3) by (auto simp: need_address_def split: if_splits)
  with q prepare_plan_parts [OF pp] assemble_Inr [OF as] show ?thesis
    by (intro exI [of _ q] exI [of _ p] exI [of _ call] exI [of _ sim]) auto
qed

text \<open>
  C24. A transaction is handed out only for a stored quote of this very wallet that has not expired,
  while the pinned contracts are unchanged and the quoted block is still on the chain, after the
  funds of an order and the approvals of the plan were read again; and it is exactly the call that
  was simulated at the latest block and succeeded, with at least 130 per cent of the gas it used.
\<close>

theorem prepare_checked:
  assumes "prepare env now quote_id wallet sig batched st = (st', Inr pr)"
  shows "\<exists>q p call sim. map_of (cs_quotes st) quote_id = Some q \<and> now < q_expires_at (base_of q) \<and>
    lower wallet = quote_wallet q \<and> verify_codes (ce_lib env) (ce_node env) CODE_HASHES = Inr [] \<and>
    (\<exists>b. read_header (ce_node env) (hex_text (bk_number (q_block (base_of q)))) = Inr b \<and> bk_hash b = bk_hash (q_block (base_of q))) \<and>
    check_funds env (quote_wallet q) q = Inr () \<and>
    (batch_approval batched q \<or> (\<forall>need \<in> set (pl_approvals (q_plan (base_of q))).
       check_approval env (quote_wallet q) (q_plan (base_of q)) need = Inr ())) \<and>
    final_plan q sig = Inr p \<and> calldata (ce_lib env) p = Inr (call_data call) \<and> call_to call = pl_to p \<and> call_value call = pl_value p \<and>
    run_sim (ce_lib env) (ce_node env) (quote_wallet q) (if batch_approval batched q then pl_staging p else []) call ''latest'' None = Inr sim \<and>
    sr_ok sim \<and> ut_from (pr_transaction pr) = quote_wallet q \<and> ut_to (pr_transaction pr) = call_to call \<and>
    ut_data (pr_transaction pr) = call_data call \<and> ut_value (pr_transaction pr) = call_value call \<and>
    (\<exists>g. ut_gas (pr_transaction pr) = Some g \<and> sr_gas_used sim * 130 div 100 \<le> g) \<and> pr_expires_at pr = q_expires_at (base_of q)"
  using assms by (rule prepare_checked_aux)

section \<open>From the quote to the signature\<close>

lemma unbound_keeps:
  "pays (unbound c) = pays c" "pulled (unbound c) = pulled c" "is_portion (unbound c) = is_portion c"
  "draws (unbound c) = draws c"
proof -
  have v4: "concat (map (\<lambda>p. case p of V4Take c r a \<Rightarrow> [r] | _ \<Rightarrow> []) (map (\<lambda>p. case p of V4SwapExactInSingle k z a m \<Rightarrow> V4SwapExactInSingle k z a 0 | _ \<Rightarrow> p) ps))
      = concat (map (\<lambda>p. case p of V4Take c r a \<Rightarrow> [r] | _ \<Rightarrow> []) ps)" for ps
    by (induction ps) (auto split: v4_param.splits)
  have v4_draws: "list_ex (\<lambda>p. case p of V4Settle c a payer_is_user \<Rightarrow> payer_is_user | _ \<Rightarrow> False) (map (\<lambda>p. case p of V4SwapExactInSingle k z a m \<Rightarrow> V4SwapExactInSingle k z a 0 | _ \<Rightarrow> p) ps)
      = list_ex (\<lambda>p. case p of V4Settle c a payer_is_user \<Rightarrow> payer_is_user | _ \<Rightarrow> False) ps" for ps
    by (induction ps) (auto split: v4_param.splits)
  show "pays (unbound c) = pays c" by (cases c) (simp_all add: unbound_def v4 del: map_map)
  show "draws (unbound c) = draws c" by (cases c) (simp_all add: unbound_def v4_draws del: map_map)
  show "pulled (unbound c) = pulled c" "is_portion (unbound c) = is_portion c" by (cases c; simp add: unbound_def)+
qed

lemma unbound_portion: "is_portion c \<Longrightarrow> unbound c = c"
  by (cases c) (simp_all add: unbound_def)

lemma length_filter_as_map: "length (filter P xs) = length (filter id (map P xs))"
  by (induction xs) auto

lemma custodial_unbound:
  assumes eq: "map unbound cs' = map unbound cs" and c: "custodial policy pull cs slot"
  shows "custodial policy pull cs' slot"
proof -
  have len: "length cs' = length cs" using eq by (rule map_eq_imp_length_eq)
  have nth: "unbound (cs' ! k) = unbound (cs ! k)" if "k < length cs" for k
    using eq that len by (metis nth_map)
  have keep: "pays (cs' ! k) = pays (cs ! k)" "pulled (cs' ! k) = pulled (cs ! k)" "is_portion (cs' ! k) = is_portion (cs ! k)"
    "draws (cs' ! k) = draws (cs ! k)" if "k < length cs" for k using nth [OF that] unbound_keeps by metis+
  have ne: "cs \<noteq> []" "cs' \<noteq> []" using c len by (auto simp: custodial_def)
  have lasts: "last cs = cs ! (length cs - 1)" "last cs' = cs' ! (length cs - 1)"
    using ne len by (simp_all add: last_conv_nth)
  have l: "pays (last cs') = pays (last cs)" "(command_min (last cs') = None) = (command_min (last cs) = None)"
    unfolding lasts using keep [of "length cs - 1"] nth [of "length cs - 1"] ne command_min_unbound
    by (simp_all, metis)
  have "map pulled cs' = map pulled cs" using keep len by (simp add: list_eq_iff_nth_eq)
  moreover have "list_all (\<lambda>c. \<not> draws c) cs' = list_all (\<lambda>c. \<not> draws c) cs"
    using keep(4) len by (auto simp: list_all_length)
  moreover have "map is_portion cs' = map is_portion cs" using keep len by (simp add: list_eq_iff_nth_eq)
  then have "length (filter is_portion cs') = length (filter is_portion cs)"
    using length_filter_as_map [of is_portion cs] length_filter_as_map [of is_portion cs'] by simp
  moreover have "list_all bounded cs' = list_all bounded cs" using eq by (rule bounded_unbound)
  moreover have "(if is_portion x then pays x = [fee_recipient policy] \<and> (\<exists>t. x = PayPortion t (fee_recipient policy) (fee_bps policy))
      else set (pays x) \<subseteq> {ADDRESS_THIS})" if x: "x \<in> set (butlast cs')" for x
  proof -
    obtain k where k: "k < length cs - 1" "x = cs' ! k"
      using x len by (auto simp: in_set_conv_nth nth_butlast)
    have y: "cs ! k \<in> set (butlast cs)" using k by (auto simp: in_set_conv_nth nth_butlast intro!: exI [of _ k])
    have kk: "k < length cs" using k by simp
    have "is_portion (cs ! k) \<Longrightarrow> x = cs ! k"
      using nth [OF kk] keep(3) [OF kk] unbound_portion k(2) by metis
    then show ?thesis using c y keep [OF kk] k(2) by (auto simp: custodial_def)
  qed
  ultimately show ?thesis using c l ne len unfolding custodial_def by simp
qed


lemma bound_legs_keeps:
  "bound_legs m t idx count assigned legs cs = Inr cs' \<Longrightarrow>
   length cs' = length cs \<and> map unbound cs' = map unbound cs \<and> (\<forall>j. j \<notin> set idx \<longrightarrow> cs' ! j = cs ! j)"
proof (induction legs arbitrary: count assigned cs)
  case (Cons leg legs)
  define i where "i = idx ! (count + length (sl_route leg) - 1)"
  from Cons.prems obtain cs1 where e: "count + length (sl_route leg) - 1 < length idx"
    and step: "set_min_out cs i (leg_bound m t assigned (legs = []) leg) = Inr cs1"
    and rest: "bound_legs m t idx (count + length (sl_route leg)) (assigned + leg_bound m t assigned (legs = []) leg) legs cs1 = Inr cs'"
    by (auto simp: Let_def bindr_eq_Inr lift_py_eq_Inr item_def i_def split: if_splits)
  have i: "i \<in> set idx" unfolding i_def using e by (rule nth_mem)
  from set_min_out_Inr [OF step] Cons.IH [OF rest] i show ?case by metis
qed simp

text \<open>Finalising keeps custody and puts the minimum on the command that pays the wallet.\<close>

lemma finalize_pays:
  assumes body: "pl_body p = SwapBody commands slot shape recorded" and cust: "custodial policy pull commands slot"
    and swap: "\<And>legs. recorded = Some legs \<Longrightarrow> \<not> is_swap (last commands)" and fin: "finalize_swap p m sig = Inr p'"
  shows "\<exists>commands'. pl_body p' = SwapBody commands' slot shape recorded \<and> custodial policy pull commands' slot \<and>
    command_min (last commands') = Some m \<and> pl_to p' = pl_to p \<and> pl_value p' = pl_value p"
proof -
  have slot: "slot = length commands - 1" "commands \<noteq> []" "command_min (last commands) \<noteq> None"
    using cust by (auto simp: custodial_def)
  obtain cs1 where s1: "set_min_out commands slot m = Inr cs1" and
    rest: "bindr (case recorded of
               Some legs \<Rightarrow>
                 (let order_total = sum_list (map sl_amount_out legs) in
                  if length legs > 1 \<and> order_total \<noteq> 0
                  then bound_legs m order_total (swap_indices cs1) 0 0 legs cs1
                  else Inr cs1)
             | None \<Rightarrow> Inr cs1) (\<lambda>commands2.
             Inr (p\<lparr>pl_body := SwapBody commands2 slot shape recorded, pl_signature := sig\<rparr>)) = Inr p'"
    using fin body by (auto simp: finalize_swap_def elim!: bindr_InrE split: if_splits)
  note k1 = set_min_out_Inr [OF s1]
  have min1: "command_min (cs1 ! slot) = Some m" using k1 slot by (simp add: last_conv_nth)
  obtain cs2 where p': "p' = p\<lparr>pl_body := SwapBody cs2 slot shape recorded, pl_signature := sig\<rparr>"
    and c2: "cs2 = cs1 \<or> (\<exists>legs order_total. recorded = Some legs \<and> bound_legs m order_total (swap_indices cs1) 0 0 legs cs1 = Inr cs2)"
    using rest by (elim bindr_InrE) (auto simp: Let_def split: option.splits if_splits)
  have eq1: "map unbound cs1 = map unbound commands" using k1 by blast
  have "map unbound cs2 = map unbound commands \<and> command_min (last cs2) = Some m"
    using c2
  proof
    assume "cs2 = cs1"
    then show ?thesis using k1 min1 slot by (metis last_conv_nth length_0_conv)
  next
    assume "\<exists>legs order_total. recorded = Some legs \<and> bound_legs m order_total (swap_indices cs1) 0 0 legs cs1 = Inr cs2"
    then obtain legs order_total where l: "recorded = Some legs" "bound_legs m order_total (swap_indices cs1) 0 0 legs cs1 = Inr cs2" by blast
    have "slot \<notin> set (swap_indices cs1)"
      unfolding swap_indices_unbound [OF eq1] using swap [OF l(1)] slot by (simp add: swap_indices_def last_conv_nth)
    with bound_legs_keeps [OF l(2)] k1 min1 slot show ?thesis by (metis last_conv_nth length_0_conv)
  qed
  with custodial_unbound [OF _ cust] p' show ?thesis by (intro exI [of _ cs2]) simp
qed

text \<open>
  C23. From the order to the signature: after any sequence of requests, the transaction handed out
  for a quote of the Universal Router encodes commands that pull the order's input once into the router, in its own token (or take it as the value sent),
  never swap from the wallet's own balance, pay one fee
  to a recipient and at a rate the service has configured, keep everything else in the router and
  pay the wallet by the last command only, which fails below the quoted minimum, the simulated
  output less the slippage of the order.
\<close>

theorem prepared_swap_custody:
  assumes "(core_step lib n pols)\<^sup>*\<^sup>* start st" and "cs_quotes start = []" and "ce_lib env = lib"
    and "prepare env now quote_id wallet sig batched st = (st', Inr pr)"
    and "map_of (cs_quotes st) quote_id = Some (SwapQuote s)"
    and "pl_body (q_plan s) = SwapBody commands0 slot0 shape0 recorded0"
  shows "\<exists>policy \<in> pols. \<exists>p commands slot shape recorded. calldata lib p = Inr (ut_data (pr_transaction pr)) \<and>
    pl_body p = SwapBody commands slot shape recorded \<and>
    custodial policy (order_pull (sq_intent s)) commands slot \<and>
    command_min (last commands) =
      Some (am_net_out (sq_amounts s) * (10000 - si_slippage_bps (sq_intent s)) div 10000) \<and>
    ut_to (pr_transaction pr) = UR \<and> ut_from (pr_transaction pr) = si_wallet (sq_intent s) \<and>
    ut_value (pr_transaction pr) = (if intent_in (sq_intent s) = NATIVE then si_amount_in (sq_intent s) else 0)"
proof -
  have "sound_swap lib pols s"
    using core_reachable_inv [OF assms(1,2)] map_of_SomeD [OF assms(5)] by (auto simp: core_inv_def sound_quote_def)
  then obtain policy split p0 deadline nonce where pol: "policy \<in> pols"
    and plan: "plan_split lib (sq_intent s) split policy deadline nonce = Inr p0"
    and qp: "q_plan s = (if length split = 1 then p0 else with_split p0 (sq_split s))"
    and m: "am_min_out (sq_amounts s) = am_net_out (sq_amounts s) * (10000 - si_slippage_bps (sq_intent s)) div 10000"
    and w: "q_wallet s = si_wallet (sq_intent s)" unfolding sound_swap_def by blast
  obtain q p and call :: tx_call where q: "map_of (cs_quotes st) quote_id = Some q"
    and pq: "final_plan q sig = Inr p" "calldata (ce_lib env) p = Inr (call_data call)" "call_to call = pl_to p"
      "call_value call = pl_value p" "ut_from (pr_transaction pr) = quote_wallet q" "ut_to (pr_transaction pr) = call_to call"
      "ut_data (pr_transaction pr) = call_data call" "ut_value (pr_transaction pr) = call_value call"
    using prepare_checked_aux [OF assms(4)] by blast
  have "q = SwapQuote s" using q assms(5) by simp
  note pr = pq [unfolded this assms(3)]
  obtain commands slot shape recorded where body: "pl_body p0 = SwapBody commands slot shape recorded"
    using assms(6) qp by (cases "pl_body p0") (auto simp: with_split_def split: if_splits)
  have good: "custodial policy (order_pull (sq_intent s)) commands slot \<and>
    (pl_value p0 = (if intent_in (sq_intent s) = NATIVE then si_amount_in (sq_intent s) else 0)) \<and> pl_to p0 = UR"
    by (rule swap_plan_custody_aux [OF plan body])
  obtain rec' where qb: "pl_body (q_plan s) = SwapBody commands slot shape rec'" "pl_value (q_plan s) = pl_value p0" "pl_to (q_plan s) = pl_to p0"
    and rec: "rec' \<noteq> None \<Longrightarrow> length split \<noteq> 1"
    using qp body plan_split_custodial(2) [OF plan body] by (auto simp: with_split_def split: if_splits)
  have not_swap: "\<not> is_swap (last commands)" if "rec' = Some legs" for legs
    using plan_split_swaps [OF plan _ body] rec that by simp
  have "finalize_swap (q_plan s) (am_min_out (sq_amounts s)) sig = Inr p" using pr(1) by (simp add: final_plan_def)
  from finalize_pays [OF qb(1) conjunct1 [OF good] not_swap this] obtain commands' where
    c: "pl_body p = SwapBody commands' slot shape rec'" "custodial policy (order_pull (sq_intent s)) commands' slot"
      "command_min (last commands') = Some (am_min_out (sq_amounts s))" "pl_to p = UR" "pl_value p = pl_value p0"
    using good qb by auto
  show ?thesis
    using c good pr m w by (intro bexI [OF _ pol] exI [of _ p] exI [of _ commands'] exI [of _ slot] exI [of _ shape] exI [of _ rec'])
      (simp add: quote_wallet_def)
qed


section \<open>At the concrete order\<close>

lemma sell_request:
  assumes "cs_book st = empty_book" and "cs_mismatches st = []"
  shows "quote_request sell_env 1000 1001 sell_id None (SwapOrder sell_intent) st =
    (fst (store_quote sell_env 1001 (SwapQuote sell_quote) st),
     case snd (store_quote sell_env 1001 (SwapQuote sell_quote) st) of Inl e \<Rightarrow> Inl e | Inr u \<Rightarrow> Inr (SwapQuote sell_quote))"
proof -
  have "ce_policy sell_env = sample_policy" by (simp add: sell_env_def)
  then show ?thesis
    using assms sell_quoted_in [OF assms(1)]
    by (simp add: quote_request_def require_enabled_def ensure_def pure_st_def bind_st_def ret_st_def split: sum.split)
qed

lemma sell_step: "core_step pin_lib 512 {sample_policy} sell_start sell_stored"
proof -
  have "fst (quote_request sell_env 1000 1001 sell_id None (SwapOrder sell_intent) sell_start) = sell_stored"
    using sell_request [of sell_start] by (simp add: sell_store) (simp add: sell_start_def)
  moreover have "ce_lib sell_env = pin_lib" "ce_max_quotes sell_env = 512"
    "(case None of None \<Rightarrow> ce_policy sell_env | Some p \<Rightarrow> p) \<in> {sample_policy}" by (simp_all add: sell_env_def)
  ultimately show ?thesis using core_step.quoted [of sell_env pin_lib 512 None] by metis
qed

lemma sell_reached: "(core_step pin_lib 512 {sample_policy})\<^sup>*\<^sup>* sell_start sell_stored" "cs_quotes sell_start = []"
  using sell_step by (auto simp: sell_start_def)

theorem quotes_bounded_witness: "int (held seller (cs_quotes sell_stored)) \<le> 8"
  using quotes_bounded [OF sell_reached, of seller] by simp

definition sell_other :: swap_quote where
  "sell_other = sell_quote\<lparr>q_id := ''a'', q_wallet := ''0xee''\<rparr>"

theorem quote_isolation_witness:
  "\<exists>st' :: core_state. map_of (cs_quotes st') ''a'' = Some (SwapQuote sell_other) \<and> map_of (cs_quotes st') sell_id = Some (SwapQuote sell_quote)"
proof -
  let ?st = "sell_start\<lparr>cs_quotes := [(''a'', SwapQuote sell_other)]\<rparr>"
  have other: "seller \<noteq> ''0xee''" "''a'' \<noteq> sell_id" by code_simp+
  have stored: "store_quote sell_env 1001 (SwapQuote sell_quote) ?st =
      (?st\<lparr>cs_quotes := [(''a'', SwapQuote sell_other), (sell_id, SwapQuote sell_quote)]\<rparr>, Inr ())"
    using other by (simp add: store_quote_def sell_env_def MAX_QUOTES_PER_WALLET_def ret_st_def sell_other_def) (simp add: sell_quote_def)
  have req: "quote_request sell_env 1000 1001 sell_id None (SwapOrder sell_intent) ?st =
      (?st\<lparr>cs_quotes := [(''a'', SwapQuote sell_other), (sell_id, SwapQuote sell_quote)]\<rparr>, Inr (SwapQuote sell_quote))"
    using sell_request [of ?st] by (simp add: stored) (simp add: sell_start_def)
  show ?thesis
  proof (intro exI, rule quote_isolation [OF req])
    show "quote_wallet (SwapQuote sell_other) \<noteq> quote_wallet (SwapQuote sell_quote)"
      using other by (simp add: quote_wallet_def sell_other_def sell_quote_def)
    show "1001 < q_expires_at (base_of (SwapQuote sell_other))" by (simp add: sell_other_def sell_quote_def)
    show "''a'' \<noteq> sell_id" by (rule other)
  qed simp_all
qed

theorem prepare_checked_witness:
  "\<exists>q p sim. map_of (cs_quotes sell_stored) sell_id = Some q \<and> lower seller = quote_wallet q \<and>
     final_plan q (Some []) = Inr p \<and> calldata (ce_lib sell_env) p = Inr (ut_data (pr_transaction sell_prepared)) \<and>
     sr_ok (sim :: sim_result)"
  using prepare_checked [OF sell_prepared_at [of "[]"]] by (metis (no_types, lifting))

theorem prepared_swap_custody_witness:
  "\<exists>policy \<in> {sample_policy}. \<exists>p commands slot shape recorded.
    calldata pin_lib p = Inr (ut_data (pr_transaction sell_prepared)) \<and>
    pl_body p = SwapBody commands slot shape recorded \<and>
    custodial policy (order_pull (sq_intent sell_quote)) commands slot \<and>
    command_min (last commands) =
      Some (am_net_out (sq_amounts sell_quote) * (10000 - si_slippage_bps (sq_intent sell_quote)) div 10000) \<and>
    ut_to (pr_transaction sell_prepared) = UR \<and> ut_from (pr_transaction sell_prepared) = si_wallet (sq_intent sell_quote) \<and>
    ut_value (pr_transaction sell_prepared) =
      (if intent_in (sq_intent sell_quote) = NATIVE then si_amount_in (sq_intent sell_quote) else 0)"
proof -
  have "ce_lib sell_env = pin_lib" by (simp add: sell_env_def)
  moreover have "map_of (cs_quotes sell_stored) sell_id = Some (SwapQuote sell_quote)" by (simp add: sell_stored_def)
  moreover have "pl_body (q_plan sell_quote) = SwapBody (sell_commands 1000 0) 3 (sell_shape 1000) None"
    by (simp add: sell_quote_def sell_plan_def)
  ultimately show ?thesis by (rule prepared_swap_custody [OF sell_reached _ sell_prepared_at [of "[]"]])
qed

end
