(* ===== verification/Bounded_Store.thy ===== *)
theory Bounded_Store
  imports Prelude
begin

text \<open>
  The stores with a bound that the services keep in an \<^verbatim>\<open>OrderedDict\<close>: a step puts a value
  under a key and drops the oldest keys beyond the bound. The locale states what a component
  relies on: the keys stay distinct, the bound holds, the new value is there, and nothing else
  appears or changes. Its lemmas hold for any sequence of steps.
\<close>

locale bounded_store =
  fixes put :: "'k \<Rightarrow> 'v \<Rightarrow> ('k, 'v) odict \<Rightarrow> ('k, 'v) odict" and cap :: nat
  assumes put_ok: "od_ok d \<Longrightarrow> od_ok (put k v d)"
    and put_bound: "od_ok d \<Longrightarrow> length d \<le> cap \<Longrightarrow> length (put k v d) \<le> cap"
    and put_same: "od_ok d \<Longrightarrow> 0 < cap \<Longrightarrow> map_of (put k v d) k = Some v"
    and put_other: "od_ok d \<Longrightarrow> k' \<noteq> k \<Longrightarrow> map_of (put k v d) k' = Some w \<Longrightarrow> map_of d k' = Some w"
    and put_keeps: "od_ok d \<Longrightarrow> map_of d k' = Some w \<Longrightarrow> k' \<noteq> k \<Longrightarrow>
      card (insert k (set (od_keys d))) \<le> cap \<Longrightarrow> map_of (put k v d) k' = Some w"
begin

definition puts :: "('k \<times> 'v) list \<Rightarrow> ('k, 'v) odict \<Rightarrow> ('k, 'v) odict" where
  "puts kvs d = fold (\<lambda>(k, v). put k v) kvs d"

lemma puts_simps [simp]: "puts [] d = d" "puts ((k, v) # kvs) d = puts kvs (put k v d)"
  "puts (kvs @ [(k, v)]) d = put k v (puts kvs d)"
  by (simp_all add: puts_def)

lemma puts_ok: "od_ok d \<Longrightarrow> od_ok (puts kvs d)"
  by (induction kvs arbitrary: d) (auto simp: put_ok)

lemma puts_bound: "od_ok d \<Longrightarrow> length d \<le> cap \<Longrightarrow> length (puts kvs d) \<le> cap"
  by (induction kvs arbitrary: d) (auto simp: put_ok put_bound)

text \<open>A value found under a key is the last one put there.\<close>

lemma puts_last:
  "map_of (puts kvs []) k = Some v \<Longrightarrow> 0 < cap \<Longrightarrow> map_of (rev kvs) k = Some v"
proof (induction kvs rule: rev_induct)
  case Nil
  then show ?case by simp
next
  case (snoc kv kvs)
  obtain k1 v1 where kv: "kv = (k1, v1)" by (cases kv)
  have ok: "od_ok (puts kvs [])" by (rule puts_ok) simp
  show ?case
  proof (cases "k1 = k")
    case True
    with snoc.prems kv put_same [OF ok] show ?thesis by simp
  next
    case False
    with snoc.prems(1) kv put_other [OF ok, of k k1 v1 v] have "map_of (puts kvs []) k = Some v" by simp
    with snoc False kv show ?thesis by simp
  qed
qed

end

section \<open>The two ways of the services\<close>

text \<open>
  \<open>put_trim\<close>: assign, then drop the oldest insertions. \<open>put_lru\<close>: assign, move the key to the
  end, then drop the least recently used.
\<close>

definition put_trim :: "nat \<Rightarrow> 'k \<Rightarrow> 'v \<Rightarrow> ('k, 'v) odict \<Rightarrow> ('k, 'v) odict" where
  "put_trim n k v d = od_trim n (od_del k d @ [(k, v)])"

definition put_lru :: "nat \<Rightarrow> 'k \<Rightarrow> 'v \<Rightarrow> ('k, 'v) odict \<Rightarrow> ('k, 'v) odict" where
  "put_lru n k v d = od_trim n (od_move_to_end k (od_set k v d))"

lemma od_set_split:
  "od_ok d \<Longrightarrow> od_move_to_end k (od_set k v d) = od_del k d @ [(k, v)]"
proof -
  assume ok: "od_ok d"
  have "od_del k (od_set k v d) = od_del k d"
    by (induction d) (auto simp: od_del_def)
  then show ?thesis
    using filter_fst_eq_map_of [OF od_ok_set [OF ok], of k k v]
    by (simp add: od_move_to_end_def dict_simps)
qed

lemma put_lru_eq: "od_ok d \<Longrightarrow> put_lru n k v d = put_trim n k v d"
  by (simp add: put_lru_def put_trim_def od_set_split)

lemma od_ok_snoc: "od_ok d \<Longrightarrow> od_ok (od_del k d @ [(k, v)])"
  by (auto simp: od_ok_def od_keys_def od_del_def distinct_map_filter)

lemma map_of_snoc: "od_ok d \<Longrightarrow> map_of (od_del k d @ [(k, v)]) = (map_of d)(k \<mapsto> v)"
  by (auto simp: map_add_def dict_simps fun_eq_iff split: option.splits)

lemma length_snoc: "od_ok d \<Longrightarrow> length (od_del k d @ [(k, v)]) = card (insert k (set (od_keys d)))"
proof -
  assume ok: "od_ok d"
  have "length (od_del k d @ [(k, v)]) = card (set (od_keys (od_del k d @ [(k, v)])))"
    using distinct_card [of "od_keys (od_del k d @ [(k, v)])"] od_ok_snoc [OF ok, of k v]
    by (simp add: od_ok_def od_keys_def)
  also have "set (od_keys (od_del k d @ [(k, v)])) = insert k (set (od_keys d))"
    by (auto simp: od_keys_def od_del_def)
  finally show ?thesis .
qed

interpretation trim: bounded_store "put_trim n" n for n
proof (unfold_locales)
  fix d :: "('k, 'v) odict" and k k' :: 'k and v w :: 'v
  assume ok: "od_ok d"
  note ok' = od_ok_snoc [OF ok, of k v]
  show "od_ok (put_trim n k v d)" using ok' by (simp add: put_trim_def)
  show "length (put_trim n k v d) \<le> n" if "length d \<le> n" by (simp add: put_trim_def)
  show "map_of (put_trim n k v d) k = Some v" if n: "0 < n"
  proof -
    have "(k, v) \<in> set (put_trim n k v d)"
      using n by (cases n) (auto simp: put_trim_def od_trim_def)
    moreover have "od_ok (put_trim n k v d)" using ok' by (simp add: put_trim_def)
    ultimately show ?thesis by (simp add: od_ok_def od_keys_def)
  qed
  show "map_of d k' = Some w" if "k' \<noteq> k" "map_of (put_trim n k v d) k' = Some w"
    using map_of_od_trim_mono [OF ok', of n k' w] that unfolding put_trim_def map_of_snoc [OF ok] by simp
  show "map_of (put_trim n k v d) k' = Some w"
    if "map_of d k' = Some w" "k' \<noteq> k" "card (insert k (set (od_keys d))) \<le> n"
  proof -
    have "put_trim n k v d = od_del k d @ [(k, v)]"
      using that(3) length_snoc [OF ok, of k v] unfolding put_trim_def by (metis od_trim_small)
    with that map_of_snoc [OF ok, of k v] show ?thesis by (metis fun_upd_other)
  qed
qed

text \<open>A store whose step agrees with \<open>put_trim\<close> on dictionaries keeps the contract.\<close>

lemma bounded_store_like:
  assumes "\<And>k v d. od_ok d \<Longrightarrow> put k v d = put_trim n k v d"
  shows "bounded_store put n"
  by (unfold_locales)
    (simp_all add: assms trim.put_ok trim.put_bound trim.put_same trim.put_keeps, (metis assms trim.put_other)?)

end
