(* ===== verification/Gate_Policy.thy ===== *)
theory Gate_Policy
  imports Complex_Main Json_Text Tx_Chain
begin

text \<open>
  \<^verbatim>\<open>src/rhpools/lp_gate.py\<close>, first part: the owner's policy, its parsing and its public form, the
  document that is signed, and entitlement. Times are seconds as real numbers, without the
  rounding of floats. \<^verbatim>\<open>to_checksum_address\<close> is third-party code: the argument \<open>checksum\<close> maps
  a JSON value to its checksummed address, or to nothing where it raises.
\<close>

section \<open>Policies\<close>

datatype feature = Trade | Lp | Api | Flags

definition FEATURES :: "feature list" where "FEATURES = [Trade, Lp, Api, Flags]"

fun feature_name :: "feature \<Rightarrow> string" where
  "feature_name Trade = ''trade''"
| "feature_name Lp = ''lp''"
| "feature_name Api = ''api''"
| "feature_name Flags = ''flags''"

lemma set_FEATURES [simp]: "set FEATURES = UNIV"
proof -
  have "f \<in> set FEATURES" for f by (cases f) (simp_all add: FEATURES_def)
  then show ?thesis by blast
qed

lemma distinct_FEATURES [simp]: "distinct FEATURES"
  by (simp add: FEATURES_def)

definition POLICY_SKEW_S :: real where "POLICY_SKEW_S = 600"
definition ORACLE_TTL_S :: real where "ORACLE_TTL_S = 30"
definition QUALIFIED_WRITE_STEP_S :: real where "QUALIFIED_WRITE_STEP_S = 5"
definition ZERO_ADDRESS :: address where "ZERO_ADDRESS = ''0x0000000000000000000000000000000000000000''"

record fee_tier =
  min_supply_bps :: int
  tier_fee_bps :: int

definition tier_public :: "fee_tier \<Rightarrow> json" where
  "tier_public t = JObj [(''min_supply_bps'', JInt (min_supply_bps t)), (''fee_bps'', JInt (tier_fee_bps t))]"

definition DEFAULT_FEE_TIERS :: "fee_tier list" where
  "DEFAULT_FEE_TIERS =
    [\<lparr>min_supply_bps = 10, tier_fee_bps = 75\<rparr>, \<lparr>min_supply_bps = 50, tier_fee_bps = 50\<rparr>]"

record gate_policy =
  gp_version :: int
  gp_token :: "address option"
  gp_decimals :: int
  gp_threshold :: "feature \<Rightarrow> int"
  gp_grace_s :: int
  gp_issued_at :: int
  gp_base_fee_bps :: int
  gp_fee_tiers :: "fee_tier list"

definition uint_field :: "json \<Rightarrow> nat \<Rightarrow> string \<Rightarrow> py_error + int" where
  "uint_field value bits name =
     bindr (case value of
         JInt n \<Rightarrow> Inr n
       | JStr s \<Rightarrow> int_of_text s
       | _ \<Rightarrow> Inl (ValueError (name @ '' must be an integer''))) (\<lambda>number.
       if 0 \<le> number \<and> number < 2 ^ bits then Inr number else Inl (ValueError (name @ '' out of range'')))"

text \<open>\<open>jget d k v\<close> is \<^verbatim>\<open>obj.get(k, v)\<close>.\<close>

definition jget :: "json \<Rightarrow> string \<Rightarrow> (string \<times> json) list \<Rightarrow> json" where
  "jget d k obj = (case map_of obj k of None \<Rightarrow> d | Some v \<Rightarrow> v)"

definition POLICY_FIELDS :: "string list" where
  "POLICY_FIELDS = [''version'', ''token'', ''decimals'', ''threshold'', ''grace_s'', ''issued_at'', ''base_fee_bps'', ''fee_tiers'']"

definition parse_token :: "(json \<Rightarrow> address option) \<Rightarrow> json \<Rightarrow> py_error + address option" where
  "parse_token checksum v =
    (if v = JNull then Inr None
     else case checksum v of
       None \<Rightarrow> Inl (ValueError ''token must be an address'')
     | Some a \<Rightarrow> Inr (if a = ZERO_ADDRESS then None else Some a))"

definition parse_threshold_fields :: "json \<Rightarrow> py_error + (string \<times> json) list" where
  "parse_threshold_fields v =
    (case v of
       JObj entry_fields \<Rightarrow>
         if set (map fst entry_fields) = set (map feature_name FEATURES) then Inr entry_fields
         else Inl (ValueError ''threshold must name exactly trade, lp, api, flags'')
     | _ \<Rightarrow> Inl (ValueError ''threshold must name exactly trade, lp, api, flags''))"

text \<open>The loop over the fee tiers: supplies increase, fees strictly decrease.\<close>

definition parse_tier :: "json \<Rightarrow> int \<Rightarrow> int \<Rightarrow> py_error + fee_tier" where
  "parse_tier entry previous_supply previous_fee =
    (case entry of
       JObj entry_fields \<Rightarrow>
         if set (map fst entry_fields) \<noteq> {''min_supply_bps'', ''fee_bps''}
         then Inl (ValueError ''fee tier must name min_supply_bps and fee_bps'')
         else bindr (uint_field (jget JNull ''min_supply_bps'' entry_fields) 16 ''min_supply_bps'') (\<lambda>supply.
              bindr (uint_field (jget JNull ''fee_bps'' entry_fields) 16 ''fee_bps'') (\<lambda>fee.
                if supply > 10000 \<or> fee > 100 \<or> supply \<le> previous_supply \<or> fee \<ge> previous_fee
                then Inl (ValueError ''fee tiers require increasing supply and strictly decreasing fees within 0..100 bps'')
                else Inr \<lparr>min_supply_bps = supply, tier_fee_bps = fee\<rparr>))
     | _ \<Rightarrow> Inl (ValueError ''fee tier must name min_supply_bps and fee_bps''))"

fun parse_tiers :: "json list \<Rightarrow> int \<Rightarrow> int \<Rightarrow> py_error + fee_tier list" where
  "parse_tiers [] previous_supply previous_fee = Inr []"
| "parse_tiers (entry # entries) previous_supply previous_fee =
     bindr (parse_tier entry previous_supply previous_fee) (\<lambda>t.
     bindr (parse_tiers entries (min_supply_bps t) (tier_fee_bps t)) (\<lambda>tiers. Inr (t # tiers)))"

definition tier_entries :: "json \<Rightarrow> py_error + json list" where
  "tier_entries v =
    (case v of
       JArr es \<Rightarrow> if length es > 4 then Inl (ValueError ''fee_tiers must be a list of at most four tiers'') else Inr es
     | _ \<Rightarrow> Inl (ValueError ''fee_tiers must be a list of at most four tiers''))"

definition parse_thresholds :: "(string \<times> json) list \<Rightarrow> py_error + (feature \<Rightarrow> int)" where
  "parse_thresholds entry_fields =
     bindr (map_res (\<lambda>f. bindr (uint_field (jget JNull (feature_name f) entry_fields) 256 (feature_name f))
       (\<lambda>n. Inr (f, n))) FEATURES) (\<lambda>entries.
       Inr (\<lambda>f. case map_of entries f of None \<Rightarrow> 0 | Some n \<Rightarrow> n))"

definition parse_policy :: "(json \<Rightarrow> address option) \<Rightarrow> json \<Rightarrow> py_error + gate_policy" where
  "parse_policy checksum obj =
    (case obj of
       JObj entry_fields \<Rightarrow>
         (let unknown = filter (\<lambda>k. k \<notin> set POLICY_FIELDS) (map fst entry_fields) in
          if unknown \<noteq> [] then Inl (ValueError (''unknown policy fields: '' @ join_text '', '' (sort unknown)))
          else
            bindr (parse_token checksum (jget JNull ''token'' entry_fields)) (\<lambda>token.
            bindr (parse_threshold_fields (jget JNull ''threshold'' entry_fields)) (\<lambda>thresholds.
            bindr (uint_field (jget (JInt 100) ''base_fee_bps'' entry_fields) 16 ''base_fee_bps'') (\<lambda>base.
            if base > 100 then Inl (ValueError ''base_fee_bps out of range'')
            else
            bindr (tier_entries (jget (JArr (map tier_public DEFAULT_FEE_TIERS)) ''fee_tiers'' entry_fields)) (\<lambda>entries.
            bindr (parse_tiers entries (- 1) (base + 1)) (\<lambda>tiers.
            bindr (uint_field (jget JNull ''version'' entry_fields) 64 ''version'') (\<lambda>version.
            bindr (uint_field (jget (JInt 18) ''decimals'' entry_fields) 8 ''decimals'') (\<lambda>decimals.
            bindr (parse_thresholds thresholds) (\<lambda>threshold.
            bindr (uint_field (jget (JInt 0) ''grace_s'' entry_fields) 32 ''grace_s'') (\<lambda>grace.
            bindr (uint_field (jget JNull ''issued_at'' entry_fields) 64 ''issued_at'') (\<lambda>issued.
              Inr \<lparr>gp_version = version, gp_token = token, gp_decimals = decimals, gp_threshold = threshold,
                   gp_grace_s = grace, gp_issued_at = issued, gp_base_fee_bps = base, gp_fee_tiers = tiers\<rparr>)))))))))))
     | _ \<Rightarrow> Inl (ValueError ''policy must be an object''))"

definition policy_public :: "gate_policy \<Rightarrow> json" where
  "policy_public p =
     JObj [(''version'', JInt (gp_version p)),
           (''token'', case gp_token p of None \<Rightarrow> JNull | Some t \<Rightarrow> JStr t),
           (''decimals'', JInt (gp_decimals p)),
           (''threshold'', JObj (map (\<lambda>f. (feature_name f, JStr (int_text (gp_threshold p f)))) FEATURES)),
           (''grace_s'', JInt (gp_grace_s p)), (''issued_at'', JInt (gp_issued_at p)),
           (''base_fee_bps'', JInt (gp_base_fee_bps p)),
           (''fee_tiers'', JArr (map tier_public (gp_fee_tiers p)))]"

definition UNSET_POLICY :: gate_policy where
  "UNSET_POLICY = \<lparr>gp_version = 0, gp_token = None, gp_decimals = 18, gp_threshold = (\<lambda>_. 0), gp_grace_s = 0,
     gp_issued_at = 0, gp_base_fee_bps = 100, gp_fee_tiers = DEFAULT_FEE_TIERS\<rparr>"

text \<open>The EIP-712 document and its digest.\<close>

definition policy_token_text :: "gate_policy \<Rightarrow> address" where
  "policy_token_text p = (case gp_token p of None \<Rightarrow> ZERO_ADDRESS | Some t \<Rightarrow> if t = [] then ZERO_ADDRESS else t)"

definition POLICY_TYPE :: string where
  "POLICY_TYPE = ''GatePolicy(uint64 version,address token,uint8 decimals,uint256 trade,uint256 lp,'' @
     ''uint256 api,uint256 flags,uint32 graceSeconds,uint64 issuedAt,uint16 baseFeeBps,FeeTier[] feeTiers)'' @
     ''FeeTier(uint16 minSupplyBps,uint16 feeBps)''"
definition TIER_TYPE :: string where "TIER_TYPE = ''FeeTier(uint16 minSupplyBps,uint16 feeBps)''"
definition DOMAIN_TYPE :: string where "DOMAIN_TYPE = ''EIP712Domain(string name,string version,uint256 chainId)''"
definition DOMAIN_NAME :: string where "DOMAIN_NAME = ''rhpools gate''"
definition DOMAIN_VERSION :: string where "DOMAIN_VERSION = ''2''"

definition field_json :: "string \<Rightarrow> string \<Rightarrow> json" where
  "field_json name type = JObj [(''name'', JStr name), (''type'', JStr type)]"

definition policy_typed_data :: "gate_policy \<Rightarrow> int \<Rightarrow> json" where
  "policy_typed_data p chain_id =
     JObj [(''types'', JObj
        [(''EIP712Domain'', JArr [field_json ''name'' ''string'', field_json ''version'' ''string'', field_json ''chainId'' ''uint256'']),
         (''GatePolicy'', JArr [field_json ''version'' ''uint64'', field_json ''token'' ''address'',
            field_json ''decimals'' ''uint8'', field_json ''trade'' ''uint256'', field_json ''lp'' ''uint256'',
            field_json ''api'' ''uint256'', field_json ''flags'' ''uint256'', field_json ''graceSeconds'' ''uint32'',
            field_json ''issuedAt'' ''uint64'', field_json ''baseFeeBps'' ''uint16'', field_json ''feeTiers'' ''FeeTier[]'']),
         (''FeeTier'', JArr [field_json ''minSupplyBps'' ''uint16'', field_json ''feeBps'' ''uint16''])]),
      (''primaryType'', JStr ''GatePolicy''),
      (''domain'', JObj [(''name'', JStr DOMAIN_NAME), (''version'', JStr DOMAIN_VERSION), (''chainId'', JInt chain_id)]),
      (''message'', JObj
        ([(''version'', JStr (int_text (gp_version p))), (''token'', JStr (policy_token_text p)),
          (''decimals'', JStr (int_text (gp_decimals p)))] @
         map (\<lambda>f. (feature_name f, JStr (int_text (gp_threshold p f)))) FEATURES @
         [(''graceSeconds'', JStr (int_text (gp_grace_s p))), (''issuedAt'', JStr (int_text (gp_issued_at p))),
          (''baseFeeBps'', JStr (int_text (gp_base_fee_bps p))),
          (''feeTiers'', JArr (map (\<lambda>t. JObj [(''minSupplyBps'', JStr (int_text (min_supply_bps t))),
             (''feeBps'', JStr (int_text (tier_fee_bps t)))]) (gp_fee_tiers p)))]))]"

definition policy_digest :: "eth_lib \<Rightarrow> gate_policy \<Rightarrow> int \<Rightarrow> py_error + bytes" where
  "policy_digest lib p chain_id =
    (let h = (\<lambda>s. ABytes (keccak lib (text_bytes s))) in
     bindr (abi_encode lib [''bytes32'', ''bytes32'', ''bytes32'', ''uint256'']
       [h DOMAIN_TYPE, h DOMAIN_NAME, h DOMAIN_VERSION, AInt chain_id]) (\<lambda>dom.
     bindr (map_res (\<lambda>t. bindr (abi_encode lib [''bytes32'', ''uint16'', ''uint16'']
       [h TIER_TYPE, AInt (min_supply_bps t), AInt (tier_fee_bps t)]) (\<lambda>b. Inr (keccak lib b))) (gp_fee_tiers p)) (\<lambda>tiers.
     bindr (abi_encode lib
       [''bytes32'', ''uint64'', ''address'', ''uint8'', ''uint256'', ''uint256'', ''uint256'', ''uint256'',
        ''uint32'', ''uint64'', ''uint16'', ''bytes32'']
       ([h POLICY_TYPE, AInt (gp_version p), AAddr (policy_token_text p), AInt (gp_decimals p)] @
        map (\<lambda>f. AInt (gp_threshold p f)) FEATURES @
        [AInt (gp_grace_s p), AInt (gp_issued_at p), AInt (gp_base_fee_bps p), ABytes (keccak lib (concat tiers))])) (\<lambda>struct.
       Inr (keccak lib ([0x19, 0x01] @ keccak lib dom @ keccak lib struct))))))"

section \<open>Entitlement\<close>

record holding =
  h_wallet :: address
  h_balance_raw :: int
  h_block :: int
  h_observed_at :: real
  h_total_supply_raw :: "int option"

record holding_state =
  hs_wallet :: address
  hs_holding :: "holding option"
  hs_last_ok :: "feature \<Rightarrow> (real \<times> int) option"

record entitlement =
  en_wallet :: address
  en_features :: "feature list"
  en_holding :: "holding option"
  en_grace_until :: "(feature \<times> real) list"
  en_policy_version :: int
  en_fee_bps :: int
  en_tier :: nat

definition has_feature :: "entitlement \<Rightarrow> feature \<Rightarrow> bool" where
  "has_feature e f \<longleftrightarrow> f \<in> set (en_features e)"

definition qualified_features :: "entitlement \<Rightarrow> feature list" where
  "qualified_features e = filter (\<lambda>f. f \<notin> fst ` set (en_grace_until e)) (en_features e)"

definition entitlement_state :: "entitlement \<Rightarrow> gate_policy \<Rightarrow> string" where
  "entitlement_state e p =
    (if gp_token p = None then ''unset''
     else if \<exists>f \<in> set (qualified_features e). gp_threshold p f > 0 then ''holder''
     else if en_grace_until e \<noteq> [] then ''grace''
     else if set (en_features e) = set FEATURES then ''holder'' else ''below'')"

definition is_fresh :: "holding option \<Rightarrow> real \<Rightarrow> bool" where
  "is_fresh h now = (case h of None \<Rightarrow> False | Some x \<Rightarrow> now - h_observed_at x < ORACLE_TTL_S)"

definition balance_ok :: "gate_policy \<Rightarrow> holding option \<Rightarrow> real \<Rightarrow> feature \<Rightarrow> bool" where
  "balance_ok p h now f \<longleftrightarrow> is_fresh h now \<and> (case h of None \<Rightarrow> False | Some x \<Rightarrow> h_balance_raw x \<ge> gp_threshold p f)"

text \<open>The anchor that keeps a feature in its grace period, or nothing.\<close>

definition grace_anchor :: "gate_policy \<Rightarrow> holding_state \<Rightarrow> real \<Rightarrow> feature \<Rightarrow> real option" where
  "grace_anchor p st now f =
    (case hs_last_ok st f of
       Some (at_time, version) \<Rightarrow>
         if \<not> is_fresh (hs_holding st) now \<and> version = gp_version p \<and> now - at_time \<le> of_int (gp_grace_s p)
         then Some at_time else None
     | None \<Rightarrow> None)"

text \<open>The loop over the features.\<close>

fun entitle_features ::
  "gate_policy \<Rightarrow> holding_state \<Rightarrow> real \<Rightarrow> feature list \<Rightarrow> feature list \<times> (feature \<times> real) list" where
  "entitle_features p st now [] = ([], [])"
| "entitle_features p st now (f # fs) =
    (let (features, grace) = entitle_features p st now fs in
     if gp_threshold p f = 0 \<or> balance_ok p (hs_holding st) now f then (f # features, grace)
     else case grace_anchor p st now f of
       Some a \<Rightarrow> (f # features, (f, a + of_int (gp_grace_s p)) # grace)
     | None \<Rightarrow> (features, grace))"

fun best_tier :: "fee_tier list \<Rightarrow> int \<Rightarrow> int \<Rightarrow> nat \<Rightarrow> nat \<times> int \<Rightarrow> nat \<times> int" where
  "best_tier [] balance supply index best = best"
| "best_tier (t # ts) balance supply index best =
     best_tier ts balance supply (index + 1)
       (if balance * 10000 \<ge> min_supply_bps t * supply then (index, tier_fee_bps t) else best)"

definition tier_of :: "gate_policy \<Rightarrow> holding option \<Rightarrow> real \<Rightarrow> nat \<times> int" where
  "tier_of p h now =
    (case h of
       Some x \<Rightarrow>
         (case h_total_supply_raw x of
            Some supply \<Rightarrow>
              if is_fresh h now \<and> supply > 0
              then best_tier (gp_fee_tiers p) (h_balance_raw x) supply 1 (0, gp_base_fee_bps p)
              else (0, gp_base_fee_bps p)
          | None \<Rightarrow> (0, gp_base_fee_bps p))
     | None \<Rightarrow> (0, gp_base_fee_bps p))"

definition entitle :: "gate_policy \<Rightarrow> holding_state \<Rightarrow> real \<Rightarrow> entitlement" where
  "entitle p st now =
    (let (features, grace) = (if gp_token p = None then ([], []) else entitle_features p st now FEATURES);
         (tier, fee) = tier_of p (hs_holding st) now
     in \<lparr>en_wallet = hs_wallet st, en_features = features, en_holding = hs_holding st, en_grace_until = grace,
         en_policy_version = gp_version p, en_fee_bps = fee, en_tier = tier\<rparr>)"

section \<open>Well-formed policies\<close>

fun tiers_ok :: "fee_tier list \<Rightarrow> int \<Rightarrow> int \<Rightarrow> bool" where
  "tiers_ok [] s f = True"
| "tiers_ok (t # ts) s f \<longleftrightarrow>
     0 \<le> min_supply_bps t \<and> min_supply_bps t \<le> 10000 \<and> 0 \<le> tier_fee_bps t \<and> tier_fee_bps t \<le> 100 \<and>
     s < min_supply_bps t \<and> tier_fee_bps t < f \<and> tiers_ok ts (min_supply_bps t) (tier_fee_bps t)"

definition policy_ok :: "gate_policy \<Rightarrow> bool" where
  "policy_ok p \<longleftrightarrow>
     0 \<le> gp_version p \<and> gp_version p < 2 ^ 64 \<and> 0 \<le> gp_decimals p \<and> gp_decimals p < 2 ^ 8 \<and>
     (\<forall>f. 0 \<le> gp_threshold p f \<and> gp_threshold p f < 2 ^ 256) \<and>
     0 \<le> gp_grace_s p \<and> gp_grace_s p < 2 ^ 32 \<and> 0 \<le> gp_issued_at p \<and> gp_issued_at p < 2 ^ 64 \<and>
     0 \<le> gp_base_fee_bps p \<and> gp_base_fee_bps p \<le> 100 \<and> length (gp_fee_tiers p) \<le> 4 \<and>
     tiers_ok (gp_fee_tiers p) (- 1) (gp_base_fee_bps p + 1) \<and> gp_token p \<noteq> Some ZERO_ADDRESS"

lemma uint_field_Inr: "uint_field v bits name = Inr n \<Longrightarrow> 0 \<le> n \<and> n < 2 ^ bits"
  by (auto simp: uint_field_def bindr_eq_Inr split: if_splits)

lemma uint_field_JInt: "0 \<le> n \<Longrightarrow> n < 2 ^ bits \<Longrightarrow> uint_field (JInt n) bits name = Inr n"
  by (simp add: uint_field_def)

lemma uint_field_text: "0 \<le> n \<Longrightarrow> n < 2 ^ bits \<Longrightarrow> uint_field (JStr (int_text n)) bits name = Inr n"
  by (simp add: uint_field_def)

lemma parse_tier_Inr:
  assumes "parse_tier entry s f = Inr t"
  shows "0 \<le> min_supply_bps t \<and> min_supply_bps t \<le> 10000 \<and> 0 \<le> tier_fee_bps t \<and> tier_fee_bps t \<le> 100 \<and>
    s < min_supply_bps t \<and> tier_fee_bps t < f"
proof (cases entry)
  case (JObj es)
  with assms obtain a b where
    a: "uint_field (jget JNull ''min_supply_bps'' es) 16 ''min_supply_bps'' = Inr a" and
    b: "uint_field (jget JNull ''fee_bps'' es) 16 ''fee_bps'' = Inr b" and
    t: "(if a > 10000 \<or> b > 100 \<or> a \<le> s \<or> b \<ge> f
         then Inl (ValueError ''fee tiers require increasing supply and strictly decreasing fees within 0..100 bps'')
         else Inr \<lparr>min_supply_bps = a, tier_fee_bps = b\<rparr>) = Inr t"
    unfolding parse_tier_def by (auto elim!: bindr_InrE split: if_splits)
  then show ?thesis
    using uint_field_Inr [OF a] uint_field_Inr [OF b] by (auto split: if_splits)
qed (use assms in \<open>simp_all add: parse_tier_def\<close>)

lemma parse_tier_public:
  assumes "0 \<le> min_supply_bps t" "min_supply_bps t \<le> 10000" "0 \<le> tier_fee_bps t" "tier_fee_bps t \<le> 100"
    and "s < min_supply_bps t" "tier_fee_bps t < f"
  shows "parse_tier (tier_public t) s f = Inr t"
proof -
  have "uint_field (JInt (min_supply_bps t)) 16 ''min_supply_bps'' = Inr (min_supply_bps t)"
    "uint_field (JInt (tier_fee_bps t)) 16 ''fee_bps'' = Inr (tier_fee_bps t)"
    using assms by (auto intro!: uint_field_JInt)
  then show ?thesis
    using assms by (simp add: parse_tier_def tier_public_def jget_def insert_commute)
qed

lemma parse_tiers_Inr: "parse_tiers es s f = Inr ts \<Longrightarrow> tiers_ok ts s f \<and> length ts = length es"
proof (induction es arbitrary: s f ts)
  case (Cons e es)
  then obtain t ts' where "parse_tier e s f = Inr t" "parse_tiers es (min_supply_bps t) (tier_fee_bps t) = Inr ts'" "ts = t # ts'"
    by (auto simp: bindr_eq_Inr)
  with Cons.IH parse_tier_Inr [of e s f t] show ?case by auto
qed simp

lemma parse_tiers_public: "tiers_ok ts s f \<Longrightarrow> parse_tiers (map tier_public ts) s f = Inr ts"
  by (induction ts arbitrary: s f) (auto simp: parse_tier_public)

lemma parse_thresholds_Inr:
  assumes "parse_thresholds es = Inr th"
  shows "0 \<le> th f \<and> th f < 2 ^ 256"
proof -
  let ?g = "\<lambda>f. bindr (uint_field (jget JNull (feature_name f) es) 256 (feature_name f)) (\<lambda>n. Inr (f, n))"
  from assms obtain entries where
    m: "map_res ?g FEATURES = Inr entries" and
    th: "th = (\<lambda>f. case map_of entries f of None \<Rightarrow> 0 | Some n \<Rightarrow> n)"
    unfolding parse_thresholds_def by (auto elim!: bindr_InrE)
  show ?thesis
  proof (cases "map_of entries f")
    case None
    then show ?thesis by (simp add: th)
  next
    case (Some n)
    then have "(f, n) \<in> set entries" by (rule map_of_SomeD)
    from map_res_member [OF m this] obtain f' where "?g f' = Inr (f, n)" by blast
    then have "uint_field (jget JNull (feature_name f') es) 256 (feature_name f') = Inr n"
      by (auto elim!: bindr_InrE)
    from uint_field_Inr [OF this] Some show ?thesis by (simp add: th)
  qed
qed

lemma parse_thresholds_public:
  assumes "\<forall>f. 0 \<le> th f \<and> th f < 2 ^ 256"
  shows "parse_thresholds (map (\<lambda>f. (feature_name f, JStr (int_text (th f)))) FEATURES) = Inr th"
proof -
  have u: "uint_field (JStr (int_text (th f))) 256 name = Inr (th f)" for f name
    using assms by (intro uint_field_text) auto
  have "(\<lambda>f. case map_of [(Trade, th Trade), (Lp, th Lp), (Api, th Api), (Flags, th Flags)] f of None \<Rightarrow> 0 | Some n \<Rightarrow> n) = th"
  proof
    show "(case map_of [(Trade, th Trade), (Lp, th Lp), (Api, th Api), (Flags, th Flags)] f of None \<Rightarrow> 0 | Some n \<Rightarrow> n) = th f" for f
      by (cases f) simp_all
  qed
  then show ?thesis
    by (simp add: parse_thresholds_def FEATURES_def jget_def u)
qed

lemma parse_policy_Inr:
  assumes "parse_policy checksum obj = Inr p"
  obtains es version token decimals thresholds threshold grace issued base entries tiers where
    "obj = JObj es"
    "parse_token checksum (jget JNull ''token'' es) = Inr token"
    "parse_threshold_fields (jget JNull ''threshold'' es) = Inr thresholds"
    "uint_field (jget (JInt 100) ''base_fee_bps'' es) 16 ''base_fee_bps'' = Inr base" "base \<le> 100"
    "tier_entries (jget (JArr (map tier_public DEFAULT_FEE_TIERS)) ''fee_tiers'' es) = Inr entries"
    "parse_tiers entries (- 1) (base + 1) = Inr tiers"
    "uint_field (jget JNull ''version'' es) 64 ''version'' = Inr version"
    "uint_field (jget (JInt 18) ''decimals'' es) 8 ''decimals'' = Inr decimals"
    "parse_thresholds thresholds = Inr threshold"
    "uint_field (jget (JInt 0) ''grace_s'' es) 32 ''grace_s'' = Inr grace"
    "uint_field (jget JNull ''issued_at'' es) 64 ''issued_at'' = Inr issued"
    "p = \<lparr>gp_version = version, gp_token = token, gp_decimals = decimals, gp_threshold = threshold,
          gp_grace_s = grace, gp_issued_at = issued, gp_base_fee_bps = base, gp_fee_tiers = tiers\<rparr>"
proof (cases obj)
  case (JObj es)
  have known: "filter (\<lambda>k. k \<notin> set POLICY_FIELDS) (map fst es) = []"
  proof (rule ccontr)
    assume "filter (\<lambda>k. k \<notin> set POLICY_FIELDS) (map fst es) \<noteq> []"
    with assms JObj show False by (simp add: parse_policy_def)
  qed
  note step = assms [unfolded parse_policy_def JObj json.case Let_def known simp_thms if_False]
  from step obtain token where 1: "parse_token checksum (jget JNull ''token'' es) = Inr token"
    by (elim bindr_InrE)
  note step = step [unfolded 1 bindr.simps]
  from step obtain thresholds where 2: "parse_threshold_fields (jget JNull ''threshold'' es) = Inr thresholds"
    by (elim bindr_InrE)
  note step = step [unfolded 2 bindr.simps]
  from step obtain base where 3: "uint_field (jget (JInt 100) ''base_fee_bps'' es) 16 ''base_fee_bps'' = Inr base"
    by (elim bindr_InrE)
  note step = step [unfolded 3 bindr.simps]
  from step have 4: "base \<le> 100" by (cases "base > 100") auto
  then have n4: "\<not> base > 100" by simp
  note step = step [unfolded if_not_P [OF n4]]
  from step show ?thesis
    by (elim bindr_InrE) (rule that [OF JObj 1 2 3 4], auto)
qed (use assms in \<open>simp_all add: parse_policy_def\<close>)

lemma parse_token_Inr: "parse_token checksum v = Inr t \<Longrightarrow> t \<noteq> Some ZERO_ADDRESS"
  by (auto simp: parse_token_def split: if_splits option.splits)

lemma parse_policy_ok: "parse_policy checksum obj = Inr p \<Longrightarrow> policy_ok p"
proof (erule parse_policy_Inr)
  fix es version token decimals thresholds threshold grace issued base entries tiers
  assume token: "parse_token checksum (jget JNull ''token'' es) = Inr token"
    and base: "uint_field (jget (JInt 100) ''base_fee_bps'' es) 16 ''base_fee_bps'' = Inr base" "base \<le> 100"
    and entries: "tier_entries (jget (JArr (map tier_public DEFAULT_FEE_TIERS)) ''fee_tiers'' es) = Inr entries"
    and tiers: "parse_tiers entries (- 1) (base + 1) = Inr tiers"
    and version: "uint_field (jget JNull ''version'' es) 64 ''version'' = Inr version"
    and decimals: "uint_field (jget (JInt 18) ''decimals'' es) 8 ''decimals'' = Inr decimals"
    and threshold: "parse_thresholds thresholds = Inr threshold"
    and grace: "uint_field (jget (JInt 0) ''grace_s'' es) 32 ''grace_s'' = Inr grace"
    and issued: "uint_field (jget JNull ''issued_at'' es) 64 ''issued_at'' = Inr issued"
    and p: "p = \<lparr>gp_version = version, gp_token = token, gp_decimals = decimals, gp_threshold = threshold,
          gp_grace_s = grace, gp_issued_at = issued, gp_base_fee_bps = base, gp_fee_tiers = tiers\<rparr>"
  have "length entries \<le> 4" using entries by (auto simp: tier_entries_def split: json.splits if_splits)
  then show "policy_ok p"
    using parse_token_Inr [OF token] base uint_field_Inr [OF base(1)] uint_field_Inr [OF version]
      uint_field_Inr [OF decimals] uint_field_Inr [OF grace] uint_field_Inr [OF issued]
      parse_tiers_Inr [OF tiers] parse_thresholds_Inr [OF threshold]
    by (simp add: policy_ok_def p)
qed

lemma policy_reads_back:
  assumes "parse_policy checksum obj = Inr p"
    and "\<forall>v a. checksum v = Some a \<longrightarrow> checksum (JStr a) = Some a"
  shows "policy_ok p \<and> parse_policy checksum (policy_public p) = Inr p"
proof -
  have ok: "policy_ok p" using assms(1) by (rule parse_policy_ok)
  have tok: "parse_token checksum (case gp_token p of None \<Rightarrow> JNull | Some t \<Rightarrow> JStr t) = Inr (gp_token p)"
  proof (cases "gp_token p")
    case (Some t)
    obtain es where "parse_token checksum (jget JNull ''token'' es) = Inr (Some t)"
      using assms(1) by (rule parse_policy_Inr) (use Some in auto)
    then obtain v where "checksum v = Some t" "t \<noteq> ZERO_ADDRESS"
      by (auto simp: parse_token_def split: if_splits option.splits)
    with assms(2) Some show ?thesis by (simp add: parse_token_def)
  qed (simp add: parse_token_def)
  have th: "parse_threshold_fields (JObj (map (\<lambda>f. (feature_name f, JStr (int_text (gp_threshold p f)))) FEATURES))
      = Inr (map (\<lambda>f. (feature_name f, JStr (int_text (gp_threshold p f)))) FEATURES)"
    by (simp add: parse_threshold_fields_def o_def)
  have te: "tier_entries (JArr (map tier_public (gp_fee_tiers p))) = Inr (map tier_public (gp_fee_tiers p))"
    using ok by (simp add: tier_entries_def policy_ok_def)
  have ps: "parse_tiers (map tier_public (gp_fee_tiers p)) (- 1) (gp_base_fee_bps p + 1) = Inr (gp_fee_tiers p)"
    using ok by (simp add: policy_ok_def parse_tiers_public)
  have pt: "parse_thresholds (map (\<lambda>f. (feature_name f, JStr (int_text (gp_threshold p f)))) FEATURES) = Inr (gp_threshold p)"
    using ok by (intro parse_thresholds_public) (simp add: policy_ok_def)
  have u: "uint_field (JInt (gp_version p)) 64 ''version'' = Inr (gp_version p)"
    "uint_field (JInt (gp_decimals p)) 8 ''decimals'' = Inr (gp_decimals p)"
    "uint_field (JInt (gp_grace_s p)) 32 ''grace_s'' = Inr (gp_grace_s p)"
    "uint_field (JInt (gp_issued_at p)) 64 ''issued_at'' = Inr (gp_issued_at p)"
    "uint_field (JInt (gp_base_fee_bps p)) 16 ''base_fee_bps'' = Inr (gp_base_fee_bps p)"
    using ok by (auto simp: policy_ok_def intro!: uint_field_JInt)
  have base: "\<not> gp_base_fee_bps p > 100" using ok by (simp add: policy_ok_def)
  have "parse_policy checksum (policy_public p) = Inr p"
    using base
    by (simp add: parse_policy_def policy_public_def POLICY_FIELDS_def jget_def tok th te ps pt u)
  with ok show ?thesis by simp
qed

text \<open>
  C11. A stored policy reads back as it was: whatever the owner's document, the policy it parses
  to is within its bounds, its fee tiers ask for more and charge less from tier to tier, and
  parsing the public form that is written to the database gives the same policy again.
\<close>

theorem policy_roundtrip:
  assumes "parse_policy checksum obj = Inr p"
    and "\<forall>v a. checksum v = Some a \<longrightarrow> checksum (JStr a) = Some a"
  shows "policy_ok p \<and> parse_policy checksum (policy_public p) = Inr p"
  using assms by (rule policy_reads_back)

definition sample_doc :: json where
  "sample_doc = JObj [(''version'', JInt 3), (''issued_at'', JStr ''1700''), (''token'', JStr ''0xT''),
     (''threshold'', JObj [(''trade'', JInt 0), (''lp'', JStr ''5''), (''api'', JInt 7), (''flags'', JInt 9)])]"

lemma sample_doc_parses: "\<exists>p. parse_policy (\<lambda>_. Some ''0xT'') sample_doc = Inr p \<and> gp_version p = 3"
proof -
  have "uint_field (JStr ''1700'') 64 ''issued_at'' = Inr 1700" "uint_field (JStr ''5'') 256 ''lp'' = Inr 5"
    by (simp_all add: uint_field_def int_of_text_def strip_def is_space_def is_digit_def parse_decimal_def digit_value_def)
  moreover have "tier_entries (JArr (map tier_public DEFAULT_FEE_TIERS)) = Inr (map tier_public DEFAULT_FEE_TIERS)"
    by (simp add: tier_entries_def DEFAULT_FEE_TIERS_def)
  moreover have "parse_tiers (map tier_public DEFAULT_FEE_TIERS) (- 1) 101 = Inr DEFAULT_FEE_TIERS"
    by (rule parse_tiers_public) (simp add: DEFAULT_FEE_TIERS_def)
  moreover have "''0xT'' \<noteq> ZERO_ADDRESS" by (simp add: ZERO_ADDRESS_def)
  ultimately show ?thesis
    by (simp add: parse_policy_def sample_doc_def POLICY_FIELDS_def jget_def parse_token_def
        parse_threshold_fields_def FEATURES_def uint_field_JInt parse_thresholds_def insert_commute)
qed

theorem policy_roundtrip_witness:
  "\<exists>p. gp_version p = 3 \<and> policy_ok p \<and> parse_policy (\<lambda>_. Some ''0xT'') (policy_public p) = Inr p"
proof -
  obtain p where "parse_policy (\<lambda>_. Some ''0xT'') sample_doc = Inr p" "gp_version p = 3"
    using sample_doc_parses by blast
  with policy_roundtrip [OF this(1)] show ?thesis by auto
qed

section \<open>What an entitlement grants\<close>

lemma entitle_features_iff:
  "f \<in> set (fst (entitle_features p st now fs)) \<longleftrightarrow> f \<in> set fs \<and>
     (gp_threshold p f = 0 \<or> balance_ok p (hs_holding st) now f \<or> grace_anchor p st now f \<noteq> None)"
  by (induction fs) (auto simp: Let_def split: prod.splits option.splits)

text \<open>The fee of the last tier a balance reaches; with ordered tiers that is the lowest one reached.\<close>

definition reaches :: "int \<Rightarrow> int \<Rightarrow> fee_tier \<Rightarrow> bool" where
  "reaches balance supply t \<longleftrightarrow> min_supply_bps t * supply \<le> balance * 10000"

lemma tiers_ok_facts:
  assumes "tiers_ok ts s f" and "t \<in> set ts"
  shows "s < min_supply_bps t \<and> tier_fee_bps t < f"
  using assms by (induction ts arbitrary: s f) fastforce+

lemma best_tier_fee:
  assumes "tiers_ok ts s f" and "snd best < f" and "f \<le> snd best + 1"
  shows "snd (best_tier ts balance supply index best) \<in>
      insert (snd best) (tier_fee_bps ` {t \<in> set ts. reaches balance supply t}) \<and>
    snd (best_tier ts balance supply index best) \<le> snd best \<and>
    (\<forall>t \<in> set ts. reaches balance supply t \<longrightarrow> snd (best_tier ts balance supply index best) \<le> tier_fee_bps t)"
  using assms
proof (induction ts arbitrary: s f index best)
  case Nil
  then show ?case by simp
next
  case (Cons t ts)
  have tail: "tiers_ok ts (min_supply_bps t) (tier_fee_bps t)" and tf: "tier_fee_bps t < f" using Cons.prems by simp_all
  show ?case
  proof (cases "reaches balance supply t")
    case True
    have "best_tier (t # ts) balance supply index best = best_tier ts balance supply (index + 1) (index, tier_fee_bps t)"
      using True by (simp add: reaches_def)
    moreover have "tiers_ok ts (min_supply_bps t) (tier_fee_bps t + 1)"
      using tail by (cases ts) auto
    ultimately show ?thesis
      using Cons.IH [of "min_supply_bps t" "tier_fee_bps t + 1" "(index, tier_fee_bps t)" "index + 1"] True tf Cons.prems
      by auto
  next
    case False
    have "best_tier (t # ts) balance supply index best = best_tier ts balance supply (index + 1) best"
      using False by (simp add: reaches_def)
    moreover have "tiers_ok ts (min_supply_bps t) f"
      using tail tf by (cases ts) auto
    ultimately show ?thesis
      using Cons.IH [of "min_supply_bps t" f best "index + 1"] False Cons.prems by auto
  qed
qed

definition fee_choices :: "gate_policy \<Rightarrow> holding option \<Rightarrow> real \<Rightarrow> int set" where
  "fee_choices p h now =
     insert (gp_base_fee_bps p)
       (case h of
          Some x \<Rightarrow>
            (case h_total_supply_raw x of
               Some supply \<Rightarrow>
                 if is_fresh h now \<and> supply > 0
                 then tier_fee_bps ` {t \<in> set (gp_fee_tiers p). reaches (h_balance_raw x) supply t} else {}
             | None \<Rightarrow> {})
        | None \<Rightarrow> {})"

lemma entitle_fee:
  assumes "policy_ok p"
  shows "en_fee_bps (entitle p st now) \<in> fee_choices p (hs_holding st) now \<and>
    (\<forall>fee \<in> fee_choices p (hs_holding st) now. en_fee_bps (entitle p st now) \<le> fee)"
proof -
  have t: "tiers_ok (gp_fee_tiers p) (- 1) (gp_base_fee_bps p + 1)" using assms by (simp add: policy_ok_def)
  have "en_fee_bps (entitle p st now) = snd (tier_of p (hs_holding st) now)"
    by (simp add: entitle_def split: prod.splits)
  then show ?thesis
    using best_tier_fee [OF t, of "(0, gp_base_fee_bps p)"]
    by (auto simp: tier_of_def fee_choices_def split: option.splits)
qed

text \<open>
  A holder never loses by holding more: with the same policy, supply and time, a fresh
  larger balance keeps every feature and never raises the fee; and the fee is always the lowest
  that the policy offers for the balance, never above the base fee.
\<close>

theorem entitlement_monotone:
  assumes "policy_ok p" and "hs_holding st = Some h" and "hs_holding st' = Some h'"
    and "is_fresh (Some h) now" and "is_fresh (Some h') now"
    and "h_balance_raw h \<le> h_balance_raw h'" and "h_total_supply_raw h' = h_total_supply_raw h"
    and "hs_last_ok st' = hs_last_ok st"
  shows "set (en_features (entitle p st now)) \<subseteq> set (en_features (entitle p st' now)) \<and>
    en_fee_bps (entitle p st' now) \<le> en_fee_bps (entitle p st now) \<and>
    en_fee_bps (entitle p st now) = Min (fee_choices p (Some h) now) \<and>
    en_fee_bps (entitle p st now) \<le> gp_base_fee_bps p"
proof -
  have feats: "set (en_features (entitle p x now)) = (if gp_token p = None then {} else set (fst (entitle_features p x now FEATURES)))" for x
    by (simp add: entitle_def split: prod.splits)
  have ga: "grace_anchor p st now f = None" for f
    using assms(2,4) by (simp add: grace_anchor_def split: option.splits)
  have "balance_ok p (hs_holding st') now f" if "balance_ok p (hs_holding st) now f" for f
    using that assms(2-6) by (simp add: balance_ok_def)
  then have sub: "set (en_features (entitle p st now)) \<subseteq> set (en_features (entitle p st' now))"
    using ga by (auto simp: feats entitle_features_iff)
  have fin: "finite (fee_choices p (Some h) now)" by (auto simp: fee_choices_def split: option.splits)
  have "fee_choices p (Some h) now \<subseteq> fee_choices p (Some h') now"
    using assms(4-7) by (auto simp: fee_choices_def reaches_def split: option.splits)
  then have le: "en_fee_bps (entitle p st' now) \<le> en_fee_bps (entitle p st now)"
    using entitle_fee [OF assms(1), of st now] entitle_fee [OF assms(1), of st' now] assms(2,3) by auto
  have mn: "en_fee_bps (entitle p st now) = Min (fee_choices p (Some h) now)"
    using entitle_fee [OF assms(1), of st now] assms(2) fin by (intro Min_eqI [symmetric]) auto
  have "en_fee_bps (entitle p st now) \<le> gp_base_fee_bps p"
    using entitle_fee [OF assms(1), of st now] by (auto simp: fee_choices_def)
  with sub le mn show ?thesis by blast
qed

definition sample_holding :: "int \<Rightarrow> holding_state" where
  "sample_holding balance = \<lparr>hs_wallet = ''0xw'', hs_holding = Some \<lparr>h_wallet = ''0xw'', h_balance_raw = balance,
     h_block = 1, h_observed_at = 100, h_total_supply_raw = Some 1000\<rparr>, hs_last_ok = (\<lambda>_. None)\<rparr>"

lemma unset_policy_ok: "policy_ok UNSET_POLICY"
  by (simp add: policy_ok_def UNSET_POLICY_def DEFAULT_FEE_TIERS_def)

theorem entitlement_monotone_witness:
  "en_fee_bps (entitle UNSET_POLICY (sample_holding 6) 101) \<le> en_fee_bps (entitle UNSET_POLICY (sample_holding 4) 101)"
  using entitlement_monotone [OF unset_policy_ok, of "sample_holding 4" "the (hs_holding (sample_holding 4))"
      "sample_holding 6" "the (hs_holding (sample_holding 6))" 101]
  by (simp add: sample_holding_def is_fresh_def ORACLE_TTL_S_def)

text \<open>
  C12. Grace ends: a feature with a threshold that the entitlement grants is either covered by a
  fresh balance, or by an anchor of the same policy version no older than the grace period; the
  deadline it reports is the end of that period, so a balance that is known to be too small, a
  new policy or the passing of the grace period withdraws it.
\<close>

theorem grace_is_bounded:
  assumes "f \<in> set (en_features (entitle p st now))" and "gp_threshold p f \<noteq> 0"
  shows "balance_ok p (hs_holding st) now f \<or>
    (\<exists>anchor. hs_last_ok st f = Some (anchor, gp_version p) \<and> \<not> is_fresh (hs_holding st) now \<and>
       now \<le> anchor + of_int (gp_grace_s p) \<and>
       (f, anchor + of_int (gp_grace_s p)) \<in> set (en_grace_until (entitle p st now)))"
proof (cases "balance_ok p (hs_holding st) now f")
  case False
  have tok: "gp_token p \<noteq> None" using assms(1) by (auto simp: entitle_def split: prod.splits if_splits)
  then have en: "en_features (entitle p st now) = fst (entitle_features p st now FEATURES)"
    "en_grace_until (entitle p st now) = snd (entitle_features p st now FEATURES)"
    by (auto simp: entitle_def split: prod.splits if_splits)
  with assms False obtain a where a: "grace_anchor p st now f = Some a"
    by (auto simp: entitle_features_iff)
  have "(f, a + of_int (gp_grace_s p)) \<in> set (snd (entitle_features p st now fs))" if "f \<in> set fs" for fs
    using that a assms(2) False
    by (induction fs) (auto simp: Let_def split: prod.splits option.splits)
  with a en show ?thesis
    by (auto simp: grace_anchor_def split: option.splits prod.splits if_splits)
qed simp

definition grace_policy :: gate_policy where
  "grace_policy = UNSET_POLICY\<lparr>gp_token := Some ''0xT'', gp_threshold := (\<lambda>_. 5), gp_grace_s := 60, gp_version := 2\<rparr>"

theorem grace_is_bounded_witness:
  "let st = \<lparr>hs_wallet = ''0xw'', hs_holding = None, hs_last_ok = (\<lambda>_. Some (100, 2))\<rparr> in
   balance_ok grace_policy None 150 Api \<or>
   (\<exists>anchor. hs_last_ok st Api = Some (anchor, gp_version grace_policy) \<and> \<not> is_fresh None 150 \<and>
      150 \<le> anchor + of_int (gp_grace_s grace_policy))"
  using grace_is_bounded [of Api grace_policy "\<lparr>hs_wallet = ''0xw'', hs_holding = None, hs_last_ok = (\<lambda>_. Some (100, 2))\<rparr>" 150]
  by (simp add: entitle_def grace_policy_def FEATURES_def balance_ok_def is_fresh_def grace_anchor_def UNSET_POLICY_def
      tier_of_def)

end
