(* ===== verification/Gate_Limits.thy ===== *)
theory Gate_Limits
  imports Gate_Policy Bounded_Store
begin

text \<open>
  \<^verbatim>\<open>src/rhpools/lp_gate.py\<close>, second part: the limits of the gate. The sliding window per client
  (\<^verbatim>\<open>_Window\<close>), the token bucket per credential (\<^verbatim>\<open>Gate.admit\<close>), the stream slots per wallet
  (\<^verbatim>\<open>Gate.stream_slot\<close>) and the balance oracle's cache (\<^verbatim>\<open>_Oracle\<close>). A call that the program makes
  under a lock is one step; the clock and the replies of the node are arguments.
\<close>

section \<open>Sliding windows\<close>

type_synonym window_keys = "(string, real list) odict"

text \<open>\<^verbatim>\<open>while bucket and bucket[0] <= now - 60: bucket.popleft()\<close>.\<close>

definition drop_old :: "real \<Rightarrow> real list \<Rightarrow> real list" where
  "drop_old now bucket = dropWhile (\<lambda>t. t \<le> now - 60) bucket"

definition bucket_of :: "window_keys \<Rightarrow> string \<Rightarrow> real list" where
  "bucket_of d k = (case map_of d k of None \<Rightarrow> [] | Some b \<Rightarrow> b)"

definition window_allowed :: "nat \<Rightarrow> real \<Rightarrow> string \<Rightarrow> window_keys \<Rightarrow> window_keys \<times> bool" where
  "window_allowed per_key now key d =
    (case map_of d key of
       None \<Rightarrow> (d, True)
     | Some bucket \<Rightarrow> (let b = drop_old now bucket in (od_set key b d, length b < per_key)))"

text \<open>\<^verbatim>\<open>setdefault\<close>, \<^verbatim>\<open>move_to_end\<close> and the change of the bucket, which is held by reference.\<close>

definition window_touch :: "string \<Rightarrow> real list \<Rightarrow> window_keys \<Rightarrow> window_keys" where
  "window_touch key b d =
    od_set key b (od_move_to_end key (case map_of d key of None \<Rightarrow> od_set key [] d | Some _ \<Rightarrow> d))"

definition window_put :: "string \<Rightarrow> real list \<Rightarrow> window_keys \<Rightarrow> window_keys" where
  "window_put key b d = od_trim 4096 (window_touch key b d)"

definition window_admit :: "nat \<Rightarrow> real \<Rightarrow> string \<Rightarrow> window_keys \<Rightarrow> window_keys \<times> bool" where
  "window_admit per_key now key d =
    (let b = drop_old now (bucket_of d key) in
     if length b \<ge> per_key then (window_touch key b d, False)
     else (window_put key (b @ [now]) d, True))"

text \<open>A sequence of calls \<open>admit\<close>, with the calls that were let in.\<close>

fun window_run :: "nat \<Rightarrow> (real \<times> string) list \<Rightarrow> window_keys \<Rightarrow> window_keys \<times> (real \<times> string) list" where
  "window_run per_key [] d = (d, [])"
| "window_run per_key ((now, key) # calls) d =
     (let (d1, ok) = window_admit per_key now key d; (d2, rest) = window_run per_key calls d1
      in (d2, if ok then (now, key) # rest else rest))"

lemma od_set_present: "od_ok d \<Longrightarrow> od_set k v (od_del k d @ [(k, w)]) = od_del k d @ [(k, v)]"
proof -
  have "od_set k v (filter (\<lambda>e. fst e \<noteq> k) d @ [(k, w)]) = filter (\<lambda>e. fst e \<noteq> k) d @ [(k, v)]"
    by (induction d) auto
  then show ?thesis by (simp add: od_del_def)
qed

lemma window_touch_eq: "od_ok d \<Longrightarrow> window_touch k b d = od_del k d @ [(k, b)]"
proof (cases "map_of d k")
  case None
  assume "od_ok d"
  with None show ?thesis by (simp add: window_touch_def od_set_split od_set_present)
next
  case (Some w)
  assume ok: "od_ok d"
  from Some ok have "od_move_to_end k d = od_del k d @ [(k, w)]"
    by (simp add: od_move_to_end_def filter_fst_eq_map_of)
  with Some ok show ?thesis by (simp add: window_touch_def od_set_present)
qed

interpretation window: bounded_store window_put 4096
  by (rule bounded_store_like) (simp add: window_put_def window_touch_eq put_trim_def)

lemma window_touch_ok: "od_ok d \<Longrightarrow> od_ok (window_touch k b d)"
  by (simp add: window_touch_eq od_ok_snoc)

lemma map_of_touch: "od_ok d \<Longrightarrow> map_of (window_touch k b d) = (map_of d)(k \<mapsto> b)"
  unfolding window_touch_eq by (rule map_of_snoc)

lemma window_admit_ok: "od_ok d \<Longrightarrow> od_ok (fst (window_admit n now k d))"
  by (simp add: window_admit_def Let_def window.put_ok window_touch_ok)

lemma od_keys_touch: "od_ok d \<Longrightarrow> set (od_keys (window_touch k b d)) = insert k (set (od_keys d))"
  by (auto simp: window_touch_eq od_keys_def od_del_def)

lemma window_put_small:
  "od_ok d \<Longrightarrow> card (insert k (set (od_keys d))) \<le> 4096 \<Longrightarrow> window_put k b d = window_touch k b d"
  using length_snoc [of d k b] by (simp add: window_put_def window_touch_eq)

lemma window_admit_small:
  assumes "od_ok d" and "card (insert key (set (od_keys d))) \<le> 4096"
  shows "window_admit n now key d =
    (let b = drop_old now (bucket_of d key); ok = length b < n
     in (window_touch key (if ok then b @ [now] else b) d, ok))"
  using assms by (simp add: window_admit_def Let_def window_put_small not_le)

text \<open>Calls let in under \<open>key\<close> in the minute that ends at \<open>t\<close>.\<close>

definition admitted_in :: "(real \<times> string) list \<Rightarrow> string \<Rightarrow> real \<Rightarrow> nat" where
  "admitted_in calls key t = length (filter (\<lambda>c. snd c = key \<and> t - 60 < fst c \<and> fst c \<le> t) calls)"

definition times_of :: "(real \<times> string) list \<Rightarrow> string \<Rightarrow> real list" where
  "times_of calls key = map fst (filter (\<lambda>c. snd c = key) calls)"

lemma admitted_in_times: "admitted_in calls key t = length (filter (\<lambda>s. t - 60 < s \<and> s \<le> t) (times_of calls key))"
  by (simp add: admitted_in_def times_of_def filter_map o_def conj_commute)

text \<open>The bucket of a key holds the calls let in, but for a prefix that has left the window.\<close>

definition window_inv :: "nat \<Rightarrow> real \<Rightarrow> (real \<times> string) list \<Rightarrow> window_keys \<Rightarrow> bool" where
  "window_inv n seen hist d \<longleftrightarrow>
     od_ok d \<and> (\<forall>k. \<exists>old. times_of hist k = old @ bucket_of d k \<and> (\<forall>x \<in> set old. x \<le> seen - 60)) \<and>
     (\<forall>c \<in> set hist. fst c \<le> seen) \<and> (\<forall>k t. admitted_in hist k t \<le> n)"

lemma drop_old_split:
  assumes "ts = old @ b" and "\<forall>x \<in> set old. x \<le> seen - 60" and "seen \<le> now"
  shows "\<exists>old'. ts = old' @ drop_old now b \<and> (\<forall>x \<in> set old'. x \<le> now - 60)"
proof (intro exI conjI)
  show "ts = (old @ takeWhile (\<lambda>t. t \<le> now - 60) b) @ drop_old now b"
    by (simp add: assms(1) drop_old_def)
  show "\<forall>x \<in> set (old @ takeWhile (\<lambda>t. t \<le> now - 60) b). x \<le> now - 60"
    using assms(2,3) by (fastforce dest: set_takeWhileD)
qed

lemma admitted_in_after:
  assumes "\<forall>c \<in> set hist. fst c \<le> now" and "now \<le> t"
    and "times_of hist k = old @ b" and "\<forall>x \<in> set old. x \<le> now - 60"
  shows "admitted_in hist k t \<le> length b"
proof -
  have "\<not> t - 60 < s" if "s \<in> set old" for s using assms(2,4) that by fastforce
  then have "filter (\<lambda>s. t - 60 < s \<and> s \<le> t) old = []" by (simp add: filter_empty_conv)
  then show ?thesis by (simp add: admitted_in_times assms(3))
qed

lemma times_of_snoc [simp]: "times_of (hist @ [(now, key)]) k = times_of hist k @ (if k = key then [now] else [])"
  by (simp add: times_of_def)

lemma window_inv_step:
  assumes inv: "window_inv n seen hist d" and le: "seen \<le> now" and b: "b = drop_old now (bucket_of d key)"
    and hist': "hist' = (if length b < n then hist @ [(now, key)] else hist)"
    and d': "d' = window_touch key (if length b < n then b @ [now] else b) d"
  shows "window_inv n now hist' d'"
proof -
  have ok: "od_ok d" using inv by (simp add: window_inv_def)
  have old: "\<exists>old. times_of hist k = old @ (if k = key then b else bucket_of d k) \<and> (\<forall>x \<in> set old. x \<le> now - 60)" for k
  proof -
    obtain old where o: "times_of hist k = old @ bucket_of d k" "\<forall>x \<in> set old. x \<le> seen - 60"
      using inv unfolding window_inv_def by blast
    show ?thesis
    proof (cases "k = key")
      case True
      with drop_old_split [OF o le] b show ?thesis by simp
    next
      case False
      with o le show ?thesis by fastforce
    qed
  qed
  have bk: "bucket_of d' k = (if k = key then (if length b < n then b @ [now] else b) else bucket_of d k)" for k
    by (simp add: d' bucket_of_def map_of_touch [OF ok])
  have "\<exists>old. times_of hist' k = old @ bucket_of d' k \<and> (\<forall>x \<in> set old. x \<le> now - 60)" for k
    using old [of k] by (auto simp: bk hist')
  moreover have past: "\<forall>c \<in> set hist'. fst c \<le> now"
    using inv le unfolding window_inv_def by (auto simp: hist' intro: order_trans)
  moreover have "admitted_in hist' k t \<le> n" for k t
  proof (cases "k = key \<and> now \<le> t \<and> length b < n")
    case True
    from old [of key] obtain old where "times_of hist key = old @ b" "\<forall>x \<in> set old. x \<le> now - 60" by auto
    with True admitted_in_after [OF past, of t k old "b @ [now]"] show ?thesis by (simp add: hist')
  next
    case False
    then have "admitted_in hist' k t = admitted_in hist k t" by (auto simp: hist' admitted_in_def)
    with inv show ?thesis by (simp add: window_inv_def)
  qed
  ultimately show ?thesis by (simp add: window_inv_def d' window_touch_ok [OF ok])
qed

lemma window_run_inv:
  assumes "window_inv n seen hist d" and "sorted (map fst calls)" and "\<forall>c \<in> set calls. seen \<le> fst c"
    and "finite K" and "card K \<le> 4096" and "set (od_keys d) \<union> snd ` set calls \<subseteq> K"
  shows "\<exists>seen'. window_inv n seen' (hist @ snd (window_run n calls d)) (fst (window_run n calls d))"
  using assms
proof (induction calls arbitrary: seen hist d)
  case Nil
  then show ?case by auto
next
  case (Cons c calls)
  obtain now key where c: "c = (now, key)" by (cases c)
  have ok: "od_ok d" using Cons.prems(1) by (simp add: window_inv_def)
  have "card (insert key (set (od_keys d))) \<le> card K"
    using Cons.prems(4,6) by (intro card_mono) (auto simp: c)
  then have small: "card (insert key (set (od_keys d))) \<le> 4096" using Cons.prems(5) by simp
  define b where "b = drop_old now (bucket_of d key)"
  define d1 where "d1 = window_touch key (if length b < n then b @ [now] else b) d"
  define hist1 where "hist1 = (if length b < n then hist @ [(now, key)] else hist)"
  have adm: "window_admit n now key d = (d1, length b < n)"
    using window_admit_small [OF ok small, of n now] by (simp add: Let_def b_def d1_def)
  have "window_inv n now hist1 d1"
    using Cons.prems(1,3) by (intro window_inv_step [OF _ _ b_def hist1_def d1_def]) (auto simp: c)
  from Cons.IH [OF this] Cons.prems(2-6) obtain seen' where
    "window_inv n seen' (hist1 @ snd (window_run n calls d1)) (fst (window_run n calls d1))"
    by (auto simp: c d1_def od_keys_touch [OF ok])
  then show ?case
    by (intro exI [of _ seen']) (cases "length b < n"; simp add: c adm Let_def hist1_def split_beta)
qed

text \<open>
  C13. The window keeps its rate under two conditions: the clock does not run backwards, and the whole
  run has no more than 4096 different keys. Then at most \<open>n\<close> calls of a key are let in within any 60
  seconds, whatever the other keys do. Beyond 4096 keys the program forgets the window of the key
  that was longest out of use, which may then be let in again, and nothing is claimed.
\<close>

theorem window_rate:
  assumes "sorted (map fst calls)" and "card (snd ` set calls) \<le> 4096"
  shows "admitted_in (snd (window_run n calls [])) key t \<le> n"
proof -
  let ?start = "(case calls of [] \<Rightarrow> 0 | c # _ \<Rightarrow> fst c)"
  have "window_inv n ?start [] []" by (simp add: window_inv_def times_of_def bucket_of_def admitted_in_def)
  moreover have "\<forall>c \<in> set calls. ?start \<le> fst c" using assms(1) by (cases calls) auto
  ultimately obtain seen' where "window_inv n seen' (snd (window_run n calls [])) (fst (window_run n calls []))"
    using window_run_inv [of n ?start "[]" "[]" calls "snd ` set calls"] assms by (auto simp: od_keys_def)
  then show ?thesis by (simp add: window_inv_def)
qed

theorem window_rate_witness:
  "admitted_in (snd (window_run 2 [(0, ''a''), (1, ''a''), (2, ''a''), (61, ''a'')] [])) ''a'' 61 \<le> 2"
  using window_rate [of "[(0, ''a''), (1, ''a''), (2, ''a''), (61, ''a'')]" 2 "''a''" 61] by simp

section \<open>Limits and refusals\<close>

record limits =
  session_ttl_s :: int
  key_ttl_max_s :: int
  keys_per_wallet :: int
  streams_per_wallet :: int
  key_rps :: real
  key_burst :: int
  nonce_ttl_s :: int
  signin_per_ip_per_min :: nat
  nonce_per_ip_per_min :: nat
  policy_per_ip_per_min :: nat

definition default_limits :: limits where
  "default_limits = \<lparr>session_ttl_s = 7 * 86400, key_ttl_max_s = 365 * 86400, keys_per_wallet = 8,
     streams_per_wallet = 4, key_rps = 10, key_burst = 40, nonce_ttl_s = 600, signin_per_ip_per_min = 5,
     nonce_per_ip_per_min = 20, policy_per_ip_per_min = 10\<rparr>"

text \<open>
  \<^verbatim>\<open>GateRefusal(status, error, retry_after=..., **gate)\<close>; the keyword arguments are the JSON
  object \<open>gr_gate\<close>. The other exceptions that reach a caller of the gate are \<open>GateError\<close>s.
\<close>

datatype gate_refusal =
    GateRefusal (gr_status: int) (gr_error: string) (gr_retry_after: "int option") (gr_gate: "(string \<times> json) list")
  | GateError (gr_cause: py_error)

section \<open>Token buckets\<close>

type_synonym buckets = "(string, real \<times> real) odict"

record quota =
  q_limit :: int
  q_remaining :: int
  q_reset_at :: real

text \<open>\<^verbatim>\<open>int(x)\<close> of a float rounds towards zero.\<close>

definition py_int :: "real \<Rightarrow> int" where
  "py_int x = (if 0 \<le> x then \<lfloor>x\<rfloor> else \<lceil>x\<rceil>)"

text \<open>The tokens of a credential at time \<open>now\<close>, refilled.\<close>

definition refilled :: "limits \<Rightarrow> buckets \<Rightarrow> string \<Rightarrow> real \<Rightarrow> real" where
  "refilled l d k now =
    (let (tokens, since) = (case map_of d k of None \<Rightarrow> (of_int (key_burst l), now) | Some e \<Rightarrow> e)
     in min (of_int (key_burst l)) (tokens + (now - since) * key_rps l))"

definition bucket_put :: "string \<Rightarrow> real \<times> real \<Rightarrow> buckets \<Rightarrow> buckets" where
  "bucket_put k v d = od_trim 4096 (od_move_to_end k (od_set k v d))"

definition admit :: "limits \<Rightarrow> real \<Rightarrow> string \<Rightarrow> int \<Rightarrow> buckets \<Rightarrow> buckets \<times> (gate_refusal + quota)" where
  "admit l now cred cost d =
    (let tokens = refilled l d cred now in
     if tokens < of_int cost then
       (let wait_ms = py_int ((of_int cost - tokens) / key_rps l * 1000) + 1
        in (od_set cred (tokens, now) d,
            Inl (GateRefusal 429 ''key rate limit'' (Some (max 1 (- (- wait_ms div 1000)))) [(''retry_after_ms'', JInt wait_ms)])))
     else
       (let rest = tokens - of_int cost
        in (bucket_put cred (rest, now) d,
            Inr \<lparr>q_limit = key_burst l, q_remaining = py_int rest,
                 q_reset_at = now + (of_int (key_burst l) - rest) / key_rps l\<rparr>)))"

interpretation bucket: bounded_store bucket_put 4096
  by (rule bounded_store_like) (simp add: bucket_put_def put_lru_eq [symmetric] put_lru_def)

text \<open>A sequence of calls; the result lists the calls that were let in.\<close>

fun admit_run :: "limits \<Rightarrow> (real \<times> string \<times> int) list \<Rightarrow> buckets \<Rightarrow> buckets \<times> (real \<times> string \<times> int) list" where
  "admit_run l [] d = (d, [])"
| "admit_run l ((now, key, cost) # calls) d =
     (let (d1, r) = admit l now key cost d; (d2, rest) = admit_run l calls d1
      in (d2, case r of Inr q \<Rightarrow> (now, key, cost) # rest | Inl e \<Rightarrow> rest))"

definition spent :: "(real \<times> string \<times> int) list \<Rightarrow> string \<Rightarrow> int" where
  "spent calls key = (\<Sum>c \<leftarrow> filter (\<lambda>c. fst (snd c) = key) calls. snd (snd c))"

lemma spent_simps [simp]:
  "spent [] key = 0" "spent ((now, k, cost) # calls) key = (if k = key then cost else 0) + spent calls key"
  by (simp_all add: spent_def)

text \<open>A bucket store whose entries were written no later than \<open>now\<close> and are not overdrawn.\<close>

definition buckets_ok :: "real \<Rightarrow> buckets \<Rightarrow> bool" where
  "buckets_ok now d \<longleftrightarrow> od_ok d \<and> (\<forall>k tokens since. map_of d k = Some (tokens, since) \<longrightarrow> 0 \<le> tokens \<and> since \<le> now)"

lemma buckets_okD: "buckets_ok now d \<Longrightarrow> map_of d k = Some (tokens, since) \<Longrightarrow> 0 \<le> tokens \<and> since \<le> now"
  by (simp add: buckets_ok_def)

lemma buckets_ok_mono: "buckets_ok seen d \<Longrightarrow> seen \<le> now \<Longrightarrow> buckets_ok now d"
  unfolding buckets_ok_def by (meson order_trans)

lemma buckets_ok_Nil: "buckets_ok now []"
  by (simp add: buckets_ok_def)

lemma refilled_bounds:
  assumes "buckets_ok seen d" and "seen \<le> now" and "0 \<le> key_rps l" and "0 \<le> key_burst l"
  shows "0 \<le> refilled l d k now" and "refilled l d k now \<le> of_int (key_burst l)"
proof -
  show "refilled l d k now \<le> of_int (key_burst l)"
    by (simp add: refilled_def split: prod.splits)
  show "0 \<le> refilled l d k now"
  proof (cases "map_of d k")
    case None
    with assms(4) show ?thesis by (simp add: refilled_def)
  next
    case (Some e)
    obtain tokens since where e: "e = (tokens, since)" by (cases e)
    with Some assms(1,2) have "0 \<le> tokens" "since \<le> now" by (auto simp: buckets_ok_def intro: order_trans)
    with Some e assms(3,4) show ?thesis by (simp add: refilled_def)
  qed
qed

lemma refilled_later:
  assumes "0 \<le> key_rps l" and "now \<le> later"
  shows "refilled l d k later \<le> refilled l d k now + key_rps l * (later - now)"
proof (cases "map_of d k")
  case None
  with assms show ?thesis by (simp add: refilled_def)
next
  case (Some e)
  obtain tokens since where e: "e = (tokens, since)" by (cases e)
  have "(later - since) * key_rps l = (now - since) * key_rps l + key_rps l * (later - now)"
    by (simp add: algebra_simps)
  moreover have "0 \<le> key_rps l * (later - now)" using assms by simp
  ultimately show ?thesis using Some e by (simp add: refilled_def min_def)
qed

lemma od_keys_set_insert: "set (od_keys (od_set k v d)) = insert k (set (od_keys d))"
  by (auto simp: od_keys_set)

lemma bucket_put_small:
  assumes "od_ok d" and "card (insert k (set (od_keys d))) \<le> 4096"
  shows "map_of (bucket_put k v d) = (map_of d)(k \<mapsto> v)"
    and "set (od_keys (bucket_put k v d)) = insert k (set (od_keys d))"
proof -
  have "bucket_put k v d = od_del k d @ [(k, v)]"
    using length_snoc [OF assms(1), of k v] assms by (simp add: bucket_put_def od_set_split)
  then show "map_of (bucket_put k v d) = (map_of d)(k \<mapsto> v)"
    "set (od_keys (bucket_put k v d)) = insert k (set (od_keys d))"
    using map_of_snoc [OF assms(1), of k v] by (auto simp: od_keys_def od_del_def)
qed

text \<open>One call: the tokens it takes are gone, a refused call takes none, no other bucket changes.\<close>

lemma admit_step:
  assumes ok: "buckets_ok seen d" and le: "seen \<le> now" and l: "0 \<le> key_rps l" "0 \<le> key_burst l" and cost: "0 \<le> cost"
    and small: "card (insert k (set (od_keys d))) \<le> 4096" and adm: "admit l now k cost d = (d1, r)"
  shows "map_of d1 = (map_of d)(k \<mapsto> (refilled l d k now - (case r of Inr q \<Rightarrow> of_int cost | Inl e \<Rightarrow> 0), now))"
    and "buckets_ok now d1" and "set (od_keys d1) = insert k (set (od_keys d))"
proof -
  have od: "od_ok d" using ok by (simp add: buckets_ok_def)
  let ?t = "refilled l d k now"
  let ?v = "(?t - (case r of Inr q \<Rightarrow> of_int cost | Inl e \<Rightarrow> 0), now)"
  have d1: "(\<exists>e. r = Inl e) \<and> ?t < of_int cost \<and> d1 = od_set k ?v d \<or>
    (\<exists>q. r = Inr q) \<and> of_int cost \<le> ?t \<and> d1 = bucket_put k ?v d"
    using adm by (cases "?t < of_int cost") (auto simp: admit_def Let_def)
  then show m: "map_of d1 = (map_of d)(k \<mapsto> ?v)"
    using bucket_put_small(1) [OF od small] map_of_od_set by metis
  show "set (od_keys d1) = insert k (set (od_keys d))"
    using d1 bucket_put_small(2) [OF od small] od_keys_set_insert by metis
  have "0 \<le> ?t - (case r of Inr q \<Rightarrow> of_int cost | Inl e \<Rightarrow> 0)"
    using d1 refilled_bounds(1) [OF ok le l, of k] by auto
  moreover have "od_ok d1" using d1 od_ok_set [OF od] bucket.put_ok [OF od] by metis
  ultimately show "buckets_ok now d1"
    using buckets_okD [OF buckets_ok_mono [OF ok le]] unfolding buckets_ok_def m by simp
qed

lemma admit_step_refilled:
  assumes "buckets_ok seen d" and "seen \<le> now" and "0 \<le> key_rps l" "0 \<le> key_burst l" and "0 \<le> cost"
    and "card (insert k (set (od_keys d))) \<le> 4096" and adm: "admit l now k cost d = (d1, r)"
  shows "refilled l d1 key now = refilled l d key now - (if key = k then (case r of Inr q \<Rightarrow> of_int cost | Inl e \<Rightarrow> 0) else 0)"
proof (cases "key = k")
  case True
  have "0 \<le> (case r of Inr q \<Rightarrow> real_of_int cost | Inl e \<Rightarrow> 0)" using assms(5) by (simp split: sum.split)
  then show ?thesis
    using admit_step(1) [OF assms] refilled_bounds(2) [OF assms(1-4), of k] True
    by (simp add: refilled_def [of l d1])
next
  case False
  then show ?thesis using admit_step(1) [OF assms] by (simp add: refilled_def)
qed

lemma admit_run_state:
  assumes "buckets_ok seen d" and "sorted (map fst calls)" and "\<forall>c \<in> set calls. seen \<le> fst c \<and> 0 \<le> snd (snd c)"
    and "finite K" "card K \<le> 4096" and "set (od_keys d) \<union> (fst \<circ> snd) ` set calls \<subseteq> K"
    and "0 \<le> key_rps l" "0 \<le> key_burst l" and "\<forall>c \<in> set calls. fst c \<le> later" and "seen \<le> later"
  shows "buckets_ok later (fst (admit_run l calls d)) \<and> set (od_keys (fst (admit_run l calls d))) \<subseteq> K \<and>
    of_int (spent (snd (admit_run l calls d)) key) \<le> refilled l d key seen + key_rps l * (later - seen)"
  using assms
proof (induction calls arbitrary: seen d)
  case Nil
  then show ?case using refilled_bounds(1) [OF Nil.prems(1) order_refl Nil.prems(7,8), of key]
      buckets_ok_mono [OF Nil.prems(1,10)]
    by simp
next
  case (Cons c calls)
  obtain now k cost where c: "c = (now, k, cost)" by (cases c)
  obtain d1 r where adm: "admit l now k cost d = (d1, r)" by fastforce
  have le: "seen \<le> now" and cost: "0 \<le> cost" using Cons.prems(3) by (simp_all add: c)
  have "card (insert k (set (od_keys d))) \<le> card K"
    using Cons.prems(4,6) by (intro card_mono) (auto simp: c)
  then have small: "card (insert k (set (od_keys d))) \<le> 4096" using Cons.prems(5) by simp
  note step = admit_step [OF Cons.prems(1) le Cons.prems(7,8) cost small adm]
  note tok = admit_step_refilled [OF Cons.prems(1) le Cons.prems(7,8) cost small adm, of key]
  have ih: "buckets_ok later (fst (admit_run l calls d1)) \<and> set (od_keys (fst (admit_run l calls d1))) \<subseteq> K \<and>
    of_int (spent (snd (admit_run l calls d1)) key) \<le> refilled l d1 key now + key_rps l * (later - now)"
    using Cons.prems step(2,3) by (intro Cons.IH) (auto simp: c)
  have "refilled l d key now \<le> refilled l d key seen + key_rps l * (now - seen)"
    using refilled_later [OF Cons.prems(7) le] .
  then have "refilled l d key now + key_rps l * (later - now) \<le> refilled l d key seen + key_rps l * (later - seen)"
    by (simp add: algebra_simps)
  with ih tok show ?case
    by (cases r; cases "key = k") (auto simp: c adm split_beta)
qed

text \<open>
  A credential's rate: under a clock that does not run backwards, and as long as no more
  than 4096 credentials are in play, the calls of a credential that are let in between \<open>start\<close>
  and \<open>later\<close> cost no more than the burst plus the refill of that time, whatever came before.
\<close>

theorem bucket_rate:
  assumes "sorted (map fst (before @ during))" and "\<forall>c \<in> set (before @ during). 0 \<le> snd (snd c)"
    and "card ((fst \<circ> snd) ` set (before @ during)) \<le> 4096"
    and "\<forall>c \<in> set before. fst c \<le> start" and "\<forall>c \<in> set during. start \<le> fst c \<and> fst c \<le> later" and "start \<le> later"
    and "0 \<le> key_rps l" "0 \<le> key_burst l"
  shows "of_int (spent (snd (admit_run l during (fst (admit_run l before [])))) key)
    \<le> of_int (key_burst l) + key_rps l * (later - start)"
proof -
  let ?K = "(fst \<circ> snd) ` set (before @ during)" and ?d = "fst (admit_run l before [])"
  let ?first = "(case before of [] \<Rightarrow> start | c # _ \<Rightarrow> fst c)"
  have "\<forall>c \<in> set before. ?first \<le> fst c" "?first \<le> start"
    using assms(1,4) by (cases before; auto simp: sorted_append)+
  then have d: "buckets_ok start ?d" "set (od_keys ?d) \<subseteq> ?K"
    using admit_run_state [OF buckets_ok_Nil [of ?first], of before ?K l start key] assms
    by (simp_all add: od_keys_def sorted_append image_Un)
  have "of_int (spent (snd (admit_run l during ?d)) key) \<le> refilled l ?d key start + key_rps l * (later - start)"
  proof -
    have "sorted (map fst during)" "\<forall>c \<in> set during. start \<le> fst c \<and> 0 \<le> snd (snd c)" "\<forall>c \<in> set during. fst c \<le> later"
      using assms(1,2,5) by (simp_all add: sorted_append)
    moreover have "finite ?K" "set (od_keys ?d) \<union> (fst \<circ> snd) ` set during \<subseteq> ?K"
      using d(2) by auto
    ultimately show ?thesis
      using admit_run_state [OF d(1), of during ?K l later key] assms(3,6-8) by blast
  qed
  moreover have "refilled l ?d key start \<le> of_int (key_burst l)"
    using refilled_bounds(2) [OF d(1) order_refl assms(7,8)] .
  ultimately show ?thesis by linarith
qed

theorem bucket_rate_witness:
  "real_of_int (spent (snd (admit_run default_limits [(5, ''k'', 30), (6, ''k'', 30)] (fst (admit_run default_limits [(1, ''k'', 40)] [])))) ''k'')
     \<le> 40 + 10 * (6 - 5)"
  using bucket_rate [of "[(1, ''k'', 40)]" "[(5, ''k'', 30), (6, ''k'', 30)]" 5 6 default_limits "''k''"]
  by (simp add: default_limits_def)

section \<open>Stream slots\<close>

type_synonym stream_counts = "(address, int) odict"

text \<open>\<^verbatim>\<open>stream_slot\<close> before and after its \<^verbatim>\<open>yield\<close>.\<close>

definition stream_held :: "stream_counts \<Rightarrow> address \<Rightarrow> int" where
  "stream_held d w = (case map_of d w of None \<Rightarrow> 0 | Some n \<Rightarrow> n)"

definition stream_enter :: "limits \<Rightarrow> address \<Rightarrow> stream_counts \<Rightarrow> gate_refusal + stream_counts" where
  "stream_enter l w d =
    (if stream_held d w \<ge> streams_per_wallet l
     then Inl (GateRefusal 429 ''stream limit per wallet'' (Some 5) [(''limit'', JInt (streams_per_wallet l))])
     else Inr (od_set w (stream_held d w + 1) d))"

definition stream_exit :: "address \<Rightarrow> stream_counts \<Rightarrow> gate_refusal + stream_counts" where
  "stream_exit w d =
    (case map_of d w of
       None \<Rightarrow> Inl (GateError (KeyError w))
     | Some n \<Rightarrow> Inr (if n - 1 \<noteq> 0 then od_set w (n - 1) d else od_del w d))"

text \<open>The counts and the wallets of the streams that are open.\<close>

inductive stream_reach :: "limits \<Rightarrow> stream_counts \<Rightarrow> address list \<Rightarrow> bool" for l where
  stream_init: "stream_reach l [] []"
| stream_open: "stream_reach l d ws \<Longrightarrow> stream_enter l w d = Inr d' \<Longrightarrow> stream_reach l d' (w # ws)"
| stream_close: "stream_reach l d ws \<Longrightarrow> w \<in> set ws \<Longrightarrow> stream_exit w d = Inr d' \<Longrightarrow> stream_reach l d' (remove1 w ws)"

definition streams_counted :: "limits \<Rightarrow> stream_counts \<Rightarrow> address list \<Rightarrow> bool" where
  "streams_counted l d ws \<longleftrightarrow>
     (\<forall>w. map_of d w = (if w \<in> set ws then Some (int (count_list ws w)) else None) \<and>
          int (count_list ws w) \<le> max 0 (streams_per_wallet l))"

lemma count_list_remove1: "count_list (remove1 w ws) v = count_list ws v - (if v = w then 1 else 0)"
  by (induction ws) auto

lemma count_list_pos: "w \<in> set ws \<longleftrightarrow> 0 < count_list ws w"
  using count_notin [of w ws] count_list_0_iff [of ws w] by auto

lemma streams_counted_reach: "stream_reach l d ws \<Longrightarrow> streams_counted l d ws"
proof (induction rule: stream_reach.induct)
  case stream_init
  then show ?case by (simp add: streams_counted_def)
next
  case (stream_open d ws w d')
  then have d: "d' = od_set w (stream_held d w + 1) d" and lt: "stream_held d w < streams_per_wallet l"
    by (auto simp: stream_enter_def split: if_splits)
  have h: "stream_held d w = int (count_list ws w)"
    using stream_open.IH by (auto simp: streams_counted_def stream_held_def)
  show ?case
    using stream_open.IH lt unfolding streams_counted_def d h by (auto simp: dict_simps h)
next
  case (stream_close d ws w d')
  then have m: "map_of d w = Some (int (count_list ws w))" and pos: "0 < count_list ws w"
    by (auto simp: streams_counted_def count_list_pos)
  then have d: "d' = (if int (count_list ws w) - 1 \<noteq> 0 then od_set w (int (count_list ws w) - 1) d else od_del w d)"
    using stream_close.hyps by (simp add: stream_exit_def)
  show ?case
    unfolding streams_counted_def
  proof
    fix v
    show "map_of d' v = (if v \<in> set (remove1 w ws) then Some (int (count_list (remove1 w ws) v)) else None) \<and>
      int (count_list (remove1 w ws) v) \<le> max 0 (streams_per_wallet l)"
    proof (cases "v = w")
      case True
      have "int (count_list ws w) \<le> max 0 (streams_per_wallet l)"
        using stream_close.IH by (simp add: streams_counted_def)
      then have "int (count_list ws w - 1) \<le> max 0 (streams_per_wallet l)" by linarith
      with pos True show ?thesis
        unfolding d count_list_pos count_list_remove1 by (auto simp: dict_simps of_nat_diff)
    next
      case False
      then show ?thesis
        using stream_close.IH unfolding streams_counted_def d count_list_pos count_list_remove1
        by (auto simp: dict_simps)
    qed
  qed
qed

text \<open>
  Stream slots: in every reachable state a wallet has at most its limit of streams open, a
  wallet without a stream has no entry left, and closing an open stream always succeeds.
\<close>

theorem stream_slots_bounded:
  assumes "stream_reach l d ws"
  shows "int (count_list ws w) \<le> max 0 (streams_per_wallet l) \<and> (map_of d w = None \<longleftrightarrow> w \<notin> set ws) \<and>
    (w \<in> set ws \<longrightarrow> (\<exists>d'. stream_exit w d = Inr d'))"
  using streams_counted_reach [OF assms] by (auto simp: streams_counted_def stream_exit_def)

theorem stream_slots_bounded_witness:
  "int (count_list [''w'', ''w''] ''w'') \<le> max 0 4 \<and> (\<exists>d'. stream_exit ''w'' [(''w'', 2)] = Inr d')"
proof -
  have "stream_reach default_limits [(''w'', 2)] [''w'', ''w'']"
    by (rule stream_open [OF stream_open [OF stream_init, where d' = "[(''w'', 1)]"]])
      (simp_all add: stream_enter_def stream_held_def default_limits_def)
  from stream_slots_bounded [OF this, of "''w''"] show ?thesis by (simp add: default_limits_def)
qed

end
