(* ===== verification/Gate_Oracle.thy ===== *)
theory Gate_Oracle
  imports Gate_Limits
begin

text \<open>
  \<^verbatim>\<open>src/rhpools/lp_gate.py\<close>, third part: the balance oracle (\<^verbatim>\<open>_Oracle\<close>) and the entitlement of a
  wallet (\<^verbatim>\<open>Gate.entitlement\<close>). The node is a function from a method and its parameters to a
  reply or an exception. The oracle gives up its lock while it waits for the node or for another
  thread; what the other threads do to it meanwhile is the argument \<open>env\<close>.
\<close>

record oracle_state =
  or_cache :: "(address, holding) odict"
  or_inflight :: "address list"
  or_supplies :: "(address, int option \<times> real) odict"
  or_supply_inflight :: "address list"

definition empty_oracle :: oracle_state where
  "empty_oracle = \<lparr>or_cache = [], or_inflight = [], or_supplies = [], or_supply_inflight = []\<rparr>"

definition forget_all :: "oracle_state \<Rightarrow> oracle_state" where
  "forget_all o1 = o1\<lparr>or_cache := [], or_supplies := []\<rparr>"

section \<open>Replies of the node\<close>

text \<open>\<^verbatim>\<open>except (OSError, ValueError, TypeError, KeyError)\<close>.\<close>

fun caught :: "py_error \<Rightarrow> bool" where
  "caught (OSError m) = True"
| "caught (ValueError m) = True"
| "caught (TypeError m) = True"
| "caught (KeyError m) = True"
| "caught _ = False"

text \<open>\<^verbatim>\<open>int(value, 16)\<close>.\<close>

definition json_base16 :: "json \<Rightarrow> py_error + int" where
  "json_base16 v =
    (case v of
       JStr s \<Rightarrow> int_base16 s
     | _ \<Rightarrow> Inl (TypeError ''int() can't convert non-string with explicit base''))"

definition uint256_reply :: "string \<Rightarrow> json \<Rightarrow> py_error + int" where
  "uint256_reply message v =
    (case v of
       JStr s \<Rightarrow> if length s = 66 then int_base16 s else Inl (ValueError message)
     | _ \<Rightarrow> Inl (ValueError message))"

definition call_params :: "address \<Rightarrow> string \<Rightarrow> int \<Rightarrow> json list" where
  "call_params to data block = [JObj [(''to'', JStr to), (''data'', JStr data)], JStr (hex_text block)]"

definition fetch_holding :: "node \<Rightarrow> address \<Rightarrow> address \<Rightarrow> real \<Rightarrow> py_error + holding" where
  "fetch_holding rpc token wallet now =
     bindr (bindr (rpc ''eth_blockNumber'' []) json_base16) (\<lambda>block.
     bindr (rpc ''eth_call'' (call_params token (''0x70a08231'' @ rjust 64 CHR ''0'' (lower (drop 2 wallet))) block)) (\<lambda>raw.
     bindr (uint256_reply ''balanceOf returned no uint256'' raw) (\<lambda>n.
       Inr \<lparr>h_wallet = wallet, h_balance_raw = n, h_block = block, h_observed_at = now, h_total_supply_raw = None\<rparr>)))"

definition fetch_supply :: "node \<Rightarrow> address \<Rightarrow> int \<Rightarrow> py_error + int" where
  "fetch_supply rpc token block =
     bindr (rpc ''eth_call'' (call_params token ''0x18160ddd'' block)) (uint256_reply ''totalSupply returned no uint256'')"

section \<open>Total supply\<close>

datatype 'a role = Known 'a | Leader | Follower

definition known_supply :: "address \<Rightarrow> real \<Rightarrow> oracle_state \<Rightarrow> int option option" where
  "known_supply token now o1 =
    (case map_of (or_supplies o1) token of
       Some (supply, at_time) \<Rightarrow> if now - at_time < ORACLE_TTL_S then Some supply else None
     | None \<Rightarrow> None)"

definition supply_begin :: "address \<Rightarrow> real \<Rightarrow> oracle_state \<Rightarrow> oracle_state \<times> int option role" where
  "supply_begin token now o1 =
    (case known_supply token now o1 of
       Some supply \<Rightarrow> (o1, Known supply)
     | None \<Rightarrow>
         if token \<in> set (or_supply_inflight o1) then (o1, Follower)
         else (o1\<lparr>or_supply_inflight := token # or_supply_inflight o1\<rparr>, Leader))"

definition supply_end :: "address \<Rightarrow> int option \<Rightarrow> real \<Rightarrow> oracle_state \<Rightarrow> oracle_state" where
  "supply_end token supply now o1 =
     o1\<lparr>or_supplies := od_set token (supply, now) (or_supplies o1),
        or_supply_inflight := remove1 token (or_supply_inflight o1)\<rparr>"

text \<open>A caught error counts as an unknown supply; any other passes after the \<^verbatim>\<open>finally\<close>.\<close>

definition supply_of :: "(oracle_state \<Rightarrow> oracle_state) \<Rightarrow> node \<Rightarrow> address \<Rightarrow> int \<Rightarrow> real \<Rightarrow> oracle_state \<Rightarrow> oracle_state \<times> (py_error + int option)" where
  "supply_of env rpc token block now o1 =
    (case supply_begin token now o1 of
       (o2, Known supply) \<Rightarrow> ret_st o2 supply
     | (o2, Follower) \<Rightarrow>
         (let o3 = env o2 in ret_st o3 (case known_supply token now o3 of Some supply \<Rightarrow> supply | None \<Rightarrow> None))
     | (o2, Leader) \<Rightarrow>
         (case fetch_supply rpc token block of
            Inr n \<Rightarrow> ret_st (supply_end token (Some n) now (env o2)) (Some n)
          | Inl e \<Rightarrow>
              (if caught e then ret_st (supply_end token None now (env o2)) None
               else raise_st (supply_end token None now (env o2)) e)))"

section \<open>Balances\<close>

definition observe_begin :: "address \<Rightarrow> real \<Rightarrow> oracle_state \<Rightarrow> oracle_state \<times> holding role" where
  "observe_begin wallet now o1 =
    (case map_of (or_cache o1) wallet of
       Some h \<Rightarrow>
         if now - h_observed_at h < ORACLE_TTL_S
         then (o1\<lparr>or_cache := od_move_to_end wallet (or_cache o1)\<rparr>, Known h)
         else if wallet \<in> set (or_inflight o1) then (o1, Follower)
         else (o1\<lparr>or_inflight := wallet # or_inflight o1\<rparr>, Leader)
     | None \<Rightarrow>
         if wallet \<in> set (or_inflight o1) then (o1, Follower)
         else (o1\<lparr>or_inflight := wallet # or_inflight o1\<rparr>, Leader))"

definition cache_put :: "address \<Rightarrow> holding \<Rightarrow> (address, holding) odict \<Rightarrow> (address, holding) odict" where
  "cache_put k v d = od_trim 4096 (od_move_to_end k (od_set k v d))"

definition observe_end :: "address \<Rightarrow> holding option \<Rightarrow> oracle_state \<Rightarrow> oracle_state" where
  "observe_end wallet got o1 =
     o1\<lparr>or_cache := (case got of None \<Rightarrow> or_cache o1 | Some h \<Rightarrow> cache_put wallet h (or_cache o1)),
        or_inflight := remove1 wallet (or_inflight o1)\<rparr>"

definition usable :: "holding option \<Rightarrow> real \<Rightarrow> real \<Rightarrow> holding option" where
  "usable cached now grace_s =
    (case cached of Some h \<Rightarrow> if now - h_observed_at h \<le> grace_s then Some h else None | None \<Rightarrow> None)"

definition with_supply ::
  "(oracle_state \<Rightarrow> oracle_state) \<Rightarrow> node \<Rightarrow> address \<Rightarrow> real \<Rightarrow> holding option \<Rightarrow> oracle_state \<Rightarrow> oracle_state \<times> (py_error + holding option)" where
  "with_supply env rpc token now result o1 =
    (case result of
       None \<Rightarrow> ret_st o1 None
     | Some h \<Rightarrow>
         bind_st (supply_of env rpc token (h_block h) now o1) (\<lambda>o2 supply.
           ret_st o2 (Some (h\<lparr>h_total_supply_raw := supply\<rparr>))))"

definition observe ::
  "(oracle_state \<Rightarrow> oracle_state) \<Rightarrow> node \<Rightarrow> address \<Rightarrow> address \<Rightarrow> real \<Rightarrow> real \<Rightarrow> oracle_state \<Rightarrow> oracle_state \<times> (py_error + holding option)" where
  "observe env rpc token wallet grace_s now o1 =
    (case observe_begin wallet now o1 of
       (o2, Known h) \<Rightarrow> with_supply env rpc token now (Some h) o2
     | (o2, Follower) \<Rightarrow>
         (let o3 = env o2 in with_supply env rpc token now (usable (map_of (or_cache o3) wallet) now grace_s) o3)
     | (o2, Leader) \<Rightarrow>
         (case fetch_holding rpc token wallet now of
            Inr h \<Rightarrow> with_supply env rpc token now (Some h) (observe_end wallet (Some h) (env o2))
          | Inl e \<Rightarrow>
              (let o3 = observe_end wallet None (env o2) in
               if caught e then with_supply env rpc token now (usable (map_of (or_cache o1) wallet) now grace_s) o3
               else raise_st o3 e)))"

interpretation cache: bounded_store cache_put 4096
  by (rule bounded_store_like) (simp add: cache_put_def put_lru_eq [symmetric] put_lru_def)

section \<open>The cache\<close>

definition oracle_ok :: "oracle_state \<Rightarrow> bool" where
  "oracle_ok o1 \<longleftrightarrow> od_ok (or_cache o1) \<and> length (or_cache o1) \<le> 4096 \<and> distinct (or_inflight o1) \<and>
     (\<forall>w h. map_of (or_cache o1) w = Some h \<longrightarrow> h_wallet h = w)"

lemma oracle_okD: "oracle_ok o1 \<Longrightarrow> map_of (or_cache o1) w = Some h \<Longrightarrow> h_wallet h = w"
  by (simp add: oracle_ok_def)

lemma oracle_ok_empty: "oracle_ok empty_oracle"
  by (simp add: oracle_ok_def empty_oracle_def)

lemma oracle_ok_forget: "oracle_ok o1 \<Longrightarrow> oracle_ok (forget_all o1)"
  by (simp add: oracle_ok_def forget_all_def)

lemma oracle_ok_begin: "oracle_ok o1 \<Longrightarrow> observe_begin w now o1 = (o2, r) \<Longrightarrow> oracle_ok o2"
  by (auto simp: observe_begin_def oracle_ok_def dict_simps split: option.splits if_splits)

lemma oracle_ok_end:
  assumes "oracle_ok o1" and "\<And>h. got = Some h \<Longrightarrow> h_wallet h = w"
  shows "oracle_ok (observe_end w got o1)"
proof (cases got)
  case None
  with assms(1) show ?thesis by (simp add: oracle_ok_def observe_end_def)
next
  case (Some h)
  have ok: "od_ok (or_cache o1)" and len: "length (or_cache o1) \<le> 4096" using assms(1) by (simp_all add: oracle_ok_def)
  have "h_wallet h' = v" if "map_of (cache_put w h (or_cache o1)) v = Some h'" for v h'
    using that cache.put_same [OF ok, of w h] cache.put_other [OF ok, of v w h h'] assms oracle_okD [OF assms(1), of v h'] Some
    by (cases "v = w") auto
  with Some assms(1) show ?thesis
    using cache.put_ok [OF ok] cache.put_bound [OF ok len] by (simp add: oracle_ok_def observe_end_def)
qed

lemma oracle_ok_supply_begin: "oracle_ok o1 \<Longrightarrow> supply_begin t now o1 = (o2, r) \<Longrightarrow> oracle_ok o2"
  by (auto simp: supply_begin_def oracle_ok_def split: option.splits if_splits)

lemma oracle_ok_supply_end: "oracle_ok o1 \<Longrightarrow> oracle_ok (supply_end t s now o1)"
  by (simp add: supply_end_def oracle_ok_def)

lemma oracle_ok_supply_of:
  assumes "oracle_ok o1" and env: "\<And>o1. oracle_ok o1 \<Longrightarrow> oracle_ok (env o1)"
  shows "oracle_ok (fst (supply_of env rpc t b now o1))"
proof -
  obtain o2 r where b: "supply_begin t now o1 = (o2, r)" by fastforce
  then have "oracle_ok o2" by (rule oracle_ok_supply_begin [OF assms(1)])
  with b show ?thesis
    by (auto simp: supply_of_def Let_def ret_st_def raise_st_def env oracle_ok_supply_end split: role.splits sum.splits)
qed

lemma oracle_ok_with_supply:
  assumes "oracle_ok o1" and "\<And>o1. oracle_ok o1 \<Longrightarrow> oracle_ok (env o1)"
  shows "oracle_ok (fst (with_supply env rpc t now res o1))"
proof (cases res)
  case None
  with assms(1) show ?thesis by (simp add: with_supply_def ret_st_def)
next
  case (Some h)
  have "oracle_ok (fst (supply_of env rpc t (h_block h) now o1))" by (rule oracle_ok_supply_of [OF assms])
  then show ?thesis
    unfolding with_supply_def Some option.case
    by (rule bind_st_invariant [where P = oracle_ok]) (simp add: ret_st_def)
qed

lemma with_supply_holding:
  "with_supply env rpc t now res o1 = (o2, Inr (Some h)) \<Longrightarrow>
    \<exists>h0. res = Some h0 \<and> h_wallet h = h_wallet h0 \<and> h_observed_at h = h_observed_at h0 \<and> h_balance_raw h = h_balance_raw h0"
  by (auto simp: with_supply_def result_simps split: option.splits)

lemma fetch_holding_Inr:
  "fetch_holding rpc t w now = Inr h \<Longrightarrow> h_wallet h = w \<and> h_observed_at h = now"
  by (auto simp: fetch_holding_def elim!: bindr_InrE)

text \<open>
  C14. What the oracle reports is usable: a holding it gives out is the asked wallet's, and it is
  younger than the cache's time to live or within the grace period, whatever the node replied
  and whatever other threads did to the oracle in between.
\<close>

theorem observed_holding_usable:
  assumes "oracle_ok o1" and "\<And>o1. oracle_ok o1 \<Longrightarrow> oracle_ok (env o1)"
    and "observe env rpc token wallet grace_s now o1 = (o2, Inr (Some h))"
  shows "h_wallet h = wallet \<and> (now - h_observed_at h < ORACLE_TTL_S \<or> now - h_observed_at h \<le> grace_s) \<and> oracle_ok o2"
proof -
  obtain o3 r where b: "observe_begin wallet now o1 = (o3, r)" by fastforce
  have o3: "oracle_ok o3" by (rule oracle_ok_begin [OF assms(1) b])
  obtain res o4 where w: "with_supply env rpc token now res o4 = (o2, Inr (Some h))" and o4: "oracle_ok o4"
    and res: "\<forall>h. res = Some h \<longrightarrow> h_wallet h = wallet \<and> (now - h_observed_at h < ORACLE_TTL_S \<or> now - h_observed_at h \<le> grace_s)"
  proof (cases r)
    case (Known h0)
    with b have "map_of (or_cache o1) wallet = Some h0" "now - h_observed_at h0 < ORACLE_TTL_S"
      by (auto simp: observe_begin_def split: option.splits if_splits)
    with that [OF _ o3] Known b assms(3) oracle_okD [OF assms(1)] show ?thesis by (simp add: observe_def)
  next
    case Follower
    let ?res = "usable (map_of (or_cache (env o3)) wallet) now grace_s"
    have "\<forall>h. ?res = Some h \<longrightarrow> h_wallet h = wallet \<and> now - h_observed_at h \<le> grace_s"
      using oracle_okD [OF assms(2) [OF o3]] by (auto simp: usable_def split: option.splits if_splits)
    with that [OF _ assms(2) [OF o3], of ?res] Follower b assms(3) show ?thesis by (simp add: observe_def Let_def)
  next
    case Leader
    show ?thesis
    proof (cases "fetch_holding rpc token wallet now")
      case (Inr h0)
      have "oracle_ok (observe_end wallet (Some h0) (env o3))"
        using fetch_holding_Inr [OF Inr] by (intro oracle_ok_end assms(2) o3) simp
      with that [of "Some h0"] Leader b assms(3) Inr fetch_holding_Inr [OF Inr] show ?thesis
        by (simp add: observe_def ORACLE_TTL_S_def)
    next
      case (Inl e)
      let ?res = "usable (map_of (or_cache o1) wallet) now grace_s"
      have "\<forall>h. ?res = Some h \<longrightarrow> h_wallet h = wallet \<and> now - h_observed_at h \<le> grace_s"
        using oracle_okD [OF assms(1)] by (auto simp: usable_def split: option.splits if_splits)
      moreover have "oracle_ok (observe_end wallet None (env o3))"
        by (intro oracle_ok_end assms(2) o3) simp
      ultimately show ?thesis using that [of ?res] Leader b assms(3) Inl
        by (auto simp: observe_def Let_def raise_st_def split: if_splits)
    qed
  qed
  from with_supply_holding [OF w] res have "h_wallet h = wallet \<and> (now - h_observed_at h < ORACLE_TTL_S \<or> now - h_observed_at h \<le> grace_s)"
    by auto
  moreover have "oracle_ok o2" using oracle_ok_with_supply [OF o4, of env rpc token now res] assms(2) w by simp
  ultimately show ?thesis by simp
qed

definition sample_node :: node where
  "sample_node method params =
    (if method = ''eth_blockNumber'' then Inr (JStr ''0x10'')
     else Inr (JStr (''0x'' @ rjust 64 CHR ''0'' ''7'')))"

theorem observed_holding_usable_witness:
  "\<exists>o2 h. observe (\<lambda>o1. o1) sample_node ''0xt'' ''0xw'' 60 100 empty_oracle = (o2, Inr (Some h)) \<and> h_wallet h = ''0xw'' \<and>
     h_balance_raw h = 7 \<and> oracle_ok o2"
proof -
  have "case observe (\<lambda>o1. o1) sample_node ''0xt'' ''0xw'' 60 100 empty_oracle of (o2, Inr (Some h)) \<Rightarrow> h_balance_raw h = 7 | _ \<Rightarrow> False"
    by code_simp
  then obtain o2 h where r: "observe (\<lambda>o1. o1) sample_node ''0xt'' ''0xw'' 60 100 empty_oracle = (o2, Inr (Some h))" "h_balance_raw h = 7"
    by (auto split: prod.splits sum.splits option.splits)
  from observed_holding_usable [OF oracle_ok_empty _ r(1)] r show ?thesis by blast
qed

section \<open>One fetch per wallet\<close>

text \<open>
  The oracle under any interleaving of its callers. The list holds the wallets whose leader is
  between its two steps.
\<close>

inductive oracle_reach :: "oracle_state \<Rightarrow> address list \<Rightarrow> bool" where
  oracle_init: "oracle_reach empty_oracle []"
| oracle_lead: "oracle_reach o1 ws \<Longrightarrow> observe_begin w now o1 = (o2, Leader) \<Longrightarrow> oracle_reach o2 (w # ws)"
| oracle_known: "oracle_reach o1 ws \<Longrightarrow> observe_begin w now o1 = (o2, Known h) \<Longrightarrow> oracle_reach o2 ws"
| oracle_follow: "oracle_reach o1 ws \<Longrightarrow> observe_begin w now o1 = (o2, Follower) \<Longrightarrow> oracle_reach o2 ws"
| oracle_finish: "oracle_reach o1 ws \<Longrightarrow> w \<in> set ws \<Longrightarrow> (\<And>h. got = Some h \<Longrightarrow> h_wallet h = w) \<Longrightarrow>
    oracle_reach (observe_end w got o1) (remove1 w ws)"
| oracle_supply_begin: "oracle_reach o1 ws \<Longrightarrow> supply_begin t now o1 = (o2, r) \<Longrightarrow> oracle_reach o2 ws"
| oracle_supply_end: "oracle_reach o1 ws \<Longrightarrow> oracle_reach (supply_end t s now o1) ws"
| oracle_forget: "oracle_reach o1 ws \<Longrightarrow> oracle_reach (forget_all o1) ws"

lemma oracle_reach_ok: "oracle_reach o1 ws \<Longrightarrow> oracle_ok o1 \<and> or_inflight o1 = ws"
proof (induction rule: oracle_reach.induct)
  case oracle_init
  then show ?case by (simp add: oracle_ok_empty) (simp add: empty_oracle_def)
next
  case (oracle_lead o1 ws w now o2)
  then show ?case
    using oracle_ok_begin [OF _ oracle_lead.hyps(2)] by (auto simp: observe_begin_def split: option.splits if_splits)
next
  case (oracle_finish o1 ws w got)
  then show ?case by (simp add: oracle_ok_end) (simp add: observe_end_def)
next
  case (oracle_known o1 ws w now o2 h)
  then show ?case
    using oracle_ok_begin [OF _ oracle_known.hyps(2)] by (auto simp: observe_begin_def split: option.splits if_splits)
next
  case (oracle_follow o1 ws w now o2)
  then show ?case
    using oracle_ok_begin [OF _ oracle_follow.hyps(2)] by (auto simp: observe_begin_def split: option.splits if_splits)
next
  case (oracle_supply_begin o1 ws t now o2 r)
  then show ?case
    using oracle_ok_supply_begin [OF _ oracle_supply_begin.hyps(2)] by (auto simp: supply_begin_def split: option.splits if_splits)
next
  case (oracle_supply_end o1 ws t s now)
  then show ?case by (simp add: oracle_ok_supply_end) (simp add: supply_end_def)
next
  case (oracle_forget o1 ws)
  then show ?case by (simp add: oracle_ok_forget) (simp add: forget_all_def)
qed

text \<open>
  C15. Single flight: however the callers interleave, no two threads ask the node for the same
  wallet at once, a caller is made leader only when no leader is under way, and the cache keeps
  at most 4096 holdings, each under its own wallet.
\<close>

theorem oracle_single_flight:
  assumes "oracle_reach o1 ws"
  shows "distinct ws \<and> length (or_cache o1) \<le> 4096 \<and>
    (\<forall>w h. map_of (or_cache o1) w = Some h \<longrightarrow> h_wallet h = w) \<and>
    (\<forall>w now o2. observe_begin w now o1 = (o2, Leader) \<longrightarrow> w \<notin> set ws)"
  using oracle_reach_ok [OF assms]
  by (auto simp: oracle_ok_def observe_begin_def split: option.splits if_splits)

theorem oracle_single_flight_witness: "distinct [''w''] \<and> observe_begin ''w'' 1 (fst (observe_begin ''w'' 0 empty_oracle)) \<noteq> (empty_oracle, Leader)"
proof -
  have "oracle_reach (fst (observe_begin ''w'' 0 empty_oracle)) [''w'']"
    by (rule oracle_lead [OF oracle_init, of "''w''" 0]) (simp add: observe_begin_def empty_oracle_def)
  from oracle_single_flight [OF this] show ?thesis by (metis list.set_intros(1))
qed

section \<open>The entitlement of a wallet\<close>

text \<open>The table \<^verbatim>\<open>qualified\<close>: when a balance last sufficed, and under which policy version.\<close>

type_synonym qualified_rows = "address \<times> feature \<Rightarrow> (real \<times> int) option"

definition dropped_anchors :: "gate_policy \<Rightarrow> holding option \<Rightarrow> (feature \<Rightarrow> (real \<times> int) option) \<Rightarrow> real \<Rightarrow> feature list" where
  "dropped_anchors p h anchors now =
    (case h of
       Some x \<Rightarrow>
         if now - h_observed_at x < ORACLE_TTL_S
         then filter (\<lambda>f. anchors f \<noteq> None \<and> gp_threshold p f > 0 \<and> h_balance_raw x < gp_threshold p f) FEATURES
         else []
     | None \<Rightarrow> [])"

definition moved_anchors ::
  "gate_policy \<Rightarrow> holding \<Rightarrow> (feature \<Rightarrow> (real \<times> int) option) \<Rightarrow> entitlement \<Rightarrow> feature list" where
  "moved_anchors p h anchors ent =
     filter (\<lambda>f. gp_threshold p f > 0 \<and>
       (case anchors f of
          None \<Rightarrow> True
        | Some (at_time, version) \<Rightarrow> version \<noteq> gp_version p \<or> h_observed_at h - at_time \<ge> QUALIFIED_WRITE_STEP_S))
       (qualified_features ent)"

text \<open>
  A feature with a threshold qualifies by a balance only (\<open>qualified_has_holding\<close> below), so
  without a holding no anchor moves.
\<close>

definition settle_anchors ::
  "gate_policy \<Rightarrow> address \<Rightarrow> holding option \<Rightarrow> real \<Rightarrow> qualified_rows \<Rightarrow> qualified_rows \<times> entitlement" where
  "settle_anchors p wallet h now rows =
    (let anchors = (\<lambda>f. rows (wallet, f));
         dropped = dropped_anchors p h anchors now;
         rows1 = (\<lambda>(w, f). if w = wallet \<and> f \<in> set dropped then None else rows (w, f));
         anchors1 = (\<lambda>f. rows1 (wallet, f));
         ent = entitle p \<lparr>hs_wallet = wallet, hs_holding = h, hs_last_ok = anchors1\<rparr> now;
         rows2 = (case h of
             None \<Rightarrow> rows1
           | Some x \<Rightarrow> (\<lambda>(w, f). if w = wallet \<and> f \<in> set (moved_anchors p x anchors1 ent)
                                then Some (h_observed_at x, gp_version p) else rows1 (w, f)))
     in (rows2, ent))"

definition entitlement_of ::
  "(oracle_state \<Rightarrow> oracle_state) \<Rightarrow> node \<Rightarrow> gate_policy \<Rightarrow> address \<Rightarrow> real \<Rightarrow> oracle_state \<times> qualified_rows \<Rightarrow>
    (oracle_state \<times> qualified_rows) \<times> (py_error + entitlement)" where
  "entitlement_of env rpc p wallet now = (\<lambda>(o1, rows).
    (case gp_token p of
       None \<Rightarrow> (let (rows2, ent) = settle_anchors p wallet None now rows in ret_st (o1, rows2) ent)
     | Some token \<Rightarrow>
         (case observe env rpc token wallet (of_int (gp_grace_s p)) now o1 of
            (o2, Inl e) \<Rightarrow> raise_st (o2, rows) e
          | (o2, Inr h) \<Rightarrow> (let (rows2, ent) = settle_anchors p wallet h now rows in ret_st (o2, rows2) ent))))"

lemma grace_features_iff:
  "f \<in> fst ` set (snd (entitle_features p st now fs)) \<longleftrightarrow> f \<in> set fs \<and> gp_threshold p f \<noteq> 0 \<and>
     \<not> balance_ok p (hs_holding st) now f \<and> grace_anchor p st now f \<noteq> None"
proof (induction fs)
  case (Cons g fs)
  then show ?case
    by (cases "grace_anchor p st now g"; cases "f = g") (auto simp: Let_def image_iff split_beta)
qed simp

lemma qualified_iff:
  assumes "gp_token p \<noteq> None"
  shows "f \<in> set (qualified_features (entitle p st now)) \<longleftrightarrow> gp_threshold p f = 0 \<or> balance_ok p (hs_holding st) now f"
proof -
  have "en_features (entitle p st now) = fst (entitle_features p st now FEATURES)"
    "en_grace_until (entitle p st now) = snd (entitle_features p st now FEATURES)"
    using assms by (auto simp: entitle_def split: prod.splits if_splits)
  then show ?thesis
    using entitle_features_iff [of f p st now FEATURES] grace_features_iff [of f p st now FEATURES]
    by (auto simp: qualified_features_def)
qed

lemma has_feature_iff:
  assumes "gp_token p \<noteq> None"
  shows "has_feature (entitle p st now) f \<longleftrightarrow>
    gp_threshold p f = 0 \<or> balance_ok p (hs_holding st) now f \<or> grace_anchor p st now f \<noteq> None"
proof -
  have "en_features (entitle p st now) = fst (entitle_features p st now FEATURES)"
    using assms by (auto simp: entitle_def split: prod.splits if_splits)
  then show ?thesis by (simp add: has_feature_def entitle_features_iff)
qed

lemma qualified_has_holding:
  "gp_token p \<noteq> None \<Longrightarrow> f \<in> set (qualified_features (entitle p st now)) \<Longrightarrow> gp_threshold p f > 0 \<Longrightarrow>
    \<exists>h. hs_holding st = Some h \<and> is_fresh (Some h) now"
  by (auto simp: qualified_iff balance_ok_def split: option.splits)

lemma entitle_holding [simp]: "en_holding (entitle p st now) = hs_holding st"
  by (simp add: entitle_def split: prod.splits)

text \<open>What is written for a feature with a threshold.\<close>

definition anchor_follows :: "gate_policy \<Rightarrow> address \<Rightarrow> feature \<Rightarrow> real \<Rightarrow> qualified_rows \<Rightarrow> qualified_rows \<Rightarrow> entitlement \<Rightarrow> bool" where
  "anchor_follows p w f now rows rows2 ent \<longleftrightarrow>
    (case en_holding ent of
       Some h \<Rightarrow>
         if \<not> is_fresh (Some h) now then rows2 (w, f) = rows (w, f)
         else if gp_threshold p f \<le> h_balance_raw h
         then has_feature ent f \<and> (\<exists>a. rows2 (w, f) = Some (a, gp_version p) \<and> h_observed_at h - a < QUALIFIED_WRITE_STEP_S)
         else \<not> has_feature ent f \<and> rows2 (w, f) = None
     | None \<Rightarrow> rows2 (w, f) = rows (w, f))"

lemma settle_anchor_follows:
  assumes tok: "gp_token p \<noteq> None" and pos: "0 < gp_threshold p f" and s: "settle_anchors p w h now rows = (rows2, ent)"
  shows "anchor_follows p w f now rows rows2 ent"
proof (cases h)
  case None
  with s show ?thesis
    by (auto simp: settle_anchors_def Let_def anchor_follows_def dropped_anchors_def)
next
  case (Some x)
  define anchors1 where "anchors1 = (\<lambda>g. if g \<in> set (dropped_anchors p h (\<lambda>f. rows (w, f)) now) then None else rows (w, g))"
  define st where "st = \<lparr>hs_wallet = w, hs_holding = Some x, hs_last_ok = anchors1\<rparr>"
  have ent: "ent = entitle p st now"
    and r2: "rows2 (w, f) = (if f \<in> set (moved_anchors p x anchors1 ent) then Some (h_observed_at x, gp_version p) else anchors1 f)"
    using s Some by (auto simp: settle_anchors_def Let_def st_def anchors1_def cong: if_cong)
  have q: "f \<in> set (qualified_features ent) \<longleftrightarrow> balance_ok p (Some x) now f"
    using pos by (simp add: ent qualified_iff [OF tok] st_def)
  have ok: "balance_ok p (Some x) now f \<longleftrightarrow> is_fresh (Some x) now \<and> gp_threshold p f \<le> h_balance_raw x"
    by (simp add: balance_ok_def)
  have fr: "is_fresh (Some x) now \<longleftrightarrow> now - h_observed_at x < ORACLE_TTL_S"
    by (simp add: is_fresh_def)
  have hol: "en_holding ent = Some x" by (simp add: ent st_def)
  show ?thesis
  proof (cases "is_fresh (Some x) now")
    case False
    then have "anchors1 f = rows (w, f)" using fr by (simp add: anchors1_def dropped_anchors_def Some)
    with False q ok r2 hol show ?thesis by (simp add: anchor_follows_def moved_anchors_def)
  next
    case True
    show ?thesis
    proof (cases "gp_threshold p f \<le> h_balance_raw x")
      case enough: True
      have "has_feature ent f" using True enough ok by (simp add: ent has_feature_iff [OF tok] st_def)
      moreover have "\<exists>a. rows2 (w, f) = Some (a, gp_version p) \<and> h_observed_at x - a < QUALIFIED_WRITE_STEP_S"
        using True enough q ok pos r2 by (auto simp: moved_anchors_def QUALIFIED_WRITE_STEP_S_def split: option.splits prod.splits)
      ultimately show ?thesis using True enough hol by (simp add: anchor_follows_def)
    next
      case below: False
      have "anchors1 f = None"
        using True below fr pos by (cases "rows (w, f)") (auto simp: anchors1_def dropped_anchors_def Some)
      moreover have "\<not> has_feature ent f"
        using True below ok pos by (simp add: ent has_feature_iff [OF tok] st_def grace_anchor_def split: option.split prod.split)
      ultimately show ?thesis using True below q ok r2 hol by (simp add: anchor_follows_def moved_anchors_def)
    qed
  qed
qed

text \<open>
  The record of who qualified follows the balances: after a fresh balance a feature with a
  threshold is granted and anchored at most five seconds behind when the balance suffices, and is
  refused with its anchor gone when it does not; without a fresh balance the anchors stay as they
  were, and no other wallet's anchors change.
\<close>

theorem anchors_follow_balance:
  assumes "gp_token p = Some token" and "0 < gp_threshold p f"
    and "entitlement_of env rpc p w now (o1, rows) = ((o2, rows2), Inr ent)"
  shows "anchor_follows p w f now rows rows2 ent \<and> (\<forall>w' g. w' \<noteq> w \<longrightarrow> rows2 (w', g) = rows (w', g))"
proof -
  obtain h where s: "settle_anchors p w h now rows = (rows2, ent)"
    using assms(1,3) by (auto simp: entitlement_of_def Let_def ret_st_def raise_st_def split: prod.splits sum.splits)
  moreover have "\<forall>w' g. w' \<noteq> w \<longrightarrow> rows2 (w', g) = rows (w', g)"
    using s by (auto simp: settle_anchors_def Let_def split: option.splits)
  ultimately show ?thesis using settle_anchor_follows [OF _ assms(2) s] assms(1) by simp
qed

theorem anchors_follow_balance_witness:
  "let r = entitlement_of (\<lambda>o1. o1) sample_node (grace_policy\<lparr>gp_threshold := (\<lambda>_. 8)\<rparr>) ''0xw'' 100 (empty_oracle, \<lambda>_. Some (90, 2))
   in snd (fst r) (''0xw'', Api) = None \<and> snd (fst r) (''0xv'', Api) = Some (90, 2)"
proof -
  let ?p = "grace_policy\<lparr>gp_threshold := (\<lambda>_. 8)\<rparr>"
  let ?r = "entitlement_of (\<lambda>o1. o1) sample_node ?p ''0xw'' 100 (empty_oracle, \<lambda>_. Some (90, 2))"
  have "case ?r of (st, Inr ent) \<Rightarrow> (case en_holding ent of Some h \<Rightarrow> is_fresh (Some h) 100 \<and> h_balance_raw h < 8 | None \<Rightarrow> False) | _ \<Rightarrow> False"
    by code_simp
  then obtain o2 rows2 ent h where r: "?r = ((o2, rows2), Inr ent)" "en_holding ent = Some h" "is_fresh (Some h) 100" "h_balance_raw h < 8"
    by (auto split: prod.splits sum.splits option.splits)
  have "gp_token ?p = Some ''0xT''" "0 < gp_threshold ?p Api" by (simp_all add: grace_policy_def)
  from anchors_follow_balance [OF this r(1)] r show ?thesis by (simp add: anchor_follows_def)
qed

end
