(* ===== verification/Gate_Siwe.thy ===== *)
theory Gate_Siwe
  imports Gate_Oracle
begin

text \<open>
  \<^verbatim>\<open>src/rhpools/lp_gate_siwe.py\<close>: the EIP-4361 message, its parsing, and the checks of signatures
  by key recovery and by ERC-1271. The pattern \<^verbatim>\<open>_MESSAGE_RE\<close> is deterministic, line after line;
  \<open>parse_message\<close> matches it so. Key recovery and address checksums are third-party code, fields
  of \<open>siwe_lib\<close>; \<^verbatim>\<open>datetime.fromisoformat\<close> is a field too: a text denotes an instant, or it has
  no time zone, or it is refused.
\<close>

datatype iso_time = Instant real | Naive | NotIso

record siwe_lib =
  checksum :: "string \<Rightarrow> address option"
  ecrecover :: "bytes \<Rightarrow> bytes \<Rightarrow> address option"
  fromisoformat :: "string \<Rightarrow> iso_time"
  bracketed_host_ok :: "string \<Rightarrow> bool"

record siwe_message =
  sm_domain :: string
  sm_address :: address
  sm_statement :: "string option"
  sm_uri :: string
  sm_version :: string
  sm_chain_id :: int
  sm_nonce :: string
  sm_issued_at :: real
  sm_expiration_time :: "real option"
  sm_not_before :: "real option"

section \<open>Messages\<close>

abbreviation newline :: char where "newline \<equiv> CHR 0x0A"

definition build_message ::
  "string \<Rightarrow> address \<Rightarrow> string \<Rightarrow> string \<Rightarrow> int \<Rightarrow> string \<Rightarrow> string \<Rightarrow> string \<Rightarrow> string" where
  "build_message site address statement uri chain_id nonce issued_at expiration_time =
     site @ '' wants you to sign in with your Ethereum account:'' @ [newline] @ address @ [newline, newline] @
     statement @ [newline, newline] @ ''URI: '' @ uri @ [newline] @ ''Version: 1'' @ [newline] @
     ''Chain ID: '' @ int_text chain_id @ [newline] @ ''Nonce: '' @ nonce @ [newline] @
     ''Issued At: '' @ issued_at @ [newline] @ ''Expiration Time: '' @ expiration_time"

fun split_lines :: "string \<Rightarrow> string list" where
  "split_lines [] = [[]]"
| "split_lines (c # s) =
     (if c = newline then [] # split_lines s
      else case split_lines s of [] \<Rightarrow> [[c]] | l # ls \<Rightarrow> (c # l) # ls)"

text \<open>The rest of a line behind its label.\<close>

definition labelled :: "string \<Rightarrow> string \<Rightarrow> string option" where
  "labelled label line = (if take (length label) line = label then Some (drop (length label) line) else None)"

definition strip_end :: "string \<Rightarrow> string \<Rightarrow> string option" where
  "strip_end tail line =
    (if length tail \<le> length line \<and> drop (length line - length tail) line = tail
     then Some (take (length line - length tail) line) else None)"

definition is_hex :: "char \<Rightarrow> bool" where "is_hex c \<longleftrightarrow> hex_value c \<noteq> None"

definition is_alnum :: "char \<Rightarrow> bool" where
  "is_alnum c \<longleftrightarrow> is_digit c \<or> (let n = of_char c :: nat in (65 \<le> n \<and> n \<le> 90) \<or> (97 \<le> n \<and> n \<le> 122))"

text \<open>\<^verbatim>\<open>_ADDRESS_RE\<close> and \<^verbatim>\<open>_HEX_RE\<close>, matched to the end of the text.\<close>

definition address_text :: "string \<Rightarrow> bool" where
  "address_text s \<longleftrightarrow> take 2 s = ''0x'' \<and> length s = 42 \<and> list_all is_hex (drop 2 s)"

definition hex_literal :: "string \<Rightarrow> bool" where
  "hex_literal s \<longleftrightarrow> take 2 s = ''0x'' \<and> list_all is_hex (drop 2 s)"

definition malformed :: "py_error + 'a" where "malformed = Inl (ValueError ''Malformed SIWE message'')"

text \<open>A line with a label and a text that passes a test; an optional one is skipped when it does not match.\<close>

definition field_line :: "string \<Rightarrow> (string \<Rightarrow> bool) \<Rightarrow> string list \<Rightarrow> py_error + string \<times> string list" where
  "field_line label ok ls =
    (case ls of
       l # rest \<Rightarrow> (case labelled label l of Some v \<Rightarrow> if ok v then Inr (v, rest) else malformed | None \<Rightarrow> malformed)
     | [] \<Rightarrow> malformed)"

definition optional_line :: "string \<Rightarrow> (string \<Rightarrow> bool) \<Rightarrow> string list \<Rightarrow> string option \<times> string list" where
  "optional_line label ok ls =
    (case field_line label ok ls of Inr (v, rest) \<Rightarrow> (Some v, rest) | Inl e \<Rightarrow> (None, ls))"

definition resources_end :: "string list \<Rightarrow> bool" where
  "resources_end ls =
    (case ls of
       [] \<Rightarrow> True
     | l # rest \<Rightarrow> l = ''Resources:'' \<and> list_all (\<lambda>r. case labelled ''- '' r of Some v \<Rightarrow> v \<noteq> [] | None \<Rightarrow> False) rest)"

definition timestamp :: "siwe_lib \<Rightarrow> string \<Rightarrow> py_error + real" where
  "timestamp lib text =
    (case fromisoformat lib text of
       Instant t \<Rightarrow> Inr t
     | Naive \<Rightarrow> Inl (ValueError ''SIWE timestamps need a timezone'')
     | NotIso \<Rightarrow> Inl (ValueError ''Invalid isoformat string''))"

definition opt_timestamp :: "siwe_lib \<Rightarrow> string option \<Rightarrow> py_error + real option" where
  "opt_timestamp lib text = (case text of None \<Rightarrow> Inr None | Some s \<Rightarrow> bindr (timestamp lib s) (\<lambda>t. Inr (Some t)))"

definition statement_lines :: "string list \<Rightarrow> py_error + string option \<times> string list" where
  "statement_lines ls =
    (case ls of
       [] # rest \<Rightarrow> Inr (None, rest)
     | s # [] # rest \<Rightarrow> Inr (Some s, rest)
     | _ \<Rightarrow> malformed)"

definition head_lines :: "string list \<Rightarrow> py_error + (string \<times> string) \<times> string list" where
  "head_lines ls =
    (case ls of
       first # address # [] # rest \<Rightarrow>
         (case strip_end '' wants you to sign in with your Ethereum account:'' first of
            Some site \<Rightarrow> if site \<noteq> [] \<and> address_text address then Inr ((site, address), rest) else malformed
          | None \<Rightarrow> malformed)
     | _ \<Rightarrow> malformed)"

definition nonempty :: "string \<Rightarrow> bool" where "nonempty s \<longleftrightarrow> s \<noteq> []"
definition digits_only :: "string \<Rightarrow> bool" where "digits_only s \<longleftrightarrow> s \<noteq> [] \<and> list_all is_digit s"
definition nonce_text :: "string \<Rightarrow> bool" where "nonce_text s \<longleftrightarrow> length s \<ge> 8 \<and> list_all is_alnum s"

definition parse_message :: "siwe_lib \<Rightarrow> string \<Rightarrow> py_error + siwe_message" where
  "parse_message lib text =
    (if length text > 4096 then Inl (ValueError ''SIWE message too long'')
     else
       bindr (head_lines (split_lines text)) (\<lambda>((site, address), ls).
       bindr (statement_lines ls) (\<lambda>(statement, ls).
       bindr (field_line ''URI: '' nonempty ls) (\<lambda>(uri, ls).
       bindr (field_line ''Version: '' nonempty ls) (\<lambda>(version, ls).
       bindr (field_line ''Chain ID: '' digits_only ls) (\<lambda>(chain_id, ls).
       bindr (field_line ''Nonce: '' nonce_text ls) (\<lambda>(nonce, ls).
       bindr (field_line ''Issued At: '' nonempty ls) (\<lambda>(issued_at, ls).
       (let (expiration, ls) = optional_line ''Expiration Time: '' nonempty ls;
            (not_before, ls) = optional_line ''Not Before: '' nonempty ls;
            (request_id, ls) = optional_line ''Request ID: '' (\<lambda>_. True) ls
        in
          if \<not> resources_end ls then malformed
          else if version \<noteq> ''1'' then Inl (ValueError ''Unsupported SIWE version'')
          else
            (case checksum lib address of
               None \<Rightarrow> Inl (ValueError ''not an address'')
             | Some a \<Rightarrow>
                 bindr (int_of_text chain_id) (\<lambda>chain.
                 bindr (timestamp lib issued_at) (\<lambda>issued.
                 bindr (opt_timestamp lib expiration) (\<lambda>expires.
                 bindr (opt_timestamp lib not_before) (\<lambda>starts.
                   Inr \<lparr>sm_domain = site, sm_address = a, sm_statement = statement, sm_uri = uri, sm_version = version,
                        sm_chain_id = chain, sm_nonce = nonce, sm_issued_at = issued, sm_expiration_time = expires,
                        sm_not_before = starts\<rparr>))))))))))))))"

lemma split_lines_line: "newline \<notin> set l \<Longrightarrow> split_lines (l @ newline # s) = l # split_lines s"
  by (induction l) (auto split: list.split)

lemma split_lines_end: "newline \<notin> set l \<Longrightarrow> split_lines l = [l]"
  by (induction l) auto

lemma split_lines_join: "ls \<noteq> [] \<Longrightarrow> \<forall>l \<in> set ls. newline \<notin> set l \<Longrightarrow> split_lines (join_text [newline] ls) = ls"
  by (induction "[newline]" ls rule: join_text.induct) (auto simp: split_lines_end split_lines_line)

lemma field_line_build: "ok v \<Longrightarrow> field_line label ok ((label @ v) # ls) = Inr (v, ls)"
  by (simp add: field_line_def labelled_def)

lemma strip_end_build: "strip_end tail (s @ tail) = Some s"
  by (simp add: strip_end_def)

lemma nat_text_chars: "c \<in> set (nat_text n) \<Longrightarrow> is_digit c"
  using nat_text_digits [of n] by (auto simp: list_all_iff)

lemma parse_build_message:
  assumes lines: "\<forall>s \<in> {site, statement, uri, issued_at, expires_at}. s \<noteq> [] \<and> newline \<notin> set s"
    and address: "address_text address" "checksum lib address = Some a"
    and "0 \<le> chain_id" and nonce: "nonce_text nonce"
    and "fromisoformat lib issued_at = Instant t0" and "fromisoformat lib expires_at = Instant t1"
    and "length (build_message site address statement uri chain_id nonce issued_at expires_at) \<le> 4096"
  shows "parse_message lib (build_message site address statement uri chain_id nonce issued_at expires_at) =
    Inr \<lparr>sm_domain = site, sm_address = a, sm_statement = Some statement, sm_uri = uri, sm_version = ''1'',
      sm_chain_id = chain_id, sm_nonce = nonce, sm_issued_at = t0, sm_expiration_time = Some t1, sm_not_before = None\<rparr>"
proof -
  have hex: "newline \<notin> set s" if "list_all is_hex s" for s
    using that by (auto simp: list_all_iff is_hex_def hex_value_def)
  have addr: "newline \<notin> set address"
  proof -
    have "address = ''0x'' @ drop 2 address"
      using address(1) append_take_drop_id [of 2 address] by (simp add: address_text_def)
    then show ?thesis using hex [of "drop 2 address"] address(1) by (auto simp: address_text_def dest: arg_cong [of _ _ set])
  qed
  have num: "int_text chain_id = nat_text (nat chain_id)" using assms(4) by (simp add: int_text_def)
  have chain: "digits_only (int_text chain_id)" "newline \<notin> set (int_text chain_id)"
    using nat_text_digits [of "nat chain_id"] nat_text_chars [of newline "nat chain_id"]
    by (auto simp: num digits_only_def is_digit_def)
  have non: "newline \<notin> set nonce" using nonce by (auto simp: nonce_text_def list_all_iff is_alnum_def is_digit_def)
  let ?tail = "'' wants you to sign in with your Ethereum account:''"
  have split: "split_lines (build_message site address statement uri chain_id nonce issued_at expires_at) =
    [site @ ?tail, address, [], statement, [], ''URI: '' @ uri, ''Version: 1'', ''Chain ID: '' @ int_text chain_id,
     ''Nonce: '' @ nonce, ''Issued At: '' @ issued_at, ''Expiration Time: '' @ expires_at]"
    (is "_ = ?lines")
  proof -
    have "build_message site address statement uri chain_id nonce issued_at expires_at = join_text [newline] ?lines"
      by (simp add: build_message_def)
    moreover have "\<forall>l \<in> set ?lines. newline \<notin> set l"
      using lines addr chain(2) non by auto
    ultimately show ?thesis using split_lines_join [of ?lines] by simp
  qed
  have head: "head_lines ((site @ ?tail) # address # [] # rest) = Inr ((site, address), rest)" for rest
    using strip_end_build [of ?tail site] lines address(1) by (simp add: head_lines_def)
  have stat: "statement_lines (statement # [] # rest) = Inr (Some statement, rest)" for rest
    using lines by (cases statement) (simp_all add: statement_lines_def)
  have opt: "optional_line ''Expiration Time: '' nonempty [''Expiration Time: '' @ expires_at] = (Some expires_at, [])"
    using field_line_build [of nonempty expires_at "''Expiration Time: ''" "[]"] lines
    by (simp add: optional_line_def nonempty_def)
  have none: "optional_line label ok [] = (None, [])" for label ok
    by (simp add: optional_line_def field_line_def malformed_def)
  have short: "\<not> 4096 < length (build_message site address statement uri chain_id nonce issued_at expires_at)"
    using assms(8) by simp
  show ?thesis
    using lines chain(1) nonce opt
      field_line_build [of nonempty "''1''" "''Version: ''"] field_line_build [of nonempty uri "''URI: ''"]
      field_line_build [of digits_only "int_text chain_id" "''Chain ID: ''"] field_line_build [of nonce_text nonce "''Nonce: ''"]
      field_line_build [of nonempty issued_at "''Issued At: ''"]
    unfolding parse_message_def split
    by (simp add: head stat none short nonempty_def resources_end_def timestamp_def opt_timestamp_def assms(3,6,7))
qed

text \<open>
  A message that the gate's own builder writes is read back field by field, for any domain,
  statement, URI, nonce and instants that fit on a line.
\<close>

theorem siwe_roundtrip:
  assumes lines: "\<forall>s \<in> {site, statement, uri, issued_at, expires_at}. s \<noteq> [] \<and> newline \<notin> set s"
    and address: "address_text address" "checksum lib address = Some a"
    and "0 \<le> chain_id" and nonce: "nonce_text nonce"
    and "fromisoformat lib issued_at = Instant t0" and "fromisoformat lib expires_at = Instant t1"
    and "length (build_message site address statement uri chain_id nonce issued_at expires_at) \<le> 4096"
  shows "parse_message lib (build_message site address statement uri chain_id nonce issued_at expires_at) =
    Inr \<lparr>sm_domain = site, sm_address = a, sm_statement = Some statement, sm_uri = uri, sm_version = ''1'',
      sm_chain_id = chain_id, sm_nonce = nonce, sm_issued_at = t0, sm_expiration_time = Some t1, sm_not_before = None\<rparr>"
  using assms by (rule parse_build_message)

definition sample_siwe :: siwe_lib where
  "sample_siwe = \<lparr>checksum = Some, ecrecover = (\<lambda>h s. Some (''0x'' @ replicate 40 CHR ''a'')),
     fromisoformat = (\<lambda>s. if s = ''2025-01-01T00:00:00Z'' then Instant 100
       else if s = ''2025-01-01T00:10:00Z'' then Instant 700 else NotIso),
     bracketed_host_ok = (\<lambda>_. True)\<rparr>"

theorem siwe_roundtrip_witness:
  "\<exists>m. parse_message sample_siwe (build_message ''pools.test'' (''0x'' @ replicate 40 CHR ''a'') ''Sign in.'' ''https://pools.test/''
      4663 ''abcdef12'' ''2025-01-01T00:00:00Z'' ''2025-01-01T00:10:00Z'') = Inr m \<and> sm_nonce m = ''abcdef12'' \<and> sm_chain_id m = 4663"
proof -
  let ?a = "''0x'' @ replicate 40 CHR ''a''"
  have "address_text ?a" "nonce_text ''abcdef12''"
    and "length (build_message ''pools.test'' ?a ''Sign in.'' ''https://pools.test/'' 4663 ''abcdef12'' ''2025-01-01T00:00:00Z''
      ''2025-01-01T00:10:00Z'') \<le> 4096"
    by code_simp+
  from siwe_roundtrip [OF _ this(1) _ _ this(2) _ _ this(3), of sample_siwe ?a 100 700]
  show ?thesis by (simp add: sample_siwe_def)
qed

section \<open>Signatures\<close>

definition signature_bytes :: "string \<Rightarrow> py_error + bytes" where
  "signature_bytes signature =
    (if \<not> hex_literal signature \<or> length signature \<noteq> 132 then Inl (ValueError ''Signature must be 65 hex bytes'')
     else bindr (bytes_fromhex (drop 2 signature)) (\<lambda>raw.
       let v0 = uint (raw ! 64); v = (if v0 \<ge> 27 then v0 - 27 else v0) in
       if v \<noteq> 0 \<and> v \<noteq> 1 then Inl (ValueError ''Signature recovery id out of range'')
       else Inr (take 64 raw @ [word_of_int v])))"

definition recover_signer :: "siwe_lib \<Rightarrow> bytes \<Rightarrow> string \<Rightarrow> py_error + address" where
  "recover_signer lib msg_hash signature =
     bindr (signature_bytes signature) (\<lambda>sig.
       case ecrecover lib msg_hash sig of
         Some a \<Rightarrow> Inr a
       | None \<Rightarrow> Inl (ValueError ''Signature does not recover''))"

definition personal_sign_hash :: "eth_lib \<Rightarrow> string \<Rightarrow> bytes" where
  "personal_sign_hash eth message =
    (let body = text_bytes message
     in keccak eth (0x19 # text_bytes ''Ethereum Signed Message:'' @ [10] @ text_bytes (nat_text (length body)) @ body))"

definition is_contract_code :: "string option \<Rightarrow> bool" where
  "is_contract_code code =
    (let c = lower (case code of None \<Rightarrow> ''0x'' | Some s \<Rightarrow> if s = [] then ''0x'' else s)
     in length c > 2 \<and> take 8 c \<noteq> ''0xef0100'')"

definition erc1271_calldata :: "bytes \<Rightarrow> string \<Rightarrow> py_error + string" where
  "erc1271_calldata msg_hash signature =
     bindr (bytes_fromhex (drop 2 signature)) (\<lambda>raw.
     bindr (to_bytes_big 32 (int (length raw))) (\<lambda>size.
       Inr (''0x'' @ hex_of_bytes ([0x16, 0x26, 0xba, 0x7e] @ msg_hash @ be_bytes 32 64 @ size @
         raw @ replicate (nat (- int (length raw) mod 32)) 0))))"

definition verify_signer :: "siwe_lib \<Rightarrow> address \<Rightarrow> bytes \<Rightarrow> string \<Rightarrow> node option \<Rightarrow> py_error + bool" where
  "verify_signer lib address msg_hash signature rpc =
    (if \<not> address_text address then Inr False
     else
       (case recover_signer lib msg_hash signature of
          Inl e \<Rightarrow> (case e of ValueError m \<Rightarrow> Inr False | _ \<Rightarrow> Inl e)
        | Inr signer \<Rightarrow>
            if lower signer = lower address then Inr True
            else
              (case rpc of
                 None \<Rightarrow> Inr False
               | Some call \<Rightarrow>
                   bindr (call ''eth_getCode'' [JStr address, JStr ''latest'']) (\<lambda>code.
                   if \<not> is_contract_code (case code of JStr s \<Rightarrow> Some s | _ \<Rightarrow> None) then Inr False
                   else
                     bindr (erc1271_calldata msg_hash signature) (\<lambda>data.
                     bindr (call ''eth_call'' [JObj [(''to'', JStr address), (''data'', JStr data)], JStr ''latest'']) (\<lambda>result.
                       Inr (case result of JStr s \<Rightarrow> take 10 (lower s) = ''0x1626ba7e'' | _ \<Rightarrow> False)))))))"

text \<open>
  \<^verbatim>\<open>urlsplit(uri).netloc.lower()\<close> on ASCII text: leading control characters and spaces and every
  tab and line break go, then the scheme, then what stands between \<^verbatim>\<open>//\<close> and the next delimiter.
\<close>

definition scheme_char :: "char \<Rightarrow> bool" where
  "scheme_char c \<longleftrightarrow> is_alnum c \<or> c \<in> {CHR ''+'', CHR ''-'', CHR ''.''}"

definition after_scheme :: "string \<Rightarrow> string" where
  "after_scheme url =
    (let scheme = takeWhile (\<lambda>c. c \<noteq> CHR '':'') url in
     if length scheme < length url \<and> scheme \<noteq> [] \<and> is_alnum (hd scheme) \<and> \<not> is_digit (hd scheme) \<and> list_all scheme_char scheme
     then drop (length scheme + 1) url else url)"

definition host_of :: "siwe_lib \<Rightarrow> string \<Rightarrow> py_error + string" where
  "host_of lib uri =
    (let url = filter (\<lambda>c. c \<notin> {CHR 0x09, CHR 0x0A, CHR 0x0D}) (dropWhile (\<lambda>c. of_char c \<le> (32 :: nat)) uri);
         rest = after_scheme url;
         netloc = (if take 2 rest = ''//'' then takeWhile (\<lambda>c. c \<notin> {CHR ''/'', CHR ''?'', CHR ''#''}) (drop 2 rest) else []);
         opens = CHR ''['' \<in> set netloc; closes = CHR '']'' \<in> set netloc
     in if opens \<noteq> closes then Inl (ValueError ''Invalid IPv6 URL'')
        else if opens \<and> \<not> bracketed_host_ok lib netloc then Inl (ValueError ''Invalid IPv6 URL'')
        else Inr (lower netloc))"

lemma verify_signer_True:
  assumes "verify_signer lib a h s rpc = Inr True"
  obtains sig signer where "signature_bytes s = Inr sig" and "ecrecover lib h sig = Some signer"
    and "lower signer = lower a \<or> (\<exists>call code. rpc = Some call \<and> call ''eth_getCode'' [JStr a, JStr ''latest''] = Inr (JStr code) \<and>
      is_contract_code (Some code))"
proof -
  obtain signer where r: "recover_signer lib h s = Inr signer"
    using assms by (cases "recover_signer lib h s") (auto simp: verify_signer_def split: if_splits py_error.splits)
  then obtain sig where sig: "signature_bytes s = Inr sig" "ecrecover lib h sig = Some signer"
    unfolding recover_signer_def by (auto elim!: bindr_InrE split: option.splits)
  have "\<exists>call code. rpc = Some call \<and> call ''eth_getCode'' [JStr a, JStr ''latest''] = Inr (JStr code) \<and> is_contract_code (Some code)"
    if "lower signer \<noteq> lower a"
  proof -
    from that assms r obtain call code where c: "rpc = Some call" "call ''eth_getCode'' [JStr a, JStr ''latest''] = Inr code"
      "is_contract_code (case code of JStr s \<Rightarrow> Some s | _ \<Rightarrow> None)"
      by (auto simp: verify_signer_def result_simps split: if_splits option.splits)
    moreover have "\<not> is_contract_code None" by code_simp
    ultimately show ?thesis by (cases code) auto
  qed
  with sig that show ?thesis by blast
qed

end
