(* ===== verification/Gate_Session.thy ===== *)
theory Gate_Session
  imports Gate_Siwe
begin

text \<open>
  \<^verbatim>\<open>src/rhpools/lp_gate.py\<close>, last part: the class \<^verbatim>\<open>Gate\<close>, one operation after another, over the
  state it keeps in memory and in its database. A table is the list of its rows. Random values and
  the clock are arguments, and an operation reads the clock once. Hashes, the text of an instant
  and the network of a client address are fields of the environment.
\<close>

section \<open>State\<close>

datatype cred_kind = Session | Key
datatype cred_via = Cookie | Bearer

record principal =
  p_wallet :: address
  p_key_id :: string
  p_label :: string
  p_via :: cred_via
  p_kind :: cred_kind
  p_expires_at :: int

record credential =
  c_hash :: string
  c_id :: string
  c_wallet :: address
  c_kind :: cred_kind
  c_label :: string
  c_created_at :: int
  c_expires_at :: int
  c_revoked_at :: "int option"
  c_last_used_at :: "int option"

record policy_row =
  pr_version :: int
  pr_body :: json
  pr_signature :: string
  pr_signer :: address
  pr_via :: string
  pr_applied_at :: real

record audit_row =
  ar_at :: real
  ar_actor :: string
  ar_via :: string
  ar_action :: string
  ar_detail :: json

record gate_state =
  g_credentials :: "credential list"
  g_policies :: "policy_row list"
  g_qualified :: qualified_rows
  g_audit :: "audit_row list"
  g_policy :: gate_policy
  g_read_at :: "real option"
  g_nonces :: "(string, real) odict"
  g_buckets :: buckets
  g_streams :: stream_counts
  g_signins :: window_keys
  g_nonce_requests :: window_keys
  g_policy_requests :: window_keys
  g_oracle :: oracle_state
  g_refusals :: int
  g_log_at :: "real option"

record gate_env =
  ge_siwe :: siwe_lib
  ge_eth :: eth_lib
  ge_sha256 :: "string \<Rightarrow> string"
  ge_ip_bucket :: "string \<Rightarrow> string"
  ge_iso :: "real \<Rightarrow> string"
  ge_limits :: limits
  ge_owner :: "address option"
  ge_chain_id :: int
  ge_hosts :: "string list"

text \<open>A process that has just started over the tables of its database.\<close>

definition start_gate :: "credential list \<Rightarrow> policy_row list \<Rightarrow> qualified_rows \<Rightarrow> audit_row list \<Rightarrow> gate_state" where
  "start_gate creds policies qualified audits =
     \<lparr>g_credentials = creds, g_policies = policies, g_qualified = qualified, g_audit = audits, g_policy = UNSET_POLICY,
      g_read_at = None, g_nonces = [], g_buckets = [], g_streams = [], g_signins = [], g_nonce_requests = [],
      g_policy_requests = [], g_oracle = empty_oracle, g_refusals = 0, g_log_at = None\<rparr>"

definition add_audit :: "real \<Rightarrow> string \<Rightarrow> string \<Rightarrow> string \<Rightarrow> json \<Rightarrow> gate_state \<Rightarrow> gate_state" where
  "add_audit now actor via action detail st =
     st\<lparr>g_audit := g_audit st @ [\<lparr>ar_at = now, ar_actor = actor, ar_via = via, ar_action = action, ar_detail = detail\<rparr>]\<rparr>"

section \<open>The policy in force\<close>

text \<open>\<^verbatim>\<open>ORDER BY version DESC LIMIT 1\<close>.\<close>

fun latest_row :: "policy_row list \<Rightarrow> policy_row option" where
  "latest_row [] = None"
| "latest_row (r # rs) =
     (case latest_row rs of None \<Rightarrow> Some r | Some q \<Rightarrow> if pr_version q < pr_version r then Some r else Some q)"

definition checksum_json :: "siwe_lib \<Rightarrow> json \<Rightarrow> address option" where
  "checksum_json lib v = (case v of JStr s \<Rightarrow> checksum lib s | _ \<Rightarrow> None)"

definition stored_policy :: "gate_env \<Rightarrow> gate_state \<Rightarrow> py_error + gate_policy" where
  "stored_policy env st =
    (case latest_row (g_policies st) of
       None \<Rightarrow> Inr UNSET_POLICY
     | Some r \<Rightarrow> parse_policy (checksum_json (ge_siwe env)) (pr_body r))"

definition reload_due :: "real \<Rightarrow> gate_state \<Rightarrow> bool" where
  "reload_due now st = (case g_read_at st of None \<Rightarrow> True | Some r \<Rightarrow> now - r \<ge> 5 \<or> r > now)"

definition policy_op :: "gate_env \<Rightarrow> real \<Rightarrow> gate_state \<Rightarrow> gate_state \<times> (gate_refusal + gate_policy)" where
  "policy_op env now st =
    (if \<not> reload_due now st then ret_st st (g_policy st)
     else
       (case stored_policy env st of
          Inl e \<Rightarrow> raise_st st (GateError e)
        | Inr loaded \<Rightarrow>
            ret_st (st\<lparr>g_oracle := (if gp_token loaded \<noteq> gp_token (g_policy st) then forget_all (g_oracle st) else g_oracle st),
                       g_policy := loaded, g_read_at := Some now\<rparr>) loaded))"

definition record_refusal :: "real \<Rightarrow> gate_state \<Rightarrow> gate_state" where
  "record_refusal now st =
    (if (case g_log_at st of None \<Rightarrow> True | Some t \<Rightarrow> now - t \<ge> 60)
     then st\<lparr>g_refusals := 0, g_log_at := Some now\<rparr> else st\<lparr>g_refusals := g_refusals st + 1\<rparr>)"

definition policy_refused :: "int \<Rightarrow> string \<Rightarrow> string \<Rightarrow> gate_refusal" where
  "policy_refused status reason signer =
     GateRefusal status ''policy refused'' None
       [(''state'', JStr ''refused''), (''reason'', JStr reason), (''signer'', JStr signer)]"

text \<open>The checks of an owner's policy after its signature, and its insertion.\<close>

definition policy_reason :: "gate_policy \<Rightarrow> gate_policy \<Rightarrow> real \<Rightarrow> (int \<times> string) option" where
  "policy_reason p current now =
    (if gp_version p \<le> gp_version current then Some (409, ''version must exceed '' @ int_text (gp_version current))
     else if \<bar>of_int (gp_issued_at p) - now\<bar> > POLICY_SKEW_S then Some (400, ''issued_at outside +/-600 s'')
     else None)"

definition insert_policy :: "gate_policy \<Rightarrow> string \<Rightarrow> address \<Rightarrow> string \<Rightarrow> real \<Rightarrow> gate_state \<Rightarrow> gate_state \<times> (gate_refusal + gate_policy)" where
  "insert_policy p signature signer via now st =
    (if gp_version p \<in> pr_version ` set (g_policies st)
     then raise_st st (GateError (RuntimeError ''UNIQUE constraint failed: policy.version''))
     else
       ret_st ((add_audit now signer via ''policy.apply'' (policy_public p) st)
         \<lparr>g_policies := g_policies st @ [\<lparr>pr_version = gp_version p, pr_body = policy_public p, pr_signature = signature,
            pr_signer = signer, pr_via = via, pr_applied_at = now\<rparr>],
          g_policy := p, g_read_at := Some now, g_oracle := forget_all (g_oracle st)\<rparr>) p)"

definition owner_error :: "gate_env \<Rightarrow> address \<Rightarrow> gate_refusal option" where
  "owner_error env signer =
    (case ge_owner env of
       None \<Rightarrow> Some (policy_refused 403 ''gate owner not configured'' signer)
     | Some owner \<Rightarrow>
         if lower signer \<noteq> lower owner then Some (policy_refused 403 ''signer is not the gate owner'' signer) else None)"

definition apply_policy ::
  "gate_env \<Rightarrow> gate_policy \<Rightarrow> string \<Rightarrow> string \<Rightarrow> real \<Rightarrow> gate_state \<Rightarrow> gate_state \<times> (gate_refusal + gate_policy)" where
  "apply_policy env p signature via now st =
    (case bindr (policy_digest (ge_eth env) p (ge_chain_id env)) (\<lambda>d. recover_signer (ge_siwe env) d signature) of
       Inl (ValueError m) \<Rightarrow>
         raise_st (record_refusal now st)
           (GateRefusal 400 ''policy signature malformed'' None [(''state'', JStr ''refused''), (''reason'', JStr m)])
     | Inl e \<Rightarrow> raise_st st (GateError e)
     | Inr signer \<Rightarrow>
         (case owner_error env signer of
            Some refusal \<Rightarrow> raise_st (record_refusal now st) refusal
          | None \<Rightarrow>
              bind_st (policy_op env now st) (\<lambda>st current.
                if (\<exists>r \<in> set (g_policies st). pr_version r = gp_version p \<and> pr_signature r = signature)
                  \<and> gp_version p = gp_version current
                then ret_st st current
                else
                  (case policy_reason p current now of
                     Some (status, reason) \<Rightarrow>
                       raise_st (add_audit now signer via ''policy.refused''
                           (JObj [(''reason'', JStr reason), (''version'', JInt (gp_version p))]) st)
                         (policy_refused status reason signer)
                   | None \<Rightarrow> insert_policy p signature signer via now st))))"

definition policy_admit :: "gate_env \<Rightarrow> string \<Rightarrow> real \<Rightarrow> gate_state \<Rightarrow> gate_state \<times> (gate_refusal + unit)" where
  "policy_admit env client_ip now st =
    (let (d, ok) = window_admit (policy_per_ip_per_min (ge_limits env)) now (ge_ip_bucket env client_ip) (g_policy_requests st)
     in if ok then ret_st (st\<lparr>g_policy_requests := d\<rparr>) ()
        else raise_st (st\<lparr>g_policy_requests := d\<rparr>) (GateRefusal 429 ''policy rate limit'' (Some 60) []))"

definition is_owner :: "gate_env \<Rightarrow> address \<Rightarrow> bool" where
  "is_owner env wallet = (case ge_owner env of None \<Rightarrow> False | Some owner \<Rightarrow> lower wallet = lower owner)"

section \<open>Credentials\<close>

definition b64_char :: "nat \<Rightarrow> char" where
  "b64_char n = (if n < 26 then char_of (65 + n) else if n < 52 then char_of (71 + n)
     else if n < 62 then char_of (n - 4) else if n = 62 then CHR ''-'' else CHR ''_'')"

text \<open>\<^verbatim>\<open>base64.urlsafe_b64encode(token).rstrip(b"=")\<close>.\<close>

fun b64url :: "nat list \<Rightarrow> string" where
  "b64url (a # b # c # rest) =
     b64_char (a div 4) # b64_char (a mod 4 * 16 + b div 16) # b64_char (b mod 16 * 4 + c div 64) # b64_char (c mod 64) # b64url rest"
| "b64url [a, b] = [b64_char (a div 4), b64_char (a mod 4 * 16 + b div 16), b64_char (b mod 16 * 4)]"
| "b64url [a] = [b64_char (a div 4), b64_char (a mod 4 * 16)]"
| "b64url [] = []"

definition secret_of :: "bytes \<Rightarrow> string" where
  "secret_of token = ''rhp_'' @ b64url (map unat token)"

fun kind_text :: "cred_kind \<Rightarrow> string" where
  "kind_text Session = ''session''"
| "kind_text Key = ''key''"

definition mint ::
  "gate_env \<Rightarrow> address \<Rightarrow> cred_kind \<Rightarrow> string \<Rightarrow> int \<Rightarrow> cred_via \<Rightarrow> real \<Rightarrow> bytes \<Rightarrow> gate_state \<Rightarrow>
    gate_state \<times> (gate_refusal + principal \<times> string)" where
  "mint env wallet kind label ttl via now token st =
    (let secret = secret_of token; hash = ge_sha256 env secret; kid = take 16 hash; at_s = py_int now;
         text = take 64 (if label = [] then kind_text kind else label)
     in if \<exists>c \<in> set (g_credentials st). c_hash c = hash \<or> c_id c = kid
        then raise_st st (GateError (RuntimeError ''UNIQUE constraint failed: credential''))
        else
          ret_st (st\<lparr>g_credentials := g_credentials st @ [\<lparr>c_hash = hash, c_id = kid, c_wallet = wallet, c_kind = kind,
              c_label = text, c_created_at = at_s, c_expires_at = at_s + ttl, c_revoked_at = None, c_last_used_at = None\<rparr>]\<rparr>)
            (\<lparr>p_wallet = wallet, p_key_id = kid, p_label = text, p_via = via, p_kind = kind, p_expires_at = at_s + ttl\<rparr>, secret))"

definition live :: "int \<Rightarrow> credential \<Rightarrow> bool" where
  "live at_s c \<longleftrightarrow> c_revoked_at c = None \<and> c_expires_at c > at_s"

definition lookup :: "gate_env \<Rightarrow> string \<Rightarrow> cred_via \<Rightarrow> real \<Rightarrow> gate_state \<Rightarrow> gate_state \<times> principal option" where
  "lookup env secret via now st =
    (let hash = ge_sha256 env secret; at_s = py_int now in
     case filter (\<lambda>c. c_hash c = hash \<and> live at_s c) (g_credentials st) of
       [] \<Rightarrow> (st, None)
     | c # _ \<Rightarrow>
         ((if (case c_last_used_at c of None \<Rightarrow> True | Some u \<Rightarrow> at_s - u \<ge> 60)
           then st\<lparr>g_credentials := map (\<lambda>r. if c_id r = c_id c then r\<lparr>c_last_used_at := Some at_s\<rparr> else r) (g_credentials st)\<rparr>
           else st),
          Some \<lparr>p_wallet = c_wallet c, p_key_id = c_id c, p_label = c_label c, p_via = via, p_kind = c_kind c,
                p_expires_at = c_expires_at c\<rparr>))"

definition lookup_id :: "string \<Rightarrow> real \<Rightarrow> gate_state \<Rightarrow> address option" where
  "lookup_id kid now st =
    (case filter (\<lambda>c. c_id c = kid \<and> live (py_int now) c) (g_credentials st) of
       [] \<Rightarrow> None | c # _ \<Rightarrow> Some (c_wallet c))"

text \<open>\<^verbatim>\<open>text.partition(sep)\<close> for a one-character separator, and \<^verbatim>\<open>text.split(";")\<close>.\<close>

definition partition_at :: "char \<Rightarrow> string \<Rightarrow> string \<times> string" where
  "partition_at sep s = (takeWhile (\<lambda>c. c \<noteq> sep) s, drop 1 (dropWhile (\<lambda>c. c \<noteq> sep) s))"

fun split_at_char :: "char \<Rightarrow> string \<Rightarrow> string list" where
  "split_at_char sep [] = [[]]"
| "split_at_char sep (c # s) =
     (if c = sep then [] # split_at_char sep s
      else case split_at_char sep s of [] \<Rightarrow> [[c]] | l # ls \<Rightarrow> (c # l) # ls)"

definition is_secret :: "string \<Rightarrow> bool" where "is_secret s \<longleftrightarrow> take 4 s = ''rhp_''"

text \<open>The two headers, as text; an absent one is empty.\<close>

record request_headers =
  authorization :: string
  cookie :: string

definition bearer_secret :: "request_headers \<Rightarrow> string option" where
  "bearer_secret headers =
    (let (scheme, rest) = partition_at CHR '' '' (authorization headers); v = strip rest
     in if lower scheme = ''bearer'' \<and> is_secret v then Some v else None)"

definition cookie_secret :: "request_headers \<Rightarrow> string option" where
  "cookie_secret headers =
    (case filter (\<lambda>(name, secret). name = ''__Host-rhp_session'' \<and> is_secret secret)
        (map (\<lambda>part. partition_at CHR ''='' (strip part)) (split_at_char CHR '';'' (cookie headers))) of
       [] \<Rightarrow> None | (_, secret) # _ \<Rightarrow> Some secret)"

definition resolve :: "gate_env \<Rightarrow> request_headers \<Rightarrow> real \<Rightarrow> gate_state \<Rightarrow> gate_state \<times> (gate_refusal + principal option)" where
  "resolve env headers now st =
    (case bearer_secret headers of
       Some secret \<Rightarrow>
         (case lookup env secret Bearer now st of
            (st2, None) \<Rightarrow> raise_st st2 (GateRefusal 401 ''credential invalid'' None [(''state'', JStr ''invalid'')])
          | (st2, Some p) \<Rightarrow> ret_st st2 (Some p))
     | None \<Rightarrow>
         (case cookie_secret headers of
            Some secret \<Rightarrow> (let (st2, p) = lookup env secret Cookie now st in ret_st st2 p)
          | None \<Rightarrow> ret_st st None))"

section \<open>Entitlement of a caller\<close>

text \<open>\<open>others\<close> is what other threads do to the oracle while this call waits.\<close>

definition gate_entitlement ::
  "gate_env \<Rightarrow> (oracle_state \<Rightarrow> oracle_state) \<Rightarrow> node \<Rightarrow> address \<Rightarrow> real \<Rightarrow> gate_state \<Rightarrow> gate_state \<times> (gate_refusal + entitlement)" where
  "gate_entitlement env others rpc wallet now st =
     bind_st (policy_op env now st) (\<lambda>st p.
       case entitlement_of others rpc p wallet now (g_oracle st, g_qualified st) of
         ((o2, rows2), r) \<Rightarrow>
           (st\<lparr>g_oracle := o2, g_qualified := rows2\<rparr>, (case r of Inl e \<Rightarrow> Inl (GateError e) | Inr ent \<Rightarrow> Inr ent)))"

definition not_entitled :: "entitlement \<Rightarrow> gate_policy \<Rightarrow> feature \<Rightarrow> gate_refusal" where
  "not_entitled ent p f =
     GateRefusal 403 ''not entitled'' None
       [(''state'', JStr (entitlement_state ent p)), (''feature'', JStr (feature_name f)),
        (''need'', JStr (int_text (gp_threshold p f))),
        (''have'', case en_holding ent of None \<Rightarrow> JNull | Some h \<Rightarrow> JStr (int_text (h_balance_raw h))),
        (''grace_until'', JNull)]"

definition entitled ::
  "gate_env \<Rightarrow> (oracle_state \<Rightarrow> oracle_state) \<Rightarrow> node \<Rightarrow> address \<Rightarrow> feature \<Rightarrow> real \<Rightarrow> gate_state \<Rightarrow> gate_state \<times> (gate_refusal + entitlement)" where
  "entitled env others rpc wallet f now st =
     bind_st (gate_entitlement env others rpc wallet now st) (\<lambda>st ent.
       if has_feature ent f then ret_st st ent
       else bind_st (policy_op env now st) (\<lambda>st p. raise_st st (not_entitled ent p f)))"

definition require ::
  "gate_env \<Rightarrow> (oracle_state \<Rightarrow> oracle_state) \<Rightarrow> node \<Rightarrow> request_headers \<Rightarrow> feature \<Rightarrow> real \<Rightarrow> gate_state \<Rightarrow>
    gate_state \<times> (gate_refusal + principal \<times> entitlement)" where
  "require env others rpc headers f now st =
     bind_st (resolve env headers now st) (\<lambda>st who.
       case who of
         None \<Rightarrow> raise_st st (GateRefusal 401 ''credential required'' None [(''state'', JStr ''anonymous'')])
       | Some p \<Rightarrow> bind_st (entitled env others rpc (p_wallet p) f now st) (\<lambda>st ent. ret_st st (p, ent)))"

definition recheck ::
  "gate_env \<Rightarrow> (oracle_state \<Rightarrow> oracle_state) \<Rightarrow> node \<Rightarrow> principal \<Rightarrow> feature \<Rightarrow> real \<Rightarrow> gate_state \<Rightarrow> gate_state \<times> (gate_refusal + entitlement)" where
  "recheck env others rpc p f now st =
    (if lookup_id (p_key_id p) now st = None
     then raise_st st (GateRefusal 401 ''credential revoked'' None [(''state'', JStr ''revoked'')])
     else entitled env others rpc (p_wallet p) f now st)"

section \<open>Keys\<close>

definition live_keys :: "address \<Rightarrow> int \<Rightarrow> gate_state \<Rightarrow> nat" where
  "live_keys wallet at_s st =
     length (filter (\<lambda>c. c_wallet c = wallet \<and> c_kind c = Key \<and> live at_s c) (g_credentials st))"

text \<open>What \<^verbatim>\<open>mint_key\<close> does under the lock, and the whole call.\<close>

definition mint_limited ::
  "gate_env \<Rightarrow> address \<Rightarrow> string \<Rightarrow> int \<Rightarrow> real \<Rightarrow> bytes \<Rightarrow> gate_state \<Rightarrow> gate_state \<times> (gate_refusal + principal \<times> string)" where
  "mint_limited env wallet label ttl now token st =
    (let limit = keys_per_wallet (ge_limits env) in
     if int (live_keys wallet (py_int now) st) \<ge> limit
     then raise_st st (GateRefusal 403 ''key limit reached'' None [(''state'', JStr ''forbidden''), (''limit'', JInt limit)])
     else mint env wallet Key label ttl Bearer now token st)"

definition mint_key ::
  "gate_env \<Rightarrow> (oracle_state \<Rightarrow> oracle_state) \<Rightarrow> node \<Rightarrow> principal \<Rightarrow> string \<Rightarrow> int \<Rightarrow> real \<Rightarrow> bytes \<Rightarrow> gate_state \<Rightarrow>
    gate_state \<times> (gate_refusal + principal \<times> string)" where
  "mint_key env others rpc p label ttl_s now token st =
    (if p_kind p \<noteq> Session \<or> p_via p \<noteq> Cookie
     then raise_st st (GateRefusal 403 ''keys are minted from a browser session only'' None [(''state'', JStr ''forbidden'')])
     else
       bind_st (entitled env others rpc (p_wallet p) Api now st) (\<lambda>st _.
       bind_st (mint_limited env (p_wallet p) label (max 60 (min ttl_s (key_ttl_max_s (ge_limits env)))) now token st) (\<lambda>st (minted, secret).
         ret_st (add_audit now (p_wallet p) ''web'' ''key.mint''
             (JObj [(''key_id'', JStr (p_key_id minted)), (''label'', JStr label), (''by'', JStr (p_key_id p))]) st)
           (minted, secret))))"

definition revoke_where :: "(credential \<Rightarrow> bool) \<Rightarrow> real \<Rightarrow> gate_state \<Rightarrow> gate_state \<times> nat" where
  "revoke_where sel now st =
    (let hit = (\<lambda>c. sel c \<and> c_revoked_at c = None) in
     (st\<lparr>g_credentials := map (\<lambda>c. if hit c then c\<lparr>c_revoked_at := Some (py_int now)\<rparr> else c) (g_credentials st)\<rparr>,
      length (filter hit (g_credentials st))))"

definition revoke :: "string \<Rightarrow> address option \<Rightarrow> string \<Rightarrow> real \<Rightarrow> gate_state \<Rightarrow> gate_state \<times> bool" where
  "revoke kid wallet via now st =
    (let (st2, changed) = revoke_where (\<lambda>c. c_id c = kid \<and> (wallet = None \<or> wallet = Some (c_wallet c))) now st;
         actor = (case wallet of None \<Rightarrow> ''owner'' | Some w \<Rightarrow> if w = [] then ''owner'' else w)
     in (if changed \<noteq> 0 then add_audit now actor via ''key.revoke'' (JObj [(''key_id'', JStr kid)]) st2 else st2, changed \<noteq> 0))"

definition revoke_all :: "address \<Rightarrow> real \<Rightarrow> gate_state \<Rightarrow> gate_state \<times> nat" where
  "revoke_all wallet now st =
    (let (st2, changed) = revoke_where (\<lambda>c. c_wallet c = wallet) now st
     in (if changed \<noteq> 0 then add_audit now wallet ''web'' ''key.revoke_all'' (JObj [(''count'', JInt (int changed))]) st2 else st2,
         changed))"

text \<open>\<^verbatim>\<open>keys\<close>: newest first, then by identifier; and the rows of the audit, newest first.\<close>

definition newer :: "credential \<Rightarrow> credential \<Rightarrow> bool" where
  "newer a b \<longleftrightarrow> c_created_at b < c_created_at a \<or> (c_created_at a = c_created_at b \<and> c_id a \<le> c_id b)"

fun insert_newest :: "credential \<Rightarrow> credential list \<Rightarrow> credential list" where
  "insert_newest c [] = [c]"
| "insert_newest c (d # ds) = (if newer c d then c # d # ds else d # insert_newest c ds)"

definition keys_of :: "address \<Rightarrow> gate_state \<Rightarrow> credential list" where
  "keys_of wallet st = foldr insert_newest (filter (\<lambda>c. c_wallet c = wallet) (g_credentials st)) []"

definition audit_rows :: "int \<Rightarrow> gate_state \<Rightarrow> audit_row list" where
  "audit_rows limit st = take (nat (max 1 (min limit 500))) (rev (g_audit st))"

section \<open>Sign-in\<close>

definition drop_expired :: "real \<Rightarrow> (string, real) odict \<Rightarrow> (string, real) odict" where
  "drop_expired now d = dropWhile (\<lambda>e. snd e \<le> now) d"

definition nonce_reply :: "gate_env \<Rightarrow> string \<Rightarrow> real \<Rightarrow> address \<Rightarrow> json" where
  "nonce_reply env nonce now wallet =
     JObj ([(''nonce'', JStr nonce), (''issued_at'', JStr (ge_iso env now)),
            (''expires_at'', JStr (ge_iso env (now + of_int (nonce_ttl_s (ge_limits env))))),
            (''chain_id'', JInt (ge_chain_id env)), (''statement'', JStr ''Sign in to rhpools. No transaction, no fee.'')] @
           (if wallet = [] then [] else [(''address'', JStr wallet)]))"

text \<open>The part of \<^verbatim>\<open>nonce\<close> under the lock; an absent wallet is empty.\<close>

definition issue_nonce :: "gate_env \<Rightarrow> real \<Rightarrow> string \<Rightarrow> gate_state \<Rightarrow> gate_state \<times> (gate_refusal + unit)" where
  "issue_nonce env now nonce st =
    (let d = drop_expired now (g_nonces st) in
     if length d \<ge> 4096
     then raise_st (st\<lparr>g_nonces := d\<rparr>) (GateRefusal 503 ''nonce capacity reached'' (Some 30) [])
     else ret_st (st\<lparr>g_nonces := od_set nonce (now + of_int (nonce_ttl_s (ge_limits env))) d\<rparr>) ())"

definition nonce_op ::
  "gate_env \<Rightarrow> address \<Rightarrow> string option \<Rightarrow> real \<Rightarrow> string \<Rightarrow> gate_state \<Rightarrow> gate_state \<times> (gate_refusal + json)" where
  "nonce_op env wallet client_ip now nonce st =
    (case (if wallet = [] then Some [] else checksum (ge_siwe env) wallet) of
       None \<Rightarrow> raise_st st (GateRefusal 400 ''wallet must be an address'' None [])
     | Some w \<Rightarrow>
         (case client_ip of
            None \<Rightarrow> bind_st (issue_nonce env now nonce st) (\<lambda>st _. ret_st st (nonce_reply env nonce now w))
          | Some ip \<Rightarrow>
              (let (d, ok) = window_admit (nonce_per_ip_per_min (ge_limits env)) now (ge_ip_bucket env ip) (g_nonce_requests st);
                   st2 = st\<lparr>g_nonce_requests := d\<rparr>
               in if \<not> ok then raise_st st2 (GateRefusal 429 ''nonce rate limit'' (Some 60) [])
                  else bind_st (issue_nonce env now nonce st2) (\<lambda>st _. ret_st st (nonce_reply env nonce now w)))))"

definition sign_in_refused :: "string \<Rightarrow> gate_refusal" where
  "sign_in_refused reason =
     GateRefusal 401 ''sign-in refused'' None [(''state'', JStr ''refused''), (''reason'', JStr reason)]"

text \<open>A \<^verbatim>\<open>ValueError\<close> becomes a refusal, another error passes.\<close>

fun refuse_value_error :: "py_error \<Rightarrow> gate_refusal" where
  "refuse_value_error (ValueError m) = sign_in_refused m"
| "refuse_value_error e = GateError e"

text \<open>What a message must satisfy before its signature is looked at.\<close>

definition message_reason :: "gate_env \<Rightarrow> string option \<Rightarrow> real \<Rightarrow> siwe_message \<Rightarrow> py_error + unit" where
  "message_reason env host now m =
    (let site = lower (sm_domain m) in
     if site \<notin> set (ge_hosts env) \<and> (case host of None \<Rightarrow> True | Some h \<Rightarrow> site \<noteq> lower h)
     then Inl (ValueError ''domain not served here'')
     else
       bindr (host_of (ge_siwe env) (sm_uri m)) (\<lambda>h.
       bindr (ensure (h = site) (ValueError ''domain not served here'')) (\<lambda>_.
       bindr (ensure (sm_chain_id m = ge_chain_id env) (ValueError (''chain id must be '' @ int_text (ge_chain_id env)))) (\<lambda>_.
       bindr (ensure (case sm_expiration_time m of None \<Rightarrow> True | Some t \<Rightarrow> t > now) (ValueError ''message expired'')) (\<lambda>_.
       bindr (ensure (case sm_not_before m of None \<Rightarrow> True | Some t \<Rightarrow> t \<le> now) (ValueError ''message not yet valid'')) (\<lambda>_.
         ensure (sm_issued_at m \<le> now + 60) (ValueError ''issued in the future'')))))))"

definition nonce_fresh :: "string \<Rightarrow> real \<Rightarrow> gate_state \<Rightarrow> bool" where
  "nonce_fresh nonce now st = (case map_of (g_nonces st) nonce of None \<Rightarrow> False | Some t \<Rightarrow> t > now)"

definition sign_in_check ::
  "gate_env \<Rightarrow> string \<Rightarrow> string \<Rightarrow> string option \<Rightarrow> real \<Rightarrow> gate_state \<Rightarrow> gate_state \<times> (gate_refusal + siwe_message)" where
  "sign_in_check env message client_ip host now st =
    (case bindr (parse_message (ge_siwe env) message) (\<lambda>m. bindr (message_reason env host now m) (\<lambda>_. Inr m)) of
       Inl e \<Rightarrow> raise_st st (refuse_value_error e)
     | Inr m \<Rightarrow>
         if \<not> nonce_fresh (sm_nonce m) now st then raise_st st (sign_in_refused ''nonce unknown, used or expired'')
         else
           (let (d, ok) = window_allowed (signin_per_ip_per_min (ge_limits env)) now (ge_ip_bucket env client_ip) (g_signins st)
            in if ok then ret_st (st\<lparr>g_signins := d\<rparr>) m
               else raise_st (st\<lparr>g_signins := d\<rparr>) (GateRefusal 429 ''sign-in rate limit'' (Some 60) [])))"

text \<open>A failed signature counts against the client; a good one consumes the nonce.\<close>

definition sign_in_failed :: "gate_env \<Rightarrow> string \<Rightarrow> real \<Rightarrow> gate_state \<Rightarrow> gate_state" where
  "sign_in_failed env client_ip now st =
     st\<lparr>g_signins := fst (window_admit (signin_per_ip_per_min (ge_limits env)) now (ge_ip_bucket env client_ip) (g_signins st))\<rparr>"

definition take_nonce :: "string \<Rightarrow> gate_state \<Rightarrow> gate_state \<times> (gate_refusal + unit)" where
  "take_nonce nonce st =
    (if map_of (g_nonces st) nonce = None then raise_st st (sign_in_refused ''nonce unknown, used or expired'')
     else ret_st (st\<lparr>g_nonces := od_del nonce (g_nonces st)\<rparr>) ())"

definition open_session ::
  "gate_env \<Rightarrow> address \<Rightarrow> string \<Rightarrow> string \<Rightarrow> real \<Rightarrow> bytes \<Rightarrow> gate_state \<Rightarrow> gate_state \<times> (gate_refusal + principal \<times> string)" where
  "open_session env address label client_ip now token st =
     bind_st (mint env address Session label (session_ttl_s (ge_limits env)) Cookie now token st) (\<lambda>st (p, secret).
       ret_st (add_audit now address ''web'' ''session.sign_in''
           (JObj [(''key_id'', JStr (p_key_id p)), (''label'', JStr label), (''ip'', JStr client_ip)]) st)
         (p, secret))"

text \<open>
  \<open>between\<close> is what other threads do to the gate while the signature is verified, which may take
  calls to the node, without the lock.
\<close>

definition sign_in ::
  "gate_env \<Rightarrow> (gate_state \<Rightarrow> gate_state) \<Rightarrow> node \<Rightarrow> string \<Rightarrow> string \<Rightarrow> string \<Rightarrow> string \<Rightarrow> string option \<Rightarrow> real \<Rightarrow> bytes \<Rightarrow>
    gate_state \<Rightarrow> gate_state \<times> (gate_refusal + principal \<times> string)" where
  "sign_in env between rpc message signature label client_ip host now token st =
     bind_st (sign_in_check env message client_ip host now st) (\<lambda>st m.
       case verify_signer (ge_siwe env) (sm_address m) (personal_sign_hash (ge_eth env) message) signature (Some rpc) of
         Inl e \<Rightarrow> raise_st (between st) (refuse_value_error e)
       | Inr False \<Rightarrow>
           raise_st (sign_in_failed env client_ip now (between st)) (sign_in_refused ''signature does not match the address'')
       | Inr True \<Rightarrow>
           bind_st (take_nonce (sm_nonce m) (between st)) (\<lambda>st _.
             open_session env (sm_address m) label client_ip now token st))"

end
