(* ===== verification/Gate_Reach.thy ===== *)
theory Gate_Reach
  imports Gate_Session
begin

text \<open>
  The gate over time: its operations as steps, in any order and interleaving, with restarts of
  the process over the same database and a clock that does not run backwards. The invariants say
  what the nonces, the credentials and the log of policies are in every state that is reached.
\<close>

section \<open>Steps\<close>

text \<open>
  The operations that neither issue nor consume a nonce. A policy that is offered was parsed
  before, as both callers of \<^verbatim>\<open>apply_policy\<close> do.
\<close>

inductive gate_step :: "gate_env \<Rightarrow> real \<Rightarrow> gate_state \<Rightarrow> gate_state \<Rightarrow> bool" for env now where
  do_policy: "policy_op env now st = (st2, r) \<Longrightarrow> gate_step env now st st2"
| do_apply: "parse_policy (checksum_json (ge_siwe env)) obj = Inr p \<Longrightarrow>
    apply_policy env p signature via now st = (st2, r) \<Longrightarrow> gate_step env now st st2"
| do_policy_admit: "policy_admit env ip now st = (st2, r') \<Longrightarrow> gate_step env now st st2"
| do_check: "sign_in_check env message ip host now st = (st2, m) \<Longrightarrow> gate_step env now st st2"
| do_fail: "gate_step env now st (sign_in_failed env ip now st)"
| do_lookup: "lookup env secret v now st = (st2, who) \<Longrightarrow> gate_step env now st st2"
| do_entitled: "entitled env others rpc wallet f now st = (st2, e) \<Longrightarrow> gate_step env now st st2"
| do_mint: "mint_limited env wallet label ttl now token st = (st2, k) \<Longrightarrow> gate_step env now st st2"
| do_revoke: "revoke kid owner via now st = (st2, b) \<Longrightarrow> gate_step env now st st2"
| do_revoke_all: "revoke_all wallet now st = (st2, n) \<Longrightarrow> gate_step env now st st2"
| do_audit: "gate_step env now st (add_audit now actor via action detail st)"
| do_admit: "admit (ge_limits env) now kid cost (g_buckets st) = (d, q) \<Longrightarrow> gate_step env now st (st\<lparr>g_buckets := d\<rparr>)"
| do_stream_enter: "stream_enter (ge_limits env) wallet (g_streams st) = Inr s \<Longrightarrow> gate_step env now st (st\<lparr>g_streams := s\<rparr>)"
| do_stream_exit: "stream_exit wallet (g_streams st) = Inr s \<Longrightarrow> gate_step env now st (st\<lparr>g_streams := s\<rparr>)"

text \<open>A world is the clock, the gate, the nonces issued so far and those that opened a session.\<close>

record world =
  w_clock :: real
  w_gate :: gate_state
  w_issued :: "string list"
  w_used :: "string list"

definition first_world :: "real \<Rightarrow> world" where
  "first_world now = \<lparr>w_clock = now, w_gate = start_gate [] [] (\<lambda>_. None) [], w_issued = [], w_used = []\<rparr>"

definition restart :: "gate_state \<Rightarrow> gate_state" where
  "restart st = start_gate (g_credentials st) (g_policies st) (g_qualified st) (g_audit st)"

text \<open>A nonce is a fresh random text: \<^verbatim>\<open>secrets.token_hex(16)\<close> does not repeat one issued before.\<close>

inductive gate_move :: "gate_env \<Rightarrow> world \<Rightarrow> world \<Rightarrow> bool" for env where
  time_passes: "w_clock w \<le> t \<Longrightarrow> gate_move env w (w\<lparr>w_clock := t\<rparr>)"
| restarts: "gate_move env w (w\<lparr>w_gate := restart (w_gate w)\<rparr>)"
| steps: "gate_step env (w_clock w) (w_gate w) st \<Longrightarrow> gate_move env w (w\<lparr>w_gate := st\<rparr>)"
| asks_nonce: "nonce \<notin> set (w_issued w) \<Longrightarrow> nonce_op env wallet ip (w_clock w) nonce (w_gate w) = (st, Inr reply) \<Longrightarrow>
    gate_move env w (w\<lparr>w_gate := st, w_issued := nonce # w_issued w\<rparr>)"
| nonce_refused: "nonce \<notin> set (w_issued w) \<Longrightarrow> nonce_op env wallet ip (w_clock w) nonce (w_gate w) = (st, Inl e) \<Longrightarrow>
    gate_move env w (w\<lparr>w_gate := st\<rparr>)"
| opens: "take_nonce nonce (w_gate w) = (st, Inr ()) \<Longrightarrow> open_session env address label ip (w_clock w) token st = (st2, r) \<Longrightarrow>
    gate_move env w (w\<lparr>w_gate := st2, w_used := nonce # w_used w\<rparr>)"

definition gate_reach :: "gate_env \<Rightarrow> world \<Rightarrow> bool" where
  "gate_reach env w \<longleftrightarrow> (\<exists>t. (gate_move env)\<^sup>*\<^sup>* (first_world t) w)"

lemma gate_reach_induct [consumes 1, case_names first move]:
  assumes "gate_reach env w" and "\<And>t. P (first_world t)"
    and "\<And>w w'. gate_reach env w \<Longrightarrow> P w \<Longrightarrow> gate_move env w w' \<Longrightarrow> P w'"
  shows "P w"
proof -
  from assms(1) obtain t where "(gate_move env)\<^sup>*\<^sup>* (first_world t) w" by (auto simp: gate_reach_def)
  then show ?thesis
  proof (induction rule: rtranclp_induct)
    case base
    then show ?case by (rule assms(2))
  next
    case (step y z)
    then show ?case using assms(3) [of y z] by (auto simp: gate_reach_def)
  qed
qed

section \<open>What the operations leave alone\<close>

text \<open>The parts that most operations share with their start.\<close>

definition same_secrets :: "gate_state \<Rightarrow> gate_state \<Rightarrow> bool" where
  "same_secrets st st2 \<longleftrightarrow> g_nonces st2 = g_nonces st \<and> g_credentials st2 = g_credentials st"

definition same_policies :: "gate_state \<Rightarrow> gate_state \<Rightarrow> bool" where
  "same_policies st st2 \<longleftrightarrow> g_policies st2 = g_policies st \<and> g_policy st2 = g_policy st \<and> g_read_at st2 = g_read_at st"

named_theorems frame_simps "what an operation of the gate leaves alone"

lemma same_trans:
  "same_secrets a b \<Longrightarrow> same_secrets b c \<Longrightarrow> same_secrets a c"
  "same_policies a b \<Longrightarrow> same_policies b c \<Longrightarrow> same_policies a c"
  by (simp_all add: same_secrets_def same_policies_def)

lemma add_audit_frame [frame_simps]: "same_secrets st (add_audit now a v c d st)" "same_policies st (add_audit now a v c d st)"
  by (simp_all add: add_audit_def same_secrets_def same_policies_def)

lemma record_refusal_frame [frame_simps]: "same_secrets st (record_refusal now st)" "same_policies st (record_refusal now st)"
  by (simp_all add: record_refusal_def same_secrets_def same_policies_def)

lemma policy_op_frame: "same_secrets st (fst (policy_op env now st))"
  by (auto simp: policy_op_def same_secrets_def ret_st_def raise_st_def split: sum.splits)

lemma same_secrets_bind:
  assumes "same_secrets st (fst m)" and "\<And>s x. m = (s, Inr x) \<Longrightarrow> same_secrets s (fst (f s x))"
  shows "same_secrets st (fst (bind_st m f))"
  using assms by (cases m; cases "snd m") (auto simp: bind_st_def intro: same_trans)

lemma same_secrets_refl [simp]: "same_secrets st st" "same_policies st st"
  by (simp_all add: same_secrets_def same_policies_def)

lemma insert_policy_secrets: "same_secrets st (fst (insert_policy p sg si v now st))"
  by (simp add: insert_policy_def same_secrets_def ret_st_def raise_st_def add_audit_def)

lemma apply_policy_secrets: "same_secrets st (fst (apply_policy env p sg v now st))"
proof -
  have "same_secrets st (fst (bind_st (policy_op env now st) (\<lambda>st current.
      if (\<exists>r \<in> set (g_policies st). pr_version r = gp_version p \<and> pr_signature r = sg) \<and> gp_version p = gp_version current
      then ret_st st current
      else (case policy_reason p current now of
           Some (status, reason) \<Rightarrow> raise_st (add_audit now si v ''policy.refused''
             (JObj [(''reason'', JStr reason), (''version'', JInt (gp_version p))]) st) (policy_refused status reason si)
         | None \<Rightarrow> insert_policy p sg si v now st))))" for si
    by (intro same_secrets_bind policy_op_frame)
      (auto simp: ret_st_def raise_st_def frame_simps insert_policy_secrets split: option.split)
  then show ?thesis
    by (auto simp: apply_policy_def raise_st_def frame_simps split: sum.split py_error.split option.split)
qed

lemma policy_admit_frame: "same_secrets st (fst (policy_admit env ip now st))" "same_policies st (fst (policy_admit env ip now st))"
  by (auto simp: policy_admit_def same_secrets_def same_policies_def ret_st_def raise_st_def Let_def split: prod.split)

lemma sign_in_check_frame:
  "same_secrets st (fst (sign_in_check env msg ip host now st))" "same_policies st (fst (sign_in_check env msg ip host now st))"
  by (auto simp: sign_in_check_def same_secrets_def same_policies_def ret_st_def raise_st_def Let_def split: sum.split prod.split)

lemma sign_in_failed_frame: "same_secrets st (sign_in_failed env ip now st)" "same_policies st (sign_in_failed env ip now st)"
  by (simp_all add: sign_in_failed_def same_secrets_def same_policies_def)

lemma gate_entitlement_secrets: "same_secrets st (fst (gate_entitlement env others rpc w now st))"
  unfolding gate_entitlement_def
  by (intro same_secrets_bind policy_op_frame) (auto simp: same_secrets_def split: prod.split)

lemma entitled_secrets: "same_secrets st (fst (entitled env others rpc w f now st))"
  unfolding entitled_def
  by (intro same_secrets_bind gate_entitlement_secrets)
    (auto simp: ret_st_def raise_st_def intro!: same_secrets_bind policy_op_frame)

section \<open>Credentials\<close>

text \<open>What can happen to a row: it may be revoked or used, nothing else.\<close>

definition kept :: "credential \<Rightarrow> credential \<Rightarrow> bool" where
  "kept c d \<longleftrightarrow> c_hash d = c_hash c \<and> c_id d = c_id c \<and> c_wallet d = c_wallet c \<and> c_kind d = c_kind c \<and>
     c_expires_at d = c_expires_at c \<and> (c_revoked_at c \<noteq> None \<longrightarrow> c_revoked_at d \<noteq> None)"

definition new_credential :: "gate_env \<Rightarrow> real \<Rightarrow> gate_state \<Rightarrow> credential \<Rightarrow> bool" where
  "new_credential env now st c \<longleftrightarrow> c_hash c \<notin> c_hash ` set (g_credentials st) \<and> c_id c \<notin> c_id ` set (g_credentials st) \<and>
     (c_kind c = Key \<longrightarrow> int (live_keys (c_wallet c) (py_int now) st) < keys_per_wallet (ge_limits env))"

text \<open>The effect of a step on the table: rows are kept, and at most one is added.\<close>

definition creds_step :: "gate_env \<Rightarrow> real \<Rightarrow> gate_state \<Rightarrow> gate_state \<Rightarrow> bool" where
  "creds_step env now st st2 \<longleftrightarrow>
     list_all2 kept (g_credentials st) (g_credentials st2) \<or>
     (\<exists>c. g_credentials st2 = g_credentials st @ [c] \<and> new_credential env now st c)"

lemma kept_refl: "kept c c"
  by (simp add: kept_def)

lemma kept_all_refl: "list_all2 kept cs cs"
  by (simp add: list.rel_refl kept_refl)

lemma kept_map: "(\<And>c. kept c (f c)) \<Longrightarrow> list_all2 kept cs (map f cs)"
  by (induction cs) auto

lemma same_secrets_creds: "same_secrets st st2 \<Longrightarrow> creds_step env now st st2"
  by (simp add: same_secrets_def creds_step_def kept_all_refl)

lemma lookup_creds: "creds_step env now st (fst (lookup env secret v now st)) \<and> g_nonces (fst (lookup env secret v now st)) = g_nonces st"
  by (auto simp: lookup_def Let_def creds_step_def kept_all_refl kept_def split: list.split intro!: disjI1 kept_map)

lemma revoke_where_creds:
  "creds_step env now st (fst (revoke_where sel now st)) \<and> g_nonces (fst (revoke_where sel now st)) = g_nonces st"
  by (auto simp: revoke_where_def Let_def creds_step_def kept_def intro!: disjI1 kept_map)

lemma creds_step_audit: "creds_step env now st st2 \<Longrightarrow> creds_step env now st (add_audit now a v c d st2)"
  by (simp add: creds_step_def add_audit_def)

lemma mint_creds:
  assumes "mint env wallet kind label ttl via now token st = (st2, r)"
    and "kind = Key \<Longrightarrow> int (live_keys wallet (py_int now) st) < keys_per_wallet (ge_limits env)"
  shows "creds_step env now st st2 \<and> g_nonces st2 = g_nonces st"
proof (cases "\<exists>c \<in> set (g_credentials st). c_hash c = ge_sha256 env (secret_of token) \<or> c_id c = take 16 (ge_sha256 env (secret_of token))")
  case True
  with assms(1) show ?thesis by (auto simp: mint_def Let_def raise_st_def creds_step_def kept_all_refl)
next
  case False
  then have "ge_sha256 env (secret_of token) \<notin> c_hash ` set (g_credentials st)"
    "take 16 (ge_sha256 env (secret_of token)) \<notin> c_id ` set (g_credentials st)"
    by fastforce+
  with False assms show ?thesis
    by (auto simp: mint_def Let_def ret_st_def creds_step_def new_credential_def intro!: disjI2)
qed

lemma mint_limited_creds:
  "mint_limited env wallet label ttl now token st = (st2, r) \<Longrightarrow> creds_step env now st st2 \<and> g_nonces st2 = g_nonces st"
  by (auto simp: mint_limited_def Let_def raise_st_def same_secrets_creds dest!: mint_creds split: if_splits)

text \<open>Every step in the steps' relation.\<close>

lemma gate_step_creds: "gate_step env now st st2 \<Longrightarrow> creds_step env now st st2 \<and> g_nonces st2 = g_nonces st"
proof (induction rule: gate_step.induct)
  case (do_mint wallet label ttl token st st2 k)
  then show ?case by (rule mint_limited_creds)
next
  case (do_lookup secret v st st2 who)
  then show ?case using lookup_creds [of env now st secret v] by simp
next
  case (do_revoke kid owner via st st2 b)
  then show ?case
    using revoke_where_creds [of env now st "\<lambda>c. c_id c = kid \<and> (owner = None \<or> owner = Some (c_wallet c))"]
    by (auto simp: revoke_def Let_def creds_step_audit split: prod.splits if_splits) (simp_all add: add_audit_def)
next
  case (do_revoke_all wallet st st2 n)
  then show ?case
    using revoke_where_creds [of env now st "\<lambda>c. c_wallet c = wallet"]
    by (auto simp: revoke_all_def Let_def creds_step_audit split: prod.splits if_splits) (simp_all add: add_audit_def)
next
  case (do_policy st st2 r)
  then show ?case using policy_op_frame [of st env now] same_secrets_creds by (auto simp: same_secrets_def)
next
  case (do_apply obj p signature via st st2 r)
  then show ?case using apply_policy_secrets [of st env p signature via now] same_secrets_creds by (auto simp: same_secrets_def)
next
  case (do_entitled others rpc wallet f st st2 e)
  then show ?case using entitled_secrets [of st env others rpc wallet f now] same_secrets_creds by (auto simp: same_secrets_def)
next
  case (do_policy_admit ip st st2 r')
  then show ?case using policy_admit_frame [of st env ip now] same_secrets_creds by (auto simp: same_secrets_def)
next
  case (do_check message ip host st st2 m)
  then show ?case using sign_in_check_frame [of st env message ip host now] same_secrets_creds by (auto simp: same_secrets_def)
next
  case (do_fail st ip)
  then show ?case using sign_in_failed_frame [of st env ip now] same_secrets_creds by (auto simp: same_secrets_def)
next
  case (do_audit st actor via action detail)
  then show ?case using add_audit_frame(1) [of st] same_secrets_creds by (auto simp: same_secrets_def)
qed (simp_all add: creds_step_def kept_all_refl)

lemma open_session_creds:
  assumes "open_session env address label ip now token st = (st2, r)"
  shows "creds_step env now st st2 \<and> g_nonces st2 = g_nonces st"
proof -
  obtain st1 r1 where m: "mint env address Session label (session_ttl_s (ge_limits env)) Cookie now token st = (st1, r1)"
    by fastforce
  then have "creds_step env now st st1 \<and> g_nonces st1 = g_nonces st" by (rule mint_creds) simp
  moreover have "st2 = st1 \<or> (\<exists>a d. st2 = add_audit now address ''web'' a d st1)"
    using assms m by (cases r1) (auto simp: open_session_def ret_st_def)
  ultimately show ?thesis using creds_step_audit by (auto simp: add_audit_def)
qed

text \<open>The effect of the operation \<open>nonce\<close> on the store: the front expires, and a success adds the nonce.\<close>

lemma nonce_op_effect:
  assumes "nonce_op env wallet ip now nonce st = (st2, r)"
  shows "g_credentials st2 = g_credentials st \<and>
    (g_nonces st2 = g_nonces st \<or> g_nonces st2 = drop_expired now (g_nonces st) \<or>
     (\<exists>t reply. r = Inr reply \<and> length (drop_expired now (g_nonces st)) < 4096 \<and>
       g_nonces st2 = od_set nonce t (drop_expired now (g_nonces st))))"
proof -
  have issue: "g_credentials s2 = g_credentials s \<and> (g_nonces s2 = drop_expired now (g_nonces s) \<or>
     (\<exists>t. x = Inr () \<and> length (drop_expired now (g_nonces s)) < 4096 \<and> g_nonces s2 = od_set nonce t (drop_expired now (g_nonces s))))"
    if "issue_nonce env now nonce s = (s2, x)" for s s2 x
    using that by (auto simp: issue_nonce_def Let_def ret_st_def raise_st_def split: if_splits)
  have reply: "g_credentials s2 = g_credentials s \<and> (g_nonces s2 = drop_expired now (g_nonces s) \<or>
     (\<exists>t j. y = Inr j \<and> length (drop_expired now (g_nonces s)) < 4096 \<and> g_nonces s2 = od_set nonce t (drop_expired now (g_nonces s))))"
    if b: "bind_st (issue_nonce env now nonce s) (\<lambda>st _. ret_st st (nonce_reply env nonce now a)) = (s2, y)" for s s2 y a
  proof -
    obtain s1 x where "issue_nonce env now nonce s = (s1, x)" by fastforce
    with b issue [OF this] show ?thesis by (cases x) (auto simp: ret_st_def)
  qed
  show ?thesis
    using assms reply [of st _ st2 r] reply [of "st\<lparr>g_nonce_requests := _\<rparr>" _ st2 r]
    by (auto simp: nonce_op_def Let_def raise_st_def split: option.splits prod.splits if_splits)
qed

lemma od_ok_dropWhile: "od_ok d \<Longrightarrow> od_ok (dropWhile P d)"
  by (simp add: od_ok_def od_keys_def dropWhile_eq_drop drop_map [symmetric])

lemma set_keys_dropWhile: "set (od_keys (dropWhile P d)) \<subseteq> set (od_keys d)"
  by (auto simp: od_keys_def dest: set_dropWhileD)

definition nonces_inv :: "world \<Rightarrow> bool" where
  "nonces_inv w \<longleftrightarrow>
     od_ok (g_nonces (w_gate w)) \<and> length (g_nonces (w_gate w)) \<le> 4096 \<and>
     set (od_keys (g_nonces (w_gate w))) \<subseteq> set (w_issued w) - set (w_used w) \<and>
     distinct (w_used w) \<and> set (w_used w) \<subseteq> set (w_issued w)"

lemma nonces_inv_expire: "nonces_inv w \<Longrightarrow> g_nonces st = drop_expired now (g_nonces (w_gate w)) \<Longrightarrow> nonces_inv (w\<lparr>w_gate := st\<rparr>)"
  using set_keys_dropWhile [of "\<lambda>e. snd e \<le> now" "g_nonces (w_gate w)"] length_dropWhile_le [of "\<lambda>e. snd e \<le> now" "g_nonces (w_gate w)"]
  by (auto simp: nonces_inv_def drop_expired_def od_ok_dropWhile)

lemma nonces_inv_move: "gate_move env w w' \<Longrightarrow> nonces_inv w \<Longrightarrow> nonces_inv w'"
proof (induction rule: gate_move.induct)
  case (steps w st)
  then show ?case using gate_step_creds [OF steps(1)] by (simp add: nonces_inv_def)
next
  case (asks_nonce nonce w wallet ip st reply)
  let ?d = "drop_expired (w_clock w) (g_nonces (w_gate w))"
  have new: "nonce \<notin> set (w_used w)" using asks_nonce by (auto simp: nonces_inv_def)
  have d: "nonces_inv (w\<lparr>w_gate := (w_gate w)\<lparr>g_nonces := ?d\<rparr>\<rparr>)"
    using nonces_inv_expire [OF asks_nonce.prems] by simp
  have "g_nonces st = g_nonces (w_gate w) \<or> g_nonces st = ?d \<or> (\<exists>t. length ?d < 4096 \<and> g_nonces st = od_set nonce t ?d)"
    using nonce_op_effect [OF asks_nonce(2)] by blast
  moreover have "length (od_set nonce t ?d) \<le> 4096" if "length ?d < 4096" for t
    using length_od_set [of nonce t ?d] that by simp
  ultimately show ?case
    using asks_nonce.prems d new by (auto simp: nonces_inv_def od_keys_set_insert)
next
  case (nonce_refused nonce w wallet ip st e)
  have "g_nonces st = g_nonces (w_gate w) \<or> g_nonces st = drop_expired (w_clock w) (g_nonces (w_gate w))"
    using nonce_op_effect [OF nonce_refused(2)] by blast
  then show ?case
  proof
    assume "g_nonces st = g_nonces (w_gate w)"
    with nonce_refused.prems show ?thesis by (simp add: nonces_inv_def)
  qed (rule nonces_inv_expire [OF nonce_refused.prems])
next
  case (opens nonce w st address label ip token st2 r)
  then have "g_nonces st2 = od_del nonce (g_nonces (w_gate w))" "nonce \<in> set (od_keys (g_nonces (w_gate w)))"
    using open_session_creds [OF opens(2)]
    by (auto simp: take_nonce_def ret_st_def raise_st_def set_od_keys split: if_splits)
  then show ?case
    using opens.prems length_od_del [of nonce "g_nonces (w_gate w)"] by (auto simp: nonces_inv_def od_keys_del intro: le_trans)
qed (simp_all add: nonces_inv_def restart_def start_gate_def od_keys_def)

lemma gate_reach_nonces: "gate_reach env w \<Longrightarrow> nonces_inv w"
proof (induction rule: gate_reach_induct)
  case (first t)
  then show ?case by (simp add: nonces_inv_def first_world_def start_gate_def od_keys_def)
next
  case (move w w')
  then show ?case using nonces_inv_move by blast
qed

text \<open>
  C16. A nonce opens at most one session: in every state the gate can reach, whatever the
  interleaving of sign-ins and the restarts, no nonce opened two sessions, only issued nonces
  opened one, taking a used nonce is refused, and at most 4096 nonces are outstanding.
\<close>

theorem nonce_opens_once:
  assumes "gate_reach env w"
  shows "distinct (w_used w) \<and> set (w_used w) \<subseteq> set (w_issued w) \<and> length (g_nonces (w_gate w)) \<le> 4096 \<and>
    (\<forall>n \<in> set (w_used w). take_nonce n (w_gate w) = (w_gate w, Inl (sign_in_refused ''nonce unknown, used or expired'')))"
proof -
  have inv: "nonces_inv w" by (rule gate_reach_nonces [OF assms])
  have "map_of (g_nonces (w_gate w)) n = None" if "n \<in> set (w_used w)" for n
    using inv that set_od_keys [of "g_nonces (w_gate w)"] by (auto simp: nonces_inv_def)
  with inv show ?thesis by (simp add: nonces_inv_def take_nonce_def raise_st_def)
qed

definition sample_env :: gate_env where
  "sample_env = \<lparr>ge_siwe = sample_siwe, ge_eth = echo_lib, ge_sha256 = (\<lambda>s. s), ge_ip_bucket = (\<lambda>ip. ip), ge_iso = (\<lambda>_. []),
     ge_limits = default_limits, ge_owner = Some (''0x'' @ replicate 40 CHR ''a''), ge_chain_id = 4663,
     ge_hosts = [''pools.test'']\<rparr>"

text \<open>A world where a nonce was issued and used.\<close>

definition signed_world :: world where
  "signed_world = (let w = first_world 200; st1 = fst (nonce_op sample_env [] None 200 ''abcdef12'' (w_gate w));
     st2 = fst (open_session sample_env ''0xw'' ''laptop'' ''::1'' 200 [1] (fst (take_nonce ''abcdef12'' st1)))
   in \<lparr>w_clock = 200, w_gate = st2, w_issued = [''abcdef12''], w_used = [''abcdef12'']\<rparr>)"

lemma signed_world_reached: "gate_reach sample_env signed_world"
proof -
  let ?w = "first_world 200"
  obtain st1 reply where n: "nonce_op sample_env [] None 200 ''abcdef12'' (w_gate ?w) = (st1, Inr reply)"
    and m: "map_of (g_nonces st1) ''abcdef12'' \<noteq> None"
    by (simp add: nonce_op_def issue_nonce_def first_world_def start_gate_def drop_expired_def ret_st_def)
  obtain st2 where t: "take_nonce ''abcdef12'' st1 = (st2, Inr ())" using m by (auto simp: take_nonce_def ret_st_def)
  obtain st3 r where o1: "open_session sample_env ''0xw'' ''laptop'' ''::1'' 200 [1] st2 = (st3, r)" by fastforce
  let ?w1 = "?w\<lparr>w_gate := st1, w_issued := [''abcdef12'']\<rparr>"
  have "gate_move sample_env ?w ?w1"
    using asks_nonce [of "''abcdef12''" ?w sample_env "[]" None st1 reply] n by (simp add: first_world_def)
  moreover have "gate_move sample_env ?w1 (?w1\<lparr>w_gate := st3, w_used := [''abcdef12'']\<rparr>)"
    using opens [of "''abcdef12''" ?w1 st2 sample_env "''0xw''" "''laptop''" "''::1''" "[1]" st3 r] t o1 by (simp add: first_world_def)
  moreover have "signed_world = ?w1\<lparr>w_gate := st3, w_used := [''abcdef12'']\<rparr>"
    using n t o1 by (simp add: signed_world_def Let_def first_world_def)
  ultimately show ?thesis unfolding gate_reach_def by (metis converse_rtranclp_into_rtranclp r_into_rtranclp)
qed

theorem nonce_opens_once_witness:
  "take_nonce ''abcdef12'' (w_gate signed_world) = (w_gate signed_world, Inl (sign_in_refused ''nonce unknown, used or expired''))"
  using nonce_opens_once [OF signed_world_reached] by (simp add: signed_world_def Let_def)

section \<open>Live credentials\<close>

lemma py_int_mono: "x \<le> y \<Longrightarrow> py_int x \<le> py_int y"
proof -
  assume le: "x \<le> y"
  show ?thesis
  proof (cases "0 \<le> x \<or> y < 0")
    case True
    with le show ?thesis by (auto simp: py_int_def intro: floor_mono ceiling_mono)
  next
    case False
    then have "\<lceil>x\<rceil> \<le> 0" "0 \<le> \<lfloor>y\<rfloor>" by (simp_all add: ceiling_le_zero)
    then have "\<lceil>x\<rceil> \<le> \<lfloor>y\<rfloor>" by (rule order_trans)
    with False show ?thesis by (simp add: py_int_def)
  qed
qed

definition creds_ok :: "gate_env \<Rightarrow> world \<Rightarrow> bool" where
  "creds_ok env w \<longleftrightarrow>
     distinct (map c_hash (g_credentials (w_gate w))) \<and> distinct (map c_id (g_credentials (w_gate w))) \<and>
     (\<forall>wallet. int (live_keys wallet (py_int (w_clock w)) (w_gate w)) \<le> max 0 (keys_per_wallet (ge_limits env)))"

lemma kept_fields: "list_all2 kept cs ds \<Longrightarrow> map c_hash ds = map c_hash cs \<and> map c_id ds = map c_id cs"
  by (induction rule: list_all2_induct) (auto simp: kept_def)

lemma kept_live: "list_all2 kept cs ds \<Longrightarrow> t \<le> u \<Longrightarrow>
  length (filter (\<lambda>c. c_wallet c = wallet \<and> c_kind c = Key \<and> live u c) ds) \<le>
  length (filter (\<lambda>c. c_wallet c = wallet \<and> c_kind c = Key \<and> live t c) cs)"
  by (induction rule: list_all2_induct) (auto simp: kept_def live_def)

text \<open>What one move does to the table.\<close>

lemma gate_move_creds:
  assumes "gate_move env w w'"
  shows "creds_step env (w_clock w) (w_gate w) (w_gate w') \<and> w_clock w \<le> w_clock w'"
  using assms
proof (induction rule: gate_move.induct)
  case (steps w st)
  then show ?case using gate_step_creds by simp
next
  case (asks_nonce nonce w wallet ip st reply)
  then show ?case using nonce_op_effect [OF asks_nonce(2)] by (simp add: creds_step_def kept_all_refl)
next
  case (nonce_refused nonce w wallet ip st e)
  then show ?case using nonce_op_effect [OF nonce_refused(2)] by (simp add: creds_step_def kept_all_refl)
next
  case (opens nonce w st address label ip token st2 r)
  then have "g_credentials st = g_credentials (w_gate w)" by (auto simp: take_nonce_def ret_st_def raise_st_def split: if_splits)
  with open_session_creds [OF opens(2)] show ?case
    by (simp add: creds_step_def new_credential_def live_keys_def)
qed (simp_all add: creds_step_def kept_all_refl restart_def start_gate_def)

lemma creds_ok_move: "gate_move env w w' \<Longrightarrow> creds_ok env w \<Longrightarrow> creds_ok env w'"
proof -
  assume "gate_move env w w'" and ok: "creds_ok env w"
  note s = gate_move_creds [OF this(1)]
  have mono: "py_int (w_clock w) \<le> py_int (w_clock w')" using s by (simp add: py_int_mono)
  consider (kept) "list_all2 kept (g_credentials (w_gate w)) (g_credentials (w_gate w'))"
    | (new) c where "g_credentials (w_gate w') = g_credentials (w_gate w) @ [c]" "new_credential env (w_clock w) (w_gate w) c"
    using s unfolding creds_step_def by blast
  then show "creds_ok env w'"
  proof cases
    case kept
    show ?thesis
      using ok kept_fields [OF kept] kept_live [OF kept mono] unfolding creds_ok_def live_keys_def
      by (metis (no_types, lifting) of_nat_le_iff order_trans)
  next
    case (new c)
    define adds :: "address \<Rightarrow> nat" where "adds wallet = (if c_wallet c = wallet \<and> c_kind c = Key then 1 else 0)" for wallet
    have grows: "live_keys wallet (py_int (w_clock w')) (w_gate w') \<le> live_keys wallet (py_int (w_clock w)) (w_gate w) + adds wallet" for wallet
      using kept_live [OF kept_all_refl mono, of wallet "g_credentials (w_gate w)"] by (simp add: live_keys_def new(1) adds_def)
    have room: "int (live_keys wallet (py_int (w_clock w)) (w_gate w)) + int (adds wallet) \<le> max 0 (keys_per_wallet (ge_limits env))" for wallet
      using ok new(2) unfolding creds_ok_def new_credential_def adds_def
      by (cases "c_wallet c = wallet \<and> c_kind c = Key") fastforce+
    have "int (live_keys wallet (py_int (w_clock w')) (w_gate w')) \<le> max 0 (keys_per_wallet (ge_limits env))" for wallet
      using grows [of wallet] room [of wallet] by linarith
    with ok new show ?thesis by (simp add: creds_ok_def new_credential_def)
  qed
qed

lemma gate_reach_creds: "gate_reach env w \<Longrightarrow> creds_ok env w"
proof (induction rule: gate_reach_induct)
  case (first t)
  then show ?case by (simp add: creds_ok_def first_world_def start_gate_def live_keys_def)
next
  case (move w w')
  then show ?case using creds_ok_move by blast
qed

text \<open>
  C17. The key limit holds in every reachable state: at the present time and ever after, a wallet
  has no more live keys than its limit, and no two credentials share a hash or an identifier.
\<close>

theorem live_keys_limited:
  assumes "gate_reach env w" and "w_clock w \<le> t"
  shows "int (live_keys wallet (py_int t) (w_gate w)) \<le> max 0 (keys_per_wallet (ge_limits env)) \<and>
    distinct (map c_hash (g_credentials (w_gate w))) \<and> distinct (map c_id (g_credentials (w_gate w)))"
proof -
  have "live_keys wallet (py_int t) (w_gate w) \<le> live_keys wallet (py_int (w_clock w)) (w_gate w)"
    unfolding live_keys_def by (rule kept_live [OF kept_all_refl py_int_mono [OF assms(2)]])
  with gate_reach_creds [OF assms(1)] show ?thesis unfolding creds_ok_def by (meson of_nat_mono order_trans)
qed

theorem live_keys_limited_witness: "int (live_keys ''0xw'' (py_int 300) (w_gate signed_world)) \<le> 8"
  using live_keys_limited [OF signed_world_reached, of 300 "''0xw''"]
  by (simp add: signed_world_def Let_def sample_env_def default_limits_def)

lemma kept_member: "list_all2 kept cs ds \<Longrightarrow> c \<in> set cs \<Longrightarrow> \<exists>d \<in> set ds. kept c d"
  by (induction rule: list_all2_induct) auto

lemma revoked_stays:
  assumes "(gate_move env)\<^sup>*\<^sup>* w w'" and "c \<in> set (g_credentials (w_gate w))" and "c_revoked_at c \<noteq> None"
  shows "\<exists>d \<in> set (g_credentials (w_gate w')). c_id d = c_id c \<and> c_hash d = c_hash c \<and> c_revoked_at d \<noteq> None"
  using assms(1)
proof (induction rule: rtranclp_induct)
  case base
  then show ?case using assms(2,3) by blast
next
  case (step y z)
  then obtain d where d: "d \<in> set (g_credentials (w_gate y))" "c_id d = c_id c" "c_hash d = c_hash c" "c_revoked_at d \<noteq> None"
    by blast
  have "creds_step env (w_clock y) (w_gate y) (w_gate z)" using gate_move_creds [OF step(2)] by simp
  then show ?case
    unfolding creds_step_def
  proof
    assume "list_all2 kept (g_credentials (w_gate y)) (g_credentials (w_gate z))"
    from kept_member [OF this d(1)] d show ?thesis by (auto simp: kept_def)
  qed (use d in auto)
qed

lemma gate_reach_later: "gate_reach env w \<Longrightarrow> (gate_move env)\<^sup>*\<^sup>* w w' \<Longrightarrow> gate_reach env w'"
  unfolding gate_reach_def by (meson rtranclp_trans)

lemma distinct_map_eq: "distinct (map f xs) \<Longrightarrow> x \<in> set xs \<Longrightarrow> y \<in> set xs \<Longrightarrow> f x = f y \<Longrightarrow> x = y"
  by (simp add: distinct_map inj_on_def)

text \<open>
  C18. Revocation is final: once a credential is revoked, no later operation, restart or passing of
  time brings it back, neither by its identifier nor by its secret.
\<close>

theorem revocation_is_final:
  assumes "gate_reach env w" and "c \<in> set (g_credentials (w_gate w))" and "c_revoked_at c \<noteq> None"
    and "(gate_move env)\<^sup>*\<^sup>* w w'"
  shows "lookup_id (c_id c) t (w_gate w') = None \<and>
    (ge_sha256 env secret = c_hash c \<longrightarrow> lookup env secret v t (w_gate w') = (w_gate w', None))"
proof -
  obtain d where d: "d \<in> set (g_credentials (w_gate w'))" "c_id d = c_id c" "c_hash d = c_hash c" "c_revoked_at d \<noteq> None"
    using revoked_stays [OF assms(4,2,3)] by blast
  have ok: "creds_ok env w'" by (rule gate_reach_creds [OF gate_reach_later [OF assms(1,4)]])
  have "\<not> live u e" if "e \<in> set (g_credentials (w_gate w'))" "c_id e = c_id c \<or> c_hash e = c_hash c" for e u
  proof -
    have "e = d"
      using that d ok distinct_map_eq [of c_id "g_credentials (w_gate w')" e d] distinct_map_eq [of c_hash "g_credentials (w_gate w')" e d]
      by (auto simp: creds_ok_def)
    then show ?thesis using d(4) by (simp add: live_def)
  qed
  then have "filter (\<lambda>e. c_id e = c_id c \<and> live u e) (g_credentials (w_gate w')) = []"
    "filter (\<lambda>e. c_hash e = c_hash c \<and> live u e) (g_credentials (w_gate w')) = []" for u
    by (auto simp: filter_empty_conv)
  then show ?thesis by (simp add: lookup_id_def lookup_def Let_def)
qed

text \<open>The world after the session of \<open>signed_world\<close> is revoked.\<close>

definition revoked_world :: world where
  "revoked_world = signed_world\<lparr>w_gate := fst (revoke_all ''0xw'' 200 (w_gate signed_world))\<rparr>"

lemma revoked_world_reached: "gate_reach sample_env revoked_world"
proof -
  have c: "w_clock signed_world = 200" by (simp add: signed_world_def Let_def)
  obtain st n where r: "revoke_all ''0xw'' 200 (w_gate signed_world) = (st, n)" by fastforce
  then have "gate_step sample_env (w_clock signed_world) (w_gate signed_world) st" unfolding c by (rule do_revoke_all)
  then have "gate_move sample_env signed_world revoked_world" using r unfolding revoked_world_def by (simp add: gate_move.steps)
  with signed_world_reached show ?thesis by (meson gate_reach_later r_into_rtranclp)
qed

theorem revocation_is_final_witness:
  "\<exists>c :: credential. c_wallet c = ''0xw'' \<and> lookup_id (c_id c) 300 (w_gate (revoked_world\<lparr>w_clock := 300\<rparr>)) = None"
proof -
  have "\<exists>c \<in> set (g_credentials (w_gate revoked_world)). c_wallet c = ''0xw'' \<and> c_revoked_at c \<noteq> None"
    by code_simp
  then obtain c where c: "c \<in> set (g_credentials (w_gate revoked_world))" "c_revoked_at c \<noteq> None" "c_wallet c = ''0xw''" by blast
  have "gate_move sample_env revoked_world (revoked_world\<lparr>w_clock := 300\<rparr>)"
    by (rule time_passes) (simp add: revoked_world_def signed_world_def Let_def)
  from revocation_is_final [OF revoked_world_reached c(1,2) r_into_rtranclp [of "gate_move sample_env", OF this], of 300 "[]" Bearer] c(3)
  show ?thesis by (intro exI [of _ c] conjI) blast+
qed

section \<open>The log of policies\<close>

text \<open>A row is what the owner signed, and reads back as the policy that was offered.\<close>

definition owner_signed :: "gate_env \<Rightarrow> policy_row \<Rightarrow> bool" where
  "owner_signed env r \<longleftrightarrow>
     (\<exists>p d. pr_body r = policy_public p \<and> pr_version r = gp_version p \<and>
        parse_policy (checksum_json (ge_siwe env)) (policy_public p) = Inr p \<and>
        policy_digest (ge_eth env) p (ge_chain_id env) = Inr d \<and>
        recover_signer (ge_siwe env) d (pr_signature r) = Inr (pr_signer r) \<and> owner_error env (pr_signer r) = None)"

definition policies_inv :: "gate_env \<Rightarrow> gate_state \<Rightarrow> bool" where
  "policies_inv env st \<longleftrightarrow>
     sorted_wrt (<) (map pr_version (g_policies st)) \<and> (\<forall>r \<in> set (g_policies st). owner_signed env r) \<and>
     (g_read_at st \<noteq> None \<longrightarrow> stored_policy env st = Inr (g_policy st))"

lemma latest_row_snoc: "sorted_wrt (<) (map pr_version (rs @ [r])) \<Longrightarrow> latest_row (rs @ [r]) = Some r"
  by (induction rs) auto

lemma latest_row_member: "latest_row rs = Some r \<Longrightarrow> r \<in> set rs"
  by (induction rs arbitrary: r) (auto split: option.splits if_splits)

lemma latest_row_None: "latest_row rs = None \<longleftrightarrow> rs = []"
  by (cases rs) (auto split: option.splits)

lemma latest_row_greatest: "sorted_wrt (<) (map pr_version rs) \<Longrightarrow> latest_row rs = Some r \<Longrightarrow> q \<in> set rs \<Longrightarrow> pr_version q \<le> pr_version r"
proof (induction rs arbitrary: r)
  case (Cons a rs)
  then show ?case
    using latest_row_member [of rs] by (cases "latest_row rs") (fastforce simp: latest_row_None split: if_splits)+
qed simp

lemma stored_policy_row:
  assumes "\<forall>r \<in> set (g_policies st). owner_signed env r"
  shows "\<exists>p. stored_policy env st = Inr p \<and>
    (case latest_row (g_policies st) of None \<Rightarrow> p = UNSET_POLICY | Some r \<Rightarrow> pr_body r = policy_public p \<and> pr_version r = gp_version p)"
proof (cases "latest_row (g_policies st)")
  case None
  then show ?thesis by (simp add: stored_policy_def)
next
  case (Some r)
  then have "owner_signed env r" using assms latest_row_member by blast
  with Some show ?thesis by (auto simp: owner_signed_def stored_policy_def)
qed

text \<open>A checksummed address is its own checksum.\<close>

definition checksum_stable :: "gate_env \<Rightarrow> bool" where
  "checksum_stable env \<longleftrightarrow> (\<forall>a b. checksum (ge_siwe env) a = Some b \<longrightarrow> checksum (ge_siwe env) b = Some b)"

lemma parsed_reads_back:
  "checksum_stable env \<Longrightarrow> parse_policy (checksum_json (ge_siwe env)) obj = Inr p \<Longrightarrow>
    parse_policy (checksum_json (ge_siwe env)) (policy_public p) = Inr p"
  using policy_reads_back [of "checksum_json (ge_siwe env)" obj p]
  by (auto simp: checksum_stable_def checksum_json_def split: json.splits)

lemma policies_inv_same: "same_policies st st2 \<Longrightarrow> policies_inv env st \<Longrightarrow> policies_inv env st2"
  by (simp add: same_policies_def policies_inv_def stored_policy_def)

lemma policy_op_effect:
  assumes "policies_inv env st" and "policy_op env now st = (st2, r)"
  shows "policies_inv env st2 \<and> g_policies st2 = g_policies st \<and> (\<exists>p. r = Inr p \<and> stored_policy env st2 = Inr p)"
proof -
  obtain p where p: "stored_policy env st = Inr p" using assms(1) stored_policy_row unfolding policies_inv_def by blast
  show ?thesis
  proof (cases "reload_due now st")
    case True
    with assms p show ?thesis
      by (auto simp: policy_op_def ret_st_def policies_inv_def stored_policy_def)
  next
    case False
    then have "g_read_at st \<noteq> None" by (cases "g_read_at st") (simp_all add: reload_due_def)
    with False assms show ?thesis by (auto simp: policy_op_def ret_st_def policies_inv_def)
  qed
qed

lemma gate_entitlement_policies:
  "policies_inv env st \<Longrightarrow> policies_inv env (fst (gate_entitlement env others rpc w now st))"
proof -
  assume "policies_inv env st"
  obtain st1 r1 where op: "policy_op env now st = (st1, r1)" by fastforce
  have inv: "policies_inv env st1" using policy_op_effect [OF \<open>policies_inv env st\<close> op] by simp
  have "policies_inv env (s\<lparr>g_oracle := o2, g_qualified := rows\<rparr>)" if "policies_inv env s" for s o2 rows
    by (rule policies_inv_same [OF _ that]) (simp add: same_policies_def)
  then show ?thesis
    unfolding gate_entitlement_def op
    by (intro bind_st_invariant [where P = "policies_inv env"]) (simp_all add: inv split: prod.split)
qed

lemma entitled_policies: "policies_inv env st \<Longrightarrow> policies_inv env (fst (entitled env others rpc w f now st))"
proof -
  assume inv: "policies_inv env st"
  have "policies_inv env (fst (bind_st (policy_op env now s) (\<lambda>st p. raise_st st (not_entitled ent p f))))"
    if "policies_inv env s" for s ent
  proof -
    obtain s2 r where "policy_op env now s = (s2, r)" by fastforce
    with policy_op_effect [OF that this] show ?thesis by (auto simp: raise_st_def)
  qed
  with gate_entitlement_policies [OF inv] show ?thesis
    unfolding entitled_def by (intro bind_st_invariant [where P = "policies_inv env"]) (auto simp: ret_st_def)
qed

text \<open>Inserting a policy that is newer than the one in force.\<close>

lemma insert_policy_inv:
  assumes inv: "policies_inv env st" and cur: "stored_policy env st = Inr current" and gt: "gp_version current < gp_version p"
    and row: "parse_policy (checksum_json (ge_siwe env)) (policy_public p) = Inr p" "policy_digest (ge_eth env) p (ge_chain_id env) = Inr d"
      "recover_signer (ge_siwe env) d sg = Inr si" "owner_error env si = None"
    and ins: "insert_policy p sg si v now st = (st2, r)"
  shows "policies_inv env st2"
proof (cases "gp_version p \<in> pr_version ` set (g_policies st)")
  case True
  with ins inv show ?thesis by (simp add: insert_policy_def raise_st_def)
next
  case False
  define new where "new = \<lparr>pr_version = gp_version p, pr_body = policy_public p, pr_signature = sg, pr_signer = si, pr_via = v, pr_applied_at = now\<rparr>"
  have st2: "g_policies st2 = g_policies st @ [new]" "g_policy st2 = p" "g_read_at st2 = Some now"
    using False ins by (auto simp: insert_policy_def ret_st_def new_def)
  have "pr_version q < gp_version p" if "q \<in> set (g_policies st)" for q
  proof (cases "latest_row (g_policies st)")
    case None
    with that show ?thesis by (simp add: latest_row_None)
  next
    case (Some r)
    have "pr_version r = gp_version current"
      using stored_policy_row [of st env] inv cur Some by (auto simp: policies_inv_def)
    with latest_row_greatest [OF _ Some that] inv gt show ?thesis by (simp add: policies_inv_def)
  qed
  then have sorted: "sorted_wrt (<) (map pr_version (g_policies st @ [new]))"
    using inv by (auto simp: policies_inv_def sorted_wrt_append new_def)
  moreover have "owner_signed env new" using row by (auto simp: owner_signed_def new_def)
  moreover have "stored_policy env st2 = Inr p"
    using row(1) latest_row_snoc [OF sorted] by (simp add: stored_policy_def st2(1)) (simp add: new_def)
  ultimately show ?thesis using inv by (auto simp: policies_inv_def st2)
qed

lemma apply_policy_inv:
  assumes inv: "policies_inv env st" and reads: "parse_policy (checksum_json (ge_siwe env)) (policy_public p) = Inr p"
    and ap: "apply_policy env p sg v now st = (st2, r)"
  shows "policies_inv env st2"
proof (cases "bindr (policy_digest (ge_eth env) p (ge_chain_id env)) (\<lambda>d. recover_signer (ge_siwe env) d sg)")
  case (Inl e)
  have refusal: "policies_inv env (record_refusal now st)"
    by (rule policies_inv_same [OF record_refusal_frame(2) inv])
  from Inl ap inv refusal show ?thesis by (cases e) (auto simp: apply_policy_def raise_st_def)
next
  case (Inr si)
  then obtain d where d: "policy_digest (ge_eth env) p (ge_chain_id env) = Inr d" "recover_signer (ge_siwe env) d sg = Inr si"
    by (auto elim: bindr_InrE)
  show ?thesis
  proof (cases "owner_error env si")
    case (Some refusal)
    with Inr ap policies_inv_same [OF record_refusal_frame(2) inv] show ?thesis by (auto simp: apply_policy_def raise_st_def)
  next
    case None
    obtain st1 r1 where op: "policy_op env now st = (st1, r1)" by fastforce
    obtain current where cur: "r1 = Inr current" "stored_policy env st1 = Inr current" and inv1: "policies_inv env st1"
      using policy_op_effect [OF inv op] by blast
    let ?replay = "(\<exists>r \<in> set (g_policies st1). pr_version r = gp_version p \<and> pr_signature r = sg) \<and> gp_version p = gp_version current"
    have ap': "(st2, r) = (if ?replay then ret_st st1 current else
       (case policy_reason p current now of
          Some (status, reason) \<Rightarrow> raise_st (add_audit now si v ''policy.refused''
             (JObj [(''reason'', JStr reason), (''version'', JInt (gp_version p))]) st1) (policy_refused status reason si)
        | None \<Rightarrow> insert_policy p sg si v now st1))"
      using ap Inr None op cur(1) by (simp add: apply_policy_def)
    show ?thesis
    proof (cases "policy_reason p current now")
      case None
      then have "gp_version current < gp_version p" by (auto simp: policy_reason_def split: if_splits)
      note ins = insert_policy_inv [OF inv1 cur(2) this reads d \<open>owner_error env si = None\<close>, of v now st2 r]
      show ?thesis
      proof (cases ?replay)
        case True
        have "(st2, r) = ret_st st1 current" using ap' if_P [OF True] by (rule trans)
        with inv1 show ?thesis by (simp add: ret_st_def)
      next
        case False
        with ap' None have "insert_policy p sg si v now st1 = (st2, r)" by (simp only: if_False option.case)
        then show ?thesis by (rule ins)
      qed
    next
      case (Some e)
      with ap' inv1 policies_inv_same [OF add_audit_frame(2) inv1] show ?thesis
        by (auto simp: ret_st_def raise_st_def split: if_splits prod.splits)
    qed
  qed
qed

lemma same_policies_open: "mint env a k l ttl v now token st = (st2, r) \<Longrightarrow> same_policies st st2"
  by (auto simp: mint_def Let_def ret_st_def raise_st_def same_policies_def split: if_splits)

lemma open_session_policies: "open_session env a l ip now token st = (st2, r) \<Longrightarrow> same_policies st st2"
proof -
  assume os: "open_session env a l ip now token st = (st2, r)"
  obtain st1 r1 where m: "mint env a Session l (session_ttl_s (ge_limits env)) Cookie now token st = (st1, r1)" by fastforce
  have "st2 = st1 \<or> (\<exists>b d. st2 = add_audit now a ''web'' b d st1)"
    using os m by (cases r1) (auto simp: open_session_def ret_st_def)
  with same_policies_open [OF m] show ?thesis using same_trans(2) add_audit_frame(2) by blast
qed

lemma nonce_op_policies: "nonce_op env a ip now n st = (st2, r) \<Longrightarrow> same_policies st st2"
proof -
  have i: "same_policies s (fst (issue_nonce env now n s))" for s
    by (auto simp: issue_nonce_def Let_def ret_st_def raise_st_def same_policies_def)
  have b: "same_policies s (fst (bind_st (issue_nonce env now n s) (\<lambda>st _. ret_st st (nonce_reply env n now w))))" for s w
    using i [of s] by (cases "issue_nonce env now n s"; cases "snd (issue_nonce env now n s)") (auto simp: ret_st_def)
  have "same_policies st (st\<lparr>g_nonce_requests := d\<rparr>)" for d by (simp add: same_policies_def)
  with b have "same_policies st (fst (bind_st (issue_nonce env now n (st\<lparr>g_nonce_requests := d\<rparr>)) (\<lambda>st _. ret_st st (nonce_reply env n now w))))" for d w
    using same_trans(2) by blast
  with b [of st] have "same_policies st (fst (nonce_op env a ip now n st))"
    by (auto simp: nonce_op_def Let_def raise_st_def same_policies_def split: option.split prod.split)
  then show "nonce_op env a ip now n st = (st2, r) \<Longrightarrow> same_policies st st2" by simp
qed

lemma gate_step_policies:
  assumes "gate_step env now st st2" and "checksum_stable env" and "policies_inv env st"
  shows "policies_inv env st2"
  using assms(1,3)
proof (induction rule: gate_step.induct)
  case (do_policy st st2 r)
  then show ?case using policy_op_effect by blast
next
  case (do_apply obj p signature via st st2 r)
  then show ?case using apply_policy_inv [OF _ parsed_reads_back [OF assms(2)]] by blast
next
  case (do_entitled others rpc wallet f st st2 e)
  then show ?case using entitled_policies [of env st others rpc wallet f now] by simp
next
  case (do_policy_admit ip st st2 r')
  then show ?case using policy_admit_frame(2) [of st env ip now] policies_inv_same by simp
next
  case (do_check message ip host st st2 m)
  then show ?case using sign_in_check_frame(2) [of st env message ip host now] policies_inv_same by simp
next
  case (do_fail st ip)
  then show ?case using sign_in_failed_frame(2) policies_inv_same by blast
next
  case (do_audit st actor via action detail)
  then show ?case using add_audit_frame(2) policies_inv_same by blast
next
  case (do_mint wallet label ttl token st st2 k)
  then have "same_policies st st2"
    by (auto simp: mint_limited_def Let_def raise_st_def intro: same_policies_open split: if_splits)
  with do_mint show ?case using policies_inv_same by blast
next
  case (do_lookup secret v st st2 who)
  then have "same_policies st st2" by (auto simp: lookup_def Let_def same_policies_def split: list.splits if_splits)
  with do_lookup show ?case using policies_inv_same by blast
next
  case (do_revoke kid owner via st st2 b)
  then have "same_policies st st2"
    by (auto simp: revoke_def revoke_where_def Let_def same_policies_def add_audit_def split: if_splits)
  with do_revoke show ?case using policies_inv_same by blast
next
  case (do_revoke_all wallet st st2 n)
  then have "same_policies st st2"
    by (auto simp: revoke_all_def revoke_where_def Let_def same_policies_def add_audit_def split: if_splits)
  with do_revoke_all show ?case using policies_inv_same by blast
qed (simp_all add: policies_inv_def stored_policy_def)

lemma policies_inv_move:
  assumes "gate_move env w w'" and "checksum_stable env" and "policies_inv env (w_gate w)"
  shows "policies_inv env (w_gate w')"
  using assms(1,3)
proof (induction rule: gate_move.induct)
  case (restarts w)
  then show ?case by (simp add: policies_inv_def restart_def start_gate_def)
next
  case (steps w st)
  then show ?case using gate_step_policies assms(2) by simp
next
  case (asks_nonce nonce w wallet ip st reply)
  then show ?case using nonce_op_policies policies_inv_same by simp blast
next
  case (nonce_refused nonce w wallet ip st e)
  then show ?case using nonce_op_policies policies_inv_same by simp blast
next
  case (opens nonce w st address label ip token st2 r)
  then have "same_policies (w_gate w) st" by (auto simp: take_nonce_def ret_st_def raise_st_def same_policies_def split: if_splits)
  with opens show ?case using open_session_policies same_trans(2) policies_inv_same by simp blast
qed simp

lemma gate_reach_policies:
  assumes "gate_reach env w" and "checksum_stable env"
  shows "policies_inv env (w_gate w)"
  using assms(1)
proof (induction rule: gate_reach_induct)
  case (first t)
  then show ?case by (simp add: policies_inv_def first_world_def start_gate_def)
next
  case (move w w')
  then show ?case using policies_inv_move assms(2) by blast
qed

text \<open>
  The policies the gate serves: in every reachable state the stored versions strictly
  increase, every row was signed by the configured owner and holds exactly what was signed, and
  asking for the policy never fails and gives the newest row, or the policy without a token while
  there is none.
\<close>

theorem policies_owner_signed:
  assumes "gate_reach env w" and "checksum_stable env"
  shows "sorted_wrt (<) (map pr_version (g_policies (w_gate w))) \<and> (\<forall>r \<in> set (g_policies (w_gate w)). owner_signed env r) \<and>
    (\<exists>st p. policy_op env now (w_gate w) = (st, Inr p) \<and>
      (case latest_row (g_policies (w_gate w)) of None \<Rightarrow> p = UNSET_POLICY
       | Some r \<Rightarrow> pr_body r = policy_public p \<and> pr_version r = gp_version p))"
proof -
  have inv: "policies_inv env (w_gate w)" by (rule gate_reach_policies [OF assms])
  obtain st r where op: "policy_op env now (w_gate w) = (st, r)" by fastforce
  from policy_op_effect [OF inv op] obtain p where p: "r = Inr p" "stored_policy env st = Inr p" "g_policies st = g_policies (w_gate w)"
    by blast
  moreover have "\<exists>q. stored_policy env (w_gate w) = Inr q \<and>
      (case latest_row (g_policies (w_gate w)) of None \<Rightarrow> q = UNSET_POLICY | Some r \<Rightarrow> pr_body r = policy_public q \<and> pr_version r = gp_version q)"
    using stored_policy_row [of "w_gate w" env] inv by (simp add: policies_inv_def)
  ultimately have "case latest_row (g_policies (w_gate w)) of None \<Rightarrow> p = UNSET_POLICY
     | Some r \<Rightarrow> pr_body r = policy_public p \<and> pr_version r = gp_version p"
    by (simp add: stored_policy_def)
  with inv op p(1) show ?thesis by (auto simp: policies_inv_def)
qed

theorem policies_owner_signed_witness:
  "\<exists>st p. policy_op sample_env 300 (w_gate signed_world) = (st, Inr p) \<and> p = UNSET_POLICY"
proof -
  have "checksum_stable sample_env" by (simp add: checksum_stable_def sample_env_def sample_siwe_def)
  moreover have "g_policies (w_gate signed_world) = []" by code_simp
  ultimately show ?thesis using policies_owner_signed [OF signed_world_reached, of 300] by simp
qed

end
