(* ===== verification/Gate_Access.thy ===== *)
theory Gate_Access
  imports Gate_Reach
begin

text \<open>
  From the headers of a request to what it may do: whom \<^verbatim>\<open>Gate.require\<close> lets through, and what a
  sign-in gives. The lemmas follow one request through \<open>resolve\<close>, \<open>entitled\<close> and \<open>sign_in\<close>.
\<close>

section \<open>Whom a request acts for\<close>

definition header_secret :: "request_headers \<Rightarrow> string option" where
  "header_secret headers = (case bearer_secret headers of Some s \<Rightarrow> Some s | None \<Rightarrow> cookie_secret headers)"

lemma lookup_Some:
  assumes "lookup env secret v now st = (st2, Some p)"
  shows "\<exists>c \<in> set (g_credentials st). c_hash c = ge_sha256 env secret \<and> live (py_int now) c \<and> c_wallet c = p_wallet p \<and>
    c_id c = p_key_id p \<and> c_kind c = p_kind p \<and> p_via p = v"
proof -
  let ?rows = "filter (\<lambda>c. c_hash c = ge_sha256 env secret \<and> live (py_int now) c) (g_credentials st)"
  obtain c cs where r: "?rows = c # cs" using assms by (cases ?rows) (auto simp: lookup_def Let_def)
  then have "c \<in> set ?rows" by simp
  then have "c \<in> set (g_credentials st)" "c_hash c = ge_sha256 env secret" "live (py_int now) c" by auto
  moreover have "p = \<lparr>p_wallet = c_wallet c, p_key_id = c_id c, p_label = c_label c, p_via = v, p_kind = c_kind c, p_expires_at = c_expires_at c\<rparr>"
    using assms r by (auto simp: lookup_def Let_def)
  ultimately show ?thesis by (intro bexI [of _ c]) simp_all
qed

lemma resolve_Some:
  assumes "resolve env headers now st = (st2, Inr (Some p))"
  shows "\<exists>secret. header_secret headers = Some secret \<and>
    (\<exists>c \<in> set (g_credentials st). c_hash c = ge_sha256 env secret \<and> live (py_int now) c \<and> c_wallet c = p_wallet p \<and> c_id c = p_key_id p)"
proof (cases "bearer_secret headers")
  case (Some s)
  with assms have "lookup env s Bearer now st = (st2, Some p)"
    by (auto simp: resolve_def ret_st_def raise_st_def split: prod.splits option.splits)
  from lookup_Some [OF this] Some show ?thesis by (auto simp: header_secret_def)
next
  case None
  with assms obtain s where s: "cookie_secret headers = Some s" by (auto simp: resolve_def ret_st_def split: option.splits)
  with None assms have "lookup env s Cookie now st = (st2, Some p)"
    by (auto simp: resolve_def ret_st_def Let_def split: prod.splits)
  from lookup_Some [OF this] None s show ?thesis by (auto simp: header_secret_def)
qed

lemma entitle_wallet [simp]: "en_wallet (entitle p st now) = hs_wallet st"
  by (simp add: entitle_def split: prod.splits)

lemma entitlement_of_wallet:
  assumes "entitlement_of others rpc p wallet now ors = (ors2, Inr ent)"
  shows "en_wallet ent = wallet"
proof -
  have "settle_anchors p wallet h now rows = (rows2, ent) \<Longrightarrow> en_wallet ent = wallet" for h rows rows2
    by (auto simp: settle_anchors_def Let_def)
  with assms show ?thesis
    by (cases ors) (auto simp: entitlement_of_def Let_def ret_st_def raise_st_def split: option.splits prod.splits sum.splits)
qed

lemma entitled_Inr:
  assumes "entitled env others rpc wallet f now st = (st2, Inr ent)"
  shows "has_feature ent f \<and> en_wallet ent = wallet"
proof -
  from assms obtain st1 where g: "gate_entitlement env others rpc wallet now st = (st1, Inr ent)" and f: "has_feature ent f"
    by (auto simp: entitled_def result_simps split: if_splits)
  from g obtain p s where "(case entitlement_of others rpc p wallet now (g_oracle s, g_qualified s) of
         ((o2, rows2), r) \<Rightarrow> (s\<lparr>g_oracle := o2, g_qualified := rows2\<rparr>, (case r of Inl e \<Rightarrow> Inl (GateError e) | Inr x \<Rightarrow> Inr x)))
      = (st1, Inr ent)"
    unfolding gate_entitlement_def bind_st_eq_Inr by blast
  then obtain ors2 where "entitlement_of others rpc p wallet now (g_oracle s, g_qualified s) = (ors2, Inr ent)"
    by (cases "entitlement_of others rpc p wallet now (g_oracle s, g_qualified s)") (auto split: prod.splits sum.splits)
  from entitlement_of_wallet [OF this] f show ?thesis by simp
qed

text \<open>
  C19. Nobody is let through without a live credential and the feature: a request that \<open>require\<close>
  accepts carries a secret whose hash is stored for that wallet, unrevoked and unexpired, and the
  wallet's entitlement has the feature.
\<close>

theorem require_sound:
  assumes "require env others rpc headers f now st = (st2, Inr (p, ent))"
  shows "\<exists>secret c. header_secret headers = Some secret \<and> c \<in> set (g_credentials st) \<and> c_hash c = ge_sha256 env secret \<and>
    c_revoked_at c = None \<and> py_int now < c_expires_at c \<and> c_wallet c = p_wallet p \<and> c_id c = p_key_id p \<and>
    has_feature ent f \<and> en_wallet ent = p_wallet p"
proof -
  from assms obtain st1 where r: "resolve env headers now st = (st1, Inr (Some p))"
    and e: "entitled env others rpc (p_wallet p) f now st1 = (st2, Inr ent)"
    by (auto simp: require_def result_simps split: option.splits)
  from resolve_Some [OF r] entitled_Inr [OF e] show ?thesis by (auto simp: live_def)
qed

definition member_gate :: gate_state where
  "member_gate = (start_gate [\<lparr>c_hash = ''rhp_x'', c_id = ''k1'', c_wallet = ''0xw'', c_kind = Key, c_label = [], c_created_at = 0,
       c_expires_at = 1000, c_revoked_at = None, c_last_used_at = None\<rparr>] [] (\<lambda>_. None) [])
     \<lparr>g_policy := UNSET_POLICY\<lparr>gp_token := Some ''0xT''\<rparr>, g_read_at := Some 200\<rparr>"

theorem require_sound_witness:
  "\<exists>c \<in> set (g_credentials member_gate). c_wallet c = ''0xw'' \<and> (200 :: int) < c_expires_at c"
proof -
  let ?r = "require sample_env (\<lambda>o1. o1) sample_node \<lparr>authorization = ''Bearer rhp_x'', cookie = []\<rparr> Api 201 member_gate"
  have "case ?r of (st2, Inr (p, ent)) \<Rightarrow> p_wallet p = ''0xw'' | _ \<Rightarrow> False" by code_simp
  then obtain st2 p ent where r: "?r = (st2, Inr (p, ent))" "p_wallet p = ''0xw''"
    by (auto split: prod.splits sum.splits)
  from require_sound [OF r(1)] r(2) show ?thesis by (auto simp: py_int_def)
qed

section \<open>What a sign-in gives\<close>

lemma b64_char_safe: "n < 64 \<Longrightarrow> is_alnum (b64_char n) \<or> b64_char n \<in> {CHR ''-'', CHR ''_''}"
proof -
  assume "n < 64"
  then consider "n < 26" | "26 \<le> n" "n < 52" | "52 \<le> n" "n < 62" | "n = 62" | "n = 63" by linarith
  then show ?thesis
    by cases (auto simp: b64_char_def is_alnum_def is_digit_def Let_def)
qed

lemma b64url_safe: "\<forall>b \<in> set bs. b < 256 \<Longrightarrow> c \<in> set (b64url bs) \<Longrightarrow> is_alnum c \<or> c \<in> {CHR ''-'', CHR ''_''}"
proof (induction bs rule: b64url.induct)
  case (1 a b d rest)
  have n: "a div 4 < 64" "a mod 4 * 16 + b div 16 < 64" "b mod 16 * 4 + d div 64 < 64" "d mod 64 < 64"
    using 1(2) by auto
  from 1(3) have "c \<in> {b64_char (a div 4), b64_char (a mod 4 * 16 + b div 16), b64_char (b mod 16 * 4 + d div 64), b64_char (d mod 64)}
      \<or> c \<in> set (b64url rest)" by auto
  then show ?case using 1(1,2) b64_char_safe [OF n(1)] b64_char_safe [OF n(2)] b64_char_safe [OF n(3)] b64_char_safe [OF n(4)]
    by fastforce
next
  case (2 a b)
  have n: "a div 4 < 64" "a mod 4 * 16 + b div 16 < 64" "b mod 16 * 4 < 64" using 2(1) by auto
  from 2(2) b64_char_safe [OF n(1)] b64_char_safe [OF n(2)] b64_char_safe [OF n(3)] show ?case by auto
next
  case (3 a)
  have n: "a div 4 < 64" "a mod 4 * 16 < 64" using 3(1) by auto
  from 3(2) b64_char_safe [OF n(1)] b64_char_safe [OF n(2)] show ?case by auto
qed simp

lemma secret_safe:
  assumes "c \<in> set (secret_of token)"
  shows "c \<noteq> CHR '';'' \<and> c \<noteq> CHR ''='' \<and> \<not> is_space c"
proof -
  have "is_alnum c \<or> c \<in> {CHR ''-'', CHR ''_''}"
    using assms b64url_safe [of "map unat token" c] unat_byte_lt by (auto simp: secret_of_def is_alnum_def Let_def)
  then show ?thesis by (auto simp: is_alnum_def is_digit_def is_space_def Let_def)
qed

lemma split_at_char_none: "sep \<notin> set s \<Longrightarrow> split_at_char sep s = [s]"
  by (induction s) auto

lemma partition_at_build: "sep \<notin> set a \<Longrightarrow> partition_at sep (a @ sep # b) = (a, b)"
  by (induction a) (auto simp: partition_at_def)

definition session_cookie :: "string \<Rightarrow> request_headers" where
  "session_cookie secret = \<lparr>authorization = [], cookie = ''__Host-rhp_session='' @ secret\<rparr>"

lemma session_cookie_secret:
  "bearer_secret (session_cookie (secret_of token)) = None \<and> cookie_secret (session_cookie (secret_of token)) = Some (secret_of token)"
proof
  show "bearer_secret (session_cookie (secret_of token)) = None"
    by (simp add: bearer_secret_def session_cookie_def partition_at_def lower_def)
  let ?s = "secret_of token" and ?c = "''__Host-rhp_session='' @ secret_of token"
  have "CHR '';'' \<notin> set ?c" using secret_safe [of "CHR '';''" token] by auto
  then have "split_at_char CHR '';'' ?c = [?c]" by (rule split_at_char_none)
  moreover have "strip ?c = ?c"
  proof (rule strip_no_space)
    show "\<forall>c \<in> set ?c. \<not> is_space c" using secret_safe [of _ token] by (auto simp: is_space_def)
  qed
  moreover have "partition_at CHR ''='' ?c = (''__Host-rhp_session'', ?s)"
    using partition_at_build [of "CHR ''=''" "''__Host-rhp_session''" ?s] by simp
  moreover have "is_secret ?s" by (simp add: is_secret_def secret_of_def)
  ultimately show "cookie_secret (session_cookie ?s) = Some ?s"
    by (simp add: cookie_secret_def session_cookie_def)
qed

lemma mint_lookup:
  assumes "mint env wallet kind label ttl via now token st = (st2, Inr (p, secret))" and "py_int later < p_expires_at p"
  shows "secret = secret_of token \<and> p_wallet p = wallet \<and>
    snd (lookup env secret v later (st2\<lparr>g_audit := a\<rparr>)) = Some (p\<lparr>p_via := v\<rparr>)"
proof -
  have new: "\<forall>c \<in> set (g_credentials st). c_hash c \<noteq> ge_sha256 env (secret_of token)"
    using assms(1) by (auto simp: mint_def Let_def raise_st_def split: if_splits)
  then have none: "filter (\<lambda>c. c_hash c = ge_sha256 env (secret_of token) \<and> live u c) (g_credentials st) = []" for u
    by (auto simp: filter_empty_conv)
  then show ?thesis
    using assms by (auto simp: mint_def Let_def ret_st_def raise_st_def lookup_def live_def split: if_splits)
qed

text \<open>
  A sign-in serves the wallet that signed: it succeeds only for a message addressed to this
  site whose nonce was outstanding and whose signature verifies for the address it names, and the
  secret it returns, sent back as the session cookie, is resolved to that address until it expires.
\<close>

theorem sign_in_serves_signer:
  assumes "sign_in env between rpc message signature label client_ip host now token st = (st2, Inr (p, secret))"
    and "py_int later < p_expires_at p"
  shows "\<exists>m. parse_message (ge_siwe env) message = Inr m \<and> message_reason env host now m = Inr () \<and>
    nonce_fresh (sm_nonce m) now st \<and> p_wallet p = sm_address m \<and>
    verify_signer (ge_siwe env) (sm_address m) (personal_sign_hash (ge_eth env) message) signature (Some rpc) = Inr True \<and>
    snd (resolve env (session_cookie secret) later st2) = Inr (Some p)"
proof -
  let ?verify = "\<lambda>m. verify_signer (ge_siwe env) (sm_address m) (personal_sign_hash (ge_eth env) message) signature (Some rpc)"
  from assms(1) obtain st1 m where chk: "sign_in_check env message client_ip host now st = (st1, Inr m)"
    and rest: "(case ?verify m of
         Inl e \<Rightarrow> raise_st (between st1) (refuse_value_error e)
       | Inr False \<Rightarrow> raise_st (sign_in_failed env client_ip now (between st1)) (sign_in_refused ''signature does not match the address'')
       | Inr True \<Rightarrow> bind_st (take_nonce (sm_nonce m) (between st1)) (\<lambda>st _. open_session env (sm_address m) label client_ip now token st))
      = (st2, Inr (p, secret))"
    unfolding sign_in_def bind_st_eq_Inr by blast
  from chk have m: "parse_message (ge_siwe env) message = Inr m" "message_reason env host now m = Inr ()" "nonce_fresh (sm_nonce m) now st"
    by (auto simp: sign_in_check_def raise_st_def ret_st_def Let_def split: sum.splits if_splits prod.splits elim!: bindr_InrE)
  from rest have ver: "?verify m = Inr True" by (auto simp: raise_st_def split: sum.splits bool.splits)
  with rest obtain st3 where "open_session env (sm_address m) label client_ip now token st3 = (st2, Inr (p, secret))"
    by (auto simp: bind_st_eq_Inr)
  then obtain st4 where mint: "mint env (sm_address m) Session label (session_ttl_s (ge_limits env)) Cookie now token st3 = (st4, Inr (p, secret))"
    and st2: "\<exists>a. st2 = st4\<lparr>g_audit := a\<rparr>"
    by (auto simp: open_session_def result_simps add_audit_def)
  from st2 mint_lookup [OF mint assms(2), of Cookie] have l: "snd (lookup env secret Cookie later st2) = Some (p\<lparr>p_via := Cookie\<rparr>)"
    and s: "secret = secret_of token" "p_wallet p = sm_address m" by auto
  have "p\<lparr>p_via := Cookie\<rparr> = p" using mint by (auto simp: mint_def Let_def ret_st_def raise_st_def split: if_splits)
  with l have "snd (resolve env (session_cookie secret) later st2) = Inr (Some p)"
    using session_cookie_secret [of token] by (simp add: resolve_def s ret_st_def split_beta)
  with m ver s show ?thesis by blast
qed

definition sample_message :: string where
  "sample_message = build_message ''pools.test'' (''0x'' @ replicate 40 CHR ''a'') ''Sign in.'' ''https://pools.test/''
     4663 ''abcdef12'' ''2025-01-01T00:00:00Z'' ''2025-01-01T00:10:00Z''"

definition sample_signature :: string where
  "sample_signature = ''0x'' @ replicate 128 CHR ''5'' @ ''1b''"

lemma sample_message_parses:
  "\<exists>m. parse_message sample_siwe sample_message = Inr m \<and> message_reason sample_env None 201 m = Inr () \<and>
     sm_nonce m = ''abcdef12'' \<and> sm_address m = ''0x'' @ replicate 40 CHR ''a''"
proof -
  let ?a = "''0x'' @ replicate 40 CHR ''a''"
  let ?m = "\<lparr>sm_domain = ''pools.test'', sm_address = ?a, sm_statement = Some ''Sign in.'', sm_uri = ''https://pools.test/'',
    sm_version = ''1'', sm_chain_id = 4663, sm_nonce = ''abcdef12'', sm_issued_at = 100, sm_expiration_time = Some 700, sm_not_before = None\<rparr>"
  have "address_text ?a" "nonce_text ''abcdef12''"
    and "length (build_message ''pools.test'' ?a ''Sign in.'' ''https://pools.test/'' 4663 ''abcdef12'' ''2025-01-01T00:00:00Z''
      ''2025-01-01T00:10:00Z'') \<le> 4096"
    by code_simp+
  from parse_build_message [OF _ this(1) _ _ this(2) _ _ this(3), of sample_siwe ?a 100 700]
  have "parse_message sample_siwe sample_message = Inr ?m" by (simp add: sample_siwe_def sample_message_def)
  moreover have "message_reason sample_env None 201 ?m = Inr ()"
  proof -
    have "case host_of sample_siwe ''https://pools.test/'' of Inr h \<Rightarrow> h = ''pools.test'' | _ \<Rightarrow> False" "lower ''pools.test'' = ''pools.test''"
      by code_simp+
    then show ?thesis by (auto simp: message_reason_def sample_env_def split: sum.splits)
  qed
  ultimately show ?thesis by (intro exI [of _ ?m]) simp
qed

lemma sample_signature_verifies:
  "verify_signer sample_siwe (''0x'' @ replicate 40 CHR ''a'') h sample_signature (Some rpc) = Inr True"
proof -
  have "case signature_bytes sample_signature of Inr sig \<Rightarrow> True | _ \<Rightarrow> False" "address_text (''0x'' @ replicate 40 CHR ''a'')"
    by code_simp+
  then show ?thesis by (auto simp: verify_signer_def recover_signer_def sample_siwe_def split: sum.splits)
qed

text \<open>A gate that has issued the nonce of the message.\<close>

definition asked_gate :: gate_state where
  "asked_gate = (start_gate [] [] (\<lambda>_. None) [])\<lparr>g_nonces := [(''abcdef12'', 800)]\<rparr>"

theorem sign_in_serves_signer_witness:
  "\<exists>st2 p secret. sign_in sample_env (\<lambda>st. st) sample_node sample_message sample_signature ''laptop'' ''::1'' None 201 [7] asked_gate
      = (st2, Inr (p, secret)) \<and> snd (resolve sample_env (session_cookie secret) 500 st2) = Inr (Some p)"
proof -
  let ?r = "sign_in sample_env (\<lambda>st. st) sample_node sample_message sample_signature ''laptop'' ''::1'' None 201 [7] asked_gate"
  obtain m where m: "parse_message sample_siwe sample_message = Inr m" "message_reason sample_env None 201 m = Inr ()"
    "sm_nonce m = ''abcdef12''" "sm_address m = ''0x'' @ replicate 40 CHR ''a''"
    using sample_message_parses by blast
  have env: "ge_siwe sample_env = sample_siwe" by (simp add: sample_env_def)
  have "sign_in_check sample_env sample_message ''::1'' None 201 asked_gate = (asked_gate, Inr m)"
    by (simp add: sign_in_check_def env m nonce_fresh_def asked_gate_def start_gate_def window_allowed_def ret_st_def)
  then have "\<exists>st2 p secret. ?r = (st2, Inr (p, secret)) \<and> py_int 500 < p_expires_at p"
    using sample_signature_verifies
    by (simp add: sign_in_def env m take_nonce_def asked_gate_def start_gate_def open_session_def mint_def Let_def ret_st_def
        py_int_def sample_env_def default_limits_def)
  then obtain st2 p secret where r: "?r = (st2, Inr (p, secret))" "py_int 500 < p_expires_at p" by blast
  from sign_in_serves_signer [OF r] r(1) show ?thesis by blast
qed

end
