(* ===== verification/Lp_Abi.thy ===== *)
theory Lp_Abi
  imports Tx_Chain Json_Text
begin

text \<open>
  The readers of \<^verbatim>\<open>src/rhpools/lp_market_protocols.py\<close>: integers, addresses, hashes and ABI words
  of JSON records. The records come from JSON-RPC or the store, so no value is of type
  \<^verbatim>\<open>bytes\<close> and the branches on it have no counterpart. A record is its list of fields, and
  \<^verbatim>\<open>record.get(k)\<close> is \<open>dget k record\<close>, \<open>JNull\<close> when the field is absent.
\<close>

section \<open>Records and exceptions\<close>

type_synonym jdict = "(string \<times> json) list"

datatype lp_exn =
    ProtocolDecodeError string
  | PinnedCallFailed string
  | LpPy py_error

fun lift_lp :: "py_error + 'a \<Rightarrow> lp_exn + 'a" where
  "lift_lp (Inl e) = Inl (LpPy e)"
| "lift_lp (Inr x) = Inr x"

abbreviation bad_record :: "string \<Rightarrow> lp_exn + 'a" where
  "bad_record text \<equiv> Inl (ProtocolDecodeError text)"

definition dget :: "string \<Rightarrow> jdict \<Rightarrow> json" where
  "dget k d = (case map_of d k of None \<Rightarrow> JNull | Some v \<Rightarrow> v)"

text \<open>\<^verbatim>\<open>record.get(k, record.get(k2))\<close>: the second field only where the first is absent.\<close>

definition dget_or :: "string \<Rightarrow> string \<Rightarrow> jdict \<Rightarrow> json" where
  "dget_or k k2 d = (case map_of d k of None \<Rightarrow> dget k2 d | Some v \<Rightarrow> v)"

text \<open>\<^verbatim>\<open>dict.update\<close>.\<close>

definition dput :: "jdict \<Rightarrow> jdict \<Rightarrow> jdict" where
  "dput d kvs = fold (\<lambda>(k, v) d. od_set k v d) kvs d"

fun obj_of :: "json \<Rightarrow> jdict option" where
  "obj_of (JObj d) = Some d"
| "obj_of _ = None"

text \<open>
  \<^verbatim>\<open>str(v)\<close>. Of a container only the bracket it begins with is kept: its text is compared with
  names that do not begin so.
\<close>

fun str_of :: "json \<Rightarrow> string" where
  "str_of (JStr s) = s"
| "str_of (JInt n) = int_text n"
| "str_of (JBool b) = (if b then ''True'' else ''False'')"
| "str_of JNull = ''None''"
| "str_of (JArr _) = ''[''"
| "str_of (JObj _) = ''{''"

text \<open>\<^verbatim>\<open>bool(v)\<close>, and a text or nothing as a JSON value.\<close>

fun truthy :: "json \<Rightarrow> bool" where
  "truthy JNull = False"
| "truthy (JBool b) = b"
| "truthy (JInt n) = (n \<noteq> 0)"
| "truthy (JStr s) = (s \<noteq> [])"
| "truthy (JArr xs) = (xs \<noteq> [])"
| "truthy (JObj d) = (d \<noteq> [])"

definition jtext :: "string option \<Rightarrow> json" where
  "jtext s = (case s of None \<Rightarrow> JNull | Some t \<Rightarrow> JStr t)"

definition jint :: "int option \<Rightarrow> json" where
  "jint n = (case n of None \<Rightarrow> JNull | Some i \<Rightarrow> JInt i)"

text \<open>A number that the program carries as its decimal text.\<close>

definition dec :: "int \<Rightarrow> json" where
  "dec n = JStr (int_text n)"

section \<open>Scalars\<close>

definition read_int :: "json \<Rightarrow> string \<Rightarrow> lp_exn + int" where
  "read_int value name =
    (case value of
       JBool b \<Rightarrow> bad_record (name @ '' is boolean'')
     | JInt n \<Rightarrow> Inr n
     | JStr s \<Rightarrow>
         (case (if take 2 s = ''0x'' \<or> take 2 s = ''0X'' then int_base16 (strip s) else int_of_text s) of
            Inl e \<Rightarrow> bad_record (name @ '' is not an integer'')
          | Inr n \<Rightarrow> Inr n)
     | _ \<Rightarrow> bad_record (name @ '' is not an integer''))"

definition text_of :: "json \<Rightarrow> string" where
  "text_of value = (case value of JStr s \<Rightarrow> lower s | _ \<Rightarrow> [])"

text \<open>\<^verbatim>\<open>_address\<close> with \<^verbatim>\<open>strict=False\<close> is \<open>find_address\<close>, otherwise \<open>read_address\<close>.\<close>

definition find_address :: "json \<Rightarrow> address option" where
  "find_address value = (if is_address (text_of value) then Some (text_of value) else None)"

definition read_address :: "json \<Rightarrow> string \<Rightarrow> lp_exn + address" where
  "read_address value name =
    (case find_address value of None \<Rightarrow> bad_record (name @ '' is not a 20-byte address'') | Some a \<Rightarrow> Inr a)"

definition is_hash :: "string \<Rightarrow> bool" where
  "is_hash s \<longleftrightarrow>
     take 2 s = ''0x'' \<and> length s = 66 \<and>
     list_all (\<lambda>c. let n = of_char c :: nat in (48 \<le> n \<and> n \<le> 57) \<or> (97 \<le> n \<and> n \<le> 102)) (drop 2 s)"

definition read_hash :: "json \<Rightarrow> string \<Rightarrow> lp_exn + string" where
  "read_hash value name =
    (if is_hash (text_of value) then Inr (text_of value) else bad_record (name @ '' is not bytes32''))"

definition raw_hex :: "json \<Rightarrow> string \<Rightarrow> lp_exn + bytes" where
  "raw_hex value name =
    (case value of
       JStr s \<Rightarrow>
         if take 2 s \<noteq> ''0x'' then bad_record (name @ '' is not hex data'')
         else if odd (length (drop 2 s)) \<or> \<not> list_all (\<lambda>c. hex_value c \<noteq> None) (drop 2 s)
         then bad_record (name @ '' is malformed hex data'')
         else lift_lp (bytes_fromhex (drop 2 s))
     | _ \<Rightarrow> bad_record (name @ '' is not hex data''))"

section \<open>ABI words\<close>

definition raw_words :: "bytes \<Rightarrow> int list" where
  "raw_words raw = map (\<lambda>i. from_bytes_big (take 32 (drop (32 * i) raw))) [0 ..< length raw div 32]"

definition abi_words :: "json \<Rightarrow> string \<Rightarrow> nat \<Rightarrow> lp_exn + int list" where
  "abi_words value name count =
     bindr (raw_hex value name) (\<lambda>raw.
       if length raw mod 32 \<noteq> 0 then bad_record (name @ '' is not whole ABI words'')
       else if length (raw_words raw) \<noteq> count
       then bad_record (name @ '' has '' @ nat_text (length (raw_words raw)) @ '' words, expected '' @ nat_text count)
       else Inr (raw_words raw))"

definition abi_uint :: "int \<Rightarrow> nat \<Rightarrow> string \<Rightarrow> lp_exn + int" where
  "abi_uint word bits name =
    (if word < 0 \<or> word \<ge> 2 ^ bits then bad_record (name @ '' is not canonical uint'' @ nat_text bits)
     else Inr word)"

definition abi_sint :: "int \<Rightarrow> nat \<Rightarrow> string \<Rightarrow> lp_exn + int" where
  "abi_sint word bits name =
    (if word < 2 ^ (bits - 1) then Inr word
     else if word < 2 ^ 256 - 2 ^ (bits - 1) \<or> word \<ge> 2 ^ 256
     then bad_record (name @ '' is not canonical int'' @ nat_text bits)
     else Inr (word - 2 ^ 256))"

definition word_address :: "int \<Rightarrow> string \<Rightarrow> lp_exn + address" where
  "word_address word name = bindr (abi_uint word 160 name) (\<lambda>w. Inr (hex0x (be_bytes 20 w)))"

definition topic_addr :: "json \<Rightarrow> string \<Rightarrow> lp_exn + address" where
  "topic_addr value name =
     bindr (raw_hex value name) (\<lambda>raw.
       if length raw \<noteq> 32 \<or> \<not> list_all (\<lambda>b. b = 0) (take 12 raw)
       then bad_record (name @ '' is not a canonical indexed address'')
       else Inr (hex0x (drop 12 raw)))"

definition topic_uint :: "json \<Rightarrow> nat \<Rightarrow> string \<Rightarrow> lp_exn + int" where
  "topic_uint value bits name =
     bindr (raw_hex value name) (\<lambda>raw.
       if length raw \<noteq> 32 then bad_record (name @ '' is not an indexed ABI word'')
       else abi_uint (from_bytes_big raw) bits name)"

definition topic_sint :: "json \<Rightarrow> nat \<Rightarrow> string \<Rightarrow> lp_exn + int" where
  "topic_sint value bits name =
     bindr (raw_hex value name) (\<lambda>raw.
       if length raw \<noteq> 32 then bad_record (name @ '' is not an indexed ABI word'')
       else abi_sint (from_bytes_big raw) bits name)"

section \<open>Topics of a log\<close>

definition topic_name :: "nat \<Rightarrow> string" where
  "topic_name i = ''topic['' @ nat_text i @ '']''"

definition log_topics :: "jdict \<Rightarrow> lp_exn + string list" where
  "log_topics log0 =
    (case dget ''topics'' log0 of
       JArr vs \<Rightarrow>
         map_res (\<lambda>(i, v). if i = 0 then read_hash v (topic_name i)
            else bindr (raw_hex v (topic_name i)) (\<lambda>raw. Inr (hex0x raw)))
           (zip [0 ..< length vs] vs)
     | _ \<Rightarrow> Inr [])"

definition log_topic0 :: "jdict \<Rightarrow> string option" where
  "log_topic0 log0 =
    (case dget ''topics'' log0 of
       JArr (v # vs) \<Rightarrow> if is_hash (text_of v) then Some (text_of v) else None
     | _ \<Rightarrow> None)"

section \<open>Keys\<close>

definition nft_position_key :: "json \<Rightarrow> int \<Rightarrow> lp_exn + string" where
  "nft_position_key manager token_id =
     bindr (read_address manager ''NFT manager'') (\<lambda>a.
       if token_id < 0 \<or> token_id \<ge> 2 ^ 256 then bad_record ''NFT token id is outside uint256''
       else Inr (''nft:'' @ a @ '':'' @ int_text token_id))"

definition core_position_key :: "string \<Rightarrow> json \<Rightarrow> json \<Rightarrow> lp_exn + string" where
  "core_position_key protocol pool_id core_key =
     bindr (if lower protocol = ''v3'' then read_address pool_id ''V3 core position pool''
            else if lower protocol = ''v4'' then read_hash pool_id ''V4 core position pool''
            else bad_record ''core position protocol must be v3 or v4'') (\<lambda>pool.
     bindr (read_hash core_key ''core position key'') (\<lambda>raw.
       Inr (lower protocol @ '':'' @ pool @ '':'' @ raw)))"

definition to_bytes_signed :: "nat \<Rightarrow> int \<Rightarrow> py_error + bytes" where
  "to_bytes_signed k n =
    (if n < - (256 ^ k div 2) \<or> n \<ge> 256 ^ k div 2 then Inl (OverflowError ''int too big to convert'')
     else Inr (be_bytes k n))"

definition v3_position_key :: "eth_lib \<Rightarrow> address \<Rightarrow> int \<Rightarrow> int \<Rightarrow> lp_exn + string" where
  "v3_position_key lib owner tick_lower tick_upper =
     bindr (lift_lp (bytes_fromhex (drop 2 owner))) (\<lambda>o1.
     bindr (lift_lp (to_bytes_signed 3 tick_lower)) (\<lambda>lo.
     bindr (lift_lp (to_bytes_signed 3 tick_upper)) (\<lambda>hi.
       Inr (hex0x (keccak lib (o1 @ lo @ hi))))))"

definition v4_position_key :: "eth_lib \<Rightarrow> address \<Rightarrow> int \<Rightarrow> int \<Rightarrow> string \<Rightarrow> lp_exn + string" where
  "v4_position_key lib owner tick_lower tick_upper salt =
     bindr (lift_lp (bytes_fromhex (drop 2 owner))) (\<lambda>o1.
     bindr (lift_lp (to_bytes_signed 3 tick_lower)) (\<lambda>lo.
     bindr (lift_lp (to_bytes_signed 3 tick_upper)) (\<lambda>hi.
     bindr (lift_lp (bytes_fromhex (drop 2 salt))) (\<lambda>s.
       Inr (hex0x (keccak lib (o1 @ lo @ hi @ s)))))))"

definition v4_pool_id :: "eth_lib \<Rightarrow> address \<Rightarrow> address \<Rightarrow> int \<Rightarrow> int \<Rightarrow> address \<Rightarrow> lp_exn + string" where
  "v4_pool_id lib token0 token1 fee spacing hook =
     bindr (lift_lp (int_base16 token0)) (\<lambda>t0.
     bindr (lift_lp (int_base16 token1)) (\<lambda>t1.
     bindr (lift_lp (int_base16 hook)) (\<lambda>h.
     bindr (map_res (\<lambda>w. lift_lp (to_bytes_big 32 w))
         [t0, t1, fee, if spacing \<ge> 0 then spacing else 2 ^ 256 + spacing, h]) (\<lambda>ws.
       Inr (hex0x (keccak lib (concat ws)))))))"

section \<open>Reading undoes encoding\<close>

text \<open>An ABI word of a number, negative numbers in two's complement.\<close>

definition twos :: "int \<Rightarrow> int" where
  "twos n = n mod 2 ^ 256"

definition enc_word :: "int \<Rightarrow> bytes" where
  "enc_word n = be_bytes 32 (twos n)"

lemma length_enc_word [simp]: "length (enc_word n) = 32"
  by (simp add: enc_word_def)

lemma from_enc_word [simp]: "from_bytes_big (enc_word n) = twos n"
  unfolding enc_word_def by (rule from_be_bytes) (auto simp: twos_def)

lemma from_bytes_big_bounds: "0 \<le> from_bytes_big bs \<and> from_bytes_big bs < 256 ^ length bs"
proof (induction bs rule: rev_induct)
  case Nil
  then show ?case by (simp add: from_bytes_big_def)
next
  case (snoc b bs)
  have "uint b < 256" "0 \<le> uint b" using uint_bounded [of b] by auto
  with snoc show ?case by (auto simp: from_bytes_big_snoc)
qed

lemma length_concat_words: "length (concat (map enc_word ns)) = 32 * length ns"
  by (induction ns) auto

lemma take_concat_words:
  "i < length ns \<Longrightarrow> take 32 (drop (32 * i) (concat (map enc_word ns))) = enc_word (ns ! i)"
proof (induction ns arbitrary: i)
  case (Cons n ns)
  then show ?case by (cases i) (auto simp: drop_all)
qed simp

lemma raw_words_enc [simp]: "raw_words (concat (map enc_word ns)) = map twos ns"
  by (rule nth_equalityI) (auto simp: raw_words_def length_concat_words take_concat_words)

lemma raw_words_bounds: "w \<in> set (raw_words raw) \<Longrightarrow> 0 \<le> w \<and> w < 2 ^ 256"
proof -
  assume "w \<in> set (raw_words raw)"
  then obtain i where "w = from_bytes_big (take 32 (drop (32 * i) raw))" by (auto simp: raw_words_def)
  moreover have "(256::int) ^ length (take 32 (drop (32 * i) raw)) \<le> 256 ^ 32"
    by (rule power_increasing) auto
  ultimately show ?thesis using from_bytes_big_bounds [of "take 32 (drop (32 * i) raw)"] by auto
qed

lemma hex_digit_chars: "list_all (\<lambda>c. hex_value c \<noteq> None) (hex_of_bytes bs)"
  by (induction bs) auto

lemma raw_hex_hex0x [simp]: "raw_hex (JStr (hex0x bs)) name = Inr bs"
  using hex_digit_chars [of bs] by (simp add: raw_hex_def hex0x_def)

lemma abi_words_enc [simp]:
  "length ns = count \<Longrightarrow>
   abi_words (JStr (hex0x (concat (map enc_word ns)))) name count = Inr (map twos ns)"
  by (simp add: abi_words_def length_concat_words)

lemma abi_uint_Inr [result_simps]: "abi_uint w bits name = Inr n \<longleftrightarrow> n = w \<and> 0 \<le> w \<and> w < 2 ^ bits"
  by (auto simp: abi_uint_def)

lemma twos_small: "- (2 ^ 255) \<le> n \<Longrightarrow> n < 2 ^ 256 \<Longrightarrow> twos n = (if n < 0 then n + 2 ^ 256 else n)"
proof -
  assume n: "- (2 ^ 255) \<le> n" "n < (2::int) ^ 256"
  have t: "twos n = (n + 2 ^ 256) mod 2 ^ 256" by (simp add: twos_def)
  show ?thesis
  proof (cases "n < 0")
    case True
    with n have "(n + 2 ^ 256) mod 2 ^ 256 = n + (2::int) ^ 256" by (intro mod_pos_pos_trivial) auto
    with True t show ?thesis by simp
  next
    case False
    with n show ?thesis by (simp add: twos_def)
  qed
qed

lemma half_le: "0 < bits \<Longrightarrow> bits \<le> 256 \<Longrightarrow> (2::int) ^ (bits - 1) \<le> 2 ^ 255"
  by (rule power_increasing) auto

lemma abi_sint_Inr:
  assumes "0 < bits" and "bits \<le> 256" and "0 \<le> w"
  shows "abi_sint w bits name = Inr n \<longleftrightarrow> twos n = w \<and> - (2 ^ (bits - 1)) \<le> n \<and> n < 2 ^ (bits - 1)"
proof -
  have p: "(2::int) ^ (bits - 1) \<le> 2 ^ 255" "(0::int) < 2 ^ (bits - 1)" using half_le assms by auto
  have t: "twos n = (if n < 0 then n + 2 ^ 256 else n)"
    if "- (2 ^ (bits - 1)) \<le> n" "n < 2 ^ (bits - 1)" using that p by (intro twos_small) auto
  show ?thesis
  proof
    assume "abi_sint w bits name = Inr n"
    then have "(w < 2 ^ (bits - 1) \<and> n = w) \<or> (2 ^ 256 - 2 ^ (bits - 1) \<le> w \<and> w < 2 ^ 256 \<and> n = w - 2 ^ 256)"
      by (auto simp: abi_sint_def split: if_splits)
    then show "twos n = w \<and> - (2 ^ (bits - 1)) \<le> n \<and> n < 2 ^ (bits - 1)" using t p assms by auto
  next
    assume n: "twos n = w \<and> - (2 ^ (bits - 1)) \<le> n \<and> n < 2 ^ (bits - 1)"
    with t p have "w = (if n < 0 then n + 2 ^ 256 else n)" by auto
    with n p show "abi_sint w bits name = Inr n" by (auto simp: abi_sint_def)
  qed
qed

lemma twos_nonneg [simp]: "0 \<le> twos n"
  by (simp add: twos_def)

lemma twos_unsigned: "0 \<le> n \<Longrightarrow> n < 2 ^ bits \<Longrightarrow> bits \<le> 256 \<Longrightarrow> twos n = n"
proof -
  assume n: "0 \<le> n" "n < 2 ^ bits" and b: "bits \<le> 256"
  have "(2::int) ^ bits \<le> 2 ^ 256" using b by (rule power_increasing) auto
  with n show ?thesis by (simp add: twos_def)
qed

lemma abi_sint_enc [simp]:
  "0 < bits \<Longrightarrow> bits \<le> 256 \<Longrightarrow> - (2 ^ (bits - 1)) \<le> n \<Longrightarrow> n < 2 ^ (bits - 1) \<Longrightarrow>
   abi_sint (twos n) bits name = Inr n"
  by (subst abi_sint_Inr) auto

lemma abi_uint_enc [simp]:
  "0 \<le> n \<Longrightarrow> n < 2 ^ bits \<Longrightarrow> bits \<le> 256 \<Longrightarrow> abi_uint (twos n) bits name = Inr n"
  by (subst twos_unsigned [of n bits]) (auto simp: abi_uint_Inr)

text \<open>An indexed argument: a number, or an address behind twelve zero bytes.\<close>

lemma topic_uint_enc [simp]:
  "0 \<le> n \<Longrightarrow> n < 2 ^ bits \<Longrightarrow> bits \<le> 256 \<Longrightarrow> topic_uint (JStr (hex0x (enc_word n))) bits name = Inr n"
  by (simp add: topic_uint_def)

lemma topic_sint_enc [simp]:
  "0 < bits \<Longrightarrow> bits \<le> 256 \<Longrightarrow> - (2 ^ (bits - 1)) \<le> n \<Longrightarrow> n < 2 ^ (bits - 1) \<Longrightarrow>
   topic_sint (JStr (hex0x (enc_word n))) bits name = Inr n"
  by (simp add: topic_sint_def)

lemma topic_addr_enc [simp]:
  "length bs = 20 \<Longrightarrow> topic_addr (JStr (hex0x (replicate 12 0 @ bs))) name = Inr (hex0x bs)"
  by (simp add: topic_addr_def list_all_iff)


section \<open>Canonical text\<close>

lemma hex_char_range:
  "n < 16 \<Longrightarrow> (48 \<le> (of_char (hex_char n) :: nat) \<and> (of_char (hex_char n) :: nat) \<le> 57) \<or>
     (97 \<le> (of_char (hex_char n) :: nat) \<and> (of_char (hex_char n) :: nat) \<le> 102)"
  by (auto simp: of_char_hex_char)

lemma hex_of_bytes_range:
  "list_all (\<lambda>c. let n = of_char c :: nat in (48 \<le> n \<and> n \<le> 57) \<or> (97 \<le> n \<and> n \<le> 102)) (hex_of_bytes bs)"
  by (induction bs) (simp_all add: Let_def hex_char_range)

lemma lower_hex0x [simp]: "lower (hex0x bs) = hex0x bs"
proof -
  have d: "lower_char (hex_char n) = hex_char n" if "n < 16" for n
    using hex_char_range [OF that] by (auto simp: lower_char_def Let_def)
  have "map lower_char (hex_of_bytes bs) = hex_of_bytes bs" by (induction bs) (simp_all add: d)
  then show ?thesis by (simp add: hex0x_def lower_def lower_char_def)
qed

lemma length_hex0x [simp]: "length (hex0x bs) = 2 + 2 * length bs"
  by (simp add: hex0x_def)

lemma take_2_hex0x [simp]: "take 2 (hex0x bs) = ''0x''"
  by (simp add: hex0x_def)

lemma text_of_hex0x [simp]: "text_of (JStr (hex0x bs)) = hex0x bs"
  by (simp add: text_of_def)

lemma is_hash_hex0x [simp]: "is_hash (hex0x bs) \<longleftrightarrow> length bs = 32"
  using hex_of_bytes_range [of bs] by (auto simp: is_hash_def)

lemma read_hash_hex0x [simp]: "length bs = 32 \<Longrightarrow> read_hash (JStr (hex0x bs)) name = Inr (hex0x bs)"
  by (simp add: read_hash_def)

lemma find_address_hex0x [simp]: "length bs = 20 \<Longrightarrow> find_address (JStr (hex0x bs)) = Some (hex0x bs)"
  using hex_of_bytes_range [of bs] by (simp add: find_address_def is_address_def)

lemma find_address_canonical: "is_address a \<Longrightarrow> find_address (JStr a) = Some a"
  using is_address_bytes [of a] by auto

lemma hex0x_eq [simp]: "hex0x as = hex0x bs \<longleftrightarrow> as = bs"
proof
  assume "hex0x as = hex0x bs"
  then have "bytes_fromhex (drop 2 (hex0x as)) = bytes_fromhex (drop 2 (hex0x bs))" by simp
  then show "as = bs" by simp
qed simp

lemma take_hex_of_bytes: "take (2 * n) (hex_of_bytes bs) = hex_of_bytes (take n bs)"
proof (induction bs arbitrary: n)
  case (Cons b bs)
  then show ?case by (cases n) auto
qed simp

lemma take_10_hex0x [simp]: "take 10 (hex0x bs) = hex0x (take 4 bs)"
  using take_hex_of_bytes [of 4 bs] by (simp add: hex0x_def)

lemma hex_digits_value_bytes: "hex_digits_value acc (hex_of_bytes bs) = Some (foldl (\<lambda>n b. n * 256 + unat b) acc bs)"
proof (induction bs arbitrary: acc)
  case (Cons b bs)
  have "16 * (16 * acc + unat b div 16) + unat b mod 16 = acc * 256 + unat b" by (simp add: algebra_simps)
  then show ?case by (simp add: Cons.IH mult.commute add.commute)
qed simp

lemma int_base16_hex0x [simp]: "bs \<noteq> [] \<Longrightarrow> int_base16 (hex0x bs) = Inr (from_bytes_big bs)"
proof -
  assume "bs \<noteq> []"
  have "int (foldl (\<lambda>n b. n * 256 + unat b) acc bs) = foldl (\<lambda>n b. n * 256 + uint b) (int acc) bs" for acc
    by (induction bs arbitrary: acc) simp_all
  from this [of 0] have "int (foldl (\<lambda>n b. n * 256 + unat b) 0 bs) = from_bytes_big bs"
    by (simp add: from_bytes_big_def)
  moreover have "hex_of_bytes bs \<noteq> []" using \<open>bs \<noteq> []\<close> by (cases bs) auto
  ultimately show ?thesis by (simp add: int_base16_def strip_0x_def hex_digits_value_bytes)
qed

end
