(* ===== verification/Lp_Events.thy ===== *)
theory Lp_Events
  imports Lp_Abi
begin

text \<open>
  From a log to the event of a pool: \<^verbatim>\<open>_normalize_pool_creation\<close>, \<^verbatim>\<open>_decode_transfer\<close> and
  \<^verbatim>\<open>_decode_event\<close> of \<^verbatim>\<open>src/rhpools/lp_market_protocols.py\<close>. The row of an event is a record; the
  amounts, liquidities, prices and token identifiers that the program keeps as decimal text are
  numbers here, and its \<^verbatim>\<open>data\<close> field is a JSON record in the order of the source.
\<close>

section \<open>Topics\<close>

definition V4_INITIALIZE_TOPIC :: "eth_lib \<Rightarrow> string" where
  "V4_INITIALIZE_TOPIC lib = topic lib ''Initialize(bytes32,address,address,uint24,int24,address,uint160,int24)''"

definition V3_POOL_CREATED_TOPIC :: "eth_lib \<Rightarrow> string" where
  "V3_POOL_CREATED_TOPIC lib = topic lib ''PoolCreated(address,address,uint24,int24,address)''"

definition V3_POOL_CREATED_COMPACT_TOPIC :: "eth_lib \<Rightarrow> string" where
  "V3_POOL_CREATED_COMPACT_TOPIC lib = topic lib ''PoolCreated(address,address,uint24,address)''"

definition SLIPSTREAM_POOL_CREATED_TOPIC :: "eth_lib \<Rightarrow> string" where
  "SLIPSTREAM_POOL_CREATED_TOPIC lib = topic lib ''PoolCreated(address,address,int24,address)''"

definition V2_PAIR_CREATED_TOPIC :: "eth_lib \<Rightarrow> string" where
  "V2_PAIR_CREATED_TOPIC lib = topic lib ''PairCreated(address,address,address,uint256)''"

definition V2_SWAP_TOPIC :: "eth_lib \<Rightarrow> string" where
  "V2_SWAP_TOPIC lib = topic lib ''Swap(address,uint256,uint256,uint256,uint256,address)''"

definition V2_MINT_TOPIC :: "eth_lib \<Rightarrow> string" where
  "V2_MINT_TOPIC lib = topic lib ''Mint(address,uint256,uint256)''"

definition V2_BURN_TOPIC :: "eth_lib \<Rightarrow> string" where
  "V2_BURN_TOPIC lib = topic lib ''Burn(address,uint256,uint256,address)''"

definition V2_SYNC_TOPIC :: "eth_lib \<Rightarrow> string" where
  "V2_SYNC_TOPIC lib = topic lib ''Sync(uint112,uint112)''"

definition V3_INITIALIZE_TOPIC :: "eth_lib \<Rightarrow> string" where
  "V3_INITIALIZE_TOPIC lib = topic lib ''Initialize(uint160,int24)''"

definition V3_SWAP_TOPIC :: "eth_lib \<Rightarrow> string" where
  "V3_SWAP_TOPIC lib = topic lib ''Swap(address,address,int256,int256,uint160,uint128,int24)''"

definition CL_SWAP_EXTENDED_TOPIC :: string where
  "CL_SWAP_EXTENDED_TOPIC = ''0x19b47279256b2a23a1665c810c8d55a1758940ee09377d4f8d26497a3577dc83''"

definition V3_MINT_TOPIC :: "eth_lib \<Rightarrow> string" where
  "V3_MINT_TOPIC lib = topic lib ''Mint(address,address,int24,int24,uint128,uint256,uint256)''"

definition V3_BURN_TOPIC :: "eth_lib \<Rightarrow> string" where
  "V3_BURN_TOPIC lib = topic lib ''Burn(address,int24,int24,uint128,uint256,uint256)''"

definition V3_COLLECT_TOPIC :: "eth_lib \<Rightarrow> string" where
  "V3_COLLECT_TOPIC lib = topic lib ''Collect(address,address,int24,int24,uint128,uint128)''"

definition V3_FLASH_TOPIC :: "eth_lib \<Rightarrow> string" where
  "V3_FLASH_TOPIC lib = topic lib ''Flash(address,address,uint256,uint256,uint256,uint256)''"

definition V3_SET_FEE_PROTOCOL_TOPIC :: "eth_lib \<Rightarrow> string" where
  "V3_SET_FEE_PROTOCOL_TOPIC lib = topic lib ''SetFeeProtocol(uint8,uint8,uint8,uint8)''"

definition PANCAKE_V3_SET_FEE_PROTOCOL_TOPIC :: "eth_lib \<Rightarrow> string" where
  "PANCAKE_V3_SET_FEE_PROTOCOL_TOPIC lib = topic lib ''SetFeeProtocol(uint32,uint32,uint32,uint32)''"

definition V3_COLLECT_PROTOCOL_TOPIC :: "eth_lib \<Rightarrow> string" where
  "V3_COLLECT_PROTOCOL_TOPIC lib = topic lib ''CollectProtocol(address,address,uint128,uint128)''"

definition NFT_INCREASE_LIQUIDITY_TOPIC :: "eth_lib \<Rightarrow> string" where
  "NFT_INCREASE_LIQUIDITY_TOPIC lib = topic lib ''IncreaseLiquidity(uint256,uint128,uint256,uint256)''"

definition NFT_DECREASE_LIQUIDITY_TOPIC :: "eth_lib \<Rightarrow> string" where
  "NFT_DECREASE_LIQUIDITY_TOPIC lib = topic lib ''DecreaseLiquidity(uint256,uint128,uint256,uint256)''"

definition NFT_COLLECT_TOPIC :: "eth_lib \<Rightarrow> string" where
  "NFT_COLLECT_TOPIC lib = topic lib ''Collect(uint256,address,uint256,uint256)''"

definition V4_SWAP_TOPIC :: "eth_lib \<Rightarrow> string" where
  "V4_SWAP_TOPIC lib = topic lib ''Swap(bytes32,address,int128,int128,uint160,uint128,int24,uint24)''"

definition V4_MODIFY_LIQUIDITY_TOPIC :: "eth_lib \<Rightarrow> string" where
  "V4_MODIFY_LIQUIDITY_TOPIC lib = topic lib ''ModifyLiquidity(bytes32,address,int24,int24,int256,bytes32)''"

definition V4_DONATE_TOPIC :: "eth_lib \<Rightarrow> string" where
  "V4_DONATE_TOPIC lib = topic lib ''Donate(bytes32,address,uint256,uint256)''"

definition V4_PROTOCOL_FEE_UPDATED_TOPIC :: "eth_lib \<Rightarrow> string" where
  "V4_PROTOCOL_FEE_UPDATED_TOPIC lib = topic lib ''ProtocolFeeUpdated(bytes32,uint24)''"

definition V4_PROTOCOL_FEE_CONTROLLER_UPDATED_TOPIC :: "eth_lib \<Rightarrow> string" where
  "V4_PROTOCOL_FEE_CONTROLLER_UPDATED_TOPIC lib = topic lib ''ProtocolFeeControllerUpdated(address)''"

definition V4_MODIFY_POSITION_TOPIC :: "eth_lib \<Rightarrow> string" where
  "V4_MODIFY_POSITION_TOPIC lib = topic lib ''ModifyPosition(bytes32,address,int24,int24,int256,bytes32)''"

definition TRANSFER_TOPIC :: "eth_lib \<Rightarrow> string" where
  "TRANSFER_TOPIC lib = topic lib ''Transfer(address,address,uint256)''"

definition EVENT_TOPICS :: "eth_lib \<Rightarrow> string list" where
  "EVENT_TOPICS lib =
     [V4_INITIALIZE_TOPIC lib,
      V3_POOL_CREATED_TOPIC lib,
      V3_POOL_CREATED_COMPACT_TOPIC lib,
      SLIPSTREAM_POOL_CREATED_TOPIC lib,
      V2_PAIR_CREATED_TOPIC lib,
      V2_SWAP_TOPIC lib,
      V2_MINT_TOPIC lib,
      V2_BURN_TOPIC lib,
      V2_SYNC_TOPIC lib,
      V3_INITIALIZE_TOPIC lib,
      V3_SWAP_TOPIC lib,
      CL_SWAP_EXTENDED_TOPIC,
      V3_MINT_TOPIC lib,
      V3_BURN_TOPIC lib,
      V3_COLLECT_TOPIC lib,
      V3_FLASH_TOPIC lib,
      V3_SET_FEE_PROTOCOL_TOPIC lib,
      PANCAKE_V3_SET_FEE_PROTOCOL_TOPIC lib,
      V3_COLLECT_PROTOCOL_TOPIC lib,
      NFT_INCREASE_LIQUIDITY_TOPIC lib,
      NFT_DECREASE_LIQUIDITY_TOPIC lib,
      NFT_COLLECT_TOPIC lib,
      V4_SWAP_TOPIC lib,
      V4_MODIFY_LIQUIDITY_TOPIC lib,
      V4_DONATE_TOPIC lib,
      V4_PROTOCOL_FEE_UPDATED_TOPIC lib,
      V4_PROTOCOL_FEE_CONTROLLER_UPDATED_TOPIC lib,
      V4_MODIFY_POSITION_TOPIC lib]"

definition CREATION_TOPICS :: "eth_lib \<Rightarrow> string list" where
  "CREATION_TOPICS lib =
     [V4_INITIALIZE_TOPIC lib,
      V3_POOL_CREATED_TOPIC lib,
      V3_POOL_CREATED_COMPACT_TOPIC lib,
      SLIPSTREAM_POOL_CREATED_TOPIC lib,
      V2_PAIR_CREATED_TOPIC lib]"

definition V3_CREATION_TOPICS :: "eth_lib \<Rightarrow> string list" where
  "V3_CREATION_TOPICS lib =
     [V3_POOL_CREATED_TOPIC lib,
      V3_POOL_CREATED_COMPACT_TOPIC lib,
      SLIPSTREAM_POOL_CREATED_TOPIC lib]"

definition V2_CORE_TOPICS :: "eth_lib \<Rightarrow> string list" where
  "V2_CORE_TOPICS lib =
     [V2_SWAP_TOPIC lib,
      V2_MINT_TOPIC lib,
      V2_BURN_TOPIC lib,
      V2_SYNC_TOPIC lib]"

definition V3_CORE_TOPICS :: "eth_lib \<Rightarrow> string list" where
  "V3_CORE_TOPICS lib =
     [V3_INITIALIZE_TOPIC lib,
      V3_SWAP_TOPIC lib,
      CL_SWAP_EXTENDED_TOPIC,
      V3_MINT_TOPIC lib,
      V3_BURN_TOPIC lib,
      V3_COLLECT_TOPIC lib,
      V3_FLASH_TOPIC lib,
      V3_SET_FEE_PROTOCOL_TOPIC lib,
      PANCAKE_V3_SET_FEE_PROTOCOL_TOPIC lib,
      V3_COLLECT_PROTOCOL_TOPIC lib]"

definition V4_CORE_TOPICS :: "eth_lib \<Rightarrow> string list" where
  "V4_CORE_TOPICS lib =
     [V4_SWAP_TOPIC lib,
      V4_MODIFY_LIQUIDITY_TOPIC lib,
      V4_DONATE_TOPIC lib,
      V4_PROTOCOL_FEE_UPDATED_TOPIC lib,
      V4_PROTOCOL_FEE_CONTROLLER_UPDATED_TOPIC lib]"

definition NFPM_AUX_TOPICS :: "eth_lib \<Rightarrow> string list" where
  "NFPM_AUX_TOPICS lib =
     [NFT_INCREASE_LIQUIDITY_TOPIC lib,
      NFT_DECREASE_LIQUIDITY_TOPIC lib,
      NFT_COLLECT_TOPIC lib]"

definition AUXILIARY_TOPICS :: "eth_lib \<Rightarrow> string list" where
  "AUXILIARY_TOPICS lib =
     [NFT_INCREASE_LIQUIDITY_TOPIC lib,
      NFT_DECREASE_LIQUIDITY_TOPIC lib,
      NFT_COLLECT_TOPIC lib,
      V4_MODIFY_POSITION_TOPIC lib]"

definition SUBSCRIBED_TOPICS :: "eth_lib \<Rightarrow> string list" where
  "SUBSCRIBED_TOPICS lib = EVENT_TOPICS lib @ [TRANSFER_TOPIC lib]"

lemmas topic_set_defs =
  EVENT_TOPICS_def SUBSCRIBED_TOPICS_def CREATION_TOPICS_def V3_CREATION_TOPICS_def V2_CORE_TOPICS_def V3_CORE_TOPICS_def V4_CORE_TOPICS_def NFPM_AUX_TOPICS_def AUXILIARY_TOPICS_def


section \<open>Position managers\<close>

definition ZERO_ADDRESS :: address where "ZERO_ADDRESS = ''0x0000000000000000000000000000000000000000''"
definition V4_POSITION_MANAGER :: address where "V4_POSITION_MANAGER = ''0x58daec3116aae6d93017baaea7749052e8a04fa7''"
definition UNISWAP_V3_POSITION_MANAGER :: address where "UNISWAP_V3_POSITION_MANAGER = ''0x73991a25c818bf1f1128deaab1492d45638de0d3''"
definition PANCAKE_V3_POSITION_MANAGER :: address where "PANCAKE_V3_POSITION_MANAGER = ''0x46a15b0b27311cedf172ab29e4f4766fbe7f4364''"
definition GIGA_V3_POSITION_MANAGER :: address where "GIGA_V3_POSITION_MANAGER = ''0xa79f5775b0b49e51202c48ddf03f380faa96f641''"

text \<open>\<^verbatim>\<open>MANAGER_INFO\<close> with the fields that the code reads.\<close>

record manager_info =
  mi_protocol :: string
  mi_source :: string

definition MANAGER_INFO :: "(address \<times> manager_info) list" where
  "MANAGER_INFO =
    [(UNISWAP_V3_POSITION_MANAGER, \<lparr>mi_protocol = ''v3'',
        mi_source = ''https://github.com/Uniswap/contracts/blob/56928a9/deployments/4663.md''\<rparr>),
     (PANCAKE_V3_POSITION_MANAGER, \<lparr>mi_protocol = ''v3'',
        mi_source = ''https://github.com/pancakeswap/pancake-v3-contracts/blob/main/projects/v3-periphery/contracts/NonfungiblePositionManager.sol''\<rparr>),
     (GIGA_V3_POSITION_MANAGER, \<lparr>mi_protocol = ''v3'',
        mi_source = ''https://robinhoodchain.blockscout.com/address/0xa79f5775b0b49e51202c48ddf03f380faa96f641''\<rparr>),
     (V4_POSITION_MANAGER, \<lparr>mi_protocol = ''v4'',
        mi_source = ''https://github.com/Uniswap/contracts/blob/56928a9/deployments/4663.md''\<rparr>)]"

definition NFT_MANAGER_ADDRESSES :: "address list" where
  "NFT_MANAGER_ADDRESSES = map fst MANAGER_INFO"

definition V3_NFT_MANAGER_ADDRESSES :: "address list" where
  "V3_NFT_MANAGER_ADDRESSES = map fst (filter (\<lambda>(a, i). mi_protocol i = ''v3'') MANAGER_INFO)"

section \<open>Known pools\<close>

type_synonym pool_index = "(string \<times> jdict) list"

definition pool_names :: "string \<Rightarrow> jdict \<Rightarrow> json list" where
  "pool_names k pool = [JStr k, dget ''id'' pool, dget ''address'' pool]"

definition index_pool :: "json list \<Rightarrow> jdict \<Rightarrow> pool_index \<Rightarrow> pool_index" where
  "index_pool names pool d =
     fold (\<lambda>v d. case v of JStr s \<Rightarrow> od_set (lower s) pool d | _ \<Rightarrow> d) names d"

definition pool_map :: "(string \<times> json) list \<Rightarrow> pool_index" where
  "pool_map pools =
     fold (\<lambda>(k, v) d. case v of JObj pool \<Rightarrow> index_pool (pool_names k pool) pool d | _ \<Rightarrow> d) pools []"

definition pool_protocol :: "jdict option \<Rightarrow> string option" where
  "pool_protocol p =
    (case p of
       None \<Rightarrow> None
     | Some pool \<Rightarrow>
         (case dget_or ''protocol'' ''kind'' pool of JNull \<Rightarrow> None | v \<Rightarrow> Some (lower (str_of v))))"

definition pool_fee :: "jdict option \<Rightarrow> lp_exn + int option" where
  "pool_fee p =
    (case p of
       None \<Rightarrow> Inr None
     | Some pool \<Rightarrow>
         (case dget_or ''fee_ppm'' ''fee'' pool of
            JNull \<Rightarrow> Inr None
          | v \<Rightarrow> bindr (read_int v ''pool fee'') (\<lambda>fee.
                   Inr (if 0 \<le> fee \<and> fee < 1000000 then Some fee else None))))"

section \<open>Rows\<close>

record lp_event =
  le_block_number :: int
  le_block_hash :: string
  le_tx_hash :: string
  le_tx_index :: int
  le_log_index :: int
  le_timestamp :: int
  le_pool_id :: "string option"
  le_protocol :: "string option"
  le_kind :: "string option"
  le_owner :: "address option"
  le_custody :: "address option"
  le_position_key :: "string option"
  le_token_id :: "int option"
  le_tick_lower :: "int option"
  le_tick_upper :: "int option"
  le_liquidity_delta :: "int option"
  le_liquidity :: "int option"
  le_sqrt_price_x96 :: "int option"
  le_tick :: "int option"
  le_fee_ppm :: "int option"
  le_amount0 :: "int option"
  le_amount1 :: "int option"
  le_fee_amount0 :: "int option"
  le_fee_amount1 :: "int option"
  le_cashflow0 :: "int option"
  le_cashflow1 :: "int option"
  le_pricing_basis :: "string option"
  le_accounting_basis :: "string option"
  le_identity_basis :: "string option"
  le_data :: jdict

text \<open>\<^verbatim>\<open>_header\<close>: a header under the number, its decimal text or its hexadecimal text.\<close>

type_synonym headers = "(json \<times> json) list"

definition find_header :: "headers \<Rightarrow> int \<Rightarrow> lp_exn + jdict" where
  "find_header hs number =
    (case List.find (\<lambda>k. case map_of hs k of Some (JObj d) \<Rightarrow> True | _ \<Rightarrow> False)
         [JInt number, JStr (int_text number), JStr (hex_text number)] of
       Some k \<Rightarrow> (case map_of hs k of Some (JObj d) \<Rightarrow> Inr d | _ \<Rightarrow> bad_record [])
     | None \<Rightarrow> bad_record (''header '' @ int_text number @ '' is unavailable''))"

definition event_base :: "jdict \<Rightarrow> headers \<Rightarrow> lp_exn + lp_event" where
  "event_base log0 hs =
     bindr (read_int (dget ''blockNumber'' log0) ''log blockNumber'') (\<lambda>block_number.
     bindr (read_int (dget ''transactionIndex'' log0) ''log transactionIndex'') (\<lambda>tx_index.
     bindr (read_int (dget ''logIndex'' log0) ''log logIndex'') (\<lambda>log_index.
     bindr (ensure (0 \<le> min block_number (min tx_index log_index))
         (ProtocolDecodeError ''negative log identity component'')) (\<lambda>_.
     bindr (read_hash (dget ''blockHash'' log0) ''log blockHash'') (\<lambda>block_hash.
     bindr (read_hash (dget ''transactionHash'' log0) ''log transactionHash'') (\<lambda>tx_hash.
     bindr (find_header hs block_number) (\<lambda>header.
     bindr (read_hash (dget ''hash'' header) ''header hash'') (\<lambda>header_hash.
     bindr (ensure (header_hash = block_hash)
         (ProtocolDecodeError (''log/header hash mismatch at block '' @ int_text block_number))) (\<lambda>_.
     bindr (read_int (dget ''timestamp'' header) ''header timestamp'') (\<lambda>timestamp.
     bindr (ensure (0 \<le> timestamp) (ProtocolDecodeError ''negative block timestamp'')) (\<lambda>_.
       Inr \<lparr>le_block_number = block_number, le_block_hash = block_hash, le_tx_hash = tx_hash,
         le_tx_index = tx_index, le_log_index = log_index, le_timestamp = timestamp,
         le_pool_id = None, le_protocol = None, le_kind = None, le_owner = None, le_custody = None,
         le_position_key = None, le_token_id = None, le_tick_lower = None, le_tick_upper = None,
         le_liquidity_delta = None, le_liquidity = None, le_sqrt_price_x96 = None, le_tick = None,
         le_fee_ppm = None, le_amount0 = None, le_amount1 = None, le_fee_amount0 = None,
         le_fee_amount1 = None, le_cashflow0 = None, le_cashflow1 = None, le_pricing_basis = None,
         le_accounting_basis = None, le_identity_basis = None, le_data = []\<rparr>)))))))))))"

type_synonym event_id = "string \<times> string \<times> int"

definition event_identity :: "lp_event \<Rightarrow> event_id" where
  "event_identity e = (le_block_hash e, le_tx_hash e, le_log_index e)"

section \<open>Creation of pools\<close>

text \<open>The record of a pool, in the order of the source.\<close>

definition pool_record ::
  "string \<Rightarrow> string \<Rightarrow> address \<Rightarrow> address \<Rightarrow> address \<Rightarrow> int option \<Rightarrow> int option \<Rightarrow> address option \<Rightarrow>
   address \<Rightarrow> json \<Rightarrow> string \<Rightarrow> jdict \<Rightarrow> jdict" where
  "pool_record pid protocol addr token0 token1 fee spacing hook factory block source metadata =
    [(''id'', JStr pid), (''protocol'', JStr protocol), (''address'', JStr addr),
     (''token0'', JStr token0), (''token1'', JStr token1), (''symbol0'', JNull), (''symbol1'', JNull),
     (''decimals0'', JNull), (''decimals1'', JNull), (''fee_ppm'', jint fee), (''tick_spacing'', jint spacing),
     (''hook'', jtext hook), (''factory'', JStr factory), (''created_block'', block),
     (''source'', JStr source), (''metadata_json'', JObj metadata)]"

definition dynamic_fee :: "int \<Rightarrow> bool" where
  "dynamic_fee fee \<longleftrightarrow> fee AND 0x800000 \<noteq> 0"

definition create_v4 :: "eth_lib \<Rightarrow> jdict \<Rightarrow> string list \<Rightarrow> int \<Rightarrow> lp_exn + jdict" where
  "create_v4 lib log0 topics block =
     bindr (ensure (length topics = 4) (ProtocolDecodeError ''malformed V4 Initialize topics'')) (\<lambda>_.
     bindr (abi_words (dget ''data'' log0) ''V4 Initialize data'' 5) (\<lambda>ws.
     bindr (read_hash (JStr (topics ! 1)) ''V4 pool id'') (\<lambda>pool_id.
     bindr (topic_addr (JStr (topics ! 2)) ''V4 currency0'') (\<lambda>token0.
     bindr (topic_addr (JStr (topics ! 3)) ''V4 currency1'') (\<lambda>token1.
     bindr (abi_uint (ws ! 0) 24 ''V4 configured fee'') (\<lambda>fee.
     bindr (abi_sint (ws ! 1) 24 ''V4 tick spacing'') (\<lambda>spacing.
     bindr (word_address (ws ! 2) ''V4 hook'') (\<lambda>hook.
     bindr (abi_uint (ws ! 3) 160 ''V4 sqrtPriceX96'') (\<lambda>sqrt_price.
     bindr (abi_sint (ws ! 4) 24 ''V4 tick'') (\<lambda>tick.
     bindr (ensure (token0 < token1) (ProtocolDecodeError ''V4 currencies are not strictly ordered'')) (\<lambda>_.
     bindr (v4_pool_id lib token0 token1 fee spacing hook) (\<lambda>key_hash.
     bindr (ensure (key_hash = pool_id) (ProtocolDecodeError ''V4 Initialize PoolKey hash mismatch'')) (\<lambda>_.
       Inr (pool_record pool_id ''v4'' POOL_MANAGER token0 token1 (if dynamic_fee fee then None else Some fee)
              (Some spacing) (Some hook) POOL_MANAGER (JInt block) ''PoolManager.Initialize''
              [(''configured_fee'', JInt fee), (''dynamic_fee'', JBool (dynamic_fee fee))] @
            [(''_sqrt_price_x96'', JInt sqrt_price), (''_tick'', JInt tick)]))))))))))))))"

definition create_v2 :: "address \<Rightarrow> jdict \<Rightarrow> string list \<Rightarrow> int \<Rightarrow> lp_exn + jdict" where
  "create_v2 emitter log0 topics block =
     bindr (ensure (length topics = 3) (ProtocolDecodeError ''malformed V2 PairCreated topics'')) (\<lambda>_.
     bindr (abi_words (dget ''data'' log0) ''V2 PairCreated data'' 2) (\<lambda>ws.
     bindr (topic_addr (JStr (topics ! 1)) ''V2 token0'') (\<lambda>token0.
     bindr (topic_addr (JStr (topics ! 2)) ''V2 token1'') (\<lambda>token1.
     bindr (word_address (ws ! 0) ''V2 pair'') (\<lambda>pair.
       Inr (pool_record pair ''v2'' pair token0 token1 None None None emitter (JInt block) ''V2Factory.PairCreated''
              [(''pair_index'', dec (ws ! 1)), (''discovery_basis'', JStr ''factory_creation_event'')]))))))"

text \<open>Fee, tick spacing and address of a created pool, for each of the three event shapes.\<close>

definition created_canonical :: "jdict \<Rightarrow> string list \<Rightarrow> lp_exn + int option \<times> int option \<times> address" where
  "created_canonical log0 topics =
     bindr (ensure (length topics = 4) (ProtocolDecodeError ''malformed canonical V3 PoolCreated topics'')) (\<lambda>_.
     bindr (abi_words (dget ''data'' log0) ''V3 PoolCreated data'' 2) (\<lambda>ws.
     bindr (topic_uint (JStr (topics ! 3)) 24 ''V3 fee'') (\<lambda>fee.
     bindr (abi_sint (ws ! 0) 24 ''V3 tick spacing'') (\<lambda>spacing.
     bindr (word_address (ws ! 1) ''V3 pool'') (\<lambda>pool.
       Inr (Some fee, Some spacing, pool))))))"

definition created_compact :: "jdict \<Rightarrow> string list \<Rightarrow> lp_exn + int option \<times> int option \<times> address" where
  "created_compact log0 topics =
    (if length topics = 4 then
       bindr (abi_words (dget ''data'' log0) ''compact V3 PoolCreated data'' 1) (\<lambda>ws.
       bindr (topic_uint (JStr (topics ! 3)) 24 ''compact V3 fee'') (\<lambda>fee.
       bindr (word_address (ws ! 0) ''compact V3 pool'') (\<lambda>pool. Inr (Some fee, None, pool))))
     else if length topics = 3 then
       bindr (abi_words (dget ''data'' log0) ''compact V3 PoolCreated data'' 2) (\<lambda>ws.
       bindr (abi_uint (ws ! 0) 24 ''compact V3 fee'') (\<lambda>fee.
       bindr (word_address (ws ! 1) ''compact V3 pool'') (\<lambda>pool. Inr (Some fee, None, pool))))
     else bad_record ''malformed compact V3 PoolCreated topics'')"

definition created_slipstream :: "jdict \<Rightarrow> string list \<Rightarrow> lp_exn + int option \<times> int option \<times> address" where
  "created_slipstream log0 topics =
    (if length topics = 4 then
       bindr (abi_words (dget ''data'' log0) ''Slipstream PoolCreated data'' 1) (\<lambda>ws.
       bindr (topic_sint (JStr (topics ! 3)) 24 ''Slipstream tick spacing'') (\<lambda>spacing.
       bindr (word_address (ws ! 0) ''Slipstream pool'') (\<lambda>pool. Inr (None, Some spacing, pool))))
     else if length topics = 3 then
       bindr (abi_words (dget ''data'' log0) ''Slipstream PoolCreated data'' 2) (\<lambda>ws.
       bindr (abi_sint (ws ! 0) 24 ''Slipstream tick spacing'') (\<lambda>spacing.
       bindr (word_address (ws ! 1) ''Slipstream pool'') (\<lambda>pool. Inr (None, Some spacing, pool))))
     else bad_record ''malformed Slipstream PoolCreated topics'')"

definition create_v3 :: "eth_lib \<Rightarrow> string \<Rightarrow> address \<Rightarrow> jdict \<Rightarrow> string list \<Rightarrow> int \<Rightarrow> lp_exn + jdict" where
  "create_v3 lib topic0 emitter log0 topics block =
     bindr (ensure (\<not> length topics < 3) (ProtocolDecodeError ''malformed V3 PoolCreated topics'')) (\<lambda>_.
     bindr (topic_addr (JStr (topics ! 1)) ''V3 token0'') (\<lambda>token0.
     bindr (topic_addr (JStr (topics ! 2)) ''V3 token1'') (\<lambda>token1.
     bindr (if topic0 = V3_POOL_CREATED_TOPIC lib then created_canonical log0 topics
            else if topic0 = V3_POOL_CREATED_COMPACT_TOPIC lib then created_compact log0 topics
            else created_slipstream log0 topics) (\<lambda>(fee, spacing, pool).
       Inr (pool_record pool ''v3'' pool token0 token1 fee spacing None emitter (JInt block)
              (if emitter = SLIPSTREAM_FACTORY then ''SlipstreamFactory.PoolCreated'' else ''V3Factory.PoolCreated'')
              [(''discovery_basis'', JStr ''factory_creation_event'')])))))"

definition normalize_pool_creation :: "eth_lib \<Rightarrow> jdict \<Rightarrow> string \<Rightarrow> lp_exn + jdict option" where
  "normalize_pool_creation lib log0 topic0 =
    (if topic0 \<notin> set (CREATION_TOPICS lib) then Inr None
     else case find_address (dget ''address'' log0) of
       None \<Rightarrow> Inr None
     | Some emitter \<Rightarrow>
         bindr (log_topics log0) (\<lambda>topics.
         bindr (read_int (dget ''blockNumber'' log0) ''creation block'') (\<lambda>block.
           if topic0 = V4_INITIALIZE_TOPIC lib then
             if emitter \<noteq> POOL_MANAGER then Inr None
             else bindr (create_v4 lib log0 topics block) (\<lambda>p. Inr (Some p))
           else if topic0 = V2_PAIR_CREATED_TOPIC lib then
             if emitter \<notin> set V2_FACTORIES then Inr None
             else bindr (create_v2 emitter log0 topics block) (\<lambda>p. Inr (Some p))
           else if topic0 \<notin> set (V3_CREATION_TOPICS lib) \<or> emitter \<notin> set CONCENTRATED_FACTORIES then Inr None
           else bindr (create_v3 lib topic0 emitter log0 topics block) (\<lambda>p. Inr (Some p)))))"

fun int_of_json :: "json \<Rightarrow> int option" where
  "int_of_json (JInt n) = Some n"
| "int_of_json _ = None"

definition public_fields :: "jdict \<Rightarrow> jdict" where
  "public_fields pool = filter (\<lambda>(k, v). take 1 k \<noteq> ''_'') pool"

definition creation_row :: "jdict \<Rightarrow> headers \<Rightarrow> jdict \<Rightarrow> lp_exn + lp_event" where
  "creation_row log0 hs pool =
     bindr (event_base log0 hs) (\<lambda>row.
       Inr (row\<lparr>le_pool_id := Some (str_of (dget ''id'' pool)),
         le_protocol := Some (str_of (dget ''protocol'' pool)), le_kind := Some ''create'',
         le_sqrt_price_x96 := int_of_json (dget ''_sqrt_price_x96'' pool),
         le_tick := int_of_json (dget ''_tick'' pool), le_fee_ppm := int_of_json (dget ''fee_ppm'' pool),
         le_pricing_basis := (if dget ''protocol'' pool = JStr ''v4'' then Some ''event_state'' else None),
         le_accounting_basis := Some ''creation_event'', le_identity_basis := Some ''factory_or_manager_event'',
         le_data := [(''pool'', JObj (public_fields pool))]\<rparr>))"

section \<open>Transfers of position tokens\<close>

definition decode_transfer :: "jdict \<Rightarrow> headers \<Rightarrow> lp_exn + lp_event option" where
  "decode_transfer log0 hs =
    (case find_address (dget ''address'' log0) of
       None \<Rightarrow> Inr None
     | Some manager \<Rightarrow>
        (case map_of MANAGER_INFO manager of
           None \<Rightarrow> Inr None
         | Some info \<Rightarrow>
             bindr (log_topics log0) (\<lambda>topics.
             bindr (ensure (length topics = 4) (ProtocolDecodeError ''malformed recognized NFT Transfer topics'')) (\<lambda>_.
             bindr (raw_hex (dget ''data'' log0) ''NFT Transfer data'') (\<lambda>raw.
             bindr (ensure (raw = []) (ProtocolDecodeError ''recognized NFT Transfer has non-empty data'')) (\<lambda>_.
             bindr (topic_addr (JStr (topics ! 1)) ''NFT Transfer from'') (\<lambda>prior_owner.
             bindr (topic_addr (JStr (topics ! 2)) ''NFT Transfer to'') (\<lambda>new_owner.
             bindr (topic_uint (JStr (topics ! 3)) 256 ''NFT token id'') (\<lambda>token_id.
             bindr (event_base log0 hs) (\<lambda>row.
             bindr (nft_position_key (JStr manager) token_id) (\<lambda>key.
               Inr (Some (row\<lparr>le_protocol := Some ''nft'', le_kind := Some ''transfer'',
                 le_owner := (if new_owner = ZERO_ADDRESS then None else Some new_owner),
                 le_custody := Some manager, le_position_key := Some key, le_token_id := Some token_id,
                 le_accounting_basis := Some ''ownership_only_no_cashflow'',
                 le_identity_basis := Some ''recognized_manager_transfer'',
                 le_data := [(''manager_protocol'', JStr (mi_protocol info)),
                   (''prior_owner'', JStr prior_owner), (''new_owner'', JStr new_owner),
                   (''mint'', JBool (prior_owner = ZERO_ADDRESS)), (''burn'', JBool (new_owner = ZERO_ADDRESS)),
                   (''manager_source'', JStr (mi_source info))]\<rparr>)))))))))))))"

section \<open>Events of pools\<close>

text \<open>
  One definition per event. Each takes the row that \<^verbatim>\<open>_base\<close> and the pool have begun, the log and
  its topics.
\<close>

abbreviation topics_are :: "nat \<Rightarrow> string list \<Rightarrow> string \<Rightarrow> lp_exn + unit" where
  "topics_are n topics text \<equiv> ensure (length topics = n) (ProtocolDecodeError text)"

definition data_words :: "jdict \<Rightarrow> string \<Rightarrow> nat \<Rightarrow> lp_exn + int list" where
  "data_words log0 name count = abi_words (dget ''data'' log0) name count"

definition v2_swap :: "lp_event \<Rightarrow> jdict \<Rightarrow> string list \<Rightarrow> lp_exn + lp_event" where
  "v2_swap row log0 topics =
     bindr (topics_are 3 topics ''malformed V2 Swap topics'') (\<lambda>_.
     bindr (data_words log0 ''V2 Swap data'' 4) (\<lambda>ws.
     bindr (map_res (\<lambda>(i, w). abi_uint w 256 (''V2 Swap word '' @ nat_text i)) (zip [0 ..< 4] ws)) (\<lambda>values.
     bindr (topic_addr (JStr (topics ! 1)) ''V2 Swap sender'') (\<lambda>sender.
     bindr (topic_addr (JStr (topics ! 2)) ''V2 Swap recipient'') (\<lambda>recipient.
       Inr (row\<lparr>le_kind := Some ''swap'', le_amount0 := Some (values ! 0 - values ! 2),
         le_amount1 := Some (values ! 1 - values ! 3), le_pricing_basis := Some ''event_delta'',
         le_data := [(''sender'', JStr sender), (''recipient'', JStr recipient),
           (''input0'', dec (values ! 0)), (''input1'', dec (values ! 1)),
           (''fees_basis'', JStr (if le_fee_ppm row \<noteq> None then ''gross_swap_fee_estimate'' else ''unknown_pair_fee''))]\<rparr>))))))"

definition v2_mint :: "lp_event \<Rightarrow> jdict \<Rightarrow> string list \<Rightarrow> lp_exn + lp_event" where
  "v2_mint row log0 topics =
     bindr (topics_are 2 topics ''malformed V2 Mint topics'') (\<lambda>_.
     bindr (data_words log0 ''V2 Mint data'' 2) (\<lambda>ws.
     bindr (topic_addr (JStr (topics ! 1)) ''V2 Mint sender'') (\<lambda>sender.
       Inr (row\<lparr>le_kind := Some ''add'', le_amount0 := Some (ws ! 0), le_amount1 := Some (ws ! 1),
         le_accounting_basis := Some ''pool_event_beneficiary_unknown'',
         le_identity_basis := Some ''unresolved_v2_lp_token'', le_data := [(''sender'', JStr sender)]\<rparr>))))"

definition v2_burn :: "lp_event \<Rightarrow> jdict \<Rightarrow> string list \<Rightarrow> lp_exn + lp_event" where
  "v2_burn row log0 topics =
     bindr (topics_are 3 topics ''malformed V2 Burn topics'') (\<lambda>_.
     bindr (data_words log0 ''V2 Burn data'' 2) (\<lambda>ws.
     bindr (topic_addr (JStr (topics ! 1)) ''V2 Burn sender'') (\<lambda>sender.
     bindr (topic_addr (JStr (topics ! 2)) ''V2 Burn recipient'') (\<lambda>recipient.
       Inr (row\<lparr>le_kind := Some ''remove'', le_amount0 := Some (ws ! 0), le_amount1 := Some (ws ! 1),
         le_accounting_basis := Some ''pool_event_beneficiary_unknown'',
         le_identity_basis := Some ''unresolved_v2_lp_token'',
         le_data := [(''sender'', JStr sender), (''recipient'', JStr recipient)]\<rparr>)))))"

definition v2_sync :: "lp_event \<Rightarrow> jdict \<Rightarrow> string list \<Rightarrow> lp_exn + lp_event" where
  "v2_sync row log0 topics =
     bindr (topics_are 1 topics ''malformed V2 Sync topics'') (\<lambda>_.
     bindr (data_words log0 ''V2 Sync data'' 2) (\<lambda>ws.
     bindr (abi_uint (ws ! 0) 112 ''V2 reserve0'') (\<lambda>reserve0.
     bindr (abi_uint (ws ! 1) 112 ''V2 reserve1'') (\<lambda>reserve1.
       Inr (row\<lparr>le_kind := Some ''checkpoint'', le_pricing_basis := Some ''event_reserves'',
         le_data := [(''reserve0'', dec reserve0), (''reserve1'', dec reserve1)]\<rparr>)))))"

definition v2_event :: "eth_lib \<Rightarrow> string \<Rightarrow> lp_event \<Rightarrow> jdict \<Rightarrow> string list \<Rightarrow> lp_exn + lp_event" where
  "v2_event lib topic0 row log0 topics =
    (if topic0 = V2_SWAP_TOPIC lib then v2_swap row log0 topics
     else if topic0 = V2_MINT_TOPIC lib then v2_mint row log0 topics
     else if topic0 = V2_BURN_TOPIC lib then v2_burn row log0 topics
     else v2_sync row log0 topics)"

definition v3_initialize :: "lp_event \<Rightarrow> jdict \<Rightarrow> string list \<Rightarrow> lp_exn + lp_event" where
  "v3_initialize row log0 topics =
     bindr (topics_are 1 topics ''malformed V3 Initialize topics'') (\<lambda>_.
     bindr (data_words log0 ''V3 Initialize data'' 2) (\<lambda>ws.
     bindr (abi_uint (ws ! 0) 160 ''V3 sqrtPriceX96'') (\<lambda>sqrt_price.
     bindr (abi_sint (ws ! 1) 24 ''V3 tick'') (\<lambda>tick.
       Inr (row\<lparr>le_kind := Some ''checkpoint'', le_sqrt_price_x96 := Some sqrt_price, le_tick := Some tick,
         le_pricing_basis := Some ''event_state''\<rparr>)))))"

text \<open>The extended event carries the exact protocol fees in two more words.\<close>

definition protocol_fee_fields :: "int list \<Rightarrow> lp_exn + jdict" where
  "protocol_fee_fields ws =
     bindr (abi_uint (ws ! 5) 128 ''Pancake V3 protocolFeesToken0'') (\<lambda>fee0.
     bindr (abi_uint (ws ! 6) 128 ''Pancake V3 protocolFeesToken1'') (\<lambda>fee1.
       Inr [(''protocol_fee_amount0'', dec fee0), (''protocol_fee_amount1'', dec fee1),
         (''protocol_fee_observed'', JBool True),
         (''fees_basis'', JStr ''protocol_fee_event_exact_gross_swap_fee_from_tier'')]))"

definition v3_swap :: "string \<Rightarrow> lp_event \<Rightarrow> jdict \<Rightarrow> string list \<Rightarrow> lp_exn + lp_event" where
  "v3_swap topic0 row log0 topics =
     bindr (topics_are 3 topics ''malformed V3 Swap topics'') (\<lambda>_.
     bindr (data_words log0 ''V3 Swap data'' (if topic0 = CL_SWAP_EXTENDED_TOPIC then 7 else 5)) (\<lambda>ws.
     bindr (abi_sint (ws ! 0) 256 ''V3 amount0'') (\<lambda>amount0.
     bindr (abi_sint (ws ! 1) 256 ''V3 amount1'') (\<lambda>amount1.
     bindr (abi_uint (ws ! 2) 160 ''V3 sqrtPriceX96'') (\<lambda>sqrt_price.
     bindr (abi_uint (ws ! 3) 128 ''V3 active liquidity'') (\<lambda>liquidity.
     bindr (abi_sint (ws ! 4) 24 ''V3 tick'') (\<lambda>tick.
     bindr (topic_addr (JStr (topics ! 1)) ''V3 Swap sender'') (\<lambda>sender.
     bindr (topic_addr (JStr (topics ! 2)) ''V3 Swap recipient'') (\<lambda>recipient.
     bindr (if topic0 = CL_SWAP_EXTENDED_TOPIC then protocol_fee_fields ws else Inr []) (\<lambda>more.
       Inr (row\<lparr>le_kind := Some ''swap'', le_amount0 := Some amount0, le_amount1 := Some amount1,
         le_sqrt_price_x96 := Some sqrt_price, le_liquidity := Some liquidity, le_tick := Some tick,
         le_pricing_basis := Some ''event_state_and_delta'',
         le_data := dput [(''sender'', JStr sender), (''recipient'', JStr recipient),
           (''input0'', dec (max amount0 0)), (''input1'', dec (max amount1 0)),
           (''fees_basis'', JStr (if le_fee_ppm row \<noteq> None then ''gross_swap_fee_estimate'' else ''unknown_pool_fee''))]
           more\<rparr>)))))))))))"

definition v3_mint :: "eth_lib \<Rightarrow> lp_event \<Rightarrow> jdict \<Rightarrow> string list \<Rightarrow> lp_exn + lp_event" where
  "v3_mint lib row log0 topics =
     bindr (topics_are 4 topics ''malformed V3 Mint topics'') (\<lambda>_.
     bindr (data_words log0 ''V3 Mint data'' 4) (\<lambda>ws.
     bindr (word_address (ws ! 0) ''V3 Mint sender'') (\<lambda>sender.
     bindr (topic_addr (JStr (topics ! 1)) ''V3 Mint owner'') (\<lambda>owner.
     bindr (topic_sint (JStr (topics ! 2)) 24 ''V3 tickLower'') (\<lambda>lo.
     bindr (topic_sint (JStr (topics ! 3)) 24 ''V3 tickUpper'') (\<lambda>hi.
     bindr (abi_uint (ws ! 1) 128 ''V3 Mint liquidity'') (\<lambda>liquidity.
     bindr (v3_position_key lib owner lo hi) (\<lambda>raw_key.
     bindr (core_position_key ''v3'' (jtext (le_pool_id row)) (JStr raw_key)) (\<lambda>key.
       Inr (row\<lparr>le_kind := Some ''add'', le_custody := Some owner, le_position_key := Some key,
         le_tick_lower := Some lo, le_tick_upper := Some hi, le_liquidity_delta := Some liquidity,
         le_amount0 := Some (ws ! 2), le_amount1 := Some (ws ! 3),
         le_cashflow0 := Some (- (ws ! 2)), le_cashflow1 := Some (- (ws ! 3)),
         le_accounting_basis := Some ''core_mint_exact_position_flow'',
         le_identity_basis := Some ''core_position_custody'',
         le_data := [(''sender'', JStr sender), (''core_position_key'', JStr raw_key)]\<rparr>))))))))))"

definition v3_burn :: "eth_lib \<Rightarrow> lp_event \<Rightarrow> jdict \<Rightarrow> string list \<Rightarrow> lp_exn + lp_event" where
  "v3_burn lib row log0 topics =
     bindr (topics_are 4 topics ''malformed V3 Burn topics'') (\<lambda>_.
     bindr (data_words log0 ''V3 Burn data'' 3) (\<lambda>ws.
     bindr (topic_addr (JStr (topics ! 1)) ''V3 Burn owner'') (\<lambda>owner.
     bindr (topic_sint (JStr (topics ! 2)) 24 ''V3 tickLower'') (\<lambda>lo.
     bindr (topic_sint (JStr (topics ! 3)) 24 ''V3 tickUpper'') (\<lambda>hi.
     bindr (abi_uint (ws ! 0) 128 ''V3 Burn liquidity'') (\<lambda>liquidity.
     bindr (v3_position_key lib owner lo hi) (\<lambda>raw_key.
     bindr (core_position_key ''v3'' (jtext (le_pool_id row)) (JStr raw_key)) (\<lambda>key.
       Inr (row\<lparr>le_kind := Some (if liquidity \<noteq> 0 then ''remove'' else ''checkpoint''),
         le_custody := Some owner, le_position_key := Some key,
         le_tick_lower := Some lo, le_tick_upper := Some hi, le_liquidity_delta := Some (- liquidity),
         le_amount0 := Some (ws ! 1), le_amount1 := Some (ws ! 2),
         le_accounting_basis := Some (if liquidity \<noteq> 0
           then ''principal_moved_to_position_claim_not_wallet_cashflow'' else ''zero_burn_fee_checkpoint''),
         le_identity_basis := Some ''core_position_custody'',
         le_data := [(''core_position_key'', JStr raw_key)]\<rparr>)))))))))"

definition v3_collect :: "eth_lib \<Rightarrow> lp_event \<Rightarrow> jdict \<Rightarrow> string list \<Rightarrow> lp_exn + lp_event" where
  "v3_collect lib row log0 topics =
     bindr (topics_are 4 topics ''malformed V3 Collect topics'') (\<lambda>_.
     bindr (data_words log0 ''V3 Collect data'' 3) (\<lambda>ws.
     bindr (topic_addr (JStr (topics ! 1)) ''V3 Collect owner'') (\<lambda>owner.
     bindr (topic_sint (JStr (topics ! 2)) 24 ''V3 tickLower'') (\<lambda>lo.
     bindr (topic_sint (JStr (topics ! 3)) 24 ''V3 tickUpper'') (\<lambda>hi.
     bindr (word_address (ws ! 0) ''V3 Collect recipient'') (\<lambda>recipient.
     bindr (abi_uint (ws ! 1) 128 ''V3 Collect amount0'') (\<lambda>amount0.
     bindr (abi_uint (ws ! 2) 128 ''V3 Collect amount1'') (\<lambda>amount1.
     bindr (v3_position_key lib owner lo hi) (\<lambda>raw_key.
     bindr (core_position_key ''v3'' (jtext (le_pool_id row)) (JStr raw_key)) (\<lambda>key.
       Inr (row\<lparr>le_kind := Some ''collect'', le_custody := Some owner, le_position_key := Some key,
         le_tick_lower := Some lo, le_tick_upper := Some hi, le_amount0 := Some amount0, le_amount1 := Some amount1,
         le_cashflow0 := Some amount0, le_cashflow1 := Some amount1,
         le_accounting_basis := Some ''core_collect_exact_position_flow'',
         le_identity_basis := Some ''core_position_custody'',
         le_data := [(''recipient'', JStr recipient), (''core_position_key'', JStr raw_key)]\<rparr>)))))))))))"

definition v3_flash :: "lp_event \<Rightarrow> jdict \<Rightarrow> string list \<Rightarrow> lp_exn + lp_event" where
  "v3_flash row log0 topics =
     bindr (topics_are 3 topics ''malformed V3 Flash topics'') (\<lambda>_.
     bindr (data_words log0 ''V3 Flash data'' 4) (\<lambda>ws.
     bindr (abi_uint (ws ! 2) 256 ''V3 Flash paid0'') (\<lambda>paid0.
     bindr (abi_uint (ws ! 3) 256 ''V3 Flash paid1'') (\<lambda>paid1.
     bindr (abi_uint (ws ! 0) 256 ''V3 Flash amount0'') (\<lambda>amount0.
     bindr (abi_uint (ws ! 1) 256 ''V3 Flash amount1'') (\<lambda>amount1.
     bindr (topic_addr (JStr (topics ! 1)) ''V3 Flash sender'') (\<lambda>sender.
     bindr (topic_addr (JStr (topics ! 2)) ''V3 Flash recipient'') (\<lambda>recipient.
       Inr (row\<lparr>le_kind := Some ''fee'', le_amount0 := Some amount0, le_amount1 := Some amount1,
         le_fee_amount0 := Some paid0, le_fee_amount1 := Some paid1,
         le_accounting_basis := Some ''flash_paid_exact_fee_and_overpayment'',
         le_data := [(''sender'', JStr sender), (''recipient'', JStr recipient),
           (''fees_basis'', JStr ''gross_pool_flash_paid_exact'')]\<rparr>)))))))))"

definition fee_policy_names :: "bool \<Rightarrow> string list" where
  "fee_policy_names packed =
    (if packed then [''fee_protocol0_ppm_old'', ''fee_protocol1_ppm_old'', ''fee_protocol0_ppm_new'', ''fee_protocol1_ppm_new'']
     else [''fee_protocol0_divisor_old'', ''fee_protocol1_divisor_old'', ''fee_protocol0_divisor_new'', ''fee_protocol1_divisor_new''])"

definition v3_set_fee :: "eth_lib \<Rightarrow> string \<Rightarrow> jdict \<Rightarrow> lp_event \<Rightarrow> jdict \<Rightarrow> string list \<Rightarrow> lp_exn + lp_event" where
  "v3_set_fee lib topic0 pool row log0 topics =
    (let packed = (topic0 = PANCAKE_V3_SET_FEE_PROTOCOL_TOPIC lib) in
     bindr (topics_are 1 topics ''malformed V3 SetFeeProtocol topics'') (\<lambda>_.
     bindr (data_words log0 ''V3 SetFeeProtocol data'' 4) (\<lambda>ws.
     bindr (map_res (\<lambda>w. abi_uint w (if packed then 32 else 8) ''V3 protocol fee'') ws) (\<lambda>values.
       Inr (row\<lparr>le_kind := Some ''fee'', le_accounting_basis := Some ''protocol_configuration'',
         le_data := zip (fee_policy_names packed) (map JInt values) @
           [(''fee_protocol_encoding'', JStr
              (if find_address (dget ''factory'' pool) = Some PANCAKE_V3_FACTORY then ''pancake_uint16_ppm_each''
               else if packed then ''extended_v3_uint16_ppm_each'' else ''uniswap_uint4_divisor_each''))]\<rparr>)))))"

definition v3_collect_protocol :: "lp_event \<Rightarrow> jdict \<Rightarrow> string list \<Rightarrow> lp_exn + lp_event" where
  "v3_collect_protocol row log0 topics =
     bindr (topics_are 3 topics ''malformed V3 CollectProtocol topics'') (\<lambda>_.
     bindr (data_words log0 ''V3 CollectProtocol data'' 2) (\<lambda>ws.
     bindr (abi_uint (ws ! 0) 128 ''V3 protocol amount0'') (\<lambda>amount0.
     bindr (abi_uint (ws ! 1) 128 ''V3 protocol amount1'') (\<lambda>amount1.
     bindr (topic_addr (JStr (topics ! 1)) ''V3 protocol fee sender'') (\<lambda>sender.
     bindr (topic_addr (JStr (topics ! 2)) ''V3 protocol fee recipient'') (\<lambda>recipient.
       Inr (row\<lparr>le_kind := Some ''fee'', le_amount0 := Some amount0, le_amount1 := Some amount1,
         le_accounting_basis := Some ''protocol_fee_withdrawal_not_lp_revenue'',
         le_data := [(''sender'', JStr sender), (''recipient'', JStr recipient)]\<rparr>)))))))"

definition v3_event :: "eth_lib \<Rightarrow> string \<Rightarrow> jdict \<Rightarrow> lp_event \<Rightarrow> jdict \<Rightarrow> string list \<Rightarrow> lp_exn + lp_event" where
  "v3_event lib topic0 pool row log0 topics =
    (if topic0 = V3_INITIALIZE_TOPIC lib then v3_initialize row log0 topics
     else if topic0 \<in> {V3_SWAP_TOPIC lib, CL_SWAP_EXTENDED_TOPIC} then v3_swap topic0 row log0 topics
     else if topic0 = V3_MINT_TOPIC lib then v3_mint lib row log0 topics
     else if topic0 = V3_BURN_TOPIC lib then v3_burn lib row log0 topics
     else if topic0 = V3_COLLECT_TOPIC lib then v3_collect lib row log0 topics
     else if topic0 = V3_FLASH_TOPIC lib then v3_flash row log0 topics
     else if topic0 \<in> {V3_SET_FEE_PROTOCOL_TOPIC lib, PANCAKE_V3_SET_FEE_PROTOCOL_TOPIC lib}
     then v3_set_fee lib topic0 pool row log0 topics
     else v3_collect_protocol row log0 topics)"

definition v4_fee_controller :: "lp_event \<Rightarrow> jdict \<Rightarrow> string list \<Rightarrow> lp_exn + lp_event" where
  "v4_fee_controller row log0 topics =
     bindr (topics_are 2 topics ''malformed V4 ProtocolFeeControllerUpdated'') (\<lambda>_.
     bindr (raw_hex (dget ''data'' log0) ''V4 fee controller data'') (\<lambda>raw.
     bindr (ensure (raw = []) (ProtocolDecodeError ''malformed V4 ProtocolFeeControllerUpdated'')) (\<lambda>_.
     bindr (topic_addr (JStr (topics ! 1)) ''V4 fee controller'') (\<lambda>controller.
       Inr (row\<lparr>le_kind := Some ''fee'', le_accounting_basis := Some ''protocol_configuration'',
         le_data := [(''protocol_fee_controller'', JStr controller)]\<rparr>)))))"

definition v4_swap :: "lp_event \<Rightarrow> jdict \<Rightarrow> string list \<Rightarrow> lp_exn + lp_event" where
  "v4_swap row log0 topics =
     bindr (topics_are 3 topics ''malformed V4 Swap topics'') (\<lambda>_.
     bindr (data_words log0 ''V4 Swap data'' 6) (\<lambda>ws.
     bindr (abi_sint (ws ! 0) 128 ''V4 amount0'') (\<lambda>amount0.
     bindr (abi_sint (ws ! 1) 128 ''V4 amount1'') (\<lambda>amount1.
     bindr (abi_uint (ws ! 5) 24 ''V4 combined swap fee'') (\<lambda>swap_fee.
     bindr (abi_uint (ws ! 2) 160 ''V4 sqrtPriceX96'') (\<lambda>sqrt_price.
     bindr (abi_uint (ws ! 3) 128 ''V4 active liquidity'') (\<lambda>liquidity.
     bindr (abi_sint (ws ! 4) 24 ''V4 tick'') (\<lambda>tick.
     bindr (topic_addr (JStr (topics ! 2)) ''V4 Swap sender'') (\<lambda>sender.
       Inr (row\<lparr>le_kind := Some ''swap'', le_amount0 := Some amount0, le_amount1 := Some amount1,
         le_sqrt_price_x96 := Some sqrt_price, le_liquidity := Some liquidity, le_tick := Some tick,
         le_fee_ppm := Some swap_fee, le_pricing_basis := Some ''event_state_and_delta'',
         le_data := [(''sender'', JStr sender), (''input0'', dec (max (- amount0) 0)),
           (''input1'', dec (max (- amount1) 0)), (''fees_basis'', JStr ''gross_combined_swap_fee_event'')]\<rparr>))))))))))"

definition salt_text :: "int \<Rightarrow> string" where
  "salt_text w = hex0x (be_bytes 32 w)"

definition v4_modify_liquidity :: "eth_lib \<Rightarrow> string \<Rightarrow> lp_event \<Rightarrow> jdict \<Rightarrow> string list \<Rightarrow> lp_exn + lp_event" where
  "v4_modify_liquidity lib pool_id row log0 topics =
     bindr (topics_are 3 topics ''malformed V4 ModifyLiquidity topics'') (\<lambda>_.
     bindr (data_words log0 ''V4 ModifyLiquidity data'' 4) (\<lambda>ws.
     bindr (topic_addr (JStr (topics ! 2)) ''V4 ModifyLiquidity sender'') (\<lambda>custody.
     bindr (abi_sint (ws ! 0) 24 ''V4 tickLower'') (\<lambda>lo.
     bindr (abi_sint (ws ! 1) 24 ''V4 tickUpper'') (\<lambda>hi.
     bindr (abi_sint (ws ! 2) 256 ''V4 liquidityDelta'') (\<lambda>delta.
     bindr (v4_position_key lib custody lo hi (salt_text (ws ! 3))) (\<lambda>raw_key.
     bindr (if custody = V4_POSITION_MANAGER then nft_position_key (JStr custody) (ws ! 3)
            else core_position_key ''v4'' (JStr pool_id) (JStr raw_key)) (\<lambda>key.
       Inr (row\<lparr>le_kind := Some (if delta > 0 then ''add'' else if delta < 0 then ''remove'' else ''collect''),
         le_custody := Some custody, le_position_key := Some key,
         le_token_id := (if custody = V4_POSITION_MANAGER then Some (ws ! 3) else None),
         le_tick_lower := Some lo, le_tick_upper := Some hi, le_liquidity_delta := Some delta,
         le_accounting_basis := Some ''pending_trace'',
         le_identity_basis := Some (if custody = V4_POSITION_MANAGER then ''verified_v4_nft_salt'' else ''core_position_custody''),
         le_data := [(''salt'', JStr (salt_text (ws ! 3))), (''core_position_key'', JStr raw_key),
           (''trace_complete'', JBool False), (''cashflow_basis'', JStr ''pending_trace'')]\<rparr>)))))))))"

definition v4_donate :: "lp_event \<Rightarrow> jdict \<Rightarrow> string list \<Rightarrow> lp_exn + lp_event" where
  "v4_donate row log0 topics =
     bindr (topics_are 3 topics ''malformed V4 Donate topics'') (\<lambda>_.
     bindr (data_words log0 ''V4 Donate data'' 2) (\<lambda>ws.
     bindr (topic_addr (JStr (topics ! 2)) ''V4 Donate sender'') (\<lambda>sender.
       Inr (row\<lparr>le_kind := Some ''donate'', le_amount0 := Some (ws ! 0), le_amount1 := Some (ws ! 1),
         le_fee_amount0 := Some (ws ! 0), le_fee_amount1 := Some (ws ! 1),
         le_accounting_basis := Some ''donation_to_active_liquidity'',
         le_data := [(''sender'', JStr sender), (''fees_basis'', JStr ''donate_event_exact_unallocated'')]\<rparr>))))"

definition v4_protocol_fee :: "lp_event \<Rightarrow> jdict \<Rightarrow> string list \<Rightarrow> lp_exn + lp_event" where
  "v4_protocol_fee row log0 topics =
     bindr (topics_are 2 topics ''malformed V4 ProtocolFeeUpdated topics'') (\<lambda>_.
     bindr (data_words log0 ''V4 ProtocolFeeUpdated data'' 1) (\<lambda>ws.
     bindr (abi_uint (ws ! 0) 24 ''V4 protocol fee'') (\<lambda>packed.
       Inr (row\<lparr>le_kind := Some ''fee'', le_accounting_basis := Some ''protocol_configuration'',
         le_data := [(''protocol_fee'', JInt packed), (''protocol_fee_zero_for_one'', JInt (packed AND 0xFFF)),
           (''protocol_fee_one_for_zero'', JInt (drop_bit 12 packed))]\<rparr>))))"

definition v4_event :: "eth_lib \<Rightarrow> string \<Rightarrow> lp_event \<Rightarrow> jdict \<Rightarrow> string list \<Rightarrow> lp_exn + lp_event" where
  "v4_event lib topic0 row log0 topics =
    (if topic0 = V4_PROTOCOL_FEE_CONTROLLER_UPDATED_TOPIC lib then v4_fee_controller row log0 topics
     else bindr (ensure (\<not> length topics < 2) (ProtocolDecodeError ''malformed V4 event topics'')) (\<lambda>_.
       bindr (read_hash (JStr (topics ! 1)) ''V4 pool id'') (\<lambda>pool_id.
         let row1 = row\<lparr>le_pool_id := Some pool_id\<rparr> in
         if topic0 = V4_SWAP_TOPIC lib then v4_swap row1 log0 topics
         else if topic0 = V4_MODIFY_LIQUIDITY_TOPIC lib then v4_modify_liquidity lib pool_id row1 log0 topics
         else if topic0 = V4_DONATE_TOPIC lib then v4_donate row1 log0 topics
         else v4_protocol_fee row1 log0 topics)))"

definition pool_id_of :: "address \<Rightarrow> jdict \<Rightarrow> string" where
  "pool_id_of emitter pool = lower (case map_of pool ''id'' of None \<Rightarrow> emitter | Some v \<Rightarrow> str_of v)"

text \<open>What follows when a log is neither a transfer of a position token nor a creation.\<close>

definition decode_pool_event ::
  "eth_lib \<Rightarrow> string \<Rightarrow> jdict \<Rightarrow> headers \<Rightarrow> pool_index \<Rightarrow> lp_exn + lp_event option" where
  "decode_pool_event lib topic0 log0 hs pools =
    (case find_address (dget ''address'' log0) of
       None \<Rightarrow> Inr None
     | Some emitter \<Rightarrow>
         bindr (log_topics log0) (\<lambda>topics.
           let pool = map_of pools emitter; protocol = pool_protocol pool in
           if topic0 \<in> set (V2_CORE_TOPICS lib) then
             (case pool of
                Some p \<Rightarrow>
                  if protocol \<noteq> Some ''v2'' then Inr None
                  else bindr (event_base log0 hs) (\<lambda>row. bindr (pool_fee pool) (\<lambda>fee.
                    bindr (v2_event lib topic0 (row\<lparr>le_pool_id := Some (pool_id_of emitter p),
                        le_protocol := Some ''v2'', le_fee_ppm := fee\<rparr>) log0 topics) (\<lambda>e. Inr (Some e))))
              | None \<Rightarrow> Inr None)
           else if topic0 \<in> set (V3_CORE_TOPICS lib) then
             (case pool of
                Some p \<Rightarrow>
                  if protocol \<noteq> Some ''v3'' then Inr None
                  else bindr (event_base log0 hs) (\<lambda>row. bindr (pool_fee pool) (\<lambda>fee.
                    bindr (v3_event lib topic0 p (row\<lparr>le_pool_id := Some (pool_id_of emitter p),
                        le_protocol := Some ''v3'', le_fee_ppm := fee\<rparr>) log0 topics) (\<lambda>e. Inr (Some e))))
              | None \<Rightarrow> Inr None)
           else if topic0 \<in> set (V4_CORE_TOPICS lib) then
             if emitter \<noteq> POOL_MANAGER then Inr None
             else bindr (event_base log0 hs) (\<lambda>row.
               bindr (v4_event lib topic0 (row\<lparr>le_protocol := Some ''v4''\<rparr>) log0 topics) (\<lambda>e. Inr (Some e)))
           else Inr None))"

definition decode_event :: "eth_lib \<Rightarrow> jdict \<Rightarrow> headers \<Rightarrow> pool_index \<Rightarrow> lp_exn + lp_event option" where
  "decode_event lib log0 hs pools =
    (case log_topic0 log0 of
       None \<Rightarrow> Inr None
     | Some topic0 \<Rightarrow>
         if topic0 = TRANSFER_TOPIC lib then decode_transfer log0 hs
         else bindr (normalize_pool_creation lib log0 topic0) (\<lambda>created.
           case created of
             Some pool \<Rightarrow> bindr (creation_row log0 hs pool) (\<lambda>e. Inr (Some e))
           | None \<Rightarrow> decode_pool_event lib topic0 log0 hs pools))"

end
