(* ===== verification/Lp_Nft.thy ===== *)
theory Lp_Nft
  imports Lp_Events "HOL-Library.Product_Lexorder"
begin

text \<open>
  Who owns the position an event moves: the correlation of pool events with the events of the
  position managers in \<^verbatim>\<open>src/rhpools/lp_market_protocols.py\<close>. The rows of a transaction are
  changed in place there; here the list of rows is the store and a row is named by its place.
\<close>

section \<open>Events of the position managers\<close>

record nfpm_aux =
  na_manager :: address
  na_kind :: string
  na_token_id :: int
  na_liquidity :: "int option"
  na_amount0 :: int
  na_amount1 :: int
  na_recipient :: "address option"
  na_log_index :: int

definition nfpm_values :: "eth_lib \<Rightarrow> string \<Rightarrow> int list \<Rightarrow> lp_exn + string \<times> address option \<times> int option" where
  "nfpm_values lib topic0 ws =
    (if topic0 = NFT_COLLECT_TOPIC lib then
       bindr (word_address (ws ! 0) ''V3 NFT collect recipient'') (\<lambda>r. Inr (''collect'', Some r, None))
     else bindr (abi_uint (ws ! 0) 128 ''V3 NFT liquidity'') (\<lambda>l.
       Inr (if topic0 = NFT_INCREASE_LIQUIDITY_TOPIC lib then ''add'' else ''remove'', None, Some l)))"

definition decode_nfpm_aux :: "eth_lib \<Rightarrow> jdict \<Rightarrow> lp_exn + nfpm_aux option" where
  "decode_nfpm_aux lib log0 =
    (case (find_address (dget ''address'' log0), log_topic0 log0) of
       (Some manager, Some topic0) \<Rightarrow>
         if manager \<notin> set V3_NFT_MANAGER_ADDRESSES \<or> topic0 \<notin> set (NFPM_AUX_TOPICS lib) then Inr None
         else
           bindr (log_topics log0) (\<lambda>topics.
           bindr (topics_are 2 topics ''malformed recognized V3 NFT position event topics'') (\<lambda>_.
           bindr (topic_uint (JStr (topics ! 1)) 256 ''V3 NFT token id'') (\<lambda>token_id.
           bindr (data_words log0 ''V3 NFT position data'' 3) (\<lambda>ws.
           bindr (nfpm_values lib topic0 ws) (\<lambda>(kind, recipient, liquidity).
           bindr (read_hash (dget ''transactionHash'' log0) ''NFT event transaction hash'') (\<lambda>_.
           bindr (read_int (dget ''logIndex'' log0) ''NFT event log index'') (\<lambda>log_index.
             Inr (Some \<lparr>na_manager = manager, na_kind = kind, na_token_id = token_id, na_liquidity = liquidity,
               na_amount0 = ws ! 1, na_amount1 = ws ! 2, na_recipient = recipient, na_log_index = log_index\<rparr>))))))))
     | _ \<Rightarrow> Inr None)"

record v4_aux =
  va_pool_id :: string
  va_operator :: address
  va_tick_lower :: int
  va_tick_upper :: int
  va_liquidity_delta :: int
  va_salt :: string
  va_log_index :: int

definition decode_v4_position_aux :: "eth_lib \<Rightarrow> jdict \<Rightarrow> lp_exn + v4_aux option" where
  "decode_v4_position_aux lib log0 =
    (if log_topic0 log0 \<noteq> Some (V4_MODIFY_POSITION_TOPIC lib) then Inr None
     else if find_address (dget ''address'' log0) \<noteq> Some V4_POSITION_MANAGER then Inr None
     else
       bindr (log_topics log0) (\<lambda>topics.
       bindr (topics_are 3 topics ''malformed recognized V4 ModifyPosition topics'') (\<lambda>_.
       bindr (data_words log0 ''V4 ModifyPosition data'' 4) (\<lambda>ws.
       bindr (read_hash (JStr (topics ! 1)) ''V4 ModifyPosition pool id'') (\<lambda>pool_id.
       bindr (topic_addr (JStr (topics ! 2)) ''V4 ModifyPosition sender'') (\<lambda>operator.
       bindr (abi_sint (ws ! 0) 24 ''V4 ModifyPosition tickLower'') (\<lambda>lo.
       bindr (abi_sint (ws ! 1) 24 ''V4 ModifyPosition tickUpper'') (\<lambda>hi.
       bindr (abi_sint (ws ! 2) 256 ''V4 ModifyPosition liquidityDelta'') (\<lambda>delta.
       bindr (read_hash (dget ''transactionHash'' log0) ''V4 ModifyPosition transaction hash'') (\<lambda>_.
       bindr (read_int (dget ''logIndex'' log0) ''V4 ModifyPosition log index'') (\<lambda>log_index.
         Inr (Some \<lparr>va_pool_id = pool_id, va_operator = operator, va_tick_lower = lo, va_tick_upper = hi,
           va_liquidity_delta = delta, va_salt = salt_text (ws ! 3), va_log_index = log_index\<rparr>))))))))))))"

section \<open>Receipts and the logs of a transaction\<close>

definition has_key :: "string \<Rightarrow> jdict \<Rightarrow> bool" where
  "has_key k d \<longleftrightarrow> map_of d k \<noteq> None"

text \<open>\<^verbatim>\<open>x or y\<close> on values, and \<^verbatim>\<open>str(x or "")\<close>.\<close>

definition either_of :: "json \<Rightarrow> json \<Rightarrow> json" where
  "either_of x y = (if truthy x then x else y)"

definition text_or_empty :: "json \<Rightarrow> string" where
  "text_or_empty v = (if truthy v then str_of v else [])"

text \<open>A record that is the reply itself or holds it under \<^verbatim>\<open>result\<close>.\<close>

definition unwrap_result :: "string \<Rightarrow> json \<Rightarrow> jdict option" where
  "unwrap_result own candidate =
    (case candidate of
       JObj d \<Rightarrow> if has_key ''result'' d \<and> \<not> has_key own d then obj_of (dget ''result'' d) else Some d
     | _ \<Rightarrow> None)"

definition receipt_for :: "jdict \<Rightarrow> string \<Rightarrow> jdict option" where
  "receipt_for receipts tx_hash =
    (if receipts = [] then None
     else unwrap_result ''transactionHash''
       (if has_key ''transactionHash'' receipts then JObj receipts
        else either_of (dget tx_hash receipts) (dget (lower tx_hash) receipts)))"

definition trace_for :: "jdict \<Rightarrow> string \<Rightarrow> jdict option" where
  "trace_for traces tx_hash =
    (if traces = [] then None
     else unwrap_result ''input''
       (if has_key ''input'' traces \<or> has_key ''calls'' traces then JObj traces
        else either_of (dget tx_hash traces) (dget (lower tx_hash) traces)))"

type_synonym log_index_map = "(int, jdict) odict"

definition od_get :: "'v \<Rightarrow> 'k \<Rightarrow> ('k, 'v) odict \<Rightarrow> 'v" where
  "od_get d0 k d = (case map_of d k of None \<Rightarrow> d0 | Some v \<Rightarrow> v)"

fun group_logs :: "jdict list \<Rightarrow> (string, log_index_map) odict \<Rightarrow> lp_exn + (string, log_index_map) odict" where
  "group_logs [] d = Inr d"
| "group_logs (l # ls) d =
    (let h = lower (text_or_empty (dget ''transactionHash'' l)) in
     if is_hash h then
       bindr (read_int (dget ''logIndex'' l) ''log index'') (\<lambda>i.
         group_logs ls (od_set h (od_set i l (od_get [] h d)) d))
     else group_logs ls d)"

fun add_receipt_logs :: "json list \<Rightarrow> log_index_map \<Rightarrow> lp_exn + log_index_map" where
  "add_receipt_logs [] d = Inr d"
| "add_receipt_logs (JObj l # ls) d =
     bindr (read_int (dget ''logIndex'' l) ''receipt log index'') (\<lambda>i. add_receipt_logs ls (od_set i l d))"
| "add_receipt_logs (v # ls) d = bad_record ''receipt contains a non-object log''"

definition merge_receipt :: "jdict \<Rightarrow> string \<Rightarrow> log_index_map \<Rightarrow> lp_exn + log_index_map" where
  "merge_receipt receipts tx_hash d =
    (case receipt_for receipts tx_hash of
       None \<Rightarrow> Inr d
     | Some receipt \<Rightarrow>
         bindr (read_hash (dget ''transactionHash'' receipt) ''receipt transaction hash'') (\<lambda>h.
         bindr (ensure (h = tx_hash) (ProtocolDecodeError ''receipt transaction hash mismatch'')) (\<lambda>_.
           case dget ''logs'' receipt of
             JArr ls \<Rightarrow> add_receipt_logs ls d
           | _ \<Rightarrow> bad_record ''receipt logs are unavailable'')))"

definition sorted_logs :: "log_index_map \<Rightarrow> jdict list" where
  "sorted_logs d = map snd (sort_key fst d)"

definition evidence_logs :: "jdict list \<Rightarrow> jdict \<Rightarrow> lp_exn + (string \<times> jdict list) list" where
  "evidence_logs logs receipts =
     bindr (group_logs logs []) (\<lambda>d.
       map_res (\<lambda>(h, by_index). bindr (merge_receipt receipts h by_index) (\<lambda>m. Inr (h, sorted_logs m))) d)"

section \<open>The owner at a place in a transaction\<close>

type_synonym endpoints = "address \<times> address"

text \<open>
  The owner after the last transfer that is not behind the action; where all transfers follow the
  action, the owner before the first one, or the receiver of a mint.
\<close>

definition owner_at :: "(int \<times> endpoints) list \<Rightarrow> int \<Rightarrow> address \<times> string" where
  "owner_at transfers action_index =
    (case filter (\<lambda>t. fst t \<le> action_index) transfers of
       [] \<Rightarrow>
         (case transfers of
            (i, prior, new) # _ \<Rightarrow>
              if prior = ZERO_ADDRESS then (new, ''manager_mint_transfer_same_tx'')
              else (prior, ''manager_transfer_same_tx_prestate'')
          | [] \<Rightarrow> ([], []))
     | before \<Rightarrow>
         (case last before of (i, prior, new) \<Rightarrow>
            (if new \<noteq> ZERO_ADDRESS then new else prior, ''manager_transfer_same_tx'')))"

fun token_transfers :: "eth_lib \<Rightarrow> address \<Rightarrow> int \<Rightarrow> jdict list \<Rightarrow> lp_exn + (int \<times> endpoints) list" where
  "token_transfers lib manager token_id [] = Inr []"
| "token_transfers lib manager token_id (l # ls) =
    (if log_topic0 l \<noteq> Some (TRANSFER_TOPIC lib) \<or> find_address (dget ''address'' l) \<noteq> Some manager
     then token_transfers lib manager token_id ls
     else
       bindr (log_topics l) (\<lambda>topics.
       bindr (topics_are 4 topics ''malformed recognized NFT Transfer topics'') (\<lambda>_.
       bindr (topic_uint (JStr (topics ! 3)) 256 ''NFT token id'') (\<lambda>t.
         if t \<noteq> token_id then token_transfers lib manager token_id ls
         else
           bindr (read_int (dget ''logIndex'' l) ''transfer log index'') (\<lambda>i.
           bindr (topic_addr (JStr (topics ! 1)) ''NFT transfer from'') (\<lambda>from.
           bindr (topic_addr (JStr (topics ! 2)) ''NFT transfer to'') (\<lambda>to.
           bindr (token_transfers lib manager token_id ls) (\<lambda>ts.
             Inr ((i, from, to) # ts)))))))))"

definition owner_from_transfers ::
  "eth_lib \<Rightarrow> jdict list \<Rightarrow> address \<Rightarrow> int \<Rightarrow> int \<Rightarrow> lp_exn + address option \<times> string option" where
  "owner_from_transfers lib logs manager token_id action_index =
     bindr (token_transfers lib manager token_id logs) (\<lambda>ts.
       if ts = [] then Inr (None, None)
       else (case owner_at (sort ts) action_index of (owner, basis) \<Rightarrow> Inr (Some owner, Some basis)))"

section \<open>Repairing the owners of V4 rows\<close>

type_synonym transfer_map = "(string \<times> int, (int, endpoints) odict) odict"

definition int_given :: "int option \<Rightarrow> string \<Rightarrow> lp_exn + int" where
  "int_given n name = read_int (jint n) name"

text \<open>The position key of a row must be the one of its token.\<close>

definition check_nft_key :: "lp_event \<Rightarrow> int \<Rightarrow> string \<Rightarrow> lp_exn + unit" where
  "check_nft_key row token_id text =
     bindr (nft_position_key (JStr V4_POSITION_MANAGER) token_id) (\<lambda>key.
       ensure (lower (text_or_empty (jtext (le_position_key row))) = key) (ProtocolDecodeError text))"

definition is_manager_transfer :: "lp_event \<Rightarrow> bool" where
  "is_manager_transfer row \<longleftrightarrow>
     le_protocol row = Some ''nft'' \<and> le_kind row = Some ''transfer'' \<and>
     find_address (jtext (le_custody row)) = Some V4_POSITION_MANAGER"

definition transfer_endpoints :: "lp_event \<Rightarrow> lp_exn + int \<times> endpoints" where
  "transfer_endpoints row =
     bindr (int_given (le_token_id row) ''V4 transfer token id'') (\<lambda>token_id.
     bindr (check_nft_key row token_id ''V4 manager transfer has inconsistent NFT position key'') (\<lambda>_.
     bindr (read_address (dget ''prior_owner'' (le_data row)) ''V4 transfer prior owner'') (\<lambda>prior.
     bindr (read_address (dget ''new_owner'' (le_data row)) ''V4 transfer new owner'') (\<lambda>new.
     bindr (ensure (\<not> (prior = ZERO_ADDRESS \<and> new = ZERO_ADDRESS))
         (ProtocolDecodeError ''V4 manager transfer has two zero endpoints'')) (\<lambda>_.
       Inr (token_id, prior, new))))))"

definition note_transfer :: "lp_event \<Rightarrow> transfer_map \<Rightarrow> lp_exn + transfer_map" where
  "note_transfer row d =
     bindr (transfer_endpoints row) (\<lambda>(token_id, ends).
     bindr (read_hash (JStr (le_tx_hash row)) ''V4 transfer transaction'') (\<lambda>tx_hash.
       let own = od_get [] (tx_hash, token_id) d in
       case map_of own (le_log_index row) of
         Some old \<Rightarrow>
           if old \<noteq> ends then bad_record ''conflicting normalized V4 manager transfers''
           else Inr (od_set (tx_hash, token_id) (od_set (le_log_index row) ends own) d)
       | None \<Rightarrow> Inr (od_set (tx_hash, token_id) (od_set (le_log_index row) ends own) d)))"

fun note_transfers :: "lp_event list \<Rightarrow> transfer_map \<Rightarrow> lp_exn + transfer_map" where
  "note_transfers [] d = Inr d"
| "note_transfers (row # rows) d =
    (if is_manager_transfer row then bindr (note_transfer row d) (note_transfers rows)
     else note_transfers rows d)"

definition is_manager_core :: "lp_event \<Rightarrow> bool" where
  "is_manager_core row \<longleftrightarrow>
     le_protocol row = Some ''v4'' \<and> find_address (jtext (le_custody row)) = Some V4_POSITION_MANAGER \<and>
     le_liquidity_delta row \<noteq> None"

definition with_owner :: "lp_event \<Rightarrow> address \<Rightarrow> string \<Rightarrow> lp_event" where
  "with_owner row owner basis =
     row\<lparr>le_owner := Some owner, le_identity_basis := Some basis,
       le_data := od_set ''identity_basis'' (JStr basis) (le_data row)\<rparr>"

definition repair_row :: "transfer_map \<Rightarrow> lp_event \<Rightarrow> lp_exn + lp_event option" where
  "repair_row d row =
     bindr (int_given (le_token_id row) ''V4 core token id'') (\<lambda>token_id.
     bindr (check_nft_key row token_id ''V4 manager core row has inconsistent NFT position key'') (\<lambda>_.
     bindr (read_hash (JStr (le_tx_hash row)) ''V4 core transaction'') (\<lambda>tx_hash.
       let candidates = sort_key fst (od_get [] (tx_hash, token_id) d) in
       if candidates = [] then Inr None
       else
         (case owner_at candidates (le_log_index row) of (owner, basis) \<Rightarrow>
           if owner = ZERO_ADDRESS then bad_record ''V4 manager transfer cannot prove a zero owner''
           else if le_owner row = Some owner \<and> le_identity_basis row = Some basis \<and>
                dget ''identity_basis'' (le_data row) = JStr basis
           then Inr None
           else Inr (Some (with_owner row owner basis))))))"

fun repair_rows :: "transfer_map \<Rightarrow> lp_event list \<Rightarrow> lp_exn + lp_event list" where
  "repair_rows d [] = Inr []"
| "repair_rows d (row # rows) =
    (if is_manager_core row then
       bindr (repair_row d row) (\<lambda>r. bindr (repair_rows d rows) (\<lambda>rs.
         Inr (case r of None \<Rightarrow> rs | Some e \<Rightarrow> e # rs)))
     else repair_rows d rows)"

definition repair_v4_owners :: "lp_event list \<Rightarrow> lp_exn + lp_event list" where
  "repair_v4_owners events = bindr (note_transfers events []) (\<lambda>d. repair_rows d events)"

section \<open>Correlation with the position managers\<close>

definition od_append :: "'k \<Rightarrow> 'v \<Rightarrow> ('k, 'v list) odict \<Rightarrow> ('k, 'v list) odict" where
  "od_append k v d = od_set k (od_get [] k d @ [v]) d"

text \<open>\<^verbatim>\<open>int(v)\<close> on a field that may be \<^verbatim>\<open>None\<close>.\<close>

fun the_int :: "int option \<Rightarrow> lp_exn + int" where
  "the_int (Some n) = Inr n"
| "the_int None = Inl (LpPy (TypeError ''int() argument must be a string or a number, not NoneType''))"

type_synonym v3_key = "address option \<times> string option \<times> int option \<times> int \<times> int"

definition is_v3_core :: "lp_event \<Rightarrow> bool" where
  "is_v3_core row \<longleftrightarrow>
     le_protocol row = Some ''v3'' \<and> le_custody row \<in> Some ` set V3_NFT_MANAGER_ADDRESSES \<and>
     le_kind row \<in> {Some ''add'', Some ''remove'', Some ''collect''}"

definition v3_core_key :: "lp_event \<Rightarrow> lp_exn + v3_key" where
  "v3_core_key row =
     bindr (if le_kind row \<noteq> Some ''collect''
            then bindr (the_int (le_liquidity_delta row)) (\<lambda>l. Inr (Some \<bar>l\<bar>)) else Inr None) (\<lambda>liquidity.
     bindr (the_int (le_amount0 row)) (\<lambda>amount0.
     bindr (the_int (le_amount1 row)) (\<lambda>amount1.
       Inr (le_custody row, le_kind row, liquidity, amount0, amount1))))"

definition aux_key :: "nfpm_aux \<Rightarrow> v3_key" where
  "aux_key a = (Some (na_manager a), Some (na_kind a), na_liquidity a, na_amount0 a, na_amount1 a)"

fun group_rows ::
  "(lp_event \<Rightarrow> bool) \<Rightarrow> (lp_event \<Rightarrow> lp_exn + 'k) \<Rightarrow> (nat \<times> lp_event) list \<Rightarrow> ('k, nat list) odict \<Rightarrow>
   lp_exn + ('k, nat list) odict" where
  "group_rows keep key [] d = Inr d"
| "group_rows keep key ((i, row) # rows) d =
    (if keep row then bindr (key row) (\<lambda>k. group_rows keep key rows (od_append k i d))
     else group_rows keep key rows d)"

definition group_aux :: "('a \<Rightarrow> 'k) \<Rightarrow> 'a list \<Rightarrow> ('k, 'a list) odict" where
  "group_aux key xs = fold (\<lambda>x d. od_append (key x) x d) xs []"

definition mark_ambiguous :: "nat \<Rightarrow> nat \<Rightarrow> lp_event \<Rightarrow> lp_event" where
  "mark_ambiguous cores auxiliaries row =
     row\<lparr>le_data := dput (le_data row) [(''nft_correlation_status'', JStr ''ambiguous''),
       (''nft_core_candidate_count'', JInt (int cores)), (''nft_aux_candidate_count'', JInt (int auxiliaries))]\<rparr>"

definition attribute_token :: "eth_lib \<Rightarrow> jdict list \<Rightarrow> lp_event \<Rightarrow> nfpm_aux \<Rightarrow> lp_exn + lp_event" where
  "attribute_token lib logs row a =
     bindr (read_hash (dget ''core_position_key'' (le_data row)) ''V3 core position key'') (\<lambda>core_key.
     bindr (nft_position_key (JStr (na_manager a)) (na_token_id a)) (\<lambda>key.
     bindr (owner_from_transfers lib logs (na_manager a) (na_token_id a) (le_log_index row)) (\<lambda>(owner, basis).
       let b = (case basis of Some b \<Rightarrow> b | None \<Rightarrow> ''verified_nft_token_core_correlation'') in
       Inr (row\<lparr>le_token_id := Some (na_token_id a), le_position_key := Some key, le_owner := owner,
         le_identity_basis := Some b,
         le_data := dput (le_data row)
           ([(''core_position_key'', JStr core_key), (''nft_manager'', JStr (na_manager a)),
             (''nft_event_log_index'', JInt (na_log_index a)), (''identity_basis'', JStr b)] @
            (case na_recipient a of None \<Rightarrow> [] | Some r \<Rightarrow> [(''nft_recipient'', JStr r)]))\<rparr>))))"

fun attribute_rows :: "eth_lib \<Rightarrow> jdict list \<Rightarrow> (nat \<times> nfpm_aux) list \<Rightarrow> lp_event list \<Rightarrow> lp_exn + lp_event list" where
  "attribute_rows lib logs [] rows = Inr rows"
| "attribute_rows lib logs ((i, a) # ps) rows =
     bindr (attribute_token lib logs (rows ! i) a) (\<lambda>row. attribute_rows lib logs ps (rows[i := row]))"

definition by_log_index :: "lp_event list \<Rightarrow> nat list \<Rightarrow> nat list" where
  "by_log_index rows is = sort_key (\<lambda>i. le_log_index (rows ! i)) is"

definition correlate_group ::
  "eth_lib \<Rightarrow> jdict list \<Rightarrow> (v3_key, nat list) odict \<Rightarrow> v3_key \<Rightarrow> nfpm_aux list \<Rightarrow> lp_event list \<Rightarrow> lp_exn + lp_event list" where
  "correlate_group lib logs core_groups key auxiliaries rows =
    (let cores = by_log_index rows (od_get [] key core_groups);
         auxs = sort_key na_log_index auxiliaries in
     if cores = [] then Inr rows
     else if length cores \<noteq> length auxs
     then Inr (fold (\<lambda>i rows. rows[i := mark_ambiguous (length cores) (length auxs) (rows ! i)]) cores rows)
     else attribute_rows lib logs (zip cores auxs) rows)"

fun correlate_groups ::
  "eth_lib \<Rightarrow> jdict list \<Rightarrow> (v3_key, nat list) odict \<Rightarrow> (v3_key \<times> nfpm_aux list) list \<Rightarrow> lp_event list \<Rightarrow>
   lp_exn + lp_event list" where
  "correlate_groups lib logs core_groups [] rows = Inr rows"
| "correlate_groups lib logs core_groups ((key, auxs) # gs) rows =
     bindr (correlate_group lib logs core_groups key auxs rows) (correlate_groups lib logs core_groups gs)"

section \<open>Correlation with the V4 position manager\<close>

type_synonym v4_key = "string option \<times> int option \<times> int option \<times> int \<times> json"

definition is_v4_core :: "lp_event \<Rightarrow> bool" where
  "is_v4_core row \<longleftrightarrow>
     le_protocol row = Some ''v4'' \<and> le_custody row = Some V4_POSITION_MANAGER \<and> le_liquidity_delta row \<noteq> None"

definition v4_core_key :: "lp_event \<Rightarrow> lp_exn + v4_key" where
  "v4_core_key row =
     bindr (the_int (le_liquidity_delta row)) (\<lambda>delta.
       case map_of (le_data row) ''salt'' of
         Some salt \<Rightarrow> Inr (le_pool_id row, le_tick_lower row, le_tick_upper row, delta, salt)
       | None \<Rightarrow> Inl (LpPy (KeyError ''salt'')))"

definition v4_aux_key :: "v4_aux \<Rightarrow> v4_key" where
  "v4_aux_key a =
     (Some (va_pool_id a), Some (va_tick_lower a), Some (va_tick_upper a), va_liquidity_delta a, JStr (va_salt a))"

text \<open>The transfers among the evidence that no row stands for yet.\<close>

fun more_transfers :: "eth_lib \<Rightarrow> headers \<Rightarrow> event_id list \<Rightarrow> jdict list \<Rightarrow> lp_exn + lp_event list" where
  "more_transfers lib hs known [] = Inr []"
| "more_transfers lib hs known (l # ls) =
    (if log_topic0 l \<noteq> Some (TRANSFER_TOPIC lib) \<or> find_address (dget ''address'' l) \<noteq> Some V4_POSITION_MANAGER
     then more_transfers lib hs known ls
     else
       bindr (decode_transfer l hs) (\<lambda>t.
       bindr (more_transfers lib hs known ls) (\<lambda>ts.
         Inr (case t of Some e \<Rightarrow> if event_identity e \<notin> set known then e # ts else ts | None \<Rightarrow> ts))))"

definition apply_repair :: "(event_id, lp_event) odict \<Rightarrow> lp_event \<Rightarrow> lp_event" where
  "apply_repair repairs row =
    (case map_of repairs (event_identity row) of
       None \<Rightarrow> row
     | Some r \<Rightarrow> row\<lparr>le_owner := le_owner r, le_identity_basis := le_identity_basis r, le_data := le_data r\<rparr>)"

definition default_basis :: "lp_event \<Rightarrow> lp_event" where
  "default_basis row =
     (if has_key ''identity_basis'' (le_data row) then row
      else row\<lparr>le_data := od_set ''identity_basis'' (jtext (le_identity_basis row)) (le_data row)\<rparr>)"

definition change_rows :: "nat list \<Rightarrow> (lp_event \<Rightarrow> lp_event) \<Rightarrow> lp_event list \<Rightarrow> lp_event list" where
  "change_rows is f rows = fold (\<lambda>i rows. rows[i := f (rows ! i)]) is rows"

definition repair_transaction ::
  "eth_lib \<Rightarrow> headers \<Rightarrow> jdict list \<Rightarrow> nat list \<Rightarrow> (v4_key, nat list) odict \<Rightarrow> lp_event list \<Rightarrow> lp_exn + lp_event list" where
  "repair_transaction lib hs logs tx core_groups rows =
    (if core_groups = [] then Inr rows
     else
       bindr (more_transfers lib hs (map (\<lambda>i. event_identity (rows ! i)) tx) logs) (\<lambda>ts.
       bindr (repair_v4_owners (map ((!) rows) tx @ ts)) (\<lambda>rs.
         let repairs = fold (\<lambda>r d. od_set (event_identity r) r d) rs [];
             rows1 = change_rows tx (apply_repair repairs) rows
         in Inr (change_rows (concat (map snd core_groups)) default_basis rows1))))"

definition with_operator :: "v4_aux \<Rightarrow> lp_event \<Rightarrow> lp_event" where
  "with_operator a row =
     row\<lparr>le_data := dput (le_data row) [(''position_manager_operator'', JStr (va_operator a)),
       (''position_manager_event_log_index'', JInt (va_log_index a))]\<rparr>"

fun match_operators ::
  "(v4_key, nat list) odict \<Rightarrow> (v4_key \<times> v4_aux list) list \<Rightarrow> lp_event list \<Rightarrow> lp_exn + lp_event list" where
  "match_operators core_groups [] rows = Inr rows"
| "match_operators core_groups ((key, auxiliaries) # gs) rows =
    (let cores = by_log_index rows (od_get [] key core_groups);
         auxs = sort_key va_log_index auxiliaries in
     if cores = [] then match_operators core_groups gs rows
     else if length cores \<noteq> length auxs then bad_record ''ambiguous V4 PositionManager/core event correlation''
     else match_operators core_groups gs
            (fold (\<lambda>(i, a) rows. rows[i := with_operator a (rows ! i)]) (zip cores auxs) rows))"

section \<open>Transfers take the range of their token's action\<close>

definition token_rows :: "lp_event list \<Rightarrow> nat list \<Rightarrow> (address option \<times> int option, nat) odict" where
  "token_rows rows tx =
     fold (\<lambda>i d. let row = rows ! i in
         if le_token_id row \<noteq> None \<and> le_protocol row \<in> {Some ''v3'', Some ''v4''}
         then od_set (le_custody row, le_token_id row) i d else d) tx []"

definition with_action :: "lp_event \<Rightarrow> lp_event \<Rightarrow> lp_event" where
  "with_action action transfer =
     transfer\<lparr>le_pool_id := le_pool_id action, le_tick_lower := le_tick_lower action,
       le_tick_upper := le_tick_upper action,
       le_data := dput (le_data transfer) [(''action_position_key'', jtext (le_position_key action)),
         (''core_position_key'', dget ''core_position_key'' (le_data action))]\<rparr>"

definition enrich_transfers :: "nat list \<Rightarrow> lp_event list \<Rightarrow> lp_event list" where
  "enrich_transfers tx rows =
    (let tokens = token_rows rows tx in
     fold (\<lambda>i rows. let row = rows ! i in
       if le_protocol row \<noteq> Some ''nft'' then rows
       else case map_of tokens (le_custody row, le_token_id row) of
         None \<Rightarrow> rows
       | Some j \<Rightarrow> rows[i := with_action (rows ! j) row]) tx rows)"

definition correlate_transaction ::
  "eth_lib \<Rightarrow> headers \<Rightarrow> jdict list \<Rightarrow> nat list \<Rightarrow> lp_event list \<Rightarrow> lp_exn + lp_event list" where
  "correlate_transaction lib hs logs tx rows =
     bindr (map_res (decode_nfpm_aux lib) logs) (\<lambda>nfpm.
     bindr (map_res (decode_v4_position_aux lib) logs) (\<lambda>v4.
     bindr (group_rows is_v3_core v3_core_key (map (\<lambda>i. (i, rows ! i)) tx) []) (\<lambda>cores.
     bindr (correlate_groups lib logs cores (group_aux aux_key (List.map_filter id nfpm)) rows) (\<lambda>rows1.
     bindr (group_rows is_v4_core v4_core_key (map (\<lambda>i. (i, rows1 ! i)) tx) []) (\<lambda>v4_cores.
     bindr (repair_transaction lib hs logs tx v4_cores rows1) (\<lambda>rows2.
     bindr (match_operators v4_cores (group_aux v4_aux_key (List.map_filter id v4)) rows2) (\<lambda>rows3.
       Inr (enrich_transfers tx rows3))))))))"

definition rows_by_tx :: "lp_event list \<Rightarrow> (string, nat list) odict" where
  "rows_by_tx rows = fold (\<lambda>i d. od_append (le_tx_hash (rows ! i)) i d) [0 ..< length rows] []"

fun correlate_all ::
  "eth_lib \<Rightarrow> headers \<Rightarrow> (string \<times> jdict list) list \<Rightarrow> (string \<times> nat list) list \<Rightarrow> lp_event list \<Rightarrow>
   lp_exn + lp_event list" where
  "correlate_all lib hs evidence [] rows = Inr rows"
| "correlate_all lib hs evidence ((h, tx) # txs) rows =
     bindr (correlate_transaction lib hs (od_get [] h evidence) tx rows) (correlate_all lib hs evidence txs)"

definition correlate_manager_events ::
  "eth_lib \<Rightarrow> headers \<Rightarrow> (string \<times> jdict list) list \<Rightarrow> lp_event list \<Rightarrow> lp_exn + lp_event list" where
  "correlate_manager_events lib hs evidence rows = correlate_all lib hs evidence (rows_by_tx rows) rows"

end
