(* ===== verification/Lp_Trace.thy ===== *)
theory Lp_Trace
  imports Lp_Nft
begin

text \<open>
  The exact cash flows of V4 positions: \<^verbatim>\<open>_trace_updates\<close> and \<^verbatim>\<open>_enrich_v4_traces\<close> of
  \<^verbatim>\<open>src/rhpools/lp_market_protocols.py\<close>. The call tree of a transaction gives the return value of
  every \<^verbatim>\<open>modifyLiquidity\<close> call; a call and an event belong together by the bytes of the event.
\<close>

section \<open>Calls of modifyLiquidity\<close>

record modify_call =
  mc_pool_id :: string
  mc_token0 :: address
  mc_token1 :: address
  mc_configured_fee :: int
  mc_tick_spacing :: int
  mc_hook :: address
  mc_tick_lower :: int
  mc_tick_upper :: int
  mc_liquidity_delta :: int
  mc_salt :: string
  mc_caller_delta0 :: int
  mc_caller_delta1 :: int
  mc_fees_accrued0 :: int
  mc_fees_accrued1 :: int

definition MODIFY_LIQUIDITY_SELECTOR :: "eth_lib \<Rightarrow> string" where
  "MODIFY_LIQUIDITY_SELECTOR lib =
     take 10 (topic lib ''modifyLiquidity((address,address,uint24,int24,address),(int24,int24,int256,bytes32),bytes)'')"

definition decode_balance_delta :: "int \<Rightarrow> int \<times> int" where
  "decode_balance_delta word =
    (let high = drop_bit 128 word AND (2 ^ 128 - 1); low = word AND (2 ^ 128 - 1)
     in (if high \<ge> 2 ^ 127 then high - 2 ^ 128 else high, if low \<ge> 2 ^ 127 then low - 2 ^ 128 else low))"

text \<open>The hook data at the end of the calldata: canonical offset, exact length, zero padding.\<close>

definition check_hook_data :: "bytes \<Rightarrow> int list \<Rightarrow> lp_exn + unit" where
  "check_hook_data arg_bytes ws =
    (let offset = ws ! 9; size = ws ! 10; padded = (size + 31) div 32 * 32 in
     bindr (ensure (offset = 10 * 32) (ProtocolDecodeError ''modifyLiquidity hookData has non-canonical offset'')) (\<lambda>_.
     bindr (ensure (int (length arg_bytes) = offset + 32 + padded)
         (ProtocolDecodeError ''modifyLiquidity hookData length is inconsistent'')) (\<lambda>_.
       ensure (list_all (\<lambda>b. b = 0) (drop (nat (offset + 32 + size)) arg_bytes))
         (ProtocolDecodeError ''modifyLiquidity hookData padding is non-zero''))))"

definition decode_modify_call :: "eth_lib \<Rightarrow> jdict \<Rightarrow> lp_exn + modify_call" where
  "decode_modify_call lib frame =
     bindr (raw_hex (dget ''input'' frame) ''modifyLiquidity trace input'') (\<lambda>raw.
     bindr (ensure (\<not> (length raw < 4 \<or> hex0x (take 4 raw) \<noteq> MODIFY_LIQUIDITY_SELECTOR lib))
         (ProtocolDecodeError ''trace frame is not canonical modifyLiquidity'')) (\<lambda>_.
       let arg_bytes = drop 4 raw; ws = raw_words arg_bytes in
     bindr (ensure (\<not> (length arg_bytes < 11 * 32 \<or> length arg_bytes mod 32 \<noteq> 0))
         (ProtocolDecodeError ''modifyLiquidity calldata is truncated'')) (\<lambda>_.
     bindr (word_address (ws ! 0) ''modifyLiquidity currency0'') (\<lambda>token0.
     bindr (word_address (ws ! 1) ''modifyLiquidity currency1'') (\<lambda>token1.
     bindr (abi_uint (ws ! 2) 24 ''modifyLiquidity fee'') (\<lambda>fee.
     bindr (abi_sint (ws ! 3) 24 ''modifyLiquidity tick spacing'') (\<lambda>spacing.
     bindr (word_address (ws ! 4) ''modifyLiquidity hook'') (\<lambda>hook.
     bindr (abi_sint (ws ! 5) 24 ''modifyLiquidity tickLower'') (\<lambda>lo.
     bindr (abi_sint (ws ! 6) 24 ''modifyLiquidity tickUpper'') (\<lambda>hi.
     bindr (abi_sint (ws ! 7) 256 ''modifyLiquidity liquidityDelta'') (\<lambda>delta.
     bindr (check_hook_data arg_bytes ws) (\<lambda>_.
     bindr (raw_hex (dget ''output'' frame) ''modifyLiquidity trace output'') (\<lambda>returned.
     bindr (ensure (length returned = 64)
         (ProtocolDecodeError ''modifyLiquidity must return exactly two BalanceDelta words'')) (\<lambda>_.
       let caller = decode_balance_delta (from_bytes_big (take 32 returned));
           fees = decode_balance_delta (from_bytes_big (drop 32 returned)) in
     bindr (v4_pool_id lib token0 token1 fee spacing hook) (\<lambda>pool_id.
       Inr \<lparr>mc_pool_id = pool_id, mc_token0 = token0, mc_token1 = token1, mc_configured_fee = fee,
         mc_tick_spacing = spacing, mc_hook = hook, mc_tick_lower = lo, mc_tick_upper = hi,
         mc_liquidity_delta = delta, mc_salt = salt_text (ws ! 8),
         mc_caller_delta0 = fst caller, mc_caller_delta1 = snd caller,
         mc_fees_accrued0 = fst fees, mc_fees_accrued1 = snd fees\<rparr>)))))))))))))))"

section \<open>The call tree\<close>

lemma size_dget: "map_of d k = Some v \<Longrightarrow> size v < size (JObj d)"
proof -
  assume "map_of d k = Some v"
  then have "(k, v) \<in> set d" by (rule map_of_SomeD)
  then show ?thesis by (induction d) auto
qed

lemma size_arr: "v \<in> set vs \<Longrightarrow> size v < size (JArr vs)"
  by (induction vs) auto

text \<open>
  The frames in the order the generator yields them; a malformed list of calls is an exception at
  its place.
\<close>

type_synonym trace_path = "nat list"

function walk_trace :: "jdict \<Rightarrow> trace_path \<Rightarrow> bool \<Rightarrow> (lp_exn + trace_path \<times> jdict \<times> bool) list" where
  "walk_trace frame path failed_ancestor =
    (let failed = (failed_ancestor \<or> truthy (dget ''error'' frame) \<or> truthy (dget ''revertReason'' frame)) in
     Inr (path, frame, failed) #
     (case map_of frame ''calls'' of
        None \<Rightarrow> []
      | Some (JArr vs) \<Rightarrow>
          concat (map (\<lambda>(i, v). case v of JObj d \<Rightarrow> walk_trace d (path @ [i]) failed
                    | _ \<Rightarrow> [bad_record ''trace contains a non-object call'']) (zip [0 ..< length vs] vs))
      | Some v \<Rightarrow> if truthy v then [bad_record ''trace calls is not a sequence''] else []))"
  by pat_completeness auto
termination
  by (relation "measure (\<lambda>(frame, path, failed). size (JObj frame))")
    (auto dest!: set_zip_rightD size_arr size_dget)

declare walk_trace.simps [simp del]

section \<open>Matching calls and events\<close>

type_synonym log_key = "address \<times> string list \<times> string"

definition trace_log_key :: "jdict \<Rightarrow> lp_exn + log_key" where
  "trace_log_key l =
     bindr (read_address (dget ''address'' l) ''trace log address'') (\<lambda>a.
     bindr (log_topics l) (\<lambda>topics.
     bindr (raw_hex (dget ''data'' l) ''trace log data'') (\<lambda>raw. Inr (a, topics, hex0x raw))))"

definition is_modify_event :: "eth_lib \<Rightarrow> jdict \<Rightarrow> bool" where
  "is_modify_event lib l \<longleftrightarrow>
     log_topic0 l = Some (V4_MODIFY_LIQUIDITY_TOPIC lib) \<and> find_address (dget ''address'' l) = Some POOL_MANAGER"

fun receipt_events :: "eth_lib \<Rightarrow> json list \<Rightarrow> (log_key, jdict list) odict \<Rightarrow> lp_exn + (log_key, jdict list) odict" where
  "receipt_events lib [] d = Inr d"
| "receipt_events lib (JObj l # ls) d =
    (if is_modify_event lib l
     then bindr (trace_log_key l) (\<lambda>k. receipt_events lib ls (od_append k l d))
     else receipt_events lib ls d)"
| "receipt_events lib (v # ls) d = receipt_events lib ls d"

text \<open>What the event of a call says, and what the call itself says.\<close>

definition traced_values :: "jdict \<Rightarrow> lp_exn + string \<times> address \<times> int \<times> int \<times> int \<times> string" where
  "traced_values l =
     bindr (log_topics l) (\<lambda>topics.
     bindr (data_words l ''traced ModifyLiquidity event'' 4) (\<lambda>ws.
     bindr (topics_are 3 topics ''traced ModifyLiquidity event topics are malformed'') (\<lambda>_.
     bindr (read_hash (JStr (topics ! 1)) ''traced pool id'') (\<lambda>pool_id.
     bindr (topic_addr (JStr (topics ! 2)) ''traced sender'') (\<lambda>sender.
     bindr (abi_sint (ws ! 0) 24 ''traced tickLower'') (\<lambda>lo.
     bindr (abi_sint (ws ! 1) 24 ''traced tickUpper'') (\<lambda>hi.
     bindr (abi_sint (ws ! 2) 256 ''traced liquidityDelta'') (\<lambda>delta.
       Inr (pool_id, sender, lo, hi, delta, salt_text (ws ! 3))))))))))"

definition call_values :: "address \<Rightarrow> modify_call \<Rightarrow> string \<times> address \<times> int \<times> int \<times> int \<times> string" where
  "call_values caller c =
     (mc_pool_id c, caller, mc_tick_lower c, mc_tick_upper c, mc_liquidity_delta c, mc_salt c)"

definition upper_char :: "char \<Rightarrow> char" where
  "upper_char c = (let n = of_char c :: nat in if 97 \<le> n \<and> n \<le> 122 then char_of (n - 32) else c)"

definition is_call :: "jdict \<Rightarrow> bool" where
  "is_call frame \<longleftrightarrow> map upper_char (str_of (either_of (dget ''type'' frame) (JStr ''CALL''))) = ''CALL''"

definition frame_events :: "eth_lib \<Rightarrow> jdict \<Rightarrow> lp_exn + jdict list" where
  "frame_events lib frame =
    (case either_of (dget ''logs'' frame) (JArr []) of
       JArr vs \<Rightarrow> Inr (filter (is_modify_event lib) (List.map_filter obj_of vs))
     | _ \<Rightarrow> bad_record ''modifyLiquidity trace logs is not a sequence'')"

definition read_call :: "eth_lib \<Rightarrow> jdict \<Rightarrow> lp_exn + log_key \<times> modify_call" where
  "read_call lib frame =
     bindr (ensure (is_call frame) (ProtocolDecodeError ''modifyLiquidity trace frame is not CALL'')) (\<lambda>_.
     bindr (decode_modify_call lib frame) (\<lambda>c.
     bindr (frame_events lib frame) (\<lambda>events.
       case events of
         [event_log] \<Rightarrow>
           bindr (traced_values event_log) (\<lambda>values.
           bindr (read_address (dget ''from'' frame) ''modifyLiquidity caller'') (\<lambda>caller.
           bindr (ensure (values = call_values caller c)
               (ProtocolDecodeError ''modifyLiquidity trace call/event key mismatch'')) (\<lambda>_.
           bindr (trace_log_key event_log) (\<lambda>k. Inr (k, c)))))
       | _ \<Rightarrow> bad_record ''successful modifyLiquidity call did not emit exactly one core event'')))"

definition is_modify_frame :: "eth_lib \<Rightarrow> jdict \<Rightarrow> bool" where
  "is_modify_frame lib frame \<longleftrightarrow>
     lower (take 10 (text_or_empty (dget ''input'' frame))) = MODIFY_LIQUIDITY_SELECTOR lib \<and>
     find_address (dget ''to'' frame) = Some POOL_MANAGER"

type_synonym call_groups = "(log_key, (trace_path \<times> modify_call) list) odict"

fun group_calls :: "eth_lib \<Rightarrow> (lp_exn + trace_path \<times> jdict \<times> bool) list \<Rightarrow> call_groups \<Rightarrow> lp_exn + call_groups" where
  "group_calls lib [] d = Inr d"
| "group_calls lib (Inl e # fs) d = Inl e"
| "group_calls lib (Inr (path, frame, failed) # fs) d =
    (if is_modify_frame lib frame \<and> \<not> failed
     then bindr (read_call lib frame) (\<lambda>(k, c). group_calls lib fs (od_append k (path, c) d))
     else group_calls lib fs d)"

text \<open>One path is a prefix of another.\<close>

definition nested :: "trace_path \<Rightarrow> trace_path \<Rightarrow> bool" where
  "nested left right \<longleftrightarrow> left = take (length left) right \<or> right = take (length right) left"

fun some_nested :: "trace_path list \<Rightarrow> bool" where
  "some_nested [] = False"
| "some_nested (p # ps) = (list_ex (nested p) ps \<or> some_nested ps)"

type_synonym update_map = "(event_id, modify_call) odict"

fun pair_calls ::
  "string \<Rightarrow> string \<Rightarrow> ((trace_path \<times> modify_call) \<times> jdict) list \<Rightarrow> update_map \<Rightarrow> lp_exn + update_map" where
  "pair_calls tx_hash block_hash [] d = Inr d"
| "pair_calls tx_hash block_hash (((path, c), l) # ps) d =
     bindr (read_hash (dget ''transactionHash'' l) ''receipt log transaction hash'') (\<lambda>h.
     bindr (read_hash (dget ''blockHash'' l) ''receipt log block hash'') (\<lambda>b.
     bindr (ensure (h = tx_hash \<and> b = block_hash) (ProtocolDecodeError ''trace/receipt log identity mismatch'')) (\<lambda>_.
     bindr (read_int (dget ''logIndex'' l) ''receipt log index'') (\<lambda>i.
       pair_calls tx_hash block_hash ps (od_set (block_hash, tx_hash, i) c d)))))"

text \<open>\<^verbatim>\<open>sorted(logs, key=...)\<close> where the key may raise.\<close>

definition sort_logs :: "jdict list \<Rightarrow> lp_exn + jdict list" where
  "sort_logs ls =
     bindr (map_res (\<lambda>l. bindr (read_int (dget ''logIndex'' l) ''receipt log index'') (\<lambda>i. Inr (i, l))) ls) (\<lambda>ps.
       Inr (map snd (sort_key fst ps)))"

fun match_groups ::
  "string \<Rightarrow> string \<Rightarrow> (log_key, jdict list) odict \<Rightarrow> (log_key \<times> (trace_path \<times> modify_call) list) list \<Rightarrow>
   update_map \<Rightarrow> lp_exn + update_map" where
  "match_groups tx_hash block_hash receipts [] d = Inr d"
| "match_groups tx_hash block_hash receipts ((k, calls) # gs) d =
    (let group = od_get [] k receipts in
     bindr (ensure (length calls = length group)
         (ProtocolDecodeError ''ambiguous trace/receipt ModifyLiquidity correlation'')) (\<lambda>_.
     bindr (ensure (\<not> some_nested (map fst calls))
         (ProtocolDecodeError ''ambiguous nested duplicate ModifyLiquidity trace key'')) (\<lambda>_.
     bindr (sort_logs group) (\<lambda>logs.
     bindr (pair_calls tx_hash block_hash (zip (sort_key fst calls) logs) d) (\<lambda>d1.
       match_groups tx_hash block_hash receipts gs d1)))))"

definition trace_updates :: "eth_lib \<Rightarrow> jdict \<Rightarrow> jdict \<Rightarrow> lp_exn + update_map" where
  "trace_updates lib receipt trace =
     bindr (read_int (dget ''status'' receipt) ''receipt status'') (\<lambda>status.
       if status \<noteq> 1 then Inr []
       else
     bindr (read_hash (dget ''transactionHash'' receipt) ''receipt transaction hash'') (\<lambda>tx_hash.
     bindr (read_hash (dget ''blockHash'' receipt) ''receipt block hash'') (\<lambda>block_hash.
       case dget ''logs'' receipt of
         JArr logs \<Rightarrow>
           bindr (receipt_events lib logs []) (\<lambda>events.
           bindr (group_calls lib (walk_trace trace [] False) []) (\<lambda>calls.
             if events = [] \<and> calls = [] then Inr []
             else if calls = [] \<and> events \<noteq> []
             then bad_record ''trace omitted successful receipt modifyLiquidity calls''
             else
           bindr (match_groups tx_hash block_hash events calls []) (\<lambda>updates.
             if set (od_keys events) - set (od_keys calls) \<noteq> {}
             then bad_record ''receipt contains uncorrelated successful ModifyLiquidity event''
             else Inr updates)))
       | _ \<Rightarrow> bad_record ''receipt logs are unavailable for trace correlation'')))"

section \<open>Enriching the rows\<close>

definition delta_json :: "int \<Rightarrow> int \<Rightarrow> json" where
  "delta_json a b = JObj [(''amount0'', dec a), (''amount1'', dec b)]"

definition call_matches :: "lp_event \<Rightarrow> modify_call \<Rightarrow> lp_exn + bool" where
  "call_matches row c =
     bindr (the_int (le_liquidity_delta row)) (\<lambda>delta.
       case map_of (le_data row) ''salt'' of
         None \<Rightarrow> Inl (LpPy (KeyError ''salt''))
       | Some salt \<Rightarrow> Inr
          ((le_pool_id row, le_tick_lower row, le_tick_upper row, delta, salt) =
           (Some (mc_pool_id c), Some (mc_tick_lower c), Some (mc_tick_upper c), mc_liquidity_delta c, JStr (mc_salt c))))"

definition pool_key_json :: "modify_call \<Rightarrow> json" where
  "pool_key_json c =
     JObj [(''token0'', JStr (mc_token0 c)), (''token1'', JStr (mc_token1 c)),
       (''configured_fee'', JInt (mc_configured_fee c)), (''tick_spacing'', JInt (mc_tick_spacing c)),
       (''hook'', JStr (mc_hook c))]"

definition traced_pool :: "lp_event \<Rightarrow> modify_call \<Rightarrow> jdict" where
  "traced_pool row c =
     pool_record (mc_pool_id c) ''v4'' POOL_MANAGER (mc_token0 c) (mc_token1 c)
       (if dynamic_fee (mc_configured_fee c) then None else Some (mc_configured_fee c)) (Some (mc_tick_spacing c))
       (Some (mc_hook c)) POOL_MANAGER JNull ''PoolManager.modifyLiquidity trace''
       [(''configured_fee'', JInt (mc_configured_fee c)), (''dynamic_fee'', JBool (dynamic_fee (mc_configured_fee c))),
        (''observed_block'', JInt (le_block_number row))]"

definition traced_fields :: "modify_call \<Rightarrow> jdict" where
  "traced_fields c =
    [(''trace_complete'', JBool True),
     (''caller_delta'', delta_json (mc_caller_delta0 c) (mc_caller_delta1 c)),
     (''fees_accrued'', delta_json (mc_fees_accrued0 c) (mc_fees_accrued1 c)),
     (''fees_accrued_exact'', JBool True),
     (''fees_basis'', JStr ''modifyLiquidity_return_exact_but_donate_inflatable''),
     (''input0'', dec (max (- mc_caller_delta0 c) 0)), (''input1'', dec (max (- mc_caller_delta1 c) 0)),
     (''cashflow_basis'', JStr ''v4_modifyLiquidity_return''),
     (''configured_fee'', JInt (mc_configured_fee c)), (''tick_spacing'', JInt (mc_tick_spacing c)),
     (''hook'', JStr (mc_hook c)),
     (''principal_and_hook_delta'',
        delta_json (mc_caller_delta0 c - mc_fees_accrued0 c) (mc_caller_delta1 c - mc_fees_accrued1 c))]"

definition principal_fields :: "modify_call \<Rightarrow> jdict" where
  "principal_fields c =
    (if mc_hook c = ZERO_ADDRESS
     then [(''principal_delta'',
        delta_json (mc_caller_delta0 c - mc_fees_accrued0 c) (mc_caller_delta1 c - mc_fees_accrued1 c)),
       (''principal_delta_exact'', JBool True)]
     else [])"

definition enrich_row :: "pool_index \<Rightarrow> modify_call \<Rightarrow> lp_event \<Rightarrow> lp_event" where
  "enrich_row pools c row =
    (let known = (case le_pool_id row of None \<Rightarrow> False | Some p \<Rightarrow> map_of pools p \<noteq> None) in
     row\<lparr>le_cashflow0 := Some (mc_caller_delta0 c), le_cashflow1 := Some (mc_caller_delta1 c),
       le_fee_amount0 := Some (mc_fees_accrued0 c), le_fee_amount1 := Some (mc_fees_accrued1 c),
       le_accounting_basis := Some ''v4_modifyLiquidity_return'',
       le_data := dput (le_data row)
         (traced_fields c @ [(''pool_key'', pool_key_json c)] @
          (if known then [] else [(''pool'', JObj (traced_pool row c))]) @ principal_fields c)\<rparr>)"

fun enrich_rows :: "pool_index \<Rightarrow> update_map \<Rightarrow> nat list \<Rightarrow> lp_event list \<Rightarrow> lp_exn + lp_event list" where
  "enrich_rows pools updates [] rows = Inr rows"
| "enrich_rows pools updates (i # is) rows =
    (case map_of updates (event_identity (rows ! i)) of
       None \<Rightarrow> enrich_rows pools updates is rows
     | Some c \<Rightarrow>
         bindr (call_matches (rows ! i) c) (\<lambda>ok.
         bindr (ensure ok (ProtocolDecodeError ''immutable V4 row does not match trace enrichment'')) (\<lambda>_.
           enrich_rows pools updates is (rows[i := enrich_row pools c (rows ! i)]))))"

fun enrich_all ::
  "eth_lib \<Rightarrow> jdict \<Rightarrow> jdict \<Rightarrow> pool_index \<Rightarrow> (string \<times> nat list) list \<Rightarrow> lp_event list \<Rightarrow> lp_exn + lp_event list" where
  "enrich_all lib receipts traces pools [] rows = Inr rows"
| "enrich_all lib receipts traces pools ((h, tx) # txs) rows =
    (case (receipt_for receipts h, trace_for traces h) of
       (Some receipt, Some trace) \<Rightarrow>
         bindr (trace_updates lib receipt trace) (\<lambda>updates.
         bindr (enrich_rows pools updates tx rows) (enrich_all lib receipts traces pools txs))
     | _ \<Rightarrow> enrich_all lib receipts traces pools txs rows)"

definition enrich_v4_traces :: "eth_lib \<Rightarrow> jdict \<Rightarrow> jdict \<Rightarrow> pool_index \<Rightarrow> lp_event list \<Rightarrow> lp_exn + lp_event list" where
  "enrich_v4_traces lib receipts traces pools rows =
     enrich_all lib receipts traces pools
       (fold (\<lambda>i d. let row = rows ! i in
            if le_protocol row = Some ''v4'' \<and> le_liquidity_delta row \<noteq> None
            then od_append (le_tx_hash row) i d else d) [0 ..< length rows] []) rows"

end
