(* ===== verification/Lp_Decode.thy ===== *)
theory Lp_Decode
  imports Lp_Trace
begin

text \<open>
  \<^verbatim>\<open>decode_logs\<close> and \<^verbatim>\<open>decode_gas_record\<close> of \<^verbatim>\<open>src/rhpools/lp_market_protocols.py\<close>: the logs in
  chain order, the pools they create, one row per log, then the correlation with the managers and
  the traces.
\<close>

section \<open>Logs in order\<close>

definition is_subscribed :: "eth_lib \<Rightarrow> jdict \<Rightarrow> bool" where
  "is_subscribed lib l \<longleftrightarrow>
     \<not> truthy (dget ''removed'' l) \<and>
     (case log_topic0 l of None \<Rightarrow> False | Some t \<Rightarrow> t \<in> set (SUBSCRIBED_TOPICS lib))"

definition log_order :: "jdict \<Rightarrow> lp_exn + int \<times> int \<times> int" where
  "log_order l =
     bindr (read_int (dget ''blockNumber'' l) ''log blockNumber'') (\<lambda>b.
     bindr (read_int (dget ''transactionIndex'' l) ''log transactionIndex'') (\<lambda>t.
     bindr (read_int (dget ''logIndex'' l) ''log logIndex'') (\<lambda>i. Inr (b, t, i))))"

definition order_logs :: "eth_lib \<Rightarrow> json list \<Rightarrow> lp_exn + jdict list" where
  "order_logs lib logs =
     bindr (map_res (\<lambda>l. bindr (log_order l) (\<lambda>k. Inr (k, l)))
         (filter (is_subscribed lib) (List.map_filter obj_of logs))) (\<lambda>ps.
       Inr (map snd (sort_key fst ps)))"

section \<open>Creations\<close>

type_synonym creations = "(event_id, jdict) odict"

definition creation_identity :: "jdict \<Rightarrow> lp_exn + event_id" where
  "creation_identity l =
     bindr (read_hash (dget ''blockHash'' l) ''creation block hash'') (\<lambda>b.
     bindr (read_hash (dget ''transactionHash'' l) ''creation transaction hash'') (\<lambda>t.
     bindr (read_int (dget ''logIndex'' l) ''creation log index'') (\<lambda>i. Inr (b, t, i))))"

definition add_pool :: "jdict \<Rightarrow> pool_index \<Rightarrow> pool_index" where
  "add_pool pool d =
     od_set (lower (str_of (dget ''address'' pool))) pool (od_set (lower (str_of (dget ''id'' pool))) pool d)"

fun find_creations :: "eth_lib \<Rightarrow> jdict list \<Rightarrow> creations \<Rightarrow> pool_index \<Rightarrow> lp_exn + creations \<times> pool_index" where
  "find_creations lib [] c pools = Inr (c, pools)"
| "find_creations lib (l # ls) c pools =
    (case log_topic0 l of
       Some topic0 \<Rightarrow>
         if topic0 \<in> set (CREATION_TOPICS lib) then
           bindr (normalize_pool_creation lib l topic0) (\<lambda>created.
             case created of
               None \<Rightarrow> find_creations lib ls c pools
             | Some pool \<Rightarrow>
                 bindr (creation_identity l) (\<lambda>k.
                   find_creations lib ls (od_set k pool c) (add_pool pool pools)))
         else find_creations lib ls c pools
     | None \<Rightarrow> find_creations lib ls c pools)"

section \<open>Rows\<close>

text \<open>Events of the managers are only checked here; their values enrich the rows later.\<close>

definition check_auxiliary :: "eth_lib \<Rightarrow> string \<Rightarrow> jdict \<Rightarrow> lp_exn + unit" where
  "check_auxiliary lib topic0 l =
    (if topic0 = V4_MODIFY_POSITION_TOPIC lib then bindr (decode_v4_position_aux lib l) (\<lambda>_. Inr ())
     else bindr (decode_nfpm_aux lib l) (\<lambda>_. Inr ()))"

definition row_of :: "eth_lib \<Rightarrow> headers \<Rightarrow> creations \<Rightarrow> pool_index \<Rightarrow> jdict \<Rightarrow> lp_exn + lp_event option" where
  "row_of lib hs c pools l =
    (case log_topic0 l of
       Some topic0 \<Rightarrow>
         if topic0 \<in> set (AUXILIARY_TOPICS lib) then bindr (check_auxiliary lib topic0 l) (\<lambda>_. Inr None)
         else
           bindr (read_int (dget ''logIndex'' l) ''log index'') (\<lambda>i.
             case map_of c (lower (text_or_empty (dget ''blockHash'' l)),
                 lower (text_or_empty (dget ''transactionHash'' l)), i) of
               Some pool \<Rightarrow> bindr (creation_row l hs pool) (\<lambda>e. Inr (Some e))
             | None \<Rightarrow> decode_event lib l hs pools)
     | None \<Rightarrow> Inr None)"

definition decode_rows :: "eth_lib \<Rightarrow> headers \<Rightarrow> creations \<Rightarrow> pool_index \<Rightarrow> jdict list \<Rightarrow> lp_exn + lp_event list" where
  "decode_rows lib hs c pools ls =
     bindr (map_res (row_of lib hs c pools) ls) (\<lambda>rs. Inr (List.map_filter id rs))"

definition row_order :: "lp_event \<Rightarrow> int \<times> int \<times> int" where
  "row_order e = (le_block_number e, le_tx_index e, le_log_index e)"

definition decode_logs ::
  "eth_lib \<Rightarrow> json list \<Rightarrow> (string \<times> json) list \<Rightarrow> headers \<Rightarrow> jdict \<Rightarrow> jdict \<Rightarrow> lp_exn + lp_event list" where
  "decode_logs lib logs pools hs receipts traces =
     bindr (order_logs lib logs) (\<lambda>ls.
     bindr (find_creations lib ls [] (pool_map pools)) (\<lambda>(c, local_pools).
     bindr (decode_rows lib hs c local_pools ls) (\<lambda>rows.
     bindr (evidence_logs ls receipts) (\<lambda>evidence.
     bindr (correlate_manager_events lib hs evidence rows) (\<lambda>rows1.
     bindr (enrich_v4_traces lib receipts traces local_pools rows1) (\<lambda>rows2.
       Inr (sort_key row_order rows2)))))))"

section \<open>Emitters that need proof\<close>

definition unknown_pool_candidates :: "eth_lib \<Rightarrow> json list \<Rightarrow> (string \<times> json) list \<Rightarrow> address list" where
  "unknown_pool_candidates lib logs pools =
    (let known = pool_map pools in
     sorted_list_of_set (set (List.map_filter
       (\<lambda>v. case v of
          JObj l \<Rightarrow>
            if truthy (dget ''removed'' l) then None
            else (case log_topic0 l of
              Some t \<Rightarrow>
                if t \<in> set (V2_CORE_TOPICS lib) \<union> set (V3_CORE_TOPICS lib) then
                  (case find_address (dget ''address'' l) of
                     Some a \<Rightarrow> if map_of known a = None then Some a else None
                   | None \<Rightarrow> None)
                else None
            | None \<Rightarrow> None)
        | _ \<Rightarrow> None) logs)))"

section \<open>Gas\<close>

record gas_record =
  ga_tx_hash :: string
  ga_block_number :: int
  ga_block_hash :: string
  ga_payer :: address
  ga_gas_used :: int
  ga_gas_price :: int
  ga_gas_native :: int
  ga_status :: int
  ga_data :: jdict

definition gas_details :: "jdict \<Rightarrow> lp_exn + jdict" where
  "gas_details receipt =
     bindr (case dget ''gasUsedForL1'' receipt of
              JNull \<Rightarrow> Inr []
            | v \<Rightarrow> bindr (read_int v ''receipt gasUsedForL1'') (\<lambda>n. Inr [(''gas_used_for_l1'', dec n)])) (\<lambda>l1.
     bindr (case dget ''l1BlockNumber'' receipt of
              JNull \<Rightarrow> Inr []
            | v \<Rightarrow> bindr (read_int v ''receipt l1BlockNumber'') (\<lambda>n. Inr [(''l1_block_number'', JInt n)])) (\<lambda>l1_block.
       Inr (l1 @ l1_block)))"

definition decode_gas_record :: "jdict \<Rightarrow> jdict \<Rightarrow> lp_exn + gas_record" where
  "decode_gas_record receipt transaction =
    (let own_price = dget ''effectiveGasPrice'' receipt;
         price_value = (if own_price = JNull then dget ''gasPrice'' transaction else own_price);
         source = (if own_price = JNull then ''transaction.gasPrice'' else ''receipt.effectiveGasPrice'') in
     bindr (read_int (dget ''gasUsed'' receipt) ''receipt gasUsed'') (\<lambda>gas_used.
     bindr (read_int price_value ''effective gas price'') (\<lambda>gas_price.
     bindr (read_int (dget ''status'' receipt) ''receipt status'') (\<lambda>status.
     bindr (ensure (\<not> (gas_used < 0 \<or> gas_price < 0 \<or> status \<notin> {0, 1}))
         (ProtocolDecodeError ''invalid receipt gas/status'')) (\<lambda>_.
     bindr (case find_address (dget ''from'' receipt) of
              Some a \<Rightarrow> Inr a
            | None \<Rightarrow> read_address (dget ''from'' transaction) ''transaction payer'') (\<lambda>payer.
     bindr (gas_details receipt) (\<lambda>details.
     bindr (read_hash (dget ''transactionHash'' receipt) ''receipt transaction hash'') (\<lambda>tx_hash.
     bindr (read_int (dget ''blockNumber'' receipt) ''receipt block number'') (\<lambda>block_number.
     bindr (read_hash (dget ''blockHash'' receipt) ''receipt block hash'') (\<lambda>block_hash.
       Inr \<lparr>ga_tx_hash = tx_hash, ga_block_number = block_number, ga_block_hash = block_hash, ga_payer = payer,
         ga_gas_used = gas_used, ga_gas_price = gas_price, ga_gas_native = gas_used * gas_price, ga_status = status,
         ga_data = [(''gas_price_source'', JStr source),
           (''gas_semantics'', JStr ''nitro_gasUsed_times_effectiveGasPrice_includes_total_receipt_charge''),
           (''l1_gas_not_added_twice'', JBool True)] @ details\<rparr>))))))))))"

end
