(* ===== verification/Lp_Rows.thy ===== *)
theory Lp_Rows
  imports Lp_Decode "HOL-Library.Multiset"
begin

text \<open>
  What decoding guarantees: one row per log at most, in chain order, under the header of its block;
  and the part of a row that the correlation with managers and traces never writes.
\<close>

section \<open>The place of a row\<close>

definition event_meta :: "lp_event \<Rightarrow> int \<times> string \<times> string \<times> int \<times> int \<times> int" where
  "event_meta e =
     (le_block_number e, le_block_hash e, le_tx_hash e, le_tx_index e, le_log_index e, le_timestamp e)"

named_theorems meta_rules "decoders keep the place of the row"

lemma v2_meta [meta_rules]:
  "v2_swap row l topics = Inr e \<Longrightarrow> event_meta e = event_meta row"
  "v2_mint row l topics = Inr e \<Longrightarrow> event_meta e = event_meta row"
  "v2_burn row l topics = Inr e \<Longrightarrow> event_meta e = event_meta row"
  "v2_sync row l topics = Inr e \<Longrightarrow> event_meta e = event_meta row"
  unfolding v2_swap_def v2_mint_def v2_burn_def v2_sync_def
  by (elim bindr_InrE; auto simp: event_meta_def)+

lemma v3_meta [meta_rules]:
  "v3_initialize row l topics = Inr e \<Longrightarrow> event_meta e = event_meta row"
  "v3_swap topic0 row l topics = Inr e \<Longrightarrow> event_meta e = event_meta row"
  "v3_mint lib row l topics = Inr e \<Longrightarrow> event_meta e = event_meta row"
  "v3_burn lib row l topics = Inr e \<Longrightarrow> event_meta e = event_meta row"
  "v3_collect lib row l topics = Inr e \<Longrightarrow> event_meta e = event_meta row"
  "v3_flash row l topics = Inr e \<Longrightarrow> event_meta e = event_meta row"
  "v3_set_fee lib topic0 pool row l topics = Inr e \<Longrightarrow> event_meta e = event_meta row"
  "v3_collect_protocol row l topics = Inr e \<Longrightarrow> event_meta e = event_meta row"
  unfolding v3_initialize_def v3_swap_def v3_mint_def v3_burn_def v3_collect_def v3_flash_def v3_set_fee_def
    v3_collect_protocol_def Let_def
  by (elim bindr_InrE; auto simp: event_meta_def)+

lemma v4_meta [meta_rules]:
  "v4_fee_controller row l topics = Inr e \<Longrightarrow> event_meta e = event_meta row"
  "v4_swap row l topics = Inr e \<Longrightarrow> event_meta e = event_meta row"
  "v4_modify_liquidity lib pool_id row l topics = Inr e \<Longrightarrow> event_meta e = event_meta row"
  "v4_donate row l topics = Inr e \<Longrightarrow> event_meta e = event_meta row"
  "v4_protocol_fee row l topics = Inr e \<Longrightarrow> event_meta e = event_meta row"
  unfolding v4_fee_controller_def v4_swap_def v4_modify_liquidity_def v4_donate_def v4_protocol_fee_def
  by (elim bindr_InrE; auto simp: event_meta_def)+

lemma event_meta_update [simp]:
  "event_meta (e\<lparr>le_pool_id := p\<rparr>) = event_meta e" "event_meta (e\<lparr>le_protocol := q\<rparr>) = event_meta e"
  "event_meta (e\<lparr>le_fee_ppm := f\<rparr>) = event_meta e"
  by (simp_all add: event_meta_def)

lemma v2_event_meta: "v2_event lib t row l topics = Inr e \<Longrightarrow> event_meta e = event_meta row"
  unfolding v2_event_def by (auto split: if_splits dest: meta_rules)

lemma v3_event_meta: "v3_event lib t pool row l topics = Inr e \<Longrightarrow> event_meta e = event_meta row"
  unfolding v3_event_def by (auto split: if_splits dest: meta_rules)

lemma v4_event_meta: "v4_event lib t row l topics = Inr e \<Longrightarrow> event_meta e = event_meta row"
  unfolding v4_event_def by (auto simp: Let_def split: if_splits elim!: bindr_InrE dest!: meta_rules)

lemma creation_row_meta: "creation_row l hs pool = Inr e \<Longrightarrow> \<exists>b. event_base l hs = Inr b \<and> event_meta e = event_meta b"
  unfolding creation_row_def by (auto simp: event_meta_def elim!: bindr_InrE)

lemma decode_transfer_meta:
  "decode_transfer l hs = Inr (Some e) \<Longrightarrow> \<exists>b. event_base l hs = Inr b \<and> event_meta e = event_meta b"
  unfolding decode_transfer_def
  by (auto split: option.splits elim!: bindr_InrE) (auto simp: event_meta_def)

lemma decode_pool_event_meta:
  "decode_pool_event lib t l hs pools = Inr (Some e) \<Longrightarrow> \<exists>b. event_base l hs = Inr b \<and> event_meta e = event_meta b"
  unfolding decode_pool_event_def
  by (auto simp: Let_def split: option.splits if_splits elim!: bindr_InrE
      dest!: v2_event_meta v3_event_meta v4_event_meta)

lemma decode_event_meta:
  "decode_event lib l hs pools = Inr (Some e) \<Longrightarrow> \<exists>b. event_base l hs = Inr b \<and> event_meta e = event_meta b"
  unfolding decode_event_def
  by (auto split: option.splits if_splits elim!: bindr_InrE
      dest: decode_transfer_meta creation_row_meta decode_pool_event_meta)

lemma row_of_meta:
  "row_of lib hs c pools l = Inr (Some e) \<Longrightarrow> \<exists>b. event_base l hs = Inr b \<and> event_meta e = event_meta b"
  unfolding row_of_def
  by (auto split: option.splits if_splits elim!: bindr_InrE dest: creation_row_meta decode_event_meta)

section \<open>Views of a row that steps keep\<close>

text \<open>
  The correlation changes rows one field at a time. A view of a row that the single changes keep is
  kept by whole steps: once by the steps that repair and complete rows, once also by the attribution
  of tokens, once by the enrichment with traces.
\<close>

locale row_view =
  fixes view :: "lp_event \<Rightarrow> 'a"
  assumes view_mark: "view (mark_ambiguous m n row) = view row"
    and view_repair: "view (apply_repair repairs row) = view row"
    and view_basis: "view (default_basis row) = view row"
    and view_operator: "view (with_operator a row) = view row"
    and view_action: "le_protocol row = Some ''nft'' \<Longrightarrow> view (with_action action row) = view row"
begin

lemma update: "view y = view (rows ! i) \<Longrightarrow> map view (rows[i := y]) = map view rows"
  by (cases "i < length rows") (metis list_update_id map_update nth_map, simp add: list_update_beyond)

lemma folded:
  "(\<And>x rows. x \<in> set xs \<Longrightarrow> map view (f x rows) = map view rows) \<Longrightarrow> map view (fold f xs rows) = map view rows"
  by (induction xs arbitrary: rows) auto

lemma change_rows_view:
  "(\<And>row. view (f row) = view row) \<Longrightarrow> map view (change_rows is f rows) = map view rows"
  unfolding change_rows_def by (intro folded update) simp

lemma marked_view:
  "map view (fold (\<lambda>i rows. rows[i := mark_ambiguous m n (rows ! i)]) is rows) = map view rows"
  by (intro folded update) (rule view_mark)

lemma repair_transaction_view:
  "repair_transaction lib hs logs tx cores rows = Inr rows' \<Longrightarrow> map view rows' = map view rows"
  unfolding repair_transaction_def
  by (auto simp: Let_def change_rows_view view_repair view_basis split: if_splits elim!: bindr_InrE)

lemma match_operators_view: "match_operators cores gs rows = Inr rows' \<Longrightarrow> map view rows' = map view rows"
proof (induction gs arbitrary: rows)
  case (Cons g gs)
  obtain k a where g: "g = (k, a)" by (cases g)
  have "map view (fold (\<lambda>(i, a) rows. rows[i := with_operator a (rows ! i)]) ps rows) = map view rows" for ps
    by (intro folded) (auto intro!: update simp: view_operator)
  with Cons show ?case by (fastforce simp: g Let_def split: if_splits)
qed simp

lemma enrich_transfers_view: "map view (enrich_transfers tx rows) = map view rows"
  unfolding enrich_transfers_def Let_def
  by (intro folded) (auto split: option.split intro!: update view_action)

end

locale attributed_view = row_view +
  assumes view_attribute: "attribute_token lib logs row a = Inr r \<Longrightarrow> view r = view row"
begin

lemma attribute_rows_view: "attribute_rows lib logs ps rows = Inr rows' \<Longrightarrow> map view rows' = map view rows"
proof (induction ps arbitrary: rows)
  case (Cons p ps)
  obtain i a where p: "p = (i, a)" by (cases p)
  from Cons.prems [unfolded p] obtain r where r: "attribute_token lib logs (rows ! i) a = Inr r"
    and rest: "attribute_rows lib logs ps (rows[i := r]) = Inr rows'" by (auto elim: bindr_InrE)
  from Cons.IH [OF rest] update [OF view_attribute [OF r]] show ?case by simp
qed simp

lemma correlate_group_view:
  "correlate_group lib logs cores key auxs rows = Inr rows' \<Longrightarrow> map view rows' = map view rows"
  unfolding correlate_group_def Let_def
  by (auto split: if_splits dest: attribute_rows_view simp: marked_view)

lemma correlate_groups_view:
  "correlate_groups lib logs cores gs rows = Inr rows' \<Longrightarrow> map view rows' = map view rows"
  by (induction lib logs cores gs rows rule: correlate_groups.induct) (auto elim!: bindr_InrE dest!: correlate_group_view)

lemma correlate_transaction_view:
  "correlate_transaction lib hs logs tx rows = Inr rows' \<Longrightarrow> map view rows' = map view rows"
  unfolding correlate_transaction_def
  by (auto simp: enrich_transfers_view elim!: bindr_InrE
      dest!: correlate_groups_view repair_transaction_view match_operators_view)

lemma correlate_manager_events_view:
  "correlate_manager_events lib hs evidence rows = Inr rows' \<Longrightarrow> map view rows' = map view rows"
proof -
  have "correlate_all lib hs evidence txs rows = Inr rows' \<Longrightarrow> map view rows' = map view rows" for txs rows
    by (induction lib hs evidence txs rows rule: correlate_all.induct)
      (auto elim!: bindr_InrE dest!: correlate_transaction_view)
  then show "correlate_manager_events lib hs evidence rows = Inr rows' \<Longrightarrow> ?thesis"
    unfolding correlate_manager_events_def by blast
qed

end

locale traced_view = row_view +
  assumes view_enrich: "view (enrich_row pools c row) = view row"
begin

lemma enrich_rows_view: "enrich_rows pools updates is rows = Inr rows' \<Longrightarrow> map view rows' = map view rows"
proof (induction "is" arbitrary: rows)
  case (Cons i "is")
  have "map view (rows[i := enrich_row pools c (rows ! i)]) = map view rows" for c
    by (rule update) (rule view_enrich)
  with Cons show ?case by (auto split: option.splits elim!: bindr_InrE)
qed simp

lemma enrich_v4_traces_view:
  "enrich_v4_traces lib receipts traces pools rows = Inr rows' \<Longrightarrow> map view rows' = map view rows"
proof -
  have "enrich_all lib receipts traces pools txs rows = Inr rows' \<Longrightarrow> map view rows' = map view rows" for txs rows
    by (induction lib receipts traces pools txs rows rule: enrich_all.induct)
      (auto split: option.splits elim!: bindr_InrE dest!: enrich_rows_view)
  then show "enrich_v4_traces lib receipts traces pools rows = Inr rows' \<Longrightarrow> ?thesis"
    unfolding enrich_v4_traces_def by blast
qed

end

section \<open>What correlation leaves alone\<close>

text \<open>
  The part of a row that no step of the correlation ever writes, whatever the row is. Of a row of a
  pool this includes the pool and the range; a transfer takes these from the action on its token.
\<close>

definition core_of :: "lp_event \<Rightarrow> lp_event" where
  "core_of e =
    (let moved = (le_protocol e = Some ''nft'') in
     e\<lparr>le_pool_id := (if moved then None else le_pool_id e),
       le_tick_lower := (if moved then None else le_tick_lower e),
       le_tick_upper := (if moved then None else le_tick_upper e),
       le_owner := None, le_position_key := None, le_token_id := None,
       le_fee_amount0 := None, le_fee_amount1 := None, le_cashflow0 := None, le_cashflow1 := None,
       le_accounting_basis := None, le_identity_basis := None, le_data := []\<rparr>)"

lemma core_steps:
  "core_of (mark_ambiguous m n row) = core_of row" "core_of (apply_repair repairs row) = core_of row"
  "core_of (default_basis row) = core_of row" "core_of (with_operator a row) = core_of row"
  "core_of (enrich_row pools c row) = core_of row"
  "le_protocol row = Some ''nft'' \<Longrightarrow> core_of (with_action b row) = core_of row"
  by (auto simp: core_of_def mark_ambiguous_def apply_repair_def default_basis_def
      with_operator_def enrich_row_def with_action_def Let_def split: option.split)

lemma attribute_token_core: "attribute_token lib logs row a = Inr r \<Longrightarrow> core_of r = core_of row"
  unfolding attribute_token_def by (auto simp: core_of_def Let_def elim!: bindr_InrE)

interpretation core: attributed_view core_of
  by unfold_locales (simp_all add: core_steps attribute_token_core)

interpretation core: traced_view core_of
  by unfold_locales (simp_all add: core_steps)

lemma core_meta: "core_of e = core_of e' \<Longrightarrow> event_meta e = event_meta e'"
proof -
  assume "core_of e = core_of e'"
  then have "event_meta (core_of e) = event_meta (core_of e')" by simp
  then show ?thesis by (simp add: core_of_def event_meta_def Let_def)
qed

section \<open>The rows of a batch of logs\<close>

lemma length_map_filter: "length (List.map_filter f xs) \<le> length xs"
  by (induction xs) (auto simp: map_filter_simps split: option.split)

lemma map_filter_member: "y \<in> set (List.map_filter f xs) \<longleftrightarrow> (\<exists>x \<in> set xs. f x = Some y)"
  by (induction xs) (auto simp: map_filter_simps split: option.split)

lemma map_res_length: "map_res f xs = Inr ys \<Longrightarrow> length ys = length xs"
  by (simp add: map_res_eq_Inr list_all2_lengthD)

lemma order_logs_member:
  assumes "order_logs lib logs = Inr ls"
  shows "length ls \<le> length logs" and "l \<in> set ls \<Longrightarrow> JObj l \<in> set logs \<and> is_subscribed lib l"
proof -
  let ?own = "filter (is_subscribed lib) (List.map_filter obj_of logs)"
  obtain ps where ps: "map_res (\<lambda>l. bindr (log_order l) (\<lambda>k. Inr (k, l))) ?own = Inr ps"
    and ls: "ls = map snd (sort_key fst ps)"
    using assms unfolding order_logs_def by (auto elim!: bindr_InrE)
  have "length ps \<le> length logs"
    using map_res_length [OF ps] length_filter_le [of "is_subscribed lib" "List.map_filter obj_of logs"]
      length_map_filter [of obj_of logs] by linarith
  then show "length ls \<le> length logs" by (simp add: ls)
  assume "l \<in> set ls"
  then obtain k where "(k, l) \<in> set ps" by (auto simp: ls)
  from map_res_member [OF ps this] have "l \<in> set ?own" by (auto elim!: bindr_InrE)
  moreover have "obj_of v = Some l \<Longrightarrow> v = JObj l" for v by (cases v) auto
  ultimately show "JObj l \<in> set logs \<and> is_subscribed lib l" by (auto simp: map_filter_member)
qed

lemma decode_rows_member:
  assumes "decode_rows lib hs c pools ls = Inr rows"
  shows "length rows \<le> length ls"
    and "e \<in> set rows \<Longrightarrow> \<exists>l \<in> set ls. row_of lib hs c pools l = Inr (Some e)"
proof -
  obtain rs where rs: "map_res (row_of lib hs c pools) ls = Inr rs" and rows: "rows = List.map_filter id rs"
    using assms unfolding decode_rows_def by (auto elim!: bindr_InrE)
  show "length rows \<le> length ls" using map_res_length [OF rs] length_map_filter [of id rs] by (simp add: rows)
  assume "e \<in> set rows"
  then have "Some e \<in> set rs" by (auto simp: rows map_filter_member)
  from map_res_member [OF rs this] show "\<exists>l \<in> set ls. row_of lib hs c pools l = Inr (Some e)" by blast
qed

lemma decode_logs_steps:
  assumes "decode_logs lib logs pools hs receipts traces = Inr rows"
  obtains ls c local rows0 where "order_logs lib logs = Inr ls"
    and "find_creations lib ls [] (pool_map pools) = Inr (c, local)"
    and "decode_rows lib hs c local ls = Inr rows0"
    and "mset (map core_of rows) = mset (map core_of rows0)" and "sorted (map row_order rows)"
    and "\<exists>ev rows1 rows2. correlate_manager_events lib hs ev rows0 = Inr rows1 \<and>
      enrich_v4_traces lib receipts traces local rows1 = Inr rows2 \<and> mset rows = mset rows2"
proof -
  from assms obtain ls c local rows0 ev rows1 rows2 where s: "order_logs lib logs = Inr ls"
    "find_creations lib ls [] (pool_map pools) = Inr (c, local)" "decode_rows lib hs c local ls = Inr rows0"
    and m: "correlate_manager_events lib hs ev rows0 = Inr rows1"
    and t: "enrich_v4_traces lib receipts traces local rows1 = Inr rows2" and rows: "rows = sort_key row_order rows2"
    unfolding decode_logs_def by (auto elim!: bindr_InrE)
  have "map core_of rows2 = map core_of rows0"
    using core.correlate_manager_events_view [OF m] core.enrich_v4_traces_view [OF t] by simp
  then have "image_mset core_of (mset rows2) = mset (map core_of rows0)" by (metis mset_map)
  then have "mset (map core_of rows) = mset (map core_of rows0)" by (simp add: rows)
  moreover have "mset rows = mset rows2" by (simp add: rows)
  ultimately show ?thesis using that [OF s] m t rows by auto
qed

lemma core_member:
  assumes "mset (map core_of rows) = mset (map core_of rows0)" and "e \<in> set rows"
  shows "\<exists>e0 \<in> set rows0. core_of e0 = core_of e"
proof -
  have "set (map core_of rows) = set (map core_of rows0)" using assms(1) by (rule mset_eq_setD)
  with assms(2) show ?thesis by (metis (no_types, lifting) image_iff image_eqI set_map)
qed

end
