(* ===== verification/Lp_Owners.thy ===== *)
theory Lp_Owners
  imports Lp_Rows
begin

text \<open>
  Whom a row is attributed to: the owner of a V4 position is proven by a transfer of its token in
  the same transaction, and a V3 row gets a token only from an event of its manager with the same
  amounts.
\<close>

section \<open>The transfers of a transaction\<close>

definition noted :: "lp_event list \<Rightarrow> string \<times> int \<Rightarrow> int \<Rightarrow> endpoints \<Rightarrow> bool" where
  "noted rows k i ends \<longleftrightarrow>
     (\<exists>t \<in> set rows. is_manager_transfer t \<and> transfer_endpoints t = Inr (snd k, ends) \<and>
        lower (le_tx_hash t) = fst k \<and> le_log_index t = i)"

definition transfers_ok :: "transfer_map \<Rightarrow> lp_event list \<Rightarrow> bool" where
  "transfers_ok d rows \<longleftrightarrow>
     (\<forall>k. od_ok (od_get [] k d) \<and> (\<forall>i ends. map_of (od_get [] k d) i = Some ends \<longleftrightarrow> noted rows k i ends))"

lemma transfers_okD:
  assumes "transfers_ok d rows"
  shows "od_ok (od_get [] k d)" and "map_of (od_get [] k d) i = Some ends \<longleftrightarrow> noted rows k i ends"
  using assms unfolding transfers_ok_def by blast+

lemma od_get_set: "od_get d0 k (od_set k' v d) = (if k = k' then v else od_get d0 k d)"
  by (simp add: od_get_def dict_simps)

lemma read_hash_Inr: "read_hash v name = Inr h \<longleftrightarrow> h = text_of v \<and> is_hash h"
  by (auto simp: read_hash_def)

lemma note_transfer_ok:
  assumes "note_transfer t d = Inr d'" and "is_manager_transfer t" and "transfers_ok d rows"
  shows "transfers_ok d' (rows @ [t])"
proof -
  obtain token_id ends where te: "transfer_endpoints t = Inr (token_id, ends)"
    and rest: "bindr (read_hash (JStr (le_tx_hash t)) ''V4 transfer transaction'') (\<lambda>tx_hash.
       let own = od_get [] (tx_hash, token_id) d in
       case map_of own (le_log_index t) of
         Some old \<Rightarrow>
           if old \<noteq> ends then bad_record ''conflicting normalized V4 manager transfers''
           else Inr (od_set (tx_hash, token_id) (od_set (le_log_index t) ends own) d)
       | None \<Rightarrow> Inr (od_set (tx_hash, token_id) (od_set (le_log_index t) ends own) d)) = Inr d'"
    using assms(1) unfolding note_transfer_def by (auto elim!: bindr_InrE)
  define k where "k = (lower (le_tx_hash t), token_id)"
  have d': "d' = od_set k (od_set (le_log_index t) ends (od_get [] k d)) d"
    and old: "map_of (od_get [] k d) (le_log_index t) \<in> {None, Some ends}"
    using rest by (auto simp: k_def Let_def read_hash_Inr text_of_def elim!: bindr_InrE split: option.splits if_splits)
  have new: "noted (rows @ [t]) k' i e \<longleftrightarrow> noted rows k' i e \<or> (k' = k \<and> i = le_log_index t \<and> e = ends)" for k' i e
    using assms(2) te by (cases k') (auto simp: noted_def k_def)
  have "od_ok (od_get [] k' d') \<and> (map_of (od_get [] k' d') i = Some e \<longleftrightarrow> noted (rows @ [t]) k' i e)" for k' i e
    using transfers_okD(1) [OF assms(3), of k'] transfers_okD(2) [OF assms(3), of k' i e]
      transfers_okD(2) [OF assms(3), of k "le_log_index t" e] old
    by (cases "k' = k"; cases "i = le_log_index t") (auto simp: d' od_get_set new dict_simps)
  then show ?thesis unfolding transfers_ok_def by blast
qed

lemma note_transfers_ok:
  "note_transfers rows d = Inr d' \<Longrightarrow> transfers_ok d seen \<Longrightarrow> transfers_ok d' (seen @ rows)"
proof (induction rows arbitrary: d seen)
  case (Cons t rows)
  show ?case
  proof (cases "is_manager_transfer t")
    case True
    with Cons.prems obtain d1 where d1: "note_transfer t d = Inr d1" "note_transfers rows d1 = Inr d'"
      by (auto elim!: bindr_InrE)
    from Cons.IH [OF d1(2) note_transfer_ok [OF d1(1) True Cons.prems(2)]] show ?thesis by simp
  next
    case False
    then have "transfers_ok d (seen @ [t])" using Cons.prems(2) by (auto simp: transfers_ok_def noted_def)
    with False Cons.IH [of d "seen @ [t]"] Cons.prems(1) show ?thesis by simp
  qed
qed simp

section \<open>The owner at the action\<close>

text \<open>\<open>t\<close> decides the owner at an action: the last transfer not behind it, or else the first.\<close>

definition decides :: "(int \<times> endpoints) list \<Rightarrow> int \<Rightarrow> int \<times> endpoints \<Rightarrow> bool" where
  "decides ts action t \<longleftrightarrow> t \<in> set ts \<and>
     (if fst t \<le> action then \<forall>t' \<in> set ts. fst t' \<le> action \<longrightarrow> fst t' \<le> fst t
      else \<forall>t' \<in> set ts. action < fst t' \<and> fst t \<le> fst t')"

fun owner_by :: "int \<Rightarrow> int \<times> endpoints \<Rightarrow> address" where
  "owner_by action (i, prior, new) =
     (if i \<le> action then if new \<noteq> ZERO_ADDRESS then new else prior
      else if prior = ZERO_ADDRESS then new else prior)"

lemma sorted_last_max: "sorted (map f xs) \<Longrightarrow> xs \<noteq> [] \<Longrightarrow> x \<in> set xs \<Longrightarrow> f x \<le> f (last xs)"
  by (induction xs) auto

lemma owner_at_decides:
  assumes "sorted (map fst ts)" and "ts \<noteq> []"
  shows "\<exists>t. decides ts action t \<and> fst (owner_at ts action) = owner_by action t"
proof (cases "filter (\<lambda>t. fst t \<le> action) ts")
  case Nil
  obtain i prior new rest where ts: "ts = (i, prior, new) # rest" using assms(2) by (metis neq_Nil_conv prod_cases3)
  have after: "action < fst t" if "t \<in> set ts" for t using Nil that by (auto simp: filter_empty_conv)
  moreover have "i \<le> fst t" if "t \<in> set ts" for t using assms(1) that by (auto simp: ts)
  ultimately have "decides ts action (i, prior, new)" by (fastforce simp: decides_def ts)
  moreover have "fst (owner_at ts action) = owner_by action (i, prior, new)"
    using Nil after [of "(i, prior, new)"] by (simp add: owner_at_def ts)
  ultimately show ?thesis by blast
next
  case (Cons u us)
  define b where "b = filter (\<lambda>t. fst t \<le> action) ts"
  have b: "b \<noteq> []" "set b = {t \<in> set ts. fst t \<le> action}" using Cons by (simp add: b_def) (simp add: b_def)
  then have mem: "last b \<in> set ts" "fst (last b) \<le> action" using last_in_set [OF b(1)] by auto
  have "sorted (map fst b)" using assms(1) by (simp add: b_def sorted_filter)
  then have "fst t' \<le> fst (last b)" if "t' \<in> set ts" "fst t' \<le> action" for t'
    using sorted_last_max [of fst b t'] b that by blast
  then have "decides ts action (last b)" using mem by (simp add: decides_def)
  moreover have "fst (owner_at ts action) = owner_by action (last b)"
    using mem(2) b(1) unfolding owner_at_def b_def by (cases "last b"; cases b) (auto simp: b_def split: list.split)
  ultimately show ?thesis by blast
qed

lemma repair_rows_member:
  assumes "repair_rows d rows = Inr rs" and "r \<in> set rs"
  shows "\<exists>e \<in> set rows. is_manager_core e \<and> repair_row d e = Inr (Some r)"
  using assms
proof (induction rows arbitrary: rs)
  case (Cons e rows)
  then show ?case
    by (cases "is_manager_core e") (auto elim!: bindr_InrE split: option.splits)
qed simp

lemma repair_row_cases:
  assumes "repair_row d e = Inr (Some r)"
  obtains token_id owner basis where "le_token_id e = Some token_id" and
    "od_get [] (lower (le_tx_hash e), token_id) d \<noteq> []" and
    "owner_at (sort_key fst (od_get [] (lower (le_tx_hash e), token_id) d)) (le_log_index e) = (owner, basis)" and
    "owner \<noteq> ZERO_ADDRESS" and "r = with_owner e owner basis"
proof -
  have t: "int_given n name = Inr m \<Longrightarrow> n = Some m" for n name m
    by (cases n) (auto simp: int_given_def read_int_def jint_def)
  from assms obtain token_id where id: "le_token_id e = Some token_id"
    and rest: "(let candidates = sort_key fst (od_get [] (lower (le_tx_hash e), token_id) d) in
       if candidates = [] then Inr None
       else
         (case owner_at candidates (le_log_index e) of (owner, basis) \<Rightarrow>
           if owner = ZERO_ADDRESS then bad_record ''V4 manager transfer cannot prove a zero owner''
           else if le_owner e = Some owner \<and> le_identity_basis e = Some basis \<and>
                dget ''identity_basis'' (le_data e) = JStr basis
           then Inr None
           else Inr (Some (with_owner e owner basis)))) = Inr (Some r)"
    unfolding repair_row_def by (auto simp: read_hash_Inr text_of_def elim!: bindr_InrE dest!: t)
  obtain owner basis where o1:
    "owner_at (sort_key fst (od_get [] (lower (le_tx_hash e), token_id) d)) (le_log_index e) = (owner, basis)"
    by (metis surj_pair)
  with rest have "od_get [] (lower (le_tx_hash e), token_id) d \<noteq> [] \<and> owner \<noteq> ZERO_ADDRESS \<and> r = with_owner e owner basis"
    by (auto simp: Let_def split: if_splits)
  with id o1 that show ?thesis by blast
qed

text \<open>
  C27. A repaired row is a row of the V4 position manager with another owner, basis and nothing else.
  The owner is never the zero address and is an end of a transfer of the same token in the same
  transaction: the last one not behind the row, whose receiver owns the position (its sender, where
  the token was burned), or, where all of them are behind it, the first one, whose sender did.
\<close>

theorem repair_v4_owners_proved:
  assumes "repair_v4_owners events = Inr rs" and "r \<in> set rs"
  shows "\<exists>e \<in> set events. \<exists>token owner basis ts t. is_manager_core e \<and> le_token_id e = Some token \<and>
    r = with_owner e owner basis \<and> owner \<noteq> ZERO_ADDRESS \<and>
    (\<forall>i ends. (i, ends) \<in> set ts \<longleftrightarrow> noted events (lower (le_tx_hash e), token) i ends) \<and>
    decides ts (le_log_index e) t \<and> owner = owner_by (le_log_index e) t"
proof -
  obtain d where d: "note_transfers events [] = Inr d" "repair_rows d events = Inr rs"
    using assms(1) unfolding repair_v4_owners_def by (auto elim!: bindr_InrE)
  have "transfers_ok [] []" by (simp add: transfers_ok_def od_get_def noted_def)
  from note_transfers_ok [OF d(1) this] have ok: "transfers_ok d events" by simp
  obtain e where e: "e \<in> set events" "is_manager_core e" "repair_row d e = Inr (Some r)"
    using repair_rows_member [OF d(2) assms(2)] by blast
  obtain token_id owner basis where t: "le_token_id e = Some token_id"
    and ne: "od_get [] (lower (le_tx_hash e), token_id) d \<noteq> []"
    and o1: "owner_at (sort_key fst (od_get [] (lower (le_tx_hash e), token_id) d)) (le_log_index e) = (owner, basis)"
    and r: "owner \<noteq> ZERO_ADDRESS" "r = with_owner e owner basis"
    using repair_row_cases [OF e(3)] .
  define ts where "ts = sort_key fst (od_get [] (lower (le_tx_hash e), token_id) d)"
  have "od_ok (od_get [] (lower (le_tx_hash e), token_id) d)" using ok by (rule transfers_okD)
  then have "(i, ends) \<in> set ts \<longleftrightarrow> map_of (od_get [] (lower (le_tx_hash e), token_id) d) i = Some ends" for i ends
    by (simp add: ts_def od_ok_def od_keys_def)
  then have ts: "(i, ends) \<in> set ts \<longleftrightarrow> noted events (lower (le_tx_hash e), token_id) i ends" for i ends
    using transfers_okD(2) [OF ok] by simp
  have "sorted (map fst ts)" by (simp add: ts_def)
  moreover have "ts \<noteq> []" using ne by (metis ts_def set_empty set_sort)
  ultimately obtain u where "decides ts (le_log_index e) u" "owner = owner_by (le_log_index e) u"
    using owner_at_decides [of ts "le_log_index e"] o1 by (auto simp: ts_def)
  with e r t ts show ?thesis by blast
qed

section \<open>Groups\<close>

definition grouped :: "('k \<Rightarrow> 'v \<Rightarrow> bool) \<Rightarrow> ('k, 'v list) odict \<Rightarrow> bool" where
  "grouped P d \<longleftrightarrow> od_ok d \<and> (\<forall>k. \<forall>v \<in> set (od_get [] k d). P k v)"

lemma grouped_append: "grouped P d \<Longrightarrow> P k v \<Longrightarrow> grouped P (od_append k v d)"
  by (auto simp: grouped_def od_append_def od_get_set)

lemma grouped_Nil [simp]: "grouped P []"
  by (simp add: grouped_def od_get_def)

lemma groupedD: "grouped P d \<Longrightarrow> v \<in> set (od_get [] k d) \<Longrightarrow> P k v"
  unfolding grouped_def by blast

lemma grouped_member: "grouped P d \<Longrightarrow> (k, vs) \<in> set d \<Longrightarrow> v \<in> set vs \<Longrightarrow> P k v"
  by (auto simp: grouped_def od_get_def od_ok_def od_keys_def dest!: map_of_is_SomeI)

lemma group_aux_grouped: "grouped (\<lambda>k a. key a = k \<and> a \<in> set xs) (group_aux key xs)"
proof -
  have "grouped (\<lambda>k a. key a = k \<and> a \<in> S) d \<Longrightarrow> set ys \<subseteq> S \<Longrightarrow>
      grouped (\<lambda>k a. key a = k \<and> a \<in> S) (fold (\<lambda>x d. od_append (key x) x d) ys d)" for ys d S
    by (induction ys arbitrary: d) (auto intro: grouped_append)
  from this [OF grouped_Nil, of xs "set xs"] show ?thesis by (simp add: group_aux_def)
qed

lemma group_rows_grouped:
  "group_rows keep key ps d = Inr d' \<Longrightarrow> grouped P d \<Longrightarrow>
   (\<And>i row k. (i, row) \<in> set ps \<Longrightarrow> keep row \<Longrightarrow> key row = Inr k \<Longrightarrow> P k i) \<Longrightarrow> grouped P d'"
proof (induction keep key ps d rule: group_rows.induct)
  case (2 keep key i row rows d)
  then show ?case by (fastforce elim!: bindr_InrE split: if_splits intro: grouped_append)
qed simp

lemma rows_by_tx_grouped: "grouped (\<lambda>h i. i < length rows \<and> le_tx_hash (rows ! i) = h) (rows_by_tx rows)"
proof -
  have g: "grouped P d \<Longrightarrow> (\<And>i. i \<in> set is \<Longrightarrow> P (le_tx_hash (rows ! i)) i) \<Longrightarrow>
      grouped P (fold (\<lambda>i d. od_append (le_tx_hash (rows ! i)) i d) is d)" for "is" d P
    by (induction "is" arbitrary: d) (auto intro: grouped_append)
  show ?thesis unfolding rows_by_tx_def by (rule g) auto
qed

section \<open>Tokens of V3 rows\<close>

text \<open>What a V3 row is attributed by, and that an event of its manager backs it.\<close>

definition attribution :: "lp_event \<Rightarrow> lp_event \<times> int option" where
  "attribution e = (core_of e, if le_protocol e = Some ''v3'' then le_token_id e else None)"

definition backs :: "eth_lib \<Rightarrow> jdict list \<Rightarrow> lp_event \<Rightarrow> int \<Rightarrow> bool" where
  "backs lib logs e token \<longleftrightarrow>
     (\<exists>l \<in> set logs. \<exists>a. decode_nfpm_aux lib l = Inr (Some a) \<and> na_token_id a = token \<and> v3_core_key e = Inr (aux_key a))"

definition backed :: "eth_lib \<Rightarrow> (string \<times> jdict list) list \<Rightarrow> lp_event list \<Rightarrow> bool" where
  "backed lib ev rows \<longleftrightarrow>
     (\<forall>e \<in> set rows. le_protocol e = Some ''v3'' \<longrightarrow>
        (\<forall>token. le_token_id e = Some token \<longrightarrow> backs lib (od_get [] (le_tx_hash e) ev) e token))"

lemma core_parts:
  "core_of e = core_of e' \<Longrightarrow>
   le_protocol e = le_protocol e' \<and> le_tx_hash e = le_tx_hash e' \<and> v3_core_key e = v3_core_key e' \<and>
   le_kind e = le_kind e' \<and> le_custody e = le_custody e' \<and> le_log_index e = le_log_index e'"
proof -
  assume eq: "core_of e = core_of e'"
  have c: "le_protocol (core_of x) = le_protocol x" "le_tx_hash (core_of x) = le_tx_hash x"
    "v3_core_key (core_of x) = v3_core_key x" "le_kind (core_of x) = le_kind x"
    "le_custody (core_of x) = le_custody x" "le_log_index (core_of x) = le_log_index x" for x
    by (simp_all add: core_of_def v3_core_key_def Let_def)
  show ?thesis using c [of e] c [of e'] eq by metis
qed

lemma backed_attribution:
  assumes "map attribution rows' = map attribution rows" and "backed lib ev rows"
  shows "backed lib ev rows'"
  unfolding backed_def
proof (intro ballI impI allI)
  fix e token
  assume e: "e \<in> set rows'" "le_protocol e = Some ''v3''" "le_token_id e = Some token"
  from e(1) assms(1) obtain e0 where e0: "e0 \<in> set rows" "attribution e0 = attribution e"
    by (metis (no_types, lifting) image_iff image_eqI set_map)
  then have "core_of e0 = core_of e" by (simp add: attribution_def)
  note p = core_parts [OF this]
  with e0 e have "le_protocol e0 = Some ''v3'' \<and> le_token_id e0 = Some token" by (simp add: attribution_def)
  with assms(2) e0(1) have "backs lib (od_get [] (le_tx_hash e0) ev) e0 token" by (auto simp: backed_def)
  with p show "backs lib (od_get [] (le_tx_hash e) ev) e token" by (simp add: backs_def)
qed

lemma attribution_steps:
  "attribution (mark_ambiguous m n row) = attribution row" "attribution (apply_repair repairs row) = attribution row"
  "attribution (default_basis row) = attribution row" "attribution (with_operator a row) = attribution row"
  "attribution (enrich_row pools c row) = attribution row"
  by (auto simp: attribution_def mark_ambiguous_def apply_repair_def default_basis_def with_operator_def
      enrich_row_def Let_def core_of_def split: option.split)

lemma attribution_with_action: "le_protocol row = Some ''nft'' \<Longrightarrow> attribution (with_action a row) = attribution row"
  by (simp add: attribution_def core_steps) (simp add: with_action_def)

interpretation attribution: traced_view attribution
  by unfold_locales (simp_all add: attribution_steps attribution_with_action)

text \<open>The step that attributes tokens: the rows of a group have the key of their manager's events.\<close>

lemma attribute_token_backs:
  assumes "attribute_token lib logs row a = Inr r"
  shows "le_token_id r = Some (na_token_id a)" and "core_of r = core_of row"
  using attribute_token_core [OF assms] assms unfolding attribute_token_def by (auto simp: Let_def elim!: bindr_InrE)

lemma attribute_rows_backed:
  assumes "attribute_rows lib logs ps rows = Inr rows'" and "backed lib ev rows"
    and "\<And>i a. (i, a) \<in> set ps \<Longrightarrow> i < length rows \<and>
      backs lib (od_get [] (le_tx_hash (rows ! i)) ev) (rows ! i) (na_token_id a)"
  shows "backed lib ev rows'"
  using assms
proof (induction ps arbitrary: rows)
  case (Cons p ps)
  obtain i a where p: "p = (i, a)" by (cases p)
  from Cons.prems(1) [unfolded p] obtain r where r: "attribute_token lib logs (rows ! i) a = Inr r"
    and rest: "attribute_rows lib logs ps (rows[i := r]) = Inr rows'" by (auto elim: bindr_InrE)
  note rb = attribute_token_backs [OF r]
  have same: "core_of (rows[i := r] ! j) = core_of (rows ! j)" for j
    using rb(2) by (cases "j = i"; cases "i < length rows") (simp_all add: list_update_beyond)
  have b: "backs lib (od_get [] (le_tx_hash (rows[i := r] ! j)) ev) (rows[i := r] ! j) t \<longleftrightarrow>
      backs lib (od_get [] (le_tx_hash (rows ! j)) ev) (rows ! j) t" for j t
    using core_parts [OF same [of j]] by (simp add: backs_def)
  have "backed lib ev (rows[i := r])"
    unfolding backed_def
  proof (intro ballI impI allI)
    fix e token
    assume e: "e \<in> set (rows[i := r])" "le_protocol e = Some ''v3''" "le_token_id e = Some token"
    then consider "e \<in> set rows" | "e = r" using set_update_subset_insert [of rows i r] by blast
    then show "backs lib (od_get [] (le_tx_hash e) ev) e token"
    proof cases
      case 1
      with e Cons.prems(2) show ?thesis by (auto simp: backed_def)
    next
      case 2
      with Cons.prems(3) [of i a] b [of i token] rb(1) e(3) show ?thesis by (simp add: p)
    qed
  qed
  moreover have "j < length (rows[i := r]) \<and>
      backs lib (od_get [] (le_tx_hash (rows[i := r] ! j)) ev) (rows[i := r] ! j) (na_token_id a')"
    if "(j, a') \<in> set ps" for j a' using Cons.prems(3) [of j a'] that b by (simp add: p)
  ultimately show ?case by (rule Cons.IH [OF rest])
qed simp

lemma three_ways: "(if c then Inr x else if d then Inr y else z) = Inr w \<Longrightarrow> w = x \<or> w = y \<or> z = Inr w"
  by (auto split: if_splits)

lemma correlate_group_backed:
  assumes "correlate_group lib logs cores key auxs rows = Inr rows'" and "backed lib ev rows"
    and cores: "\<And>i. i \<in> set (od_get [] key cores) \<Longrightarrow>
      i < length rows \<and> v3_core_key (rows ! i) = Inr key \<and> od_get [] (le_tx_hash (rows ! i)) ev = logs"
    and auxs: "\<And>a. a \<in> set auxs \<Longrightarrow> aux_key a = key \<and> (\<exists>l \<in> set logs. decode_nfpm_aux lib l = Inr (Some a))"
  shows "backed lib ev rows'"
proof -
  let ?cores = "by_log_index rows (od_get [] key cores)" and ?auxs = "sort_key na_log_index auxs"
  have set_cores: "set ?cores = set (od_get [] key cores)" by (simp add: by_log_index_def)
  let ?marked = "fold (\<lambda>i rows. rows[i := mark_ambiguous (length ?cores) (length ?auxs) (rows ! i)]) ?cores rows"
  have "(if ?cores = [] then Inr rows else if length ?cores \<noteq> length ?auxs then Inr ?marked
      else attribute_rows lib logs (zip ?cores ?auxs) rows) = Inr rows'"
    using assms(1) unfolding correlate_group_def Let_def .
  from three_ways [OF this] show ?thesis
  proof (elim disjE)
    assume "rows' = rows"
    then show ?thesis using assms(2) by simp
  next
    assume m: "rows' = ?marked"
    have "map attribution ?marked = map attribution rows" by (rule attribution.marked_view)
    then show ?thesis unfolding m using assms(2) by (rule backed_attribution)
  next
    assume attr: "attribute_rows lib logs (zip ?cores ?auxs) rows = Inr rows'"
    have "i < length rows \<and> backs lib (od_get [] (le_tx_hash (rows ! i)) ev) (rows ! i) (na_token_id a)"
      if "(i, a) \<in> set (zip ?cores ?auxs)" for i a
    proof -
      have "i \<in> set (od_get [] key cores)" "a \<in> set auxs"
        using set_zip_leftD [OF that] set_zip_rightD [OF that] set_cores by auto
      with cores [of i] auxs [of a] show ?thesis by (auto simp: backs_def)
    qed
    from attribute_rows_backed [OF attr assms(2) this] show ?thesis .
  qed
qed

lemma correlate_groups_backed:
  assumes "correlate_groups lib logs cores gs rows = Inr rows'" and "backed lib ev rows"
    and "\<And>key i. i \<in> set (od_get [] key cores) \<Longrightarrow>
      i < length rows \<and> v3_core_key (rows ! i) = Inr key \<and> od_get [] (le_tx_hash (rows ! i)) ev = logs"
    and "\<And>key auxs a. (key, auxs) \<in> set gs \<Longrightarrow> a \<in> set auxs \<Longrightarrow>
      aux_key a = key \<and> (\<exists>l \<in> set logs. decode_nfpm_aux lib l = Inr (Some a))"
  shows "backed lib ev rows'"
  using assms
proof (induction gs arbitrary: rows)
  case (Cons g gs)
  obtain key auxs where g: "g = (key, auxs)" by (cases g)
  from Cons.prems(1) [unfolded g] obtain rows1 where r1: "correlate_group lib logs cores key auxs rows = Inr rows1"
    and rest: "correlate_groups lib logs cores gs rows1 = Inr rows'" by (auto elim: bindr_InrE)
  have b1: "backed lib ev rows1"
  proof (rule correlate_group_backed [OF r1 Cons.prems(2) Cons.prems(3)])
    show "aux_key a = key \<and> (\<exists>l \<in> set logs. decode_nfpm_aux lib l = Inr (Some a))" if "a \<in> set auxs" for a
      using Cons.prems(4) [of key auxs a] that by (simp add: g)
  qed
  have core: "map core_of rows1 = map core_of rows" using core.correlate_group_view [OF r1] .
  have "i < length rows1 \<and> v3_core_key (rows1 ! i) = Inr key' \<and> od_get [] (le_tx_hash (rows1 ! i)) ev = logs"
    if "i \<in> set (od_get [] key' cores)" for i key'
  proof -
    have i: "i < length rows" using Cons.prems(3) [OF that] by simp
    moreover have "length rows1 = length rows" using core by (metis length_map)
    ultimately have "core_of (rows1 ! i) = core_of (rows ! i)" using core by (metis nth_map)
    from core_parts [OF this] Cons.prems(3) [OF that] i \<open>length rows1 = length rows\<close> show ?thesis by simp
  qed
  moreover have "aux_key a = key' \<and> (\<exists>l \<in> set logs. decode_nfpm_aux lib l = Inr (Some a))"
    if "(key', auxs') \<in> set gs" "a \<in> set auxs'" for key' auxs' a
    using Cons.prems(4) [of key' auxs' a] that by (simp add: g)
  ultimately show ?case by (rule Cons.IH [OF rest b1])
qed simp

section \<open>Tokens in a batch\<close>

lemma od_get_member: "v \<in> set (od_get [] k d) \<Longrightarrow> \<exists>vs. (k, vs) \<in> set d \<and> v \<in> set vs"
  by (cases "map_of d k") (auto simp: od_get_def dest: map_of_SomeD)

lemma correlate_transaction_backed:
  assumes "correlate_transaction lib hs logs tx rows = Inr rows'" and "backed lib ev rows"
    and tx: "\<And>i. i \<in> set tx \<Longrightarrow> i < length rows \<and> od_get [] (le_tx_hash (rows ! i)) ev = logs"
  shows "backed lib ev rows'"
proof -
  obtain nfpm v4 cores rows1 v4_cores rows2 rows3 where aux: "map_res (decode_nfpm_aux lib) logs = Inr nfpm"
    and cores: "group_rows is_v3_core v3_core_key (map (\<lambda>i. (i, rows ! i)) tx) [] = Inr cores"
    and r1: "correlate_groups lib logs cores (group_aux aux_key (List.map_filter id nfpm)) rows = Inr rows1"
    and r2: "repair_transaction lib hs logs tx v4_cores rows1 = Inr rows2"
    and r3: "match_operators v4_cores (group_aux v4_aux_key (List.map_filter id v4)) rows2 = Inr rows3"
    and rows': "rows' = enrich_transfers tx rows3"
    using assms(1) unfolding correlate_transaction_def by (elim bindr_InrE) blast
  have g: "grouped (\<lambda>k i. i \<in> set tx \<and> v3_core_key (rows ! i) = Inr k) cores"
    by (rule group_rows_grouped [OF cores grouped_Nil]) (auto)
  have "i < length rows \<and> v3_core_key (rows ! i) = Inr key \<and> od_get [] (le_tx_hash (rows ! i)) ev = logs"
    if "i \<in> set (od_get [] key cores)" for key i
    using od_get_member [OF that] grouped_member [OF g] tx by blast
  moreover have "aux_key a = key \<and> (\<exists>l \<in> set logs. decode_nfpm_aux lib l = Inr (Some a))"
    if "(key, auxs) \<in> set (group_aux aux_key (List.map_filter id nfpm))" "a \<in> set auxs" for key auxs a
  proof -
    have "aux_key a = key \<and> Some a \<in> set nfpm"
      using grouped_member [OF group_aux_grouped that] by (auto simp: map_filter_member)
    with map_res_member [OF aux, of "Some a"] show ?thesis by auto
  qed
  ultimately have "backed lib ev rows1" by (rule correlate_groups_backed [OF r1 assms(2)])
  moreover have "map attribution rows' = map attribution rows1"
    using attribution.repair_transaction_view [OF r2] attribution.match_operators_view [OF r3]
      attribution.enrich_transfers_view [of tx rows3] rows' by simp
  ultimately show ?thesis using backed_attribution by blast
qed

lemma correlate_manager_events_backed:
  assumes "correlate_manager_events lib hs ev rows = Inr rows'" and "backed lib ev rows"
  shows "backed lib ev rows'"
proof -
  have all: "correlate_all lib hs ev txs rs = Inr rows' \<Longrightarrow> backed lib ev rs \<Longrightarrow> map core_of rs = map core_of rows \<Longrightarrow>
      set txs \<subseteq> set (rows_by_tx rows) \<Longrightarrow> backed lib ev rows'" for txs rs
  proof (induction txs arbitrary: rs)
    case (Cons p txs)
    obtain h tx where p: "p = (h, tx)" by (cases p)
    from Cons.prems(1) [unfolded p] obtain rs1 where r1: "correlate_transaction lib hs (od_get [] h ev) tx rs = Inr rs1"
      and rest: "correlate_all lib hs ev txs rs1 = Inr rows'" by (auto elim: bindr_InrE)
    have "i < length rs \<and> od_get [] (le_tx_hash (rs ! i)) ev = od_get [] h ev" if "i \<in> set tx" for i
    proof -
      have "i < length rows \<and> le_tx_hash (rows ! i) = h"
        using grouped_member [OF rows_by_tx_grouped, of h tx rows i] Cons.prems(4) that by (simp add: p)
      moreover have "length rs = length rows" using Cons.prems(3) by (metis length_map)
      ultimately show ?thesis using core_parts [of "rs ! i" "rows ! i"] Cons.prems(3) by (metis nth_map)
    qed
    from correlate_transaction_backed [OF r1 Cons.prems(2) this] have "backed lib ev rs1" .
    moreover have "map core_of rs1 = map core_of rows" using core.correlate_transaction_view [OF r1] Cons.prems(3) by simp
    ultimately show ?case using Cons.prems(4) by (intro Cons.IH [OF rest]) auto
  qed simp
  from assms show ?thesis unfolding correlate_manager_events_def by (auto intro: all)
qed

definition unowned :: "lp_event \<Rightarrow> bool" where
  "unowned e \<longleftrightarrow> (le_protocol e = Some ''v3'' \<longrightarrow> le_token_id e = None)"

lemma event_base_unowned: "event_base l hs = Inr b \<Longrightarrow> le_token_id b = None"
  unfolding event_base_def by (auto elim!: bindr_InrE)

lemma v2_unowned:
  "v2_event lib t row l topics = Inr e \<Longrightarrow> le_token_id e = le_token_id row"
  unfolding v2_event_def v2_swap_def v2_mint_def v2_burn_def v2_sync_def
  by (auto split: if_splits elim!: bindr_InrE)

lemma v3_unowned:
  "v3_event lib t pool row l topics = Inr e \<Longrightarrow> le_token_id e = le_token_id row"
  unfolding v3_event_def v3_initialize_def v3_swap_def v3_mint_def v3_burn_def v3_collect_def v3_flash_def v3_set_fee_def
    v3_collect_protocol_def Let_def
  by (auto split: if_splits elim!: bindr_InrE)

lemma v4_unowned:
  "v4_event lib t row l topics = Inr e \<Longrightarrow> le_protocol e = le_protocol row"
  unfolding v4_event_def v4_fee_controller_def v4_swap_def v4_modify_liquidity_def v4_donate_def v4_protocol_fee_def Let_def
  by (auto split: if_splits elim!: bindr_InrE)

lemma creation_row_unowned: "creation_row l hs pool = Inr e \<Longrightarrow> unowned e"
  unfolding creation_row_def unowned_def by (auto elim!: bindr_InrE dest: event_base_unowned)

lemma decode_pool_event_unowned: "decode_pool_event lib t l hs pools = Inr (Some e) \<Longrightarrow> unowned e"
  unfolding decode_pool_event_def unowned_def
  by (auto simp: Let_def split: option.splits if_splits elim!: bindr_InrE
      dest!: v2_unowned v3_unowned v4_unowned event_base_unowned)

lemma decode_event_unowned: "decode_event lib l hs pools = Inr (Some e) \<Longrightarrow> unowned e"
  unfolding decode_event_def
  by (auto split: option.splits if_splits elim!: bindr_InrE dest: creation_row_unowned decode_pool_event_unowned)
    (auto simp: decode_transfer_def unowned_def split: option.splits elim!: bindr_InrE)

lemma row_of_unowned: "row_of lib hs c pools l = Inr (Some e) \<Longrightarrow> unowned e"
  unfolding row_of_def
  by (auto split: option.splits if_splits elim!: bindr_InrE dest: creation_row_unowned decode_event_unowned)

text \<open>
  A V3 row carries a token only when an event of its position manager in the same transaction
  names that token with the same kind, liquidity and amounts; a transaction whose pool events and
  manager events do not pair up leaves its rows without a token.
\<close>

theorem v3_tokens_proved:
  assumes "decode_logs lib logs pools hs receipts traces = Inr rows" and "e \<in> set rows"
    and "le_protocol e = Some ''v3''" and "le_token_id e = Some token"
  shows "\<exists>ls ev l a. order_logs lib logs = Inr ls \<and> evidence_logs ls receipts = Inr ev \<and>
    l \<in> set (od_get [] (le_tx_hash e) ev) \<and> decode_nfpm_aux lib l = Inr (Some a) \<and> na_token_id a = token \<and>
    le_custody e = Some (na_manager a) \<and> le_kind e = Some (na_kind a) \<and>
    le_amount0 e = Some (na_amount0 a) \<and> le_amount1 e = Some (na_amount1 a) \<and>
    na_liquidity a = (if le_kind e = Some ''collect'' then None else map_option abs (le_liquidity_delta e))"
proof -
  from assms(1) obtain ls c local rows0 ev rows1 rows2 where s: "order_logs lib logs = Inr ls"
    "decode_rows lib hs c local ls = Inr rows0" "evidence_logs ls receipts = Inr ev"
    and m: "correlate_manager_events lib hs ev rows0 = Inr rows1"
    and t: "enrich_v4_traces lib receipts traces local rows1 = Inr rows2" and rows: "rows = sort_key row_order rows2"
    unfolding decode_logs_def by (auto elim!: bindr_InrE)
  have "backed lib ev rows0"
    using decode_rows_member(2) [OF s(2)] row_of_unowned by (fastforce simp: backed_def unowned_def)
  then have "backed lib ev rows2"
    using correlate_manager_events_backed [OF m] attribution.enrich_v4_traces_view [OF t] backed_attribution by blast
  then have "backs lib (od_get [] (le_tx_hash e) ev) e token" using assms(2-4) by (simp add: rows backed_def)
  then obtain l a where l: "l \<in> set (od_get [] (le_tx_hash e) ev)" "decode_nfpm_aux lib l = Inr (Some a)"
    "na_token_id a = token" and k: "v3_core_key e = Inr (aux_key a)"
    by (auto simp: backs_def)
  have i: "the_int n = Inr x \<Longrightarrow> n = Some x" for n x by (cases n) auto
  from k have "le_custody e = Some (na_manager a) \<and> le_kind e = Some (na_kind a) \<and>
      le_amount0 e = Some (na_amount0 a) \<and> le_amount1 e = Some (na_amount1 a) \<and>
      na_liquidity a = (if le_kind e = Some ''collect'' then None else map_option abs (le_liquidity_delta e))"
    unfolding v3_core_key_def aux_key_def by (auto elim!: bindr_InrE dest!: i split: if_splits)
  with s l show ?thesis by blast
qed

end
