(* ===== verification/Lp_Kept.thy ===== *)
theory Lp_Kept
  imports Lp_Owners
begin

text \<open>
  What a row keeps of its own log. The correlation with the managers and the enrichment with the
  traces write some fields of some rows: a row of the V3 position manager gets its token, key and
  owner, a row of the V4 position manager its owner, a traced V4 row its cash flow and fees, and a
  transfer the pool and range of the action on its token. Nothing else is written, so every other
  row, and every other field, is as it was decoded from its log.
\<close>

section \<open>The fields that may be completed\<close>














section \<open>Steps over a list of rows\<close>






section \<open>The correlation\<close>
















section \<open>The traces\<close>




section \<open>The rows of a batch\<close>




end
