(* ===== verification/Lp_Cash.thy ===== *)
theory Lp_Cash
  imports Lp_Owners
begin

text \<open>
  Where the cash flows of V4 rows come from: each modify event of a successful transaction is paired
  with one call that succeeded, and only a row that the call agrees with takes its return value.
\<close>

section \<open>Pairing events and calls\<close>

definition event_of :: "eth_lib \<Rightarrow> json list \<Rightarrow> log_key \<Rightarrow> jdict \<Rightarrow> bool" where
  "event_of lib logs k l \<longleftrightarrow> JObj l \<in> set logs \<and> is_modify_event lib l \<and> trace_log_key l = Inr k"

definition call_of :: "eth_lib \<Rightarrow> jdict \<Rightarrow> log_key \<Rightarrow> trace_path \<times> modify_call \<Rightarrow> bool" where
  "call_of lib trace k pc \<longleftrightarrow>
     (\<exists>frame. Inr (fst pc, frame, False) \<in> set (walk_trace trace [] False) \<and> is_modify_frame lib frame \<and>
        read_call lib frame = Inr (k, snd pc))"

lemma receipt_events_grouped:
  "receipt_events lib ls d = Inr d' \<Longrightarrow> grouped P d \<Longrightarrow>
   (\<And>l k. JObj l \<in> set ls \<Longrightarrow> is_modify_event lib l \<Longrightarrow> trace_log_key l = Inr k \<Longrightarrow> P k l) \<Longrightarrow> grouped P d'"
proof (induction lib ls d rule: receipt_events.induct)
  case (2 lib l ls d)
  show ?case
  proof (cases "is_modify_event lib l")
    case True
    with 2(3) obtain k where k: "trace_log_key l = Inr k" "receipt_events lib ls (od_append k l d) = Inr d'"
      by (auto elim: bindr_InrE)
    from 2(1) [OF True k(2)] 2(4,5) k(1) True show ?thesis by (simp add: grouped_append)
  next
    case False
    with 2 show ?thesis by simp
  qed
qed simp_all

lemma od_append_member: "v \<in> set (od_get [] k (od_append k' v' d)) \<longleftrightarrow> (k = k' \<and> v = v') \<or> v \<in> set (od_get [] k d)"
  by (auto simp: od_append_def od_get_set)

lemma receipt_events_complete:
  "receipt_events lib ls d = Inr d' \<Longrightarrow>
   (JObj l \<in> set ls \<and> is_modify_event lib l) \<or> (\<exists>k. l \<in> set (od_get [] k d)) \<Longrightarrow> \<exists>k. l \<in> set (od_get [] k d')"
proof (induction lib ls d rule: receipt_events.induct)
  case (2 lib l' ls d)
  show ?case
  proof (cases "is_modify_event lib l'")
    case True
    with 2(3) obtain k where k: "trace_log_key l' = Inr k" "receipt_events lib ls (od_append k l' d) = Inr d'"
      by (auto elim: bindr_InrE)
    from 2(4) have "l = l' \<or> (JObj l \<in> set ls \<and> is_modify_event lib l) \<or> (\<exists>k'. l \<in> set (od_get [] k' d))"
      by auto
    then have "(JObj l \<in> set ls \<and> is_modify_event lib l) \<or> (\<exists>k'. l \<in> set (od_get [] k' (od_append k l' d)))"
      by (metis od_append_member)
    from 2(1) [OF True k(2) this] show ?thesis .
  next
    case False
    with 2 show ?thesis by auto
  qed
qed auto

lemma group_calls_grouped:
  "group_calls lib fs d = Inr d' \<Longrightarrow> grouped P d \<Longrightarrow>
   (\<And>path frame k c. Inr (path, frame, False) \<in> set fs \<Longrightarrow> is_modify_frame lib frame \<Longrightarrow>
      read_call lib frame = Inr (k, c) \<Longrightarrow> P k (path, c)) \<Longrightarrow> grouped P d'"
proof (induction lib fs d rule: group_calls.induct)
  case (3 lib path frame failed fs d)
  show ?case
  proof (cases "is_modify_frame lib frame \<and> \<not> failed")
    case True
    with 3(3) obtain k c where k: "read_call lib frame = Inr (k, c)" "group_calls lib fs (od_append k (path, c) d) = Inr d'"
      by (auto elim!: bindr_InrE)
    have "P k (path, c)" using 3(5) [of path frame k c] True k(1) by simp
    then have "grouped P (od_append k (path, c) d)" using 3(4) by (simp add: grouped_append)
    with 3(1) [OF True k(2)] 3(5) show ?thesis by (meson list.set_intros(2))
  next
    case False
    with 3(3) have "group_calls lib fs d = Inr d'" by (simp only: group_calls.simps if_False)
    with 3(2) [OF False] 3(4,5) show ?thesis by (meson list.set_intros(2))
  qed
qed simp_all

lemma sort_logs_set: "sort_logs ls = Inr ls' \<Longrightarrow> set ls' = set ls \<and> length ls' = length ls"
proof -
  assume "sort_logs ls = Inr ls'"
  then obtain ps where ps: "map_res (\<lambda>l. bindr (read_int (dget ''logIndex'' l) ''receipt log index'') (\<lambda>i. Inr (i, l))) ls = Inr ps"
    and ls': "ls' = map snd (sort_key fst ps)" unfolding sort_logs_def by (auto elim!: bindr_InrE)
  have "list_all2 (\<lambda>l p. snd p = l) ls ps"
    using ps by (auto simp: map_res_eq_Inr elim!: list_all2_mono bindr_InrE)
  then have "map snd ps = ls" by (auto simp: list_all2_conv_all_nth intro: nth_equalityI)
  then show ?thesis by (metis ls' length_map length_sort set_map set_sort)
qed

definition log_id :: "string \<Rightarrow> string \<Rightarrow> jdict \<Rightarrow> event_id \<Rightarrow> bool" where
  "log_id tx_hash block_hash l k \<longleftrightarrow>
     (\<exists>i. read_int (dget ''logIndex'' l) ''receipt log index'' = Inr i \<and> k = (block_hash, tx_hash, i))"

lemma pair_calls_sound:
  "pair_calls h b ps d = Inr d' \<Longrightarrow> map_of d' k = Some c \<Longrightarrow>
   map_of d k = Some c \<or> (\<exists>path l. ((path, c), l) \<in> set ps \<and> log_id h b l k)"
proof (induction h b ps d rule: pair_calls.induct)
  case (2 h b path c' l ps d)
  then show ?case by (fastforce simp: dict_simps log_id_def elim!: bindr_InrE split: if_splits)
qed simp

lemma pair_calls_complete:
  "pair_calls h b ps d = Inr d' \<Longrightarrow>
   map_of d k \<noteq> None \<or> (\<exists>pc l. (pc, l) \<in> set ps \<and> log_id h b l k) \<Longrightarrow> map_of d' k \<noteq> None"
proof (induction h b ps d rule: pair_calls.induct)
  case (2 h b path c' l ps d)
  from 2(2) obtain i where i: "read_int (dget ''logIndex'' l) ''receipt log index'' = Inr i"
    and rest: "pair_calls h b ps (od_set (b, h, i) c' d) = Inr d'" by (auto elim!: bindr_InrE)
  from 2(3) i have "map_of (od_set (b, h, i) c' d) k \<noteq> None \<or> (\<exists>pc l. (pc, l) \<in> set ps \<and> log_id h b l k)"
    by (auto simp: dict_simps log_id_def)
  with 2(1) i rest 2(2) show ?case by (auto elim!: bindr_InrE)
qed auto

definition may_pair ::
  "string \<Rightarrow> string \<Rightarrow> (log_key, jdict list) odict \<Rightarrow> (log_key \<times> (trace_path \<times> modify_call) list) list \<Rightarrow> event_id \<Rightarrow> modify_call \<Rightarrow> bool" where
  "may_pair h b receipts gs k c \<longleftrightarrow>
     (\<exists>key calls path l. (key, calls) \<in> set gs \<and> (path, c) \<in> set calls \<and> l \<in> set (od_get [] key receipts) \<and> log_id h b l k)"

definition must_pair ::
  "string \<Rightarrow> string \<Rightarrow> (log_key, jdict list) odict \<Rightarrow> (log_key \<times> (trace_path \<times> modify_call) list) list \<Rightarrow> event_id \<Rightarrow> bool" where
  "must_pair h b receipts gs k \<longleftrightarrow>
     (\<exists>key calls l. (key, calls) \<in> set gs \<and> l \<in> set (od_get [] key receipts) \<and> log_id h b l k)"

lemma match_groups_step:
  assumes "match_groups h b receipts ((key, calls) # gs) d = Inr d'"
  obtains d1 where "match_groups h b receipts gs d1 = Inr d'"
    and "\<And>k c. map_of d1 k = Some c \<Longrightarrow> map_of d k = Some c \<or> may_pair h b receipts [(key, calls)] k c"
    and "\<And>k. map_of d k \<noteq> None \<or> must_pair h b receipts [(key, calls)] k \<Longrightarrow> map_of d1 k \<noteq> None"
proof -
  obtain ls d1 where len: "length calls = length (od_get [] key receipts)"
    and ls: "sort_logs (od_get [] key receipts) = Inr ls"
    and d1: "pair_calls h b (zip (sort_key fst calls) ls) d = Inr d1" and rest: "match_groups h b receipts gs d1 = Inr d'"
    using assms unfolding match_groups.simps Let_def by (elim bindr_InrE) (simp only: ensure_eq_Inr)
  note sl = sort_logs_set [OF ls]
  have "map_of d k = Some c \<or> may_pair h b receipts [(key, calls)] k c" if "map_of d1 k = Some c" for k c
    using pair_calls_sound [OF d1 that]
  proof (elim disjE exE conjE)
    fix path l
    assume z: "((path, c), l) \<in> set (zip (sort_key fst calls) ls)" and l: "log_id h b l k"
    have "(path, c) \<in> set calls" "l \<in> set (od_get [] key receipts)"
      using set_zip_leftD [OF z] set_zip_rightD [OF z] sl by auto
    with l show ?thesis unfolding may_pair_def by (meson list.set_intros(1))
  qed simp
  moreover have "map_of d1 k \<noteq> None" if k: "map_of d k \<noteq> None \<or> must_pair h b receipts [(key, calls)] k" for k
    using k
  proof
    assume "must_pair h b receipts [(key, calls)] k"
    then obtain l where l: "l \<in> set (od_get [] key receipts)" "log_id h b l k" unfolding must_pair_def by auto
    then obtain i where "i < length ls" "l = ls ! i" using sl by (metis in_set_conv_nth)
    then have "(sort_key fst calls ! i, l) \<in> set (zip (sort_key fst calls) ls)" using len sl by (auto simp: in_set_zip)
    with l(2) pair_calls_complete [OF d1, of k] show ?thesis by blast
  qed (use pair_calls_complete [OF d1, of k] in blast)
  ultimately show ?thesis using that rest by blast
qed

lemma match_groups_spec:
  "match_groups h b receipts gs d = Inr d' \<Longrightarrow>
   (\<forall>k c. map_of d' k = Some c \<longrightarrow> map_of d k = Some c \<or> may_pair h b receipts gs k c) \<and>
   (\<forall>k. map_of d k \<noteq> None \<or> must_pair h b receipts gs k \<longrightarrow> map_of d' k \<noteq> None)"
proof (induction gs arbitrary: d)
  case Nil
  then show ?case by (simp add: may_pair_def must_pair_def)
next
  case (Cons g gs)
  obtain key calls where g: "g = (key, calls)" by (cases g)
  obtain d1 where rest: "match_groups h b receipts gs d1 = Inr d'"
    and s: "\<And>k c. map_of d1 k = Some c \<Longrightarrow> map_of d k = Some c \<or> may_pair h b receipts [(key, calls)] k c"
    and c: "\<And>k. map_of d k \<noteq> None \<or> must_pair h b receipts [(key, calls)] k \<Longrightarrow> map_of d1 k \<noteq> None"
    by (rule match_groups_step [OF Cons.prems [unfolded g]]) (rule that)
  have m: "may_pair h b receipts (g # gs) k c \<longleftrightarrow> may_pair h b receipts [(key, calls)] k c \<or> may_pair h b receipts gs k c" for k c
    unfolding may_pair_def g by (auto simp del: split_paired_Ex split_paired_All)
  have n: "must_pair h b receipts (g # gs) k \<longleftrightarrow> must_pair h b receipts [(key, calls)] k \<or> must_pair h b receipts gs k" for k
    unfolding must_pair_def g by (auto simp del: split_paired_Ex split_paired_All)
  from Cons.IH [OF rest] s c show ?case unfolding m n by blast
qed

lemma checked_result:
  "(if a then Inr x else if b then Inl e else bindr m (\<lambda>u. if s then Inl e' else Inr u)) = Inr v \<Longrightarrow>
   (a \<and> v = x) \<or> (m = Inr v \<and> \<not> s)"
  by (auto split: if_splits elim!: bindr_InrE)

lemma trace_updates_exact_aux:
  assumes "trace_updates lib receipt trace = Inr updates" and "dget ''logs'' receipt = JArr logs"
    and "read_int (dget ''status'' receipt) ''receipt status'' = Inr 1"
  shows "\<exists>h b. read_hash (dget ''transactionHash'' receipt) ''receipt transaction hash'' = Inr h \<and>
    read_hash (dget ''blockHash'' receipt) ''receipt block hash'' = Inr b \<and>
    (\<forall>k c. map_of updates k = Some c \<longrightarrow>
       (\<exists>key path l. call_of lib trace key (path, c) \<and> event_of lib logs key l \<and> log_id h b l k)) \<and>
    (\<forall>l k. JObj l \<in> set logs \<and> is_modify_event lib l \<and> log_id h b l k \<longrightarrow> map_of updates k \<noteq> None)"
proof -
  from assms obtain h b events calls where hb: "read_hash (dget ''transactionHash'' receipt) ''receipt transaction hash'' = Inr h"
    "read_hash (dget ''blockHash'' receipt) ''receipt block hash'' = Inr b"
    and ev: "receipt_events lib logs [] = Inr events"
    and ca: "group_calls lib (walk_trace trace [] False) [] = Inr calls"
    and rest: "(if events = [] \<and> calls = [] then Inr []
             else if calls = [] \<and> events \<noteq> []
             then bad_record ''trace omitted successful receipt modifyLiquidity calls''
             else
           bindr (match_groups h b events calls []) (\<lambda>updates.
             if set (od_keys events) - set (od_keys calls) \<noteq> {}
             then bad_record ''receipt contains uncorrelated successful ModifyLiquidity event''
             else Inr updates)) = Inr updates"
    unfolding trace_updates_def by (auto elim!: bindr_InrE)
  have ge: "grouped (event_of lib logs) events"
    by (rule receipt_events_grouped [OF ev grouped_Nil]) (simp add: event_of_def)
  have gc: "grouped (call_of lib trace) calls"
    by (rule group_calls_grouped [OF ca grouped_Nil]) (auto simp: call_of_def)
  have m: "match_groups h b events calls [] = Inr updates \<and> set (od_keys events) \<subseteq> set (od_keys calls)"
    using checked_result [OF rest] by (elim disjE) (simp_all add: od_keys_def)
  note spec = match_groups_spec [OF conjunct1 [OF m]]
  have "\<exists>key path l. call_of lib trace key (path, c) \<and> event_of lib logs key l \<and> log_id h b l k"
    if "map_of updates k = Some c" for k c
  proof -
    have "may_pair h b events calls k c" using spec that by fastforce
    then obtain key cs path l where m: "(key, cs) \<in> set calls" "(path, c) \<in> set cs"
      and l: "l \<in> set (od_get [] key events)" "log_id h b l k" unfolding may_pair_def by blast
    have "event_of lib logs key l" using groupedD [OF ge l(1)] .
    with grouped_member [OF gc m] l(2) show ?thesis by blast
  qed
  moreover have "map_of updates k \<noteq> None" if l: "JObj l \<in> set logs \<and> is_modify_event lib l \<and> log_id h b l k" for l k
  proof -
    obtain key where key: "l \<in> set (od_get [] key events)" using receipt_events_complete [OF ev] l by blast
    then have "key \<in> set (od_keys events)" using od_get_member [OF key] by (force simp: od_keys_def)
    then have "key \<in> set (od_keys calls)" using m by blast
    then obtain cs where "(key, cs) \<in> set calls" by (auto simp: od_keys_def)
    with key l have "must_pair h b events calls k" unfolding must_pair_def by blast
    with spec show ?thesis by blast
  qed
  ultimately show ?thesis using hb by blast
qed

text \<open>
  In a successful transaction every modify event of the receipt gets the result of a call, and
  every result comes from a call that succeeded and whose own event has the same bytes as the event
  of the receipt at that place.
\<close>

theorem trace_updates_exact:
  assumes "trace_updates lib receipt trace = Inr updates" and "dget ''logs'' receipt = JArr logs"
    and "read_int (dget ''status'' receipt) ''receipt status'' = Inr 1"
  shows "\<exists>h b. read_hash (dget ''transactionHash'' receipt) ''receipt transaction hash'' = Inr h \<and>
    read_hash (dget ''blockHash'' receipt) ''receipt block hash'' = Inr b \<and>
    (\<forall>k c. map_of updates k = Some c \<longrightarrow>
       (\<exists>key path l. call_of lib trace key (path, c) \<and> event_of lib logs key l \<and> log_id h b l k)) \<and>
    (\<forall>l k. JObj l \<in> set logs \<and> is_modify_event lib l \<and> log_id h b l k \<longrightarrow> map_of updates k \<noteq> None)"
  using assms by (rule trace_updates_exact_aux)

section \<open>Traced rows\<close>

definition traced_by :: "eth_lib \<Rightarrow> jdict \<Rightarrow> jdict \<Rightarrow> lp_event \<Rightarrow> bool" where
  "traced_by lib receipts traces e \<longleftrightarrow>
     (\<exists>receipt trace updates c. receipt_for receipts (le_tx_hash e) = Some receipt \<and>
        trace_for traces (le_tx_hash e) = Some trace \<and> trace_updates lib receipt trace = Inr updates \<and>
        map_of updates (event_identity e) = Some c \<and>
        le_pool_id e = Some (mc_pool_id c) \<and> le_tick_lower e = Some (mc_tick_lower c) \<and>
        le_tick_upper e = Some (mc_tick_upper c) \<and> le_liquidity_delta e = Some (mc_liquidity_delta c) \<and>
        le_cashflow0 e = Some (mc_caller_delta0 c) \<and> le_cashflow1 e = Some (mc_caller_delta1 c) \<and>
        le_fee_amount0 e = Some (mc_fees_accrued0 c) \<and> le_fee_amount1 e = Some (mc_fees_accrued1 c))"

definition TRACED :: string where "TRACED = ''v4_modifyLiquidity_return''"

definition traced_ok :: "eth_lib \<Rightarrow> jdict \<Rightarrow> jdict \<Rightarrow> lp_event list \<Rightarrow> bool" where
  "traced_ok lib receipts traces rows \<longleftrightarrow>
     (\<forall>e \<in> set rows. le_accounting_basis e = Some TRACED \<longrightarrow> traced_by lib receipts traces e)"

lemma enrich_row_fields [simp]:
  "le_tx_hash (enrich_row pools c row) = le_tx_hash row" "event_identity (enrich_row pools c row) = event_identity row"
  "le_pool_id (enrich_row pools c row) = le_pool_id row" "le_tick_lower (enrich_row pools c row) = le_tick_lower row"
  "le_tick_upper (enrich_row pools c row) = le_tick_upper row"
  "le_liquidity_delta (enrich_row pools c row) = le_liquidity_delta row"
  "le_cashflow0 (enrich_row pools c row) = Some (mc_caller_delta0 c)" "le_cashflow1 (enrich_row pools c row) = Some (mc_caller_delta1 c)"
  "le_fee_amount0 (enrich_row pools c row) = Some (mc_fees_accrued0 c)" "le_fee_amount1 (enrich_row pools c row) = Some (mc_fees_accrued1 c)"
  by (simp_all add: enrich_row_def event_identity_def Let_def)

lemma enrich_rows_traced:
  assumes "enrich_rows pools updates is rows = Inr rows'" and "traced_ok lib receipts traces rows"
    and h: "\<And>i. i \<in> set is \<Longrightarrow> i < length rows \<and> le_tx_hash (rows ! i) = h"
    and u: "receipt_for receipts h = Some receipt" "trace_for traces h = Some trace"
      "trace_updates lib receipt trace = Inr updates"
  shows "traced_ok lib receipts traces rows'"
  using assms(1-3)
proof (induction "is" arbitrary: rows)
  case (Cons i "is")
  show ?case
  proof (cases "map_of updates (event_identity (rows ! i))")
    case None
    with Cons show ?thesis by simp
  next
    case (Some c)
    let ?rows = "rows[i := enrich_row pools c (rows ! i)]"
    from Cons.prems(1) Some have ok: "call_matches (rows ! i) c = Inr True" and rest: "enrich_rows pools updates is ?rows = Inr rows'"
      by (auto simp: ensure_eq_Inr elim!: bindr_InrE)
    have i: "i < length rows" "le_tx_hash (rows ! i) = h" using Cons.prems(3) [of i] by auto
    have d: "the_int n = Inr x \<Longrightarrow> n = Some x" for n x by (cases n) auto
    from ok have "le_pool_id (rows ! i) = Some (mc_pool_id c) \<and> le_tick_lower (rows ! i) = Some (mc_tick_lower c) \<and>
        le_tick_upper (rows ! i) = Some (mc_tick_upper c) \<and> le_liquidity_delta (rows ! i) = Some (mc_liquidity_delta c)"
      unfolding call_matches_def by (auto split: option.splits elim!: bindr_InrE dest!: d)
    with u Some i(2) have "traced_by lib receipts traces (enrich_row pools c (rows ! i))"
      unfolding traced_by_def by (intro exI [where x = receipt] exI [where x = trace] exI [where x = updates] exI [where x = c]) simp
    then have "traced_ok lib receipts traces ?rows"
      using Cons.prems(2) set_update_subset_insert [of rows i "enrich_row pools c (rows ! i)"] unfolding traced_ok_def by blast
    moreover have "j < length ?rows \<and> le_tx_hash (?rows ! j) = h" if "j \<in> set is" for j
      using Cons.prems(3) [of j] that i by (cases "j = i") auto
    ultimately show ?thesis by (rule Cons.IH [OF rest])
  qed
qed simp

lemma traced_by_core:
  assumes "le_tx_hash e = le_tx_hash e'" "event_identity e = event_identity e'" "le_pool_id e = le_pool_id e'"
    "le_tick_lower e = le_tick_lower e'" "le_tick_upper e = le_tick_upper e'"
    "le_liquidity_delta e = le_liquidity_delta e'" "le_cashflow0 e = le_cashflow0 e'" "le_cashflow1 e = le_cashflow1 e'"
    "le_fee_amount0 e = le_fee_amount0 e'" "le_fee_amount1 e = le_fee_amount1 e'"
  shows "traced_by lib receipts traces e \<longleftrightarrow> traced_by lib receipts traces e'"
  using assms by (simp add: traced_by_def)

lemma enrich_v4_traces_traced:
  assumes "enrich_v4_traces lib receipts traces pools rows = Inr rows'" and "traced_ok lib receipts traces rows"
  shows "traced_ok lib receipts traces rows'"
proof -
  define G where "G = fold (\<lambda>i d. let row = rows ! i in
      if le_protocol row = Some ''v4'' \<and> le_liquidity_delta row \<noteq> None
      then od_append (le_tx_hash row) i d else d) [0 ..< length rows] []"
  have fold_grouped: "grouped P d \<Longrightarrow> (\<And>i. i \<in> set is \<Longrightarrow> P (le_tx_hash (rows ! i)) i) \<Longrightarrow>
      grouped P (fold (\<lambda>i d. let row = rows ! i in
        if le_protocol row = Some ''v4'' \<and> le_liquidity_delta row \<noteq> None then od_append (le_tx_hash row) i d else d) is d)"
    for "is" d P by (induction "is" arbitrary: d) (auto simp: Let_def intro: grouped_append)
  have G: "grouped (\<lambda>h i. i < length rows \<and> le_tx_hash (rows ! i) = h) G"
    unfolding G_def by (rule fold_grouped) auto
  have all: "enrich_all lib receipts traces pools txs rs = Inr rows' \<Longrightarrow> traced_ok lib receipts traces rs \<Longrightarrow>
      map core_of rs = map core_of rows \<Longrightarrow> set txs \<subseteq> set G \<Longrightarrow> traced_ok lib receipts traces rows'" for txs rs
  proof (induction txs arbitrary: rs)
    case (Cons p txs)
    obtain h tx where p: "p = (h, tx)" by (cases p)
    show ?case
    proof (cases "receipt_for receipts h = None \<or> trace_for traces h = None")
      case True
      with Cons.prems(1) have "enrich_all lib receipts traces pools txs rs = Inr rows'"
        by (auto simp: p split: option.splits)
      from Cons.IH [OF this Cons.prems(2,3)] Cons.prems(4) show ?thesis by simp
    next
      case False
      then obtain receipt trace where u: "receipt_for receipts h = Some receipt" "trace_for traces h = Some trace" by auto
      with Cons.prems(1) obtain updates rs1 where up: "trace_updates lib receipt trace = Inr updates"
        and r1: "enrich_rows pools updates tx rs = Inr rs1" and rest: "enrich_all lib receipts traces pools txs rs1 = Inr rows'"
        by (auto simp: p elim!: bindr_InrE)
      have "i < length rs \<and> le_tx_hash (rs ! i) = h" if "i \<in> set tx" for i
      proof -
        have "i < length rows \<and> le_tx_hash (rows ! i) = h"
          using grouped_member [OF G, of h tx i] Cons.prems(4) that by (simp add: p)
        moreover have "length rs = length rows" using Cons.prems(3) by (metis length_map)
        ultimately show ?thesis using core_parts [of "rs ! i" "rows ! i"] Cons.prems(3) by (metis nth_map)
      qed
      from enrich_rows_traced [OF r1 Cons.prems(2) this u up] have "traced_ok lib receipts traces rs1" .
      moreover have "map core_of rs1 = map core_of rows" using core.enrich_rows_view [OF r1] Cons.prems(3) by simp
      ultimately show ?thesis using Cons.IH [OF rest] Cons.prems(4) by simp
    qed
  qed simp
  from assms show ?thesis unfolding enrich_v4_traces_def G_def [symmetric] by (auto intro: all)
qed

text \<open>No row is traced before the traces are read.\<close>

definition untraced :: "lp_event \<Rightarrow> bool" where
  "untraced e \<longleftrightarrow> le_accounting_basis e \<noteq> Some TRACED"

lemma untraced_steps:
  "untraced (mark_ambiguous m n row) = untraced row" "untraced (apply_repair repairs row) = untraced row"
  "untraced (default_basis row) = untraced row" "untraced (with_operator a row) = untraced row"
  "untraced (with_action b row) = untraced row"
  by (auto simp: untraced_def mark_ambiguous_def apply_repair_def default_basis_def with_operator_def with_action_def
      split: option.split)

lemma attribute_token_untraced: "attribute_token lib logs row a = Inr r \<Longrightarrow> untraced r = untraced row"
  unfolding attribute_token_def untraced_def by (auto simp: Let_def elim!: bindr_InrE)

interpretation untraced: attributed_view untraced
  by unfold_locales (simp_all add: untraced_steps attribute_token_untraced)

lemma event_base_untraced: "event_base l hs = Inr b \<Longrightarrow> untraced b"
  unfolding event_base_def by (auto simp: untraced_def elim!: bindr_InrE)

lemma v2_untraced: "v2_event lib t row l topics = Inr e \<Longrightarrow> untraced row \<Longrightarrow> untraced e"
  unfolding v2_event_def v2_swap_def v2_mint_def v2_burn_def v2_sync_def
  by (auto simp: untraced_def TRACED_def split: if_splits elim!: bindr_InrE)

lemma v3_untraced: "v3_event lib t pool row l topics = Inr e \<Longrightarrow> untraced row \<Longrightarrow> untraced e"
  unfolding v3_event_def v3_initialize_def v3_swap_def v3_mint_def v3_burn_def v3_collect_def v3_flash_def v3_set_fee_def
    v3_collect_protocol_def Let_def
  by (auto simp: untraced_def TRACED_def split: if_splits elim!: bindr_InrE)

lemma v4_untraced: "v4_event lib t row l topics = Inr e \<Longrightarrow> untraced row \<Longrightarrow> untraced e"
  unfolding v4_event_def v4_fee_controller_def v4_swap_def v4_modify_liquidity_def v4_donate_def v4_protocol_fee_def Let_def
  by (auto simp: untraced_def TRACED_def split: if_splits elim!: bindr_InrE)

lemma untraced_fields [simp]:
  "untraced (e\<lparr>le_pool_id := p\<rparr>) = untraced e" "untraced (e\<lparr>le_protocol := q\<rparr>) = untraced e"
  "untraced (e\<lparr>le_fee_ppm := f\<rparr>) = untraced e"
  by (simp_all add: untraced_def)

lemma creation_row_untraced: "creation_row l hs pool = Inr e \<Longrightarrow> untraced e"
  unfolding creation_row_def by (auto simp: untraced_def TRACED_def elim!: bindr_InrE)

lemma decode_pool_event_untraced: "decode_pool_event lib t l hs pools = Inr (Some e) \<Longrightarrow> untraced e"
  unfolding decode_pool_event_def
  by (auto simp: Let_def split: option.splits if_splits elim!: bindr_InrE
      dest!: v2_untraced v3_untraced v4_untraced event_base_untraced)

lemma decode_event_untraced: "decode_event lib l hs pools = Inr (Some e) \<Longrightarrow> untraced e"
  unfolding decode_event_def
  by (auto split: option.splits if_splits elim!: bindr_InrE dest: creation_row_untraced decode_pool_event_untraced)
    (auto simp: decode_transfer_def untraced_def TRACED_def split: option.splits elim!: bindr_InrE)

lemma row_of_untraced: "row_of lib hs c pools l = Inr (Some e) \<Longrightarrow> untraced e"
  unfolding row_of_def
  by (auto split: option.splits if_splits elim!: bindr_InrE dest: creation_row_untraced decode_event_untraced)

lemma read_call_decode: "read_call lib frame = Inr (k, c) \<Longrightarrow> decode_modify_call lib frame = Inr c"
  unfolding read_call_def by (auto elim!: bindr_InrE split: list.splits)

lemma trace_updates_call:
  assumes "trace_updates lib receipt trace = Inr updates" and "map_of updates k = Some c"
  shows "\<exists>path frame. Inr (path, frame, False) \<in> set (walk_trace trace [] False) \<and> is_modify_frame lib frame \<and>
    decode_modify_call lib frame = Inr c"
proof -
  have st: "read_int (dget ''status'' receipt) ''receipt status'' = Inr 1" and "\<exists>logs. dget ''logs'' receipt = JArr logs"
    using assms unfolding trace_updates_def by (auto elim!: bindr_InrE split: if_splits json.splits)
  then obtain logs where "dget ''logs'' receipt = JArr logs" by blast
  from trace_updates_exact_aux [OF assms(1) this st] assms(2) obtain key path where "call_of lib trace key (path, c)" by blast
  with read_call_decode show ?thesis unfolding call_of_def by (metis fst_conv snd_conv)
qed

text \<open>
  C28. The cash flow and the fees of a traced row are the return value of a \<^verbatim>\<open>modifyLiquidity\<close> call to
  the pool manager in the trace of its own transaction. The call succeeded, with all the calls around
  it, and has the pool, the range and the liquidity change of the row.
\<close>

theorem v4_cashflows_traced:
  assumes "decode_logs lib logs pools hs receipts traces = Inr rows" and "e \<in> set rows"
    and "le_accounting_basis e = Some ''v4_modifyLiquidity_return''"
  shows "\<exists>trace path frame c. trace_for traces (le_tx_hash e) = Some trace \<and>
    Inr (path, frame, False) \<in> set (walk_trace trace [] False) \<and> is_modify_frame lib frame \<and>
    decode_modify_call lib frame = Inr c \<and>
    le_pool_id e = Some (mc_pool_id c) \<and> le_tick_lower e = Some (mc_tick_lower c) \<and>
    le_tick_upper e = Some (mc_tick_upper c) \<and> le_liquidity_delta e = Some (mc_liquidity_delta c) \<and>
    le_cashflow0 e = Some (mc_caller_delta0 c) \<and> le_cashflow1 e = Some (mc_caller_delta1 c) \<and>
    le_fee_amount0 e = Some (mc_fees_accrued0 c) \<and> le_fee_amount1 e = Some (mc_fees_accrued1 c)"
proof -
  from assms(1) obtain ls c local rows0 ev rows1 rows2 where rows0: "decode_rows lib hs c local ls = Inr rows0"
    and m: "correlate_manager_events lib hs ev rows0 = Inr rows1"
    and t: "enrich_v4_traces lib receipts traces local rows1 = Inr rows2" and rows: "rows = sort_key row_order rows2"
    unfolding decode_logs_def by (auto elim!: bindr_InrE)
  have "untraced e0" if "e0 \<in> set rows0" for e0 using decode_rows_member(2) [OF rows0 that] row_of_untraced by blast
  then have "untraced e1" if "e1 \<in> set rows1" for e1
    using untraced.correlate_manager_events_view [OF m] that by (metis (no_types, lifting) image_iff list.set_map)
  then have "traced_ok lib receipts traces rows1" by (auto simp: traced_ok_def untraced_def)
  from enrich_v4_traces_traced [OF t this] assms(2,3) have "traced_by lib receipts traces e"
    by (simp add: traced_ok_def rows TRACED_def)
  then show ?thesis unfolding traced_by_def using trace_updates_call by blast
qed

end
