(* ===== verification/Lp_Call.thy ===== *)
theory Lp_Call
  imports Lp_Trace
begin

text \<open>
  Reading undoes encoding for a whole \<^verbatim>\<open>modifyLiquidity\<close> call: the calldata with any hook data, and the
  two balance deltas it returns, each packed into one word.
\<close>

section \<open>Balance deltas\<close>

definition packed_delta :: "int \<Rightarrow> int \<Rightarrow> int" where
  "packed_delta a b = a mod 2 ^ 128 * 2 ^ 128 + b mod 2 ^ 128"

lemma signed_half: "- (2 ^ 127) \<le> a \<Longrightarrow> a < 2 ^ 127 \<Longrightarrow>
  (if a mod 2 ^ 128 \<ge> 2 ^ 127 then a mod 2 ^ 128 - 2 ^ 128 else a mod 2 ^ 128) = (a :: int)"
proof (cases "a < 0")
  case True
  assume a: "- (2 ^ 127) \<le> a"
  then have "(a + 2 ^ 128) mod 2 ^ 128 = a + 2 ^ 128" using True by (intro mod_pos_pos_trivial) auto
  then have "a mod 2 ^ 128 = a + 2 ^ 128" by simp
  then show ?thesis using a True by simp
qed simp

lemma unpacked_delta:
  assumes "- (2 ^ 127) \<le> a" "a < 2 ^ 127" "- (2 ^ 127) \<le> b" "b < 2 ^ 127"
  shows "decode_balance_delta (packed_delta a b) = (a, b)"
proof -
  have b: "0 \<le> b mod 2 ^ 128" "b mod 2 ^ 128 < 2 ^ (128::nat)" by (auto intro: pos_mod_bound)
  have w: "packed_delta a b mod 2 ^ 128 = b mod 2 ^ 128" by (simp add: packed_delta_def)
  have h: "drop_bit 128 (packed_delta a b) = a mod 2 ^ 128"
    using b by (simp add: drop_bit_eq_div packed_delta_def div_add1_eq)
  show ?thesis
    unfolding decode_balance_delta_def Let_def and_low_bits w h mod_mod_trivial signed_half [OF assms(1,2)]
      signed_half [OF assms(3,4)] by (rule refl)
qed
section \<open>Calls\<close>

text \<open>The calldata that the ABI prescribes for a call, and the pool it is about.\<close>

definition zero_padding :: "nat \<Rightarrow> bytes" where
  "zero_padding n = replicate ((n + 31) div 32 * 32 - n) 0"

definition call_words :: "modify_call \<Rightarrow> int \<Rightarrow> int \<Rightarrow> int \<Rightarrow> int \<Rightarrow> nat \<Rightarrow> int list" where
  "call_words c t0 t1 h salt n =
     [t0, t1, mc_configured_fee c, mc_tick_spacing c, h, mc_tick_lower c, mc_tick_upper c, mc_liquidity_delta c,
      salt, 320, int n]"

definition encode_call :: "bytes \<Rightarrow> modify_call \<Rightarrow> int \<Rightarrow> int \<Rightarrow> int \<Rightarrow> int \<Rightarrow> bytes \<Rightarrow> bytes" where
  "encode_call sel c t0 t1 h salt hook_data =
     sel @ concat (map enc_word (call_words c t0 t1 h salt (length hook_data))) @ hook_data @ zero_padding (length hook_data)"

definition encode_deltas :: "modify_call \<Rightarrow> bytes" where
  "encode_deltas c = enc_word (packed_delta (mc_caller_delta0 c) (mc_caller_delta1 c)) @
     enc_word (packed_delta (mc_fees_accrued0 c) (mc_fees_accrued1 c))"

definition int_within :: "nat \<Rightarrow> int \<Rightarrow> bool" where
  "int_within bits n \<longleftrightarrow> - (2 ^ (bits - 1)) \<le> n \<and> n < 2 ^ (bits - 1)"

definition is_uint :: "nat \<Rightarrow> int \<Rightarrow> bool" where
  "is_uint bits n \<longleftrightarrow> 0 \<le> n \<and> n < 2 ^ bits"

text \<open>What Solidity's types let a call be.\<close>

definition typed_call :: "eth_lib \<Rightarrow> modify_call \<Rightarrow> int \<Rightarrow> int \<Rightarrow> int \<Rightarrow> int \<Rightarrow> bool" where
  "typed_call lib c t0 t1 h salt \<longleftrightarrow>
     is_uint 160 t0 \<and> is_uint 160 t1 \<and> is_uint 160 h \<and> is_uint 256 salt \<and> is_uint 24 (mc_configured_fee c) \<and>
     int_within 24 (mc_tick_spacing c) \<and> int_within 24 (mc_tick_lower c) \<and> int_within 24 (mc_tick_upper c) \<and>
     int_within 256 (mc_liquidity_delta c) \<and> int_within 128 (mc_caller_delta0 c) \<and> int_within 128 (mc_caller_delta1 c) \<and>
     int_within 128 (mc_fees_accrued0 c) \<and> int_within 128 (mc_fees_accrued1 c) \<and>
     mc_token0 c = hex0x (be_bytes 20 t0) \<and> mc_token1 c = hex0x (be_bytes 20 t1) \<and> mc_hook c = hex0x (be_bytes 20 h) \<and>
     mc_salt c = salt_text salt \<and>
     mc_pool_id c = hex0x (keccak lib (concat (map enc_word [t0, t1, mc_configured_fee c, mc_tick_spacing c, h])))"

lemma raw_words_append:
  "length ns = k \<Longrightarrow> i < k \<Longrightarrow> raw_words (concat (map enc_word ns) @ rest) ! i = twos (ns ! i)"
proof -
  assume a: "length ns = k" "i < k"
  have l: "length (concat (map enc_word ns)) = 32 * k" using a by (simp add: length_concat_words)
  have "i < length (concat (map enc_word ns) @ rest) div 32" using a l by simp
  moreover have "take 32 (drop (32 * i) (concat (map enc_word ns) @ rest)) = enc_word (ns ! i)"
    using a l take_concat_words [of i ns] by simp
  ultimately show ?thesis by (simp add: raw_words_def)
qed

lemma uint_reads [simp]:
  "is_uint bits n \<Longrightarrow> bits \<le> 256 \<Longrightarrow> abi_uint (twos n) bits name = Inr n"
  "int_within bits n \<Longrightarrow> 0 < bits \<Longrightarrow> bits \<le> 256 \<Longrightarrow> abi_sint (twos n) bits name = Inr n"
  "is_uint 160 n \<Longrightarrow> word_address (twos n) name = Inr (hex0x (be_bytes 20 n))"
  by (simp_all add: is_uint_def int_within_def word_address_def)

lemma be_bytes_nonempty [simp]: "be_bytes (Suc k) n \<noteq> []"
  by simp

lemma address_int: "is_uint 160 n \<Longrightarrow> int_base16 (hex0x (be_bytes 20 n)) = Inr n"
proof -
  assume "is_uint 160 n"
  then have "from_bytes_big (be_bytes 20 n) = n" by (simp add: is_uint_def from_be_bytes)
  moreover have "be_bytes 20 n \<noteq> []" using length_be_bytes [of 20 n] by fastforce
  ultimately show ?thesis by simp
qed

lemma to_bytes_word: "is_uint bits n \<Longrightarrow> bits \<le> 256 \<Longrightarrow> to_bytes_big 32 n = Inr (enc_word n)"
proof -
  assume n: "is_uint bits n" "bits \<le> 256"
  then have "twos n = n" by (auto simp: is_uint_def intro: twos_unsigned)
  moreover have "(2::int) ^ bits \<le> 2 ^ 256" using n(2) by (rule power_increasing) simp
  ultimately show ?thesis using n(1) by (simp add: to_bytes_big_def enc_word_def is_uint_def)
qed

lemma to_bytes_signed_word: "int_within 24 n \<Longrightarrow> to_bytes_big 32 (if n \<ge> 0 then n else 2 ^ 256 + n) = Inr (enc_word n)"
proof -
  assume n: "int_within 24 n"
  then have "twos n = (if n < 0 then n + 2 ^ 256 else n)" by (intro twos_small) (auto simp: int_within_def)
  with n show ?thesis by (auto simp: to_bytes_big_def enc_word_def int_within_def add.commute)
qed

lemma pool_id_of_call:
  "typed_call lib c t0 t1 h salt \<Longrightarrow>
   v4_pool_id lib (mc_token0 c) (mc_token1 c) (mc_configured_fee c) (mc_tick_spacing c) (mc_hook c) = Inr (mc_pool_id c)"
  using to_bytes_word [of 160] to_bytes_word [of 24]
  by (simp add: typed_call_def v4_pool_id_def address_int to_bytes_signed_word del: concat.simps list.map(2)) simp

text \<open>The arguments as the decoder sees them, behind the selector.\<close>

definition call_args :: "modify_call \<Rightarrow> int \<Rightarrow> int \<Rightarrow> int \<Rightarrow> int \<Rightarrow> bytes \<Rightarrow> bytes" where
  "call_args c t0 t1 h salt hook_data =
     concat (map enc_word (call_words c t0 t1 h salt (length hook_data))) @ hook_data @ zero_padding (length hook_data)"

lemma length_call_words: "length (call_words c t0 t1 h salt n) = 11"
  by (simp add: call_words_def)

lemma padded_length: "n + length (zero_padding n) = (n + 31) div 32 * 32"
  by (simp add: zero_padding_def)

lemma length_call_args: "length (call_args c t0 t1 h salt hook) = 352 + (length hook + 31) div 32 * 32"
  using padded_length [of "length hook"] by (simp add: call_args_def length_concat_words length_call_words)

lemma call_args_words:
  "i < 11 \<Longrightarrow> raw_words (call_args c t0 t1 h salt hook) ! i = twos (call_words c t0 t1 h salt (length hook) ! i)"
  unfolding call_args_def by (rule raw_words_append) (simp_all add: length_call_words)

lemma hook_data_ok:
  assumes "int (length hook) < 2 ^ 256"
  shows "check_hook_data (call_args c t0 t1 h salt hook) (raw_words (call_args c t0 t1 h salt hook)) = Inr ()"
proof -
  let ?all = "call_args c t0 t1 h salt hook"
  have w: "raw_words ?all ! 9 = 320" "raw_words ?all ! 10 = int (length hook)"
    using assms by (simp_all add: call_args_words call_words_def twos_def)
  have d: "drop (352 + length hook) ?all = zero_padding (length hook)"
    by (simp add: call_args_def length_concat_words length_call_words)
  have "(int (length hook) + 31) div 32 * 32 = int ((length hook + 31) div 32 * 32)"
    by (simp add: zdiv_int)
  with w show ?thesis
    using d unfolding check_hook_data_def Let_def
    by (simp add: length_call_args nat_add_distrib ensure_def zero_padding_def list_all_iff)
qed

text \<open>
  C29. Decoding undoes encoding: from the calldata of a \<^verbatim>\<open>modifyLiquidity\<close> call with any hook data and
  its two returned balance deltas, every field of the call comes back, negative numbers included, with
  the pool's hash and the salt.
\<close>

theorem modify_call_roundtrip:
  assumes "typed_call lib c t0 t1 h salt" and "int (length hook_data) < 2 ^ 256"
    and "MODIFY_LIQUIDITY_SELECTOR lib = hex0x sel" and "length sel = 4"
    and "dget ''input'' frame = JStr (hex0x (encode_call sel c t0 t1 h salt hook_data))"
    and "dget ''output'' frame = JStr (hex0x (encode_deltas c))"
  shows "decode_modify_call lib frame = Inr c"
proof -
  let ?args = "call_args c t0 t1 h salt hook_data"
  have input: "encode_call sel c t0 t1 h salt hook_data = sel @ ?args" by (simp add: encode_call_def call_args_def)
  have ws: "raw_words ?args ! 0 = twos t0" "raw_words ?args ! 1 = twos t1" "raw_words ?args ! 2 = twos (mc_configured_fee c)"
    "raw_words ?args ! 3 = twos (mc_tick_spacing c)" "raw_words ?args ! 4 = twos h" "raw_words ?args ! 5 = twos (mc_tick_lower c)"
    "raw_words ?args ! 6 = twos (mc_tick_upper c)" "raw_words ?args ! 7 = twos (mc_liquidity_delta c)"
    "raw_words ?args ! 8 = twos salt"
    by (simp_all add: call_args_words call_words_def)
  have salt: "twos salt = salt" using assms(1) by (intro twos_unsigned [where bits = 256]) (simp_all add: typed_call_def is_uint_def)
  have packed: "twos (packed_delta a b) = packed_delta a b" for a b
  proof (rule twos_unsigned [where bits = 256])
    have "a mod 2 ^ 128 * 2 ^ 128 + b mod 2 ^ 128 \<le> (2 ^ 128 - 1) * 2 ^ 128 + (2 ^ 128 - 1 :: int)"
      using pos_mod_bound [of "2 ^ 128 :: int" a] pos_mod_bound [of "2 ^ 128 :: int" b] by (intro add_mono mult_right_mono) auto
    then show "packed_delta a b < 2 ^ 256" by (simp add: packed_delta_def)
  qed (simp_all add: packed_delta_def)
  have deltas: "decode_balance_delta (packed_delta (mc_caller_delta0 c) (mc_caller_delta1 c)) = (mc_caller_delta0 c, mc_caller_delta1 c)"
    "decode_balance_delta (packed_delta (mc_fees_accrued0 c) (mc_fees_accrued1 c)) = (mc_fees_accrued0 c, mc_fees_accrued1 c)"
    using assms(1) by (auto simp: typed_call_def int_within_def intro!: unpacked_delta)
  show ?thesis
    unfolding decode_modify_call_def Let_def assms(5,6) raw_hex_hex0x bindr.simps input
    using assms(1,3,4) pool_id_of_call [OF assms(1)]
    by (simp add: length_call_args ws ws(2) [unfolded One_nat_def] salt hook_data_ok [OF assms(2)] encode_deltas_def
        packed deltas typed_call_def)
qed

end
