(* ===== verification/Lp_State.thy ===== *)
theory Lp_State
  imports Lp_Decode
begin

text \<open>
  State of positions and pools at the edge of a block: \<^verbatim>\<open>position_state_requests\<close> and
  \<^verbatim>\<open>decode_position_state_results\<close> of \<^verbatim>\<open>src/rhpools/lp_market_protocols.py\<close>. A stored event
  comes with the record of its pool, empty where the store has none.
\<close>

section \<open>Requests\<close>

type_synonym stored_event = "lp_event \<times> jdict"

record state_request =
  rq_identity :: event_id
  rq_field :: string
  rq_decoder :: string
  rq_phase :: string
  rq_block :: int
  rq_to :: address
  rq_data :: string
  rq_extra :: jdict

definition ends_with :: "string \<Rightarrow> string \<Rightarrow> bool" where
  "ends_with part s \<longleftrightarrow> length part \<le> length s \<and> drop (length s - length part) s = part"

definition make_request :: "lp_event \<Rightarrow> string \<Rightarrow> string \<Rightarrow> address \<Rightarrow> string \<Rightarrow> int \<Rightarrow> jdict \<Rightarrow> state_request" where
  "make_request row field decoder to data block extra =
     \<lparr>rq_identity = event_identity row, rq_field = field, rq_decoder = decoder,
       rq_phase = (if ends_with ''before'' field then ''before'' else ''after''), rq_block = block,
       rq_to = to, rq_data = data, rq_extra = extra\<rparr>"

definition fn_selector :: "eth_lib \<Rightarrow> string \<Rightarrow> string" where
  "fn_selector lib signature = take 10 (topic lib signature)"

definition call_data :: "string \<Rightarrow> int \<Rightarrow> lp_exn + string" where
  "call_data sel word = bindr (lift_lp (to_bytes_big 32 word)) (\<lambda>b. Inr (sel @ hex_of_bytes b))"

section \<open>Births and burns of position tokens\<close>

datatype lifecycle = Minted | Burned

type_synonym proof_key = "string \<times> address \<times> int"

definition lifecycle_of :: "lp_event \<Rightarrow> lifecycle list" where
  "lifecycle_of row =
    (let prior = find_address (dget ''prior_owner'' (le_data row)); new = find_address (dget ''new_owner'' (le_data row)) in
     (if dget ''mint'' (le_data row) = JBool True \<and> prior = Some ZERO_ADDRESS \<and> new \<notin> {None, Some ZERO_ADDRESS}
      then [Minted] else []) @
     (if dget ''burn'' (le_data row) = JBool True \<and> new = Some ZERO_ADDRESS \<and> prior \<notin> {None, Some ZERO_ADDRESS}
      then [Burned] else []))"

definition lifecycle_proof :: "lp_event \<Rightarrow> lp_exn + (proof_key \<times> lifecycle) list" where
  "lifecycle_proof row =
    (case (find_address (jtext (le_custody row)), le_token_id row) of
       (Some manager, Some token_id) \<Rightarrow>
         (case map_of MANAGER_INFO manager of
            Some info \<Rightarrow>
              if le_protocol row \<noteq> Some ''nft'' \<or> le_kind row \<noteq> Some ''transfer'' \<or>
                 dget ''manager_protocol'' (le_data row) \<noteq> JStr (mi_protocol info) then Inr []
              else bindr (nft_position_key (JStr manager) token_id) (\<lambda>key.
                if lower (text_or_empty (jtext (le_position_key row))) \<noteq> key then Inr []
                else bindr (read_hash (JStr (le_tx_hash row)) ''lifecycle proof transaction'') (\<lambda>h.
                  Inr (map (\<lambda>c. ((h, manager, token_id), c)) (lifecycle_of row))))
          | None \<Rightarrow> Inr [])
     | _ \<Rightarrow> Inr [])"

section \<open>The calls for one event\<close>

definition POSITION_KINDS :: "string option list" where
  "POSITION_KINDS = [Some ''add'', Some ''remove'', Some ''collect'', Some ''checkpoint'']"

definition core_key_of :: "lp_event \<Rightarrow> lp_exn + string option" where
  "core_key_of row =
    (let legacy = lower (text_or_empty (jtext (le_position_key row)));
         value = (case dget ''core_position_key'' (le_data row) of
                    JNull \<Rightarrow> if is_hash legacy then JStr legacy else JNull | v \<Rightarrow> v) in
     if value = JNull then Inr None
     else bindr (read_hash value ''core position key'') (\<lambda>k. Inr (Some k)))"

text \<open>The token of a row at a known manager, and its key in the proofs where the row's key agrees.\<close>

definition proof_identity :: "lp_event \<Rightarrow> lp_exn + (int \<times> proof_key option) option" where
  "proof_identity row =
    (case (find_address (jtext (le_custody row)), le_token_id row) of
       (Some manager, Some token_id) \<Rightarrow>
         if manager \<notin> set NFT_MANAGER_ADDRESSES then Inr None
         else bindr (nft_position_key (JStr manager) token_id) (\<lambda>key.
           if lower (text_or_empty (jtext (le_position_key row))) = key
           then bindr (read_hash (JStr (le_tx_hash row)) ''NFT event transaction'') (\<lambda>h.
             Inr (Some (token_id, Some (h, manager, token_id))))
           else Inr (Some (token_id, None)))
     | _ \<Rightarrow> Inr None)"

definition proven :: "(proof_key \<times> lifecycle) list \<Rightarrow> proof_key option \<Rightarrow> lifecycle \<Rightarrow> bool" where
  "proven proofs key c \<longleftrightarrow> (case key of None \<Rightarrow> False | Some k \<Rightarrow> (k, c) \<in> set proofs)"

definition mint_basis :: "(proof_key \<times> lifecycle) list \<Rightarrow> proof_key option \<Rightarrow> address option \<Rightarrow> string option" where
  "mint_basis proofs key custody =
    (if proven proofs key Minted
     then Some (if custody \<in> Some ` set V3_NFT_MANAGER_ADDRESSES then ''same_receipt_verified_nfpm_mint''
                else ''same_receipt_verified_v4_manager_mint'')
     else None)"

definition burn_basis :: "(proof_key \<times> lifecycle) list \<Rightarrow> proof_key option \<Rightarrow> address option \<Rightarrow> string option" where
  "burn_basis proofs key custody =
    (if custody = Some V4_POSITION_MANAGER \<and> proven proofs key Burned
     then Some ''same_receipt_verified_v4_manager_burn'' else None)"

definition nfpm_request ::
  "eth_lib \<Rightarrow> (proof_key \<times> lifecycle) list \<Rightarrow> stored_event \<Rightarrow> address \<Rightarrow> int \<Rightarrow> proof_key option \<Rightarrow> string \<Rightarrow> int \<Rightarrow>
   lp_exn + state_request" where
  "nfpm_request lib proofs ev custody token_id key field pin =
    (let row = fst ev; pool = snd ev; after = (field = ''position_after'');
         missing = (if after \<and> proven proofs key Burned then Some ''same_receipt_verified_nfpm_burn'' else None) in
     bindr (call_data (fn_selector lib ''positions(uint256)'') token_id) (\<lambda>data.
       Inr (make_request row field ''v3_nfpm_position'' custody data pin
         [(''manager'', JStr custody), (''token_id'', dec token_id), (''allow_missing'', JBool (missing \<noteq> None)),
          (''missing_basis'', jtext missing),
          (''position_before_absence_basis'', jtext (if after then mint_basis proofs key (Some custody) else None)),
          (''position_before_block'', JInt (max (le_block_number row - 1) 0)),
          (''expected_tick_lower'', jint (le_tick_lower row)), (''expected_tick_upper'', jint (le_tick_upper row)),
          (''expected_token0'', dget ''token0'' pool), (''expected_token1'', dget ''token1'' pool),
          (''expected_fee_ppm'', dget ''fee_ppm'' pool)])))"

definition core_request :: "eth_lib \<Rightarrow> lp_event \<Rightarrow> string \<Rightarrow> string \<Rightarrow> int \<Rightarrow> state_request option" where
  "core_request lib row core_key field pin =
    (case find_address (jtext (le_pool_id row)) of
       None \<Rightarrow> None
     | Some pool \<Rightarrow>
         Some (make_request row field ''v3_core_position'' pool
           (fn_selector lib ''positions(bytes32)'' @ lower (drop 2 core_key)) pin
           [(''allow_empty'', JBool (field = ''position_before'' \<and> le_kind row = Some ''add''))]))"

definition v4_request ::
  "eth_lib \<Rightarrow> (proof_key \<times> lifecycle) list \<Rightarrow> lp_event \<Rightarrow> string \<Rightarrow> proof_key option \<Rightarrow> address option \<Rightarrow> string \<Rightarrow> int \<Rightarrow>
   lp_exn + state_request" where
  "v4_request lib proofs row core_key key custody field pin =
    (let after = (field = ''position_after'') in
     bindr (read_hash (jtext (le_pool_id row)) ''V4 pool id'') (\<lambda>pool_id.
     bindr (read_hash (JStr core_key) ''V4 position key'') (\<lambda>position_key.
       Inr (make_request row field ''v4_state_view_position'' STATE_VIEW
         (fn_selector lib ''getPositionInfo(bytes32,bytes32)'' @ drop 2 pool_id @ drop 2 position_key) pin
         [(''position_before_absence_basis'', jtext (if after then mint_basis proofs key custody else None)),
          (''position_before_block'', JInt (max (le_block_number row - 1) 0)),
          (''position_after_absence_basis'', jtext (if after then burn_basis proofs key custody else None))]))))"

definition position_request ::
  "eth_lib \<Rightarrow> (proof_key \<times> lifecycle) list \<Rightarrow> stored_event \<Rightarrow> string option \<Rightarrow> (int \<times> proof_key option) option \<Rightarrow>
   string \<Rightarrow> int \<Rightarrow> lp_exn + state_request option" where
  "position_request lib proofs ev core_key token field pin =
    (let row = fst ev; custody = find_address (jtext (le_custody row));
         key = (case token of None \<Rightarrow> None | Some (t, k) \<Rightarrow> k) in
     if token \<noteq> None \<and> custody \<in> Some ` set V3_NFT_MANAGER_ADDRESSES then
       bindr (nfpm_request lib proofs ev (the custody) (fst (the token)) key field pin) (\<lambda>r. Inr (Some r))
     else if le_protocol row = Some ''v3'' \<and> core_key \<noteq> None then Inr (core_request lib row (the core_key) field pin)
     else if (le_protocol row = Some ''v4'' \<or> custody = Some V4_POSITION_MANAGER) \<and> le_pool_id row \<noteq> None \<and> core_key \<noteq> None
     then bindr (v4_request lib proofs row (the core_key) key custody field pin) (\<lambda>r. Inr (Some r))
     else Inr None)"

text \<open>The requests made so far with the keys that have been asked.\<close>

type_synonym request_key = "event_id \<times> string \<times> address \<times> string \<times> int"
type_synonym asked = "request_key list \<times> state_request list"

definition ask :: "string \<Rightarrow> state_request \<Rightarrow> asked \<Rightarrow> asked" where
  "ask name r a =
    (let key = (rq_identity r, name, rq_to r, rq_data r, rq_block r) in
     if key \<in> set (fst a) then a else (key # fst a, snd a @ [r]))"

definition ask_position ::
  "eth_lib \<Rightarrow> (proof_key \<times> lifecycle) list \<Rightarrow> stored_event \<Rightarrow> string option \<Rightarrow> (int \<times> proof_key option) option \<Rightarrow>
   string \<Rightarrow> int \<Rightarrow> asked \<Rightarrow> lp_exn + asked" where
  "ask_position lib proofs ev core_key token field pin a =
    (let key = (case token of None \<Rightarrow> None | Some (t, k) \<Rightarrow> k) in
     if field = ''position_before'' \<and> mint_basis proofs key (find_address (jtext (le_custody (fst ev)))) \<noteq> None then Inr a
     else bindr (position_request lib proofs ev core_key token field pin) (\<lambda>r.
       Inr (case r of None \<Rightarrow> a | Some q \<Rightarrow> ask (rq_field q) q a)))"

definition pool_components :: "eth_lib \<Rightarrow> lp_event \<Rightarrow> lp_exn + (string \<times> address option \<times> string) list" where
  "pool_components lib row =
    (if le_protocol row = Some ''v3'' then
       (let target = find_address (jtext (le_pool_id row)) in
        Inr [(''v3_pool_slot0'', target, fn_selector lib ''slot0()''),
          (''v3_pool_liquidity'', target, fn_selector lib ''liquidity()'')])
     else bindr (read_hash (jtext (le_pool_id row)) ''V4 pool id'') (\<lambda>pool_id.
       Inr [(''v4_pool_slot0'', Some STATE_VIEW, fn_selector lib ''getSlot0(bytes32)'' @ drop 2 pool_id),
         (''v4_pool_liquidity'', Some STATE_VIEW, fn_selector lib ''getLiquidity(bytes32)'' @ drop 2 pool_id)]))"

definition pool_request :: "lp_event \<Rightarrow> jdict \<Rightarrow> string \<Rightarrow> address \<Rightarrow> string \<Rightarrow> state_request" where
  "pool_request row pool decoder to data =
     make_request row ''pool_state_before'' decoder to data (max (le_block_number row - 1) 0)
       [(''allow_empty'', JBool (le_protocol row = Some ''v3'')), (''factory'', dget ''factory'' pool)]"

definition ask_component :: "lp_event \<Rightarrow> jdict \<Rightarrow> string \<times> address option \<times> string \<Rightarrow> asked \<Rightarrow> asked" where
  "ask_component row pool c a =
    (case c of (decoder, target, data) \<Rightarrow>
      (case target of None \<Rightarrow> a | Some to \<Rightarrow> ask decoder (pool_request row pool decoder to data) a))"

definition ask_pool :: "eth_lib \<Rightarrow> stored_event \<Rightarrow> asked \<Rightarrow> lp_exn + asked" where
  "ask_pool lib ev a =
    (let row = fst ev in
     if le_kind row \<notin> set POSITION_KINDS \<or> le_protocol row \<notin> {Some ''v3'', Some ''v4''} \<or> le_position_key row = None
     then Inr a
     else bindr (pool_components lib row) (\<lambda>cs. Inr (fold (ask_component row (snd ev)) cs a)))"

definition ask_event :: "eth_lib \<Rightarrow> (proof_key \<times> lifecycle) list \<Rightarrow> stored_event \<Rightarrow> asked \<Rightarrow> lp_exn + asked" where
  "ask_event lib proofs ev a =
    (let row = fst ev; block = le_block_number row in
     if le_kind row \<notin> set (Some ''transfer'' # POSITION_KINDS) then Inr a
     else
       bindr (core_key_of row) (\<lambda>core_key.
       bindr (proof_identity row) (\<lambda>token.
       bindr (ask_position lib proofs ev core_key token ''position_before'' (max (block - 1) 0) a) (\<lambda>a1.
       bindr (ask_position lib proofs ev core_key token ''position_after'' block a1) (\<lambda>a2.
         ask_pool lib ev a2)))))"

fun ask_events :: "eth_lib \<Rightarrow> (proof_key \<times> lifecycle) list \<Rightarrow> stored_event list \<Rightarrow> asked \<Rightarrow> lp_exn + asked" where
  "ask_events lib proofs [] a = Inr a"
| "ask_events lib proofs (ev # evs) a = bindr (ask_event lib proofs ev a) (ask_events lib proofs evs)"

definition position_state_requests :: "eth_lib \<Rightarrow> stored_event list \<Rightarrow> lp_exn + state_request list" where
  "position_state_requests lib events =
    (let ordered = sort_key (\<lambda>ev. row_order (fst ev)) events in
     bindr (map_res (\<lambda>ev. lifecycle_proof (fst ev)) ordered) (\<lambda>proofs.
     bindr (ask_events lib (concat proofs) ordered ([], [])) (\<lambda>a. Inr (snd a))))"

section \<open>Replies\<close>

text \<open>
  \<^verbatim>\<open>_RPC_REVERT_DATA_RE\<close>: the first \<^verbatim>\<open>"data": "0x..."\<close> of an error text, with either quote.
\<close>

definition is_quote :: "char \<Rightarrow> bool" where
  "is_quote c \<longleftrightarrow> c = CHR 0x22 \<or> c = CHR 0x27"

definition match_value :: "string \<Rightarrow> string option" where
  "match_value s =
    (case dropWhile is_space s of
       c # r \<Rightarrow>
         if c \<noteq> CHR '':'' then None
         else (case dropWhile is_space r of
            q # v \<Rightarrow>
              if is_quote q \<and> take 2 v = ''0x'' then
                (let h = takeWhile (\<lambda>c. hex_value c \<noteq> None) (drop 2 v) in
                 case drop (2 + length h) v of
                   q2 # _ \<Rightarrow> if is_quote q2 then Some (''0x'' @ h) else None
                 | [] \<Rightarrow> None)
              else None
          | [] \<Rightarrow> None)
     | [] \<Rightarrow> None)"

definition match_data :: "string \<Rightarrow> string option" where
  "match_data s =
    (if length s \<ge> 6 \<and> is_quote (s ! 0) \<and> take 4 (drop 1 s) = ''data'' \<and> is_quote (s ! 5)
     then match_value (drop 6 s) else None)"

fun search_data :: "string \<Rightarrow> string option" where
  "search_data [] = None"
| "search_data (c # s) = (case match_data (c # s) of Some v \<Rightarrow> Some v | None \<Rightarrow> search_data s)"

text \<open>
  \<^verbatim>\<open>_solidity_error_reason\<close>, before its text is decoded: the callers compare it with ASCII text, which
  bytes that are not UTF-8 never are.
\<close>

definition error_reason :: "json \<Rightarrow> bytes option" where
  "error_reason err =
    (let value = (case err of JObj d \<Rightarrow> dget ''data'' d | JStr s \<Rightarrow> jtext (search_data s) | _ \<Rightarrow> JNull) in
     case raw_hex value ''RPC revert data'' of
       Inl e \<Rightarrow> None
     | Inr raw \<Rightarrow>
         if length raw < 68 \<or> hex_of_bytes (take 4 raw) \<noteq> ''08c379a0'' then None
         else
           (let payload = drop 4 raw; offset = from_bytes_big (take 32 payload);
                size = from_bytes_big (take 32 (drop 32 payload)); padded = (size + 31) div 32 * 32 in
            if offset \<noteq> 32 \<or> int (length payload) \<noteq> 64 + padded then None
            else if \<not> list_all (\<lambda>b. b = 0) (drop (64 + nat size) payload) then None
            else Some (take (nat size) (drop 64 payload))))"

definition rpc_result :: "json \<Rightarrow> jdict \<Rightarrow> lp_exn + string option" where
  "rpc_result reply extra =
    (let error = (case reply of JObj d \<Rightarrow> dget ''error'' d | _ \<Rightarrow> JNull) in
     if error \<noteq> JNull then
       if truthy (dget ''allow_missing'' extra) \<and> error_reason error = Some (text_bytes ''Invalid token ID'') then Inr None
       else Inl (PinnedCallFailed ''pinned eth_call failed'')
     else
       (let result = (case reply of JObj d \<Rightarrow> dget ''result'' d | v \<Rightarrow> v) in
        if result = JStr ''0x'' \<and> truthy (dget ''allow_empty'' extra) then Inr None
        else case result of JStr s \<Rightarrow> Inr (Some s) | _ \<Rightarrow> Inl (PinnedCallFailed ''pinned eth_call returned no hex result'')))"

section \<open>Positions\<close>

definition absent_position :: jdict where
  "absent_position =
    [(''exists'', JBool False), (''liquidity'', JStr ''0''), (''tokens_owed0'', JStr ''0''), (''tokens_owed1'', JStr ''0''),
     (''claims_empty'', JBool True), (''absence_basis'', JStr ''block_pinned_contract_or_token_absent'')]"

definition v3_core_position :: "json \<Rightarrow> lp_exn + jdict" where
  "v3_core_position result =
     bindr (abi_words result ''V3 core position result'' 5) (\<lambda>ws.
     bindr (abi_uint (ws ! 3) 128 ''V3 tokensOwed0'') (\<lambda>owed0.
     bindr (abi_uint (ws ! 4) 128 ''V3 tokensOwed1'') (\<lambda>owed1.
     bindr (abi_uint (ws ! 0) 128 ''V3 position liquidity'') (\<lambda>liquidity.
       Inr [(''exists'', JBool (list_ex (\<lambda>w. w \<noteq> 0) ws)), (''liquidity'', dec liquidity),
         (''fee_growth_inside0_last_x128'', dec (ws ! 1)), (''fee_growth_inside1_last_x128'', dec (ws ! 2)),
         (''tokens_owed0'', dec owed0), (''tokens_owed1'', dec owed1),
         (''claims_empty'', JBool (owed0 = 0 \<and> owed1 = 0)), (''source'', JStr ''v3_core.positions'')]))))"

definition v3_nfpm_position :: "json \<Rightarrow> lp_exn + jdict" where
  "v3_nfpm_position result =
     bindr (abi_words result ''V3 NFPM position result'' 12) (\<lambda>ws.
     bindr (abi_uint (ws ! 10) 128 ''NFPM tokensOwed0'') (\<lambda>owed0.
     bindr (abi_uint (ws ! 11) 128 ''NFPM tokensOwed1'') (\<lambda>owed1.
     bindr (abi_uint (ws ! 0) 96 ''NFPM nonce'') (\<lambda>nonce.
     bindr (word_address (ws ! 1) ''NFPM operator'') (\<lambda>operator.
     bindr (word_address (ws ! 2) ''NFPM token0'') (\<lambda>token0.
     bindr (word_address (ws ! 3) ''NFPM token1'') (\<lambda>token1.
     bindr (abi_uint (ws ! 4) 24 ''NFPM fee'') (\<lambda>fee.
     bindr (abi_sint (ws ! 5) 24 ''NFPM tickLower'') (\<lambda>lo.
     bindr (abi_sint (ws ! 6) 24 ''NFPM tickUpper'') (\<lambda>hi.
     bindr (abi_uint (ws ! 7) 128 ''NFPM liquidity'') (\<lambda>liquidity.
       Inr [(''exists'', JBool True), (''nonce'', dec nonce), (''operator'', JStr operator), (''token0'', JStr token0),
         (''token1'', JStr token1), (''fee_ppm'', JInt fee), (''tick_lower'', JInt lo), (''tick_upper'', JInt hi),
         (''liquidity'', dec liquidity),
         (''fee_growth_inside0_last_x128'', dec (ws ! 8)), (''fee_growth_inside1_last_x128'', dec (ws ! 9)),
         (''tokens_owed0'', dec owed0), (''tokens_owed1'', dec owed1),
         (''claims_empty'', JBool (owed0 = 0 \<and> owed1 = 0)), (''source'', JStr ''verified_nfpm.positions'')])))))))))))"

definition v4_state_position :: "json \<Rightarrow> lp_exn + jdict" where
  "v4_state_position result =
     bindr (abi_words result ''V4 StateView position result'' 3) (\<lambda>ws.
     bindr (abi_uint (ws ! 0) 128 ''V4 position liquidity'') (\<lambda>liquidity.
       Inr [(''exists'', if liquidity \<noteq> 0 \<or> ws ! 1 \<noteq> 0 \<or> ws ! 2 \<noteq> 0 then JBool True else JNull),
         (''liquidity'', dec liquidity),
         (''fee_growth_inside0_last_x128'', dec (ws ! 1)), (''fee_growth_inside1_last_x128'', dec (ws ! 2)),
         (''tokens_owed0'', JNull), (''tokens_owed1'', JNull),
         (''claims_empty'', if liquidity = 0 then JBool True else JNull),
         (''claim_model'', JStr ''fees_settled_on_modify_no_tokens_owed_storage''),
         (''source'', JStr ''v4_state_view.getPositionInfo'')]))"

definition decode_position_result :: "string \<Rightarrow> string option \<Rightarrow> lp_exn + jdict" where
  "decode_position_result decoder result =
    (case result of
       None \<Rightarrow> Inr absent_position
     | Some r \<Rightarrow>
         if decoder = ''v3_core_position'' then v3_core_position (JStr r)
         else if decoder = ''v3_nfpm_position'' then v3_nfpm_position (JStr r)
         else if decoder = ''v4_state_view_position'' then v4_state_position (JStr r)
         else bad_record (''unknown position result decoder '' @ decoder))"

text \<open>An absent token needs the proof that its transaction burned it.\<close>

definition check_absence :: "string \<Rightarrow> jdict \<Rightarrow> jdict \<Rightarrow> lp_exn + jdict" where
  "check_absence decoder extra position =
    (if decoder = ''v3_nfpm_position'' \<and> \<not> truthy (dget ''exists'' position) then
       (case dget ''missing_basis'' extra of
          JStr s \<Rightarrow> Inr (od_set ''absence_basis'' (JStr s) position)
        | _ \<Rightarrow> bad_record ''NFPM position absence lacks same-receipt lifecycle proof'')
     else Inr position)"

definition COMPARISONS :: "(string \<times> string) list" where
  "COMPARISONS =
    [(''tick_lower'', ''expected_tick_lower''), (''tick_upper'', ''expected_tick_upper''), (''fee_ppm'', ''expected_fee_ppm''),
     (''token0'', ''expected_token0''), (''token1'', ''expected_token1'')]"

definition compare_field :: "jdict \<Rightarrow> jdict \<Rightarrow> string \<times> string \<Rightarrow> lp_exn + unit" where
  "compare_field extra position names =
    (case names of (actual_name, expected_name) \<Rightarrow>
      (case dget expected_name extra of
         JNull \<Rightarrow> Inr ()
       | v \<Rightarrow>
           bindr (if take 5 actual_name = ''token'' then bindr (read_address v expected_name) (\<lambda>a. Inr (JStr a))
                  else bindr (read_int v expected_name) (\<lambda>n. Inr (JInt n))) (\<lambda>expected.
             ensure (dget actual_name position = expected)
               (ProtocolDecodeError (''NFPM token state '' @ actual_name @ '' does not match core event'')))))"

definition check_expected :: "string \<Rightarrow> jdict \<Rightarrow> jdict \<Rightarrow> lp_exn + unit" where
  "check_expected decoder extra position =
    (if decoder = ''v3_nfpm_position'' \<and> truthy (dget ''exists'' position)
     then bindr (map_res (compare_field extra position) COMPARISONS) (\<lambda>_. Inr ()) else Inr ())"

definition check_burned :: "string \<Rightarrow> string \<Rightarrow> jdict \<Rightarrow> jdict \<Rightarrow> lp_exn + jdict" where
  "check_burned decoder field extra position =
    (case dget ''position_after_absence_basis'' extra of
       JNull \<Rightarrow> Inr position
     | basis \<Rightarrow>
         if decoder \<noteq> ''v4_state_view_position'' \<or> field \<noteq> ''position_after'' \<or>
            basis \<noteq> JStr ''same_receipt_verified_v4_manager_burn'' \<or> dget ''liquidity'' position \<noteq> JStr ''0''
         then bad_record ''verified V4 manager burn absence proof is inconsistent''
         else Inr (dput position [(''nft_exists'', JBool False), (''nft_absence_basis'', basis)]))"

definition unborn_v4 :: jdict where
  "unborn_v4 =
    [(''exists'', JBool False), (''liquidity'', JStr ''0''), (''fee_growth_inside0_last_x128'', JStr ''0''),
     (''fee_growth_inside1_last_x128'', JStr ''0''), (''tokens_owed0'', JNull), (''tokens_owed1'', JNull),
     (''claims_empty'', JBool True), (''claim_model'', JStr ''fees_settled_on_modify_no_tokens_owed_storage''),
     (''source'', JStr ''verified_v4_manager_mint_absence'')]"

text \<open>The state before a verified mint, which is not read but known to be empty.\<close>

definition state_before_mint :: "string \<Rightarrow> string \<Rightarrow> int \<Rightarrow> jdict \<Rightarrow> lp_exn + jdict" where
  "state_before_mint decoder field block extra =
    (case dget ''position_before_absence_basis'' extra of
       JNull \<Rightarrow> Inr []
     | basis \<Rightarrow>
         bindr (read_int (dget ''position_before_block'' extra) ''verified mint parent block'') (\<lambda>parent.
           let expected = (if decoder = ''v3_nfpm_position'' then JStr ''same_receipt_verified_nfpm_mint''
                 else if decoder = ''v4_state_view_position'' then JStr ''same_receipt_verified_v4_manager_mint'' else JNull) in
           if basis \<noteq> expected \<or> field \<noteq> ''position_after'' \<or> parent \<noteq> max (block - 1) 0
           then bad_record ''verified manager mint absence proof is inconsistent''
           else Inr [(''position_before'', JObj (dput (if decoder = ''v4_state_view_position'' then unborn_v4 else absent_position)
             [(''pinned_block'', JInt parent), (''absence_basis'', basis)]))]))"

definition token_identity :: "string \<Rightarrow> jdict \<Rightarrow> jdict \<Rightarrow> jdict" where
  "token_identity decoder extra position =
    (if decoder = ''v3_nfpm_position'' \<and> truthy (dget ''exists'' position) then
       [(''position_identity'', JObj [(''manager'', dget ''manager'' extra), (''token_id'', dget ''token_id'' extra),
          (''token0'', dget ''token0'' position), (''token1'', dget ''token1'' position),
          (''fee_ppm'', dget ''fee_ppm'' position), (''tick_lower'', dget ''tick_lower'' position),
          (''tick_upper'', dget ''tick_upper'' position), (''identity_basis'', JStr ''verified_nfpm_token_state'')])]
     else [])"

definition position_fields :: "state_request \<Rightarrow> string option \<Rightarrow> lp_exn + jdict" where
  "position_fields rq result =
    (let decoder = rq_decoder rq; field = rq_field rq; extra = rq_extra rq in
     bindr (decode_position_result decoder result) (\<lambda>position.
     bindr (check_absence decoder extra (position @ [(''pinned_block'', JInt (rq_block rq))])) (\<lambda>p1.
     bindr (check_expected decoder extra p1) (\<lambda>_.
     bindr (check_burned decoder field extra p1) (\<lambda>p2.
     bindr (state_before_mint decoder field (rq_block rq) extra) (\<lambda>before.
       Inr ([(field, JObj p2)] @ before @ token_identity decoder extra p2)))))))"

section \<open>Pools\<close>

text \<open>The word of the protocol fee, by the factory of the pool.\<close>

definition slot0_fee :: "address option \<Rightarrow> int list \<Rightarrow> lp_exn + jdict" where
  "slot0_fee factory ws =
    (if factory = Some SLIPSTREAM_FACTORY then
       Inr [(''fee_protocol'', JNull), (''fee_protocol0_divisor'', JNull), (''fee_protocol1_divisor'', JNull),
         (''fee_protocol_encoding'', JStr ''not_exposed_by_slipstream_slot0''),
         (''fee_protocol_basis'', JStr ''unknown_not_exposed''), (''source'', JStr ''slipstream_cl_pool.slot0+liquidity'')]
     else if factory \<in> {Some PANCAKE_V3_FACTORY, Some EXTENDED_V3_FACTORY} then
       bindr (abi_uint (ws ! 5) 32 ''extended V3 slot0 feeProtocol'') (\<lambda>fee.
         Inr [(''fee_protocol'', JInt fee), (''fee_protocol0_ppm'', JInt (fee AND 0xFFFF)),
           (''fee_protocol1_ppm'', JInt (drop_bit 16 fee)),
           (''fee_protocol_encoding'', JStr (if factory = Some PANCAKE_V3_FACTORY then ''pancake_uint16_ppm_each'' else ''extended_v3_uint16_ppm_each'')),
           (''source'', JStr (if factory = Some PANCAKE_V3_FACTORY then ''pancake_v3_core.slot0+liquidity'' else ''extended_v3_core.slot0+liquidity''))])
     else if factory = Some UNISWAP_V3_FACTORY then
       bindr (abi_uint (ws ! 5) 8 ''V3 slot0 feeProtocol'') (\<lambda>fee.
         Inr [(''fee_protocol'', JInt fee), (''fee_protocol0_divisor'', JInt (fee AND 0xF)),
           (''fee_protocol1_divisor'', JInt (drop_bit 4 fee)),
           (''fee_protocol_encoding'', JStr ''uniswap_uint4_divisor_each''), (''source'', JStr ''v3_core.slot0+liquidity'')])
     else
       Inr [(''fee_protocol'', JNull), (''fee_protocol_raw'', dec (ws ! 5)), (''fee_protocol0_divisor'', JNull),
         (''fee_protocol1_divisor'', JNull), (''fee_protocol_encoding'', JStr ''unknown_v3_fee_policy''),
         (''fee_protocol_basis'', JStr ''unknown_contract_abi''), (''source'', JStr ''v3_compatible_pool.slot0+liquidity'')])"

definition v3_slot0_fields :: "address option \<Rightarrow> json \<Rightarrow> lp_exn + jdict" where
  "v3_slot0_fields factory result =
    (let slipstream = (factory = Some SLIPSTREAM_FACTORY) in
     bindr (abi_words result ''V3 slot0 result'' (if slipstream then 6 else 7)) (\<lambda>ws.
     bindr (abi_uint (ws ! 0) 160 ''V3 slot0 sqrtPriceX96'') (\<lambda>sqrt_price.
     bindr (abi_sint (ws ! 1) 24 ''V3 slot0 tick'') (\<lambda>tick.
     bindr (abi_uint (ws ! 2) 16 ''V3 slot0 observationIndex'') (\<lambda>index.
     bindr (abi_uint (ws ! 3) 16 ''V3 slot0 observationCardinality'') (\<lambda>cardinality.
     bindr (abi_uint (ws ! 4) 16 ''V3 slot0 observationCardinalityNext'') (\<lambda>next1.
     bindr (abi_uint (ws ! (if slipstream then 5 else 6)) 1 ''V3 slot0 unlocked'') (\<lambda>unlocked.
     bindr (slot0_fee factory ws) (\<lambda>fee.
       Inr ([(''sqrt_price_x96'', dec sqrt_price), (''tick'', JInt tick), (''observation_index'', JInt index),
         (''observation_cardinality'', JInt cardinality), (''observation_cardinality_next'', JInt next1),
         (''unlocked'', JBool (unlocked \<noteq> 0))] @ fee))))))))))"

definition v4_slot0_fields :: "json \<Rightarrow> lp_exn + jdict" where
  "v4_slot0_fields result =
     bindr (abi_words result ''V4 StateView slot0 result'' 4) (\<lambda>ws.
     bindr (abi_uint (ws ! 2) 24 ''V4 protocol fee'') (\<lambda>fee.
     bindr (abi_uint (ws ! 0) 160 ''V4 sqrtPriceX96'') (\<lambda>sqrt_price.
     bindr (abi_sint (ws ! 1) 24 ''V4 tick'') (\<lambda>tick.
     bindr (abi_uint (ws ! 3) 24 ''V4 LP fee'') (\<lambda>lp_fee.
       Inr [(''sqrt_price_x96'', dec sqrt_price), (''tick'', JInt tick), (''protocol_fee'', JInt fee),
         (''protocol_fee_zero_for_one'', JInt (fee AND 0xFFF)), (''protocol_fee_one_for_zero'', JInt (drop_bit 12 fee)),
         (''lp_fee'', JInt lp_fee), (''source'', JStr ''v4_state_view.getSlot0+getLiquidity'')])))))"

definition liquidity_field :: "json \<Rightarrow> string \<Rightarrow> string \<Rightarrow> lp_exn + jdict" where
  "liquidity_field result name word_name =
     bindr (abi_words result name 1) (\<lambda>ws.
     bindr (abi_uint (ws ! 0) 128 word_name) (\<lambda>l. Inr [(''liquidity'', dec l)]))"

definition pool_fields :: "state_request \<Rightarrow> string option \<Rightarrow> lp_exn + jdict" where
  "pool_fields rq result =
    (case result of
       None \<Rightarrow> Inr [(''exists'', JBool False), (''source'', JStr ''pool_not_deployed_at_parent_block'')]
     | Some r \<Rightarrow>
        (let factory = find_address (dget ''factory'' (rq_extra rq)) in
         if rq_decoder rq = ''v3_pool_slot0'' then
           if factory \<notin> Some ` set CONCENTRATED_FACTORIES
           then Inr [(''exists'', JBool False), (''source'', JStr ''factory_unresolved'')]
           else bindr (v3_slot0_fields factory (JStr r)) (\<lambda>fs. Inr ((''exists'', JBool True) # fs))
         else if rq_decoder rq = ''v3_pool_liquidity'' then
           bindr (liquidity_field (JStr r) ''V3 liquidity result'' ''V3 active liquidity'') (\<lambda>fs. Inr ((''exists'', JBool True) # fs))
         else if rq_decoder rq = ''v4_pool_slot0'' then
           bindr (v4_slot0_fields (JStr r)) (\<lambda>fs. Inr ((''exists'', JBool True) # fs))
         else if rq_decoder rq = ''v4_pool_liquidity'' then
           bindr (liquidity_field (JStr r) ''V4 StateView liquidity result'' ''V4 active liquidity'') (\<lambda>fs. Inr ((''exists'', JBool True) # fs))
         else bad_record (''unknown pool-state result decoder '' @ rq_decoder rq)))"

section \<open>Updates\<close>

type_synonym state_updates = "(event_id, jdict) odict"

definition POSITION_DECODERS :: "string list" where
  "POSITION_DECODERS = [''v3_core_position'', ''v3_nfpm_position'', ''v4_state_view_position'']"

definition request_identity :: "state_request \<Rightarrow> lp_exn + event_id" where
  "request_identity rq =
    (case rq_identity rq of (block_hash, tx_hash, log_index) \<Rightarrow>
     bindr (read_hash (JStr block_hash) ''pinned block hash'') (\<lambda>b.
     bindr (read_hash (JStr tx_hash) ''pinned transaction hash'') (\<lambda>t. Inr (b, t, log_index))))"

definition pool_state_of :: "state_request \<Rightarrow> jdict \<Rightarrow> jdict" where
  "pool_state_of rq data =
    (case dget ''pool_state_before'' data of JObj d \<Rightarrow> d | _ \<Rightarrow> [(''pinned_block'', JInt (rq_block rq))])"

definition apply_reply :: "state_request \<times> json \<Rightarrow> state_updates \<Rightarrow> lp_exn + state_updates" where
  "apply_reply p updates =
    (case p of (rq, reply) \<Rightarrow>
     bindr (request_identity rq) (\<lambda>k.
     bindr (rpc_result reply (rq_extra rq)) (\<lambda>result.
       let data = od_get [] k updates in
       if rq_decoder rq \<in> set POSITION_DECODERS then
         bindr (position_fields rq result) (\<lambda>fields. Inr (od_set k (dput data fields) updates))
       else
         bindr (pool_fields rq result) (\<lambda>fields.
           Inr (od_set k (od_set ''pool_state_before'' (JObj (dput (pool_state_of rq data) fields)) data) updates)))))"

fun apply_replies :: "(state_request \<times> json) list \<Rightarrow> state_updates \<Rightarrow> lp_exn + state_updates" where
  "apply_replies [] updates = Inr updates"
| "apply_replies (p # ps) updates = bindr (apply_reply p updates) (apply_replies ps)"

definition decode_position_state_results :: "state_request list \<Rightarrow> json list \<Rightarrow> lp_exn + state_updates" where
  "decode_position_state_results requests results =
    (if length requests \<noteq> length results then bad_record ''pinned request/result count mismatch''
     else apply_replies (zip requests results) [])"

end
