(* ===== verification/Lp_Pins.thy ===== *)
theory Lp_Pins
  imports Lp_State
begin

text \<open>
  The block-pinned calls of \<^verbatim>\<open>position_state_requests\<close> and the decoder of their replies fit together:
  every call reads the state before or after its own event, no call is asked twice, and the proofs of
  births and burns a request carries are those the decoder accepts.
\<close>

section \<open>What holds of every request\<close>

definition pins_of :: "stored_event \<Rightarrow> (string \<times> int) list" where
  "pins_of ev = [(''position_before'', max (le_block_number (fst ev) - 1) 0), (''position_after'', le_block_number (fst ev))]"

text \<open>The name under which a call is remembered, from the request itself.\<close>

definition asked_key :: "state_request \<Rightarrow> request_key" where
  "asked_key r =
     (rq_identity r, if rq_field r = ''pool_state_before'' then rq_decoder r else rq_field r, rq_to r, rq_data r, rq_block r)"

lemma ask_pool_cases:
  assumes "ask_pool lib ev a = Inr b"
  obtains "b = a" | cs where "pool_components lib (fst ev) = Inr cs" "b = fold (ask_component (fst ev) (snd ev)) cs a"
  using assms unfolding ask_pool_def Let_def by (auto split: if_splits elim!: bindr_InrE)

locale request_law =
  fixes lib :: eth_lib and law :: "(proof_key \<times> lifecycle) list \<Rightarrow> stored_event \<Rightarrow> state_request \<Rightarrow> bool"
  assumes position: "position_request lib proofs ev core token field pin = Inr (Some r) \<Longrightarrow> (field, pin) \<in> set (pins_of ev) \<Longrightarrow>
      proof_identity (fst ev) = Inr token \<Longrightarrow> law proofs ev r"
    and pool: "pool_components lib row = Inr cs \<Longrightarrow> (decoder, Some to, data) \<in> set cs \<Longrightarrow>
      law proofs (row, p) (pool_request row p decoder to data)"
begin

definition lawful :: "(proof_key \<times> lifecycle) list \<Rightarrow> stored_event list \<Rightarrow> state_request list \<Rightarrow> bool" where
  "lawful proofs evs rs \<longleftrightarrow> (\<forall>r \<in> set rs. \<exists>ev \<in> set evs. law proofs ev r)"

lemma ask_lawful: "lawful proofs evs (snd a) \<Longrightarrow> ev \<in> set evs \<Longrightarrow> law proofs ev r \<Longrightarrow> lawful proofs evs (snd (ask name r a))"
  by (auto simp: lawful_def ask_def Let_def)

lemma ask_position_lawful:
  assumes "ask_position lib proofs ev core token field pin a = Inr b" and "(field, pin) \<in> set (pins_of ev)"
    and "proof_identity (fst ev) = Inr token" and "lawful proofs evs (snd a)" and "ev \<in> set evs"
  shows "lawful proofs evs (snd b)"
  using assms by (auto simp: ask_position_def Let_def split: if_splits option.splits elim!: bindr_InrE
      intro!: ask_lawful position)

lemma ask_pool_lawful:
  assumes "ask_pool lib ev a = Inr b" and "lawful proofs evs (snd a)" and "ev \<in> set evs"
  shows "lawful proofs evs (snd b)"
  using assms(1)
proof (cases rule: ask_pool_cases)
  case (2 cs)
  have "lawful proofs evs (snd (fold (ask_component (fst ev) (snd ev)) ds c))" if "set ds \<subseteq> set cs" "lawful proofs evs (snd c)" for ds c
    using that
  proof (induction ds arbitrary: c)
    case (Cons d ds)
    have "lawful proofs evs (snd (ask_component (fst ev) (snd ev) d c))"
      using Cons.prems assms(3) pool [OF 2(1), where p = "snd ev"]
      by (cases d) (auto simp: ask_component_def split: option.splits intro!: ask_lawful [where ev = ev])
    with Cons show ?case by simp
  qed simp
  then show ?thesis using assms(2) 2(2) by blast
qed (use assms(2) in simp)

lemma ask_event_lawful:
  "ask_event lib proofs ev a = Inr b \<Longrightarrow> lawful proofs evs (snd a) \<Longrightarrow> ev \<in> set evs \<Longrightarrow> lawful proofs evs (snd b)"
  unfolding ask_event_def Let_def
  by (cases "le_kind (fst ev) \<notin> set (Some ''transfer'' # POSITION_KINDS)")
    (simp, simp only: if_False, elim bindr_InrE,
     rule ask_pool_lawful, assumption, rule ask_position_lawful, assumption, simp add: pins_of_def, assumption,
     rule ask_position_lawful, assumption, simp add: pins_of_def)

lemma ask_events_lawful:
  "ask_events lib proofs evs' a = Inr b \<Longrightarrow> lawful proofs evs (snd a) \<Longrightarrow> set evs' \<subseteq> set evs \<Longrightarrow> lawful proofs evs (snd b)"
  by (induction evs' arbitrary: a) (auto elim!: bindr_InrE dest: ask_event_lawful)

lemma all_lawful:
  assumes "position_state_requests lib events = Inr rs"
  shows "\<exists>proofs. map_res (\<lambda>ev. lifecycle_proof (fst ev)) (sort_key (\<lambda>ev. row_order (fst ev)) events) = Inr proofs \<and>
    lawful (concat proofs) events rs"
proof -
  obtain proofs a where p: "map_res (\<lambda>ev. lifecycle_proof (fst ev)) (sort_key (\<lambda>ev. row_order (fst ev)) events) = Inr proofs"
    and a: "ask_events lib (concat proofs) (sort_key (\<lambda>ev. row_order (fst ev)) events) ([], []) = Inr a" "rs = snd a"
    using assms unfolding position_state_requests_def Let_def by (auto elim!: bindr_InrE)
  have "lawful (concat proofs) events (snd a)"
    by (rule ask_events_lawful [OF a(1)]) (simp_all add: lawful_def)
  with p a(2) show ?thesis by blast
qed

end

section \<open>Pinned to the event\<close>

definition pinned :: "stored_event \<Rightarrow> state_request \<Rightarrow> bool" where
  "pinned ev r \<longleftrightarrow> rq_identity r = event_identity (fst ev) \<and>
     (if rq_phase r = ''before'' then rq_block r = max (le_block_number (fst ev) - 1) 0
      else rq_phase r = ''after'' \<and> rq_block r = le_block_number (fst ev))"

lemma make_request_fields [simp]:
  "rq_identity (make_request row field decoder to data block extra) = event_identity row"
  "rq_field (make_request row field decoder to data block extra) = field"
  "rq_decoder (make_request row field decoder to data block extra) = decoder"
  "rq_block (make_request row field decoder to data block extra) = block"
  "rq_to (make_request row field decoder to data block extra) = to"
  "rq_data (make_request row field decoder to data block extra) = data"
  "rq_extra (make_request row field decoder to data block extra) = extra"
  "rq_phase (make_request row field decoder to data block extra) = (if ends_with ''before'' field then ''before'' else ''after'')"
  by (simp_all add: make_request_def)

lemma field_phases [simp]:
  "ends_with ''before'' ''position_before''" "\<not> ends_with ''before'' ''position_after''"
  "ends_with ''before'' ''pool_state_before''"
  by code_simp+

text \<open>The request for a position, by the contract it asks.\<close>

lemma position_request_cases:
  assumes "position_request lib proofs ev core token field pin = Inr (Some r)"
  obtains (nfpm) custody t key where "token = Some (t, key)" "find_address (jtext (le_custody (fst ev))) = Some custody"
      "custody \<in> set V3_NFT_MANAGER_ADDRESSES" "nfpm_request lib proofs ev custody t key field pin = Inr r"
  | (core) ck where "core_request lib (fst ev) ck field pin = Some r"
  | (state) ck custody key where "key = (case token of None \<Rightarrow> None | Some (t, k) \<Rightarrow> k)"
      "custody = find_address (jtext (le_custody (fst ev)))" "key = None \<or> custody \<notin> Some ` set V3_NFT_MANAGER_ADDRESSES"
      "v4_request lib proofs (fst ev) ck key custody field pin = Inr r"
proof -
  let ?custody = "find_address (jtext (le_custody (fst ev)))" and ?nft = "token \<noteq> None \<and>
      find_address (jtext (le_custody (fst ev))) \<in> Some ` set V3_NFT_MANAGER_ADDRESSES"
  let ?key = "case token of None \<Rightarrow> None | Some (t, k) \<Rightarrow> k"
  show thesis
  proof (cases ?nft)
    case True
    then obtain t key c where "token = Some (t, key)" "?custody = Some c" "c \<in> set V3_NFT_MANAGER_ADDRESSES" by auto
    with True assms show thesis by (intro nfpm) (auto simp: position_request_def Let_def elim!: bindr_InrE)
  next
    case False
    then have "?key = None \<or> ?custody \<notin> Some ` set V3_NFT_MANAGER_ADDRESSES" by (cases token) auto
    with assms core state [OF refl refl] show thesis
      unfolding position_request_def Let_def if_not_P [OF False] by (auto split: if_splits elim!: bindr_InrE)
  qed
qed

lemma request_fields:
  "nfpm_request lib proofs ev custody t key field pin = Inr r \<Longrightarrow> rq_identity r = event_identity (fst ev) \<and>
     rq_field r = field \<and> rq_block r = pin \<and> rq_phase r = (if ends_with ''before'' field then ''before'' else ''after'')"
  "core_request lib row ck field pin = Some r \<Longrightarrow> rq_identity r = event_identity row \<and>
     rq_field r = field \<and> rq_block r = pin \<and> rq_phase r = (if ends_with ''before'' field then ''before'' else ''after'')"
  "v4_request lib proofs row ck key c field pin = Inr r \<Longrightarrow> rq_identity r = event_identity row \<and>
     rq_field r = field \<and> rq_block r = pin \<and> rq_phase r = (if ends_with ''before'' field then ''before'' else ''after'')"
  unfolding nfpm_request_def core_request_def v4_request_def Let_def
  by (auto elim!: bindr_InrE split: option.splits)

lemma position_request_fields:
  "position_request lib proofs ev core token field pin = Inr (Some r) \<Longrightarrow> rq_identity r = event_identity (fst ev) \<and>
     rq_field r = field \<and> rq_block r = pin \<and> rq_phase r = (if ends_with ''before'' field then ''before'' else ''after'')"
  by (erule position_request_cases) (simp_all add: request_fields)

interpretation pinned: request_law lib "\<lambda>proofs. pinned" for lib
proof (unfold_locales, goal_cases)
  case (1 proofs ev core token field pin r)
  from position_request_fields [OF 1(1)] 1(2) show ?case by (auto simp: pinned_def pins_of_def)
next
  case 2
  then show ?case by (simp add: pinned_def pool_request_def)
qed
section \<open>No call twice\<close>

definition remembered :: "asked \<Rightarrow> bool" where
  "remembered a \<longleftrightarrow> set (fst a) = asked_key ` set (snd a) \<and> distinct (map asked_key (snd a))"

lemma ask_remembered:
  "name = (if rq_field r = ''pool_state_before'' then rq_decoder r else rq_field r) \<Longrightarrow> remembered a \<Longrightarrow>
   remembered (ask name r a)"
  by (auto simp: ask_def Let_def asked_key_def remembered_def)

lemma ask_position_remembered:
  assumes "ask_position lib proofs ev core token field pin a = Inr b" and "remembered a"
    and "field \<in> {''position_before'', ''position_after''}"
  shows "remembered b"
proof (cases "b = a")
  case False
  then obtain r where r: "position_request lib proofs ev core token field pin = Inr (Some r)" "b = ask (rq_field r) r a"
    using assms(1) by (auto simp: ask_position_def Let_def split: if_splits option.splits elim!: bindr_InrE)
  have "rq_field r \<noteq> ''pool_state_before''" using position_request_fields [OF r(1)] assms(3) by auto
  then show ?thesis unfolding r(2) by (intro ask_remembered assms(2)) simp
qed (use assms(2) in simp)

lemma ask_pool_remembered:
  assumes "ask_pool lib ev a = Inr b" and "remembered a"
  shows "remembered b"
  using assms(1)
proof (cases rule: ask_pool_cases)
  case (2 cs)
  have "remembered (ask_component row p d c)" if "remembered c" for row p d c
    using that by (cases d) (auto simp: ask_component_def pool_request_def split: option.splits intro!: ask_remembered)
  then have "remembered (fold (ask_component row p) ds c)" if "remembered c" for row p ds c
    using that by (induction ds arbitrary: c) auto
  then show ?thesis using 2 assms(2) by blast
qed (use assms(2) in simp)

lemma ask_event_remembered: "ask_event lib proofs ev a = Inr b \<Longrightarrow> remembered a \<Longrightarrow> remembered b"
  unfolding ask_event_def Let_def
  by (cases "le_kind (fst ev) \<notin> set (Some ''transfer'' # POSITION_KINDS)")
    (simp, simp only: if_False, elim bindr_InrE, rule ask_pool_remembered, assumption,
     rule ask_position_remembered, assumption, rule ask_position_remembered, assumption, assumption, simp_all)

lemma ask_events_remembered: "ask_events lib proofs evs a = Inr b \<Longrightarrow> remembered a \<Longrightarrow> remembered b"
  by (induction evs arbitrary: a) (auto elim!: bindr_InrE dest: ask_event_remembered)

lemma asked_once: "position_state_requests lib events = Inr rs \<Longrightarrow> distinct (map asked_key rs)"
  unfolding position_state_requests_def Let_def
  by (auto elim!: bindr_InrE dest!: ask_events_remembered simp: remembered_def)

text \<open>
  C30. Every request for state is about one of the events. A request of the phase \<^verbatim>\<open>before\<close> reads the
  block before the event's, or block zero, one of the phase \<^verbatim>\<open>after\<close> reads the event's own block; no
  call is made twice for the same event, field, contract, data and block.
\<close>

theorem state_requests_pinned:
  assumes "position_state_requests lib events = Inr rs"
  shows "distinct (map asked_key rs) \<and>
    (\<forall>r \<in> set rs. \<exists>ev \<in> set events. rq_identity r = event_identity (fst ev) \<and>
       (if rq_phase r = ''before'' then rq_block r = max (le_block_number (fst ev) - 1) 0
        else rq_phase r = ''after'' \<and> rq_block r = le_block_number (fst ev)))"
  using asked_once [OF assms] pinned.all_lawful [OF assms] by (auto simp: pinned.lawful_def pinned_def)

section \<open>The decoder accepts what the requests carry\<close>

text \<open>
  The key of an event's token in the proofs, and whether an event of the batch proves that the token
  was minted or burned in the same transaction.
\<close>

definition proof_key_of :: "lp_event \<Rightarrow> proof_key option" where
  "proof_key_of row = (case proof_identity row of Inr (Some (t, key)) \<Rightarrow> key | _ \<Rightarrow> None)"

definition lifecycle_shown :: "stored_event list \<Rightarrow> lp_event \<Rightarrow> lifecycle \<Rightarrow> bool" where
  "lifecycle_shown events row c \<longleftrightarrow>
     (case proof_key_of row of None \<Rightarrow> False
      | Some k \<Rightarrow> (\<exists>ev \<in> set events. case lifecycle_proof (fst ev) of Inr ps \<Rightarrow> (k, c) \<in> set ps | Inl e \<Rightarrow> False))"

text \<open>The replies to a request are decoded with the proofs its event has, and with no others.\<close>

definition decodes_with :: "state_request \<Rightarrow> bool \<Rightarrow> bool \<Rightarrow> bool" where
  "decodes_with r minted burned \<longleftrightarrow>
     (\<exists>before. state_before_mint (rq_decoder r) (rq_field r) (rq_block r) (rq_extra r) = Inr before \<and>
        (if minted then \<exists>p. before = [(''position_before'', JObj p)] \<and> dget ''exists'' p = JBool False \<and>
           dget ''liquidity'' p = JStr ''0'' \<and> dget ''pinned_block'' p = JInt (max (rq_block r - 1) 0)
         else before = [])) \<and>
     truthy (dget ''allow_missing'' (rq_extra r)) = (burned \<and> rq_decoder r = ''v3_nfpm_position'') \<and>
     (rq_decoder r = ''v3_nfpm_position'' \<longrightarrow> (\<exists>fs. position_fields r None = Inr fs) = burned) \<and>
     (\<forall>p. rq_decoder r \<noteq> ''v3_nfpm_position'' \<and> dget ''liquidity'' p = JStr ''0'' \<longrightarrow>
        check_burned (rq_decoder r) (rq_field r) (rq_extra r) p = Inr (if burned
          then dput p [(''nft_exists'', JBool False), (''nft_absence_basis'', JStr ''same_receipt_verified_v4_manager_burn'')]
          else p))"

definition consistent :: "(proof_key \<times> lifecycle) list \<Rightarrow> stored_event \<Rightarrow> state_request \<Rightarrow> bool" where
  "consistent proofs ev r \<longleftrightarrow> rq_decoder r \<in> set POSITION_DECODERS \<longrightarrow>
     (let after = (rq_field r = ''position_after'' \<and> rq_decoder r \<noteq> ''v3_core_position'');
          key = proof_key_of (fst ev) in
      rq_identity r = event_identity (fst ev) \<and>
      decodes_with r (after \<and> proven proofs key Minted) (after \<and> proven proofs key Burned))"

lemma dget_Cons [simp]: "dget k ((j, v) # d) = (if k = j then v else dget k d)" "dget k [] = JNull"
  by (auto simp: dget_def)

lemma jtext_cases [simp]: "jtext None = JNull" "jtext (Some s) = JStr s"
  by (simp_all add: jtext_def)

lemma mint_basis_manager:
  "custody \<in> Some ` set V3_NFT_MANAGER_ADDRESSES \<Longrightarrow> mint_basis proofs key custody \<in> {None, Some ''same_receipt_verified_nfpm_mint''}"
  "custody \<notin> Some ` set V3_NFT_MANAGER_ADDRESSES \<Longrightarrow> mint_basis proofs key custody \<in> {None, Some ''same_receipt_verified_v4_manager_mint''}"
  "mint_basis proofs None custody = None"
  by (simp_all add: mint_basis_def proven_def)

lemma burn_basis_manager: "burn_basis proofs key custody \<in> {None, Some ''same_receipt_verified_v4_manager_burn''}"
  by (simp add: burn_basis_def)

lemma before_field [simp]: "(field, pin) \<in> set (pins_of ev) \<Longrightarrow>
    (field = ''position_after'' \<and> pin = le_block_number (fst ev)) \<or>
    (field = ''position_before'' \<and> pin = max (le_block_number (fst ev) - 1) 0)"
  by (auto simp: pins_of_def)

lemma nfpm_consistent:
  assumes r: "nfpm_request lib proofs ev custody t key field pin = Inr r" and c: "custody \<in> set V3_NFT_MANAGER_ADDRESSES"
    and pin: "(field, pin) \<in> set (pins_of ev)" and key: "proof_key_of (fst ev) = key"
  shows "consistent proofs ev r"
proof -
  define after minted burned where "after = (field = ''position_after'')"
    and "minted = (after \<and> proven proofs key Minted)" and "burned = (after \<and> proven proofs key Burned)"
  have m: "mint_basis proofs key (Some custody) = (if proven proofs key Minted then Some ''same_receipt_verified_nfpm_mint'' else None)"
    using c by (auto simp: mint_basis_def)
  obtain data where rq: "r = make_request (fst ev) field ''v3_nfpm_position'' custody data pin
      [(''manager'', JStr custody), (''token_id'', dec t), (''allow_missing'', JBool burned),
       (''missing_basis'', if burned then JStr ''same_receipt_verified_nfpm_burn'' else JNull),
       (''position_before_absence_basis'', if minted then JStr ''same_receipt_verified_nfpm_mint'' else JNull),
       (''position_before_block'', JInt (max (le_block_number (fst ev) - 1) 0)),
       (''expected_tick_lower'', jint (le_tick_lower (fst ev))), (''expected_tick_upper'', jint (le_tick_upper (fst ev))),
       (''expected_token0'', dget ''token0'' (snd ev)), (''expected_token1'', dget ''token1'' (snd ev)),
       (''expected_fee_ppm'', dget ''fee_ppm'' (snd ev))]"
    using r unfolding nfpm_request_def Let_def m minted_def burned_def after_def
    by (elim bindr_InrE) (auto split: if_splits)
  have before: "\<exists>before. state_before_mint (rq_decoder r) (rq_field r) (rq_block r) (rq_extra r) = Inr before \<and>
        (if minted then \<exists>p. before = [(''position_before'', JObj p)] \<and> dget ''exists'' p = JBool False \<and>
           dget ''liquidity'' p = JStr ''0'' \<and> dget ''pinned_block'' p = JInt (max (rq_block r - 1) 0)
         else before = [])"
    using before_field [OF pin] unfolding rq
    by (auto simp: state_before_mint_def read_int_def minted_def after_def dput_def absent_position_def)
  have fs: "(\<exists>fs. position_fields r None = Inr fs) = burned"
  proof -
    obtain before where b: "state_before_mint ''v3_nfpm_position'' field pin (rq_extra r) = Inr before"
      using before by (auto simp: rq)
    show ?thesis
      using b unfolding rq
      by (simp add: position_fields_def decode_position_result_def check_absence_def check_expected_def check_burned_def
          absent_position_def Let_def)
  qed
  show ?thesis
    unfolding consistent_def decodes_with_def key Let_def
    using before fs by (simp add: rq minted_def burned_def after_def)
qed
lemma v4_consistent:
  assumes r: "v4_request lib proofs (fst ev) ck key custody field pin = Inr r"
    and c: "key = None \<or> custody \<notin> Some ` set V3_NFT_MANAGER_ADDRESSES" and pin: "(field, pin) \<in> set (pins_of ev)"
    and key: "proof_key_of (fst ev) = key" and v4: "key \<noteq> None \<Longrightarrow> custody = Some V4_POSITION_MANAGER"
  shows "consistent proofs ev r"
proof -
  define after minted burned where "after = (field = ''position_after'')"
    and "minted = (after \<and> proven proofs key Minted)" and "burned = (after \<and> proven proofs key Burned)"
  have k: "proven proofs key x \<Longrightarrow> custody = Some V4_POSITION_MANAGER" for x
    using v4 by (auto simp: proven_def split: option.splits)
  have m: "mint_basis proofs key custody = (if proven proofs key Minted then Some ''same_receipt_verified_v4_manager_mint'' else None)"
    "burn_basis proofs key custody = (if proven proofs key Burned then Some ''same_receipt_verified_v4_manager_burn'' else None)"
    using c k by (auto simp: mint_basis_def burn_basis_def proven_def split: option.splits)
  obtain data where rq: "r = make_request (fst ev) field ''v4_state_view_position'' STATE_VIEW data pin
      [(''position_before_absence_basis'', if minted then JStr ''same_receipt_verified_v4_manager_mint'' else JNull),
       (''position_before_block'', JInt (max (le_block_number (fst ev) - 1) 0)),
       (''position_after_absence_basis'', if burned then JStr ''same_receipt_verified_v4_manager_burn'' else JNull)]"
    using r unfolding v4_request_def Let_def m minted_def burned_def after_def
    by (elim bindr_InrE) (auto split: if_splits)
  have before: "\<exists>before. state_before_mint (rq_decoder r) (rq_field r) (rq_block r) (rq_extra r) = Inr before \<and>
        (if minted then \<exists>p. before = [(''position_before'', JObj p)] \<and> dget ''exists'' p = JBool False \<and>
           dget ''liquidity'' p = JStr ''0'' \<and> dget ''pinned_block'' p = JInt (max (rq_block r - 1) 0)
         else before = [])"
    using before_field [OF pin] unfolding rq
    by (auto simp: state_before_mint_def read_int_def minted_def after_def dput_def unborn_v4_def)
  have "check_burned (rq_decoder r) (rq_field r) (rq_extra r) p = Inr (if burned
          then dput p [(''nft_exists'', JBool False), (''nft_absence_basis'', JStr ''same_receipt_verified_v4_manager_burn'')]
          else p)" if "dget ''liquidity'' p = JStr ''0''" for p
    using that by (simp add: rq check_burned_def burned_def after_def)
  with before show ?thesis
    unfolding consistent_def decodes_with_def key Let_def
    by (simp add: rq minted_def burned_def after_def)
qed

lemma core_consistent:
  assumes "core_request lib (fst ev) ck field pin = Some r"
  shows "consistent proofs ev r"
proof -
  have "rq_decoder r = ''v3_core_position'' \<and> rq_identity r = event_identity (fst ev) \<and>
      rq_extra r = [(''allow_empty'', JBool (field = ''position_before'' \<and> le_kind (fst ev) = Some ''add''))]"
    using assms by (auto simp: core_request_def split: option.splits)
  then show ?thesis
    unfolding consistent_def decodes_with_def Let_def by (simp add: state_before_mint_def check_burned_def)
qed

text \<open>A token with a key in the proofs stands at a known manager.\<close>

lemma proof_key_manager:
  assumes "proof_identity row = Inr (Some (t, Some k))" and "find_address (jtext (le_custody row)) \<notin> Some ` set V3_NFT_MANAGER_ADDRESSES"
  shows "find_address (jtext (le_custody row)) = Some V4_POSITION_MANAGER"
proof -
  have "find_address (jtext (le_custody row)) \<in> Some ` set NFT_MANAGER_ADDRESSES"
    using assms(1) unfolding proof_identity_def by (auto split: option.splits if_splits)
  moreover have "set NFT_MANAGER_ADDRESSES \<subseteq> set V3_NFT_MANAGER_ADDRESSES \<union> {V4_POSITION_MANAGER}"
    by (simp add: NFT_MANAGER_ADDRESSES_def V3_NFT_MANAGER_ADDRESSES_def MANAGER_INFO_def)
  ultimately show ?thesis using assms(2) by auto
qed

interpretation agreed: request_law lib consistent for lib
proof (unfold_locales, goal_cases)
  case (1 proofs ev core token field pin r)
  define key where "key = (case token of None \<Rightarrow> None | Some (t, k) \<Rightarrow> k)"
  have key: "proof_key_of (fst ev) = key"
    using 1(3) by (simp add: proof_key_of_def key_def split: option.split)
  from 1(1) show ?case
  proof (cases rule: position_request_cases)
    case (nfpm custody t k)
    then have "k = key" by (simp add: key_def)
    with nfpm nfpm_consistent 1(2) key show ?thesis by blast
  next
    case (core ck)
    then show ?thesis by (rule core_consistent)
  next
    case (state ck custody k)
    have "custody = Some V4_POSITION_MANAGER" if "k \<noteq> None"
    proof -
      obtain j where j: "k = Some j" using \<open>k \<noteq> None\<close> by blast
      with state(1) obtain t where "token = Some (t, Some j)" by (auto split: option.splits)
      with 1(3) proof_key_manager [of "fst ev" t j] state(2,3) j show ?thesis by simp
    qed
    with v4_consistent [OF state(4,3) 1(2)] key state(1) show ?thesis by (simp add: key_def)
  qed
next
  case (2 row cs decoder to data proofs p)
  then show ?case
    by (auto simp: pool_components_def Let_def pool_request_def consistent_def POSITION_DECODERS_def split: if_splits elim!: bindr_InrE)
qed

lemma lifecycle_shown_proven:
  assumes "map_res (\<lambda>ev. lifecycle_proof (fst ev)) (sort_key (\<lambda>ev. row_order (fst ev)) events) = Inr proofs"
  shows "proven (concat proofs) (proof_key_of row) c = lifecycle_shown events row c"
proof -
  have l: "list_all2 (\<lambda>ev ps. lifecycle_proof (fst ev) = Inr ps) (sort_key (\<lambda>ev. row_order (fst ev)) events) proofs"
    using assms by (simp add: map_res_eq_Inr)
  have "(k, c) \<in> set (concat proofs) \<longleftrightarrow> (\<exists>ev \<in> set events. case lifecycle_proof (fst ev) of Inr ps \<Rightarrow> (k, c) \<in> set ps | Inl e \<Rightarrow> False)" for k
  proof
    assume "(k, c) \<in> set (concat proofs)"
    then obtain ps where ps: "ps \<in> set proofs" "(k, c) \<in> set ps" by auto
    then obtain i where i: "i < length proofs" "ps = proofs ! i" by (auto simp: in_set_conv_nth)
    define ev where "ev = sort_key (\<lambda>ev. row_order (fst ev)) events ! i"
    have "lifecycle_proof (fst ev) = Inr ps" using list_all2_nthD2 [OF l i(1)] i(2) by (simp add: ev_def)
    moreover have "ev \<in> set events" using list_all2_lengthD [OF l] i(1) nth_mem [of i "sort_key (\<lambda>ev. row_order (fst ev)) events"]
      by (simp add: ev_def)
    ultimately show "\<exists>ev \<in> set events. case lifecycle_proof (fst ev) of Inr ps \<Rightarrow> (k, c) \<in> set ps | Inl e \<Rightarrow> False"
      using ps(2) by (intro bexI [of _ ev]) simp_all
  next
    assume "\<exists>ev \<in> set events. case lifecycle_proof (fst ev) of Inr ps \<Rightarrow> (k, c) \<in> set ps | Inl e \<Rightarrow> False"
    then obtain ev where e: "ev \<in> set events" "case lifecycle_proof (fst ev) of Inr ps \<Rightarrow> (k, c) \<in> set ps | Inl e \<Rightarrow> False"
      by blast
    then obtain ps where ev: "ev \<in> set events" "lifecycle_proof (fst ev) = Inr ps" "(k, c) \<in> set ps"
      by (cases "lifecycle_proof (fst ev)") simp_all
    then have "ev \<in> set (sort_key (\<lambda>ev. row_order (fst ev)) events)" by simp
    then obtain i where i: "i < length (sort_key (\<lambda>ev. row_order (fst ev)) events)" "ev = sort_key (\<lambda>ev. row_order (fst ev)) events ! i"
      by (metis in_set_conv_nth)
    have "ps = proofs ! i" using list_all2_nthD [OF l i(1)] ev(2) i(2) by simp
    moreover have "i < length proofs" using i(1) list_all2_lengthD [OF l] by simp
    ultimately show "(k, c) \<in> set (concat proofs)" using ev(3) by (auto intro: nth_mem)
  qed
  then show ?thesis by (simp add: proven_def lifecycle_shown_def split: option.split)
qed

text \<open>
  C31. The request for the state of a position carries the proofs of the lifecycle of its token, and
  the decoder of its reply agrees: when a transfer in the same transaction shows that the token was
  minted there, the state before is the empty position at the parent block, and otherwise the reply
  says nothing of it; when one shows that it was burned, a token the V3 manager no longer knows is
  accepted as absent (and refused when none does), and a V4 position without liquidity is marked as
  burned (and left as it is when none does). A request to a pool's core carries no proof.
\<close>

theorem state_proofs_accepted:
  assumes "position_state_requests lib events = Inr rs" and "r \<in> set rs" and "rq_decoder r \<in> set POSITION_DECODERS"
  shows "\<exists>ev \<in> set events. rq_identity r = event_identity (fst ev) \<and>
    decodes_with r
      (rq_field r = ''position_after'' \<and> rq_decoder r \<noteq> ''v3_core_position'' \<and> lifecycle_shown events (fst ev) Minted)
      (rq_field r = ''position_after'' \<and> rq_decoder r \<noteq> ''v3_core_position'' \<and> lifecycle_shown events (fst ev) Burned)"
proof -
  obtain proofs where p: "map_res (\<lambda>ev. lifecycle_proof (fst ev)) (sort_key (\<lambda>ev. row_order (fst ev)) events) = Inr proofs"
    and l: "agreed.lawful (concat proofs) events rs"
    using agreed.all_lawful [OF assms(1)] by blast
  obtain ev where "ev \<in> set events" "consistent (concat proofs) ev r" using l assms(2) by (auto simp: agreed.lawful_def)
  then show ?thesis
    using assms(3) lifecycle_shown_proven [OF p] by (intro bexI [of _ ev]) (auto simp: consistent_def Let_def)
qed

section \<open>A birth\<close>

definition born_row :: lp_event where
  "born_row = \<lparr>le_block_number = 7, le_block_hash = hex0x (replicate 32 0), le_tx_hash = hex0x (replicate 32 1),
     le_tx_index = 0, le_log_index = 3, le_timestamp = 100, le_pool_id = Some (hex0x (replicate 20 3)),
     le_protocol = Some ''v3'', le_kind = Some ''add'', le_owner = None, le_custody = None,
     le_position_key = Some (hex0x (replicate 32 5)), le_token_id = None, le_tick_lower = None, le_tick_upper = None,
     le_liquidity_delta = Some 9, le_liquidity = None, le_sqrt_price_x96 = None, le_tick = None, le_fee_ppm = None,
     le_amount0 = None, le_amount1 = None, le_fee_amount0 = None, le_fee_amount1 = None, le_cashflow0 = None,
     le_cashflow1 = None, le_pricing_basis = None, le_accounting_basis = None, le_identity_basis = None, le_data = []\<rparr>"

abbreviation "any_lib \<equiv> \<lparr>keccak = id, abi_encode = (\<lambda>types vals. Inr []), abi_decode = (\<lambda>types data. Inr [])\<rparr>"

lemma born_requests:
  "\<exists>r0 r1 r2 r3. position_state_requests any_lib [(born_row, [])] = Inr [r0, r1, r2, r3] \<and>
     rq_decoder r1 = ''v3_core_position'' \<and> rq_field r1 = ''position_after''"
proof -
  have n: "text_or_empty (jtext (Some (hex0x (replicate 32 5)))) = hex0x (replicate 32 5)"
    by (simp add: text_or_empty_def hex0x_def)
  have p: "lifecycle_proof born_row = Inr []" "proof_identity born_row = Inr None"
    by (simp_all add: lifecycle_proof_def proof_identity_def find_address_def text_of_def is_address_def born_row_def)
  have k: "core_key_of born_row = Inr (Some (hex0x (replicate 32 5)))"
    using n by (simp add: core_key_of_def born_row_def Let_def)
  have q: "position_request any_lib [] (born_row, []) (Some (hex0x (replicate 32 5))) None field pin =
      Inr (Some (make_request born_row field ''v3_core_position'' (hex0x (replicate 20 3))
        (fn_selector any_lib ''positions(bytes32)'' @ lower (drop 2 (hex0x (replicate 32 5)))) pin
           [(''allow_empty'', JBool (field = ''position_before''))]))" for field pin
    by (simp add: position_request_def core_request_def born_row_def)
  have c: "pool_components any_lib born_row = Inr [(''v3_pool_slot0'', Some (hex0x (replicate 20 3)), fn_selector any_lib ''slot0()''),
      (''v3_pool_liquidity'', Some (hex0x (replicate 20 3)), fn_selector any_lib ''liquidity()'')]"
    by (simp add: pool_components_def born_row_def Let_def)
  have b: "le_kind born_row = Some ''add''" "le_protocol born_row = Some ''v3''" "le_position_key born_row \<noteq> None"
    "le_block_number born_row = 7" by (simp_all add: born_row_def)
  show ?thesis
    by (simp add: position_state_requests_def p k q ask_event_def ask_position_def ask_pool_def mint_basis_def proven_def
        c b POSITION_KINDS_def ask_component_def pool_request_def ask_def Let_def)
qed

theorem state_requests_pinned_witness:
  "\<exists>rs. position_state_requests any_lib [(born_row, [])] = Inr rs \<and> length rs = 4 \<and> distinct (map asked_key rs) \<and>
     rq_block (rs ! 1) \<in> {6, 7}"
proof -
  obtain r0 r1 r2 r3 where r: "position_state_requests any_lib [(born_row, [])] = Inr [r0, r1, r2, r3]"
    using born_requests by blast
  have "le_block_number born_row = 7" by (simp add: born_row_def)
  with state_requests_pinned [OF r] r show ?thesis by (auto split: if_splits)
qed

section \<open>The birth and the end of a token\<close>

definition token_name :: string where
  "token_name = ''nft:'' @ UNISWAP_V3_POSITION_MANAGER @ '':7''"

text \<open>A transfer of token 7 of the V3 manager, from or to the zero address.\<close>

definition token_row :: "bool \<Rightarrow> lp_event" where
  "token_row burn = born_row\<lparr>le_pool_id := None, le_protocol := Some ''nft'', le_kind := Some ''transfer'',
     le_custody := Some UNISWAP_V3_POSITION_MANAGER, le_token_id := Some 7,
     le_position_key := Some token_name,
     le_data := [(''manager_protocol'', JStr ''v3''), (''mint'', JBool (\<not> burn)), (''burn'', JBool burn),
       (''prior_owner'', JStr (if burn then hex0x (replicate 20 9) else ZERO_ADDRESS)),
       (''new_owner'', JStr (if burn then ZERO_ADDRESS else hex0x (replicate 20 9)))]\<rparr>"

abbreviation "token_proof_key \<equiv> (hex0x (replicate 32 1), UNISWAP_V3_POSITION_MANAGER, 7 :: int)"

lemma token_addresses:
  "find_address (JStr UNISWAP_V3_POSITION_MANAGER) = Some UNISWAP_V3_POSITION_MANAGER"
  "find_address (JStr ZERO_ADDRESS) = Some ZERO_ADDRESS"
  by (rule find_address_canonical; simp add: is_address_def UNISWAP_V3_POSITION_MANAGER_def ZERO_ADDRESS_def)+

lemma seven: "int_text 7 = ''7''"
  by code_simp

lemma token_name:
  "lower (text_or_empty (JStr token_name)) = token_name" "\<not> is_hash token_name"
  "nft_position_key (JStr UNISWAP_V3_POSITION_MANAGER) 7 = Inr token_name"
proof -
  have l: "lower token_name = token_name" by code_simp
  have "text_or_empty (JStr token_name) = token_name" by (simp add: text_or_empty_def token_name_def)
  with l show "lower (text_or_empty (JStr token_name)) = token_name" by simp
  show "\<not> is_hash token_name" by (simp add: is_hash_def token_name_def)
  show "nft_position_key (JStr UNISWAP_V3_POSITION_MANAGER) 7 = Inr token_name"
    by (simp add: nft_position_key_def read_address_def token_addresses seven token_name_def)
qed

lemma token_ends: "ZERO_ADDRESS \<noteq> hex0x (replicate 20 9)"
  by code_simp

lemma token_manager:
  "UNISWAP_V3_POSITION_MANAGER \<in> set V3_NFT_MANAGER_ADDRESSES" "UNISWAP_V3_POSITION_MANAGER \<in> set NFT_MANAGER_ADDRESSES"
  "\<exists>i. map_of MANAGER_INFO UNISWAP_V3_POSITION_MANAGER = Some i \<and> mi_protocol i = ''v3''"
  by (simp_all add: V3_NFT_MANAGER_ADDRESSES_def NFT_MANAGER_ADDRESSES_def MANAGER_INFO_def)

lemma token_fields [simp]:
  "le_custody (token_row b) = Some UNISWAP_V3_POSITION_MANAGER" "le_token_id (token_row b) = Some 7"
  "le_protocol (token_row b) = Some ''nft''" "le_kind (token_row b) = Some ''transfer''"
  "le_position_key (token_row b) = Some token_name"
  "le_tx_hash (token_row b) = hex0x (replicate 32 1)" "le_block_number (token_row b) = 7"
  by (simp_all add: token_row_def born_row_def)

lemma token_lifecycle: "lifecycle_of (token_row burn) = [if burn then Burned else Minted]"
  using token_ends by (auto simp: lifecycle_of_def token_row_def token_addresses Let_def)

lemma token_proofs:
  "lifecycle_proof (token_row burn) = Inr [(token_proof_key, if burn then Burned else Minted)]"
  "proof_identity (token_row burn) = Inr (Some (7, Some token_proof_key))"
proof -
  obtain i where i: "map_of MANAGER_INFO UNISWAP_V3_POSITION_MANAGER = Some i" "mi_protocol i = ''v3''"
    using token_manager(3) by blast
  have d: "dget ''manager_protocol'' (le_data (token_row burn)) = JStr ''v3''" by (simp add: token_row_def)
  have h: "read_hash (JStr (hex0x (replicate 32 1))) name = Inr (hex0x (replicate 32 1))" for name
    by (simp add: read_hash_def text_of_def)
  show "lifecycle_proof (token_row burn) = Inr [(token_proof_key, if burn then Burned else Minted)]"
    by (simp only: lifecycle_proof_def token_fields jtext_cases token_addresses option.case prod.case i d token_name
        bindr.simps h token_lifecycle) simp
  show "proof_identity (token_row burn) = Inr (Some (7, Some token_proof_key))"
    by (simp only: proof_identity_def token_fields jtext_cases token_addresses option.case prod.case token_name
        bindr.simps h token_manager) simp
qed

lemma token_core_key: "core_key_of (token_row burn) = Inr None"
proof -
  have "dget ''core_position_key'' (le_data (token_row burn)) = JNull" by (simp add: token_row_def)
  then show ?thesis
    by (simp add: core_key_of_def token_name Let_def)
qed

lemma token_requests:
  "\<exists>rs r. position_state_requests any_lib [(token_row burn, [])] = Inr rs \<and> r \<in> set rs \<and>
     rq_field r = ''position_after'' \<and> rq_decoder r = ''v3_nfpm_position''"
proof -
  let ?k = "[(token_proof_key, if burn then Burned else Minted)]"
  obtain d where d: "call_data (fn_selector any_lib ''positions(uint256)'') 7 = Inr d"
    by (auto simp: call_data_def to_bytes_big_def)
  have q: "\<exists>r. position_request any_lib ?k (token_row burn, []) None (Some (7, Some token_proof_key)) field pin = Inr (Some r) \<and>
      rq_field r = field \<and> rq_decoder r = ''v3_nfpm_position''" for field pin
    using token_manager(1) d by (simp add: position_request_def nfpm_request_def token_addresses Let_def)
  obtain r0 r1 where
    r0: "position_request any_lib ?k (token_row burn, []) None (Some (7, Some token_proof_key)) ''position_before'' 6 = Inr (Some r0)"
      "rq_field r0 = ''position_before''" and
    r1: "position_request any_lib ?k (token_row burn, []) None (Some (7, Some token_proof_key)) ''position_after'' 7 = Inr (Some r1)"
      "rq_field r1 = ''position_after''" "rq_decoder r1 = ''v3_nfpm_position''"
    using q [of "''position_before''" 6] q [of "''position_after''" 7] by blast
  have "ask_event any_lib ?k (token_row burn, []) ([], []) =
      Inr (if burn then ask ''position_after'' r1 (ask ''position_before'' r0 ([], [])) else ask ''position_after'' r1 ([], []))"
  proof (cases burn)
    case True
    with r0 r1 show ?thesis by (simp add: ask_event_def ask_position_def ask_pool_def token_core_key token_proofs
        mint_basis_def proven_def POSITION_KINDS_def Let_def)
  next
    case False
    with r0 r1 show ?thesis by (simp add: ask_event_def ask_position_def ask_pool_def token_core_key token_proofs
        mint_basis_def proven_def POSITION_KINDS_def Let_def)
  qed
  then have "position_state_requests any_lib [(token_row burn, [])] = Inr (if burn then [r0, r1] else [r1])"
    using r0 r1 by (simp add: position_state_requests_def token_proofs ask_def Let_def)
  then show ?thesis using r1 by (intro exI [of _ "if burn then [r0, r1] else [r1]"] exI [of _ r1]) simp
qed

lemma token_shown: "lifecycle_shown [(token_row burn, [])] (token_row burn) c = (c = (if burn then Burned else Minted))"
  by (simp add: lifecycle_shown_def proof_key_of_def token_proofs)

text \<open>A burned token is read as absent, and a minted one has its empty position before.\<close>

theorem state_proofs_accepted_witness:
  "(\<exists>rs r fs. position_state_requests any_lib [(token_row True, [])] = Inr rs \<and> r \<in> set rs \<and>
      rq_decoder r = ''v3_nfpm_position'' \<and> position_fields r None = Inr fs) \<and>
   (\<exists>rs r p. position_state_requests any_lib [(token_row False, [])] = Inr rs \<and> r \<in> set rs \<and>
      state_before_mint (rq_decoder r) (rq_field r) (rq_block r) (rq_extra r) = Inr [(''position_before'', JObj p)] \<and>
      dget ''liquidity'' p = JStr ''0'')"
proof -
  obtain rs r where r: "position_state_requests any_lib [(token_row True, [])] = Inr rs" "r \<in> set rs"
    "rq_field r = ''position_after''" "rq_decoder r = ''v3_nfpm_position''" using token_requests by blast
  obtain rs' r' where r': "position_state_requests any_lib [(token_row False, [])] = Inr rs'" "r' \<in> set rs'"
    "rq_field r' = ''position_after''" "rq_decoder r' = ''v3_nfpm_position''" using token_requests by blast
  have "decodes_with r False True" and "decodes_with r' True False"
    using state_proofs_accepted [OF r(1,2)] state_proofs_accepted [OF r'(1,2)] r(3,4) r'(3,4)
    by (simp_all add: token_shown POSITION_DECODERS_def)
  with r r' show ?thesis unfolding decodes_with_def by fastforce
qed

end
