(* ===== verification/Lp_Spacing.thy ===== *)
theory Lp_Spacing
  imports Lp_Abi Bounded_Store
begin

text \<open>
  \<^verbatim>\<open>resolve_v4_tick_spacing\<close> of \<^verbatim>\<open>src/rhpools/lp_market_protocols.py\<close>: the tick spacing that a V4 pool
  identifier commits to, found by trying. What has been found before is kept, per fee and hook, as a
  hint that is tried first; the answers are kept by \<^verbatim>\<open>lru_cache\<close>.
\<close>

section \<open>Hints\<close>

type_synonym hints = "(int \<times> address, int list) odict"

definition V4_TICK_SPACING_HINT_LIMIT :: nat where
  "V4_TICK_SPACING_HINT_LIMIT = 32768"

definition hints_of :: "hints \<Rightarrow> int \<Rightarrow> address \<Rightarrow> int list" where
  "hints_of d fee hooks = (case map_of d (fee, hooks) of None \<Rightarrow> [] | Some v \<Rightarrow> v)"

definition remember_spacing :: "int \<Rightarrow> address \<Rightarrow> int \<Rightarrow> hints \<Rightarrow> hints" where
  "remember_spacing fee hooks spacing d =
    (let current = hints_of d fee hooks;
         d1 = (if spacing \<notin> set current then od_set (fee, hooks) (current @ [spacing]) d else d)
     in od_trim V4_TICK_SPACING_HINT_LIMIT (od_move_to_end (fee, hooks) d1))"

definition known_spacings :: "int \<Rightarrow> address \<Rightarrow> hints \<Rightarrow> hints \<times> int list" where
  "known_spacings fee hooks d =
    (let h = hints_of d fee hooks in (if h \<noteq> [] then od_move_to_end (fee, hooks) d else d, h))"

section \<open>The search\<close>

text \<open>A pool key without its spacing, as the cached function takes it.\<close>

type_synonym spacing_key = "string \<times> address \<times> address \<times> int \<times> address"

record spacing_state =
  sp_hints :: hints
  sp_cache :: "(spacing_key, int option) odict"

definition key_bytes :: "address \<Rightarrow> address \<Rightarrow> int \<Rightarrow> address \<Rightarrow> lp_exn + bytes" where
  "key_bytes currency0 currency1 fee hooks =
     bindr (lift_lp (int_base16 currency0)) (\<lambda>c0.
     bindr (lift_lp (int_base16 currency1)) (\<lambda>c1.
     bindr (lift_lp (int_base16 hooks)) (\<lambda>h.
     bindr (map_res (\<lambda>w. lift_lp (to_bytes_big 32 w)) [c0, c1, fee, 0, h]) (\<lambda>ws. Inr (concat ws)))))"

definition with_spacing :: "bytes \<Rightarrow> int \<Rightarrow> bytes" where
  "with_spacing encoded candidate = encoded[126 := of_int (drop_bit 8 candidate), 127 := of_int (candidate AND 255)]"

definition search_spacing :: "eth_lib \<Rightarrow> bytes \<Rightarrow> bytes \<Rightarrow> int list \<Rightarrow> int option" where
  "search_spacing lib encoded expected candidates =
     List.find (\<lambda>c. keccak lib (with_spacing encoded c) = expected) candidates"

definition search_pool_key :: "eth_lib \<Rightarrow> spacing_key \<Rightarrow> hints \<Rightarrow> lp_exn + hints \<times> int option" where
  "search_pool_key lib key d =
    (case key of (pool_id, currency0, currency1, fee, hooks) \<Rightarrow>
     bindr (key_bytes currency0 currency1 fee hooks) (\<lambda>encoded.
     bindr (lift_lp (bytes_fromhex (drop 2 pool_id))) (\<lambda>expected.
       case known_spacings fee hooks d of (d1, hinted) \<Rightarrow>
         (case search_spacing lib encoded expected hinted of
            Some c \<Rightarrow> Inr (d1, Some c)
          | None \<Rightarrow>
             (case search_spacing lib encoded expected [1 .. 32767] of
                Some c \<Rightarrow> Inr (remember_spacing fee hooks c d1, Some c)
              | None \<Rightarrow> Inr (d1, None))))))"

text \<open>\<^verbatim>\<open>@lru_cache(maxsize=32768)\<close>: a hit moves the entry to the end, an exception leaves none.\<close>

definition CACHE_SIZE :: nat where
  "CACHE_SIZE = 32768"

definition cached_spacing :: "eth_lib \<Rightarrow> spacing_key \<Rightarrow> spacing_state \<Rightarrow> lp_exn + spacing_state \<times> int option" where
  "cached_spacing lib key st =
    (case map_of (sp_cache st) key of
       Some r \<Rightarrow> Inr (st\<lparr>sp_cache := od_move_to_end key (sp_cache st)\<rparr>, r)
     | None \<Rightarrow> bindr (search_pool_key lib key (sp_hints st)) (\<lambda>(d, r).
         Inr (st\<lparr>sp_hints := d, sp_cache := put_trim CACHE_SIZE key r (sp_cache st)\<rparr>, r)))"

text \<open>The arguments after \<^verbatim>\<open>str(x).lower()\<close>; \<open>fee\<close> and \<open>tick_spacing\<close> are integers.\<close>

definition valid_key :: "string \<Rightarrow> address \<Rightarrow> address \<Rightarrow> int \<Rightarrow> address \<Rightarrow> int option \<Rightarrow> bool" where
  "valid_key pool_id currency0 currency1 fee hooks tick_spacing \<longleftrightarrow>
     is_hash pool_id \<and> is_address currency0 \<and> is_address currency1 \<and> is_address hooks \<and> currency0 < currency1 \<and>
     0 \<le> fee \<and> fee < 2 ^ 24 \<and> \<not> (fee > 1000000 \<and> fee \<noteq> 0x800000) \<and>
     (case tick_spacing of None \<Rightarrow> True | Some s \<Rightarrow> 0 < s \<and> s \<le> 32767)"

definition resolve_v4_tick_spacing ::
  "eth_lib \<Rightarrow> string \<Rightarrow> string \<Rightarrow> string \<Rightarrow> int \<Rightarrow> string \<Rightarrow> int option \<Rightarrow> spacing_state \<Rightarrow>
   lp_exn + spacing_state \<times> int option" where
  "resolve_v4_tick_spacing lib pool_id currency0 currency1 fee hooks tick_spacing st =
    (let p = lower pool_id; c0 = lower currency0; c1 = lower currency1; h = lower hooks in
     if \<not> valid_key p c0 c1 fee h tick_spacing then Inr (st, None)
     else (case tick_spacing of
        Some s \<Rightarrow> bindr (v4_pool_id lib c0 c1 fee s h) (\<lambda>i.
          if i \<noteq> p then Inr (st, None)
          else Inr (st\<lparr>sp_hints := remember_spacing fee h s (sp_hints st)\<rparr>, Some s))
      | None \<Rightarrow> cached_spacing lib (p, c0, c1, fee, h) st))"

section \<open>The answer is right\<close>

lemma find_Some: "List.find P xs = Some x \<Longrightarrow> x \<in> set xs \<and> P x"
  by (induction xs) (auto split: if_splits)

text \<open>Trying a spacing hashes the words of the pool key with that spacing.\<close>

definition spacing_fits :: "eth_lib \<Rightarrow> spacing_key \<Rightarrow> int \<Rightarrow> bool" where
  "spacing_fits lib key s \<longleftrightarrow>
    (case key of (pool_id, currency0, currency1, fee, hooks) \<Rightarrow> v4_pool_id lib currency0 currency1 fee s hooks = Inr pool_id)"

lemma be_bytes_32: "0 \<le> s \<Longrightarrow> s < 32768 \<Longrightarrow> be_bytes 32 s = replicate 30 0 @ [of_int (drop_bit 8 s), of_int (s AND 255)]"
proof -
  assume s: "0 \<le> s" "s < 32768"
  have z: "be_bytes n 0 = replicate n 0" for n by (induction n) (simp_all add: replicate_append_same)
  have "s div 256 div 256 = 0" using s by (simp add: zdiv_zmult2_eq [symmetric])
  then have "be_bytes 32 s = be_bytes 30 0 @ [of_int (s div 256), of_int s]"
    by (simp add: eval_nat_numeral)
  moreover have "(of_int (s AND 255) :: 8 word) = of_int s"
  proof -
    have "s AND 255 = take_bit 8 s" using and_low_bits [of s 8] by (simp add: take_bit_eq_mod)
    then show ?thesis by (simp add: word_of_int_eq_iff)
  qed
  ultimately show ?thesis by (simp add: z drop_bit_eq_div)
qed

lemma with_spacing_bytes:
  assumes "length a = 96" and "length z = 32" and "0 \<le> s" and "s < 32768"
  shows "with_spacing (a @ be_bytes 32 0 @ z) s = a @ be_bytes 32 s @ z"
proof -
  have z: "be_bytes 32 0 = replicate 30 0 @ [0 :: 8 word, 0]" using be_bytes_32 [of 0] by simp
  show ?thesis
    using assms by (simp add: with_spacing_def z be_bytes_32 list_update_append)
qed

lemma map_res_words:
  "map_res (\<lambda>w. lift_lp (to_bytes_big 32 w)) [a, b, c, d, e] = Inr ws \<longleftrightarrow>
     (\<exists>wa wb wc wd we. ws = [wa, wb, wc, wd, we] \<and> to_bytes_big 32 a = Inr wa \<and> to_bytes_big 32 b = Inr wb \<and>
        to_bytes_big 32 c = Inr wc \<and> to_bytes_big 32 d = Inr wd \<and> to_bytes_big 32 e = Inr we)"
proof -
  have l: "lift_lp x = Inr y \<longleftrightarrow> x = Inr y" for x :: "py_error + bytes" and y by (cases x) auto
  show ?thesis by (auto simp: bindr_eq_Inr l)
qed

lemma to_bytes_spacing: "0 \<le> s \<Longrightarrow> s < 32768 \<Longrightarrow> to_bytes_big 32 s = Inr (be_bytes 32 s)"
  by (simp add: to_bytes_big_def)

lemma key_bytes_pool_id:
  assumes "key_bytes c0 c1 fee h = Inr encoded" and s: "0 \<le> s" "s < 32768"
  shows "v4_pool_id lib c0 c1 fee s h = Inr (hex0x (keccak lib (with_spacing encoded s)))"
proof -
  obtain t0 t1 h1 ws where i: "lift_lp (int_base16 c0) = Inr t0" "lift_lp (int_base16 c1) = Inr t1"
    "lift_lp (int_base16 h) = Inr h1" and ws: "map_res (\<lambda>w. lift_lp (to_bytes_big 32 w)) [t0, t1, fee, 0, h1] = Inr ws"
    "encoded = concat ws"
    using assms(1) unfolding key_bytes_def by (elim bindr_InrE) blast
  obtain wa wb wc wd we where w: "ws = [wa, wb, wc, wd, we]" "to_bytes_big 32 t0 = Inr wa" "to_bytes_big 32 t1 = Inr wb"
    "to_bytes_big 32 fee = Inr wc" "to_bytes_big 32 0 = Inr wd" "to_bytes_big 32 h1 = Inr we"
    using ws(1) unfolding map_res_words by blast
  have "wd = be_bytes 32 0" using w(5) by (simp add: to_bytes_big_def)
  then have "with_spacing encoded s = concat [wa, wb, wc, be_bytes 32 s, we]"
    using with_spacing_bytes [of "wa @ wb @ wc" we s] s w(2,3,4,6) [THEN to_bytes_big_length] by (simp add: ws(2) w(1))
  moreover have "map_res (\<lambda>w. lift_lp (to_bytes_big 32 w)) [t0, t1, fee, s, h1] = Inr [wa, wb, wc, be_bytes 32 s, we]"
    unfolding map_res_words using w(2,3,4,6) to_bytes_spacing [OF s] by blast
  ultimately show ?thesis using i s(1) unfolding v4_pool_id_def by (simp only: bindr.simps if_True)
qed

lemma is_hash_bytes: "is_hash p \<Longrightarrow> \<exists>bs. p = hex0x bs \<and> length bs = 32"
proof -
  assume p: "is_hash p"
  then have "even (length (drop 2 p))" by (simp add: is_hash_def)
  then obtain bs where bs: "drop 2 p = hex_of_bytes bs" "length (drop 2 p) = 2 * length bs"
    using hex_text_bytes [of "drop 2 p"] p by (auto simp: is_hash_def)
  then have "p = hex0x bs" using p append_take_drop_id [of 2 p] by (simp add: is_hash_def hex0x_def)
  then show ?thesis using bs(2) p by (intro exI [of _ bs]) (simp add: is_hash_def)
qed

lemma address_number: "is_address a \<Longrightarrow> \<exists>n. int_base16 a = Inr n \<and> 0 \<le> n \<and> n < 2 ^ 256"
proof -
  assume "is_address a"
  then obtain bs where bs: "a = hex0x bs" "length bs = 20" using is_address_bytes by blast
  then have "bs \<noteq> []" by auto
  moreover have "from_bytes_big bs < 256 ^ 20" "0 \<le> from_bytes_big bs" using from_bytes_big_bounds [of bs] bs(2) by auto
  ultimately show ?thesis by (simp add: bs(1))
qed

lemma key_bytes_total:
  assumes "valid_key p c0 c1 fee h s"
  shows "\<exists>encoded. key_bytes c0 c1 fee h = Inr encoded"
proof -
  have "to_bytes_big 32 n = Inr (be_bytes 32 n)" if "0 \<le> n" "n < 2 ^ 256" for n using that by (simp add: to_bytes_big_def)
  moreover have "0 \<le> fee" "fee < 2 ^ 256" "is_address c0" "is_address c1" "is_address h" using assms by (auto simp: valid_key_def)
  moreover obtain n0 n1 n2 where "int_base16 c0 = Inr n0 \<and> 0 \<le> n0 \<and> n0 < 2 ^ 256" "int_base16 c1 = Inr n1 \<and> 0 \<le> n1 \<and> n1 < 2 ^ 256"
    "int_base16 h = Inr n2 \<and> 0 \<le> n2 \<and> n2 < 2 ^ 256" using address_number calculation(4-6) by meson
  ultimately show ?thesis by (simp add: key_bytes_def)
qed

text \<open>An answer: a spacing in range that the identifier commits to, or none where there is none.\<close>

definition answers :: "eth_lib \<Rightarrow> spacing_key \<Rightarrow> int option \<Rightarrow> bool" where
  "answers lib key r \<longleftrightarrow>
    (case r of Some s \<Rightarrow> 0 < s \<and> s \<le> 32767 \<and> spacing_fits lib key s
     | None \<Rightarrow> \<forall>s. 0 < s \<and> s \<le> 32767 \<longrightarrow> \<not> spacing_fits lib key s)"

definition hints_ok :: "hints \<Rightarrow> bool" where
  "hints_ok d \<longleftrightarrow> od_ok d \<and> length d \<le> V4_TICK_SPACING_HINT_LIMIT \<and>
     (\<forall>fee hooks. set (hints_of d fee hooks) \<subseteq> {1 .. 32767})"

definition spacing_ok :: "eth_lib \<Rightarrow> spacing_state \<Rightarrow> bool" where
  "spacing_ok lib st \<longleftrightarrow> hints_ok (sp_hints st) \<and> od_ok (sp_cache st) \<and> length (sp_cache st) \<le> CACHE_SIZE \<and>
     (\<forall>key r. map_of (sp_cache st) key = Some r \<longrightarrow> answers lib key r)"

lemma move_hints_ok: "hints_ok d \<Longrightarrow> hints_ok (od_move_to_end k d)"
  by (simp add: hints_ok_def hints_of_def map_of_od_move)

lemma hints_of_trim: "od_ok d \<Longrightarrow> set (hints_of (od_trim n d) fee hooks) \<subseteq> set (hints_of d fee hooks)"
proof (cases "map_of (od_trim n d) (fee, hooks)")
  case (Some l)
  assume "od_ok d"
  from map_of_od_trim_mono [OF this Some] Some show ?thesis by (simp add: hints_of_def)
qed (simp add: hints_of_def)

lemma remember_hints_ok:
  assumes "hints_ok d" and "0 < s" and "s \<le> 32767"
  shows "hints_ok (remember_spacing fee hooks s d)"
proof -
  define d1 where "d1 = od_move_to_end (fee, hooks)
    (if s \<notin> set (hints_of d fee hooks) then od_set (fee, hooks) (hints_of d fee hooks @ [s]) d else d)"
  have ok: "od_ok d1" using assms(1) by (simp add: d1_def hints_ok_def)
  have "set (hints_of d1 f h) \<subseteq> {1 .. 32767}" for f h
    using assms by (auto simp: d1_def hints_ok_def hints_of_def map_of_od_move map_of_od_set)
  then have "set (hints_of (od_trim n d1) f h) \<subseteq> {1 .. 32767}" for n f h
    using hints_of_trim [OF ok] by blast
  then show ?thesis using ok by (simp add: remember_spacing_def Let_def hints_ok_def flip: d1_def)
qed

lemma search_spacing_cases:
  assumes "key_bytes c0 c1 fee h = Inr encoded" and "set cs \<subseteq> {1 .. 32767}" and "pool_id = hex0x expected"
  shows "case search_spacing lib encoded expected cs of
      Some s \<Rightarrow> s \<in> set cs \<and> spacing_fits lib (pool_id, c0, c1, fee, h) s
    | None \<Rightarrow> \<forall>s \<in> set cs. \<not> spacing_fits lib (pool_id, c0, c1, fee, h) s"
proof -
  have f: "spacing_fits lib (pool_id, c0, c1, fee, h) s \<longleftrightarrow> keccak lib (with_spacing encoded s) = expected" if "s \<in> set cs" for s
  proof -
    have "0 \<le> s" "s < 32768" using that assms(2) by auto
    from key_bytes_pool_id [OF assms(1) this] show ?thesis by (simp add: spacing_fits_def assms(3))
  qed
  show ?thesis
  proof (cases "search_spacing lib encoded expected cs")
    case None
    then have "\<forall>s \<in> set cs. keccak lib (with_spacing encoded s) \<noteq> expected"
      by (auto simp: search_spacing_def find_None_iff)
    then show ?thesis using f None by simp
  next
    case (Some s)
    then have "s \<in> set cs \<and> keccak lib (with_spacing encoded s) = expected"
      unfolding search_spacing_def by (rule find_Some)
    then show ?thesis using f Some by simp
  qed
qed

lemma search_pool_key_answers:
  assumes "valid_key p c0 c1 fee h None" and "hints_ok d"
  shows "\<exists>d' r. search_pool_key lib (p, c0, c1, fee, h) d = Inr (d', r) \<and> hints_ok d' \<and> answers lib (p, c0, c1, fee, h) r"
proof -
  obtain encoded where e: "key_bytes c0 c1 fee h = Inr encoded" using key_bytes_total [OF assms(1)] by blast
  obtain bs where bs: "p = hex0x bs" using is_hash_bytes assms(1) by (auto simp: valid_key_def)
  obtain d1 hinted where k: "known_spacings fee h d = (d1, hinted)" by (cases "known_spacings fee h d")
  have "hinted = hints_of d fee h" and d1: "hints_ok d1"
    using k assms(2) move_hints_ok [OF assms(2)] by (auto simp: known_spacings_def Let_def split: if_splits)
  then have hinted: "set hinted \<subseteq> {1 .. 32767}" using assms(2) unfolding hints_ok_def by blast
  have all: "set [1 .. 32767] = {1 .. 32767 :: int}" by auto
  note c1 = search_spacing_cases [OF e hinted bs, of lib]
  note c2 = search_spacing_cases [OF e equalityD1 [OF all] bs, of lib]
  show ?thesis
  proof (cases "search_spacing lib encoded bs hinted")
    case (Some s)
    with c1 hinted have "answers lib (p, c0, c1, fee, h) (Some s)" by (auto simp: answers_def)
    with Some show ?thesis using e k d1 by (simp add: search_pool_key_def bs)
  next
    case no_hint: None
    show ?thesis
    proof (cases "search_spacing lib encoded bs [1 .. 32767]")
      case (Some s)
      then have s: "0 < s" "s \<le> 32767" "spacing_fits lib (p, c0, c1, fee, h) s" using c2 by auto
      then have "answers lib (p, c0, c1, fee, h) (Some s)" by (simp add: answers_def)
      with Some no_hint show ?thesis using e k remember_hints_ok [OF d1 s(1,2)] by (simp add: search_pool_key_def bs)
    next
      case None
      then have "answers lib (p, c0, c1, fee, h) None" using c2 by (auto simp: answers_def)
      with None no_hint show ?thesis using e k d1 by (simp add: search_pool_key_def bs)
    qed
  qed
qed

lemma cached_spacing_answers:
  assumes "valid_key p c0 c1 fee h None" and "spacing_ok lib st"
  shows "\<exists>st' r. cached_spacing lib (p, c0, c1, fee, h) st = Inr (st', r) \<and> spacing_ok lib st' \<and> answers lib (p, c0, c1, fee, h) r"
proof (cases "map_of (sp_cache st) (p, c0, c1, fee, h)")
  case None
  obtain d' r where f: "search_pool_key lib (p, c0, c1, fee, h) (sp_hints st) = Inr (d', r)" "hints_ok d'"
    "answers lib (p, c0, c1, fee, h) r"
    using search_pool_key_answers [OF assms(1)] assms(2) unfolding spacing_ok_def by blast
  let ?c = "put_trim CACHE_SIZE (p, c0, c1, fee, h) r (sp_cache st)"
  have c: "od_ok (sp_cache st)" "length (sp_cache st) \<le> CACHE_SIZE" using assms(2) by (simp_all add: spacing_ok_def)
  have "answers lib key r'" if "map_of ?c key = Some r'" for key r'
  proof (cases "key = (p, c0, c1, fee, h)")
    case True
    have "map_of ?c (p, c0, c1, fee, h) = Some r" by (rule trim.put_same [OF c(1)]) (simp add: CACHE_SIZE_def)
    then show ?thesis using that True f(3) by simp
  next
    case False
    from trim.put_other [OF c(1) False that] show ?thesis using assms(2) unfolding spacing_ok_def by blast
  qed
  then have "spacing_ok lib (st\<lparr>sp_hints := d', sp_cache := ?c\<rparr>)"
    using f(2) trim.put_ok [OF c(1)] trim.put_bound [OF c] by (simp add: spacing_ok_def)
  then show ?thesis using None f by (simp add: cached_spacing_def)
next
  case (Some r)
  then have "answers lib (p, c0, c1, fee, h) r" using assms(2) unfolding spacing_ok_def by blast
  moreover have "spacing_ok lib (st\<lparr>sp_cache := od_move_to_end (p, c0, c1, fee, h) (sp_cache st)\<rparr>)"
    using assms(2) unfolding spacing_ok_def by (simp add: map_of_od_move)
  ultimately show ?thesis using Some by (simp add: cached_spacing_def)
qed

text \<open>
  C32. The tick spacing of a V4 pool is always resolved without an exception: a given spacing comes back
  exactly when the identifier is the hash of the pool key with it, an omitted one is found exactly when
  some spacing from 1 to 32767 fits. Hints and cached answers never make it wrong, and both stay within
  their bounds.
\<close>

theorem spacing_resolved:
  assumes "spacing_ok lib st" and "valid_key (lower p) (lower c0) (lower c1) fee (lower h) spacing"
  shows "\<exists>st' r. resolve_v4_tick_spacing lib p c0 c1 fee h spacing st = Inr (st', r) \<and> spacing_ok lib st' \<and>
    (case spacing of
       Some s \<Rightarrow> r = (if v4_pool_id lib (lower c0) (lower c1) fee s (lower h) = Inr (lower p) then Some s else None)
     | None \<Rightarrow>
        (case r of Some s \<Rightarrow> 0 < s \<and> s \<le> 32767 \<and> v4_pool_id lib (lower c0) (lower c1) fee s (lower h) = Inr (lower p)
         | None \<Rightarrow> \<forall>s. 0 < s \<and> s \<le> 32767 \<longrightarrow> v4_pool_id lib (lower c0) (lower c1) fee s (lower h) \<noteq> Inr (lower p)))"
proof (cases spacing)
  case None
  with cached_spacing_answers [of "lower p" "lower c0" "lower c1" fee "lower h" lib st] assms
  obtain st' r where "cached_spacing lib (lower p, lower c0, lower c1, fee, lower h) st = Inr (st', r)" "spacing_ok lib st'"
    "answers lib (lower p, lower c0, lower c1, fee, lower h) r" by blast
  then show ?thesis using assms(2) None
    by (auto simp: resolve_v4_tick_spacing_def Let_def answers_def spacing_fits_def split: option.splits)
next
  case (Some s)
  then have s: "0 < s" "s \<le> 32767" using assms(2) by (auto simp: valid_key_def)
  obtain encoded where e: "key_bytes (lower c0) (lower c1) fee (lower h) = Inr encoded" using key_bytes_total [OF assms(2)] by blast
  obtain i where i: "v4_pool_id lib (lower c0) (lower c1) fee s (lower h) = Inr i"
    using key_bytes_pool_id [OF e, of s lib] s by auto
  have "spacing_ok lib (st\<lparr>sp_hints := remember_spacing fee (lower h) s (sp_hints st)\<rparr>)"
    using assms(1) remember_hints_ok [OF _ s] by (simp add: spacing_ok_def)
  then show ?thesis using assms i Some by (simp add: resolve_v4_tick_spacing_def Let_def)
qed

section \<open>A pool\<close>

definition tail_lib :: eth_lib where
  "tail_lib = \<lparr>keccak = (\<lambda>b. take 32 (drop 96 b)), abi_encode = (\<lambda>types vals. Inr []), abi_decode = (\<lambda>types data. Inr [])\<rparr>"

definition low_token :: address where "low_token = hex0x (replicate 20 0)"
definition high_token :: address where "high_token = hex0x (1 # replicate 19 0)"
definition pool_60 :: string where "pool_60 = hex0x (be_bytes 32 60)"

lemma pool_60_key: "valid_key pool_60 low_token high_token 3000 low_token None"
proof -
  have a: "is_address (hex0x bs) \<longleftrightarrow> length bs = 20" for bs
    using hex_of_bytes_range [of bs] by (auto simp: is_address_def)
  have "replicate 20 (0 :: 8 word) = 0 # replicate 19 0" by (simp flip: replicate_Suc)
  moreover have "hex_char 0 < hex_char 1" by code_simp
  ultimately have "low_token < high_token" by (simp add: low_token_def high_token_def hex0x_def)
  then show ?thesis by (simp add: valid_key_def a low_token_def high_token_def pool_60_def)
qed

lemma pool_60_fits: "v4_pool_id tail_lib low_token high_token 3000 60 low_token = Inr pool_60"
proof -
  obtain n0 n1 where n: "int_base16 low_token = Inr n0" "0 \<le> n0" "n0 < 2 ^ 256" "int_base16 high_token = Inr n1" "0 \<le> n1" "n1 < 2 ^ 256"
    using address_number [of low_token] address_number [of high_token] pool_60_key unfolding valid_key_def by blast
  then have "to_bytes_big 32 n0 = Inr (be_bytes 32 n0)" "to_bytes_big 32 n1 = Inr (be_bytes 32 n1)"
    "to_bytes_big 32 3000 = Inr (be_bytes 32 3000)" "to_bytes_big 32 60 = Inr (be_bytes 32 60)"
    by (simp_all add: to_bytes_big_def)
  with n show ?thesis by (simp add: v4_pool_id_def tail_lib_def pool_60_def)
qed

theorem spacing_resolved_witness:
  "\<exists>st' s. resolve_v4_tick_spacing tail_lib pool_60 low_token high_token 3000 low_token None \<lparr>sp_hints = [], sp_cache = []\<rparr> =
     Inr (st', Some s) \<and> spacing_ok tail_lib st' \<and> 0 < s"
proof -
  have "spacing_ok tail_lib \<lparr>sp_hints = [], sp_cache = []\<rparr>" by (simp add: spacing_ok_def hints_ok_def hints_of_def)
  moreover have l: "lower pool_60 = pool_60" "lower low_token = low_token" "lower high_token = high_token"
    by (simp_all add: pool_60_def low_token_def high_token_def)
  ultimately obtain st' r where r: "resolve_v4_tick_spacing tail_lib pool_60 low_token high_token 3000 low_token None
      \<lparr>sp_hints = [], sp_cache = []\<rparr> = Inr (st', r)" "spacing_ok tail_lib st'"
    "case r of Some s \<Rightarrow> 0 < s \<and> s \<le> 32767 \<and> v4_pool_id tail_lib low_token high_token 3000 s low_token = Inr pool_60
      | None \<Rightarrow> \<forall>s. 0 < s \<and> s \<le> 32767 \<longrightarrow> v4_pool_id tail_lib low_token high_token 3000 s low_token \<noteq> Inr pool_60"
    using spacing_resolved [of tail_lib "\<lparr>sp_hints = [], sp_cache = []\<rparr>" pool_60 low_token high_token 3000 low_token None]
      pool_60_key unfolding l option.case by blast
  then show ?thesis using pool_60_fits by (cases r) auto
qed

end
