(* ===== verification/Lp_Sample.thy ===== *)
theory Lp_Sample
  imports Lp_Kept Lp_Cash Lp_Call
begin

text \<open>
  Two transactions on concrete logs: one adds liquidity to a V4 pool and comes with its receipt and
  its call tree, the other adds liquidity to a V3 pool through the position manager. The hypotheses
  of the theorems on the rows hold here.
\<close>

section \<open>A library\<close>

text \<open>The hash of a text here is its first 16 bytes and zeros; it tells the topics apart that occur.\<close>

definition sample_lib :: eth_lib where
  "sample_lib = \<lparr>keccak = (\<lambda>b. take 16 b @ replicate 16 0), abi_encode = (\<lambda>types vals. Inr []),
     abi_decode = (\<lambda>types data. Inl (ValueError []))\<rparr>"

definition sample_topic :: "string \<Rightarrow> string" where
  "sample_topic s = hex0x (text_bytes s @ replicate 16 0)"

lemma text_bytes_eq [simp]: "text_bytes s = text_bytes t \<longleftrightarrow> s = t"
proof -
  have "inj (\<lambda>c. of_nat (of_char c) :: 8 word)"
  proof (rule injI)
    fix c d :: char
    assume "of_nat (of_char c) = (of_nat (of_char d) :: 8 word)"
    then have "unat (of_nat (of_char c) :: 8 word) = unat (of_nat (of_char d) :: 8 word)" by simp
    moreover have "unat (of_nat (of_char k) :: 8 word) = of_char k" for k :: char
      by (simp add: unat_of_nat nat_of_char_less_256 [unfolded of_char_def [symmetric]])
    ultimately show "c = d" by simp
  qed
  then show ?thesis by (simp add: text_bytes_def inj_map_eq_map)
qed

lemma sample_topic_eq [simp]: "sample_topic s = sample_topic t \<longleftrightarrow> s = t"
  by (simp add: sample_topic_def)

lemma length_text_bytes [simp]: "length (text_bytes s) = length s"
  by (simp add: text_bytes_def)

lemma sample_topic_readers [simp]:
  "lower (sample_topic s) = sample_topic s" "is_hash (sample_topic s) \<longleftrightarrow> length s = 16"
  "text_of (JStr (sample_topic s)) = sample_topic s"
  "length s = 16 \<Longrightarrow> read_hash (JStr (sample_topic s)) name = Inr (sample_topic s)"
  by (simp_all add: sample_topic_def)

lemma keccak_sample [simp]: "keccak sample_lib b = take 16 b @ replicate 16 0"
  by (simp add: sample_lib_def)

lemma sample_topic_text:
  "topic sample_lib
     (c1 # c2 # c3 # c4 # c5 # c6 # c7 # c8 # c9 # c10 # c11 # c12 # c13 # c14 # c15 # c16 # s) =
   sample_topic [c1, c2, c3, c4, c5, c6, c7, c8, c9, c10, c11, c12, c13, c14, c15, c16]"
  by (simp add: topic_def text_bytes_def sample_topic_def)

lemma sample_topics [simp]:
  "V4_INITIALIZE_TOPIC sample_lib = sample_topic ''Initialize(bytes''"
  "V3_POOL_CREATED_TOPIC sample_lib = sample_topic ''PoolCreated(addr''"
  "V3_POOL_CREATED_COMPACT_TOPIC sample_lib = sample_topic ''PoolCreated(addr''"
  "SLIPSTREAM_POOL_CREATED_TOPIC sample_lib = sample_topic ''PoolCreated(addr''"
  "V2_PAIR_CREATED_TOPIC sample_lib = sample_topic ''PairCreated(addr''"
  "V2_SWAP_TOPIC sample_lib = sample_topic ''Swap(address,uin''"
  "V2_MINT_TOPIC sample_lib = sample_topic ''Mint(address,uin''"
  "V2_BURN_TOPIC sample_lib = sample_topic ''Burn(address,uin''"
  "V2_SYNC_TOPIC sample_lib = sample_topic ''Sync(uint112,uin''"
  "V3_INITIALIZE_TOPIC sample_lib = sample_topic ''Initialize(uint1''"
  "V3_SWAP_TOPIC sample_lib = sample_topic ''Swap(address,add''"
  "V3_MINT_TOPIC sample_lib = sample_topic ''Mint(address,add''"
  "V3_BURN_TOPIC sample_lib = sample_topic ''Burn(address,int''"
  "V3_COLLECT_TOPIC sample_lib = sample_topic ''Collect(address,''"
  "V3_FLASH_TOPIC sample_lib = sample_topic ''Flash(address,ad''"
  "V3_SET_FEE_PROTOCOL_TOPIC sample_lib = sample_topic ''SetFeeProtocol(u''"
  "PANCAKE_V3_SET_FEE_PROTOCOL_TOPIC sample_lib = sample_topic ''SetFeeProtocol(u''"
  "V3_COLLECT_PROTOCOL_TOPIC sample_lib = sample_topic ''CollectProtocol(''"
  "NFT_INCREASE_LIQUIDITY_TOPIC sample_lib = sample_topic ''IncreaseLiquidit''"
  "NFT_DECREASE_LIQUIDITY_TOPIC sample_lib = sample_topic ''DecreaseLiquidit''"
  "NFT_COLLECT_TOPIC sample_lib = sample_topic ''Collect(uint256,''"
  "V4_SWAP_TOPIC sample_lib = sample_topic ''Swap(bytes32,add''"
  "V4_MODIFY_LIQUIDITY_TOPIC sample_lib = sample_topic ''ModifyLiquidity(''"
  "V4_DONATE_TOPIC sample_lib = sample_topic ''Donate(bytes32,a''"
  "V4_PROTOCOL_FEE_UPDATED_TOPIC sample_lib = sample_topic ''ProtocolFeeUpdat''"
  "V4_PROTOCOL_FEE_CONTROLLER_UPDATED_TOPIC sample_lib = sample_topic ''ProtocolFeeContr''"
  "V4_MODIFY_POSITION_TOPIC sample_lib = sample_topic ''ModifyPosition(b''"
  "TRANSFER_TOPIC sample_lib = sample_topic ''Transfer(address''"
  unfolding V4_INITIALIZE_TOPIC_def V3_POOL_CREATED_TOPIC_def V3_POOL_CREATED_COMPACT_TOPIC_def 
    SLIPSTREAM_POOL_CREATED_TOPIC_def V2_PAIR_CREATED_TOPIC_def V2_SWAP_TOPIC_def 
    V2_MINT_TOPIC_def V2_BURN_TOPIC_def V2_SYNC_TOPIC_def 
    V3_INITIALIZE_TOPIC_def V3_SWAP_TOPIC_def V3_MINT_TOPIC_def 
    V3_BURN_TOPIC_def V3_COLLECT_TOPIC_def V3_FLASH_TOPIC_def 
    V3_SET_FEE_PROTOCOL_TOPIC_def PANCAKE_V3_SET_FEE_PROTOCOL_TOPIC_def V3_COLLECT_PROTOCOL_TOPIC_def 
    NFT_INCREASE_LIQUIDITY_TOPIC_def NFT_DECREASE_LIQUIDITY_TOPIC_def NFT_COLLECT_TOPIC_def 
    V4_SWAP_TOPIC_def V4_MODIFY_LIQUIDITY_TOPIC_def V4_DONATE_TOPIC_def 
    V4_PROTOCOL_FEE_UPDATED_TOPIC_def V4_PROTOCOL_FEE_CONTROLLER_UPDATED_TOPIC_def V4_MODIFY_POSITION_TOPIC_def 
    TRANSFER_TOPIC_def sample_topic_text
  by (rule refl)+

lemma sample_extended_last: "last CL_SWAP_EXTENDED_TOPIC \<noteq> CHR ''0''"
  by (simp add: CL_SWAP_EXTENDED_TOPIC_def)

lemma sample_extended [simp]: "sample_topic s \<noteq> CL_SWAP_EXTENDED_TOPIC" "CL_SWAP_EXTENDED_TOPIC \<noteq> sample_topic s"
proof -
  have "replicate 16 0 = replicate 15 0 @ [0 :: 8 word]"
    by (simp add: replicate_append_same flip: replicate_Suc)
  then have "sample_topic s = (''0x'' @ hex_of_bytes (text_bytes s @ replicate 15 0) @ [hex_char 0]) @ [hex_char 0]"
    by (simp add: sample_topic_def hex0x_def)
  then have "last (sample_topic s) = hex_char 0" by (simp only: last_snoc)
  moreover have "hex_char 0 = CHR ''0''" by code_simp
  ultimately have "last (sample_topic s) = CHR ''0''" by simp
  then show "sample_topic s \<noteq> CL_SWAP_EXTENDED_TOPIC" "CL_SWAP_EXTENDED_TOPIC \<noteq> sample_topic s"
    by (metis sample_extended_last)+
qed

lemma sample_selector [simp]: "MODIFY_LIQUIDITY_SELECTOR sample_lib = hex0x (text_bytes ''modi'')"
proof -
  have "take 4 (text_bytes ''modifyLiquidity('' @ bs) = text_bytes ''modi''" for bs
    by (simp add: text_bytes_def)
  then show ?thesis
    unfolding MODIFY_LIQUIDITY_SELECTOR_def sample_topic_text sample_topic_def by simp
qed

section \<open>A V4 transaction\<close>

definition zero_hash :: string where "zero_hash = hex0x (replicate 32 0)"
definition sample_tx :: string where "sample_tx = hex0x (replicate 32 1)"
definition provider :: address where "provider = hex0x (replicate 20 2)"

definition address_topic :: "8 word \<Rightarrow> json" where
  "address_topic b = JStr (hex0x (replicate 12 0 @ replicate 20 b))"

definition log_place :: "int \<Rightarrow> jdict" where
  "log_place i = [(''blockNumber'', JInt 7), (''transactionIndex'', JInt 0), (''logIndex'', JInt i),
     (''blockHash'', JStr zero_hash), (''transactionHash'', JStr sample_tx)]"

definition word_data :: "int list \<Rightarrow> json" where
  "word_data ns = JStr (hex0x (concat (map enc_word ns)))"

definition modify_log :: jdict where
  "modify_log = [(''address'', JStr POOL_MANAGER),
     (''topics'', JArr [JStr (V4_MODIFY_LIQUIDITY_TOPIC sample_lib), JStr zero_hash, address_topic 2]),
     (''data'', word_data [-60, 60, 1000, 0])] @ log_place 3"

definition modify_frame :: jdict where
  "modify_frame = [(''from'', JStr provider), (''to'', JStr POOL_MANAGER),
     (''input'', JStr (hex0x (text_bytes ''modi'' @ concat (map enc_word [0, 1, 3000, 60, 0, -60, 60, 1000, 0, 320, 0])))),
     (''output'', JStr (hex0x (concat (map enc_word [5, 2])))),
     (''logs'', JArr [JObj modify_log])]"

definition sample_receipt :: jdict where
  "sample_receipt = [(''status'', JInt 1), (''transactionHash'', JStr sample_tx), (''blockHash'', JStr zero_hash),
     (''logs'', JArr [JObj modify_log])]"

definition sample_headers :: headers where
  "sample_headers = [(JInt 7, JObj [(''hash'', JStr zero_hash), (''timestamp'', JInt 100)])]"

lemma sample_texts [simp]:
  "is_hash zero_hash" "is_hash sample_tx" "lower zero_hash = zero_hash" "lower sample_tx = sample_tx"
  "text_of (JStr zero_hash) = zero_hash" "text_of (JStr sample_tx) = sample_tx"
  "read_hash (JStr zero_hash) name = Inr zero_hash" "read_hash (JStr sample_tx) name = Inr sample_tx"
  "read_address (JStr provider) name = Inr provider"
  "topic_addr (address_topic b) name = Inr (hex0x (replicate 20 b))"
  by (simp_all add: zero_hash_def sample_tx_def provider_def address_topic_def read_address_def)

lemma pool_manager_address [simp]: "find_address (JStr POOL_MANAGER) = Some POOL_MANAGER"
  by (simp add: find_address_canonical is_address_def POOL_MANAGER_def)

lemma data_words_sample [simp]:
  "dget ''data'' l = word_data ns \<Longrightarrow> length ns = n \<Longrightarrow> data_words l name n = Inr (map twos ns)"
  by (simp add: data_words_def word_data_def)

lemma modify_log_fields [simp]:
  "dget ''address'' modify_log = JStr POOL_MANAGER" "dget ''data'' modify_log = word_data [-60, 60, 1000, 0]"
  "dget ''topics'' modify_log = JArr [JStr (sample_topic ''ModifyLiquidity(''), JStr zero_hash, address_topic 2]"
  "dget ''removed'' modify_log = JNull" "dget ''blockNumber'' modify_log = JInt 7"
  "dget ''transactionIndex'' modify_log = JInt 0" "dget ''logIndex'' modify_log = JInt 3"
  "dget ''blockHash'' modify_log = JStr zero_hash" "dget ''transactionHash'' modify_log = JStr sample_tx"
  by (simp_all add: modify_log_def log_place_def dget_def)

lemma read_int_JInt [simp]: "read_int (JInt n) name = Inr n"
  by (simp add: read_int_def)

lemma modify_topic0 [simp]: "log_topic0 modify_log = Some (sample_topic ''ModifyLiquidity('')"
  by (simp add: log_topic0_def)

lemma modify_topics [simp]: 
  "log_topics modify_log = Inr [sample_topic ''ModifyLiquidity('', zero_hash, hex0x (replicate 12 0 @ replicate 20 2)]"
  by (simp add: log_topics_def zero_hash_def address_topic_def upt_rec)


lemma subscribed: "is_subscribed sample_lib modify_log"
  by (simp add: is_subscribed_def topic_set_defs)

lemma modify_order: "order_logs sample_lib [JObj modify_log] = Inr [modify_log]"
  by (simp add: order_logs_def map_filter_def subscribed log_order_def)

lemma modify_creations: "find_creations sample_lib [modify_log] [] d = Inr ([], d)"
  by (simp add: topic_set_defs)

definition modify_base :: lp_event where
  "modify_base = \<lparr>le_block_number = 7, le_block_hash = zero_hash, le_tx_hash = sample_tx,
     le_tx_index = 0, le_log_index = 3, le_timestamp = 100, le_pool_id = None, le_protocol = None, le_kind = None,
     le_owner = None, le_custody = None, le_position_key = None, le_token_id = None, le_tick_lower = None,
     le_tick_upper = None, le_liquidity_delta = None, le_liquidity = None, le_sqrt_price_x96 = None,
     le_tick = None, le_fee_ppm = None, le_amount0 = None, le_amount1 = None, le_fee_amount0 = None,
     le_fee_amount1 = None, le_cashflow0 = None, le_cashflow1 = None, le_pricing_basis = None,
     le_accounting_basis = None, le_identity_basis = None, le_data = []\<rparr>"

lemma event_base_sample: "event_base modify_log sample_headers = Inr modify_base"
  by (simp add: event_base_def find_header_def sample_headers_def dget_def [of _ "[_, _]"] ensure_def modify_base_def)

definition modify_row :: lp_event where
  "modify_row = modify_base\<lparr>le_protocol := Some ''v4'', le_pool_id := Some zero_hash, le_kind := Some ''add'',
     le_custody := Some provider, le_position_key := Some (''v4:'' @ zero_hash @ '':'' @ hex0x (replicate 16 2 @ replicate 16 0)),
     le_token_id := None, le_tick_lower := Some (-60), le_tick_upper := Some 60, le_liquidity_delta := Some 1000,
     le_accounting_basis := Some ''pending_trace'', le_identity_basis := Some ''core_position_custody'',
     le_data := [(''salt'', JStr (salt_text 0)), (''core_position_key'', JStr (hex0x (replicate 16 2 @ replicate 16 0))),
       (''trace_complete'', JBool False), (''cashflow_basis'', JStr ''pending_trace'')]\<rparr>"

lemma position_key_sample: "v4_position_key sample_lib provider (-60) 60 (salt_text 0) =
  Inr (hex0x (replicate 16 2 @ replicate 16 0))"
  by (simp add: v4_position_key_def provider_def to_bytes_signed_def salt_text_def)


lemma provider_plain: "provider \<noteq> V4_POSITION_MANAGER"
proof -
  have "replicate 20 (2 :: 8 word) = 2 # replicate 19 2" by (simp flip: replicate_Suc)
  then have "provider ! 2 = hex_char 0" by (simp add: provider_def hex0x_def)
  moreover have "V4_POSITION_MANAGER ! 2 \<noteq> hex_char 0" unfolding V4_POSITION_MANAGER_def by code_simp
  ultimately show ?thesis by auto
qed

lemma zero_salt [simp]: "salt_text (twos 0) = salt_text 0"
  by (simp add: twos_def)

lemma lower_v4 [simp]: "lower ''v4'' = ''v4''"
  by code_simp

lemma v4_event_sample:
  "v4_event sample_lib (sample_topic ''ModifyLiquidity('') (modify_base\<lparr>le_protocol := Some ''v4''\<rparr>) modify_log
     [sample_topic ''ModifyLiquidity('', zero_hash, hex0x (replicate 12 0 @ replicate 20 2)] = Inr modify_row"
  using provider_plain position_key_sample
  by (simp add: v4_event_def v4_modify_liquidity_def modify_row_def core_position_key_def ensure_def
      flip: provider_def)

lemma row_of_sample: "row_of sample_lib sample_headers [] [] modify_log = Inr (Some modify_row)"
  using v4_event_sample event_base_sample
  by (simp add: row_of_def topic_set_defs decode_event_def normalize_pool_creation_def decode_pool_event_def)


lemma decode_rows_sample: "decode_rows sample_lib sample_headers [] [] [modify_log] = Inr [modify_row]"
  by (simp add: decode_rows_def map_filter_def row_of_sample)

lemma modify_row_fields [simp]:
  "le_tx_hash modify_row = sample_tx" "le_protocol modify_row = Some ''v4''" "le_custody modify_row = Some provider"
  "le_liquidity_delta modify_row = Some 1000" "event_identity modify_row = (zero_hash, sample_tx, 3)"
  by (simp_all add: modify_row_def modify_base_def event_identity_def)

lemma receipt_fields [simp]:
  "sample_receipt \<noteq> []" "has_key ''transactionHash'' sample_receipt" "dget ''status'' sample_receipt = JInt 1"
  "dget ''transactionHash'' sample_receipt = JStr sample_tx" "dget ''blockHash'' sample_receipt = JStr zero_hash"
  "dget ''logs'' sample_receipt = JArr [JObj modify_log]"
  by (simp_all add: sample_receipt_def has_key_def dget_def)

lemma receipt_for_sample: "receipt_for sample_receipt h = Some sample_receipt"
  by (simp add: receipt_for_def unwrap_result_def)

lemma text_or_empty_hash [simp]: "text_or_empty (JStr sample_tx) = sample_tx"
  by (simp add: text_or_empty_def)

lemma evidence_sample: "evidence_logs [modify_log] sample_receipt = Inr [(sample_tx, [modify_log])]"
  by (simp add: evidence_logs_def od_get_def merge_receipt_def receipt_for_sample ensure_def sorted_logs_def Let_def)

lemma no_aux [simp]: "decode_nfpm_aux sample_lib modify_log = Inr None" "decode_v4_position_aux sample_lib modify_log = Inr None"
  by (simp_all add: decode_nfpm_aux_def decode_v4_position_aux_def topic_set_defs)

lemma correlate_sample:
  "correlate_manager_events sample_lib sample_headers [(sample_tx, [modify_log])] [modify_row] = Inr [modify_row]"
  using provider_plain
  by (simp add: correlate_manager_events_def rows_by_tx_def od_append_def od_get_def correlate_transaction_def
      is_v3_core_def is_v4_core_def group_aux_def map_filter_def repair_transaction_def enrich_transfers_def)

definition modify_made :: modify_call where
  "modify_made = \<lparr>mc_pool_id = zero_hash, mc_token0 = hex0x (replicate 20 0), mc_token1 = hex0x (be_bytes 20 1),
     mc_configured_fee = 3000, mc_tick_spacing = 60, mc_hook = hex0x (replicate 20 0), mc_tick_lower = -60,
     mc_tick_upper = 60, mc_liquidity_delta = 1000, mc_salt = salt_text 0,
     mc_caller_delta0 = 0, mc_caller_delta1 = 5, mc_fees_accrued0 = 0, mc_fees_accrued1 = 2\<rparr>"

lemma modify_frame_fields [simp]:
  "dget ''from'' modify_frame = JStr provider" "dget ''to'' modify_frame = JStr POOL_MANAGER"
  "dget ''input'' modify_frame =
     JStr (hex0x (text_bytes ''modi'' @ concat (map enc_word [0, 1, 3000, 60, 0, -60, 60, 1000, 0, 320, 0])))"
  "dget ''output'' modify_frame = JStr (hex0x (concat (map enc_word [5, 2])))"
  "dget ''logs'' modify_frame = JArr [JObj modify_log]" "dget ''error'' modify_frame = JNull"
  "dget ''revertReason'' modify_frame = JNull" "dget ''type'' modify_frame = JNull" "map_of modify_frame ''calls'' = None"
  by (simp_all add: modify_frame_def dget_def)

lemma zero_bytes: "be_bytes n 0 = replicate n 0"
  by (induction n) (simp_all add: replicate_append_same)

lemma pool_id_sample:
  "v4_pool_id sample_lib (hex0x (replicate 20 0)) (hex0x (be_bytes 20 1)) 3000 60 (hex0x (replicate 20 0)) = Inr zero_hash"
proof -
  have "from_bytes_big (replicate 20 0) = 0" using from_be_bytes [of 0 20] by (simp add: zero_bytes)
  moreover have "take 16 (replicate 32 0 @ b) @ replicate 16 0 = replicate 32 0" for b :: bytes
    by (simp flip: replicate_add)
  moreover have "be_bytes 20 1 \<noteq> []" using length_be_bytes [of 20 1] by fastforce
  ultimately show ?thesis
    by (simp add: v4_pool_id_def from_be_bytes to_bytes_big_def zero_hash_def zero_bytes)
qed

lemma frame_sample: "decode_modify_call sample_lib modify_frame = Inr modify_made"
proof -
  have t: "twos 0 = 0" "twos 1 = 1" "twos 5 = 5" "twos 2 = 2" "twos 320 = 320" by (simp_all add: twos_def)
  have w: "raw_words (concat (map enc_word [0, 1, 3000, 60, 0, -60, 60, 1000, 0, 320, 0])) =
      map twos [0, 1, 3000, 60, 0, -60, 60, 1000, 0, 320, 0]" by (rule raw_words_enc)
  have l: "length (concat (map enc_word [0, 1, 3000, 60, 0, -60, 60, 1000, 0, 320, 0])) = 352" by simp
  have h: "check_hook_data (concat (map enc_word [0, 1, 3000, 60, 0, -60, 60, 1000, 0, 320, 0]))
      (map twos [0, 1, 3000, 60, 0, -60, 60, 1000, 0, 320, 0]) = Inr ()"
    by (simp add: check_hook_data_def t ensure_def)
  have a: "word_address (twos 0) name = Inr (hex0x (replicate 20 0))" "word_address (twos 1) name = Inr (hex0x (be_bytes 20 1))"
    for name by (simp_all add: t word_address_def abi_uint_def zero_bytes)
  have o: "length (concat (map enc_word [5, 2])) = 64" "take 32 (concat (map enc_word [5, 2])) = enc_word 5"
    "drop 32 (concat (map enc_word [5, 2])) = enc_word 2" by simp_all
  have d: "decode_balance_delta 5 = (0, 5)" "decode_balance_delta 2 = (0, 2)" by code_simp+
  show ?thesis
    using w l h pool_id_sample
    by (simp add: decode_modify_call_def ensure_def Let_def a o d t(3,4) modify_made_def del: concat.simps list.map)
qed

lemma hex0x_nonempty [simp]: "hex0x bs \<noteq> []"
  by (simp add: hex0x_def)

lemma walk_sample: "walk_trace modify_frame [] False = [Inr ([], modify_frame, False)]"
  by (simp add: walk_trace.simps [of modify_frame])

lemma is_modify_sample: "is_modify_event sample_lib modify_log"
  by (simp add: is_modify_event_def)

definition modify_key :: log_key where
  "modify_key = (POOL_MANAGER, [sample_topic ''ModifyLiquidity('', zero_hash, hex0x (replicate 12 0 @ replicate 20 2)],
     hex0x (concat (map enc_word [-60, 60, 1000, 0])))"

lemma log_key_sample: "trace_log_key modify_log = Inr modify_key"
  by (simp add: trace_log_key_def read_address_def word_data_def modify_key_def del: concat.simps list.map)

lemma read_call_sample: "read_call sample_lib modify_frame = Inr (modify_key, modify_made)"
proof -
  have "is_call modify_frame" by (simp add: is_call_def either_of_def upper_char_def)
  moreover have "frame_events sample_lib modify_frame = Inr [modify_log]"
    by (simp add: frame_events_def either_of_def map_filter_def is_modify_sample)
  moreover have "traced_values modify_log = Inr (zero_hash, provider, -60, 60, 1000, salt_text 0)"
    by (simp add: traced_values_def ensure_def provider_def)
  ultimately show ?thesis
    by (simp add: read_call_def frame_sample log_key_sample ensure_def call_values_def) (simp add: modify_made_def)
qed

lemma trace_updates_sample: "trace_updates sample_lib sample_receipt modify_frame = Inr [((zero_hash, sample_tx, 3), modify_made)]"
proof -
  have "is_modify_frame sample_lib modify_frame"
    by (simp add: is_modify_frame_def text_or_empty_def del: concat.simps list.map)
  then show ?thesis
    by (simp add: trace_updates_def is_modify_sample log_key_sample walk_sample read_call_sample od_append_def
        od_get_def ensure_def sort_logs_def od_keys_def)
qed

lemma enrich_sample:
  "\<exists>e. enrich_v4_traces sample_lib sample_receipt modify_frame [] [modify_row] = Inr [e] \<and>
     le_accounting_basis e = Some ''v4_modifyLiquidity_return''"
proof -
  have "trace_for modify_frame h = Some modify_frame" for h
    by (simp add: trace_for_def unwrap_result_def) (simp add: modify_frame_def has_key_def)
  moreover have "call_matches modify_row modify_made = Inr True"
    by (simp add: call_matches_def modify_row_def modify_made_def)
  ultimately show ?thesis
    by (simp add: enrich_v4_traces_def od_append_def od_get_def receipt_for_sample trace_updates_sample
        ensure_def enrich_row_def)
qed


section \<open>A V3 transaction\<close>

definition manager :: address where "manager = UNISWAP_V3_POSITION_MANAGER"
definition v3_pool_address :: address where "v3_pool_address = hex0x (replicate 20 3)"

definition manager_bytes :: bytes where
  "manager_bytes = (case bytes_fromhex (drop 2 manager) of Inr b \<Rightarrow> b)"

lemma manager_is_address: "is_address manager"
  by (simp add: is_address_def manager_def UNISWAP_V3_POSITION_MANAGER_def)

lemma manager_bytes [simp]: "hex0x manager_bytes = manager" "length manager_bytes = 20"
proof -
  obtain bs where bs: "manager = hex0x bs" "length bs = 20" using is_address_bytes [OF manager_is_address] by blast
  have "manager_bytes = bs" unfolding manager_bytes_def bs(1) by simp
  with bs show "hex0x manager_bytes = manager" "length manager_bytes = 20" by simp_all
qed

definition mint_log :: jdict where
  "mint_log = [(''address'', JStr v3_pool_address),
     (''topics'', JArr [JStr (sample_topic ''Mint(address,add''), JStr (hex0x (replicate 12 0 @ manager_bytes)),
        JStr (hex0x (enc_word (-60))), JStr (hex0x (enc_word 60))]),
     (''data'', word_data [0, 1000, 50, 60])] @ log_place 1"

definition increase_log :: jdict where
  "increase_log = [(''address'', JStr manager),
     (''topics'', JArr [JStr (sample_topic ''IncreaseLiquidit''), JStr (hex0x (enc_word 9))]),
     (''data'', word_data [1000, 50, 60])] @ log_place 2"

definition v3_pools :: "(string \<times> json) list" where
  "v3_pools = [(v3_pool_address, JObj [(''protocol'', JStr ''v3'')])]"

lemma v3_pool_index: "pool_map v3_pools = [(v3_pool_address, [(''protocol'', JStr ''v3'')])]"
  by (simp add: pool_map_def v3_pools_def pool_names_def index_pool_def dget_def v3_pool_address_def)

lemma mint_log_fields [simp]:
  "dget ''address'' mint_log = JStr v3_pool_address" "dget ''data'' mint_log = word_data [0, 1000, 50, 60]"
  "dget ''topics'' mint_log = JArr [JStr (sample_topic ''Mint(address,add''),
     JStr (hex0x (replicate 12 0 @ manager_bytes)), JStr (hex0x (enc_word (-60))), JStr (hex0x (enc_word 60))]"
  "dget ''removed'' mint_log = JNull" "dget ''blockNumber'' mint_log = JInt 7"
  "dget ''transactionIndex'' mint_log = JInt 0" "dget ''logIndex'' mint_log = JInt 1"
  "dget ''blockHash'' mint_log = JStr zero_hash" "dget ''transactionHash'' mint_log = JStr sample_tx"
  by (simp_all add: mint_log_def log_place_def dget_def)

lemma increase_log_fields [simp]:
  "dget ''address'' increase_log = JStr manager" "dget ''data'' increase_log = word_data [1000, 50, 60]"
  "dget ''topics'' increase_log = JArr [JStr (sample_topic ''IncreaseLiquidit''), JStr (hex0x (enc_word 9))]"
  "dget ''removed'' increase_log = JNull" "dget ''blockNumber'' increase_log = JInt 7"
  "dget ''transactionIndex'' increase_log = JInt 0" "dget ''logIndex'' increase_log = JInt 2"
  "dget ''blockHash'' increase_log = JStr zero_hash" "dget ''transactionHash'' increase_log = JStr sample_tx"
  by (simp_all add: increase_log_def log_place_def dget_def)

lemma v3_topics [simp]:
  "log_topic0 mint_log = Some (sample_topic ''Mint(address,add'')"
  "log_topic0 increase_log = Some (sample_topic ''IncreaseLiquidit'')"
  "log_topics mint_log = Inr [sample_topic ''Mint(address,add'', hex0x (replicate 12 0 @ manager_bytes),
     hex0x (enc_word (-60)), hex0x (enc_word 60)]"
  "log_topics increase_log = Inr [sample_topic ''IncreaseLiquidit'', hex0x (enc_word 9)]"
  by (simp_all add: log_topic0_def log_topics_def upt_rec)

lemma v3_order: "order_logs sample_lib [JObj mint_log, JObj increase_log] = Inr [mint_log, increase_log]"
  by (simp add: order_logs_def map_filter_def is_subscribed_def log_order_def topic_set_defs)

lemma v3_creations: "find_creations sample_lib [mint_log, increase_log] [] d = Inr ([], d)"
  by (simp add: topic_set_defs)

definition mint_base :: lp_event where
  "mint_base = modify_base\<lparr>le_log_index := 1\<rparr>"

lemma mint_event_base: "event_base mint_log sample_headers = Inr mint_base"
  by (simp add: event_base_def find_header_def sample_headers_def dget_def [of _ "[_, _]"] ensure_def
      mint_base_def modify_base_def)

abbreviation mint_core_key :: string where
  "mint_core_key \<equiv> hex0x (take 16 manager_bytes @ replicate 16 0)"

definition mint_row :: lp_event where
  "mint_row = mint_base\<lparr>le_pool_id := Some v3_pool_address, le_protocol := Some ''v3'', le_fee_ppm := None,
     le_kind := Some ''add'', le_custody := Some manager, le_position_key := Some (''v3:'' @ v3_pool_address @ '':'' @ mint_core_key),
     le_tick_lower := Some (-60), le_tick_upper := Some 60, le_liquidity_delta := Some 1000,
     le_amount0 := Some 50, le_amount1 := Some 60, le_cashflow0 := Some (-50), le_cashflow1 := Some (-60),
     le_accounting_basis := Some ''core_mint_exact_position_flow'',
     le_identity_basis := Some ''core_position_custody'',
     le_data := [(''sender'', JStr ZERO_ADDRESS), (''core_position_key'', JStr mint_core_key)]\<rparr>"

lemma lower_v3 [simp]: "lower ''v3'' = ''v3''"
  by code_simp

lemma zero_address: "hex0x (be_bytes 20 0) = ZERO_ADDRESS"
  by code_simp

lemma v3_key_sample: "v3_position_key sample_lib manager (-60) 60 = Inr mint_core_key"
proof -
  have "bytes_fromhex (drop 2 manager) = Inr manager_bytes" using bytes_fromhex_hex [of manager_bytes]
    by (simp flip: manager_bytes(1) drop_hex0x)
  then show ?thesis by (simp add: v3_position_key_def to_bytes_signed_def)
qed

lemma v3_event_sample:
  "v3_event sample_lib (sample_topic ''Mint(address,add'') p
     (mint_base\<lparr>le_pool_id := Some v3_pool_address, le_protocol := Some ''v3'', le_fee_ppm := None\<rparr>) mint_log
     [sample_topic ''Mint(address,add'', hex0x (replicate 12 0 @ manager_bytes),
     hex0x (enc_word (-60)), hex0x (enc_word 60)] = Inr mint_row"
proof -
  have t: "twos 0 = 0" "twos 50 = 50" "twos 60 = 60" by (simp_all add: twos_def)
  have "word_address (twos 0) name = Inr ZERO_ADDRESS" for name
    by (simp add: t word_address_def abi_uint_def zero_address)
  then show ?thesis
    by (simp add: v3_event_def v3_mint_def v3_key_sample mint_row_def core_position_key_def ensure_def jtext_def
        read_address_def t) (simp add: v3_pool_address_def)
qed
lemma manager_address [simp]: "find_address (JStr manager) = Some manager" "lower manager = manager"
  using find_address_hex0x [of manager_bytes] lower_hex0x [of manager_bytes] by simp_all

lemma v3_manager [simp]: "manager \<in> set V3_NFT_MANAGER_ADDRESSES"
  by (simp add: V3_NFT_MANAGER_ADDRESSES_def MANAGER_INFO_def manager_def)

definition increase_made :: nfpm_aux where
  "increase_made = \<lparr>na_manager = manager, na_kind = ''add'', na_token_id = 9, na_liquidity = Some 1000,
     na_amount0 = 50, na_amount1 = 60, na_recipient = None, na_log_index = 2\<rparr>"

lemma increase_sample: "decode_nfpm_aux sample_lib increase_log = Inr (Some increase_made)"
proof -
  have "twos 50 = 50" "twos 60 = 60" by (simp_all add: twos_def)
  then show ?thesis
    by (simp add: decode_nfpm_aux_def topic_set_defs ensure_def nfpm_values_def increase_made_def)
qed

lemma mint_no_aux [simp]: "decode_nfpm_aux sample_lib mint_log = Inr None"
  "decode_v4_position_aux sample_lib mint_log = Inr None" "decode_v4_position_aux sample_lib increase_log = Inr None"
  by (simp_all add: decode_nfpm_aux_def decode_v4_position_aux_def topic_set_defs v3_pool_address_def)

lemma v3_rows: "decode_rows sample_lib sample_headers [] (pool_map v3_pools) [mint_log, increase_log] = Inr [mint_row]"
proof -
  have "row_of sample_lib sample_headers [] (pool_map v3_pools) mint_log = Inr (Some mint_row)"
    using v3_event_sample mint_event_base
    by (simp add: row_of_def topic_set_defs decode_event_def normalize_pool_creation_def decode_pool_event_def
        v3_pool_index pool_protocol_def pool_fee_def pool_id_of_def dget_or_def dget_def [of _ "[_]"] v3_pool_address_def)
  moreover have "row_of sample_lib sample_headers [] (pool_map v3_pools) increase_log = Inr None"
    by (simp add: row_of_def topic_set_defs check_auxiliary_def increase_sample)
  ultimately show ?thesis by (simp add: decode_rows_def map_filter_def)
qed

lemma v3_evidence: "evidence_logs [mint_log, increase_log] [] = Inr [(sample_tx, [mint_log, increase_log])]"
  by (simp add: evidence_logs_def od_get_def merge_receipt_def receipt_for_def sorted_logs_def Let_def)

lemma mint_row_fields [simp]:
  "le_tx_hash mint_row = sample_tx" "le_protocol mint_row = Some ''v3''" "le_custody mint_row = Some manager"
  "le_kind mint_row = Some ''add''" "le_liquidity_delta mint_row = Some 1000" "le_amount0 mint_row = Some 50"
  "le_amount1 mint_row = Some 60" "dget ''core_position_key'' (le_data mint_row) = JStr mint_core_key"
  by (simp_all add: mint_row_def mint_base_def modify_base_def dget_def)

lemma v3_correlated:
  "\<exists>e. correlate_manager_events sample_lib sample_headers [(sample_tx, [mint_log, increase_log])] [mint_row] = Inr [e] \<and>
     le_protocol e = Some ''v3'' \<and> le_token_id e = Some 9"
proof -
  have "owner_from_transfers sample_lib [mint_log, increase_log] manager 9 i = Inr (None, None)" for i
    by (simp add: owner_from_transfers_def)
  then have "\<exists>e. attribute_token sample_lib [mint_log, increase_log] mint_row increase_made = Inr e \<and>
      le_protocol e = Some ''v3'' \<and> le_token_id e = Some 9"
    by (simp add: attribute_token_def increase_made_def nft_position_key_def read_address_def Let_def)
  then obtain e where e: "attribute_token sample_lib [mint_log, increase_log] mint_row increase_made = Inr e"
    "le_protocol e = Some ''v3''" "le_token_id e = Some 9" by blast
  have k: "v3_core_key mint_row = Inr (aux_key increase_made)"
    by (simp add: v3_core_key_def aux_key_def increase_made_def)
  from e show ?thesis
    by (simp add: correlate_manager_events_def rows_by_tx_def od_append_def od_get_def correlate_transaction_def
      is_v3_core_def is_v4_core_def group_aux_def map_filter_def repair_transaction_def enrich_transfers_def increase_sample
      k correlate_group_def by_log_index_def)
qed
section \<open>The theorems on the sample\<close>

abbreviation sample_decode :: "lp_exn + lp_event list" where
  "sample_decode \<equiv> decode_logs sample_lib [JObj modify_log] [] sample_headers sample_receipt modify_frame"

lemma decode_logs_sample:
  "\<exists>e. sample_decode = Inr [e] \<and> le_accounting_basis e = Some ''v4_modifyLiquidity_return''"
  using enrich_sample by (auto simp: decode_logs_def modify_order modify_creations decode_rows_sample
      evidence_sample correlate_sample pool_map_def simp del: find_creations.simps)

lemma made_typed: "typed_call sample_lib modify_made 0 1 0 0"
proof -
  have "take 16 (concat (map enc_word [0, 1, 3000, 60, 0])) = replicate 16 0"
  proof -
    have "enc_word 0 = replicate 16 0 @ replicate 16 0" by (simp add: enc_word_def twos_def zero_bytes flip: replicate_add)
    then show ?thesis by simp
  qed
  then have "zero_hash = hex0x (keccak sample_lib (concat (map enc_word [0, 1, 3000, 60, 0])))"
    by (simp add: zero_hash_def flip: replicate_add)
  then show ?thesis
    unfolding typed_call_def by (simp add: modify_made_def is_uint_def int_within_def zero_bytes)
qed

theorem modify_call_roundtrip_witness:
  "typed_call sample_lib modify_made 0 1 0 0 \<and> decode_modify_call sample_lib modify_frame = Inr modify_made"
proof -
  have "encode_call (text_bytes ''modi'') modify_made 0 1 0 0 [] =
      text_bytes ''modi'' @ concat (map enc_word [0, 1, 3000, 60, 0, -60, 60, 1000, 0, 320, 0])"
    by (simp add: encode_call_def call_words_def zero_padding_def modify_made_def)
  moreover have "encode_deltas modify_made = concat (map enc_word [5, 2])"
    by (simp add: encode_deltas_def packed_delta_def modify_made_def)
  ultimately have "decode_modify_call sample_lib modify_frame = Inr modify_made"
    using modify_call_roundtrip [OF made_typed, of "[]" "text_bytes ''modi''" modify_frame]
    by (simp del: concat.simps list.map)
  then show ?thesis using made_typed by simp
qed


theorem trace_updates_exact_witness:
  "\<exists>key path. call_of sample_lib modify_frame key (path, modify_made) \<and> event_of sample_lib [JObj modify_log] key modify_log"
proof -
  have i: "map_of [((zero_hash, sample_tx, 3), modify_made)] (zero_hash, sample_tx, 3) = Some modify_made" by simp
  have "read_int (dget ''status'' sample_receipt) ''receipt status'' = Inr 1" by simp
  from trace_updates_exact [OF trace_updates_sample receipt_fields(6) this] i
  obtain key path l where "call_of sample_lib modify_frame key (path, modify_made)" "event_of sample_lib [JObj modify_log] key l"
    by blast
  then show ?thesis by (auto simp: event_of_def simp del: split_paired_Ex)
qed

theorem v4_cashflows_traced_witness:
  "\<exists>e c. sample_decode = Inr [e] \<and> decode_modify_call sample_lib modify_frame = Inr c \<and>
     le_cashflow0 e = Some (mc_caller_delta0 c) \<and> le_cashflow1 e = Some (mc_caller_delta1 c)"
proof -
  obtain e where e: "sample_decode = Inr [e]" "le_accounting_basis e = Some ''v4_modifyLiquidity_return''"
    using decode_logs_sample by blast
  have "trace_for modify_frame h = Some modify_frame" for h
    by (simp add: trace_for_def unwrap_result_def) (simp add: modify_frame_def has_key_def)
  then show ?thesis using v4_cashflows_traced [OF e(1) _ e(2)] e(1) by (auto simp: walk_sample)
qed


theorem v3_tokens_proved_witness:
  "\<exists>e (a :: nfpm_aux). decode_logs sample_lib [JObj mint_log, JObj increase_log] v3_pools sample_headers [] [] = Inr [e] \<and>
     le_token_id e = Some 9 \<and> na_token_id a = 9 \<and> na_amount0 a = na_amount0 increase_made"
proof -
  obtain e where e: "correlate_manager_events sample_lib sample_headers [(sample_tx, [mint_log, increase_log])] [mint_row] = Inr [e]"
    "le_protocol e = Some ''v3''" "le_token_id e = Some 9" using v3_correlated by blast
  have d: "decode_logs sample_lib [JObj mint_log, JObj increase_log] v3_pools sample_headers [] [] = Inr [e]"
    using e by (simp add: decode_logs_def v3_order v3_creations v3_rows v3_evidence enrich_v4_traces_def
        del: find_creations.simps)
  from v3_tokens_proved [OF d _ e(2,3)] obtain l a where "l \<in> set [mint_log, increase_log]"
    "decode_nfpm_aux sample_lib l = Inr (Some a)" "na_token_id a = 9"
    by (auto simp: v3_order v3_evidence od_get_def split: if_splits)
  moreover from this have "a = increase_made" by (auto simp: increase_sample)
  ultimately show ?thesis using d e(3) by blast
qed

section \<open>A transfer and an action\<close>

definition nft_key_9 :: string where
  "nft_key_9 = ''nft:'' @ V4_POSITION_MANAGER @ '':'' @ int_text 9"

definition transfer_row :: lp_event where
  "transfer_row = modify_base\<lparr>le_log_index := 1, le_protocol := Some ''nft'', le_kind := Some ''transfer'',
     le_custody := Some V4_POSITION_MANAGER, le_token_id := Some 9, le_position_key := Some nft_key_9,
     le_data := [(''prior_owner'', JStr ZERO_ADDRESS), (''new_owner'', JStr provider)]\<rparr>"

definition action_row :: lp_event where
  "action_row = modify_base\<lparr>le_protocol := Some ''v4'', le_custody := Some V4_POSITION_MANAGER,
     le_token_id := Some 9, le_position_key := Some nft_key_9, le_liquidity_delta := Some 1000\<rparr>"

lemma v4_manager_address [simp]: "find_address (JStr V4_POSITION_MANAGER) = Some V4_POSITION_MANAGER"
  "find_address (JStr ZERO_ADDRESS) = Some ZERO_ADDRESS"
  by (rule find_address_canonical; simp add: is_address_def V4_POSITION_MANAGER_def ZERO_ADDRESS_def)+

lemma provider_address [simp]: "find_address (JStr provider) = Some provider"
  unfolding provider_def by (rule find_address_hex0x) simp

lemma lower_nft_key: "lower nft_key_9 = nft_key_9" "nft_key_9 \<noteq> []"
  unfolding nft_key_9_def V4_POSITION_MANAGER_def by code_simp+

lemma provider_nonzero: "provider \<noteq> ZERO_ADDRESS"
proof -
  have "replicate 20 (2 :: 8 word) = 2 # replicate 19 2" by (simp flip: replicate_Suc)
  then have "provider ! 3 = hex_char 2" by (simp add: provider_def hex0x_def)
  moreover have "ZERO_ADDRESS ! 3 \<noteq> hex_char 2" unfolding ZERO_ADDRESS_def by code_simp
  ultimately show ?thesis by auto
qed

lemma repair_sample: "\<exists>r. repair_v4_owners [transfer_row, action_row] = Inr [r]"
proof -
  have "nft_position_key (JStr V4_POSITION_MANAGER) 9 = Inr nft_key_9"
    by (simp add: nft_position_key_def read_address_def nft_key_9_def)
  then have k: "check_nft_key row 9 t = Inr ()" if "le_position_key row = Some nft_key_9" for row t
    using that lower_nft_key by (simp add: check_nft_key_def ensure_def text_or_empty_def jtext_def)
  then show ?thesis using provider_nonzero
    by (simp add: repair_v4_owners_def is_manager_transfer_def is_manager_core_def transfer_row_def action_row_def
        modify_base_def note_transfer_def transfer_endpoints_def int_given_def jint_def jtext_def read_address_def
        dget_def ensure_def repair_row_def od_get_def owner_at_def Let_def k)
qed

theorem repair_v4_owners_proved_witness:
  "\<exists>r t. repair_v4_owners [transfer_row, action_row] = Inr [r] \<and> le_owner r = Some (owner_by 3 t)"
proof -
  obtain r where r: "repair_v4_owners [transfer_row, action_row] = Inr [r]" using repair_sample by blast
  have "\<not> is_manager_core transfer_row" by (simp add: is_manager_core_def transfer_row_def)
  with repair_v4_owners_proved [OF r, of r] obtain owner basis t
    where "r = with_owner action_row owner basis" "owner = owner_by (le_log_index action_row) t" by auto
  then show ?thesis using r by (auto simp: with_owner_def action_row_def modify_base_def)
qed

end
