(* ===== verification/Acc_Read.thy ===== *)
theory Acc_Read
  imports Lp_Events "HOL-Library.Product_Lexorder"
begin

text \<open>
  The data of \<^verbatim>\<open>lp_market_accounting.py\<close>: the readers of scalar fields, the rows of the \<^verbatim>\<open>events\<close>
  table that an accounting replay reads, and the records it keeps and writes (episodes, ownership
  intervals, effects, the state of a position).

  Amounts of the two tokens of a pool come in pairs of fields (\<^verbatim>\<open>deposit0\<close>, \<^verbatim>\<open>deposit1\<close>, ...), which
  are one field of type \<^verbatim>\<open>tokens\<close> here. Prices and values in USD are floats in the program and
  exact reals here, so rounding is not modelled; a value that a float does not reach is not finite.
\<close>

section \<open>Amounts of the two tokens\<close>

datatype tokens = Tokens (tok0: int) (tok1: int)

instantiation tokens :: comm_monoid_add
begin

definition zero_tokens :: tokens where
  "0 = Tokens 0 0"

definition plus_tokens :: "tokens \<Rightarrow> tokens \<Rightarrow> tokens" where
  "a + b = Tokens (tok0 a + tok0 b) (tok1 a + tok1 b)"

instance
  by standard (simp_all add: zero_tokens_def plus_tokens_def)

end

instantiation tokens :: order
begin

definition less_eq_tokens :: "tokens \<Rightarrow> tokens \<Rightarrow> bool" where
  "a \<le> b \<longleftrightarrow> tok0 a \<le> tok0 b \<and> tok1 a \<le> tok1 b"

definition less_tokens :: "tokens \<Rightarrow> tokens \<Rightarrow> bool" where
  "(a :: tokens) < b \<longleftrightarrow> a \<le> b \<and> \<not> b \<le> a"

instance
  by standard (auto simp: less_eq_tokens_def less_tokens_def tokens.expand)

end

instance tokens :: ordered_comm_monoid_add
  by standard (simp add: less_eq_tokens_def plus_tokens_def)

named_theorems token_simps "amounts by their two components"

lemma tok_zero [simp, token_simps]: "tok0 0 = 0" "tok1 0 = 0"
  by (simp_all add: zero_tokens_def)

lemma tok_add [simp, token_simps]: "tok0 (a + b) = tok0 a + tok0 b" "tok1 (a + b) = tok1 a + tok1 b"
  by (simp_all add: plus_tokens_def)

lemma tokens_le_iff [token_simps]: "a \<le> b \<longleftrightarrow> tok0 a \<le> tok0 b \<and> tok1 a \<le> tok1 b"
  by (fact less_eq_tokens_def)

lemma tokens_eq_iff [token_simps]: "a = b \<longleftrightarrow> tok0 a = tok0 b \<and> tok1 a = tok1 b"
  by (auto simp: tokens.expand)

lemma Tokens_zero [simp]: "Tokens 0 0 = 0"
  by (simp add: zero_tokens_def)

text \<open>The two amounts treated alike: \<^verbatim>\<open>abs\<close>, \<^verbatim>\<open>max(0, n)\<close>, \<^verbatim>\<open>max(0, -n)\<close>, a difference.\<close>

definition both :: "(int \<Rightarrow> int) \<Rightarrow> tokens \<Rightarrow> tokens" where
  "both f t = Tokens (f (tok0 t)) (f (tok1 t))"

definition both2 :: "(int \<Rightarrow> int \<Rightarrow> int) \<Rightarrow> tokens \<Rightarrow> tokens \<Rightarrow> tokens" where
  "both2 f a b = Tokens (f (tok0 a) (tok0 b)) (f (tok1 a) (tok1 b))"

abbreviation positive_part :: "int \<Rightarrow> int" where
  "positive_part n \<equiv> max 0 n"

abbreviation negative_part :: "int \<Rightarrow> int" where
  "negative_part n \<equiv> max 0 (- n)"

definition taken_from :: "tokens \<Rightarrow> tokens \<Rightarrow> tokens" where
  "taken_from a b = both2 (-) a b"

lemma tok_both [simp, token_simps]:
  "tok0 (both f t) = f (tok0 t)" "tok1 (both f t) = f (tok1 t)"
  "tok0 (both2 g a b) = g (tok0 a) (tok0 b)" "tok1 (both2 g a b) = g (tok1 a) (tok1 b)"
  "tok0 (taken_from a b) = tok0 a - tok0 b" "tok1 (taken_from a b) = tok1 a - tok1 b"
  by (simp_all add: both_def both2_def taken_from_def)

lemma taken_and_left [simp]: "b + taken_from a b = a"
  by (simp add: token_simps)

lemma both_positive [intro, simp]: "0 \<le> both positive_part t" "0 \<le> both negative_part t" "0 \<le> both abs t"
  by (simp_all add: token_simps)

text \<open>A pair of numbers of which either may be missing.\<close>

definition pair_of :: "int option \<Rightarrow> int option \<Rightarrow> tokens option" where
  "pair_of a b = (case (a, b) of (Some x, Some y) \<Rightarrow> Some (Tokens x y) | _ \<Rightarrow> None)"

lemma pair_of_Some [simp]: "pair_of a b = Some t \<longleftrightarrow> a = Some (tok0 t) \<and> b = Some (tok1 t)"
  by (cases t) (auto simp: pair_of_def split: option.splits)

text \<open>\<^verbatim>\<open>int(state.get("pending0") or 0)\<close> of both tokens.\<close>

definition amounts_or_0 :: "tokens option \<Rightarrow> tokens" where
  "amounts_or_0 t = (case t of None \<Rightarrow> 0 | Some a \<Rightarrow> a)"

lemma amounts_or_0_simps [simp]: "amounts_or_0 None = 0" "amounts_or_0 (Some t) = t"
  by (simp_all add: amounts_or_0_def)

section \<open>Scalar fields\<close>

definition low_hex :: "char \<Rightarrow> bool" where
  "low_hex c \<longleftrightarrow> c \<in> set ''0123456789abcdef''"

definition normalized_address :: "string \<Rightarrow> address option" where
  "normalized_address value =
    (let t = lower (strip value);
         n = (if length t = 40 \<and> list_all low_hex t then ''0x'' @ t else t)
     in if length n \<noteq> 42 \<or> take 2 n \<noteq> ''0x'' then None
        else if list_all low_hex (drop 2 n) then Some n else None)"

text \<open>\<^verbatim>\<open>_address\<close>: of a JSON value, and of a text column or a field of the state.\<close>

definition address_in :: "string \<Rightarrow> address option" where
  "address_in s =
    (if length s \<in> {40, 42} then normalized_address s
     else if length (strip s) \<in> {40, 42} then normalized_address (strip s) else None)"

definition address_value :: "json \<Rightarrow> address option" where
  "address_value v = (case v of JStr s \<Rightarrow> address_in s | _ \<Rightarrow> None)"

definition known_address :: "string option \<Rightarrow> address option" where
  "known_address s = (case s of None \<Rightarrow> None | Some t \<Rightarrow> address_in t)"

definition is_decimal :: "string \<Rightarrow> bool" where
  "is_decimal s \<longleftrightarrow> s \<noteq> [] \<and> list_all is_digit s"

definition raw_int :: "json \<Rightarrow> int option" where
  "raw_int v =
    (case v of
       JInt n \<Rightarrow> Some n
     | JStr s \<Rightarrow>
         (let t = strip s in
          if is_decimal t then Some (parse_decimal t)
          else if t \<noteq> [] \<and> hd t = CHR ''-'' \<and> is_decimal (tl t) then Some (- parse_decimal (tl t))
          else None)
     | _ \<Rightarrow> None)"

text \<open>The magnitude from which a number is an infinite float.\<close>

definition float_limit :: real where
  "float_limit = 2 ^ 1024 - 2 ^ 970"

definition finite_float :: "real option \<Rightarrow> real option" where
  "finite_float v = (case v of None \<Rightarrow> None | Some x \<Rightarrow> if \<bar>x\<bar> < float_limit then Some x else None)"

definition flag_of :: "json \<Rightarrow> bool" where
  "flag_of v \<longleftrightarrow> v = JBool True \<or> v = JInt 1 \<or> v = JStr ''1'' \<or> v = JStr ''true''"

definition event_state :: "jdict \<Rightarrow> string \<Rightarrow> jdict option" where
  "event_state data side = obj_of (dget (''position_'' @ side) data)"

definition state_number :: "jdict option \<Rightarrow> string list \<Rightarrow> int option" where
  "state_number state names =
    (case state of
       None \<Rightarrow> None
     | Some d \<Rightarrow>
        (case List.find (\<lambda>n. map_of d n \<noteq> None) names of
           None \<Rightarrow> None
         | Some n \<Rightarrow> raw_int (dget n d)))"

text \<open>\<^verbatim>\<open>value or default\<close> of a text that may be missing.\<close>

definition text_or :: "string option \<Rightarrow> string \<Rightarrow> string" where
  "text_or s d = (case s of None \<Rightarrow> d | Some t \<Rightarrow> if t = [] then d else t)"

section \<open>Values in USD\<close>

text \<open>
  \<^verbatim>\<open>_token_value\<close>: the value of two raw amounts; a missing price or number of decimals is only
  missed for an amount that is not zero.
\<close>

definition amount_value :: "int \<Rightarrow> real option \<Rightarrow> int option \<Rightarrow> real option" where
  "amount_value amount price decimals =
    (if amount = 0 then Some 0
     else case (finite_float price, decimals) of
       (Some p, Some d) \<Rightarrow> Some (of_int amount * p / 10 powi d)
     | _ \<Rightarrow> None)"

definition token_value ::
  "tokens \<Rightarrow> real option \<Rightarrow> real option \<Rightarrow> int option \<Rightarrow> int option \<Rightarrow> real option" where
  "token_value t price0 price1 decimals0 decimals1 =
    (if tok0 t = 0 \<and> tok1 t = 0 then Some 0
     else case (amount_value (tok0 t) price0 decimals0, amount_value (tok1 t) price1 decimals1) of
       (Some a, Some b) \<Rightarrow> finite_float (Some (a + b))
     | _ \<Rightarrow> None)"

text \<open>\<^verbatim>\<open>_sql_sum\<close> and \<^verbatim>\<open>_nullable_sum\<close>.\<close>

definition sql_sum :: "real option \<Rightarrow> real option \<Rightarrow> real option" where
  "sql_sum left right =
    (case (left, right) of (None, _) \<Rightarrow> right | (_, None) \<Rightarrow> left | (Some a, Some b) \<Rightarrow> Some (a + b))"

definition nullable_sum :: "real option list \<Rightarrow> real option" where
  "nullable_sum vs =
    (if vs = [] then Some 0 else if None \<in> set vs then None else Some (sum_list (map the vs)))"

lemma nullable_sum_append:
  "nullable_sum (us @ vs) =
    (case (nullable_sum us, nullable_sum vs) of (Some a, Some b) \<Rightarrow> Some (a + b) | _ \<Rightarrow> None)"
  by (auto simp: nullable_sum_def)

section \<open>Events\<close>

type_synonym log_point = "int \<times> int \<times> int"

record acc_event =
  ae_id :: int
  ae_block :: int
  ae_tx_hash :: string
  ae_tx_index :: int
  ae_log_index :: int
  ae_timestamp :: int
  ae_pool_id :: "string option"
  ae_protocol :: string
  ae_kind :: string
  ae_owner :: "string option"
  ae_custody :: "string option"
  ae_token_id :: "string option"
  ae_tick_lower :: "int option"
  ae_tick_upper :: "int option"
  ae_liquidity_delta :: json
  ae_amount0 :: json
  ae_amount1 :: json
  ae_fee_amount0 :: json
  ae_fee_amount1 :: json
  ae_cashflow0 :: json
  ae_cashflow1 :: json
  ae_price0_usd :: "real option"
  ae_price1_usd :: "real option"
  ae_fees_usd :: "real option"
  ae_deposit_usd :: "real option"
  ae_withdrawal_usd :: "real option"
  ae_accounting_basis :: "string option"
  ae_identity_basis :: "string option"
  ae_data :: jdict

text \<open>\<^verbatim>\<open>_order\<close>, and its first three components.\<close>

definition event_order :: "acc_event \<Rightarrow> int \<times> int \<times> int \<times> int" where
  "event_order e = (ae_block e, ae_tx_index e, ae_log_index e, ae_id e)"

definition log_point_of :: "acc_event \<Rightarrow> log_point" where
  "log_point_of e = (ae_block e, ae_tx_index e, ae_log_index e)"

definition event_kind :: "acc_event \<Rightarrow> string" where
  "event_kind e = lower (text_or (Some (ae_kind e)) ''unknown'')"

section \<open>Records of a position\<close>

text \<open>The status of an episode, and its text in the table.\<close>

datatype ep_status =
    EpOpen | EpPartialHistory | EpAmbiguousReentry | EpAwaitingClaim
  | EpComplete | EpTransferredOut | EpNftBurnUnsettled

fun status_text :: "ep_status \<Rightarrow> string" where
  "status_text EpOpen = ''open''"
| "status_text EpPartialHistory = ''partial_history''"
| "status_text EpAmbiguousReentry = ''ambiguous_reentry''"
| "status_text EpAwaitingClaim = ''awaiting_claim''"
| "status_text EpComplete = ''complete''"
| "status_text EpTransferredOut = ''transferred_out''"
| "status_text EpNftBurnUnsettled = ''nft_burn_unsettled''"

text \<open>
  An episode of a position, from the first deposit to the settlement of every claim. The four
  fields of its end (\<^verbatim>\<open>closed_block\<close>, \<^verbatim>\<open>closed_tx_index\<close>, \<^verbatim>\<open>closed_log_index\<close>, \<^verbatim>\<open>closed_at\<close>) are
  written together.
\<close>

record acc_episode =
  ep_id :: string
  ep_key :: string
  ep_ordinal :: int
  ep_token_id :: "string option"
  ep_pool_id :: "string option"
  ep_protocol :: string
  ep_owner :: "address option"
  ep_custody :: "address option"
  ep_identity_basis :: string
  ep_tick_lower :: "int option"
  ep_tick_upper :: "int option"
  ep_opened :: log_point
  ep_opened_at :: int
  ep_closed :: "(log_point \<times> int) option"
  ep_last_timestamp :: int
  ep_status :: ep_status
  ep_history_complete :: bool
  ep_identity_complete :: bool
  ep_transferred_basis :: bool
  ep_ambiguous_reentry :: bool
  ep_identity_conflict :: bool
  ep_trace_complete :: bool
  ep_claims_complete :: bool
  ep_cashflow_complete :: bool
  ep_pricing_complete :: bool
  ep_fees_complete :: bool
  ep_release_complete :: bool
  ep_deposit :: tokens
  ep_proceeds :: tokens
  ep_released :: tokens
  ep_principal :: tokens
  ep_fees :: tokens
  ep_deposit_usd :: "real option"
  ep_proceeds_usd :: "real option"
  ep_withdrawal_usd :: "real option"
  ep_fees_usd :: "real option"
  ep_close_price0 :: "real option"
  ep_close_price1 :: "real option"
  ep_basis :: string

record own_interval =
  oi_key :: string
  oi_ordinal :: int
  oi_token_id :: "string option"
  oi_owner :: address
  oi_custody :: "address option"
  oi_identity_basis :: string
  oi_acquired_by :: string
  oi_start :: log_point
  oi_start_timestamp :: int
  oi_end :: "(log_point \<times> int) option"
  oi_complete :: bool

text \<open>What one event moves: \<^verbatim>\<open>_financial_effect\<close>.\<close>

record acc_effect =
  fx_deposit :: tokens
  fx_proceeds :: tokens
  fx_released :: tokens
  fx_principal :: tokens
  fx_fees :: tokens
  fx_deposit_usd :: "real option"
  fx_proceeds_usd :: "real option"
  fx_withdrawal_usd :: "real option"
  fx_fees_usd :: "real option"
  fx_cashflow_exact :: bool
  fx_pricing_exact :: bool
  fx_fees_exact :: bool
  fx_allocation_exact :: bool
  fx_release_exact :: bool
  fx_trace_exact :: bool
  fx_basis :: string

text \<open>The state that a replay carries from event to event and stores as \<^verbatim>\<open>state_json\<close>.\<close>

record acc_state =
  as_version :: int
  as_key :: string
  as_token_id :: "string option"
  as_pool_id :: "string option"
  as_protocol :: string
  as_tick_lower :: "int option"
  as_tick_upper :: "int option"
  as_liquidity :: "int option"
  as_liquidity_known :: bool
  as_pending :: "tokens option"
  as_pending_known :: bool
  as_owed :: "tokens option"
  as_owed_block :: "int option"
  as_owed_known :: bool
  as_settled :: bool
  as_owner :: "address option"
  as_custody :: "address option"
  as_identity_basis :: string
  as_minted_to_owner :: bool
  as_history_complete :: bool
  as_episode_ordinal :: int
  as_active :: "acc_episode option"
  as_ownership_ordinal :: int
  as_ownership :: "own_interval option"
  as_first :: "int \<times> int \<times> int \<times> int"
  as_first_timestamp :: int
  as_last :: "int \<times> int \<times> int \<times> int"
  as_last_timestamp :: int

definition SCHEMA_VERSION :: int where
  "SCHEMA_VERSION = 3"

definition new_state :: "string \<Rightarrow> acc_event \<Rightarrow> acc_state" where
  "new_state key e =
    \<lparr>as_version = SCHEMA_VERSION, as_key = key, as_token_id = ae_token_id e,
     as_pool_id = ae_pool_id e, as_protocol = ae_protocol e,
     as_tick_lower = ae_tick_lower e, as_tick_upper = ae_tick_upper e,
     as_liquidity = None, as_liquidity_known = False,
     as_pending = None, as_pending_known = False,
     as_owed = None, as_owed_block = None, as_owed_known = False,
     as_settled = False, as_owner = None, as_custody = None,
     as_identity_basis = ''unknown'', as_minted_to_owner = False, as_history_complete = False,
     as_episode_ordinal = 0, as_active = None,
     as_ownership_ordinal = 0, as_ownership = None,
     as_first = event_order e, as_first_timestamp = ae_timestamp e,
     as_last = event_order e, as_last_timestamp = ae_timestamp e\<rparr>"

section \<open>Rows that a replay writes\<close>

definition qualifiers :: "acc_episode \<Rightarrow> string list" where
  "qualifiers e =
    map snd (List.filter fst
      [(\<not> ep_history_complete e, ''partial_history''),
       (\<not> ep_identity_complete e, ''unknown_identity''),
       (ep_transferred_basis e, ''transferred_basis_unknown''),
       (ep_ambiguous_reentry e, ''ambiguous_reentry''),
       (\<not> ep_trace_complete e, ''missing_trace''),
       (\<not> ep_cashflow_complete e, ''incomplete_cashflows''),
       (\<not> ep_pricing_complete e, ''incomplete_pricing'')])
    @ (if ep_status e = EpAwaitingClaim then [''awaiting_claim''] else [])
    @ (if ep_status e = EpNftBurnUnsettled then [''unsettled_claims''] else [])"

text \<open>
  A row of \<^verbatim>\<open>lp_accounting_episodes\<close>: the columns taken from the episode (\<^verbatim>\<open>released0\<close>, \<^verbatim>\<open>released1\<close>,
  \<^verbatim>\<open>release_complete\<close> and \<^verbatim>\<open>identity_conflict\<close> are no columns and stand at fixed values), the eight
  columns of value and cost, which a replay leaves empty, and the qualifiers.
\<close>

record ep_row =
  er_facts :: acc_episode
  er_values :: "real option list"
  er_qualifiers :: "string list"

definition episode_row :: "acc_episode \<Rightarrow> ep_row" where
  "episode_row e =
    \<lparr>er_facts = e\<lparr>ep_owner := known_address (ep_owner e), ep_custody := known_address (ep_custody e),
        ep_released := 0, ep_release_complete := True, ep_identity_conflict := False,
        ep_basis := text_or (Some (ep_basis e)) ''canonical_events''\<rparr>,
     er_values = replicate 8 None,
     er_qualifiers = qualifiers e\<rparr>"

record effect_row =
  fr_event_id :: int
  fr_key :: string
  fr_episode_id :: "string option"
  fr_owner :: "address option"
  fr_custody :: "address option"
  fr_tx_hash :: string
  fr_place :: log_point
  fr_timestamp :: int
  fr_kind :: string
  fr_deposit :: "tokens option"
  fr_proceeds :: "tokens option"
  fr_principal :: "tokens option"
  fr_fees :: "tokens option"
  fr_deposit_usd :: "real option"
  fr_proceeds_usd :: "real option"
  fr_withdrawal_usd :: "real option"
  fr_fees_usd :: "real option"
  fr_exact :: bool
  fr_basis :: string

definition when_exact :: "bool \<Rightarrow> tokens \<Rightarrow> tokens option" where
  "when_exact exact t = (if exact then Some t else None)"

text \<open>\<^verbatim>\<open>gas_owner\<close> is the other party of a transfer; without one the owner of the position counts.\<close>

definition make_effect_row ::
  "acc_state \<Rightarrow> acc_event \<Rightarrow> acc_effect \<Rightarrow> string option \<Rightarrow> address option \<Rightarrow> effect_row" where
  "make_effect_row s e fx episode gas_owner =
    \<lparr>fr_event_id = ae_id e, fr_key = as_key s, fr_episode_id = episode,
     fr_owner = known_address (if gas_owner = None then as_owner s else gas_owner),
     fr_custody = known_address (as_custody s),
     fr_tx_hash = lower (ae_tx_hash e), fr_place = log_point_of e, fr_timestamp = ae_timestamp e,
     fr_kind = text_or (Some (ae_kind e)) ''unknown'',
     fr_deposit = when_exact (fx_cashflow_exact fx) (fx_deposit fx),
     fr_proceeds = when_exact (fx_cashflow_exact fx) (fx_proceeds fx),
     fr_principal = when_exact (fx_cashflow_exact fx \<and> fx_allocation_exact fx) (fx_principal fx),
     fr_fees = when_exact (fx_fees_exact fx) (fx_fees fx),
     fr_deposit_usd = fx_deposit_usd fx, fr_proceeds_usd = fx_proceeds_usd fx,
     fr_withdrawal_usd = fx_withdrawal_usd fx, fr_fees_usd = fx_fees_usd fx,
     fr_exact = (fx_cashflow_exact fx \<and> fx_pricing_exact fx \<and> fx_trace_exact fx
       \<and> fx_allocation_exact fx),
     fr_basis = text_or (Some (fx_basis fx)) ''unknown''\<rparr>"

text \<open>
  A row of \<^verbatim>\<open>lp_accounting_positions\<close>: the columns that are computed, and \<^verbatim>\<open>state_json\<close>, of which
  the other columns are copies.
\<close>

record position_row =
  pr_key :: string
  pr_active_id :: "string option"
  pr_status :: string
  pr_settled_zero :: bool
  pr_last :: log_point
  pr_state :: "acc_state option"

definition position_status :: "acc_state \<Rightarrow> string" where
  "position_status s =
    (case as_active s of
       Some a \<Rightarrow> status_text (ep_status a)
     | None \<Rightarrow>
        if as_liquidity_known s \<and> (as_liquidity s = None \<or> as_liquidity s = Some 0) then ''closed''
        else ''unresolved'')"

definition make_position_row :: "acc_state \<Rightarrow> position_row" where
  "make_position_row s =
    \<lparr>pr_key = as_key s, pr_active_id = map_option ep_id (as_active s),
     pr_status = position_status s,
     pr_settled_zero = (as_settled s \<and> position_status s = ''closed''),
     pr_last = (case as_last s of (b, t, l, _) \<Rightarrow> (b, t, l)),
     pr_state = Some s\<rparr>"

text \<open>\<^verbatim>\<open>_ReplayWrites\<close>: the rows of a replay, the last one of a key winning.\<close>

record acc_writes =
  aw_ownership :: "(string \<times> int, own_interval) odict"
  aw_episodes :: "(string, ep_row) odict"
  aw_effects :: "(int, effect_row) odict"
  aw_positions :: "(string, position_row) odict"

definition no_writes :: acc_writes where
  "no_writes = \<lparr>aw_ownership = [], aw_episodes = [], aw_effects = [], aw_positions = []\<rparr>"

definition save_ownership :: "own_interval \<Rightarrow> acc_writes \<Rightarrow> acc_writes" where
  "save_ownership i w = w\<lparr>aw_ownership := od_set (oi_key i, oi_ordinal i) i (aw_ownership w)\<rparr>"

definition save_episode :: "acc_episode \<Rightarrow> acc_writes \<Rightarrow> acc_writes" where
  "save_episode e w = w\<lparr>aw_episodes := od_set (ep_id e) (episode_row e) (aw_episodes w)\<rparr>"

definition save_effect :: "effect_row \<Rightarrow> acc_writes \<Rightarrow> acc_writes" where
  "save_effect r w = w\<lparr>aw_effects := od_set (fr_event_id r) r (aw_effects w)\<rparr>"

definition save_position :: "acc_state \<Rightarrow> acc_writes \<Rightarrow> acc_writes" where
  "save_position s w = w\<lparr>aw_positions := od_set (as_key s) (make_position_row s) (aw_positions w)\<rparr>"


text \<open>Rows are filed under their keys.\<close>

definition ownership_key :: "own_interval \<Rightarrow> string \<times> int" where
  "ownership_key i = (oi_key i, oi_ordinal i)"

definition episode_key :: "ep_row \<Rightarrow> string" where
  "episode_key r = ep_id (er_facts r)"

definition filed :: "('r \<Rightarrow> 'k) \<Rightarrow> ('k, 'r) odict \<Rightarrow> bool" where
  "filed key d \<longleftrightarrow> od_ok d \<and> list_all (\<lambda>(k, r). key r = k) d"

definition filed_writes :: "acc_writes \<Rightarrow> bool" where
  "filed_writes w \<longleftrightarrow>
     filed ownership_key (aw_ownership w) \<and> filed episode_key (aw_episodes w)
     \<and> filed fr_event_id (aw_effects w) \<and> filed pr_key (aw_positions w)"

lemma filed_key: "filed key d \<Longrightarrow> (k, r) \<in> set d \<Longrightarrow> key r = k"
  by (auto simp: filed_def list_all_iff)

lemma filed_set: "filed key d \<Longrightarrow> key r = k \<Longrightarrow> filed key (od_set k r d)"
proof -
  have "list_all (\<lambda>(k, r). key r = k) d \<Longrightarrow> key r = k \<Longrightarrow> list_all (\<lambda>(k, r). key r = k) (od_set k r d)"
    by (induction d) auto
  then show "filed key d \<Longrightarrow> key r = k \<Longrightarrow> ?thesis"
    by (simp add: filed_def)
qed

lemma no_writes_filed [simp]: "filed_writes no_writes"
  by (simp add: filed_writes_def filed_def no_writes_def)

lemma save_filed [simp]:
  "filed_writes w \<Longrightarrow> filed_writes (save_ownership i w)" "filed_writes w \<Longrightarrow> filed_writes (save_episode e w)"
  "filed_writes w \<Longrightarrow> filed_writes (save_effect r w)" "filed_writes w \<Longrightarrow> filed_writes (save_position s w)"
  by (simp_all add: filed_writes_def save_ownership_def save_episode_def save_effect_def save_position_def
      filed_set ownership_key_def episode_key_def episode_row_def make_position_row_def)

section \<open>Normalised addresses\<close>

lemma low_hex_plain: "low_hex c \<Longrightarrow> lower_char c = c \<and> \<not> is_space c"
  by (auto simp: low_hex_def lower_char_def is_space_def)

lemma normalized_shape:
  assumes "normalized_address s = Some n"
  shows "length n = 42 \<and> take 2 n = ''0x'' \<and> list_all low_hex (drop 2 n)"
  using assms by (auto simp: normalized_address_def Let_def split: if_splits)

lemma normalized_again:
  assumes "length n = 42" and "take 2 n = ''0x''" and "list_all low_hex (drop 2 n)"
  shows "address_in n = Some n"
proof -
  have n: "n = CHR ''0'' # CHR ''x'' # drop 2 n"
    using append_take_drop_id [of 2 n] assms(2) by simp
  have plain: "lower_char c = c \<and> \<not> is_space c" if "c \<in> set n" for c
  proof -
    from that n have "c \<in> {CHR ''0'', CHR ''x''} \<union> set (drop 2 n)"
      by (metis Un_iff insert_iff list.set(2) empty_iff)
    then show ?thesis
    proof
      assume "c \<in> {CHR ''0'', CHR ''x''}"
      then show ?thesis by (auto simp: lower_char_def is_space_def)
    next
      assume "c \<in> set (drop 2 n)"
      with assms(3) show ?thesis by (simp add: list_all_iff low_hex_plain)
    qed
  qed
  then have "strip n = n" and "lower n = n"
    by (auto intro!: strip_no_space simp: lower_def map_idI)
  with assms show ?thesis
    by (simp add: address_in_def normalized_address_def)
qed

lemma address_text_again:
  assumes "address_in s = Some a" shows "address_in a = Some a"
proof -
  obtain t where "normalized_address t = Some a"
    using assms unfolding address_in_def by (auto split: if_splits)
  then show ?thesis
    using normalized_again normalized_shape by blast
qed

lemma known_address_again: "known_address s = Some a \<Longrightarrow> known_address (Some a) = Some a"
  using address_text_again by (auto simp: known_address_def split: option.splits)

lemma known_address_idem [simp]: "known_address (known_address s) = known_address s"
  by (cases "known_address s") (auto simp: known_address_again, simp add: known_address_def)

lemma address_value_known: "address_value v = Some a \<Longrightarrow> known_address (Some a) = Some a"
  using address_text_again by (auto simp: address_value_def known_address_def split: json.splits)

lemma zero_address_known [simp]: "known_address (Some Lp_Events.ZERO_ADDRESS) = Some Lp_Events.ZERO_ADDRESS"
  by (simp add: known_address_def, rule normalized_again)
    (simp_all add: Lp_Events.ZERO_ADDRESS_def low_hex_def)

end
