(* ===== verification/Acc_Event.thy ===== *)
theory Acc_Event
  imports Acc_Read
begin

text \<open>
  One event of a position: \<^verbatim>\<open>_process_transfer\<close>, \<^verbatim>\<open>_update_identity\<close>, \<^verbatim>\<open>_new_episode\<close>,
  \<^verbatim>\<open>_financial_effect\<close>, \<^verbatim>\<open>_apply_effect\<close>, \<^verbatim>\<open>_update_claim_state\<close>, \<^verbatim>\<open>_claims_settled\<close> and
  \<^verbatim>\<open>_process_event\<close> of \<^verbatim>\<open>lp_market_accounting.py\<close>, as functions from the state and the rows
  written so far to the next ones. The stages of \<^verbatim>\<open>_process_event\<close> stand in its order.
\<close>

type_synonym acc_ledger = "acc_state \<times> acc_writes"

section \<open>Parties\<close>

definition event_owner :: "acc_event \<Rightarrow> address option \<times> address option \<times> string" where
  "event_owner e =
    (let owner = known_address (ae_owner e);
         custody = known_address (ae_custody e);
         stated = dget ''identity_basis'' (ae_data e)
     in (owner, custody,
         text_or (ae_identity_basis e)
           (if truthy stated then str_of stated
            else if owner \<noteq> None then ''verified''
            else if custody \<noteq> None then ''custody'' else ''unknown'')))"

definition first_address :: "string list \<Rightarrow> jdict \<Rightarrow> address option" where
  "first_address names data =
    (case List.find (\<lambda>n. address_value (dget n data) \<noteq> None) names of
       None \<Rightarrow> None
     | Some n \<Rightarrow> address_value (dget n data))"

definition transfer_parties :: "acc_event \<Rightarrow> address option \<times> address option" where
  "transfer_parties e =
    (let d = ae_data e;
         source = first_address
           [''from'', ''from_address'', ''prior_owner'', ''previous_owner'', ''sender''] d;
         target = first_address [''to'', ''to_address'', ''new_owner'', ''recipient''] d;
         target = (if target = None then known_address (ae_owner e) else target)
     in (if source = None \<and> flag_of (dget ''mint'' d) then Some Lp_Events.ZERO_ADDRESS else source,
         if target = None \<and> flag_of (dget ''burn'' d) then Some Lp_Events.ZERO_ADDRESS else target))"

section \<open>Episodes\<close>

type_synonym episode_ids = "(log_point \<times> string \<times> int) list"

definition episode_id_of :: "string \<Rightarrow> int \<Rightarrow> string" where
  "episode_id_of key n = key @ '':'' @ int_text n"

text \<open>
  \<^verbatim>\<open>_new_episode\<close>: the identity of an episode that was saved at the same place in the log is kept;
  a new one takes the next ordinal.
\<close>

definition fresh_episode ::
  "acc_state \<Rightarrow> acc_event \<Rightarrow> string \<Rightarrow> int \<Rightarrow> bool \<Rightarrow> bool \<Rightarrow> acc_episode" where
  "fresh_episode s e eid n whole transferred =
    (let protocol = text_or (Some (as_protocol s)) (text_or (Some (ae_protocol e)) ''unknown'');
         owner = known_address (as_owner s)
     in \<lparr>ep_id = eid, ep_key = as_key s, ep_ordinal = n, ep_token_id = as_token_id s,
         ep_pool_id = as_pool_id s, ep_protocol = protocol, ep_owner = owner,
         ep_custody = known_address (as_custody s),
         ep_identity_basis = text_or (Some (as_identity_basis s)) ''unknown'',
         ep_tick_lower = as_tick_lower s, ep_tick_upper = as_tick_upper s,
         ep_opened = log_point_of e, ep_opened_at = ae_timestamp e,
         ep_closed = None, ep_last_timestamp = ae_timestamp e,
         ep_status = EpOpen, ep_history_complete = whole,
         ep_identity_complete = (owner \<noteq> None), ep_transferred_basis = transferred,
         ep_ambiguous_reentry = False, ep_identity_conflict = False,
         ep_trace_complete = True, ep_claims_complete = False,
         ep_cashflow_complete = True, ep_pricing_complete = True,
         ep_fees_complete = (protocol \<in> {''v3'', ''v4''} \<and> \<not> transferred),
         ep_release_complete = True,
         ep_deposit = 0, ep_proceeds = 0, ep_released = 0, ep_principal = 0, ep_fees = 0,
         ep_deposit_usd = Some 0, ep_proceeds_usd = Some 0, ep_withdrawal_usd = Some 0,
         ep_fees_usd = Some 0, ep_close_price0 = None, ep_close_price1 = None,
         ep_basis = ''canonical_events''\<rparr>)"

definition new_episode ::
  "episode_ids \<Rightarrow> acc_state \<Rightarrow> acc_event \<Rightarrow> bool \<Rightarrow> bool \<Rightarrow> acc_state \<times> acc_episode" where
  "new_episode ids s e whole transferred =
    (case map_of ids (log_point_of e) of
       None \<Rightarrow>
        (let n = as_episode_ordinal s + 1; s = s\<lparr>as_episode_ordinal := n\<rparr>
         in (s, fresh_episode s e (episode_id_of (as_key s) n) n whole transferred))
     | Some (eid, n) \<Rightarrow> (s, fresh_episode s e eid n whole transferred))"

definition close_episode :: "acc_event \<Rightarrow> ep_status \<Rightarrow> bool \<Rightarrow> acc_episode \<Rightarrow> acc_episode" where
  "close_episode e status claims a =
    a\<lparr>ep_closed := Some (log_point_of e, ae_timestamp e), ep_last_timestamp := ae_timestamp e,
      ep_status := status, ep_claims_complete := claims\<rparr>"

text \<open>A complete episode also keeps the prices at its end.\<close>

definition complete_episode :: "acc_event \<Rightarrow> acc_episode \<Rightarrow> acc_episode" where
  "complete_episode e a =
    (close_episode e EpComplete True a)
      \<lparr>ep_close_price0 := finite_float (ae_price0_usd e), ep_close_price1 := finite_float (ae_price1_usd e)\<rparr>"

section \<open>Transfers of the position\<close>

definition pending_is_zero :: "acc_state \<Rightarrow> bool" where
  "pending_is_zero s \<longleftrightarrow> as_pending_known s \<and> amounts_or_0 (as_pending s) = 0"

definition owed_is_zero :: "acc_state \<Rightarrow> bool" where
  "owed_is_zero s \<longleftrightarrow> as_owed_known s \<and> amounts_or_0 (as_owed s) = 0"

definition liquidity_or_0 :: "acc_state \<Rightarrow> int" where
  "liquidity_or_0 s = (case as_liquidity s of None \<Rightarrow> 0 | Some n \<Rightarrow> n)"

definition liquidity_is_zero :: "acc_state \<Rightarrow> bool" where
  "liquidity_is_zero s \<longleftrightarrow> as_liquidity_known s \<and> liquidity_or_0 s = 0"

text \<open>The open interval of ownership ends unless the owner stays.\<close>

definition end_ownership ::
  "acc_event \<Rightarrow> address option \<Rightarrow> address option \<Rightarrow> acc_ledger \<Rightarrow> acc_ledger" where
  "end_ownership e source target sw =
    (let (s, w) = sw; current = known_address (as_owner s) in
     case as_ownership s of
       None \<Rightarrow> (s, w)
     | Some i \<Rightarrow>
        if target \<noteq> current \<or> target = None then
          (s\<lparr>as_ownership := None\<rparr>,
           save_ownership (i\<lparr>oi_end := Some (log_point_of e, ae_timestamp e),
             oi_complete := (source = None \<or> current = None \<or> source = current)\<rparr>) w)
        else (s, w))"

definition is_regular :: "acc_state \<Rightarrow> address option \<Rightarrow> address option \<Rightarrow> bool" where
  "is_regular s source target \<longleftrightarrow>
     source \<noteq> Some Lp_Events.ZERO_ADDRESS \<and> target \<noteq> None \<and> target \<noteq> known_address (as_owner s)"

definition is_burn :: "address option \<Rightarrow> address option \<Rightarrow> bool" where
  "is_burn source target \<longleftrightarrow> target = None \<and> source \<noteq> None \<and> source \<noteq> Some Lp_Events.ZERO_ADDRESS"

text \<open>A transfer to someone else, or the burn of the token, ends the active episode.\<close>

definition end_episode ::
  "acc_event \<Rightarrow> address option \<Rightarrow> address option \<Rightarrow> acc_ledger \<Rightarrow> acc_ledger" where
  "end_episode e source target sw =
    (let (s, w) = sw in
     case as_active s of
       None \<Rightarrow> (s, w)
     | Some a \<Rightarrow>
        if is_regular s source target then
          (s\<lparr>as_active := None, as_settled := False\<rparr>,
           save_episode (close_episode e EpTransferredOut False a) w)
        else if is_burn source target then
          (if liquidity_is_zero s \<and> pending_is_zero s
           then (s\<lparr>as_active := None, as_settled := True\<rparr>, save_episode (complete_episode e a) w)
           else (s\<lparr>as_active := None, as_settled := False\<rparr>,
             save_episode (close_episode e EpNftBurnUnsettled False a) w))
        else (s, w))"

definition has_inventory :: "acc_state \<Rightarrow> bool" where
  "has_inventory s \<longleftrightarrow>
     \<not> as_liquidity_known s \<or> 0 < liquidity_or_0 s \<or> \<not> pending_is_zero s \<or> \<not> owed_is_zero s"

definition open_interval ::
  "acc_state \<Rightarrow> acc_event \<Rightarrow> address \<Rightarrow> string \<Rightarrow> string \<Rightarrow> bool \<Rightarrow> own_interval" where
  "open_interval s e owner basis acquired whole =
    \<lparr>oi_key = as_key s, oi_ordinal = as_ownership_ordinal s,
     oi_token_id = (case as_token_id s of Some t \<Rightarrow> if t = [] then ae_token_id e else Some t
       | None \<Rightarrow> ae_token_id e),
     oi_owner = owner, oi_custody = as_custody s, oi_identity_basis = basis,
     oi_acquired_by = acquired, oi_start = log_point_of e, oi_start_timestamp = ae_timestamp e,
     oi_end = None, oi_complete = whole\<rparr>"

text \<open>The new owner: a new interval, and an episode of the inventory that came with the token.\<close>

definition start_ownership ::
  "episode_ids \<Rightarrow> acc_event \<Rightarrow> address option \<Rightarrow> address \<Rightarrow> bool \<Rightarrow> acc_ledger \<Rightarrow> acc_ledger" where
  "start_ownership ids e source owner regular sw =
    (let (s, w) = sw;
         minted = (source = Some Lp_Events.ZERO_ADDRESS);
         s = s\<lparr>as_ownership_ordinal := as_ownership_ordinal s + 1\<rparr>;
         i = open_interval s e owner (as_identity_basis s) (if minted then ''mint'' else ''transfer'') True;
         w = save_ownership i w;
         s = s\<lparr>as_ownership := Some i, as_minted_to_owner := minted,
               as_settled := (as_settled s \<and> \<not> minted)\<rparr>
     in if regular \<and> has_inventory s
        then (let (s, a) = new_episode ids s e (as_history_complete s) True
              in (s\<lparr>as_active := Some a, as_settled := False\<rparr>, w))
        else (s, w))"

text \<open>The branches after the old interval and episode have ended.\<close>

definition receive_position ::
  "episode_ids \<Rightarrow> acc_event \<Rightarrow> address option \<Rightarrow> address \<Rightarrow> acc_state \<Rightarrow> acc_ledger \<Rightarrow> acc_ledger" where
  "receive_position ids e source owner s0 sw =
    (let (s, w) = sw;
         current = known_address (as_owner s0);
         (event_owner', custody, basis) = event_owner e;
         s = s\<lparr>as_owner := Some owner,
               as_identity_basis := (if event_owner' = Some owner then basis else ''verified_nft_transfer''),
               as_custody := (if custody \<noteq> None then custody else as_custody s)\<rparr>
     in if source = Some Lp_Events.ZERO_ADDRESS \<and> current = Some owner
           \<and> map_option oi_acquired_by (as_ownership s0) = Some ''mint''
        then (s\<lparr>as_minted_to_owner := True, as_settled := False\<rparr>, w)
        else if source = current \<and> current = Some owner
        then (s\<lparr>as_minted_to_owner := False\<rparr>, w)
        else start_ownership ids e source owner (is_regular s0 source (Some owner)) (s, w))"

definition lose_position :: "address option \<Rightarrow> acc_ledger \<Rightarrow> acc_ledger" where
  "lose_position source sw =
    (let (s, w) = sw; s = s\<lparr>as_owner := None\<rparr>
     in (if is_burn source None then s\<lparr>as_identity_basis := ''burned''\<rparr> else s, w))"

definition process_transfer ::
  "episode_ids \<Rightarrow> acc_event \<Rightarrow> acc_ledger \<Rightarrow> acc_ledger \<times> address option" where
  "process_transfer ids e sw =
    (let (source, target) = transfer_parties e;
         target = (if target = Some Lp_Events.ZERO_ADDRESS then None else target);
         ended = end_episode e source target (end_ownership e source target sw)
     in (case target of
           Some owner \<Rightarrow> receive_position ids e source owner (fst sw) ended
         | None \<Rightarrow> lose_position source ended,
         source))"

section \<open>Owners seen in other events\<close>

definition observe_ownership :: "acc_event \<Rightarrow> address \<Rightarrow> string \<Rightarrow> acc_ledger \<Rightarrow> acc_ledger" where
  "observe_ownership e owner basis sw =
    (let (s, w) = sw;
         minted = flag_of (dget ''_verified_mint_after'' (ae_data e));
         s = s\<lparr>as_ownership_ordinal := as_ownership_ordinal s + 1\<rparr>;
         i = open_interval s e owner basis (if minted then ''mint'' else ''observed'') minted
     in (s\<lparr>as_ownership := Some i\<rparr>, save_ownership i w))"

definition identify :: "address \<Rightarrow> string \<Rightarrow> acc_episode \<Rightarrow> acc_episode" where
  "identify owner basis a =
    (if ep_owner a = None
     then a\<lparr>ep_owner := Some owner, ep_identity_basis := basis, ep_identity_complete := True\<rparr>
     else a)"

definition mark_conflict :: "acc_episode \<Rightarrow> acc_episode" where
  "mark_conflict a = a\<lparr>ep_identity_complete := False, ep_identity_conflict := True\<rparr>"

definition update_identity :: "acc_event \<Rightarrow> acc_ledger \<Rightarrow> acc_ledger" where
  "update_identity e sw =
    (let (s, w) = sw;
         (owner, custody, basis) = event_owner e;
         s = s\<lparr>as_custody := (if custody \<noteq> None then custody else as_custody s)\<rparr>
     in case owner of
          None \<Rightarrow> (s, w)
        | Some seen \<Rightarrow>
           (case known_address (as_owner s) of
              None \<Rightarrow>
               (let s = s\<lparr>as_owner := Some seen, as_identity_basis := basis,
                          as_active := map_option (identify seen basis) (as_active s)\<rparr>
                in if as_ownership s = None then observe_ownership e seen basis (s, w) else (s, w))
            | Some current \<Rightarrow>
               (if current \<noteq> seen then (s\<lparr>as_active := map_option mark_conflict (as_active s)\<rparr>, w)
                else (s, w))))"

section \<open>What an event moves\<close>

definition no_effect :: "string \<Rightarrow> acc_effect" where
  "no_effect basis =
    \<lparr>fx_deposit = 0, fx_proceeds = 0, fx_released = 0, fx_principal = 0, fx_fees = 0,
     fx_deposit_usd = Some 0, fx_proceeds_usd = Some 0, fx_withdrawal_usd = Some 0,
     fx_fees_usd = Some 0, fx_cashflow_exact = True, fx_pricing_exact = True, fx_fees_exact = True,
     fx_allocation_exact = True, fx_release_exact = True, fx_trace_exact = True, fx_basis = basis\<rparr>"

definition missing_cashflow :: "acc_effect \<Rightarrow> acc_effect" where
  "missing_cashflow fx = fx\<lparr>fx_cashflow_exact := False, fx_pricing_exact := False\<rparr>"

definition event_amounts :: "acc_event \<Rightarrow> tokens option" where
  "event_amounts e = pair_of (raw_int (ae_amount0 e)) (raw_int (ae_amount1 e))"

definition event_fees :: "acc_event \<Rightarrow> tokens option" where
  "event_fees e = pair_of (raw_int (ae_fee_amount0 e)) (raw_int (ae_fee_amount1 e))"

text \<open>A field of the event, or else the amount under a name of the event's data.\<close>

definition amount_in :: "string \<Rightarrow> string \<Rightarrow> jdict \<Rightarrow> int option" where
  "amount_in name field data = state_number (obj_of (dget name data)) [field]"

definition amount_or :: "json \<Rightarrow> string \<Rightarrow> string \<Rightarrow> jdict \<Rightarrow> int option" where
  "amount_or v name field data =
    (case raw_int v of None \<Rightarrow> amount_in name field data | Some n \<Rightarrow> Some n)"

definition cash_moves :: "tokens \<Rightarrow> acc_effect \<Rightarrow> acc_effect" where
  "cash_moves cash fx =
    fx\<lparr>fx_deposit := both negative_part cash, fx_proceeds := both positive_part cash\<rparr>"

definition v4_cash :: "acc_event \<Rightarrow> acc_effect \<Rightarrow> acc_effect" where
  "v4_cash e fx =
    (let d = ae_data e;
         trace_ok = flag_of (dget ''trace_complete'' d);
         fx = fx\<lparr>fx_trace_exact := trace_ok\<rparr>
     in case pair_of (amount_or (ae_cashflow0 e) ''caller_delta'' ''amount0'' d)
                     (amount_or (ae_cashflow1 e) ''caller_delta'' ''amount1'' d) of
          Some cash \<Rightarrow> if trace_ok then cash_moves cash fx else missing_cashflow fx
        | None \<Rightarrow> missing_cashflow fx)"

definition v4_principal :: "acc_event \<Rightarrow> acc_effect \<Rightarrow> acc_effect" where
  "v4_principal e fx =
    (let d = ae_data e
     in case pair_of (amount_in ''principal_delta'' ''amount0'' d) (amount_in ''principal_delta'' ''amount1'' d) of
          Some p \<Rightarrow>
            if flag_of (dget ''principal_delta_exact'' d)
            then fx\<lparr>fx_principal := both positive_part p\<rparr>
            else fx\<lparr>fx_allocation_exact := False\<rparr>
        | None \<Rightarrow> fx\<lparr>fx_allocation_exact := False\<rparr>)"

definition v4_fees :: "acc_event \<Rightarrow> acc_effect \<Rightarrow> acc_effect" where
  "v4_fees e fx =
    (let d = ae_data e
     in case pair_of (amount_or (ae_fee_amount0 e) ''fees_accrued'' ''amount0'' d)
                     (amount_or (ae_fee_amount1 e) ''fees_accrued'' ''amount1'' d) of
          Some f \<Rightarrow>
            if flag_of (dget ''fees_accrued_exact'' d)
            then fx\<lparr>fx_fees := both positive_part f\<rparr>
            else fx\<lparr>fx_fees_exact := False\<rparr>
        | None \<Rightarrow> fx\<lparr>fx_fees_exact := False\<rparr>)"

definition v4_effect :: "acc_event \<Rightarrow> acc_effect \<Rightarrow> acc_effect" where
  "v4_effect e fx =
    (v4_fees e (v4_principal e (v4_cash e fx)))
      \<lparr>fx_basis := (let b = dget ''cashflow_basis'' (ae_data e)
                   in if truthy b then str_of b else ''v4_caller_delta'')\<rparr>"

text \<open>
  How a V3 collect splits into principal and fees: by the fees that the event states, or, when the
  claims end with it or no principal is pending, by the principal that is pending.
\<close>

definition claims_end :: "acc_event \<Rightarrow> bool" where
  "claims_end e \<longleftrightarrow>
     (case event_state (ae_data e) ''after'' of
        None \<Rightarrow> False | Some a \<Rightarrow> dget ''claims_empty'' a = JBool True)
     \<or> flag_of (dget ''_verified_burn_after'' (ae_data e))"

definition v3_collect_split :: "acc_state \<Rightarrow> acc_event \<Rightarrow> tokens \<Rightarrow> (tokens \<times> tokens) option" where
  "v3_collect_split s e collected =
    (case event_fees e of
       Some f \<Rightarrow>
        (let fees = both positive_part f
         in Some (both2 (\<lambda>c g. max 0 (c - min c g)) collected fees, fees))
     | None \<Rightarrow>
        if as_pending_known s then
          (let pending = amounts_or_0 (as_pending s)
           in if claims_end e \<and> pending \<le> collected \<or> pending = 0
              then Some (pending, taken_from collected pending) else None)
        else None)"

definition v3_collect_effect :: "acc_state \<Rightarrow> acc_event \<Rightarrow> acc_effect \<Rightarrow> acc_effect" where
  "v3_collect_effect s e fx =
    (case event_amounts e of
       None \<Rightarrow> (missing_cashflow fx)\<lparr>fx_fees_exact := False, fx_allocation_exact := False\<rparr>
     | Some amounts \<Rightarrow>
        (let collected = both abs amounts; fx = fx\<lparr>fx_proceeds := collected\<rparr>
         in case v3_collect_split s e collected of
              Some (released, fees) \<Rightarrow> fx\<lparr>fx_principal := released, fx_fees := fees\<rparr>
            | None \<Rightarrow> fx\<lparr>fx_fees_exact := False, fx_allocation_exact := False\<rparr>))"

definition v3_effect :: "acc_state \<Rightarrow> acc_event \<Rightarrow> acc_effect \<Rightarrow> acc_effect" where
  "v3_effect s e fx =
    (if event_kind e = ''add'' then
       (case event_amounts e of
          None \<Rightarrow> missing_cashflow fx
        | Some a \<Rightarrow> fx\<lparr>fx_deposit := both abs a\<rparr>)
     else if event_kind e = ''collect'' then v3_collect_effect s e fx
     else if event_kind e = ''remove'' then
       (case event_amounts e of
          None \<Rightarrow> fx\<lparr>fx_fees_exact := False, fx_release_exact := False\<rparr>
        | Some a \<Rightarrow> fx\<lparr>fx_released := both abs a\<rparr>)
     else fx)\<lparr>fx_basis := ''v3_mint_burn_collect''\<rparr>"

definition v2_effect :: "acc_event \<Rightarrow> acc_effect \<Rightarrow> acc_effect" where
  "v2_effect e fx =
    (let fx = fx\<lparr>fx_fees_exact := False, fx_basis := ''v2_observed_cashflow''\<rparr> in
     if event_kind e = ''add'' then
       (case event_amounts e of
          None \<Rightarrow> missing_cashflow fx
        | Some a \<Rightarrow> fx\<lparr>fx_deposit := both abs a\<rparr>)
     else if event_kind e = ''remove'' then
       (case event_amounts e of
          None \<Rightarrow> missing_cashflow fx
        | Some a \<Rightarrow> fx\<lparr>fx_proceeds := both abs a, fx_principal := both abs a\<rparr>)
     else fx)"

definition other_effect :: "acc_event \<Rightarrow> acc_effect \<Rightarrow> acc_effect" where
  "other_effect e fx =
    (case pair_of (raw_int (ae_cashflow0 e)) (raw_int (ae_cashflow1 e)) of
       None \<Rightarrow> missing_cashflow fx
     | Some cash \<Rightarrow> cash_moves cash fx)\<lparr>fx_fees_exact := False\<rparr>"

text \<open>The amounts, by the protocol of the position.\<close>

definition state_protocol :: "acc_state \<Rightarrow> acc_event \<Rightarrow> string" where
  "state_protocol s e = lower (text_or (Some (as_protocol s)) (text_or (Some (ae_protocol e)) ''unknown''))"

definition effect_amounts :: "acc_state \<Rightarrow> acc_event \<Rightarrow> acc_effect" where
  "effect_amounts s e =
    (let fx = no_effect (text_or (ae_accounting_basis e) ''canonical_event'');
         protocol = state_protocol s e
     in if protocol = ''v4'' \<and> event_kind e \<in> {''add'', ''remove'', ''collect'', ''checkpoint''}
        then v4_effect e fx
        else if protocol = ''v3'' then v3_effect s e fx
        else if protocol = ''v2'' then v2_effect e fx
        else if event_kind e \<in> {''add'', ''remove'', ''collect''} then other_effect e fx
        else fx)"

text \<open>
  The values: at the prices of the event, or else the values the event states; an amount without a
  value makes the prices inexact.
\<close>

definition or_else :: "real option \<Rightarrow> real option \<Rightarrow> real option" where
  "or_else a b = (case a of None \<Rightarrow> b | Some x \<Rightarrow> Some x)"

definition stated_withdrawal :: "acc_state \<Rightarrow> acc_event \<Rightarrow> real option" where
  "stated_withdrawal s e =
    (let withdrawal = finite_float (ae_withdrawal_usd e); fees = finite_float (ae_fees_usd e)
     in if state_protocol s e = ''v3'' \<and> event_kind e = ''collect'' then
          (case (withdrawal, fees) of (Some v, Some f) \<Rightarrow> Some (max 0 (v - f)) | _ \<Rightarrow> None)
        else withdrawal)"

definition price_of :: "acc_event \<Rightarrow> jdict \<Rightarrow> tokens \<Rightarrow> real option" where
  "price_of e pool t =
    token_value t (ae_price0_usd e) (ae_price1_usd e)
      (raw_int (dget ''decimals0'' pool)) (raw_int (dget ''decimals1'' pool))"

definition unpriced :: "real option \<Rightarrow> tokens \<Rightarrow> bool" where
  "unpriced v t \<longleftrightarrow> v = None \<and> t \<noteq> 0"

definition financial_effect :: "acc_state \<Rightarrow> acc_event \<Rightarrow> jdict \<Rightarrow> acc_effect" where
  "financial_effect s e pool =
    (let fx = effect_amounts s e;
         deposit = or_else (price_of e pool (fx_deposit fx)) (finite_float (ae_deposit_usd e));
         proceeds = or_else (price_of e pool (fx_proceeds fx)) (finite_float (ae_withdrawal_usd e));
         withdrawal = or_else (price_of e pool (fx_principal fx)) (stated_withdrawal s e);
         fees = or_else (price_of e pool (fx_fees fx)) (finite_float (ae_fees_usd e))
     in fx\<lparr>fx_deposit_usd := deposit, fx_proceeds_usd := proceeds,
          fx_withdrawal_usd := (if fx_allocation_exact fx then withdrawal else None),
          fx_fees_usd := (if \<not> fx_allocation_exact fx \<and> \<not> fx_fees_exact fx then None else fees),
          fx_pricing_exact := (fx_pricing_exact fx \<and> \<not> unpriced deposit (fx_deposit fx)
            \<and> \<not> unpriced proceeds (fx_proceeds fx) \<and> \<not> unpriced withdrawal (fx_principal fx)
            \<and> \<not> unpriced fees (fx_fees fx))\<rparr>)"

text \<open>\<^verbatim>\<open>_apply_effect\<close>: a total that was lost stays lost.\<close>

definition add_usd :: "real option \<Rightarrow> real option \<Rightarrow> real option" where
  "add_usd t v = (case (t, v) of (Some a, Some b) \<Rightarrow> Some (a + b) | _ \<Rightarrow> None)"

definition apply_effect :: "acc_effect \<Rightarrow> acc_event \<Rightarrow> acc_episode \<Rightarrow> acc_episode" where
  "apply_effect fx e a =
    a\<lparr>ep_deposit := ep_deposit a + fx_deposit fx, ep_proceeds := ep_proceeds a + fx_proceeds fx,
      ep_released := ep_released a + fx_released fx, ep_principal := ep_principal a + fx_principal fx,
      ep_fees := ep_fees a + fx_fees fx,
      ep_deposit_usd := add_usd (ep_deposit_usd a) (fx_deposit_usd fx),
      ep_proceeds_usd := add_usd (ep_proceeds_usd a) (fx_proceeds_usd fx),
      ep_withdrawal_usd := add_usd (ep_withdrawal_usd a) (fx_withdrawal_usd fx),
      ep_fees_usd := add_usd (ep_fees_usd a) (fx_fees_usd fx),
      ep_cashflow_complete := (ep_cashflow_complete a \<and> fx_cashflow_exact fx),
      ep_pricing_complete := (ep_pricing_complete a \<and> fx_pricing_exact fx),
      ep_fees_complete := (ep_fees_complete a \<and> fx_fees_exact fx),
      ep_release_complete := (ep_release_complete a \<and> fx_release_exact fx),
      ep_trace_complete := (ep_trace_complete a \<and> fx_trace_exact fx),
      ep_basis := text_or (Some (fx_basis fx)) (ep_basis a),
      ep_last_timestamp := (if ae_timestamp e = 0 then ep_last_timestamp a else ae_timestamp e)\<rparr>"

section \<open>Claims\<close>

text \<open>Principal that was removed and not yet collected (V3).\<close>

definition update_pending :: "acc_event \<Rightarrow> acc_effect \<Rightarrow> acc_state \<Rightarrow> acc_state" where
  "update_pending e fx s =
    (if event_kind e = ''remove'' then
       (case event_amounts e of
          Some a \<Rightarrow>
            if as_pending_known s
            then s\<lparr>as_pending := Some (amounts_or_0 (as_pending s) + both abs a)\<rparr> else s
        | None \<Rightarrow> s\<lparr>as_pending_known := False, as_pending := None\<rparr>)
     else if event_kind e = ''collect'' then
       (if fx_allocation_exact fx then
          (if as_pending_known s
           then s\<lparr>as_pending := Some (both positive_part (taken_from (amounts_or_0 (as_pending s)) (fx_principal fx)))\<rparr>
           else s)
        else s\<lparr>as_pending_known := False, as_pending := None\<rparr>)
     else s)"

text \<open>What the position is owed after the event, where the event tells it.\<close>

definition owed_after :: "acc_event \<Rightarrow> tokens option" where
  "owed_after e =
    (let after = event_state (ae_data e) ''after'';
         owed0 = state_number after [''tokens_owed0'', ''tokensOwed0''];
         owed1 = state_number after [''tokens_owed1'', ''tokensOwed1''];
         emptied = (case after of None \<Rightarrow> False | Some a \<Rightarrow> dget ''claims_empty'' a = JBool True);
         or_zero = (\<lambda>n :: int option. if emptied \<and> n = None then Some 0 else n)
     in if flag_of (dget ''_verified_burn_after'' (ae_data e)) then Some 0
        else pair_of (or_zero owed0) (or_zero owed1))"

definition update_owed :: "acc_event \<Rightarrow> acc_state \<Rightarrow> acc_state" where
  "update_owed e s =
    (case owed_after e of
       None \<Rightarrow> s
     | Some owed \<Rightarrow>
        (let s = s\<lparr>as_owed := Some owed, as_owed_known := True, as_owed_block := Some (ae_block e)\<rparr>
         in if owed = 0 \<and> as_liquidity s = Some 0
            then s\<lparr>as_pending := Some 0, as_pending_known := True\<rparr> else s))"

definition update_claim_state :: "acc_event \<Rightarrow> acc_effect \<Rightarrow> acc_state \<Rightarrow> acc_state" where
  "update_claim_state e fx s =
    update_owed e
      (if lower (text_or (Some (as_protocol s)) (ae_protocol e)) = ''v3'' then update_pending e fx s else s)"

definition claims_settled :: "string \<Rightarrow> acc_event \<Rightarrow> acc_state \<Rightarrow> bool" where
  "claims_settled protocol e s \<longleftrightarrow>
     liquidity_is_zero s
     \<and> (if protocol = ''v2'' then True
        else if protocol = ''v4'' then flag_of (dget ''trace_complete'' (ae_data e))
        else pending_is_zero s \<and> owed_is_zero s)"

end
