(* ===== verification/Acc_Process.thy ===== *)
theory Acc_Process
  imports Acc_Event
begin

text \<open>
  \<^verbatim>\<open>_process_event\<close> of \<^verbatim>\<open>lp_market_accounting.py\<close>: the levels of liquidity and claims that an event
  proves, the episode it opens, what it moves, and the settlement of the episode.
\<close>

section \<open>What the event says of the position\<close>

definition event_protocol :: "acc_state \<Rightarrow> acc_event \<Rightarrow> string" where
  "event_protocol s e = lower (text_or (Some (ae_protocol e)) (text_or (Some (as_protocol s)) ''unknown''))"

definition note_place :: "acc_event \<Rightarrow> acc_state \<Rightarrow> acc_state" where
  "note_place e s =
    s\<lparr>as_protocol := (if event_protocol s e = ''nft'' then as_protocol s else event_protocol s e),
      as_pool_id := (case ae_pool_id e of
         Some p \<Rightarrow> if p = [] then as_pool_id s else Some p | None \<Rightarrow> as_pool_id s),
      as_token_id := (case ae_token_id e of Some t \<Rightarrow> Some t | None \<Rightarrow> as_token_id s),
      as_tick_lower := (case ae_tick_lower e of Some t \<Rightarrow> Some t | None \<Rightarrow> as_tick_lower s),
      as_tick_upper := (case ae_tick_upper e of Some t \<Rightarrow> Some t | None \<Rightarrow> as_tick_upper s)\<rparr>"

text \<open>Only a transfer, or an event of the NFT contract, moves the token.\<close>

definition is_transfer :: "acc_event \<Rightarrow> string \<Rightarrow> bool" where
  "is_transfer e protocol \<longleftrightarrow> event_kind e = ''transfer'' \<or> protocol = ''nft''"

text \<open>The change of liquidity, with the sign that the kind of the event gives it.\<close>

definition event_delta :: "acc_event \<Rightarrow> int option" where
  "event_delta e =
    map_option (\<lambda>d. if event_kind e = ''add'' then \<bar>d\<bar> else if event_kind e = ''remove'' then - \<bar>d\<bar> else d)
      (raw_int (ae_liquidity_delta e))"

definition verified_mint :: "acc_event \<Rightarrow> bool" where
  "verified_mint e \<longleftrightarrow> flag_of (dget ''_verified_mint_after'' (ae_data e))"

text \<open>The liquidity before the event, where it is known, and after it.\<close>

definition liquidity_before :: "acc_state \<Rightarrow> acc_event \<Rightarrow> int option" where
  "liquidity_before s e =
    (case state_number (event_state (ae_data e) ''before'') [''liquidity''] of
       Some n \<Rightarrow> Some n
     | None \<Rightarrow>
        if verified_mint e then Some 0
        else if as_liquidity_known s then Some (liquidity_or_0 s) else None)"

definition liquidity_after :: "acc_state \<Rightarrow> acc_event \<Rightarrow> int option" where
  "liquidity_after s e =
    (let after =
       (case state_number (event_state (ae_data e) ''after'') [''liquidity''] of
          Some n \<Rightarrow> Some n
        | None \<Rightarrow>
           (case (liquidity_before s e, event_delta e) of
              (Some n, Some d) \<Rightarrow> Some (n + d)
            | _ \<Rightarrow> None))
     in case after of Some n \<Rightarrow> if n < 0 then None else Some n | None \<Rightarrow> None)"

text \<open>Whether every claim before the event is proved to be paid.\<close>

definition owed_before :: "acc_event \<Rightarrow> int option \<times> int option" where
  "owed_before e =
    (let before = event_state (ae_data e) ''before''
     in (state_number before [''tokens_owed0'', ''tokensOwed0''],
         state_number before [''tokens_owed1'', ''tokensOwed1'']))"

definition stated_empty :: "acc_event \<Rightarrow> json" where
  "stated_empty e =
    (case event_state (ae_data e) ''before'' of None \<Rightarrow> JNull | Some b \<Rightarrow> dget ''claims_empty'' b)"

definition claims_nonempty :: "acc_event \<Rightarrow> bool" where
  "claims_nonempty e \<longleftrightarrow>
     (let (owed0, owed1) = owed_before e
      in stated_empty e = JBool False
         \<or> (case owed0 of Some n \<Rightarrow> 0 < n | None \<Rightarrow> False) \<or> (case owed1 of Some n \<Rightarrow> 0 < n | None \<Rightarrow> False))"

definition claims_empty_before :: "acc_event \<Rightarrow> bool" where
  "claims_empty_before e \<longleftrightarrow>
     (case owed_before e of
        (Some n, Some m) \<Rightarrow> n = 0 \<and> m = 0
      | _ \<Rightarrow> stated_empty e = JBool True)"

definition prior_claims_empty :: "acc_state \<Rightarrow> acc_event \<Rightarrow> bool" where
  "prior_claims_empty s e \<longleftrightarrow>
     verified_mint e
     \<or> \<not> claims_nonempty e
       \<and> (claims_empty_before e \<or> as_minted_to_owner s \<or> as_settled s
          \<or> pending_is_zero s \<and> owed_is_zero s)"

definition zero_liquidity_proven :: "acc_state \<Rightarrow> acc_event \<Rightarrow> bool" where
  "zero_liquidity_proven s e \<longleftrightarrow>
     verified_mint e \<or> liquidity_before s e = Some 0 \<or> flag_of (dget ''zero_baseline'' (ae_data e))
     \<or> as_minted_to_owner s \<and> event_kind e = ''add'' \<and> liquidity_before s e \<in> {None, Some 0}"

definition zero_proven :: "acc_state \<Rightarrow> acc_event \<Rightarrow> bool" where
  "zero_proven s e \<longleftrightarrow> zero_liquidity_proven s e \<and> prior_claims_empty s e"

definition note_liquidity :: "acc_event \<Rightarrow> acc_state \<Rightarrow> acc_state" where
  "note_liquidity e s =
    (case liquidity_after s e of
       Some n \<Rightarrow> s\<lparr>as_liquidity := Some n, as_liquidity_known := True\<rparr>
     | None \<Rightarrow>
        if event_delta e \<noteq> None \<and> liquidity_before s e = None
        then s\<lparr>as_liquidity := None, as_liquidity_known := False\<rparr> else s)"

text \<open>A proof of emptiness completes the history, also that of an owner who was only observed.\<close>

definition note_zero :: "acc_event \<Rightarrow> acc_ledger \<Rightarrow> acc_ledger" where
  "note_zero e sw =
    (let (s, w) = sw;
         (s, w) = (case as_ownership s of
            Some i \<Rightarrow>
              if oi_acquired_by i = ''observed''
              then (s\<lparr>as_ownership := Some (i\<lparr>oi_complete := True\<rparr>)\<rparr>, save_ownership (i\<lparr>oi_complete := True\<rparr>) w)
              else (s, w)
          | None \<Rightarrow> (s, w));
         s = s\<lparr>as_history_complete := True\<rparr>;
         s = (if as_pending_known s then s else s\<lparr>as_pending := Some 0, as_pending_known := True\<rparr>);
         s = (if verified_mint e
              then s\<lparr>as_owed := Some 0, as_owed_known := True, as_owed_block := Some (ae_block e)\<rparr> else s)
     in (s, w))"

section \<open>The episode of the event\<close>

text \<open>
  \<^verbatim>\<open>begins\<close> is decided on the levels before the event, so they are arguments of this stage:
  \<open>before\<close> the liquidity before, \<open>zero_liq\<close> and \<open>paid\<close> what was proved of it and of the claims.
\<close>

definition begins :: "acc_event \<Rightarrow> int option \<Rightarrow> acc_state \<Rightarrow> bool" where
  "begins e before s \<longleftrightarrow>
     event_kind e = ''add'' \<and> (case event_delta e of Some d \<Rightarrow> 0 < d | None \<Rightarrow> False)
     \<and> (as_active s = None \<or> before = Some 0)"

definition reenter :: "acc_event \<Rightarrow> acc_episode \<Rightarrow> acc_episode" where
  "reenter e a = (close_episode e EpAmbiguousReentry False a)\<lparr>ep_ambiguous_reentry := True\<rparr>"

definition mark_reentry :: "acc_episode \<Rightarrow> acc_episode" where
  "mark_reentry a =
    a\<lparr>ep_ambiguous_reentry := True, ep_fees_complete := False, ep_status := EpAmbiguousReentry\<rparr>"

definition settled_prior :: "acc_state \<Rightarrow> acc_episode \<Rightarrow> bool" where
  "settled_prior s a \<longleftrightarrow> pending_is_zero s \<and> ep_claims_complete a"

definition begin_episode ::
  "episode_ids \<Rightarrow> acc_event \<Rightarrow> bool \<Rightarrow> bool \<Rightarrow> acc_ledger \<Rightarrow> acc_ledger" where
  "begin_episode ids e zero_liq paid sw =
    (let (s, w) = sw;
         reentry = (case as_active s of Some a \<Rightarrow> \<not> settled_prior s a | None \<Rightarrow> False);
         w = (case as_active s of Some a \<Rightarrow> if reentry then save_episode (reenter e a) w else w | None \<Rightarrow> w);
         ambiguous = (zero_liq \<and> \<not> paid \<or> reentry);
         (s, a) = new_episode ids (s\<lparr>as_active := None, as_settled := False\<rparr>) e
           (zero_liq \<and> paid \<and> as_history_complete s) False;
         a = (if ambiguous then mark_reentry a else a)
     in (s\<lparr>as_active := Some a\<rparr>, w))"

definition partial_episode :: "episode_ids \<Rightarrow> acc_event \<Rightarrow> acc_state \<Rightarrow> acc_state" where
  "partial_episode ids e s =
    (let (s, a) = new_episode ids s e False False
     in s\<lparr>as_active := Some (a\<lparr>ep_status := EpPartialHistory\<rparr>)\<rparr>)"

definition enter_episode ::
  "episode_ids \<Rightarrow> acc_event \<Rightarrow> int option \<Rightarrow> bool \<Rightarrow> bool \<Rightarrow> acc_ledger \<Rightarrow> acc_ledger" where
  "enter_episode ids e before zero_liq paid sw =
    (if begins e before (fst sw) then begin_episode ids e zero_liq paid sw
     else if as_active (fst sw) = None \<and> event_kind e \<in> {''remove'', ''collect'', ''checkpoint''}
     then (partial_episode ids e (fst sw), snd sw)
     else sw)"

section \<open>Settlement\<close>

text \<open>
  Once a V3 episode is complete and nothing of its history is missing, what was released is the
  principal and the rest of the proceeds are fees.
\<close>

definition exact_v3 :: "string \<Rightarrow> acc_episode \<Rightarrow> bool" where
  "exact_v3 protocol a \<longleftrightarrow>
     protocol = ''v3'' \<and> ep_history_complete a \<and> \<not> ep_transferred_basis a
     \<and> \<not> ep_ambiguous_reentry a \<and> ep_release_complete a"

definition attribute_v3 :: "string \<Rightarrow> acc_episode \<Rightarrow> acc_episode" where
  "attribute_v3 protocol a =
    (if exact_v3 protocol a \<and> ep_released a \<le> ep_proceeds a
     then a\<lparr>ep_principal := ep_released a, ep_fees := taken_from (ep_proceeds a) (ep_released a)\<rparr>
     else a)"

definition settle_episode :: "string \<Rightarrow> acc_event \<Rightarrow> acc_episode \<Rightarrow> acc_episode" where
  "settle_episode protocol e a = attribute_v3 protocol (complete_episode e a)"

definition settle :: "string \<Rightarrow> acc_event \<Rightarrow> acc_ledger \<Rightarrow> acc_ledger" where
  "settle protocol e sw =
    (let (s, w) = sw in
     case as_active s of
       None \<Rightarrow> (s, w)
     | Some a \<Rightarrow>
        if event_kind e = ''remove'' \<and> event_delta e = Some 0 then
          (if as_liquidity_known s \<and> liquidity_or_0 s \<noteq> 0
           then (s\<lparr>as_active := Some (a\<lparr>ep_status := EpOpen\<rparr>)\<rparr>, w) else (s, w))
        else if liquidity_is_zero s then
          (if claims_settled protocol e s
           then (s\<lparr>as_active := None, as_settled := True\<rparr>, save_episode (settle_episode protocol e a) w)
           else (s\<lparr>as_active := Some (a\<lparr>ep_status := EpAwaitingClaim, ep_claims_complete := False\<rparr>)\<rparr>, w))
        else if as_liquidity_known s \<and> 0 < liquidity_or_0 s
        then (s\<lparr>as_active := Some (a\<lparr>ep_status := EpOpen\<rparr>)\<rparr>, w)
        else (s, w))"

section \<open>One event\<close>

definition move_token ::
  "episode_ids \<Rightarrow> acc_event \<Rightarrow> string \<Rightarrow> acc_ledger \<Rightarrow> acc_ledger \<times> address option" where
  "move_token ids e protocol sw =
    (if is_transfer e protocol then process_transfer ids e sw else (update_identity e sw, None))"

text \<open>The levels the event proves, noted in the state, and the episode it belongs to.\<close>

definition note_levels :: "episode_ids \<Rightarrow> acc_event \<Rightarrow> acc_ledger \<Rightarrow> acc_ledger" where
  "note_levels ids e sw =
    (let (s, w) = sw;
         sw = (note_liquidity e s, w);
         sw = (if zero_proven s e then note_zero e sw else sw)
     in enter_episode ids e (liquidity_before s e) (zero_liquidity_proven s e) (prior_claims_empty s e) sw)"

definition apply_event :: "string \<Rightarrow> jdict \<Rightarrow> acc_event \<Rightarrow> acc_state \<Rightarrow> acc_state \<times> acc_effect" where
  "apply_event protocol pool e s =
    (let fx = financial_effect s e pool;
         s = s\<lparr>as_active := map_option (apply_effect fx e) (as_active s)\<rparr>
     in (update_claim_state e fx s, fx))"

text \<open>The episode the effect counts for: the one it was applied to, also when that is settled now.\<close>

definition process_event :: "episode_ids \<Rightarrow> jdict \<Rightarrow> acc_event \<Rightarrow> acc_ledger \<Rightarrow> acc_ledger" where
  "process_event ids pool e sw =
    (let (s, w) = sw;
         protocol = event_protocol s e;
         (sw, source) = move_token ids e protocol (note_place e s, w);
         (s, w) = note_levels ids e sw;
         (s, fx) = apply_event protocol pool e s;
         episode = map_option ep_id (as_active s);
         (s, w) = settle protocol e (s, w);
         row = (if is_transfer e protocol
                then make_effect_row s e fx None
                  (if source = Some Lp_Events.ZERO_ADDRESS then None else source)
                else make_effect_row s e fx episode None);
         w = save_effect row w
     in (s\<lparr>as_last := event_order e, as_last_timestamp := ae_timestamp e\<rparr>, w))"

end
