(* ===== verification/Acc_Replay.thy ===== *)
theory Acc_Replay
  imports Acc_Process
begin

text \<open>
  The replay of a position: \<^verbatim>\<open>_derive\<close>, \<^verbatim>\<open>_append_position\<close>, \<^verbatim>\<open>_rebuild_position\<close> and the saved
  identities of episodes (\<^verbatim>\<open>_ReplayWrites.restore_episode_identity\<close>) of \<^verbatim>\<open>lp_market_accounting.py\<close>.
  The rows of the SELECTs are arguments: the events of the position, its stored row, the ids of the
  events that have an effect, the row of a pool.
\<close>

section \<open>Boundaries that a later log proves\<close>

text \<open>
  A V3 manager logs the deposit before the transfer that mints the token, and the last collect
  before the one that burns it: the first add of a transaction is marked by a later mint of the same
  transaction, its last collect by a later burn.
\<close>

type_synonym tx_key = "int \<times> int \<times> string"

definition tx_key_of :: "acc_event \<Rightarrow> tx_key" where
  "tx_key_of e = (ae_block e, ae_tx_index e, lower (ae_tx_hash e))"

definition put_flag :: "string \<Rightarrow> acc_event \<Rightarrow> acc_event" where
  "put_flag name e = e\<lparr>ae_data := od_set name (JBool True) (ae_data e)\<rparr>"

definition flag_at :: "string \<Rightarrow> nat option \<Rightarrow> acc_event list \<Rightarrow> acc_event list" where
  "flag_at name j es = (case j of None \<Rightarrow> es | Some n \<Rightarrow> es[n := put_flag name (es ! n)])"

record boundary_marks =
  bm_adds :: "(tx_key, nat) odict"
  bm_collects :: "(tx_key, nat) odict"
  bm_events :: "acc_event list"

definition mark_transfer :: "acc_event \<Rightarrow> boundary_marks \<Rightarrow> boundary_marks" where
  "mark_transfer e m =
    (let m = (if flag_of (dget ''mint'' (ae_data e))
              then m\<lparr>bm_events := flag_at ''_verified_mint_after'' (map_of (bm_adds m) (tx_key_of e)) (bm_events m)\<rparr>
              else m)
     in if flag_of (dget ''burn'' (ae_data e))
        then m\<lparr>bm_events := flag_at ''_verified_burn_after'' (map_of (bm_collects m) (tx_key_of e)) (bm_events m)\<rparr>
        else m)"

definition mark_event :: "nat \<Rightarrow> boundary_marks \<Rightarrow> boundary_marks" where
  "mark_event i m =
    (let e = bm_events m ! i; tx = tx_key_of e; kind = lower (ae_kind e)
     in if kind = ''add'' then
          (if map_of (bm_adds m) tx = None then m\<lparr>bm_adds := od_set tx i (bm_adds m)\<rparr> else m)
        else if kind = ''collect'' then m\<lparr>bm_collects := od_set tx i (bm_collects m)\<rparr>
        else if kind = ''transfer'' then mark_transfer e m
        else m)"

definition no_marks :: "acc_event list \<Rightarrow> boundary_marks" where
  "no_marks es = \<lparr>bm_adds = [], bm_collects = [], bm_events = es\<rparr>"

definition mark_boundaries :: "acc_event list \<Rightarrow> acc_event list" where
  "mark_boundaries es = bm_events (fold mark_event [0..<length es] (no_marks es))"

section \<open>Snapshots at the edges of a block\<close>

text \<open>
  Snapshots of the position are read at the edges of a block, so of the events of a block only the
  first that has one keeps the state before and only the last the state after.
\<close>

definition has_state :: "acc_event \<Rightarrow> bool" where
  "has_state e \<longleftrightarrow> event_state (ae_data e) ''before'' \<noteq> None \<or> event_state (ae_data e) ''after'' \<noteq> None"

definition state_indices :: "acc_event list \<Rightarrow> int \<Rightarrow> nat list" where
  "state_indices es b = List.filter (\<lambda>i. has_state (es ! i) \<and> ae_block (es ! i) = b) [0..<length es]"

definition edge_event :: "acc_event list \<Rightarrow> nat \<Rightarrow> acc_event \<Rightarrow> acc_event" where
  "edge_event es i e =
    (let ns = state_indices es (ae_block e) in
     if ns = [] then e
     else (let d = ae_data e;
               d = (if i = hd ns then d else od_del ''position_before'' d);
               d = (if i = List.last ns then d else od_del ''position_after'' d)
           in e\<lparr>ae_data := d\<rparr>))"

definition prepare_events :: "acc_event list \<Rightarrow> acc_event list" where
  "prepare_events es =
    (let marked = mark_boundaries es in map (\<lambda>i. edge_event es i (marked ! i)) [0..<length es])"

section \<open>Identities of episodes\<close>

type_synonym saved_episode = "string \<times> int \<times> log_point"

record saved_ids =
  sv_position :: "int option"
  sv_replay :: "(int \<times> saved_episode list) option"
  sv_episodes :: "saved_episode list"

definition put_ids :: "saved_episode list \<Rightarrow> episode_ids \<Rightarrow> episode_ids" where
  "put_ids rows ids = fold (\<lambda>(eid, n, place). od_set place (eid, n)) rows ids"

definition restore_ids :: "saved_ids \<Rightarrow> acc_state \<Rightarrow> episode_ids \<times> acc_state" where
  "restore_ids sv s =
    (let n = as_episode_ordinal s;
         n = (case sv_position sv of None \<Rightarrow> n | Some m \<Rightarrow> max n m);
         (n, ids) = (case sv_replay sv of None \<Rightarrow> (n, []) | Some (m, rows) \<Rightarrow> (max n m, put_ids rows []));
         ids = put_ids (sv_episodes sv) ids;
         n = fold (\<lambda>(eid, m, place) k. max k m) (sv_episodes sv) n
     in (ids, s\<lparr>as_episode_ordinal := n\<rparr>))"

section \<open>Replay\<close>

type_synonym pool_rows = "string \<Rightarrow> jdict"

definition event_pool :: "pool_rows \<Rightarrow> acc_state \<Rightarrow> acc_event \<Rightarrow> jdict" where
  "event_pool pools s e =
    (let p = text_or (ae_pool_id e) (text_or (as_pool_id s) []) in if p = [] then [] else pools p)"

definition replay_step :: "episode_ids \<Rightarrow> pool_rows \<Rightarrow> acc_event \<Rightarrow> acc_ledger \<Rightarrow> acc_ledger" where
  "replay_step ids pools e sw = process_event ids (event_pool pools (fst sw) e) e sw"

definition run_events :: "episode_ids \<Rightarrow> pool_rows \<Rightarrow> acc_event list \<Rightarrow> acc_ledger \<Rightarrow> acc_ledger" where
  "run_events ids pools es sw = fold (replay_step ids pools) es sw"

definition save_run :: "acc_ledger \<Rightarrow> acc_ledger" where
  "save_run sw =
    (let (s, w) = sw;
         w = (case as_active s of Some a \<Rightarrow> save_episode a w | None \<Rightarrow> w)
     in (s, save_position s w))"

text \<open>
  The identities are restored in a replay of all events, not in an append (\<open>saved = None\<close>); a
  replay of all events has no state to begin with.
\<close>

definition derive ::
  "pool_rows \<Rightarrow> string \<Rightarrow> saved_ids option \<Rightarrow> acc_event list \<Rightarrow> acc_state option \<Rightarrow> acc_ledger" where
  "derive pools key saved es state =
    (let s = (case state of None \<Rightarrow> new_state key (hd es) | Some s \<Rightarrow> s);
         (ids, s) = (case saved of None \<Rightarrow> ([], s) | Some sv \<Rightarrow> restore_ids sv s)
     in save_run (run_events ids pools (prepare_events es) (s, no_writes)))"

definition follows :: "log_point \<Rightarrow> acc_event \<Rightarrow> bool" where
  "follows at_end e \<longleftrightarrow> \<not> log_point_of e \<le> at_end \<and> ae_block e \<noteq> fst at_end"

definition append_position ::
  "pool_rows \<Rightarrow> string \<Rightarrow> int list \<Rightarrow> position_row option \<Rightarrow> int list \<Rightarrow> acc_event list \<Rightarrow> acc_ledger option" where
  "append_position pools key ids position projected rows =
    (if ids = [] then None
     else case position of
       None \<Rightarrow> None
     | Some p \<Rightarrow>
        if list_ex (\<lambda>i. i \<in> set projected) ids then None
        else if length rows \<noteq> length ids then None
        else (let es = sort_key event_order rows in
              if \<not> list_all (follows (pr_last p)) es then None
              else (case pr_state p of
                      None \<Rightarrow> None
                    | Some s \<Rightarrow>
                       if as_version s \<noteq> SCHEMA_VERSION then None
                       else Some (derive pools key None es (Some s)))))"

definition rebuild_position ::
  "pool_rows \<Rightarrow> string \<Rightarrow> saved_ids option \<Rightarrow> acc_event list \<Rightarrow> acc_ledger option" where
  "rebuild_position pools key saved es =
    (if es = [] then None else Some (derive pools key saved es None))"

end
