(* ===== verification/Acc_Inv.thy ===== *)
theory Acc_Inv
  imports Acc_Replay
begin

text \<open>
  The invariant of the state of a position in market accounting: which fields are present together,
  what an active episode and an open ownership interval are, and the proof that every event keeps
  it, stage by stage.
\<close>

section \<open>The invariant\<close>

definition liquidity_ok :: "acc_state \<Rightarrow> bool" where
  "liquidity_ok s \<longleftrightarrow>
     (as_liquidity_known s \<longleftrightarrow> as_liquidity s \<noteq> None)
     \<and> pred_option (\<lambda>n. 0 \<le> n) (as_liquidity s)"

definition claims_ok :: "acc_state \<Rightarrow> bool" where
  "claims_ok s \<longleftrightarrow>
     (as_pending_known s \<longleftrightarrow> as_pending s \<noteq> None)
     \<and> pred_option (\<lambda>p. 0 \<le> p) (as_pending s)
     \<and> (as_owed_known s \<longleftrightarrow> as_owed s \<noteq> None)"

text \<open>
  The open interval is the owner's: a position has an owner exactly where an interval is open, the
  interval names the owner and carries the last ordinal.
\<close>

definition open_interval_ok :: "string \<Rightarrow> int \<Rightarrow> own_interval \<Rightarrow> bool" where
  "open_interval_ok key n i \<longleftrightarrow> oi_key i = key \<and> oi_ordinal i = n \<and> oi_end i = None"

definition ownership_ok :: "acc_state \<Rightarrow> bool" where
  "ownership_ok s \<longleftrightarrow>
     known_address (as_owner s) = as_owner s
     \<and> map_option oi_owner (as_ownership s) = as_owner s
     \<and> pred_option (open_interval_ok (as_key s) (as_ownership_ordinal s)) (as_ownership s)"

text \<open>An episode that is still active: not closed, its claims not settled, no total negative.\<close>

definition live_status :: "ep_status \<Rightarrow> bool" where
  "live_status t \<longleftrightarrow> t \<in> {EpOpen, EpPartialHistory, EpAmbiguousReentry, EpAwaitingClaim}"

definition totals_ok :: "acc_episode \<Rightarrow> bool" where
  "totals_ok a \<longleftrightarrow>
     0 \<le> ep_deposit a \<and> 0 \<le> ep_proceeds a \<and> 0 \<le> ep_released a \<and> 0 \<le> ep_principal a \<and> 0 \<le> ep_fees a"

definition live_episode :: "string \<Rightarrow> acc_episode \<Rightarrow> bool" where
  "live_episode key a \<longleftrightarrow>
     ep_key a = key \<and> ep_closed a = None \<and> \<not> ep_claims_complete a \<and> live_status (ep_status a)
     \<and> totals_ok a \<and> known_address (ep_owner a) = ep_owner a"

definition active_ok :: "acc_state \<Rightarrow> bool" where
  "active_ok s \<longleftrightarrow> pred_option (live_episode (as_key s)) (as_active s)"

definition state_ok :: "acc_state \<Rightarrow> bool" where
  "state_ok s \<longleftrightarrow> liquidity_ok s \<and> claims_ok s \<and> ownership_ok s \<and> active_ok s"

lemmas state_ok_defs = liquidity_ok_def claims_ok_def ownership_ok_def active_ok_def

lemma new_state_ok: "state_ok (new_state key e)"
  by (simp add: state_ok_def state_ok_defs new_state_def known_address_def)

text \<open>Settlement of a prior episode is never found: an active episode has open claims.\<close>

lemma never_settled_prior: "active_ok s \<Longrightarrow> as_active s = Some a \<Longrightarrow> \<not> settled_prior s a"
  by (simp add: active_ok_def live_episode_def settled_prior_def)

section \<open>Episodes\<close>

lemma fresh_episode_live: "live_episode (as_key s) (fresh_episode s e eid n whole transferred)"
  by (simp add: fresh_episode_def live_episode_def live_status_def totals_ok_def Let_def)

lemma new_episode_live: "live_episode (as_key s) (snd (new_episode ids s e whole transferred))"
  using fresh_episode_live [of "s\<lparr>as_episode_ordinal := as_episode_ordinal s + 1\<rparr>"] fresh_episode_live [of s]
  by (simp add: new_episode_def Let_def split: option.splits prod.splits)

lemma new_episode_state:
  "fst (new_episode ids s e whole transferred) =
    s\<lparr>as_episode_ordinal := (if map_of ids (log_point_of e) = None then as_episode_ordinal s + 1
        else as_episode_ordinal s)\<rparr>"
  by (auto simp: new_episode_def Let_def split: option.splits)

lemma new_episode_identity:
  "ep_id (snd (new_episode ids s e whole transferred)) =
    (case map_of ids (log_point_of e) of
       None \<Rightarrow> episode_id_of (as_key s) (as_episode_ordinal s + 1) | Some (eid, _) \<Rightarrow> eid)"
  by (auto simp: new_episode_def fresh_episode_def Let_def split: option.splits)

section \<open>Stages that leave a part alone\<close>

named_theorems acc_frame "fields that a stage of an event leaves alone or sets"

lemma note_place_frame [acc_frame]:
  "liquidity_ok (note_place e s) = liquidity_ok s" "claims_ok (note_place e s) = claims_ok s"
  "ownership_ok (note_place e s) = ownership_ok s" "active_ok (note_place e s) = active_ok s"
  by (simp_all add: note_place_def state_ok_defs)

lemma note_place_ok: "state_ok s \<Longrightarrow> state_ok (note_place e s)"
  by (simp add: state_ok_def acc_frame)

section \<open>Transfers\<close>

lemma end_ownership_state:
  "fst (end_ownership e source target (s, w)) =
    s\<lparr>as_ownership := (if target \<noteq> known_address (as_owner s) \<or> target = None then None
        else as_ownership s)\<rparr>"
  by (auto simp: end_ownership_def Let_def split: option.splits)

definition ends_episode :: "acc_state \<Rightarrow> address option \<Rightarrow> address option \<Rightarrow> bool" where
  "ends_episode s source target \<longleftrightarrow>
     as_active s \<noteq> None \<and> (is_regular s source target \<or> is_burn source target)"

lemma end_episode_state:
  "fst (end_episode e source target (s, w)) =
    (if ends_episode s source target
     then s\<lparr>as_active := None, as_settled := (\<not> is_regular s source target \<and> liquidity_is_zero s \<and> pending_is_zero s)\<rparr>
     else s)"
  by (cases "as_active s") (simp_all add: end_episode_def ends_episode_def)

text \<open>The state after both endings: the fields that can differ.\<close>

lemma ended_cases:
  obtains o' x y where
    "fst (end_episode e source target (end_ownership e source target (s, w))) =
      s\<lparr>as_ownership := o', as_active := x, as_settled := y\<rparr>"
    and "o' = (if target \<noteq> known_address (as_owner s) \<or> target = None then None else as_ownership s)"
    and "x = as_active s \<or> x = None"
proof -
  obtain s1 w1 where m: "end_ownership e source target (s, w) = (s1, w1)" by fastforce
  let ?o = "if target \<noteq> known_address (as_owner s) \<or> target = None then None else as_ownership s"
  have s1: "s1 = s\<lparr>as_ownership := ?o\<rparr>"
    using end_ownership_state [of e source target s w] by (simp add: m)
  define ended where "ended = fst (end_episode e source target (s1, w1))"
  have "ended = s\<lparr>as_ownership := ?o, as_active := None, as_settled := as_settled ended\<rparr>
      \<or> ended = s\<lparr>as_ownership := ?o, as_active := as_active s, as_settled := as_settled ended\<rparr>"
    unfolding ended_def end_episode_state s1 by simp
  then show thesis
    using that [OF _ refl] m ended_def by metis
qed


text \<open>
  What a stage before the episode may change, for the parts of the invariant that are not about
  owners: nothing of the liquidity and the claims, and the active episode stays or ends or is new.
\<close>

definition amounts_kept :: "acc_state \<Rightarrow> acc_state \<Rightarrow> bool" where
  "amounts_kept s s' \<longleftrightarrow>
     as_key s' = as_key s \<and> as_liquidity s' = as_liquidity s
     \<and> as_liquidity_known s' = as_liquidity_known s \<and> as_pending s' = as_pending s
     \<and> as_pending_known s' = as_pending_known s \<and> as_owed s' = as_owed s
     \<and> as_owed_known s' = as_owed_known s"

lemma amounts_kept_refl [simp]: "amounts_kept s s"
  by (simp add: amounts_kept_def)

lemma amounts_kept_trans: "amounts_kept s t \<Longrightarrow> amounts_kept t u \<Longrightarrow> amounts_kept s u"
  by (simp add: amounts_kept_def)

lemma amounts_kept_ok:
  "amounts_kept s s' \<Longrightarrow> liquidity_ok s' = liquidity_ok s \<and> claims_ok s' = claims_ok s"
  by (simp add: amounts_kept_def liquidity_ok_def claims_ok_def)

lemma first_address_known: "first_address names d = Some a \<Longrightarrow> known_address (Some a) = Some a"
  by (auto simp: first_address_def address_value_known split: option.splits)

lemma parties_known:
  assumes "transfer_parties e = (source, target)" and "target = Some a"
  shows "known_address (Some a) = Some a"
  using assms by (auto simp: transfer_parties_def Let_def first_address_known known_address_again
      split: if_splits)

lemma event_owner_known:
  "event_owner e = (owner, custody, basis) \<Longrightarrow> known_address owner = owner"
  by (auto simp: event_owner_def Let_def)

text \<open>\<open>start_ownership\<close> opens the interval of the owner the state names.\<close>

lemma start_ownership_ok:
  assumes "as_owner s = Some owner" and "known_address (Some owner) = Some owner" and "active_ok s"
    and r: "start_ownership ids e source owner regular (s, w) = (s', w')"
  shows "ownership_ok s' \<and> active_ok s' \<and> amounts_kept s s'"
proof -
  define minted where "minted = (source = Some Lp_Events.ZERO_ADDRESS)"
  define s1 where "s1 = s\<lparr>as_ownership_ordinal := as_ownership_ordinal s + 1\<rparr>"
  define i where "i = open_interval s1 e owner (as_identity_basis s1) (if minted then ''mint'' else ''transfer'') True"
  define s2 where "s2 = s1\<lparr>as_ownership := Some i, as_minted_to_owner := minted, as_settled := (as_settled s1 \<and> \<not> minted)\<rparr>"
  obtain s3 a where n: "new_episode ids s2 e (as_history_complete s2) True = (s3, a)" by fastforce
  have s3: "s3 = s2\<lparr>as_episode_ordinal := as_episode_ordinal s3\<rparr>"
    using new_episode_state [of ids s2 e "as_history_complete s2" True] by (simp add: n)
  have live: "live_episode (as_key s2) a"
    using new_episode_live [of s2 ids e "as_history_complete s2" True] by (simp add: n)
  have "s' = (if regular \<and> has_inventory s2 then s3\<lparr>as_active := Some a, as_settled := False\<rparr> else s2)"
    using r n by (auto simp: start_ownership_def Let_def s2_def s1_def i_def minted_def split: if_splits)
  moreover have "ownership_ok s2 \<and> active_ok s2 \<and> amounts_kept s s2"
    using assms(1-3) by (simp add: ownership_ok_def s2_def s1_def i_def open_interval_def open_interval_ok_def
        amounts_kept_def active_ok_def)
  moreover have "ownership_ok (s3\<lparr>as_active := Some a, as_settled := False\<rparr>) = ownership_ok s2
      \<and> active_ok (s3\<lparr>as_active := Some a, as_settled := False\<rparr>)
      \<and> amounts_kept s2 (s3\<lparr>as_active := Some a, as_settled := False\<rparr>)"
    by (subst (1 2 3) s3) (simp add: ownership_ok_def active_ok_def amounts_kept_def live)
  ultimately show ?thesis
    by (auto intro: amounts_kept_trans)
qed

lemma receive_position_ok:
  assumes owner: "known_address (Some owner) = Some owner" and ok: "ownership_ok s0"
    and s: "s = s0\<lparr>as_ownership := own, as_active := x, as_settled := y\<rparr>"
    and own: "own = (if Some owner = as_owner s0 then as_ownership s0 else None)"
    and x: "pred_option (live_episode (as_key s0)) x"
    and r: "receive_position ids e source owner s0 (s, w) = (s', w')"
  shows "ownership_ok s' \<and> active_ok s' \<and> amounts_kept s0 s'"
proof -
  obtain eo custody basis where o: "event_owner e = (eo, custody, basis)" by (cases "event_owner e")
  have current: "known_address (as_owner s0) = as_owner s0" using ok by (simp add: ownership_ok_def)
  define s1 where "s1 = s\<lparr>as_owner := Some owner,
      as_identity_basis := (if eo = Some owner then basis else ''verified_nft_transfer''),
      as_custody := (if custody \<noteq> None then custody else as_custody s)\<rparr>"
  have s1: "active_ok s1 \<and> amounts_kept s0 s1 \<and> as_owner s1 = Some owner"
    using x by (simp add: s1_def s active_ok_def amounts_kept_def)
  have kept: "ownership_ok (s1\<lparr>as_minted_to_owner := m, as_settled := t\<rparr>)
      \<and> active_ok (s1\<lparr>as_minted_to_owner := m, as_settled := t\<rparr>)
      \<and> amounts_kept s0 (s1\<lparr>as_minted_to_owner := m, as_settled := t\<rparr>)"
    if "as_owner s0 = Some owner" for m t
    using ok own that s1 by (simp add: ownership_ok_def s1_def s active_ok_def amounts_kept_def)
  have "(s', w') =
     (if source = Some Lp_Events.ZERO_ADDRESS \<and> as_owner s0 = Some owner
         \<and> map_option oi_acquired_by (as_ownership s0) = Some ''mint''
      then (s1\<lparr>as_minted_to_owner := True, as_settled := False\<rparr>, w)
      else if source = as_owner s0 \<and> as_owner s0 = Some owner
      then (s1\<lparr>as_minted_to_owner := False\<rparr>, w)
      else start_ownership ids e source owner (is_regular s0 source (Some owner)) (s1, w))"
    using r unfolding receive_position_def o current Let_def prod.case s1_def by (rule sym)
  then consider "as_owner s0 = Some owner" "s' = s1\<lparr>as_minted_to_owner := True, as_settled := False\<rparr>"
    | "as_owner s0 = Some owner" "s' = s1\<lparr>as_minted_to_owner := False\<rparr>"
    | "start_ownership ids e source owner (is_regular s0 source (Some owner)) (s1, w) = (s', w')"
    by (metis fst_conv)
  then show ?thesis
  proof cases
    case 1
    then show ?thesis using kept by simp
  next
    case 2
    then show ?thesis using kept [where m = False and t = "as_settled s1"] by simp
  next
    case 3
    with start_ownership_ok owner s1 show ?thesis
      using amounts_kept_trans by blast
  qed
qed

lemma process_transfer_ok:
  assumes ok: "ownership_ok s" "active_ok s"
    and r: "process_transfer ids e (s, w) = ((s', w'), source)"
  shows "ownership_ok s' \<and> active_ok s' \<and> amounts_kept s s'"
proof -
  obtain src tgt where p: "transfer_parties e = (src, tgt)" by fastforce
  define target where "target = (if tgt = Some Lp_Events.ZERO_ADDRESS then None else tgt)"
  have current: "known_address (as_owner s) = as_owner s" using ok by (simp add: ownership_ok_def)
  obtain s1 w1 where ended: "end_episode e src target (end_ownership e src target (s, w)) = (s1, w1)"
    by fastforce
  obtain own x y where s1: "s1 = s\<lparr>as_ownership := own, as_active := x, as_settled := y\<rparr>"
      "own = (if target \<noteq> as_owner s \<or> target = None then None else as_ownership s)"
      "x = as_active s \<or> x = None"
    using ended_cases [of e src target s w] ended current by (metis fst_conv)
  have live: "pred_option (live_episode (as_key s)) x"
    using s1(3) ok(2) by (auto simp: active_ok_def)
  show ?thesis
  proof (cases target)
    case None
    have "s' = s1\<lparr>as_owner := None\<rparr> \<or> s' = s1\<lparr>as_owner := None, as_identity_basis := ''burned''\<rparr>"
      using r ended unfolding process_transfer_def p Let_def prod.case target_def [symmetric] lose_position_def None
      by (auto split: if_splits)
    then show ?thesis
      using live s1 None by (auto simp: ownership_ok_def active_ok_def amounts_kept_def known_address_def)
  next
    case (Some owner)
    have "known_address (Some owner) = Some owner"
      using parties_known [OF p] Some by (auto simp: target_def split: if_splits)
    moreover have "receive_position ids e src owner s (s1, w1) = (s', w')"
      using r ended unfolding process_transfer_def p Let_def prod.case target_def [symmetric] Some by (elim Pair_inject) simp
    moreover have "own = (if Some owner = as_owner s then as_ownership s else None)"
      using s1(2) Some by auto
    ultimately show ?thesis
      using receive_position_ok ok(1) s1(1) live by blast
  qed
qed


section \<open>Owners seen in other events\<close>

lemma identify_live: "live_episode key a \<Longrightarrow> known_address (Some owner) = Some owner \<Longrightarrow>
    live_episode key (identify owner basis a)"
  by (simp add: identify_def live_episode_def totals_ok_def)

lemma mark_conflict_live: "live_episode key a \<Longrightarrow> live_episode key (mark_conflict a)"
  by (simp add: mark_conflict_def live_episode_def totals_ok_def)

lemma active_ok_map:
  assumes "active_ok s" and "\<And>a. live_episode (as_key s) a \<Longrightarrow> live_episode (as_key s) (f a)"
  shows "active_ok (s\<lparr>as_active := map_option f (as_active s)\<rparr>)"
  using assms by (cases "as_active s") (simp_all add: active_ok_def)

lemma observe_ownership_ok:
  assumes "as_owner s = Some owner" and "known_address (Some owner) = Some owner" and "active_ok s"
    and r: "observe_ownership e owner basis (s, w) = (s', w')"
  shows "ownership_ok s' \<and> active_ok s' \<and> amounts_kept s s'"
proof -
  define s1 where "s1 = s\<lparr>as_ownership_ordinal := as_ownership_ordinal s + 1\<rparr>"
  have "\<exists>i. s' = s1\<lparr>as_ownership := Some i\<rparr> \<and> oi_owner i = owner
      \<and> open_interval_ok (as_key s) (as_ownership_ordinal s1) i"
    using r by (auto simp: observe_ownership_def Let_def s1_def open_interval_def open_interval_ok_def)
  then show ?thesis
    using assms(1-3) by (auto simp: s1_def ownership_ok_def active_ok_def amounts_kept_def)
qed

lemma update_identity_ok:
  assumes ok: "ownership_ok s" "active_ok s" and r: "update_identity e (s, w) = (s', w')"
  shows "ownership_ok s' \<and> active_ok s' \<and> amounts_kept s s'"
proof -
  obtain owner custody basis where o: "event_owner e = (owner, custody, basis)" by (cases "event_owner e")
  define s1 where "s1 = s\<lparr>as_custody := (if custody \<noteq> None then custody else as_custody s)\<rparr>"
  have s1: "ownership_ok s1 \<and> active_ok s1 \<and> amounts_kept s s1"
    using ok by (simp add: s1_def ownership_ok_def active_ok_def amounts_kept_def)
  have current: "known_address (as_owner s1) = as_owner s1" using s1 by (simp add: ownership_ok_def)
  have u: "(s', w') =
     (case owner of
        None \<Rightarrow> (s1, w)
      | Some seen \<Rightarrow>
         (case as_owner s1 of
            None \<Rightarrow>
             (let s = s1\<lparr>as_owner := Some seen, as_identity_basis := basis,
                         as_active := map_option (identify seen basis) (as_active s1)\<rparr>
              in if as_ownership s = None then observe_ownership e seen basis (s, w) else (s, w))
          | Some current \<Rightarrow>
             (if current \<noteq> seen then (s1\<lparr>as_active := map_option mark_conflict (as_active s1)\<rparr>, w)
              else (s1, w))))"
    using r unfolding update_identity_def o Let_def prod.case s1_def [symmetric] current by (rule sym)
  show ?thesis
  proof (cases owner)
    case None
    with u s1 show ?thesis by simp
  next
    case (Some seen)
    have seen: "known_address (Some seen) = Some seen"
      using event_owner_known [OF o] Some by simp
    show ?thesis
    proof (cases "as_owner s1")
      case None
      define s2 where "s2 = s1\<lparr>as_owner := Some seen, as_identity_basis := basis,
          as_active := map_option (identify seen basis) (as_active s1)\<rparr>"
      have none: "as_ownership s2 = None"
        using s1 None by (simp add: s2_def ownership_ok_def)
      have "active_ok s2" and "amounts_kept s1 s2"
        using s1 active_ok_map [of s1 "identify seen basis"] identify_live [OF _ seen]
        by (auto simp: s2_def active_ok_def amounts_kept_def)
      moreover have "observe_ownership e seen basis (s2, w) = (s', w')"
        using u Some None none by (simp add: s2_def [symmetric] Let_def)
      ultimately show ?thesis
        using observe_ownership_ok [of s2 seen e basis w s' w'] seen s1 amounts_kept_trans
        by (simp add: s2_def) (blast intro: amounts_kept_trans)
    next
      case own: (Some current)
      have "s' = s1 \<or> s' = s1\<lparr>as_active := map_option mark_conflict (as_active s1)\<rparr>"
        using u Some own by (auto split: if_splits)
      moreover have "ownership_ok (s1\<lparr>as_active := x\<rparr>) = ownership_ok s1" "amounts_kept s1 (s1\<lparr>as_active := x\<rparr>)" for x
        by (simp_all add: ownership_ok_def amounts_kept_def)
      ultimately show ?thesis
        using s1 active_ok_map [of s1 mark_conflict] mark_conflict_live amounts_kept_trans by metis
    qed
  qed
qed

lemma move_token_ok:
  assumes ok: "state_ok s" and r: "move_token ids e protocol (s, w) = ((s', w'), source)"
  shows "state_ok s'"
proof -
  have "ownership_ok s' \<and> active_ok s' \<and> amounts_kept s s'"
    using r ok process_transfer_ok [of s ids e w s' w' source] update_identity_ok [of s e w s' w']
    by (auto simp: move_token_def state_ok_def split: if_splits)
  with ok show ?thesis
    using amounts_kept_ok by (auto simp: state_ok_def)
qed

section \<open>Levels, episodes and settlement\<close>

lemma note_liquidity_ok: "state_ok s \<Longrightarrow> state_ok (note_liquidity e s)"
  by (auto simp: state_ok_def state_ok_defs note_liquidity_def liquidity_after_def Let_def
      split: option.splits if_splits)

lemma note_zero_ok:
  assumes "state_ok s" and "note_zero e (s, w) = (s', w')"
  shows "state_ok s'"
proof -
  obtain i where i: "as_ownership s' = i" "map_option oi_owner i = map_option oi_owner (as_ownership s)"
    "pred_option (open_interval_ok (as_key s) (as_ownership_ordinal s)) i"
    using assms by (auto simp: note_zero_def Let_def state_ok_def ownership_ok_def open_interval_ok_def
        split: option.splits if_splits)
  have eq: "s' = s\<lparr>as_ownership := i, as_history_complete := True, as_pending := as_pending s',
      as_pending_known := as_pending_known s', as_owed := as_owed s', as_owed_known := as_owed_known s',
      as_owed_block := as_owed_block s'\<rparr>"
    and claims: "claims_ok s'"
    using assms i(1) by (auto simp: note_zero_def Let_def state_ok_def claims_ok_def
        split: option.splits if_splits)
  have "liquidity_ok s' \<and> ownership_ok s' \<and> active_ok s'"
    using assms(1) i by (subst (1 2 3) eq) (simp add: state_ok_def liquidity_ok_def ownership_ok_def active_ok_def)
  with claims show ?thesis by (simp add: state_ok_def)
qed

lemma with_active_ok:
  "state_ok s \<Longrightarrow> pred_option (live_episode (as_key s)) x \<Longrightarrow> state_ok (s\<lparr>as_active := x\<rparr>)"
  "state_ok s \<Longrightarrow> state_ok (s\<lparr>as_settled := b\<rparr>)"
  "state_ok s \<Longrightarrow> state_ok (s\<lparr>as_episode_ordinal := n\<rparr>)"
  by (simp_all add: state_ok_def state_ok_defs)

lemma begin_episode_ok:
  assumes "state_ok s" and r: "begin_episode ids e zero_liq paid (s, w) = (s', w')"
  shows "state_ok s'"
proof -
  define s1 where "s1 = s\<lparr>as_active := None, as_settled := False\<rparr>"
  obtain s2 a where n: "new_episode ids s1 e (zero_liq \<and> paid \<and> as_history_complete s) False = (s2, a)"
    by fastforce
  have s2: "s2 = s1\<lparr>as_episode_ordinal := as_episode_ordinal s2\<rparr>"
    using new_episode_state [of ids s1 e "zero_liq \<and> paid \<and> as_history_complete s" False] by (simp add: n)
  have live: "live_episode (as_key s1) a"
    using new_episode_live [of s1 ids e "zero_liq \<and> paid \<and> as_history_complete s" False] by (simp add: n)
  have "s' = s2\<lparr>as_active := Some a\<rparr> \<or> s' = s2\<lparr>as_active := Some (mark_reentry a)\<rparr>"
    using r n by (auto simp: begin_episode_def Let_def s1_def [symmetric])
  moreover have "live_episode (as_key s1) (mark_reentry a)"
    using live by (simp add: mark_reentry_def live_episode_def live_status_def totals_ok_def)
  moreover have "state_ok s1"
    using assms(1) by (simp add: s1_def with_active_ok)
  then have "state_ok s2"
    by (subst s2) (rule with_active_ok)
  moreover have "as_key s2 = as_key s1" by (subst s2) simp
  ultimately show ?thesis using live with_active_ok(1) [of s2 "Some _"] by auto
qed

lemma partial_episode_ok: "state_ok s \<Longrightarrow> state_ok (partial_episode ids e s)"
proof -
  assume ok: "state_ok s"
  obtain s2 a where n: "new_episode ids s e False False = (s2, a)" by fastforce
  have s2: "s2 = s\<lparr>as_episode_ordinal := as_episode_ordinal s2\<rparr>"
    using new_episode_state [of ids s e False False] by (simp add: n)
  have "live_episode (as_key s) a"
    using new_episode_live [of s ids e False False] by (simp add: n)
  moreover have "as_key s2 = as_key s" by (subst s2) simp
  moreover have "state_ok s2" using ok by (subst s2) (rule with_active_ok)
  ultimately show ?thesis
    by (simp add: partial_episode_def n with_active_ok live_episode_def live_status_def totals_ok_def)
qed

lemma note_levels_ok:
  assumes "state_ok s" and "note_levels ids e (s, w) = (s', w')"
  shows "state_ok s'"
proof -
  obtain s1 w1 where n: "(if zero_proven s e then note_zero e (note_liquidity e s, w)
      else (note_liquidity e s, w)) = (s1, w1)" by fastforce
  have "state_ok s1"
    using n note_zero_ok [OF note_liquidity_ok [OF assms(1)]] note_liquidity_ok [OF assms(1)]
    by (auto split: if_splits)
  moreover have "enter_episode ids e (liquidity_before s e) (zero_liquidity_proven s e)
      (prior_claims_empty s e) (s1, w1) = (s', w')"
    using assms(2) n by (simp add: note_levels_def Let_def)
  ultimately show ?thesis
    using begin_episode_ok partial_episode_ok by (auto simp: enter_episode_def split: if_splits)
qed

section \<open>Effects\<close>

definition effect_ok :: "acc_effect \<Rightarrow> bool" where
  "effect_ok fx \<longleftrightarrow>
     0 \<le> fx_deposit fx \<and> 0 \<le> fx_proceeds fx \<and> 0 \<le> fx_released fx \<and> 0 \<le> fx_principal fx \<and> 0 \<le> fx_fees fx"

text \<open>A split of a V3 collect that rests on the pending principal conserves what was collected.\<close>

lemma v3_split_conserves:
  assumes "v3_collect_split s e collected = Some (back, fees)" and "event_fees e = None"
    and "0 \<le> collected"
  shows "back + fees = collected \<and> 0 \<le> fees"
  using assms by (auto simp: v3_collect_split_def Let_def token_simps split: if_splits)

lemma v3_split_ok:
  assumes "v3_collect_split s e collected = Some (back, fees)" and "claims_ok s" and "0 \<le> collected"
  shows "0 \<le> back \<and> 0 \<le> fees"
proof (cases "event_fees e")
  case None
  with assms show ?thesis
    using v3_split_conserves [OF assms(1) None assms(3)]
    by (auto simp: v3_collect_split_def claims_ok_def Let_def amounts_or_0_def split: if_splits option.splits)
next
  case (Some f)
  with assms(1) show ?thesis
    by (auto simp: v3_collect_split_def Let_def token_simps)
qed

lemma no_effect_ok [simp]: "effect_ok (no_effect basis)"
  by (simp add: effect_ok_def no_effect_def)

lemma v3_effect_ok: "claims_ok s \<Longrightarrow> effect_ok fx \<Longrightarrow> effect_ok (v3_effect s e fx)"
  using v3_split_ok [of s e]
  by (auto simp: v3_effect_def v3_collect_effect_def effect_ok_def missing_cashflow_def Let_def
      split: option.splits)

lemma v4_effect_ok: "effect_ok fx \<Longrightarrow> effect_ok (v4_effect e fx)"
proof -
  have "effect_ok g \<Longrightarrow> effect_ok (v4_cash e g)" "effect_ok g \<Longrightarrow> effect_ok (v4_principal e g)"
    "effect_ok g \<Longrightarrow> effect_ok (v4_fees e g)" for g
    by (auto simp: effect_ok_def v4_cash_def v4_principal_def v4_fees_def cash_moves_def missing_cashflow_def
        Let_def split: option.splits)
  then show "effect_ok fx \<Longrightarrow> ?thesis"
    by (simp add: v4_effect_def) (simp add: effect_ok_def)
qed

lemma v2_effect_ok: "effect_ok fx \<Longrightarrow> effect_ok (v2_effect e fx)"
  by (auto simp: v2_effect_def missing_cashflow_def effect_ok_def Let_def split: option.splits)

lemma other_effect_ok: "effect_ok fx \<Longrightarrow> effect_ok (other_effect e fx)"
  by (auto simp: other_effect_def missing_cashflow_def cash_moves_def effect_ok_def split: option.splits)

lemma effect_amounts_ok: "claims_ok s \<Longrightarrow> effect_ok (effect_amounts s e)"
  by (simp add: effect_amounts_def Let_def v4_effect_ok v3_effect_ok v2_effect_ok other_effect_ok)

lemma financial_effect_ok: "claims_ok s \<Longrightarrow> effect_ok (financial_effect s e pool)"
  using effect_amounts_ok [of s e] by (simp add: financial_effect_def Let_def effect_ok_def)

lemma apply_effect_live:
  "live_episode key a \<Longrightarrow> effect_ok fx \<Longrightarrow> live_episode key (apply_effect fx e a)"
  by (simp add: live_episode_def totals_ok_def effect_ok_def apply_effect_def add_nonneg_nonneg)

lemma pending_nonneg: "claims_ok s \<Longrightarrow> 0 \<le> amounts_or_0 (as_pending s)"
  by (cases "as_pending s") (simp_all add: claims_ok_def)

lemma with_pending_ok:
  "state_ok s \<Longrightarrow> as_pending_known s \<Longrightarrow> 0 \<le> p \<Longrightarrow> state_ok (s\<lparr>as_pending := Some p\<rparr>)"
  "state_ok s \<Longrightarrow> state_ok (s\<lparr>as_pending_known := False, as_pending := None\<rparr>)"
  by (simp_all add: state_ok_def state_ok_defs)

lemma update_claim_state_ok:
  assumes "state_ok s" and "effect_ok fx"
  shows "state_ok (update_claim_state e fx s)"
proof -
  have "0 \<le> amounts_or_0 (as_pending s) + both abs a" for a
    using pending_nonneg assms(1) by (simp add: state_ok_def add_nonneg_nonneg)
  then have "state_ok (update_pending e fx s)"
    using assms(1) by (simp add: update_pending_def with_pending_ok split: option.split)
  moreover have "state_ok (update_owed e t)" if "state_ok t" for t
    using that by (auto simp: update_owed_def state_ok_def state_ok_defs Let_def split: option.splits)
  ultimately show ?thesis
    using assms by (simp add: update_claim_state_def)
qed

lemma apply_event_ok:
  assumes "state_ok s" and "apply_event protocol pool e s = (s', fx)"
  shows "state_ok s' \<and> effect_ok fx"
proof -
  have fx: "fx = financial_effect s e pool" "effect_ok fx"
    using assms financial_effect_ok by (auto simp: apply_event_def Let_def state_ok_def)
  have "state_ok (s\<lparr>as_active := map_option (apply_effect fx e) (as_active s)\<rparr>)"
    using assms(1) active_ok_map [of s "apply_effect fx e"] apply_effect_live [OF _ fx(2)]
    by (auto simp: state_ok_def liquidity_ok_def claims_ok_def ownership_ok_def)
  then show ?thesis
    using assms(2) fx update_claim_state_ok by (auto simp: apply_event_def Let_def)
qed

section \<open>Every event keeps the invariant\<close>

lemma settle_ok:
  assumes "state_ok s" and "settle protocol e (s, w) = (s', w')"
  shows "state_ok s'"
proof (cases "as_active s")
  case None
  with assms show ?thesis by (simp add: settle_def)
next
  case (Some a)
  have live: "live_episode (as_key s) a"
    using assms(1) Some by (simp add: state_ok_def active_ok_def)
  have t: "live_episode (as_key s) (a\<lparr>ep_status := EpOpen\<rparr>)"
    "live_episode (as_key s) (a\<lparr>ep_status := EpAwaitingClaim, ep_claims_complete := False\<rparr>)"
    using live by (simp_all add: live_episode_def live_status_def totals_ok_def)
  have ended: "state_ok (s\<lparr>as_active := None, as_settled := True\<rparr>)"
    using assms(1) by (simp add: with_active_ok)
  show ?thesis
    using assms(2) Some with_active_ok(1) [OF assms(1), of "Some _"] t ended assms(1)
    by (auto simp: settle_def split: if_splits)
qed

lemma process_event_ok:
  assumes "state_ok (fst sw)"
  shows "state_ok (fst (process_event ids pool e sw))"
proof -
  obtain s w where sw: "sw = (s, w)" by (cases sw)
  define protocol where "protocol = event_protocol s e"
  obtain s1 w1 source where m: "move_token ids e protocol (note_place e s, w) = ((s1, w1), source)"
    by (metis surj_pair)
  obtain s2 w2 where l: "note_levels ids e (s1, w1) = (s2, w2)" by fastforce
  obtain s3 fx where a: "apply_event protocol pool e s2 = (s3, fx)" by fastforce
  obtain s4 w4 where t: "settle protocol e (s3, w2) = (s4, w4)" by fastforce
  have "state_ok s4"
    using assms note_place_ok move_token_ok [OF _ m] note_levels_ok [OF _ l] apply_event_ok [OF _ a]
      settle_ok [OF _ t] by (simp add: sw)
  moreover have "fst (process_event ids pool e sw) =
      s4\<lparr>as_last := event_order e, as_last_timestamp := ae_timestamp e\<rparr>"
    by (simp add: process_event_def sw protocol_def [symmetric] m l a t Let_def)
  ultimately show ?thesis
    by (simp add: state_ok_def state_ok_defs)
qed

section \<open>Replays\<close>

lemma run_events_ok: "state_ok (fst sw) \<Longrightarrow> state_ok (fst (run_events ids pools es sw))"
  unfolding run_events_def
  by (induction es arbitrary: sw) (simp_all add: replay_step_def process_event_ok)

lemma restore_ids_ok: "state_ok s \<Longrightarrow> state_ok (snd (restore_ids sv s))"
  by (simp add: restore_ids_def Let_def with_active_ok split: option.split prod.split)

lemma fst_save_run [simp]: "fst (save_run sw) = fst sw"
  by (simp add: save_run_def Let_def split: prod.split)

lemma derive_ok:
  assumes "pred_option state_ok state"
  shows "state_ok (fst (derive pools key saved es state))"
proof -
  have start: "state_ok (case state of None \<Rightarrow> new_state key (hd es) | Some s \<Rightarrow> s)"
    using assms by (cases state) (simp_all add: new_state_ok)
  show ?thesis
  proof (cases saved)
    case None
    with start show ?thesis by (simp add: derive_def run_events_ok)
  next
    case (Some sv)
    obtain ids s where r: "restore_ids sv (case state of None \<Rightarrow> new_state key (hd es) | Some s \<Rightarrow> s) = (ids, s)"
      by fastforce
    with restore_ids_ok [OF start, of sv] Some show ?thesis
      by (simp add: derive_def r run_events_ok)
  qed
qed

section \<open>What a replay ends in, and what a collect conserves\<close>

text \<open>
  C40. A replay is well formed: from any history, with any saved identities, it ends in a state whose
  liquidity and pending principal are there exactly where they are known and then not negative, whose
  owner is the owner of the open interval, and whose active episode is not closed and has no negative
  total. What is owed is there exactly where it is known; it is the number a snapshot states, so of
  its sign nothing is said.
\<close>

theorem replay_state_ok: "state_ok (fst (derive pools key saved es None))"
  by (rule derive_ok) simp

text \<open>
  A V3 collect conserves what it collects: where the event states no fees and the split counts as
  exact, principal and fees add up to the proceeds and neither is negative.
\<close>

theorem collect_conserves:
  assumes "claims_ok s" and "state_protocol s e = ''v3''" and "event_kind e = ''collect''"
    and "event_fees e = None" and "fx_allocation_exact (financial_effect s e pool)"
  shows "fx_principal (financial_effect s e pool) + fx_fees (financial_effect s e pool) =
      fx_proceeds (financial_effect s e pool)
    \<and> 0 \<le> fx_principal (financial_effect s e pool) \<and> 0 \<le> fx_fees (financial_effect s e pool)"
  using assms v3_split_conserves [OF _ assms(4), of s] financial_effect_ok [OF assms(1), of e pool]
  by (auto simp: financial_effect_def effect_amounts_def v3_effect_def v3_collect_effect_def Let_def
      effect_ok_def split: option.splits)

end
