(* ===== verification/Acc_Totals.thy ===== *)
theory Acc_Totals
  imports Acc_Inv
begin

text \<open>
  What the rows of a replay add up to: the deposits, proceeds, principal and fees of every episode
  are the sums of the effects that name it, or, of an exact V3 episode, principal and fees together
  are its proceeds. The identities of episodes are fresh, and no event loses an episode.
\<close>

section \<open>The cash of an episode\<close>

text \<open>
  Deposits, proceeds and fees, and the principal where every cash flow of the episode is known: of an
  effect whose cash flow is unknown no row tells the principal.
\<close>

type_synonym book_sums = "tokens \<times> tokens \<times> tokens \<times> tokens option"

definition no_cash :: book_sums where
  "no_cash = (0, 0, 0, Some 0)"

definition cash_in :: "acc_episode \<Rightarrow> book_sums" where
  "cash_in a = (ep_deposit a, ep_proceeds a, ep_fees a, if ep_cashflow_complete a then Some (ep_principal a) else None)"

definition row_cash :: "acc_writes \<Rightarrow> string \<Rightarrow> book_sums" where
  "row_cash w eid =
    (case map_of (aw_episodes w) eid of None \<Rightarrow> no_cash | Some r \<Rightarrow> cash_in (er_facts r))"

definition cash :: "acc_ledger \<Rightarrow> string \<Rightarrow> book_sums" where
  "cash sw eid =
    (case as_active (fst sw) of
       Some a \<Rightarrow> if ep_id a = eid then cash_in a else row_cash (snd sw) eid
     | None \<Rightarrow> row_cash (snd sw) eid)"

text \<open>The identities in use, and the one that a new episode would take.\<close>

definition used_ids :: "acc_ledger \<Rightarrow> string set" where
  "used_ids sw = set (od_keys (aw_episodes (snd sw))) \<union> ep_id ` set_option (as_active (fst sw))"

definition next_id :: "episode_ids \<Rightarrow> acc_event \<Rightarrow> acc_state \<Rightarrow> string" where
  "next_id ids e s =
    (case map_of ids (log_point_of e) of
       None \<Rightarrow> episode_id_of (as_key s) (as_episode_ordinal s + 1) | Some (eid, _) \<Rightarrow> eid)"

definition next_ordinal :: "episode_ids \<Rightarrow> acc_event \<Rightarrow> acc_state \<Rightarrow> int" where
  "next_ordinal ids e s =
    (if map_of ids (log_point_of e) = None then as_episode_ordinal s + 1 else as_episode_ordinal s)"

definition active_id :: "acc_ledger \<Rightarrow> string set" where
  "active_id sw = ep_id ` set_option (as_active (fst sw))"

text \<open>Only the rows of given episodes may change.\<close>

definition rows_kept :: "string set \<Rightarrow> acc_ledger \<Rightarrow> acc_ledger \<Rightarrow> bool" where
  "rows_kept xs sw sw' \<longleftrightarrow>
     (\<forall>x. x \<notin> xs \<longrightarrow> map_of (aw_episodes (snd sw')) x = map_of (aw_episodes (snd sw)) x)"

text \<open>
  A stage that opens no episode, and one that opens the next: the row of an episode that is not
  active stays as it is, and no identity is lost.
\<close>

definition quiet :: "acc_ledger \<Rightarrow> acc_ledger \<Rightarrow> bool" where
  "quiet sw sw' \<longleftrightarrow>
     as_key (fst sw') = as_key (fst sw) \<and> as_version (fst sw') = as_version (fst sw)
     \<and> as_episode_ordinal (fst sw') = as_episode_ordinal (fst sw)
     \<and> aw_effects (snd sw') = aw_effects (snd sw) \<and> cash sw' = cash sw \<and> used_ids sw' = used_ids sw
     \<and> active_id sw' \<subseteq> active_id sw \<and> rows_kept (active_id sw) sw sw'"

definition opens :: "episode_ids \<Rightarrow> acc_event \<Rightarrow> acc_ledger \<Rightarrow> acc_ledger \<Rightarrow> bool" where
  "opens ids e sw sw' \<longleftrightarrow>
     as_key (fst sw') = as_key (fst sw) \<and> as_version (fst sw') = as_version (fst sw)
     \<and> as_episode_ordinal (fst sw') = next_ordinal ids e (fst sw)
     \<and> aw_effects (snd sw') = aw_effects (snd sw) \<and> cash sw' = cash sw
     \<and> used_ids sw' = insert (next_id ids e (fst sw)) (used_ids sw)
     \<and> active_id sw' \<subseteq> insert (next_id ids e (fst sw)) (active_id sw)
     \<and> rows_kept (insert (next_id ids e (fst sw)) (active_id sw)) sw sw'"

lemma rows_kept_trans:
  "rows_kept xs a b \<Longrightarrow> rows_kept ys b c \<Longrightarrow> xs \<subseteq> zs \<Longrightarrow> ys \<subseteq> zs \<Longrightarrow> rows_kept zs a c"
  unfolding rows_kept_def by (metis subsetD)

lemma rows_kept_refl [simp]: "rows_kept xs a a"
  by (simp add: rows_kept_def)

lemma quiet_refl [simp]: "quiet sw sw"
  by (simp add: quiet_def)

lemma quiet_trans: "quiet a b \<Longrightarrow> quiet b c \<Longrightarrow> quiet a c"
  using rows_kept_trans [of "active_id a" a b "active_id b" c "active_id a"] by (auto simp: quiet_def)

lemma next_quiet: "quiet a b \<Longrightarrow> next_id ids e (fst b) = next_id ids e (fst a) \<and>
    next_ordinal ids e (fst b) = next_ordinal ids e (fst a)"
  by (simp add: quiet_def next_id_def next_ordinal_def split: option.split)

lemma quiet_opens: "quiet a b \<Longrightarrow> opens ids e b c \<Longrightarrow> opens ids e a c"
  using next_quiet [of a b ids e]
    rows_kept_trans [of "active_id a" a b "insert (next_id ids e (fst a)) (active_id b)" c
      "insert (next_id ids e (fst a)) (active_id a)"]
  by (auto simp: quiet_def opens_def)

lemma opens_quiet: "opens ids e a b \<Longrightarrow> quiet b c \<Longrightarrow> opens ids e a c"
  using rows_kept_trans [of "insert (next_id ids e (fst a)) (active_id a)" a b "active_id b" c
      "insert (next_id ids e (fst a)) (active_id a)"]
  by (auto simp: quiet_def opens_def)

section \<open>Quiet changes\<close>

text \<open>A change of the state that keeps the active episode but for fields that are no cash.\<close>

lemma quiet_state:
  assumes "as_key t = as_key s" and "as_version t = as_version s"
    and "as_episode_ordinal t = as_episode_ordinal s" and "map_option (\<lambda>a. (ep_id a, cash_in a)) (as_active t) = map_option (\<lambda>a. (ep_id a, cash_in a)) (as_active s)"
  shows "quiet (s, w) (t, w)"
proof (cases "as_active s")
  case None
  with assms show ?thesis by (simp add: quiet_def cash_def used_ids_def active_id_def rows_kept_def fun_eq_iff)
next
  case (Some a)
  with assms(4) obtain b where "as_active t = Some b" "ep_id b = ep_id a" "cash_in b = cash_in a" by auto
  with assms Some show ?thesis
    by (simp add: quiet_def cash_def used_ids_def active_id_def rows_kept_def fun_eq_iff)
qed

lemma quiet_save_ownership: "quiet (s, w) (s, save_ownership i w)"
  by (simp add: quiet_def save_ownership_def cash_def row_cash_def used_ids_def active_id_def rows_kept_def fun_eq_iff
      split: option.split)

lemma row_cash_save:
  "row_cash (save_episode a w) eid = (if eid = ep_id a then cash_in a else row_cash w eid)"
  by (simp add: row_cash_def save_episode_def dict_simps episode_row_def cash_in_def)

lemma save_episode_frame [simp]:
  "aw_effects (save_episode a w) = aw_effects w"
  "set (od_keys (aw_episodes (save_episode a w))) = insert (ep_id a) (set (od_keys (aw_episodes w)))"
  by (simp_all add: save_episode_def set_od_keys dict_simps)

lemma save_episode_rows:
  "map_of (aw_episodes (save_episode a w)) = (map_of (aw_episodes w))(ep_id a \<mapsto> episode_row a)"
  by (simp add: save_episode_def dict_simps)

text \<open>The active episode is saved and leaves: what it holds is then in its row.\<close>

lemma quiet_close:
  assumes "as_active s = Some a" and "ep_id b = ep_id a" and "cash_in b = cash_in a"
  shows "quiet (s, w) (s\<lparr>as_active := None, as_settled := y\<rparr>, save_episode b w)"
  using assms by (auto simp: quiet_def cash_def row_cash_save used_ids_def active_id_def rows_kept_def
      save_episode_rows fun_eq_iff)

lemma quiet_save_active:
  assumes "as_active s = Some a" and "ep_id b = ep_id a" and "cash_in b = cash_in a"
  shows "quiet (s, w) (s, save_episode b w)"
  using assms by (auto simp: quiet_def cash_def row_cash_save used_ids_def active_id_def rows_kept_def
      save_episode_rows fun_eq_iff)

lemma cash_in_changes [simp]:
  "cash_in (close_episode e st c a) = cash_in a" "cash_in (complete_episode e a) = cash_in a"
  "cash_in (reenter e a) = cash_in a" "cash_in (mark_reentry a) = cash_in a"
  "cash_in (identify owner basis a) = cash_in a" "cash_in (mark_conflict a) = cash_in a"
  "cash_in (a\<lparr>ep_status := st\<rparr>) = cash_in a" "cash_in (a\<lparr>ep_claims_complete := c\<rparr>) = cash_in a"
  "cash_in (fresh_episode s e eid n whole transferred) = no_cash"
  by (simp_all add: cash_in_def close_episode_def complete_episode_def reenter_def mark_reentry_def
      identify_def mark_conflict_def fresh_episode_def no_cash_def Let_def)

lemma ep_id_changes [simp]:
  "ep_id (close_episode e st c a) = ep_id a" "ep_id (complete_episode e a) = ep_id a"
  "ep_id (reenter e a) = ep_id a" "ep_id (mark_reentry a) = ep_id a"
  "ep_id (identify owner basis a) = ep_id a" "ep_id (mark_conflict a) = ep_id a"
  "ep_id (attribute_v3 protocol a) = ep_id a" "ep_id (settle_episode protocol e a) = ep_id a"
  "ep_id (fresh_episode s e eid n whole transferred) = eid"
  by (simp_all add: close_episode_def complete_episode_def reenter_def mark_reentry_def
      identify_def mark_conflict_def attribute_v3_def settle_episode_def fresh_episode_def Let_def)

section \<open>A new episode\<close>

lemma new_episode_opens:
  assumes n: "new_episode ids s e whole transferred = (s', a)"
    and none: "as_active s = None" and fresh: "next_id ids e s \<notin> used_ids (s, w)"
    and b: "ep_id b = ep_id a" "cash_in b = cash_in a"
    and t: "as_key t = as_key s'" "as_version t = as_version s'" "as_episode_ordinal t = as_episode_ordinal s'" "as_active t = Some b"
  shows "opens ids e (s, w) (t, w)"
proof -
  have a: "ep_id a = next_id ids e s" "cash_in a = no_cash"
    using n by (auto simp: new_episode_def next_id_def Let_def split: option.splits)
  have s': "as_key s' = as_key s" "as_version s' = as_version s" "as_episode_ordinal s' = next_ordinal ids e s"
    using new_episode_state [of ids s e whole transferred] by (simp_all add: n next_ordinal_def)
  have "row_cash w (next_id ids e s) = no_cash"
    using fresh by (auto simp: row_cash_def used_ids_def set_od_keys split: option.split)
  then show ?thesis
    using a s' b t none by (auto simp: opens_def cash_def used_ids_def active_id_def fun_eq_iff rows_kept_def)
qed


section \<open>Stages\<close>

lemma quiet_end_ownership: "quiet (s, w) (end_ownership e source target (s, w))"
proof -
  have "quiet (s, w) (s\<lparr>as_ownership := None\<rparr>, w)"
    by (rule quiet_state) simp_all
  then show ?thesis
    by (auto simp: end_ownership_def Let_def split: option.split intro: quiet_trans quiet_save_ownership)
qed

lemma quiet_end_episode: "quiet (s, w) (end_episode e source target (s, w))"
proof (cases "as_active s")
  case None
  then show ?thesis by (simp add: end_episode_def)
next
  case (Some a)
  then show ?thesis by (auto simp: end_episode_def intro: quiet_close)
qed

lemma quiet_lose: "quiet (s, w) (lose_position source (s, w))"
  by (simp add: lose_position_def Let_def) (simp add: quiet_state)

lemma regular_ended:
  assumes "is_regular s source target" and "as_owner t = as_owner s"
  shows "as_active (fst (end_episode e source target (t, w))) = None"
  using assms by (cases "as_active t") (simp_all add: end_episode_def is_regular_def)

lemma start_ownership_opens:
  assumes "regular \<Longrightarrow> as_active s = None" and "next_id ids e s \<notin> used_ids (s, w)"
  shows "quiet (s, w) (start_ownership ids e source owner regular (s, w))
    \<or> opens ids e (s, w) (start_ownership ids e source owner regular (s, w))"
proof -
  define minted where "minted = (source = Some Lp_Events.ZERO_ADDRESS)"
  define s1 where "s1 = s\<lparr>as_ownership_ordinal := as_ownership_ordinal s + 1\<rparr>"
  define i where "i = open_interval s1 e owner (as_identity_basis s1) (if minted then ''mint'' else ''transfer'') True"
  define s2 where "s2 = s1\<lparr>as_ownership := Some i, as_minted_to_owner := minted, as_settled := (as_settled s1 \<and> \<not> minted)\<rparr>"
  define w2 where "w2 = save_ownership i w"
  obtain s3 a where n: "new_episode ids s2 e (as_history_complete s2) True = (s3, a)" by fastforce
  have r: "start_ownership ids e source owner regular (s, w) =
      (if regular \<and> has_inventory s2 then (s3\<lparr>as_active := Some a, as_settled := False\<rparr>, w2) else (s2, w2))"
    unfolding start_ownership_def Let_def prod.case minted_def [symmetric] s1_def [symmetric] i_def [symmetric]
      w2_def [symmetric] s2_def [symmetric] n by (rule refl)
  have "quiet (s, w) (s2, w)" by (rule quiet_state) (simp_all add: s2_def s1_def)
  then have q: "quiet (s, w) (s2, w2)"
    unfolding w2_def using quiet_save_ownership quiet_trans by blast
  moreover have "opens ids e (s2, w2) (s3\<lparr>as_active := Some a, as_settled := False\<rparr>, w2)" if "regular"
  proof (rule new_episode_opens [OF n _ _ refl refl])
    show "as_active s2 = None" using assms(1) that by (simp add: s2_def s1_def)
    show "next_id ids e s2 \<notin> used_ids (s2, w2)"
      using q assms(2) next_quiet [OF q, of ids e] by (auto simp: quiet_def)
  qed simp_all
  ultimately show ?thesis
    using r quiet_opens by auto
qed

lemma receive_opens:
  assumes "is_regular s0 source (Some owner) \<Longrightarrow> as_active s = None"
    and "next_id ids e s \<notin> used_ids (s, w)"
  shows "quiet (s, w) (receive_position ids e source owner s0 (s, w))
    \<or> opens ids e (s, w) (receive_position ids e source owner s0 (s, w))"
proof -
  obtain eo custody basis where o: "event_owner e = (eo, custody, basis)" by (cases "event_owner e")
  define s1 where "s1 = s\<lparr>as_owner := Some owner,
      as_identity_basis := (if eo = Some owner then basis else ''verified_nft_transfer''),
      as_custody := (if custody \<noteq> None then custody else as_custody s)\<rparr>"
  have q: "quiet (s, w) (s1, w)" by (rule quiet_state) (simp_all add: s1_def)
  have "quiet (s1, w) (start_ownership ids e source owner (is_regular s0 source (Some owner)) (s1, w))
    \<or> opens ids e (s1, w) (start_ownership ids e source owner (is_regular s0 source (Some owner)) (s1, w))"
    using assms q next_quiet [OF q, of ids e] by (intro start_ownership_opens) (auto simp: s1_def quiet_def)
  moreover have "quiet (s1, w) (s1\<lparr>as_minted_to_owner := True, as_settled := False\<rparr>, w)"
    "quiet (s1, w) (s1\<lparr>as_minted_to_owner := False\<rparr>, w)"
    by (rule quiet_state; simp)+
  ultimately have "quiet (s1, w) (receive_position ids e source owner s0 (s, w))
    \<or> opens ids e (s1, w) (receive_position ids e source owner s0 (s, w))"
    unfolding receive_position_def o Let_def prod.case s1_def [symmetric] by (simp split: if_split)
  then show ?thesis
    using q quiet_trans quiet_opens by blast
qed

lemma transfer_opens:
  assumes fresh: "next_id ids e s \<notin> used_ids (s, w)"
  shows "quiet (s, w) (fst (process_transfer ids e (s, w)))
    \<or> opens ids e (s, w) (fst (process_transfer ids e (s, w)))"
proof -
  obtain src tgt where p: "transfer_parties e = (src, tgt)" by fastforce
  define target where "target = (if tgt = Some Lp_Events.ZERO_ADDRESS then None else tgt)"
  obtain s0 w0 where first: "end_ownership e src target (s, w) = (s0, w0)" by fastforce
  obtain s1 w1 where ended: "end_episode e src target (s0, w0) = (s1, w1)" by fastforce
  have q: "quiet (s, w) (s1, w1)"
    using quiet_end_ownership [of s w e src target] quiet_end_episode [of s0 w0 e src target]
    by (simp add: first ended quiet_trans)
  have "as_owner s0 = as_owner s"
    using end_ownership_state [of e src target s w] by (simp add: first)
  then have none: "as_active s1 = None" if "is_regular s src target"
    using regular_ended [OF that, of s0 e w0] by (simp add: ended)
  have step: "fst (process_transfer ids e (s, w)) =
     (case target of Some owner \<Rightarrow> receive_position ids e src owner s (s1, w1)
       | None \<Rightarrow> lose_position src (s1, w1))"
    unfolding process_transfer_def p Let_def prod.case target_def [symmetric] first ended fst_conv by (rule refl)
  show ?thesis
  proof (cases target)
    case None
    with q quiet_lose [of s1 w1 src] show ?thesis by (simp add: step quiet_trans)
  next
    case (Some owner)
    have "next_id ids e s1 \<notin> used_ids (s1, w1)"
      using fresh q next_quiet [OF q, of ids e] by (auto simp: quiet_def)
    then have "quiet (s1, w1) (fst (process_transfer ids e (s, w)))
      \<or> opens ids e (s1, w1) (fst (process_transfer ids e (s, w)))"
      using receive_opens [of s src owner s1 ids e w1] none Some by (simp add: step)
    with q show ?thesis using quiet_trans quiet_opens by blast
  qed
qed

lemma quiet_identity: "quiet (s, w) (update_identity e (s, w))"
proof -
  obtain owner custody basis where o: "event_owner e = (owner, custody, basis)" by (cases "event_owner e")
  define s1 where "s1 = s\<lparr>as_custody := (if custody \<noteq> None then custody else as_custody s)\<rparr>"
  have q: "quiet (s, w) (s1, w)" by (rule quiet_state) (simp_all add: s1_def)
  have observed: "quiet (t, w) (observe_ownership e seen b (t, w))" for t seen b
    by (auto simp: observe_ownership_def Let_def intro!: quiet_trans [OF quiet_state quiet_save_ownership])
  have named: "quiet (s1, w) (s1\<lparr>as_owner := Some seen, as_identity_basis := basis,
      as_active := map_option (identify seen basis) (as_active s1)\<rparr>, w)" for seen
    by (rule quiet_state) (simp_all add: option.map_comp o_def)
  have conflict: "quiet (s1, w) (s1\<lparr>as_active := map_option mark_conflict (as_active s1)\<rparr>, w)"
    by (rule quiet_state) (simp_all add: option.map_comp o_def)
  have "quiet (s1, w) (update_identity e (s, w))"
    unfolding update_identity_def o Let_def prod.case s1_def [symmetric]
    using named conflict quiet_trans [OF named observed] by (simp split: option.split)
  with q show ?thesis by (rule quiet_trans)
qed

lemma quiet_note_place: "quiet (s, w) (note_place e s, w)"
  by (rule quiet_state) (simp_all add: note_place_def)

lemma quiet_note_liquidity: "quiet (s, w) (note_liquidity e s, w)"
  by (rule quiet_state) (simp_all add: note_liquidity_def split: option.split)

lemma quiet_note_zero: "quiet (s, w) (note_zero e (s, w))"
proof -
  obtain s1 w1 where z: "note_zero e (s, w) = (s1, w1)" by fastforce
  have "quiet (s, w) (s1, w)"
    using z by (intro quiet_state) (auto simp: note_zero_def Let_def split: option.splits if_splits)
  moreover have "w1 = w \<or> (\<exists>i. w1 = save_ownership i w)"
    using z by (auto simp: note_zero_def Let_def split: option.splits if_splits)
  ultimately show ?thesis
    using z quiet_save_ownership quiet_trans by metis
qed

lemma begin_opens:
  assumes ok: "active_ok s" and fresh: "next_id ids e s \<notin> used_ids (s, w)"
  shows "opens ids e (s, w) (begin_episode ids e zero_liq paid (s, w))"
proof -
  define s1 where "s1 = s\<lparr>as_active := None, as_settled := False\<rparr>"
  define w1 where "w1 = (case as_active s of Some a \<Rightarrow> save_episode (reenter e a) w | None \<Rightarrow> w)"
  obtain s2 a where n: "new_episode ids s1 e (zero_liq \<and> paid \<and> as_history_complete s) False = (s2, a)"
    by fastforce
  define reentry where "reentry = (as_active s \<noteq> None)"
  define b where "b = (if zero_liq \<and> \<not> paid \<or> reentry then mark_reentry a else a)"
  have kept: "(case as_active s of Some a \<Rightarrow> \<not> settled_prior s a | None \<Rightarrow> False) = reentry"
    using never_settled_prior [OF ok] by (auto simp: reentry_def split: option.split)
  have r: "begin_episode ids e zero_liq paid (s, w) = (s2\<lparr>as_active := Some b\<rparr>, w1)"
    unfolding begin_episode_def Let_def prod.case kept s1_def [symmetric] n b_def w1_def
    by (simp add: reentry_def split: option.split)
  have q: "quiet (s, w) (s1, w1)"
    unfolding s1_def w1_def
    by (cases "as_active s") (simp_all add: quiet_state quiet_close)
  have "opens ids e (s1, w1) (s2\<lparr>as_active := Some b\<rparr>, w1)"
  proof (rule new_episode_opens [OF n])
    show "as_active s1 = None" by (simp add: s1_def)
    show "next_id ids e s1 \<notin> used_ids (s1, w1)"
      using q fresh next_quiet [OF q, of ids e] by (auto simp: quiet_def)
    show "ep_id b = ep_id a" "cash_in b = cash_in a" by (simp_all add: b_def)
  qed simp_all
  with q show ?thesis by (simp add: r quiet_opens)
qed

lemma partial_opens:
  assumes "as_active s = None" and "next_id ids e s \<notin> used_ids (s, w)"
  shows "opens ids e (s, w) (partial_episode ids e s, w)"
proof -
  obtain s2 a where n: "new_episode ids s e False False = (s2, a)" by fastforce
  show ?thesis
    using assms by (simp add: partial_episode_def n) (rule new_episode_opens [OF n]; simp)
qed


section \<open>One event\<close>

text \<open>
  Every event has a protocol, and the NFT contract only logs transfers (\<^verbatim>\<open>decode_transfer\<close>).
\<close>

definition nft_event_ok :: "acc_event \<Rightarrow> bool" where
  "nft_event_ok e \<longleftrightarrow>
     ae_protocol e \<noteq> [] \<and> (lower (ae_protocol e) \<noteq> ''nft'' \<or> event_kind e = ''transfer'')"

definition fresh_id :: "episode_ids \<Rightarrow> acc_event \<Rightarrow> acc_ledger \<Rightarrow> bool" where
  "fresh_id ids e sw \<longleftrightarrow> next_id ids e (fst sw) \<notin> used_ids sw"

text \<open>The stages before the effect: at most one episode is opened, and no cash moves.\<close>

lemma levels_quiet:
  assumes "event_kind e = ''transfer''"
  shows "quiet (s, w) (note_levels ids e (s, w))"
proof -
  obtain s1 w1 where n: "(if zero_proven s e then note_zero e (note_liquidity e s, w)
      else (note_liquidity e s, w)) = (s1, w1)" by fastforce
  have q: "quiet (s, w) (s1, w1)"
    using n quiet_note_liquidity [of s w e] quiet_trans [OF quiet_note_liquidity quiet_note_zero, of s w e e]
    by (auto split: if_splits)
  have "note_levels ids e (s, w) = (s1, w1)"
    by (simp add: note_levels_def n Let_def enter_episode_def begins_def assms)
  with q show ?thesis by simp
qed

lemma levels_open:
  assumes ok: "active_ok s" and fresh: "fresh_id ids e (s, w)"
  shows "quiet (s, w) (note_levels ids e (s, w)) \<or> opens ids e (s, w) (note_levels ids e (s, w))"
proof -
  obtain s1 w1 where n: "(if zero_proven s e then note_zero e (note_liquidity e s, w)
      else (note_liquidity e s, w)) = (s1, w1)" by fastforce
  have q: "quiet (s, w) (s1, w1)"
    using n quiet_note_liquidity [of s w e] quiet_trans [OF quiet_note_liquidity quiet_note_zero, of s w e e]
    by (auto split: if_splits)
  have "as_active s1 = as_active s \<and> as_key s1 = as_key s"
    using n by (auto simp: note_zero_def note_liquidity_def Let_def split: option.splits if_splits)
  then have ok1: "active_ok s1" using ok by (simp add: active_ok_def)
  have fresh1: "next_id ids e s1 \<notin> used_ids (s1, w1)"
    using q fresh next_quiet [OF q, of ids e] by (auto simp: quiet_def fresh_id_def)
  have "note_levels ids e (s, w) =
      enter_episode ids e (liquidity_before s e) (zero_liquidity_proven s e) (prior_claims_empty s e) (s1, w1)"
    by (simp add: note_levels_def n Let_def)
  moreover have "quiet (s1, w1) (enter_episode ids e before z p (s1, w1))
      \<or> opens ids e (s1, w1) (enter_episode ids e before z p (s1, w1))" for before z p
    using begin_opens [OF ok1 fresh1] partial_opens [OF _ fresh1] by (auto simp: enter_episode_def)
  ultimately show ?thesis
    using q quiet_trans quiet_opens by metis
qed

lemma identity_active_ok: "state_ok s \<Longrightarrow> active_ok (fst (update_identity e (s, w)))"
  using update_identity_ok [of s e w] by (metis prod.collapse state_ok_def)

lemma entry_opens:
  assumes ok: "state_ok s" and fresh: "fresh_id ids e (s, w)" and nft: "is_transfer e protocol \<Longrightarrow> event_kind e = ''transfer''"
    and m: "move_token ids e protocol (s, w) = (sw1, source)"
  shows "quiet (s, w) (note_levels ids e sw1) \<or> opens ids e (s, w) (note_levels ids e sw1)"
proof (cases "is_transfer e protocol")
  case True
  with m have sw1: "sw1 = fst (process_transfer ids e (s, w))" by (simp add: move_token_def)
  have "quiet (s, w) sw1 \<or> opens ids e (s, w) sw1"
    using transfer_opens fresh by (simp add: sw1 fresh_id_def)
  moreover have "quiet sw1 (note_levels ids e sw1)"
    using levels_quiet [OF nft [OF True]] by (cases sw1) simp
  ultimately show ?thesis using quiet_trans opens_quiet by blast
next
  case False
  with m have sw1: "sw1 = update_identity e (s, w)" by (simp add: move_token_def)
  have q: "quiet (s, w) sw1" by (simp add: sw1 quiet_identity)
  have "active_ok (fst sw1)" using identity_active_ok [OF ok] by (simp add: sw1)
  moreover have "fresh_id ids e sw1"
    using q fresh next_quiet [OF q, of ids e] by (auto simp: quiet_def fresh_id_def)
  ultimately have "quiet sw1 (note_levels ids e sw1) \<or> opens ids e sw1 (note_levels ids e sw1)"
    using levels_open by (cases sw1) simp
  then show ?thesis using q quiet_trans quiet_opens by blast
qed

text \<open>The effect is booked on the active episode.\<close>

definition effect_cash :: "acc_effect \<Rightarrow> book_sums" where
  "effect_cash fx =
     (fx_deposit fx, fx_proceeds fx, fx_fees fx, if fx_cashflow_exact fx then Some (fx_principal fx) else None)"

fun plus_cash :: "book_sums \<Rightarrow> book_sums \<Rightarrow> book_sums" where
  "plus_cash (d, p, f, q) (d', p', f', q') =
     (d + d', p + p', f + f', case (q, q') of (Some a, Some b) \<Rightarrow> Some (a + b) | _ \<Rightarrow> None)"

lemma update_claim_frame [simp]:
  "as_active (update_claim_state e fx s) = as_active s" "as_key (update_claim_state e fx s) = as_key s"
  "as_version (update_claim_state e fx s) = as_version s"
  "as_episode_ordinal (update_claim_state e fx s) = as_episode_ordinal s"
  by (simp_all add: update_claim_state_def update_owed_def update_pending_def Let_def split: option.split)

lemma apply_effect_simps [simp]:
  "ep_id (apply_effect fx e a) = ep_id a"
  "cash_in (apply_effect fx e a) = plus_cash (cash_in a) (effect_cash fx)"
  by (simp_all add: apply_effect_def cash_in_def effect_cash_def)

lemma apply_event_cash:
  assumes "apply_event protocol pool e s = (s', fx)"
  shows "cash (s', w) eid =
      (if map_option ep_id (as_active s) = Some eid then plus_cash (cash (s, w) eid) (effect_cash fx)
       else cash (s, w) eid)"
    and "used_ids (s', w) = used_ids (s, w)" and "as_key s' = as_key s \<and> as_version s' = as_version s"
    and "as_episode_ordinal s' = as_episode_ordinal s"
    and "map_option ep_id (as_active s') = map_option ep_id (as_active s)"
proof -
  have s': "as_active s' = map_option (apply_effect fx e) (as_active s)"
    "as_key s' = as_key s \<and> as_version s' = as_version s" "as_episode_ordinal s' = as_episode_ordinal s"
    using assms by (auto simp: apply_event_def Let_def)
  show "as_key s' = as_key s \<and> as_version s' = as_version s" "as_episode_ordinal s' = as_episode_ordinal s"
    by (fact s')+
  show "map_option ep_id (as_active s') = map_option ep_id (as_active s)"
    by (simp add: s' option.map_comp o_def)
  show "used_ids (s', w) = used_ids (s, w)"
    by (cases "as_active s") (simp_all add: s' used_ids_def)
  show "cash (s', w) eid =
      (if map_option ep_id (as_active s) = Some eid then plus_cash (cash (s, w) eid) (effect_cash fx)
       else cash (s, w) eid)"
    by (cases "as_active s") (simp_all add: s' cash_def)
qed

text \<open>
  Settlement may divide the proceeds of a V3 episode anew: what was released is principal and the
  rest are fees. Deposits, proceeds and whether all cash flows are known stay as they are.
\<close>

definition divided :: "acc_episode \<Rightarrow> bool" where
  "divided a \<longleftrightarrow> ep_principal a + ep_fees a = ep_proceeds a \<and> ep_status a = EpComplete
     \<and> ep_history_complete a \<and> \<not> ep_transferred_basis a \<and> \<not> ep_ambiguous_reentry a"

fun undivided :: "book_sums \<Rightarrow> tokens \<times> tokens \<times> bool" where
  "undivided (d, p, f, q) = (d, p, q \<noteq> None)"

definition divided_row :: "acc_ledger \<Rightarrow> string \<Rightarrow> book_sums \<Rightarrow> bool" where
  "divided_row sw x t \<longleftrightarrow> x \<notin> active_id sw \<and> undivided (cash sw x) = undivided t
     \<and> pred_option (\<lambda>r. divided (er_facts r)) (map_of (aw_episodes (snd sw)) x) \<and> x \<in> set (od_keys (aw_episodes (snd sw)))"

definition settles :: "acc_ledger \<Rightarrow> acc_ledger \<Rightarrow> bool" where
  "settles sw sw' \<longleftrightarrow>
     as_key (fst sw') = as_key (fst sw) \<and> as_version (fst sw') = as_version (fst sw)
     \<and> as_episode_ordinal (fst sw') = as_episode_ordinal (fst sw)
     \<and> aw_effects (snd sw') = aw_effects (snd sw) \<and> used_ids sw' = used_ids sw
     \<and> active_id sw' \<subseteq> active_id sw \<and> rows_kept (active_id sw) sw sw'
     \<and> (\<forall>x. cash sw' x = cash sw x \<or> divided_row sw' x (cash sw x))"

lemma quiet_settles: "quiet sw sw' \<Longrightarrow> settles sw sw'"
  by (simp add: quiet_def settles_def)

lemma settle_episode_cash:
  "cash_in (settle_episode protocol e a) = cash_in a \<or>
   undivided (cash_in (settle_episode protocol e a)) = undivided (cash_in a) \<and> divided (settle_episode protocol e a)"
proof (cases "exact_v3 protocol (complete_episode e a) \<and> ep_released a \<le> ep_proceeds a")
  case True
  then show ?thesis
    by (auto simp: settle_episode_def attribute_v3_def cash_in_def divided_def exact_v3_def complete_episode_def
        close_episode_def)
next
  case False
  then have "settle_episode protocol e a = complete_episode e a"
    by (auto simp: settle_episode_def attribute_v3_def complete_episode_def close_episode_def)
  then show ?thesis by simp
qed

lemma settles_close:
  assumes "as_active s = Some a"
  shows "settles (s, w) (s\<lparr>as_active := None, as_settled := y\<rparr>, save_episode (settle_episode protocol e a) w)"
proof (cases "cash_in (settle_episode protocol e a) = cash_in a")
  case True
  then show ?thesis using assms by (intro quiet_settles quiet_close) simp_all
next
  case False
  let ?b = "settle_episode protocol e a" and ?sw = "(s\<lparr>as_active := None, as_settled := y\<rparr>, save_episode (settle_episode protocol e a) w)"
  have b: "undivided (cash_in ?b) = undivided (cash_in a)" "divided ?b" using settle_episode_cash False by blast+
  have "divided (er_facts (episode_row ?b))" using b(2) by (simp add: divided_def episode_row_def)
  then have "cash ?sw x = cash (s, w) x \<or> divided_row ?sw x (cash (s, w) x)" for x
    using assms b(1) by (cases "x = ep_id a") (auto simp: divided_row_def cash_def active_id_def row_cash_save
        save_episode_rows)
  then show ?thesis
    using assms by (auto simp: settles_def used_ids_def active_id_def rows_kept_def save_episode_rows)
qed

lemma settle_settles: "settles (s, w) (settle protocol e (s, w))"
proof (cases "as_active s")
  case None
  then show ?thesis by (simp add: settle_def quiet_settles)
next
  case (Some a)
  have st: "quiet (s, w) (s\<lparr>as_active := Some (a\<lparr>ep_status := t\<rparr>)\<rparr>, w)"
    "quiet (s, w) (s\<lparr>as_active := Some (a\<lparr>ep_status := t, ep_claims_complete := c\<rparr>)\<rparr>, w)" for t c
    using Some by (auto intro!: quiet_state)
  show ?thesis
    using Some st settles_close [OF Some] by (simp add: settle_def quiet_settles)
qed

text \<open>
  An amount that is not exact is empty, and so are all of a transfer: the row shows what was booked.
\<close>

definition row_amounts :: "effect_row \<Rightarrow> book_sums" where
  "row_amounts r = (amounts_or_0 (fr_deposit r), amounts_or_0 (fr_proceeds r), amounts_or_0 (fr_fees r),
     if fr_deposit r = None then None else Some (amounts_or_0 (fr_principal r)))"

definition shown :: "acc_effect \<Rightarrow> bool" where
  "shown fx \<longleftrightarrow> (fx_cashflow_exact fx \<or> fx_deposit fx = 0 \<and> fx_proceeds fx = 0) \<and>
     (fx_fees_exact fx \<or> fx_fees fx = 0) \<and> (fx_allocation_exact fx \<or> fx_principal fx = 0)"

definition nothing :: "acc_effect \<Rightarrow> bool" where
  "nothing fx \<longleftrightarrow> fx_deposit fx = 0 \<and> fx_proceeds fx = 0 \<and> fx_fees fx = 0 \<and> fx_principal fx = 0
     \<and> fx_cashflow_exact fx \<and> fx_fees_exact fx \<and> fx_allocation_exact fx"

lemmas nothing_simps = nothing_def shown_def

lemma v4_effect_shown:
  assumes "nothing fx" shows "shown (v4_effect e fx)"
proof -
  have c: "shown (v4_cash e fx)" "fx_allocation_exact (v4_cash e fx)" "fx_principal (v4_cash e fx) = 0"
    "fx_fees (v4_cash e fx) = 0" "fx_fees_exact (v4_cash e fx)"
    using assms by (auto simp: v4_cash_def missing_cashflow_def nothing_simps cash_moves_def Let_def
        split: option.split)
  have p: "shown (v4_principal e g) \<and> fx_fees (v4_principal e g) = fx_fees g
      \<and> fx_fees_exact (v4_principal e g) = fx_fees_exact g" if "shown g" "fx_allocation_exact g" "fx_principal g = 0" for g
    using that by (auto simp: v4_principal_def shown_def Let_def split: option.split)
  have f: "shown (v4_fees e g)" if "shown g" "fx_fees g = 0" "fx_fees_exact g" for g
    using that by (auto simp: v4_fees_def shown_def Let_def split: option.split)
  have "shown (v4_fees e (v4_principal e (v4_cash e fx)))" using c p f by metis
  then show ?thesis by (simp add: v4_effect_def) (simp add: shown_def)
qed

lemma v3_effect_shown: "nothing fx \<Longrightarrow> shown (v3_effect s e fx)"
  by (simp add: v3_effect_def v3_collect_effect_def missing_cashflow_def nothing_simps Let_def split: option.split)

lemma v2_effect_shown: "nothing fx \<Longrightarrow> shown (v2_effect e fx)"
  by (simp add: v2_effect_def missing_cashflow_def nothing_simps Let_def split: option.split)

lemma other_effect_shown: "nothing fx \<Longrightarrow> shown (other_effect e fx)"
  by (simp add: other_effect_def missing_cashflow_def cash_moves_def nothing_simps split: option.split)

lemma no_effect_nothing [simp]: "nothing (no_effect b)"
  by (simp add: no_effect_def nothing_simps)

lemma effect_amounts_shown: "shown (effect_amounts s e)"
  by (simp add: effect_amounts_def Let_def v4_effect_shown v3_effect_shown v2_effect_shown other_effect_shown)
    (simp add: shown_def no_effect_def)

lemma transfer_effect: "event_kind e = ''transfer'' \<Longrightarrow> effect_cash (effect_amounts s e) = no_cash"
  by (simp add: effect_amounts_def Let_def v3_effect_def v2_effect_def)
    (simp add: effect_cash_def no_effect_def no_cash_def)

lemma financial_cash:
  "effect_cash (financial_effect s e pool) = effect_cash (effect_amounts s e)"
  "shown (financial_effect s e pool) = shown (effect_amounts s e)"
  by (simp_all add: financial_effect_def Let_def effect_cash_def shown_def)

lemma row_fields [simp]:
  "fr_event_id (make_effect_row s e fx x gas) = ae_id e"
  "fr_episode_id (make_effect_row s e fx x gas) = x"
  by (simp_all add: make_effect_row_def)

lemma row_amounts_exact:
  "shown fx \<Longrightarrow> row_amounts (make_effect_row t e fx episode gas) = effect_cash fx"
  by (simp add: row_amounts_def make_effect_row_def when_exact_def effect_cash_def)
    (auto simp: shown_def)

lemma row_amounts_shown:
  assumes "apply_event protocol pool e s = (s', fx)"
  shows "row_amounts (make_effect_row t e fx episode gas) = effect_cash fx"
    and "event_kind e = ''transfer'' \<Longrightarrow> effect_cash fx = no_cash"
proof -
  have fx: "fx = financial_effect s e pool" using assms by (simp add: apply_event_def Let_def)
  have "shown fx" unfolding fx financial_cash by (rule effect_amounts_shown)
  then show "row_amounts (make_effect_row t e fx episode gas) = effect_cash fx" by (rule row_amounts_exact)
  show "effect_cash fx = no_cash" if "event_kind e = ''transfer''"
    unfolding fx financial_cash by (rule transfer_effect [OF that])
qed

text \<open>What an event does to the books.\<close>

definition books :: "episode_ids \<Rightarrow> acc_event \<Rightarrow> acc_ledger \<Rightarrow> acc_ledger \<Rightarrow> effect_row \<Rightarrow> bool" where
  "books ids e sw sw' r \<longleftrightarrow>
     as_key (fst sw') = as_key (fst sw) \<and> as_version (fst sw') = as_version (fst sw)
     \<and> aw_effects (snd sw') = od_set (ae_id e) r (aw_effects (snd sw))
     \<and> (\<forall>x. let t = plus_cash (cash sw x) (if fr_episode_id r = Some x then row_amounts r else no_cash)
          in cash sw' x = t \<or> divided_row sw' x t)
     \<and> (\<forall>x. fr_episode_id r = Some x \<longrightarrow> x \<in> insert (next_id ids e (fst sw)) (active_id sw))
     \<and> active_id sw' \<subseteq> insert (next_id ids e (fst sw)) (active_id sw)
     \<and> rows_kept (insert (next_id ids e (fst sw)) (active_id sw)) sw sw'
     \<and> (used_ids sw' = used_ids sw \<and> as_episode_ordinal (fst sw') = as_episode_ordinal (fst sw)
        \<or> used_ids sw' = insert (next_id ids e (fst sw)) (used_ids sw)
          \<and> as_episode_ordinal (fst sw') = next_ordinal ids e (fst sw))"

lemma plus_cash_0 [simp]: "plus_cash a no_cash = a"
  by (cases a) (auto simp: no_cash_def split: option.split)

lemma process_books:
  assumes ok: "state_ok (fst sw)" and fresh: "fresh_id ids e sw" and nft: "nft_event_ok e"
  obtains r where "books ids e sw (process_event ids pool e sw) r" and "fr_event_id r = ae_id e"
proof -
  obtain s w where sw: "sw = (s, w)" by (cases sw)
  define protocol where "protocol = event_protocol s e"
  have is_nft: "event_kind e = ''transfer''" if "is_transfer e protocol"
    using that nft by (auto simp: is_transfer_def protocol_def event_protocol_def text_or_def nft_event_ok_def)
  define s0 where "s0 = note_place e s"
  obtain sw1 source where m: "move_token ids e protocol (s0, w) = (sw1, source)" by fastforce
  obtain s2 w2 where l: "note_levels ids e sw1 = (s2, w2)" by fastforce
  obtain s3 fx where a: "apply_event protocol pool e s2 = (s3, fx)" by fastforce
  obtain s4 w4 where t: "settle protocol e (s3, w2) = (s4, w4)" by fastforce
  define r where "r = (if is_transfer e protocol
      then make_effect_row s4 e fx None (if source = Some Lp_Events.ZERO_ADDRESS then None else source)
      else make_effect_row s4 e fx (map_option ep_id (as_active s3)) None)"
  define s5 where "s5 = s4\<lparr>as_last := event_order e, as_last_timestamp := ae_timestamp e\<rparr>"
  have p: "process_event ids pool e (s, w) = (s5, save_effect r w4)"
    unfolding process_event_def Let_def prod.case protocol_def [symmetric] s0_def [symmetric] m l a t
      s5_def r_def by simp
  have q0: "quiet (s, w) (s0, w)" by (simp add: s0_def quiet_note_place)
  have "fresh_id ids e (s0, w)"
    using fresh q0 next_quiet [OF q0, of ids e] by (auto simp: sw fresh_id_def quiet_def)
  then have "quiet (s0, w) (s2, w2) \<or> opens ids e (s0, w) (s2, w2)"
    using entry_opens [OF _ _ is_nft m] ok l by (simp add: sw s0_def note_place_ok)
  with q0 have entry: "quiet (s, w) (s2, w2) \<or> opens ids e (s, w) (s2, w2)"
    using quiet_trans quiet_opens by blast
  have q4: "settles (s3, w2) (s4, w4)" using settle_settles [of s3 w2 protocol e] by (simp add: t)
  have q5: "cash (s5, save_effect r w4) = cash (s4, w4)" "used_ids (s5, save_effect r w4) = used_ids (s4, w4)"
    by (simp_all add: s5_def cash_def used_ids_def save_effect_def row_cash_def fun_eq_iff split: option.split)
  have r: "row_amounts r = effect_cash fx" "fr_event_id r = ae_id e"
    using row_amounts_shown [OF a] by (simp_all add: r_def)
  have episode: "fr_episode_id r = (if is_transfer e protocol then None else map_option ep_id (as_active s2))"
    using apply_event_cash(5) [OF a] by (simp add: r_def)
  have zero: "effect_cash fx = no_cash" if "is_transfer e protocol"
    using row_amounts_shown(2) [OF a is_nft [OF that]] .
  have same: "active_id (s3, w2) = active_id (s2, w2)"
    using apply_event_cash(5) [OF a] by (cases "as_active s2") (auto simp: active_id_def)
  have booked: "cash (s3, w2) x = plus_cash (cash (s, w) x) (if fr_episode_id r = Some x then row_amounts r else no_cash)" for x
    using entry apply_event_cash(1) [OF a, of w2 x] episode zero
    by (auto simp: r quiet_def opens_def)
  have rows5: "divided_row (s4, w4) x t \<Longrightarrow> divided_row (s5, save_effect r w4) x t" for x t
    by (simp add: divided_row_def q5) (simp add: s5_def active_id_def save_effect_def)
  have "cash (s4, w4) x = cash (s3, w2) x \<or> divided_row (s4, w4) x (cash (s3, w2) x)" for x
    using q4 by (simp add: settles_def)
  then have "let t = plus_cash (cash (s, w) x) (if fr_episode_id r = Some x then row_amounts r else no_cash)
      in cash (s5, save_effect r w4) x = t \<or> divided_row (s5, save_effect r w4) x t" for x
    unfolding booked [symmetric] Let_def q5(1) using rows5 by blast
  moreover have "x \<in> insert (next_id ids e s) (active_id (s, w))" if "fr_episode_id r = Some x" for x
  proof -
    have "x \<in> active_id (s2, w2)" using that episode by (auto simp: active_id_def split: if_splits)
    then show ?thesis using entry by (auto simp: quiet_def opens_def)
  qed
  moreover have "as_key s5 = as_key s" "as_version s5 = as_version s" "aw_effects (save_effect r w4) = od_set (ae_id e) r (aw_effects w)"
    using entry q4 apply_event_cash(3) [OF a] by (auto simp: s5_def save_effect_def quiet_def settles_def opens_def r)
  moreover have "used_ids (s5, save_effect r w4) = used_ids (s2, w2)"
    "as_episode_ordinal s5 = as_episode_ordinal s2"
    using q4 apply_event_cash(2,4) [OF a] unfolding q5 by (simp_all add: s5_def settles_def)
  moreover have "active_id (s5, save_effect r w4) \<subseteq> active_id (s2, w2)"
    "rows_kept (active_id (s2, w2)) (s2, w2) (s5, save_effect r w4)"
  proof -
    show "active_id (s5, save_effect r w4) \<subseteq> active_id (s2, w2)"
      using q4 same by (auto simp: settles_def s5_def active_id_def)
    show "rows_kept (active_id (s2, w2)) (s2, w2) (s5, save_effect r w4)"
      using q4 same by (simp add: settles_def rows_kept_def save_effect_def)
  qed
  moreover have "active_id (s2, w2) \<subseteq> insert (next_id ids e s) (active_id (s, w))"
    "rows_kept (insert (next_id ids e s) (active_id (s, w))) (s, w) (s2, w2)"
    using entry by (auto simp: quiet_def opens_def rows_kept_def)
  moreover have "used_ids (s2, w2) = used_ids (s, w) \<and> as_episode_ordinal s2 = as_episode_ordinal s
      \<or> used_ids (s2, w2) = insert (next_id ids e s) (used_ids (s, w)) \<and> as_episode_ordinal s2 = next_ordinal ids e s"
    using entry by (simp add: quiet_def opens_def) blast
  ultimately have "books ids e sw (process_event ids pool e sw) r"
    unfolding books_def sw p fst_conv snd_conv
    using rows_kept_trans [of "insert (next_id ids e s) (active_id (s, w))" "(s, w)" "(s2, w2)"
        "active_id (s2, w2)" "(s5, save_effect r w4)" "insert (next_id ids e s) (active_id (s, w))"]
    by simp
  with that r show thesis by blast
qed

section \<open>A run of events\<close>

text \<open>The sum of the effects that name an episode.\<close>

definition named :: "(int, effect_row) odict \<Rightarrow> string \<Rightarrow> effect_row list" where
  "named rows x = List.filter (\<lambda>r. fr_episode_id r = Some x) (map snd rows)"

definition total_of :: "(effect_row \<Rightarrow> tokens option) \<Rightarrow> (int, effect_row) odict \<Rightarrow> string \<Rightarrow> tokens" where
  "total_of amount rows x = sum_list (map (\<lambda>r. amounts_or_0 (amount r)) (named rows x))"

definition all_known :: "(int, effect_row) odict \<Rightarrow> string \<Rightarrow> bool" where
  "all_known rows x \<longleftrightarrow> list_all (\<lambda>r. fr_deposit r \<noteq> None) (named rows x)"

definition recorded :: "(int, effect_row) odict \<Rightarrow> string \<Rightarrow> book_sums" where
  "recorded rows x =
    (total_of fr_deposit rows x, total_of fr_proceeds rows x, total_of fr_fees rows x,
     if all_known rows x then Some (total_of fr_principal rows x) else None)"

lemmas recorded_defs = recorded_def total_of_def all_known_def named_def

lemma recorded_Nil [simp]: "recorded [] x = no_cash"
  by (simp add: recorded_defs no_cash_def)

lemma od_set_new: "k \<notin> set (od_keys d) \<Longrightarrow> od_set k v d = d @ [(k, v)]"
  by (induction d) (auto simp: od_keys_def)

lemma recorded_new:
  "k \<notin> set (od_keys rows) \<Longrightarrow>
   recorded (od_set k r rows) x =
     plus_cash (recorded rows x) (if fr_episode_id r = Some x then row_amounts r else no_cash)"
  by (auto simp: od_set_new recorded_defs row_amounts_def)

text \<open>
  Saved identities that a replay may use again: an identity belongs to one place of the log, and no
  ordinal beyond the last one of the state makes it.
\<close>

definition ids_ok :: "episode_ids \<Rightarrow> string \<Rightarrow> int \<Rightarrow> bool" where
  "ids_ok ids key n \<longleftrightarrow>
     (\<forall>p q a i j. map_of ids p = Some (a, i) \<and> map_of ids q = Some (a, j) \<longrightarrow> p = q)
     \<and> (\<forall>p a i k. map_of ids p = Some (a, i) \<and> n < k \<longrightarrow> a \<noteq> episode_id_of key k)"

definition future_ids :: "episode_ids \<Rightarrow> string \<Rightarrow> int \<Rightarrow> acc_event list \<Rightarrow> string set" where
  "future_ids ids key n es =
     {episode_id_of key k |k. n < k} \<union> {a. \<exists>e \<in> set es. \<exists>i. map_of ids (log_point_of e) = Some (a, i)}"

lemma episode_id_inject [simp]: "episode_id_of key m = episode_id_of key n \<longleftrightarrow> m = n"
  by (simp add: episode_id_of_def)

definition fresh_run :: "episode_ids \<Rightarrow> acc_event list \<Rightarrow> acc_ledger \<Rightarrow> bool" where
  "fresh_run ids es sw \<longleftrightarrow>
     ids_ok ids (as_key (fst sw)) (as_episode_ordinal (fst sw))
     \<and> used_ids sw \<inter> future_ids ids (as_key (fst sw)) (as_episode_ordinal (fst sw)) es = {}
     \<and> distinct (map log_point_of es) \<and> distinct (map ae_id es)
     \<and> set (map ae_id es) \<inter> set (od_keys (aw_effects (snd sw))) = {}"

lemma fresh_run_id:
  assumes "fresh_run ids (e # es) sw"
  shows "fresh_id ids e sw"
  using assms by (fastforce simp: fresh_run_def fresh_id_def next_id_def future_ids_def split: option.split)

lemma ids_ok_one: "ids_ok ids key n \<Longrightarrow> map_of ids p = Some (a, i) \<Longrightarrow> map_of ids q = Some (a, j) \<Longrightarrow> p = q"
  unfolding ids_ok_def by blast

lemma ids_ok_beyond: "ids_ok ids key n \<Longrightarrow> map_of ids p = Some (a, i) \<Longrightarrow> n < k \<Longrightarrow> a \<noteq> episode_id_of key k"
  unfolding ids_ok_def by blast

lemma ids_ok_next: "ids_ok ids key n \<Longrightarrow> n \<le> m \<Longrightarrow> ids_ok ids key m"
  using ids_ok_one [of ids key n] ids_ok_beyond [of ids key n]
  unfolding ids_ok_def [of ids key m] by (metis order_le_less_trans)

lemma next_not_future:
  assumes ids: "ids_ok ids (as_key s) (as_episode_ordinal s)" and place: "log_point_of e \<notin> log_point_of ` set es"
  shows "next_id ids e s \<notin> future_ids ids (as_key s) (next_ordinal ids e s) es"
proof (cases "map_of ids (log_point_of e)")
  case None
  then have n: "next_id ids e s = episode_id_of (as_key s) (as_episode_ordinal s + 1)"
    "next_ordinal ids e s = as_episode_ordinal s + 1"
    by (simp_all add: next_id_def next_ordinal_def)
  have "map_of ids (log_point_of f) \<noteq> Some (episode_id_of (as_key s) (as_episode_ordinal s + 1), i)" for f i
    using ids_ok_beyond [OF ids, where k = "as_episode_ordinal s + 1"] by fastforce
  then show ?thesis by (simp add: n future_ids_def)
next
  case (Some p)
  obtain a i where p: "p = (a, i)" by fastforce
  then have n: "next_id ids e s = a" "next_ordinal ids e s = as_episode_ordinal s"
    using Some by (simp_all add: next_id_def next_ordinal_def)
  have "map_of ids (log_point_of f) \<noteq> Some (a, j)" if "f \<in> set es" for f j
    using ids_ok_one [OF ids Some [unfolded p], of "log_point_of f"] place that by force
  moreover have "a \<noteq> episode_id_of (as_key s) k" if "as_episode_ordinal s < k" for k
    using ids_ok_beyond [OF ids Some [unfolded p] that] .
  ultimately show ?thesis by (auto simp: n future_ids_def)
qed

lemma future_mono: "n \<le> m \<Longrightarrow> future_ids ids key m es \<subseteq> future_ids ids key n (e # es)"
  by (auto simp: future_ids_def)

lemma books_fresh:
  assumes fresh: "fresh_run ids (e # es) sw" and b: "books ids e sw sw' r"
  shows "fresh_run ids es sw'"
proof -
  let ?key = "as_key (fst sw)" and ?n = "as_episode_ordinal (fst sw)" and ?m = "as_episode_ordinal (fst sw')"
  have old: "ids_ok ids ?key ?n" "used_ids sw \<inter> future_ids ids ?key ?n (e # es) = {}"
    and places: "log_point_of e \<notin> log_point_of ` set es"
    using fresh by (auto simp: fresh_run_def)
  have le: "?n \<le> ?m" and key: "as_key (fst sw') = ?key"
    using b by (auto simp: books_def next_ordinal_def)
  have "used_ids sw' \<inter> future_ids ids ?key ?m es = {}"
  proof (cases "used_ids sw' \<subseteq> used_ids sw")
    case True
    with old(2) future_mono [OF le, of ids ?key es e] show ?thesis by blast
  next
    case False
    then have "used_ids sw' \<subseteq> insert (next_id ids e (fst sw)) (used_ids sw)" "?m = next_ordinal ids e (fst sw)"
      using b by (auto simp: books_def)
    with next_not_future [OF old(1) places] old(2) future_mono [OF le, of ids ?key es e] show ?thesis
      by auto
  qed
  moreover have "set (map ae_id es) \<inter> set (od_keys (aw_effects (snd sw'))) = {}"
    using fresh b by (auto simp: fresh_run_def books_def set_od_keys dict_simps)
  ultimately show ?thesis
    using fresh ids_ok_next [OF old(1) le] by (simp add: fresh_run_def key)
qed

definition balanced :: "acc_ledger \<Rightarrow> bool" where
  "balanced sw \<longleftrightarrow>
     (\<forall>x. cash sw x = recorded (aw_effects (snd sw)) x \<or> divided_row sw x (recorded (aw_effects (snd sw)) x))"

lemma balancedD: "balanced sw \<Longrightarrow>
    cash sw x = recorded (aw_effects (snd sw)) x \<or> divided_row sw x (recorded (aw_effects (snd sw)) x)"
  by (simp add: balanced_def)

lemma books_balanced:
  assumes b: "books ids e sw sw' r" and fresh: "fresh_id ids e sw" and bal: "balanced sw"
    and new: "ae_id e \<notin> set (od_keys (aw_effects (snd sw)))"
  shows "balanced sw'"
  unfolding balanced_def
proof
  fix x
  let ?sum = "if fr_episode_id r = Some x then row_amounts r else no_cash"
  have rec: "recorded (aw_effects (snd sw')) x = plus_cash (recorded (aw_effects (snd sw)) x) ?sum"
    using b new by (simp add: books_def recorded_new)
  have step: "cash sw' x = plus_cash (cash sw x) ?sum \<or> divided_row sw' x (plus_cash (cash sw x) ?sum)"
    using b by (simp add: books_def Let_def)
  from bal have "cash sw x = recorded (aw_effects (snd sw)) x \<or> divided_row sw x (recorded (aw_effects (snd sw)) x)"
    by (rule balancedD)
  then show "cash sw' x = recorded (aw_effects (snd sw')) x \<or> divided_row sw' x (recorded (aw_effects (snd sw')) x)"
  proof
    assume "cash sw x = recorded (aw_effects (snd sw)) x"
    with step rec show ?thesis by simp
  next
    assume d: "divided_row sw x (recorded (aw_effects (snd sw)) x)"
    have "x \<in> used_ids sw" using d by (simp add: divided_row_def used_ids_def)
    then have x: "x \<notin> insert (next_id ids e (fst sw)) (active_id sw)"
      using d fresh by (auto simp: divided_row_def fresh_id_def)
    have none: "fr_episode_id r \<noteq> Some x" using b x by (auto simp: books_def)
    have x': "x \<notin> active_id sw'" using b x by (auto simp: books_def)
    have row: "map_of (aw_episodes (snd sw')) x = map_of (aw_episodes (snd sw)) x"
      using b x by (simp add: books_def rows_kept_def)
    have "cash sw' x = cash sw x"
      using x x' row by (auto simp: cash_def row_cash_def active_id_def split: option.split)
    with d x' row rec none show ?thesis by (simp add: divided_row_def set_od_keys domIff)
  qed
qed

lemma run_balanced:
  assumes "state_ok (fst sw)" and "fresh_run ids (es @ fs) sw" and "\<forall>e \<in> set es. nft_event_ok e" and "balanced sw"
  shows "balanced (run_events ids pools es sw) \<and> fresh_run ids fs (run_events ids pools es sw)"
  using assms
proof (induction es arbitrary: sw)
  case Nil
  then show ?case by (simp add: run_events_def)
next
  case (Cons e es)
  define sw' where "sw' = replay_step ids pools e sw"
  have fresh: "fresh_run ids (e # es @ fs) sw" using Cons.prems(2) by simp
  obtain r where b: "books ids e sw sw' r"
    using process_books [OF Cons.prems(1) fresh_run_id [OF fresh]] Cons.prems(3)
    unfolding sw'_def replay_step_def by (metis list.set_intros(1))
  have "ae_id e \<notin> set (od_keys (aw_effects (snd sw)))"
    using fresh by (auto simp: fresh_run_def)
  from books_balanced [OF b fresh_run_id [OF fresh] Cons.prems(4) this] have "balanced sw'" .
  moreover have "state_ok (fst sw')"
    using process_event_ok Cons.prems(1) by (simp add: sw'_def replay_step_def)
  moreover have "fresh_run ids (es @ fs) sw'" using books_fresh [OF fresh b] .
  ultimately show ?case
    using Cons.IH [of sw'] Cons.prems(3) by (simp add: run_events_def sw'_def)
qed

section \<open>A replay from the start\<close>

lemma put_flag_frame [simp]:
  "log_point_of (put_flag n e) = log_point_of e" "ae_id (put_flag n e) = ae_id e"
  "nft_event_ok (put_flag n e) = nft_event_ok e"
  by (simp_all add: put_flag_def log_point_of_def nft_event_ok_def event_kind_def)

text \<open>What the preparation of the events leaves alone.\<close>

definition event_stub :: "acc_event \<Rightarrow> acc_event" where
  "event_stub e = e\<lparr>ae_data := []\<rparr>"

lemma stub_frame:
  "event_stub e = event_stub f \<Longrightarrow> log_point_of e = log_point_of f \<and> ae_id e = ae_id f \<and> nft_event_ok e = nft_event_ok f"
proof -
  assume "event_stub e = event_stub f"
  moreover have "log_point_of (event_stub g) = log_point_of g" "ae_id (event_stub g) = ae_id g"
    "nft_event_ok (event_stub g) = nft_event_ok g" for g
    by (simp_all add: event_stub_def log_point_of_def nft_event_ok_def event_kind_def)
  ultimately show ?thesis by metis
qed

lemma flag_at_stubs [simp]: "map event_stub (flag_at n j es) = map event_stub es"
proof (cases j)
  case None
  then show ?thesis by (simp add: flag_at_def)
next
  case (Some i)
  have "event_stub (put_flag n e) = event_stub e" for e
    by (simp add: event_stub_def put_flag_def)
  with Some show ?thesis
    by (cases "i < length es") (simp_all add: flag_at_def map_update list_update_same_conv list_update_beyond)
qed

lemma mark_event_stubs [simp]: "map event_stub (bm_events (mark_event i m)) = map event_stub (bm_events m)"
  by (simp add: mark_event_def mark_transfer_def Let_def)

lemma mark_boundaries_stubs: "map event_stub (mark_boundaries es) = map event_stub es"
proof -
  have "map event_stub (bm_events (fold mark_event ns m)) = map event_stub (bm_events m)" for ns m
    by (induction ns arbitrary: m) simp_all
  then show ?thesis by (simp add: mark_boundaries_def no_marks_def)
qed

lemma length_marked [simp]: "length (mark_boundaries es) = length es"
  using arg_cong [OF mark_boundaries_stubs, of length] by simp

lemma prepare_stubs: "map event_stub (prepare_events es) = map event_stub es"
proof -
  have "event_stub (edge_event es i e) = event_stub e" for i e
    by (simp add: edge_event_def event_stub_def Let_def)
  then have "map event_stub (prepare_events es) = map event_stub (mark_boundaries es)"
    by (intro nth_equalityI) (simp_all add: prepare_events_def Let_def)
  then show ?thesis by (simp add: mark_boundaries_stubs)
qed

lemma map_by_stub:
  assumes stubs: "map event_stub es = map event_stub fs"
    and same: "\<And>e f. event_stub e = event_stub f \<Longrightarrow> g e = g f"
  shows "map g es = map g fs"
proof (rule nth_equalityI)
  show "length (map g es) = length (map g fs)"
    using arg_cong [OF stubs, of length] by simp
  fix i assume "i < length (map g es)"
  moreover from this have "event_stub (es ! i) = event_stub (fs ! i)"
    using arg_cong [OF stubs, of "\<lambda>xs. xs ! i"] arg_cong [OF stubs, of length] by simp
  ultimately show "map g es ! i = map g fs ! i"
    using same [of "es ! i" "fs ! i"] arg_cong [OF stubs, of length] by simp
qed

lemma prepare_frame:
  "map log_point_of (prepare_events es) = map log_point_of es"
  "map ae_id (prepare_events es) = map ae_id es"
  "map nft_event_ok (prepare_events es) = map nft_event_ok es"
proof -
  show "map log_point_of (prepare_events es) = map log_point_of es"
    by (rule map_by_stub [OF prepare_stubs]) (rule conjunct1 [OF stub_frame])
  show "map ae_id (prepare_events es) = map ae_id es"
    by (rule map_by_stub [OF prepare_stubs]) (rule conjunct1 [OF conjunct2 [OF stub_frame]])
  show "map nft_event_ok (prepare_events es) = map nft_event_ok es"
    by (rule map_by_stub [OF prepare_stubs]) (rule conjunct2 [OF conjunct2 [OF stub_frame]])
qed

text \<open>
  What the tables say of saved episodes: every identity is the text of its ordinal, an ordinal
  belongs to one place, and the stored highest ordinal bounds those of the saved replay.
\<close>

definition saved_ok :: "string \<Rightarrow> saved_ids \<Rightarrow> bool" where
  "saved_ok key sv \<longleftrightarrow>
     (let rows = (case sv_replay sv of None \<Rightarrow> [] | Some (m, rs) \<Rightarrow> rs) @ sv_episodes sv
      in list_all (\<lambda>(a, n, p). a = episode_id_of key n) rows
         \<and> list_all (\<lambda>(a, n, p). list_all (\<lambda>(b, m, q). n \<noteq> m \<or> p = q) rows) rows
         \<and> (case sv_replay sv of None \<Rightarrow> True | Some (m, rs) \<Rightarrow> list_all (\<lambda>(a, n, p). n \<le> m) rs))"

lemma put_ids_entry:
  "map_of (put_ids rows ids) p = Some (a, n) \<Longrightarrow> (a, n, p) \<in> set rows \<or> map_of ids p = Some (a, n)"
proof (induction rows arbitrary: ids)
  case Nil
  then show ?case by (simp add: put_ids_def)
next
  case (Cons r rows)
  obtain b m q where r: "r = (b, m, q)" by (cases r)
  have "put_ids (r # rows) ids = put_ids rows (od_set q (b, m) ids)"
    by (simp add: put_ids_def r)
  with Cons show ?case
    by (fastforce simp: r dict_simps split: if_splits)
qed

lemma fold_max: "n \<le> fold (\<lambda>(a, m, p) k. max k m) rows (n :: int)"
proof (induction rows arbitrary: n)
  case (Cons r rows)
  obtain a m p where r: "r = (a, m, p)" by (cases r)
  from Cons.IH [of "max n m"] show ?case by (simp add: r)
qed simp

lemma fold_max_elem: "(a, m, p) \<in> set rows \<Longrightarrow> m \<le> fold (\<lambda>(a, m, p) k. max k m) rows (n :: int)"
proof (induction rows arbitrary: n)
  case (Cons r rows)
  then show ?case
    using fold_max [of "max n m" rows] by (cases r) auto
qed simp

lemma restore_form:
  assumes "restore_ids sv s = (ids, t)"
  obtains k where "t = s\<lparr>as_episode_ordinal := fold (\<lambda>(a, m, p) k. max k m) (sv_episodes sv) k\<rparr>"
    and "\<And>m rs. sv_replay sv = Some (m, rs) \<Longrightarrow> m \<le> k"
    and "ids = put_ids (sv_episodes sv) (case sv_replay sv of None \<Rightarrow> [] | Some (m, rs) \<Rightarrow> put_ids rs [])"
proof -
  define n where "n = (case sv_position sv of None \<Rightarrow> as_episode_ordinal s | Some m \<Rightarrow> max (as_episode_ordinal s) m)"
  show thesis
  proof (cases "sv_replay sv")
    case None
    then show ?thesis
      using that [of n] assms unfolding restore_ids_def Let_def n_def [symmetric] by simp
  next
    case (Some p)
    obtain m rs where p: "p = (m, rs)" by (cases p)
    show ?thesis
      using that [of "max n m"] assms Some p unfolding restore_ids_def Let_def n_def [symmetric] by simp
  qed
qed

lemma restored_ids_ok:
  assumes "restore_ids sv s = (ids, t)" and ok: "saved_ok key sv"
  shows "ids_ok ids key (as_episode_ordinal t)"
proof -
  define rows where "rows = (case sv_replay sv of None \<Rightarrow> [] | Some (m, rs) \<Rightarrow> rs) @ sv_episodes sv"
  obtain k where t: "t = s\<lparr>as_episode_ordinal := fold (\<lambda>(a, m, p) k. max k m) (sv_episodes sv) k\<rparr>"
    and k: "\<And>m rs. sv_replay sv = Some (m, rs) \<Longrightarrow> m \<le> k"
    and ids: "ids = put_ids (sv_episodes sv) (case sv_replay sv of None \<Rightarrow> [] | Some (m, rs) \<Rightarrow> put_ids rs [])"
    using restore_form [OF assms(1)] by metis
  have entry: "(a, n, p) \<in> set rows" if "map_of ids p = Some (a, n)" for a n p
    using put_ids_entry [OF that [unfolded ids]] put_ids_entry [of _ "[]" p a n]
    by (auto simp: rows_def split: option.splits)
  have below: "n \<le> as_episode_ordinal t" if row: "(a, n, p) \<in> set rows" for a n p
  proof (cases "(a, n, p) \<in> set (sv_episodes sv)")
    case True
    then show ?thesis using fold_max_elem by (simp add: t)
  next
    case False
    then obtain m rs where rs: "sv_replay sv = Some (m, rs)" "(a, n, p) \<in> set rs"
      using row by (cases "sv_replay sv") (auto simp: rows_def)
    then have "n \<le> m" using ok by (auto simp: saved_ok_def list_all_iff)
    also have "m \<le> k" using k rs(1) .
    also have "k \<le> as_episode_ordinal t" using fold_max by (simp add: t)
    finally show ?thesis .
  qed
  have named: "a = episode_id_of key n" if "(a, n, p) \<in> set rows" for a n p
    using ok that by (auto simp: saved_ok_def rows_def [symmetric] Let_def list_all_iff)
  have place: "p = q" if "(a, n, p) \<in> set rows" "(b, n, q) \<in> set rows" for a b n p q
    using ok that by (fastforce simp: saved_ok_def rows_def [symmetric] Let_def list_all_iff)
  show ?thesis
    unfolding ids_ok_def
  proof (intro conjI allI impI)
    fix p q a i j assume "map_of ids p = Some (a, i) \<and> map_of ids q = Some (a, j)"
    then have "(a, i, p) \<in> set rows" "(a, j, q) \<in> set rows" using entry by blast+
    moreover from this have "i = j" using named episode_id_inject by metis
    ultimately show "p = q" using place by blast
  next
    fix p a i k assume "map_of ids p = Some (a, i) \<and> as_episode_ordinal t < k"
    then have "(a, i, p) \<in> set rows" "as_episode_ordinal t < k" using entry by blast+
    then show "a \<noteq> episode_id_of key k" using named below episode_id_inject by (metis linorder_not_less)
  qed
qed

definition log_ok :: "acc_event list \<Rightarrow> bool" where
  "log_ok es \<longleftrightarrow> distinct (map log_point_of es) \<and> distinct (map ae_id es) \<and> list_all nft_event_ok es"

lemma cash_save_run: "cash (save_run sw) x = cash sw x" "aw_effects (snd (save_run sw)) = aw_effects (snd sw)"
proof -
  obtain s w where sw: "sw = (s, w)" by (cases sw)
  have "cash (s, save_position s v) = cash (s, v)" "aw_effects (save_position s v) = aw_effects v" for v
    by (simp_all add: save_position_def cash_def row_cash_def fun_eq_iff split: option.split)
  moreover have "cash (s, save_episode a w) = cash (s, w)" if "as_active s = Some a" for a
    using quiet_save_active [OF that refl refl] by (simp add: quiet_def)
  ultimately show "cash (save_run sw) x = cash sw x" "aw_effects (snd (save_run sw)) = aw_effects (snd sw)"
    by (simp_all add: save_run_def sw split: option.split)
qed

text \<open>After the last save the rows hold what the active episode holds.\<close>

lemma saved_cash: "row_cash (snd (save_run sw)) x = cash sw x"
proof -
  obtain s w where sw: "sw = (s, w)" by (cases sw)
  have "row_cash (save_position s v) x = row_cash v x" for v
    by (simp add: save_position_def row_cash_def)
  then show ?thesis
    by (simp add: save_run_def sw cash_def row_cash_save split: option.split)
qed

lemma derive_from_start:
  assumes "saved_ok key sv"
  obtains ids s where "derive pools key (Some sv) es None = save_run (run_events ids pools (prepare_events es) (s, no_writes))"
    and "ids_ok ids key (as_episode_ordinal s)" and "state_ok s" and "as_key s = key" and "as_active s = None"
proof -
  obtain ids s where r: "restore_ids sv (new_state key (hd es)) = (ids, s)" by fastforce
  obtain k where "s = (new_state key (hd es))\<lparr>as_episode_ordinal := k\<rparr>"
    using restore_form [OF r] by metis
  then have "as_key s = key" "as_active s = None"
    by (simp_all add: new_state_def)
  moreover have "state_ok s" using restore_ids_ok [OF new_state_ok, of sv key "hd es"] by (simp add: r)
  ultimately show thesis
    using that [of ids s] restored_ids_ok [OF r assms] by (simp add: derive_def r)
qed

text \<open>
  The rows after the last save: that of the active episode holds its sums, and those of the other
  episodes are the rows of the run.
\<close>

lemma saved_rows:
  "map_of (aw_episodes (snd (save_run sw))) x =
    (case as_active (fst sw) of
       Some a \<Rightarrow> if ep_id a = x then Some (episode_row a) else map_of (aw_episodes (snd sw)) x
     | None \<Rightarrow> map_of (aw_episodes (snd sw)) x)"
proof -
  obtain s w where sw: "sw = (s, w)" by (cases sw)
  show ?thesis by (auto simp: save_run_def sw save_position_def save_episode_rows Let_def split: option.split)
qed

lemma saved_balance:
  assumes "balanced sw"
  shows "row_cash (snd (save_run sw)) x = recorded (aw_effects (snd sw)) x \<or>
    undivided (row_cash (snd (save_run sw)) x) = undivided (recorded (aw_effects (snd sw)) x) \<and>
    (\<exists>row. map_of (aw_episodes (snd (save_run sw))) x = Some row \<and> divided (er_facts row))"
proof -
  have "map_of (aw_episodes (snd (save_run sw))) x = map_of (aw_episodes (snd sw)) x" if "x \<notin> active_id sw"
    using that by (auto simp: saved_rows active_id_def split: option.split)
  then show ?thesis
    using balancedD [OF assms, of x] by (auto simp: saved_cash divided_row_def set_od_keys)
qed

text \<open>
  C34. The books balance: after a replay of all events, the deposits and the proceeds in the row of
  every episode are the sums of those of the effects that name the episode, and the row says that
  all its cash flows are known exactly when those of these effects are. So are its fees and, when
  all cash flows are known, its principal, unless the episode is complete with its whole history and
  never transferred or entered again: then its proceeds may have been divided anew, and principal and
  fees together are the proceeds. An episode without a row has no effect that moves anything.
\<close>

theorem episode_totals_sum:
  assumes "saved_ok key sv" and "log_ok es" and "derive pools key (Some sv) es None = (s, w)"
  shows "(\<forall>row. map_of (aw_episodes w) x = Some row \<longrightarrow>
      (let a = er_facts row; rows = aw_effects w in
       ep_deposit a = total_of fr_deposit rows x \<and> ep_proceeds a = total_of fr_proceeds rows x \<and>
       ep_cashflow_complete a = all_known rows x \<and>
       (ep_fees a = total_of fr_fees rows x \<and> (all_known rows x \<longrightarrow> ep_principal a = total_of fr_principal rows x)
        \<or> ep_principal a + ep_fees a = ep_proceeds a \<and> ep_status a = EpComplete \<and> ep_history_complete a
          \<and> \<not> ep_transferred_basis a \<and> \<not> ep_ambiguous_reentry a))) \<and>
    (map_of (aw_episodes w) x = None \<longrightarrow> recorded (aw_effects w) x = (0, 0, 0, Some 0))"
proof -
  obtain ids s0 where d: "derive pools key (Some sv) es None = save_run (run_events ids pools (prepare_events es) (s0, no_writes))"
    and s: "ids_ok ids key (as_episode_ordinal s0)" "state_ok s0" "as_key s0 = key" "as_active s0 = None"
    using derive_from_start [OF assms(1)] by metis
  let ?sw = "run_events ids pools (prepare_events es) (s0, no_writes)"
  have "fresh_run ids (prepare_events es) (s0, no_writes)"
    using s assms(2) by (simp add: fresh_run_def log_ok_def prepare_frame used_ids_def no_writes_def od_keys_def)
  moreover have "\<forall>e \<in> set (prepare_events es). nft_event_ok e"
    using arg_cong [OF prepare_frame(3) [of es], of set] assms(2)
    by (auto simp: log_ok_def list_all_iff image_iff)
  moreover have "balanced (s0, no_writes)"
    using s by (simp add: balanced_def cash_def row_cash_def no_writes_def)
  ultimately have bal: "balanced ?sw"
    using run_balanced [where fs = "[]"] s(2) by (metis append_Nil2 fst_conv)
  have w: "w = snd (save_run ?sw)" "aw_effects w = aw_effects (snd ?sw)"
    using d assms(3) cash_save_run(2) [of ?sw] by (metis snd_conv)+
  have "row_cash w x = recorded (aw_effects w) x \<or>
    undivided (row_cash w x) = undivided (recorded (aw_effects w) x) \<and>
    (\<exists>row. map_of (aw_episodes w) x = Some row \<and> divided (er_facts row))"
    using saved_balance [OF bal, of x] unfolding w(2) by (simp add: w(1))
  then show ?thesis
    by (cases "map_of (aw_episodes w) x")
      (auto simp: row_cash_def cash_in_def recorded_def divided_def no_cash_def Let_def split: if_splits)
qed

end
