(* ===== verification/Acc_History.thy ===== *)
theory Acc_History
  imports Acc_Totals
begin

text \<open>
  The history of a position is only added to: the row of an episode that is no longer active never
  changes, and an append to the stored state writes what a replay of every event would write.
\<close>

section \<open>Closed episodes\<close>

lemma next_not_used: "fresh_run ids (e # es) sw \<Longrightarrow> next_id ids e (fst sw) \<notin> used_ids sw"
  using fresh_run_id by (simp add: fresh_id_def)

lemma books_closed:
  assumes "books ids e sw sw' r" and "next_id ids e (fst sw) \<notin> used_ids sw"
    and "x \<notin> active_id sw" and "map_of (aw_episodes (snd sw)) x = Some row"
  shows "x \<notin> active_id sw' \<and> map_of (aw_episodes (snd sw')) x = Some row"
proof -
  have "x \<in> used_ids sw" using assms(4) by (auto simp: used_ids_def set_od_keys)
  with assms(2) have "x \<noteq> next_id ids e (fst sw)" by blast
  with assms show ?thesis by (auto simp: books_def rows_kept_def)
qed

lemma run_closed:
  assumes "state_ok (fst sw)" and "fresh_run ids es sw" and "\<forall>e \<in> set es. nft_event_ok e"
    and "x \<notin> active_id sw" and "map_of (aw_episodes (snd sw)) x = Some row"
  shows "x \<notin> active_id (run_events ids pools es sw)
    \<and> map_of (aw_episodes (snd (run_events ids pools es sw))) x = Some row"
  using assms
proof (induction es arbitrary: sw)
  case Nil
  then show ?case by (simp add: run_events_def)
next
  case (Cons e es)
  define sw' where "sw' = replay_step ids pools e sw"
  obtain r where b: "books ids e sw sw' r"
    using process_books [OF Cons.prems(1) fresh_run_id [OF Cons.prems(2)]] Cons.prems(3)
    unfolding sw'_def replay_step_def by (metis list.set_intros(1))
  have "state_ok (fst sw')"
    using process_event_ok Cons.prems(1) by (simp add: sw'_def replay_step_def)
  then show ?case
    using Cons.IH [of sw'] books_fresh [OF Cons.prems(2) b] Cons.prems(3)
      books_closed [OF b next_not_used [OF Cons.prems(2)] Cons.prems(4,5)]
    by (simp add: run_events_def sw'_def)
qed

lemma run_used:
  assumes "state_ok (fst sw)" and "fresh_run ids es sw" and "\<forall>e \<in> set es. nft_event_ok e"
  shows "used_ids sw \<subseteq> used_ids (run_events ids pools es sw)"
  using assms
proof (induction es arbitrary: sw)
  case Nil
  then show ?case by (simp add: run_events_def)
next
  case (Cons e es)
  define sw' where "sw' = replay_step ids pools e sw"
  obtain r where b: "books ids e sw sw' r"
    using process_books [OF Cons.prems(1) fresh_run_id [OF Cons.prems(2)]] Cons.prems(3)
    unfolding sw'_def replay_step_def by (metis list.set_intros(1))
  have "state_ok (fst sw')"
    using process_event_ok Cons.prems(1) by (simp add: sw'_def replay_step_def)
  then have "used_ids sw' \<subseteq> used_ids (run_events ids pools (e # es) sw)"
    using Cons.IH [of sw'] books_fresh [OF Cons.prems(2) b] Cons.prems(3)
    by (simp add: run_events_def sw'_def)
  moreover have "used_ids sw \<subseteq> used_ids sw'"
    using b by (auto simp: books_def)
  ultimately show ?case by blast
qed

section \<open>Writing is appending\<close>

text \<open>Rows written on top of others: the later row of a key counts.\<close>

definition same_rows :: "acc_writes \<Rightarrow> acc_writes \<Rightarrow> bool" where
  "same_rows u v \<longleftrightarrow>
     map_of (aw_ownership u) = map_of (aw_ownership v) \<and> map_of (aw_episodes u) = map_of (aw_episodes v)
     \<and> map_of (aw_effects u) = map_of (aw_effects v) \<and> map_of (aw_positions u) = map_of (aw_positions v)"

definition rows_over :: "acc_writes \<Rightarrow> acc_writes \<Rightarrow> acc_writes \<Rightarrow> bool" where
  "rows_over u v w \<longleftrightarrow>
     map_of (aw_ownership w) = map_of (aw_ownership u) ++ map_of (aw_ownership v)
     \<and> map_of (aw_episodes w) = map_of (aw_episodes u) ++ map_of (aw_episodes v)
     \<and> map_of (aw_effects w) = map_of (aw_effects u) ++ map_of (aw_effects v)
     \<and> map_of (aw_positions w) = map_of (aw_positions u) ++ map_of (aw_positions v)"

definition writer :: "(acc_writes \<Rightarrow> acc_writes) \<Rightarrow> bool" where
  "writer h \<longleftrightarrow> (\<forall>w. rows_over w (h no_writes) (h w) \<and> (filed_writes w \<longrightarrow> filed_writes (h w)))"

named_theorems emit_rules "how the stages of an event write"

lemma writer_id [emit_rules]: "writer (\<lambda>w. w)"
  by (simp add: writer_def rows_over_def no_writes_def)

lemma writer_comp:
  assumes "writer g" and "writer h" shows "writer (\<lambda>w. h (g w))"
proof -
  have "rows_over w (h (g no_writes)) (h (g w))" for w
    using assms(1) [unfolded writer_def rows_over_def, rule_format, of w]
      assms(2) [unfolded writer_def rows_over_def, rule_format, of "g w"]
      assms(2) [unfolded writer_def rows_over_def, rule_format, of "g no_writes"]
    by (simp add: rows_over_def)
  then show ?thesis using assms by (simp add: writer_def)
qed

lemma writer_save [emit_rules]:
  assumes "writer h"
  shows "writer (\<lambda>w. save_ownership i (h w))" "writer (\<lambda>w. save_episode a (h w))"
    "writer (\<lambda>w. save_effect r (h w))" "writer (\<lambda>w. save_position s (h w))"
proof -
  have "writer (save_ownership i)" "writer (save_episode a)" "writer (save_effect r)" "writer (save_position s)"
    unfolding writer_def
    by (simp_all add: save_filed)
      (simp_all add: rows_over_def no_writes_def save_ownership_def save_episode_def save_effect_def
        save_position_def dict_simps)
  then show "writer (\<lambda>w. save_ownership i (h w))" "writer (\<lambda>w. save_episode a (h w))"
    "writer (\<lambda>w. save_effect r (h w))" "writer (\<lambda>w. save_position s (h w))"
    using writer_comp [OF assms] by blast+
qed

lemma writer_if [emit_rules]: "writer g \<Longrightarrow> writer h \<Longrightarrow> writer (\<lambda>w. if b then g w else h w)"
  by (cases b) simp_all

lemma writer_option [emit_rules]:
  "writer g \<Longrightarrow> (\<And>a. writer (h a)) \<Longrightarrow> writer (\<lambda>w. case x of None \<Rightarrow> g w | Some a \<Rightarrow> h a w)"
  by (cases x) simp_all

text \<open>
  A stage at a given state: the next state does not depend on the rows written before, and its rows
  add to them.
\<close>

definition emits :: "(acc_writes \<Rightarrow> acc_ledger) \<Rightarrow> bool" where
  "emits f \<longleftrightarrow> (\<exists>t h. writer h \<and> (\<forall>w. f w = (t, h w)))"

lemma emits_pair [emit_rules]: "writer h \<Longrightarrow> emits (\<lambda>w. (t, h w))"
  by (auto simp: emits_def)

lemma emits_if [emit_rules]: "emits f \<Longrightarrow> emits g \<Longrightarrow> emits (\<lambda>w. if b then f w else g w)"
  by (cases b) simp_all

lemma emits_option [emit_rules]:
  "emits f \<Longrightarrow> (\<And>a. emits (g a)) \<Longrightarrow> emits (\<lambda>w. case x of None \<Rightarrow> f w | Some a \<Rightarrow> g a w)"
  by (cases x) simp_all

lemma emits_prod [emit_rules]:
  "(\<And>a b. emits (g a b)) \<Longrightarrow> emits (\<lambda>w. case p of (a, b) \<Rightarrow> g a b w)"
  by (cases p) simp

lemma emits_then:
  assumes "emits f" and "\<And>t. emits (\<lambda>w. g (t, w))" shows "emits (\<lambda>w. g (f w))"
proof -
  obtain t h where f: "writer h" "\<And>w. f w = (t, h w)" using assms(1) unfolding emits_def by blast
  obtain u k where g: "writer k" "\<And>w. g (t, w) = (u, k w)" using assms(2) [of t] unfolding emits_def by blast
  from writer_comp [OF f(1) g(1)] show ?thesis
    by (auto simp: emits_def f(2) g(2))
qed

lemma emits_bind:
  assumes "emits f" and "\<And>t. emits (g t)" shows "emits (\<lambda>w. case f w of (t, v) \<Rightarrow> g t v)"
  using emits_then [of f "\<lambda>(t, v). g t v"] assms by simp

section \<open>The stages write\<close>

lemma emits_end_ownership: "emits (\<lambda>w. end_ownership e source target (s, w))"
  unfolding end_ownership_def Let_def prod.case by (intro emit_rules)

lemma emits_end_episode: "emits (\<lambda>w. end_episode e source target (s, w))"
  unfolding end_episode_def Let_def prod.case by (intro emit_rules)

lemma emits_start_ownership: "emits (\<lambda>w. start_ownership ids e source owner regular (s, w))"
  unfolding start_ownership_def Let_def prod.case by (intro emit_rules)

lemma emits_receive: "emits (\<lambda>w. receive_position ids e source owner s0 (s, w))"
  unfolding receive_position_def Let_def prod.case by (intro emit_rules emits_start_ownership)

lemma emits_lose: "emits (\<lambda>w. lose_position source (s, w))"
  unfolding lose_position_def Let_def prod.case by (intro emit_rules)

lemma emits_transfer: "emits (\<lambda>w. fst (process_transfer ids e (s, w)))"
proof -
  obtain source tgt where p: "transfer_parties e = (source, tgt)" by fastforce
  define target where "target = (if tgt = Some Lp_Events.ZERO_ADDRESS then None else tgt)"
  have ended: "emits (\<lambda>w. end_episode e source target (end_ownership e source target (s, w)))"
    by (rule emits_then [OF emits_end_ownership emits_end_episode])
  show ?thesis
    unfolding process_transfer_def p Let_def prod.case target_def [symmetric] fst_conv
    by (intro emit_rules emits_then [OF ended] emits_receive emits_lose)
qed

lemma emits_observe: "emits (\<lambda>w. observe_ownership e owner basis (s, w))"
  unfolding observe_ownership_def Let_def prod.case by (intro emit_rules)

lemma emits_identity: "emits (\<lambda>w. update_identity e (s, w))"
  unfolding update_identity_def Let_def prod.case by (intro emit_rules emits_observe)

lemma emits_note_zero: "emits (\<lambda>w. note_zero e (s, w))"
  unfolding note_zero_def Let_def prod.case by (intro emits_bind emit_rules)

lemma emits_begin: "emits (\<lambda>w. begin_episode ids e z p (s, w))"
  unfolding begin_episode_def Let_def prod.case by (intro emit_rules)

lemma emits_enter: "emits (\<lambda>w. enter_episode ids e before z p (s, w))"
  unfolding enter_episode_def fst_conv snd_conv by (intro emit_rules emits_begin)

lemma emits_levels: "emits (\<lambda>w. note_levels ids e (s, w))"
proof -
  have "emits (\<lambda>w. if zero_proven s e then note_zero e (note_liquidity e s, w) else (note_liquidity e s, w))"
    by (intro emit_rules emits_note_zero)
  from emits_then [OF this emits_enter] show ?thesis
    unfolding note_levels_def Let_def prod.case .
qed

lemma emits_settle: "emits (\<lambda>w. settle protocol e (s, w))"
  unfolding settle_def Let_def prod.case by (intro emit_rules)

text \<open>The source of a transfer is read from the event.\<close>

lemma move_token_source: "snd (move_token ids e protocol (s, w)) =
    (if is_transfer e protocol then fst (transfer_parties e) else None)"
  by (simp add: move_token_def process_transfer_def Let_def split: prod.split)

lemma emits_move: "emits (\<lambda>w. fst (move_token ids e protocol (s, w)))"
  unfolding move_token_def by (simp add: if_distrib [of fst] emits_if emits_transfer emits_identity)

lemma emits_event: "emits (\<lambda>w. process_event ids pool e (s, w))"
proof -
  define protocol where "protocol = event_protocol s e"
  define source where "source = (if is_transfer e protocol then fst (transfer_parties e) else None)"
  have moved: "move_token ids e protocol (note_place e s, w) =
      (fst (move_token ids e protocol (note_place e s, w)), source)" for w
    using move_token_source [of ids e protocol "note_place e s" w]
    by (metis prod.collapse source_def)
  have step: "process_event ids pool e (s, w) =
     (case note_levels ids e (fst (move_token ids e protocol (note_place e s, w))) of (s, w) \<Rightarrow>
      case apply_event protocol pool e s of (s, fx) \<Rightarrow>
      case settle protocol e (s, w) of (t, w) \<Rightarrow>
       (t\<lparr>as_last := event_order e, as_last_timestamp := ae_timestamp e\<rparr>,
        save_effect
          (if is_transfer e protocol
           then make_effect_row t e fx None (if source = Some Lp_Events.ZERO_ADDRESS then None else source)
           else make_effect_row t e fx (map_option ep_id (as_active s)) None) w))" for w
    unfolding process_event_def Let_def prod.case protocol_def [symmetric]
    by (subst moved) (simp only: prod.case)
  show ?thesis
    unfolding step
    by (intro emits_bind emits_then [OF emits_move] emits_levels emits_prod emits_settle emit_rules)
qed

lemma run_emits: "emits (\<lambda>w. run_events ids pools es (s, w))"
proof (induction es arbitrary: s)
  case Nil
  show ?case unfolding run_events_def fold_simps id_apply by (intro emit_rules)
next
  case (Cons e es)
  have "emits (\<lambda>w. replay_step ids pools e (s, w))"
    unfolding replay_step_def fst_conv by (rule emits_event)
  from emits_then [OF this Cons.IH] show ?case
    by (simp add: run_events_def)
qed

text \<open>A run on top of other rows: the same state, and its rows over the others.\<close>

lemma emits_over:
  assumes "emits f" and "f no_writes = (t, v)"
  shows "fst (f w) = t \<and> rows_over w v (snd (f w))"
  using assms by (auto simp: emits_def writer_def)

lemma emits_save_run: "emits (\<lambda>w. save_run (s, w))"
  unfolding save_run_def Let_def prod.case by (intro emit_rules)

section \<open>Identities that no event of a run uses\<close>

lemma new_episode_no_id:
  "map_of ids (log_point_of e) = None \<Longrightarrow> new_episode ids s e whole t = new_episode [] s e whole t"
  by (simp add: new_episode_def)

lemma event_no_id:
  assumes none: "map_of ids (log_point_of e) = None"
  shows "process_event ids pool e sw = process_event [] pool e sw"
proof -
  note new = new_episode_no_id [OF none]
  have start: "start_ownership ids e source owner regular sw = start_ownership [] e source owner regular sw"
    for source owner regular sw by (simp only: start_ownership_def new)
  have "receive_position ids e source owner s0 sw = receive_position [] e source owner s0 sw"
    for source owner s0 sw by (simp only: receive_position_def start)
  then have transfer: "process_transfer ids e sw = process_transfer [] e sw" for sw
    by (simp only: process_transfer_def)
  have move: "move_token ids e protocol sw = move_token [] e protocol sw" for protocol sw
    by (simp only: move_token_def transfer)
  have starts: "begin_episode ids e z p sw = begin_episode [] e z p sw" for z p sw
    by (simp only: begin_episode_def new)
  have partial: "partial_episode ids e s = partial_episode [] e s" for s
    by (simp only: partial_episode_def new)
  have levels: "note_levels ids e sw = note_levels [] e sw" for sw
    by (simp only: note_levels_def enter_episode_def starts partial)
  show ?thesis by (simp only: process_event_def move levels)
qed

lemma run_no_ids:
  assumes "\<forall>e \<in> set es. map_of ids (log_point_of e) = None"
  shows "run_events ids pools es sw = run_events [] pools es sw"
  using assms
proof (induction es arbitrary: sw)
  case Nil
  then show ?case by (simp add: run_events_def)
next
  case (Cons e es)
  then have "replay_step ids pools e sw = replay_step [] pools e sw"
    unfolding replay_step_def by (intro event_no_id) simp
  with Cons show ?case by (simp add: run_events_def)
qed

end
