(* ===== verification/Acc_Blocks.thy ===== *)
theory Acc_Blocks
  imports Acc_History
begin

text \<open>
  The preparation of a replay works block by block: events of other blocks do not change the marks
  of mints and burns nor the edges at which snapshots count. So a history that is cut at the end of
  a block is prepared piece by piece.
\<close>

section \<open>Marks\<close>

definition marks_below :: "nat \<Rightarrow> tx_key set \<Rightarrow> boundary_marks \<Rightarrow> bool" where
  "marks_below n txs m \<longleftrightarrow>
     length (bm_events m) = n
     \<and> dom (map_of (bm_adds m)) \<subseteq> txs \<and> ran (map_of (bm_adds m)) \<subseteq> {..<n}
     \<and> dom (map_of (bm_collects m)) \<subseteq> txs \<and> ran (map_of (bm_collects m)) \<subseteq> {..<n}"

lemma ran_put: "ran (f(k \<mapsto> v)) \<subseteq> insert v (ran f)"
  by (auto simp: ran_def)

lemma marks_below_put:
  assumes "marks_below n txs m" and "i < n" and "tx \<in> txs"
  shows "marks_below n txs (m\<lparr>bm_adds := od_set tx i (bm_adds m)\<rparr>)"
    and "marks_below n txs (m\<lparr>bm_collects := od_set tx i (bm_collects m)\<rparr>)"
  using assms ran_put [of "map_of (bm_adds m)" tx i] ran_put [of "map_of (bm_collects m)" tx i]
  by (auto simp: marks_below_def dict_simps simp del: dom_eq_empty_conv)

lemma marks_below_at:
  assumes "marks_below n txs m"
  shows "map_of (bm_adds m) tx = Some j \<Longrightarrow> j < n" "map_of (bm_collects m) tx = Some j \<Longrightarrow> j < n"
  using assms ranI [of "map_of (bm_adds m)" tx j] ranI [of "map_of (bm_collects m)" tx j]
  by (auto simp: marks_below_def)

lemma marks_below_events:
  "marks_below n txs m \<Longrightarrow> length es = n \<Longrightarrow> marks_below n txs (m\<lparr>bm_events := es\<rparr>)"
  by (simp add: marks_below_def)

definition more_events :: "acc_event list \<Rightarrow> boundary_marks \<Rightarrow> boundary_marks" where
  "more_events fs m = m\<lparr>bm_events := bm_events m @ fs\<rparr>"

lemma tx_key_stub: "event_stub e = event_stub f \<Longrightarrow> tx_key_of e = tx_key_of f \<and> ae_block e = ae_block f"
proof -
  assume "event_stub e = event_stub f"
  moreover have "tx_key_of (event_stub g) = tx_key_of g" "ae_block (event_stub g) = ae_block g" for g
    by (simp_all add: event_stub_def tx_key_of_def)
  ultimately show ?thesis by metis
qed

lemma flag_at_more: "(\<And>i. j = Some i \<Longrightarrow> i < length es) \<Longrightarrow> flag_at n j (es @ fs) = flag_at n j es @ fs"
  by (cases j) (simp_all add: flag_at_def list_update_append nth_append)

lemma flag_at_shift: "flag_at n (map_option ((+) (length es)) j) (es @ fs) = es @ flag_at n j fs"
  by (cases j) (simp_all add: flag_at_def list_update_append)

lemma length_flag_at [simp]: "length (flag_at n j es) = length es"
  by (cases j) (simp_all add: flag_at_def)

lemma mark_event_more:
  assumes "marks_below n txs m" and "i < n"
  shows "mark_event i (more_events fs m) = more_events fs (mark_event i m)"
proof -
  have e: "(bm_events m @ fs) ! i = bm_events m ! i"
    using assms by (simp add: marks_below_def nth_append)
  have a: "flag_at k (map_of (bm_adds m) tx) (es @ fs) = flag_at k (map_of (bm_adds m) tx) es @ fs"
    "flag_at k (map_of (bm_collects m) tx) (es @ fs) = flag_at k (map_of (bm_collects m) tx) es @ fs"
    if "length es = n" for k tx es
    by (rule flag_at_more, use marks_below_at [OF assms(1)] that in blast)+
  have n: "length (bm_events m) = n" using assms(1) by (simp add: marks_below_def)
  show ?thesis
    by (simp add: mark_event_def mark_transfer_def more_events_def Let_def e a n)
qed

lemma mark_event_below:
  assumes b: "marks_below n txs m" and i: "i < n" and tx: "tx_key_of (bm_events m ! i) \<in> txs"
  shows "marks_below n txs (mark_event i m)"
proof -
  have n: "length (bm_events m) = n" using b by (simp add: marks_below_def)
  have "marks_below n txs (mark_transfer e m)" for e
    by (auto simp: mark_transfer_def Let_def n intro!: marks_below_events b)
  then show ?thesis
    using b marks_below_put [OF b i tx] by (simp add: mark_event_def Let_def)
qed

lemma stub_at:
  assumes stubs: "map event_stub (bm_events m) = map event_stub es" and i: "i < length es"
  shows "tx_key_of (bm_events m ! i) = tx_key_of (es ! i)"
proof -
  have "length (bm_events m) = length es" by (rule map_eq_imp_length_eq [OF stubs])
  moreover have "map event_stub (bm_events m) ! i = map event_stub es ! i" by (simp only: stubs)
  ultimately have "event_stub (bm_events m ! i) = event_stub (es ! i)" using i by simp
  then show ?thesis by (rule conjunct1 [OF tx_key_stub])
qed

lemma mark_first_part:
  assumes "k \<le> length es"
  shows "fold mark_event [0..<k] (no_marks (es @ fs)) = more_events fs (fold mark_event [0..<k] (no_marks es))
    \<and> marks_below (length es) (tx_key_of ` set es) (fold mark_event [0..<k] (no_marks es))
    \<and> map event_stub (bm_events (fold mark_event [0..<k] (no_marks es))) = map event_stub es"
  using assms
proof (induction k)
  case 0
  show ?case by (simp add: no_marks_def more_events_def marks_below_def)
next
  case (Suc k)
  define m where "m = fold mark_event [0..<k] (no_marks es)"
  have IH: "fold mark_event [0..<k] (no_marks (es @ fs)) = more_events fs m"
    "marks_below (length es) (tx_key_of ` set es) m" "map event_stub (bm_events m) = map event_stub es"
    using Suc by (simp_all add: m_def)
  have k: "k < length es" using Suc.prems by simp
  have "tx_key_of (bm_events m ! k) \<in> tx_key_of ` set es"
    using stub_at [OF IH(3) k] k by simp
  with IH mark_event_more [OF IH(2) k] mark_event_below [OF IH(2) k] show ?case
    by (simp add: m_def)
qed

text \<open>The second part sees its own marks only, shifted by the first.\<close>

definition shifted :: "acc_event list \<Rightarrow> tx_key set \<Rightarrow> boundary_marks \<Rightarrow> boundary_marks \<Rightarrow> bool" where
  "shifted es txs m m' \<longleftrightarrow>
     bm_events m = es @ bm_events m'
     \<and> (\<forall>tx \<in> txs. map_of (bm_adds m) tx = map_option ((+) (length es)) (map_of (bm_adds m') tx)
        \<and> map_of (bm_collects m) tx = map_option ((+) (length es)) (map_of (bm_collects m') tx))"

lemma mark_event_shift:
  assumes s: "shifted es txs m m'" and k: "k < length (bm_events m')" "tx_key_of (bm_events m' ! k) \<in> txs"
  shows "shifted es txs (mark_event (length es + k) m) (mark_event k m')"
proof -
  have e: "bm_events m ! (length es + k) = bm_events m' ! k" using s by (simp add: shifted_def nth_append)
  show ?thesis
    using s k(2) unfolding mark_event_def mark_transfer_def Let_def e
    by (simp add: shifted_def flag_at_shift dict_simps)
qed

lemma mark_second_part:
  assumes "shifted es (tx_key_of ` set fs) m (no_marks fs)" and "k \<le> length fs"
  shows "shifted es (tx_key_of ` set fs) (fold mark_event [length es..<length es + k] m)
      (fold mark_event [0..<k] (no_marks fs))"
  using assms(2)
proof (induction k)
  case 0
  then show ?case using assms(1) by simp
next
  case (Suc k)
  have k: "k < length fs" using Suc.prems by simp
  let ?m' = "fold mark_event [0..<k] (no_marks fs)"
  have stubs: "map event_stub (bm_events ?m') = map event_stub fs"
    using mark_first_part [of k fs "[]"] k by simp
  have "k < length (bm_events ?m')" using arg_cong [OF stubs, of length] k by simp
  moreover have "tx_key_of (bm_events ?m' ! k) \<in> tx_key_of ` set fs"
    using stub_at [OF stubs k] k by simp
  ultimately show ?case
    using mark_event_shift Suc by simp
qed

lemma mark_boundaries_append:
  assumes "tx_key_of ` set es \<inter> tx_key_of ` set fs = {}"
  shows "mark_boundaries (es @ fs) = mark_boundaries es @ mark_boundaries fs"
proof -
  define m where "m = fold mark_event [0..<length es] (no_marks es)"
  have first: "fold mark_event [0..<length es] (no_marks (es @ fs)) = more_events fs m"
    "marks_below (length es) (tx_key_of ` set es) m"
    using mark_first_part [of "length es" es fs] by (simp_all add: m_def)
  have len: "length (bm_events m) = length es" using first(2) by (simp add: marks_below_def)
  have "map_of (bm_adds m) tx = None \<and> map_of (bm_collects m) tx = None" if "tx \<in> tx_key_of ` set fs" for tx
  proof -
    have "tx \<notin> tx_key_of ` set es" using assms that by blast
    then have "tx \<notin> dom (map_of (bm_adds m)) \<and> tx \<notin> dom (map_of (bm_collects m))"
      using first(2) unfolding marks_below_def by blast
    then show ?thesis unfolding domIff by simp
  qed
  then have "shifted (bm_events m) (tx_key_of ` set fs) (more_events fs m) (no_marks fs)"
    by (simp add: shifted_def more_events_def no_marks_def)
  from mark_second_part [OF this, of "length fs"]
  have "bm_events (fold mark_event [length es..<length es + length fs] (more_events fs m)) =
      bm_events m @ mark_boundaries fs"
    by (simp add: shifted_def mark_boundaries_def len)
  moreover have "[0..<length es + length fs] = [0..<length es] @ [length es..<length es + length fs]"
    using upt_add_eq_append [of 0 "length es" "length fs"] by simp
  ultimately show ?thesis
    by (simp add: mark_boundaries_def first m_def [symmetric])
qed

section \<open>Edges\<close>

lemma state_indices_append:
  "state_indices (es @ fs) b = state_indices es b @ map ((+) (length es)) (state_indices fs b)"
proof -
  have up: "[0..<length es + length fs] = [0..<length es] @ map ((+) (length es)) [0..<length fs]"
    by (rule nth_equalityI) (simp_all add: nth_append)
  have first: "List.filter (\<lambda>i. has_state ((es @ fs) ! i) \<and> ae_block ((es @ fs) ! i) = b) [0..<length es] =
      state_indices es b"
    unfolding state_indices_def by (rule filter_cong) (simp_all add: nth_append)
  show ?thesis
    unfolding state_indices_def [of "es @ fs"] length_append up filter_append first
    by (simp add: state_indices_def filter_map o_def)
qed

lemma state_indices_elsewhere: "b \<notin> ae_block ` set es \<Longrightarrow> state_indices es b = []"
  by (auto simp: state_indices_def filter_empty_conv)

lemma edge_first:
  assumes "ae_block e \<notin> ae_block ` set fs"
  shows "edge_event (es @ fs) i e = edge_event es i e"
  by (simp add: edge_event_def state_indices_append state_indices_elsewhere [OF assms])

lemma edge_second:
  assumes "ae_block e \<notin> ae_block ` set es"
  shows "edge_event (es @ fs) (length es + k) e = edge_event fs k e"
  by (simp add: edge_event_def state_indices_append state_indices_elsewhere [OF assms] hd_map last_map
      Let_def)

lemma prepare_append:
  assumes "ae_block ` set es \<inter> ae_block ` set fs = {}"
  shows "prepare_events (es @ fs) = prepare_events es @ prepare_events fs"
proof -
  have blocks: "ae_block ` set (mark_boundaries gs) = ae_block ` set gs" for gs
    using map_by_stub [OF mark_boundaries_stubs, of ae_block gs] tx_key_stub by (metis list.set_map)
  have "tx_key_of ` set es \<inter> tx_key_of ` set fs = {}"
    using assms by (auto simp: tx_key_of_def)
  then have m: "mark_boundaries (es @ fs) = mark_boundaries es @ mark_boundaries fs"
    by (rule mark_boundaries_append)
  show ?thesis
  proof (rule nth_equalityI)
    show "length (prepare_events (es @ fs)) = length (prepare_events es @ prepare_events fs)"
      by (simp add: prepare_events_def Let_def)
    fix i assume i: "i < length (prepare_events (es @ fs))"
    show "prepare_events (es @ fs) ! i = (prepare_events es @ prepare_events fs) ! i"
    proof (cases "i < length es")
      case True
      have "mark_boundaries es ! i \<in> set (mark_boundaries es)" using True by simp
      then have "ae_block (mark_boundaries es ! i) \<in> ae_block ` set es" using blocks by blast
      then have "ae_block (mark_boundaries es ! i) \<notin> ae_block ` set fs" using assms by blast
      with True show ?thesis
        by (simp add: prepare_events_def Let_def m nth_append edge_first)
    next
      case False
      then obtain k where k: "i = length es + k" "k < length fs"
        using i that [of "i - length es"] by (simp add: prepare_events_def Let_def)
      have "mark_boundaries fs ! k \<in> set (mark_boundaries fs)" using k by simp
      then have "ae_block (mark_boundaries fs ! k) \<in> ae_block ` set fs" using blocks by blast
      then have "ae_block (mark_boundaries fs ! k) \<notin> ae_block ` set es" using assms by blast
      with k show ?thesis
        by (simp add: prepare_events_def Let_def m nth_append edge_second)
    qed
  qed
qed

end
