(* ===== verification/Acc_Append.thy ===== *)
theory Acc_Append
  imports Acc_Blocks
begin

text \<open>
  What market accounting promises of its rows: an append to the stored state of a position refines
  the replay of its whole history, the totals of an episode are the sums of its effects, a closed
  episode is final.
\<close>

section \<open>The end of a run\<close>

lemma process_last: "as_last (fst (process_event ids pool e sw)) = event_order e"
  by (simp add: process_event_def Let_def split: prod.split)

lemma run_last:
  "es \<noteq> [] \<Longrightarrow> as_last (fst (run_events ids pools es sw)) = event_order (List.last es)"
proof (induction es rule: rev_induct)
  case (snoc e es)
  then show ?case by (simp add: run_events_def replay_step_def process_last)
qed simp

lemma run_key:
  assumes "state_ok (fst sw)" and "fresh_run ids es sw" and "\<forall>e \<in> set es. nft_event_ok e"
  shows "as_key (fst (run_events ids pools es sw)) = as_key (fst sw)
    \<and> as_version (fst (run_events ids pools es sw)) = as_version (fst sw)"
  using assms
proof (induction es arbitrary: sw)
  case Nil
  then show ?case by (simp add: run_events_def)
next
  case (Cons e es)
  define sw' where "sw' = replay_step ids pools e sw"
  obtain r where b: "books ids e sw sw' r"
    using process_books [OF Cons.prems(1) fresh_run_id [OF Cons.prems(2)]] Cons.prems(3)
    unfolding sw'_def replay_step_def by (metis list.set_intros(1))
  have "state_ok (fst sw')"
    using process_event_ok Cons.prems(1) by (simp add: sw'_def replay_step_def)
  then show ?case
    using Cons.IH [of sw'] books_fresh [OF Cons.prems(2) b] Cons.prems(3) b
    by (simp add: run_events_def sw'_def books_def)
qed

lemma order_place: "event_order e = event_order f \<Longrightarrow> log_point_of e = log_point_of f"
  by (simp add: event_order_def log_point_of_def)

lemma prepare_last: "es \<noteq> [] \<Longrightarrow> event_order (List.last (prepare_events es)) = event_order (List.last es)"
proof -
  assume es: "es \<noteq> []"
  have "map event_order (prepare_events es) = map event_order es"
  proof (rule map_by_stub [OF prepare_stubs])
    fix e f assume "event_stub e = event_stub f"
    moreover have "event_order (event_stub g) = event_order g" for g
      by (simp add: event_stub_def event_order_def)
    ultimately show "event_order e = event_order f" by metis
  qed
  then show ?thesis
    using es by (metis last_map list.map_disc_iff)
qed

section \<open>Saved rows\<close>

lemma save_run_rows:
  "snd (save_run (s, w)) =
    save_position s (case as_active s of Some a \<Rightarrow> save_episode a w | None \<Rightarrow> w)"
  by (simp add: save_run_def Let_def)

lemma save_run_used: "set (od_keys (aw_episodes (snd (save_run sw)))) = used_ids sw"
  by (cases sw) (auto simp: save_run_rows used_ids_def save_position_def split: option.split)

lemma save_run_position: "map_of (aw_positions (snd (save_run (s, w)))) (as_key s) = Some (make_position_row s)"
  by (simp add: save_run_rows save_position_def dict_simps)

lemma map_add_overwritten: "k \<in> dom g \<Longrightarrow> f(k \<mapsto> v) ++ g = f ++ g"
  by (rule ext) (auto simp: map_add_def split: option.split)

lemma rows_over_saved:
  assumes over: "rows_over w v u"
    and key: "as_key s \<in> set (od_keys (aw_positions v))"
    and active: "active_id (s, w) \<subseteq> set (od_keys (aw_episodes v))"
  shows "rows_over (snd (save_run (s, w))) v u"
proof -
  let ?w = "case as_active s of Some a \<Rightarrow> save_episode a w | None \<Rightarrow> w"
  have "map_of (aw_episodes ?w) ++ map_of (aw_episodes v) = map_of (aw_episodes w) ++ map_of (aw_episodes v)"
    using active by (cases "as_active s")
      (simp_all add: save_episode_rows active_id_def set_od_keys map_add_overwritten)
  moreover have "aw_ownership ?w = aw_ownership w" "aw_effects ?w = aw_effects w" "aw_positions ?w = aw_positions w"
    by (simp_all add: save_episode_def split: option.split)
  moreover have "map_of (aw_positions (save_position s x)) ++ map_of (aw_positions v) =
      map_of (aw_positions x) ++ map_of (aw_positions v)" for x
    using key by (simp add: save_position_def dict_simps map_add_overwritten)
  moreover have "aw_ownership (save_position s x) = aw_ownership x" "aw_effects (save_position s x) = aw_effects x"
    "aw_episodes (save_position s x) = aw_episodes x" for x
    by (simp_all add: save_position_def)
  ultimately show ?thesis
    using over unfolding rows_over_def save_run_rows by simp
qed

section \<open>An append is a replay\<close>

definition saved_places :: "saved_ids \<Rightarrow> log_point set" where
  "saved_places sv =
     (\<lambda>(a, n, p). p) ` set ((case sv_replay sv of None \<Rightarrow> [] | Some (m, rs) \<Rightarrow> rs) @ sv_episodes sv)"

lemma restored_places:
  assumes "restore_ids sv s = (ids, t)" and "p \<notin> saved_places sv"
  shows "map_of ids p = None"
proof (rule ccontr)
  assume "map_of ids p \<noteq> None"
  then obtain a n where e: "map_of ids p = Some (a, n)" by auto
  have ids: "ids = put_ids (sv_episodes sv) (case sv_replay sv of None \<Rightarrow> [] | Some (m, rs) \<Rightarrow> put_ids rs [])"
    using restore_form [OF assms(1)] by metis
  have "(a, n, p) \<in> set (sv_episodes sv) \<or> (\<exists>m rs. sv_replay sv = Some (m, rs) \<and> (a, n, p) \<in> set rs)"
    using put_ids_entry [OF e [unfolded ids]] put_ids_entry [of _ "[]" p a n]
    by (auto split: option.splits)
  then have "p \<in> saved_places sv" by (force simp: saved_places_def)
  with assms(2) show False by simp
qed

text \<open>The replay of the first part of a history, before its rows are saved.\<close>

lemma prepared_nft: "log_ok es \<Longrightarrow> \<forall>e \<in> set (prepare_events es). nft_event_ok e"
  using arg_cong [OF prepare_frame(3) [of es], of set]
  by (auto simp: log_ok_def list_all_iff image_iff)

lemma log_ok_append: "log_ok (es @ fs) \<Longrightarrow> log_ok es \<and> log_ok fs"
  by (simp add: log_ok_def)

lemma start_fresh:
  assumes "ids_ok ids (as_key s) (as_episode_ordinal s)" and "as_active s = None" and "log_ok (es @ fs)"
  shows "fresh_run ids (prepare_events es @ prepare_events fs) (s, no_writes) \<and> balanced (s, no_writes)"
  using assms map_append [of log_point_of "prepare_events es" "prepare_events fs"]
    map_append [of ae_id "prepare_events es" "prepare_events fs"]
  by (simp add: fresh_run_def log_ok_def prepare_frame used_ids_def no_writes_def od_keys_def
      balanced_def cash_def row_cash_def)

lemma first_part:
  assumes sv: "saved_ok key sv" and log: "log_ok (es @ fs)"
    and first: "derive pools key (Some sv) es None = (s1, w1)"
  obtains ids s w0 where "restore_ids sv (new_state key (hd es)) = (ids, s)"
    and "run_events ids pools (prepare_events es) (s, no_writes) = (s1, w0)"
    and "save_run (s1, w0) = (s1, w1)" and "fresh_run ids (prepare_events fs) (s1, w0)"
    and "state_ok s1" and "as_key s1 = key" and "as_version s1 = SCHEMA_VERSION"
proof -
  obtain ids s where r: "restore_ids sv (new_state key (hd es)) = (ids, s)" by fastforce
  obtain k where "s = (new_state key (hd es))\<lparr>as_episode_ordinal := k\<rparr>"
    using restore_form [OF r] by metis
  then have s: "as_key s = key" "as_version s = SCHEMA_VERSION" "as_active s = None"
    by (simp_all add: new_state_def)
  have ok: "state_ok s" using restore_ids_ok [OF new_state_ok, of sv key "hd es"] by (simp add: r)
  obtain s0 w0 where run: "run_events ids pools (prepare_events es) (s, no_writes) = (s0, w0)" by fastforce
  have d: "save_run (s0, w0) = (s1, w1)" using first by (simp add: derive_def r run)
  have s0: "s0 = s1" using d fst_save_run [of "(s0, w0)"] by simp
  have nft: "\<forall>e \<in> set (prepare_events es). nft_event_ok e"
    using prepared_nft log_ok_append [OF log] by blast
  have start: "fresh_run ids (prepare_events es @ prepare_events fs) (s, no_writes)" "balanced (s, no_writes)"
    using start_fresh [of ids s es fs] restored_ids_ok [OF r sv] s log by simp_all
  have "fresh_run ids (prepare_events fs) (s1, w0)"
    using run_balanced [OF _ start(1) nft start(2), of pools] ok by (simp add: run s0)
  moreover have "state_ok s1"
    using derive_ok [of None pools key "Some sv" es] by (simp add: first)
  moreover have "as_key s1 = key" "as_version s1 = SCHEMA_VERSION"
  proof -
    have "fresh_run ids (prepare_events es) (s, no_writes)"
      using start(1) by (auto simp: fresh_run_def future_ids_def)
    from run_key [OF _ this nft, of pools] show "as_key s1 = key" "as_version s1 = SCHEMA_VERSION"
      using ok s by (simp_all add: run s0)
  qed
  ultimately show thesis using that r run d s0 by blast
qed

text \<open>
  The second part, from the state of the first: the rows of a run from that state alone have the
  position and every identity that was active.
\<close>

lemma appended_rows:
  assumes ok: "state_ok s1" and log: "log_ok fs" and after: "fresh_run ids (prepare_events []) (s1, w0)"
    and second: "derive pools key None fs (Some s1) = (s2, w2)"
  shows "as_key s1 \<in> set (od_keys (aw_positions w2)) \<and> active_id (s1, w0) \<subseteq> set (od_keys (aw_episodes w2))"
proof -
  let ?qs = "prepare_events fs"
  have fresh: "fresh_run [] ?qs (s1, no_writes)"
  proof -
    have "used_ids (s1, no_writes) \<subseteq> used_ids (s1, w0)"
      by (auto simp: used_ids_def no_writes_def od_keys_def)
    then have "used_ids (s1, no_writes) \<inter> future_ids [] (as_key s1) (as_episode_ordinal s1) ?qs = {}"
      using after by (auto simp: fresh_run_def future_ids_def)
    then show ?thesis
      using log by (simp add: fresh_run_def ids_ok_def log_ok_def prepare_frame no_writes_def od_keys_def)
  qed
  obtain t v where tv: "run_events [] pools ?qs (s1, no_writes) = (t, v)" by fastforce
  have run: "save_run (t, v) = (s2, w2)" using second by (simp add: derive_def tv)
  have "as_key t = as_key s1"
    using run_key [of "(s1, no_writes)" "[]" ?qs pools] ok fresh prepared_nft [OF log] by (simp add: tv)
  then have "as_key s1 \<in> set (od_keys (aw_positions w2))"
    using save_run_position [of t v] run by (auto simp: set_od_keys)
  moreover have "active_id (s1, w0) \<subseteq> used_ids (s1, no_writes)" by (auto simp: active_id_def used_ids_def)
  moreover have "used_ids (s1, no_writes) \<subseteq> used_ids (t, v)"
    using run_used [of "(s1, no_writes)" "[]" ?qs pools] ok fresh prepared_nft [OF log] by (simp add: tv)
  moreover have "used_ids (t, v) = set (od_keys (aw_episodes w2))"
    using save_run_used [of "(t, v)"] run by simp
  ultimately show ?thesis by blast
qed

lemma second_part:
  assumes sv: "saved_ok key sv" and log: "log_ok es" "log_ok fs" and es: "es \<noteq> []"
    and blocks: "ae_block ` set es \<inter> ae_block ` set fs = {}"
    and new: "\<forall>f \<in> set fs. log_point_of f \<notin> saved_places sv"
    and first: "derive pools key (Some sv) es None = (s1, w1)"
    and second: "derive pools key None fs (Some s1) = (s2, w2)"
  shows "fst (derive pools key (Some sv) (es @ fs) None) = s2
    \<and> rows_over w1 w2 (snd (derive pools key (Some sv) (es @ fs) None))"
proof -
  obtain ids s w0 where r: "restore_ids sv (new_state key (hd es)) = (ids, s)"
    and run: "run_events ids pools (prepare_events es) (s, no_writes) = (s1, w0)"
    and saved: "save_run (s1, w0) = (s1, w1)" and after: "fresh_run ids (prepare_events []) (s1, w0)"
    and ok: "state_ok s1"
    using first_part [of key sv es "[]"] sv log(1) first by (metis append_Nil2)
  define qs where "qs = prepare_events fs"
  have none: "\<forall>e \<in> set qs. map_of ids (log_point_of e) = None"
  proof
    fix e assume "e \<in> set qs"
    then obtain f where "f \<in> set fs" "log_point_of e = log_point_of f"
      using arg_cong [OF prepare_frame(1) [of fs], of set] by (auto simp: qs_def)
    then show "map_of ids (log_point_of e) = None"
      using new restored_places [OF r, of "log_point_of f"] by simp
  qed
  have full: "derive pools key (Some sv) (es @ fs) None = save_run (run_events [] pools qs (s1, w0))"
    using es run_no_ids [OF none, of pools "(s1, w0)"]
    by (simp add: derive_def r prepare_append [OF blocks] run_events_def run [unfolded run_events_def]
        qs_def [symmetric])
  have "save_run (run_events [] pools qs (s1, no_writes)) = (s2, w2)"
    using second by (simp add: derive_def qs_def)
  from emits_over [OF emits_then [OF run_emits emits_save_run] this]
  have over: "fst (save_run (run_events [] pools qs (s1, w0))) = s2
      \<and> rows_over w0 w2 (snd (save_run (run_events [] pools qs (s1, w0))))" .
  then have "rows_over w1 w2 (snd (save_run (run_events [] pools qs (s1, w0))))"
    using rows_over_saved [of w0 w2 _ s1] appended_rows [OF ok log(2) after second] saved by simp
  with over show ?thesis unfolding full by simp
qed

text \<open>What an accepted append was given: events after the last block of the stored state.\<close>

lemma append_accepted:
  assumes "append_position pools key ids position projected rows = Some out"
  obtains p s where "position = Some p" and "pr_state p = Some s"
    and "list_all (follows (pr_last p)) rows" and "as_version s = SCHEMA_VERSION"
    and "length rows = length ids" and "set ids \<inter> set projected = {}" and "ids \<noteq> []"
    and "out = derive pools key None (sort_key event_order rows) (Some s)"
  using assms
  by (auto simp: append_position_def list_all_iff list_ex_iff Let_def split: if_splits option.splits)

lemma sorted_blocks:
  assumes "sorted (map event_order es)" and "e \<in> set es"
  shows "ae_block e \<le> ae_block (List.last es)"
proof -
  have "event_order e \<le> event_order (List.last es)"
    using assms by (induction es) (auto simp: sorted_wrt_append)
  then show ?thesis by (auto simp: event_order_def)
qed

lemma follows_blocks:
  assumes "follows (log_point_of l) f" shows "ae_block l < ae_block f"
  using assms by (auto simp: follows_def log_point_of_def)

text \<open>The row of the position after a replay of everything.\<close>

lemma stored_position:
  assumes sv: "saved_ok key sv" and log: "log_ok es" and es: "es \<noteq> []"
    and first: "derive pools key (Some sv) es None = (s1, w1)"
  shows "map_of (aw_positions w1) key = Some (make_position_row s1)"
    and "pr_last (make_position_row s1) = log_point_of (List.last es)"
    and "pr_state (make_position_row s1) = Some s1" and "as_version s1 = SCHEMA_VERSION"
proof -
  obtain ids s w0 where run: "run_events ids pools (prepare_events es) (s, no_writes) = (s1, w0)"
    and saved: "save_run (s1, w0) = (s1, w1)" and key: "as_key s1 = key" "as_version s1 = SCHEMA_VERSION"
    using first_part [of key sv es "[]"] sv log first by (metis append_Nil2)
  show "map_of (aw_positions w1) key = Some (make_position_row s1)"
    using save_run_position [of s1 w0] by (simp add: saved key)
  have "prepare_events es \<noteq> []"
    using es by (simp add: prepare_events_def Let_def)
  then have "as_last s1 = event_order (List.last es)"
    using run_last [of "prepare_events es" ids pools "(s, no_writes)"] prepare_last [OF es] by (simp add: run)
  then show "pr_last (make_position_row s1) = log_point_of (List.last es)"
    by (simp add: make_position_row_def event_order_def log_point_of_def)
  show "as_version s1 = SCHEMA_VERSION" by (fact key)
qed (simp add: make_position_row_def)

text \<open>
  C33. An append refines the replay of the whole history: when \<^verbatim>\<open>_append_position\<close> accepts new events on
  top of the stored row of a position, the state it ends in is that of \<^verbatim>\<open>_derive\<close> on all events, and
  its rows, written over those of the first replay, are the rows of that replay.
\<close>

theorem append_refines_replay:
  assumes "saved_ok key sv" and "es \<noteq> []" and "sorted (map event_order es)"
    and "log_ok es" and "log_ok rows" and "\<forall>f \<in> set rows. log_point_of f \<notin> saved_places sv"
    and "derive pools key (Some sv) es None = (s1, w1)"
    and "append_position pools key ids (map_of (aw_positions w1) key) projected rows = Some (s2, w2)"
  shows "fst (derive pools key (Some sv) (es @ sort_key event_order rows) None) = s2
    \<and> rows_over w1 w2 (snd (derive pools key (Some sv) (es @ sort_key event_order rows) None))"
proof -
  note stored = stored_position [OF assms(1,4,2,7)]
  obtain p t where p: "map_of (aw_positions w1) key = Some p" "pr_state p = Some t"
      "list_all (follows (pr_last p)) rows"
      "(s2, w2) = derive pools key None (sort_key event_order rows) (Some t)"
    by (rule append_accepted [OF assms(8)])
  moreover have t: "p = make_position_row s1" "t = s1"
    using p(1,2) stored by auto
  ultimately have rows: "list_all (follows (log_point_of (List.last es))) rows"
    and second: "derive pools key None (sort_key event_order rows) (Some s1) = (s2, w2)"
    using stored(2) by simp_all
  have "ae_block ` set es \<inter> ae_block ` set rows = {}"
  proof -
    have "ae_block e < ae_block f" if "e \<in> set es" "f \<in> set rows" for e f
      using sorted_blocks [OF assms(3) that(1)] follows_blocks [of "List.last es" f] rows that(2)
      by (simp add: list_all_iff)
    then show ?thesis by fastforce
  qed
  moreover have "log_ok (sort_key event_order rows)"
    using assms(5) unfolding log_ok_def list_all_iff distinct_map by simp
  ultimately show ?thesis
    using second_part [OF assms(1,4) _ assms(2) _ _ assms(7) second] assms(6) by simp
qed

section \<open>A closed episode is final\<close>

text \<open>
  C36. A closed episode is final: once a replay leaves an episode that is not active, no later block of
  events changes its row.
\<close>

theorem closed_episode_final:
  assumes sv: "saved_ok key sv" and log: "log_ok (es @ fs)" and es: "es \<noteq> []"
    and blocks: "ae_block ` set es \<inter> ae_block ` set fs = {}"
    and first: "derive pools key (Some sv) es None = (s1, w1)"
    and row: "map_of (aw_episodes w1) x = Some row" and closed: "map_option ep_id (as_active s1) \<noteq> Some x"
  shows "map_of (aw_episodes (snd (derive pools key (Some sv) (es @ fs) None))) x = Some row"
proof -
  define qs where "qs = prepare_events fs"
  obtain ids s w0 where r: "restore_ids sv (new_state key (hd es)) = (ids, s)"
    and run: "run_events ids pools (prepare_events es) (s, no_writes) = (s1, w0)"
    and saved: "save_run (s1, w0) = (s1, w1)" and fresh: "fresh_run ids qs (s1, w0)" and ok: "state_ok s1"
    using first_part [OF sv log first] by (metis qs_def)
  have inactive: "x \<notin> active_id (s1, w0)" using closed by (auto simp: active_id_def)
  then have "map_of (aw_episodes w0) x = Some row"
    using row arg_cong [OF saved, of "\<lambda>sw. map_of (aw_episodes (snd sw)) x"]
    by (auto simp: save_run_rows save_position_def save_episode_rows active_id_def split: option.splits)
  then have "x \<notin> active_id (run_events ids pools qs (s1, w0))
      \<and> map_of (aw_episodes (snd (run_events ids pools qs (s1, w0)))) x = Some row"
    using run_closed [of "(s1, w0)" ids qs x row pools] ok fresh inactive prepared_nft [of fs]
      log_ok_append [OF log] by (simp add: qs_def)
  moreover have "derive pools key (Some sv) (es @ fs) None = save_run (run_events ids pools qs (s1, w0))"
    using es by (simp add: derive_def r prepare_append [OF blocks] run_events_def
        run [unfolded run_events_def] qs_def)
  moreover have "map_of (aw_episodes (snd (save_run tv))) x = map_of (aw_episodes (snd tv)) x"
    if "x \<notin> active_id tv" for tv
    using that by (cases tv) (auto simp: save_run_rows save_position_def save_episode_rows active_id_def
        split: option.splits)
  ultimately show ?thesis by simp
qed

section \<open>Where an append is refused\<close>

text \<open>
  C39. A second event in a block that was replayed is never appended: on top of the stored row of a
  replay, new events are refused, for the whole history to be replayed, exactly if one of them is not
  in a later block.
\<close>

theorem append_only_later_blocks:
  assumes "saved_ok key sv" and "es \<noteq> []" and "log_ok es"
    and "derive pools key (Some sv) es None = (s1, w1)"
    and "ids \<noteq> []" and "length rows = length ids" and "set ids \<inter> set projected = {}"
  shows "append_position pools key ids (map_of (aw_positions w1) key) projected rows = None
    \<longleftrightarrow> (\<exists>f \<in> set rows. ae_block f \<le> ae_block (List.last es))"
proof -
  note stored = stored_position [OF assms(1,3,2,4)]
  have f: "follows (log_point_of l) f \<longleftrightarrow> ae_block l < ae_block f" for l f
    by (auto simp: follows_def log_point_of_def)
  have "\<not> list_ex (\<lambda>i. i \<in> set projected) ids"
    using assms(7) by (auto simp: list_ex_iff)
  then show ?thesis
    using assms(5,6) stored
    by (simp add: append_position_def f list_all_iff Let_def) (auto simp: not_less)
qed

end
