(* ===== verification/Acc_Flush.thy ===== *)
theory Acc_Flush
  imports Acc_Replay
begin

text \<open>
  The write buffer of a replay (\<^verbatim>\<open>_ReplayWrites\<close> of \<^verbatim>\<open>lp_market_accounting.py\<close>): \<^verbatim>\<open>prepare\<close> compares
  the rows of a replay with the stored ones, \<^verbatim>\<open>flush\<close> deletes the stale ones and writes those that
  differ. The tables are lists of rows with unique keys; the four groups share one comparison, whose
  laws are stated in a locale and interpreted for each group.
\<close>

section \<open>Tables and their comparison\<close>

definition row_at :: "('r \<Rightarrow> 'k) \<Rightarrow> 'r list \<Rightarrow> 'k \<Rightarrow> 'r option" where
  "row_at key rows k = List.find (\<lambda>r. key r = k) rows"

text \<open>
  What the stored row becomes, \<open>keep old new\<close>, lets a group keep columns that are not the replay's.
\<close>

definition next_row :: "('r \<Rightarrow> 'k) \<Rightarrow> ('r \<Rightarrow> 'r \<Rightarrow> 'r) \<Rightarrow> 'r list \<Rightarrow> 'k \<Rightarrow> 'r \<Rightarrow> 'r" where
  "next_row key keep existing k r = (case row_at key existing k of None \<Rightarrow> r | Some old \<Rightarrow> keep old r)"

definition changed_rows :: "('r \<Rightarrow> 'k) \<Rightarrow> ('r \<Rightarrow> 'r \<Rightarrow> 'r) \<Rightarrow> 'r list \<Rightarrow> ('k, 'r) odict \<Rightarrow> 'r list" where
  "changed_rows key keep existing desired =
     map (\<lambda>(k, r). next_row key keep existing k r)
       (List.filter (\<lambda>(k, r). row_at key existing k \<noteq> Some (next_row key keep existing k r)) desired)"

definition stale_keys :: "bool \<Rightarrow> ('r \<Rightarrow> 'k) \<Rightarrow> 'r list \<Rightarrow> ('k, 'r) odict \<Rightarrow> 'k list" where
  "stale_keys append_only key existing desired =
     (if append_only then [] else List.filter (\<lambda>k. k \<notin> set (od_keys desired)) (map key existing))"

text \<open>\<^verbatim>\<open>DELETE\<close> by key, and \<^verbatim>\<open>INSERT OR REPLACE\<close>.\<close>

definition delete_rows :: "('r \<Rightarrow> 'k) \<Rightarrow> 'k list \<Rightarrow> 'r list \<Rightarrow> 'r list" where
  "delete_rows key ks rows = List.filter (\<lambda>r. key r \<notin> set ks) rows"

definition replace_row :: "('r \<Rightarrow> 'k) \<Rightarrow> 'r \<Rightarrow> 'r list \<Rightarrow> 'r list" where
  "replace_row key r rows = List.filter (\<lambda>x. key x \<noteq> key r) rows @ [r]"

definition flush_rows ::
  "('r \<Rightarrow> 'k) \<Rightarrow> 'k list \<Rightarrow> 'r list \<Rightarrow> 'r list \<Rightarrow> 'r list" where
  "flush_rows key stale changed rows = fold (replace_row key) changed (delete_rows key stale rows)"

lemma row_at_delete:
  "row_at key (delete_rows key ks rows) k = (if k \<in> set ks then None else row_at key rows k)"
  by (induction rows) (auto simp: row_at_def delete_rows_def)

lemma row_at_append: "row_at key (xs @ ys) k = (case row_at key xs k of None \<Rightarrow> row_at key ys k | Some r \<Rightarrow> Some r)"
  by (induction xs) (simp_all add: row_at_def)

lemma row_at_replace: "row_at key (replace_row key r rows) k = (if k = key r then Some r else row_at key rows k)"
proof -
  have "row_at key (List.filter (\<lambda>x. key x \<noteq> key r) rows) k = (if k = key r then None else row_at key rows k)"
    by (induction rows) (auto simp: row_at_def)
  then show ?thesis
    by (simp add: replace_row_def row_at_append) (simp add: row_at_def split: option.split)
qed

lemma row_at_replaces:
  "row_at key (fold (replace_row key) rs rows) k =
    (case row_at key (rev rs) k of None \<Rightarrow> row_at key rows k | Some r \<Rightarrow> Some r)"
proof (induction rs arbitrary: rows)
  case (Cons r rs)
  then show ?case
    by (simp add: row_at_append row_at_replace split: option.split) (simp add: row_at_def)
qed (simp add: row_at_def)

lemma found_member: "List.find P xs = Some x \<Longrightarrow> x \<in> set xs \<and> P x"
  by (induction xs) (auto split: if_splits)

lemma row_at_key: "row_at key rows k = Some r \<Longrightarrow> key r = k"
  unfolding row_at_def by (induction rows) (auto split: if_splits)

lemma row_at_member: "row_at key rows k = Some r \<Longrightarrow> r \<in> set rows"
  unfolding row_at_def by (induction rows) (auto split: if_splits)

lemma row_at_unique: "distinct (map key rows) \<Longrightarrow> r \<in> set rows \<Longrightarrow> row_at key rows (key r) = Some r"
  unfolding row_at_def by (induction rows) auto

text \<open>
  The contract of a group: the buffer files a row under its key, and the row that is stored keeps
  the key. Then a flush that saw every stored row of the position under a key of the buffer, or of
  the position, leaves exactly the rows of the buffer.
\<close>

locale row_group =
  fixes key :: "'r \<Rightarrow> 'k" and keep :: "'r \<Rightarrow> 'r \<Rightarrow> 'r"
  assumes key_keep: "key (keep old new) = key new"
begin

lemma next_key: "filed key desired \<Longrightarrow> (k, r) \<in> set desired \<Longrightarrow> key (next_row key keep existing k r) = k"
  using filed_key [of key desired k r] by (auto simp: next_row_def key_keep split: option.split)

lemma changed_at:
  assumes "filed key desired"
  shows "row_at key (rev (changed_rows key keep existing desired)) k =
    (case map_of desired k of
       None \<Rightarrow> None
     | Some r \<Rightarrow> if row_at key existing k = Some (next_row key keep existing k r) then None
         else Some (next_row key keep existing k r))"
proof -
  define picked where "picked = List.filter (\<lambda>(k, r). row_at key existing k \<noteq> Some (next_row key keep existing k r)) desired"
  have keys: "map key (changed_rows key keep existing desired) = map fst picked"
    using next_key [OF assms] by (auto simp: changed_rows_def picked_def)
  have "distinct (map fst picked)"
    using assms by (simp add: picked_def filed_def od_ok_def od_keys_def distinct_map_filter)
  then have distinct: "distinct (map key (rev (changed_rows key keep existing desired)))"
    by (simp add: keys rev_map [symmetric])
  show ?thesis
  proof (cases "map_of desired k")
    case None
    then have "k \<notin> fst ` set desired" by (simp add: map_of_eq_None_iff)
    then have "k \<notin> set (map fst picked)" by (auto simp: picked_def)
    then have "k \<notin> set (map key (changed_rows key keep existing desired))" by (simp add: keys)
    then have "row_at key (rev (changed_rows key keep existing desired)) k = None"
      by (auto simp: row_at_def find_None_iff)
    with None show ?thesis by simp
  next
    case (Some r)
    then have mem: "(k, r) \<in> set desired" by (rule map_of_SomeD)
    show ?thesis
    proof (cases "row_at key existing k = Some (next_row key keep existing k r)")
      case True
      have "k \<notin> fst ` set picked"
      proof
        assume "k \<in> fst ` set picked"
        then obtain r' where "(k, r') \<in> set picked" by force
        then have "map_of desired k = Some r'" "row_at key existing k \<noteq> Some (next_row key keep existing k r')"
          using assms by (auto simp: picked_def filed_def od_ok_def od_keys_def)
        with Some True show False by simp
      qed
      then have "k \<notin> set (map key (changed_rows key keep existing desired))" by (simp add: keys)
      then have "row_at key (rev (changed_rows key keep existing desired)) k = None"
        by (auto simp: row_at_def find_None_iff)
      with Some True show ?thesis by simp
    next
      case False
      then have "next_row key keep existing k r \<in> set (rev (changed_rows key keep existing desired))"
        using mem by (force simp: changed_rows_def)
      from row_at_unique [OF distinct this] have
        "row_at key (rev (changed_rows key keep existing desired)) k = Some (next_row key keep existing k r)"
        by (simp add: next_key [OF assms mem])
      with Some False show ?thesis by simp
    qed
  qed
qed

text \<open>The flush of a full replay, and of an append that looked its own keys up.\<close>

lemma flush_full:
  assumes desired: "filed key desired" and "distinct (map key rows)"
    and own: "\<forall>r \<in> set rows. key r \<in> set (od_keys desired) \<longrightarrow> mine r"
  shows "row_at key (flush_rows key (stale_keys False key (List.filter mine rows) desired)
      (changed_rows key keep (List.filter mine rows) desired) rows) k =
    (case map_of desired k of
       Some r \<Rightarrow> Some (next_row key keep rows k r)
     | None \<Rightarrow> (case row_at key rows k of Some r \<Rightarrow> if mine r then None else Some r | None \<Rightarrow> None))"
proof -
  let ?e = "List.filter mine rows"
  have at: "row_at key ?e k = (case row_at key rows k of Some r \<Rightarrow> if mine r then Some r else None | None \<Rightarrow> None)"
    using assms(2) unfolding row_at_def
    by (induction rows) (auto simp: find_None_iff dest!: found_member split: option.splits)
  have stale: "k \<in> set (stale_keys False key ?e desired) \<longleftrightarrow>
      map_of desired k = None \<and> (\<exists>r. row_at key rows k = Some r \<and> mine r)"
  proof
    assume "k \<in> set (stale_keys False key ?e desired)"
    then obtain r where r: "r \<in> set rows" "mine r" "key r = k" "k \<notin> set (od_keys desired)"
      by (auto simp: stale_keys_def)
    with row_at_unique [OF assms(2) r(1)] show "map_of desired k = None \<and> (\<exists>r. row_at key rows k = Some r \<and> mine r)"
      by (simp add: set_od_keys domIff)
  next
    assume "map_of desired k = None \<and> (\<exists>r. row_at key rows k = Some r \<and> mine r)"
    then show "k \<in> set (stale_keys False key ?e desired)"
      using row_at_member [of key rows k] row_at_key [of key rows k]
      by (force simp: stale_keys_def set_od_keys domIff)
  qed
  have same: "row_at key ?e k = row_at key rows k" if "map_of desired k = Some r" for r
    using own that row_at_member [of key rows k] row_at_key [of key rows k]
    by (auto simp: at set_od_keys split: option.split)
  show ?thesis
    unfolding flush_rows_def row_at_replaces row_at_delete changed_at [OF desired] stale
    by (auto simp: next_row_def same split: option.splits)
qed

lemma flush_append:
  assumes desired: "filed key desired" and looked: "\<And>k. k \<in> set (od_keys desired) \<Longrightarrow> row_at key existing k = row_at key rows k"
  shows "row_at key (flush_rows key (stale_keys True key existing desired)
      (changed_rows key keep existing desired) rows) k =
    (case map_of desired k of Some r \<Rightarrow> Some (next_row key keep rows k r) | None \<Rightarrow> row_at key rows k)"
proof -
  have same: "row_at key existing k = row_at key rows k" if "map_of desired k = Some r" for r
    using looked that by (auto simp: set_od_keys)
  show ?thesis
    unfolding flush_rows_def row_at_replaces row_at_delete changed_at [OF desired]
    by (auto simp: stale_keys_def next_row_def same split: option.splits)
qed

end


section \<open>The four groups\<close>

record acc_tables =
  tb_ownership :: "own_interval list"
  tb_episodes :: "ep_row list"
  tb_effects :: "effect_row list"
  tb_positions :: "position_row list"
  tb_identities :: "(string \<times> int \<times> saved_episode list) list"

definition keep_new :: "'r \<Rightarrow> 'r \<Rightarrow> 'r" where
  "keep_new old new = new"

text \<open>The columns of value and cost of an episode are derived later and stay.\<close>

definition keep_values :: "ep_row \<Rightarrow> ep_row \<Rightarrow> ep_row" where
  "keep_values old new = new\<lparr>er_values := er_values old\<rparr>"

interpretation og: row_group ownership_key keep_new
  by unfold_locales (simp add: keep_new_def)

interpretation eg: row_group episode_key keep_values
  by unfold_locales (simp add: keep_values_def episode_key_def)

interpretation pg: row_group pr_key keep_new
  by unfold_locales (simp add: keep_new_def)

text \<open>
  The stored rows that \<^verbatim>\<open>prepare\<close> loads: all of the position, or, for an append, the intervals with the
  ordinals and the episodes with the identities of the buffer.
\<close>

definition loaded_ownership :: "bool \<Rightarrow> string \<Rightarrow> acc_tables \<Rightarrow> acc_writes \<Rightarrow> own_interval list" where
  "loaded_ownership append_only key tb w =
     List.filter (\<lambda>i. oi_key i = key \<and> (append_only \<longrightarrow> oi_ordinal i \<in> snd ` set (od_keys (aw_ownership w))))
       (tb_ownership tb)"

definition loaded_episodes :: "bool \<Rightarrow> string \<Rightarrow> acc_tables \<Rightarrow> acc_writes \<Rightarrow> ep_row list" where
  "loaded_episodes append_only key tb w =
     List.filter (\<lambda>r. if append_only then episode_key r \<in> set (od_keys (aw_episodes w)) else ep_key (er_facts r) = key)
       (tb_episodes tb)"

definition loaded_positions :: "string \<Rightarrow> acc_tables \<Rightarrow> position_row list" where
  "loaded_positions key tb = List.filter (\<lambda>r. pr_key r = key) (tb_positions tb)"

section \<open>Effects\<close>

text \<open>
  What \<^verbatim>\<open>prepare\<close> finds of the effects: the ids that are stale and that change, the pairs of episode
  and transaction that were stored, and the transactions and episodes whose costs are affected. The
  sets are lists.
\<close>

record effect_diff =
  ed_stale :: "int list"
  ed_changed :: "int list"
  ed_pairs :: "(string \<times> string) list"
  ed_txs :: "string list"
  ed_episodes :: "string list"

definition no_diff :: effect_diff where
  "no_diff = \<lparr>ed_stale = [], ed_changed = [], ed_pairs = [], ed_txs = [], ed_episodes = []\<rparr>"

definition note_tx :: "effect_row \<Rightarrow> effect_diff \<Rightarrow> effect_diff" where
  "note_tx r d = (if fr_tx_hash r = [] then d else d\<lparr>ed_txs := fr_tx_hash r # ed_txs d\<rparr>)"

definition note_pair :: "effect_row \<Rightarrow> effect_diff \<Rightarrow> effect_diff" where
  "note_pair r d =
     (case fr_episode_id r of None \<Rightarrow> d | Some x \<Rightarrow> d\<lparr>ed_pairs := (x, fr_tx_hash r) # ed_pairs d\<rparr>)"

definition note_episode :: "effect_row \<Rightarrow> effect_diff \<Rightarrow> effect_diff" where
  "note_episode r d =
     (case fr_episode_id r of None \<Rightarrow> d
      | Some x \<Rightarrow> if x = [] then d else d\<lparr>ed_episodes := x # ed_episodes d\<rparr>)"

definition note_change :: "effect_row \<Rightarrow> effect_row \<Rightarrow> effect_diff \<Rightarrow> effect_diff" where
  "note_change prior r d =
     (let d = note_tx prior (d\<lparr>ed_changed := fr_event_id r # ed_changed d\<rparr>);
          d = (if fr_episode_id prior \<noteq> fr_episode_id r then note_episode prior d else d)
      in note_tx r d)"

text \<open>A stored effect of the position, in a full replay.\<close>

definition diff_stored :: "(int, effect_row) odict \<Rightarrow> effect_row \<Rightarrow> effect_diff \<Rightarrow> effect_diff" where
  "diff_stored desired prior d =
     (let d = note_pair prior d
      in case map_of desired (fr_event_id prior) of
           None \<Rightarrow> note_episode prior (note_tx prior (d\<lparr>ed_stale := fr_event_id prior # ed_stale d\<rparr>))
         | Some r \<Rightarrow> if prior \<noteq> r then note_change prior r d else d)"

text \<open>An effect of the buffer that the position did not have: another position may have it.\<close>

definition diff_moved :: "effect_row list \<Rightarrow> effect_row \<Rightarrow> effect_diff \<Rightarrow> effect_diff" where
  "diff_moved rows r d =
     (case row_at fr_event_id rows (fr_event_id r) of
        Some prior \<Rightarrow> if prior = r then d else note_change prior r (note_pair prior d)
      | None \<Rightarrow> note_tx r (d\<lparr>ed_changed := fr_event_id r # ed_changed d\<rparr>))"

definition diff_full :: "string \<Rightarrow> effect_row list \<Rightarrow> (int, effect_row) odict \<Rightarrow> effect_diff" where
  "diff_full key rows desired =
     (let mine = List.filter (\<lambda>r. fr_key r = key) rows;
          rest = List.filter (\<lambda>(i, r). i \<notin> fr_event_id ` set mine) desired
      in fold (\<lambda>(i, r). diff_moved rows r) (sort_key fst rest) (fold (diff_stored desired) mine no_diff))"

text \<open>An append compares the effects of the buffer only, and looks up whether a pair is stored.\<close>

definition diff_looked_up :: "(int, effect_row) odict \<Rightarrow> effect_row \<Rightarrow> effect_diff \<Rightarrow> effect_diff" where
  "diff_looked_up desired prior d =
     (let d = note_pair prior d
      in case map_of desired (fr_event_id prior) of
           None \<Rightarrow> d
         | Some r \<Rightarrow> if prior \<noteq> r then note_change prior r d else d)"

definition diff_append :: "effect_row list \<Rightarrow> (int, effect_row) odict \<Rightarrow> effect_diff" where
  "diff_append rows desired =
     (let found = List.filter (\<lambda>r. fr_event_id r \<in> set (od_keys desired)) rows;
          d = fold (diff_looked_up desired) found no_diff;
          rest = List.filter (\<lambda>(i, r). i \<notin> fr_event_id ` set found) desired;
          d = fold (\<lambda>(i, r) d. note_tx r (d\<lparr>ed_changed := i # ed_changed d\<rparr>)) (sort_key fst rest) d;
          stored = List.filter (\<lambda>r. list_ex (\<lambda>(i, q). fr_episode_id q \<noteq> None
             \<and> fr_episode_id q = fr_episode_id r \<and> fr_tx_hash q = fr_tx_hash r) desired) rows
      in fold note_pair stored d)"

definition effect_changes :: "bool \<Rightarrow> string \<Rightarrow> effect_row list \<Rightarrow> (int, effect_row) odict \<Rightarrow> effect_diff" where
  "effect_changes append_only key rows desired =
     (if append_only then diff_append rows desired else diff_full key rows desired)"

text \<open>The upsert of an effect: another position's row is only taken with the event's key.\<close>

definition upsert_effect :: "(int \<times> string) list \<Rightarrow> effect_row \<Rightarrow> effect_row list \<Rightarrow> effect_row list" where
  "upsert_effect event_keys r rows =
     (case row_at fr_event_id rows (fr_event_id r) of
        None \<Rightarrow> rows @ [r]
      | Some old \<Rightarrow>
          if old \<noteq> r \<and> (fr_key old = fr_key r \<or> (fr_event_id r, fr_key r) \<in> set event_keys)
          then map (\<lambda>x. if fr_event_id x = fr_event_id r then r else x) rows
          else rows)"

definition flush_effects ::
  "string \<Rightarrow> (int \<times> string) list \<Rightarrow> effect_diff \<Rightarrow> (int, effect_row) odict \<Rightarrow> effect_row list \<Rightarrow> effect_row list" where
  "flush_effects key event_keys d desired rows =
     fold (upsert_effect event_keys)
       (List.map_filter (map_of desired) (sort (ed_changed d)))
       (List.filter (\<lambda>r. \<not> (fr_event_id r \<in> set (ed_stale d) \<and> fr_key r = key)) rows)"

section \<open>Preparation and flush\<close>

record prepared_writes =
  pp_ownership :: "(string \<times> int) list \<times> own_interval list"
  pp_episodes :: "string list \<times> ep_row list"
  pp_positions :: "string list \<times> position_row list"
  pp_effects :: effect_diff
  pp_txs :: "string list"
  pp_changed_episodes :: "string list"
  pp_gas_episodes :: "string list"

text \<open>The episodes of the buffer whose stored owner is another, or that are new.\<close>

definition owner_changed :: "ep_row list \<Rightarrow> ep_row list \<Rightarrow> string list" where
  "owner_changed existing changed =
     map episode_key
       (List.filter (\<lambda>r. case row_at episode_key existing (episode_key r) of
          None \<Rightarrow> True | Some old \<Rightarrow> ep_owner (er_facts old) \<noteq> ep_owner (er_facts r)) changed)"

definition desired_pairs :: "(int, effect_row) odict \<Rightarrow> (string \<times> string) list" where
  "desired_pairs desired =
     List.map_filter (\<lambda>(i, r). map_option (\<lambda>x. (x, fr_tx_hash r)) (fr_episode_id r)) desired"

definition odd_pairs :: "(string \<times> string) list \<Rightarrow> (string \<times> string) list \<Rightarrow> (string \<times> string) list" where
  "odd_pairs a b = List.filter (\<lambda>p. p \<notin> set b) a @ List.filter (\<lambda>p. p \<notin> set a) b"

text \<open>\<open>costs\<close>: the transactions of the position whose stored cost is missing or out of date.\<close>

definition prepare_writes :: "bool \<Rightarrow> string \<Rightarrow> string list \<Rightarrow> acc_tables \<Rightarrow> acc_writes \<Rightarrow> prepared_writes" where
  "prepare_writes append_only key costs tb w =
     (let own = loaded_ownership append_only key tb w;
          eps = loaded_episodes append_only key tb w;
          pos = loaded_positions key tb;
          changed = changed_rows episode_key keep_values eps (aw_episodes w);
          d = effect_changes append_only key (tb_effects tb) (aw_effects w);
          owners = owner_changed eps changed
      in \<lparr>pp_ownership = (stale_keys append_only ownership_key own (aw_ownership w),
            changed_rows ownership_key keep_new own (aw_ownership w)),
          pp_episodes = (stale_keys append_only episode_key eps (aw_episodes w), changed),
          pp_positions = (stale_keys append_only pr_key pos (aw_positions w),
            changed_rows pr_key keep_new pos (aw_positions w)),
          pp_effects = d,
          pp_txs = ed_txs d
            @ (if append_only \<or> aw_effects w = [] then [] else costs)
            @ map fr_tx_hash (List.filter (\<lambda>r. fr_tx_hash r \<noteq> []
                \<and> (case fr_episode_id r of None \<Rightarrow> False | Some x \<Rightarrow> x \<in> set owners)) (tb_effects tb)),
          pp_changed_episodes = map episode_key changed @ ed_episodes d,
          pp_gas_episodes = map fst (odd_pairs (ed_pairs d) (desired_pairs (aw_effects w)))\<rparr>)"

text \<open>The identities that were saved for the replay are used up.\<close>

definition flush_writes ::
  "bool \<Rightarrow> string \<Rightarrow> (int \<times> string) list \<Rightarrow> string list \<Rightarrow> acc_writes \<Rightarrow> acc_tables \<Rightarrow> acc_tables" where
  "flush_writes append_only key event_keys costs w tb =
     (let p = prepare_writes append_only key costs tb w
      in \<lparr>tb_ownership = flush_rows ownership_key (fst (pp_ownership p)) (snd (pp_ownership p)) (tb_ownership tb),
          tb_episodes = flush_rows episode_key (fst (pp_episodes p)) (snd (pp_episodes p)) (tb_episodes tb),
          tb_effects = flush_effects key event_keys (pp_effects p) (aw_effects w) (tb_effects tb),
          tb_positions = flush_rows pr_key (fst (pp_positions p)) (snd (pp_positions p)) (tb_positions tb),
          tb_identities = List.filter (\<lambda>r. fst r \<noteq> key) (tb_identities tb)\<rparr>)"

end
