(* ===== verification/Acc_Publish.thy ===== *)
theory Acc_Publish
  imports Acc_Append Acc_Flush
begin

text \<open>
  What a published replay leaves in the tables: the rows of the replay and, of the rows before, those
  of other positions; and that every transaction whose effects a publication changes is reported, so
  that its cost is attributed again.
\<close>

section \<open>The buffer of a replay\<close>

lemma emits_filed: "emits f \<Longrightarrow> filed_writes (snd (f no_writes))"
  by (auto simp: emits_def writer_def)

lemma derive_filed: "filed_writes (snd (derive pools key saved es state))"
  using emits_filed [OF emits_then [OF run_emits emits_save_run]]
  by (simp add: derive_def Let_def split: option.split prod.split)

section \<open>The comparison of effects\<close>

lemma fold_sets:
  assumes "\<And>x d. set (g (f x d)) = A x \<union> set (g d)"
  shows "set (g (fold f xs d)) = (\<Union>x \<in> set xs. A x) \<union> set (g d)"
  by (induction xs arbitrary: d) (auto simp: assms)

lemma fold_snd: "fold (\<lambda>(i, r). f r) xs d = fold f (map snd xs) d"
  by (induction xs arbitrary: d) auto

definition tx_of :: "effect_row \<Rightarrow> string set" where
  "tx_of r = (if fr_tx_hash r = [] then {} else {fr_tx_hash r})"

lemma note_frame [simp]:
  "ed_stale (note_tx r d) = ed_stale d" "ed_changed (note_tx r d) = ed_changed d"
  "set (ed_txs (note_tx r d)) = tx_of r \<union> set (ed_txs d)"
  "ed_stale (note_pair r d) = ed_stale d" "ed_changed (note_pair r d) = ed_changed d"
  "ed_txs (note_pair r d) = ed_txs d"
  "ed_stale (note_episode r d) = ed_stale d" "ed_changed (note_episode r d) = ed_changed d"
  "ed_txs (note_episode r d) = ed_txs d"
  by (simp_all add: note_tx_def note_pair_def note_episode_def tx_of_def split: option.split)

lemma note_change_frame [simp]:
  "ed_stale (note_change p r d) = ed_stale d" "ed_changed (note_change p r d) = fr_event_id r # ed_changed d"
  "set (ed_txs (note_change p r d)) = tx_of p \<union> tx_of r \<union> set (ed_txs d)"
  by (auto simp: note_change_def Let_def)

text \<open>What one stored row, or one row of the buffer, adds.\<close>

definition differs :: "(int, effect_row) odict \<Rightarrow> effect_row \<Rightarrow> effect_row set" where
  "differs desired p = (case map_of desired (fr_event_id p) of None \<Rightarrow> {} | Some r \<Rightarrow> if p \<noteq> r then {r} else {})"

lemma stored_sets:
  "set (ed_stale (diff_stored desired p d)) =
    (if map_of desired (fr_event_id p) = None then {fr_event_id p} else {}) \<union> set (ed_stale d)"
  "set (ed_changed (diff_stored desired p d)) = fr_event_id ` differs desired p \<union> set (ed_changed d)"
  "set (ed_txs (diff_stored desired p d)) =
    (if map_of desired (fr_event_id p) = None then tx_of p
     else \<Union>r \<in> differs desired p. tx_of p \<union> tx_of r) \<union> set (ed_txs d)"
  by (auto simp: diff_stored_def differs_def Let_def split: option.split)

lemma looked_up_sets:
  "ed_stale (diff_looked_up desired p d) = ed_stale d"
  "set (ed_changed (diff_looked_up desired p d)) = fr_event_id ` differs desired p \<union> set (ed_changed d)"
  "set (ed_txs (diff_looked_up desired p d)) =
    (\<Union>r \<in> differs desired p. tx_of p \<union> tx_of r) \<union> set (ed_txs d)"
  by (auto simp: diff_looked_up_def differs_def Let_def split: option.split)

definition moved :: "effect_row list \<Rightarrow> effect_row \<Rightarrow> bool" where
  "moved rows r \<longleftrightarrow> row_at fr_event_id rows (fr_event_id r) \<noteq> Some r"

definition old_txs :: "effect_row list \<Rightarrow> int \<Rightarrow> string set" where
  "old_txs rows i = (case row_at fr_event_id rows i of None \<Rightarrow> {} | Some p \<Rightarrow> tx_of p)"

lemma moved_sets:
  "ed_stale (diff_moved rows r d) = ed_stale d"
  "set (ed_changed (diff_moved rows r d)) = (if moved rows r then {fr_event_id r} else {}) \<union> set (ed_changed d)"
  "set (ed_txs (diff_moved rows r d)) =
    (if moved rows r then old_txs rows (fr_event_id r) \<union> tx_of r else {}) \<union> set (ed_txs d)"
  by (auto simp: diff_moved_def moved_def old_txs_def split: option.split)


lemma moved_fold:
  "ed_stale (fold (diff_moved rows) rs d) = ed_stale d"
  "set (ed_changed (fold (diff_moved rows) rs d)) =
    (\<Union>r \<in> set rs. if moved rows r then {fr_event_id r} else {}) \<union> set (ed_changed d)"
  "set (ed_txs (fold (diff_moved rows) rs d)) =
    (\<Union>r \<in> set rs. if moved rows r then old_txs rows (fr_event_id r) \<union> tx_of r else {}) \<union> set (ed_txs d)"
  by (induction rs arbitrary: d) (auto simp: moved_sets)

lemma stored_fold:
  "set (ed_stale (fold (diff_stored desired) ps d)) =
    (\<Union>p \<in> set ps. if map_of desired (fr_event_id p) = None then {fr_event_id p} else {}) \<union> set (ed_stale d)"
  "set (ed_changed (fold (diff_stored desired) ps d)) =
    (\<Union>p \<in> set ps. fr_event_id ` differs desired p) \<union> set (ed_changed d)"
  "set (ed_txs (fold (diff_stored desired) ps d)) =
    (\<Union>p \<in> set ps. if map_of desired (fr_event_id p) = None then tx_of p
       else \<Union>r \<in> differs desired p. tx_of p \<union> tx_of r) \<union> set (ed_txs d)"
  by (rule fold_sets, rule stored_sets)+

lemma no_diff_frame [simp]: "ed_stale no_diff = []" "ed_changed no_diff = []" "ed_txs no_diff = []"
  by (simp_all add: no_diff_def)

section \<open>Which effects change\<close>

definition changed_ids :: "effect_row list \<Rightarrow> (int, effect_row) odict \<Rightarrow> int set" where
  "changed_ids rows desired = {i. \<exists>r. map_of desired i = Some r \<and> row_at fr_event_id rows i \<noteq> Some r}"

definition lost_ids :: "string \<Rightarrow> effect_row list \<Rightarrow> (int, effect_row) odict \<Rightarrow> int set" where
  "lost_ids key rows desired =
    {i. map_of desired i = None \<and> (\<exists>p. row_at fr_event_id rows i = Some p \<and> fr_key p = key)}"

lemma filed_at: "filed key d \<Longrightarrow> (k, r) \<in> set d \<longleftrightarrow> map_of d k = Some r"
  by (auto simp: filed_def od_ok_def od_keys_def)

lemma filed_id: "filed key d \<Longrightarrow> map_of d k = Some r \<Longrightarrow> key r = k"
  using filed_key [of key d k r] by (simp add: map_of_SomeD)

text \<open>The rows of the buffer that are not among some loaded rows.\<close>

lemma rest_moved:
  assumes rows: "distinct (map fr_event_id rows)" and f: "filed fr_event_id desired"
    and part: "set found \<subseteq> set rows"
  shows "(\<Union>p \<in> set found. fr_event_id ` differs desired p)
      \<union> {i. \<exists>r. (i, r) \<in> set (List.filter (\<lambda>(i, r). i \<notin> fr_event_id ` set found) desired) \<and> moved rows r}
    = changed_ids rows desired" (is "?a \<union> ?b = ?c")
proof
  have at: "row_at fr_event_id rows (fr_event_id p) = Some p" if "p \<in> set found" for p
    using row_at_unique [OF rows] part that by blast
  have "?a \<subseteq> ?c"
  proof
    fix i assume "i \<in> ?a"
    then obtain p r where p: "p \<in> set found" "r \<in> differs desired p" "i = fr_event_id r" by blast
    then have r: "map_of desired (fr_event_id p) = Some r" "p \<noteq> r"
      by (auto simp: differs_def split: option.splits if_splits)
    with p at [OF p(1)] filed_id [OF f r(1)] show "i \<in> ?c" by (simp add: changed_ids_def)
  qed
  moreover have "?b \<subseteq> ?c"
  proof
    fix i assume "i \<in> ?b"
    then obtain r where r: "(i, r) \<in> set desired" "moved rows r" by auto
    with filed_key [OF f r(1)] filed_at [OF f, of i r] show "i \<in> ?c" by (simp add: changed_ids_def moved_def)
  qed
  ultimately show "?a \<union> ?b \<subseteq> ?c" by blast
  show "?c \<subseteq> ?a \<union> ?b"
  proof
    fix i assume "i \<in> ?c"
    then obtain r where r: "map_of desired i = Some r" "row_at fr_event_id rows i \<noteq> Some r"
      by (auto simp: changed_ids_def)
    show "i \<in> ?a \<union> ?b"
    proof (cases "i \<in> fr_event_id ` set found")
      case True
      then obtain p where p: "p \<in> set found" "i = fr_event_id p" by blast
      then have "p \<noteq> r" using r(2) at by auto
      then have "r \<in> differs desired p" using p r by (simp add: differs_def)
      then have "i \<in> fr_event_id ` differs desired p"
        using imageI [of r "differs desired p" fr_event_id] filed_id [OF f r(1)] by simp
      then show ?thesis using p(1) by (intro UnI1 UN_I)
    next
      case False
      moreover have "(i, r) \<in> set desired" using filed_at [OF f, of i r] r(1) by simp
      ultimately show ?thesis using r(2) filed_id [OF f r(1)] by (auto simp: moved_def)
    qed
  qed
qed

lemma full_changes:
  assumes rows: "distinct (map fr_event_id rows)" and f: "filed fr_event_id desired"
  shows "set (ed_changed (diff_full key rows desired)) = changed_ids rows desired"
    and "set (ed_stale (diff_full key rows desired)) = lost_ids key rows desired"
proof -
  define mine where "mine = List.filter (\<lambda>r. fr_key r = key) rows"
  define rest where "rest = List.filter (\<lambda>(i, r). i \<notin> fr_event_id ` set mine) desired"
  define rs where "rs = map snd (sort_key fst rest)"
  have rs: "set rs = snd ` set rest" by (simp add: rs_def)
  have D: "diff_full key rows desired = fold (diff_moved rows) rs (fold (diff_stored desired) mine no_diff)"
    by (simp add: diff_full_def Let_def mine_def rest_def fold_snd rs_def)
  have b: "{i. \<exists>r. (i, r) \<in> set rest \<and> moved rows r} = (\<Union>r \<in> set rs. if moved rows r then {fr_event_id r} else {})"
  proof (rule set_eqI)
    fix i
    have id: "fr_event_id r = n" if "(n, r) \<in> set rest" for n r
      using filed_key [OF f, of n r] that by (simp add: rest_def)
    show "i \<in> {i. \<exists>r. (i, r) \<in> set rest \<and> moved rows r} \<longleftrightarrow>
        i \<in> (\<Union>r \<in> set rs. if moved rows r then {fr_event_id r} else {})" (is "?l \<longleftrightarrow> ?r")
    proof
      assume ?l
      then obtain r where r: "(i, r) \<in> set rest" "moved rows r" by blast
      moreover have "r \<in> set rs" unfolding rs by (rule image_eqI [OF _ r(1)]) simp
      ultimately show ?r using id by auto
    next
      assume ?r
      then obtain r where r: "r \<in> set rs" "moved rows r" "i = fr_event_id r" by (auto split: if_splits)
      then obtain n where "(n, r) \<in> set rest" by (auto simp: rs)
      with id r show ?l by auto
    qed
  qed
  have "set (ed_changed (diff_full key rows desired)) =
      (\<Union>p \<in> set mine. fr_event_id ` differs desired p) \<union> {i. \<exists>r. (i, r) \<in> set rest \<and> moved rows r}"
    unfolding b by (simp add: D moved_fold stored_fold Un_commute)
  then show "set (ed_changed (diff_full key rows desired)) = changed_ids rows desired"
    using rest_moved [OF rows f, of mine] by (simp add: mine_def rest_def)
  have "set (ed_stale (diff_full key rows desired)) =
      (\<Union>p \<in> set mine. if map_of desired (fr_event_id p) = None then {fr_event_id p} else {})"
    by (simp add: D moved_fold stored_fold)
  also have "\<dots> = {i. \<exists>p \<in> set mine. fr_event_id p = i \<and> map_of desired i = None}"
    by (auto split: if_splits)
  also have "\<dots> = lost_ids key rows desired"
  proof -
    have "p \<in> set mine \<and> fr_event_id p = i \<longleftrightarrow> row_at fr_event_id rows i = Some p \<and> fr_key p = key" for p i
      using row_at_unique [OF rows, of p] row_at_member [of fr_event_id rows i p] row_at_key [of fr_event_id rows i p]
      by (auto simp: mine_def)
    then show ?thesis unfolding lost_ids_def by blast
  qed
  finally show "set (ed_stale (diff_full key rows desired)) = lost_ids key rows desired" .
qed

text \<open>Every transaction of an effect that changes or is lost is noted.\<close>

lemma full_txs:
  assumes rows: "distinct (map fr_event_id rows)" and f: "filed fr_event_id desired"
  shows "i \<in> changed_ids rows desired \<union> lost_ids key rows desired \<Longrightarrow>
      old_txs rows i \<subseteq> set (ed_txs (diff_full key rows desired))"
    and "i \<in> changed_ids rows desired \<Longrightarrow> map_of desired i = Some r \<Longrightarrow>
      tx_of r \<subseteq> set (ed_txs (diff_full key rows desired))"
proof -
  define mine where "mine = List.filter (\<lambda>r. fr_key r = key) rows"
  define rest where "rest = List.filter (\<lambda>(i, r). i \<notin> fr_event_id ` set mine) desired"
  define rs where "rs = map snd (sort_key fst rest)"
  have rs: "set rs = snd ` set rest" by (simp add: rs_def)
  have D: "diff_full key rows desired = fold (diff_moved rows) rs (fold (diff_stored desired) mine no_diff)"
    by (simp add: diff_full_def Let_def mine_def rest_def fold_snd rs_def)
  have txs: "set (ed_txs (diff_full key rows desired)) =
      (\<Union>r \<in> set rs. if moved rows r then old_txs rows (fr_event_id r) \<union> tx_of r else {})
      \<union> (\<Union>p \<in> set mine. if map_of desired (fr_event_id p) = None then tx_of p
           else \<Union>r \<in> differs desired p. tx_of p \<union> tx_of r)"
    by (simp add: D moved_fold stored_fold)
  have stored: "tx_of p \<subseteq> set (ed_txs (diff_full key rows desired))"
    if "p \<in> set mine" "map_of desired (fr_event_id p) = None" for p
    using that by (force simp: txs)
  have old: "row_at fr_event_id rows (fr_event_id p) = Some p" if "p \<in> set mine" for p
    using row_at_unique [OF rows] that by (simp add: mine_def)
  have both: "old_txs rows i \<union> tx_of r \<subseteq> set (ed_txs (diff_full key rows desired))"
    if r: "map_of desired i = Some r" "row_at fr_event_id rows i \<noteq> Some r" for i r
  proof (cases "i \<in> fr_event_id ` set mine")
    case True
    then obtain p where p: "p \<in> set mine" "i = fr_event_id p" by blast
    then have "r \<in> differs desired p" using r old by (auto simp: differs_def)
    then have "tx_of p \<union> tx_of r \<subseteq> set (ed_txs (diff_full key rows desired))"
      using p r(1) unfolding txs by fastforce
    then show ?thesis using p old by (simp add: old_txs_def)
  next
    case False
    have "fr_event_id r = i" by (rule filed_id [OF f r(1)])
    moreover have "(i, r) \<in> set rest" using False filed_at [OF f, of i r] r(1) by (simp add: rest_def)
    then have "r \<in> set rs" unfolding rs by force
    ultimately show ?thesis using r(2) unfolding txs by (force simp: moved_def)
  qed
  show "old_txs rows i \<subseteq> set (ed_txs (diff_full key rows desired))"
    if "i \<in> changed_ids rows desired \<union> lost_ids key rows desired"
    using that
  proof
    assume "i \<in> changed_ids rows desired"
    then show ?thesis using both by (auto simp: changed_ids_def)
  next
    assume "i \<in> lost_ids key rows desired"
    then obtain p where p: "map_of desired i = None" "row_at fr_event_id rows i = Some p" "fr_key p = key"
      by (auto simp: lost_ids_def)
    then have "p \<in> set mine" "fr_event_id p = i"
      using row_at_member row_at_key by (fastforce simp: mine_def)+
    with stored [of p] p show ?thesis by (simp add: old_txs_def)
  qed
  show "tx_of r \<subseteq> set (ed_txs (diff_full key rows desired))"
    if "i \<in> changed_ids rows desired" "map_of desired i = Some r"
    using that both by (auto simp: changed_ids_def)
qed

section \<open>The flush of effects\<close>

text \<open>A row of another position is only replaced where the event is keyed to the new one.\<close>

definition upserted :: "(int \<times> string) list \<Rightarrow> effect_row option \<Rightarrow> effect_row \<Rightarrow> effect_row" where
  "upserted event_keys old r =
    (case old of
       None \<Rightarrow> r
     | Some p \<Rightarrow> if fr_key p = fr_key r \<or> (fr_event_id r, fr_key r) \<in> set event_keys then r else p)"

lemma row_at_map:
  "(\<And>x. key (f x) = key x) \<Longrightarrow> row_at key (map f rows) k = map_option f (row_at key rows k)"
  unfolding row_at_def by (induction rows) simp_all

lemma upsert_at:
  "row_at fr_event_id (upsert_effect event_keys r rows) k =
    (if k = fr_event_id r then Some (upserted event_keys (row_at fr_event_id rows k) r) else row_at fr_event_id rows k)"
proof (cases "row_at fr_event_id rows (fr_event_id r)")
  case None
  then show ?thesis
    by (simp add: upsert_effect_def upserted_def row_at_append) (simp add: row_at_def split: option.split)
next
  case (Some p)
  define f where "f = (\<lambda>x. if fr_event_id x = fr_event_id r then r else x)"
  have f: "row_at fr_event_id (map f rows) k = map_option f (row_at fr_event_id rows k)"
    by (rule row_at_map) (simp add: f_def)
  have p: "fr_event_id p = fr_event_id r" by (rule row_at_key [OF Some])
  show ?thesis
  proof (cases "k = fr_event_id r")
    case True
    then show ?thesis
      using Some p f by (auto simp: upsert_effect_def upserted_def f_def [symmetric]) (simp_all add: f_def)
  next
    case False
    then have "map_option f (row_at fr_event_id rows k) = row_at fr_event_id rows k"
      using row_at_key [of fr_event_id rows k] by (cases "row_at fr_event_id rows k") (auto simp: f_def)
    with Some False f show ?thesis by (simp add: upsert_effect_def f_def)
  qed
qed

lemma upserts_at:
  assumes "\<And>r. r \<in> set rs \<Longrightarrow> map_of desired (fr_event_id r) = Some r"
  shows "row_at fr_event_id (fold (upsert_effect event_keys) rs rows) k =
    (if k \<in> fr_event_id ` set rs then map_option (upserted event_keys (row_at fr_event_id rows k)) (map_of desired k)
     else row_at fr_event_id rows k)"
  using assms
proof (induction rs arbitrary: rows)
  case (Cons r rs)
  have again: "upserted event_keys (Some (upserted event_keys old r)) r = upserted event_keys old r" for old
    by (simp add: upserted_def split: option.split)
  have r: "map_of desired (fr_event_id r) = Some r" using Cons.prems by simp
  have ih: "row_at fr_event_id (fold (upsert_effect event_keys) rs (upsert_effect event_keys r rows)) k =
      (if k \<in> fr_event_id ` set rs
       then map_option (upserted event_keys (row_at fr_event_id (upsert_effect event_keys r rows) k)) (map_of desired k)
       else row_at fr_event_id (upsert_effect event_keys r rows) k)"
    by (rule Cons.IH) (rule Cons.prems, simp)
  show ?case
  proof (cases "k = fr_event_id r")
    case True
    show ?thesis using ih [unfolded True] r unfolding True by (simp add: upsert_at again)
  next
    case False
    then show ?thesis by (simp add: ih upsert_at)
  qed
qed simp

lemma changed_rows_of:
  assumes f: "filed fr_event_id desired" and ids: "set ids \<subseteq> fst ` set desired"
  shows "r \<in> set (List.map_filter (map_of desired) ids) \<Longrightarrow> map_of desired (fr_event_id r) = Some r"
    and "fr_event_id ` set (List.map_filter (map_of desired) ids) = set ids"
proof -
  have s: "set (List.map_filter (map_of desired) ids) = {r. \<exists>i \<in> set ids. map_of desired i = Some r}"
    by (induction ids) (auto simp: map_filter_simps split: option.split)
  show "r \<in> set (List.map_filter (map_of desired) ids) \<Longrightarrow> map_of desired (fr_event_id r) = Some r"
    using filed_id [OF f] by (auto simp: s)
  show "fr_event_id ` set (List.map_filter (map_of desired) ids) = set ids"
  proof
    show "fr_event_id ` set (List.map_filter (map_of desired) ids) \<subseteq> set ids"
      unfolding s using filed_id [OF f] by fastforce
    show "set ids \<subseteq> fr_event_id ` set (List.map_filter (map_of desired) ids)"
    proof
      fix i assume i: "i \<in> set ids"
      then have "map_of desired i \<noteq> None" using ids by (auto simp: map_of_eq_None_iff)
      then obtain r where r: "map_of desired i = Some r" by blast
      then have "r \<in> set (List.map_filter (map_of desired) ids)" using i s by blast
      then show "i \<in> fr_event_id ` set (List.map_filter (map_of desired) ids)"
        using filed_id [OF f r] by (rule rev_image_eqI [OF _ sym])
    qed
  qed
qed

definition published_effect ::
  "string \<Rightarrow> (int \<times> string) list \<Rightarrow> effect_row list \<Rightarrow> (int, effect_row) odict \<Rightarrow> int \<Rightarrow> effect_row option" where
  "published_effect key event_keys rows desired k =
    (case map_of desired k of
       Some r \<Rightarrow> Some (upserted event_keys (row_at fr_event_id rows k) r)
     | None \<Rightarrow> (case row_at fr_event_id rows k of
         Some p \<Rightarrow> if fr_key p = key then None else Some p | None \<Rightarrow> None))"

lemma effects_published:
  assumes rows: "distinct (map fr_event_id rows)" and f: "filed fr_event_id desired"
  shows "row_at fr_event_id (flush_effects key event_keys (diff_full key rows desired) desired rows) k =
    published_effect key event_keys rows desired k"
proof -
  let ?D = "diff_full key rows desired"
  let ?kept = "List.filter (\<lambda>r. \<not> (fr_event_id r \<in> set (ed_stale ?D) \<and> fr_key r = key)) rows"
  have ids: "set (sort (ed_changed ?D)) = changed_ids rows desired"
    using full_changes(1) [OF rows f, of key] by simp
  then have sub: "set (sort (ed_changed ?D)) \<subseteq> fst ` set desired"
    by (auto simp: changed_ids_def dest: map_of_SomeD intro: rev_image_eqI)
  have kept: "row_at fr_event_id ?kept k = (if k \<in> lost_ids key rows desired then None else row_at fr_event_id rows k)"
  proof -
    have "row_at fr_event_id (List.filter (\<lambda>r. \<not> (fr_event_id r \<in> I \<and> fr_key r = key)) rs) k =
        (case row_at fr_event_id rs k of None \<Rightarrow> None | Some p \<Rightarrow> if k \<in> I \<and> fr_key p = key then None else Some p)"
      if "distinct (map fr_event_id rs)" for I rs
      using that unfolding row_at_def
      by (induction rs) (auto simp: find_None_iff dest!: found_member split: option.splits)
    then have "row_at fr_event_id ?kept k =
        (case row_at fr_event_id rows k of None \<Rightarrow> None
         | Some p \<Rightarrow> if k \<in> lost_ids key rows desired \<and> fr_key p = key then None else Some p)"
      unfolding full_changes(2) [OF rows f] using rows by blast
    then show ?thesis
      by (cases "row_at fr_event_id rows k") (auto simp: lost_ids_def)
  qed
  have "row_at fr_event_id (flush_effects key event_keys ?D desired rows) k =
      (if k \<in> changed_ids rows desired
       then map_option (upserted event_keys (row_at fr_event_id ?kept k)) (map_of desired k)
       else row_at fr_event_id ?kept k)"
    unfolding flush_effects_def
    using upserts_at [OF changed_rows_of(1) [OF f sub]] changed_rows_of(2) [OF f sub] ids by simp
  then show ?thesis
    unfolding kept published_effect_def
    by (auto simp: changed_ids_def lost_ids_def upserted_def split: option.splits)
qed

section \<open>What a publication leaves\<close>

text \<open>
  A table after a publication: the rows of the replay, and of the rows before those of other
  positions. \<open>keep\<close> is what a row that was stored keeps.
\<close>

definition published ::
  "('r \<Rightarrow> 'k) \<Rightarrow> ('r \<Rightarrow> 'r \<Rightarrow> 'r) \<Rightarrow> ('r \<Rightarrow> bool) \<Rightarrow> 'r list \<Rightarrow> ('k, 'r) odict \<Rightarrow> 'k \<Rightarrow> 'r option" where
  "published rkey keep mine rows desired k =
    (case map_of desired k of
       Some r \<Rightarrow> Some (next_row rkey keep rows k r)
     | None \<Rightarrow> (case row_at rkey rows k of Some r \<Rightarrow> if mine r then None else Some r | None \<Rightarrow> None))"

text \<open>The keys of the tables are unique.\<close>

definition keyed_tables :: "acc_tables \<Rightarrow> bool" where
  "keyed_tables tb \<longleftrightarrow>
     distinct (map ownership_key (tb_ownership tb)) \<and> distinct (map episode_key (tb_episodes tb))
     \<and> distinct (map fr_event_id (tb_effects tb)) \<and> distinct (map pr_key (tb_positions tb))"

text \<open>No row of another position stands under a key of the buffer.\<close>

definition own_rows :: "string \<Rightarrow> acc_writes \<Rightarrow> acc_tables \<Rightarrow> bool" where
  "own_rows key w tb \<longleftrightarrow>
     list_all (\<lambda>r. ownership_key r \<in> set (od_keys (aw_ownership w)) \<longrightarrow> oi_key r = key) (tb_ownership tb)
     \<and> list_all (\<lambda>r. episode_key r \<in> set (od_keys (aw_episodes w)) \<longrightarrow> ep_key (er_facts r) = key) (tb_episodes tb)
     \<and> list_all (\<lambda>r. pr_key r \<in> set (od_keys (aw_positions w)) \<longrightarrow> pr_key r = key) (tb_positions tb)"

text \<open>The events table has every effect of the buffer under the effect's position.\<close>

definition events_keyed :: "(int \<times> string) list \<Rightarrow> acc_writes \<Rightarrow> bool" where
  "events_keyed event_keys w \<longleftrightarrow>
     list_all (\<lambda>(i, r). (fr_event_id r, fr_key r) \<in> set event_keys) (aw_effects w)"

lemma map_of_but: "map_of (List.filter (\<lambda>r. fst r \<noteq> k) rows) = (map_of rows)(k := None)"
  by (induction rows) (auto simp: fun_eq_iff)

lemma tables_published:
  assumes w: "filed_writes w" and tb: "keyed_tables tb" and own: "own_rows key w tb" and ev: "events_keyed event_keys w"
    and tb'_def: "tb' = flush_writes False key event_keys costs w tb"
  shows "row_at ownership_key (tb_ownership tb') =
      published ownership_key keep_new (\<lambda>r. oi_key r = key) (tb_ownership tb) (aw_ownership w)" (is ?o)
    and "row_at episode_key (tb_episodes tb') =
      published episode_key keep_values (\<lambda>r. ep_key (er_facts r) = key) (tb_episodes tb) (aw_episodes w)" (is ?e)
    and "row_at pr_key (tb_positions tb') =
      published pr_key keep_new (\<lambda>r. pr_key r = key) (tb_positions tb) (aw_positions w)" (is ?p)
    and "row_at fr_event_id (tb_effects tb') =
      published fr_event_id keep_new (\<lambda>r. fr_key r = key) (tb_effects tb) (aw_effects w)" (is ?f)
proof -
  note filed = w [unfolded filed_writes_def]
  note keys = tb [unfolded keyed_tables_def]
  note parts = flush_writes_def prepare_writes_def Let_def prepared_writes.simps acc_tables.simps fst_conv snd_conv
  show ?o
    unfolding tb'_def parts loaded_ownership_def published_def if_False
    using og.flush_full [of "aw_ownership w" "tb_ownership tb" "\<lambda>r. oi_key r = key"] filed keys own
    by (intro ext) (simp add: own_rows_def list_all_iff)
  show ?e
    unfolding tb'_def parts loaded_episodes_def published_def if_False
    using eg.flush_full [of "aw_episodes w" "tb_episodes tb" "\<lambda>r. ep_key (er_facts r) = key"] filed keys own
    by (intro ext) (simp add: own_rows_def list_all_iff)
  show ?p
    unfolding tb'_def parts loaded_positions_def published_def if_False
    using pg.flush_full [of "aw_positions w" "tb_positions tb" "\<lambda>r. pr_key r = key"] filed keys own
    by (intro ext) (simp add: own_rows_def list_all_iff)
  have at: "upserted event_keys old r = keep_new q r" if "(i, r) \<in> set (aw_effects w)" for i r old q
    using ev that by (auto simp: upserted_def keep_new_def events_keyed_def list_all_iff split: option.split)
  have "row_at fr_event_id (tb_effects tb') k =
      published fr_event_id keep_new (\<lambda>r. fr_key r = key) (tb_effects tb) (aw_effects w) k" for k
  proof -
    have "row_at fr_event_id (tb_effects tb') k = published_effect key event_keys (tb_effects tb) (aw_effects w) k"
      unfolding tb'_def parts effect_changes_def if_False
      by (rule effects_published) (use keys filed in blast)+
    also have "\<dots> = published fr_event_id keep_new (\<lambda>r. fr_key r = key) (tb_effects tb) (aw_effects w) k"
    proof (cases "map_of (aw_effects w) k")
      case None
      then show ?thesis by (simp add: published_effect_def published_def split: option.split)
    next
      case (Some r)
      then have "upserted event_keys old r = r" for old
        using at [OF map_of_SomeD [OF Some]] by (simp add: keep_new_def)
      with Some show ?thesis
        by (simp add: published_effect_def published_def next_row_def keep_new_def split: option.split)
    qed
    finally show ?thesis .
  qed
  then show ?f by blast
qed

text \<open>
  C35. A full replay that is published replaces the position's rows: each of the four tables then has
  the row of the replay under every key that the replay wrote (an episode keeps the columns of value
  that a later step derived), no other row of the position, and every row of another position as it
  was; the identities saved for the replay are used up.
\<close>

theorem replay_published:
  assumes "w = snd (derive pools key saved es None)" and "keyed_tables tb" and "own_rows key w tb"
    and "events_keyed event_keys w" and "tb' = flush_writes False key event_keys costs w tb"
  shows "row_at ownership_key (tb_ownership tb') =
      published ownership_key keep_new (\<lambda>r. oi_key r = key) (tb_ownership tb) (aw_ownership w)
    \<and> row_at episode_key (tb_episodes tb') =
      published episode_key keep_values (\<lambda>r. ep_key (er_facts r) = key) (tb_episodes tb) (aw_episodes w)
    \<and> row_at pr_key (tb_positions tb') =
      published pr_key keep_new (\<lambda>r. pr_key r = key) (tb_positions tb) (aw_positions w)
    \<and> row_at fr_event_id (tb_effects tb') =
      published fr_event_id keep_new (\<lambda>r. fr_key r = key) (tb_effects tb) (aw_effects w)
    \<and> map_of (tb_identities tb') = (map_of (tb_identities tb))(key := None)"
proof -
  have "filed_writes w" using assms(1) derive_filed by simp
  note t = tables_published [OF this assms(2-5)]
  show ?thesis by (intro conjI t) (simp add: assms(5) flush_writes_def Let_def map_of_but)
qed

section \<open>The transactions that a publication reports\<close>

text \<open>
  C38. Whatever effect row a published replay changes, adds or removes, the transaction of the row
  before and that of the row after are among those whose costs are derived again.
\<close>

theorem changed_effects_reported:
  assumes "w = snd (derive pools key saved es None)" and "keyed_tables tb"
    and "row_at fr_event_id (tb_effects (flush_writes False key event_keys costs w tb)) i
      \<noteq> row_at fr_event_id (tb_effects tb) i"
    and "row_at fr_event_id (tb_effects tb) i = Some r
      \<or> row_at fr_event_id (tb_effects (flush_writes False key event_keys costs w tb)) i = Some r"
    and "fr_tx_hash r \<noteq> []"
  shows "fr_tx_hash r \<in> set (pp_txs (prepare_writes False key costs tb w))"
proof -
  let ?rows = "tb_effects tb" and ?d = "aw_effects w"
  have f: "filed fr_event_id ?d" using derive_filed assms(1) by (simp add: filed_writes_def)
  have rows: "distinct (map fr_event_id ?rows)" using assms(2) by (simp add: keyed_tables_def)
  have after: "row_at fr_event_id (tb_effects (flush_writes False key event_keys costs w tb)) i =
      published_effect key event_keys ?rows ?d i"
    unfolding flush_writes_def prepare_writes_def Let_def prepared_writes.simps acc_tables.simps effect_changes_def if_False
    by (rule effects_published [OF rows f])
  have txs: "set (ed_txs (diff_full key ?rows ?d)) \<subseteq> set (pp_txs (prepare_writes False key costs tb w))"
    by (simp add: prepare_writes_def Let_def effect_changes_def)
  have "tx_of r \<subseteq> set (ed_txs (diff_full key ?rows ?d))"
  proof (cases "map_of ?d i")
    case None
    then obtain p where p: "row_at fr_event_id ?rows i = Some p" "fr_key p = key" "r = p"
      using assms(3,4) unfolding after by (auto simp: published_effect_def split: option.splits if_splits)
    then have "i \<in> lost_ids key ?rows ?d" using None by (simp add: lost_ids_def)
    then show ?thesis using full_txs(1) [OF rows f, of i key] p by (simp add: old_txs_def)
  next
    case (Some q)
    then have c: "i \<in> changed_ids ?rows ?d" and r: "row_at fr_event_id ?rows i = Some r \<or> r = q"
      using assms(3,4) unfolding after
      by (auto simp: published_effect_def changed_ids_def upserted_def split: option.splits if_splits)
    then show ?thesis
      using full_txs(1) [OF rows f, of i key] full_txs(2) [OF rows f c Some, of key] by (auto simp: old_txs_def)
  qed
  then show ?thesis using txs assms(5) by (auto simp: tx_of_def)
qed

end
