(* ===== verification/Acc_Sample.thy ===== *)
theory Acc_Sample
  imports Acc_Exit Acc_Publish
begin

text \<open>
  A small history, a deposit into a V2 pair and its withdrawal, and the exit from a V3 position, on
  which the properties of market accounting are applied.
\<close>

section \<open>A deposit and its withdrawal\<close>

definition sample_event :: "int \<Rightarrow> int \<Rightarrow> string \<Rightarrow> string \<Rightarrow> int option \<Rightarrow> tokens \<Rightarrow> jdict \<Rightarrow> acc_event" where
  "sample_event n block kind protocol delta amounts data =
    \<lparr>ae_id = n, ae_block = block, ae_tx_hash = [], ae_tx_index = 0, ae_log_index = 0, ae_timestamp = block,
     ae_pool_id = None, ae_protocol = protocol, ae_kind = kind, ae_owner = None, ae_custody = None,
     ae_token_id = None, ae_tick_lower = None, ae_tick_upper = None, ae_liquidity_delta = jint delta,
     ae_amount0 = JInt (tok0 amounts), ae_amount1 = JInt (tok1 amounts), ae_fee_amount0 = JNull,
     ae_fee_amount1 = JNull, ae_cashflow0 = JNull, ae_cashflow1 = JNull,
     ae_price0_usd = None, ae_price1_usd = None, ae_fees_usd = None, ae_deposit_usd = None,
     ae_withdrawal_usd = None, ae_accounting_basis = None, ae_identity_basis = None, ae_data = data\<rparr>"

text \<open>The last withdrawal from a pair, with the state after it, and a later deposit.\<close>

definition pair_exit :: acc_event where
  "pair_exit = sample_event 1 10 ''remove'' ''v2'' (Some (- 5)) (Tokens 90 230)
     [(''position_after'', JObj [(''liquidity'', JInt 0)])]"

definition pair_again :: acc_event where
  "pair_again = sample_event 2 20 ''add'' ''v2'' (Some 7) (Tokens 10 20) []"

definition no_saved :: saved_ids where
  "no_saved = \<lparr>sv_position = None, sv_replay = None, sv_episodes = []\<rparr>"

definition no_pools :: pool_rows where
  "no_pools p = []"

lemma sample_kinds [simp]:
  "lower ''add'' = ''add''" "lower ''remove'' = ''remove''" "lower ''collect'' = ''collect''" "lower ''v2'' = ''v2''"
  by code_simp+

lemma no_saved_ok: "saved_ok key no_saved"
  by (simp add: saved_ok_def no_saved_def)

lemma sample_frame [simp]:
  "ae_id (sample_event n b k p d a x) = n" "ae_block (sample_event n b k p d a x) = b"
  "ae_protocol (sample_event n b k p d a x) = p" "ae_data (sample_event n b k p d a x) = x"
  "log_point_of (sample_event n b k p d a x) = (b, 0, 0)"
  "event_order (sample_event n b k p d a x) = (b, 0, 0, n)"
  "event_kind (sample_event n b k p d a x) = lower (text_or (Some k) ''unknown'')"
  "event_amounts (sample_event n b k p d a x) = Some a"
  "event_fees (sample_event n b k p d a x) = None"
  "raw_int (ae_liquidity_delta (sample_event n b k p d a x)) = d"
  "known_address (ae_owner (sample_event n b k p d a x)) = None"
  "known_address (ae_custody (sample_event n b k p d a x)) = None"
  "ae_pool_id (sample_event n b k p d a x) = None" "ae_token_id (sample_event n b k p d a x) = None"
  "ae_tick_lower (sample_event n b k p d a x) = None" "ae_tick_upper (sample_event n b k p d a x) = None"
  by (cases a; cases d; simp add: sample_event_def log_point_of_def event_order_def event_kind_def
      event_amounts_def event_fees_def raw_int_def pair_of_def jint_def known_address_def)+

lemma sample_log_ok: "log_ok [pair_exit, pair_again]"
  by (simp add: log_ok_def pair_exit_def pair_again_def nft_event_ok_def)

lemma sample_prepared: "prepare_events [pair_exit] = [pair_exit]"
  by (simp add: prepare_events_def mark_boundaries_def mark_event_def no_marks_def edge_event_def state_indices_def
      has_state_def event_state_def pair_exit_def dget_def Let_def)
    (simp add: sample_event_def)


text \<open>The withdrawal, stage by stage: its history is partial and its episode complete.\<close>

definition pair_start :: acc_state where
  "pair_start = new_state ''k'' pair_exit"

lemma pair_start_frame [simp]:
  "as_active pair_start = None" "as_owner pair_start = None" "as_protocol pair_start = ''v2''"
  "as_liquidity_known pair_start = False" "as_minted_to_owner pair_start = False"
  "as_key pair_start = ''k''" "as_episode_ordinal pair_start = 0" "as_version pair_start = SCHEMA_VERSION"
  by (simp_all add: pair_start_def new_state_def pair_exit_def)

lemma pair_protocol: "event_protocol pair_start pair_exit = ''v2''"
  by (simp add: event_protocol_def pair_exit_def text_or_def)

lemma pair_place: "note_place pair_exit pair_start = pair_start"
  by (simp add: note_place_def pair_protocol)
    (simp add: pair_start_def new_state_def pair_exit_def)

lemma pair_levels:
  "liquidity_before pair_start pair_exit = None" "liquidity_after pair_start pair_exit = Some 0"
  "\<not> zero_proven pair_start pair_exit" "event_delta pair_exit = Some (- 5)"
  by (simp_all add: liquidity_before_def liquidity_after_def pair_exit_def event_state_def state_number_def
      dget_def verified_mint_def zero_proven_def zero_liquidity_proven_def flag_of_def event_delta_def
      text_or_def) (simp_all add: raw_int_def)

lemma pair_transfer: "\<not> is_transfer pair_exit ''v2''"
  by (simp add: is_transfer_def pair_exit_def text_or_def)

lemma pair_kind: "event_kind pair_exit = ''remove''"
  by (simp add: pair_exit_def text_or_def)

lemma pair_identity: "update_identity pair_exit (pair_start, w) = (pair_start, w)"
  by (simp add: update_identity_def event_owner_def pair_exit_def Let_def)

definition pair_open :: acc_state where
  "pair_open = partial_episode [] pair_exit (pair_start\<lparr>as_liquidity := Some 0, as_liquidity_known := True\<rparr>)"

lemma pair_entered: "note_levels [] pair_exit (pair_start, w) = (pair_open, w)"
  by (simp add: note_levels_def pair_levels note_liquidity_def enter_episode_def begins_def pair_kind pair_open_def)

lemma pair_open_frame:
  obtains a where "as_active pair_open = Some a" and "ep_id a = ''k:1''" and "liquidity_is_zero pair_open"
proof -
  have "episode_id_of ''k'' 1 = ''k:1''"
    unfolding episode_id_of_def int_text_def by (subst nat_text.simps) code_simp
  with that show thesis
    by (simp add: pair_open_def partial_episode_def new_episode_def fresh_episode_def Let_def
        liquidity_is_zero_def liquidity_or_0_def)
qed

lemma pair_settles:
  assumes "as_active s = Some a" and "liquidity_is_zero s"
  shows "settle ''v2'' pair_exit (s, w) =
    (s\<lparr>as_active := None, as_settled := True\<rparr>, save_episode (settle_episode ''v2'' pair_exit a) w)"
  using assms by (simp add: settle_def pair_kind pair_levels claims_settled_def)

lemma claim_liquidity:
  "liquidity_is_zero (update_claim_state e fx s) = liquidity_is_zero s"
  by (simp add: update_claim_state_def update_owed_def update_pending_def liquidity_is_zero_def liquidity_or_0_def
      Let_def split: option.split)

lemma pair_processed:
  obtains s w row where "process_event [] [] pair_exit (pair_start, no_writes) = (s, w)"
    and "as_active s = None" and "map_of (aw_episodes w) ''k:1'' = Some row"
    and "list_all (\<lambda>(i, r). i = 1 \<and> fr_event_id r = 1 \<and> fr_key r = ''k'') (aw_effects w)"
proof -
  obtain a where a: "as_active pair_open = Some a" "ep_id a = ''k:1''" "liquidity_is_zero pair_open"
    by (rule pair_open_frame)
  define fx where "fx = financial_effect pair_open pair_exit []"
  define b where "b = apply_effect fx pair_exit a"
  define t where "t = update_claim_state pair_exit fx (pair_open\<lparr>as_active := Some b\<rparr>)"
  have "apply_event ''v2'' [] pair_exit pair_open = (t, fx)"
    by (simp add: apply_event_def a fx_def b_def t_def Let_def)
  moreover have "liquidity_is_zero t" "as_active t = Some b"
    using a(3) by (simp_all add: t_def claim_liquidity) (simp add: liquidity_is_zero_def liquidity_or_0_def)
  ultimately have "process_event [] [] pair_exit (pair_start, no_writes) =
     (t\<lparr>as_active := None, as_settled := True, as_last := event_order pair_exit,
        as_last_timestamp := ae_timestamp pair_exit\<rparr>,
      save_effect (make_effect_row (t\<lparr>as_active := None, as_settled := True\<rparr>) pair_exit fx (Some (ep_id b)) None)
        (save_episode (settle_episode ''v2'' pair_exit b) no_writes))"
    by (simp add: process_event_def pair_protocol pair_place move_token_def pair_transfer pair_identity
        pair_entered pair_settles Let_def)
  moreover have "ep_id b = ''k:1''" by (simp add: b_def a)
  moreover have "as_key t = ''k''"
    by (simp add: t_def pair_open_def partial_episode_def new_episode_def Let_def)
  ultimately show thesis
    using that by (simp add: save_effect_def save_episode_rows make_effect_row_def no_writes_def save_episode_def
        pair_exit_def)
qed

lemma pair_derived:
  obtains s1 w1 row where "derive no_pools ''k'' (Some no_saved) [pair_exit] None = (s1, w1)"
    and "as_active s1 = None" and "map_of (aw_episodes w1) ''k:1'' = Some row"
    and "list_all (\<lambda>(i, r). i = 1 \<and> fr_event_id r = 1 \<and> fr_key r = ''k'') (aw_effects w1)"
proof -
  obtain s w row where p: "process_event [] [] pair_exit (pair_start, no_writes) = (s, w)"
    "as_active s = None" "map_of (aw_episodes w) ''k:1'' = Some row"
    "list_all (\<lambda>(i, r). i = 1 \<and> fr_event_id r = 1 \<and> fr_key r = ''k'') (aw_effects w)"
    by (rule pair_processed)
  have "restore_ids no_saved (new_state ''k'' pair_exit) = ([], pair_start)"
    by (simp add: restore_ids_def no_saved_def put_ids_def pair_start_def new_state_def)
  moreover have "event_pool no_pools pair_start pair_exit = []"
    by (simp add: event_pool_def no_pools_def Let_def)
  ultimately have "derive no_pools ''k'' (Some no_saved) [pair_exit] None = save_run (s, w)"
    by (simp add: derive_def sample_prepared run_events_def replay_step_def p)
  with p that show thesis
    by (simp add: save_run_def save_position_def)
qed

section \<open>The properties applied\<close>

lemma episode_totals_sum_witness:
  "\<exists>s w row. derive no_pools ''k'' (Some no_saved) [pair_exit] None = (s, w) \<and>
     map_of (aw_episodes w) ''k:1'' = Some row \<and> ep_deposit (er_facts row) = total_of fr_deposit (aw_effects w) ''k:1'' \<and>
     ep_proceeds (er_facts row) = total_of fr_proceeds (aw_effects w) ''k:1''"
proof -
  obtain s w row where d: "derive no_pools ''k'' (Some no_saved) [pair_exit] None = (s, w)"
    "map_of (aw_episodes w) ''k:1'' = Some row"
    by (rule pair_derived)
  have "log_ok [pair_exit]" using sample_log_ok by (simp add: log_ok_def)
  from episode_totals_sum [OF no_saved_ok this d(1), of "''k:1''"] d show ?thesis by (auto simp: Let_def)
qed

lemma closed_episode_final_witness:
  "\<exists>row. map_of (aw_episodes (snd (derive no_pools ''k'' (Some no_saved) [pair_exit, pair_again] None))) ''k:1''
    = Some row"
proof -
  obtain s1 w1 row where d: "derive no_pools ''k'' (Some no_saved) [pair_exit] None = (s1, w1)"
    "as_active s1 = None" "map_of (aw_episodes w1) ''k:1'' = Some row"
    by (rule pair_derived)
  have "ae_block ` set [pair_exit] \<inter> ae_block ` set [pair_again] = {}"
    by (simp add: pair_exit_def pair_again_def)
  then show ?thesis
    using closed_episode_final [of "''k''" no_saved "[pair_exit]" "[pair_again]" no_pools s1 w1 "''k:1''" row]
      no_saved_ok sample_log_ok d by simp
qed

lemma append_refines_replay_witness:
  "\<exists>s1 w1 s2 w2. derive no_pools ''k'' (Some no_saved) [pair_exit] None = (s1, w1)
    \<and> derive no_pools ''k'' None [pair_again] (Some s1) = (s2, w2)
    \<and> fst (derive no_pools ''k'' (Some no_saved) ([pair_exit] @ sort_key event_order [pair_again]) None) = s2
    \<and> rows_over w1 w2
        (snd (derive no_pools ''k'' (Some no_saved) ([pair_exit] @ sort_key event_order [pair_again]) None))"
proof -
  obtain s1 w1 where d: "derive no_pools ''k'' (Some no_saved) [pair_exit] None = (s1, w1)" by fastforce
  obtain s2 w2 where t: "derive no_pools ''k'' None [pair_again] (Some s1) = (s2, w2)" by fastforce
  have log: "log_ok [pair_exit]" "log_ok [pair_again]"
    using sample_log_ok log_ok_append [of "[pair_exit]" "[pair_again]"] by simp_all
  note stored = stored_position [OF no_saved_ok log(1) _ d]
  have "append_position no_pools ''k'' [2] (map_of (aw_positions w1) ''k'') [1] [pair_again] = Some (s2, w2)"
    using stored t by (simp add: append_position_def follows_def pair_exit_def pair_again_def)
  then show ?thesis
    using append_refines_replay [of "''k''" no_saved "[pair_exit]" "[pair_again]" no_pools s1 w1 "[2]" "[1]" s2 w2]
      no_saved_ok log d t by (simp add: saved_places_def no_saved_def)
qed

text \<open>An event in the block of the last one is refused.\<close>

lemma append_only_later_blocks_witness:
  "\<exists>s1 w1. derive no_pools ''k'' (Some no_saved) [pair_exit] None = (s1, w1)
    \<and> append_position no_pools ''k'' [3] (map_of (aw_positions w1) ''k'') [1]
        [sample_event 3 10 ''add'' ''v2'' (Some 7) (Tokens 10 20) []] = None"
proof -
  obtain s1 w1 where d: "derive no_pools ''k'' (Some no_saved) [pair_exit] None = (s1, w1)" by fastforce
  have log: "log_ok [pair_exit]" using sample_log_ok log_ok_append [of "[pair_exit]" "[pair_again]"] by simp
  show ?thesis
    using append_only_later_blocks [OF no_saved_ok _ log d, of "[3]"
        "[sample_event 3 10 ''add'' ''v2'' (Some 7) (Tokens 10 20) []]" "[1]"] d
    by (simp add: pair_exit_def)
qed

lemma collect_conserves_witness:
  "fx_principal (financial_effect (pair_start\<lparr>as_protocol := ''v3'', as_pending := Some (Tokens 90 230), as_pending_known := True\<rparr>)
      (sample_event 4 40 ''collect'' ''v3'' None (Tokens 100 240)
        [(''position_after'', JObj [(''claims_empty'', JBool True)])]) [])
    + fx_fees (financial_effect (pair_start\<lparr>as_protocol := ''v3'', as_pending := Some (Tokens 90 230), as_pending_known := True\<rparr>)
      (sample_event 4 40 ''collect'' ''v3'' None (Tokens 100 240)
        [(''position_after'', JObj [(''claims_empty'', JBool True)])]) [])
    = fx_proceeds (financial_effect (pair_start\<lparr>as_protocol := ''v3'', as_pending := Some (Tokens 90 230), as_pending_known := True\<rparr>)
      (sample_event 4 40 ''collect'' ''v3'' None (Tokens 100 240)
        [(''position_after'', JObj [(''claims_empty'', JBool True)])]) [])"
proof -
  define s where "s = pair_start\<lparr>as_protocol := ''v3'', as_pending := Some (Tokens 90 230), as_pending_known := True\<rparr>"
  define e where "e = sample_event 4 40 ''collect'' ''v3'' None (Tokens 100 240)
    [(''position_after'', JObj [(''claims_empty'', JBool True)])]"
  have frame: "as_pending s = Some (Tokens 90 230)" "as_pending_known s" "state_protocol s e = ''v3''"
    by (simp_all add: s_def state_protocol_def text_or_def)
  have ok: "claims_ok s"
    by (simp add: s_def claims_ok_def pair_start_def new_state_def token_simps less_eq_tokens_def)
  have kind: "event_kind e = ''collect''" "event_fees e = None" "event_amounts e = Some (Tokens 100 240)"
    by (simp_all add: e_def text_or_def)
  have "claims_end e"
    by (simp add: claims_end_def e_def event_state_def dget_def)
  then have "v3_collect_split s e (both abs (Tokens 100 240)) =
      Some (Tokens 90 230, taken_from (both abs (Tokens 100 240)) (Tokens 90 230))"
    using frame kind by (simp add: v3_collect_split_def less_eq_tokens_def Let_def amounts_or_0_def)
  then have "fx_allocation_exact (financial_effect s e [])"
    using frame kind by (simp add: financial_effect_def effect_amounts_def v3_effect_def v3_collect_effect_def
        no_effect_def Let_def)
  from collect_conserves [OF ok frame(3) kind(1,2) this] show ?thesis
    unfolding s_def e_def by blast
qed

section \<open>The exit from a V3 position\<close>














section \<open>Publication\<close>

text \<open>Stored effects: a stale one of the position, and one of another position.\<close>

definition stored_effect :: "int \<Rightarrow> string \<Rightarrow> string \<Rightarrow> effect_row" where
  "stored_effect i key tx =
     (make_effect_row (new_state key pair_again) pair_again (no_effect ''v2'') None None)
       \<lparr>fr_event_id := i, fr_tx_hash := tx\<rparr>"

definition sample_tables :: acc_tables where
  "sample_tables = \<lparr>tb_ownership = [], tb_episodes = [],
     tb_effects = [stored_effect 7 ''k'' ''0xaa'', stored_effect 8 ''m'' ''0xbb''], tb_positions = [],
     tb_identities = [(''k'', 3, []), (''m'', 1, [])]\<rparr>"

lemma stored_effect_frame [simp]:
  "fr_event_id (stored_effect i k t) = i" "fr_key (stored_effect i k t) = k" "fr_tx_hash (stored_effect i k t) = t"
  by (simp_all add: stored_effect_def make_effect_row_def new_state_def)

lemma sample_tables_ok: "keyed_tables sample_tables" "own_rows key w sample_tables"
  by (simp_all add: keyed_tables_def own_rows_def sample_tables_def)

lemma pair_published:
  obtains w where "w = snd (derive no_pools ''k'' (Some no_saved) [pair_exit] None)"
    and "events_keyed [(1, ''k'')] w" and "map_of (aw_effects w) 7 = None" and "map_of (aw_effects w) 8 = None"
proof -
  obtain s1 w1 row where d: "derive no_pools ''k'' (Some no_saved) [pair_exit] None = (s1, w1)"
    and l: "list_all (\<lambda>(i, r). i = 1 \<and> fr_event_id r = 1 \<and> fr_key r = ''k'') (aw_effects w1)"
    by (rule pair_derived)
  have ids: "i = 1" if "(i, r) \<in> set (aw_effects w1)" for i r
    using l that by (auto simp: list_all_iff)
  have none: "map_of (aw_effects w1) i = None" if "i \<noteq> 1" for i
    using ids map_of_SomeD [of "aw_effects w1" i] that by (cases "map_of (aw_effects w1) i") auto
  have "events_keyed [(1, ''k'')] w1"
    using l unfolding events_keyed_def by (rule list.pred_mono_strong) auto
  with that [of w1] none d show thesis by simp
qed

lemma replay_published_witness:
  "\<exists>w tb'. w = snd (derive no_pools ''k'' (Some no_saved) [pair_exit] None)
    \<and> tb' = flush_writes False ''k'' [(1, ''k'')] [] w sample_tables
    \<and> row_at fr_event_id (tb_effects tb') 7 = None
    \<and> row_at fr_event_id (tb_effects tb') 8 = Some (stored_effect 8 ''m'' ''0xbb'')
    \<and> map_of (tb_identities tb') ''k'' = None"
proof -
  obtain w where w: "w = snd (derive no_pools ''k'' (Some no_saved) [pair_exit] None)"
    "events_keyed [(1, ''k'')] w" "map_of (aw_effects w) 7 = None" "map_of (aw_effects w) 8 = None"
    by (rule pair_published)
  note p = replay_published [OF w(1) sample_tables_ok w(2) refl, where costs = "[]"]
  have "row_at fr_event_id (tb_effects sample_tables) 7 = Some (stored_effect 7 ''k'' ''0xaa'')"
    "row_at fr_event_id (tb_effects sample_tables) 8 = Some (stored_effect 8 ''m'' ''0xbb'')"
    by (simp_all add: sample_tables_def row_at_def)
  then have "published fr_event_id keep_new (\<lambda>r. fr_key r = ''k'') (tb_effects sample_tables) (aw_effects w) 7 = None"
    "published fr_event_id keep_new (\<lambda>r. fr_key r = ''k'') (tb_effects sample_tables) (aw_effects w) 8
      = Some (stored_effect 8 ''m'' ''0xbb'')"
    using w(3,4) by (simp_all add: published_def)
  with p have "row_at fr_event_id (tb_effects (flush_writes False ''k'' [(1, ''k'')] [] w sample_tables)) 7 = None
    \<and> row_at fr_event_id (tb_effects (flush_writes False ''k'' [(1, ''k'')] [] w sample_tables)) 8
      = Some (stored_effect 8 ''m'' ''0xbb'')
    \<and> map_of (tb_identities (flush_writes False ''k'' [(1, ''k'')] [] w sample_tables)) ''k'' = None"
    by (metis fun_upd_same)
  with w(1) show ?thesis by metis
qed

lemma changed_effects_reported_witness:
  "\<exists>w. w = snd (derive no_pools ''k'' (Some no_saved) [pair_exit] None)
    \<and> ''0xaa'' \<in> set (pp_txs (prepare_writes False ''k'' [] sample_tables w))"
proof -
  obtain w where w: "w = snd (derive no_pools ''k'' (Some no_saved) [pair_exit] None)"
    "events_keyed [(1, ''k'')] w" "map_of (aw_effects w) 7 = None" "map_of (aw_effects w) 8 = None"
    by (rule pair_published)
  have "filed_writes w" using w(1) derive_filed by simp
  note p = fun_cong [where x = 7, OF tables_published(4) [OF this sample_tables_ok w(2) refl, where costs = "[]" and key = "''k''"]]
  have at: "row_at fr_event_id (tb_effects sample_tables) 7 = Some (stored_effect 7 ''k'' ''0xaa'')"
    by (simp add: sample_tables_def row_at_def)
  then have none: "published fr_event_id keep_new (\<lambda>r. fr_key r = ''k'') (tb_effects sample_tables) (aw_effects w) 7 = None"
    using w(3) by (simp add: published_def)
  have gone: "row_at fr_event_id (tb_effects (flush_writes False ''k'' [(1, ''k'')] [] w sample_tables)) 7
      \<noteq> row_at fr_event_id (tb_effects sample_tables) 7"
    unfolding p none at by simp
  have "fr_tx_hash (stored_effect 7 ''k'' ''0xaa'') \<in> set (pp_txs (prepare_writes False ''k'' [] sample_tables w))"
    by (rule changed_effects_reported [OF w(1) sample_tables_ok(1) gone disjI1 [OF at]]) simp
  with w(1) show ?thesis by auto
qed

end
