(* ===== verification/Spec2Isabelle.thy ===== *)
theory Spec2Isabelle
  imports Prelude Lp_Math Byte_Codec Json_Text Registry Tx_Chain Tx_Routes Tx_Calls Tx_Plan Tx_Swap Tx_Lp
    Tx_Split Tx_Node Tx_Quote Tx_Core Tx_Best Tx_Sample Tx_Session
    Bounded_Store Gate_Policy Gate_Limits Gate_Oracle Gate_Siwe Gate_Session Gate_Reach Gate_Access
    Lp_Abi Lp_Events Lp_Nft Lp_Trace Lp_Decode Lp_Rows Lp_Owners Lp_Kept Lp_Cash Lp_Call Lp_State Lp_Pins
    Lp_Spacing Lp_Sample
    Acc_Read Acc_Event Acc_Process Acc_Replay Acc_Inv Acc_Totals Acc_History Acc_Blocks Acc_Append
    Acc_Exit Acc_Flush Acc_Publish Acc_Sample
begin

text \<open>
  A verification development of Robinhood Pools (\<^verbatim>\<open>src/src/rhpools/\<close>), the service that indexes
  the liquidity pools of one chain, quotes and prepares swaps and liquidity changes for wallets that
  sign for themselves, and lets holders of a token use these features. Paths below are relative to
  \<^verbatim>\<open>src/src/rhpools/\<close>.

  \<^bold>\<open>Parts.\<close> The trading core (\<^verbatim>\<open>tx_core.py\<close>) asks the route book (\<^verbatim>\<open>tx_routes.py\<close>) for
  candidate routes, plans each with \<^verbatim>\<open>tx_plan.py\<close>, encodes the plan with \<^verbatim>\<open>tx_chain.py\<close>, has the
  node simulate it, reads the traced transfers back, and keeps the best as a quote; \<^verbatim>\<open>prepare\<close> turns
  a stored quote into an unsigned transaction after checking the chain again. The gate
  (\<^verbatim>\<open>lp_gate.py\<close>, \<^verbatim>\<open>lp_gate_siwe.py\<close>) decides who may do this: an owner-signed policy, the wallet's
  balance, sign-in by a signed message, sessions and keys, and limits on the rate of requests.

  \<^bold>\<open>Theories.\<close>
  \<^item> \<^theory_text>\<open>Prelude\<close>: Python exceptions as values (\<open>py_error\<close>, \<open>'e + 'a\<close>), sequencing of fallible steps
    (\<open>bindr\<close>, \<open>map_res\<close>) and of steps that change a state (\<open>bind_st\<close>, which keeps the state an exception
    leaves behind), Python's floor division, ordered dictionaries as association lists.
  \<^item> \<^theory_text>\<open>Bounded_Store\<close>: the locale of the stores with a bound that several services keep; interpreted on
    the sliding windows, the token buckets, the caches and the trimmed dictionaries of the model.
  \<^item> \<^theory_text>\<open>Byte_Codec\<close>, \<^theory_text>\<open>Json_Text\<close>: bytes, hexadecimal text, integers of fixed width, JSON values and text
    functions of Python as the modules use them.
  \<^item> \<^theory_text>\<open>Lp_Math\<close> (\<^verbatim>\<open>lp_math.py\<close>): tick and price arithmetic. \<open>sqrt_ratio_at_tick\<close> is strictly increasing on its
    whole domain and \<open>tick_at_sqrt_price_x96\<close> is the greatest tick not above a price, by the locale
    \<open>price_curve\<close> of a strictly increasing curve, interpreted on the code's curve.
  \<^item> \<^theory_text>\<open>Registry\<close> (\<^verbatim>\<open>lp_chain.py\<close>): the constants; \<^theory_text>\<open>Tx_Chain\<close> and \<^theory_text>\<open>Tx_Calls\<close> (\<^verbatim>\<open>tx_chain.py\<close>): calldata encoders and
    decoders with their round trips, classification of reverts, typed data to sign.
  \<^item> \<^theory_text>\<open>Tx_Routes\<close> (\<^verbatim>\<open>tx_routes.py\<close>): pools, hops, candidate routes.
  \<^item> \<^theory_text>\<open>Tx_Plan\<close>, \<^theory_text>\<open>Tx_Swap\<close>, \<^theory_text>\<open>Tx_Lp\<close> (\<^verbatim>\<open>tx_plan.py\<close>): plans of swaps, splits and liquidity changes, reading the
    ledger of transfers, the final minimums; custody, reconciliation and bounds of the amounts.
  \<^item> \<^theory_text>\<open>Tx_Split\<close>, \<^theory_text>\<open>Tx_Node\<close>, \<^theory_text>\<open>Tx_Quote\<close>, \<^theory_text>\<open>Tx_Core\<close> (\<^verbatim>\<open>tx_core.py\<close>, \<^verbatim>\<open>tx_allowlist.py\<close>): the greedy split allocation
    (with its optimality on concave curves), reading the node, the search for the best execution,
    the quote and its store, liquidity quotes, \<^verbatim>\<open>prepare\<close>. \<^theory_text>\<open>Tx_Best\<close> shows that no simulated candidate
    beats the quote; \<^theory_text>\<open>Tx_Session\<close> takes the core through any sequence of requests (an inductive step
    relation) and shows the bound of the quote store, the isolation of wallets, and what a prepared
    transaction does. \<^theory_text>\<open>Tx_Sample\<close> runs one order on a concrete node; the witnesses rest on it.
  \<^item> \<^theory_text>\<open>Gate_Policy\<close>, \<^theory_text>\<open>Gate_Limits\<close>, \<^theory_text>\<open>Gate_Oracle\<close>, \<^theory_text>\<open>Gate_Session\<close> (\<^verbatim>\<open>lp_gate.py\<close>), \<^theory_text>\<open>Gate_Siwe\<close>
    (\<^verbatim>\<open>lp_gate_siwe.py\<close>): the gate's parts; \<^theory_text>\<open>Gate_Reach\<close> has its operations as steps in any order, with
    restarts, and the invariants of every state reached; \<^theory_text>\<open>Gate_Access\<close> goes from the headers of a
    request to what it may do.
  \<^item> \<^theory_text>\<open>Lp_Abi\<close>, \<^theory_text>\<open>Lp_Events\<close>, \<^theory_text>\<open>Lp_Nft\<close>, \<^theory_text>\<open>Lp_Trace\<close>, \<^theory_text>\<open>Lp_Decode\<close>
    (\<^verbatim>\<open>lp_market_protocols.py\<close>): from the logs of a batch to its rows: ABI readers, the events of the
    pools, the owners of positions from the events of their managers, exact cash flows from call
    traces, and \<^verbatim>\<open>decode_logs\<close> itself. \<^theory_text>\<open>Lp_Rows\<close> has the locales of what the correlation keeps of a
    row (\<open>row_view\<close> and its two extensions), interpreted for the amounts, the owners and the cash
    flows; \<^theory_text>\<open>Lp_Owners\<close> shows that owners and tokens are proved by transfers and manager events,
    \<^theory_text>\<open>Lp_Kept\<close> which fields of which rows the correlation may write at all, \<^theory_text>\<open>Lp_Cash\<close> that
    cash flows are return values of calls in the trace, \<^theory_text>\<open>Lp_Call\<close> that decoding a call undoes encoding it. \<^theory_text>\<open>Lp_State\<close> has the block-pinned state requests and the decoder of their
    replies, \<^theory_text>\<open>Lp_Pins\<close> the locale \<open>request_law\<close> of what every request obeys and that it
    carries the proofs of births and burns its decoder asks for, and no others; \<^theory_text>\<open>Lp_Spacing\<close> has
    the search for the tick spacing of a pool identifier with its hints and its cache. \<^theory_text>\<open>Lp_Sample\<close> decodes two transactions on concrete logs.
  \<^item> \<^theory_text>\<open>Acc_Read\<close>, \<^theory_text>\<open>Acc_Event\<close>, \<^theory_text>\<open>Acc_Process\<close>, \<^theory_text>\<open>Acc_Replay\<close>, \<^theory_text>\<open>Acc_Flush\<close>
    (\<^verbatim>\<open>lp_market_accounting.py\<close>): the accounts of one position. \<^theory_text>\<open>Acc_Read\<close> has the readers of columns,
    amounts of two tokens (an ordered commutative monoid) and the rows that are written;
    \<^theory_text>\<open>Acc_Event\<close> transfers, identity, episodes, what an event moves and what stays claimed;
    \<^theory_text>\<open>Acc_Process\<close> one event (\<^verbatim>\<open>_process_event\<close>) on the state and the rows; \<^theory_text>\<open>Acc_Replay\<close> the replay
    (\<^verbatim>\<open>_derive\<close>), the append and the saved identities; \<^theory_text>\<open>Acc_Flush\<close> the comparison of a replay with the
    stored rows (\<^verbatim>\<open>_ReplayWrites\<close>), by the locale \<open>row_group\<close>, interpreted for intervals, episodes and
    positions. \<^theory_text>\<open>Acc_Inv\<close> shows that every event keeps the state well formed, \<^theory_text>\<open>Acc_Totals\<close> that
    deposits and proceeds of an episode, its fees and, with all cash flows known, its principal are the
    sums of its effects, unless its proceeds are divided anew when it completes, \<^theory_text>\<open>Acc_History\<close> and
    \<^theory_text>\<open>Acc_Blocks\<close> how replays compose, \<^theory_text>\<open>Acc_Append\<close> that an append is the rest of a replay and that closed episodes are final,
    \<^theory_text>\<open>Acc_Exit\<close> that leaving a V3 position completes its episode, \<^theory_text>\<open>Acc_Publish\<close> what a published replay
    leaves in the tables. Values in dollars are real numbers: the rounding of floats is not modelled.
    \<^theory_text>\<open>Acc_Sample\<close> applies all this to a small history.

  \<^bold>\<open>Correspondence.\<close> Classes are records, enums and tagged unions datatypes, dictionaries association
  lists in insertion order, exceptions values: \<open>Inl e\<close> is the raise, and functions that change an
  object return its state also when they raise. Python integers are \<open>int\<close>; where the code works at a
  width (calldata words, ticks), the encoders check the width and fail as \<^verbatim>\<open>to_bytes\<close> does.
  Addresses and hexadecimal texts stay strings, as in the code.

  \<^bold>\<open>Parameters.\<close> The JSON-RPC node is a function from method and parameters to a reply or an
  exception, one view of it per request; keccak, sha256, signature recovery, checksums, and the
  renderings of times are arguments; random tokens and identifiers and the readings of the clock are
  arguments of the operation that takes them. Threads of the simulating pool only read, so their
  order does not matter; operations of the gate that other threads may interleave with take what the
  others do as a function argument.

  \<^bold>\<open>Recursion and fuel.\<close> Loops over lists are structural. The search for a tick recurses on the width of
  its interval, with a termination measure. One definition takes fuel:
  \<open>decode_revert\<close> has a recursion depth, because failures nest in failures. It is called with one more
  than the length of the payload, which is enough: the bytes a failure wraps are fewer than its own,
  so the depth is never used up (\<open>decode_revert_total\<close>). \<open>allocate_steps\<close> counts the ten steps of the
  code's own loop.

  \<^bold>\<open>Not modelled.\<close> The transport (HTTP server, JSON-RPC client, websockets), the SQLite layer itself
  (tables are lists of rows and the rows of a query are arguments where a part is modelled), the pool
  view, balances, receipts and history of \<^verbatim>\<open>tx_core.py\<close>; of \<^verbatim>\<open>lp_market_accounting.py\<close> the queue of
  projections and its workers, rollbacks, the valuation of positions and episodes, transaction costs,
  the views and the activity of owners; the market index, service, public API and research views, the
  command lines, backup and health checks, and the JavaScript under \<^verbatim>\<open>static/\<close>.
\<close>

end
